(* ===== verification/Prelude.thy ===== *)
theory Prelude
  imports Main "HOL-Library.Word" "HOL-Library.Char_ord" "HOL-Library.List_Lexorder"
begin

text \<open>
  What the components share: the machine integers and their checked operations, the string
  operations of the Rust standard library the code calls, decimal printing and parsing, and
  \<open>BTreeMap\<close> as a list of pairs sorted by key.  A string is the list of its Unicode scalar
  values; HOL's \<open>char\<close> covers the first 256 of them.
\<close>

named_theorems wf_intros \<open>introduction rules for well-formedness predicates\<close>
named_theorems outcome_simps \<open>how the classification functions act on outcomes\<close>

section \<open>Machine integers\<close>

type_synonym u16 = "16 word"
type_synonym u32 = "32 word"
type_synonym u64 = "64 word"
type_synonym i64 = "64 word"
type_synonym usize = "64 word"

text \<open>A \<open>u8\<close> is only ever a matrix row number or a label order; no arithmetic is done on it.\<close>

type_synonym u8 = nat
type_synonym i32 = int

definition checked_add :: "u64 \<Rightarrow> u64 \<Rightarrow> u64 option" where
  "checked_add a b = (if unat a + unat b < 2 ^ 64 then Some (a + b) else None)"

definition checked_sub :: "u64 \<Rightarrow> u64 \<Rightarrow> u64 option" where
  "checked_sub a b = (if b \<le> a then Some (a - b) else None)"

definition checked_mul :: "u64 \<Rightarrow> u64 \<Rightarrow> u64 option" where
  "checked_mul a b = (if unat a * unat b < 2 ^ 64 then Some (a * b) else None)"

definition saturating_sub :: "u64 \<Rightarrow> u64 \<Rightarrow> u64" where
  "saturating_sub a b = (if b \<le> a then a - b else 0)"

definition saturating_add :: "u64 \<Rightarrow> u64 \<Rightarrow> u64" where
  "saturating_add a b = (if unat a + unat b < 2 ^ 64 then a + b else 18446744073709551615)"

definition saturating_mul :: "u64 \<Rightarrow> u64 \<Rightarrow> u64" where
  "saturating_mul a b = (if unat a * unat b < 2 ^ 64 then a * b else 18446744073709551615)"

definition abs_diff :: "u64 \<Rightarrow> u64 \<Rightarrow> u64" where
  "abs_diff a b = (if b \<le> a then a - b else b - a)"

lemma checked_add_Some: "checked_add a b = Some c \<Longrightarrow> unat c = unat a + unat b"
  by (auto simp: checked_add_def unat_word_ariths split: if_splits)

lemma checked_add_None: "checked_add a b = None \<longleftrightarrow> 2 ^ 64 \<le> unat a + unat b"
  by (auto simp: checked_add_def)

lemma checked_mul_Some: "checked_mul a b = Some c \<Longrightarrow> unat c = unat a * unat b"
  by (auto simp: checked_mul_def unat_word_ariths split: if_splits)

lemma checked_sub_Some: "checked_sub a b = Some c \<longleftrightarrow> b \<le> a \<and> c = a - b"
  by (auto simp: checked_sub_def)

lemma unat_sub_le: "b \<le> a \<Longrightarrow> unat ((a :: u64) - b) = unat a - unat b"
  by (simp add: unat_sub)

lemma unat_saturating_sub: "unat (saturating_sub a b) = unat a - unat b"
  by (auto simp: saturating_sub_def unat_sub word_le_nat_alt)

lemma unat_saturating_mul: "unat (saturating_mul a b) = min (unat a * unat b) (2 ^ 64 - 1)"
  by (auto simp: saturating_mul_def unat_word_ariths)

lemma unat_abs_diff: "unat (abs_diff a b) = (unat a - unat b) + (unat b - unat a)"
  by (auto simp: abs_diff_def unat_sub word_le_nat_alt)

section \<open>Decimal numbers\<close>

definition digit :: "nat \<Rightarrow> char" where
  "digit d = char_of (48 + d)"

fun show_nat :: "nat \<Rightarrow> string" where
  "show_nat n = (if n < 10 then [digit n] else show_nat (n div 10) @ [digit (n mod 10)])"

declare show_nat.simps [simp del]

definition show_u64 :: "u64 \<Rightarrow> string" where
  "show_u64 w = show_nat (unat w)"

definition show_u32 :: "u32 \<Rightarrow> string" where
  "show_u32 w = show_nat (unat w)"

definition is_digit :: "char \<Rightarrow> bool" where
  "is_digit c \<longleftrightarrow> 48 \<le> (of_char c :: nat) \<and> (of_char c :: nat) \<le> 57"

definition digit_val :: "char \<Rightarrow> nat" where
  "digit_val c = of_char c - 48"

definition digits_val :: "string \<Rightarrow> nat" where
  "digits_val s = foldl (\<lambda>n c. 10 * n + digit_val c) 0 s"

text \<open>\<open>str::parse\<close> for an unsigned type below \<open>bound\<close>: an optional plus sign, then digits.\<close>

definition parse_unsigned :: "nat \<Rightarrow> string \<Rightarrow> nat option" where
  "parse_unsigned bound s = (let ds = (case s of c # t \<Rightarrow> if c = CHR ''+'' then t else s | [] \<Rightarrow> s)
     in if ds \<noteq> [] \<and> list_all is_digit ds \<and> digits_val ds < bound then Some (digits_val ds) else None)"

lemma is_digit_digit: "d < 10 \<Longrightarrow> is_digit (digit d)"
  by (simp add: is_digit_def digit_def)

lemma digit_val_digit: "d < 10 \<Longrightarrow> digit_val (digit d) = d"
  by (simp add: digit_val_def digit_def)

lemma digits_val_snoc: "digits_val (s @ [c]) = 10 * digits_val s + digit_val c"
  by (simp add: digits_val_def)

lemma show_nat_digits: "list_all is_digit (show_nat n) \<and> show_nat n \<noteq> [] \<and> digits_val (show_nat n) = n"
proof (induction n rule: show_nat.induct)
  case (1 n)
  show ?case
  proof (cases "n < 10")
    case True
    then show ?thesis
      by (subst (1 2 3) show_nat.simps) (simp add: is_digit_digit digits_val_def digit_val_digit)
  next
    case False
    with 1 have "list_all is_digit (show_nat (n div 10))" "digits_val (show_nat (n div 10)) = n div 10"
      by simp_all
    with False show ?thesis
      by (subst (1 2 3) show_nat.simps) (simp add: is_digit_digit digit_val_digit digits_val_snoc)
  qed
qed

lemma not_is_digit_plus: "is_digit c \<Longrightarrow> c \<noteq> CHR ''+''"
  by (auto simp: is_digit_def)

lemma parse_show_nat: "n < bound \<Longrightarrow> parse_unsigned bound (show_nat n) = Some n"
proof -
  assume b: "n < bound"
  from show_nat_digits[of n] obtain c t where s: "show_nat n = c # t" "is_digit c"
    by (cases "show_nat n") auto
  with show_nat_digits[of n] b not_is_digit_plus[of c] show ?thesis
    by (simp add: parse_unsigned_def)
qed

section \<open>Strings\<close>

fun starts_with :: "string \<Rightarrow> string \<Rightarrow> bool" where
  "starts_with s [] = True"
| "starts_with [] (_ # _) = False"
| "starts_with (c # s) (d # p) = (c = d \<and> starts_with s p)"

fun contains_str :: "string \<Rightarrow> string \<Rightarrow> bool" where
  "contains_str [] p = (p = [])"
| "contains_str (c # s) p = (starts_with (c # s) p \<or> contains_str s p)"

definition contains_any :: "string \<Rightarrow> char list \<Rightarrow> bool" where
  "contains_any s cs = list_ex (\<lambda>c. c \<in> set cs) s"

fun split_on :: "char \<Rightarrow> string \<Rightarrow> string list" where
  "split_on d [] = [[]]"
| "split_on d (c # s) =
     (if c = d then [] # split_on d s
      else case split_on d s of p # ps \<Rightarrow> (c # p) # ps | [] \<Rightarrow> [[c]])"

fun join :: "string \<Rightarrow> string list \<Rightarrow> string" where
  "join d [] = []"
| "join d [p] = p"
| "join d (p # ps) = p @ d @ join d ps"

definition is_whitespace :: "char \<Rightarrow> bool" where
  "is_whitespace c \<longleftrightarrow> (of_char c :: nat) \<in> {9, 10, 11, 12, 13, 32, 133, 160}"

definition blank :: "string \<Rightarrow> bool" where
  "blank s \<longleftrightarrow> list_all is_whitespace s"

lemma starts_with_iff: "starts_with s p \<longleftrightarrow> (\<exists>t. s = p @ t)"
  by (induction s p rule: starts_with.induct) auto

lemma contains_str_iff: "contains_str s p \<longleftrightarrow> (\<exists>a b. s = a @ p @ b)"
proof (induction s)
  case Nil
  then show ?case by auto
next
  case (Cons c s)
  then show ?case by (auto simp: starts_with_iff Cons_eq_append_conv)
qed

lemma split_on_ne [simp]: "split_on d s \<noteq> []"
  by (induction s) (auto split: list.splits)

lemma join_split_on: "join [d] (split_on d s) = s"
proof (induction s)
  case (Cons c s)
  then show ?case by (cases "split_on d s" rule: list.exhaust; cases "tl (split_on d s)") auto
qed simp

lemma split_on_pieces: "p \<in> set (split_on d s) \<Longrightarrow> d \<notin> set p"
  by (induction s arbitrary: p) (auto split: list.splits if_splits)

lemma split_on_append_sep: "d \<notin> set p \<Longrightarrow> split_on d (p @ d # s) = p # split_on d s"
  by (induction p) auto

lemma split_on_no_sep: "d \<notin> set p \<Longrightarrow> split_on d p = [p]"
  by (induction p) auto

lemma split_on_join: "ps \<noteq> [] \<Longrightarrow> \<forall>p \<in> set ps. d \<notin> set p \<Longrightarrow> split_on d (join [d] ps) = ps"
  by (induction "[d]" ps rule: join.induct) (auto simp: split_on_no_sep split_on_append_sep)

section \<open>Ordered maps\<close>

text \<open>
  A \<open>BTreeMap\<close> is the list of its entries in key order: lookup, membership and insertion, and
  iteration is the list itself.  The interface the clients rely on is the locale
  \<open>ordered_map\<close>; the list implementation interprets it.
\<close>

type_synonym ('k, 'v) btree = "('k \<times> 'v) list"

fun bt_get :: "('k, 'v) btree \<Rightarrow> 'k \<Rightarrow> 'v option" where
  "bt_get [] k = None"
| "bt_get ((k', v) # m) k = (if k = k' then Some v else bt_get m k)"

definition bt_contains :: "('k, 'v) btree \<Rightarrow> 'k \<Rightarrow> bool" where
  "bt_contains m k = (bt_get m k \<noteq> None)"

fun bt_insert :: "'k :: linorder \<Rightarrow> 'v \<Rightarrow> ('k, 'v) btree \<Rightarrow> ('k, 'v) btree" where
  "bt_insert k v [] = [(k, v)]"
| "bt_insert k v ((k', v') # m) =
     (if k < k' then (k, v) # (k', v') # m
      else if k = k' then (k, v) # m else (k', v') # bt_insert k v m)"

definition bt_wf :: "('k :: linorder, 'v) btree \<Rightarrow> bool" where
  "bt_wf m \<longleftrightarrow> sorted_wrt (<) (map fst m)"

definition bt_of_list :: "('k :: linorder \<times> 'v) list \<Rightarrow> ('k, 'v) btree" where
  "bt_of_list xs = foldl (\<lambda>m (k, v). bt_insert k v m) [] xs"

locale ordered_map =
  fixes empty :: "'m" and insert :: "'k :: linorder \<Rightarrow> 'v \<Rightarrow> 'm \<Rightarrow> 'm"
    and get :: "'m \<Rightarrow> 'k \<Rightarrow> 'v option" and keys :: "'m \<Rightarrow> 'k list" and invar :: "'m \<Rightarrow> bool"
  assumes get_empty: "get empty k = None"
    and get_insert: "get (insert k v m) j = (if j = k then Some v else get m j)"
    and keys_get: "set (keys m) = {k. get m k \<noteq> None}"
    and invar_empty: "invar empty"
    and invar_insert: "invar m \<Longrightarrow> invar (insert k v m)"
    and invar_keys: "invar m \<Longrightarrow> sorted_wrt (<) (keys m)"
begin

lemma get_foldl_insert:
  "get (foldl (\<lambda>m (k, v). insert k v m) m0 xs) j =
    (case map_of (rev xs) j of Some v \<Rightarrow> Some v | None \<Rightarrow> get m0 j)"
  by (induction xs arbitrary: m0) (auto simp: get_insert map_add_def split: option.splits)

lemma invar_foldl_insert: "invar m0 \<Longrightarrow> invar (foldl (\<lambda>m (k, v). insert k v m) m0 xs)"
  by (induction xs arbitrary: m0) (auto intro: invar_insert)

lemma keys_insert: "set (keys (insert k v m)) = Set.insert k (set (keys m))"
  by (auto simp: keys_get get_insert)

lemma keys_distinct: "invar m \<Longrightarrow> distinct (keys m)"
  using invar_keys strict_sorted_iff by blast

end

lemma bt_get_eq_map_of: "bt_get m k = map_of m k"
  by (induction m k rule: bt_get.induct) auto

lemma bt_get_insert: "bt_get (bt_insert k v m) j = (if j = k then Some v else bt_get m j)"
  by (induction k v m rule: bt_insert.induct) auto

lemma keys_bt_insert: "set (map fst (bt_insert k v m)) = insert k (set (map fst m))"
  by (induction k v m rule: bt_insert.induct) auto

lemma bt_wf_insert: "bt_wf m \<Longrightarrow> bt_wf (bt_insert k v m)"
proof (induction k v m rule: bt_insert.induct)
  case (2 k v k' v' m)
  then show ?case
    using keys_bt_insert[of k v m] by (auto simp: bt_wf_def)
qed (simp add: bt_wf_def)

lemma keys_bt_get: "set (map fst m) = {k. bt_get m k \<noteq> None}"
  by (force simp: bt_get_eq_map_of map_of_eq_None_iff)

interpretation bt: ordered_map "[]" bt_insert bt_get "map fst" bt_wf
proof unfold_locales
  show "set (map fst m) = {k. bt_get m k \<noteq> None}" for m :: "('k, 'v) btree"
    by (rule keys_bt_get)
qed (auto simp: bt_get_insert bt_wf_insert, auto simp: bt_wf_def)

lemma bt_get_of_list: "bt_get (bt_of_list xs) k = map_of (rev xs) k"
  using bt.get_foldl_insert[of "[]" xs k] by (simp add: bt_of_list_def split: option.splits)

lemma bt_get_Some_in: "bt_get m k = Some v \<Longrightarrow> (k, v) \<in> set m"
  by (simp add: bt_get_eq_map_of map_of_SomeD)

lemma bt_ext: "bt_wf m \<Longrightarrow> bt_wf n \<Longrightarrow> (\<And>k. bt_get m k = bt_get n k) \<Longrightarrow> m = n"
proof -
  assume wf: "bt_wf m" "bt_wf n" and get: "\<And>k. bt_get m k = bt_get n k"
  have d: "distinct (map fst m)" "distinct (map fst n)" "sorted (map fst m)" "sorted (map fst n)"
    using wf by (auto simp: bt_wf_def strict_sorted_iff)
  have "map_of m = map_of n" using get by (auto simp: bt_get_eq_map_of)
  then have pairs: "set m = set n" using map_of_inject_set d by blast
  then have "map fst m = map fst n" using sorted_distinct_set_unique d by (metis list.set_map)
  moreover have "inj_on fst (set m \<union> set n)" using d(1) pairs by (simp add: distinct_map)
  ultimately show ?thesis by (rule map_inj_on)
qed

lemma bt_insert_max: "\<forall>j \<in> set (map fst m). j < k \<Longrightarrow> bt_insert k v m = m @ [(k, v)]"
  by (induction k v m rule: bt_insert.induct) auto

lemma foldl_bt_insert: "bt_wf (m @ n) \<Longrightarrow> foldl (\<lambda>m (k, v). bt_insert k v m) m n = m @ n"
proof (induction n arbitrary: m)
  case (Cons e n)
  obtain k v where e: "e = (k, v)" by force
  have "bt_insert k v m = m @ [e]"
    unfolding e using Cons.prems by (intro bt_insert_max) (auto simp: e bt_wf_def sorted_wrt_append)
  then show ?case using Cons.IH [of "m @ [e]"] Cons.prems by (simp add: e)
qed simp

lemma bt_of_list_id: "bt_wf m \<Longrightarrow> bt_of_list m = m"
  using foldl_bt_insert [of "[]" m] by (simp add: bt_of_list_def)

text \<open>A \<open>BTreeSet\<close> is the list of its elements in order.\<close>

definition bset_of_list :: "'a :: linorder list \<Rightarrow> 'a list" where
  "bset_of_list xs = map fst (bt_of_list (map (\<lambda>x. (x, ())) xs))"

lemma bt_wf_of_list [wf_intros]: "bt_wf (bt_of_list xs)"
  unfolding bt_of_list_def by (rule bt.invar_foldl_insert) (rule bt.invar_empty)

lemma set_bset_of_list: "set (bset_of_list xs) = set xs"
proof -
  have "set (bset_of_list xs) = {x. bt_get (bt_of_list (map (\<lambda>x. (x, ())) xs)) x \<noteq> None}"
    unfolding bset_of_list_def by (rule keys_bt_get)
  also have "\<dots> = set xs" by (auto simp: bt_get_of_list rev_map map_of_eq_None_iff image_image)
  finally show ?thesis .
qed

lemma bset_of_list_sorted: "sorted_wrt (<) (bset_of_list xs)"
  unfolding bset_of_list_def bt_of_list_def
  using bt.invar_foldl_insert [OF bt.invar_empty] bt.invar_keys by blast

definition bs_insert :: "'a :: linorder \<Rightarrow> 'a list \<Rightarrow> 'a list" where
  "bs_insert x s = bset_of_list (x # s)"

lemma set_bs_insert [simp]: "set (bs_insert x s) = insert x (set s)"
  by (simp add: bs_insert_def set_bset_of_list)

definition bt_remove :: "'k \<Rightarrow> ('k, 'v) btree \<Rightarrow> ('k, 'v) btree" where
  "bt_remove k m = filter (\<lambda>e. fst e \<noteq> k) m"

lemma bt_get_remove: "bt_get (bt_remove k m) j = (if j = k then None else bt_get m j)"
  by (induction m) (auto simp: bt_remove_def)

lemma bt_wf_remove: "bt_wf m \<Longrightarrow> bt_wf (bt_remove k m)"
  by (simp add: bt_wf_def bt_remove_def sorted_wrt_map sorted_wrt_filter)

lemma set_bt_insert: "set (bt_insert k v m) \<subseteq> insert (k, v) (set m)"
proof (induction m)
  case (Cons e m)
  then show ?case by (cases e) (auto split: if_splits)
qed simp

lemma bt_insert_same: "bt_insert k v (bt_insert k v m) = bt_insert k v m"
proof (induction m)
  case (Cons e m)
  then show ?case by (cases e) auto
qed simp

lemma bt_insert_present: "bt_wf m \<Longrightarrow> k \<in> fst ` set m \<Longrightarrow> bt_insert k v m = map (\<lambda>e. if fst e = k then (k, v) else e) m"
proof (induction m)
  case (Cons e m)
  obtain j w where e: "e = (j, w)" by (cases e)
  have above: "\<forall>x \<in> set m. j < fst x" and wf: "bt_wf m" using Cons.prems(1) by (simp_all add: bt_wf_def e)
  show ?case
  proof (cases "k = j")
    case True
    then have "map (\<lambda>e. if fst e = k then (k, v) else e) m = m" using above by (intro map_idI) auto
    then show ?thesis using True by (simp add: e)
  next
    case False
    then have "k \<in> fst ` set m" using Cons.prems(2) by (simp add: e)
    moreover from this have "j < k" using above by auto
    ultimately show ?thesis using Cons.IH [OF wf] False by (auto simp: e)
  qed
qed simp

lemma bs_insert_same: "sorted_wrt (<) s \<Longrightarrow> x \<in> set s \<Longrightarrow> bs_insert x s = s"
  using bset_of_list_sorted [of "x # s"] set_bs_insert [of x s]
  by (intro strict_sorted_equal) (auto simp: bs_insert_def)

lemma keys_bt_remove: "set (map fst (bt_remove k m)) = set (map fst m) - {k}"
  by (auto simp: bt_remove_def)

section \<open>Results\<close>

text \<open>\<open>Result\<close> values: \<open>Inl\<close> is the error; \<open>bind\<close> is the \<open>?\<close> operator.\<close>

fun and_then :: "'e + 'a \<Rightarrow> ('a \<Rightarrow> 'e + 'b) \<Rightarrow> 'e + 'b" where
  "and_then (Inl e) f = Inl e"
| "and_then (Inr x) f = f x"

fun ok :: "'e + 'a \<Rightarrow> 'a option" where
  "ok (Inl _) = None"
| "ok (Inr x) = Some x"

definition is_ok :: "'e + 'a \<Rightarrow> bool" where
  "is_ok r = (ok r \<noteq> None)"

fun collect_ok :: "('a \<Rightarrow> 'e + 'b) \<Rightarrow> 'a list \<Rightarrow> 'e + 'b list" where
  "collect_ok f [] = Inr []"
| "collect_ok f (x # xs) = and_then (f x) (\<lambda>y. and_then (collect_ok f xs) (\<lambda>ys. Inr (y # ys)))"

fun first_error :: "('a \<Rightarrow> 'e + unit) \<Rightarrow> 'a list \<Rightarrow> 'e + unit" where
  "first_error f [] = Inr ()"
| "first_error f (x # xs) = and_then (f x) (\<lambda>_. first_error f xs)"

fun fold_ok :: "('s \<Rightarrow> 'a \<Rightarrow> 'e + 's) \<Rightarrow> 's \<Rightarrow> 'a list \<Rightarrow> 'e + 's" where
  "fold_ok f s [] = Inr s"
| "fold_ok f s (x # xs) = and_then (f s x) (\<lambda>s. fold_ok f s xs)"

definition guard :: "bool \<Rightarrow> 'e \<Rightarrow> 'e + unit" where
  "guard b e = (if b then Inr () else Inl e)"

definition ok_or :: "'a option \<Rightarrow> 'e \<Rightarrow> 'e + 'a" where
  "ok_or x e = (case x of None \<Rightarrow> Inl e | Some v \<Rightarrow> Inr v)"

lemma and_then_cong [fundef_cong]:
  "r = r' \<Longrightarrow> (\<And>x. r' = Inr x \<Longrightarrow> f x = g x) \<Longrightarrow> and_then r f = and_then r' g"
  by (cases r') auto

lemma collect_ok_cong [fundef_cong]:
  "xs = ys \<Longrightarrow> (\<And>x. x \<in> set ys \<Longrightarrow> f x = g x) \<Longrightarrow> collect_ok f xs = collect_ok g ys"
  by (induction ys arbitrary: xs) (auto intro!: and_then_cong)

lemma and_then_Inr_iff: "and_then r f = Inr y \<longleftrightarrow> (\<exists>x. r = Inr x \<and> f x = Inr y)"
  by (cases r) auto

lemma first_error_Inr: "first_error f xs = Inr () \<longleftrightarrow> (\<forall>x \<in> set xs. f x = Inr ())"
  by (induction xs) (auto simp: and_then_Inr_iff)

lemma guard_Inr [simp]: "guard b e = Inr () \<longleftrightarrow> b"
  by (simp add: guard_def)

lemma ok_or_simps [simp]: "ok_or (Some x) e = Inr x" "ok_or None e = Inl e"
  by (simp_all add: ok_or_def)

lemma ok_or_Inr [simp]: "ok_or x e = Inr v \<longleftrightarrow> x = Some v"
  by (simp add: ok_or_def split: option.splits)

lemma is_ok_iff: "is_ok r \<longleftrightarrow> (\<exists>x. r = Inr x)"
  by (cases r) (auto simp: is_ok_def)

lemma collect_ok_Inr_iff: "collect_ok f xs = Inr ys \<longleftrightarrow> list_all2 (\<lambda>x y. f x = Inr y) xs ys"
proof (induction xs arbitrary: ys)
  case (Cons x xs)
  then show ?case by (cases ys) (auto simp: and_then_Inr_iff)
qed auto

lemma and_then_split: "P (and_then r f) \<longleftrightarrow> (\<forall>e. r = Inl e \<longrightarrow> P (Inl e)) \<and> (\<forall>x. r = Inr x \<longrightarrow> P (f x))"
  by (cases r) auto

lemma and_then_split_asm: "P (and_then r f) \<longleftrightarrow> \<not> ((\<exists>e. r = Inl e \<and> \<not> P (Inl e)) \<or> (\<exists>x. r = Inr x \<and> \<not> P (f x)))"
  by (cases r) auto

lemmas and_then_splits = and_then_split and_then_split_asm

text \<open>
  The error type of \<open>error.rs\<close>.  A JSON or TOML error keeps its text; an I/O error is a
  system error (whether its kind is \<open>NotFound\<close>, and its text) or the one custom error the
  program puts there, a transient change of the named paths during a capture.
\<close>

datatype io_error = SystemError bool string | TransientCaptureChange "string list"

datatype ahrb_error = Usage string | Validation string | Protocol string | UnsupportedErr string
  | Timeout string | Io io_error | Json string | Toml string

text \<open>Its \<open>Display\<close>; the Debug rendering of the path list is a parameter.\<close>

fun display_error :: "(string list \<Rightarrow> string) \<Rightarrow> ahrb_error \<Rightarrow> string" where
  "display_error dbg (Usage m) = ''usage: '' @ m"
| "display_error dbg (Validation m) = ''validation: '' @ m"
| "display_error dbg (Protocol m) = ''protocol: '' @ m"
| "display_error dbg (UnsupportedErr m) = ''unsupported: '' @ m"
| "display_error dbg (Timeout m) = ''timeout: '' @ m"
| "display_error dbg (Io (SystemError _ m)) = ''I/O: '' @ m"
| "display_error dbg (Io (TransientCaptureChange paths)) =
     ''I/O: storage transient changed during capture at '' @ dbg paths"
| "display_error dbg (Json m) = ''JSON: '' @ m"
| "display_error dbg (Toml m) = ''TOML: '' @ m"

end
