(* ===== verification/F64.thy ===== *)
theory F64
  imports Complex_Main "HOL-Library.Log_Nat"
begin

text \<open>
  Rust's \<open>f64\<close> (IEEE 754 binary64), as far as the modelled code uses it: conversion from
  integers, addition, multiplication and division, comparison, \<open>max\<close>, \<open>floor\<close>,
  \<open>is_finite\<close> and the total order used for sorting.  A finite value is the rational number it
  denotes; every arithmetic result is rounded to the nearest binary64 value, ties to even, with
  gradual underflow and overflow to infinity.  The sign of a computed zero and the payload of a
  NaN are not represented: no modelled function divides by a zero.  The numbers of JSON documents do keep it
  (\<open>JMinusZero\<close> of Json_Values).
\<close>

section \<open>Integer logarithm and rounding to an integer\<close>

definition ilog2 :: "rat \<Rightarrow> int" where
  "ilog2 q = (let (n, d) = quotient_of q; k = bitlen n - bitlen d
              in if 2 powi k \<le> q then k else k - 1)"

definition round_half_even :: "rat \<Rightarrow> int" where
  "round_half_even q = (let f = \<lfloor>q\<rfloor>; r = q - of_int f
     in if r < 1/2 then f else if r > 1/2 then f + 1 else if even f then f else f + 1)"

section \<open>The type and its operations\<close>

datatype f64 = Fin rat | Inf bool | NaN

definition max_finite_bound :: rat where
  "max_finite_bound = 2 ^ 1024"

definition ulp_exp :: "rat \<Rightarrow> int" where
  "ulp_exp a = max (ilog2 a - 52) (- 1074)"

definition round_pos :: "rat \<Rightarrow> rat" where
  "round_pos a = of_int (round_half_even (a * 2 powi (- ulp_exp a))) * 2 powi ulp_exp a"

definition f_round :: "rat \<Rightarrow> f64" where
  "f_round q = (if q = 0 then Fin 0
     else let v = round_pos \<bar>q\<bar>
          in if v \<ge> max_finite_bound then Inf (q > 0) else Fin (if q < 0 then - v else v))"

definition f_of_int :: "int \<Rightarrow> f64" where
  "f_of_int i = f_round (of_int i)"

fun f_is_finite :: "f64 \<Rightarrow> bool" where
  "f_is_finite (Fin _) = True"
| "f_is_finite _ = False"

fun f_neg :: "f64 \<Rightarrow> f64" where
  "f_neg (Fin x) = Fin (- x)"
| "f_neg (Inf s) = Inf (\<not> s)"
| "f_neg NaN = NaN"

fun f_add :: "f64 \<Rightarrow> f64 \<Rightarrow> f64" where
  "f_add (Fin x) (Fin y) = f_round (x + y)"
| "f_add (Inf s) (Inf t) = (if s = t then Inf s else NaN)"
| "f_add (Inf s) (Fin _) = Inf s"
| "f_add (Fin _) (Inf t) = Inf t"
| "f_add _ _ = NaN"

definition f_sub :: "f64 \<Rightarrow> f64 \<Rightarrow> f64" where
  "f_sub x y = f_add x (f_neg y)"

fun f_mul :: "f64 \<Rightarrow> f64 \<Rightarrow> f64" where
  "f_mul (Fin x) (Fin y) = f_round (x * y)"
| "f_mul (Inf s) (Inf t) = Inf (s = t)"
| "f_mul (Inf s) (Fin y) = (if y = 0 then NaN else Inf (s = (y > 0)))"
| "f_mul (Fin x) (Inf t) = (if x = 0 then NaN else Inf (t = (x > 0)))"
| "f_mul _ _ = NaN"

text \<open>Division of a non-zero number by zero is an infinity; the zero counts as positive.\<close>

fun f_div :: "f64 \<Rightarrow> f64 \<Rightarrow> f64" where
  "f_div (Fin x) (Fin y) = (if y = 0 then (if x = 0 then NaN else Inf (x > 0)) else f_round (x / y))"
| "f_div (Inf s) (Fin y) = Inf (s = (y \<ge> 0))"
| "f_div (Fin _) (Inf _) = Fin 0"
| "f_div _ _ = NaN"

text \<open>The IEEE comparisons: false as soon as one side is a NaN.\<close>

fun f_le :: "f64 \<Rightarrow> f64 \<Rightarrow> bool" where
  "f_le NaN _ = False"
| "f_le _ NaN = False"
| "f_le (Inf s) (Inf t) = (s \<longrightarrow> t)"
| "f_le (Inf s) (Fin _) = (\<not> s)"
| "f_le (Fin _) (Inf t) = t"
| "f_le (Fin x) (Fin y) = (x \<le> y)"

fun f_lt :: "f64 \<Rightarrow> f64 \<Rightarrow> bool" where
  "f_lt NaN _ = False"
| "f_lt _ NaN = False"
| "f_lt (Inf s) (Inf t) = (\<not> s \<and> t)"
| "f_lt (Inf s) (Fin _) = (\<not> s)"
| "f_lt (Fin _) (Inf t) = t"
| "f_lt (Fin x) (Fin y) = (x < y)"

fun f_eq :: "f64 \<Rightarrow> f64 \<Rightarrow> bool" where
  "f_eq NaN _ = False"
| "f_eq _ NaN = False"
| "f_eq x y = (x = y)"

text \<open>\<open>f64::max\<close> returns the other argument when one is a NaN.\<close>

fun f_max :: "f64 \<Rightarrow> f64 \<Rightarrow> f64" where
  "f_max NaN y = y"
| "f_max x NaN = x"
| "f_max x y = (if f_le x y then y else x)"

fun f_abs :: "f64 \<Rightarrow> f64" where
  "f_abs (Fin x) = Fin \<bar>x\<bar>"
| "f_abs (Inf _) = Inf True"
| "f_abs NaN = NaN"

fun f_floor :: "f64 \<Rightarrow> f64" where
  "f_floor (Fin x) = Fin (of_int \<lfloor>x\<rfloor>)"
| "f_floor x = x"

text \<open>The range test \<open>(lo..=hi).contains(&x)\<close>.\<close>

definition f_in :: "f64 \<Rightarrow> f64 \<Rightarrow> f64 \<Rightarrow> bool" where
  "f_in lo hi x \<longleftrightarrow> f_le lo x \<and> f_le x hi"

text \<open>The key of \<open>f64::total_cmp\<close>: infinities at the ends, NaN last.\<close>

fun total_key :: "f64 \<Rightarrow> int \<times> rat" where
  "total_key (Inf False) = (0, 0)"
| "total_key (Fin x) = (1, x)"
| "total_key (Inf True) = (2, 0)"
| "total_key NaN = (3, 0)"

section \<open>Rounding\<close>

text \<open>
  The integer logarithm is exact, rounding is monotone and exact on every number with at most 53
  significant bits above the smallest subnormal.
\<close>


lemma bitlen_bounds_int:
  assumes "0 < (x::int)" shows "2 powi (bitlen x - 1) \<le> (of_int x :: rat)" "(of_int x::rat) < 2 powi bitlen x"
proof -
  have b: "2 ^ nat (bitlen x - 1) \<le> x \<and> x < 2 ^ nat (bitlen x)" using bitlen_bounds assms by blast
  have p: "bitlen x \<ge> 1" using assms bitlen_nonneg[of x] bitlen_eq_zero_iff[of x] by linarith
  have "(of_int (2 ^ nat (bitlen x - 1)) :: rat) \<le> of_int x" using b of_int_le_iff by blast
  thus "2 powi (bitlen x - 1) \<le> (of_int x :: rat)" using p by (simp add: power_int_def)
  have "(of_int x :: rat) < of_int (2 ^ nat (bitlen x))" using b of_int_less_iff by blast
  thus "(of_int x::rat) < 2 powi bitlen x" using p by (simp add: power_int_def)
qed

lemma powi2_pos [simp]: "0 < (2::rat) powi k" by (simp add: zero_less_power_int)

lemma powi2_add: "(2::rat) powi (a + b) = 2 powi a * 2 powi b" by (simp add: power_int_add)

lemma ilog2_bounds:
  assumes "0 < q" shows "2 powi ilog2 q \<le> q" "q < 2 powi (ilog2 q + 1)"
proof -
  obtain n d where nd: "quotient_of q = (n, d)" by fastforce
  have d0: "0 < d" using nd quotient_of_denom_pos by blast
  have q: "q = of_int n / of_int d" using nd quotient_of_div by blast
  have n0: "0 < n" using assms d0 unfolding q by (simp add: zero_less_divide_iff)
  define k where "k = bitlen n - bitlen d"
  note bn = bitlen_bounds_int[OF n0] and bd = bitlen_bounds_int[OF d0]
  have "2 powi (bitlen n - 1) < q * 2 powi bitlen d"
  proof -
    have "2 powi (bitlen n - 1) \<le> (of_int n :: rat)" by (rule bn(1))
    also have "\<dots> = q * of_int d" using d0 by (simp add: q)
    also have "\<dots> < q * 2 powi bitlen d" using bd(2) assms by simp
    finally show ?thesis .
  qed
  moreover have "(2::rat) powi (k - 1) = 2 powi (bitlen n - 1) / 2 powi bitlen d"
    by (simp add: k_def algebra_simps flip: power_int_diff)
  ultimately have lo: "2 powi (k - 1) < q" by (simp add: pos_divide_less_eq)
  have "q * 2 powi (bitlen d - 1) < 2 powi (bitlen n)"
  proof -
    have "q * 2 powi (bitlen d - 1) \<le> q * of_int d" using bd(1) assms by simp
    also have "\<dots> = of_int n" using d0 by (simp add: q)
    also have "\<dots> < 2 powi bitlen n" by (rule bn(2))
    finally show ?thesis .
  qed
  moreover have "(2::rat) powi (k + 1) = 2 powi bitlen n / 2 powi (bitlen d - 1)"
    by (simp add: k_def algebra_simps flip: power_int_diff)
  ultimately have hi: "q < 2 powi (k + 1)" by (simp add: pos_less_divide_eq)
  have e: "ilog2 q = (if 2 powi k \<le> q then k else k - 1)" by (simp add: ilog2_def nd k_def)
  show "2 powi ilog2 q \<le> q" using lo by (auto simp: e)
  show "q < 2 powi (ilog2 q + 1)" using hi by (auto simp: e)
qed

lemma powi2_less_iff: "(2::rat) powi a < 2 powi b \<longleftrightarrow> a < b"
  by (metis not_less_iff_gr_or_eq one_less_numeral_iff power_int_strict_increasing semiring_norm(76))

lemma powi2_le_iff: "(2::rat) powi a \<le> 2 powi b \<longleftrightarrow> a \<le> b"
  using powi2_less_iff linorder_not_less by metis

lemma ilog2_mono: "0 < a \<Longrightarrow> a \<le> b \<Longrightarrow> ilog2 a \<le> ilog2 b"
proof -
  assume a: "0 < a" "a \<le> b"
  have "(2::rat) powi ilog2 a < 2 powi (ilog2 b + 1)"
    using ilog2_bounds(1)[OF a(1)] ilog2_bounds(2)[of b] a by linarith
  thus ?thesis by (simp add: powi2_less_iff)
qed

lemma ulp_exp_mono: "0 < a \<Longrightarrow> a \<le> b \<Longrightarrow> ulp_exp a \<le> ulp_exp b"
  unfolding ulp_exp_def using ilog2_mono[of a b] by linarith

lemma round_half_even_int [simp]: "round_half_even (of_int i) = i"
  by (simp add: round_half_even_def)

lemma round_half_even_mono:
  assumes "x \<le> y" shows "round_half_even x \<le> round_half_even y"
proof (cases "\<lfloor>x\<rfloor> = \<lfloor>y\<rfloor>")
  case True
  then show ?thesis using assms by (auto simp: round_half_even_def Let_def)
next
  case False
  hence "\<lfloor>x\<rfloor> + 1 \<le> \<lfloor>y\<rfloor>" using assms floor_mono[of x y] by linarith
  moreover have "round_half_even x \<le> \<lfloor>x\<rfloor> + 1" "\<lfloor>y\<rfloor> \<le> round_half_even y"
    by (auto simp: round_half_even_def Let_def)
  ultimately show ?thesis by linarith
qed

lemma round_half_even_le_int: "x \<le> of_int i \<Longrightarrow> round_half_even x \<le> i"
  using round_half_even_mono[of x "of_int i"] by simp
lemma int_le_round_half_even: "of_int i \<le> x \<Longrightarrow> i \<le> round_half_even x"
  using round_half_even_mono[of "of_int i" x] by simp

lemma round_half_even_near: "\<bar>of_int (round_half_even x) - x\<bar> \<le> 1/2"
proof -
  have "of_int \<lfloor>x\<rfloor> \<le> x" "x < of_int \<lfloor>x\<rfloor> + 1" by linarith+
  then show ?thesis unfolding round_half_even_def Let_def by (auto simp: abs_le_iff) 
qed

text \<open>A power of two at or above the unit separates: values on either side round to their side.\<close>

lemma round_pos_le_powi:
  assumes "0 < a" "a \<le> 2 powi k" "ulp_exp a \<le> k" shows "round_pos a \<le> 2 powi k"
proof -
  let ?e = "ulp_exp a"
  have "a * 2 powi (- ?e) \<le> 2 powi (k - ?e)"
    using mult_right_mono[OF assms(2), of "2 powi (- ?e)"] by (simp flip: powi2_add)
  also have "\<dots> = of_int (2 ^ nat (k - ?e))" using assms(3) by (simp add: power_int_def)
  finally have "round_half_even (a * 2 powi (- ?e)) \<le> 2 ^ nat (k - ?e)" by (rule round_half_even_le_int)
  hence "(of_int (round_half_even (a * 2 powi (- ?e))) :: rat) \<le> of_int (2 ^ nat (k - ?e))"
    by (simp only: of_int_le_iff)
  also have "\<dots> = 2 powi (k - ?e)" using assms(3) by (simp add: power_int_def)
  finally have "round_pos a \<le> 2 powi (k - ?e) * 2 powi ?e"
    unfolding round_pos_def by (rule mult_right_mono) simp
  thus ?thesis by (simp flip: powi2_add)
qed

lemma powi_le_round_pos:
  assumes "2 powi k \<le> a" "ulp_exp a \<le> k" shows "2 powi k \<le> round_pos a"
proof -
  let ?e = "ulp_exp a"
  have "of_int (2 ^ nat (k - ?e)) = (2::rat) powi (k - ?e)" using assms(2) by (simp add: power_int_def)
  also have "\<dots> \<le> a * 2 powi (- ?e)"
    using mult_right_mono[OF assms(1), of "2 powi (- ?e)"] by (simp flip: powi2_add)
  finally have "2 ^ nat (k - ?e) \<le> round_half_even (a * 2 powi (- ?e))" by (rule int_le_round_half_even)
  hence "(of_int (2 ^ nat (k - ?e)) :: rat) \<le> of_int (round_half_even (a * 2 powi (- ?e)))"
    by (simp only: of_int_le_iff)
  moreover have "of_int (2 ^ nat (k - ?e)) = (2::rat) powi (k - ?e)" using assms(2) by (simp add: power_int_def)
  ultimately have "2 powi (k - ?e) \<le> (of_int (round_half_even (a * 2 powi (- ?e))) :: rat)" by metis
  hence "2 powi (k - ?e) * 2 powi ?e \<le> round_pos a"
    unfolding round_pos_def by (rule mult_right_mono) simp
  thus ?thesis by (simp flip: powi2_add)
qed

lemma round_pos_mono:
  assumes "0 < a" "a \<le> b" shows "round_pos a \<le> round_pos b"
proof (cases "ulp_exp a = ulp_exp b")
  case True
  have "a * 2 powi (- ulp_exp b) \<le> b * 2 powi (- ulp_exp b)" using assms by (intro mult_right_mono) simp_all
  hence "round_half_even (a * 2 powi (- ulp_exp a)) \<le> round_half_even (b * 2 powi (- ulp_exp b))"
    by (simp add: True round_half_even_mono)
  thus ?thesis unfolding round_pos_def by (simp add: True)
next
  case False
  have le: "ulp_exp a < ulp_exp b" using ulp_exp_mono[OF assms] False by simp
  hence n: "ulp_exp b = ilog2 b - 52" by (simp add: ulp_exp_def max_def split: if_splits)
  let ?k = "ilog2 b"
  have b0: "0 < b" using assms by linarith
  have "ilog2 a < ?k" using le by (auto simp: ulp_exp_def max_def split: if_splits)
  hence "2 powi (ilog2 a + 1) \<le> (2::rat) powi ?k" by (simp add: powi2_le_iff)
  hence "a \<le> 2 powi ?k" using ilog2_bounds(2)[OF assms(1)] by linarith
  moreover have "ulp_exp a \<le> ?k" using le n by linarith
  ultimately have "round_pos a \<le> 2 powi ?k" using assms(1) by (intro round_pos_le_powi)
  also have "\<dots> \<le> round_pos b" using ilog2_bounds(1)[OF b0] n by (intro powi_le_round_pos) simp_all
  finally show ?thesis .
qed

lemma round_pos_exact:
  assumes "0 < m" "m < 2 ^ 53" "- 1074 \<le> e"
  shows "round_pos (of_int m * 2 powi e) = of_int m * 2 powi e"
proof -
  let ?a = "of_int m * (2::rat) powi e"
  have a0: "0 < ?a" using assms by simp
  have "?a < 2 powi 53 * 2 powi e"
  proof (rule mult_strict_right_mono)
    have "(of_int m :: rat) < of_int (2 ^ 53)" using assms(2) by (simp only: of_int_less_iff)
    thus "(of_int m :: rat) < 2 powi 53" by simp
  qed simp
  hence "?a < 2 powi (53 + e)" by (simp only: powi2_add)
  hence "2 powi ilog2 ?a < (2::rat) powi (53 + e)" using ilog2_bounds(1)[OF a0] by (rule le_less_trans [rotated])
  hence "ulp_exp ?a \<le> e" using assms(3) by (simp add: powi2_less_iff ulp_exp_def)
  then obtain k where k: "e = ulp_exp ?a + int k" using zle_iff_zadd by blast
  have "?a * 2 powi (- ulp_exp ?a) = of_int (m * 2 ^ k)"
  proof -
    have "?a * 2 powi (- ulp_exp ?a) = of_int m * 2 powi (e - ulp_exp ?a)" by (simp add: power_int_diff power_int_minus field_simps)
    also have "e - ulp_exp ?a = int k" using k by simp
    finally show ?thesis by simp
  qed
  hence "round_pos ?a = of_int (m * 2 ^ k) * 2 powi ulp_exp ?a" unfolding round_pos_def by (simp only: round_half_even_int)
  also have "\<dots> = of_int m * 2 powi (int k + ulp_exp ?a)" by (simp add: powi2_add)
  also have "int k + ulp_exp ?a = e" using k by simp
  finally show ?thesis .
qed


lemma max_finite_bound_big: "2 ^ 60 < max_finite_bound"
  unfolding max_finite_bound_def by (rule power_strict_increasing) simp_all

lemma small_int_bound: "\<bar>i\<bar> < 2 ^ 53 \<Longrightarrow> of_int \<bar>i\<bar> < max_finite_bound"
proof -
  assume "\<bar>i\<bar> < 2 ^ 53"
  hence "(of_int \<bar>i\<bar> :: rat) < of_int (2 ^ 53)" by (simp only: of_int_less_iff)
  also have "(of_int (2 ^ 53) :: rat) < 2 ^ 60" by simp
  finally show ?thesis using max_finite_bound_big by linarith
qed

lemma round_pos_nonneg: "0 < a \<Longrightarrow> 0 \<le> round_pos a"
proof -
  assume "0 < a"
  hence "0 \<le> round_half_even (a * 2 powi (- ulp_exp a))"
    by (intro int_le_round_half_even) simp
  thus ?thesis unfolding round_pos_def by simp
qed

lemma f_round_zero [simp]: "f_round 0 = Fin 0"
  by (simp add: f_round_def)

lemma f_round_not_NaN [simp]: "f_round q \<noteq> NaN" "NaN \<noteq> f_round q"
  by (auto simp: f_round_def Let_def)

lemma f_round_neg: "f_round (- q) = f_neg (f_round q)"
  by (auto simp: f_round_def Let_def)

lemma f_round_pos_mono: "0 \<le> x \<Longrightarrow> x \<le> y \<Longrightarrow> f_le (f_round x) (f_round y)"
proof (cases "x = 0")
  case True
  assume "x \<le> y"
  with True show ?thesis using round_pos_nonneg[of y] by (auto simp: f_round_def Let_def)
next
  case False
  assume "0 \<le> x" "x \<le> y"
  with False have "0 < x" "round_pos x \<le> round_pos y" using round_pos_mono[of x y] by auto
  with \<open>x \<le> y\<close> show ?thesis by (auto simp: f_round_def Let_def)
qed

lemma f_le_neg: "f_le (f_neg x) (f_neg y) = f_le y x"
  by (cases x; cases y) auto

lemma f_le_trans: "f_le x y \<Longrightarrow> f_le y z \<Longrightarrow> f_le x z"
  by (cases x; cases y; cases z) auto

lemma f_le_refl: "x \<noteq> NaN \<Longrightarrow> f_le x x"
  by (cases x) auto

lemma f_le_antisym: "f_le x y \<Longrightarrow> f_le y x \<Longrightarrow> x = y"
  by (cases x; cases y) auto

lemma f_le_total: "x \<noteq> NaN \<Longrightarrow> y \<noteq> NaN \<Longrightarrow> f_le x y \<or> f_le y x"
  by (cases x; cases y) auto

lemma f_lt_iff: "f_lt x y \<longleftrightarrow> f_le x y \<and> \<not> f_le y x"
  by (cases x; cases y) auto

theorem f_round_mono: "x \<le> y \<Longrightarrow> f_le (f_round x) (f_round y)"
proof -
  assume xy: "x \<le> y"
  consider "0 \<le> x" | "x < 0" "0 \<le> y" | "y < 0" by linarith
  then show ?thesis
  proof cases
    case 1
    with xy show ?thesis by (simp add: f_round_pos_mono)
  next
    case 2
    have "f_le (f_round x) (Fin 0)"
      using f_round_pos_mono[of 0 "- x"] 2 f_le_neg[of "Fin 0" "f_round x"] by (simp add: f_round_neg)
    moreover have "f_le (Fin 0) (f_round y)" using f_round_pos_mono[of 0 y] 2 by simp
    ultimately show ?thesis by (rule f_le_trans)
  next
    case 3
    have "f_le (f_round (- y)) (f_round (- x))" using xy 3 by (intro f_round_pos_mono) auto
    thus ?thesis by (simp add: f_round_neg f_le_neg)
  qed
qed

lemma f_round_exact:
  assumes "\<bar>m\<bar> < 2 ^ 53" "- 1074 \<le> e" "of_int \<bar>m\<bar> * 2 powi e < max_finite_bound"
  shows "f_round (of_int m * 2 powi e) = Fin (of_int m * 2 powi e)"
proof (cases "m = 0")
  case False
  let ?v = "of_int \<bar>m\<bar> * (2::rat) powi e"
  have r: "round_pos ?v = ?v" using assms False by (intro round_pos_exact) auto
  have a: "\<bar>of_int m * (2::rat) powi e\<bar> = ?v" by (simp add: abs_mult)
  have n: "of_int m * (2::rat) powi e \<noteq> 0" using False by simp
  have "\<not> (2::rat) powi e < 0" using powi2_pos[of e] by linarith
  hence s: "of_int m * (2::rat) powi e < 0 \<longleftrightarrow> m < 0" by (simp add: mult_less_0_iff)
  show ?thesis unfolding f_round_def a r using assms(3) n s by (auto simp: Let_def abs_if)
qed simp

lemma f_round_half_exact:
  assumes "\<bar>i\<bar> < 2 ^ 53" shows "f_round (of_int i / 2) = Fin (of_int i / 2)"
proof -
  have h: "(2::rat) powi (- 1) = 1 / 2" by (simp add: power_int_minus)
  have "(of_int \<bar>i\<bar> :: rat) * (1 / 2) \<le> of_int \<bar>i\<bar>" by simp
  hence "of_int \<bar>i\<bar> * 2 powi (- 1) < max_finite_bound"
    unfolding h using small_int_bound[OF assms] by linarith
  from f_round_exact[OF assms _ this] show ?thesis unfolding h by simp
qed

lemma f_round_int_exact: "\<bar>i\<bar> < 2 ^ 53 \<Longrightarrow> f_round (of_int i) = Fin (of_int i)"
  using f_round_exact[of i 0] small_int_bound[of i] by simp

lemma f_of_int_exact: "\<bar>i\<bar> < 2 ^ 53 \<Longrightarrow> f_of_int i = Fin (of_int i)"
  unfolding f_of_int_def by (rule f_round_int_exact)

lemma f_of_int_mono: "i \<le> j \<Longrightarrow> f_le (f_of_int i) (f_of_int j)"
  unfolding f_of_int_def by (rule f_round_mono) simp

lemma f_floor_mono: "f_le x y \<Longrightarrow> f_le (f_floor x) (f_floor y)"
  by (cases x; cases y) (auto intro: floor_mono)

lemma f_add_mono: 
  assumes "f_le a b" "f_le c d" "f_add a c \<noteq> NaN" "f_add b d \<noteq> NaN" shows "f_le (f_add a c) (f_add b d)"
proof -
  have "f_le (f_round x) (Inf True)" "f_le (Inf False) (f_round x)" for x by (cases "f_round x"; simp)+
  thus ?thesis using assms
  by (cases a; cases b; cases c; cases d) (auto intro!: f_round_mono add_mono split: if_splits)
qed

lemma f_round_bounds: "f_le (f_round q) (Inf True)" "f_le (Inf False) (f_round q)"
  by (cases "f_round q"; simp)+

lemma f_mul_pos_mono: "f_le x y \<Longrightarrow> 0 < c \<Longrightarrow> f_le (f_mul x (Fin c)) (f_mul y (Fin c))"
  by (cases x; cases y) (auto intro!: f_round_mono f_round_bounds)

lemma f_div_pos_mono: "f_le x y \<Longrightarrow> 0 < c \<Longrightarrow> f_le (f_div x (Fin c)) (f_div y (Fin c))"
  by (cases x; cases y) (auto intro!: f_round_mono f_round_bounds divide_right_mono)

lemma f_add_Fin_not_NaN: "x \<noteq> NaN \<Longrightarrow> f_add x (Fin c) \<noteq> NaN"
  by (cases x) auto

lemma f_le_not_NaN: "f_le x y \<Longrightarrow> x \<noteq> NaN \<and> y \<noteq> NaN"
  by (cases x; cases y) auto

text \<open>Small integers and halves, the forms that evaluation meets.\<close>

lemma f_round_numeral [simp]:
  "(numeral w :: int) < 2 ^ 53 \<Longrightarrow> f_round (numeral w) = Fin (numeral w)"
  using f_round_int_exact [of "numeral w"] by simp

lemma f_round_one [simp]: "f_round 1 = Fin 1"
  using f_round_int_exact [of 1] by simp

lemma f_round_half [simp]: "f_round (1 / 2) = Fin (1 / 2)"
  using f_round_half_exact [of 1] by simp

lemma f_round_numeral_half [simp]:
  "(numeral w :: int) < 2 ^ 53 \<Longrightarrow> f_round (numeral w / 2) = Fin (numeral w / 2)"
  using f_round_half_exact [of "numeral w"] by simp

lemma floor_numeral_div [simp]: "\<lfloor>numeral a / numeral b :: rat\<rfloor> = numeral a div numeral b"
  using floor_divide_of_int_eq [of "numeral a" "numeral b", where ?'a = rat] by simp

end
