(* ===== verification/Outcomes.thy ===== *)
theory Outcomes
  imports Prelude F64
begin

text \<open>
  The result types of \<open>src/src/evaluate.rs\<close>: pillars, row outcomes, row results with their
  metadata, assertions and badges.  A BTreeMap of components is a \<open>btree\<close>, a float an
  \<open>f64\<close> of theory F64.
\<close>

datatype pillar = ToolCallCorrectness | Functionality | Resource | AutomationReadiness | Storage

datatype test_outcome = Pass | Fail string | Unsupported string | Error string | Absent string

record test_result_metadata =
  md_wall_duration_s :: f64
  md_wall_duration_scope :: string
  md_requirement :: string
  md_capability :: "string option"
  md_capability_declared :: "bool option"
  md_measurement_complete :: bool
  md_score :: "f64 option"
  md_reference_envelope_pass :: "bool option"

record test_result =
  res_row :: u8
  res_id :: string
  res_pillar :: pillar
  res_outcome :: test_outcome
  res_evidence :: "string list"
  res_metadata :: test_result_metadata

record badge =
  bd_spec_version :: u32
  bd_os :: string
  bd_topology :: string
  bd_profile :: string
  bd_parallel_width :: usize
  bd_resource_class :: string
  bd_latency_class :: string
  bd_cpu_class :: string
  bd_automation_score :: u8
  bd_facets :: "string list"
  bd_comparison_scope :: string

record automation_score_evaluation =
  ase_score :: "u8 option"
  ase_provisional :: bool
  ase_components :: "(u8, f64) btree"

record assertion =
  as_name :: string
  as_passed :: bool
  as_detail :: string

definition default_wall_duration_scope :: string where
  "default_wall_duration_scope = ''not-launched''"

definition default_core_requirement :: string where
  "default_core_requirement = ''core''"

definition default_metadata :: test_result_metadata where
  "default_metadata = \<lparr>md_wall_duration_s = Fin 0,
     md_wall_duration_scope = default_wall_duration_scope,
     md_requirement = default_core_requirement, md_capability = None,
     md_capability_declared = None, md_measurement_complete = False, md_score = None,
     md_reference_envelope_pass = None\<rparr>"

fun is_fail :: "test_outcome \<Rightarrow> bool" where
  "is_fail (Fail _) = True" | "is_fail _ = False"

fun is_unsupported :: "test_outcome \<Rightarrow> bool" where
  "is_unsupported (Unsupported _) = True" | "is_unsupported _ = False"

fun is_error :: "test_outcome \<Rightarrow> bool" where
  "is_error (Error _) = True" | "is_error _ = False"

fun is_absent :: "test_outcome \<Rightarrow> bool" where
  "is_absent (Absent _) = True" | "is_absent _ = False"

lemma outcome_kind_iff:
  "is_fail o1 \<longleftrightarrow> (\<exists>s. o1 = Fail s)" "is_unsupported o1 \<longleftrightarrow> (\<exists>s. o1 = Unsupported s)"
  "is_error o1 \<longleftrightarrow> (\<exists>s. o1 = Error s)" "is_absent o1 \<longleftrightarrow> (\<exists>s. o1 = Absent s)"
  by (cases o1; simp)+

end
