(* ===== verification/Scenarios.thy ===== *)
theory Scenarios
  imports Outcomes
begin

text \<open>
  The matrix of \<open>src/src/scenarios.rs\<close>: the 73 rows as data, which row is core, optional or
  informational, and the badge facets.  Every lookup the other components make by row number goes
  through \<open>find_definition\<close>.
\<close>

record test_definition =
  td_row :: u8
  td_id :: string
  td_name :: string
  td_pillar :: pillar
  td_metric :: string
  td_pass_criteria :: string

datatype requirement_kind = Core | OptionalFacet string | Informational

datatype badge_facet_scope = ScopeAll | ScopePerInvocation

record badge_facet =
  bf_row :: u8
  bf_label :: string
  bf_order :: u8
  bf_scope :: badge_facet_scope

record optional_facet =
  of_row :: u8
  of_capability :: string

definition test_row :: "u8 \<Rightarrow> string \<Rightarrow> string \<Rightarrow> pillar \<Rightarrow> string \<Rightarrow> string \<Rightarrow> test_definition" where
  "test_row row i name p metric criteria = \<lparr>td_row = row, td_id = i, td_name = name,
     td_pillar = p, td_metric = metric, td_pass_criteria = criteria\<rparr>"

definition optional_facets :: "optional_facet list" where
  "optional_facets = [
    \<lparr>of_row = 4, of_capability = ''parallel_tool_execution''\<rparr>,
    \<lparr>of_row = 18, of_capability = ''native_delegation''\<rparr>,
    \<lparr>of_row = 56, of_capability = ''native_delegation''\<rparr>,
    \<lparr>of_row = 31, of_capability = ''steer''\<rparr>,
    \<lparr>of_row = 32, of_capability = ''pre_tool_intervention''\<rparr>,
    \<lparr>of_row = 33, of_capability = ''queue''\<rparr>,
    \<lparr>of_row = 39, of_capability = ''hooks''\<rparr>,
    \<lparr>of_row = 66, of_capability = ''budget_enforcement''\<rparr>,
    \<lparr>of_row = 67, of_capability = ''usage_reporting''\<rparr>,
    \<lparr>of_row = 68, of_capability = ''session_ops_cli''\<rparr>,
    \<lparr>of_row = 70, of_capability = ''headless_permission_model''\<rparr>]"

definition badge_facets :: "badge_facet list" where
  "badge_facets = [
    \<lparr>bf_row = 30, bf_label = ''replay'', bf_order = 10, bf_scope = ScopeAll\<rparr>,
    \<lparr>bf_row = 35, bf_label = ''crash'', bf_order = 20, bf_scope = ScopeAll\<rparr>,
    \<lparr>bf_row = 37, bf_label = ''resume'', bf_order = 25, bf_scope = ScopePerInvocation\<rparr>,
    \<lparr>bf_row = 31, bf_label = ''steer'', bf_order = 30, bf_scope = ScopeAll\<rparr>,
    \<lparr>bf_row = 33, bf_label = ''queue'', bf_order = 40, bf_scope = ScopeAll\<rparr>,
    \<lparr>bf_row = 18, bf_label = ''native-delegation'', bf_order = 50, bf_scope = ScopeAll\<rparr>,
    \<lparr>bf_row = 32, bf_label = ''subturn'', bf_order = 60, bf_scope = ScopeAll\<rparr>,
    \<lparr>bf_row = 39, bf_label = ''hooks'', bf_order = 70, bf_scope = ScopeAll\<rparr>,
    \<lparr>bf_row = 66, bf_label = ''budgets'', bf_order = 80, bf_scope = ScopeAll\<rparr>,
    \<lparr>bf_row = 67, bf_label = ''usage'', bf_order = 90, bf_scope = ScopeAll\<rparr>,
    \<lparr>bf_row = 68, bf_label = ''session-cli'', bf_order = 100, bf_scope = ScopeAll\<rparr>,
    \<lparr>bf_row = 70, bf_label = ''permissions'', bf_order = 110, bf_scope = ScopeAll\<rparr>]"

definition tests_1_18 :: "test_definition list" where
  "tests_1_18 = [
    test_row 1 ''routing'' ''Exact model+endpoint+credential routing'' ToolCallCorrectness
      ''observed model routes''
      ''all roles use only the configured local tuple'',
    test_row 2 ''single-tool-call'' ''Single tool call in one turn'' ToolCallCorrectness
      ''tool effects and correlations''
      ''one byte-matching call, effect, result, and terminal'',
    test_row 3 ''sequential-tool-calls'' ''Multiple sequential tool calls'' ToolCallCorrectness
      ''ordered tool effects''
      ''A then dependent B execute exactly once'',
    test_row 4 ''parallel-tool-calls'' ''Parallel tool calls in one turn'' ToolCallCorrectness
      ''overlap and result association''
      ''both calls overlap and correlate despite reversed release'',
    test_row 5 ''fragmented-tool-args'' ''Fragmented streamed args'' ToolCallCorrectness
      ''reassembled arguments''
      ''exact JSON is invoked once after complete assembly'',
    test_row 6 ''failed-tool-result'' ''Failed tool execution as structured result'' ToolCallCorrectness
      ''structured failed result''
      ''typed failure reaches the next model request'',
    test_row 7 ''malformed-tool-call'' ''Malformed or unknown tool call'' ToolCallCorrectness
      ''protocol failure''
      ''structured failure with no unintended tool run'',
    test_row 8 ''tool-id-dedup'' ''Tool-call ID dedup and order preservation'' ToolCallCorrectness
      ''IDs, order, and effects''
      ''replayed frames never duplicate semantic effects'',
    test_row 9 ''terminal-success'' ''Structured terminal success'' ToolCallCorrectness
      ''terminal events and exit''
      ''exactly one SUCCESS with the documented success exit'',
    test_row 10 ''terminal-failure'' ''Structured terminal failure'' ToolCallCorrectness
      ''terminal events and exit''
      ''exactly one distinct FAILURE with stable nonzero exit'',
    test_row 11 ''upstream-retry'' ''Transient upstream retry and normalization'' ToolCallCorrectness
      ''retry count and effects''
      ''bounded retry terminalizes with at most one effect'',
    test_row 12 ''idle-deadline'' ''Client-side idle-deadline self-abort'' ToolCallCorrectness
      ''last-byte to own terminal''
      ''structured self-failure occurs before the outer deadline'',
    test_row 13 ''workspace-effects'' ''Workspace and patch effects independent of stdout'' ToolCallCorrectness
      ''fixture hashes''
      ''file effects match even when stdout truncates'',
    test_row 14 ''state-network-confinement'' ''Per-run state and network confinement'' ToolCallCorrectness
      ''outside writes and connections''
      ''all undeclared access fails closed'',
    test_row 15 ''headless-workflow'' ''Headless tool workflow'' Functionality
      ''effect, terminal, and exit''
      ''sole marker effect succeeds without human input'',
    test_row 16 ''transcript-determinism'' ''Multi-turn transcript determinism'' Functionality
      ''five semantic transcript hashes''
      ''all hashes and event counts are identical'',
    test_row 17 ''actor-isolation'' ''Concurrent actor isolation'' Functionality
      ''per-actor effects''
      ''no token or workspace crosses actor boundaries'',
    test_row 18 ''native-delegation'' ''Native delegation'' Functionality
      ''durable children and reports''
      ''one native child and one report per spawn'']"

definition tests_19_36 :: "test_definition list" where
  "tests_19_36 = [
    test_row 19 ''exit-codes'' ''Deterministic exit codes'' Functionality
      ''six exits over five repetitions''
      ''each category has one invariant documented exit'',
    test_row 20 ''idle-rss'' ''Idle RSS baseline at rest'' Resource
      ''whole-tree RSS plateau''
      ''topology is classified and relative spread is at most 5%'',
    test_row 21 ''idle-cpu'' ''Idle CPU and busy-poll detection'' Resource
      ''whole-tree CPU over quiet window''
      ''at most 1% of one core with no polling signature'',
    test_row 22 ''idle-drift'' ''Idle memory drift at rest'' Resource
      ''RSS slope and net growth''
      ''at most 1 MiB/min and 8 MiB net'',
    test_row 23 ''return-to-idle'' ''Return to idle after workflow'' Resource
      ''post-workload residual''
      ''residual is within max(64 MiB, 20% active delta)'',
    test_row 24 ''cold-start'' ''Cold start to steady idle'' Resource
      ''readiness, cold peak, plateau''
      ''startup bound and profile cold peak are met'',
    test_row 25 ''single-agent-resource'' ''Single-agent footprint and CPU per turn'' Resource
      ''B, S1, peak, and CPU''
      ''CPU is at most 250ms and barrier CPU below 5%'',
    test_row 26 ''parallel-memory'' ''Parallel-agent memory delta and total peak'' Resource
      ''N=1,2,4,8 sweep''
      ''N8 completes, peak at most 4 GiB, beta at most 256 MiB'',
    test_row 27 ''scaling-curve'' ''Parallel scaling curve'' Resource
      ''alpha and adjacent marginals''
      ''alpha at most 1.20 with no unexplained marginal jump'',
    test_row 28 ''post-close-reclaim'' ''Post-completion reclaim'' Resource
      ''reclaim and residual''
      ''at least 80% reclaim and no owned worker remains'',
    test_row 29 ''long-horizon'' ''Long-horizon stability'' Resource
      ''1000-turn drift and leaks''
      ''at most 64 KiB/turn with bounded final residual'',
    test_row 30 ''session-replay'' ''Session persist and replay'' AutomationReadiness
      ''cursor-addressed recovered suffix''
      ''ordered suffix appears exactly once in the same session'',
    test_row 31 ''steer'' ''Safe-boundary next prompt'' AutomationReadiness
      ''injected safe-boundary input''
      ''input affects the active run exactly once'',
    test_row 32 ''subturn'' ''Pre-tool next prompt'' AutomationReadiness
      ''input/effect ordering''
      ''input is observed before the pending effect'',
    test_row 33 ''queued-turn'' ''Queued next turn'' AutomationReadiness
      ''turn order and counts''
      ''A terminal precedes one distinct execution of B'',
    test_row 34 ''noninteractive'' ''Autonomous no-interactive-prompt'' AutomationReadiness
      ''closed-stdin execution''
      ''allowed succeeds and denied fails without a prompt'',
    test_row 35 ''crash-recovery'' ''Crash recovery kill and resume'' AutomationReadiness
      ''recovery latency and effects''
      ''ready within 10s and committed effect occurs at most once'',
    test_row 36 ''cancel-cleanup'' ''Cancellation and cleanup'' AutomationReadiness
      ''terminal latency, orphans, residual''
      ''all cancel within 5s and no owned PID remains'']"

definition tests_37_54 :: "test_definition list" where
  "tests_37_54 = [
    test_row 37 ''resume-idempotency'' ''Resume idempotency'' AutomationReadiness
      ''semantic turns and effects''
      ''duplicate transport requests yield one turn and effect'',
    test_row 38 ''resource-bounds'' ''Resource-bound honoring'' AutomationReadiness
      ''observed concurrency and deadlines''
      ''limits are never exceeded and excess is typed'',
    test_row 39 ''hooks'' ''Hook firing'' AutomationReadiness
      ''committed hook events''
      ''acceptance and completion hooks each fire once'',
    test_row 40 ''durable-journal'' ''Durable journal'' AutomationReadiness
      ''recovered order and tail integrity''
      ''no committed loss or duplicate and no torn corrupt tail'',
    test_row 41 ''profile-network-isolation'' ''Profile and network isolation'' AutomationReadiness
      ''outside access and secret scans''
      ''all roles use isolated roots and only fake endpoint egress'',
    test_row 42 ''model-request-efficiency'' ''Model request efficiency'' Resource
      ''physical model requests per completed semantic turn''
      ''all requests classified; primary <=1/turn; side channels <=0.05/turn; no retries; bounded context tax and growth'',
    test_row 43 ''turn-latency-distribution'' ''Turn latency distribution'' Resource
      ''external turn latency distribution''
      ''all external boundaries present; max below turn timeout; p95 <=1000ms and jitter <=0.25'',
    test_row 44 ''process-hygiene'' ''Process hygiene'' Resource
      ''observed process, thread, and FD churn plus post-exit residue''
      ''no topology-specific residue and no sustained increase in live process, thread, or FD counts'',
    test_row 45 ''time-to-first-model-request'' ''Time to first model request'' Resource
      ''cold launch to first completed model request body''
      ''all cold launch/request pairs present; p95 <=2000ms; max <=10000ms and below turn timeout'',
    test_row 46 ''memory-time-integral'' ''Memory time integral'' Resource
      ''trapezoidal effective-memory integral and N=1 CPU per turn''
      ''coverage >=0.99; every turn bracketed; max sample gap <=2x cadence; median <=1024 MiB*s/turn; CPU p95 <=250ms'',
    test_row 47 ''disk-io-per-turn'' ''Disk I/O per turn'' Resource
      ''owned-tree bytes written plus journal and declared-log growth''
      ''complete live/retired counters; disk p95 <=64 MiB/turn; bounded journal/log medians and growth slope'',
    test_row 48 ''model-wait-cpu'' ''Model wait CPU'' Resource
      ''owned-tree CPU while a paced provider response is pending''
      ''all paced frames arrive once; exactly one success; owned-tree CPU <=5% of one core'',
    test_row 49 ''latency-vs-turn-index'' ''Latency versus turn index'' Resource
      ''Theil-Sen wall-latency slope and first/last-decile medians''
      ''every growing-session turn terminalizes; slope, decile ratio, and last-decile latency remain bounded'',
    test_row 50 ''session-residue-sweep'' ''Session residue sweep'' Resource
      ''process and identity-safe declared-store residue after repeated public close-delete''
      ''all sessions are really deleted and process, memory, FD, thread, and store slopes remain bounded'',
    test_row 51 ''context-limit-recovery'' ''Context limit recovery'' AutomationReadiness
      ''fake-provider request stream across an exact context-length fault and compacted retry''
      ''one bounded deterministic recovery preserves session identity, instructions, markers, effects, and every tool pair'',
    test_row 52 ''resume-latency-vs-length'' ''Resume latency versus session length'' AutomationReadiness
      ''external resume-to-first-request latency over persisted session lengths''
      ''session identity and cursor are exact while p95, Theil-Sen slope, and long/short ratio remain bounded'',
    test_row 53 ''journal-torn-tail-sweep'' ''Journal torn-tail sweep'' AutomationReadiness
      ''repeated kill-after-growth journal copies truncated at exact record-relative cuts''
      ''every committed prefix recovers cleanly without corruption, loss, fabrication, or duplicate effects'',
    test_row 54 ''fanout-cliff'' ''Fanout cliff'' Resource
      ''median-aggregated RSS and wall scaling across the required fanout widths''
      ''all widths terminalize without an RSS/wall cliff, super-linear global RSS, or excessive N8 peak'']"

definition tests_55_72 :: "test_definition list" where
  "tests_55_72 = [
    test_row 55 ''fairness-under-fanout'' ''Fairness under fanout'' Resource
      ''barrier-release-to-terminal latency distribution for every scheduled actor''
      ''no starvation and bounded population CV, spread, and non-null max/min ratio'',
    test_row 56 ''child-failure-propagation'' ''Child failure propagation'' Functionality
      ''parent terminal latency after a native child crash or hang''
      ''parent fails within the declared bound, cancels the child, and leaves no owned residue'',
    test_row 57 ''signal-matrix'' ''Signal matrix'' AutomationReadiness
      ''structured terminal and owned-tree cleanup for signals and stdin EOF''
      ''each applicable operation emits one clean terminal within grace and leaves zero residue'',
    test_row 58 ''retry-budget'' ''Retry budget'' ToolCallCorrectness
      ''physical attempts, backoff intervals, terminal count, and committed effects''
      ''sustained 429/500 exhausts the documented bounded jittered policy with one failure terminal'',
    test_row 59 ''slow-stream-vs-stall'' ''Slow stream versus stall'' ToolCallCorrectness
      ''reset-on-byte idle handling and true-stall terminalization''
      ''paced bytes prevent idle timeout while zero-byte stall self-aborts within the declared idle bound'',
    test_row 60 ''large-tool-output'' ''Large tool output'' ToolCallCorrectness
      ''bounded correlated capture of a deterministic ten-MiB tool result''
      ''capture is bounded with an exact truncation marker, digest, correlation, and memory envelope'',
    test_row 61 ''workspace-fault'' ''Workspace fault'' ToolCallCorrectness
      ''ordinary fixture write failure in an externally verified read-only workspace''
      ''one structured errno-bearing failure, no escape or crash, and no process residue'',
    test_row 62 ''offline-mode'' ''Offline mode'' AutomationReadiness
      ''successful provider-only run under a reviewed same-confinement egress guard''
      ''provider remains reachable, every other connection is blocked, and the independent control probe is denied'',
    test_row 63 ''nondeterministic-field-report'' ''Nondeterministic field report'' Functionality
      ''cross-execution canonical request leaf stability''
      ''score >=0.99 and no varying critical request field'',
    test_row 64 ''cross-run-reproducibility'' ''Cross-run reproducibility'' Functionality
      ''normalized canonical request stream reproducibility''
      ''equal semantic request count and attempt multiplicity with byte-identical normalized streams'',
    test_row 65 ''injection-surface'' ''Injection surface'' AutomationReadiness
      ''verified provider, base-URL, and credential carrier scores''
      ''all three isolated trap trials verify with nonzero component scores and aggregate score >=0.50'',
    test_row 66 ''budget-enforcement'' ''Budget enforcement'' AutomationReadiness
      ''token, cost, and time stop boundaries with post-boundary overruns''
      ''every budget case stops at its exact boundary with one typed budget terminal and zero overruns'',
    test_row 67 ''usage-reporting'' ''Usage reporting'' AutomationReadiness
      ''machine-readable per-repetition token, cost, and turn totals''
      ''all five declared usage fields exactly match every fake-provider repetition with zero crosscheck errors'',
    test_row 68 ''session-ops-cli'' ''Session operations CLI'' AutomationReadiness
      ''create, list, resume, fork, and delete CLI lifecycle operations''
      ''every operation preserves a committed nonempty seed, identity, prefix, divergence, and delete semantics'',
    test_row 69 ''event-stream-completeness'' ''Event stream completeness'' AutomationReadiness
      ''tool IDs, result correlation, timestamps, usage, terminal typing, schema version, and model narrative''
      ''at least five of seven components pass including tool-call ID, correlated result, terminal typing, and narrative reconstructability'',
    test_row 70 ''headless-permission-model'' ''Headless permission model'' AutomationReadiness
      ''permission granularity, prompt count, and allowed or denied effects''
      ''score >=0.50 with every allowed and denied trial effective, zero TTY prompts, and zero scope violations'',
    test_row 71 ''secrets-hygiene-on-disk'' ''Secrets hygiene on disk'' AutomationReadiness
      ''credential matches across captured streams and profile artifacts''
      ''nonempty exact carrier declarations and zero credential occurrences outside allowed private carrier files or argv'',
    test_row 72 ''tool-result-role-fidelity'' ''Tool-result role fidelity'' ToolCallCorrectness
      ''protocol-native successful and failed tool-result roles in subsequent requests''
      ''exactly two checks per repetition with one matching typed result and zero violations'']"

definition tests_73_73 :: "test_definition list" where
  "tests_73_73 = [
    test_row 73 ''compaction-transparency'' ''Compaction transparency'' AutomationReadiness
      ''externally observed compactions and correlated durable announcements with affected scope''
      ''every observed compaction emits exactly one turn-correlated announcement that identifies affected scope'']"

definition tests :: "test_definition list" where
  "tests = tests_1_18 @ tests_19_36 @ tests_37_54 @ tests_55_72 @ tests_73_73"

definition prioritized_rows :: "u8 list" where
  "prioritized_rows = [1, 2, 3, 9, 10, 12, 20, 26, 30, 35, 40]"

definition requirement :: "test_definition \<Rightarrow> requirement_kind" where
  "requirement d =
     (if td_row d \<in> {42, 43, 45, 46, 47, 63, 65} then Informational
      else case find (\<lambda>facet. of_row facet = td_row d) optional_facets of
             None \<Rightarrow> Core
           | Some facet \<Rightarrow> OptionalFacet (of_capability facet))"

text \<open>\<open>all().iter().find(|definition| definition.row == row)\<close>, the lookup of every caller.\<close>

definition find_definition :: "u8 \<Rightarrow> test_definition option" where
  "find_definition row = find (\<lambda>d. td_row d = row) tests"

section \<open>The matrix is well formed\<close>

lemmas tests_unfold = tests_def tests_1_18_def tests_19_36_def tests_37_54_def tests_55_72_def
  tests_73_73_def

lemma td_row_test_row [simp]: "td_row (test_row r i n p m c) = r"
  by (simp add: test_row_def)

lemma td_id_test_row [simp]: "td_id (test_row r i n p m c) = i"
  by (simp add: test_row_def)

lemma tests_rows: "map td_row tests = [1..<74]"
  by (simp add: tests_unfold upt_rec)

lemma find_distinct_Some:
  "distinct (map f xs) \<Longrightarrow> x \<in> set xs \<Longrightarrow> find (\<lambda>y. f y = f x) xs = Some x"
  by (induction xs) auto

lemma find_definition_eq: "d \<in> set tests \<Longrightarrow> find_definition (td_row d) = Some d"
  unfolding find_definition_def by (rule find_distinct_Some) (simp_all add: tests_rows)

lemma find_definition_Some:
  "find_definition row = Some d \<longleftrightarrow> d \<in> set tests \<and> td_row d = row"
  using find_definition_eq by (auto simp: find_definition_def find_Some_iff)

lemma find_definition_None: "find_definition row = None \<longleftrightarrow> row \<notin> {1..73}"
proof -
  have "find_definition row = None \<longleftrightarrow> row \<notin> set (map td_row tests)"
    by (auto simp: find_definition_def find_None_iff)
  then show ?thesis by (auto simp: tests_rows)
qed

lemma requirement_row_cong: "td_row d = td_row e \<Longrightarrow> requirement d = requirement e"
  by (simp add: requirement_def)

definition row_requirement :: "u8 \<Rightarrow> requirement_kind option" where
  "row_requirement row = map_option requirement (find_definition row)"

lemma row_requirement_eq:
  assumes "1 \<le> row" "row \<le> 73"
  shows "row_requirement row = Some
    (if row \<in> {42, 43, 45, 46, 47, 63, 65} then Informational
     else case find (\<lambda>facet. of_row facet = row) optional_facets of
            None \<Rightarrow> Core | Some facet \<Rightarrow> OptionalFacet (of_capability facet))"
proof -
  from assms obtain d where d: "find_definition row = Some d"
    using find_definition_None [of row] by (cases "find_definition row") auto
  then have "td_row d = row" by (simp add: find_definition_Some)
  with d show ?thesis by (simp add: row_requirement_def requirement_def)
qed

end
