(* ===== verification/Classify.thy ===== *)
theory Classify
  imports Scenarios
begin

text \<open>
  Classification of one row from its capability state and its assertions, as in
  \<open>classify\<close> and \<open>TestResultMetadata::for_row\<close> of \<open>src/src/evaluate.rs\<close>.
\<close>

definition for_row :: "u8 \<Rightarrow> test_outcome \<Rightarrow> test_result_metadata" where
  "for_row row outcome =
     (let req = row_requirement row;
          (label, capability) =
            (case req of
               Some (OptionalFacet capability) \<Rightarrow> (''optional-facet'', Some capability)
             | Some Informational \<Rightarrow> (''informational'', None)
             | Some Core \<Rightarrow> (''core'', None)
             | None \<Rightarrow> (''core'', None));
          measurement_complete = (\<not> is_error outcome \<and> \<not> is_absent outcome);
          informational = (req = Some Informational)
      in \<lparr>md_wall_duration_s = Fin 0, md_wall_duration_scope = default_wall_duration_scope,
          md_requirement = label, md_capability = capability, md_capability_declared = None,
          md_measurement_complete = measurement_complete, md_score = None,
          md_reference_envelope_pass =
            (if informational \<and> measurement_complete then Some (outcome = Pass) else None)\<rparr>)"

definition assertion_text :: "assertion \<Rightarrow> string" where
  "assertion_text a = as_name a @ '': '' @ as_detail a"

definition classify_outcome ::
    "string \<Rightarrow> bool option \<Rightarrow> assertion list \<Rightarrow> string option \<Rightarrow> test_outcome" where
  "classify_outcome i capability assertions infrastructure_error =
     (case infrastructure_error of
        Some error \<Rightarrow> Error error
      | None \<Rightarrow>
          (if capability = None then Absent (''capability declaration missing for '' @ i)
           else if capability = Some False
             then Unsupported (''harness declares '' @ i @ '' unsupported'')
           else case find (\<lambda>a. \<not> as_passed a) assertions of
             Some failure \<Rightarrow> Fail (assertion_text failure)
           | None \<Rightarrow>
               (if assertions = [] then Error (''scenario '' @ i @ '' produced no assertions'')
                else Pass)))"

definition classify ::
    "u8 \<Rightarrow> string \<Rightarrow> pillar \<Rightarrow> bool option \<Rightarrow> assertion list \<Rightarrow> string option \<Rightarrow> test_result" where
  "classify row i p capability assertions infrastructure_error =
     (let outcome = classify_outcome i capability assertions infrastructure_error
      in \<lparr>res_row = row, res_id = i, res_pillar = p, res_outcome = outcome,
          res_evidence = sort (map assertion_text assertions),
          res_metadata = for_row row outcome\<rparr>)"

section \<open>Every branch of the classification\<close>

lemma classify_sel [simp]:
  "res_row (classify row i p c as e) = row"
  "res_id (classify row i p c as e) = i"
  "res_pillar (classify row i p c as e) = p"
  "res_outcome (classify row i p c as e) = classify_outcome i c as e"
  "res_metadata (classify row i p c as e) = for_row row (classify_outcome i c as e)"
  by (simp_all add: classify_def Let_def)

lemma classify_outcome_simps [outcome_simps]:
  "classify_outcome i c as (Some e) = Error e"
  "classify_outcome i None as None = Absent (''capability declaration missing for '' @ i)"
  "classify_outcome i (Some False) as None = Unsupported (''harness declares '' @ i @ '' unsupported'')"
  "classify_outcome i (Some True) [] None = Error (''scenario '' @ i @ '' produced no assertions'')"
  by (simp_all add: classify_outcome_def)

lemma classify_Pass_iff:
  "classify_outcome i c as e = Pass \<longleftrightarrow>
     e = None \<and> c = Some True \<and> as \<noteq> [] \<and> (\<forall>a \<in> set as. as_passed a)"
  using find_None_iff [of "\<lambda>a. \<not> as_passed a" as]
  by (cases "find (\<lambda>a. \<not> as_passed a) as") (auto simp: classify_outcome_def split: option.splits)

lemma classify_Fail_iff:
  "classify_outcome i c as e = Fail s \<longleftrightarrow>
     e = None \<and> c = Some True \<and>
     (\<exists>a. find (\<lambda>a. \<not> as_passed a) as = Some a \<and> s = assertion_text a)"
  by (auto simp: classify_outcome_def split: option.splits if_splits)

lemma classify_Unsupported_iff:
  "is_unsupported (classify_outcome i c as e) \<longleftrightarrow> e = None \<and> c = Some False"
  by (auto simp: classify_outcome_def split: option.splits if_splits)

lemma classify_Absent_iff:
  "is_absent (classify_outcome i c as e) \<longleftrightarrow> e = None \<and> c = None"
  by (auto simp: classify_outcome_def split: option.splits if_splits)

lemma for_row_complete:
  "md_measurement_complete (for_row row outcome) = (\<not> is_error outcome \<and> \<not> is_absent outcome)"
  by (simp add: for_row_def Let_def split: option.splits requirement_kind.splits prod.splits)

end
