(* ===== verification/Manifest.thy ===== *)
theory Manifest
  imports Prelude
begin

text \<open>
  The adapter manifest of \<open>src/src/manifest.rs\<close>: one record per struct and one datatype
  per enum, in dependency order, every field with the source's name behind a short prefix, and the
  storage declarations of \<open>src/src/storage.rs\<close> the manifest contains.  Deserialisation
  (serde defaults, renames) is outside the model: a value here is a manifest already loaded.
\<close>

record identity =
  idn_schema :: "u32"
  idn_id :: "string"
  idn_name :: "string"
  idn_revision :: "string"

record availability =
  av_exec_paths :: "string list"
  av_required_exec_paths :: "string list"
  av_version_probe :: "string list"
  av_version_pattern :: "string"

datatype protocol_dialect = PD_OpenAiChatCompletions | PD_OpenAiResponses | PD_AnthropicMessages

record generated_file =
  gf_path :: "string"
  gf_content :: "string"
  gf_mode :: "string"

record fake_model_binding =
  fmb_dialect :: "protocol_dialect"
  fmb_base_url_env :: "string"
  fmb_credential_env :: "string"
  fmb_auth_required :: "bool"
  fmb_model :: "string"
  fmb_allowed_paths :: "string list"
  fmb_provider_templates :: "generated_file list"

record model_role =
  role_model :: "string"
  role_required :: "bool"

datatype side_channel_kind = SC_Title | SC_Summary | SC_Compaction | SC_Reviewer | SC_Child

record request_role_rule =
  rrr_kind :: "side_channel_kind"
  rrr_priority :: "u32"
  rrr_model_ids :: "string list"
  rrr_json_pointer :: "string"
  rrr_regex :: "string"

record isolation =
  iso_roots :: "(string, string) btree"
  iso_environment :: "(string, string) btree"
  iso_generated_files :: "generated_file list"
  iso_forbidden_roots :: "string list"
  iso_socket_path_suffixes :: "string list"

record probe =
  pr_kind :: "string"
  pr_target :: "string"
  pr_command :: "string list"
  pr_json_pointer_roots :: "(string, string) btree"
  pr_pid_pointer :: "string"
  pr_ready_pointer :: "string"
  pr_timeout_ms :: "u64"

record shutdown_result =
  sr_outcome_pointer :: "string"
  sr_clean_outcomes :: "string list"
  sr_escalate_outcomes :: "string list"

record daemon_lifecycle =
  dl_persistent :: "bool"
  dl_start :: "string list"
  dl_launcher_exits :: "bool"
  dl_initialize :: "string list"
  dl_readiness :: "probe"
  dl_pid_locator :: "string"
  dl_shutdown :: "string list"
  dl_shutdown_result :: "shutdown_result"
  dl_grace_ms :: "u64"
  dl_idle_linger_ms :: "u64 option"

datatype transport_kind = TK_Exec | TK_StdinRpc | TK_SocketJsonrpc | TK_Http

record transport_config =
  tr_kind :: "transport_kind"
  tr_command :: "string list"
  tr_endpoint :: "string"
  tr_timeout_ms :: "u64"

datatype delete_missing_semantics = DM_TypedNotFound | DM_IdempotentSuccess

record session_ops =
  so_create :: "string list"
  so_submit :: "string list"
  so_attach :: "string list"
  so_resume :: "string list"
  so_continue_turn :: "string list"
  so_resume_control :: "string list"
  so_recover_probe :: "string list"
  so_close_delete :: "string list"
  so_store_paths :: "string list"
  so_list :: "string list"
  so_fork :: "string list"
  so_delete :: "string list"
  so_wait_ready :: "string list"
  so_id_pointer :: "string"
  so_run_id_pointer :: "string"
  so_fork_id_pointer :: "string"
  so_list_array_pointer :: "string"
  so_list_item_id_pointer :: "string"
  so_delete_missing_semantics :: "delete_missing_semantics option"
  so_not_found_pointer :: "string"
  so_not_found_value :: "string"

record next_input_ops =
  ni_steer :: "string list"
  ni_subturn :: "string list"
  ni_queue :: "string list"

record input_config =
  inp_prompt_uses_stdin :: "bool option"

record agent_ops =
  ag_create :: "string list"
  ag_spawn :: "string list"
  ag_status :: "string list"
  ag_cancel :: "string list"
  ag_collect :: "string list"
  ag_child_id_pointer :: "string"
  ag_status_result_pointer :: "string"
  ag_collect_events_pointer :: "string"

record concurrency =
  cc_topology :: "string"
  cc_max_agents :: "usize option"
  cc_fanout_mode :: "string"
  cc_barrier_evidence :: "string"
  cc_release :: "string list"

datatype topology_family = TP_PerInvocation | TP_SharedController

datatype tool_alias = TA_One "string" | TA_Candidates "string list"

record tool_semantics =
  ts_aliases :: "(string, tool_alias) btree"
  ts_bindings :: "(string, string) btree"
  ts_fixtures :: "(string, string list) btree"

record compaction_capture =
  cpt_event :: "string"
  cpt_turn_pointer :: "string"
  cpt_dropped_count_pointer :: "string option"
  cpt_dropped_span_start_pointer :: "string option"
  cpt_dropped_span_end_pointer :: "string option"

datatype timestamp_format = TF_Rfc3339 | TF_UnixMs | TF_UnixNs | TF_MonotonicNs

datatype usage_scope = US_Turn | US_CumulativeRun

record event_metadata =
  emd_timestamp_pointer :: "string"
  emd_timestamp_format :: "timestamp_format option"
  emd_schema_version_pointer :: "string"
  emd_schema_version_value :: "string"
  emd_usage_event :: "string"
  emd_usage_scope :: "usage_scope option"
  emd_input_tokens_pointer :: "string"
  emd_output_tokens_pointer :: "string"
  emd_total_tokens_pointer :: "string"
  emd_cost_microusd_pointer :: "string"
  emd_turns_pointer :: "string"

record event_rule =
  er_matches :: "string"
  er_match_fields :: "(string, string) btree"
  er_expand_pointer :: "string"
  er_event :: "string"
  er_payload_pointer :: "string"
  er_payload_bindings :: "(string, string) btree"

datatype narrative_aggregation = NA_CompleteEvent | NA_ItemDeltas

record narrative_capture =
  nc_assistant_text_event :: "string"
  nc_assistant_text_pointer :: "string"
  nc_assistant_text_match_fields :: "(string, string) btree"
  nc_assistant_text_aggregation :: "narrative_aggregation"
  nc_assistant_text_item_pointer :: "string option"
  nc_reasoning_event :: "string"
  nc_reasoning_pointer :: "string"
  nc_reasoning_match_fields :: "(string, string) btree"
  nc_reasoning_aggregation :: "narrative_aggregation"
  nc_reasoning_item_pointer :: "string option"
  nc_turn_pointer :: "string"

datatype torn_tail_operation = TO_Submit

record torn_tail_journal =
  tt_prepare :: "string list"
  tt_operation :: "torn_tail_operation"
  tt_path :: "string"
  tt_copy_root :: "string"

record event_mapping =
  em_source :: "string"
  em_path :: "string"
  em_framing :: "string"
  em_type_pointer :: "string"
  em_id_pointer :: "string"
  em_cursor_pointer :: "string"
  em_schema_version_pointer :: "string"
  em_schema_versions :: "u64 list"
  em_warn_unmapped_payload_kinds :: "bool"
  em_replay_command :: "string list"
  em_replay_mode :: "string"
  em_replay_records_pointer :: "string"
  em_replay_assertions :: "(string, string) btree"
  em_replay_state_command :: "string list"
  em_replay_state_assertions :: "(string, string) btree"
  em_replay_state_pointers :: "string list"
  em_replay_compare_live_records :: "bool"
  em_replay_envelope_pointer :: "string"
  em_replay_cursor_start :: "u64 option"
  em_rules :: "event_rule list"
  em_metadata :: "event_metadata option"
  em_narrative :: "narrative_capture option"
  em_compaction :: "compaction_capture option"
  em_torn_tail :: "torn_tail_journal option"

record exit_contract =
  ex_success :: "i32"
  ex_success_stdout :: "string list"
  ex_failure_stdout :: "string list"
  ex_failures :: "(string, i32) btree"

record process_ownership =
  po_pid_files :: "string list"
  po_executable_names :: "string list"
  po_profile_lock_paths :: "string list"

datatype tariff_surface = TS_Environment | TS_Cli | TS_GeneratedConfig | TS_Unsupported

record tariff_config =
  tc_surface :: "tariff_surface"
  tc_input_microusd_per_token :: "u64"
  tc_output_microusd_per_token :: "u64"
  tc_input_environment :: "string"
  tc_output_environment :: "string"
  tc_argv :: "string list"
  tc_generated_path :: "string"
  tc_input_json_pointer :: "string"
  tc_output_json_pointer :: "string"

record budget_controls =
  bc_max_tokens :: "string list"
  bc_max_cost :: "string list"
  bc_max_time :: "string list"
  bc_tariff :: "tariff_config option"

record context_window_config =
  cw_surface :: "string"
  cw_tokens :: "u64"
  cw_environment :: "string"
  cw_argv :: "string list"
  cw_generated_path :: "string"
  cw_json_pointer :: "string"

record resource_controls =
  rc_turn_timeout_ms :: "u64"
  rc_idle_timeout_ms :: "u64"
  rc_max_output_bytes :: "usize"
  rc_retry_max_attempts :: "u32 option"
  rc_retry_base_delay_ms :: "u64 option"
  rc_retry_max_delay_ms :: "u64 option"
  rc_log_paths :: "(string list) option"
  rc_journal_paths :: "(string list) option"
  rc_context_window :: "context_window_config option"
  rc_budget_controls :: "budget_controls option"

record economy_config =
  eco_workspace_path :: "string option"

record fidelity_config =
  fid_declared_turn_ceiling :: "u64 option"
  fid_internal_cap_exit_codes :: "i32 list"
  fid_workspace_path :: "string option"

record hooks =
  hk_acceptance :: "string list"
  hk_completion :: "string list"

record cleanup =
  cl_command :: "string list"
  cl_paths :: "string list"

record truncation_marker =
  tm_regex :: "string"

record capture_policy =
  cap_redact_env :: "string list"
  cap_allow_credential_argv :: "bool"
  cap_max_bytes :: "usize"
  cap_truncation_marker :: "truncation_marker option"
  cap_credential_carrier_paths :: "(string list) option"

datatype argv_position = AP_Prefix | AP_Suffix | AP_ReplaceOption

datatype injection_argv_target = IT_Launch | IT_DaemonInitialize

datatype injection_method = IM_Environment | IM_Cli | IM_GeneratedConfig | IM_Impossible

record injection_component =
  ic_method :: "injection_method"
  ic_environment :: "string"
  ic_argv :: "string list"
  ic_argv_position :: "argv_position"
  ic_argv_target :: "injection_argv_target"
  ic_generated_path :: "string"
  ic_json_pointer :: "string"

record injection_surface =
  isf_provider :: "injection_component"
  isf_base_url :: "injection_component"
  isf_credential :: "injection_component"

record capabilities =
  cb_required :: "(string, string) btree"
  cb_optional :: "(string, string) btree"
  cb_injection_surface :: "injection_surface option"

datatype permission_mode = PM_AllowListAndSandbox | PM_AllowList | PM_Sandbox | PM_WorkspaceYolo | PM_None

record permission_config =
  pc_mode :: "permission_mode"
  pc_allow :: "string list"
  pc_deny_filesystem :: "string list"
  pc_deny_network :: "string list"
  pc_yolo :: "string list"

record storage_config =
  sc_areas :: "(string, string list) btree option"
  sc_session_delete :: "(string list) option"
  sc_uninstall_cleanup :: "(string list) option"
  sc_sweep_interval_s :: "u64 option"
  sc_session_close :: "(string list) option"
  sc_retention_cap_bytes :: "u64 option"
  sc_auxiliary_cap_bytes :: "(string, u64) btree option"
  sc_workspace_path :: "string option"

record manifest =
  m_identity :: "identity"
  m_availability :: "availability"
  m_fake_model :: "fake_model_binding"
  m_model_roles :: "(string, model_role) btree"
  m_request_role_rules :: "request_role_rule list"
  m_isolation :: "isolation"
  m_daemon :: "daemon_lifecycle"
  m_transport :: "transport_config"
  m_sessions :: "session_ops"
  m_next_input :: "next_input_ops"
  m_input :: "input_config"
  m_agents :: "agent_ops"
  m_concurrency :: "concurrency"
  m_tools :: "tool_semantics"
  m_events :: "event_mapping"
  m_exit :: "exit_contract"
  m_process :: "process_ownership"
  m_resources :: "resource_controls"
  m_economy :: "economy_config"
  m_fidelity :: "fidelity_config"
  m_storage :: "storage_config option"
  m_hooks :: "hooks"
  m_cleanup :: "cleanup"
  m_capture :: "capture_policy"
  m_permissions :: "permission_config option"
  m_capabilities :: "capabilities"

section \<open>Operations on the declarations\<close>

fun side_channel_as_str :: "side_channel_kind \<Rightarrow> string" where
  "side_channel_as_str SC_Title = ''title''"
| "side_channel_as_str SC_Summary = ''summary''"
| "side_channel_as_str SC_Compaction = ''compaction''"
| "side_channel_as_str SC_Reviewer = ''reviewer''"
| "side_channel_as_str SC_Child = ''child''"

definition input_is_absent :: "input_config \<Rightarrow> bool" where
  "input_is_absent c = (inp_prompt_uses_stdin c = None)"

definition economy_is_absent :: "economy_config \<Rightarrow> bool" where
  "economy_is_absent c = (eco_workspace_path c = None)"

definition fidelity_is_absent :: "fidelity_config \<Rightarrow> bool" where
  "fidelity_is_absent c = (fid_declared_turn_ceiling c = None
     \<and> fid_internal_cap_exit_codes c = [] \<and> fid_workspace_path c = None)"

fun tool_candidates :: "tool_alias \<Rightarrow> string list" where
  "tool_candidates (TA_One name) = [name]"
| "tool_candidates (TA_Candidates names) = names"

definition tool_primary :: "tool_alias \<Rightarrow> string option" where
  "tool_primary a = (case tool_candidates a of [] \<Rightarrow> None | n # _ \<Rightarrow> Some n)"

definition topology_family :: "string \<Rightarrow> topology_family option" where
  "topology_family t =
     (if t = ''client-process-fanout'' \<or> t = ''worker-processes'' then Some TP_PerInvocation
      else if t = ''shared-daemon-sessions'' \<or> t = ''native-sibling-fanout''
        then Some TP_SharedController
      else None)"

end
