(* ===== verification/Matrix_Evidence.thy ===== *)
theory Matrix_Evidence
  imports Classify Manifest
begin

text \<open>
  Typed row evidence and the strict row oracles of \<open>src/src/matrix_evidence.rs\<close>: the
  observation sets, the table of exact criteria of rows 1 to 41, the oracles of rows 65 to 73, the
  capability a manifest gives each row, and \<open>evaluate_row\<close>.  Text that the code prints with
  a derived \<open>Debug\<close> formatter, whose format Rust does not fix, goes through the parameter
  \<open>debug_fmt\<close>; all other text is modelled character by character.
\<close>

datatype evidence_value = EvBool bool | EvU64 u64 | EvF64 f64 | EvText string
  | EvTextList "string list" | EvU64List "u64 list"

record observation_set =
  os_values :: "(string, evidence_value) btree"

record debug_fmt =
  dbg_evidence :: "evidence_value \<Rightarrow> string"
  dbg_f64_result :: "string + f64 \<Rightarrow> string"
  dbg_u64_result :: "string + u64 \<Rightarrow> string"

definition new_observations :: observation_set where
  "new_observations = \<lparr>os_values = []\<rparr>"

definition with_bool :: "observation_set \<Rightarrow> string \<Rightarrow> bool \<Rightarrow> observation_set" where
  "with_bool s name v = s\<lparr>os_values := bt_insert name (EvBool v) (os_values s)\<rparr>"

definition with_u64 :: "observation_set \<Rightarrow> string \<Rightarrow> u64 \<Rightarrow> observation_set" where
  "with_u64 s name v = s\<lparr>os_values := bt_insert name (EvU64 v) (os_values s)\<rparr>"

definition with_f64 :: "observation_set \<Rightarrow> string \<Rightarrow> f64 \<Rightarrow> observation_set" where
  "with_f64 s name v = s\<lparr>os_values := bt_insert name (EvF64 v) (os_values s)\<rparr>"

definition with_text :: "observation_set \<Rightarrow> string \<Rightarrow> string \<Rightarrow> observation_set" where
  "with_text s name v = s\<lparr>os_values := bt_insert name (EvText v) (os_values s)\<rparr>"

definition with_text_list :: "observation_set \<Rightarrow> string \<Rightarrow> string list \<Rightarrow> observation_set" where
  "with_text_list s name v = s\<lparr>os_values := bt_insert name (EvTextList v) (os_values s)\<rparr>"

definition with_u64_list :: "observation_set \<Rightarrow> string \<Rightarrow> u64 list \<Rightarrow> observation_set" where
  "with_u64_list s name v = s\<lparr>os_values := bt_insert name (EvU64List v) (os_values s)\<rparr>"

section \<open>Row evidence\<close>

datatype row_evidence =
    Routing observation_set
  | SingleToolCall observation_set
  | SequentialToolCalls observation_set
  | ParallelToolCalls observation_set
  | FragmentedToolArgs observation_set
  | FailedToolResult observation_set
  | MalformedToolCall observation_set
  | ToolIdDedup observation_set
  | TerminalSuccess observation_set
  | TerminalFailure observation_set
  | UpstreamRetry observation_set
  | IdleDeadline observation_set
  | WorkspaceEffects observation_set
  | StateNetworkConfinement observation_set
  | HeadlessWorkflow observation_set
  | TranscriptDeterminism observation_set
  | ActorIsolation observation_set
  | NativeDelegation observation_set
  | ExitCodes observation_set
  | IdleRss observation_set
  | IdleCpu observation_set
  | IdleDrift observation_set
  | ReturnToIdle observation_set
  | ColdStart observation_set
  | SingleAgentResource observation_set
  | ParallelMemory observation_set
  | ScalingCurve observation_set
  | PostCloseReclaim observation_set
  | LongHorizon observation_set
  | SessionReplay observation_set
  | Steer observation_set
  | Subturn observation_set
  | QueuedTurn observation_set
  | Noninteractive observation_set
  | CrashRecovery observation_set
  | CancelCleanup observation_set
  | ResumeIdempotency observation_set
  | ResourceBounds observation_set
  | Hooks observation_set
  | DurableJournal observation_set
  | ProfileNetworkIsolation observation_set
  | InjectionSurface observation_set
  | BudgetEnforcement observation_set
  | UsageReporting observation_set
  | SessionOpsCli observation_set
  | EventStreamCompleteness observation_set
  | HeadlessPermissionModel observation_set
  | SecretsHygieneOnDisk observation_set
  | ToolResultRoleFidelity observation_set
  | CompactionTransparency observation_set

fun evidence_row :: "row_evidence \<Rightarrow> u8" where
  "evidence_row (Routing _) = 1"
| "evidence_row (SingleToolCall _) = 2"
| "evidence_row (SequentialToolCalls _) = 3"
| "evidence_row (ParallelToolCalls _) = 4"
| "evidence_row (FragmentedToolArgs _) = 5"
| "evidence_row (FailedToolResult _) = 6"
| "evidence_row (MalformedToolCall _) = 7"
| "evidence_row (ToolIdDedup _) = 8"
| "evidence_row (TerminalSuccess _) = 9"
| "evidence_row (TerminalFailure _) = 10"
| "evidence_row (UpstreamRetry _) = 11"
| "evidence_row (IdleDeadline _) = 12"
| "evidence_row (WorkspaceEffects _) = 13"
| "evidence_row (StateNetworkConfinement _) = 14"
| "evidence_row (HeadlessWorkflow _) = 15"
| "evidence_row (TranscriptDeterminism _) = 16"
| "evidence_row (ActorIsolation _) = 17"
| "evidence_row (NativeDelegation _) = 18"
| "evidence_row (ExitCodes _) = 19"
| "evidence_row (IdleRss _) = 20"
| "evidence_row (IdleCpu _) = 21"
| "evidence_row (IdleDrift _) = 22"
| "evidence_row (ReturnToIdle _) = 23"
| "evidence_row (ColdStart _) = 24"
| "evidence_row (SingleAgentResource _) = 25"
| "evidence_row (ParallelMemory _) = 26"
| "evidence_row (ScalingCurve _) = 27"
| "evidence_row (PostCloseReclaim _) = 28"
| "evidence_row (LongHorizon _) = 29"
| "evidence_row (SessionReplay _) = 30"
| "evidence_row (Steer _) = 31"
| "evidence_row (Subturn _) = 32"
| "evidence_row (QueuedTurn _) = 33"
| "evidence_row (Noninteractive _) = 34"
| "evidence_row (CrashRecovery _) = 35"
| "evidence_row (CancelCleanup _) = 36"
| "evidence_row (ResumeIdempotency _) = 37"
| "evidence_row (ResourceBounds _) = 38"
| "evidence_row (Hooks _) = 39"
| "evidence_row (DurableJournal _) = 40"
| "evidence_row (ProfileNetworkIsolation _) = 41"
| "evidence_row (InjectionSurface _) = 65"
| "evidence_row (BudgetEnforcement _) = 66"
| "evidence_row (UsageReporting _) = 67"
| "evidence_row (SessionOpsCli _) = 68"
| "evidence_row (EventStreamCompleteness _) = 69"
| "evidence_row (HeadlessPermissionModel _) = 70"
| "evidence_row (SecretsHygieneOnDisk _) = 71"
| "evidence_row (ToolResultRoleFidelity _) = 72"
| "evidence_row (CompactionTransparency _) = 73"

fun observations :: "row_evidence \<Rightarrow> observation_set" where
  "observations (Routing v) = v"
| "observations (SingleToolCall v) = v"
| "observations (SequentialToolCalls v) = v"
| "observations (ParallelToolCalls v) = v"
| "observations (FragmentedToolArgs v) = v"
| "observations (FailedToolResult v) = v"
| "observations (MalformedToolCall v) = v"
| "observations (ToolIdDedup v) = v"
| "observations (TerminalSuccess v) = v"
| "observations (TerminalFailure v) = v"
| "observations (UpstreamRetry v) = v"
| "observations (IdleDeadline v) = v"
| "observations (WorkspaceEffects v) = v"
| "observations (StateNetworkConfinement v) = v"
| "observations (HeadlessWorkflow v) = v"
| "observations (TranscriptDeterminism v) = v"
| "observations (ActorIsolation v) = v"
| "observations (NativeDelegation v) = v"
| "observations (ExitCodes v) = v"
| "observations (IdleRss v) = v"
| "observations (IdleCpu v) = v"
| "observations (IdleDrift v) = v"
| "observations (ReturnToIdle v) = v"
| "observations (ColdStart v) = v"
| "observations (SingleAgentResource v) = v"
| "observations (ParallelMemory v) = v"
| "observations (ScalingCurve v) = v"
| "observations (PostCloseReclaim v) = v"
| "observations (LongHorizon v) = v"
| "observations (SessionReplay v) = v"
| "observations (Steer v) = v"
| "observations (Subturn v) = v"
| "observations (QueuedTurn v) = v"
| "observations (Noninteractive v) = v"
| "observations (CrashRecovery v) = v"
| "observations (CancelCleanup v) = v"
| "observations (ResumeIdempotency v) = v"
| "observations (ResourceBounds v) = v"
| "observations (Hooks v) = v"
| "observations (DurableJournal v) = v"
| "observations (ProfileNetworkIsolation v) = v"
| "observations (InjectionSurface v) = v"
| "observations (BudgetEnforcement v) = v"
| "observations (UsageReporting v) = v"
| "observations (SessionOpsCli v) = v"
| "observations (EventStreamCompleteness v) = v"
| "observations (HeadlessPermissionModel v) = v"
| "observations (SecretsHygieneOnDisk v) = v"
| "observations (ToolResultRoleFidelity v) = v"
| "observations (CompactionTransparency v) = v"

section \<open>Reading observations\<close>

definition numeric_u64 :: "debug_fmt \<Rightarrow> observation_set \<Rightarrow> string \<Rightarrow> string + u64" where
  "numeric_u64 d s name =
     (case bt_get (os_values s) name of
        Some (EvU64 v) \<Rightarrow> Inr v
      | Some v \<Rightarrow> Inl (name @ '' is not u64: '' @ dbg_evidence d v)
      | None \<Rightarrow> Inl (''missing '' @ name))"

definition numeric_f64 :: "debug_fmt \<Rightarrow> observation_set \<Rightarrow> string \<Rightarrow> string + f64" where
  "numeric_f64 d s name =
     (case bt_get (os_values s) name of
        Some v \<Rightarrow>
          (case v of
             EvF64 x \<Rightarrow> if f_is_finite x then Inr x
                        else Inl (name @ '' is not finite f64: '' @ dbg_evidence d v)
           | _ \<Rightarrow> Inl (name @ '' is not finite f64: '' @ dbg_evidence d v))
      | None \<Rightarrow> Inl (''missing '' @ name))"

definition bool_value :: "debug_fmt \<Rightarrow> observation_set \<Rightarrow> string \<Rightarrow> string + bool" where
  "bool_value d s name =
     (case bt_get (os_values s) name of
        Some (EvBool v) \<Rightarrow> Inr v
      | Some v \<Rightarrow> Inl (name @ '' is not bool: '' @ dbg_evidence d v)
      | None \<Rightarrow> Inl (''missing '' @ name))"

section \<open>Checks\<close>

datatype check = CheckBool string bool | U64Equal string u64 | U64Min string u64
  | U64Max string u64 | F64Min string f64 | F64Max string f64

definition bt :: "string \<Rightarrow> check" where "bt name = CheckBool name True"
definition bf :: "string \<Rightarrow> check" where "bf name = CheckBool name False"
definition ue :: "string \<Rightarrow> u64 \<Rightarrow> check" where "ue name v = U64Equal name v"
definition umin :: "string \<Rightarrow> u64 \<Rightarrow> check" where "umin name v = U64Min name v"
definition umax :: "string \<Rightarrow> u64 \<Rightarrow> check" where "umax name v = U64Max name v"
definition fmin :: "string \<Rightarrow> f64 \<Rightarrow> check" where "fmin name v = F64Min name v"
definition fmax :: "string \<Rightarrow> f64 \<Rightarrow> check" where "fmax name v = F64Max name v"

lemmas check_ctors = bt_def bf_def ue_def umin_def umax_def fmin_def fmax_def

definition show_bool :: "bool \<Rightarrow> string" where
  "show_bool b = (if b then ''true'' else ''false'')"

text \<open>The format \<open>{:.6}\<close> of a finite float: six decimals, ties to even.\<close>

fun show_fixed6 :: "f64 \<Rightarrow> string" where
  "show_fixed6 (Fin x) = (let n = nat (round_half_even (\<bar>x\<bar> * 1000000)); frac = show_nat (n mod 1000000)
     in (if x < 0 then ''-'' else []) @ show_nat (n div 1000000) @ ''.''
        @ replicate (6 - length frac) (CHR ''0'') @ frac)"
| "show_fixed6 (Inf s) = (if s then ''inf'' else ''-inf'')"
| "show_fixed6 NaN = ''NaN''"

definition predicate :: "bool \<Rightarrow> string \<Rightarrow> u64 \<Rightarrow> u64 \<Rightarrow> string \<Rightarrow> string + unit" where
  "predicate actual name v expected operator =
     (if actual then Inr ()
      else Inl (name @ '': '' @ show_u64 v @ '' not '' @ operator @ '' '' @ show_u64 expected))"

definition float_predicate :: "bool \<Rightarrow> string \<Rightarrow> f64 \<Rightarrow> f64 \<Rightarrow> string \<Rightarrow> string + unit" where
  "float_predicate actual name v expected operator =
     (if actual then Inr ()
      else Inl (name @ '': '' @ show_fixed6 v @ '' not '' @ operator @ '' '' @ show_fixed6 expected))"

fun check_evaluate :: "debug_fmt \<Rightarrow> observation_set \<Rightarrow> check \<Rightarrow> string + unit" where
  "check_evaluate d s (CheckBool name expected) =
     (case bt_get (os_values s) name of
        Some actual \<Rightarrow>
          (if actual = EvBool expected then Inr ()
           else Inl (name @ '' expected '' @ show_bool expected @ '', observed '' @ dbg_evidence d actual))
      | None \<Rightarrow> Inl (''missing '' @ name))"
| "check_evaluate d s (U64Equal name expected) =
     and_then (numeric_u64 d s name) (\<lambda>a. predicate (a = expected) name a expected ''=='')"
| "check_evaluate d s (U64Min name expected) =
     and_then (numeric_u64 d s name) (\<lambda>a. predicate (a \<ge> expected) name a expected ''>='')"
| "check_evaluate d s (U64Max name expected) =
     and_then (numeric_u64 d s name) (\<lambda>a. predicate (a \<le> expected) name a expected ''<='')"
| "check_evaluate d s (F64Min name expected) =
     and_then (numeric_f64 d s name) (\<lambda>a. float_predicate (f_le expected a) name a expected ''>='')"
| "check_evaluate d s (F64Max name expected) =
     and_then (numeric_f64 d s name) (\<lambda>a. float_predicate (f_le a expected) name a expected ''<='')"

section \<open>The exact criteria of rows 1 to 41\<close>

text \<open>A float literal of the code is the binary64 number nearest to it.\<close>

definition f64_lit :: "rat \<Rightarrow> f64" where
  "f64_lit q = f_round q"

definition checks_1_19 :: "(u8 \<times> check list) list" where
  "checks_1_19 = [
    (1, [bt ''all_roles_observed'', bt ''exact_tuple'', bf ''unexpected_egress'', bt ''credential_redacted'']),
    (2, [ue ''calls'' 1, ue ''effects'' 1, bt ''args_byte_match'', bt ''result_correlated'', bt ''structural_terminal'']),
    (3, [ue ''calls'' 2, ue ''effects'' 2, bt ''a_before_b'', bt ''b_contains_a_output'', bt ''correlations_correct'']),
    (4, [ue ''calls'' 2, umin ''max_live_calls'' 2, bt ''reverse_completion'', bt ''each_once'', bt ''correlations_correct'', bt ''frame_order_preserved'']),
    (5, [umin ''fragments'' 2, bt ''arguments_exact'', ue ''invocations'' 1, bt ''invoked_after_complete'', bf ''partial_effect'']),
    (6, [ue ''failed_results'' 1, bt ''structured'', bt ''correlated'', bt ''reached_next_request'', bf ''crashed'']),
    (7, [bt ''structured_failure'', ue ''unintended_effects'' 0, bt ''terminal'', bf ''crashed'', bf ''hung'']),
    (8, [umin ''transport_frames'' 2, ue ''semantic_calls'' 1, ue ''effects'' 1, bt ''ids_preserved'', bt ''order_preserved'']),
    (9, [ue ''success_terminals'' 1, ue ''failure_terminals'' 0, bt ''machine_parseable'', bt ''exit_matches_contract'', bf ''later_contradiction'']),
    (10, [ue ''failure_terminals'' 1, ue ''success_terminals'' 0, bt ''machine_parseable'', bt ''nonzero_exit'', bt ''exit_matches_contract'']),
    (11, [bt ''tested_429'', bt ''tested_500'', bt ''tested_disconnect'', bt ''bounded_policy'', umax ''effects'' 1, bt ''structured_terminal'', bf ''double_commit'']),
    (12, [bt ''own_terminal'', bt ''structured_failure'', bt ''before_outer_deadline'', bt ''within_idle_grace'']),
    (13, [bt ''create_hash_match'', bt ''patch_hash_match'', bt ''stdout_truncated'', bt ''outcome_from_effects'']),
    (14, [ue ''outside_writes'' 0, ue ''external_connections'' 0, ue ''surviving_state'' 0, bt ''only_fake_reachable'']),
    (15, [ue ''reads'' 1, ue ''marker_writes'' 1, ue ''effects'' 1, bt ''headless'', ue ''exit_code'' 0]),
    (16, [ue ''repetitions'' 5, bt ''semantic_hashes_identical'', bt ''event_counts_identical'', ue ''turns_per_repetition'' 3]),
    (17, [umin ''actors'' 2, bt ''isolated_namespaces'', bt ''effect_ownership_exact'', ue ''cross_talk'' 0]),
    (18, [umin ''spawns'' 1, bt ''native_surface_used'', bt ''one_durable_child_per_spawn'', bt ''one_report_per_child'']),
    (19, [ue ''categories'' 6, ue ''repetitions'' 5, bt ''codes_invariant'', bt ''structured_non_success'', bt ''success_zero''])]"

definition checks_20_30 :: "(u8 \<times> check list) list" where
  "checks_20_30 = [
    (20, [umin ''samples'' 3, bt ''topology_classified'', fmax ''relative_spread'' (f64_lit (1 / 20)), bt ''all_owned_present'']),
    (21, [umin ''quiet_window_ms'' 10000, fmax ''one_core_fraction'' (f64_lit (1 / 100)), bf ''polling_signature'']),
    (22, [umin ''quiet_window_ms'' 30000, fmax ''slope_mib_per_min'' (f64_lit 1), fmax ''net_growth_mib'' (f64_lit 8), ue ''worker_growth'' 0]),
    (23, [bt ''ordinary_stable_within_10s'', bt ''n8_stable_within_10s'', bt ''residual_within_bound'']),
    (24, [bt ''readiness_within_bound'', bt ''cold_peak_within_profile'', bt ''idle_plateau_trustworthy'']),
    (25, [bt ''baseline_measured'', bt ''s1_measured'', fmax ''cpu_ms_per_turn'' (f64_lit 250), fmax ''barrier_cpu_fraction'' (f64_lit (1 / 20))]),
    (26, [bt ''sweep_n_1_2_4_8'', bt ''all_n_present'', bt ''n8_completed'', fmax ''cold_peak_gib'' (f64_lit 4), fmax ''beta_mib_per_agent'' (f64_lit 256)]),
    (27, [fmax ''alpha'' (f64_lit (6 / 5)), bt ''adjacent_marginals_bounded'', bf ''unreported_instability'']),
    (28, [fmin ''reclaim_ratio'' (f64_lit (4 / 5)), bt ''residual_within_bound'', ue ''owned_workers_remaining'' 0]),
    (29, [ue ''turns'' 1000, fmax ''drift_kib_per_turn'' (f64_lit 64), bt ''final_residual_within_bound'', ue ''fd_growth'' 0, ue ''thread_growth'' 0]),
    (30, [bt ''same_session'', bt ''suffix_exact'', bt ''ordered'', ue ''duplicates'' 0, ue ''gaps'' 0])]"

definition checks_31_41 :: "(u8 \<times> check list) list" where
  "checks_31_41 = [
    (31, [ue ''input_accepts'' 1, bt ''at_safe_boundary'', bt ''affected_active_run'']),
    (32, [ue ''input_accepts'' 1, bt ''observed_before_effect'', ue ''effects_before_input'' 0]),
    (33, [bt ''a_terminal_before_b'', ue ''b_runs'' 1, bt ''distinct_turn'']),
    (34, [bt ''stdin_closed'', bf ''pty_used'', bt ''allowed_succeeded'', bt ''denied_failed_closed'', bf ''prompt_wait'']),
    (35, [bt ''sigkill_used'', bt ''named_checkpoint'', umax ''readiness_ms'' 10000, bt ''finite_terminal'', umax ''committed_effects'' 1]),
    (36, [umax ''terminal_ms'' 5000, ue ''owned_pids_after_grace'' 0, ue ''undeclared_artifacts'' 0, bt ''reclaim_met'']),
    (37, [umin ''transport_attempts'' 2, ue ''semantic_turns'' 1, ue ''effects'' 1, bt ''stable_identity_dedup'']),
    (38, [bt ''agent_limit_honored'', bt ''turn_limit_honored'', bt ''output_limit_honored'', bt ''deadline_honored'', bt ''excess_typed_or_queued'']),
    (39, [ue ''acceptance_hooks'' 1, ue ''completion_hooks'' 1, ue ''replay_refires'' 0, ue ''hook_children_remaining'' 0, bf ''secret_leak'']),
    (40, [bt ''sigkill_used'', bt ''named_post_commit_checkpoint'', bt ''suffix_exact'', ue ''duplicates'' 0, ue ''gaps'' 0, bt ''tail_integrity'', bt ''journal_replay_agree'']),
    (41, [bt ''unique_profile'', ue ''external_connections'' 0, ue ''outside_writes'' 0, bf ''credential_leak'', bt ''all_roles_fake_endpoint''])]"

definition row_checks :: "u8 \<Rightarrow> check list" where
  "row_checks row = (case map_of (checks_1_19 @ checks_20_30 @ checks_31_41) row of
     Some checks \<Rightarrow> checks | None \<Rightarrow> [])"

fun errors_of :: "(string + 'a) list \<Rightarrow> string list" where
  "errors_of [] = []"
| "errors_of (Inl e # rs) = e # errors_of rs"
| "errors_of (Inr _ # rs) = errors_of rs"

section \<open>The oracles of rows 65 to 73\<close>

text \<open>
  A chain \<open>a && b? == x && c?\<close>: the conjuncts in order; the first error or the first false
  one ends it.
\<close>

fun and_chain :: "(string + bool) list \<Rightarrow> string + bool" where
  "and_chain [] = Inr True"
| "and_chain (Inl e # _) = Inl e"
| "and_chain (Inr False # _) = Inr False"
| "and_chain (Inr True # rs) = and_chain rs"

definition test_ok :: "('a \<Rightarrow> bool) \<Rightarrow> string + 'a \<Rightarrow> string + bool" where
  "test_ok P r = and_then r (\<lambda>x. Inr (P x))"

definition wave4_injection_passes :: "debug_fmt \<Rightarrow> observation_set \<Rightarrow> string + bool" where
  "wave4_injection_passes d s =
     (let provider = numeric_f64 d s ''provider_score'';
          base_url = numeric_f64 d s ''base_url_score'';
          credential = numeric_f64 d s ''credential_score'';
          score = numeric_f64 d s ''score'';
          verified = numeric_u64 d s ''verified_components'';
          invalid = Inl (''invalid injection evidence: provider='' @ dbg_f64_result d provider
            @ '', base_url='' @ dbg_f64_result d base_url @ '', credential=''
            @ dbg_f64_result d credential @ '', score='' @ dbg_f64_result d score
            @ '', verified_components='' @ dbg_u64_result d verified)
      in case (ok provider, ok base_url, ok credential, ok score, ok verified) of
           (Some p, Some b, Some c, Some x, Some v) \<Rightarrow>
             (if v = 3 then Inr (f_lt (Fin 0) p \<and> f_lt (Fin 0) b \<and> f_lt (Fin 0) c
                                 \<and> f_in (f64_lit (1/2)) (Fin 1) x)
              else invalid)
         | _ \<Rightarrow> invalid)"

definition wave4_budget_passes :: "debug_fmt \<Rightarrow> observation_set \<Rightarrow> string + bool" where
  "wave4_budget_passes d s =
     and_then (numeric_u64 d s ''repetitions'') (\<lambda>repetitions.
     and_then (numeric_f64 d s ''score'') (\<lambda>score.
       and_chain [Inr (repetitions > 0), Inr (f_eq score (Fin 1)),
         test_ok (\<lambda>v. v = 3) (numeric_u64 d s ''case_kinds_passed''),
         test_ok (\<lambda>v. v = saturating_mul repetitions 3) (numeric_u64 d s ''structured_failures''),
         test_ok (\<lambda>v. v = 0) (numeric_u64 d s ''overrun_count''),
         bool_value d s ''token_boundary_exact'',
         bool_value d s ''cost_boundary_exact'',
         bool_value d s ''time_boundary_exact'',
         test_ok Not (bool_value d s ''outer_kill'')]))"

definition wave4_usage_passes :: "debug_fmt \<Rightarrow> observation_set \<Rightarrow> string + bool" where
  "wave4_usage_passes d s =
     and_then (numeric_f64 d s ''score'') (\<lambda>score.
       and_chain [Inr (f_eq score (Fin 1)),
         test_ok (\<lambda>v. v = 5) (numeric_u64 d s ''correct_fields''),
         test_ok (\<lambda>v. v = 0) (numeric_u64 d s ''crosscheck_errors''),
         bool_value d s ''all_repetitions_exact'',
         bool_value d s ''one_carrier_per_turn'',
         bool_value d s ''tool_turn_two_response_sum'',
         bool_value d s ''repetitions_identical''])"

definition wave4_session_cli_passes :: "debug_fmt \<Rightarrow> observation_set \<Rightarrow> string + bool" where
  "wave4_session_cli_passes d s =
     and_then (numeric_f64 d s ''score'') (\<lambda>score.
       and_chain [Inr (f_eq score (Fin 1)),
         test_ok (\<lambda>v. v = 1) (numeric_u64 d s ''create_ok''),
         test_ok (\<lambda>v. v = 1) (numeric_u64 d s ''list_ok''),
         test_ok (\<lambda>v. v = 1) (numeric_u64 d s ''resume_ok''),
         test_ok (\<lambda>v. v = 1) (numeric_u64 d s ''fork_ok''),
         test_ok (\<lambda>v. v = 1) (numeric_u64 d s ''delete_ok''),
         test_ok (\<lambda>v. v > 0) (numeric_u64 d s ''lifecycles''),
         bool_value d s ''nonempty_committed_seed'',
         bool_value d s ''fork_prefix_exact'',
         bool_value d s ''divergence_isolated''])"

text \<open>Row 69's reference envelope: \<open>event_stream_reference_envelope\<close> of \<open>evaluate.rs\<close>.\<close>

definition event_stream_reference_envelope :: "bool list \<Rightarrow> bool" where
  "event_stream_reference_envelope components \<longleftrightarrow>
     length (filter id components) \<ge> 5 \<and> components ! 0 \<and> components ! 1 \<and> components ! 4 \<and> components ! 6"

definition event_stream_names :: "string list" where
  "event_stream_names = [''tool_call_id'', ''correlated_result'', ''timestamps'', ''usage'',
     ''terminal_typing'', ''schema_version'', ''narrative_reconstructability'']"

definition f64_epsilon :: f64 where
  "f64_epsilon = Fin (1 / 2 ^ 52)"

definition wave4_event_stream_passes :: "debug_fmt \<Rightarrow> observation_set \<Rightarrow> string + bool" where
  "wave4_event_stream_passes d s =
     and_then (collect_ok (\<lambda>name. test_ok (\<lambda>v. v = 1) (numeric_u64 d s name)) event_stream_names)
       (\<lambda>components. and_then (numeric_f64 d s ''score'') (\<lambda>score.
          let expected_score = f_div (f_of_int (int (length (filter id components)))) (Fin 7)
          in Inr (f_le (f_abs (f_sub score expected_score)) f64_epsilon
                  \<and> event_stream_reference_envelope components)))"

definition wave4_compaction_transparency_passes ::
    "debug_fmt \<Rightarrow> observation_set \<Rightarrow> string + bool" where
  "wave4_compaction_transparency_passes d s =
     and_then (numeric_u64 d s ''compactions_observed'') (\<lambda>repetitions.
       and_chain [Inr (repetitions > 0),
         test_ok (\<lambda>v. v = repetitions) (numeric_u64 d s ''announcements''),
         test_ok (\<lambda>v. v = repetitions) (numeric_u64 d s ''scoped_announcements''),
         test_ok (\<lambda>v. v = repetitions) (numeric_u64 d s ''correlated_announcements''),
         test_ok (\<lambda>x. f_eq x (Fin 1)) (numeric_f64 d s ''score'')])"

text \<open>The count-sensitive boundaries of rows 70 and 72, from \<open>evaluate.rs\<close>.\<close>

definition headless_permission_model_passes ::
    "f64 \<Rightarrow> u64 \<Rightarrow> u64 \<Rightarrow> u64 \<Rightarrow> u64 \<Rightarrow> u64 \<Rightarrow> u64 \<Rightarrow> bool" where
  "headless_permission_model_passes score repetitions tty_prompts allowed_effects
       denied_filesystem_effects denied_network_effects scope_violations \<longleftrightarrow>
     f_is_finite score \<and> f_in (f64_lit (1/2)) (Fin 1) score \<and> repetitions > 0
     \<and> allowed_effects = repetitions \<and> denied_filesystem_effects = repetitions
     \<and> denied_network_effects = repetitions \<and> tty_prompts = 0 \<and> scope_violations = 0"

definition tool_result_role_fidelity_passes ::
    "u64 \<Rightarrow> u64 \<Rightarrow> u64 \<Rightarrow> u64 \<Rightarrow> u64 \<Rightarrow> u64 \<Rightarrow> bool" where
  "tool_result_role_fidelity_passes repetitions checks violations plain_user_text_violations
       missing_results duplicate_results \<longleftrightarrow>
     repetitions > 0 \<and> checks = saturating_mul repetitions 2 \<and> violations = 0
     \<and> plain_user_text_violations = 0 \<and> missing_results = 0 \<and> duplicate_results = 0"

definition wave4_permission_passes :: "debug_fmt \<Rightarrow> observation_set \<Rightarrow> string + bool" where
  "wave4_permission_passes d s =
     and_then (numeric_f64 d s ''score'') (\<lambda>score.
     and_then (numeric_u64 d s ''repetitions'') (\<lambda>repetitions.
     and_then (numeric_u64 d s ''tty_prompts'') (\<lambda>tty.
     and_then (numeric_u64 d s ''allowed_effects'') (\<lambda>allowed.
     and_then (numeric_u64 d s ''denied_filesystem_effects'') (\<lambda>dfs.
     and_then (numeric_u64 d s ''denied_network_effects'') (\<lambda>dnet.
     and_then (numeric_u64 d s ''scope_violations'') (\<lambda>scope.
       Inr (headless_permission_model_passes score repetitions tty allowed dfs dnet scope))))))))"

definition wave4_secret_hygiene_passes :: "debug_fmt \<Rightarrow> observation_set \<Rightarrow> string + bool" where
  "wave4_secret_hygiene_passes d s =
     and_chain [test_ok (\<lambda>v. v > 0) (numeric_u64 d s ''files_scanned''),
       test_ok (\<lambda>v. v > 0) (numeric_u64 d s ''bytes_scanned''),
       test_ok (\<lambda>v. v > 0) (numeric_u64 d s ''declared_carrier_files''),
       test_ok (\<lambda>v. v = 0) (numeric_u64 d s ''stdout_matches''),
       test_ok (\<lambda>v. v = 0) (numeric_u64 d s ''stderr_matches''),
       test_ok (\<lambda>v. v = 0) (numeric_u64 d s ''journal_matches''),
       test_ok (\<lambda>v. v = 0) (numeric_u64 d s ''session_matches''),
       test_ok (\<lambda>v. v = 0) (numeric_u64 d s ''log_matches''),
       test_ok Not (bool_value d s ''credential_in_argv'')]"

definition wave4_tool_role_passes :: "debug_fmt \<Rightarrow> observation_set \<Rightarrow> string + bool" where
  "wave4_tool_role_passes d s =
     and_then (numeric_u64 d s ''repetitions'') (\<lambda>repetitions.
     and_then (numeric_u64 d s ''checks'') (\<lambda>checks.
     and_then (numeric_u64 d s ''violations'') (\<lambda>violations.
     and_then (numeric_u64 d s ''plain_user_text_violations'') (\<lambda>plain.
     and_then (numeric_u64 d s ''missing_results'') (\<lambda>missing.
     and_then (numeric_u64 d s ''duplicate_results'') (\<lambda>duplicate.
       Inr (tool_result_role_fidelity_passes repetitions checks violations plain missing duplicate)))))))"

definition wave4_passes :: "debug_fmt \<Rightarrow> u8 \<Rightarrow> observation_set \<Rightarrow> string + bool" where
  "wave4_passes d row s =
     (if row = 65 then wave4_injection_passes d s
      else if row = 66 then wave4_budget_passes d s
      else if row = 67 then wave4_usage_passes d s
      else if row = 68 then wave4_session_cli_passes d s
      else if row = 69 then wave4_event_stream_passes d s
      else if row = 70 then wave4_permission_passes d s
      else if row = 71 then wave4_secret_hygiene_passes d s
      else if row = 72 then wave4_tool_role_passes d s
      else if row = 73 then wave4_compaction_transparency_passes d s
      else Inl (''row '' @ show_nat row @ '' has no Wave-4 evaluator''))"

definition criteria_name :: "u8 \<Rightarrow> string" where
  "criteria_name row = ''row-'' @ show_nat row @ ''-exact-criteria''"

definition wave4_exact_assertion :: "debug_fmt \<Rightarrow> u8 \<Rightarrow> observation_set \<Rightarrow> assertion" where
  "wave4_exact_assertion d row s =
     (let (passed, detail) =
        (case wave4_passes d row s of
           Inr True \<Rightarrow> (True, ''all row-specific criteria observed'')
         | Inr False \<Rightarrow> (False, ''complete evidence is outside the row oracle'')
         | Inl detail \<Rightarrow> (False, detail))
      in \<lparr>as_name = criteria_name row, as_passed = passed, as_detail = detail\<rparr>)"

definition exact_assertion :: "debug_fmt \<Rightarrow> u8 \<Rightarrow> observation_set \<Rightarrow> assertion" where
  "exact_assertion d row s =
     (if 65 \<le> row \<and> row \<le> 73 then wave4_exact_assertion d row s
      else let checks = row_checks row; failures = errors_of (map (check_evaluate d s) checks)
           in \<lparr>as_name = criteria_name row, as_passed = (checks \<noteq> [] \<and> failures = []),
               as_detail = (if failures = []
                 then ''all '' @ show_nat (length checks) @ '' row-specific criteria observed''
                 else join ''; '' failures)\<rparr>)"

end
