(* ===== verification/Capability.thy ===== *)
theory Capability
  imports Matrix_Evidence
begin

text \<open>
  The second half of \<open>src/src/matrix_evidence.rs\<close>: which rows a manifest supports, and the
  evaluation of a row from its capability and its evidence.
\<close>

datatype capability_status = Supported | StUnsupported string | StAbsent string

fun as_classify_value :: "capability_status \<Rightarrow> bool option" where
  "as_classify_value Supported = Some True"
| "as_classify_value (StUnsupported _) = Some False"
| "as_classify_value (StAbsent _) = None"

definition basic_session_surface :: "manifest \<Rightarrow> bool" where
  "basic_session_surface m \<longleftrightarrow> tr_kind (m_transport m) = TK_Exec
     \<or> (so_create (m_sessions m) \<noteq> [] \<and> so_submit (m_sessions m) \<noteq> [] \<and> so_attach (m_sessions m) \<noteq> [])"

definition declared :: "manifest \<Rightarrow> string \<Rightarrow> bool" where
  "declared m key \<longleftrightarrow> bt_contains (cb_required (m_capabilities m)) key
     \<or> bt_contains (cb_optional (m_capabilities m)) key"

definition optional_wave4_capability :: "manifest \<Rightarrow> string \<Rightarrow> bool \<Rightarrow> capability_status" where
  "optional_wave4_capability m key operation_surface_present =
     (if \<not> declared m key
        then StUnsupported (''capability '' @ key @ '' is not declared by this architecture'')
      else if \<not> operation_surface_present \<or> \<not> basic_session_surface m
        then StAbsent (''declared capability '' @ key @ '' lacks its required operation surface'')
      else Supported)"

definition event_stream_missing :: "manifest \<Rightarrow> bool" where
  "event_stream_missing m \<longleftrightarrow> blank (em_source (m_events m)) \<or> blank (em_framing (m_events m))
     \<or> em_rules (m_events m) = []"

definition injection_capability :: "manifest \<Rightarrow> capability_status" where
  "injection_capability m =
     (case cb_injection_surface (m_capabilities m) of
        None \<Rightarrow> StUnsupported ''typed injection surface is not declared''
      | Some surface \<Rightarrow>
          (if ic_method (isf_base_url surface) = IM_Impossible
              \<or> ic_method (isf_credential surface) = IM_Impossible
              \<or> \<not> basic_session_surface m
           then StUnsupported ''base route/auth cannot support a fake-provider trial''
           else Supported))"

definition wave4_capability_for_row :: "manifest \<Rightarrow> u8 \<Rightarrow> capability_status option" where
  "wave4_capability_for_row m row =
     (if row = 65 then Some (injection_capability m)
      else if row = 66 then Some (optional_wave4_capability m ''budget_enforcement''
        (rc_budget_controls (m_resources m) \<noteq> None))
      else if row = 67 then Some (optional_wave4_capability m ''usage_reporting''
        (em_metadata (m_events m) \<noteq> None))
      else if row = 68 then Some (optional_wave4_capability m ''session_ops_cli''
        (so_create (m_sessions m) \<noteq> [] \<and> so_list (m_sessions m) \<noteq> [] \<and> so_resume (m_sessions m) \<noteq> []
         \<and> so_fork (m_sessions m) \<noteq> [] \<and> so_delete (m_sessions m) \<noteq> []))
      else if row = 69 then Some
        (if event_stream_missing m then StAbsent ''machine-readable event stream is absent''
         else if em_narrative (m_events m) = None
           then StUnsupported ''adapter declares no durable assistant-text/reasoning capture points''
         else Supported)
      else if row = 70 then Some (optional_wave4_capability m ''headless_permission_model''
        (m_permissions m \<noteq> None))
      else if row = 71 then Some
        (case cap_credential_carrier_paths (m_capture m) of
           Some (p # ps) \<Rightarrow> Supported
         | _ \<Rightarrow> StAbsent ''capture.credential_carrier_paths is omitted or empty'')
      else if row = 72 then Some Supported
      else if row = 73 then Some
        (if event_stream_missing m then StAbsent ''machine-readable event stream is absent''
         else if \<not> bt_contains (cb_required (m_capabilities m)) ''context_limit_recovery''
                 \<or> rc_context_window (m_resources m) = None \<or> \<not> basic_session_surface m
           then StUnsupported ''architecture cannot run the forced long-context compaction stimulus''
         else Supported)
      else None)"

definition journal_file_source :: "manifest \<Rightarrow> bool" where
  "journal_file_source m \<longleftrightarrow> em_source (m_events m) = ''journal-file'' \<and> em_path (m_events m) \<noteq> []"

definition operation_surface_present :: "manifest \<Rightarrow> u8 \<Rightarrow> bool" where
  "operation_surface_present m row =
     (let exec = (tr_kind (m_transport m) = TK_Exec); s = m_sessions m; e = m_events m; a = m_agents m
      in if row = 4 then (case cc_max_agents (m_concurrency m) of Some v \<Rightarrow> v \<ge> 2 | None \<Rightarrow> False)
      else if row = 15 \<or> row = 34 then tr_command (m_transport m) \<noteq> [] \<or> tr_endpoint (m_transport m) \<noteq> []
      else if row = 18 then ag_spawn a \<noteq> [] \<and> ag_status a \<noteq> [] \<and> ag_collect a \<noteq> []
      else if row = 56 then ag_spawn a \<noteq> [] \<and> ag_status a \<noteq> [] \<and> ag_collect a \<noteq> []
        \<and> ag_child_id_pointer a \<noteq> [] \<and> ag_status_result_pointer a \<noteq> [] \<and> ag_collect_events_pointer a \<noteq> []
      else if row = 30 then
        (if exec then em_replay_command e \<noteq> [] \<or> (so_resume s \<noteq> [] \<and> journal_file_source m)
         else so_create s \<noteq> [] \<and> so_submit s \<noteq> [] \<and> so_attach s \<noteq> [])
      else if row = 31 then ni_steer (m_next_input m) \<noteq> []
      else if row = 32 then ni_subturn (m_next_input m) \<noteq> []
      else if row = 33 then ni_queue (m_next_input m) \<noteq> []
      else if row = 35 then
        (if exec then (dl_persistent (m_daemon m) \<and> so_recover_probe s \<noteq> [])
             \<or> (so_resume s \<noteq> [] \<and> cc_release (m_concurrency m) \<noteq> [] \<and> journal_file_source m)
         else so_resume s \<noteq> [] \<and> cc_release (m_concurrency m) \<noteq> [] \<and> dl_persistent (m_daemon m)
             \<and> so_attach s \<noteq> [])
      else if row = 37 \<or> row = 52 then
        (so_resume s \<noteq> [] \<or> so_resume_control s \<noteq> []) \<and> (exec \<or> so_attach s \<noteq> [])
      else if row = 39 then hk_acceptance (m_hooks m) \<noteq> [] \<and> hk_completion (m_hooks m) \<noteq> []
      else if row = 40 then em_framing e = ''jsonl'' \<and> em_cursor_pointer e \<noteq> []
        \<and> (if exec then em_replay_command e \<noteq> [] else em_source e = ''journal'' \<and> em_path e \<noteq> [])
      else if row = 53 then em_torn_tail e \<noteq> None \<and> em_framing e = ''jsonl'' \<and> em_cursor_pointer e \<noteq> []
        \<and> (if exec then em_replay_command e \<noteq> [] else so_attach s \<noteq> [])
      else if row = 51 then rc_context_window (m_resources m) \<noteq> None
      else True)"

definition row_capability_key :: "u8 \<Rightarrow> string option" where
  "row_capability_key row =
     (case row_requirement row of
        Some (OptionalFacet capability) \<Rightarrow> Some capability
      | _ \<Rightarrow>
         (if row = 15 \<or> row = 34 then Some ''headless''
          else if row = 30 then Some ''sessions''
          else if row = 35 \<or> row = 37 \<or> row = 52 then Some ''resume''
          else if row = 40 \<or> row = 53 then Some ''durable_journal''
          else if row = 51 then Some ''context_limit_recovery''
          else None))"

text \<open>The keyed part of \<open>capability_for_row\<close>: \<open>Some\<close> is its early return.\<close>

definition keyed_capability :: "manifest \<Rightarrow> u8 \<Rightarrow> string \<Rightarrow> capability_status option" where
  "keyed_capability m row key =
     (let is_declared = (if row = 51 then bt_contains (cb_required (m_capabilities m)) key
                         else declared m key)
      in if \<not> is_declared then Some
           (if row \<in> {51, 52, 53}
            then StAbsent (''required capability '' @ key @ '' is not declared by this architecture'')
            else StUnsupported (''capability '' @ key @ '' is not declared by this architecture''))
         else if \<not> operation_surface_present m row then Some
           (if row = 53 \<and> em_torn_tail (m_events m) = None
            then StUnsupported ''durable replay is declared, but no profile-contained copy-safe physical torn-tail journal operation is declared''
            else StUnsupported (''capability '' @ key @ '' is declared but its operation surface is absent''))
         else None)"

text \<open>The row-specific conditions after the keyed part, in the code's order.\<close>

definition surface_conditions :: "manifest \<Rightarrow> u8 \<Rightarrow> capability_status" where
  "surface_conditions m row =
     (let max_agents = cc_max_agents (m_concurrency m); rc = m_resources m;
          agents = (case max_agents of Some n \<Rightarrow> n | None \<Rightarrow> 0)
      in if row = 17 \<and> agents < 2 then StUnsupported ''actor concurrency is below N=2''
      else if row = 26 \<and> agents < 8 then StUnsupported ''parallel resource surface is below N=8''
      else if row = 50 \<and> (so_close_delete (m_sessions m) = [] \<or> so_store_paths (m_sessions m) = [])
        then StAbsent ''sessions.close_delete or profile-contained sessions.store_paths is absent''
      else if (row = 54 \<or> row = 55) \<and> max_agents = None
        then StAbsent ''concurrency.max_agents width declaration is absent''
      else if (row = 54 \<or> row = 55) \<and> agents < 8
        then StUnsupported ''fanout architecture explicitly declares concurrency below quick N=8''
      else if row = 36 \<and> ag_cancel (m_agents m) = []
        then StUnsupported ''agent cancellation operation is absent''
      else if row = 57 \<and> inp_prompt_uses_stdin (m_input m) = None
        then StAbsent ''typed input.prompt_uses_stdin declaration is absent''
      else if row = 58 \<and> (rc_retry_max_attempts rc = None \<or> rc_retry_base_delay_ms rc = None
                          \<or> rc_retry_max_delay_ms rc = None)
        then StAbsent ''documented retry_max_attempts/base_delay/max_delay policy is absent''
      else if row = 60 \<and> cap_truncation_marker (m_capture m) = None
        then StAbsent ''capture.truncation_marker declaration is absent''
      else Supported)"

definition capability_for_row :: "manifest \<Rightarrow> u8 \<Rightarrow> capability_status" where
  "capability_for_row m row =
     (case wave4_capability_for_row m row of
        Some status \<Rightarrow> status
      | None \<Rightarrow>
          (if \<not> basic_session_surface m
             then StUnsupported ''basic session create/submit/attach surface is absent for this architecture''
           else if 20 \<le> row \<and> row \<le> 29 \<and> tr_kind (m_transport m) \<noteq> TK_Exec
                   \<and> so_close_delete (m_sessions m) = []
             then StUnsupported ''resource trial session close/delete surface is absent''
           else case Option.bind (row_capability_key row) (keyed_capability m row) of
             Some status \<Rightarrow> status
           | None \<Rightarrow> surface_conditions m row))"

section \<open>Evaluating a row\<close>

definition unknown_row_result :: "u8 \<Rightarrow> test_result" where
  "unknown_row_result row =
     \<lparr>res_row = row, res_id = ''unknown-row-'' @ show_nat row, res_pillar = Functionality,
      res_outcome = Error (''matrix row '' @ show_nat row @ '' is outside 1..=73''),
      res_evidence = [], res_metadata = for_row row (Error ''unknown matrix row'')\<rparr>"

definition set_score :: "test_result \<Rightarrow> f64 option \<Rightarrow> test_result" where
  "set_score r score = r\<lparr>res_metadata := (res_metadata r)\<lparr>md_score := score\<rparr>\<rparr>"

definition unit_score :: "string + f64 \<Rightarrow> f64 option" where
  "unit_score r = (case ok r of Some x \<Rightarrow> if f_in (Fin 0) (Fin 1) x then Some x else None | None \<Rightarrow> None)"

text \<open>The branch of a row the manifest does not support.\<close>

definition unsupported_result :: "test_definition \<Rightarrow> capability_status \<Rightarrow> test_result" where
  "unsupported_result definition capability =
     (let row = td_row definition;
          result = classify row (td_id definition) (td_pillar definition)
                     (as_classify_value capability) [] None;
          result = (case capability of
                      Supported \<Rightarrow> result
                    | StUnsupported reason \<Rightarrow>
                        result\<lparr>res_evidence := res_evidence result @ [''capability: '' @ reason]\<rparr>
                    | StAbsent reason \<Rightarrow>
                        result\<lparr>res_evidence := res_evidence result @ [''capability: '' @ reason]\<rparr>)
      in if row \<in> {65, 66, 67, 68, 70} \<and> is_unsupported (res_outcome result)
         then set_score result (Some (Fin 0)) else result)"

definition evaluate_row ::
    "debug_fmt \<Rightarrow> manifest \<Rightarrow> u8 \<Rightarrow> row_evidence option \<Rightarrow> test_result" where
  "evaluate_row d m row evidence =
     (case find_definition row of
        None \<Rightarrow> unknown_row_result row
      | Some definition \<Rightarrow>
          (let capability = capability_for_row m row;
               i = td_id definition; p = td_pillar definition
           in if capability \<noteq> Supported then unsupported_result definition capability
              else case evidence of
                None \<Rightarrow> classify row i p (Some True) []
                  (Some (''row '' @ show_nat row @ '' produced no typed evidence''))
              | Some ev \<Rightarrow>
                  (if evidence_row ev \<noteq> row then classify row i p (Some True) []
                     (Some (''row '' @ show_nat row @ '' received row ''
                        @ show_nat (evidence_row ev) @ '' evidence''))
                   else let result = classify row i p (Some True)
                              [exact_assertion d row (observations ev)] None
                        in if (65 \<le> row \<and> row \<le> 70) \<or> row = 73
                           then set_score result (unit_score (numeric_f64 d (observations ev) ''score''))
                           else result)))"

end
