(* ===== verification/Search.thy ===== *)
theory Search
  imports Prelude
begin

text \<open>
  The worklist loop \<open>while let Some(s) = todo.pop_front()\<close> with a \<open>seen\<close> set, shared by
  the two overlap tests of \<open>src/src/storage.rs\<close>: first in, first out, a state already seen is
  skipped, the goal test comes before the successors are pushed.  \<open>None\<close> is "does not
  return"; on a finite state space the loop returns and decides reachability of a goal.
\<close>

partial_function (option) search ::
    "('s \<Rightarrow> 's list) \<Rightarrow> ('s \<Rightarrow> bool) \<Rightarrow> 's list \<Rightarrow> 's set \<Rightarrow> bool option" where
  "search succ goal todo seen =
     (case todo of
        [] \<Rightarrow> Some False
      | s # rest \<Rightarrow>
          (if s \<in> seen then search succ goal rest seen
           else if goal s then Some True
           else search succ goal (rest @ succ s) (insert s seen)))"

lemma search_simps:
  "search succ goal [] seen = Some False"
  "search succ goal (s # rest) seen =
     (if s \<in> seen then search succ goal rest seen
      else if goal s then Some True
      else search succ goal (rest @ succ s) (insert s seen))"
  by (subst search.simps, simp)+

inductive reaches :: "('s \<Rightarrow> 's list) \<Rightarrow> ('s \<Rightarrow> bool) \<Rightarrow> 's \<Rightarrow> bool"
  for succ :: "'s \<Rightarrow> 's list" and goal :: "'s \<Rightarrow> bool" where
  reaches_goal: "goal s \<Longrightarrow> reaches succ goal s"
| reaches_step: "t \<in> set (succ s) \<Longrightarrow> reaches succ goal t \<Longrightarrow> reaches succ goal s"

locale finite_search =
  fixes succ :: "'s \<Rightarrow> 's list" and goal :: "'s \<Rightarrow> bool" and states :: "'s set"
  assumes finite_states: "finite states"
    and succ_states: "s \<in> states \<Longrightarrow> set (succ s) \<subseteq> states"
begin

text \<open>
  The loop's invariant: no seen state is a goal, and the successors of a seen state are seen or
  waiting.  A goal reachable from a seen state is then reachable from a waiting one.
\<close>

lemma reaches_todo:
  assumes "reaches succ goal s" "s \<in> seen"
    and "\<forall>x \<in> seen. \<not> goal x" "\<forall>x \<in> seen. set (succ x) \<subseteq> seen \<union> set todo"
  shows "\<exists>t \<in> set todo. reaches succ goal t"
  using assms
proof (induction rule: reaches.induct)
  case (reaches_step t s)
  then show ?case by (cases "t \<in> seen") auto
qed simp

theorem search_decides:
  assumes "set todo \<subseteq> states" "seen \<subseteq> states"
    and "\<forall>x \<in> seen. \<not> goal x" "\<forall>x \<in> seen. set (succ x) \<subseteq> seen \<union> set todo"
  shows "search succ goal todo seen = Some (\<exists>t \<in> set todo. reaches succ goal t)"
  using assms
proof (induction "(card (states - seen), length todo)" arbitrary: todo seen
    rule: wf_induct_rule [OF wf_lex_prod [OF wf_less_than wf_less_than]])
  case 1
  show ?case
  proof (cases todo)
    case Nil
    then show ?thesis by (simp add: search_simps)
  next
    case (Cons s rest)
    show ?thesis
    proof (cases "s \<in> seen")
      case True
      have closed: "\<forall>x \<in> seen. set (succ x) \<subseteq> seen \<union> set rest"
        using "1.prems" True Cons by auto
      have "search succ goal rest seen = Some (\<exists>t \<in> set rest. reaches succ goal t)"
        using "1.prems" Cons closed by (intro "1.hyps") auto
      moreover have "reaches succ goal s \<Longrightarrow> \<exists>t \<in> set rest. reaches succ goal t"
        using reaches_todo [OF _ True] "1.prems" closed by blast
      ultimately show ?thesis using Cons True by (auto simp: search_simps)
    next
      case False
      show ?thesis
      proof (cases "goal s")
        case True
        then show ?thesis using Cons False by (auto simp: search_simps intro: reaches.intros)
      next
        case no_goal: False
        have s: "s \<in> states" using "1.prems" Cons by simp
        have "card (states - insert s seen) < card (states - seen)"
          using finite_states s False by (intro psubset_card_mono) auto
        then have "search succ goal (rest @ succ s) (insert s seen) =
            Some (\<exists>t \<in> set (rest @ succ s). reaches succ goal t)"
          using "1.prems" Cons no_goal s succ_states [OF s]
          by (intro "1.hyps") auto
        moreover have "reaches succ goal s \<longleftrightarrow> (\<exists>t \<in> set (succ s). reaches succ goal t)"
          using no_goal by (auto elim: reaches.cases intro: reaches.intros)
        ultimately show ?thesis using Cons False no_goal by (auto simp: search_simps)
      qed
    qed
  qed
qed

corollary search_from:
  "s \<in> states \<Longrightarrow> search succ goal [s] {} = Some (reaches succ goal s)"
  using search_decides [of "[s]" "{}"] by simp

end

end
