(* ===== verification/Globs.thy ===== *)
theory Globs
  imports Search
begin

text \<open>
  The root-relative globs of \<open>src/src/storage.rs\<close>: validation, the component matcher (a set of
  automaton positions advanced per character), the path matcher, and the two overlap tests (a
  worklist over pairs of positions).  The reference semantics \<open>comp_lang\<close> says which texts a
  component describes; the matcher decides it and the overlap test decides whether two patterns
  share a path.
\<close>

section \<open>Validation\<close>

definition valid_component :: "string \<Rightarrow> bool" where
  "valid_component c \<longleftrightarrow> \<not> (c = [] \<or> c = ''.'' \<or> c = ''..'' \<or> (contains_str c ''**'' \<and> c \<noteq> ''**''))"

text \<open>The Debug rendering of the pattern in the message is a parameter.\<close>

definition validate_glob :: "(string \<Rightarrow> string) \<Rightarrow> string \<Rightarrow> ahrb_error + unit" where
  "validate_glob dbg pattern =
     (if pattern = [] \<or> contains_any pattern [CHR 0x5C, CHR ''{'', CHR ''}'']
         \<or> list_ex (\<lambda>c. \<not> valid_component c) (split_on (CHR ''/'') pattern)
      then Inl (Validation (''storage invalid root-relative glob '' @ dbg pattern))
      else Inr ())"

section \<open>Matching\<close>

function skip_stars :: "string \<Rightarrow> nat \<Rightarrow> nat" where
  "skip_stars p i = (if i < length p \<and> p ! i = CHR ''*'' then skip_stars p (Suc i) else i)"
  by pat_completeness auto
termination
  by (relation "measure (\<lambda>(p, i). length p - i)") auto

declare skip_stars.simps [simp del]

text \<open>The positions one position leads to on a character.\<close>

definition match_step :: "string \<Rightarrow> char \<Rightarrow> nat \<Rightarrow> nat set" where
  "match_step p ch i = (let j = skip_stars p i
     in {i..<j} \<union> (if j < length p \<and> (p ! j = CHR ''?'' \<or> p ! j = ch) then {Suc j} else {}))"

definition component_matches :: "string \<Rightarrow> string \<Rightarrow> bool" where
  "component_matches p t =
     (\<exists>i \<in> fold (\<lambda>ch states. \<Union> (match_step p ch ` states)) t {0}. skip_stars p i = length p)"

fun visit :: "string list \<Rightarrow> string list \<Rightarrow> bool" where
  "visit [] b = (b = [])"
| "visit (c # a) [] = (c = ''**'' \<and> visit a [])"
| "visit (c # a) (d # b) =
     (if c = ''**'' then visit a (d # b) \<or> visit (c # a) b
      else component_matches c d \<and> visit a b)"

definition glob_matches :: "string \<Rightarrow> string \<Rightarrow> bool" where
  "glob_matches pattern path = visit (split_on (CHR ''/'') pattern) (split_on (CHR ''/'') path)"

section \<open>Overlap\<close>

definition get_char :: "string \<Rightarrow> nat \<Rightarrow> char option" where
  "get_char a i = (if i < length a then Some (a ! i) else None)"

definition wild :: "char \<Rightarrow> bool" where
  "wild c \<longleftrightarrow> c = CHR ''*'' \<or> c = CHR ''?''"

definition advance :: "char \<Rightarrow> nat" where
  "advance c = (if c = CHR ''*'' then 0 else 1)"

definition comp_succ :: "string \<Rightarrow> string \<Rightarrow> nat \<times> nat \<times> bool \<Rightarrow> (nat \<times> nat \<times> bool) list" where
  "comp_succ a b = (\<lambda>(i, j, nonempty).
     (if get_char a i = Some (CHR ''*'') then [(i + 1, j, nonempty)] else [])
     @ (if get_char b j = Some (CHR ''*'') then [(i, j + 1, nonempty)] else [])
     @ (case (get_char a i, get_char b j) of
          (Some x, Some y) \<Rightarrow>
            (if x = y \<or> wild x \<or> wild y then [(i + advance x, j + advance y, True)] else [])
        | _ \<Rightarrow> []))"

definition comp_goal :: "string \<Rightarrow> string \<Rightarrow> nat \<times> nat \<times> bool \<Rightarrow> bool" where
  "comp_goal a b = (\<lambda>(i, j, nonempty). i = length a \<and> j = length b \<and> nonempty)"

definition components_overlap :: "string \<Rightarrow> string \<Rightarrow> bool option" where
  "components_overlap a b = search (comp_succ a b) (comp_goal a b) [(0, 0, False)] {}"

definition get_comp :: "string list \<Rightarrow> nat \<Rightarrow> string option" where
  "get_comp a i = (if i < length a then Some (a ! i) else None)"

definition glob_succ :: "string list \<Rightarrow> string list \<Rightarrow> nat \<times> nat \<Rightarrow> (nat \<times> nat) list" where
  "glob_succ a b = (\<lambda>(i, j).
     (if get_comp a i = Some ''**'' then [(i + 1, j)] else [])
     @ (if get_comp b j = Some ''**'' then [(i, j + 1)] else [])
     @ (case (get_comp a i, get_comp b j) of
          (Some x, Some y) \<Rightarrow>
            (if x = ''**'' \<or> y = ''**'' \<or> components_overlap x y = Some True
             then [(i + (if x = ''**'' then 0 else 1), j + (if y = ''**'' then 0 else 1))] else [])
        | _ \<Rightarrow> []))"

definition glob_goal :: "string list \<Rightarrow> string list \<Rightarrow> nat \<times> nat \<Rightarrow> bool" where
  "glob_goal a b = (\<lambda>(i, j). i = length a \<and> j = length b)"

definition globs_overlap :: "string \<Rightarrow> string \<Rightarrow> bool option" where
  "globs_overlap a b =
     (let a = split_on (CHR ''/'') a; b = split_on (CHR ''/'') b
      in search (glob_succ a b) (glob_goal a b) [(0, 0)] {})"

section \<open>The language of a component\<close>

fun comp_lang :: "string \<Rightarrow> string \<Rightarrow> bool" where
  "comp_lang [] t = (t = [])"
| "comp_lang (c # p) [] = (c = CHR ''*'' \<and> comp_lang p [])"
| "comp_lang (c # p) (d # t) =
     (if c = CHR ''*'' then comp_lang p (d # t) \<or> comp_lang (c # p) t
      else (c = CHR ''?'' \<or> c = d) \<and> comp_lang p t)"

lemma skip_stars_unfold:
  "skip_stars p i = (if i < length p \<and> p ! i = CHR ''*'' then skip_stars p (Suc i) else i)"
  by (rule skip_stars.simps)

lemma skip_stars_ge: "i \<le> skip_stars p i"
proof (induction p i rule: skip_stars.induct)
  case (1 p i)
  then show ?case using skip_stars_unfold [of p i] by (auto split: if_splits)
qed

lemma skip_stars_le: "i \<le> length p \<Longrightarrow> skip_stars p i \<le> length p"
proof (induction p i rule: skip_stars.induct)
  case (1 p i)
  then show ?case using skip_stars_unfold [of p i] by (auto split: if_splits)
qed

lemma skip_stars_stars: "i \<le> k \<Longrightarrow> k < skip_stars p i \<Longrightarrow> p ! k = CHR ''*'' \<and> k < length p"
proof (induction p i rule: skip_stars.induct)
  case (1 p i)
  then show ?case using skip_stars_unfold [of p i] by (cases "k = i") (auto split: if_splits)
qed

lemma skip_stars_stop: "skip_stars p i < length p \<Longrightarrow> p ! skip_stars p i \<noteq> CHR ''*''"
proof (induction p i rule: skip_stars.induct)
  case (1 p i)
  then show ?case using skip_stars_unfold [of p i] by (auto split: if_splits)
qed

text \<open>The position reached past the stars, and every position before it, reads the same suffix.\<close>

lemma comp_lang_star_Nil: "i < length p \<Longrightarrow> p ! i = CHR ''*'' \<Longrightarrow>
    comp_lang (drop i p) [] = comp_lang (drop (Suc i) p) []"
  by (simp flip: Cons_nth_drop_Suc)

lemma comp_lang_star_Cons: "i < length p \<Longrightarrow> p ! i = CHR ''*'' \<Longrightarrow>
    comp_lang (drop i p) (d # t) = (comp_lang (drop (Suc i) p) (d # t) \<or> comp_lang (drop i p) t)"
  by (simp flip: Cons_nth_drop_Suc)

lemma comp_lang_other: "i < length p \<Longrightarrow> p ! i \<noteq> CHR ''*'' \<Longrightarrow>
    comp_lang (drop i p) (d # t) = ((p ! i = CHR ''?'' \<or> p ! i = d) \<and> comp_lang (drop (Suc i) p) t)"
  by (simp flip: Cons_nth_drop_Suc)

lemma comp_lang_skip_Nil:
  "i \<le> length p \<Longrightarrow> comp_lang (drop i p) [] \<longleftrightarrow> skip_stars p i = length p"
proof (induction p i rule: skip_stars.induct)
  case (1 p i)
  show ?case
  proof (cases "i < length p \<and> p ! i = CHR ''*''")
    case True
    with 1 show ?thesis using skip_stars_unfold [of p i] by (simp add: comp_lang_star_Nil)
  next
    case False
    then have "skip_stars p i = i" using skip_stars_unfold [of p i] by auto
    with False "1.prems" show ?thesis
      by (cases "i < length p") (auto simp flip: Cons_nth_drop_Suc)
  qed
qed

lemma comp_lang_step:
  "i \<le> length p \<Longrightarrow> comp_lang (drop i p) (d # t) \<longleftrightarrow> (\<exists>k \<in> match_step p d i. comp_lang (drop k p) t)"
proof (induction p i rule: skip_stars.induct)
  case (1 p i)
  show ?case
  proof (cases "i < length p \<and> p ! i = CHR ''*''")
    case True
    then have sk: "skip_stars p i = skip_stars p (Suc i)" using skip_stars_unfold [of p i] by simp
    then have "match_step p d i = insert i (match_step p d (Suc i))"
      using skip_stars_ge [of "Suc i" p] by (auto simp: match_step_def Let_def)
    with 1 True show ?thesis by (auto simp: comp_lang_star_Cons)
  next
    case False
    then have sk: "skip_stars p i = i" using skip_stars_unfold [of p i] by auto
    show ?thesis
    proof (cases "i < length p")
      case True
      with False show ?thesis by (auto simp: match_step_def sk comp_lang_other)
    next
      case False
      with "1.prems" sk show ?thesis by (simp add: match_step_def)
    qed
  qed
qed

lemma match_step_bound: "i \<le> length p \<Longrightarrow> k \<in> match_step p d i \<Longrightarrow> k \<le> length p"
  using skip_stars_le [of i p] by (auto simp: match_step_def Let_def split: if_splits)

lemma fold_states_lang:
  "\<forall>i \<in> S. i \<le> length p \<Longrightarrow>
    (\<exists>i \<in> fold (\<lambda>ch states. \<Union> (match_step p ch ` states)) t S. skip_stars p i = length p)
    \<longleftrightarrow> (\<exists>i \<in> S. comp_lang (drop i p) t)"
proof (induction t arbitrary: S)
  case Nil
  then show ?case by (auto simp: comp_lang_skip_Nil)
next
  case (Cons d t)
  have "\<forall>i \<in> \<Union> (match_step p d ` S). i \<le> length p" using Cons.prems match_step_bound by blast
  from Cons.IH [OF this] Cons.prems show ?case by (auto simp: comp_lang_step)
qed

lemma component_matches_lang: "component_matches p t = comp_lang p t"
  using fold_states_lang [of "{0}" p t] by (simp add: component_matches_def)

section \<open>The component overlap test decides a common text\<close>

interpretation comp: finite_search "comp_succ a b" "comp_goal a b"
    "{0..length a} \<times> {0..length b} \<times> (UNIV :: bool set)" for a b
proof unfold_locales
  show "finite ({0..length a} \<times> {0..length b} \<times> (UNIV :: bool set))" by simp
next
  fix s
  assume s: "s \<in> {0..length a} \<times> {0..length b} \<times> (UNIV :: bool set)"
  obtain i j f where eq: "s = (i, j, f)" by (cases s)
  show "set (comp_succ a b s) \<subseteq> {0..length a} \<times> {0..length b} \<times> UNIV"
    using s unfolding eq by (auto simp: comp_succ_def get_char_def advance_def)
qed

lemma components_overlap_reaches:
  "components_overlap a b = Some (reaches (comp_succ a b) (comp_goal a b) (0, 0, False))"
  unfolding components_overlap_def by (rule comp.search_from) simp

definition in_both :: "string \<Rightarrow> string \<Rightarrow> nat \<Rightarrow> nat \<Rightarrow> string \<Rightarrow> bool" where
  "in_both a b i j t \<longleftrightarrow> i \<le> length a \<and> j \<le> length b \<and> comp_lang (drop i a) t \<and> comp_lang (drop j b) t"

lemma reaches_succ: "t \<in> set (succ s) \<Longrightarrow> reaches succ goal t \<Longrightarrow> reaches succ goal s"
  by (rule reaches_step)

lemma comp_succ_left: "i < length a \<Longrightarrow> a ! i = CHR ''*'' \<Longrightarrow> (Suc i, j, f) \<in> set (comp_succ a b (i, j, f))"
  by (simp add: comp_succ_def get_char_def)

lemma comp_succ_right: "j < length b \<Longrightarrow> b ! j = CHR ''*'' \<Longrightarrow> (i, Suc j, f) \<in> set (comp_succ a b (i, j, f))"
  by (simp add: comp_succ_def get_char_def)

lemma comp_succ_both: "i < length a \<Longrightarrow> j < length b \<Longrightarrow> a ! i = b ! j \<or> wild (a ! i) \<or> wild (b ! j) \<Longrightarrow>
    (i + advance (a ! i), j + advance (b ! j), True) \<in> set (comp_succ a b (i, j, f))"
  by (simp add: comp_succ_def get_char_def)

text \<open>A position either skips its star without a character or consumes the next one.\<close>

lemma comp_lang_cases:
  assumes "i \<le> length a" "comp_lang (drop i a) t"
  obtains (finished) "i = length a" "t = []"
  | (skip) "i < length a" "a ! i = CHR ''*''" "comp_lang (drop (Suc i) a) t"
  | (consume) d t' where "i < length a" "t = d # t'" "comp_lang (drop (i + advance (a ! i)) a) t'"
      "wild (a ! i) \<or> a ! i = d"
proof (cases "i < length a")
  case False
  with assms show thesis using finished by (simp)
next
  case True
  show thesis
  proof (cases t)
    case Nil
    with assms True show thesis by (intro skip) (auto simp flip: Cons_nth_drop_Suc)
  next
    case (Cons d t')
    show thesis
    proof (cases "a ! i = CHR ''*''")
      case star: True
      with assms True Cons show thesis
        using skip consume [of d t'] by (auto simp: comp_lang_star_Cons advance_def wild_def)
    next
      case False
      with assms True Cons show thesis
        using consume [of d t'] by (auto simp: comp_lang_other advance_def wild_def)
    qed
  qed
qed

lemma comp_overlap_complete:
  "in_both a b i j t \<Longrightarrow> f \<or> t \<noteq> [] \<Longrightarrow> reaches (comp_succ a b) (comp_goal a b) (i, j, f)"
proof (induction "length t + (length a - i) + (length b - j)" arbitrary: i j t f rule: less_induct)
  case less
  from less.prems have ij: "i \<le> length a" "j \<le> length b"
    and la: "comp_lang (drop i a) t" and lb: "comp_lang (drop j b) t" by (auto simp: in_both_def)
  from ij(1) la show ?case
  proof (cases rule: comp_lang_cases)
    case skip
    with less.prems lb have "reaches (comp_succ a b) (comp_goal a b) (Suc i, j, f)"
      by (intro less.hyps [of t "Suc i" j]) (auto simp: in_both_def)
    with comp_succ_left skip show ?thesis by (blast intro: reaches_succ)
  next
    case finished
    from ij(2) lb show ?thesis
    proof (cases rule: comp_lang_cases)
      case skip
      with less.prems la have "reaches (comp_succ a b) (comp_goal a b) (i, Suc j, f)"
        by (intro less.hyps [of t i "Suc j"]) (auto simp: in_both_def)
      with comp_succ_right skip show ?thesis by (blast intro: reaches_succ)
    qed (use finished less.prems in \<open>auto intro!: reaches_goal simp: comp_goal_def\<close>)
  next
    case (consume d t')
    note ca = consume
    from ij(2) lb show ?thesis
    proof (cases rule: comp_lang_cases)
      case skip
      with less.prems la have "reaches (comp_succ a b) (comp_goal a b) (i, Suc j, f)"
        by (intro less.hyps [of t i "Suc j"]) (auto simp: in_both_def)
      with comp_succ_right skip show ?thesis by (blast intro: reaches_succ)
    next
      case (consume d' t'')
      with ca have eq: "d' = d" "t'' = t'" by auto
      have "reaches (comp_succ a b) (comp_goal a b) (i + advance (a ! i), j + advance (b ! j), True)"
        using ca consume eq by (intro less.hyps [of t']) (auto simp: in_both_def advance_def)
      moreover have "a ! i = b ! j \<or> wild (a ! i) \<or> wild (b ! j)" using ca consume eq by auto
      ultimately show ?thesis using comp_succ_both ca consume by (blast intro: reaches_succ)
    qed (use ca in auto)
  qed
qed

definition shared_char :: "char \<Rightarrow> char \<Rightarrow> char" where
  "shared_char x y = (if \<not> wild x then x else if \<not> wild y then y else CHR ''a'')"

lemma comp_lang_advance:
  "i < length a \<Longrightarrow> comp_lang (drop (i + advance (a ! i)) a) t \<Longrightarrow> wild (a ! i) \<or> a ! i = d \<Longrightarrow>
    comp_lang (drop i a) (d # t)"
  by (cases "a ! i = CHR ''*''") (auto simp: comp_lang_star_Cons comp_lang_other advance_def wild_def)

lemma comp_overlap_sound:
  assumes "reaches (comp_succ a b) (comp_goal a b) s" "CHR ''/'' \<notin> set a \<union> set b"
  shows "case s of (i, j, f) \<Rightarrow> i \<le> length a \<longrightarrow> j \<le> length b \<longrightarrow>
    (\<exists>t. in_both a b i j t \<and> (f \<or> t \<noteq> []) \<and> CHR ''/'' \<notin> set t)"
  using assms(1)
proof (induction rule: reaches.induct)
  case (reaches_goal s)
  then show ?case by (auto simp: comp_goal_def in_both_def intro!: exI [of _ "[]"])
next
  case (reaches_step s' s)
  obtain i j f where s: "s = (i, j, f)" by (cases s)
  from reaches_step.hyps(1) consider
      (left) "i < length a" "a ! i = CHR ''*''" "s' = (Suc i, j, f)"
    | (right) "j < length b" "b ! j = CHR ''*''" "s' = (i, Suc j, f)"
    | (both) "i < length a" "j < length b" "a ! i = b ! j \<or> wild (a ! i) \<or> wild (b ! j)"
        "s' = (i + advance (a ! i), j + advance (b ! j), True)"
    by (auto simp: s comp_succ_def get_char_def split: if_splits)
  then show ?case
  proof cases
    case left
    with reaches_step.IH show ?thesis unfolding s
      by (auto simp: in_both_def comp_lang_star_Nil) (metis comp_lang_star_Cons comp_lang_star_Nil neq_Nil_conv)+
  next
    case right
    with reaches_step.IH show ?thesis unfolding s
      by (auto simp: in_both_def comp_lang_star_Nil) (metis comp_lang_star_Cons comp_lang_star_Nil neq_Nil_conv)+
  next
    case both
    let ?d = "shared_char (a ! i) (b ! j)"
    from both reaches_step.IH obtain t where t: "in_both a b (i + advance (a ! i)) (j + advance (b ! j)) t"
      "CHR ''/'' \<notin> set t" by (auto simp: advance_def split: if_splits)
    have "a ! i \<in> set a" "b ! j \<in> set b" using both by auto
    then have "?d \<noteq> CHR ''/''" using assms(2) by (auto simp: shared_char_def)
    moreover have "in_both a b i j (?d # t)"
      using both t by (auto simp: in_both_def shared_char_def intro!: comp_lang_advance)
    ultimately show ?thesis using t unfolding s by (auto intro!: exI [of _ "?d # t"])
  qed
qed

theorem components_overlap_iff:
  assumes "CHR ''/'' \<notin> set a \<union> set b"
  shows "components_overlap a b = Some (\<exists>t. t \<noteq> [] \<and> CHR ''/'' \<notin> set t \<and> component_matches a t \<and> component_matches b t)"
    (is "_ = Some ?R")
proof -
  have "reaches (comp_succ a b) (comp_goal a b) (0, 0, False) \<longleftrightarrow> ?R"
    using comp_overlap_sound [OF _ assms, of "(0, 0, False)"] comp_overlap_complete [of a b 0 0 _ False]
    by (auto simp: in_both_def component_matches_lang)
  then show ?thesis by (simp add: components_overlap_reaches)
qed

section \<open>The path overlap test decides a common path\<close>

interpretation glob: finite_search "glob_succ a b" "glob_goal a b"
    "{0..length a} \<times> {0..length b}" for a b
proof unfold_locales
  show "finite ({0..length a} \<times> {0..length b})" by simp
next
  fix s
  assume s: "s \<in> {0..length a} \<times> {0..length b}"
  obtain i j where eq: "s = (i, j)" by (cases s)
  show "set (glob_succ a b s) \<subseteq> {0..length a} \<times> {0..length b}"
    using s unfolding eq by (auto simp: glob_succ_def get_comp_def)
qed

definition path_in_both :: "string list \<Rightarrow> string list \<Rightarrow> nat \<Rightarrow> nat \<Rightarrow> string list \<Rightarrow> bool" where
  "path_in_both a b i j ps \<longleftrightarrow> i \<le> length a \<and> j \<le> length b \<and> visit (drop i a) ps \<and> visit (drop j b) ps"

definition plain_components :: "string list \<Rightarrow> bool" where
  "plain_components ps \<longleftrightarrow> (\<forall>p \<in> set ps. p \<noteq> [] \<and> CHR ''/'' \<notin> set p)"

definition stay :: "string \<Rightarrow> nat" where
  "stay c = (if c = ''**'' then 0 else 1)"

lemma glob_succ_left: "i < length a \<Longrightarrow> a ! i = ''**'' \<Longrightarrow> (Suc i, j) \<in> set (glob_succ a b (i, j))"
  by (simp add: glob_succ_def get_comp_def)

lemma glob_succ_right: "j < length b \<Longrightarrow> b ! j = ''**'' \<Longrightarrow> (i, Suc j) \<in> set (glob_succ a b (i, j))"
  by (simp add: glob_succ_def get_comp_def)

lemma glob_succ_both: "i < length a \<Longrightarrow> j < length b \<Longrightarrow>
    a ! i = ''**'' \<or> b ! j = ''**'' \<or> components_overlap (a ! i) (b ! j) = Some True \<Longrightarrow>
    (i + stay (a ! i), j + stay (b ! j)) \<in> set (glob_succ a b (i, j))"
  by (auto simp: glob_succ_def get_comp_def stay_def)

lemma visit_star_Nil: "i < length a \<Longrightarrow> a ! i = ''**'' \<Longrightarrow> visit (drop i a) [] = visit (drop (Suc i) a) []"
  by (simp flip: Cons_nth_drop_Suc)

lemma visit_star_Cons: "i < length a \<Longrightarrow> a ! i = ''**'' \<Longrightarrow>
    visit (drop i a) (d # ps) = (visit (drop (Suc i) a) (d # ps) \<or> visit (drop i a) ps)"
  by (simp flip: Cons_nth_drop_Suc)

lemma visit_other: "i < length a \<Longrightarrow> a ! i \<noteq> ''**'' \<Longrightarrow>
    visit (drop i a) (d # ps) = (component_matches (a ! i) d \<and> visit (drop (Suc i) a) ps)"
  by (simp flip: Cons_nth_drop_Suc)

lemma visit_cases:
  assumes "i \<le> length a" "visit (drop i a) ps"
  obtains (finished) "i = length a" "ps = []"
  | (skip) "i < length a" "a ! i = ''**''" "visit (drop (Suc i) a) ps"
  | (consume) d ps' where "i < length a" "ps = d # ps'" "visit (drop (i + stay (a ! i)) a) ps'"
      "a ! i = ''**'' \<or> component_matches (a ! i) d"
proof (cases "i < length a")
  case False
  with assms show thesis using finished by simp
next
  case True
  show thesis
  proof (cases ps)
    case Nil
    with assms True show thesis by (intro skip) (auto simp flip: Cons_nth_drop_Suc)
  next
    case (Cons d ps')
    show thesis
    proof (cases "a ! i = ''**''")
      case star: True
      with assms True Cons show thesis
        using skip consume [of d ps'] by (auto simp: visit_star_Cons stay_def)
    next
      case False
      with assms True Cons show thesis
        using consume [of d ps'] by (auto simp: visit_other stay_def)
    qed
  qed
qed

lemma glob_overlap_complete:
  assumes "plain_components a" "plain_components b"
  shows "path_in_both a b i j ps \<Longrightarrow> plain_components ps \<Longrightarrow> reaches (glob_succ a b) (glob_goal a b) (i, j)"
proof (induction "length ps + (length a - i) + (length b - j)" arbitrary: i j ps rule: less_induct)
  case less
  from less.prems have ij: "i \<le> length a" "j \<le> length b"
    and la: "visit (drop i a) ps" and lb: "visit (drop j b) ps" by (auto simp: path_in_both_def)
  from ij(1) la show ?case
  proof (cases rule: visit_cases)
    case skip
    with less.prems lb have "reaches (glob_succ a b) (glob_goal a b) (Suc i, j)"
      by (intro less.hyps [of ps "Suc i" j]) (auto simp: path_in_both_def)
    with glob_succ_left skip show ?thesis by (blast intro: reaches_succ)
  next
    case finished
    from ij(2) lb show ?thesis
    proof (cases rule: visit_cases)
      case skip
      with less.prems la have "reaches (glob_succ a b) (glob_goal a b) (i, Suc j)"
        by (intro less.hyps [of ps i "Suc j"]) (auto simp: path_in_both_def)
      with glob_succ_right skip show ?thesis by (blast intro: reaches_succ)
    qed (use finished in \<open>auto intro!: reaches_goal simp: glob_goal_def\<close>)
  next
    case (consume d ps')
    note ca = consume
    from ij(2) lb show ?thesis
    proof (cases rule: visit_cases)
      case skip
      with less.prems la have "reaches (glob_succ a b) (glob_goal a b) (i, Suc j)"
        by (intro less.hyps [of ps i "Suc j"]) (auto simp: path_in_both_def)
      with glob_succ_right skip show ?thesis by (blast intro: reaches_succ)
    next
      case (consume d' ps'')
      with ca have eq: "d' = d" "ps'' = ps'" by auto
      have "reaches (glob_succ a b) (glob_goal a b) (i + stay (a ! i), j + stay (b ! j))"
        using ca consume eq less.prems
        by (intro less.hyps [of ps']) (auto simp: path_in_both_def stay_def plain_components_def)
      moreover have "a ! i = ''**'' \<or> b ! j = ''**'' \<or> components_overlap (a ! i) (b ! j) = Some True"
      proof -
        have "CHR ''/'' \<notin> set (a ! i) \<union> set (b ! j)"
          using assms ca consume by (auto simp: plain_components_def)
        moreover have "d \<noteq> []" "CHR ''/'' \<notin> set d"
          using less.prems(2) ca by (auto simp: plain_components_def)
        ultimately show ?thesis
          using ca consume eq components_overlap_iff [of "a ! i" "b ! j"] by auto
      qed
      ultimately show ?thesis using glob_succ_both ca consume by (blast intro: reaches_succ)
    qed (use ca in auto)
  qed
qed

text \<open>Every non-empty component without a slash describes some non-empty text without a slash.\<close>

definition sample :: "string \<Rightarrow> string" where
  "sample c = map (\<lambda>x. if wild x then CHR ''a'' else x) c"

lemma comp_lang_sample: "comp_lang c (sample c)"
proof (induction c)
  case (Cons x c)
  then show ?case
    by (cases c) (auto simp: sample_def wild_def)
qed (simp add: sample_def)

lemma sample_plain: "c \<noteq> [] \<Longrightarrow> CHR ''/'' \<notin> set c \<Longrightarrow> sample c \<noteq> [] \<and> CHR ''/'' \<notin> set (sample c)"
  by (auto simp: sample_def)

lemma visit_stay:
  "i < length a \<Longrightarrow> visit (drop (i + stay (a ! i)) a) ps \<Longrightarrow>
    a ! i = ''**'' \<or> component_matches (a ! i) d \<Longrightarrow> visit (drop i a) (d # ps)"
  by (cases "a ! i = ''**''") (auto simp: visit_star_Cons visit_other stay_def)

lemma visit_skip: "i < length a \<Longrightarrow> a ! i = ''**'' \<Longrightarrow> visit (drop (Suc i) a) ps \<Longrightarrow> visit (drop i a) ps"
  by (cases ps) (simp_all add: visit_star_Nil visit_star_Cons)

lemma glob_step_component:
  assumes "plain_components a" "plain_components b" "i < length a" "j < length b"
    and "a ! i = ''**'' \<or> b ! j = ''**'' \<or> components_overlap (a ! i) (b ! j) = Some True"
  obtains d where "d \<noteq> []" "CHR ''/'' \<notin> set d" "a ! i = ''**'' \<or> component_matches (a ! i) d"
    "b ! j = ''**'' \<or> component_matches (b ! j) d"
proof -
  from assms have pa: "a ! i \<noteq> []" "CHR ''/'' \<notin> set (a ! i)" and pb: "b ! j \<noteq> []" "CHR ''/'' \<notin> set (b ! j)"
    by (auto simp: plain_components_def)
  show thesis
  proof (cases "a ! i = ''**''")
    case True
    with pb that [of "sample (b ! j)"] sample_plain [of "b ! j"] comp_lang_sample [of "b ! j"]
    show thesis by (simp add: component_matches_lang)
  next
    case na: False
    show thesis
    proof (cases "b ! j = ''**''")
      case True
      with pa that [of "sample (a ! i)"] sample_plain [of "a ! i"] comp_lang_sample [of "a ! i"]
      show thesis by (simp add: component_matches_lang)
    next
      case False
      with na assms(5) pa pb components_overlap_iff [of "a ! i" "b ! j"] that show thesis by auto
    qed
  qed
qed

lemma glob_overlap_sound:
  assumes "reaches (glob_succ a b) (glob_goal a b) s" "plain_components a" "plain_components b"
  shows "case s of (i, j) \<Rightarrow> i \<le> length a \<longrightarrow> j \<le> length b \<longrightarrow>
    (\<exists>ps. path_in_both a b i j ps \<and> plain_components ps)"
  using assms(1)
proof (induction rule: reaches.induct)
  case (reaches_goal s)
  then show ?case
    by (auto simp: glob_goal_def path_in_both_def plain_components_def intro!: exI [of _ "[]"])
next
  case (reaches_step s' s)
  obtain i j where s: "s = (i, j)" by (cases s)
  from reaches_step.hyps(1) consider
      (left) "i < length a" "a ! i = ''**''" "s' = (Suc i, j)"
    | (right) "j < length b" "b ! j = ''**''" "s' = (i, Suc j)"
    | (both) "i < length a" "j < length b"
        "a ! i = ''**'' \<or> b ! j = ''**'' \<or> components_overlap (a ! i) (b ! j) = Some True"
        "s' = (i + stay (a ! i), j + stay (b ! j))"
    by (auto simp: s glob_succ_def get_comp_def stay_def split: if_splits)
  then show ?case
  proof cases
    case left
    with reaches_step.IH show ?thesis unfolding s by (auto simp: path_in_both_def intro: visit_skip)
  next
    case right
    with reaches_step.IH show ?thesis unfolding s by (auto simp: path_in_both_def intro: visit_skip)
  next
    case both
    from both reaches_step.IH obtain ps where ps: "plain_components ps"
      "path_in_both a b (i + stay (a ! i)) (j + stay (b ! j)) ps"
      by (auto simp: stay_def split: if_splits)
    from glob_step_component [OF assms(2,3) both(1,2,3)] obtain d where d: "d \<noteq> []"
      "CHR ''/'' \<notin> set d" "a ! i = ''**'' \<or> component_matches (a ! i) d"
      "b ! j = ''**'' \<or> component_matches (b ! j) d" .
    have "path_in_both a b i j (d # ps)"
      using both ps d by (auto simp: path_in_both_def intro: visit_stay)
    moreover have "plain_components (d # ps)" using ps d by (simp add: plain_components_def)
    ultimately show ?thesis unfolding s by blast
  qed
qed

lemma visit_Nil: "visit a [] \<longleftrightarrow> (\<forall>c \<in> set a. c = ''**'')"
  by (induction a) auto

lemma visit_all_stars: "a \<noteq> [] \<Longrightarrow> \<forall>c \<in> set a. c = ''**'' \<Longrightarrow> visit a [d]"
  by (cases a) (auto simp: visit_Nil)

definition path_components :: "string \<Rightarrow> string list" where
  "path_components path = split_on (CHR ''/'') path"

definition plain_path :: "string \<Rightarrow> bool" where
  "plain_path path \<longleftrightarrow> [] \<notin> set (path_components path)"

lemma plain_components_split: "plain_path p \<Longrightarrow> plain_components (split_on (CHR ''/'') p)"
  using split_on_pieces [of _ "CHR ''/''" p] by (force simp: plain_components_def plain_path_def path_components_def)

theorem globs_overlap_iff:
  assumes "plain_path a" "plain_path b"
  shows "globs_overlap a b = Some (\<exists>path. plain_path path \<and> glob_matches a path \<and> glob_matches b path)"
proof -
  let ?a = "split_on (CHR ''/'') a" and ?b = "split_on (CHR ''/'') b"
  have pa: "plain_components ?a" "plain_components ?b" using assms by (simp_all add: plain_components_split)
  have "globs_overlap a b = Some (reaches (glob_succ ?a ?b) (glob_goal ?a ?b) (0, 0))"
    unfolding globs_overlap_def Let_def by (rule glob.search_from) simp
  moreover have "reaches (glob_succ ?a ?b) (glob_goal ?a ?b) (0, 0) \<longleftrightarrow>
      (\<exists>path. plain_path path \<and> glob_matches a path \<and> glob_matches b path)"
  proof
    assume "reaches (glob_succ ?a ?b) (glob_goal ?a ?b) (0, 0)"
    from glob_overlap_sound [OF this pa] obtain ps where
      ps: "visit ?a ps" "visit ?b ps" "plain_components ps" by (auto simp: path_in_both_def)
    obtain qs where qs: "visit ?a qs" "visit ?b qs" "plain_components qs" "qs \<noteq> []"
    proof (cases "ps = []")
      case True
      with ps have "visit ?a [''a'']" "visit ?b [''a'']" by (auto simp: visit_Nil intro!: visit_all_stars)
      then show thesis using that [of "[''a'']"] by (simp add: plain_components_def)
    qed (use ps that in blast)
    then have "split_on (CHR ''/'') (join ''/'' qs) = qs"
      by (intro split_on_join) (auto simp: plain_components_def)
    with qs show "\<exists>path. plain_path path \<and> glob_matches a path \<and> glob_matches b path"
      by (intro exI [of _ "join ''/'' qs"])
        (auto simp: glob_matches_def plain_path_def path_components_def plain_components_def)
  next
    assume "\<exists>path. plain_path path \<and> glob_matches a path \<and> glob_matches b path"
    then obtain path where "plain_path path" "glob_matches a path" "glob_matches b path" by blast
    then show "reaches (glob_succ ?a ?b) (glob_goal ?a ?b) (0, 0)"
      by (intro glob_overlap_complete [OF pa, of _ _ "split_on (CHR ''/'') path"] plain_components_split)
        (simp_all add: path_in_both_def glob_matches_def)
  qed
  ultimately show ?thesis by simp
qed

lemma validate_glob_plain: "validate_glob dbg p = Inr () \<Longrightarrow> plain_path p"
  by (auto simp: validate_glob_def plain_path_def path_components_def list_ex_iff valid_component_def split: if_splits)

end
