(* ===== verification/Strings.thy ===== *)
theory Strings
  imports Prelude
begin

text \<open>
  Further string operations of the Rust standard library that several components call:
  replacement, counting and splitting, prefixes, ASCII case, and the UTF-8 bytes of a text.
\<close>

section \<open>String operations\<close>

function replace_all :: "string \<Rightarrow> string \<Rightarrow> string \<Rightarrow> string" where
  "replace_all s pat to =
     (if s = [] then []
      else if pat \<noteq> [] \<and> starts_with s pat then to @ replace_all (drop (length pat) s) pat to
      else hd s # replace_all (tl s) pat to)"
  by pat_completeness auto
termination
  by (relation "measure (\<lambda>(s, pat, to). length s)") (auto simp: neq_Nil_conv)

function count_matches :: "string \<Rightarrow> string \<Rightarrow> nat" where
  "count_matches s pat =
     (if s = [] then 0
      else if pat \<noteq> [] \<and> starts_with s pat then Suc (count_matches (drop (length pat) s) pat)
      else count_matches (tl s) pat)"
  by pat_completeness auto
termination
  by (relation "measure (\<lambda>(s, pat). length s)") (auto simp: neq_Nil_conv)

declare replace_all.simps [simp del] count_matches.simps [simp del]

definition strip_prefix :: "string \<Rightarrow> string \<Rightarrow> string option" where
  "strip_prefix s p = (if starts_with s p then Some (drop (length p) s) else None)"

definition ascii_lower :: "char \<Rightarrow> char" where
  "ascii_lower c = (let n = of_char c :: nat in if 65 \<le> n \<and> n \<le> 90 then char_of (n + 32) else c)"

fun split_once :: "char \<Rightarrow> string \<Rightarrow> (string \<times> string) option" where
  "split_once d [] = None"
| "split_once d (c # s) =
     (if c = d then Some ([], s) else map_option (\<lambda>(a, b). (c # a, b)) (split_once d s))"

definition is_lower :: "char \<Rightarrow> bool" where
  "is_lower c \<longleftrightarrow> 97 \<le> (of_char c :: nat) \<and> (of_char c :: nat) \<le> 122"

definition is_upper :: "char \<Rightarrow> bool" where
  "is_upper c \<longleftrightarrow> 65 \<le> (of_char c :: nat) \<and> (of_char c :: nat) \<le> 90"

definition ascii_alphanumeric :: "char \<Rightarrow> bool" where
  "ascii_alphanumeric c \<longleftrightarrow> is_digit c \<or> is_upper c \<or> is_lower c"

definition ascii_hexdigit :: "char \<Rightarrow> bool" where
  "ascii_hexdigit c \<longleftrightarrow> is_digit c \<or> (let n = of_char c :: nat in (65 \<le> n \<and> n \<le> 70) \<or> (97 \<le> n \<and> n \<le> 102))"

definition eq_ignore_ascii_case :: "string \<Rightarrow> string \<Rightarrow> bool" where
  "eq_ignore_ascii_case s t \<longleftrightarrow> map ascii_lower s = map ascii_lower t"

text \<open>The text before and after the first occurrence of a pattern.\<close>

fun split_at_str :: "string \<Rightarrow> string \<Rightarrow> (string \<times> string) option" where
  "split_at_str [] p = (if p = [] then Some ([], []) else None)"
| "split_at_str (c # s) p =
     (if starts_with (c # s) p then Some ([], drop (length p) (c # s))
      else map_option (\<lambda>(a, b). (c # a, b)) (split_at_str s p))"

definition trim :: "string \<Rightarrow> string" where
  "trim s = rev (dropWhile is_whitespace (rev (dropWhile is_whitespace s)))"

text \<open>\<open>str::lines\<close>: no line after a final newline, and no carriage return at the end of a line.\<close>

definition drop_cr :: "string \<Rightarrow> string" where
  "drop_cr line = (if line \<noteq> [] \<and> last line = CHR 0x0D then butlast line else line)"

definition text_lines :: "string \<Rightarrow> string list" where
  "text_lines s = (let parts = split_on (CHR 0x0A) s
     in map drop_cr (if last parts = [] then butlast parts else parts))"

lemma split_at_str_Some: "split_at_str s p = Some (a, b) \<Longrightarrow> s = a @ p @ b"
proof (induction s arbitrary: a)
  case (Cons c s)
  then show ?case by (auto simp: starts_with_iff split: if_splits)
qed (auto split: if_splits)

lemma split_at_str_None: "split_at_str s p = None \<longleftrightarrow> \<not> contains_str s p"
  by (induction s) auto

lemma split_once_Some: "split_once d s = Some (a, b) \<longleftrightarrow> s = a @ d # b \<and> d \<notin> set a"
proof (induction s arbitrary: a)
  case (Cons c s)
  then show ?case by (cases a) auto
qed simp

definition zero_padded :: "nat \<Rightarrow> string \<Rightarrow> string" where
  "zero_padded w s = replicate (w - length s) (CHR ''0'') @ s"

section \<open>Bytes\<close>

text \<open>The UTF-8 bytes of a text of scalars below 256.\<close>

definition utf8_bytes :: "string \<Rightarrow> nat list" where
  "utf8_bytes s = concat (map (\<lambda>c. let n = of_char c :: nat
     in if n < 128 then [n] else [192 + n div 64, 128 + n mod 64]) s)"

definition ascii :: "char \<Rightarrow> nat" where
  "ascii c = of_char c"

definition slice :: "'a list \<Rightarrow> nat \<Rightarrow> nat \<Rightarrow> 'a list option" where
  "slice xs start finish =
     (if start \<le> finish \<and> finish \<le> length xs then Some (take (finish - start) (drop start xs)) else None)"

text \<open>\<open>std::str::from_utf8\<close> accepts: no overlong form, no surrogate, nothing above U+10FFFF.\<close>

definition utf8_continuation :: "nat \<Rightarrow> bool" where
  "utf8_continuation b \<longleftrightarrow> 128 \<le> b \<and> b \<le> 191"

fun utf8_valid :: "nat list \<Rightarrow> bool" where
  "utf8_valid [] = True"
| "utf8_valid (b # bs) =
     (if b < 128 then utf8_valid bs
      else case bs of [] \<Rightarrow> False
      | c # cs \<Rightarrow>
          if 194 \<le> b \<and> b \<le> 223 then utf8_continuation c \<and> utf8_valid cs
          else case cs of [] \<Rightarrow> False
          | d # ds \<Rightarrow>
              if 224 \<le> b \<and> b \<le> 239
              then utf8_continuation c \<and> (b = 224 \<longrightarrow> 160 \<le> c) \<and> (b = 237 \<longrightarrow> c \<le> 159) \<and> utf8_continuation d \<and> utf8_valid ds
              else case ds of [] \<Rightarrow> False
              | e # es \<Rightarrow>
                  240 \<le> b \<and> b \<le> 244 \<and> utf8_continuation c \<and> (b = 240 \<longrightarrow> 144 \<le> c) \<and> (b = 244 \<longrightarrow> c \<le> 143)
                  \<and> utf8_continuation d \<and> utf8_continuation e \<and> utf8_valid es)"

lemma utf8_append: "utf8_bytes (s @ t) = utf8_bytes s @ utf8_bytes t"
  by (simp add: utf8_bytes_def)

end
