(* ===== verification/Storage_Config.thy ===== *)
theory Storage_Config
  imports Globs Manifest Strings
begin

text \<open>
  The storage declarations of \<open>src/src/storage.rs\<close>: their validation, the scope rules for the
  declared lifecycle verbs, and the family of a path.  Debug renderings of names and patterns in
  messages go through the parameter \<open>dbg\<close>.
\<close>

text \<open>\<open>Path::file_name\<close>: the last component, ignoring empty and \<open>.\<close> ones, unless it is \<open>..\<close>.\<close>

definition file_name :: "string \<Rightarrow> string option" where
  "file_name path = (case rev (filter (\<lambda>c. c \<noteq> [] \<and> c \<noteq> ''.'') (split_on (CHR ''/'') path)) of
     [] \<Rightarrow> None | c # _ \<Rightarrow> if c = ''..'' then None else Some c)"

section \<open>Lifecycle verbs\<close>

definition valid_family :: "string \<Rightarrow> bool" where
  "valid_family name \<longleftrightarrow> (case name of [] \<Rightarrow> False | c # _ \<Rightarrow> is_lower c)
     \<and> list_all (\<lambda>b. is_lower b \<or> is_digit b \<or> b = CHR ''_'') name"

definition verb_argument_value :: "string \<Rightarrow> string" where
  "verb_argument_value argument =
     (if starts_with argument ''-''
      then (case split_once (CHR ''='') argument of None \<Rightarrow> argument | Some (_, v) \<Rightarrow> v)
      else argument)"

definition names_root :: "string \<Rightarrow> bool" where
  "names_root s \<longleftrightarrow> contains_str s ''{{profile}}'' \<or> contains_str s ''{{workspace}}''"

definition scoped_by_environment :: "string \<Rightarrow> string list \<Rightarrow> bool" where
  "scoped_by_environment name argv \<longleftrightarrow> name = ''session_delete'' \<and> \<not> list_ex names_root (drop 1 argv)"

definition forbidden_programs :: "string list" where
  "forbidden_programs = [''sh'', ''bash'', ''zsh'', ''fish'', ''dash'', ''csh'', ''env'', ''sudo'',
     ''doas'', ''xargs'', ''command'', ''exec'', ''python'', ''python3'', ''perl'', ''ruby'', ''node'',
     ''osascript'', ''powershell'', ''pwsh'', ''cmd'', ''busybox'', ''timeout'', ''nohup'', ''setsid'',
     ''nice'', ''ssh'', ''docker'', ''uv'', ''rm'', ''npm'', ''npx'', ''pip'', ''brew'']"

definition secret_words :: "string list" where
  "secret_words = [''credential'', ''secret'', ''api_key'', ''api-key'', ''access-token'', ''password'',
     ''private-key'']"

definition shell_chars :: "char list" where
  "shell_chars = [CHR 0x00, CHR 0x0A, CHR 0x0D, CHR ''$'', CHR 0x60, CHR 0x5C]"

definition rendered_argument :: "string \<Rightarrow> string" where
  "rendered_argument arg =
     replace_all (replace_all (replace_all (replace_all arg ''{{profile}}'' ''ROOT'')
       ''{{workspace}}'' ''ROOT/workspace'') ''{{session_id}}'' ''session'') ''{{harness}}'' ''harness''"

definition traverses :: "string \<Rightarrow> bool" where
  "traverses s \<longleftrightarrow> list_ex (\<lambda>p. p = ''.'' \<or> p = ''..'') (split_on (CHR ''/'') s)"

definition argument_ok :: "nat \<Rightarrow> string \<Rightarrow> bool" where
  "argument_ok index arg =
     (let lower = map ascii_lower arg; rendered = rendered_argument arg;
          v = verb_argument_value rendered
      in \<not> (arg = [] \<or> contains_any arg shell_chars \<or> list_ex (contains_str lower) secret_words)
         \<and> \<not> (contains_any rendered [CHR ''{'', CHR ''}''] \<or> traverses rendered)
         \<and> \<not> (index > 0 \<and> ((case v of [] \<Rightarrow> False | c # _ \<Rightarrow> c = CHR ''/'' \<or> c = CHR ''~'')
                \<or> (CHR ''/'' \<in> set v \<and> \<not> starts_with v ''ROOT/''))))"

definition verb_error :: "string \<Rightarrow> ahrb_error" where
  "verb_error name = Validation (''storage.'' @ name
     @ '': expected scoped direct harness argv with only profile/workspace/session_id/harness variables'')"

definition validate_verb :: "string \<Rightarrow> string list \<Rightarrow> bool \<Rightarrow> ahrb_error + unit" where
  "validate_verb name argv session =
     (case argv of [] \<Rightarrow> Inr ()
      | program # _ \<Rightarrow>
        (case file_name program of None \<Rightarrow> Inl (verb_error name)
         | Some program \<Rightarrow>
           (if program \<in> set forbidden_programs then Inl (verb_error name)
            else if session \<and> sum_list (map (\<lambda>s. count_matches s ''{{session_id}}'') argv) \<noteq> 1
              then Inl (verb_error name)
            else if \<not> scoped_by_environment name argv \<and> \<not> list_ex names_root (drop 1 argv)
              then Inl (verb_error name)
            else if list_ex (\<lambda>(i, arg). \<not> argument_ok i arg) (enumerate 0 argv)
              then Inl (verb_error name)
            else Inr ())))"

section \<open>The declarations\<close>

definition invalid :: "string \<Rightarrow> ahrb_error + unit" where
  "invalid text = Inl (Validation (''storage: '' @ text))"

definition validate_workspace :: "string option \<Rightarrow> ahrb_error + unit" where
  "validate_workspace w =
     (case w of None \<Rightarrow> Inr ()
      | Some path \<Rightarrow>
        (case strip_prefix path ''{{profile}}/'' of
           None \<Rightarrow> invalid ''workspace_path must be profile-contained''
         | Some suffix \<Rightarrow>
           (if suffix = [] \<or> list_ex (\<lambda>part. part = [] \<or> part = ''.'' \<or> part = ''..'')
                 (split_on (CHR ''/'') suffix) \<or> CHR 0x5C \<in> set suffix
            then invalid ''workspace_path must be normalized''
            else if contains_any (replace_all suffix ''{{session_id}}'' ''session'')
                 [CHR ''{'', CHR ''}'', CHR ''$'']
            then invalid ''workspace_path has unresolved variables''
            else Inr ())))"

definition validate_area :: "(string \<Rightarrow> string) \<Rightarrow> string \<times> string list \<Rightarrow> ahrb_error + unit" where
  "validate_area dbg area =
     (case area of (name, patterns) \<Rightarrow>
       (if \<not> valid_family name \<or> (name = ''other'' \<and> patterns \<noteq> [])
        then invalid (''invalid area '' @ dbg name @ ''; other is the computed remainder'')
        else first_error (validate_glob dbg) patterns))"

definition areas_overlap :: "string list \<Rightarrow> string list \<Rightarrow> bool" where
  "areas_overlap a b = list_ex (\<lambda>x. list_ex (\<lambda>y. globs_overlap x y = Some True) b) a"

fun validate_disjoint :: "(string \<times> string list) list \<Rightarrow> ahrb_error + unit" where
  "validate_disjoint [] = Inr ()"
| "validate_disjoint ((left, a) # families) =
     and_then (first_error (\<lambda>(right, b).
         if areas_overlap a b then invalid (''overlapping areas '' @ left @ '' and '' @ right)
         else Inr ()) families)
       (\<lambda>_. validate_disjoint families)"

definition declared_areas :: "storage_config \<Rightarrow> (string, string list) btree" where
  "declared_areas c = (case sc_areas c of Some a \<Rightarrow> a | None \<Rightarrow> [])"

definition declared_caps :: "storage_config \<Rightarrow> string list" where
  "declared_caps c = (case sc_auxiliary_cap_bytes c of Some caps \<Rightarrow> map fst caps | None \<Rightarrow> [])"

definition validate_storage :: "(string \<Rightarrow> string) \<Rightarrow> storage_config \<Rightarrow> ahrb_error + unit" where
  "validate_storage dbg c =
     (let areas = declared_areas c;
          verb = (\<lambda>(name, argv, session). case argv of None \<Rightarrow> Inr ()
                    | Some argv \<Rightarrow> validate_verb name argv session)
      in if sc_sweep_interval_s c = Some 0 then invalid ''sweep_interval_s must be positive''
      else and_then (validate_workspace (sc_workspace_path c)) (\<lambda>_.
        and_then (first_error (validate_area dbg) areas) (\<lambda>_.
        and_then (validate_disjoint areas) (\<lambda>_.
        and_then (first_error (\<lambda>name. if name \<noteq> ''other'' \<and> \<not> bt_contains areas name
                    then invalid (''cap for undeclared family '' @ name) else Inr ()) (declared_caps c)) (\<lambda>_.
        and_then (first_error verb
          [(''session_delete'', sc_session_delete c, True), (''session_close'', sc_session_close c, True),
           (''uninstall_cleanup'', sc_uninstall_cleanup c, False)]) (\<lambda>_.
        (case sc_session_close c of
           Some a \<Rightarrow> if a \<noteq> [] \<and> sc_session_delete c = Some a
                      then invalid ''session_close cannot alias session_delete'' else Inr ()
         | None \<Rightarrow> Inr ())))))))"

definition family :: "storage_config \<Rightarrow> string \<Rightarrow> ahrb_error + string" where
  "family c path =
     (case map fst (filter (\<lambda>(_, globs). list_ex (\<lambda>g. glob_matches g path) globs) (declared_areas c)) of
        [] \<Rightarrow> Inr ''other''
      | [name] \<Rightarrow> Inr name
      | _ \<Rightarrow> Inl (Validation (''storage overlapping family matches at '' @ path)))"

definition delete_declared :: "storage_config \<Rightarrow> bool" where
  "delete_declared c \<longleftrightarrow> (case sc_session_delete c of Some v \<Rightarrow> v \<noteq> [] | None \<Rightarrow> False)
     \<or> (case sc_uninstall_cleanup c of Some v \<Rightarrow> v \<noteq> [] | None \<Rightarrow> False)"

section \<open>Validated areas are disjoint\<close>

text \<open>
  What the declarations rely on: patterns, texts they match, and an overlap test that finds every
  pair of patterns sharing a plain text, and only those.
\<close>

locale pattern_overlap =
  fixes valid :: "'p \<Rightarrow> bool" and plain :: "'t \<Rightarrow> bool"
    and matches :: "'p \<Rightarrow> 't \<Rightarrow> bool" and overlap :: "'p \<Rightarrow> 'p \<Rightarrow> bool"
  assumes overlap_iff: "valid p \<Longrightarrow> valid q \<Longrightarrow>
    overlap p q \<longleftrightarrow> (\<exists>t. plain t \<and> matches p t \<and> matches q t)"
begin

definition area_matches :: "'t \<Rightarrow> 'n \<times> 'p list \<Rightarrow> bool" where
  "area_matches t area \<longleftrightarrow> (\<exists>g \<in> set (snd area). matches g t)"

definition area_overlap :: "'n \<times> 'p list \<Rightarrow> 'n \<times> 'p list \<Rightarrow> bool" where
  "area_overlap a b \<longleftrightarrow> (\<exists>x \<in> set (snd a). \<exists>y \<in> set (snd b). overlap x y)"

definition valid_areas :: "('n \<times> 'p list) list \<Rightarrow> bool" where
  "valid_areas areas \<longleftrightarrow> (\<forall>area \<in> set areas. \<forall>g \<in> set (snd area). valid g)"

lemma area_overlap_iff:
  "\<forall>g \<in> set (snd a). valid g \<Longrightarrow> \<forall>g \<in> set (snd b). valid g \<Longrightarrow>
    area_overlap a b \<longleftrightarrow> (\<exists>t. plain t \<and> area_matches t a \<and> area_matches t b)"
  unfolding area_overlap_def area_matches_def using overlap_iff by blast

lemma filter_area_matches:
  assumes "valid_areas areas"
  shows "sorted_wrt (\<lambda>a b. \<not> area_overlap a b) areas \<longleftrightarrow>
    (\<forall>t. plain t \<longrightarrow> length (filter (area_matches t) areas) \<le> 1)"
  using assms
proof (induction areas)
  case (Cons a areas)
  then have va: "\<forall>g \<in> set (snd a). valid g" and vs: "valid_areas areas" by (auto simp: valid_areas_def)
  have "(\<forall>b \<in> set areas. \<not> area_overlap a b) \<longleftrightarrow>
      (\<forall>t. plain t \<longrightarrow> area_matches t a \<longrightarrow> filter (area_matches t) areas = [])"
    using va vs area_overlap_iff [OF va] by (auto simp: valid_areas_def filter_empty_conv)
  moreover have "length (filter (area_matches t) (a # areas)) \<le> 1 \<longleftrightarrow>
      (area_matches t a \<longrightarrow> filter (area_matches t) areas = [])
      \<and> length (filter (area_matches t) areas) \<le> 1" for t
    by (cases "filter (area_matches t) areas") simp_all
  ultimately show ?case using Cons.IH [OF vs] by (simp only: sorted_wrt.simps) blast
qed simp

end

interpretation globs: pattern_overlap plain_path plain_path glob_matches
    "\<lambda>x y. globs_overlap x y = Some True"
  by unfold_locales (simp add: globs_overlap_iff)

lemma areas_overlap_area: "areas_overlap (snd a) (snd b) = globs.area_overlap a b"
  by (simp add: areas_overlap_def list_ex_iff globs.area_overlap_def)

lemma disjoint_from_iff:
  "first_error (\<lambda>(right, b). if areas_overlap a b then invalid (f right) else Inr ()) families = Inr ()
    \<longleftrightarrow> (\<forall>b \<in> set families. \<not> areas_overlap a (snd b))"
  by (simp add: first_error_Inr invalid_def split_beta)

lemma validate_disjoint_iff:
  "validate_disjoint areas = Inr () \<longleftrightarrow> sorted_wrt (\<lambda>a b. \<not> globs.area_overlap a b) areas"
proof (induction areas)
  case (Cons area areas)
  obtain left a where area: "area = (left, a)" by (cases area)
  show ?case unfolding area
    by (simp add: and_then_Inr_iff disjoint_from_iff Cons.IH flip: areas_overlap_area)
qed simp

lemma validate_area_valid:
  assumes "first_error (validate_area dbg) areas = Inr ()"
  shows "globs.valid_areas areas"
  using assms validate_glob_plain
  by (fastforce simp: first_error_Inr validate_area_def globs.valid_areas_def invalid_def
      split: prod.splits if_splits)

lemma validate_area_other:
  "first_error (validate_area dbg) areas = Inr () \<Longrightarrow> (''other'', globs) \<in> set areas \<Longrightarrow> globs = []"
  by (fastforce simp: first_error_Inr validate_area_def invalid_def split: prod.splits if_splits)

lemma validate_storageD:
  assumes "validate_storage dbg c = Inr ()"
  shows "first_error (validate_area dbg) (declared_areas c) = Inr ()"
    "validate_disjoint (declared_areas c) = Inr ()" "sc_sweep_interval_s c \<noteq> Some 0"
  using assms by (auto simp: validate_storage_def Let_def and_then_Inr_iff invalid_def split: if_splits)

definition matching_areas :: "storage_config \<Rightarrow> string \<Rightarrow> (string \<times> string list) list" where
  "matching_areas c path = filter (globs.area_matches path) (declared_areas c)"

lemma family_matching:
  "family c path = (case matching_areas c path of [] \<Rightarrow> Inr ''other'' | [area] \<Rightarrow> Inr (fst area)
     | _ \<Rightarrow> Inl (Validation (''storage overlapping family matches at '' @ path)))"
proof -
  have "filter (\<lambda>(_, globs). list_ex (\<lambda>g. glob_matches g path) globs) (declared_areas c) = matching_areas c path"
    unfolding matching_areas_def
    by (rule filter_cong) (auto simp: globs.area_matches_def list_ex_iff)
  then show ?thesis by (simp add: family_def split: list.splits)
qed

lemma validated_matching:
  assumes "validate_storage dbg c = Inr ()" "plain_path path"
  shows "length (matching_areas c path) \<le> 1"
  using validate_storageD [OF assms(1)] validate_area_valid assms(2)
    globs.filter_area_matches [of "declared_areas c"]
  by (auto simp: validate_disjoint_iff matching_areas_def)

lemma validated_family:
  assumes "validate_storage dbg c = Inr ()" "plain_path path"
  shows "\<exists>f. family c path = Inr f \<and>
    (if f = ''other'' then \<forall>(n, gs) \<in> set (declared_areas c). \<forall>g \<in> set gs. \<not> glob_matches g path
     else \<exists>gs. (f, gs) \<in> set (declared_areas c) \<and> (\<exists>g \<in> set gs. glob_matches g path))"
proof (cases "matching_areas c path")
  case Nil
  then show ?thesis
    by (auto simp: family_matching matching_areas_def filter_empty_conv globs.area_matches_def)
next
  case (Cons area rest)
  with validated_matching [OF assms] have m: "matching_areas c path = [area]" by simp
  obtain n gs where area: "area = (n, gs)" by (cases area)
  have "area \<in> set (matching_areas c path)" using m by simp
  then have mem: "(n, gs) \<in> set (declared_areas c)" "\<exists>g \<in> set gs. glob_matches g path"
    by (auto simp: matching_areas_def globs.area_matches_def area)
  moreover from mem have "n \<noteq> ''other''"
    using validate_area_other [OF validate_storageD(1) [OF assms(1)], of gs] by auto
  ultimately show ?thesis using m by (auto simp: family_matching area)
qed

end
