(* ===== verification/Certify.thy ===== *)
theory Certify
  imports Capability Storage_Config
begin

text \<open>
  Suite evaluation of \<open>src/src/evaluate.rs\<close>: the automation score, the badge conditions and
  \<open>certify\<close>, the process exit code, and the badge label.
\<close>

section \<open>The automation score\<close>

definition result_for_row :: "test_result list \<Rightarrow> u8 \<Rightarrow> test_result option" where
  "result_for_row results row = find (\<lambda>r. res_row r = row) results"

text \<open>The value one component row contributes; \<open>None\<close> is the early return without a score.\<close>

definition component_value :: "u8 \<Rightarrow> test_result \<Rightarrow> f64 option" where
  "component_value row r =
     (if is_error (res_outcome r) \<or> is_absent (res_outcome r)
         \<or> \<not> md_measurement_complete (res_metadata r) then None
      else let v = (case res_outcome r of
                      Unsupported _ \<Rightarrow> if row \<in> {65, 66, 67, 68, 70} then Some (Fin 0) else None
                    | Pass \<Rightarrow> if row = 71 \<or> row = 72 then Some (Fin 1) else md_score (res_metadata r)
                    | Fail _ \<Rightarrow> if row = 71 \<or> row = 72 then Some (Fin 0) else md_score (res_metadata r)
                    | _ \<Rightarrow> None)
           in case v of None \<Rightarrow> None
              | Some x \<Rightarrow> if f_is_finite x \<and> f_in (Fin 0) (Fin 1) x then Some x else None)"

definition no_score :: "bool \<Rightarrow> (u8, f64) btree \<Rightarrow> automation_score_evaluation" where
  "no_score provisional components =
     \<lparr>ase_score = None, ase_provisional = provisional, ase_components = components\<rparr>"

definition f_sum :: "f64 list \<Rightarrow> f64" where
  "f_sum xs = foldl f_add (Fin 0) xs"

fun f_clamp :: "rat \<Rightarrow> rat \<Rightarrow> f64 \<Rightarrow> f64" where
  "f_clamp lo hi (Fin x) = Fin (if x < lo then lo else if x > hi then hi else x)"
| "f_clamp lo hi (Inf s) = Fin (if s then hi else lo)"
| "f_clamp lo hi NaN = NaN"

text \<open>The saturating cast \<open>as u8\<close>.\<close>

fun f_as_u8 :: "f64 \<Rightarrow> u8" where
  "f_as_u8 (Fin x) = (if x < 0 then 0 else min 255 (nat \<lfloor>x\<rfloor>))"
| "f_as_u8 (Inf s) = (if s then 255 else 0)"
| "f_as_u8 NaN = 0"

definition rounded_score :: "f64 \<Rightarrow> u8" where
  "rounded_score sum_score =
     f_as_u8 (f_clamp 0 100 (f_floor (f_add (f_div (f_mul sum_score (Fin 100)) (Fin 8)) (Fin (1/2)))))"

fun automation_loop :: "test_result list \<Rightarrow> u8 list \<Rightarrow> (u8, f64) btree \<Rightarrow> automation_score_evaluation" where
  "automation_loop results [] components =
     \<lparr>ase_score = Some (rounded_score (f_sum (map snd components))), ase_provisional = False,
      ase_components = components\<rparr>"
| "automation_loop results (row # rows) components =
     (case result_for_row results row of
        None \<Rightarrow> no_score True components
      | Some r \<Rightarrow>
         (case component_value row r of
            None \<Rightarrow> no_score False components
          | Some v \<Rightarrow> automation_loop results rows (bt_insert row v components)))"

definition automation_score :: "test_result list \<Rightarrow> automation_score_evaluation" where
  "automation_score results = automation_loop results [65, 66, 67, 68, 69, 70, 71, 72] []"

section \<open>Certification\<close>

definition certification_topology :: "manifest \<Rightarrow> topology_family option" where
  "certification_topology m =
     (case topology_family (cc_topology (m_concurrency m)) of
        None \<Rightarrow> None
      | Some fam \<Rightarrow>
          (if (dl_persistent (m_daemon m), fam) \<in> {(False, TP_PerInvocation), (True, TP_SharedController)}
           then Some fam else None))"

definition optional_unsupported_is_honest :: "manifest \<Rightarrow> test_result \<Rightarrow> bool" where
  "optional_unsupported_is_honest m r =
     (case row_requirement (res_row r) of
        Some (OptionalFacet capability) \<Rightarrow>
          \<not> declared m capability \<and> is_unsupported (res_outcome r)
          \<and> (case capability_for_row m (res_row r) of StUnsupported _ \<Rightarrow> True | _ \<Rightarrow> False)
      | _ \<Rightarrow> False)"

definition row_passes :: "test_result list \<Rightarrow> u8 \<Rightarrow> bool" where
  "row_passes results row =
     (case result_for_row results row of Some r \<Rightarrow> res_outcome r = Pass | None \<Rightarrow> False)"

definition mandatory_passes :: "test_result list \<Rightarrow> manifest \<Rightarrow> bool" where
  "mandatory_passes results m \<longleftrightarrow> certification_topology m \<noteq> None
     \<and> list_all (\<lambda>d. row_passes results (td_row d)) (filter (\<lambda>d. requirement d = Core) tests)"

definition is_optional :: "requirement_kind \<Rightarrow> bool" where
  "is_optional k = (case k of OptionalFacet _ \<Rightarrow> True | _ \<Rightarrow> False)"

definition optional_row_satisfied :: "test_result list \<Rightarrow> manifest \<Rightarrow> test_definition \<Rightarrow> bool" where
  "optional_row_satisfied results m d =
     (case result_for_row results (td_row d) of
        None \<Rightarrow> False
      | Some r \<Rightarrow>
          (case capability_for_row m (td_row d) of
             Supported \<Rightarrow> res_outcome r = Pass
           | StUnsupported _ \<Rightarrow> optional_unsupported_is_honest m r
           | StAbsent _ \<Rightarrow> False))"

definition optional_rows_satisfied :: "test_result list \<Rightarrow> manifest \<Rightarrow> bool" where
  "optional_rows_satisfied results m \<longleftrightarrow>
     list_all (optional_row_satisfied results m) (filter (\<lambda>d. is_optional (requirement d)) tests)"

definition badge_compatible :: "manifest \<Rightarrow> test_result \<Rightarrow> bool" where
  "badge_compatible m r =
     (let req = row_requirement (res_row r) in
      if res_outcome r = Pass
      then req = Some Core \<or> req = Some Informational
           \<or> ((case req of Some k \<Rightarrow> is_optional k | None \<Rightarrow> False)
              \<and> capability_for_row m (res_row r) = Supported)
      else (req = Some Informational \<and> is_fail (res_outcome r))
           \<or> (res_row r = 65 \<and> md_measurement_complete (res_metadata r) \<and> is_unsupported (res_outcome r))
           \<or> optional_unsupported_is_honest m r)"

definition badge_compatible_results :: "test_result list \<Rightarrow> manifest \<Rightarrow> bool" where
  "badge_compatible_results results m \<longleftrightarrow> list_all (badge_compatible m) results"

definition resource_class :: "f64 \<Rightarrow> string" where
  "resource_class marginal_peak_bytes =
     (let peak_mib = f_div marginal_peak_bytes (f_mul (Fin 1024) (Fin 1024))
      in if f_le peak_mib (Fin 32) then ''R32''
         else if f_le peak_mib (Fin 96) then ''R96''
         else if f_le peak_mib (Fin 256) then ''R256''
         else ''R256+'')"

definition facet_shown :: "test_result list \<Rightarrow> manifest \<Rightarrow> topology_family \<Rightarrow> badge_facet \<Rightarrow> bool" where
  "facet_shown results m fam facet \<longleftrightarrow>
     (bf_scope facet = ScopeAll \<or> (bf_scope facet = ScopePerInvocation \<and> fam = TP_PerInvocation))
     \<and> (bf_label facet \<noteq> ''native-delegation'' \<or> row_passes results 56)
     \<and> row_passes results (bf_row facet)
     \<and> (case row_requirement (bf_row facet) of
          Some req \<Rightarrow> req = Core \<or> capability_for_row m (bf_row facet) = Supported
        | None \<Rightarrow> False)"

definition certify ::
    "test_result list \<Rightarrow> manifest \<Rightarrow> string \<Rightarrow> string \<Rightarrow> usize \<Rightarrow> f64 \<Rightarrow> string \<Rightarrow> string \<Rightarrow> badge option" where
  "certify results m os profile parallel_width marginal_bytes latency_class cpu_class =
     (if idn_schema (m_identity m) \<noteq> 2 \<or> parallel_width < 8
         \<or> latency_class \<notin> {''L100'', ''L250'', ''L500'', ''L1000'', ''L1000+''}
         \<or> cpu_class \<notin> {''C10'', ''C50'', ''C250'', ''C250+''}
         \<or> ase_score (automation_score results) = None
         \<or> \<not> mandatory_passes results m
         \<or> \<not> optional_rows_satisfied results m
         \<or> \<not> badge_compatible_results results m
      then None
      else case certification_topology m of
        None \<Rightarrow> None
      | Some fam \<Rightarrow>
         (case ase_score (automation_score results) of
            None \<Rightarrow> None
          | Some score \<Rightarrow> Some
             \<lparr>bd_spec_version = 2, bd_os = os, bd_topology = cc_topology (m_concurrency m),
              bd_profile = profile, bd_parallel_width = parallel_width,
              bd_resource_class = resource_class marginal_bytes, bd_latency_class = latency_class,
              bd_cpu_class = cpu_class, bd_automation_score = score,
              bd_facets = map bf_label (filter (facet_shown results m fam) (sort_key bf_order badge_facets)),
              bd_comparison_scope = ''within-topology-only''\<rparr>))"

section \<open>Exit code and label\<close>

definition counts_as_failure :: "manifest \<Rightarrow> test_result \<Rightarrow> bool" where
  "counts_as_failure m r =
     (case res_outcome r of
        Error _ \<Rightarrow> True
      | Fail _ \<Rightarrow>
          (if res_pillar r = Storage
           then res_id r = ''footprint-curve''
                \<or> (res_id r = ''delete-uninstall-residue''
                   \<and> (case m_storage m of Some c \<Rightarrow> delete_declared c | None \<Rightarrow> False))
           else (case row_requirement (res_row r) of Some k \<Rightarrow> k \<noteq> Informational | None \<Rightarrow> True))
      | _ \<Rightarrow> False)"

definition suite_exit_code :: "test_result list \<Rightarrow> badge option \<Rightarrow> manifest \<Rightarrow> i32" where
  "suite_exit_code results b m = (if list_ex (counts_as_failure m) results then 1 else 0)"

text \<open>The middle dot of the label is U+00B7.\<close>

definition dot :: string where
  "dot = '' '' @ [CHR 0xB7] @ '' ''"

definition badge_label :: "badge \<Rightarrow> string" where
  "badge_label b =
     (if bd_spec_version b = 1 then
        ''Automation Ready v1'' @ dot @ bd_os b @ dot @ bd_topology b @ dot @ ''N''
        @ show_u64 (bd_parallel_width b) @ dot @ bd_resource_class b @ dot @ join ''+'' (bd_facets b)
      else
        ''Automation Ready v2'' @ dot @ bd_os b @ dot @ bd_topology b @ dot @ bd_profile b @ dot @ ''N''
        @ show_u64 (bd_parallel_width b) @ dot @ bd_resource_class b @ dot @ bd_latency_class b @ dot
        @ bd_cpu_class b @ dot @ ''A'' @ show_nat (bd_automation_score b)
        @ (if bd_facets b \<noteq> [] then dot @ join ''+'' (bd_facets b) else []))"

end
