(* ===== verification/Row_Oracles.thy ===== *)
theory Row_Oracles
  imports Capability
begin

text \<open>
  What a passing row means: a declarative reading of the checks, independent of the order in which
  the code evaluates them and of its messages, and its equivalence with the row oracles.
\<close>

section \<open>Checks as predicates on observations\<close>

fun check_holds :: "observation_set \<Rightarrow> check \<Rightarrow> bool" where
  "check_holds s (CheckBool name expected) = (bt_get (os_values s) name = Some (EvBool expected))"
| "check_holds s (U64Equal name v) = (bt_get (os_values s) name = Some (EvU64 v))"
| "check_holds s (U64Min name v) = (\<exists>a \<ge> v. bt_get (os_values s) name = Some (EvU64 a))"
| "check_holds s (U64Max name v) = (\<exists>a \<le> v. bt_get (os_values s) name = Some (EvU64 a))"
| "check_holds s (F64Min name v) =
     (\<exists>a. bt_get (os_values s) name = Some (EvF64 a) \<and> f_is_finite a \<and> f_le v a)"
| "check_holds s (F64Max name v) =
     (\<exists>a. bt_get (os_values s) name = Some (EvF64 a) \<and> f_is_finite a \<and> f_le a v)"

fun check_name :: "check \<Rightarrow> string" where
  "check_name (CheckBool name _) = name"
| "check_name (U64Equal name _) = name"
| "check_name (U64Min name _) = name"
| "check_name (U64Max name _) = name"
| "check_name (F64Min name _) = name"
| "check_name (F64Max name _) = name"

lemma numeric_u64_Inr: "numeric_u64 d s name = Inr v \<longleftrightarrow> bt_get (os_values s) name = Some (EvU64 v)"
  by (auto simp: numeric_u64_def split: option.splits evidence_value.splits)

lemma numeric_f64_Inr: "numeric_f64 d s name = Inr v \<longleftrightarrow>
    bt_get (os_values s) name = Some (EvF64 v) \<and> f_is_finite v"
  by (auto simp: numeric_f64_def split: option.splits evidence_value.splits)

lemma bool_value_Inr: "bool_value d s name = Inr v \<longleftrightarrow> bt_get (os_values s) name = Some (EvBool v)"
  by (auto simp: bool_value_def split: option.splits evidence_value.splits)

lemmas reads_Inr = numeric_u64_Inr numeric_f64_Inr bool_value_Inr

lemma check_evaluate_iff: "check_evaluate d s c = Inr () \<longleftrightarrow> check_holds s c"
  by (cases c) (auto simp: and_then_Inr_iff reads_Inr predicate_def float_predicate_def
      split: option.splits if_splits)

lemma errors_of_Nil: "errors_of rs = [] \<longleftrightarrow> (\<forall>r \<in> set rs. is_ok r)"
  by (induction rs rule: errors_of.induct) (auto simp: is_ok_def)

lemma check_holds_name: "check_holds s c \<Longrightarrow> bt_get (os_values s) (check_name c) \<noteq> None"
  by (cases c) auto

lemma row_checks_rows: "row_checks row \<noteq> [] \<longleftrightarrow> 1 \<le> row \<and> row \<le> 41"
proof -
  let ?t = "checks_1_19 @ checks_20_30 @ checks_31_41"
  have dom: "map fst ?t = [1..<42]"
    by (simp add: checks_1_19_def checks_20_30_def checks_31_41_def upt_rec)
  have ne: "\<forall>(r, cs) \<in> set ?t. cs \<noteq> []"
    by (simp add: checks_1_19_def checks_20_30_def checks_31_41_def)
  show ?thesis
  proof (cases "map_of ?t row")
    case None
    then have "row \<notin> set (map fst ?t)" by (simp only: map_of_eq_None_iff set_map not_False_eq_True)
    then have "row \<notin> set [1..<42]" unfolding dom .
    moreover have "row_checks row = []" unfolding row_checks_def None by simp
    ultimately show ?thesis by auto
  next
    case (Some cs)
    then have mem: "(row, cs) \<in> set ?t" by (rule map_of_SomeD)
    then have "row \<in> set (map fst ?t)" by force
    then have "row \<in> set [1..<42]" unfolding dom .
    moreover have "row_checks row = cs" unfolding row_checks_def Some by simp
    moreover have "cs \<noteq> []" using ne mem by blast
    ultimately show ?thesis by auto
  qed
qed

lemma exact_assertion_iff:
  assumes "\<not> (65 \<le> row \<and> row \<le> 73)"
  shows "as_passed (exact_assertion d row s) \<longleftrightarrow>
    1 \<le> row \<and> row \<le> 41 \<and> (\<forall>c \<in> set (row_checks row). check_holds s c)"
  using assms row_checks_rows [of row]
  by (auto simp: exact_assertion_def Let_def errors_of_Nil is_ok_iff check_evaluate_iff)

section \<open>The oracles of rows 65 to 73\<close>

lemma and_chain_True: "and_chain rs = Inr True \<longleftrightarrow> (\<forall>r \<in> set rs. r = Inr True)"
  by (induction rs rule: and_chain.induct) auto

lemma test_ok_True: "test_ok P r = Inr True \<longleftrightarrow> (\<exists>x. r = Inr x \<and> P x)"
  by (cases r) (auto simp: test_ok_def)

lemma ok_Some: "ok r = Some x \<longleftrightarrow> r = Inr x"
  by (cases r) auto

abbreviation observed :: "observation_set \<Rightarrow> string \<Rightarrow> evidence_value \<Rightarrow> bool" where
  "observed s name v \<equiv> bt_get (os_values s) name = Some v"

lemma wave4_exact_assertion_iff:
  "65 \<le> row \<Longrightarrow> row \<le> 73 \<Longrightarrow>
    as_passed (exact_assertion d row s) \<longleftrightarrow> wave4_passes d row s = Inr True"
  by (auto simp: exact_assertion_def wave4_exact_assertion_def split: sum.splits bool.splits)

lemma budget_passes_iff:
  "wave4_budget_passes d s = Inr True \<longleftrightarrow>
    (\<exists>n. observed s ''repetitions'' (EvU64 n) \<and> n > 0
       \<and> observed s ''structured_failures'' (EvU64 (saturating_mul n 3)))
    \<and> observed s ''score'' (EvF64 (Fin 1)) \<and> observed s ''case_kinds_passed'' (EvU64 3)
    \<and> observed s ''overrun_count'' (EvU64 0)
    \<and> observed s ''token_boundary_exact'' (EvBool True) \<and> observed s ''cost_boundary_exact'' (EvBool True)
    \<and> observed s ''time_boundary_exact'' (EvBool True) \<and> observed s ''outer_kill'' (EvBool False)"
proof -
  have one: "f_eq x (Fin 1) \<longleftrightarrow> x = Fin 1" for x by (cases x) auto
  show ?thesis
    unfolding wave4_budget_passes_def and_then_Inr_iff and_chain_True
    by (auto simp: test_ok_True reads_Inr one)
qed

lemma event_stream_passes_D:
  assumes "wave4_event_stream_passes d s = Inr True"
  shows "observed s ''tool_call_id'' (EvU64 1)" "observed s ''correlated_result'' (EvU64 1)"
    "observed s ''terminal_typing'' (EvU64 1)" "observed s ''narrative_reconstructability'' (EvU64 1)"
  using assms
  by (auto simp: wave4_event_stream_passes_def and_then_Inr_iff event_stream_names_def reads_Inr
      test_ok_def event_stream_reference_envelope_def Let_def)

section \<open>When a row passes\<close>

lemma res_outcome_set_score [simp]: "res_outcome (set_score r x) = res_outcome r"
  by (simp add: set_score_def)

lemma res_row_set_score [simp]: "res_row (set_score r x) = res_row r"
  by (simp add: set_score_def)

lemma unsupported_result_outcome:
  "c \<noteq> Supported \<Longrightarrow> is_unsupported (res_outcome (unsupported_result df c)) = (\<exists>s. c = StUnsupported s)"
  "c \<noteq> Supported \<Longrightarrow> is_absent (res_outcome (unsupported_result df c)) = (\<exists>s. c = StAbsent s)"
  "res_row (unsupported_result df c) = td_row df"
  by (cases c; auto simp: unsupported_result_def Let_def outcome_simps)+

lemma evaluate_row_res_row: "res_row (evaluate_row d m row ev) = row"
  by (auto simp: evaluate_row_def unknown_row_result_def Let_def unsupported_result_outcome
      find_definition_Some split: option.splits)

lemma evaluate_row_Pass_iff:
  "res_outcome (evaluate_row d m row ev) = Pass \<longleftrightarrow>
     1 \<le> row \<and> row \<le> 73 \<and> capability_for_row m row = Supported
     \<and> (\<exists>e. ev = Some e \<and> evidence_row e = row \<and> as_passed (exact_assertion d row (observations e)))"
proof (cases "find_definition row")
  case None
  then show ?thesis using find_definition_None [of row]
    by (auto simp: evaluate_row_def unknown_row_result_def)
next
  case (Some df)
  then have row: "1 \<le> row" "row \<le> 73" using find_definition_None [of row] by auto
  have "res_outcome (unsupported_result df c) \<noteq> Pass" if "c \<noteq> Supported" for c
    using that by (cases c) (auto simp: unsupported_result_def Let_def outcome_simps)
  with Some row show ?thesis
    by (auto simp: evaluate_row_def Let_def classify_Pass_iff split: option.splits)
qed

lemma evaluate_row_Unsupported:
  assumes "find_definition row = Some df" "capability_for_row m row = StUnsupported reason"
  shows "is_unsupported (res_outcome (evaluate_row d m row ev))"
  using assms by (simp add: evaluate_row_def Let_def unsupported_result_outcome)

lemma evaluate_row_Absent:
  assumes "find_definition row = Some df" "capability_for_row m row = StAbsent reason"
  shows "is_absent (res_outcome (evaluate_row d m row ev))"
  using assms by (simp add: evaluate_row_def Let_def unsupported_result_outcome)

section \<open>Optional facets\<close>

lemma optional_facet_rows:
  "row_requirement row = Some (OptionalFacet key) \<Longrightarrow>
    (row, key) \<in> {(4, ''parallel_tool_execution''), (18, ''native_delegation''), (56, ''native_delegation''),
      (31, ''steer''), (32, ''pre_tool_intervention''), (33, ''queue''), (39, ''hooks''),
      (66, ''budget_enforcement''), (67, ''usage_reporting''), (68, ''session_ops_cli''),
      (70, ''headless_permission_model'')}"
  by (auto simp: row_requirement_def find_definition_Some requirement_def optional_facets_def
      split: if_splits)

lemma row_capability_key_optional:
  "row_requirement row = Some (OptionalFacet key) \<Longrightarrow> row_capability_key row = Some key"
  by (simp add: row_capability_key_def)

lemma wave4_optional_undeclared:
  "row \<in> {66, 67, 68, 70} \<Longrightarrow> row_requirement row = Some (OptionalFacet key) \<Longrightarrow> \<not> declared m key \<Longrightarrow>
    \<exists>reason. wave4_capability_for_row m row = Some (StUnsupported reason)"
  using optional_facet_rows [of row key]
  by (elim insertE emptyE) (simp_all add: wave4_capability_for_row_def optional_wave4_capability_def)

lemma wave4_capability_None: "row < 65 \<Longrightarrow> wave4_capability_for_row m row = None"
  by (simp add: wave4_capability_for_row_def)

lemma keyed_undeclared:
  "row \<notin> {51, 52, 53} \<Longrightarrow> \<not> declared m key \<Longrightarrow> \<exists>reason. keyed_capability m row key = Some (StUnsupported reason)"
  by (simp add: keyed_capability_def)

lemma undeclared_optional_unsupported:
  assumes "row_requirement row = Some (OptionalFacet key)" "\<not> declared m key"
  shows "\<exists>reason. capability_for_row m row = StUnsupported reason"
proof (cases "row \<in> {66, 67, 68, 70}")
  case True
  with wave4_optional_undeclared [OF this assms] show ?thesis by (auto simp: capability_for_row_def)
next
  case False
  then have r: "row < 65" "row \<notin> {51, 52, 53}" using optional_facet_rows [OF assms(1)] by auto
  from keyed_undeclared [OF r(2) assms(2)] obtain reason
    where "keyed_capability m row key = Some (StUnsupported reason)" by blast
  then show ?thesis
    by (simp add: capability_for_row_def wave4_capability_None [OF r(1)]
        row_capability_key_optional [OF assms(1)])
qed

end
