(* ===== verification/Example_Manifest.thy ===== *)
theory Example_Manifest
  imports Manifest
begin

text \<open>
  A concrete adapter manifest at which the witnesses evaluate: an exec transport whose processes are
  per invocation, with a replayable journal and no optional capability declared.
\<close>

definition plain_identity :: identity where
  "plain_identity = \<lparr>idn_schema = 2, idn_id = ''mock'', idn_name = [], idn_revision =
    []\<rparr>"

definition plain_availability :: availability where
  "plain_availability = \<lparr>av_exec_paths = [], av_required_exec_paths = [], av_version_probe =
    [], av_version_pattern = []\<rparr>"

definition plain_fake_model_binding :: fake_model_binding where
  "plain_fake_model_binding = \<lparr>fmb_dialect = PD_OpenAiChatCompletions, fmb_base_url_env = [],
    fmb_credential_env = [], fmb_auth_required = False, fmb_model = [], fmb_allowed_paths = [],
    fmb_provider_templates = []\<rparr>"

definition plain_isolation :: isolation where
  "plain_isolation = \<lparr>iso_roots = [], iso_environment = [], iso_generated_files = [],
    iso_forbidden_roots = [], iso_socket_path_suffixes = []\<rparr>"

definition plain_daemon_lifecycle :: daemon_lifecycle where
  "plain_daemon_lifecycle = \<lparr>dl_persistent = False, dl_start = [], dl_launcher_exits = False,
    dl_initialize = [], dl_readiness = \<lparr>pr_kind = [], pr_target = [], pr_command = [],
    pr_json_pointer_roots = [], pr_pid_pointer = [], pr_ready_pointer = [], pr_timeout_ms = 0\<rparr>,
    dl_pid_locator = [], dl_shutdown = [], dl_shutdown_result = \<lparr>sr_outcome_pointer = [],
    sr_clean_outcomes = [], sr_escalate_outcomes = []\<rparr>, dl_grace_ms = 0, dl_idle_linger_ms =
    None\<rparr>"

definition plain_transport_config :: transport_config where
  "plain_transport_config = \<lparr>tr_kind = TK_Exec, tr_command = [''mock''], tr_endpoint = [],
    tr_timeout_ms = 0\<rparr>"

definition plain_session_ops :: session_ops where
  "plain_session_ops = \<lparr>so_create = [], so_submit = [], so_attach = [], so_resume =
    [''mock'', ''resume''], so_continue_turn = [], so_resume_control = [], so_recover_probe = [],
    so_close_delete = [], so_store_paths = [], so_list = [], so_fork = [], so_delete = [], so_wait_ready
    = [], so_id_pointer = [], so_run_id_pointer = [], so_fork_id_pointer = [], so_list_array_pointer =
    [], so_list_item_id_pointer = [], so_delete_missing_semantics = None, so_not_found_pointer = [],
    so_not_found_value = []\<rparr>"

definition plain_next_input_ops :: next_input_ops where
  "plain_next_input_ops = \<lparr>ni_steer = [], ni_subturn = [], ni_queue = []\<rparr>"

definition plain_input_config :: input_config where
  "plain_input_config = \<lparr>inp_prompt_uses_stdin = None\<rparr>"

definition plain_agent_ops :: agent_ops where
  "plain_agent_ops = \<lparr>ag_create = [], ag_spawn = [], ag_status = [], ag_cancel = [],
    ag_collect = [], ag_child_id_pointer = [], ag_status_result_pointer = [], ag_collect_events_pointer
    = []\<rparr>"

definition plain_concurrency :: concurrency where
  "plain_concurrency = \<lparr>cc_topology = ''client-process-fanout'', cc_max_agents = Some 8,
    cc_fanout_mode = ''spawn'', cc_barrier_evidence = [], cc_release = [''mock'', ''release'']\<rparr>"

definition plain_tool_semantics :: tool_semantics where
  "plain_tool_semantics = \<lparr>ts_aliases = [], ts_bindings = [], ts_fixtures = []\<rparr>"

definition plain_event_mapping :: event_mapping where
  "plain_event_mapping = \<lparr>em_source = ''journal-file'', em_path = ''journal.jsonl'',
    em_framing = ''jsonl'', em_type_pointer = [], em_id_pointer = [], em_cursor_pointer = ''/cursor'',
    em_schema_version_pointer = [], em_schema_versions = [], em_warn_unmapped_payload_kinds = False,
    em_replay_command = [''mock'', ''replay''], em_replay_mode = [], em_replay_records_pointer = [],
    em_replay_assertions = [], em_replay_state_command = [], em_replay_state_assertions = [],
    em_replay_state_pointers = [], em_replay_compare_live_records = False, em_replay_envelope_pointer =
    [], em_replay_cursor_start = None, em_rules = [], em_metadata = None, em_narrative = None,
    em_compaction = None, em_torn_tail = None\<rparr>"

definition plain_exit_contract :: exit_contract where
  "plain_exit_contract = \<lparr>ex_success = 0, ex_success_stdout = [], ex_failure_stdout = [],
    ex_failures = []\<rparr>"

definition plain_process_ownership :: process_ownership where
  "plain_process_ownership = \<lparr>po_pid_files = [], po_executable_names = [],
    po_profile_lock_paths = []\<rparr>"

definition plain_resource_controls :: resource_controls where
  "plain_resource_controls = \<lparr>rc_turn_timeout_ms = 0, rc_idle_timeout_ms = 0,
    rc_max_output_bytes = 0, rc_retry_max_attempts = None, rc_retry_base_delay_ms = None,
    rc_retry_max_delay_ms = None, rc_log_paths = None, rc_journal_paths = None, rc_context_window =
    None, rc_budget_controls = None\<rparr>"

definition plain_economy_config :: economy_config where
  "plain_economy_config = \<lparr>eco_workspace_path = None\<rparr>"

definition plain_fidelity_config :: fidelity_config where
  "plain_fidelity_config = \<lparr>fid_declared_turn_ceiling = None, fid_internal_cap_exit_codes =
    [], fid_workspace_path = None\<rparr>"

definition plain_hooks :: hooks where
  "plain_hooks = \<lparr>hk_acceptance = [], hk_completion = []\<rparr>"

definition plain_cleanup :: cleanup where
  "plain_cleanup = \<lparr>cl_command = [], cl_paths = []\<rparr>"

definition plain_capture_policy :: capture_policy where
  "plain_capture_policy = \<lparr>cap_redact_env = [], cap_allow_credential_argv = False,
    cap_max_bytes = 0, cap_truncation_marker = None, cap_credential_carrier_paths = None\<rparr>"

definition plain_capabilities :: capabilities where
  "plain_capabilities = \<lparr>cb_required = [], cb_optional = [], cb_injection_surface =
    None\<rparr>"

definition plain_manifest :: manifest where
  "plain_manifest = \<lparr>m_identity = plain_identity, m_availability = plain_availability,
    m_fake_model = plain_fake_model_binding, m_model_roles = [], m_request_role_rules = [], m_isolation
    = plain_isolation, m_daemon = plain_daemon_lifecycle, m_transport = plain_transport_config,
    m_sessions = plain_session_ops, m_next_input = plain_next_input_ops, m_input = plain_input_config,
    m_agents = plain_agent_ops, m_concurrency = plain_concurrency, m_tools = plain_tool_semantics,
    m_events = plain_event_mapping, m_exit = plain_exit_contract, m_process = plain_process_ownership,
    m_resources = plain_resource_controls, m_economy = plain_economy_config, m_fidelity =
    plain_fidelity_config, m_storage = None, m_hooks = plain_hooks, m_cleanup = plain_cleanup, m_capture
    = plain_capture_policy, m_permissions = None, m_capabilities = plain_capabilities\<rparr>"

lemmas plain_manifest_defs = plain_manifest_def plain_concurrency_def plain_capabilities_def
  plain_daemon_lifecycle_def plain_transport_config_def plain_identity_def plain_session_ops_def
  plain_event_mapping_def plain_resource_controls_def plain_agent_ops_def plain_capture_policy_def

end
