(* ===== verification/Certification.thy ===== *)
theory Certification
  imports Certify Row_Oracles Example_Manifest
begin

text \<open>
  What a certified badge and an automation score mean: the conditions behind \<open>certify\<close> read
  back from its result, and the score as a monotone function of its eight components.
\<close>

section \<open>Rows of a certified suite\<close>

lemma certify_SomeD:
  assumes "certify results m os profile w bytes lat cpu = Some b"
  shows "idn_schema (m_identity m) = 2" "8 \<le> w" "mandatory_passes results m"
    "optional_rows_satisfied results m" "badge_compatible_results results m"
    "ase_score (automation_score results) = Some (bd_automation_score b)"
  using assms by (auto simp: certify_def not_less split: if_splits option.splits)

lemma mandatory_core:
  "mandatory_passes results m \<Longrightarrow> row_requirement row = Some Core \<Longrightarrow> row_passes results row"
  by (auto simp: mandatory_passes_def list_all_iff row_requirement_def find_definition_Some)

lemma optional_satisfied:
  assumes "optional_rows_satisfied results m" "row_requirement row = Some (OptionalFacet key)"
  shows "(capability_for_row m row = Supported \<and> row_passes results row) \<or>
    (\<not> declared m key \<and> (\<exists>r. result_for_row results row = Some r \<and> is_unsupported (res_outcome r)))"
proof -
  from assms(2) obtain df where df: "df \<in> set tests" "td_row df = row" "requirement df = OptionalFacet key"
    by (auto simp: row_requirement_def find_definition_Some)
  with assms(1) have "optional_row_satisfied results m df"
    by (auto simp: optional_rows_satisfied_def list_all_iff is_optional_def)
  then obtain r where r: "result_for_row results row = Some r"
    and cap: "case capability_for_row m row of Supported \<Rightarrow> res_outcome r = Pass
       | StUnsupported _ \<Rightarrow> optional_unsupported_is_honest m r | StAbsent _ \<Rightarrow> False"
    by (auto simp: optional_row_satisfied_def df split: option.splits)
  have "res_row r = row" using r by (auto simp: result_for_row_def find_Some_iff)
  with r cap show ?thesis
    using assms(2) by (auto simp: row_passes_def optional_unsupported_is_honest_def
        split: capability_status.splits)
qed

lemma badge_compatible_outcome:
  assumes "badge_compatible m r"
  shows "\<not> is_error (res_outcome r)" "\<not> is_absent (res_outcome r)"
    "is_fail (res_outcome r) \<Longrightarrow> row_requirement (res_row r) = Some Informational"
  using assms
  by (cases "res_outcome r"; auto simp: badge_compatible_def Let_def optional_unsupported_is_honest_def
      split: if_splits option.splits requirement_kind.splits)+

section \<open>The score of the eight components\<close>

definition component :: "test_result list \<Rightarrow> u8 \<Rightarrow> f64 option" where
  "component results row = Option.bind (result_for_row results row) (component_value row)"

lemma component_value_range:
  "component_value row r = Some x \<Longrightarrow> \<exists>q. x = Fin q \<and> 0 \<le> q \<and> q \<le> 1"
  by (cases x) (auto simp: component_value_def Let_def f_in_def split: if_splits option.splits)

lemma component_range: "component results row = Some x \<Longrightarrow> \<exists>q. x = Fin q \<and> 0 \<le> q \<and> q \<le> 1"
  by (auto simp: component_def bind_eq_Some_conv dest: component_value_range)

lemma bt_insert_last: "\<forall>j \<in> set (map fst m). j < k \<Longrightarrow> bt_insert k v m = m @ [(k, v)]"
  by (induction k v m rule: bt_insert.induct) auto

lemma automation_loop_score:
  "sorted_wrt (<) (map fst comps @ rows) \<Longrightarrow>
    ase_score (automation_loop results rows comps) = Some n \<longleftrightarrow>
    (\<exists>vs. map (component results) rows = map Some vs \<and> n = rounded_score (f_sum (map snd comps @ vs)))"
proof (induction rows arbitrary: comps)
  case (Cons row rows)
  show ?case
  proof (cases "component results row")
    case None
    then show ?thesis
      by (auto simp: component_def no_score_def split: option.splits bind_splits)
  next
    case (Some v)
    then obtain r where r: "result_for_row results row = Some r" "component_value row r = Some v"
      by (auto simp: component_def bind_eq_Some_conv)
    have ins: "bt_insert row v comps = comps @ [(row, v)]"
      using Cons.prems by (intro bt_insert_last) (auto simp: sorted_wrt_append)
    have "ase_score (automation_loop results rows (comps @ [(row, v)])) = Some n \<longleftrightarrow>
        (\<exists>vs. map (component results) rows = map Some vs
           \<and> n = rounded_score (f_sum (map snd (comps @ [(row, v)]) @ vs)))"
      using Cons.prems by (intro Cons.IH) simp
    then show ?thesis using Some r ins by (auto simp: map_eq_Cons_conv Cons_eq_map_conv)
  qed
qed (auto simp: f_sum_def)

definition component_rows :: "u8 list" where
  "component_rows = [65, 66, 67, 68, 69, 70, 71, 72]"

lemma automation_score_Some:
  "ase_score (automation_score results) = Some n \<longleftrightarrow>
    (\<exists>vs. map (component results) component_rows = map Some vs \<and> n = rounded_score (f_sum vs))"
  unfolding automation_score_def component_rows_def
  by (subst automation_loop_score) simp_all

lemma foldl_f_add_mono:
  "list_all2 f_le xs ys \<Longrightarrow> \<forall>x \<in> set xs. f_is_finite x \<Longrightarrow> \<forall>y \<in> set ys. f_is_finite y \<Longrightarrow> f_le a b \<Longrightarrow>
    f_le (foldl f_add a xs) (foldl f_add b ys)"
proof (induction xs ys arbitrary: a b rule: list_all2_induct)
  case (Cons x xs y ys)
  obtain p q where pq: "x = Fin p" "y = Fin q"
    using Cons.prems by (cases x; cases y) auto
  have "f_le (f_add a x) (f_add b y)"
    using Cons.prems(3) Cons.hyps(1) f_le_not_NaN [OF Cons.prems(3)]
    unfolding pq by (intro f_add_mono) (simp_all add: f_add_Fin_not_NaN)
  with Cons show ?case by simp
qed simp

lemma f_as_u8_mono: "f_le x y \<Longrightarrow> f_as_u8 x \<le> f_as_u8 y"
  by (cases x; cases y) (auto simp: min_def intro: nat_mono floor_mono dest: floor_mono)

lemma f_clamp_mono: "lo \<le> hi \<Longrightarrow> f_le x y \<Longrightarrow> f_le (f_clamp lo hi x) (f_clamp lo hi y)"
  by (cases x; cases y) auto

lemma rounded_score_mono: "f_le x y \<Longrightarrow> rounded_score x \<le> rounded_score y"
proof -
  assume "f_le x y"
  then have le: "f_le (f_div (f_mul x (Fin 100)) (Fin 8)) (f_div (f_mul y (Fin 100)) (Fin 8))"
    by (intro f_div_pos_mono f_mul_pos_mono) simp_all
  note nn = f_le_not_NaN [OF le]
  have "f_le (f_add (f_div (f_mul x (Fin 100)) (Fin 8)) (Fin (1/2)))
             (f_add (f_div (f_mul y (Fin 100)) (Fin 8)) (Fin (1/2)))"
    using le nn by (intro f_add_mono f_add_Fin_not_NaN) simp_all
  then show ?thesis
    unfolding rounded_score_def by (intro f_as_u8_mono f_clamp_mono f_floor_mono) simp_all
qed

lemma rounded_score_le: "rounded_score x \<le> 100"
proof -
  have "f_as_u8 (f_clamp 0 100 y) \<le> 100" for y
    by (cases y) (auto simp: min_le_iff_disj nat_le_iff floor_le_iff not_less intro: order_trans)
  then show ?thesis by (simp add: rounded_score_def)
qed

lemma rounded_score_ends:
  "rounded_score (f_sum [Fin 0, Fin 0, Fin 0, Fin 0, Fin 0, Fin 0, Fin 0, Fin 0]) = 0"
  "rounded_score (f_sum [Fin 1, Fin 1, Fin 1, Fin 1, Fin 1, Fin 1, Fin 1, Fin 1]) = 100"
  "rounded_score (f_sum [Fin (1/2), Fin (1/2), Fin (1/2), Fin (1/2), Fin (1/2), Fin (1/2), Fin 1, Fin 1]) = 63"
  by (simp_all add: rounded_score_def f_sum_def)

section \<open>A suite that certifies\<close>

text \<open>Every row passes except the optional ones, which the plain manifest does not declare.\<close>

definition sample_outcome :: "u8 \<Rightarrow> test_outcome" where
  "sample_outcome row = (case row_requirement row of
     Some (OptionalFacet key) \<Rightarrow> Unsupported ''undeclared'' | _ \<Rightarrow> Pass)"

definition sample_result :: "u8 \<Rightarrow> test_result" where
  "sample_result row = \<lparr>res_row = row, res_id = [], res_pillar = Functionality,
     res_outcome = sample_outcome row, res_evidence = [],
     res_metadata = (for_row row (sample_outcome row))\<lparr>md_score := Some (Fin 1)\<rparr>\<rparr>"

definition sample_suite :: "test_result list" where
  "sample_suite = map sample_result [1..<74]"

lemma undeclared_plain [simp]: "\<not> declared plain_manifest key"
  by (simp add: declared_def plain_manifest_defs bt_contains_def)

lemma result_for_row_sample: "1 \<le> row \<Longrightarrow> row \<le> 73 \<Longrightarrow> result_for_row sample_suite row = Some (sample_result row)"
proof -
  assume "1 \<le> row" "row \<le> 73"
  then have "sample_result row \<in> set sample_suite" by (auto simp: sample_suite_def)
  moreover have "map res_row sample_suite = [1..<74]" by (simp add: sample_suite_def sample_result_def comp_def)
  ultimately have "find (\<lambda>r. res_row r = res_row (sample_result row)) sample_suite = Some (sample_result row)"
    by (intro find_distinct_Some) simp_all
  then show ?thesis by (simp add: result_for_row_def sample_result_def)
qed

lemma row_requirement_range: "row_requirement row = Some k \<Longrightarrow> 1 \<le> row \<and> row \<le> 73"
  using find_definition_None [of row] by (auto simp: row_requirement_def)

lemma row_requirement_test: "df \<in> set tests \<Longrightarrow> row_requirement (td_row df) = Some (requirement df)"
  by (simp add: row_requirement_def find_definition_eq)

lemma sample_mandatory: "mandatory_passes sample_suite plain_manifest"
proof -
  have "certification_topology plain_manifest \<noteq> None"
    by (simp add: certification_topology_def plain_manifest_defs topology_family_def)
  moreover have "row_passes sample_suite (td_row df)" if "df \<in> set tests" "requirement df = Core" for df
    using that row_requirement_test [of df] row_requirement_range [of "td_row df"]
    by (auto simp: row_passes_def result_for_row_sample sample_result_def sample_outcome_def)
  ultimately show ?thesis by (simp add: mandatory_passes_def list_all_iff)
qed

lemma sample_honest:
  "row_requirement row = Some (OptionalFacet key) \<Longrightarrow>
    optional_unsupported_is_honest plain_manifest (sample_result row)"
  using undeclared_optional_unsupported [of row key plain_manifest]
  by (auto simp: optional_unsupported_is_honest_def sample_result_def sample_outcome_def)

lemma sample_optional: "optional_rows_satisfied sample_suite plain_manifest"
proof -
  have "optional_row_satisfied sample_suite plain_manifest df"
    if df: "df \<in> set tests" "is_optional (requirement df)" for df
  proof -
    from df(2) obtain key where key: "requirement df = OptionalFacet key"
      by (auto simp: is_optional_def split: requirement_kind.splits)
    with row_requirement_test [OF df(1)] have r: "row_requirement (td_row df) = Some (OptionalFacet key)" by simp
    then show ?thesis
      using undeclared_optional_unsupported [OF r, of plain_manifest] sample_honest [OF r]
        row_requirement_range [OF r]
      by (auto simp: optional_row_satisfied_def result_for_row_sample)
  qed
  then show ?thesis by (simp add: optional_rows_satisfied_def list_all_iff)
qed

lemma sample_compatible: "badge_compatible_results sample_suite plain_manifest"
proof -
  have "badge_compatible plain_manifest (sample_result row)" if range: "1 \<le> row" "row \<le> 73" for row
  proof -
    from row_requirement_eq [OF range] obtain k where k: "row_requirement row = Some k" by blast
    show ?thesis
    proof (cases k)
      case (OptionalFacet key)
      with k sample_honest [of row key] show ?thesis
        by (simp add: badge_compatible_def Let_def sample_result_def sample_outcome_def)
    qed (use k in \<open>auto simp: badge_compatible_def Let_def sample_result_def sample_outcome_def\<close>)
  qed
  then show ?thesis by (auto simp: badge_compatible_results_def list_all_iff sample_suite_def)
qed

lemma sample_requirements:
  "row_requirement 65 = Some Informational" "row_requirement 66 = Some (OptionalFacet ''budget_enforcement'')"
  "row_requirement 67 = Some (OptionalFacet ''usage_reporting'')"
  "row_requirement 68 = Some (OptionalFacet ''session_ops_cli'')" "row_requirement 69 = Some Core"
  "row_requirement 70 = Some (OptionalFacet ''headless_permission_model'')"
  "row_requirement 71 = Some Core" "row_requirement 72 = Some Core"
  by (simp_all add: row_requirement_eq optional_facets_def)

lemma sample_score: "ase_score (automation_score sample_suite) = Some 50"
proof -
  have "map (component sample_suite) component_rows =
      map Some [Fin 1, Fin 0, Fin 0, Fin 0, Fin 1, Fin 0, Fin 1, Fin 1]"
    by (simp add: component_rows_def component_def result_for_row_sample component_value_def
        sample_result_def sample_outcome_def sample_requirements for_row_complete f_in_def)
  moreover have "rounded_score (f_sum [Fin 1, Fin 0, Fin 0, Fin 0, Fin 1, Fin 0, Fin 1, Fin 1]) = 50"
    by (simp add: rounded_score_def f_sum_def)
  ultimately show ?thesis unfolding automation_score_Some by metis
qed

definition sample_badge :: "badge option" where
  "sample_badge = certify sample_suite plain_manifest ''linux'' ''cert'' 8 (Fin 1048576) ''L100'' ''C10''"

lemma sample_certifies: "\<exists>b. sample_badge = Some b"
proof -
  have "certification_topology plain_manifest = Some TP_PerInvocation"
    by (simp add: certification_topology_def plain_manifest_defs topology_family_def)
  moreover have "idn_schema (m_identity plain_manifest) = 2" by (simp add: plain_manifest_defs)
  ultimately show ?thesis
    using sample_mandatory sample_optional sample_compatible sample_score
    by (simp add: sample_badge_def certify_def)
qed

end
