(* ===== verification/Certification_Properties.thy ===== *)
theory Certification_Properties
  imports Certification
begin

text \<open>
  The properties of row evaluation, certification and the automation score, each with a witness at
  the sample suite or at a concrete row.
\<close>

text \<open>A rendering of \<open>Debug\<close> output, for the witnesses.\<close>

definition plain_debug :: debug_fmt where
  "plain_debug = \<lparr>dbg_evidence = (\<lambda>_. ''value''), dbg_f64_result = (\<lambda>_. ''f64''),
     dbg_u64_result = (\<lambda>_. ''u64'')\<rparr>"

section \<open>Certification\<close>

text \<open>C1: a certified badge is never issued unless every core row passed, every optional row passed
  with a declared capability or is an honest unsupported row of an undeclared one, no row ended in an
  error, an absence or a non-informational failure, the manifest has schema 2 and the width is at
  least 8.\<close>

theorem certified_badge_is_earned:
  assumes "certify results m os profile w bytes lat cpu = Some b"
  shows "idn_schema (m_identity m) = 2 \<and> 8 \<le> w \<and>
    (\<forall>row. row_requirement row = Some Core \<longrightarrow> row_passes results row) \<and>
    (\<forall>row key. row_requirement row = Some (OptionalFacet key) \<longrightarrow>
       (capability_for_row m row = Supported \<and> row_passes results row) \<or>
       (\<not> declared m key \<and> (\<exists>r. result_for_row results row = Some r \<and> is_unsupported (res_outcome r)))) \<and>
    (\<forall>r \<in> set results. \<not> is_error (res_outcome r) \<and> \<not> is_absent (res_outcome r) \<and>
       (is_fail (res_outcome r) \<longrightarrow> row_requirement (res_row r) = Some Informational))"
proof -
  note c = certify_SomeD [OF assms]
  have "\<forall>r \<in> set results. badge_compatible m r"
    using c(5) by (simp add: badge_compatible_results_def list_all_iff)
  then show ?thesis
    using c(1,2) mandatory_core [OF c(3)] optional_satisfied [OF c(4)] badge_compatible_outcome by blast
qed

theorem certified_badge_is_earned_witness:
  "\<exists>b. sample_badge = Some b \<and> (\<forall>row. row_requirement row = Some Core \<longrightarrow> row_passes sample_suite row)"
proof -
  obtain b where b: "sample_badge = Some b" using sample_certifies by blast
  then show ?thesis using certified_badge_is_earned unfolding sample_badge_def by blast
qed

text \<open>C9: a certified badge rests on evidence: where a core row between 1 and 41 holds the result of
  \<open>evaluate_row\<close>, typed evidence for exactly that row was given and every criterion of the
  row's table holds of it.\<close>

theorem certified_rows_rest_on_evidence:
  assumes "certify results m os profile w bytes lat cpu = Some b"
    and "row_requirement row = Some Core" and "row \<le> 41"
    and "result_for_row results row = Some (evaluate_row d m row ev)"
  shows "\<exists>e. ev = Some e \<and> evidence_row e = row \<and> row_checks row \<noteq> [] \<and>
    (\<forall>c \<in> set (row_checks row). check_holds (observations e) c)"
proof -
  have "row_passes results row"
    using mandatory_core [OF certify_SomeD(3) [OF assms(1)] assms(2)] .
  then have "res_outcome (evaluate_row d m row ev) = Pass" using assms(4) by (simp add: row_passes_def)
  then show ?thesis using assms(3) row_checks_rows [of row]
    by (auto simp: evaluate_row_Pass_iff exact_assertion_iff)
qed

definition routing_evidence :: row_evidence where
  "routing_evidence = Routing \<lparr>os_values =
     [(''all_roles_observed'', EvBool True), (''exact_tuple'', EvBool True),
      (''unexpected_egress'', EvBool False), (''credential_redacted'', EvBool True)]\<rparr>"

definition routed_result :: "debug_fmt \<Rightarrow> test_result" where
  "routed_result d = evaluate_row d plain_manifest 1 (Some routing_evidence)"

definition routed_suite :: "debug_fmt \<Rightarrow> test_result list" where
  "routed_suite d = routed_result d # sample_suite"

lemma row_checks_one:
  "row_checks 1 = [bt ''all_roles_observed'', bt ''exact_tuple'', bf ''unexpected_egress'', bt ''credential_redacted'']"
  by (simp add: row_checks_def checks_1_19_def)

lemma routing_supported: "capability_for_row plain_manifest 1 = Supported"
  by (simp add: capability_for_row_def wave4_capability_for_row_def basic_session_surface_def
      row_capability_key_def row_requirement_eq optional_facets_def surface_conditions_def Let_def
      plain_manifest_defs)

lemma routing_criteria: "evidence_row routing_evidence = 1"
  "\<forall>c \<in> set (row_checks 1). check_holds (observations routing_evidence) c"
  by (simp_all add: row_checks_one routing_evidence_def bt_def bf_def del: One_nat_def)

lemma routed_result_props: "res_row (routed_result d) = 1" "res_outcome (routed_result d) = Pass"
  "row_requirement 1 = Some Core"
proof -
  show "res_outcome (routed_result d) = Pass"
    using routing_supported routing_criteria row_checks_one
    by (simp add: routed_result_def evaluate_row_Pass_iff exact_assertion_iff del: One_nat_def)
qed (simp_all add: routed_result_def evaluate_row_res_row row_requirement_eq optional_facets_def)

lemma result_for_row_routed: "result_for_row (routed_suite d) row =
    (if row = 1 then Some (routed_result d) else result_for_row sample_suite row)"
  by (simp add: routed_suite_def result_for_row_def routed_result_props)

lemma routed_certifies:
  "\<exists>b. certify (routed_suite d) plain_manifest ''linux'' ''cert'' 8 (Fin 1048576) ''L100'' ''C10'' = Some b"
proof -
  note [simp] = routed_result_props result_for_row_routed
  have one: "row_passes sample_suite 1"
    by (simp add: row_passes_def result_for_row_sample sample_result_def sample_outcome_def
        row_requirement_eq optional_facets_def del: One_nat_def)
  then have passes: "row_passes (routed_suite d) row = row_passes sample_suite row" for row
    by (simp add: row_passes_def)
  have "optional_row_satisfied (routed_suite d) plain_manifest df
      = optional_row_satisfied sample_suite plain_manifest df"
    if df: "df \<in> set tests" "is_optional (requirement df)" for df
  proof -
    have "td_row df \<noteq> 1"
    proof
      assume "td_row df = 1"
      with row_requirement_test [OF df(1)] routed_result_props(3) have "requirement df = Core" by simp
      with df(2) show False by (simp add: is_optional_def)
    qed
    then show ?thesis by (simp add: optional_row_satisfied_def)
  qed
  then have "optional_rows_satisfied (routed_suite d) plain_manifest"
    using sample_optional by (simp add: optional_rows_satisfied_def list_all_iff)
  moreover have "mandatory_passes (routed_suite d) plain_manifest"
    using sample_mandatory by (simp add: mandatory_passes_def passes)
  moreover have "badge_compatible plain_manifest (routed_result d)"
    by (simp add: badge_compatible_def Let_def del: One_nat_def)
  then have "badge_compatible_results (routed_suite d) plain_manifest"
    using sample_compatible by (simp add: badge_compatible_results_def routed_suite_def)
  moreover have "map (component (routed_suite d)) component_rows = map (component sample_suite) component_rows"
    by (simp add: component_def component_rows_def)
  then have "ase_score (automation_score (routed_suite d)) = Some 50"
    using sample_score unfolding automation_score_Some by (simp del: map_eq_conv)
  moreover have "certification_topology plain_manifest = Some TP_PerInvocation"
    "idn_schema (m_identity plain_manifest) = 2"
    by (simp_all add: certification_topology_def plain_manifest_defs topology_family_def)
  ultimately show ?thesis by (simp add: certify_def)
qed

theorem certified_rows_rest_on_evidence_witness:
  "\<exists>e. Some routing_evidence = Some e \<and> evidence_row e = 1"
proof -
  let ?d = plain_debug
  obtain b where b: "certify (routed_suite ?d) plain_manifest ''linux'' ''cert'' 8 (Fin 1048576)
      ''L100'' ''C10'' = Some b" using routed_certifies by blast
  have "result_for_row (routed_suite ?d) 1 = Some (evaluate_row ?d plain_manifest 1 (Some routing_evidence))"
    by (simp add: result_for_row_routed routed_result_def)
  from certified_rows_rest_on_evidence [OF b routed_result_props(3) _ this] show ?thesis by auto
qed

text \<open>A badge and the process status agree: when a suite of matrix results certifies, the exit code
  is zero.\<close>

theorem certified_suite_exits_zero:
  assumes "certify results m os profile w bytes lat cpu = Some b"
    and "\<forall>r \<in> set results. res_pillar r \<noteq> Storage"
  shows "suite_exit_code results (Some b) m = 0"
proof -
  have "\<not> counts_as_failure m r" if "r \<in> set results" for r
  proof -
    have "badge_compatible m r"
      using certify_SomeD(5) [OF assms(1)] that by (simp add: badge_compatible_results_def list_all_iff)
    from badge_compatible_outcome [OF this] that assms(2) show ?thesis
      by (auto simp: counts_as_failure_def split: test_outcome.splits)
  qed
  then show ?thesis by (auto simp: suite_exit_code_def list_ex_iff)
qed

theorem certified_suite_exits_zero_witness:
  "\<exists>b. sample_badge = Some b \<and> suite_exit_code sample_suite (Some b) plain_manifest = 0"
proof -
  obtain b where b: "sample_badge = Some b" using sample_certifies by blast
  have "\<forall>r \<in> set sample_suite. res_pillar r \<noteq> Storage" by (auto simp: sample_suite_def sample_result_def)
  with b show ?thesis using certified_suite_exits_zero unfolding sample_badge_def by blast
qed

section \<open>Rows\<close>

text \<open>evaluate_row passes a row exactly when the row is in the matrix, the manifest supports it,
  typed evidence for that same row is present, and: for rows 1 to 41 every criterion of the row's
  table holds of the observations; for rows 65 to 73 the row's oracle accepts them; rows 42 to 64 have
  no oracle here and never pass.  Missing or ill-typed observations therefore never pass.\<close>

theorem evaluate_row_passes_iff:
  "res_outcome (evaluate_row d m row ev) = Pass \<longleftrightarrow>
     capability_for_row m row = Supported \<and>
     (\<exists>e. ev = Some e \<and> evidence_row e = row \<and>
       ((1 \<le> row \<and> row \<le> 41 \<and> (\<forall>c \<in> set (row_checks row). check_holds (observations e) c)) \<or>
        (65 \<le> row \<and> row \<le> 73 \<and> wave4_passes d row (observations e) = Inr True)))"
proof (cases "65 \<le> row \<and> row \<le> 73")
  case True
  then show ?thesis by (auto simp: evaluate_row_Pass_iff wave4_exact_assertion_iff)
next
  case False
  then show ?thesis by (auto simp: evaluate_row_Pass_iff exact_assertion_iff)
qed

theorem evaluate_row_passes_iff_witness:
  "res_outcome (evaluate_row plain_debug plain_manifest 1 (Some routing_evidence)) = Pass"
proof (rule evaluate_row_passes_iff [THEN iffD2], intro conjI exI disjI1)
qed (use routing_supported routing_criteria in simp_all)

text \<open>An optional facet the manifest does not declare never blocks certification: whatever the
  evidence, its row is evaluated to an unsupported outcome that satisfies the row and is compatible
  with a badge.\<close>

theorem undeclared_facet_is_honest:
  assumes "row_requirement row = Some (OptionalFacet key)" "\<not> declared m key"
  shows "is_unsupported (res_outcome (evaluate_row d m row ev)) \<and>
    optional_unsupported_is_honest m (evaluate_row d m row ev) \<and>
    badge_compatible m (evaluate_row d m row ev)"
proof -
  obtain df where df: "find_definition row = Some df"
    using assms(1) by (auto simp: row_requirement_def)
  from undeclared_optional_unsupported [OF assms] obtain reason
    where cap: "capability_for_row m row = StUnsupported reason" by blast
  have u: "is_unsupported (res_outcome (evaluate_row d m row ev))"
    by (rule evaluate_row_Unsupported [OF df cap])
  then have h: "optional_unsupported_is_honest m (evaluate_row d m row ev)"
    using assms cap by (simp add: optional_unsupported_is_honest_def evaluate_row_res_row)
  have "res_outcome (evaluate_row d m row ev) \<noteq> Pass" using u by auto
  then have "badge_compatible m (evaluate_row d m row ev)" using h by (simp add: badge_compatible_def)
  with u h show ?thesis by blast
qed

theorem undeclared_facet_is_honest_witness:
  "badge_compatible plain_manifest (evaluate_row plain_debug plain_manifest 66 None)"
  using undeclared_facet_is_honest [of 66 "''budget_enforcement''" plain_manifest plain_debug None]
  by (simp add: sample_requirements)

text \<open>The rows whose Wave-4 capability a manifest declares by a key, and what each of them needs beside the key:
  budget controls, an event metadata mapping, the five session operations, permission rules, and for all of them
  a way to run a session.\<close>

definition wave4_facets :: "(u8 \<times> string) set" where
  "wave4_facets = {(66, ''budget_enforcement''), (67, ''usage_reporting''), (68, ''session_ops_cli''),
     (70, ''headless_permission_model'')}"

definition facet_surface_missing :: "manifest \<Rightarrow> u8 \<Rightarrow> bool" where
  "facet_surface_missing m row \<longleftrightarrow>
     (row = 66 \<and> rc_budget_controls (m_resources m) = None)
     \<or> (row = 67 \<and> em_metadata (m_events m) = None)
     \<or> (row = 68 \<and> (so_create (m_sessions m) = [] \<or> so_list (m_sessions m) = [] \<or> so_resume (m_sessions m) = []
          \<or> so_fork (m_sessions m) = [] \<or> so_delete (m_sessions m) = []))
     \<or> (row = 70 \<and> m_permissions m = None)
     \<or> (tr_kind (m_transport m) \<noteq> TK_Exec
          \<and> (so_create (m_sessions m) = [] \<or> so_submit (m_sessions m) = [] \<or> so_attach (m_sessions m) = []))"

lemma bt_get_None_iff: "bt_get m k = None \<longleftrightarrow> k \<notin> fst ` set m"
  by (induction m k rule: bt_get.induct) auto

lemma declared_iff: "declared m key \<longleftrightarrow> key \<in> fst ` (set (cb_required (m_capabilities m)) \<union> set (cb_optional (m_capabilities m)))"
  by (auto simp: declared_def bt_contains_def bt_get_None_iff)

lemma facet_absent:
  assumes "(row, key) \<in> wave4_facets" "declared m key" "facet_surface_missing m row"
  shows "\<exists>reason. capability_for_row m row = StAbsent reason"
proof -
  have "capability_for_row m row = optional_wave4_capability m key False \<or> \<not> basic_session_surface m
      \<and> (\<exists>b. capability_for_row m row = optional_wave4_capability m key b)"
    using assms(1,3) by (simp only: wave4_facets_def, elim insertE emptyE)
      (auto simp: facet_surface_missing_def capability_for_row_def wave4_capability_for_row_def basic_session_surface_def)
  then show ?thesis using assms(2) by (auto simp: optional_wave4_capability_def)
qed

text \<open>C40: each of the four Wave-4 capabilities a manifest declares by a key (budget enforcement, usage
  reporting, session operations, the headless permission model) is absent, not unsupported, when it is
  declared and its operation surface is missing (the comment on \<open>CapabilityStatus::Absent\<close> says the opposite): its
  row is evaluated to an absent outcome whatever the evidence, and such a row makes certification impossible.\<close>

theorem declared_without_surface_is_absent:
  assumes "(row, key) \<in> wave4_facets"
    and "key \<in> fst ` (set (cb_required (m_capabilities m)) \<union> set (cb_optional (m_capabilities m)))"
    and "facet_surface_missing m row"
  shows "(\<exists>reason. capability_for_row m row = StAbsent reason)
    \<and> (\<exists>reason. res_outcome (evaluate_row d m row ev) = Absent reason)
    \<and> (evaluate_row d m row ev \<in> set results \<longrightarrow> certify results m os profile w bytes lat cpu = None)"
proof -
  have cap: "\<exists>reason. capability_for_row m row = StAbsent reason"
    using assms by (intro facet_absent) (simp_all add: declared_iff)
  have "1 \<le> row \<and> row \<le> 73" using assms(1) by (auto simp: wave4_facets_def)
  then obtain df where df: "find_definition row = Some df"
    using find_definition_None [of row] by (cases "find_definition row") auto
  then have abs: "is_absent (res_outcome (evaluate_row d m row ev))"
    using cap evaluate_row_Absent by blast
  then have "\<exists>reason. res_outcome (evaluate_row d m row ev) = Absent reason"
    by (cases "res_outcome (evaluate_row d m row ev)") simp_all
  moreover have "certify results m os profile w bytes lat cpu = None" if "evaluate_row d m row ev \<in> set results"
  proof (rule ccontr)
    assume "certify results m os profile w bytes lat cpu \<noteq> None"
    then have "badge_compatible_results results m" using certify_SomeD(5) by blast
    then have "badge_compatible m (evaluate_row d m row ev)"
      using that by (simp add: badge_compatible_results_def list_all_iff)
    then show False using badge_compatible_outcome(2) abs by blast
  qed
  ultimately show ?thesis using cap by blast
qed

text \<open>The witness: an exec harness that declares session operations and lists no command to fork one, and one that
  declares budget enforcement without controls.\<close>

definition facet_manifest :: "string \<Rightarrow> manifest" where
  "facet_manifest key = plain_manifest\<lparr>
     m_capabilities := plain_capabilities\<lparr>cb_optional := [(key, ''declared'')]\<rparr>,
     m_sessions := plain_session_ops\<lparr>so_create := [''c''], so_list := [''l''], so_resume := [''r''], so_fork := [],
       so_delete := [''d'']\<rparr>\<rparr>"

theorem declared_without_surface_is_absent_witness:
  "(\<exists>reason. capability_for_row (facet_manifest ''session_ops_cli'') 68 = StAbsent reason)
   \<and> (\<exists>reason. res_outcome (evaluate_row plain_debug (facet_manifest ''budget_enforcement'') 66 None) = Absent reason)
   \<and> (\<forall>os profile w bytes lat cpu. certify [evaluate_row plain_debug (facet_manifest ''budget_enforcement'') 66 None]
       (facet_manifest ''budget_enforcement'') os profile w bytes lat cpu = None)"
proof (intro conjI)
  have member: "key \<in> fst ` (set (cb_required (m_capabilities (facet_manifest key))) \<union> set (cb_optional (m_capabilities (facet_manifest key))))"
    for key by (simp add: facet_manifest_def)
  have "facet_surface_missing (facet_manifest ''session_ops_cli'') 68"
    by (simp add: facet_surface_missing_def facet_manifest_def)
  then show "\<exists>reason. capability_for_row (facet_manifest ''session_ops_cli'') 68 = StAbsent reason"
    using declared_without_surface_is_absent [OF _ member] by (simp add: wave4_facets_def)
  have "facet_surface_missing (facet_manifest ''budget_enforcement'') 66"
    by (simp add: facet_surface_missing_def facet_manifest_def plain_manifest_defs)
  moreover have "(66, ''budget_enforcement'') \<in> wave4_facets" by (simp add: wave4_facets_def)
  ultimately show "\<exists>reason. res_outcome (evaluate_row plain_debug (facet_manifest ''budget_enforcement'') 66 None) = Absent reason"
    and "\<forall>os profile w bytes lat cpu. certify [evaluate_row plain_debug (facet_manifest ''budget_enforcement'') 66 None]
       (facet_manifest ''budget_enforcement'') os profile w bytes lat cpu = None"
    using declared_without_surface_is_absent [OF _ member, of 66 "''budget_enforcement''" plain_debug None
       "[evaluate_row plain_debug (facet_manifest ''budget_enforcement'') 66 None]"] by simp_all
qed

section \<open>The automation score\<close>

text \<open>The automation score is a monotone function of its components: if two suites are scored and
  each component of the first is at most that of the second, so is the score; it never exceeds 100.
  This includes the rounding of every floating-point operation on the way.\<close>

theorem automation_score_monotone:
  assumes "ase_score (automation_score rs) = Some n" "ase_score (automation_score rs') = Some n'"
    and "\<And>row x y. row \<in> set component_rows \<Longrightarrow> component rs row = Some x \<Longrightarrow>
      component rs' row = Some y \<Longrightarrow> f_le x y"
  shows "n \<le> n' \<and> n' \<le> 100"
proof -
  from assms(1,2) obtain vs vs' where
    v: "map (component rs) component_rows = map Some vs" "n = rounded_score (f_sum vs)" and
    v': "map (component rs') component_rows = map Some vs'" "n' = rounded_score (f_sum vs')"
    by (auto simp: automation_score_Some)
  have len: "length vs = length component_rows" "length vs' = length component_rows"
    using v(1) v'(1) by (metis length_map)+
  have nth: "component rs (component_rows ! i) = Some (vs ! i)"
    "component rs' (component_rows ! i) = Some (vs' ! i)" if "i < length component_rows" for i
    using that v(1) v'(1) len by (metis nth_map)+
  have "f_le (vs ! i) (vs' ! i)" if i: "i < length component_rows" for i
    by (rule assms(3) [OF nth_mem [OF i] nth(1) [OF i] nth(2) [OF i]])
  then have le: "list_all2 f_le vs vs'" by (simp add: list_all2_conv_all_nth len)
  have "\<forall>x \<in> set vs. f_is_finite x" "\<forall>x \<in> set vs'. f_is_finite x"
    using nth len component_range by (fastforce simp: in_set_conv_nth)+
  with le have "f_le (f_sum vs) (f_sum vs')"
    unfolding f_sum_def by (intro foldl_f_add_mono) simp_all
  then show ?thesis using v(2) v'(2) rounded_score_mono rounded_score_le by simp
qed

theorem automation_score_monotone_witness:
  "ase_score (automation_score sample_suite) = Some 50 \<and> (50 :: nat) \<le> 100"
proof -
  have "(50 :: nat) \<le> 50 \<and> 50 \<le> (100 :: nat)"
  proof (rule automation_score_monotone [OF sample_score sample_score])
    fix row x y
    assume "component sample_suite row = Some x" "component sample_suite row = Some y"
    then show "f_le x y" using component_range by (fastforce intro: f_le_refl)
  qed
  then show ?thesis using sample_score by simp
qed

end
