(* ===== verification/Storage_Properties.thy ===== *)
theory Storage_Properties
  imports Storage_Config
begin

text \<open>
  The properties of the storage declarations: the wildcard matcher against its language, the overlap
  tests, the disjointness of validated areas and the family of a path, and the scope of the declared
  lifecycle verbs.
\<close>

section \<open>Globs\<close>

text \<open>The simulation of the component wildcard automaton accepts exactly the language of the
  pattern, defined by recursion: a star matches any text, a question mark one character.\<close>

theorem component_matches_is_language: "component_matches p t = comp_lang p t"
  by (rule component_matches_lang)

text \<open>C2: the overlap test returns for every pair of accepted globs, whatever their stars, and
  answers true exactly when some path without empty components is matched by both.\<close>

theorem overlap_decides_common_path:
  assumes "validate_glob dbg a = Inr ()" "validate_glob dbg b = Inr ()"
  shows "\<exists>r. globs_overlap a b = Some r \<and>
    (r \<longleftrightarrow> (\<exists>path. plain_path path \<and> glob_matches a path \<and> glob_matches b path))"
  using globs_overlap_iff [OF validate_glob_plain [OF assms(1)] validate_glob_plain [OF assms(2)]] by blast

theorem overlap_decides_common_path_witness: "globs_overlap ''a*/**'' ''*b/x'' = Some True"
proof -
  have path: "plain_path ''ab/x''" "glob_matches ''a*/**'' ''ab/x''" "glob_matches ''*b/x'' ''ab/x''"
    by (simp_all add: plain_path_def path_components_def glob_matches_def component_matches_lang)
  have "validate_glob id ''a*/**'' = Inr ()" "validate_glob id ''*b/x'' = Inr ()" by code_simp+
  from overlap_decides_common_path [OF this] obtain r
    where "globs_overlap ''a*/**'' ''*b/x'' = Some r"
      "r \<longleftrightarrow> (\<exists>p. plain_path p \<and> glob_matches ''a*/**'' p \<and> glob_matches ''*b/x'' p)" by blast
  with path show ?thesis by auto
qed

section \<open>Areas and families\<close>

text \<open>C8: the pairwise overlap check of the declared areas accepts them exactly when no path without
  empty components belongs to two areas (or to the same name twice).\<close>

theorem disjoint_areas_iff:
  assumes "first_error (validate_area dbg) areas = Inr ()"
  shows "validate_disjoint areas = Inr () \<longleftrightarrow>
    (\<forall>path. plain_path path \<longrightarrow>
       length (filter (\<lambda>(_, globs). list_ex (\<lambda>g. glob_matches g path) globs) areas) \<le> 1)"
proof -
  have "filter (\<lambda>(_, globs). list_ex (\<lambda>g. glob_matches g path) globs) areas
      = filter (globs.area_matches path) areas" for path
    by (rule filter_cong) (auto simp: globs.area_matches_def list_ex_iff)
  then show ?thesis
    using globs.filter_area_matches [OF validate_area_valid [OF assms]] by (simp add: validate_disjoint_iff)
qed

theorem disjoint_areas_iff_witness:
  "validate_disjoint [(''logs'', [''*.log'']), (''store'', [''a*''])] \<noteq> Inr ()"
proof -
  let ?areas = "[(''logs'', [''*.log'']), (''store'', [''a*''])]"
  have ok: "first_error (validate_area id) ?areas = Inr ()" by code_simp
  have "plain_path ''a.log''" by code_simp
  moreover have "length (filter (\<lambda>(_, globs). list_ex (\<lambda>g. glob_matches g ''a.log'') globs) ?areas) = 2"
    by (simp add: glob_matches_def component_matches_lang)
  ultimately show ?thesis using disjoint_areas_iff [OF ok] by fastforce
qed

text \<open>After validation every path without empty components has a family, without an error, and it is
  the right one: the one declared area a glob of which matches the path, or \<open>other\<close> when no
  declared glob matches.\<close>

theorem family_is_total:
  assumes "validate_storage dbg c = Inr ()" "plain_path path"
  shows "\<exists>f. family c path = Inr f \<and>
    (if f = ''other'' then \<forall>(n, gs) \<in> set (declared_areas c). \<forall>g \<in> set gs. \<not> glob_matches g path
     else \<exists>gs. (f, gs) \<in> set (declared_areas c) \<and> (\<exists>g \<in> set gs. glob_matches g path))"
  by (rule validated_family [OF assms])

definition sample_storage :: storage_config where
  "sample_storage = \<lparr>sc_areas = Some [(''logs'', [''l/**'']), (''store'', [''d/*.s''])],
     sc_session_delete = Some [''agent'', ''delete'', ''{{session_id}}''],
     sc_uninstall_cleanup = None, sc_sweep_interval_s = Some 60,
     sc_session_close = Some [''agent'', ''close'', ''{{profile}}/s'', ''{{session_id}}''],
     sc_retention_cap_bytes = None, sc_auxiliary_cap_bytes = None,
     sc_workspace_path = Some ''{{profile}}/work''\<rparr>"

lemma sample_storage_disjoint: "globs_overlap ''l/**'' ''d/*.s'' = Some False"
proof -
  have "\<not> (glob_matches ''l/**'' path \<and> glob_matches ''d/*.s'' path)" for path
    by (cases "split_on (CHR ''/'') path") (auto simp: glob_matches_def component_matches_lang neq_Nil_conv elim!: comp_lang.elims)
  moreover have "plain_path ''l/**''" "plain_path ''d/*.s''" by code_simp+
  ultimately show ?thesis by (simp add: globs_overlap_iff)
qed

lemma sample_storage_valid: "validate_storage id sample_storage = Inr ()"
proof -
  have "validate_disjoint (declared_areas sample_storage) = Inr ()"
    by (simp add: sample_storage_def declared_areas_def areas_overlap_def sample_storage_disjoint)
  moreover have "first_error (validate_area id) (declared_areas sample_storage) = Inr ()"
    "validate_workspace (sc_workspace_path sample_storage) = Inr ()"
    "validate_verb ''session_delete'' [''agent'', ''delete'', ''{{session_id}}''] True = Inr ()"
    "validate_verb ''session_close'' [''agent'', ''close'', ''{{profile}}/s'', ''{{session_id}}''] True = Inr ()"
    by code_simp+
  ultimately show ?thesis
    by (simp add: validate_storage_def Let_def declared_caps_def) (simp add: sample_storage_def)
qed

theorem family_is_total_witness: "\<exists>f. family sample_storage ''d/m.s'' = Inr f \<and> f = ''store''"
proof -
  have "plain_path ''d/m.s''" by code_simp
  from family_is_total [OF sample_storage_valid this] obtain f
    where f: "family sample_storage ''d/m.s'' = Inr f" by blast
  moreover have "family sample_storage ''d/m.s'' = Inr ''store''"
    by (simp add: family_def declared_areas_def sample_storage_def glob_matches_def component_matches_lang)
  ultimately show ?thesis by simp
qed

section \<open>Lifecycle verbs\<close>

lemma split_on_suffix: "set (tl (split_on d v)) \<subseteq> set (tl (split_on d (a @ v)))"
proof (induction a)
  case (Cons x a)
  have "split_on d (a @ v) \<noteq> []" by simp
  then obtain p ps where "split_on d (a @ v) = p # ps" by (cases "split_on d (a @ v)") auto
  with Cons show ?case by (auto split: list.splits)
qed simp

lemma split_once_append: "split_once d s = Some (a, b) \<Longrightarrow> s = a @ d # b"
  by (induction s arbitrary: a) (auto split: if_splits)

lemma verb_argument_value_suffix: "\<exists>a. s = a @ verb_argument_value s"
proof (cases "starts_with s ''-''")
  case True
  then show ?thesis
    by (auto simp: verb_argument_value_def split: option.splits dest: split_once_append)
qed (auto simp: verb_argument_value_def)

text \<open>C10: an accepted lifecycle verb stays in its scope: the program is none of the forbidden ones,
  a session verb names the session exactly once, a verb that does not rely on the isolated
  environment names the profile or the workspace, and the value of every argument that contains a
  slash is, after the variables are replaced, a path below the run root that never steps to
  a parent.\<close>

theorem accepted_verb_is_contained:
  assumes "validate_verb name (program # args) session = Inr ()"
  shows "(\<exists>p. file_name program = Some p \<and> p \<notin> set forbidden_programs)
    \<and> (session \<longrightarrow> sum_list (map (\<lambda>s. count_matches s ''{{session_id}}'') (program # args)) = 1)
    \<and> (name = ''session_delete'' \<or> (\<exists>arg \<in> set args. names_root arg))
    \<and> (\<forall>arg \<in> set args. CHR ''/'' \<in> set (verb_argument_value (rendered_argument arg)) \<longrightarrow>
        (\<exists>ps. split_on (CHR ''/'') (verb_argument_value (rendered_argument arg)) = ''ROOT'' # ps
          \<and> ''.'' \<notin> set ps \<and> ''..'' \<notin> set ps))"
proof -
  note v = assms [unfolded validate_verb_def]
  have scope: "name = ''session_delete'' \<or> (\<exists>arg \<in> set args. names_root arg)"
    using v by (auto simp: scoped_by_environment_def list_ex_iff split: option.splits if_splits)
  have ok: "argument_ok (Suc i) (args ! i)" if "i < length args" for i
    using v that by (fastforce simp: list_ex_iff in_set_enumerate_eq split: option.splits if_splits)
  have "\<exists>ps. split_on (CHR ''/'') (verb_argument_value (rendered_argument arg)) = ''ROOT'' # ps
      \<and> ''.'' \<notin> set ps \<and> ''..'' \<notin> set ps"
    if arg: "arg \<in> set args" and slash: "CHR ''/'' \<in> set (verb_argument_value (rendered_argument arg))" for arg
  proof -
    let ?r = "rendered_argument arg" and ?v = "verb_argument_value (rendered_argument arg)"
    from arg ok obtain i where a: "argument_ok (Suc i) arg" by (auto simp: in_set_conv_nth)
    then have tr: "\<not> traverses ?r" and "starts_with ?v ''ROOT/''"
      using slash by (auto simp: argument_ok_def Let_def)
    then obtain rest where rest: "?v = ''ROOT'' @ CHR ''/'' # rest"
      by (auto simp: starts_with_iff)
    then have split: "split_on (CHR ''/'') ?v = ''ROOT'' # split_on (CHR ''/'') rest" by simp
    obtain b where "?r = b @ ?v" using verb_argument_value_suffix by blast
    then have "set (split_on (CHR ''/'') rest) \<subseteq> set (tl (split_on (CHR ''/'') ?r))"
      using split_on_suffix [of "CHR ''/''" ?v b] split by simp
    also have "\<dots> \<subseteq> set (split_on (CHR ''/'') ?r)" by (cases "split_on (CHR ''/'') ?r") auto
    finally show ?thesis using tr split by (auto simp: traverses_def list_ex_iff)
  qed
  moreover have "\<exists>p. file_name program = Some p \<and> p \<notin> set forbidden_programs"
    "session \<longrightarrow> sum_list (map (\<lambda>s. count_matches s ''{{session_id}}'') (program # args)) = 1"
    using v by (auto split: option.splits if_splits)
  ultimately show ?thesis using scope by blast
qed

theorem accepted_verb_is_contained_witness:
  "\<exists>ps. split_on (CHR ''/'') (verb_argument_value (rendered_argument ''--at={{profile}}/s'')) = ''ROOT'' # ps
     \<and> ''..'' \<notin> set ps"
proof -
  have "validate_verb ''uninstall_cleanup'' [''agent'', ''--at={{profile}}/s''] False = Inr ()" by code_simp
  from accepted_verb_is_contained [OF this]
  have "CHR ''/'' \<in> set (verb_argument_value (rendered_argument ''--at={{profile}}/s'')) \<longrightarrow> ?thesis" by auto
  moreover have "CHR ''/'' \<in> set (verb_argument_value (rendered_argument ''--at={{profile}}/s''))" by code_simp
  ultimately show ?thesis by blast
qed

text \<open>The containment does not extend to option values without a slash: a verb that passes the
  parent directory as the value of an option is accepted, although a bare parent component is
  refused.\<close>

theorem option_value_may_name_the_parent:
  "validate_verb ''uninstall_cleanup'' [''agent'', ''--keep={{profile}}'', ''--dir=..''] False = Inr ()
   \<and> verb_argument_value (rendered_argument ''--dir=..'') = ''..''
   \<and> is_ok (validate_verb ''uninstall_cleanup'' [''agent'', ''--keep={{profile}}'', ''..''] False) = False"
proof (intro conjI)
  show "validate_verb ''uninstall_cleanup'' [''agent'', ''--keep={{profile}}'', ''--dir=..''] False = Inr ()"
    by code_simp
  show "verb_argument_value (rendered_argument ''--dir=..'') = ''..''" by code_simp
  show "is_ok (validate_verb ''uninstall_cleanup'' [''agent'', ''--keep={{profile}}'', ''..''] False) = False"
    by code_simp
qed

end
