(* ===== verification/Growth.thy ===== *)
theory Growth
  imports F64 Prelude "HOL-Library.Product_Lexorder"
begin

text \<open>
  The run deadline and the growth curve of \<open>src/src/storage.rs\<close>: the deadline with its
  sources, the checkpoints of a session, median and 95th percentile, disk classes, and the
  classification of allocated bytes over turns.  Whether an \<open>Instant\<close> can be advanced by a
  number of seconds depends on the platform, so it is the parameter \<open>fits\<close>.
\<close>

section \<open>The total order of doubles\<close>

text \<open>\<open>f64::total_cmp\<close>; the two zeros are one value of \<open>f64\<close>.\<close>

instantiation f64 :: linorder
begin

definition less_eq_f64 :: "f64 \<Rightarrow> f64 \<Rightarrow> bool" where
  "less_eq_f64 x y \<longleftrightarrow> total_key x \<le> total_key y"

definition less_f64 :: "f64 \<Rightarrow> f64 \<Rightarrow> bool" where
  "less_f64 x y \<longleftrightarrow> total_key x < total_key y"

lemma total_key_inj: "total_key x = total_key y \<Longrightarrow> x = y"
  by (cases x rule: total_key.cases; cases y rule: total_key.cases) auto

instance
  by intro_classes (auto simp: less_eq_f64_def less_f64_def total_key_inj)

end

lemma f64_less_eq_Fin [simp]: "Fin x \<le> Fin y \<longleftrightarrow> x \<le> y"
  by (auto simp: less_eq_f64_def)

lemma f64_less_eq_f_le: "x \<noteq> NaN \<Longrightarrow> y \<noteq> NaN \<Longrightarrow> x \<le> y \<longleftrightarrow> f_le x y"
  by (cases x rule: total_key.cases; cases y rule: total_key.cases) (auto simp: less_eq_f64_def)

section \<open>The deadline\<close>

datatype run_profile = Quick | Cert

record deadline =
  dl_seconds :: u64
  dl_source :: string
  dl_k :: u64
  dl_h :: u64
  dl_w :: u64
  dl_formula :: string

definition profile_constants :: "run_profile \<Rightarrow> u64 \<times> u64 \<times> u64 \<times> u64" where
  "profile_constants p = (case p of Quick \<Rightarrow> (3, 1645, 3600, 10509) | Cert \<Rightarrow> (7, 38233, 14400, 174979))"

definition resolve_deadline ::
    "(u64 \<Rightarrow> bool) \<Rightarrow> run_profile \<Rightarrow> u64 option \<Rightarrow> string option \<Rightarrow> u64 option \<Rightarrow> ahrb_error + deadline" where
  "resolve_deadline fits p flag environment sweep =
     (let (r, k, h, base) = profile_constants p;
          w = (case sweep of None \<Rightarrow> 0 | Some w \<Rightarrow> w)
      in case Option.bind (checked_mul r w) (\<lambda>n. checked_add base n) of
           None \<Rightarrow> Inl (Usage ''storage default deadline overflows u64'')
         | Some default_seconds \<Rightarrow>
           and_then
             (case flag of
                Some s \<Rightarrow> Inr (s, ''flag'')
              | None \<Rightarrow>
                (case environment of
                   Some s \<Rightarrow>
                     (case parse_unsigned (2 ^ 64) s of
                        None \<Rightarrow> Inl (Usage ''AHRB_DEADLINE must be a non-negative integer number of seconds'')
                      | Some n \<Rightarrow> Inr (of_nat n, ''environment''))
                 | None \<Rightarrow> Inr (default_seconds, ''storage-default'')))
             (\<lambda>(seconds, source).
               if \<not> fits seconds then Inl (Usage ''storage deadline overflows Instant'')
               else Inr \<lparr>dl_seconds = seconds, dl_source = source, dl_k = k, dl_h = h, dl_w = w,
                          dl_formula = ''ceil(2 * 2.1 * K + H + R * W)''\<rparr>))"

section \<open>Statistics\<close>

definition checkpoints :: "u32 \<Rightarrow> u32 list" where
  "checkpoints turns = (if turns = 1000 then [0, 1, 10, 50, 100, 500, 1000] else [0, 1, 10, 50, 100])"

definition median :: "f64 list \<Rightarrow> f64 option" where
  "median values =
     (if values = [] \<or> list_ex (\<lambda>v. \<not> f_is_finite v) values then None
      else let vs = sort values; m = length vs div 2
           in Some (if length vs mod 2 = 0
                    then f_add (f_div (vs ! (m - 1)) (Fin 2)) (f_div (vs ! m) (Fin 2))
                    else vs ! m))"

definition div_ceil :: "nat \<Rightarrow> nat \<Rightarrow> nat" where
  "div_ceil a b = (if a mod b = 0 then a div b else a div b + 1)"

text \<open>\<open>get\<close> past the end is \<open>None\<close>.\<close>

definition p95 :: "f64 list \<Rightarrow> f64 option" where
  "p95 values =
     (if values = [] then None
      else let vs = sort values; i = div_ceil (95 * length vs) 100 - 1
           in if i < length vs then Some (vs ! i) else None)"

definition disk_class :: "f64 \<Rightarrow> string" where
  "disk_class bytes =
     (if f_le bytes (Fin 65536) then ''64''
      else if f_le bytes (Fin 262144) then ''256''
      else if f_le bytes (Fin 1048576) then ''1024''
      else if f_le bytes (Fin 4194304) then ''4096''
      else ''4096+'')"

section \<open>The growth curve\<close>

datatype growth_class = Bounded | Linear | Superlinear

text \<open>The derived order of the variants.\<close>

fun class_rank :: "growth_class \<Rightarrow> nat" where
  "class_rank Bounded = 0"
| "class_rank Linear = 1"
| "class_rank Superlinear = 2"

instantiation growth_class :: linorder
begin

definition less_eq_growth_class :: "growth_class \<Rightarrow> growth_class \<Rightarrow> bool" where
  "less_eq_growth_class a b \<longleftrightarrow> class_rank a \<le> class_rank b"

definition less_growth_class :: "growth_class \<Rightarrow> growth_class \<Rightarrow> bool" where
  "less_growth_class a b \<longleftrightarrow> class_rank a < class_rank b"

lemma class_rank_inj: "class_rank a = class_rank b \<Longrightarrow> a = b"
  by (cases a; cases b) auto

instance
  by intro_classes (auto simp: less_eq_growth_class_def less_growth_class_def class_rank_inj)

end

record checkpoint =
  cp_turn :: u32
  cp_allocated_bytes :: u64

record curve_evaluation =
  ce_checkpoints :: "checkpoint list"
  ce_early_bytes_per_turn :: "f64 option"
  ce_late_bytes_per_turn :: "f64 option"
  ce_late_early_ratio :: "f64 option"
  ce_late_range_bytes :: "u64 option"

definition bytes_at :: "checkpoint list \<Rightarrow> u32 \<Rightarrow> ahrb_error + u64" where
  "bytes_at points t = (case find (\<lambda>p. cp_turn p = t) points of
     None \<Rightarrow> Inl (Protocol ''storage missing checkpoint'') | Some p \<Rightarrow> Inr (cp_allocated_bytes p))"

definition bytes_difference :: "u64 \<Rightarrow> u64 \<Rightarrow> f64" where
  "bytes_difference after before = f_of_int (uint after - uint before)"

definition point_slope :: "checkpoint \<Rightarrow> checkpoint \<Rightarrow> f64" where
  "point_slope left right =
     f_div (bytes_difference (cp_allocated_bytes right) (cp_allocated_bytes left))
       (f_of_int (uint (cp_turn right - cp_turn left)))"

fun pair_slopes :: "checkpoint list \<Rightarrow> f64 list" where
  "pair_slopes [] = []"
| "pair_slopes (left # points) = map (point_slope left) points @ pair_slopes points"

definition curve_class :: "u32 \<Rightarrow> u64 \<Rightarrow> f64 \<Rightarrow> f64 \<Rightarrow> f64 \<Rightarrow> growth_class" where
  "curve_class n late_range slope early late =
     (if late_range \<le> 65536 \<and> f_le slope (f_div (Fin 65536) (f_of_int (uint n))) then Bounded
      else if f_lt (Fin 0) slope
              \<and> f_lt (f_max (f_mul (Fin (5/4)) (f_max early (Fin 0)))
                       (f_add (f_max early (Fin 0)) (Fin 4096))) late then Superlinear
      else Linear)"

definition evaluate_curve ::
    "checkpoint list \<Rightarrow> u32 \<Rightarrow> ahrb_error + growth_class \<times> f64 \<times> curve_evaluation" where
  "evaluate_curve points n =
     (if n \<notin> {100, 1000} \<or> map cp_turn points \<noteq> checkpoints n
      then Inl (Protocol ''storage missing/duplicate/out-of-order checkpoint'')
      else case median (pair_slopes (drop 1 points)) of
        None \<Rightarrow> Inl (Protocol ''storage empty slope'')
      | Some slope \<Rightarrow>
        and_then (bytes_at points (n div 2)) (\<lambda>mid.
        and_then (bytes_at points (n div 10)) (\<lambda>tenth.
        and_then (bytes_at points n) (\<lambda>last.
          let early = f_div (bytes_difference mid tenth) (f_of_int (uint (n div 2 - n div 10)));
              late = f_div (bytes_difference last mid) (f_of_int (uint (n - n div 2)));
              late_range = abs_diff last mid
          in Inr (curve_class n late_range slope early late, slope,
               \<lparr>ce_checkpoints = points, ce_early_bytes_per_turn = Some early,
                ce_late_bytes_per_turn = Some late,
                ce_late_early_ratio = (if f_lt (Fin 0) early then Some (f_div late early) else None),
                ce_late_range_bytes = Some late_range\<rparr>)))))"

end
