(* ===== verification/Growth_Properties.thy ===== *)
theory Growth_Properties
  imports Growth "HOL-Library.Multiset"
begin

text \<open>
  The deadline with its overflow checks, the order independence of the median, the rank of the 95th
  percentile, and what the growth classification returns, rounding included.
\<close>

section \<open>The deadline\<close>

lemma checked_default:
  "Option.bind (checked_mul r w) (\<lambda>n. checked_add base n) = Some s \<longleftrightarrow>
     unat base + unat r * unat w < 2 ^ 64 \<and> unat s = unat base + unat r * unat w"
proof (cases "checked_mul r w")
  case None
  then have "2 ^ 64 \<le> unat r * unat w" by (auto simp: checked_mul_def split: if_splits)
  then show ?thesis using None by simp
next
  case (Some n)
  have n: "unat n = unat r * unat w" by (rule checked_mul_Some [OF Some])
  show ?thesis
    unfolding Some checked_add_def bind.simps n [symmetric]
    by (auto simp: unat_word_ariths unsigned_word_eqI word_unat_eq_iff split: if_splits)
qed

definition documented_default :: "u64 \<Rightarrow> u64 \<Rightarrow> u64 \<Rightarrow> u64 \<Rightarrow> int" where
  "documented_default k h r w =
     \<lceil>2 * (21 / 10) * of_nat (unat k) + of_nat (unat h) + of_nat (unat r * unat w) :: rat\<rceil>"

lemma documented_default:
  "profile_constants p = (r, k, h, base) \<Longrightarrow>
    documented_default k h r w = int (unat base + unat r * unat w)"
proof -
  assume p: "profile_constants p = (r, k, h, base)"
  have n: "of_nat (unat r * unat w) = (of_int (int (unat r * unat w)) :: rat)"
    by (simp only: of_int_of_nat_eq)
  from p show ?thesis
    unfolding documented_default_def n ceiling_add_of_int
    by (cases p) (auto simp: profile_constants_def ceiling_eq_iff)
qed

text \<open>The storage deadline: it is the flag, else the environment, else the documented formula
  \<open>ceil(2 * 2.1 * K + H + R * W)\<close> computed without wrap-around; and it fails exactly when that default
  overflows 64 bits (even if a flag is given), the environment is not a number of seconds, or
  the instant overflows.\<close>

theorem resolve_deadline_spec:
  assumes "profile_constants p = (r, k, h, base)" and "w = (case sweep of None \<Rightarrow> 0 | Some w \<Rightarrow> w)"
  shows "resolve_deadline fits p flag environment sweep = Inr dl \<longleftrightarrow>
    documented_default k h r w < 2 ^ 64 \<and> fits (dl_seconds dl)
    \<and> (case flag of Some s \<Rightarrow> dl_seconds dl = s \<and> dl_source dl = ''flag''
       | None \<Rightarrow> (case environment of
           Some text \<Rightarrow> parse_unsigned (2 ^ 64) text = Some (unat (dl_seconds dl)) \<and> dl_source dl = ''environment''
         | None \<Rightarrow> int (unat (dl_seconds dl)) = documented_default k h r w \<and> dl_source dl = ''storage-default''))
    \<and> dl_k dl = k \<and> dl_h dl = h \<and> dl_w dl = w \<and> dl_formula dl = ''ceil(2 * 2.1 * K + H + R * W)''"
proof (cases "Option.bind (checked_mul r w) (\<lambda>n. checked_add base n)")
  case None
  define N where "N = unat base + unat r * unat w"
  have "unat (of_nat N :: u64) = N" if "N < 2 ^ 64" using that by (simp add: unat_of_nat)
  with None have "\<not> unat base + unat r * unat w < 2 ^ 64"
    using checked_default [of r w base "of_nat N"] unfolding N_def [symmetric] by (metis option.distinct(1))
  then have "\<not> documented_default k h r w < 2 ^ 64"
    unfolding documented_default [OF assms(1)] N_def [symmetric] by simp
  then show ?thesis using None assms by (simp add: resolve_deadline_def)
next
  case (Some s)
  then have s: "unat base + unat r * unat w < 2 ^ 64" "unat s = unat base + unat r * unat w"
    by (simp_all add: checked_default)
  then have d: "documented_default k h r w = int (unat s)" "int (unat s) < 2 ^ 64"
    unfolding documented_default [OF assms(1)] s(2) [symmetric]
    using uint_range_size [of s] by (simp_all add: word_size)
  have eq: "uint x = uint s \<longleftrightarrow> x = s" for x by (simp add: word_uint_eq_iff)
  show ?thesis
  proof (cases flag)
    case None
    show ?thesis
    proof (cases environment)
      case env: (Some str)
      have "parse_unsigned (2 ^ 64) str = Some n \<Longrightarrow> n < 2 ^ 64" for n
        by (auto simp: parse_unsigned_def Let_def split: if_splits list.splits)
      then have same: "parse_unsigned (2 ^ 64) str = Some n \<Longrightarrow> unat (of_nat n :: u64) = n" for n
        by (auto simp: unat_of_nat)
      show ?thesis
      proof (cases "parse_unsigned (2 ^ 64) str")
        case parsed: (Some n)
        with same have n: "unat (of_nat n :: u64) = n" by simp
        show ?thesis
          using Some None env assms d parsed n by (cases dl) (auto simp: resolve_deadline_def)
      qed (use Some None env assms d in \<open>auto simp: resolve_deadline_def\<close>)
    qed (use Some None assms d eq in \<open>cases dl; auto simp: resolve_deadline_def\<close>)
  qed (use Some assms d in \<open>auto simp: resolve_deadline_def\<close>)
qed

theorem resolve_deadline_spec_witness:
  "\<exists>dl. resolve_deadline (\<lambda>_. True) Cert None None (Some 10) = Inr dl \<and> dl_seconds dl = 175049"
proof -
  let ?dl = "\<lparr>dl_seconds = 175049, dl_source = ''storage-default'', dl_k = 38233, dl_h = 14400, dl_w = 10,
    dl_formula = ''ceil(2 * 2.1 * K + H + R * W)''\<rparr>"
  have c: "profile_constants Cert = (7, 38233, 14400, 174979)" by (simp add: profile_constants_def)
  have "documented_default 38233 14400 7 10 = 175049"
    unfolding documented_default [OF c] by simp
  then have "resolve_deadline (\<lambda>_. True) Cert None None (Some 10) = Inr ?dl"
    by (subst resolve_deadline_spec [OF c refl]) simp
  then show ?thesis by simp
qed

section \<open>Median and percentile\<close>

lemma sort_mset: "mset xs = mset ys \<Longrightarrow> sort xs = sort (ys :: f64 list)"
  by (rule properties_for_sort) simp_all

text \<open>The median does not depend on the order of the measurements.\<close>

theorem median_order_independent:
  assumes "mset xs = mset ys"
  shows "median xs = median ys"
  using sort_mset [OF assms] mset_eq_setD [OF assms] assms
  by (auto simp: median_def list_ex_iff)

theorem median_order_independent_witness: "median [Fin 3, Fin 1, Fin 2] = median [Fin 1, Fin 2, Fin 3]"
  by (rule median_order_independent) simp

lemma filter_sort: "length (filter P (sort xs)) = length (filter P (xs :: f64 list))"
  by (metis mset_filter mset_sort size_mset)

lemma sorted_prefix_count:
  assumes "sorted vs" "i < length vs"
  shows "Suc i \<le> length (filter (\<lambda>x. x \<le> vs ! i) vs)" "length (filter (\<lambda>x. x < vs ! i) vs) \<le> i"
proof -
  have split: "filter P vs = filter P (take n vs) @ filter P (drop n vs)" for P n
    by (metis append_take_drop_id filter_append)
  have "\<forall>x \<in> set (take (Suc i) vs). x \<le> vs ! i"
    using assms by (auto simp: in_set_conv_nth sorted_iff_nth_mono)
  then have "filter (\<lambda>x. x \<le> vs ! i) (take (Suc i) vs) = take (Suc i) vs" by (simp add: filter_id_conv)
  then show "Suc i \<le> length (filter (\<lambda>x. x \<le> vs ! i) vs)"
    using split [of "\<lambda>x. x \<le> vs ! i" "Suc i"] assms(2) by simp
  have "\<forall>x \<in> set (drop i vs). vs ! i \<le> x"
    using assms by (auto simp: in_set_conv_nth sorted_iff_nth_mono)
  then have "filter (\<lambda>x. x < vs ! i) (drop i vs) = []" by (auto simp: filter_empty_conv)
  then show "length (filter (\<lambda>x. x < vs ! i) vs) \<le> i"
    using split [of "\<lambda>x. x < vs ! i" i] length_filter_le [of _ "take i vs"] assms(2)
    by (metis append_Nil2 length_take min.absorb4)
qed

lemma div_ceil_bounds: "0 < b \<Longrightarrow> a \<le> b * div_ceil a b \<and> b * div_ceil a b < a + b"
proof -
  assume "0 < b"
  then obtain q r where "a = b * q + r" "r < b" "a div b = q" "a mod b = r"
    by (metis mult_div_mod_eq mod_less_divisor)
  then show ?thesis by (simp add: div_ceil_def)
qed

text \<open>The 95th percentile is the nearest rank: it exists exactly for a non-empty list, it is one of
  the values, at least 95 percent of the values are at most it and fewer than 95 percent are
  below it.\<close>

theorem p95_nearest_rank:
  "(case p95 xs of None \<Rightarrow> xs = []
    | Some v \<Rightarrow> v \<in> set xs \<and> 95 * length xs \<le> 100 * length (filter (\<lambda>x. x \<le> v) xs)
        \<and> 100 * length (filter (\<lambda>x. x < v) xs) < 95 * length xs)"
proof (cases "xs = []")
  case False
  let ?n = "length xs" and ?vs = "sort xs" and ?i = "div_ceil (95 * length xs) 100 - 1"
  have c: "95 * ?n \<le> 100 * div_ceil (95 * ?n) 100 \<and> 100 * div_ceil (95 * ?n) 100 < 95 * ?n + 100"
    by (rule div_ceil_bounds) simp
  moreover have "0 < ?n" using False by simp
  ultimately have i: "Suc ?i = div_ceil (95 * ?n) 100" "?i < length ?vs" unfolding length_sort by linarith+
  then have p: "p95 xs = Some (?vs ! ?i)" using False by (simp add: p95_def Let_def)
  note cnt = sorted_prefix_count [OF sorted_sort i(2), unfolded filter_sort]
  have "?vs ! ?i \<in> set xs" using nth_mem [OF i(2)] by simp
  moreover have "95 * ?n \<le> 100 * length (filter (\<lambda>x. x \<le> ?vs ! ?i) xs)"
    using c cnt(1) i(1) by linarith
  moreover have "100 * length (filter (\<lambda>x. x < ?vs ! ?i) xs) < 95 * ?n"
    using c cnt(2) i(1) by linarith
  ultimately show ?thesis using p by simp
qed (simp add: p95_def)

section \<open>The growth curve\<close>

lemma f_round_finite: "\<bar>q\<bar> \<le> 2 ^ 64 \<Longrightarrow> \<exists>x. f_round q = Fin x \<and> \<bar>x\<bar> \<le> 2 ^ 64"
proof -
  assume q: "\<bar>q\<bar> \<le> 2 ^ 64"
  have "(2::rat) ^ 64 < 2 ^ 1024" by (rule power_strict_increasing) simp_all
  then have big: "f_round (2 ^ 64) = Fin (2 ^ 64)"
    using f_round_exact [of 1 64] by (simp add: max_finite_bound_def)
  then have "f_round (- (2 ^ 64)) = Fin (- (2 ^ 64))" by (simp only: f_round_neg f_neg.simps)
  moreover have "q \<le> 2 ^ 64" "- (2 ^ 64) \<le> q" using q by linarith+
  ultimately show ?thesis
    using big f_round_mono [of q "2 ^ 64"] f_round_mono [of "- (2 ^ 64)" q] by (cases "f_round q") auto
qed

lemma bytes_difference_finite: "\<exists>x. bytes_difference a b = Fin x \<and> \<bar>x\<bar> \<le> 2 ^ 64"
proof -
  have "uint a < 2 ^ 64" "uint b < 2 ^ 64" "0 \<le> uint a" "0 \<le> uint b"
    using uint_range_size [of a] uint_range_size [of b] by (simp_all add: word_size)
  then have "\<bar>uint a - uint b\<bar> \<le> 2 ^ 64" by linarith
  then have "\<bar>of_int (uint a - uint b) :: rat\<bar> \<le> of_int (2 ^ 64)" by (simp only: of_int_abs [symmetric] of_int_le_iff)
  then show ?thesis unfolding bytes_difference_def f_of_int_def by (intro f_round_finite) simp
qed

lemma turn_count_exact: "f_of_int (uint (n :: u32)) = Fin (of_int (uint n))"
  using uint_range_size [of n] by (intro f_of_int_exact) (simp add: word_size)

lemma per_turn_finite: "0 < (n :: u32) \<Longrightarrow> \<exists>x. f_div (bytes_difference a b) (f_of_int (uint n)) = Fin x"
proof -
  assume "0 < n"
  then have "1 \<le> uint n" by (simp add: word_less_def)
  then have n: "1 \<le> (of_int (uint n) :: rat)" using of_int_le_iff [of 1 "uint n"] by simp
  obtain x where x: "bytes_difference a b = Fin x" "\<bar>x\<bar> \<le> 2 ^ 64" using bytes_difference_finite by blast
  have "\<bar>x / of_int (uint n)\<bar> \<le> \<bar>x\<bar> / 1"
    unfolding abs_divide using n by (intro divide_left_mono frac_le) auto
  with x have "\<bar>x / of_int (uint n)\<bar> \<le> 2 ^ 64" by simp
  from f_round_finite [OF this] x n show ?thesis by (auto simp: turn_count_exact)
qed

lemma pair_slopes_finite:
  "sorted_wrt (<) (map cp_turn ps) \<Longrightarrow> s \<in> set (pair_slopes ps) \<Longrightarrow> f_is_finite s"
proof (induction ps)
  case (Cons left ps)
  show ?case
  proof (cases "s \<in> set (pair_slopes ps)")
    case False
    with Cons.prems obtain right where r: "right \<in> set ps" "s = point_slope left right" by auto
    with Cons.prems have "cp_turn left < cp_turn right" by auto
    then have "0 < cp_turn right - cp_turn left" by (simp add: word_greater_zero_iff)
    with per_turn_finite r(2) show ?thesis by (metis point_slope_def f_is_finite.simps(1))
  qed (use Cons in simp)
qed simp

lemma median_finite: "xs \<noteq> [] \<Longrightarrow> \<forall>x \<in> set xs. f_is_finite x \<Longrightarrow> \<exists>m. median xs = Some m"
  by (auto simp: median_def list_ex_iff Let_def)

text \<open>The classification is total on well-formed input: for the two session lengths and a point
  at every checkpoint in order it returns a class, and it is an error otherwise; the later
  lookups and the median never fail.\<close>

theorem evaluate_curve_total:
  "is_ok (evaluate_curve points n) \<longleftrightarrow> n \<in> {100, 1000} \<and> map cp_turn points = checkpoints n"
proof (cases "n \<in> {100, 1000} \<and> map cp_turn points = checkpoints n")
  case True
  then have turns: "map cp_turn points = checkpoints n" and n: "n = 100 \<or> n = 1000" by auto
  have at: "\<exists>b. bytes_at points t = Inr b" if "t \<in> set (checkpoints n)" for t
  proof -
    from that have "t \<in> cp_turn ` set points" by (simp flip: turns)
    then have "find (\<lambda>p. cp_turn p = t) points \<noteq> None" by (auto simp: find_None_iff)
    then show ?thesis by (auto simp: bytes_at_def)
  qed
  have "sorted_wrt (<) (map cp_turn (drop 1 points))"
    using n by (auto simp: drop_map [symmetric] turns checkpoints_def)
  then have "\<forall>s \<in> set (pair_slopes (drop 1 points)). f_is_finite s" using pair_slopes_finite by blast
  moreover have "length points \<ge> 5"
    using arg_cong [OF turns, of length] n by (auto simp: checkpoints_def)
  then have "pair_slopes (drop 1 points) \<noteq> []"
    by (cases points rule: pair_slopes.cases; cases "drop 1 points" rule: pair_slopes.cases;
        cases "drop 2 points") auto
  ultimately obtain slope where "median (pair_slopes (drop 1 points)) = Some slope"
    using median_finite by blast
  moreover have "n div 2 \<in> set (checkpoints n)" "n div 10 \<in> set (checkpoints n)" "n \<in> set (checkpoints n)"
    using n by (auto simp: checkpoints_def)
  ultimately show ?thesis
    using True at [of "n div 2"] at [of "n div 10"] at [of n]
    by (auto simp: evaluate_curve_def Let_def is_ok_def)
qed (auto simp: evaluate_curve_def is_ok_def)

text \<open>Allocated bytes that grow by \<open>b\<close> bytes each turn.\<close>

definition steady_points :: "u32 \<Rightarrow> u64 \<Rightarrow> u64 \<Rightarrow> checkpoint list" where
  "steady_points n a b =
     map (\<lambda>t. \<lparr>cp_turn = t, cp_allocated_bytes = a + b * ucast t\<rparr>) (checkpoints n)"

lemma steady_bytes:
  assumes "unat a + unat b * unat n < 2 ^ 64" "t \<le> (n :: u32)"
  shows "uint (a + b * ucast t :: u64) = uint a + uint b * uint t"
proof -
  have "unat b * unat t \<le> unat b * unat n" using assms(2) by (simp add: word_le_nat_alt)
  with assms(1) have lt: "unat a + unat b * unat t < 2 ^ 64" by linarith
  have "uint (ucast t :: u64) = uint t" by (simp add: uint_up_ucast is_up)
  then have u: "unat (ucast t :: u64) = unat t" by (simp only: unat_eq_nat_uint)
  from lt have "unat (b * ucast t) = unat b * unat t" by (simp add: unat_word_ariths u)
  with lt have "unat (a + b * ucast t) = unat a + unat b * unat t" by (simp add: unat_word_ariths)
  then have "int (unat (a + b * ucast t)) = int (unat a + unat b * unat t)" by simp
  then show ?thesis by simp
qed

lemma exact_rate:
  assumes "\<bar>rate * turns\<bar> < 2 ^ 53" "0 < turns"
  shows "f_div (f_of_int (rate * turns)) (Fin (of_int turns)) = Fin (of_int rate)"
proof -
  have "\<bar>rate\<bar> * 1 \<le> \<bar>rate\<bar> * turns" using assms(2) by (intro mult_left_mono) auto
  then have "\<bar>rate\<bar> < 2 ^ 53" using assms by (simp add: abs_mult)
  then show ?thesis using assms by (simp add: f_of_int_exact f_round_int_exact)
qed

lemma turns_between: "t \<le> t' \<Longrightarrow> uint (t' - t) = uint t' - uint (t :: u32)"
  by (simp add: uint_minus_simple_alt [symmetric])

lemma steady_difference:
  assumes "unat a + unat b * unat n < 2 ^ 64" "t \<le> t'" "t' \<le> (n :: u32)"
  shows "bytes_difference (a + b * ucast t') (a + b * ucast t) = f_of_int (uint b * uint (t' - t))"
proof -
  have "uint (a + b * ucast t') - uint (a + b * ucast t) = uint b * (uint t' - uint t)"
    using assms steady_bytes [OF assms(1), of t] steady_bytes [OF assms(1), of t']
    by (simp add: algebra_simps)
  then show ?thesis by (simp only: bytes_difference_def turns_between [OF assms(2)])
qed

lemma unat_mult_uint: "int (unat a * unat b) = uint a * uint b"
  by simp

lemma steady_rate:
  assumes "unat a + unat b * unat n < 2 ^ 64" "unat b * unat n < 2 ^ 53" "t < t'" "t' \<le> (n :: u32)"
  shows "f_div (bytes_difference (a + b * ucast t') (a + b * ucast t)) (f_of_int (uint (t' - t)))
    = Fin (of_int (uint b))"
proof -
  have "uint t < uint t'" "uint t' \<le> uint n" "0 \<le> uint t" "t \<le> t'"
    using assms(3,4) by (simp_all add: word_less_def word_le_def)
  then have turns: "0 < uint (t' - t)" "uint (t' - t) \<le> uint n"
    using turns_between [of t t'] by linarith+
  then have "uint b * uint (t' - t) \<le> uint b * uint n" by (intro mult_left_mono) simp_all
  moreover have "uint b * uint n < int (2 ^ 53)"
    unfolding unat_mult_uint [symmetric] of_nat_less_iff by (rule assms(2))
  ultimately have "\<bar>uint b * uint (t' - t)\<bar> < 2 ^ 53" by (simp add: abs_mult)
  from exact_rate [OF this turns(1)] show ?thesis
    using assms by (simp add: steady_difference turn_count_exact)
qed

lemma median_constant:
  assumes "xs \<noteq> []" "set xs \<subseteq> {Fin (of_int b)}" "\<bar>b\<bar> < 2 ^ 53"
  shows "median xs = Some (Fin (of_int b))"
proof -
  have nth: "i < length xs \<Longrightarrow> sort xs ! i = Fin (of_int b)" for i
    using assms(2) nth_mem [of i "sort xs"] by auto
  have "length xs div 2 < length xs" using assms(1) by simp
  with nth have "sort xs ! (length xs div 2) = Fin (of_int b)" "sort xs ! (length xs div 2 - 1) = Fin (of_int b)"
    by simp_all
  then show ?thesis
    using assms by (auto simp: median_def Let_def list_ex_iff f_round_half_exact f_round_int_exact)
qed

lemma pair_slopes_steady:
  assumes "sorted_wrt (<) ts" "\<forall>t \<in> set ts. t \<le> n"
    and "\<And>t t'. t < t' \<Longrightarrow> t' \<le> (n :: u32) \<Longrightarrow> point_slope (pt t) (pt t') = s"
  shows "set (pair_slopes (map pt ts)) \<subseteq> {s}"
  using assms(1,2) by (induction ts) (auto intro!: assms(3))

lemma bounded_rate_at:
  assumes "0 < k" "f_round d = Fin d" "65536 / of_int k \<le> d" "d < of_int (65536 div k + 1)"
    and "0 \<le> b" "b < 2 ^ 53"
  shows "f_le (Fin (of_int b)) (f_round (65536 / of_int k)) \<longleftrightarrow> b * k \<le> 65536"
proof -
  have b: "f_round (of_int b) = Fin (of_int b)" using assms by (simp add: f_round_int_exact)
  show ?thesis
  proof (cases "b * k \<le> 65536")
    case True
    then have "(of_int (b * k) :: rat) \<le> of_int 65536" by (simp only: of_int_le_iff)
    then have "of_int b \<le> (65536 / of_int k :: rat)" using assms(1) by (simp add: pos_le_divide_eq)
    from f_round_mono [OF this] True b show ?thesis by simp
  next
    case False
    have "65536 div k < b"
    proof (rule ccontr)
      assume "\<not> 65536 div k < b"
      then have "b * k \<le> (65536 div k) * k" using assms(1) by (intro mult_right_mono) simp_all
      also have "\<dots> \<le> 65536" using div_mult_mod_eq [of 65536 k] pos_mod_sign [OF assms(1), of 65536] by linarith
      finally show False using False by simp
    qed
    then have "of_int (65536 div k + 1) \<le> (of_int b :: rat)" by (simp only: of_int_le_iff)
    with assms(4) have "d < of_int b" by linarith
    moreover have "f_le (f_round (65536 / of_int k)) (Fin d)" using f_round_mono [OF assms(3)] assms(2) by simp
    ultimately show ?thesis using False by (cases "f_round (65536 / of_int k)") auto
  qed
qed

lemma bounded_rate:
  assumes "0 \<le> b" "b < 2 ^ 53" "n = 100 \<or> n = (1000 :: u32)"
  shows "f_le (Fin (of_int b)) (f_div (Fin 65536) (f_of_int (uint n))) \<longleftrightarrow> b * uint n \<le> 65536"
proof -
  have "f_round (1311 / 2) = Fin (1311 / 2)" by simp
  then have "n = 100 \<Longrightarrow> ?thesis"
    using bounded_rate_at [of 100 "1311 / 2" b] assms by (simp add: f_of_int_def)
  moreover have "(2 :: rat) powi (- 2) = 1 / 4" by (simp add: power_int_minus)
  then have "f_round (263 / 4) = Fin (263 / 4)"
    using f_round_exact [of 263 "- 2"] max_finite_bound_big by simp
  then have "n = 1000 \<Longrightarrow> ?thesis"
    using bounded_rate_at [of 1000 "263 / 4" b] assms by (simp add: f_of_int_def)
  ultimately show ?thesis using assms(3) by blast
qed

lemma constant_rate_class:
  assumes "0 \<le> b" "b < 2 ^ 53" "n = 100 \<or> n = 1000" "b * uint n \<le> 65536 \<longrightarrow> late_range \<le> 65536"
  shows "curve_class n late_range (Fin (of_int b)) (Fin (of_int b)) (Fin (of_int b)) =
    (if b * uint n \<le> 65536 then Bounded else Linear)"
proof -
  let ?b = "Fin (of_int b)"
  have "f_le ?b (f_add ?b (Fin 4096))"
    using f_round_mono [of "of_int b" "of_int b + 4096"] assms f_round_int_exact [of b] by simp
  moreover have "f_max ?b (Fin 0) = ?b" using assms(1) by simp
  ultimately have "\<not> f_lt (f_max (f_mul (Fin (5/4)) (f_max ?b (Fin 0))) (f_add (f_max ?b (Fin 0)) (Fin 4096))) ?b"
    by (cases "f_mul (Fin (5/4)) ?b"; cases "f_add ?b (Fin 4096)") (auto simp: f_lt_iff split: if_splits)
  then show ?thesis using assms bounded_rate [OF assms(1-3)] by (auto simp: curve_class_def)
qed

text \<open>A session whose allocated bytes grow by the same amount every turn is never called
  superlinear: it is bounded exactly when the whole growth is at most 64 KiB and linear otherwise,
  and the reported slope is the rate, with no rounding error.\<close>

theorem steady_growth_class:
  assumes "n = 100 \<or> n = 1000" "unat a + unat b * unat n < 2 ^ 64" "unat b * unat n < 2 ^ 53"
  shows "\<exists>e. evaluate_curve (steady_points n a b) n =
    Inr (if unat b * unat n \<le> 65536 then Bounded else Linear, Fin (of_nat (unat b)), e)"
proof -
  let ?b = "uint b" and ?pt = "\<lambda>t. \<lparr>cp_turn = t, cp_allocated_bytes = a + b * ucast t\<rparr>"
  let ?rate = "Fin (of_int (uint b))"
  have prod: "uint b * uint n < 2 ^ 53"
    using assms(3) unfolding unat_mult_uint [symmetric] by (metis of_nat_less_iff of_nat_numeral of_nat_power)
  have "?b * 1 \<le> ?b * uint n" using assms(1) by (intro mult_left_mono) auto
  with prod have small: "0 \<le> ?b" "?b < 2 ^ 53" by simp_all
  have slope: "point_slope (?pt t) (?pt t') = ?rate" if "t < t'" "t' \<le> n" for t t'
    using steady_rate [OF assms(2,3) that] by (simp add: point_slope_def)
  have "sorted_wrt (<) (drop 1 (checkpoints n))" "\<forall>t \<in> set (drop 1 (checkpoints n)). t \<le> n"
    using assms(1) by (auto simp: checkpoints_def)
  from pair_slopes_steady [OF this slope]
  have "set (pair_slopes (drop 1 (steady_points n a b))) \<subseteq> {?rate}"
    by (simp add: steady_points_def drop_map)
  moreover have "pair_slopes (drop 1 (steady_points n a b)) \<noteq> []"
    using assms(1) by (auto simp: steady_points_def checkpoints_def)
  ultimately have med: "median (pair_slopes (drop 1 (steady_points n a b))) = Some ?rate"
    using small by (intro median_constant) simp_all
  have at: "bytes_at (steady_points n a b) t = Inr (a + b * ucast t)" if "t \<in> {n div 2, n div 10, n}" for t
    using assms(1) that by (auto simp: bytes_at_def steady_points_def checkpoints_def)
  have turns: "map cp_turn (steady_points n a b) = checkpoints n"
    by (simp add: steady_points_def comp_def)
  have order: "n div 10 < n div 2" "n div 2 < n" "n div 2 \<le> n" using assms(1) by auto
  note rates = steady_rate [OF assms(2,3) order(1,3)] steady_rate [OF assms(2,3) order(2) order_refl]
  have diff: "uint (a + b * ucast n) - uint (a + b * ucast (n div 2)) = ?b * (uint n - uint (n div 2))"
    using steady_bytes [OF assms(2) order_refl] steady_bytes [OF assms(2) order(3)] by (simp add: algebra_simps)
  have "0 \<le> ?b * (uint n - uint (n div 2))" using order(3) by (simp add: word_le_def)
  with diff have le: "a + b * ucast (n div 2) \<le> a + b * ucast n" by (simp add: word_le_def)
  have "uint (abs_diff (a + b * ucast n) (a + b * ucast (n div 2))) = ?b * (uint n - uint (n div 2))"
    using le diff uint_minus_simple_alt [of "a + b * ucast (n div 2)" "a + b * ucast n"] by (simp add: abs_diff_def)
  also have "\<dots> \<le> ?b * uint n" by (intro mult_left_mono) simp_all
  finally have "?b * uint n \<le> 65536 \<longrightarrow> abs_diff (a + b * ucast n) (a + b * ucast (n div 2)) \<le> 65536"
    by (simp add: word_le_def)
  note cls = constant_rate_class [OF small assms(1) this]
  have "?b * uint n \<le> 65536 \<longleftrightarrow> unat b * unat n \<le> 65536"
    unfolding unat_mult_uint [symmetric] by (metis of_nat_le_iff of_nat_numeral)
  then show ?thesis
    using assms(1) cls
    by (simp add: evaluate_curve_def turns med at rates Let_def del: One_nat_def)
qed

theorem steady_growth_class_witness:
  "\<exists>e. evaluate_curve (steady_points 100 4096 700) 100 = Inr (Linear, Fin 700, e)"
  using steady_growth_class [of 100 4096 700] by simp

end
