(* ===== verification/Accounting.thy ===== *)
theory Accounting
  imports Storage_Config F64
begin

text \<open>
  The inventories of \<open>src/src/storage/accounting.rs\<close>: file entries, totals per family, growth
  between two inventories, the paths that changed, and the settle loop that retries a capture.  The
  walk of the file system, the clock and \<open>sync\<close> are arguments: what a capture returns and what the
  clock shows.  Sums of \<open>u64\<close> wrap (the release profile).
\<close>

section \<open>Inventories\<close>

record file_entry =
  fe_path :: string
  fe_kind :: string
  fe_device_id :: u64
  fe_inode_or_file_id :: u64
  fe_allocated_bytes :: u64
  fe_apparent_bytes :: u64
  fe_sha256 :: "string option"
  fe_family :: string

record inventory =
  inv_entries :: "file_entry list"
  inv_capture_retries :: "string list list"
  inv_stamps :: "(string, i64 \<times> i64 \<times> i64 \<times> i64) btree"

definition is_regular :: "file_entry \<Rightarrow> bool" where
  "is_regular e \<longleftrightarrow> fe_kind e = ''regular''"

definition allocated_bytes :: "inventory \<Rightarrow> u64" where
  "allocated_bytes iv = sum_list (map fe_allocated_bytes (filter is_regular (inv_entries iv)))"

definition apparent_bytes :: "inventory \<Rightarrow> u64" where
  "apparent_bytes iv = sum_list (map fe_apparent_bytes (filter is_regular (inv_entries iv)))"

definition regular_files :: "inventory \<Rightarrow> u64" where
  "regular_files iv = of_nat (length (filter is_regular (inv_entries iv)))"

definition add_to_family :: "(string, u64) btree \<Rightarrow> file_entry \<Rightarrow> (string, u64) btree" where
  "add_to_family totals e =
     bt_insert (fe_family e)
       ((case bt_get totals (fe_family e) of Some n \<Rightarrow> n | None \<Rightarrow> 0) + fe_allocated_bytes e) totals"

definition families :: "inventory \<Rightarrow> storage_config \<Rightarrow> (string, u64) btree" where
  "families iv c =
     foldl add_to_family
       (foldl (\<lambda>totals name. bt_insert name 0 totals) [(''other'', 0)] (map fst (declared_areas c)))
       (filter is_regular (inv_entries iv))"

definition file_growth :: "file_entry option \<Rightarrow> file_entry option \<Rightarrow> u64" where
  "file_growth before after =
     (case (before, after) of
        (Some b, Some a) \<Rightarrow>
          (if is_regular a \<and> is_regular b \<and> fe_device_id a = fe_device_id b
              \<and> fe_inode_or_file_id a = fe_inode_or_file_id b
              \<and> fe_apparent_bytes a \<ge> fe_apparent_bytes b
           then saturating_sub (fe_allocated_bytes a) (fe_allocated_bytes b) else 0)
      | _ \<Rightarrow> 0)"

definition entries_by_path :: "inventory \<Rightarrow> (string, file_entry) btree" where
  "entries_by_path iv = bt_of_list (map (\<lambda>e. (fe_path e, e)) (inv_entries iv))"

definition growth_since :: "inventory \<Rightarrow> inventory \<Rightarrow> u64" where
  "growth_since iv before =
     sum_list (map (\<lambda>after. file_growth (bt_get (entries_by_path before) (fe_path after)) (Some after))
       (inv_entries iv))"

definition changed_paths :: "inventory \<Rightarrow> inventory \<Rightarrow> string list" where
  "changed_paths a b =
     (let a_entries = entries_by_path a; b_entries = entries_by_path b
      in bset_of_list (filter
           (\<lambda>path. bt_get a_entries path \<noteq> bt_get b_entries path
                 \<or> bt_get (inv_stamps a) path \<noteq> bt_get (inv_stamps b) path)
           (map fst a_entries @ map fst b_entries @ map fst (inv_stamps a) @ map fst (inv_stamps b))))"

section \<open>Capture errors\<close>

definition transient_path :: "storage_config \<Rightarrow> string \<Rightarrow> bool" where
  "transient_path c path \<longleftrightarrow> family c path = Inr ''transient''"

definition capture_changed :: "string \<Rightarrow> storage_config \<Rightarrow> ahrb_error" where
  "capture_changed path c =
     (if transient_path c path then Io (TransientCaptureChange [path])
      else Protocol (''storage changed during capture at '' @ path))"

fun not_found :: "io_error \<Rightarrow> bool" where
  "not_found (SystemError missing _) = missing"
| "not_found (TransientCaptureChange _) = False"

definition capture_io :: "io_error \<Rightarrow> string \<Rightarrow> storage_config \<Rightarrow> ahrb_error" where
  "capture_io e path c = (if not_found e then capture_changed path c else Io e)"

fun transient_retry :: "ahrb_error \<Rightarrow> string list option" where
  "transient_retry (Io (TransientCaptureChange paths)) = Some paths"
| "transient_retry _ = None"

section \<open>Settling\<close>

text \<open>The Debug renderings of path lists that messages contain.\<close>

record capture_debug =
  dbg_paths :: "string list \<Rightarrow> string"
  dbg_path_set :: "string list \<Rightarrow> string"
  dbg_retries :: "string list list \<Rightarrow> string"

definition annotate_unsettled :: "capture_debug \<Rightarrow> ahrb_error \<Rightarrow> string list \<Rightarrow> ahrb_error" where
  "annotate_unsettled d error paths =
     (case error of
        Protocol reason \<Rightarrow>
          (if starts_with reason ''storage failed to settle'' \<and> paths \<noteq> []
           then Protocol (reason @ ''; last unstable paths='' @ dbg_paths d paths) else error)
      | _ \<Rightarrow> error)"

definition without_digests :: "inventory \<Rightarrow> inventory" where
  "without_digests iv = iv\<lparr>inv_entries := map (\<lambda>e. e\<lparr>fe_sha256 := None\<rparr>) (inv_entries iv)\<rparr>"

text \<open>
  One capture attempt, from what the three inventories of the file system return: two probes and the
  one with digests.  The new list of unstable paths comes first, the result second.
\<close>

definition capture_attempt ::
    "capture_debug \<Rightarrow> storage_config \<Rightarrow> ahrb_error + inventory \<Rightarrow> ahrb_error + inventory \<Rightarrow>
     ahrb_error + inventory \<Rightarrow> string list \<Rightarrow> string list \<times> (ahrb_error + inventory option)" where
  "capture_attempt d c probe1 probe2 digest unstable =
     (case probe1 of Inl e \<Rightarrow> (unstable, Inl e)
      | Inr before \<Rightarrow>
       (case probe2 of Inl e \<Rightarrow> (unstable, Inl e)
        | Inr after \<Rightarrow>
          (if before \<noteq> after then (changed_paths before after, Inr None)
           else case digest of Inl e \<Rightarrow> (unstable, Inl e)
            | Inr captured \<Rightarrow>
              (let metadata = without_digests captured; changed = changed_paths metadata after
               in (unstable,
                   if metadata \<noteq> after then
                     if list_ex (\<lambda>path. \<not> transient_path c path) changed
                     then Inl (Protocol (''storage undeclared paths changed between stability probe and digest: ''
                       @ dbg_path_set d changed))
                     else Inl (Io (TransientCaptureChange changed))
                   else Inr (Some captured))))))"

text \<open>
  The retry loop: \<open>clock n\<close> is the n-th reading of the clock and \<open>attempt k\<close> the k-th
  result of the attempt.  It reads the clock before each attempt, and once more after a capture.
  \<open>None\<close> is a loop that does not return (a clock that never reaches the limit).
\<close>

partial_function (option) settle_loop ::
    "capture_debug \<Rightarrow> nat \<Rightarrow> (nat \<Rightarrow> nat) \<Rightarrow> (nat \<Rightarrow> ahrb_error + inventory option) \<Rightarrow>
     nat \<Rightarrow> nat \<Rightarrow> string list list \<Rightarrow> (ahrb_error + inventory) option" where
  "settle_loop d limit clock attempt n k retries =
     (if clock n < limit then
        (case attempt k of
           Inr (Some captured) \<Rightarrow>
             (if clock (n + 1) \<le> limit then Some (Inr (captured\<lparr>inv_capture_retries := retries\<rparr>))
              else settle_loop d limit clock attempt (n + 2) (k + 1) retries)
         | Inr None \<Rightarrow> settle_loop d limit clock attempt (n + 1) (k + 1) retries
         | Inl error \<Rightarrow>
             (case transient_retry error of
                None \<Rightarrow> Some (Inl (if retries = [] then error
                  else Protocol (''storage capture failed: '' @ display_error (dbg_paths d) error
                    @ ''; transient capture attempts='' @ dbg_retries d retries)))
              | Some paths \<Rightarrow>
                  (if length (retries @ [paths]) \<ge> 3
                   then Some (Inl (Protocol
                     (''storage transient re-inventory exhausted after 3 capture attempts: ''
                      @ dbg_retries d (retries @ [paths]))))
                   else settle_loop d limit clock attempt (n + 1) (k + 1) (retries @ [paths]))))
      else Some (Inl (Protocol (''storage failed to settle within 10000 ms; transient capture attempts=''
        @ dbg_retries d retries))))"

definition settle_capture ::
    "capture_debug \<Rightarrow> nat \<Rightarrow> (nat \<Rightarrow> nat) \<Rightarrow> (nat \<Rightarrow> ahrb_error + inventory option) \<Rightarrow>
     (ahrb_error + inventory) option" where
  "settle_capture d limit clock attempt = settle_loop d limit clock attempt 0 0 []"

end
