(* ===== verification/Accounting_Properties.thy ===== *)
theory Accounting_Properties
  imports Accounting
begin

text \<open>
  The family totals partition the allocated bytes; changed paths are exact; the settle loop returns
  once the clock reaches its limit, returns only stable inventories, and retries at most
  twice and only for transient paths.
\<close>

section \<open>Families\<close>

definition total_of :: "(string, u64) btree \<Rightarrow> string \<Rightarrow> u64" where
  "total_of totals name = (case bt_get totals name of Some n \<Rightarrow> n | None \<Rightarrow> 0)"

lemma bt_get_below: "bt_wf m \<Longrightarrow> \<forall>k' \<in> set (map fst m). k < k' \<Longrightarrow> bt_get m k = None"
  by (induction m k rule: bt_get.induct) (auto simp: bt_wf_def)

lemma bt_insert_sum:
  "bt_wf m \<Longrightarrow> sum_list (map snd (bt_insert k v m)) + total_of m k = sum_list (map snd m) + (v :: u64)"
proof (induction k v m rule: bt_insert.induct)
  case (2 k v k' v' m)
  have wf: "bt_wf m" "\<forall>j \<in> set (map fst m). k' < j" using "2.prems" by (auto simp: bt_wf_def)
  consider "k < k'" | "k = k'" | "k' < k" by fastforce
  then show ?case
  proof cases
    case 1
    then have "bt_get ((k', v') # m) k = None" using "2.prems" wf by (intro bt_get_below) auto
    with 1 show ?thesis by (simp add: total_of_def)
  next
    case 2
    then show ?thesis by (simp add: total_of_def)
  next
    case 3
    then show ?thesis using "2.IH" wf by (auto simp: total_of_def algebra_simps)
  qed
qed (simp add: total_of_def)

lemma add_to_family_wf: "bt_wf totals \<Longrightarrow> bt_wf (add_to_family totals e)"
  by (simp add: add_to_family_def bt_wf_insert)

lemma add_to_family_sum:
  "bt_wf totals \<Longrightarrow>
    sum_list (map snd (add_to_family totals e)) = sum_list (map snd totals) + fe_allocated_bytes e"
  using bt_insert_sum [of totals "fe_family e" "total_of totals (fe_family e) + fe_allocated_bytes e"]
  by (simp add: add_to_family_def total_of_def algebra_simps)

lemma families_sum_from:
  "bt_wf totals \<Longrightarrow> sum_list (map snd (foldl add_to_family totals es)) =
     sum_list (map snd totals) + sum_list (map fe_allocated_bytes es)"
  by (induction es arbitrary: totals) (simp_all add: add_to_family_wf add_to_family_sum algebra_simps)

lemma zero_families:
  "bt_wf totals \<Longrightarrow> \<forall>v \<in> set (map snd totals). v = 0 \<Longrightarrow>
    bt_wf (foldl (\<lambda>totals name. bt_insert name 0 totals) totals names) \<and>
    (\<forall>v \<in> set (map snd (foldl (\<lambda>totals name. bt_insert name (0 :: u64) totals) totals names)). v = 0)"
proof (induction names arbitrary: totals)
  case (Cons name names)
  have "\<forall>v \<in> set (map snd (bt_insert name (0 :: u64) totals)). v = 0"
    using Cons.prems(2) by (induction totals) (fastforce split: if_splits)+
  with Cons.IH [of "bt_insert name 0 totals"] Cons.prems(1) show ?case by (simp add: bt_wf_insert)
qed simp

text \<open>The bytes of the families add up to the allocated bytes of the inventory: every regular file is
  counted in exactly one family, including families that no area declares.\<close>

theorem families_partition: "sum_list (map snd (families iv c)) = allocated_bytes iv"
proof -
  let ?zero = "foldl (\<lambda>totals name. bt_insert name 0 totals) [(''other'', 0 :: u64)] (map fst (declared_areas c))"
  have z: "bt_wf ?zero" "\<forall>v \<in> set (map snd ?zero). v = 0"
    using zero_families [of "[(''other'', 0)]" "map fst (declared_areas c)"] by (simp_all add: bt_wf_def)
  have "\<forall>v \<in> set vs. v = 0 \<Longrightarrow> sum_list vs = (0 :: u64)" for vs by (induction vs) auto
  with z(2) have "sum_list (map snd ?zero) = 0" by blast
  then show ?thesis
    using families_sum_from [OF z(1)] by (simp add: families_def allocated_bytes_def)
qed

section \<open>Changed paths\<close>

text \<open>The changed paths are listed in order, without duplicates, and are exactly those whose entry or
  stability stamp differs between the two inventories.\<close>

theorem changed_paths_exact:
  "sorted_wrt (<) (changed_paths a b) \<and>
   (path \<in> set (changed_paths a b) \<longleftrightarrow>
      bt_get (entries_by_path a) path \<noteq> bt_get (entries_by_path b) path
      \<or> bt_get (inv_stamps a) path \<noteq> bt_get (inv_stamps b) path)"
proof -
  have keys: "path \<in> fst ` set m \<longleftrightarrow> bt_get m path \<noteq> None" for m :: "(string \<times> 'b) list"
    using keys_bt_get [of m] by auto
  have "path \<in> set (changed_paths a b) \<longleftrightarrow>
      (bt_get (entries_by_path a) path \<noteq> None \<or> bt_get (entries_by_path b) path \<noteq> None
        \<or> bt_get (inv_stamps a) path \<noteq> None \<or> bt_get (inv_stamps b) path \<noteq> None)
      \<and> (bt_get (entries_by_path a) path \<noteq> bt_get (entries_by_path b) path
        \<or> bt_get (inv_stamps a) path \<noteq> bt_get (inv_stamps b) path)"
    by (simp only: changed_paths_def Let_def set_bset_of_list set_filter set_append set_map
        mem_Collect_eq Un_iff keys)
  moreover have "sorted_wrt (<) (changed_paths a b)"
    unfolding changed_paths_def Let_def by (rule bset_of_list_sorted)
  ultimately show ?thesis by metis
qed

theorem changed_paths_exact_witness:
  "''t/x'' \<in> set (changed_paths \<lparr>inv_entries = [], inv_capture_retries = [], inv_stamps = []\<rparr>
     \<lparr>inv_entries = [], inv_capture_retries = [], inv_stamps = [(''t/x'', (0, 0, 1, 0))]\<rparr>)"
  by (simp add: changed_paths_exact entries_by_path_def)

section \<open>The settle loop\<close>

definition transient_retries :: "(nat \<Rightarrow> ahrb_error + inventory option) \<Rightarrow> nat \<Rightarrow> nat \<Rightarrow> string list list" where
  "transient_retries attempt k j =
     List.map_filter (\<lambda>i. case attempt i of Inl e \<Rightarrow> transient_retry e | Inr _ \<Rightarrow> None) [k..<j]"

lemma transient_retries_step:
  "k < j \<Longrightarrow> transient_retries attempt k j =
    (case attempt k of Inl e \<Rightarrow> (case transient_retry e of Some p \<Rightarrow> [p] | None \<Rightarrow> []) | Inr _ \<Rightarrow> [])
    @ transient_retries attempt (Suc k) j"
  by (simp add: transient_retries_def upt_rec [of k] map_filter_simps split: sum.splits option.splits)

definition settled_at ::
    "(nat \<Rightarrow> ahrb_error + inventory option) \<Rightarrow> nat \<Rightarrow> string list list \<Rightarrow> inventory \<Rightarrow> bool" where
  "settled_at attempt k retries iv \<longleftrightarrow>
     (\<exists>j c. k \<le> j \<and> attempt j = Inr (Some c)
        \<and> iv = c\<lparr>inv_capture_retries := retries @ transient_retries attempt k j\<rparr>
        \<and> length (inv_capture_retries iv) \<le> 2)"

lemma settled_at_step:
  assumes "settled_at attempt (Suc k) (retries @ now) iv"
    and "now = (case attempt k of Inl e \<Rightarrow> (case transient_retry e of Some p \<Rightarrow> [p] | None \<Rightarrow> []) | Inr _ \<Rightarrow> [])"
  shows "settled_at attempt k retries iv"
proof -
  from assms(1) obtain j c where j: "Suc k \<le> j" "attempt j = Inr (Some c)"
    "iv = c\<lparr>inv_capture_retries := (retries @ now) @ transient_retries attempt (Suc k) j\<rparr>"
    "length (inv_capture_retries iv) \<le> 2"
    by (auto simp: settled_at_def)
  moreover have "retries @ transient_retries attempt k j = (retries @ now) @ transient_retries attempt (Suc k) j"
    using j(1) assms(2) by (simp add: transient_retries_step [of k j])
  ultimately show ?thesis unfolding settled_at_def by (intro exI [of _ j] exI [of _ c]) simp
qed

lemma settle_loop_ok:
  assumes "settle_loop d limit clock attempt n k retries = Some r"
  shows "length retries \<le> 2 \<longrightarrow> r = Inr iv \<longrightarrow> settled_at attempt k retries iv"
proof (rule settle_loop.raw_induct [where P = "\<lambda>d limit clock attempt n k retries r.
    length retries \<le> 2 \<longrightarrow> r = Inr iv \<longrightarrow> settled_at attempt k retries iv", OF _ assms], intro impI, goal_cases)
  case (1 loop d limit clock attempt n k retries r)
  note IH = "1"(1) and body = "1"(2) and len = "1"(3) and r = "1"(4)
  have go: "clock n < limit" using body r by (auto split: if_splits)
  show ?case
  proof (cases "attempt k")
    case (Inl e)
    show ?thesis
    proof (cases "transient_retry e")
      case None
      then show ?thesis using body r go Inl by simp
    next
      case (Some paths)
      then have "loop d limit clock attempt (n + 1) (k + 1) (retries @ [paths]) = Some r"
        and "length (retries @ [paths]) \<le> 2"
        using body r go Inl by (auto split: if_splits)
      from IH [OF this(1)] this(2) r have "settled_at attempt (Suc k) (retries @ [paths]) iv" by simp
      then show ?thesis by (rule settled_at_step) (simp add: Inl Some)
    qed
  next
    case (Inr captured)
    have skip: "settled_at attempt (Suc k) retries iv \<Longrightarrow> ?thesis"
      by (rule settled_at_step [where now = "[]"]) (simp_all add: Inr)
    show ?thesis
    proof (cases captured)
      case None
      then have "loop d limit clock attempt (n + 1) (k + 1) retries = Some r" using body go Inr by simp
      from IH [OF this] len r show ?thesis using skip by simp
    next
      case (Some c)
      show ?thesis
      proof (cases "clock (n + 1) \<le> limit")
        case True
        then have "iv = c\<lparr>inv_capture_retries := retries\<rparr>" using body go Inr Some r by simp
        then show ?thesis
          using Inr Some len by (auto simp: settled_at_def transient_retries_def map_filter_simps intro!: exI [of _ k])
      next
        case False
        then have "loop d limit clock attempt (n + 2) (k + 1) retries = Some r" using body go Inr Some by simp
        from IH [OF this] len r show ?thesis using skip by simp
      qed
    qed
  qed
qed

definition plain_capture_debug :: capture_debug where
  "plain_capture_debug = \<lparr>dbg_paths = join '', '', dbg_path_set = join '', '',
     dbg_retries = (\<lambda>rs. join ''; '' (map (join '', '') rs))\<rparr>"

text \<open>C6: the settle loop returns, with an inventory or an error, whenever the clock is monotone and
  reaches the limit, whatever the attempts return.\<close>

theorem settle_capture_returns:
  assumes "mono clock" "limit \<le> clock N"
  shows "\<exists>r. settle_capture d limit clock attempt = Some r"
proof -
  have "\<exists>r. settle_loop d limit clock attempt n k retries = Some r" for n k retries
  proof (induction "N - n" arbitrary: n k retries rule: less_induct)
    case less
    show ?case
    proof (cases "clock n < limit")
      case True
      have "n < N"
      proof (rule ccontr)
        assume "\<not> n < N"
        then have "clock N \<le> clock n" using assms(1) by (simp add: mono_def)
        with True assms(2) show False by simp
      qed
      then have IH: "\<exists>r. settle_loop d limit clock attempt m k retries = Some r" if "n < m" for m k retries
        using that by (intro less) simp
      note next1 = IH [of "n + 1"] and next2 = IH [of "n + 2"]
      show ?thesis
        by (subst settle_loop.simps)
          (auto simp: next1 next2 [simplified] split: sum.splits option.splits intro: next1 [simplified])
    qed (subst settle_loop.simps, simp)
  qed
  then show ?thesis by (simp add: settle_capture_def)
qed

theorem settle_capture_returns_witness:
  "\<exists>r. settle_capture plain_capture_debug 10 (\<lambda>n. n) (\<lambda>_. Inr None) = Some r"
  by (rule settle_capture_returns [of _ _ 10]) (simp_all add: mono_def)

definition transient_error :: "storage_config \<Rightarrow> ahrb_error + 'a \<Rightarrow> bool" where
  "transient_error c r \<longleftrightarrow> (\<forall>e paths path. r = Inl e \<longrightarrow> transient_retry e = Some paths \<longrightarrow>
     path \<in> set paths \<longrightarrow> transient_path c path)"

lemma capture_changed_transient: "transient_error c (Inl (capture_changed path c))"
  by (auto simp: transient_error_def capture_changed_def)

lemma capture_attempt_ok:
  "snd (capture_attempt d c p1 p2 digest unstable) = Inr (Some captured) \<longleftrightarrow>
     p1 = Inr (without_digests captured) \<and> p2 = Inr (without_digests captured) \<and> digest = Inr captured"
  by (auto simp: capture_attempt_def Let_def split: sum.splits)

lemma capture_attempt_transient:
  assumes "transient_error c p1" "transient_error c p2" "transient_error c digest"
  shows "transient_error c (snd (capture_attempt d c p1 p2 digest unstable))"
  using assms
  by (cases p1; cases p2; cases digest)
    (auto simp: capture_attempt_def transient_error_def Let_def list_ex_iff)

text \<open>C7: an inventory the settle loop returns is stable and its retries were honest: both probes and
  the inventory with digests agree on everything but the digests, it records at most two
  retries, and every path that caused a retry belongs to the transient family, provided the walk of the
  file system reports transient changes the way \<open>capture_changed\<close> does.\<close>

theorem settled_inventory_is_stable:
  assumes "\<And>k. attempt k = snd (capture_attempt d c (probe1 k) (probe2 k) (digest k) (unstable k))"
    and "\<And>k. transient_error c (probe1 k) \<and> transient_error c (probe2 k) \<and> transient_error c (digest k)"
    and "settle_capture d limit clock attempt = Some (Inr iv)"
  shows "(\<exists>j captured. digest j = Inr captured \<and> probe1 j = Inr (without_digests captured)
      \<and> probe2 j = Inr (without_digests captured)
      \<and> iv = captured\<lparr>inv_capture_retries := inv_capture_retries iv\<rparr>)
    \<and> length (inv_capture_retries iv) \<le> 2
    \<and> (\<forall>paths \<in> set (inv_capture_retries iv). \<forall>path \<in> set paths. transient_path c path)"
proof -
  from settle_loop_ok [OF assms(3) [unfolded settle_capture_def], of iv] obtain j captured
    where j: "attempt j = Inr (Some captured)" "iv = captured\<lparr>inv_capture_retries := transient_retries attempt 0 j\<rparr>"
      "length (inv_capture_retries iv) \<le> 2"
    by (auto simp: settled_at_def)
  have "transient_error c (attempt k)" for k
    using assms(2) unfolding assms(1) by (intro capture_attempt_transient) blast+
  then have "\<forall>paths \<in> set (inv_capture_retries iv). \<forall>path \<in> set paths. transient_path c path"
    unfolding j(2) transient_error_def
    by (fastforce simp: transient_retries_def map_filter_def split: sum.splits)
  moreover have "probe1 j = Inr (without_digests captured) \<and> probe2 j = Inr (without_digests captured)
      \<and> digest j = Inr captured"
    using j(1) unfolding assms(1) capture_attempt_ok .
  ultimately show ?thesis using j(2,3) by (intro conjI exI [of _ j] exI [of _ captured]) simp_all
qed

definition sample_transient :: storage_config where
  "sample_transient = \<lparr>sc_areas = Some [(''transient'', [''t/**''])], sc_session_delete = None,
     sc_uninstall_cleanup = None, sc_sweep_interval_s = None, sc_session_close = None,
     sc_retention_cap_bytes = None, sc_auxiliary_cap_bytes = None, sc_workspace_path = None\<rparr>"

definition empty_inventory :: inventory where
  "empty_inventory = \<lparr>inv_entries = [], inv_capture_retries = [], inv_stamps = []\<rparr>"

definition sample_attempt :: "nat \<Rightarrow> ahrb_error + inventory option" where
  "sample_attempt k = snd (capture_attempt plain_capture_debug sample_transient
     (if k = 0 then Inl (capture_changed ''t/x'' sample_transient) else Inr empty_inventory)
     (Inr empty_inventory) (Inr empty_inventory) [])"

theorem settled_inventory_is_stable_witness:
  "settle_capture plain_capture_debug 10 (\<lambda>n. n) sample_attempt =
     Some (Inr (empty_inventory\<lparr>inv_capture_retries := [[''t/x'']]\<rparr>))
   \<and> transient_path sample_transient ''t/x''"
proof -
  let ?iv = "empty_inventory\<lparr>inv_capture_retries := [[''t/x'']]\<rparr>"
  have t: "transient_path sample_transient ''t/x''"
    by (simp add: transient_path_def family_def declared_areas_def sample_transient_def glob_matches_def
        component_matches_lang)
  have a: "sample_attempt 0 = Inl (Io (TransientCaptureChange [''t/x'']))"
    "sample_attempt (Suc 0) = Inr (Some empty_inventory)"
    using t by (simp_all add: sample_attempt_def capture_attempt_def capture_changed_def without_digests_def
        empty_inventory_def)
  have loop: "settle_capture plain_capture_debug 10 (\<lambda>n. n) sample_attempt = Some (Inr ?iv)"
    unfolding settle_capture_def
    by (subst settle_loop.simps, simp add: a, subst settle_loop.simps, simp add: a)
  have "transient_error sample_transient (Inr empty_inventory)" by (simp add: transient_error_def)
  then have errors: "transient_error sample_transient
        (if k = 0 then Inl (capture_changed ''t/x'' sample_transient) else Inr empty_inventory)
      \<and> transient_error sample_transient (Inr empty_inventory)
      \<and> transient_error sample_transient (Inr empty_inventory)" for k :: nat
    by (simp add: capture_changed_transient)
  from settled_inventory_is_stable [OF sample_attempt_def errors loop]
  have "\<forall>paths \<in> set (inv_capture_retries ?iv). \<forall>path \<in> set paths. transient_path sample_transient path" by simp
  with loop show ?thesis by simp
qed

end
