(* ===== verification/Lifecycle.thy ===== *)
theory Lifecycle
  imports Accounting Outcomes
begin

text \<open>
  The lifecycle oracles of \<open>src/src/storage/lifecycle.rs\<close>: residue after a declared deletion,
  outcome precedences, the resume timing bracket, compaction and the close evaluation.  The
  diagnostics records are those of \<open>src/src/storage/evidence.rs\<close>.
\<close>

section \<open>Residue\<close>

definition in_scope :: "string list \<Rightarrow> string \<Rightarrow> bool" where
  "in_scope scope path \<longleftrightarrow> list_ex (\<lambda>p. p = [] \<or> path = p \<or> starts_with path (p @ ''/'')) scope"

definition differs :: "file_entry \<Rightarrow> file_entry option \<Rightarrow> bool" where
  "differs e old =
     (case old of None \<Rightarrow> True
      | Some b \<Rightarrow> \<not> is_regular b \<or> fe_device_id b \<noteq> fe_device_id e
          \<or> fe_inode_or_file_id b \<noteq> fe_inode_or_file_id e \<or> fe_sha256 b \<noteq> fe_sha256 e)"

definition residue :: "inventory \<Rightarrow> inventory \<Rightarrow> string list \<Rightarrow> file_entry list" where
  "residue before after scope =
     (let old = entries_by_path before
      in filter (\<lambda>e. differs e (bt_get old (fe_path e)))
           (filter (\<lambda>e. in_scope scope (fe_path e)) (filter is_regular (inv_entries after))))"

definition scope_changed :: "inventory \<Rightarrow> inventory \<Rightarrow> string list \<Rightarrow> bool" where
  "scope_changed before after scope \<longleftrightarrow>
     list_ex (\<lambda>e. \<not> list_ex (\<lambda>a. is_regular a \<and> fe_path a = fe_path e) (inv_entries after))
       (filter (\<lambda>e. is_regular e \<and> in_scope scope (fe_path e)) (inv_entries before))
     \<or> residue before after scope \<noteq> []"

section \<open>Outcome precedence\<close>

text \<open>\<open>Iterator::max_by_key\<close>: the last of the elements with the greatest key.\<close>

definition max_by_key :: "('a \<Rightarrow> nat) \<Rightarrow> 'a list \<Rightarrow> 'a option" where
  "max_by_key key xs =
     (case xs of [] \<Rightarrow> None | x # ys \<Rightarrow> Some (foldl (\<lambda>m y. if key m \<le> key y then y else m) x ys))"

fun declared_rank :: "test_outcome \<Rightarrow> nat" where
  "declared_rank (Error _) = 5"
| "declared_rank (Fail _) = 4"
| "declared_rank (Absent _) = 3"
| "declared_rank (Unsupported _) = 2"
| "declared_rank Pass = 1"

definition declared_outcome :: "test_outcome list \<Rightarrow> test_outcome" where
  "declared_outcome outcomes =
     (case max_by_key declared_rank outcomes of Some o' \<Rightarrow> o'
      | None \<Rightarrow> Unsupported ''no declared deletion operations'')"

fun aggregate_rank :: "test_outcome \<Rightarrow> nat" where
  "aggregate_rank (Error _) = 5"
| "aggregate_rank (Absent _) = 4"
| "aggregate_rank (Unsupported _) = 3"
| "aggregate_rank (Fail _) = 2"
| "aggregate_rank Pass = 1"

definition aggregate_outcome :: "test_outcome list \<Rightarrow> test_outcome" where
  "aggregate_outcome outcomes =
     (case max_by_key aggregate_rank outcomes of Some o' \<Rightarrow> o'
      | None \<Rightarrow> Error ''missing repetition evidence'')"

section \<open>Resume\<close>

datatype resume_path_kind = ExecContinuation | ExecControlContinuation | DaemonExecContinuation
  | DaemonExecControlContinuation | DaemonReattach

fun resume_path :: "bool \<Rightarrow> bool \<Rightarrow> bool \<Rightarrow> resume_path_kind option" where
  "resume_path True False _ = None"
| "resume_path True True False = Some ExecContinuation"
| "resume_path True True True = Some ExecControlContinuation"
| "resume_path False True False = Some DaemonExecContinuation"
| "resume_path False True True = Some DaemonExecControlContinuation"
| "resume_path False False _ = Some DaemonReattach"

record identity_receipt =
  ir_pid :: u32
  ir_start_time :: u64
  ir_source :: string
  ir_first_bytes :: "u64 option"
  ir_last_bytes :: "u64 option"
  ir_retirement_method :: string
  ir_complete :: bool

record resume_diagnostics =
  rd_per_invocation_topology :: bool
  rd_transport_kind :: transport_kind
  rd_resume_control_declared :: bool
  rd_resume_path :: "resume_path_kind option"
  rd_reattach_start_ns :: "u64 option"
  rd_read_start_ns :: "u64 option"
  rd_control_start_ns :: "u64 option"
  rd_control_end_ns :: "u64 option"
  rd_continuation_start_ns :: "u64 option"
  rd_counter_start_ns :: "u64 option"
  rd_resume_start_ns :: "u64 option"
  rd_first_request_ns :: "u64 option"
  rd_counter_end_ns :: "u64 option"
  rd_start_skew_ns :: "u64 option"
  rd_end_skew_ns :: "u64 option"
  rd_first_read_bytes :: "u64 option"
  rd_last_read_bytes :: "u64 option"
  rd_cursor :: "u64 option"
  rd_expected_cursor :: "u64 option"
  rd_total_resume_latency_ms :: "f64 option"
  rd_session_id_hash :: "string option"
  rd_expected_session_id_hash :: "string option"
  rd_identities :: "identity_receipt list"

definition bracket_fail :: "string \<Rightarrow> ahrb_error" where
  "bracket_fail s = Protocol (''storage resume bracket: '' @ s)"

fun checked_total :: "u64 option list \<Rightarrow> u64 \<Rightarrow> u64 option" where
  "checked_total [] v = Some v"
| "checked_total (x # xs) v =
     Option.bind x (\<lambda>n. Option.bind (checked_add v n) (checked_total xs))"

text \<open>The order of \<open>Option\<close>: \<open>None\<close> is below every \<open>Some\<close>.\<close>

fun option_less :: "u64 option \<Rightarrow> u64 option \<Rightarrow> bool" where
  "option_less None y = (y \<noteq> None)"
| "option_less (Some _) None = False"
| "option_less (Some x) (Some y) = (x < y)"

definition control_ordered :: "resume_diagnostics \<Rightarrow> u64 \<Rightarrow> ahrb_error + unit" where
  "control_ordered d reattach =
     (case (rd_control_start_ns d, rd_control_end_ns d, rd_continuation_start_ns d) of
        (Some start, Some finish, Some continuation) \<Rightarrow>
          (if start < reattach \<or> finish < start \<or> continuation < finish
           then Inl (bracket_fail ''control and continuation are not ordered'')
           else if \<not> list_ex (\<lambda>i. ir_retirement_method i = ''RetiredAfterFinalSample'') (rd_identities d)
           then Inl (bracket_fail ''missing control retirement'')
           else Inr ())
      | _ \<Rightarrow> Inr ())"

definition reads_reconcile :: "resume_diagnostics \<Rightarrow> ahrb_error + unit" where
  "reads_reconcile d =
     (if rd_identities d = []
         \<or> list_ex (\<lambda>i. \<not> ir_complete i \<or> ir_first_bytes i = None \<or> ir_last_bytes i = None) (rd_identities d)
      then Inl (bracket_fail ''incomplete owned identities'')
      else let first = checked_total (map ir_first_bytes (rd_identities d)) 0;
               final = checked_total (map ir_last_bytes (rd_identities d)) 0
           in if first \<noteq> rd_first_read_bytes d \<or> final \<noteq> rd_last_read_bytes d \<or> first = None
                 \<or> option_less final first
              then Inl (bracket_fail ''identity read counters do not reconcile'')
              else Inr ())"

text \<open>The result is \<open>None\<close> where \<open>unwrap\<close> panics.\<close>

definition validate_resume_bracket :: "resume_diagnostics \<Rightarrow> (ahrb_error + unit) option" where
  "validate_resume_bracket d =
     (let e = (rd_transport_kind d = TK_Exec);
          p = rd_per_invocation_topology d;
          c = (e \<and> rd_resume_control_declared d);
          expected = resume_path p e (rd_resume_control_declared d)
      in if expected = None \<or> rd_resume_path d \<noteq> expected
         then Some (Inl (bracket_fail ''unsupported or inconsistent path''))
         else case ok_or (rd_reattach_start_ns d) (bracket_fail ''missing reattach boundary'') of
           Inl err \<Rightarrow> Some (Inl err)
         | Inr reattach \<Rightarrow>
           (if (rd_continuation_start_ns d \<noteq> None) \<noteq> e \<or> (rd_control_start_ns d \<noteq> None) \<noteq> c
               \<or> (rd_control_end_ns d \<noteq> None) \<noteq> c
            then Some (Inl (bracket_fail ''missing applicable or invented inapplicable launch/exit boundary''))
            else let origin = (if \<not> p then Some reattach else if c then rd_control_start_ns d
                               else rd_continuation_start_ns d);
                     headline = (if p then rd_continuation_start_ns d else Some reattach)
              in if rd_read_start_ns d \<noteq> origin \<or> rd_resume_start_ns d \<noteq> headline
                 then Some (Inl (bracket_fail ''incorrect topology/control origin''))
                 else case ok_or (rd_counter_start_ns d) (bracket_fail ''missing initial counter boundary'') of
                   Inl err \<Rightarrow> Some (Inl err)
                 | Inr counter_start \<Rightarrow>
                  (case ok_or (rd_counter_end_ns d) (bracket_fail ''missing final counter boundary'') of
                     Inl err \<Rightarrow> Some (Inl err)
                   | Inr counter_end \<Rightarrow>
                    (case ok_or (rd_first_request_ns d) (bracket_fail ''missing provider receipt'') of
                       Inl err \<Rightarrow> Some (Inl err)
                     | Inr first_request \<Rightarrow>
                       Option.bind origin (\<lambda>origin. Option.bind headline (\<lambda>headline.
                         if \<not> (counter_start \<le> origin \<and> origin \<le> headline \<and> headline \<le> first_request
                               \<and> first_request \<le> counter_end \<and> reattach \<le> headline)
                         then Some (Inl (bracket_fail ''counter interval does not enclose resume''))
                         else Some (and_then (control_ordered d reattach) (\<lambda>_.
                           if rd_start_skew_ns d \<noteq> Some (origin - counter_start)
                              \<or> rd_end_skew_ns d \<noteq> Some (counter_end - first_request)
                           then Inl (bracket_fail ''incorrect counter skew'')
                           else reads_reconcile d))))))))"

section \<open>Compaction\<close>

record compaction_values =
  cs_compaction_before_allocated_bytes :: "f64 option"
  cs_compaction_after_allocated_bytes :: "f64 option"
  cs_compaction_freed_pct :: "f64 option"

definition compaction_summary :: "u64 \<Rightarrow> u64 \<Rightarrow> compaction_values" where
  "compaction_summary before after =
     \<lparr>cs_compaction_before_allocated_bytes = Some (f_of_int (uint before)),
      cs_compaction_after_allocated_bytes = Some (f_of_int (uint after)),
      cs_compaction_freed_pct =
        (if before \<noteq> 0
         then Some (f_div (f_mul (Fin 100) (f_of_int (uint before - uint after))) (f_of_int (uint before)))
         else None)\<rparr>"

section \<open>Closing sessions\<close>

datatype close_phase = Immediate | PostSweep

record close_checkpoint =
  ck_closed_sessions :: u64
  ck_elapsed_s :: f64
  ck_phase :: close_phase
  ck_retained_allocated_bytes :: u64

record close_receipt =
  cr_session_id_hash :: string
  cr_exit_code :: i32
  cr_receipt_sha256 :: string

record close_diagnostics =
  cd_store_baseline_allocated_bytes :: "u64 option"
  cd_checkpoints :: "close_checkpoint list"
  cd_close_receipts :: "close_receipt list"

datatype bound_class = BoundedBytes | UnboundedBytes

record close_summary =
  cl_closed_sessions :: "u64 option"
  cl_close_retained_bytes_per_session :: "f64 option"
  cl_close_retained_after_sweep_bytes_per_session :: "f64 option"
  cl_retention_cap_bytes :: "u64 option"
  cl_close_retention_class :: "bound_class option"

definition close_bad :: "string \<Rightarrow> ahrb_error" where
  "close_bad reason = Protocol (''S5 incomplete close evidence: '' @ reason)"

definition is_hexdigit :: "char \<Rightarrow> bool" where
  "is_hexdigit c \<longleftrightarrow> (let n = of_char c :: nat in 48 \<le> n \<and> n \<le> 57 \<or> 65 \<le> n \<and> n \<le> 70 \<or> 97 \<le> n \<and> n \<le> 102)"

text \<open>A text of 64 bytes that are all hex digits; such a text has 64 characters.\<close>

definition is_sha256 :: "string \<Rightarrow> bool" where
  "is_sha256 s \<longleftrightarrow> length s = 64 \<and> list_all is_hexdigit s"

fun receipts_valid :: "string set \<Rightarrow> close_receipt list \<Rightarrow> bool" where
  "receipts_valid seen [] = True"
| "receipts_valid seen (r # rs) \<longleftrightarrow>
     cr_exit_code r = 0 \<and> is_sha256 (cr_receipt_sha256 r) \<and> is_sha256 (cr_session_id_hash r)
     \<and> cr_session_id_hash r \<notin> seen \<and> receipts_valid (insert (cr_session_id_hash r) seen) rs"

definition expected_checkpoints :: "u64 \<Rightarrow> u64 list" where
  "expected_checkpoints sessions =
     filter (\<lambda>n. n mod 10 = 0 \<or> n = sessions) (map of_nat [0..<Suc (unat sessions)])"

definition per_session :: "close_checkpoint \<Rightarrow> u64 \<Rightarrow> f64" where
  "per_session c sessions =
     f_div (f_of_int (uint (ck_retained_allocated_bytes c))) (f_of_int (uint sessions))"

definition post_sweep_ok :: "u64 option \<Rightarrow> u64 \<Rightarrow> close_checkpoint list \<Rightarrow> ahrb_error + unit" where
  "post_sweep_ok sweep sessions post =
     (case sweep of
        Some interval \<Rightarrow>
          (case post of
             [c] \<Rightarrow> (if ck_closed_sessions c \<noteq> sessions \<or> f_lt (ck_elapsed_s c) (f_of_int (uint interval))
                    then Inl (close_bad ''missing/early post-sweep checkpoint'') else Inr ())
           | _ \<Rightarrow> Inl (close_bad ''missing/early post-sweep checkpoint''))
      | None \<Rightarrow> (if post \<noteq> [] then Inl (close_bad ''undeclared post-sweep measurement'') else Inr ()))"

definition evaluate_close ::
    "storage_config \<Rightarrow> u64 \<Rightarrow> close_diagnostics \<Rightarrow> ahrb_error + close_summary \<times> test_outcome" where
  "evaluate_close config sessions d =
     (if sessions = 0 \<or> cd_store_baseline_allocated_bytes d = None
      then Inl (close_bad ''missing warm store baseline or session budget'')
      else if of_nat (length (cd_close_receipts d)) \<noteq> sessions
      then Inl (close_bad ''missing public close receipt'')
      else if \<not> receipts_valid {} (cd_close_receipts d)
      then Inl (close_bad ''invalid/duplicate close receipt'')
      else let immediate = filter (\<lambda>c. ck_phase c = Immediate) (cd_checkpoints d);
               post = filter (\<lambda>c. ck_phase c = PostSweep) (cd_checkpoints d)
        in if map ck_closed_sessions immediate \<noteq> expected_checkpoints sessions
              \<or> (case immediate of [] \<Rightarrow> True | c # _ \<Rightarrow> ck_retained_allocated_bytes c \<noteq> 0)
              \<or> list_ex (\<lambda>c. \<not> f_is_finite (ck_elapsed_s c) \<or> f_lt (ck_elapsed_s c) (Fin 0)) (cd_checkpoints d)
           then Inl (close_bad ''missing, unordered or invalid checkpoint'')
           else and_then (post_sweep_ok (sc_sweep_interval_s config) sessions post) (\<lambda>_.
             let class = map_option (\<lambda>cap.
                   if (if sc_sweep_interval_s config \<noteq> None
                       then (case post of c # _ \<Rightarrow> ck_retained_allocated_bytes c \<le> cap | [] \<Rightarrow> False)
                       else list_all (\<lambda>c. ck_retained_allocated_bytes c \<le> cap) immediate)
                   then BoundedBytes else UnboundedBytes) (sc_retention_cap_bytes config);
                 summary = \<lparr>cl_closed_sessions = Some sessions,
                   cl_close_retained_bytes_per_session =
                     (if immediate = [] then None else Some (per_session (last immediate) sessions)),
                   cl_close_retained_after_sweep_bytes_per_session =
                     (case post of [] \<Rightarrow> None | c # _ \<Rightarrow> Some (per_session c sessions)),
                   cl_retention_cap_bytes = sc_retention_cap_bytes config,
                   cl_close_retention_class = class\<rparr>
             in Inr (summary, if class \<noteq> None then Pass
                  else Unsupported ''no declared retention cap; byte observations retained'')))"

end
