(* ===== verification/Lifecycle_Properties.thy ===== *)
theory Lifecycle_Properties
  imports Lifecycle
begin

text \<open>
  What the lifecycle oracles decide: a scope is unchanged exactly when its regular files are, the two
  precedences of outcomes, the ordering an accepted resume bracket guarantees, and what an
  accepted close evaluation says.
\<close>

section \<open>Scopes\<close>

definition identity_of :: "file_entry \<Rightarrow> u64 \<times> u64 \<times> string option" where
  "identity_of e = (fe_device_id e, fe_inode_or_file_id e, fe_sha256 e)"

definition file_identity :: "inventory \<Rightarrow> string \<Rightarrow> (u64 \<times> u64 \<times> string option) option" where
  "file_identity iv path = (case bt_get (entries_by_path iv) path of
     Some e \<Rightarrow> if is_regular e then Some (identity_of e) else None
   | None \<Rightarrow> None)"

definition unique_paths :: "inventory \<Rightarrow> bool" where
  "unique_paths iv \<longleftrightarrow> distinct (map fe_path (inv_entries iv))"

lemma entry_at:
  assumes "unique_paths iv"
  shows "bt_get (entries_by_path iv) path = Some e \<longleftrightarrow> e \<in> set (inv_entries iv) \<and> fe_path e = path"
proof -
  have "distinct (map fst (rev (map (\<lambda>e. (fe_path e, e)) (inv_entries iv))))"
    using assms by (simp add: unique_paths_def comp_def rev_map [symmetric])
  then show ?thesis
    unfolding entries_by_path_def bt_get_of_list by (auto simp: map_of_eq_Some_iff)
qed

lemma differs_identity:
  assumes "is_regular e"
  shows "differs e (bt_get (entries_by_path before) path) \<longleftrightarrow>
    file_identity before path \<noteq> Some (identity_of e)"
  by (auto simp: differs_def file_identity_def identity_of_def split: option.splits)

lemma file_identity_Some:
  "unique_paths iv \<Longrightarrow> file_identity iv path = Some i \<longleftrightarrow>
    (\<exists>e \<in> set (inv_entries iv). is_regular e \<and> fe_path e = path \<and> identity_of e = i)"
  by (auto simp: file_identity_def entry_at split: option.splits if_splits)
    (metis entry_at option.distinct(1) option.inject)+

lemma file_identity_None:
  "unique_paths iv \<Longrightarrow> file_identity iv path = None \<longleftrightarrow>
    \<not> (\<exists>e \<in> set (inv_entries iv). is_regular e \<and> fe_path e = path)"
  using file_identity_Some [of iv path] by (metis not_None_eq)

text \<open>A scope counts as unchanged exactly when, at every path in it, both inventories have no
  regular file or the same one: same device, same inode, same digest.  Additions, removals,
  replacements and rewrites in scope are therefore all seen, and nothing outside it is.\<close>

theorem scope_changed_iff:
  assumes "unique_paths before" "unique_paths after"
  shows "scope_changed before after scope \<longleftrightarrow>
    (\<exists>path. in_scope scope path \<and> file_identity before path \<noteq> file_identity after path)"
proof -
  let ?in = "in_scope scope" and ?b = "file_identity before" and ?a = "file_identity after"
  have "list_ex (\<lambda>e. \<not> list_ex (\<lambda>a. is_regular a \<and> fe_path a = fe_path e) (inv_entries after))
       (filter (\<lambda>e. is_regular e \<and> ?in (fe_path e)) (inv_entries before)) \<longleftrightarrow>
      (\<exists>e \<in> set (inv_entries before). is_regular e \<and> ?in (fe_path e) \<and> ?a (fe_path e) = None)"
    unfolding list_ex_iff file_identity_None [OF assms(2)] by auto
  also have "\<dots> \<longleftrightarrow> (\<exists>path i. ?in path \<and> ?b path = Some i \<and> ?a path = None)"
    unfolding file_identity_Some [OF assms(1)] by blast
  finally have removed: "list_ex (\<lambda>e. \<not> list_ex (\<lambda>a. is_regular a \<and> fe_path a = fe_path e) (inv_entries after))
       (filter (\<lambda>e. is_regular e \<and> ?in (fe_path e)) (inv_entries before)) \<longleftrightarrow>
      (\<exists>path i. ?in path \<and> ?b path = Some i \<and> ?a path = None)" .
  have "residue before after scope \<noteq> [] \<longleftrightarrow> (\<exists>e \<in> set (inv_entries after).
      is_regular e \<and> ?in (fe_path e) \<and> ?b (fe_path e) \<noteq> Some (identity_of e))"
    by (auto simp: residue_def Let_def filter_empty_conv differs_identity)
  also have "\<dots> \<longleftrightarrow> (\<exists>path i. ?in path \<and> ?a path = Some i \<and> ?b path \<noteq> Some i)"
    unfolding file_identity_Some [OF assms(2)] by blast
  finally have "scope_changed before after scope \<longleftrightarrow>
      (\<exists>path i. ?in path \<and> ?b path = Some i \<and> ?a path = None)
      \<or> (\<exists>path i. ?in path \<and> ?a path = Some i \<and> ?b path \<noteq> Some i)"
    unfolding scope_changed_def removed by simp
  also have "\<dots> \<longleftrightarrow> (\<exists>path. ?in path \<and> ?b path \<noteq> ?a path)"
    by (metis not_None_eq)
  finally show ?thesis .
qed

definition sample_entry :: "string \<Rightarrow> u64 \<Rightarrow> file_entry" where
  "sample_entry path inode = \<lparr>fe_path = path, fe_kind = ''regular'', fe_device_id = 1,
     fe_inode_or_file_id = inode, fe_allocated_bytes = 4096, fe_apparent_bytes = 10,
     fe_sha256 = Some ''digest'', fe_family = ''store''\<rparr>"

definition inventory_of :: "file_entry list \<Rightarrow> inventory" where
  "inventory_of es = \<lparr>inv_entries = es, inv_capture_retries = [], inv_stamps = []\<rparr>"

theorem scope_changed_iff_witness:
  "scope_changed (inventory_of [sample_entry ''store/a'' 1, sample_entry ''logs/b'' 2])
     (inventory_of [sample_entry ''logs/b'' 3]) [''store'']"
proof -
  let ?before = "inventory_of [sample_entry ''store/a'' 1, sample_entry ''logs/b'' 2]"
    and ?after = "inventory_of [sample_entry ''logs/b'' 3]"
  have u: "unique_paths ?before" "unique_paths ?after"
    by (simp_all add: unique_paths_def inventory_of_def sample_entry_def)
  have "in_scope [''store''] ''store/a'' \<and> file_identity ?before ''store/a'' \<noteq> file_identity ?after ''store/a''"
    by (simp add: in_scope_def file_identity_def entries_by_path_def bt_get_of_list inventory_of_def
        sample_entry_def is_regular_def)
  with scope_changed_iff [OF u] show ?thesis by blast
qed

section \<open>Precedence of outcomes\<close>

lemma max_by_key_Some:
  assumes "max_by_key key xs = Some m"
  shows "m \<in> set xs" "\<forall>x \<in> set xs. key x \<le> key m"
proof -
  have "foldl (\<lambda>m y. if key m \<le> key y then y else m) x ys \<in> set (x # ys)
      \<and> (\<forall>z \<in> set (x # ys). key z \<le> key (foldl (\<lambda>m y. if key m \<le> key y then y else m) x ys))" for x ys
  proof (induction ys arbitrary: x)
    case (Cons y ys)
    then show ?case using Cons.IH [of y] Cons.IH [of x] by (fastforce intro: order_trans)
  qed simp
  with assms show "m \<in> set xs" "\<forall>x \<in> set xs. key x \<le> key m"
    by (auto simp: max_by_key_def split: list.splits)
qed

lemma max_by_key_at:
  assumes "max_by_key key xs = Some m"
  shows "key m = k \<longleftrightarrow> (\<exists>x \<in> set xs. key x = k) \<and> (\<forall>x \<in> set xs. key x \<le> k)"
  using max_by_key_Some [OF assms] by (auto intro: antisym)

lemma max_by_key_None: "max_by_key key xs = None \<longleftrightarrow> xs = []"
  by (auto simp: max_by_key_def split: list.splits)

text \<open>The contract both precedences share: a pass is the least rank and an error the greatest.\<close>

locale outcome_precedence =
  fixes rank :: "test_outcome \<Rightarrow> nat"
  assumes pass_least: "rank Pass \<le> rank o'"
    and pass_only: "rank o' \<le> rank Pass \<Longrightarrow> o' = Pass"
    and error_greatest: "is_error e \<Longrightarrow> rank o' \<le> rank e"
    and error_only: "is_error e \<Longrightarrow> rank e \<le> rank o' \<Longrightarrow> is_error o'"
begin

lemma worst_pass: "max_by_key rank xs = Some Pass \<longleftrightarrow> xs \<noteq> [] \<and> (\<forall>x \<in> set xs. x = Pass)"
proof
  assume worst: "max_by_key rank xs = Some Pass"
  then have "xs \<noteq> []" using max_by_key_None by (metis option.distinct(1))
  then show "xs \<noteq> [] \<and> (\<forall>x \<in> set xs. x = Pass)"
    using max_by_key_Some(2) [OF worst] pass_only by blast
next
  assume all: "xs \<noteq> [] \<and> (\<forall>x \<in> set xs. x = Pass)"
  then obtain m where m: "max_by_key rank xs = Some m"
    using max_by_key_None [of rank xs] by (cases "max_by_key rank xs") auto
  with all max_by_key_Some(1) [OF m] show "max_by_key rank xs = Some Pass" by simp
qed

lemma worst_error:
  assumes "max_by_key rank xs = Some m"
  shows "is_error m \<longleftrightarrow> (\<exists>x \<in> set xs. is_error x)"
  using max_by_key_Some [OF assms] error_only by blast

end

interpretation declared: outcome_precedence declared_rank
proof
  fix e o' :: test_outcome
  show "declared_rank Pass \<le> declared_rank o'" by (cases o') simp_all
  show "declared_rank o' \<le> declared_rank Pass \<Longrightarrow> o' = Pass" by (cases o') simp_all
  show "is_error e \<Longrightarrow> declared_rank o' \<le> declared_rank e" by (cases e; cases o') simp_all
  show "is_error e \<Longrightarrow> declared_rank e \<le> declared_rank o' \<Longrightarrow> is_error o'" by (cases e; cases o') simp_all
qed

interpretation general: outcome_precedence aggregate_rank
proof
  fix e o' :: test_outcome
  show "aggregate_rank Pass \<le> aggregate_rank o'" by (cases o') simp_all
  show "aggregate_rank o' \<le> aggregate_rank Pass \<Longrightarrow> o' = Pass" by (cases o') simp_all
  show "is_error e \<Longrightarrow> aggregate_rank o' \<le> aggregate_rank e" by (cases e; cases o') simp_all
  show "is_error e \<Longrightarrow> aggregate_rank e \<le> aggregate_rank o' \<Longrightarrow> is_error o'" by (cases e; cases o') simp_all
qed

text \<open>The two precedences agree on passes and errors and differ in between: repetitions pass exactly when
  there is one and all pass, and are an error when one is (or none exists); among the others an
  unsupported or absent repetition hides a failure, whereas for declared deletions a failure is only
  hidden by an error.\<close>

theorem outcome_precedences:
  "(aggregate_outcome xs = Pass \<longleftrightarrow> xs \<noteq> [] \<and> (\<forall>x \<in> set xs. x = Pass))
   \<and> (declared_outcome xs = Pass \<longleftrightarrow> xs \<noteq> [] \<and> (\<forall>x \<in> set xs. x = Pass))
   \<and> (is_error (aggregate_outcome xs) \<longleftrightarrow> xs = [] \<or> (\<exists>x \<in> set xs. is_error x))
   \<and> (is_error (declared_outcome xs) \<longleftrightarrow> (\<exists>x \<in> set xs. is_error x))
   \<and> (is_fail (aggregate_outcome xs) \<longleftrightarrow>
        (\<exists>x \<in> set xs. is_fail x) \<and> (\<forall>x \<in> set xs. x = Pass \<or> is_fail x))
   \<and> (is_fail (declared_outcome xs) \<longleftrightarrow>
        (\<exists>x \<in> set xs. is_fail x) \<and> (\<forall>x \<in> set xs. \<not> is_error x))"
proof (cases "xs = []")
  case True
  then show ?thesis by (simp add: aggregate_outcome_def declared_outcome_def max_by_key_def)
next
  case False
  then obtain a d where a: "max_by_key aggregate_rank xs = Some a" and d: "max_by_key declared_rank xs = Some d"
    using max_by_key_None by (metis option.exhaust)
  have out: "aggregate_outcome xs = a" "declared_outcome xs = d"
    by (simp_all add: aggregate_outcome_def declared_outcome_def a d)
  have fail_a: "is_fail x \<longleftrightarrow> aggregate_rank x = 2" and ok_a: "aggregate_rank x \<le> 2 \<longleftrightarrow> x = Pass \<or> is_fail x"
    and fail_d: "is_fail x \<longleftrightarrow> declared_rank x = 4" and ok_d: "declared_rank x \<le> 4 \<longleftrightarrow> \<not> is_error x" for x
    by (cases x; simp)+
  have fa: "is_fail a \<longleftrightarrow> (\<exists>x \<in> set xs. is_fail x) \<and> (\<forall>x \<in> set xs. x = Pass \<or> is_fail x)"
    using max_by_key_at [OF a, of 2] by (simp only: ok_a fail_a [symmetric])
  have fd: "is_fail d \<longleftrightarrow> (\<exists>x \<in> set xs. is_fail x) \<and> (\<forall>x \<in> set xs. \<not> is_error x)"
    using max_by_key_at [OF d, of 4] by (simp only: ok_d fail_d [symmetric])
  have pass: "a = Pass \<longleftrightarrow> xs \<noteq> [] \<and> (\<forall>x \<in> set xs. x = Pass)"
    "d = Pass \<longleftrightarrow> xs \<noteq> [] \<and> (\<forall>x \<in> set xs. x = Pass)"
    using general.worst_pass [of xs] declared.worst_pass [of xs] a d by simp_all
  show ?thesis
    unfolding out fa fd pass general.worst_error [OF a] declared.worst_error [OF d] using False by simp
qed

theorem outcome_precedences_witness:
  "is_fail (declared_outcome [Fail ''stale'', Absent ''no command''])
   \<and> \<not> is_fail (aggregate_outcome [Fail ''stale'', Absent ''no command''])"
  by (simp add: outcome_precedences)

section \<open>The resume bracket\<close>

lemma checked_total_sum:
  "checked_total xs v = Some t \<Longrightarrow> None \<notin> set xs \<and> unat t = unat v + sum_list (map (unat \<circ> the) xs)"
proof (induction xs arbitrary: v)
  case (Cons x xs)
  then obtain n w where "x = Some n" "checked_add v n = Some w" "checked_total xs w = Some t"
    by (auto simp: bind_eq_Some_conv)
  with Cons.IH [of w] checked_add_Some [of v n w] show ?case by simp
qed simp

lemma resume_accepted:
  assumes "validate_resume_bracket d = Some (Inr ())"
  shows "\<exists>reattach start origin headline request finish.
    rd_reattach_start_ns d = Some reattach \<and> rd_counter_start_ns d = Some start
    \<and> rd_read_start_ns d = Some origin \<and> rd_resume_start_ns d = Some headline
    \<and> rd_first_request_ns d = Some request \<and> rd_counter_end_ns d = Some finish
    \<and> start \<le> origin \<and> origin \<le> headline \<and> headline \<le> request \<and> request \<le> finish \<and> reattach \<le> headline
    \<and> control_ordered d reattach = Inr () \<and> rd_start_skew_ns d = Some (origin - start)
    \<and> rd_end_skew_ns d = Some (finish - request) \<and> reads_reconcile d = Inr ()"
  using assms unfolding validate_resume_bracket_def Let_def ok_or_def
  by (auto split: if_splits option.splits simp: bind_eq_Some_conv and_then_Inr_iff)

lemma reads_accepted:
  "reads_reconcile d = Inr () \<Longrightarrow> \<exists>first final.
    rd_first_read_bytes d = Some first \<and> rd_last_read_bytes d = Some final \<and> first \<le> final
    \<and> unat first = sum_list (map (unat \<circ> the \<circ> ir_first_bytes) (rd_identities d))
    \<and> unat final = sum_list (map (unat \<circ> the \<circ> ir_last_bytes) (rd_identities d))"
  using checked_total_sum [of "map ir_first_bytes (rd_identities d)" 0]
    checked_total_sum [of "map ir_last_bytes (rd_identities d)" 0]
  by (cases "rd_first_read_bytes d"; cases "rd_last_read_bytes d")
    (auto simp: reads_reconcile_def Let_def comp_assoc not_less split: if_splits)

lemma resume_no_panic: "validate_resume_bracket d \<noteq> None"
  unfolding validate_resume_bracket_def Let_def ok_or_def
  by (cases "rd_per_invocation_topology d"; cases "rd_transport_kind d = TK_Exec"; cases "rd_resume_control_declared d")
    (auto split: option.splits sum.splits simp: bind_eq_None_conv)

text \<open>The bracket check of a resume never panics, and an accepted bracket is ordered and reconciled: the
  counters are read before the resume starts and after the first request arrives, every boundary lies
  in between in order, the skews are the true differences, a control run ends before the continuation
  starts, and the read counters are the overflow-free sums over the identities with the last not
  below the first.\<close>

theorem resume_bracket_sound:
  "validate_resume_bracket d \<noteq> None \<and>
   (validate_resume_bracket d = Some (Inr ()) \<longrightarrow>
     (\<exists>start origin headline request finish skew_start skew_end first final.
        rd_counter_start_ns d = Some start \<and> rd_read_start_ns d = Some origin
        \<and> rd_resume_start_ns d = Some headline \<and> rd_first_request_ns d = Some request
        \<and> rd_counter_end_ns d = Some finish
        \<and> start \<le> origin \<and> origin \<le> headline \<and> headline \<le> request \<and> request \<le> finish
        \<and> rd_start_skew_ns d = Some skew_start \<and> unat start + unat skew_start = unat origin
        \<and> rd_end_skew_ns d = Some skew_end \<and> unat request + unat skew_end = unat finish
        \<and> (\<forall>a b c. rd_control_start_ns d = Some a \<longrightarrow> rd_control_end_ns d = Some b \<longrightarrow>
             rd_continuation_start_ns d = Some c \<longrightarrow> a \<le> b \<and> b \<le> c)
        \<and> rd_first_read_bytes d = Some first \<and> rd_last_read_bytes d = Some final \<and> first \<le> final
        \<and> unat first = sum_list (map (unat \<circ> the \<circ> ir_first_bytes) (rd_identities d))
        \<and> unat final = sum_list (map (unat \<circ> the \<circ> ir_last_bytes) (rd_identities d))))"
  (is "_ \<and> (_ \<longrightarrow> ?sound)")
proof (intro conjI impI resume_no_panic)
  assume acc: "validate_resume_bracket d = Some (Inr ())"
  obtain reattach start origin headline request finish where o:
    "rd_counter_start_ns d = Some start" "rd_read_start_ns d = Some origin"
    "rd_resume_start_ns d = Some headline" "rd_first_request_ns d = Some request"
    "rd_counter_end_ns d = Some finish" "start \<le> origin" "origin \<le> headline" "headline \<le> request"
    "request \<le> finish" "control_ordered d reattach = Inr ()" "rd_start_skew_ns d = Some (origin - start)"
    "rd_end_skew_ns d = Some (finish - request)" "reads_reconcile d = Inr ()"
    using resume_accepted [OF acc] by blast
  have "unat start + unat (origin - start) = unat origin" "unat request + unat (finish - request) = unat finish"
    using o(6,9) by (simp_all add: unat_sub_le word_le_nat_alt)
  moreover have "a \<le> b \<and> b \<le> c" if "rd_control_start_ns d = Some a" "rd_control_end_ns d = Some b"
      "rd_continuation_start_ns d = Some c" for a b c
    using o(10) that by (auto simp: control_ordered_def not_less split: if_splits)
  ultimately show ?sound
    using o reads_accepted [OF o(13)] by (simp only: option.inject ex_simps simp_thms) blast
qed

definition sample_resume :: resume_diagnostics where
  "sample_resume = \<lparr>rd_per_invocation_topology = True, rd_transport_kind = TK_Exec,
     rd_resume_control_declared = True, rd_resume_path = Some ExecControlContinuation,
     rd_reattach_start_ns = Some 5, rd_read_start_ns = Some 10, rd_control_start_ns = Some 10,
     rd_control_end_ns = Some 20, rd_continuation_start_ns = Some 30, rd_counter_start_ns = Some 4,
     rd_resume_start_ns = Some 30, rd_first_request_ns = Some 50, rd_counter_end_ns = Some 60,
     rd_start_skew_ns = Some 6, rd_end_skew_ns = Some 10, rd_first_read_bytes = Some 100,
     rd_last_read_bytes = Some 300, rd_cursor = None, rd_expected_cursor = None,
     rd_total_resume_latency_ms = None, rd_session_id_hash = None, rd_expected_session_id_hash = None,
     rd_identities = [\<lparr>ir_pid = 7, ir_start_time = 1, ir_source = ''proc'', ir_first_bytes = Some 100,
       ir_last_bytes = Some 300, ir_retirement_method = ''RetiredAfterFinalSample'', ir_complete = True\<rparr>]\<rparr>"

theorem resume_bracket_sound_witness:
  "\<exists>first final. rd_first_read_bytes sample_resume = Some first \<and> rd_last_read_bytes sample_resume = Some final
     \<and> first \<le> final"
proof -
  have "validate_resume_bracket sample_resume = Some (Inr ())"
    by (simp add: validate_resume_bracket_def sample_resume_def ok_or_def control_ordered_def
        reads_reconcile_def checked_add_def Let_def)
  with resume_bracket_sound [of sample_resume] show ?thesis by blast
qed

section \<open>Closing sessions\<close>

lemma receipts_valid_distinct:
  "receipts_valid seen rs \<Longrightarrow>
    distinct (map cr_session_id_hash rs) \<and> seen \<inter> set (map cr_session_id_hash rs) = {}
    \<and> (\<forall>r \<in> set rs. cr_exit_code r = 0)"
  by (induction seen rs rule: receipts_valid.induct) auto

lemma close_accepted:
  assumes "evaluate_close c n d = Inr (summary, out)"
  shows "n \<noteq> 0" "of_nat (length (cd_close_receipts d)) = n" "receipts_valid {} (cd_close_receipts d)"
    "map ck_closed_sessions (filter (\<lambda>c. ck_phase c = Immediate) (cd_checkpoints d)) = expected_checkpoints n"
    "post_sweep_ok (sc_sweep_interval_s c) n (filter (\<lambda>c. ck_phase c = PostSweep) (cd_checkpoints d)) = Inr ()"
    "cl_closed_sessions summary = Some n"
    "cl_retention_cap_bytes summary = sc_retention_cap_bytes c"
    "cl_close_retention_class summary = map_option (\<lambda>cap.
       if (if sc_sweep_interval_s c \<noteq> None
           then (case filter (\<lambda>c. ck_phase c = PostSweep) (cd_checkpoints d) of
                   k # _ \<Rightarrow> ck_retained_allocated_bytes k \<le> cap | [] \<Rightarrow> False)
           else list_all (\<lambda>k. ck_retained_allocated_bytes k \<le> cap)
                  (filter (\<lambda>c. ck_phase c = Immediate) (cd_checkpoints d)))
       then BoundedBytes else UnboundedBytes) (sc_retention_cap_bytes c)"
    "out = Pass \<longleftrightarrow> cl_close_retention_class summary \<noteq> None"
    "\<not> list_ex (\<lambda>c. \<not> f_is_finite (ck_elapsed_s c) \<or> f_lt (ck_elapsed_s c) (Fin 0)) (cd_checkpoints d)"
  using assms by (auto simp: evaluate_close_def Let_def and_then_Inr_iff split: if_splits)

lemma close_first_retained:
  "evaluate_close c n d = Inr (summary, out) \<Longrightarrow>
    (case filter (\<lambda>k. ck_phase k = Immediate) (cd_checkpoints d) of [] \<Rightarrow> False | k # _ \<Rightarrow> ck_retained_allocated_bytes k = 0)"
  by (auto simp: evaluate_close_def Let_def split: if_splits list.splits)

lemma expected_checkpoints_steps:
  "sorted_wrt (<) (expected_checkpoints n) \<and> set (expected_checkpoints n) = {m. m \<le> n \<and> (m mod 10 = 0 \<or> m = n)}"
proof -
  have "unat n < 2 ^ LENGTH(64)" by (rule unsigned_less)
  then have small: "k < 2 ^ 64" if "k \<le> unat n" for k using that by simp
  have less: "(of_nat k :: u64) < of_nat m" if "k < m" "m \<le> unat n" for k m
    using that small [of k] small [of m] by (simp add: word_less_nat_alt unat_of_nat)
  have ordered: "sorted_wrt (<) (map (of_nat :: nat \<Rightarrow> u64) [0..<Suc (unat n)])"
    unfolding sorted_wrt_map
    by (rule sorted_wrt_mono_rel [OF _ sorted_wrt_upt]) (rule less, auto)
  let ?upto = "map (of_nat :: nat \<Rightarrow> u64) [0..<Suc (unat n)]"
  have member: "m \<in> set ?upto \<longleftrightarrow> m \<le> n" for m
  proof
    assume "m \<in> set ?upto"
    then obtain k where "m = of_nat k" "k \<le> unat n" unfolding set_map set_upt by auto
    then show "m \<le> n" using small [of k] by (simp add: word_le_nat_alt unat_of_nat)
  next
    assume "m \<le> n"
    then show "m \<in> set ?upto" unfolding set_map set_upt
      by (intro image_eqI [of _ _ "unat m"]) (simp_all add: word_le_nat_alt less_Suc_eq_le)
  qed
  have "set (expected_checkpoints n) = {m. m \<le> n \<and> (m mod 10 = 0 \<or> m = n)}"
    unfolding expected_checkpoints_def set_filter member by blast
  then show ?thesis using sorted_wrt_filter [OF ordered] unfolding expected_checkpoints_def by blast
qed

lemma checkpoint_times:
  assumes "\<not> list_ex (\<lambda>c. \<not> f_is_finite (ck_elapsed_s c) \<or> f_lt (ck_elapsed_s c) (Fin 0)) cs" and "k \<in> set cs"
  shows "\<exists>t. ck_elapsed_s k = Fin t \<and> 0 \<le> t"
  using assms by (cases "ck_elapsed_s k") (auto simp: list_ex_iff not_less)

lemma sweep_checkpoint:
  assumes "post_sweep_ok (Some interval) n post = Inr ()"
  shows "\<exists>k. post = [k] \<and> ck_closed_sessions k = n \<and> \<not> f_lt (ck_elapsed_s k) (f_of_int (uint interval))"
  using assms by (simp add: post_sweep_ok_def split: list.splits if_splits)

lemma no_sweep_checkpoint: "post_sweep_ok None n post = Inr () \<Longrightarrow> post = []"
  by (simp add: post_sweep_ok_def split: if_splits)

text \<open>C32: an accepted close evaluation rests on complete evidence and classifies honestly: there is a
  successful close receipt for every session, each session once (below 2^64 receipts); the immediate
  checkpoints stand in order, one after every ten closed sessions and one after the last, with nothing retained at
  the first of them; there is exactly one checkpoint after the sweep when a sweep interval is declared, after
  the last session and not before the interval has passed, and none when it is not; every checkpoint has a
  finite time that is not negative; the row passes exactly when a cap is declared, and it is called
  bounded exactly when the retained bytes are within the cap: after the declared sweep, or at every
  immediate checkpoint when there is no sweep.\<close>

theorem close_evaluation_sound:
  assumes "evaluate_close c n d = Inr (summary, out)" "length (cd_close_receipts d) < 2 ^ 64"
  shows "card (set (map cr_session_id_hash (cd_close_receipts d))) = unat n
    \<and> (\<forall>r \<in> set (cd_close_receipts d). cr_exit_code r = 0)
    \<and> sorted_wrt (<) (map ck_closed_sessions (filter (\<lambda>k. ck_phase k = Immediate) (cd_checkpoints d)))
    \<and> ck_closed_sessions ` {k \<in> set (cd_checkpoints d). ck_phase k = Immediate} = {m. m \<le> n \<and> (m mod 10 = 0 \<or> m = n)}
    \<and> (\<exists>k ks. filter (\<lambda>k. ck_phase k = Immediate) (cd_checkpoints d) = k # ks \<and> ck_retained_allocated_bytes k = 0)
    \<and> (\<forall>interval. sc_sweep_interval_s c = Some interval \<longrightarrow>
        (\<exists>k. filter (\<lambda>k. ck_phase k = PostSweep) (cd_checkpoints d) = [k]
           \<and> ck_closed_sessions k = n \<and> \<not> f_lt (ck_elapsed_s k) (f_of_int (uint interval))))
    \<and> (sc_sweep_interval_s c = None \<longrightarrow> (\<forall>k \<in> set (cd_checkpoints d). ck_phase k = Immediate))
    \<and> (\<forall>k \<in> set (cd_checkpoints d). \<exists>t. ck_elapsed_s k = Fin t \<and> 0 \<le> t)
    \<and> (out = Pass \<longleftrightarrow> sc_retention_cap_bytes c \<noteq> None)
    \<and> (cl_close_retention_class summary = None \<longleftrightarrow> sc_retention_cap_bytes c = None)
    \<and> (cl_close_retention_class summary = Some BoundedBytes \<longleftrightarrow>
        (\<exists>cap. sc_retention_cap_bytes c = Some cap \<and>
           (\<forall>k \<in> set (cd_checkpoints d). ck_phase k = (if sc_sweep_interval_s c = None then Immediate else PostSweep)
              \<longrightarrow> ck_retained_allocated_bytes k \<le> cap)))"
proof -
  let ?immediate = "filter (\<lambda>k. ck_phase k = Immediate) (cd_checkpoints d)"
  let ?post = "filter (\<lambda>k. ck_phase k = PostSweep) (cd_checkpoints d)"
  note acc = close_accepted [OF assms(1)]
  note rec = receipts_valid_distinct [OF acc(3)]
  have "unat (of_nat (length (cd_close_receipts d)) :: u64) = length (cd_close_receipts d)"
    using assms(2) by (simp add: unat_of_nat)
  then have receipts: "card (set (map cr_session_id_hash (cd_close_receipts d))) = unat n"
    using rec distinct_card [of "map cr_session_id_hash (cd_close_receipts d)"] acc(2) by simp
  have ordered: "sorted_wrt (<) (map ck_closed_sessions ?immediate)" unfolding acc(4) by (simp only: expected_checkpoints_steps)
  have "set (map ck_closed_sessions ?immediate) = {m. m \<le> n \<and> (m mod 10 = 0 \<or> m = n)}"
    unfolding acc(4) by (simp only: expected_checkpoints_steps)
  then have steps: "ck_closed_sessions ` {k \<in> set (cd_checkpoints d). ck_phase k = Immediate} = {m. m \<le> n \<and> (m mod 10 = 0 \<or> m = n)}"
    by simp
  have first: "\<exists>k ks. ?immediate = k # ks \<and> ck_retained_allocated_bytes k = 0"
    using close_first_retained [OF assms(1)] by (cases ?immediate) auto
  have sweep: "\<forall>interval. sc_sweep_interval_s c = Some interval \<longrightarrow>
        (\<exists>k. ?post = [k] \<and> ck_closed_sessions k = n \<and> \<not> f_lt (ck_elapsed_s k) (f_of_int (uint interval)))"
    using acc(5) sweep_checkpoint by metis
  have unswept: "sc_sweep_interval_s c = None \<longrightarrow> (\<forall>k \<in> set (cd_checkpoints d). ck_phase k = Immediate)"
  proof (intro impI ballI)
    fix k assume "sc_sweep_interval_s c = None" and k: "k \<in> set (cd_checkpoints d)"
    then have "?post = []" using acc(5) no_sweep_checkpoint by simp
    then show "ck_phase k = Immediate" using k by (cases "ck_phase k") (auto simp: filter_empty_conv)
  qed
  have timed: "\<forall>k \<in> set (cd_checkpoints d). \<exists>t. ck_elapsed_s k = Fin t \<and> 0 \<le> t"
    using checkpoint_times [OF acc(10)] by blast
  have "(case ?post of k # _ \<Rightarrow> ck_retained_allocated_bytes k \<le> cap | [] \<Rightarrow> False)
      \<longleftrightarrow> (\<forall>k \<in> set (cd_checkpoints d). ck_phase k = PostSweep \<longrightarrow> ck_retained_allocated_bytes k \<le> cap)"
    if declared: "sc_sweep_interval_s c \<noteq> None" for cap
  proof -
    obtain k where k: "?post = [k]" using sweep declared by blast
    have "(\<forall>k \<in> set (cd_checkpoints d). ck_phase k = PostSweep \<longrightarrow> ck_retained_allocated_bytes k \<le> cap)
        \<longleftrightarrow> (\<forall>k \<in> set ?post. ck_retained_allocated_bytes k \<le> cap)"
      by auto
    then show ?thesis unfolding k by simp
  qed
  then have bounded: "cl_close_retention_class summary = Some BoundedBytes \<longleftrightarrow>
        (\<exists>cap. sc_retention_cap_bytes c = Some cap \<and>
           (\<forall>k \<in> set (cd_checkpoints d). ck_phase k = (if sc_sweep_interval_s c = None then Immediate else PostSweep)
              \<longrightarrow> ck_retained_allocated_bytes k \<le> cap))"
    unfolding acc(8) by (cases "sc_retention_cap_bytes c"; cases "sc_sweep_interval_s c") (auto simp: list_all_iff)
  have classified: "cl_close_retention_class summary = None \<longleftrightarrow> sc_retention_cap_bytes c = None" unfolding acc(8) by simp
  then have passed: "out = Pass \<longleftrightarrow> sc_retention_cap_bytes c \<noteq> None" unfolding acc(9) by simp
  have exits: "\<forall>r \<in> set (cd_close_receipts d). cr_exit_code r = 0" using rec by blast
  show ?thesis
    using receipts exits ordered steps first sweep unswept timed passed classified bounded by (intro conjI)
qed

definition sample_hash :: "char \<Rightarrow> string" where
  "sample_hash c = replicate 64 c"

lemma sample_hash_valid: "is_sha256 (sample_hash h) \<longleftrightarrow> is_hexdigit h"
  by (simp add: is_sha256_def sample_hash_def list_all_iff)

lemma sample_hash_eq: "sample_hash a = sample_hash b \<longleftrightarrow> a = b"
  by (simp add: sample_hash_def replicate_eq_replicate)

definition close_checkpoint_at :: "u64 \<Rightarrow> rat \<Rightarrow> close_phase \<Rightarrow> u64 \<Rightarrow> close_checkpoint" where
  "close_checkpoint_at n elapsed phase retained =
     \<lparr>ck_closed_sessions = n, ck_elapsed_s = Fin elapsed, ck_phase = phase, ck_retained_allocated_bytes = retained\<rparr>"

definition sample_close :: close_diagnostics where
  "sample_close = \<lparr>cd_store_baseline_allocated_bytes = Some 0,
     cd_checkpoints = [close_checkpoint_at 0 0 Immediate 0, close_checkpoint_at 10 1 Immediate 8192,
       close_checkpoint_at 12 2 Immediate 8192, close_checkpoint_at 12 9 PostSweep 4096],
     cd_close_receipts = map (\<lambda>h. \<lparr>cr_session_id_hash = sample_hash h, cr_exit_code = 0, cr_receipt_sha256 = sample_hash (CHR ''0'')\<rparr>)
       ''0123456789ab''\<rparr>"

definition capped_storage :: storage_config where
  "capped_storage = \<lparr>sc_areas = None, sc_session_delete = None, sc_uninstall_cleanup = None,
     sc_sweep_interval_s = Some 5, sc_session_close = None, sc_retention_cap_bytes = Some 4096,
     sc_auxiliary_cap_bytes = None, sc_workspace_path = None\<rparr>"

text \<open>The witness: twelve sessions, checkpoints after 0, 10 and 12 of them that retain more than the cap, and
  one nine seconds later, after the declared sweep, that is within it.\<close>

theorem close_evaluation_sound_witness:
  "\<exists>summary. evaluate_close capped_storage 12 sample_close = Inr (summary, Pass)
     \<and> cl_close_retention_class summary = Some BoundedBytes
     \<and> card (set (map cr_session_id_hash (cd_close_receipts sample_close))) = 12
     \<and> ck_closed_sessions ` {k \<in> set (cd_checkpoints sample_close). ck_phase k = Immediate} = {m. m \<le> 12 \<and> (m mod 10 = 0 \<or> m = 12)}
     \<and> (\<exists>k. filter (\<lambda>k. ck_phase k = PostSweep) (cd_checkpoints sample_close) = [k]
          \<and> ck_closed_sessions k = 12 \<and> \<not> f_lt (ck_elapsed_s k) (f_of_int 5))"
proof -
  have receipts: "receipts_valid {} (cd_close_receipts sample_close)"
    by (simp add: sample_close_def sample_hash_valid sample_hash_eq is_hexdigit_def)
  have expected: "expected_checkpoints 12 = [0, 10, 12]" by (simp add: expected_checkpoints_def upt_rec)
  have five: "f_of_int 5 = Fin 5" using f_of_int_exact [of 5] by simp
  have "length (cd_close_receipts sample_close) = 12" by (simp add: sample_close_def)
  then obtain summary out where ev: "evaluate_close capped_storage 12 sample_close = Inr (summary, out)"
    using receipts expected five
    by (simp add: evaluate_close_def capped_storage_def post_sweep_ok_def sample_close_def close_checkpoint_at_def)
  have few: "length (cd_close_receipts sample_close) < 2 ^ 64" by (simp add: sample_close_def)
  note sound = close_evaluation_sound [OF ev few]
  have "out = Pass" using sound by (simp add: capped_storage_def)
  moreover have "cl_close_retention_class summary = Some BoundedBytes"
  proof -
    have "\<forall>k \<in> set (cd_checkpoints sample_close). ck_phase k = PostSweep \<longrightarrow> ck_retained_allocated_bytes k \<le> 4096"
      by (simp add: sample_close_def close_checkpoint_at_def)
    then show ?thesis using sound by (simp add: capped_storage_def)
  qed
  moreover have "\<exists>k. filter (\<lambda>k. ck_phase k = PostSweep) (cd_checkpoints sample_close) = [k]
          \<and> ck_closed_sessions k = 12 \<and> \<not> f_lt (ck_elapsed_s k) (f_of_int 5)"
  proof -
    have "sc_sweep_interval_s capped_storage = Some 5" by (simp add: capped_storage_def)
    then have "\<exists>k. filter (\<lambda>k. ck_phase k = PostSweep) (cd_checkpoints sample_close) = [k]
          \<and> ck_closed_sessions k = 12 \<and> \<not> f_lt (ck_elapsed_s k) (f_of_int (uint (5 :: u64)))" using sound by blast
    then show ?thesis by simp
  qed
  moreover have "card (set (map cr_session_id_hash (cd_close_receipts sample_close))) = 12"
    using conjunct1 [OF sound] by simp
  moreover have "ck_closed_sessions ` {k \<in> set (cd_checkpoints sample_close). ck_phase k = Immediate}
      = {m. m \<le> 12 \<and> (m mod 10 = 0 \<or> m = 12)}"
    by (rule sound [THEN conjunct2, THEN conjunct2, THEN conjunct2, THEN conjunct1])
  ultimately show ?thesis using ev by (intro exI [of _ summary] conjI) simp_all
qed

end
