(* ===== verification/Timestamps.thy ===== *)
theory Timestamps
  imports Outcomes Strings "HOL-Library.Signed_Division"
begin

text \<open>
  The index fields of \<open>src/src/results.rs\<close>: UTC timestamps in both directions with their
  calendar arithmetic, outcome counts, and the compact form of a row list.  An \<open>i64\<close> is an \<open>int\<close>;
  the saturating and checked operations say where its bounds matter, and division truncates.
\<close>

section \<open>The calendar\<close>

definition i64_max :: int where "i64_max = 2 ^ 63 - 1"
definition i64_min :: int where "i64_min = - (2 ^ 63)"

definition sat_i64 :: "int \<Rightarrow> int" where
  "sat_i64 x = max i64_min (min i64_max x)"

definition checked_i64 :: "int \<Rightarrow> int option" where
  "checked_i64 x = (if i64_min \<le> x \<and> x \<le> i64_max then Some x else None)"

definition days_in_month :: "int \<Rightarrow> int \<Rightarrow> int" where
  "days_in_month year month =
     (if month \<in> {1, 3, 5, 7, 8, 10, 12} then 31
      else if month \<in> {4, 6, 9, 11} then 30
      else if month = 2 \<and> year smod 4 = 0 \<and> (year smod 100 \<noteq> 0 \<or> year smod 400 = 0) then 29
      else if month = 2 then 28
      else 0)"

definition days_from_civil :: "int \<Rightarrow> int \<Rightarrow> int \<Rightarrow> int" where
  "days_from_civil year month day =
     (let adjusted_year = year - (if month \<le> 2 then 1 else 0);
          era = adjusted_year div 400;
          year_of_era = adjusted_year - era * 400;
          month_prime = month + (if month > 2 then - 3 else 9);
          day_of_year = (153 * month_prime + 2) sdiv 5 + day - 1;
          day_of_era = year_of_era * 365 + year_of_era sdiv 4 - year_of_era sdiv 100 + day_of_year
      in era * 146097 + day_of_era - 719468)"

definition civil_from_days :: "int \<Rightarrow> int \<times> int \<times> int" where
  "civil_from_days days =
     (let shifted = sat_i64 (days + 719468);
          era = (if shifted \<ge> 0 then shifted else sat_i64 (shifted - 146096)) sdiv 146097;
          day_of_era = sat_i64 (shifted - sat_i64 (era * 146097));
          year_of_era = (day_of_era - day_of_era sdiv 1460 + day_of_era sdiv 36524
                         - day_of_era sdiv 146096) sdiv 365;
          year = sat_i64 (year_of_era + sat_i64 (era * 400));
          day_of_year = day_of_era - (365 * year_of_era + year_of_era sdiv 4 - year_of_era sdiv 100);
          month_prime = (5 * day_of_year + 2) sdiv 153;
          day = day_of_year - (153 * month_prime + 2) sdiv 5 + 1;
          month = month_prime + (if month_prime < 10 then 3 else - 9)
      in (if month \<le> 2 then year + 1 else year, month, day))"

section \<open>Printing and parsing\<close>

text \<open>\<open>{n:0w}\<close> for a non-negative number; a negative one counts its sign.\<close>

definition show_padded :: "nat \<Rightarrow> int \<Rightarrow> string" where
  "show_padded w n = (if n < 0 then CHR ''-'' # zero_padded (w - 1) (show_nat (nat (- n)))
     else zero_padded w (show_nat (nat n)))"

text \<open>The argument is the time since the epoch, or \<open>None\<close> for a clock before it.\<close>

definition utc_timestamp :: "u64 option \<Rightarrow> ahrb_error + string" where
  "utc_timestamp since_epoch =
     (case since_epoch of
        None \<Rightarrow> Inl (Protocol ''system clock predates the Unix epoch'')
      | Some seconds \<Rightarrow>
         (case checked_i64 (uint (seconds div 86400)) of
            None \<Rightarrow> Inl (Protocol ''system timestamp exceeds i64 days'')
          | Some days \<Rightarrow>
             (let seconds_of_day = seconds mod 86400;
                  (year, month, day) = civil_from_days days;
                  hour = seconds_of_day div 3600;
                  minute = (seconds_of_day mod 3600) div 60;
                  second = seconds_of_day mod 60
              in Inr (show_padded 4 year @ ''-'' @ show_padded 2 month @ ''-'' @ show_padded 2 day @ ''T''
                   @ show_padded 2 (uint hour) @ '':'' @ show_padded 2 (uint minute) @ '':''
                   @ show_padded 2 (uint second) @ ''Z''))))"

definition timestamp_digits :: "nat list \<Rightarrow> nat \<Rightarrow> nat \<Rightarrow> ahrb_error + int" where
  "timestamp_digits bytes start finish =
     (case slice bytes start finish of
        None \<Rightarrow> Inl (Protocol ''timestamp component is outside the input'')
      | Some digits \<Rightarrow>
         (if \<not> list_all (\<lambda>b. 48 \<le> b \<and> b \<le> 57) digits
          then Inl (Protocol ''timestamp components must contain only ASCII digits'')
          else Inr (foldl (\<lambda>n b. n * 10 + (int b - 48)) 0 digits)))"

definition canonical_shape :: "nat list \<Rightarrow> bool" where
  "canonical_shape bytes \<longleftrightarrow> length bytes = 20 \<and> bytes ! 4 = ascii (CHR ''-'') \<and> bytes ! 7 = ascii (CHR ''-'')
     \<and> bytes ! 10 = ascii (CHR ''T'') \<and> bytes ! 13 = ascii (CHR '':'') \<and> bytes ! 16 = ascii (CHR '':'')
     \<and> bytes ! 19 = ascii (CHR ''Z'')"

text \<open>The Debug rendering of the value in messages is a parameter.\<close>

definition utc_timestamp_seconds :: "(string \<Rightarrow> string) \<Rightarrow> string \<Rightarrow> ahrb_error + u64" where
  "utc_timestamp_seconds dbg v =
     (let bytes = utf8_bytes v
      in if \<not> canonical_shape bytes
         then Inl (Protocol (''timestamp '' @ dbg v @ '' is not canonical YYYY-MM-DDTHH:MM:SSZ UTC''))
         else and_then (timestamp_digits bytes 0 4) (\<lambda>year.
          and_then (timestamp_digits bytes 5 7) (\<lambda>month.
          and_then (timestamp_digits bytes 8 10) (\<lambda>day.
          and_then (timestamp_digits bytes 11 13) (\<lambda>hour.
          and_then (timestamp_digits bytes 14 16) (\<lambda>minute.
          and_then (timestamp_digits bytes 17 19) (\<lambda>second.
            if \<not> (1970 \<le> year \<and> year \<le> 9999) \<or> \<not> (1 \<le> month \<and> month \<le> 12) \<or> day = 0
               \<or> day > days_in_month year month \<or> hour > 23 \<or> minute > 59 \<or> second > 59
            then Inl (Protocol (''timestamp '' @ dbg v @ '' contains an invalid UTC calendar value''))
            else case Option.bind (checked_i64 (days_from_civil year month day * 86400))
                        (\<lambda>n. checked_i64 (n + (hour * 3600 + minute * 60 + second))) of
              None \<Rightarrow> Inl (Protocol ''timestamp exceeds u64 seconds'')
            | Some seconds \<Rightarrow>
                (if seconds < 0 then Inl (Protocol ''timestamp predates the Unix epoch'')
                 else Inr (of_int seconds)))))))))"

section \<open>Counts and compact rows\<close>

record outcome_tally =
  oc_pass :: u64
  oc_fail :: u64
  oc_unsupported :: u64
  oc_error :: u64

fun count_outcome :: "test_outcome \<Rightarrow> outcome_tally \<Rightarrow> outcome_tally" where
  "count_outcome Pass c = c\<lparr>oc_pass := saturating_add (oc_pass c) 1\<rparr>"
| "count_outcome (Fail _) c = c\<lparr>oc_fail := saturating_add (oc_fail c) 1\<rparr>"
| "count_outcome (Unsupported _) c = c\<lparr>oc_unsupported := saturating_add (oc_unsupported c) 1\<rparr>"
| "count_outcome (Error _) c = c\<lparr>oc_error := saturating_add (oc_error c) 1\<rparr>"
| "count_outcome (Absent _) c = c\<lparr>oc_error := saturating_add (oc_error c) 1\<rparr>"

definition outcome_counts :: "test_result list \<Rightarrow> outcome_tally" where
  "outcome_counts results = fold (\<lambda>r. count_outcome (res_outcome r)) results
     (\<lparr>oc_pass = 0, oc_fail = 0, oc_unsupported = 0, oc_error = 0\<rparr>)"

definition clean_field :: "string \<Rightarrow> string" where
  "clean_field v = map (\<lambda>c. if c \<in> {CHR 0x09, CHR 0x0A, CHR 0x0D} then CHR '' '' else c) v"

text \<open>The inner loop: extend a range while the next row follows it, saturating at 255.\<close>

fun extend_range :: "u8 \<Rightarrow> u8 list \<Rightarrow> u8 \<times> u8 list" where
  "extend_range finish [] = (finish, [])"
| "extend_range finish (r # rows) =
     (if r = min 255 (finish + 1) then extend_range r rows else (finish, r # rows))"

lemma extend_range_shorter: "length (snd (extend_range finish rows)) \<le> length rows"
  by (induction finish rows rule: extend_range.induct) auto

function row_ranges :: "u8 list \<Rightarrow> (u8 \<times> u8) list" where
  "row_ranges [] = []"
| "row_ranges (start # rows) =
     (let (finish, rest) = extend_range start rows in (start, finish) # row_ranges rest)"
  by pat_completeness auto
termination
proof (relation "measure length")
  fix start rows x finish rest
  assume "x = extend_range start rows" "(finish, rest) = x"
  then have "rest = snd (extend_range start rows)" by (metis snd_conv)
  then show "(rest, start # rows) \<in> measure length"
    using extend_range_shorter [of start rows] by simp
qed simp

definition show_range :: "u8 \<times> u8 \<Rightarrow> string" where
  "show_range r = (case r of (start, finish) \<Rightarrow>
     if start = finish then show_nat start else show_nat start @ ''-'' @ show_nat finish)"

definition compact_rows :: "u8 list \<Rightarrow> string" where
  "compact_rows rows = join '','' (map show_range (row_ranges (remdups_adj (sort rows))))"

end
