(* ===== verification/Calendar_Proofs.thy ===== *)
theory Calendar_Proofs
  imports Timestamps
begin

text \<open>
  The calendar arithmetic is a bijection between day numbers and valid dates.  Years start in March, so
  the proof is about the year of an era (400 years) and the day of a year; the two closed formulas
  are checked on the 400 years and the 366 days and extended by monotonicity.
\<close>

section \<open>Years of an era\<close>

lemma sdiv_nonneg: "0 \<le> a \<Longrightarrow> 0 < b \<Longrightarrow> a sdiv b = (a :: int) div b"
  by (auto simp: signed_divide_int_def sgn_if)

definition year_start :: "int \<Rightarrow> int" where
  "year_start y = 365 * y + y div 4 - y div 100"

definition leap :: "int \<Rightarrow> bool" where
  "leap year \<longleftrightarrow> year mod 4 = 0 \<and> (year mod 100 \<noteq> 0 \<or> year mod 400 = 0)"

definition year_length :: "int \<Rightarrow> int" where
  "year_length y = (if leap (y + 1) then 366 else 365)"

definition year_key :: "int \<Rightarrow> int" where
  "year_key d = d - d div 1460 + d div 36524 - d div 146096"

lemma quarter_step: "v = u \<or> v = u + 1 \<Longrightarrow> v div 4 - u div 4 \<le> v - (u :: int)"
  by linarith

lemma year_key_step: "0 \<le> d \<Longrightarrow> year_key d \<le> year_key (d + 1)"
proof -
  assume "0 \<le> d"
  have "(d + 1) div 1460 \<le> d div 1460 + 1" by linarith
  moreover have four: "x div 146096 = x div 36524 div 4" for x :: int
    by (simp add: zdiv_zmult2_eq [symmetric])
  moreover have "(d + 1) div 36524 = d div 36524 \<or> (d + 1) div 36524 = d div 36524 + 1" by linarith
  then have "(d + 1) div 146096 - d div 146096 \<le> (d + 1) div 36524 - d div 36524"
    unfolding four by (rule quarter_step)
  ultimately show ?thesis unfolding year_key_def by linarith
qed

lemma year_key_mono: "0 \<le> d \<Longrightarrow> d \<le> d' \<Longrightarrow> year_key d \<le> year_key d'"
proof (induction "nat (d' - d)" arbitrary: d')
  case (Suc n)
  have "year_key d \<le> year_key (d' - 1)" using Suc by (intro Suc.hyps(1)) auto
  also have "\<dots> \<le> year_key (d' - 1 + 1)" using Suc by (intro year_key_step) linarith
  finally show ?case by simp
qed simp

lemma year_ends:
  "list_all (\<lambda>y. year_key (year_start y) div 365 = y
      \<and> year_key (year_start y + year_length y - 1) div 365 = y
      \<and> (if y = 399 then year_start y + year_length y = 146097
         else year_start (y + 1) = year_start y + year_length y)
      \<and> year_start y + year_length y \<le> 146097) [0..399]"
  by code_simp

lemma year_end:
  assumes "0 \<le> y" "y < 400"
  shows "year_key (year_start y) div 365 = y" "year_key (year_start y + year_length y - 1) div 365 = y"
    "y < 399 \<Longrightarrow> year_start (y + 1) = year_start y + year_length y"
    "y = 399 \<Longrightarrow> year_start y + year_length y = 146097" "year_start y + year_length y \<le> 146097"
proof -
  have y: "y \<in> set [0..399]" using assms by auto
  note e = year_ends [unfolded list_all_iff, THEN bspec, OF y]
  from e show "year_key (year_start y) div 365 = y" by blast
  from e show "year_key (year_start y + year_length y - 1) div 365 = y" by blast
  from e show "y < 399 \<Longrightarrow> year_start (y + 1) = year_start y + year_length y" by simp
  from e show "y = 399 \<Longrightarrow> year_start y + year_length y = 146097" by simp
  from e show "year_start y + year_length y \<le> 146097" by blast
qed

lemma year_start_nonneg: "0 \<le> y \<Longrightarrow> 0 \<le> year_start y"
  unfolding year_start_def by linarith

text \<open>The closed formula finds the year whose days contain the given day of the era.\<close>

lemma year_of_day:
  assumes "0 \<le> y" "y < 400" "year_start y \<le> d" "d < year_start y + year_length y"
  shows "year_key d div 365 = y"
proof -
  have "0 \<le> year_start y" using assms(1) by (rule year_start_nonneg)
  then have "year_key (year_start y) \<le> year_key d" "year_key d \<le> year_key (year_start y + year_length y - 1)"
    using assms by (auto intro!: year_key_mono)
  then have "year_key (year_start y) div 365 \<le> year_key d div 365"
    "year_key d div 365 \<le> year_key (year_start y + year_length y - 1) div 365"
    by (auto intro: zdiv_mono1)
  with year_end [OF assms(1,2)] show ?thesis by simp
qed

lemma year_exists_upto:
  "n \<le> 399 \<Longrightarrow> 0 \<le> d \<Longrightarrow> d < year_start (int n) + year_length (int n) \<Longrightarrow>
    \<exists>y. 0 \<le> y \<and> y \<le> int n \<and> year_start y \<le> d \<and> d < year_start y + year_length y"
proof (induction n)
  case 0
  then show ?case by (intro exI [of _ 0]) (simp add: year_start_def)
next
  case (Suc n)
  show ?case
  proof (cases "d < year_start (int n) + year_length (int n)")
    case True
    with Suc show ?thesis by force
  next
    case False
    moreover have "year_start (int n + 1) = year_start (int n) + year_length (int n)"
      using Suc.prems by (intro year_end(3)) simp_all
    ultimately show ?thesis using Suc.prems by (intro exI [of _ "int (Suc n)"]) (simp add: add.commute)
  qed
qed

lemma year_exists:
  assumes "0 \<le> d" "d < 146097"
  shows "\<exists>y. 0 \<le> y \<and> y < 400 \<and> year_start y \<le> d \<and> d < year_start y + year_length y"
  using year_exists_upto [of 399 d] year_end(4) [of 399] assms by force

section \<open>Months of a year\<close>

definition month_start :: "int \<Rightarrow> int" where
  "month_start mp = (153 * mp + 2) div 5"

definition month_of :: "int \<Rightarrow> int" where
  "month_of mp = mp + (if mp < 10 then 3 else - 9)"

lemma month_days:
  "list_all (\<lambda>doy. let mp = (5 * doy + 2) div 153; day = doy - month_start mp + 1
      in 0 \<le> mp \<and> mp \<le> 11 \<and> 1 \<le> day
        \<and> (if mp = 11 then day \<le> (if doy = 365 then 29 else 28) else day \<le> days_in_month 1 (month_of mp)))
    [0..365]"
  by code_simp

lemma month_days_back:
  "list_all (\<lambda>mp. list_all (\<lambda>day. (5 * (month_start mp + day - 1) + 2) div 153 = mp)
      [1..(if mp = 11 then 29 else days_in_month 1 (month_of mp))]) [0..11]"
  by code_simp

lemma month_of_day:
  assumes "0 \<le> doy" "doy \<le> 365" "mp = (5 * doy + 2) div 153" "day = doy - month_start mp + 1"
  shows "0 \<le> mp" "mp \<le> 11" "1 \<le> day"
    "if mp = 11 then day \<le> (if doy = 365 then 29 else 28) else day \<le> days_in_month 1 (month_of mp)"
proof -
  have "doy \<in> set [0..365]" using assms(1,2) by simp
  note e = month_days [unfolded list_all_iff, THEN bspec, OF this, unfolded Let_def, folded assms(3), folded assms(4)]
  from e show "0 \<le> mp" "mp \<le> 11" "1 \<le> day"
    "if mp = 11 then day \<le> (if doy = 365 then 29 else 28) else day \<le> days_in_month 1 (month_of mp)"
    by blast+
qed

lemma day_of_month:
  assumes "0 \<le> mp" "mp \<le> 11" "1 \<le> day" "day \<le> (if mp = 11 then 29 else days_in_month 1 (month_of mp))"
  shows "(5 * (month_start mp + day - 1) + 2) div 153 = mp"
  using month_days_back [unfolded list_all_iff, THEN bspec, of mp, THEN bspec, of day] assms by simp

section \<open>Dates\<close>

lemma sat_i64_id: "\<bar>x\<bar> \<le> 2 ^ 60 \<Longrightarrow> sat_i64 x = x"
  by (simp add: sat_i64_def i64_min_def i64_max_def abs_le_iff)

definition day_of_era :: "int \<Rightarrow> int" where
  "day_of_era d = (d + 719468) mod 146097"

definition march_year :: "int \<Rightarrow> int" where
  "march_year d = year_key (day_of_era d) div 365"

definition march_day :: "int \<Rightarrow> int" where
  "march_day d = day_of_era d - year_start (march_year d)"

lemma march_year_day:
  "0 \<le> march_year d" "march_year d < 400" "0 \<le> march_day d" "march_day d < year_length (march_year d)"
proof -
  have "0 \<le> day_of_era d" "day_of_era d < 146097" by (simp_all add: day_of_era_def)
  from year_exists [OF this] obtain y where y: "0 \<le> y" "y < 400" "year_start y \<le> day_of_era d"
    "day_of_era d < year_start y + year_length y" by blast
  from year_of_day [OF y] have "march_year d = y" by (simp add: march_year_def)
  with y show "0 \<le> march_year d" "march_year d < 400" "0 \<le> march_day d"
    "march_day d < year_length (march_year d)" by (simp_all add: march_day_def)
qed

definition march_month :: "int \<Rightarrow> int" where
  "march_month d = (5 * march_day d + 2) div 153"

lemma march_day_le: "march_day d \<le> 365"
  using march_year_day(4) [of d] by (simp add: year_length_def split: if_splits)

lemmas march_month_day = month_of_day [OF march_year_day(3) march_day_le march_month_def refl]

lemma civil_from_days_eq:
  assumes "0 \<le> d" "d \<le> 2 ^ 50"
  shows "civil_from_days d =
    (march_year d + (d + 719468) div 146097 * 400 + (if month_of (march_month d) \<le> 2 then 1 else 0),
     month_of (march_month d), march_day d - month_start (march_month d) + 1)"
proof -
  let ?s = "d + 719468"
  have s: "sat_i64 ?s = ?s" "0 \<le> ?s" using assms by (auto intro!: sat_i64_id)
  have era: "?s sdiv 146097 = ?s div 146097" using s(2) by (simp add: sdiv_nonneg)
  have e: "0 \<le> ?s div 146097" "?s div 146097 * 146097 \<le> ?s" using s(2) by (auto simp: pos_imp_zdiv_nonneg_iff)
  have de: "sat_i64 (?s - sat_i64 (?s div 146097 * 146097)) = day_of_era d"
  proof -
    have "sat_i64 (?s div 146097 * 146097) = ?s div 146097 * 146097"
      using e assms by (intro sat_i64_id) simp
    moreover have "sat_i64 (day_of_era d) = day_of_era d"
      by (intro sat_i64_id) (simp add: day_of_era_def abs_le_iff order_less_imp_le [OF order_less_trans [OF pos_mod_bound]] neg_le_0_iff_le)
    ultimately show ?thesis by (simp add: day_of_era_def minus_div_mult_eq_mod)
  qed
  have d0: "0 \<le> day_of_era d" by (simp add: day_of_era_def)
  then have "year_key 0 \<le> year_key (day_of_era d)" by (intro year_key_mono) simp_all
  then have key: "0 \<le> year_key (day_of_era d)" by (simp add: year_key_def)
  have y: "(day_of_era d - day_of_era d sdiv 1460 + day_of_era d sdiv 36524 - day_of_era d sdiv 146096) sdiv 365
      = march_year d"
    using d0 key by (simp add: sdiv_nonneg march_year_def year_key_def)
  have doy: "day_of_era d - (365 * march_year d + march_year d sdiv 4 - march_year d sdiv 100) = march_day d"
    using march_year_day(1) [of d] by (simp add: sdiv_nonneg march_day_def year_start_def)
  have mp: "(5 * march_day d + 2) sdiv 153 = march_month d"
    using march_year_day(3) [of d] by (simp add: sdiv_nonneg march_month_def)
  have ms: "(153 * march_month d + 2) sdiv 5 = month_start (march_month d)"
    using march_month_day(1) [of d] by (simp add: sdiv_nonneg month_start_def)
  have "?s div 146097 * 400 \<le> ?s div 146097 * 146097" using e(1) by (intro mult_left_mono) simp_all
  then have "sat_i64 (?s div 146097 * 400) = ?s div 146097 * 400"
    and "sat_i64 (march_year d + ?s div 146097 * 400) = march_year d + ?s div 146097 * 400"
    using e assms march_year_day(1,2) [of d] by (auto intro!: sat_i64_id)
  with s(2) show ?thesis
    unfolding civil_from_days_def Let_def s(1) if_True by (simp add: era de y doy mp ms month_of_def)
qed

lemma days_from_civil_eq:
  assumes "1 \<le> month" "month \<le> 12"
  shows "days_from_civil year month day =
    (let y = year - (if month \<le> 2 then 1 else 0); mp = month + (if month > 2 then - 3 else 9)
     in y div 400 * 146097 + year_start (y mod 400) + month_start mp + day - 1 - 719468)"
proof -
  define y where "y = year - (if month \<le> 2 then 1 else 0)"
  have m: "y - y div 400 * 400 = y mod 400" by (simp add: minus_div_mult_eq_mod)
  have nn: "0 \<le> y mod 400" "0 \<le> 153 * (month + (if month > 2 then - 3 else 9)) + 2" using assms by auto
  show ?thesis
    unfolding days_from_civil_def Let_def y_def [symmetric] m
    using nn by (simp add: sdiv_nonneg year_start_def month_start_def)
qed

lemma month_of_range: "0 \<le> mp \<Longrightarrow> mp \<le> 11 \<Longrightarrow> 1 \<le> month_of mp \<and> month_of mp \<le> 12
    \<and> month_of mp + (if month_of mp > 2 then - 3 else 9) = mp"
  by (auto simp: month_of_def)

lemma days_of_civil:
  assumes "0 \<le> d" "d \<le> 2 ^ 50" "civil_from_days d = (year, month, day)"
  shows "days_from_civil year month day = d"
proof -
  let ?y = "march_year d" and ?e = "(d + 719468) div 146097" and ?mp = "march_month d"
  note c = assms(3) [unfolded civil_from_days_eq [OF assms(1,2)] prod.inject]
  note mr = month_of_range [OF march_month_day(1,2), of d]
  have yy: "year - (if month \<le> 2 then 1 else 0) = ?y + ?e * 400" using c by auto
  have "(?y + ?e * 400) div 400 = ?e" "(?y + ?e * 400) mod 400 = ?y"
    using march_year_day(1,2) [of d] by simp_all
  then have "days_from_civil year month day = ?e * 146097 + year_start ?y + march_day d - 719468"
    using c mr by (simp add: days_from_civil_eq yy [simplified])
  also have "\<dots> = ?e * 146097 + day_of_era d - 719468" by (simp add: march_day_def)
  also have "\<dots> = d" by (simp add: day_of_era_def)
  finally show ?thesis .
qed

definition valid_date :: "int \<Rightarrow> int \<Rightarrow> int \<Rightarrow> bool" where
  "valid_date year month day \<longleftrightarrow> 1 \<le> month \<and> month \<le> 12 \<and> 1 \<le> day \<and> day \<le> days_in_month year month"

lemma smod_nonneg: "0 \<le> a \<Longrightarrow> 0 < b \<Longrightarrow> a smod b = (a :: int) mod b"
  by (simp add: smod_int_alt_def sgn_if)

lemma days_in_month_eq:
  "0 \<le> year \<Longrightarrow> 1 \<le> month \<Longrightarrow> month \<le> 12 \<Longrightarrow>
    days_in_month year month = (if month = 2 then if leap year then 29 else 28 else days_in_month 1 month)"
  by (auto simp: days_in_month_def smod_nonneg leap_def)

lemma leap_era: "leap (y + e * 400 + 1) \<longleftrightarrow> leap (y + 1)"
proof -
  have "y + e * 400 + 1 = (y + 1) + (e * 100) * 4" "y + e * 400 + 1 = (y + 1) + (e * 4) * 100"
    "y + e * 400 + 1 = (y + 1) + e * 400" by simp_all
  then have "(y + e * 400 + 1) mod 4 = (y + 1) mod 4" "(y + e * 400 + 1) mod 100 = (y + 1) mod 100"
    "(y + e * 400 + 1) mod 400 = (y + 1) mod 400" by (metis mod_mult_self1)+
  then show ?thesis by (simp only: leap_def)
qed

lemma month_of_two: "0 \<le> mp \<Longrightarrow> mp \<le> 11 \<Longrightarrow> month_of mp = 2 \<longleftrightarrow> mp = 11"
  by (auto simp: month_of_def)

lemma civil_valid:
  assumes "0 \<le> d" "d \<le> 2 ^ 50" "civil_from_days d = (year, month, day)"
  shows "valid_date year month day"
proof -
  let ?y = "march_year d" and ?e = "(d + 719468) div 146097" and ?mp = "march_month d"
  note c = assms(3) [unfolded civil_from_days_eq [OF assms(1,2)] prod.inject]
  note md = march_month_day [of d]
  have m: "1 \<le> month" "month \<le> 12" "month = 2 \<longleftrightarrow> ?mp = 11"
    using c month_of_range [OF md(1,2)] month_of_two [OF md(1,2)] by auto
  have "0 \<le> ?e" using assms(1) by (simp add: pos_imp_zdiv_nonneg_iff)
  then have y0: "0 \<le> year" using c march_year_day(1) [of d] by auto
  note dm = days_in_month_eq [OF y0 m(1,2)]
  have "day \<le> days_in_month year month"
  proof (cases "month = 2")
    case True
    then have "year = ?y + ?e * 400 + 1" using c by auto
    then have leap: "leap year \<longleftrightarrow> leap (?y + 1)" using leap_era by simp
    show ?thesis
    proof (cases "march_day d = 365")
      case full: True
      then have "leap (?y + 1)" using march_year_day(4) [of d] by (simp add: year_length_def split: if_splits)
      then show ?thesis using md(4) True full m(3) c leap dm by simp
    next
      case False
      then show ?thesis using md(4) True m(3) c dm by simp
    qed
  next
    case False
    then show ?thesis using md(4) m(3) c dm by simp
  qed
  then show ?thesis using m md(3) c by (simp add: valid_date_def)
qed

lemma years_before: "y div 400 * 146097 + year_start (y mod 400) = 365 * y + y div 4 - y div 100 + y div 400"
proof -
  define e r where er: "e = y div 400" "r = y mod 400"
  have y: "y = r + e * 400" by (simp add: er)
  have "y div 4 = e * 100 + r div 4" "y div 100 = e * 4 + r div 100" unfolding y by simp_all
  then show ?thesis unfolding year_start_def er [symmetric] using y by linarith
qed

text \<open>The epoch and the last day of the year 9999.\<close>

lemma civil_year_range:
  assumes "0 \<le> d" "d \<le> 2932896" "civil_from_days d = (year, month, day)"
  shows "1970 \<le> year" "year \<le> 9999"
proof -
  define y where "y = march_year d + (d + 719468) div 146097 * 400"
  have d50: "d \<le> 2 ^ 50" using assms(2) by simp
  note c = assms(3) [unfolded civil_from_days_eq [OF assms(1) d50] prod.inject, folded y_def]
  have late: "month_of (march_month d) \<le> 2 \<longleftrightarrow> 306 \<le> march_day d"
    using march_month_day(1,2) [of d] march_month_def [of d] by (auto simp: month_of_def)
  have "y div 400 = (d + 719468) div 146097" "y mod 400 = march_year d"
    using march_year_day(1,2) [of d] by (simp_all add: y_def)
  then have n: "365 * y + y div 4 - y div 100 + y div 400 =
      (d + 719468) div 146097 * 146097 + year_start (march_year d)"
    using years_before [of y] by (simp only:)
  have day: "365 * y + y div 4 - y div 100 + y div 400 + march_day d = d + 719468"
    unfolding n by (simp add: march_day_def day_of_era_def)
  have md: "0 \<le> march_day d" "march_day d \<le> 365" using march_year_day(3) march_day_le by simp_all
  have "1969 \<le> y" using day md assms(1) by linarith
  moreover have "y \<le> 9999" using day md assms(2) by linarith
  moreover have "y = 1969 \<longrightarrow> 306 \<le> march_day d" "y = 9999 \<longrightarrow> march_day d < 306"
    using day assms(1,2) by auto
  ultimately have "1969 \<le> y \<and> (y = 1969 \<longrightarrow> 306 \<le> march_day d) \<and> y \<le> 9999 \<and> (y = 9999 \<longrightarrow> march_day d < 306)"
    by blast
  then show "1970 \<le> year" "year \<le> 9999" using c late by (auto split: if_splits)
qed

lemma march_parts:
  assumes "0 \<le> yoe" "yoe < 400" "0 \<le> doy" "doy < year_length yoe"
    and "d = e * 146097 + year_start yoe + doy - 719468"
  shows "march_year d = yoe" "march_day d = doy" "(d + 719468) div 146097 = e"
proof -
  let ?o = "year_start yoe + doy"
  have "?o < 146097" using year_end(5) [OF assms(1,2)] assms(4) by simp
  moreover have "0 \<le> ?o" using year_start_nonneg [OF assms(1)] assms(3) by simp
  moreover have "d + 719468 = ?o + e * 146097" using assms(5) by simp
  ultimately have o: "day_of_era d = ?o" "(d + 719468) div 146097 = e" by (simp_all add: day_of_era_def)
  have "year_key ?o div 365 = yoe" using assms by (intro year_of_day) simp_all
  then show "march_year d = yoe" "march_day d = doy" "(d + 719468) div 146097 = e"
    using o by (simp_all add: march_year_def march_day_def)
qed

lemma months_before_february:
  "list_all (\<lambda>mp. month_start mp + days_in_month 1 (month_of mp) \<le> 337) [0..10]"
  by code_simp

lemma march_day_range:
  assumes "valid_date year month day" "0 < year"
    and "y = year - (if month \<le> 2 then 1 else 0)" "mp = month + (if month > 2 then - 3 else 9)"
  shows "0 \<le> mp" "mp \<le> 11" "month_of mp = month"
    "0 \<le> month_start mp + day - 1" "month_start mp + day - 1 < year_length (y mod 400)"
    "(5 * (month_start mp + day - 1) + 2) div 153 = mp"
proof -
  from assms(1) have m: "1 \<le> month" "month \<le> 12" "1 \<le> day" "day \<le> days_in_month year month"
    by (simp_all add: valid_date_def)
  then show mp: "0 \<le> mp" "mp \<le> 11" "month_of mp = month" using assms(4) by (auto simp: month_of_def)
  then show "0 \<le> month_start mp + day - 1" using m(3) by (simp add: month_start_def)
  have two: "month = 2 \<longleftrightarrow> mp = 11" using month_of_two [OF mp(1,2)] mp(3) by simp
  have dm: "day \<le> (if month = 2 then if leap year then 29 else 28 else days_in_month 1 month)"
    using m(4) days_in_month_eq [of year month] m(1,2) assms(2) by simp
  show "(5 * (month_start mp + day - 1) + 2) div 153 = mp"
    using mp m(3) dm two by (intro day_of_month) (auto split: if_splits)
  show "month_start mp + day - 1 < year_length (y mod 400)"
  proof (cases "mp = 11")
    case True
    then have "year = y mod 400 + y div 400 * 400 + 1" using assms(3) two by simp
    then have "leap year \<longleftrightarrow> leap (y mod 400 + 1)"
      using leap_era [of "y mod 400" "y div 400"] by (simp only:)
    moreover have "month_start mp = 337" using True by (simp add: month_start_def)
    ultimately show ?thesis using dm two True by (simp add: year_length_def split: if_splits)
  next
    case False
    then have "mp \<in> set [0..10]" using mp by simp
    with months_before_february have "month_start mp + days_in_month 1 month \<le> 337"
      unfolding list_all_iff mp(3) [symmetric] by blast
    then show ?thesis using dm two False by (simp add: year_length_def)
  qed
qed

lemma civil_of_days:
  assumes "valid_date year month day" "1970 \<le> year" "year \<le> 9999"
  shows "0 \<le> days_from_civil year month day" "days_from_civil year month day \<le> 4000000"
    "civil_from_days (days_from_civil year month day) = (year, month, day)"
proof -
  define y where "y = year - (if month \<le> 2 then 1 else 0)"
  define mp where "mp = month + (if month > 2 then - 3 else 9)"
  define doy where "doy = month_start mp + day - 1"
  define d where "d = days_from_civil year month day"
  from assms have m: "1 \<le> month" "month \<le> 12" by (simp_all add: valid_date_def)
  have d: "d = y div 400 * 146097 + year_start (y mod 400) + doy - 719468"
    unfolding d_def days_from_civil_eq [OF m] by (simp add: Let_def y_def mp_def doy_def)
  have "0 < year" using assms by simp
  note r = march_day_range [OF assms(1) this y_def mp_def, folded doy_def]
  have ym: "0 \<le> y mod 400" "y mod 400 < 400" by simp_all
  note parts = march_parts [OF ym r(4,5) d]
  have n: "d = 365 * y + y div 4 - y div 100 + y div 400 + doy - 719468" using d years_before by simp
  have y: "1969 \<le> y" "y \<le> 9999" using assms y_def by auto
  have "doy \<le> 365" using r(5) by (simp add: year_length_def split: if_splits)
  then have "d \<le> 4000000" using n y by linarith
  then have d2: "d \<le> 2 ^ 50" "d \<le> 4000000" by simp_all
  have d1: "0 \<le> d"
  proof (cases "y = 1969")
    case True
    then have "mp = 10 \<or> mp = 11" using y_def mp_def assms(2) m by (auto split: if_splits)
    then have "306 \<le> month_start mp" by (auto simp: month_start_def)
    moreover have "1 \<le> day" using assms(1) by (simp add: valid_date_def)
    ultimately have "306 \<le> doy" by (simp add: doy_def)
    then show ?thesis using n True by simp
  next
    case False
    then have "1970 \<le> y" using y by simp
    then show ?thesis using n r(4) by linarith
  qed
  show "0 \<le> days_from_civil year month day" "days_from_civil year month day \<le> 4000000"
    using d1 d2 by (simp_all add: d_def)
  have "march_month d = mp" using r(6) parts(2) by (simp add: march_month_def doy_def)
  then have "civil_from_days d = (year, month, day)"
    unfolding civil_from_days_eq [OF d1 d2(1)] using parts r(3) by (simp add: y_def doy_def)
  then show "civil_from_days (days_from_civil year month day) = (year, month, day)" by (simp add: d_def)
qed

end
