(* ===== verification/Timestamps_Properties.thy ===== *)
theory Timestamps_Properties
  imports Calendar_Proofs
begin

text \<open>
  The timestamps of the index round-trip in both directions up to the year 9999; the counts lose no
  row; the compact form of a row list denotes exactly its rows.
\<close>

section \<open>Printing and parsing\<close>

lemma utf8_digit: "d < 10 \<Longrightarrow> utf8_bytes [digit d] = [48 + d]"
  by (simp add: utf8_bytes_def digit_def)

lemma digit_zero: "digit 0 = CHR ''0''"
  by code_simp

lemma show_two:
  assumes "n < 100"
  shows "zero_padded 2 (show_nat n) = [digit (n div 10), digit (n mod 10)]"
  using assms
  by (subst show_nat.simps, subst show_nat.simps) (auto simp: zero_padded_def digit_zero [symmetric])

lemma show_four:
  assumes "1000 \<le> n" "n < 10000"
  shows "zero_padded 4 (show_nat n) =
    [digit (n div 1000), digit (n div 100 mod 10), digit (n div 10 mod 10), digit (n mod 10)]"
  using assms
  by (subst show_nat.simps, subst show_nat.simps, subst show_nat.simps, subst show_nat.simps)
    (auto simp: zero_padded_def div_mult2_eq [symmetric])

lemma digits_bytes:
  "list_all (\<lambda>d. d < 10) ds \<Longrightarrow> utf8_bytes (map digit ds) = map (\<lambda>d. 48 + d) ds"
  by (induction ds) (simp_all add: utf8_bytes_def digit_def)

lemma bytes_two: "0 \<le> n \<Longrightarrow> n < 100 \<Longrightarrow>
    utf8_bytes (show_padded 2 n) = [48 + nat n div 10, 48 + nat n mod 10]"
  using digits_bytes [of "[nat n div 10, nat n mod 10]"] show_two [of "nat n"]
  by (simp add: show_padded_def nat_less_iff)

lemma bytes_four: "1000 \<le> n \<Longrightarrow> n < 10000 \<Longrightarrow>
    utf8_bytes (show_padded 4 n) =
      [48 + nat n div 1000, 48 + nat n div 100 mod 10, 48 + nat n div 10 mod 10, 48 + nat n mod 10]"
  using digits_bytes [of "[nat n div 1000, nat n div 100 mod 10, nat n div 10 mod 10, nat n mod 10]"]
    show_four [of "nat n"]
  by (simp add: show_padded_def nat_less_iff le_nat_iff)

text \<open>What the parser reads from the twenty bytes of a canonical timestamp.\<close>

definition fields :: "nat list \<Rightarrow> nat list \<Rightarrow> nat list \<Rightarrow> nat list \<Rightarrow> nat list \<Rightarrow> nat list \<Rightarrow> nat list" where
  "fields y mo d h mi s = y @ [45] @ mo @ [45] @ d @ [84] @ h @ [58] @ mi @ [58] @ s @ [90]"

definition read_digits :: "nat list \<Rightarrow> int" where
  "read_digits bs = foldl (\<lambda>n b. n * 10 + (int b - 48)) 0 bs"

definition digit_bytes :: "nat \<Rightarrow> nat list \<Rightarrow> bool" where
  "digit_bytes n bs \<longleftrightarrow> length bs = n \<and> (\<forall>b \<in> set bs. 48 \<le> b \<and> b \<le> 57)"

lemma slice_middle: "length a = i \<Longrightarrow> length b = j - i \<Longrightarrow> i \<le> j \<Longrightarrow> slice (a @ b @ c) i j = Some b"
  by (simp add: slice_def)

lemma timestamp_digits_fields:
  assumes "digit_bytes 4 y" "digit_bytes 2 mo" "digit_bytes 2 d" "digit_bytes 2 h" "digit_bytes 2 mi" "digit_bytes 2 s"
  shows "timestamp_digits (fields y mo d h mi s) 0 4 = Inr (read_digits y)"
    "timestamp_digits (fields y mo d h mi s) 5 7 = Inr (read_digits mo)"
    "timestamp_digits (fields y mo d h mi s) 8 10 = Inr (read_digits d)"
    "timestamp_digits (fields y mo d h mi s) 11 13 = Inr (read_digits h)"
    "timestamp_digits (fields y mo d h mi s) 14 16 = Inr (read_digits mi)"
    "timestamp_digits (fields y mo d h mi s) 17 19 = Inr (read_digits s)"
    "canonical_shape (fields y mo d h mi s)"
proof -
  obtain y1 y2 y3 y4 where y: "y = [y1, y2, y3, y4]"
    using assms(1) by (auto simp: digit_bytes_def numeral_eq_Suc length_Suc_conv)
  have two: "\<exists>a b. x = [a, b]" if "digit_bytes 2 x" for x
    using that by (auto simp: digit_bytes_def numeral_eq_Suc length_Suc_conv)
  obtain m1 m2 d1 d2 h1 h2 i1 i2 s1 s2
    where p: "mo = [m1, m2]" "d = [d1, d2]" "h = [h1, h2]" "mi = [i1, i2]" "s = [s1, s2]"
    using two assms(2-) by metis
  note dg = assms [unfolded y p digit_bytes_def]
  show "timestamp_digits (fields y mo d h mi s) 0 4 = Inr (read_digits y)"
    "timestamp_digits (fields y mo d h mi s) 5 7 = Inr (read_digits mo)"
    "timestamp_digits (fields y mo d h mi s) 8 10 = Inr (read_digits d)"
    "timestamp_digits (fields y mo d h mi s) 11 13 = Inr (read_digits h)"
    "timestamp_digits (fields y mo d h mi s) 14 16 = Inr (read_digits mi)"
    "timestamp_digits (fields y mo d h mi s) 17 19 = Inr (read_digits s)"
    using dg by (simp_all add: y p fields_def timestamp_digits_def slice_def read_digits_def)
  show "canonical_shape (fields y mo d h mi s)"
    by (simp add: y p fields_def canonical_shape_def ascii_def)
qed

lemma read_digits_nonneg: "digit_bytes n bs \<Longrightarrow> 0 \<le> read_digits bs"
proof -
  have "\<forall>b \<in> set bs. 48 \<le> b \<Longrightarrow> 0 \<le> n \<Longrightarrow> 0 \<le> foldl (\<lambda>n b. n * 10 + (int b - 48)) n bs" for n
    by (induction bs arbitrary: n) simp_all
  then show "digit_bytes n bs \<Longrightarrow> 0 \<le> read_digits bs" by (simp add: digit_bytes_def read_digits_def)
qed

lemma checked_i64_small: "0 \<le> x \<Longrightarrow> x \<le> 2 ^ 60 \<Longrightarrow> checked_i64 x = Some x"
  by (simp add: checked_i64_def i64_min_def i64_max_def)

lemma uint_of_small_int: "0 \<le> n \<Longrightarrow> n \<le> 2 ^ 60 \<Longrightarrow> (of_int n :: u64) = t \<longleftrightarrow> uint t = n"
proof -
  assume n: "0 \<le> n" "n \<le> 2 ^ 60"
  then have "uint (of_int n :: u64) = n" by (simp add: uint_word_of_int)
  then show ?thesis by (auto simp: word_uint_eq_iff)
qed

lemma parse_fields:
  assumes "utf8_bytes v = fields y mo d h mi s"
    and dg: "digit_bytes 4 y" "digit_bytes 2 mo" "digit_bytes 2 d" "digit_bytes 2 h" "digit_bytes 2 mi" "digit_bytes 2 s"
  shows "utc_timestamp_seconds dbg v = Inr t \<longleftrightarrow>
    1970 \<le> read_digits y \<and> read_digits y \<le> 9999
    \<and> valid_date (read_digits y) (read_digits mo) (read_digits d)
    \<and> read_digits h \<le> 23 \<and> read_digits mi \<le> 59 \<and> read_digits s \<le> 59
    \<and> uint t = days_from_civil (read_digits y) (read_digits mo) (read_digits d) * 86400
        + (read_digits h * 3600 + read_digits mi * 60 + read_digits s)"
proof -
  let ?y = "read_digits y" and ?mo = "read_digits mo" and ?d = "read_digits d"
  let ?days = "days_from_civil ?y ?mo ?d" and ?sod = "read_digits h * 3600 + read_digits mi * 60 + read_digits s"
  note nn = dg [THEN read_digits_nonneg]
  let ?bad = "\<not> (1970 \<le> ?y \<and> ?y \<le> 9999) \<or> \<not> (1 \<le> ?mo \<and> ?mo \<le> 12) \<or> ?d = 0
      \<or> ?d > days_in_month ?y ?mo \<or> read_digits h > 23 \<or> read_digits mi > 59 \<or> read_digits s > 59"
  have bad: "?bad \<longleftrightarrow> \<not> (1970 \<le> ?y \<and> ?y \<le> 9999 \<and> valid_date ?y ?mo ?d
      \<and> read_digits h \<le> 23 \<and> read_digits mi \<le> 59 \<and> read_digits s \<le> 59)"
    using nn(3) by (auto simp: valid_date_def not_le)
  have eq: "utc_timestamp_seconds dbg v =
      (if ?bad then Inl (Protocol (''timestamp '' @ dbg v @ '' contains an invalid UTC calendar value''))
       else case Option.bind (checked_i64 (?days * 86400)) (\<lambda>n. checked_i64 (n + ?sod)) of
         None \<Rightarrow> Inl (Protocol ''timestamp exceeds u64 seconds'')
       | Some seconds \<Rightarrow> (if seconds < 0 then Inl (Protocol ''timestamp predates the Unix epoch'')
           else Inr (of_int seconds)))"
    unfolding utc_timestamp_seconds_def Let_def assms(1) timestamp_digits_fields [OF dg] and_then.simps
    by (simp only: timestamp_digits_fields [OF dg] simp_thms if_False)
  show ?thesis
  proof (cases ?bad)
    case False
    then have ok: "1970 \<le> ?y" "?y \<le> 9999" "valid_date ?y ?mo ?d" "?sod \<le> 2 ^ 20"
      using bad by simp_all
    note days = civil_of_days(1,2) [OF ok(3,1,2)]
    have n: "0 \<le> ?days * 86400" "?days * 86400 \<le> 2 ^ 59" "0 \<le> ?sod" using days nn by simp_all
    then have sum: "0 \<le> ?days * 86400 + ?sod" "?days * 86400 + ?sod \<le> 2 ^ 60" using ok(4) by simp_all
    have "utc_timestamp_seconds dbg v = Inr (of_int (?days * 86400 + ?sod))"
      unfolding eq using False n sum by (simp add: checked_i64_small)
    then show ?thesis using False bad uint_of_small_int [OF sum, of t] by auto
  next
    case True
    then show ?thesis using bad unfolding eq by auto
  qed
qed

lemma decimal_four: "1000 * (k div 1000) + 100 * (k div 100 mod 10) + (k div 10 mod 10) * 10 + k mod 10 = (k :: nat)"
proof -
  define a b c where abc: "a = k div 10" "b = a div 10" "c = b div 10"
  have k: "a * 10 + k mod 10 = k" "b * 10 + a mod 10 = a" "c * 10 + b mod 10 = b"
    by (simp_all only: abc div_mult_mod_eq)
  have bc: "k div 100 = b" "k div 1000 = c" by (simp_all add: abc div_mult2_eq [symmetric])
  show ?thesis using k unfolding bc abc(1) [symmetric] by linarith
qed

lemma two_bytes:
  assumes "0 \<le> n" "n < 100"
  shows "digit_bytes 2 (utf8_bytes (show_padded 2 n))" "read_digits (utf8_bytes (show_padded 2 n)) = n"
proof -
  obtain k where k: "n = int k" "k < 100" using assms by (metis nonneg_int_cases of_nat_less_numeral_iff)
  have "int (k div 10) * 10 + int (k mod 10) = int k" by (metis div_mult_mod_eq of_nat_add of_nat_mult of_nat_numeral)
  then show "digit_bytes 2 (utf8_bytes (show_padded 2 n))" "read_digits (utf8_bytes (show_padded 2 n)) = n"
    using k unfolding bytes_two [OF assms] by (auto simp: digit_bytes_def read_digits_def)
qed

lemma four_bytes:
  assumes "1000 \<le> n" "n < 10000"
  shows "digit_bytes 4 (utf8_bytes (show_padded 4 n))" "read_digits (utf8_bytes (show_padded 4 n)) = n"
proof -
  obtain k where k: "n = int k" "k < 10000"
    using assms by (metis (no_types) nonneg_int_cases of_nat_less_numeral_iff order_trans zero_le_numeral)
  have "1000 * int (k div 1000) + 100 * int (k div 100 mod 10) + int (k div 10 mod 10) * 10 + int (k mod 10) = int k"
    using arg_cong [OF decimal_four [of k], of int] by simp
  then show "digit_bytes 4 (utf8_bytes (show_padded 4 n))" "read_digits (utf8_bytes (show_padded 4 n)) = n"
    using k unfolding bytes_four [OF assms] by (auto simp: digit_bytes_def read_digits_def)
qed

lemma printed_time:
  assumes "civil_from_days (uint t div 86400) = (year, month, day)"
  shows "utc_timestamp (Some t) = Inr (show_padded 4 year @ ''-'' @ show_padded 2 month @ ''-'' @ show_padded 2 day @ ''T''
     @ show_padded 2 (uint t mod 86400 div 3600) @ '':'' @ show_padded 2 (uint t mod 86400 mod 3600 div 60) @ '':''
     @ show_padded 2 (uint t mod 86400 mod 60) @ ''Z'')"
proof -
  have "uint t < 18446744073709551616" using uint_range_size [of t] by (simp add: word_size)
  then have "uint t div 86400 \<le> 1000000000000000" by linarith
  moreover have "0 \<le> uint t div 86400" by (simp add: pos_imp_zdiv_nonneg_iff)
  ultimately have "checked_i64 (uint t div 86400) = Some (uint t div 86400)"
    by (intro checked_i64_small) simp_all
  then show ?thesis by (simp add: utc_timestamp_def uint_div uint_mod Let_def assms)
qed

lemma clock_fields:
  fixes t :: int
  shows "0 \<le> t mod 86400 div 3600" "t mod 86400 div 3600 \<le> 23"
    "0 \<le> t mod 86400 mod 3600 div 60" "t mod 86400 mod 3600 div 60 \<le> 59"
    "0 \<le> t mod 86400 mod 60" "t mod 86400 mod 60 \<le> 59"
    "t div 86400 * 86400 + (t mod 86400 div 3600 * 3600 + t mod 86400 mod 3600 div 60 * 60 + t mod 86400 mod 60) = t"
proof -
  define s where "s = t mod 86400"
  have s: "0 \<le> s" "s < 86400" by (simp_all add: s_def)
  have "s mod 60 = s mod 3600 mod 60" by (simp add: mod_mod_cancel)
  then have "s div 3600 * 3600 + s mod 3600 div 60 * 60 + s mod 60 = s"
    using div_mult_mod_eq [of s 3600] div_mult_mod_eq [of "s mod 3600" 60] by simp
  then show "t div 86400 * 86400 + (t mod 86400 div 3600 * 3600 + t mod 86400 mod 3600 div 60 * 60 + t mod 86400 mod 60) = t"
    using div_mult_mod_eq [of t 86400] by (simp add: s_def)
  show "0 \<le> t mod 86400 div 3600" "t mod 86400 div 3600 \<le> 23"
    "0 \<le> t mod 86400 mod 3600 div 60" "t mod 86400 mod 3600 div 60 \<le> 59"
    "0 \<le> t mod 86400 mod 60" "t mod 86400 mod 60 \<le> 59"
    unfolding s_def [symmetric] using s by (simp_all add: pos_imp_zdiv_nonneg_iff)
qed

text \<open>C38: every time from the epoch to the end of the year 9999 is printed as a timestamp that parses
  back to it.\<close>

theorem utc_timestamp_round_trip:
  assumes "uint t \<le> 253402300799"
  shows "\<exists>v. utc_timestamp (Some t) = Inr v \<and> utc_timestamp_seconds dbg v = Inr t"
proof -
  let ?days = "uint t div 86400"
  obtain year month day where c: "civil_from_days ?days = (year, month, day)" by (metis prod_cases3)
  have days: "0 \<le> ?days" "?days \<le> 2932896" using assms by (simp add: pos_imp_zdiv_nonneg_iff, linarith)
  then have d50: "?days \<le> 2 ^ 50" by simp
  note year = civil_year_range [OF days c] and date = civil_valid [OF days(1) d50 c]
    and home = days_of_civil [OF days(1) d50 c] and clock = clock_fields [of "uint t"]
  from date have md: "0 \<le> month" "month < 100" "0 \<le> day" "day < 100"
    by (auto simp: valid_date_def days_in_month_def split: if_splits)
  let ?v = "show_padded 4 year @ ''-'' @ show_padded 2 month @ ''-'' @ show_padded 2 day @ ''T''
     @ show_padded 2 (uint t mod 86400 div 3600) @ '':'' @ show_padded 2 (uint t mod 86400 mod 3600 div 60) @ '':''
     @ show_padded 2 (uint t mod 86400 mod 60) @ ''Z''"
  have bytes: "utf8_bytes ?v = fields (utf8_bytes (show_padded 4 year)) (utf8_bytes (show_padded 2 month))
      (utf8_bytes (show_padded 2 day)) (utf8_bytes (show_padded 2 (uint t mod 86400 div 3600)))
      (utf8_bytes (show_padded 2 (uint t mod 86400 mod 3600 div 60))) (utf8_bytes (show_padded 2 (uint t mod 86400 mod 60)))"
    by (simp add: utf8_append fields_def) (simp add: utf8_bytes_def)
  have lt: "uint t mod 86400 div 3600 < 100" "uint t mod 86400 mod 3600 div 60 < 100" "uint t mod 86400 mod 60 < 100"
    using clock by linarith+
  have y: "1000 \<le> year" "year < 10000" using year by simp_all
  note parse = parse_fields [OF bytes four_bytes(1) [OF y] two_bytes(1) [OF md(1,2)] two_bytes(1) [OF md(3,4)]
      two_bytes(1) [OF clock(1) lt(1)] two_bytes(1) [OF clock(3) lt(2)] two_bytes(1) [OF clock(5) lt(3)],
      unfolded four_bytes(2) [OF y] two_bytes(2) [OF md(1,2)] two_bytes(2) [OF md(3,4)]
        two_bytes(2) [OF clock(1) lt(1)] two_bytes(2) [OF clock(3) lt(2)] two_bytes(2) [OF clock(5) lt(3)]]
  have "uint t = days_from_civil year month day * 86400 + (uint t mod 86400 div 3600 * 3600
      + uint t mod 86400 mod 3600 div 60 * 60 + uint t mod 86400 mod 60)"
    by (simp only: home clock(7))
  then have "utc_timestamp_seconds dbg ?v = Inr t"
    unfolding parse using year date clock(2,4,6) by blast
  with printed_time [OF c] show ?thesis by blast
qed

theorem utc_timestamp_round_trip_witness:
  "\<exists>v. utc_timestamp (Some 1700000000) = Inr v \<and> utc_timestamp_seconds id v = Inr 1700000000"
  by (rule utc_timestamp_round_trip) simp

lemma twenty: "length bs = 20 \<Longrightarrow> \<exists>b0 b1 b2 b3 b4 b5 b6 b7 b8 b9 b10 b11 b12 b13 b14 b15 b16 b17 b18 b19.
    bs = [b0, b1, b2, b3, b4, b5, b6, b7, b8, b9, b10, b11, b12, b13, b14, b15, b16, b17, b18, b19]"
  by (auto simp: numeral_eq_Suc length_Suc_conv)

lemma digits_read: "timestamp_digits bytes i j = Inr n \<Longrightarrow> i \<le> j \<Longrightarrow> j \<le> length bytes \<Longrightarrow>
    \<forall>b \<in> set (take (j - i) (drop i bytes)). 48 \<le> b \<and> b \<le> 57"
  by (simp add: timestamp_digits_def slice_def list_all_iff split: if_splits)

lemma accepted_fields:
  assumes "utc_timestamp_seconds dbg v = Inr t"
  shows "\<exists>y mo d h mi s. utf8_bytes v = fields y mo d h mi s \<and> digit_bytes 4 y \<and> digit_bytes 2 mo
    \<and> digit_bytes 2 d \<and> digit_bytes 2 h \<and> digit_bytes 2 mi \<and> digit_bytes 2 s"
proof -
  let ?bs = "utf8_bytes v"
  from assms have shape: "canonical_shape ?bs" by (simp add: utc_timestamp_seconds_def Let_def split: if_splits)
  with assms obtain n1 n2 n3 n4 n5 n6 where n: "timestamp_digits ?bs 0 4 = Inr n1" "timestamp_digits ?bs 5 7 = Inr n2"
    "timestamp_digits ?bs 8 10 = Inr n3" "timestamp_digits ?bs 11 13 = Inr n4" "timestamp_digits ?bs 14 16 = Inr n5"
    "timestamp_digits ?bs 17 19 = Inr n6"
    by (auto simp: utc_timestamp_seconds_def Let_def and_then_Inr_iff)
  from shape have len: "length ?bs = 20" by (simp add: canonical_shape_def)
  from twenty [OF len] obtain b0 b1 b2 b3 b4 b5 b6 b7 b8 b9 b10 b11 b12 b13 b14 b15 b16 b17 b18 b19
    where bs: "?bs = [b0, b1, b2, b3, b4, b5, b6, b7, b8, b9, b10, b11, b12, b13, b14, b15, b16, b17, b18, b19]" by blast
  note dg = n [THEN digits_read, unfolded len bs, simplified]
  from shape have seps: "b4 = 45" "b7 = 45" "b10 = 84" "b13 = 58" "b16 = 58" "b19 = 90"
    unfolding bs by (simp_all add: canonical_shape_def ascii_def)
  have "?bs = fields [b0, b1, b2, b3] [b5, b6] [b8, b9] [b11, b12] [b14, b15] [b17, b18]"
    unfolding bs seps by (simp add: fields_def)
  moreover have "digit_bytes 4 [b0, b1, b2, b3]" "digit_bytes 2 [b5, b6]" "digit_bytes 2 [b8, b9]"
    "digit_bytes 2 [b11, b12]" "digit_bytes 2 [b14, b15]" "digit_bytes 2 [b17, b18]"
    using dg by (simp_all add: digit_bytes_def)
  ultimately show ?thesis by blast
qed

lemma read_digits_inj:
  "digit_bytes n xs \<Longrightarrow> digit_bytes n ys \<Longrightarrow> read_digits xs = read_digits ys \<Longrightarrow> xs = ys"
proof (induction xs arbitrary: n ys rule: rev_induct)
  case (snoc b xs)
  then obtain ys' c where ys: "ys = ys' @ [c]" by (cases ys rule: rev_cases) (auto simp: digit_bytes_def)
  have "48 \<le> b" "b \<le> 57" "48 \<le> c" "c \<le> 57" using snoc.prems(1,2) ys by (simp_all add: digit_bytes_def)
  moreover have "read_digits xs * 10 + (int b - 48) = read_digits ys' * 10 + (int c - 48)"
    using snoc.prems(3) by (simp add: ys read_digits_def)
  ultimately have "read_digits xs = read_digits ys'" "int b = int c" by presburger+
  moreover have "digit_bytes (n - 1) xs" "digit_bytes (n - 1) ys'"
    using snoc.prems(1,2) by (auto simp: ys digit_bytes_def)
  ultimately show ?case using snoc.IH ys by simp
qed (simp add: digit_bytes_def)

lemma utf8_ascii: "\<forall>b \<in> set (utf8_bytes v). b < 128 \<Longrightarrow> v = map char_of (utf8_bytes v)"
proof (induction v)
  case (Cons c v)
  let ?n = "of_char c :: nat"
  have "(if ?n < 128 then ?n else 192 + ?n div 64) \<in> set (utf8_bytes (c # v))"
    by (simp add: utf8_bytes_def Let_def)
  with Cons.prems have "(if ?n < 128 then ?n else 192 + ?n div 64) < 128" by blast
  then have "?n < 128" by (simp split: if_splits)
  then have "utf8_bytes (c # v) = ?n # utf8_bytes v" by (simp add: utf8_bytes_def)
  then show ?case using Cons by simp
qed (simp add: utf8_bytes_def)

lemma clock_back:
  assumes "0 \<le> h" "0 \<le> mi" "mi \<le> 59" "0 \<le> s" "s \<le> (59 :: int)"
  shows "(h * 3600 + mi * 60 + s) div 3600 = h" "(h * 3600 + mi * 60 + s) mod 3600 div 60 = mi"
    "(h * 3600 + mi * 60 + s) mod 60 = s"
proof -
  have r: "0 \<le> mi * 60 + s" "mi * 60 + s < 3600" using assms by simp_all
  have t: "h * 3600 + mi * 60 + s = (mi * 60 + s) + h * 3600" by simp
  show "(h * 3600 + mi * 60 + s) div 3600 = h"
    unfolding t using r by (simp add: div_pos_pos_trivial)
  have m: "(h * 3600 + mi * 60 + s) mod 3600 = mi * 60 + s"
    unfolding t using r by (simp only: mod_mult_self1 mod_pos_pos_trivial)
  show "(h * 3600 + mi * 60 + s) mod 3600 div 60 = mi"
    unfolding m using assms by linarith
  have "h * 3600 + mi * 60 + s = s + (h * 60 + mi) * 60" by simp
  then show "(h * 3600 + mi * 60 + s) mod 60 = s"
    using assms by (simp only: mod_mult_self1) simp
qed

lemma fields_ascii:
  "digit_bytes 4 y \<Longrightarrow> digit_bytes 2 mo \<Longrightarrow> digit_bytes 2 d \<Longrightarrow> digit_bytes 2 h \<Longrightarrow> digit_bytes 2 mi \<Longrightarrow>
    digit_bytes 2 s \<Longrightarrow> b \<in> set (fields y mo d h mi s) \<Longrightarrow> b < 128"
  by (auto simp: fields_def digit_bytes_def)

text \<open>The parser accepts only canonical timestamps: what it accepts is exactly what printing the
  parsed time gives.\<close>

theorem utc_timestamp_canonical:
  assumes "utc_timestamp_seconds dbg v = Inr t"
  shows "utc_timestamp (Some t) = Inr v"
proof -
  obtain y mo d h mi s where f: "utf8_bytes v = fields y mo d h mi s" and dg: "digit_bytes 4 y" "digit_bytes 2 mo"
    "digit_bytes 2 d" "digit_bytes 2 h" "digit_bytes 2 mi" "digit_bytes 2 s"
    using accepted_fields [OF assms] by blast
  let ?y = "read_digits y" and ?mo = "read_digits mo" and ?d = "read_digits d" and ?h = "read_digits h"
    and ?mi = "read_digits mi" and ?s = "read_digits s"
  note nn = dg [THEN read_digits_nonneg]
  have acc: "1970 \<le> ?y" "?y \<le> 9999" "valid_date ?y ?mo ?d" "?h \<le> 23" "?mi \<le> 59" "?s \<le> 59"
    "uint t = days_from_civil ?y ?mo ?d * 86400 + (?h * 3600 + ?mi * 60 + ?s)"
    using assms unfolding parse_fields [OF f dg] by blast+
  have sod: "(?h * 3600 + ?mi * 60 + ?s) div 86400 = 0" "(?h * 3600 + ?mi * 60 + ?s) mod 86400 = ?h * 3600 + ?mi * 60 + ?s"
    using acc(4-6) nn by (simp_all add: div_pos_pos_trivial mod_pos_pos_trivial)
  then have day: "uint t div 86400 = days_from_civil ?y ?mo ?d" "uint t mod 86400 = ?h * 3600 + ?mi * 60 + ?s"
    unfolding acc(7) by simp_all
  have clock: "(?h * 3600 + ?mi * 60 + ?s) div 3600 = ?h" "(?h * 3600 + ?mi * 60 + ?s) mod 3600 div 60 = ?mi"
    "(?h * 3600 + ?mi * 60 + ?s) mod 60 = ?s"
    using clock_back [OF nn(4,5) acc(5) nn(6) acc(6)] .
  have "civil_from_days (uint t div 86400) = (?y, ?mo, ?d)"
    unfolding day by (rule civil_of_days(3) [OF acc(3,1,2)])
  from printed_time [OF this] obtain w where w: "utc_timestamp (Some t) = Inr w"
    "w = show_padded 4 ?y @ ''-'' @ show_padded 2 ?mo @ ''-'' @ show_padded 2 ?d @ ''T''
      @ show_padded 2 ?h @ '':'' @ show_padded 2 ?mi @ '':'' @ show_padded 2 ?s @ ''Z''"
    unfolding day clock by blast
  have lt: "?mo < 100" "?d < 100" "?h < 100" "?mi < 100" "?s < 100" "1000 \<le> ?y" "?y < 10000"
    using acc(1-6) by (auto simp: valid_date_def days_in_month_def split: if_splits)
  have same: "utf8_bytes (show_padded 4 ?y) = y" "utf8_bytes (show_padded 2 ?mo) = mo" "utf8_bytes (show_padded 2 ?d) = d"
    "utf8_bytes (show_padded 2 ?h) = h" "utf8_bytes (show_padded 2 ?mi) = mi" "utf8_bytes (show_padded 2 ?s) = s"
    using read_digits_inj [OF four_bytes(1) [OF lt(6,7)] dg(1)] read_digits_inj [OF two_bytes(1) [OF nn(2) lt(1)] dg(2)]
      read_digits_inj [OF two_bytes(1) [OF nn(3) lt(2)] dg(3)] read_digits_inj [OF two_bytes(1) [OF nn(4) lt(3)] dg(4)]
      read_digits_inj [OF two_bytes(1) [OF nn(5) lt(4)] dg(5)] read_digits_inj [OF two_bytes(1) [OF nn(6) lt(5)] dg(6)]
    by (simp_all only: four_bytes(2) [OF lt(6,7)] two_bytes(2) [OF nn(2) lt(1)] two_bytes(2) [OF nn(3) lt(2)]
        two_bytes(2) [OF nn(4) lt(3)] two_bytes(2) [OF nn(5) lt(4)] two_bytes(2) [OF nn(6) lt(5)])
  have bytes: "utf8_bytes w = utf8_bytes v"
    unfolding w(2) f fields_def utf8_append same by (simp add: utf8_bytes_def)
  have small: "\<forall>b \<in> set (utf8_bytes v). b < 128" unfolding f using fields_ascii [OF dg] by blast
  then have "v = w" using utf8_ascii [of v] utf8_ascii [of w] bytes by simp
  then show ?thesis using w(1) by simp
qed

theorem utc_timestamp_canonical_witness: "utc_timestamp (Some 951782400) = Inr ''2000-02-29T00:00:00Z''"
proof -
  have "utc_timestamp_seconds id ''2000-02-29T00:00:00Z'' = Inr 951782400" by code_simp
  then show ?thesis by (rule utc_timestamp_canonical)
qed

section \<open>Counts\<close>

lemma fold_counts:
  "unat (oc_pass c) + unat (oc_fail c) + unat (oc_unsupported c) + unat (oc_error c) + length rs < 2 ^ 64 \<Longrightarrow>
   (let c' = fold (\<lambda>r. count_outcome (res_outcome r)) rs c in
     unat (oc_pass c') + unat (oc_fail c') + unat (oc_unsupported c') + unat (oc_error c') =
       unat (oc_pass c) + unat (oc_fail c) + unat (oc_unsupported c) + unat (oc_error c) + length rs)"
proof (induction rs arbitrary: c)
  case (Cons r rs)
  have "unat (saturating_add n 1) = Suc (unat n)" if "unat n + 1 < 2 ^ 64" for n
    using that by (simp add: saturating_add_def unat_word_ariths)
  then have "unat (oc_pass c') + unat (oc_fail c') + unat (oc_unsupported c') + unat (oc_error c') =
      Suc (unat (oc_pass c) + unat (oc_fail c) + unat (oc_unsupported c) + unat (oc_error c))"
    if "c' = count_outcome (res_outcome r) c" for c'
    using that Cons.prems by (cases "res_outcome r") simp_all
  with Cons show ?case by (simp add: Let_def)
qed simp

text \<open>The outcome counts of the index cover every row: they add up to the number of results.\<close>

theorem outcome_counts_total:
  assumes "length results < 2 ^ 64"
  shows "(let c = outcome_counts results in
    unat (oc_pass c) + unat (oc_fail c) + unat (oc_unsupported c) + unat (oc_error c)) = length results"
  using fold_counts [of "\<lparr>oc_pass = 0, oc_fail = 0, oc_unsupported = 0, oc_error = 0\<rparr>" results] assms
  by (simp add: outcome_counts_def Let_def)

theorem outcome_counts_total_witness:
  "(let c = outcome_counts [] in
     unat (oc_pass c) + unat (oc_fail c) + unat (oc_unsupported c) + unat (oc_error c)) = 0"
  using outcome_counts_total [of "[]"] by simp

section \<open>Compact rows\<close>

definition rows_of :: "(u8 \<times> u8) list \<Rightarrow> u8 set" where
  "rows_of rs = (\<Union>(a, b) \<in> set rs. {a..b})"

lemma extend_range_rows:
  "extend_range a rows = (b, rest) \<Longrightarrow> sorted_wrt (<) (a # rows) \<Longrightarrow> \<forall>r \<in> set rows. r \<le> 255 \<Longrightarrow>
    a \<le> b \<and> {a..b} \<union> set rest = insert a (set rows) \<and> (\<forall>r \<in> set rest. b + 1 < r) \<and> sorted_wrt (<) rest"
proof (induction a rows rule: extend_range.induct)
  case (2 a r rows)
  show ?case
  proof (cases "r = min 255 (a + 1)")
    case True
    then have r: "r = a + 1" using 2 by (auto simp: min_def split: if_splits)
    with True 2 have "r \<le> b \<and> {r..b} \<union> set rest = insert r (set rows) \<and> (\<forall>r \<in> set rest. b + 1 < r) \<and> sorted_wrt (<) rest"
      by simp
    moreover have "{a..b} = insert a {r..b}" using r calculation by auto
    ultimately show ?thesis using r by auto
  next
    case False
    then have "b = a" "rest = r # rows" "a + 1 < r" using 2 by (auto simp: min_def split: if_splits)
    then show ?thesis using 2 by auto
  qed
qed auto

lemma row_ranges_rows:
  "sorted_wrt (<) rows \<Longrightarrow> \<forall>r \<in> set rows. r \<le> 255 \<Longrightarrow>
    rows_of (row_ranges rows) = set rows
    \<and> sorted_wrt (\<lambda>(a, b) (c, d). b + 1 < c) (row_ranges rows) \<and> (\<forall>(a, b) \<in> set (row_ranges rows). a \<le> b)"
proof (induction rows rule: row_ranges.induct)
  case (2 start rows)
  obtain b rest where e: "extend_range start rows = (b, rest)" by (cases "extend_range start rows")
  have ext: "start \<le> b" "{start..b} \<union> set rest = insert start (set rows)" "\<forall>r \<in> set rest. b + 1 < r" "sorted_wrt (<) rest"
    using extend_range_rows [OF e] "2.prems" by auto
  have rest: "\<forall>r \<in> set rest. r \<le> 255" using ext(2) "2.prems"(2) by auto
  from "2.IH" [OF e [symmetric] refl ext(4) rest] have IH: "rows_of (row_ranges rest) = set rest"
    "sorted_wrt (\<lambda>(a, b) (c, d). b + 1 < c) (row_ranges rest)" "\<forall>(a, b) \<in> set (row_ranges rest). a \<le> b"
    by blast+
  have "b + 1 < c" if "(c, d) \<in> set (row_ranges rest)" for c d
  proof -
    have "c \<in> rows_of (row_ranges rest)" using that IH(3) by (force simp: rows_of_def)
    then show ?thesis using IH(1) ext(3) by blast
  qed
  then show ?case using IH ext e by (auto simp: rows_of_def)
qed (simp add: rows_of_def)

lemma remdups_adj_strict: "sorted xs \<Longrightarrow> sorted_wrt (<) (remdups_adj (xs :: nat list))"
  by (induction xs rule: remdups_adj.induct) (auto simp: order_less_le)

text \<open>The compact form of a row list is a list of disjoint, ordered ranges that are as long as possible
  (two of them never touch) and that together contain exactly the given rows, whatever their
  order and repetitions.\<close>

theorem compact_rows_denote:
  assumes "\<forall>r \<in> set rows. r \<le> 255"
  shows "compact_rows rows = join '','' (map show_range (row_ranges (remdups_adj (sort rows))))
    \<and> rows_of (row_ranges (remdups_adj (sort rows))) = set rows
    \<and> sorted_wrt (\<lambda>(a, b) (c, d). b + 1 < c) (row_ranges (remdups_adj (sort rows)))
    \<and> (\<forall>(a, b) \<in> set (row_ranges (remdups_adj (sort rows))). a \<le> b)"
proof -
  have "sorted_wrt (<) (remdups_adj (sort rows))"
    by (rule remdups_adj_strict) simp
  from row_ranges_rows [OF this] assms show ?thesis by (simp add: compact_rows_def)
qed

theorem compact_rows_denote_witness: "rows_of (row_ranges (remdups_adj (sort [5, 3, 4, 4, 255 :: nat]))) = {3, 4, 5, 255}"
  using compact_rows_denote [of "[5, 3, 4, 4, 255]"] by auto

end
