(* ===== verification/Json_Values.thy ===== *)
theory Json_Values
  imports Strings F64
begin

text \<open>
  JSON values as the code holds them: an object is an ordered map from keys to values (the crate
  is built without \<open>preserve_order\<close>), a number is an unsigned, a negative or a floating one, where the
  negative zero has a constructor of its own: it is equal to zero as a value but is written differently.
  Serialization belongs to a library and is a parameter where it is used.  Also here: the
  recursive key sort of \<open>src/src/fake_model.rs\<close>, and the pointer escape every component writes.
\<close>

section \<open>Values\<close>

datatype json_number = PosInt u64 | NegInt i64 | JFloat f64 | JMinusZero

datatype json = JNull | JBool bool | JNumber json_number | JString string
  | JArray "json list" | JObject "(string \<times> json) list"

abbreviation json_u64 :: "u64 \<Rightarrow> json" where
  "json_u64 n \<equiv> JNumber (PosInt n)"

definition json_u32 :: "u32 \<Rightarrow> json" where
  "json_u32 w = json_u64 (ucast w)"

definition json_object :: "(string \<times> json) list \<Rightarrow> json" where
  "json_object members = JObject (bt_of_list members)"

fun as_str :: "json \<Rightarrow> string option" where
  "as_str (JString s) = Some s"
| "as_str _ = None"

fun as_bool :: "json \<Rightarrow> bool option" where
  "as_bool (JBool b) = Some b"
| "as_bool _ = None"

fun as_u64 :: "json \<Rightarrow> u64 option" where
  "as_u64 (JNumber (PosInt n)) = Some n"
| "as_u64 _ = None"

fun as_object :: "json \<Rightarrow> (string \<times> json) list option" where
  "as_object (JObject members) = Some members"
| "as_object _ = None"

fun is_null :: "json \<Rightarrow> bool" where
  "is_null JNull = True"
| "is_null _ = False"

text \<open>Serialization and \<open>Value::pointer\<close> are parameters.\<close>

type_synonym serializer = "json \<Rightarrow> string + nat list"
type_synonym pointer_lookup = "json \<Rightarrow> string \<Rightarrow> json option"

definition to_vec :: "serializer \<Rightarrow> json \<Rightarrow> ahrb_error + nat list" where
  "to_vec ser v = (case ser v of Inl e \<Rightarrow> Inl (Json e) | Inr bytes \<Rightarrow> Inr bytes)"

fun as_array :: "json \<Rightarrow> json list option" where
  "as_array (JArray items) = Some items"
| "as_array _ = None"

fun json_get :: "json \<Rightarrow> string \<Rightarrow> json option" where
  "json_get (JObject members) key = bt_get members key"
| "json_get _ key = None"

text \<open>\<open>list.get(i)\<close>.\<close>

definition nth_opt :: "'a list \<Rightarrow> nat \<Rightarrow> 'a option" where
  "nth_opt xs i = (if i < length xs then Some (xs ! i) else None)"

text \<open>Every value the program holds has its objects in key order, each key once.\<close>

fun json_wf :: "json \<Rightarrow> bool" where
  "json_wf (JArray items) = list_all json_wf items"
| "json_wf (JObject members) = (bt_wf members \<and> list_all (\<lambda>(k, v). json_wf v) members)"
| "json_wf _ = True"

lemma nth_opt_Some: "nth_opt xs i = Some x \<longleftrightarrow> i < length xs \<and> x = xs ! i"
  by (auto simp: nth_opt_def)

lemma nth_opt_simps [simp]: "nth_opt [] i = None" "nth_opt (x # xs) 0 = Some x"
  "nth_opt (x # xs) (Suc i) = nth_opt xs i"
  by (auto simp: nth_opt_def)

lemma size_member [termination_simp]: "(k, v) \<in> set m \<Longrightarrow> size v < Suc (size_list (size_prod (\<lambda>_. 0) size) m)"
  by (induction m) auto

lemma size_bt_get: "bt_get m k = Some v \<Longrightarrow> size v < size (JObject m)"
  using size_member [OF bt_get_Some_in] by simp

lemma size_nth_opt: "nth_opt xs i = Some v \<Longrightarrow> size v < size (JArray xs)"
  using size_list_estimation' [of v xs "size v" size] by (auto simp: nth_opt_Some less_Suc_eq_le)

text \<open>The \<open>PartialEq\<close> of values compares doubles, so the two zeros are equal; everything else is compared by structure.\<close>

fun plus_zero :: "json \<Rightarrow> json" where
  "plus_zero (JNumber JMinusZero) = JNumber (JFloat (Fin 0))"
| "plus_zero (JArray items) = JArray (map plus_zero items)"
| "plus_zero (JObject members) = JObject (map (\<lambda>(k, v). (k, plus_zero v)) members)"
| "plus_zero v = v"

definition json_eq :: "json \<Rightarrow> json \<Rightarrow> bool" where
  "json_eq v w \<longleftrightarrow> plus_zero v = plus_zero w"

definition json_option_eq :: "json option \<Rightarrow> json option \<Rightarrow> bool" where
  "json_option_eq v w \<longleftrightarrow> map_option plus_zero v = map_option plus_zero w"

definition json_list_eq :: "json list \<Rightarrow> json list \<Rightarrow> bool" where
  "json_list_eq vs ws \<longleftrightarrow> map plus_zero vs = map plus_zero ws"

lemma json_eq_refl [simp]: "json_eq v v" "json_option_eq x x" "json_list_eq vs vs"
  by (simp_all add: json_eq_def json_option_eq_def json_list_eq_def)

lemma bt_get_map: "bt_get (map (\<lambda>(k, v). (k, f v)) m) k = map_option f (bt_get m k)"
  by (induction m k rule: bt_get.induct) auto

lemma map_fst_map: "map fst (map (\<lambda>(k, v). (k, f v)) m) = map fst m"
  by (induction m) auto

lemma nth_opt_map: "nth_opt (map f xs) i = map_option f (nth_opt xs i)"
  by (simp add: nth_opt_def)

lemma json_wf_bt_get: "json_wf (JObject m) \<Longrightarrow> bt_get m k = Some v \<Longrightarrow> json_wf v"
  by (auto simp: list_all_iff dest: bt_get_Some_in)

lemma json_wf_nth_opt: "json_wf (JArray xs) \<Longrightarrow> nth_opt xs i = Some v \<Longrightarrow> json_wf v"
  by (auto simp: nth_opt_Some list_all_iff)

section \<open>Canonical form\<close>

fun canonicalize_json :: "json \<Rightarrow> json" where
  "canonicalize_json (JArray items) = JArray (map canonicalize_json items)"
| "canonicalize_json (JObject members) =
     JObject (bt_of_list (bt_of_list (map (\<lambda>(k, v). (k, canonicalize_json v)) members)))"
| "canonicalize_json v = v"

lemma canonicalize_wf: "json_wf v \<Longrightarrow> canonicalize_json v = v"
proof (induction v rule: canonicalize_json.induct)
  case (2 members)
  then have "map (\<lambda>(k, v). (k, canonicalize_json v)) members = members"
    by (intro map_idI) (auto simp: list_all_iff)
  then show ?case using 2 by (simp add: bt_of_list_id)
qed (auto simp: list_all_iff intro: map_idI)

section \<open>Pointers\<close>

definition replace_char :: "char \<Rightarrow> string \<Rightarrow> string \<Rightarrow> string" where
  "replace_char c to s = concat (map (\<lambda>x. if x = c then to else [x]) s)"

definition escape_segment :: "string \<Rightarrow> string" where
  "escape_segment key = replace_char (CHR ''/'') ''~1'' (replace_char (CHR ''~'') ''~0'' key)"

definition extend_pointer :: "string \<Rightarrow> string \<Rightarrow> string" where
  "extend_pointer pointer segment = pointer @ ''/'' @ segment"

lemma escape_segment_simps [simp]: "escape_segment [] = []"
  "escape_segment (c # s) = (if c = CHR ''~'' then ''~0'' else if c = CHR ''/'' then ''~1'' else [c]) @ escape_segment s"
  by (auto simp: escape_segment_def replace_char_def)

lemma escape_segment_no_slash: "CHR ''/'' \<notin> set (escape_segment s)"
  by (induction s) auto

end
