(* ===== verification/Determinism.thy ===== *)
theory Determinism
  imports Json_Values "HOL-Library.Product_Lexorder"
begin

text \<open>
  The comparison of isolated executions of \<open>src/src/determinism.rs\<close> (rows 63 and 64): pointer
  patterns, the allowlisted normalization of values the benchmark itself created, the requests of
  a run by semantic key, the leaf-wise comparison of two canonical requests, and the two row
  evaluations.  The request records are those of \<open>src/src/fake_model.rs\<close>.

  Library code is a parameter: \<open>ser\<close> serializes a value (\<open>serde_json::to_vec\<close>; \<open>Inl\<close> is its error
  text), \<open>sha\<close> is the SHA-256 of a byte string.
\<close>

section \<open>Requests\<close>

record model_request =
  mr_dialect :: string
  mr_endpoint :: string
  mr_model :: string
  mr_scenario :: string
  mr_actor :: string
  mr_checkpoint :: string
  mr_canonical :: json
  mr_credential_fingerprint :: string
  mr_stream :: bool

record model_request_record =
  rr_request :: model_request
  rr_canonical_hash :: string
  rr_attempts :: u64
  rr_accepted :: bool
  rr_semantic_ordinal :: u64
  rr_attempt :: u64
  rr_received_ns :: u64
  rr_body_bytes :: u64
  rr_input_tokens :: "u64 option"
  rr_role :: string
  rr_side_channel_kind :: "string option"
  rr_response_status :: "u16 option"
  rr_response_headers_ns :: "u64 option"
  rr_response_first_frame_yield_ns :: "u64 option"
  rr_response_last_frame_yield_ns :: "u64 option"
  rr_semantic_attempts_total :: u64

record normalization_context =
  nc_credential :: string
  nc_profile_paths :: "string list"
  nc_workspace_paths :: "string list"
  nc_temporary_paths :: "string list"
  nc_socket_paths :: "string list"
  nc_run_markers :: "string list"
  nc_execution_id :: string

record determinism_run =
  dr_run :: u32
  dr_records :: "model_request_record list"
  dr_request_collector_complete :: bool
  dr_normalization :: normalization_context

section \<open>Pointer patterns\<close>

datatype owned_value_kind = OvCredential | OvProfilePath | OvWorkspacePath | OvTemporaryPath
  | OvSocketPath | OvRunMarker | OvExecutionId

datatype pointer_pattern_segment = Wildcard | Literal string

definition chat_content_pointers :: "string list" where
  "chat_content_pointers =
     [''/messages/*/content'', ''/messages/*/content/*/text'',
      ''/messages/*/tool_calls/*/function/arguments'']"

definition responses_content_pointers :: "string list" where
  "responses_content_pointers =
     [''/instructions'', ''/input'', ''/input/*/content'', ''/input/*/content/*/text'',
      ''/input/*/arguments'']"

definition anthropic_content_pointers :: "string list" where
  "anthropic_content_pointers =
     [''/system'', ''/system/*/text'', ''/messages/*/content'', ''/messages/*/content/*/text'',
      ''/messages/*/content/*/input'']"

fun metadata_pointer :: "owned_value_kind \<Rightarrow> string" where
  "metadata_pointer OvCredential = ''/metadata/ahrb_credential''"
| "metadata_pointer OvProfilePath = ''/metadata/ahrb_profile_path''"
| "metadata_pointer OvWorkspacePath = ''/metadata/ahrb_workspace_path''"
| "metadata_pointer OvTemporaryPath = ''/metadata/ahrb_tmp_path''"
| "metadata_pointer OvSocketPath = ''/metadata/ahrb_socket_path''"
| "metadata_pointer OvRunMarker = ''/metadata/ahrb_run_marker''"
| "metadata_pointer OvExecutionId = ''/metadata/ahrb_execution_id''"

text \<open>The characters left in \<open>characters\<close>, the text decoded so far in \<open>decoded\<close>.\<close>

fun decode_loop :: "string \<Rightarrow> bool \<Rightarrow> string \<Rightarrow> string + string" where
  "decode_loop [] pat decoded = Inr decoded"
| "decode_loop (c # s) pat decoded =
     (if c = CHR ''~'' then
        (case s of
           [] \<Rightarrow> Inl ''trailing ~ in pointer segment''
         | e # rest \<Rightarrow>
             if e = CHR ''0'' then decode_loop rest pat (decoded @ ''~'')
             else if e = CHR ''1'' then decode_loop rest pat (decoded @ ''/'')
             else if e = CHR ''2'' \<and> pat then decode_loop rest pat (decoded @ ''*'')
             else Inl (''invalid pointer escape ~'' @ [e]))
      else if pat \<and> c = CHR ''*'' then Inl ''literal * in a pointer pattern must be encoded as ~2''
      else decode_loop s pat (decoded @ [c]))"

definition decode_pointer_segment :: "string \<Rightarrow> bool \<Rightarrow> string + string" where
  "decode_pointer_segment segment pat = decode_loop segment pat []"

definition parse_json_pointer :: "string \<Rightarrow> string + string list" where
  "parse_json_pointer pointer =
     (if pointer = [] then Inr []
      else case strip_prefix pointer ''/'' of
        None \<Rightarrow> Inl ''JSON pointer must be empty or begin with /''
      | Some segments \<Rightarrow> collect_ok (\<lambda>s. decode_pointer_segment s False) (split_on (CHR ''/'') segments))"

definition parse_pattern_segment :: "string \<Rightarrow> string + pointer_pattern_segment" where
  "parse_pattern_segment segment =
     (if segment = ''*'' then Inr Wildcard
      else and_then (decode_pointer_segment segment True) (\<lambda>s. Inr (Literal s)))"

definition parse_pointer_pattern :: "string \<Rightarrow> string + pointer_pattern_segment list" where
  "parse_pointer_pattern pat =
     (if pat = [] then Inr []
      else case strip_prefix pat ''/'' of
        None \<Rightarrow> Inl ''pointer pattern must be empty or begin with /''
      | Some segments \<Rightarrow> collect_ok parse_pattern_segment (split_on (CHR ''/'') segments))"

fun segment_matches :: "string \<Rightarrow> pointer_pattern_segment \<Rightarrow> bool" where
  "segment_matches actual Wildcard = True"
| "segment_matches actual (Literal expected) = (actual = expected)"

definition pointer_pattern_matches :: "string \<Rightarrow> string \<Rightarrow> bool" where
  "pointer_pattern_matches pointer pat =
     (case (parse_json_pointer pointer, parse_pointer_pattern pat) of
        (Inr segments, Inr expected) \<Rightarrow>
          length expected \<le> length segments
          \<and> list_all (\<lambda>(actual, e). segment_matches actual e) (zip segments expected)
      | _ \<Rightarrow> False)"

definition content_pointer_allowed :: "string \<Rightarrow> string \<Rightarrow> bool" where
  "content_pointer_allowed dialect pointer =
     list_ex (pointer_pattern_matches pointer)
       (if dialect = ''openai-chat-completions'' then chat_content_pointers
        else if dialect = ''openai-responses'' then responses_content_pointers
        else if dialect = ''anthropic-messages'' then anthropic_content_pointers
        else [])"

definition normalization_allowed :: "string \<Rightarrow> string \<Rightarrow> owned_value_kind \<Rightarrow> bool" where
  "normalization_allowed dialect pointer kind \<longleftrightarrow>
     pointer = metadata_pointer kind
     \<or> (kind \<noteq> OvCredential \<and> kind \<noteq> OvExecutionId \<and> content_pointer_allowed dialect pointer)"

section \<open>Normalization\<close>

text \<open>Longest source first; equal lengths in text order; adjacent duplicates dropped.\<close>

definition ordered_sources :: "string list \<Rightarrow> string list" where
  "ordered_sources sources =
     remdups_adj (sort_key (\<lambda>s. (- int (length (utf8_bytes s)), s)) (filter (\<lambda>s. s \<noteq> []) sources))"

definition replace_owned_string ::
    "string \<Rightarrow> string \<Rightarrow> string \<Rightarrow> owned_value_kind \<Rightarrow> string list \<Rightarrow> string \<Rightarrow> string" where
  "replace_owned_string text pointer dialect kind sources sentinel =
     (if \<not> normalization_allowed dialect pointer kind then text
      else fold (\<lambda>source v. if contains_str v source then replace_all v source sentinel else v)
             (ordered_sources sources) text)"

definition normalize_text :: "string \<Rightarrow> string \<Rightarrow> normalization_context \<Rightarrow> string \<Rightarrow> string" where
  "normalize_text pointer dialect c original =
     (let replace = (\<lambda>kind sources sentinel v. replace_owned_string v pointer dialect kind sources sentinel);
          v = replace OvWorkspacePath (nc_workspace_paths c) ''<AHRB_WORKSPACE_PATH>'' original;
          v = replace OvSocketPath (nc_socket_paths c) ''<AHRB_SOCKET_PATH>'' v;
          v = replace OvTemporaryPath (nc_temporary_paths c) ''<AHRB_TMP_PATH>'' v;
          v = replace OvProfilePath (nc_profile_paths c) ''<AHRB_PROFILE_PATH>'' v;
          v = replace OvRunMarker (nc_run_markers c) ''<AHRB_RUN_MARKER>'' v;
          v = replace OvCredential [nc_credential c] ''<AHRB_CREDENTIAL>'' v
      in replace OvExecutionId [nc_execution_id c] ''<AHRB_EXECUTION_ID>'' v)"

fun normalize_at_pointer :: "json \<Rightarrow> string \<Rightarrow> string \<Rightarrow> normalization_context \<Rightarrow> json"
  and normalize_items :: "json list \<Rightarrow> nat \<Rightarrow> string \<Rightarrow> string \<Rightarrow> normalization_context \<Rightarrow> json list"
  and normalize_members ::
    "(string \<times> json) list \<Rightarrow> string \<Rightarrow> string \<Rightarrow> normalization_context \<Rightarrow> (string \<times> json) list" where
  "normalize_at_pointer (JArray items) pointer dialect c =
     JArray (normalize_items items 0 pointer dialect c)"
| "normalize_at_pointer (JObject members) pointer dialect c =
     JObject (bt_of_list (normalize_members members pointer dialect c))"
| "normalize_at_pointer (JString original) pointer dialect c =
     JString (normalize_text pointer dialect c original)"
| "normalize_at_pointer v pointer dialect c = v"
| "normalize_items [] index pointer dialect c = []"
| "normalize_items (item # items) index pointer dialect c =
     normalize_at_pointer item (extend_pointer pointer (show_nat index)) dialect c
     # normalize_items items (index + 1) pointer dialect c"
| "normalize_members [] pointer dialect c = []"
| "normalize_members ((key, item) # members) pointer dialect c =
     (key, normalize_at_pointer item (extend_pointer pointer (escape_segment key)) dialect c)
     # normalize_members members pointer dialect c"

definition normalize_canonical_request :: "string \<Rightarrow> json \<Rightarrow> normalization_context \<Rightarrow> json" where
  "normalize_canonical_request dialect canonical c =
     canonicalize_json (normalize_at_pointer canonical [] dialect c)"

section \<open>Requests by semantic key\<close>

text \<open>The keys are ordered by their fields, in the order of the declaration.\<close>

type_synonym semantic_request_key = "string \<times> string \<times> u64 \<times> string \<times> u64"

type_synonym semantic_attempt_key = "string \<times> string \<times> u64 \<times> string"

record comparable_request =
  cq_dialect :: string
  cq_canonical :: json
  cq_semantic_attempts_total :: u64

definition semantic_key :: "model_request_record \<Rightarrow> semantic_request_key" where
  "semantic_key r = (mr_scenario (rr_request r), mr_actor (rr_request r), rr_semantic_ordinal r,
     mr_checkpoint (rr_request r), rr_attempt r)"

fun attempt_key :: "semantic_request_key \<Rightarrow> semantic_attempt_key" where
  "attempt_key (scenario, actor, ordinal, checkpoint, attempt) = (scenario, actor, ordinal, checkpoint)"

fun semantic_key_json :: "semantic_request_key \<Rightarrow> json" where
  "semantic_key_json (scenario, actor, ordinal, checkpoint, attempt) =
     json_object [(''scenario'', JString scenario), (''actor'', JString actor),
       (''checkpoint'', JString checkpoint), (''semantic_ordinal'', json_u64 ordinal),
       (''attempt'', json_u64 attempt)]"

fun attempt_key_json :: "semantic_attempt_key \<Rightarrow> json" where
  "attempt_key_json (scenario, actor, ordinal, checkpoint) =
     json_object [(''scenario'', JString scenario), (''actor'', JString actor),
       (''checkpoint'', JString checkpoint), (''semantic_ordinal'', json_u64 ordinal)]"

definition to_comparable :: "determinism_run \<Rightarrow> model_request_record \<Rightarrow> comparable_request" where
  "to_comparable run r =
     \<lparr>cq_dialect = mr_dialect (rr_request r),
      cq_canonical = normalize_canonical_request (mr_dialect (rr_request r)) (mr_canonical (rr_request r))
        (dr_normalization run),
      cq_semantic_attempts_total = rr_semantic_attempts_total r\<rparr>"

fun insert_requests :: "determinism_run \<Rightarrow> model_request_record list \<Rightarrow>
    (semantic_request_key, comparable_request) btree \<Rightarrow>
    string + (semantic_request_key, comparable_request) btree" where
  "insert_requests run [] requests = Inr requests"
| "insert_requests run (r # records) requests =
     (if bt_get requests (semantic_key r) \<noteq> None
      then Inl (''run '' @ show_u32 (dr_run run) @ '' contains a duplicate semantic request key'')
      else insert_requests run records
        (bt_insert (semantic_key r) (to_comparable run r) requests))"

definition comparable_requests ::
    "determinism_run \<Rightarrow> string + (semantic_request_key, comparable_request) btree" where
  "comparable_requests run =
     (if \<not> dr_request_collector_complete run
      then Inl (''run '' @ show_u32 (dr_run run) @ '' request collector evidence is incomplete'')
      else insert_requests run (dr_records run) [])"

end
