(* ===== verification/Determinism_Rows.thy ===== *)
theory Determinism_Rows
  imports Determinism
begin

text \<open>
  The second half of \<open>src/src/determinism.rs\<close>: the leaf-wise comparison of two requests, and the
  evaluations of row 63 (nondeterministic fields) and row 64 (cross-run reproducibility).
\<close>

section \<open>Leaf-wise comparison\<close>

fun json_type :: "json option \<Rightarrow> string" where
  "json_type None = ''missing''"
| "json_type (Some JNull) = ''null''"
| "json_type (Some (JBool _)) = ''boolean''"
| "json_type (Some (JNumber _)) = ''number''"
| "json_type (Some (JString _)) = ''string''"
| "json_type (Some (JArray _)) = ''array''"
| "json_type (Some (JObject _)) = ''object''"

record comparison_occurrence =
  co_pointer :: string
  co_before :: "json option"
  co_after :: "json option"

definition serialize_all :: "serializer \<Rightarrow> string \<Rightarrow> json list \<Rightarrow> string + nat list list" where
  "serialize_all ser message items =
     (case collect_ok ser items of Inl e \<Rightarrow> Inl (message @ e) | Inr bytes \<Rightarrow> Inr bytes)"

definition pure_array_reorder :: "serializer \<Rightarrow> json list \<Rightarrow> json list \<Rightarrow> string + bool" where
  "pure_array_reorder ser before after =
     (if json_list_eq before after \<or> length before \<noteq> length after then Inr False
      else and_then (serialize_all ser ''serialize baseline array element: '' before) (\<lambda>before_elements.
           and_then (serialize_all ser ''serialize comparison array element: '' after) (\<lambda>after_elements.
             Inr (sort before_elements = sort after_elements))))"

text \<open>The leaves of a value that only one side has.\<close>

definition present_leaf :: "bool \<Rightarrow> string \<Rightarrow> json \<Rightarrow> comparison_occurrence" where
  "present_leaf before pointer v =
     (if before then \<lparr>co_pointer = pointer, co_before = Some v, co_after = None\<rparr>
      else \<lparr>co_pointer = pointer, co_before = None, co_after = Some v\<rparr>)"

fun push_present_subtree :: "json \<Rightarrow> string \<Rightarrow> bool \<Rightarrow> comparison_occurrence list"
  and push_present_items :: "json list \<Rightarrow> nat \<Rightarrow> string \<Rightarrow> bool \<Rightarrow> comparison_occurrence list"
  and push_present_members :: "(string \<times> json) list \<Rightarrow> string \<Rightarrow> bool \<Rightarrow> comparison_occurrence list" where
  "push_present_subtree (JArray items) pointer before =
     (if items = [] then [present_leaf before pointer (JArray items)]
      else push_present_items items 0 pointer before)"
| "push_present_subtree (JObject members) pointer before =
     (if members = [] then [present_leaf before pointer (JObject members)]
      else push_present_members members pointer before)"
| "push_present_subtree v pointer before = [present_leaf before pointer v]"
| "push_present_items [] index pointer before = []"
| "push_present_items (item # items) index pointer before =
     push_present_subtree item (extend_pointer pointer (show_nat index)) before
     @ push_present_items items (index + 1) pointer before"
| "push_present_members [] pointer before = []"
| "push_present_members ((key, item) # members) pointer before =
     push_present_subtree item (extend_pointer pointer (escape_segment key)) before
     @ push_present_members members pointer before"

definition both_leaf :: "string \<Rightarrow> json \<Rightarrow> json \<Rightarrow> comparison_occurrence" where
  "both_leaf pointer before after = \<lparr>co_pointer = pointer, co_before = Some before, co_after = Some after\<rparr>"

definition option_size :: "json option \<Rightarrow> nat" where
  "option_size v = (case v of None \<Rightarrow> 0 | Some v \<Rightarrow> size v)"

lemma option_size_get: "option_size (bt_get m k) < size (JObject m)"
  using size_bt_get [of m k] by (auto simp: option_size_def split: option.splits)

lemma option_size_nth: "option_size (nth_opt xs i) < size (JArray xs)"
  using size_nth_opt [of xs i] by (auto simp: option_size_def split: option.splits)

lemma option_size_Some: "option_size (Some v) = size v"
  by (simp add: option_size_def)

function visit_values :: "serializer \<Rightarrow> json option \<Rightarrow> json option \<Rightarrow> string \<Rightarrow>
    string + comparison_occurrence list" where
  "visit_values ser (Some (JArray before)) (Some (JArray after)) pointer =
     and_then (pure_array_reorder ser before after) (\<lambda>reordered.
       if reordered then Inr [both_leaf pointer (JArray before) (JArray after)]
       else if before = [] \<and> after = [] then Inr [both_leaf pointer (JArray []) (JArray [])]
       else and_then (collect_ok (\<lambda>index. visit_values ser (nth_opt before index) (nth_opt after index)
                (extend_pointer pointer (show_nat index))) [0..<max (length before) (length after)])
              (\<lambda>parts. Inr (concat parts)))"
| "visit_values ser (Some (JObject before)) (Some (JObject after)) pointer =
     (if before = [] \<and> after = [] then Inr [both_leaf pointer (JObject []) (JObject [])]
      else and_then (collect_ok (\<lambda>key. visit_values ser (bt_get before key) (bt_get after key)
                (extend_pointer pointer (escape_segment key)))
              (bset_of_list (map fst before @ map fst after)))
            (\<lambda>parts. Inr (concat parts)))"
| "\<not> (\<exists>xs ys. before = JArray xs \<and> after = JArray ys) \<Longrightarrow>
   \<not> (\<exists>xs ys. before = JObject xs \<and> after = JObject ys) \<Longrightarrow>
   visit_values ser (Some before) (Some after) pointer = Inr [both_leaf pointer before after]"
| "visit_values ser (Some before) None pointer = Inr (push_present_subtree before pointer True)"
| "visit_values ser None (Some after) pointer = Inr (push_present_subtree after pointer False)"
| "visit_values ser None None pointer = Inr []"
proof goal_cases
  case (1 P x)
  then show ?case
    by (cases x; cases "fst (snd x)"; cases "fst (snd (snd x))") (auto, metis+)
qed auto
termination
proof (relation "measure (\<lambda>(ser, before, after, pointer). option_size before + option_size after)", goal_cases)
  case (2 ser before after pointer _ index)
  then show ?case
    using option_size_nth [of before index] option_size_nth [of after index]
    by (simp only: in_measure case_prod_conv option_size_Some)
next
  case (3 ser before after pointer key)
  then show ?case
    using option_size_get [of before key] option_size_get [of after key]
    by (simp only: in_measure case_prod_conv option_size_Some)
qed auto

definition comparison_occurrences :: "serializer \<Rightarrow> json \<Rightarrow> json \<Rightarrow> string + comparison_occurrence list" where
  "comparison_occurrences ser before after = visit_values ser (Some before) (Some after) []"

section \<open>Critical pointers\<close>

definition chat_critical_id_pointers :: "string list" where
  "chat_critical_id_pointers =
     [''/messages/*/tool_calls/*/id'', ''/messages/*/tool_call_id'', ''/tool_calls/*/id'']"

definition responses_critical_id_pointers :: "string list" where
  "responses_critical_id_pointers =
     [''/input/*/call_id'', ''/input/*/id'', ''/output/*/call_id'', ''/output/*/id'']"

definition anthropic_critical_id_pointers :: "string list" where
  "anthropic_critical_id_pointers =
     [''/messages/*/content/*/id'', ''/messages/*/content/*/tool_use_id'']"

definition is_critical_pointer :: "string list \<Rightarrow> string \<Rightarrow> bool" where
  "is_critical_pointer dialects pointer \<longleftrightarrow>
     pointer = []
     \<or> list_ex (\<lambda>prefix. pointer = prefix \<or> starts_with pointer (prefix @ ''/''))
         [''/model'', ''/messages'', ''/input'', ''/tools'', ''/tool_choice'']
     \<or> list_ex (\<lambda>dialect. list_ex (pointer_pattern_matches pointer)
         (if dialect = ''openai-chat-completions'' then chat_critical_id_pointers
          else if dialect = ''openai-responses'' then responses_critical_id_pointers
          else if dialect = ''anthropic-messages'' then anthropic_critical_id_pointers
          else [])) dialects"

section \<open>Streams and attempts\<close>

type_synonym request_map = "(semantic_request_key, comparable_request) btree"

definition hex_digits :: string where
  "hex_digits = ''0123456789abcdef''"

definition hex_byte :: "nat \<Rightarrow> string" where
  "hex_byte b = [hex_digits ! (b div 16), hex_digits ! (b mod 16)]"

definition be_bytes :: "u64 \<Rightarrow> nat list" where
  "be_bytes w = map (\<lambda>i. unat w div 256 ^ i mod 256) [7, 6, 5, 4, 3, 2, 1, 0]"

text \<open>The bytes the hasher is fed: every request with its length in front.\<close>

definition framed_request :: "serializer \<Rightarrow> comparable_request \<Rightarrow> string + nat list" where
  "framed_request ser request =
     (case ser (cq_canonical request) of
        Inl e \<Rightarrow> Inl (''serialize normalized request stream: '' @ e)
      | Inr bytes \<Rightarrow> Inr (be_bytes (of_nat (length bytes)) @ bytes))"

definition normalized_stream_sha256 :: "serializer \<Rightarrow> (nat list \<Rightarrow> nat list) \<Rightarrow> request_map \<Rightarrow> string + string" where
  "normalized_stream_sha256 ser sha requests =
     and_then (collect_ok (framed_request ser) (map snd requests)) (\<lambda>parts.
       Inr (concat (map hex_byte (sha (concat parts)))))"

text \<open>\<open>{:?}\<close> of a set of numbers.\<close>

definition debug_u64_set :: "u64 list \<Rightarrow> string" where
  "debug_u64_set s = ''{'' @ join '', '' (map show_u64 s) @ ''}''"

definition attempt_sets ::
    "request_map \<Rightarrow> (semantic_attempt_key, u64 list \<times> u64 list) btree" where
  "attempt_sets requests =
     foldl (\<lambda>attempts (key, request).
         let k = attempt_key key;
             (observed, totals) = (case bt_get attempts k of None \<Rightarrow> ([], []) | Some e \<Rightarrow> e)
         in bt_insert k (bs_insert (snd (snd (snd (snd key)))) observed,
              bs_insert (cq_semantic_attempts_total request) totals) attempts)
       [] requests"

definition attempt_label :: "semantic_attempt_key \<Rightarrow> string" where
  "attempt_label key = (case key of (scenario, actor, ordinal, checkpoint) \<Rightarrow>
     ''semantic request '' @ scenario @ '':'' @ actor @ '':'' @ checkpoint @ '':'' @ show_u64 ordinal)"

text \<open>The attempts \<open>1..=total\<close>.\<close>

definition attempts_upto :: "u64 \<Rightarrow> u64 list" where
  "attempts_upto claimed = map of_nat [1..<unat claimed + 1]"

definition declared_attempts ::
    "semantic_attempt_key \<times> u64 list \<times> u64 list \<Rightarrow> string + semantic_attempt_key \<times> u64" where
  "declared_attempts = (\<lambda>(key, observed, totals).
     (case totals of
        [] \<Rightarrow> Inl ''semantic request attempt total is absent''
      | claimed # _ \<Rightarrow>
          (if length totals \<noteq> 1 \<or> claimed = 0
           then Inl (attempt_label key @ '' has inconsistent declared attempt totals '' @ debug_u64_set totals)
           else if observed \<noteq> attempts_upto claimed
           then Inl (attempt_label key @ '' has physical attempts '' @ debug_u64_set observed
             @ '', expected 1..='' @ show_u64 claimed)
           else Inr (key, claimed))))"

definition attempt_multiplicity :: "request_map \<Rightarrow> string + (semantic_attempt_key, u64) btree" where
  "attempt_multiplicity requests =
     and_then (collect_ok declared_attempts (attempt_sets requests)) (\<lambda>ms. Inr (bt_of_list ms))"

definition collector_complete_by_run :: "determinism_run list \<Rightarrow> json" where
  "collector_complete_by_run runs =
     json_object (map (\<lambda>r. (show_u32 (dr_run r), JBool (dr_request_collector_complete r))) runs)"

section \<open>Row 64\<close>

record cross_run_evaluation =
  cr_identical :: bool
  cr_request_stream_count :: u64
  cr_attempt_count :: u64
  cr_details :: json
  cr_measurement_complete :: bool
  cr_measurement_error :: "string option"

definition cross_run_incomplete :: "string \<Rightarrow> determinism_run list \<Rightarrow> cross_run_evaluation" where
  "cross_run_incomplete detail runs =
     \<lparr>cr_identical = False, cr_request_stream_count = 0, cr_attempt_count = 0,
      cr_details = json_object [(''stream_sha256_by_run'', JObject []), (''first_difference'', JNull),
        (''collector_complete_by_run'', collector_complete_by_run runs)],
      cr_measurement_complete = False, cr_measurement_error = Some detail\<rparr>"

text \<open>The JSON of a difference.\<close>

definition presence_difference :: "u32 \<Rightarrow> string \<Rightarrow> json \<Rightarrow> string \<Rightarrow> string \<Rightarrow> json" where
  "presence_difference run kind key baseline comparison =
     json_object [(''run'', json_u32 run), (''kind'', JString kind), (''semantic_key'', key),
       (''baseline'', JString baseline), (''comparison'', JString comparison)]"

definition attempt_difference ::
    "(semantic_attempt_key, u64) btree \<Rightarrow> (semantic_attempt_key, u64) btree \<Rightarrow> u32 \<Rightarrow>
     semantic_attempt_key \<Rightarrow> json option" where
  "attempt_difference baseline comparison run key =
     (case (bt_get baseline key, bt_get comparison key) of
        (Some _, None) \<Rightarrow>
          Some (presence_difference run ''missing-request'' (attempt_key_json key) ''present'' ''missing'')
      | (None, Some _) \<Rightarrow>
          Some (presence_difference run ''added-request'' (attempt_key_json key) ''missing'' ''present'')
      | (Some before, Some after) \<Rightarrow>
          if before \<noteq> after
          then Some (json_object [(''run'', json_u32 run), (''kind'', JString ''attempt-multiplicity''),
             (''semantic_key'', attempt_key_json key), (''baseline_attempts'', json_u64 before),
             (''comparison_attempts'', json_u64 after)])
          else None
      | (None, None) \<Rightarrow> None)"

definition body_difference :: "request_map \<Rightarrow> request_map \<Rightarrow> u32 \<Rightarrow> semantic_request_key \<Rightarrow> json option" where
  "body_difference baseline comparison run key =
     (case (bt_get baseline key, bt_get comparison key) of
        (Some before, Some after) \<Rightarrow>
          if json_eq (cq_canonical before) (cq_canonical after) then None
          else Some (json_object [(''run'', json_u32 run), (''kind'', JString ''canonical-body''),
             (''semantic_key'', semantic_key_json key)])
      | (Some _, None) \<Rightarrow>
          Some (presence_difference run ''missing-request'' (semantic_key_json key) ''present'' ''missing'')
      | (None, Some _) \<Rightarrow>
          Some (presence_difference run ''added-request'' (semantic_key_json key) ''missing'' ''present'')
      | (None, None) \<Rightarrow> None)"

fun first_some :: "('a \<Rightarrow> 'b option) \<Rightarrow> 'a list \<Rightarrow> 'b option" where
  "first_some f [] = None"
| "first_some f (x # xs) = (case f x of Some y \<Rightarrow> Some y | None \<Rightarrow> first_some f xs)"

definition first_stream_difference ::
    "request_map \<Rightarrow> request_map \<Rightarrow> (semantic_attempt_key, u64) btree \<Rightarrow>
     (semantic_attempt_key, u64) btree \<Rightarrow> u32 \<Rightarrow> json option" where
  "first_stream_difference baseline comparison baseline_attempts comparison_attempts run =
     (case first_some (attempt_difference baseline_attempts comparison_attempts run)
         (bset_of_list (map fst baseline_attempts @ map fst comparison_attempts)) of
        Some d \<Rightarrow> Some d
      | None \<Rightarrow> first_some (body_difference baseline comparison run)
          (bset_of_list (map fst baseline @ map fst comparison)))"

definition runs_in_order :: "determinism_run list \<Rightarrow> u32 \<Rightarrow> bool" where
  "runs_in_order runs expected_runs \<longleftrightarrow> length runs = unat expected_runs
     \<and> list_all (\<lambda>(index, run). dr_run run = of_nat index + 1) (enumerate 0 runs)"

definition order_error :: "determinism_run list \<Rightarrow> u32 \<Rightarrow> string" where
  "order_error runs expected_runs = ''expected ordered runs 1..='' @ show_u32 expected_runs
     @ '', observed '' @ show_nat (length runs) @ '' run(s)''"

definition run_evidence :: "serializer \<Rightarrow> (nat list \<Rightarrow> nat list) \<Rightarrow> determinism_run \<Rightarrow>
    string + request_map \<times> (semantic_attempt_key, u64) btree \<times> string" where
  "run_evidence ser sha run =
     and_then (comparable_requests run) (\<lambda>requests.
     and_then (attempt_multiplicity requests) (\<lambda>attempts.
     and_then (normalized_stream_sha256 ser sha requests) (\<lambda>hash. Inr (requests, attempts, hash))))"

definition evaluate_cross_run_reproducibility ::
    "serializer \<Rightarrow> (nat list \<Rightarrow> nat list) \<Rightarrow> determinism_run list \<Rightarrow> u32 \<Rightarrow> cross_run_evaluation" where
  "evaluate_cross_run_reproducibility ser sha runs expected_runs =
     (if \<not> runs_in_order runs expected_runs
      then cross_run_incomplete (order_error runs expected_runs) runs
      else case collect_ok (run_evidence ser sha) runs of
        Inl detail \<Rightarrow> cross_run_incomplete detail runs
      | Inr [] \<Rightarrow> cross_run_incomplete ''cross-run-reproducibility has no baseline'' runs
      | Inr ((baseline, baseline_attempts, baseline_digest) # others) \<Rightarrow>
         (let normalized_runs = baseline # map fst others;
              hashes = bt_of_list (zip (map (\<lambda>r. show_u32 (dr_run r)) runs)
                (baseline_digest # map (snd \<circ> snd) others));
              first_difference = first_some (\<lambda>(index, comparison, attempts, _).
                  first_stream_difference baseline comparison baseline_attempts attempts (of_nat index + 1))
                (enumerate 1 others);
              baseline_hash = bt_get hashes ''1'';
              identical = (first_difference = None
                \<and> list_all (\<lambda>requests. length requests = length baseline) normalized_runs
                \<and> list_all (\<lambda>attempts. attempts = baseline_attempts) (baseline_attempts # map (fst \<circ> snd) others)
                \<and> baseline_hash \<noteq> None \<and> list_all (\<lambda>(_, h). Some h = baseline_hash) hashes)
          in if list_all (\<lambda>requests. requests = []) normalized_runs
             then cross_run_incomplete ''all complete runs have empty normalized request streams'' runs
             else \<lparr>cr_identical = identical, cr_request_stream_count = of_nat (length runs),
               cr_attempt_count = of_nat (length baseline),
               cr_details = json_object
                 [(''stream_sha256_by_run'', JObject (map (\<lambda>(k, h). (k, JString h)) hashes)),
                  (''first_difference'', case first_difference of None \<Rightarrow> JNull | Some d \<Rightarrow> d),
                  (''collector_complete_by_run'', collector_complete_by_run runs)],
               cr_measurement_complete = True, cr_measurement_error = None\<rparr>))"

section \<open>Row 63\<close>

record varying_field =
  vf_occurrences :: u64
  vf_comparison_runs :: "u32 list"
  vf_before_types :: "string list"
  vf_after_types :: "string list"
  vf_dialects :: "string list"

definition no_variation :: varying_field where
  "no_variation = \<lparr>vf_occurrences = 0, vf_comparison_runs = [], vf_before_types = [], vf_after_types = [],
     vf_dialects = []\<rparr>"

text \<open>The counters of the whole evaluation and of the comparison in progress.\<close>

record field_scan =
  fs_comparable :: u64
  fs_varying :: u64
  fs_fields :: "(string, varying_field) btree"
  fs_run_comparable :: u64
  fs_run_varying :: u64
  fs_run_critical :: bool

definition record_variation ::
    "u32 \<Rightarrow> string list \<Rightarrow> string \<Rightarrow> string \<Rightarrow> string \<Rightarrow> (string, varying_field) btree \<Rightarrow>
     (string, varying_field) btree" where
  "record_variation run dialects pointer before_type after_type vfields =
     (let f = (case bt_get vfields pointer of None \<Rightarrow> no_variation | Some f \<Rightarrow> f)
      in bt_insert pointer
           (\<lparr>vf_occurrences = saturating_add (vf_occurrences f) 1,
             vf_comparison_runs = bs_insert run (vf_comparison_runs f),
             vf_before_types = bs_insert before_type (vf_before_types f),
             vf_after_types = bs_insert after_type (vf_after_types f),
             vf_dialects = bset_of_list (dialects @ vf_dialects f)\<rparr>) vfields)"

definition count_comparable :: "field_scan \<Rightarrow> field_scan" where
  "count_comparable s = s\<lparr>fs_comparable := saturating_add (fs_comparable s) 1,
     fs_run_comparable := saturating_add (fs_run_comparable s) 1\<rparr>"

definition count_varying :: "(string, varying_field) btree \<Rightarrow> bool \<Rightarrow> field_scan \<Rightarrow> field_scan" where
  "count_varying vfields critical s = s\<lparr>fs_varying := saturating_add (fs_varying s) 1,
     fs_run_varying := saturating_add (fs_run_varying s) 1, fs_fields := vfields,
     fs_run_critical := (fs_run_critical s \<or> critical)\<rparr>"

definition scan_occurrence :: "u32 \<Rightarrow> string list \<Rightarrow> comparison_occurrence \<Rightarrow> field_scan \<Rightarrow> field_scan" where
  "scan_occurrence run dialects occurrence s =
     (let s = count_comparable s
      in if json_option_eq (co_before occurrence) (co_after occurrence) then s
         else count_varying
           (record_variation run dialects (co_pointer occurrence) (json_type (co_before occurrence))
             (json_type (co_after occurrence)) (fs_fields s))
           (is_critical_pointer dialects (co_pointer occurrence)) s)"

definition present_type :: "comparable_request option \<Rightarrow> string" where
  "present_type r = (if r \<noteq> None then ''object'' else ''missing'')"

definition request_dialects :: "comparable_request option \<Rightarrow> comparable_request option \<Rightarrow> string list" where
  "request_dialects before after =
     bset_of_list (map cq_dialect (case before of None \<Rightarrow> [] | Some r \<Rightarrow> [r])
       @ map cq_dialect (case after of None \<Rightarrow> [] | Some r \<Rightarrow> [r]))"

definition scan_key ::
    "serializer \<Rightarrow> request_map \<Rightarrow> request_map \<Rightarrow> u32 \<Rightarrow> field_scan \<Rightarrow> semantic_request_key \<Rightarrow>
     string + field_scan" where
  "scan_key ser baseline comparison run s key =
     (let before = bt_get baseline key; after = bt_get comparison key;
          dialects = request_dialects before after
      in case (before, after) of
           (Some b, Some a) \<Rightarrow>
             and_then (comparison_occurrences ser (cq_canonical b) (cq_canonical a)) (\<lambda>occurrences.
               Inr (fold (scan_occurrence run dialects) occurrences s))
         | _ \<Rightarrow> let s = count_comparable s
                in Inr (count_varying
                     (record_variation run dialects [] (present_type before) (present_type after) (fs_fields s))
                     True s))"

definition comparison_score :: "u64 \<Rightarrow> u64 \<Rightarrow> f64" where
  "comparison_score varying comparable =
     f_sub (Fin 1) (f_div (f_of_int (uint varying)) (f_of_int (uint comparable)))"

text \<open>One comparison run; the flag says whether every comparison so far passed.\<close>

definition scan_run ::
    "serializer \<Rightarrow> request_map \<Rightarrow> field_scan \<times> bool \<Rightarrow> nat \<times> request_map \<Rightarrow> string + field_scan \<times> bool" where
  "scan_run ser baseline = (\<lambda>(s, passing) (index, comparison).
     (let run = of_nat index + 1;
          s0 = s\<lparr>fs_run_comparable := 0, fs_run_varying := 0, fs_run_critical := False\<rparr>
      in and_then (fold_ok (scan_key ser baseline comparison run) s0
             (bset_of_list (map fst baseline @ map fst comparison))) (\<lambda>s.
           if fs_run_comparable s = 0
           then Inl (''nondeterministic-field-report comparison run '' @ show_u32 run
             @ '' has a zero comparable leaf denominator'')
           else Inr (s, passing
             \<and> f_le (f_round (99/100)) (comparison_score (fs_run_varying s) (fs_run_comparable s))
             \<and> \<not> fs_run_critical s))))"

record nondeterministic_field_evaluation =
  nf_score :: f64
  nf_comparable_leaf_occurrences :: u64
  nf_varying_leaf_occurrences :: u64
  nf_varying_pointer_count :: u64
  nf_varying_critical_field_count :: u64
  nf_details :: json
  nf_measurement_complete :: bool
  nf_reference_envelope_pass :: bool
  nf_measurement_error :: "string option"

definition incomplete :: "string \<Rightarrow> determinism_run list \<Rightarrow> nondeterministic_field_evaluation" where
  "incomplete detail runs =
     \<lparr>nf_score = Fin 0, nf_comparable_leaf_occurrences = 0, nf_varying_leaf_occurrences = 0,
      nf_varying_pointer_count = 0, nf_varying_critical_field_count = 0,
      nf_details = json_object [(''varying_fields'', JArray []), (''run_hashes'', JArray []),
        (''collector_complete_by_run'', collector_complete_by_run runs)],
      nf_measurement_complete = False, nf_reference_envelope_pass = False,
      nf_measurement_error = Some detail\<rparr>"

definition varying_field_json :: "string \<times> varying_field \<Rightarrow> json" where
  "varying_field_json = (\<lambda>(pointer, f). json_object
     [(''pointer'', JString pointer), (''occurrences'', json_u64 (vf_occurrences f)),
      (''comparison_runs'', JArray (map json_u32 (vf_comparison_runs f))),
      (''before_types'', JArray (map JString (vf_before_types f))),
      (''after_types'', JArray (map JString (vf_after_types f))),
      (''dialects'', JArray (map JString (vf_dialects f)))])"

definition empty_scan :: field_scan where
  "empty_scan = \<lparr>fs_comparable = 0, fs_varying = 0, fs_fields = [], fs_run_comparable = 0, fs_run_varying = 0,
     fs_run_critical = False\<rparr>"

definition evaluate_nondeterministic_fields ::
    "serializer \<Rightarrow> (nat list \<Rightarrow> nat list) \<Rightarrow> determinism_run list \<Rightarrow> u32 \<Rightarrow> nondeterministic_field_evaluation" where
  "evaluate_nondeterministic_fields ser sha runs expected_runs =
     (if \<not> runs_in_order runs expected_runs then incomplete (order_error runs expected_runs) runs
      else case collect_ok comparable_requests runs of
        Inl detail \<Rightarrow> incomplete detail runs
      | Inr normalized_runs \<Rightarrow>
         (case collect_ok (normalized_stream_sha256 ser sha) normalized_runs of
            Inl detail \<Rightarrow> incomplete detail runs
          | Inr run_hashes \<Rightarrow>
             (case normalized_runs of
                [] \<Rightarrow> incomplete ''nondeterministic-field-report has no baseline run'' runs
              | baseline # comparisons \<Rightarrow>
                 (case fold_ok (scan_run ser baseline) (empty_scan, True) (enumerate 1 comparisons) of
                    Inl detail \<Rightarrow> incomplete detail runs
                  | Inr (s, passing) \<Rightarrow>
                     if fs_comparable s = 0
                     then incomplete ''nondeterministic-field-report comparable leaf denominator is zero'' runs
                     else \<lparr>nf_score = comparison_score (fs_varying s) (fs_comparable s),
                       nf_comparable_leaf_occurrences = fs_comparable s,
                       nf_varying_leaf_occurrences = fs_varying s,
                       nf_varying_pointer_count = of_nat (length (fs_fields s)),
                       nf_varying_critical_field_count = of_nat (length
                         (filter (\<lambda>(pointer, f). is_critical_pointer (vf_dialects f) pointer) (fs_fields s))),
                       nf_details = json_object
                         [(''varying_fields'', JArray (map varying_field_json (fs_fields s))),
                          (''run_hashes'', JArray (map JString run_hashes)),
                          (''collector_complete_by_run'', collector_complete_by_run runs)],
                       nf_measurement_complete = True, nf_reference_envelope_pass = passing,
                       nf_measurement_error = None\<rparr>))))"

end
