(* ===== verification/Comparison_Proofs.thy ===== *)
theory Comparison_Proofs
  imports Determinism_Rows
begin

text \<open>
  Lemmas on the leaf-wise comparison: it sees every difference, and each occurrence names the place
  it was found at.
\<close>

section \<open>Every difference is seen\<close>

definition same_sides :: "comparison_occurrence \<Rightarrow> bool" where
  "same_sides occurrence \<longleftrightarrow> json_option_eq (co_before occurrence) (co_after occurrence)"

lemma same_sides_leaf [simp]: "\<not> same_sides (present_leaf b p v)" "same_sides (both_leaf p v w) \<longleftrightarrow> plus_zero v = plus_zero w"
  by (auto simp: same_sides_def present_leaf_def both_leaf_def json_option_eq_def)

lemma present_not_same:
  "push_present_subtree v p b \<noteq> [] \<and> (\<forall>oc \<in> set (push_present_subtree v p b). \<not> same_sides oc)"
  "(items \<noteq> [] \<longrightarrow> push_present_items items i p b \<noteq> [])
    \<and> (\<forall>oc \<in> set (push_present_items items i p b). \<not> same_sides oc)"
  "(members \<noteq> [] \<longrightarrow> push_present_members members p b \<noteq> [])
    \<and> (\<forall>oc \<in> set (push_present_members members p b). \<not> same_sides oc)"
proof (induction v p b and items i p b and members p b
    rule: push_present_subtree_push_present_items_push_present_members.induct)
qed auto

lemma present_some_difference: "\<not> list_all same_sides (push_present_subtree v p b)"
  using present_not_same(1) [of v p b] by (cases "push_present_subtree v p b") auto

definition wf_option :: "json option \<Rightarrow> bool" where
  "wf_option v = (case v of None \<Rightarrow> True | Some v \<Rightarrow> json_wf v)"

lemma wf_option_simps [simp]: "wf_option None" "wf_option (Some v) = json_wf v"
  by (simp_all add: wf_option_def)

lemma wf_option_children:
  "json_wf (JArray xs) \<Longrightarrow> wf_option (nth_opt xs i)" "json_wf (JObject m) \<Longrightarrow> wf_option (bt_get m k)"
  using json_wf_nth_opt json_wf_bt_get by (auto simp: wf_option_def split: option.splits)

lemma concat_parts: "list_all2 (\<lambda>x y. f x = Inr y) xs parts \<Longrightarrow>
    (\<And>x y. x \<in> set xs \<Longrightarrow> f x = Inr y \<Longrightarrow> list_all P y \<longleftrightarrow> Q x) \<Longrightarrow> list_all P (concat parts) \<longleftrightarrow> (\<forall>x \<in> set xs. Q x)"
  by (induction xs parts rule: list_all2_induct) auto

lemma in_concat_parts: "list_all2 (\<lambda>x y. f x = Inr y) xs parts \<Longrightarrow> oc \<in> set (concat parts) \<Longrightarrow>
    \<exists>x \<in> set xs. \<exists>y. f x = Inr y \<and> oc \<in> set y"
  by (induction xs parts rule: list_all2_induct) auto

lemma nth_opt_ext: "(\<forall>i < max (length xs) (length ys). nth_opt xs i = nth_opt ys i) \<longleftrightarrow> xs = ys"
proof
  assume eq: "\<forall>i < max (length xs) (length ys). nth_opt xs i = nth_opt ys i"
  have "length xs = length ys"
  proof (rule ccontr)
    assume "length xs \<noteq> length ys"
    then have "min (length xs) (length ys) < max (length xs) (length ys)" by (auto simp: min_def max_def)
    from eq [rule_format, OF this] \<open>length xs \<noteq> length ys\<close> show False
      by (auto simp: nth_opt_def min_def split: if_splits)
  qed
  with eq show "xs = ys" by (auto intro!: nth_equalityI simp: nth_opt_def)
qed simp

lemma bt_get_keys_ext: "bt_wf m \<Longrightarrow> bt_wf n \<Longrightarrow>
    (\<forall>k \<in> set (map fst m @ map fst n). bt_get m k = bt_get n k) \<longleftrightarrow> m = n"
proof
  assume wf: "bt_wf m" "bt_wf n" and eq: "\<forall>k \<in> set (map fst m @ map fst n). bt_get m k = bt_get n k"
  have "bt_get m k = bt_get n k" for k
  proof (cases "k \<in> set (map fst m @ map fst n)")
    case False
    then have "k \<notin> set (map fst m)" "k \<notin> set (map fst n)" by simp_all
    then show ?thesis unfolding keys_bt_get by simp
  qed (use eq in blast)
  with wf show "m = n" by (rule bt_ext)
qed simp

lemma zero_members_ext: "bt_wf m \<Longrightarrow> bt_wf n \<Longrightarrow>
    (\<forall>k \<in> set (map fst m @ map fst n). map_option plus_zero (bt_get m k) = map_option plus_zero (bt_get n k))
      \<longleftrightarrow> map (\<lambda>(k, v). (k, plus_zero v)) m = map (\<lambda>(k, v). (k, plus_zero v)) n"
  using bt_get_keys_ext [of "map (\<lambda>(k, v). (k, plus_zero v)) m" "map (\<lambda>(k, v). (k, plus_zero v)) n"]
  by (simp only: bt_wf_def map_fst_map bt_get_map)

lemma reorder_differs: "pure_array_reorder ser xs ys = Inr True \<Longrightarrow> map plus_zero xs \<noteq> map plus_zero ys"
  by (auto simp: pure_array_reorder_def json_list_eq_def)

lemma visit_sees_differences:
  "visit_values ser before after pointer = Inr occurrences \<Longrightarrow> wf_option before \<Longrightarrow> wf_option after \<Longrightarrow>
    list_all same_sides occurrences \<longleftrightarrow> json_option_eq before after"
proof (induction ser before after pointer arbitrary: occurrences rule: visit_values.induct)
  case (1 ser before after pointer)
  obtain r where r: "pure_array_reorder ser before after = Inr r"
    using "1.prems"(1) by (auto simp: and_then_Inr_iff)
  show ?case
  proof (cases "r \<or> (before = [] \<and> after = [])")
    case True
    then show ?thesis using 1 r reorder_differs [of ser before after] by (cases r) (auto simp: json_option_eq_def)
  next
    case False
    with 1 r obtain parts where
      parts: "list_all2 (\<lambda>index y. visit_values ser (nth_opt before index) (nth_opt after index)
          (extend_pointer pointer (show_nat index)) = Inr y) [0..<max (length before) (length after)] parts"
        "occurrences = concat parts"
      by (auto simp: and_then_Inr_iff collect_ok_Inr_iff)
    have "list_all same_sides (concat parts) \<longleftrightarrow>
        (\<forall>i \<in> set [0..<max (length before) (length after)]. json_option_eq (nth_opt before i) (nth_opt after i))"
      by (rule concat_parts [OF parts(1)])
        (use 1 r False wf_option_children in \<open>auto simp del: json_wf.simps\<close>)
    then show ?thesis using parts(2) nth_opt_ext [of "map plus_zero before" "map plus_zero after"]
      by (auto simp: json_option_eq_def nth_opt_map)
  qed
next
  case (2 ser before after pointer)
  show ?case
  proof (cases "before = [] \<and> after = []")
    case True
    then show ?thesis using 2 by auto
  next
    case False
    with 2 obtain parts where
      parts: "list_all2 (\<lambda>key y. visit_values ser (bt_get before key) (bt_get after key)
          (extend_pointer pointer (escape_segment key)) = Inr y)
          (bset_of_list (map fst before @ map fst after)) parts"
        "occurrences = concat parts"
      by (auto simp: and_then_Inr_iff collect_ok_Inr_iff)
    have "list_all same_sides (concat parts) \<longleftrightarrow>
        (\<forall>k \<in> set (bset_of_list (map fst before @ map fst after)). json_option_eq (bt_get before k) (bt_get after k))"
      by (rule concat_parts [OF parts(1)])
        (use 2 False wf_option_children in \<open>auto simp del: json_wf.simps\<close>)
    then show ?thesis using parts(2) zero_members_ext [of before after] "2.prems"
      by (simp add: json_option_eq_def set_bset_of_list del: set_append set_map)
  qed
qed (use present_some_difference in \<open>auto simp: json_option_eq_def\<close>)

section \<open>Every occurrence is located\<close>

text \<open>The value a path of segments leads to; an array is indexed by a decimal number.\<close>

fun json_step :: "json option \<Rightarrow> string \<Rightarrow> json option" where
  "json_step (Some (JArray items)) segment =
     (case parse_unsigned (length items) segment of None \<Rightarrow> None | Some i \<Rightarrow> nth_opt items i)"
| "json_step (Some (JObject members)) segment = bt_get members segment"
| "json_step v segment = None"

definition json_at :: "json option \<Rightarrow> string list \<Rightarrow> json option" where
  "json_at v path = foldl json_step v path"

definition pointer_of :: "string list \<Rightarrow> string" where
  "pointer_of path = concat (map (\<lambda>s. CHR ''/'' # escape_segment s) path)"

lemma json_at_simps [simp]: "json_at v [] = v" "json_at v (s # path) = json_at (json_step v s) path"
  by (simp_all add: json_at_def)

lemma json_at_None [simp]: "json_at None path = None"
  by (induction path) simp_all

lemma pointer_of_simps [simp]: "pointer_of [] = []"
  "pointer_of (path @ path') = pointer_of path @ pointer_of path'"
  "pointer_of (s # path) = CHR ''/'' # escape_segment s @ pointer_of path"
  by (simp_all add: pointer_of_def)

lemma decode_escape: "decode_loop (escape_segment s @ t) False decoded = decode_loop t False (decoded @ s)"
  by (induction s arbitrary: decoded) auto

lemma decode_escape_segment: "decode_pointer_segment (escape_segment s) False = Inr s"
  using decode_escape [of s "[]" "[]"] by (simp add: decode_pointer_segment_def)

lemma pointer_of_join: "path \<noteq> [] \<Longrightarrow> pointer_of path = CHR ''/'' # join ''/'' (map escape_segment path)"
  by (induction path rule: induct_list012) simp_all

lemma parse_pointer_of: "parse_json_pointer (pointer_of path) = Inr path"
proof (cases "path = []")
  case False
  have "split_on (CHR ''/'') (join ''/'' (map escape_segment path)) = map escape_segment path"
    using False escape_segment_no_slash by (intro split_on_join) auto
  moreover have "collect_ok (\<lambda>s. decode_pointer_segment s False) (map escape_segment path) = Inr path"
    by (induction path) (simp_all add: decode_escape_segment)
  ultimately show ?thesis
    using False by (simp add: pointer_of_join parse_json_pointer_def strip_prefix_def)
qed (simp add: parse_json_pointer_def)

lemma pointer_of_inj: "pointer_of path = pointer_of path' \<longleftrightarrow> path = path'"
  by (metis parse_pointer_of sum.inject(2))

lemma escape_digits: "list_all is_digit s \<Longrightarrow> escape_segment s = s"
  by (induction s) (auto simp: is_digit_def)

lemma escape_show_nat: "escape_segment (show_nat i) = show_nat i"
  using show_nat_digits by (intro escape_digits) blast

lemma show_nat_inj: "show_nat i = show_nat j \<longleftrightarrow> i = j"
  by (metis show_nat_digits)

lemma extend_pointer_of: "extend_pointer (pointer_of path) (escape_segment s) = pointer_of (path @ [s])"
  "extend_pointer (pointer_of path) (show_nat i) = pointer_of (path @ [show_nat i])"
  by (simp_all add: extend_pointer_def escape_show_nat)

lemma parse_show_nat_iff: "parse_unsigned bound (show_nat n) = (if n < bound then Some n else None)"
proof (cases "n < bound")
  case False
  obtain c t where s: "show_nat n = c # t" "is_digit c"
    using show_nat_digits [of n] by (cases "show_nat n") auto
  with False show_nat_digits [of n] not_is_digit_plus [of c] show ?thesis
    by (simp add: parse_unsigned_def)
qed (simp add: parse_show_nat)

lemma json_step_nth: "json_step (Some (JArray items)) (show_nat i) = nth_opt items i"
  by (simp add: parse_show_nat_iff nth_opt_def)

definition located :: "json option \<Rightarrow> json option \<Rightarrow> string list \<Rightarrow> comparison_occurrence \<Rightarrow> bool" where
  "located before after path oc \<longleftrightarrow> (\<exists>rest. co_pointer oc = pointer_of (path @ rest)
     \<and> co_before oc = json_at before rest \<and> co_after oc = json_at after rest)"

lemma located_leaf: "co_pointer oc = pointer_of path \<Longrightarrow> co_before oc = before \<Longrightarrow> co_after oc = after \<Longrightarrow>
    located before after path oc"
  unfolding located_def by (rule exI [of _ "[]"]) simp

lemma located_child: "located (json_step before s) (json_step after s) (path @ [s]) oc \<Longrightarrow> located before after path oc"
  unfolding located_def by (metis append.assoc append_Cons append_Nil json_at_simps(2))

definition one_side :: "bool \<Rightarrow> json \<Rightarrow> json option \<times> json option" where
  "one_side b v = (if b then (Some v, None) else (None, Some v))"

lemma one_side_simps [simp]: "one_side True v = (Some v, None)" "one_side False v = (None, Some v)"
  by (simp_all add: one_side_def)

definition side_located :: "bool \<Rightarrow> json option \<Rightarrow> string list \<Rightarrow> comparison_occurrence \<Rightarrow> bool" where
  "side_located b v path oc \<longleftrightarrow> (if b then located v None path oc else located None v path oc)"

lemma side_located_leaf: "side_located b (Some v) path (present_leaf b (pointer_of path) v)"
  by (simp add: side_located_def present_leaf_def located_leaf)

lemma side_located_child: "side_located b (json_step v s) (path @ [s]) oc \<Longrightarrow> side_located b v path oc"
  unfolding side_located_def
  using located_child [of v s None path oc] located_child [of None s v path oc] by (auto split: if_splits)

lemma bt_get_member: "bt_wf m \<Longrightarrow> (k, v) \<in> set m \<Longrightarrow> bt_get m k = Some v"
  by (simp add: bt_get_eq_map_of bt_wf_def strict_sorted_iff)

lemma present_located:
  "json_wf v \<Longrightarrow> \<forall>oc \<in> set (push_present_subtree v (pointer_of path) b). side_located b (Some v) path oc"
proof (induction v arbitrary: path)
  case (JArray items)
  have "\<forall>oc \<in> set (push_present_items rest i (pointer_of path) b). side_located b (Some (JArray items)) path oc"
    if "drop i items = rest" for i rest
    using that
  proof (induction rest arbitrary: i)
    case (Cons item rest)
    then have i: "i < length items" "items ! i = item" "drop (i + 1) items = rest"
      by (metis drop_all list.distinct(1) not_le, metis drop_all hd_drop_conv_nth list.distinct(1) list.sel(1) not_le,
          metis Suc_eq_plus1 drop_Suc drop_tl list.sel(3))
    then have "item \<in> set items" by force
    with JArray.IH [of item] JArray.prems
    have "\<forall>oc \<in> set (push_present_subtree item (pointer_of (path @ [show_nat i])) b).
        side_located b (Some item) (path @ [show_nat i]) oc"
      by (simp add: list_all_iff)
    moreover have "Some item = json_step (Some (JArray items)) (show_nat i)"
      using i by (simp add: parse_show_nat_iff nth_opt_def)
    ultimately have "\<forall>oc \<in> set (push_present_subtree item (pointer_of (path @ [show_nat i])) b).
        side_located b (Some (JArray items)) path oc"
      using side_located_child by metis
    then show ?case using Cons.IH [OF i(3)] by (simp only: push_present_items.simps extend_pointer_of set_append ball_Un)
  qed simp
  from this [of 0 items] show ?case using side_located_leaf [of b _ path] by simp
next
  case (JObject members)
  have "\<forall>oc \<in> set (push_present_members rest (pointer_of path) b). side_located b (Some (JObject members)) path oc"
    if "set rest \<subseteq> set members" for rest
    using that
  proof (induction rest)
    case (Cons e rest)
    obtain key item where e: "e = (key, item)" by force
    have mem: "(key, item) \<in> set members" using Cons.prems e by simp
    then have wf: "json_wf item" "bt_get members key = Some item"
      using JObject.prems by (auto simp: list_all_iff intro: bt_get_member)
    have "item \<in> Basic_BNFs.snds (key, item)" by simp
    with JObject.IH [OF mem, of item] wf
    have "\<forall>oc \<in> set (push_present_subtree item (pointer_of (path @ [key])) b).
        side_located b (Some item) (path @ [key]) oc" by simp
    moreover have "Some item = json_step (Some (JObject members)) key" using wf by simp
    ultimately have "\<forall>oc \<in> set (push_present_subtree item (pointer_of (path @ [key])) b).
        side_located b (Some (JObject members)) path oc"
      using side_located_child by metis
    then show ?case using Cons by (simp only: e push_present_members.simps extend_pointer_of set_append ball_Un) simp
  qed simp
  from this [of members] show ?case using side_located_leaf [of b _ path] by simp
qed (use side_located_leaf in auto)

lemma visit_located:
  "visit_values ser before after pointer = Inr occurrences \<Longrightarrow> pointer = pointer_of path \<Longrightarrow>
    wf_option before \<Longrightarrow> wf_option after \<Longrightarrow> oc \<in> set occurrences \<Longrightarrow> located before after path oc"
proof (induction ser before after pointer arbitrary: occurrences path oc rule: visit_values.induct)
  case (1 ser before after pointer)
  obtain r where r: "pure_array_reorder ser before after = Inr r"
    using "1.prems"(1) by (auto simp: and_then_Inr_iff)
  show ?case
  proof (cases "r \<or> (before = [] \<and> after = [])")
    case True
    then have "oc = both_leaf pointer (JArray before) (JArray after)" using 1 r by (cases r) auto
    then show ?thesis using "1.prems"(2) by (simp add: both_leaf_def located_leaf)
  next
    case False
    with 1 r obtain parts where
      "list_all2 (\<lambda>index y. visit_values ser (nth_opt before index) (nth_opt after index)
          (extend_pointer pointer (show_nat index)) = Inr y) [0..<max (length before) (length after)] parts"
        "occurrences = concat parts"
      by (auto simp: and_then_Inr_iff collect_ok_Inr_iff)
    from in_concat_parts [OF this(1)] this(2) "1.prems"(5) obtain index y where
      y: "visit_values ser (nth_opt before index) (nth_opt after index) (extend_pointer pointer (show_nat index)) = Inr y"
        "oc \<in> set y" "index \<in> set [0..<max (length before) (length after)]" by blast
    have ptr: "extend_pointer pointer (show_nat index) = pointer_of (path @ [show_nat index])"
      by (simp only: "1.prems"(2) extend_pointer_of)
    have wf: "wf_option (nth_opt before index)" "wf_option (nth_opt after index)"
      using "1.prems"(3,4) wf_option_children(1) by (simp_all only: wf_option_simps)
    have cases: "\<not> r" "\<not> (before = [] \<and> after = [])" using False by simp_all
    have "located (nth_opt before index) (nth_opt after index) (path @ [show_nat index]) oc"
      by (rule "1.IH" [OF r cases y(3) y(1) ptr wf y(2)])
    then show ?thesis using located_child [of "Some (JArray before)" "show_nat index" "Some (JArray after)" path oc]
      by (simp only: json_step_nth)
  qed
next
  case (2 ser before after pointer)
  show ?case
  proof (cases "before = [] \<and> after = []")
    case True
    then have "oc = both_leaf pointer (JObject before) (JObject after)" using 2 by auto
    then show ?thesis using "2.prems"(2) by (simp add: both_leaf_def located_leaf)
  next
    case False
    with 2 obtain parts where
      "list_all2 (\<lambda>key y. visit_values ser (bt_get before key) (bt_get after key)
          (extend_pointer pointer (escape_segment key)) = Inr y)
          (bset_of_list (map fst before @ map fst after)) parts"
        "occurrences = concat parts"
      by (auto simp: and_then_Inr_iff collect_ok_Inr_iff)
    from in_concat_parts [OF this(1)] this(2) "2.prems"(5) obtain key y where
      y: "visit_values ser (bt_get before key) (bt_get after key) (extend_pointer pointer (escape_segment key)) = Inr y"
        "oc \<in> set y" "key \<in> set (bset_of_list (map fst before @ map fst after))" by blast
    have ptr: "extend_pointer pointer (escape_segment key) = pointer_of (path @ [key])"
      by (simp only: "2.prems"(2) extend_pointer_of)
    have wf: "wf_option (bt_get before key)" "wf_option (bt_get after key)"
      using "2.prems"(3,4) wf_option_children(2) by (simp_all only: wf_option_simps)
    have "located (bt_get before key) (bt_get after key) (path @ [key]) oc"
      by (rule "2.IH" [OF False y(3) y(1) ptr wf y(2)])
    then show ?thesis using located_child [of "Some (JObject before)" key "Some (JObject after)" path oc]
      by (simp only: json_step.simps)
  qed
next
  case (3 before after ser pointer)
  then have "oc = both_leaf pointer before after" by auto
  then show ?case using "3.prems"(2) by (simp add: both_leaf_def located_leaf)
next
  case (4 ser before pointer)
  then show ?case using present_located [of before path True] by (simp add: side_located_def)
next
  case (5 ser after pointer)
  then show ?case using present_located [of after path False] by (simp add: side_located_def)
qed simp

section \<open>No pointer occurs twice\<close>

definition below :: "string list \<Rightarrow> string set \<Rightarrow> comparison_occurrence list \<Rightarrow> bool" where
  "below path segments occurrences \<longleftrightarrow> (\<forall>oc \<in> set occurrences. \<exists>s \<in> segments. \<exists>rest.
     co_pointer oc = pointer_of (path @ s # rest))"

definition pointers_distinct :: "comparison_occurrence list \<Rightarrow> bool" where
  "pointers_distinct occurrences \<longleftrightarrow> distinct (map co_pointer occurrences)"

lemma below_append [simp]: "below path S (xs @ ys) \<longleftrightarrow> below path S xs \<and> below path S ys"
  by (auto simp: below_def)

lemma below_Nil [simp]: "below path S []"
  by (simp add: below_def)

lemma below_mono: "below path S xs \<Longrightarrow> S \<subseteq> T \<Longrightarrow> below path T xs"
  by (fastforce simp: below_def)

lemma pointers_distinct_append: "pointers_distinct xs \<Longrightarrow> pointers_distinct ys \<Longrightarrow> below path S xs \<Longrightarrow>
    below path T ys \<Longrightarrow> S \<inter> T = {} \<Longrightarrow> pointers_distinct (xs @ ys)"
  unfolding pointers_distinct_def below_def map_append distinct_append
  by (fastforce simp: pointer_of_inj simp del: pointer_of_simps)

lemma pointers_distinct_single [simp]: "pointers_distinct [oc]" "pointers_distinct []"
  by (simp_all add: pointers_distinct_def)

lemma below_child: "\<forall>oc \<in> set xs. \<exists>rest. co_pointer oc = pointer_of ((path @ [s]) @ rest) \<Longrightarrow> below path {s} xs"
  by (auto simp: below_def)

lemma located_below: "\<forall>oc \<in> set xs. located before after (path @ [s]) oc \<Longrightarrow> below path {s} xs"
  unfolding located_def by (rule below_child) blast

lemma present_pointers:
  assumes "json_wf v" "oc \<in> set (push_present_subtree v (pointer_of path) b)"
  shows "\<exists>rest. co_pointer oc = pointer_of (path @ rest)"
  using present_located [of v path b] assms unfolding side_located_def located_def by (metis (full_types))

lemma present_below:
  "json_wf v \<Longrightarrow> below path {s} (push_present_subtree v (pointer_of (path @ [s])) b)"
  by (rule below_child) (use present_pointers in blast)

lemma present_distinct:
  "pointer = pointer_of path \<Longrightarrow> json_wf v \<Longrightarrow> pointers_distinct (push_present_subtree v pointer b)"
  "pointer = pointer_of path \<Longrightarrow> list_all json_wf items \<Longrightarrow>
    pointers_distinct (push_present_items items i pointer b)
    \<and> below path (show_nat ` {i..}) (push_present_items items i pointer b)"
  "pointer = pointer_of path \<Longrightarrow> distinct (map fst members) \<Longrightarrow> list_all (\<lambda>(k, v). json_wf v) members \<Longrightarrow>
    pointers_distinct (push_present_members members pointer b)
    \<and> below path (fst ` set members) (push_present_members members pointer b)"
proof (induction v pointer b and items i pointer b and members pointer b arbitrary: path and path and path
    rule: push_present_subtree_push_present_items_push_present_members.induct, goal_cases)
  case (8 item items index pointer before path)
  let ?child = "push_present_subtree item (pointer_of (path @ [show_nat index])) before"
  have ptr: "extend_pointer pointer (show_nat index) = pointer_of (path @ [show_nat index])"
    by (simp only: 8(3) extend_pointer_of)
  have child: "below path {show_nat index} ?child" using 8(4) by (intro present_below) simp
  have "pointers_distinct ?child" using 8(1) [OF ptr] 8(4) by (simp only: ptr) simp
  moreover have tail: "pointers_distinct (push_present_items items (index + 1) pointer before)
      \<and> below path (show_nat ` {index + 1..}) (push_present_items items (index + 1) pointer before)"
    using 8(2) [OF 8(3)] 8(4) by simp
  moreover have "{show_nat index} \<inter> show_nat ` {index + 1..} = {}" by (auto simp: show_nat_inj)
  ultimately have "pointers_distinct (?child @ push_present_items items (index + 1) pointer before)"
    using child by (blast intro: pointers_distinct_append)
  with child tail show ?case
    by (simp only: push_present_items.simps ptr) (auto elim!: below_mono)
next
  case (10 key item members pointer before path)
  let ?child = "push_present_subtree item (pointer_of (path @ [key])) before"
  have ptr: "extend_pointer pointer (escape_segment key) = pointer_of (path @ [key])"
    by (simp only: 10(3) extend_pointer_of)
  have child: "below path {key} ?child" using 10(5) by (intro present_below) simp
  have "pointers_distinct ?child" using 10(1) [OF ptr] 10(5) by (simp only: ptr) simp
  moreover have tail: "pointers_distinct (push_present_members members pointer before)
      \<and> below path (fst ` set members) (push_present_members members pointer before)"
    using 10(2) [OF 10(3)] 10(4,5) by simp
  moreover have "{key} \<inter> fst ` set members = {}" using 10(4) by simp
  ultimately have "pointers_distinct (?child @ push_present_members members pointer before)"
    using child by (blast intro: pointers_distinct_append)
  with child tail show ?case
    by (simp only: push_present_members.simps ptr) (auto elim!: below_mono)
qed (auto simp: bt_wf_def strict_sorted_iff)

lemma concat_distinct:
  assumes "list_all2 (\<lambda>x y. f x = Inr y) xs parts" "distinct xs" "inj_on seg (set xs)"
    and part: "\<And>x y. x \<in> set xs \<Longrightarrow> f x = Inr y \<Longrightarrow> pointers_distinct y \<and> below path {seg x} y"
  shows "pointers_distinct (concat parts) \<and> below path (seg ` set xs) (concat parts)"
  using assms
proof (induction xs parts rule: list_all2_induct)
  case (Cons x xs y parts)
  have IH: "pointers_distinct (concat parts) \<and> below path (seg ` set xs) (concat parts)"
    using Cons.prems by (intro Cons.IH) (auto intro: inj_on_subset)
  have y: "pointers_distinct y" "below path {seg x} y" using Cons.prems(3) [of x y] Cons.hyps by simp_all
  have "{seg x} \<inter> seg ` set xs = {}" using Cons.prems(1,2) by (auto simp: inj_on_def)
  then have "pointers_distinct (y @ concat parts)" using IH y by (blast intro: pointers_distinct_append)
  then show ?case using IH y by (auto elim!: below_mono)
qed simp

lemma visit_distinct:
  "visit_values ser before after pointer = Inr occurrences \<Longrightarrow> pointer = pointer_of path \<Longrightarrow>
    wf_option before \<Longrightarrow> wf_option after \<Longrightarrow> pointers_distinct occurrences"
proof (induction ser before after pointer arbitrary: occurrences path rule: visit_values.induct)
  case (1 ser before after pointer)
  obtain r where r: "pure_array_reorder ser before after = Inr r"
    using "1.prems"(1) by (auto simp: and_then_Inr_iff)
  show ?case
  proof (cases "r \<or> (before = [] \<and> after = [])")
    case True
    then show ?thesis using 1 r by (cases r) auto
  next
    case False
    with 1 r obtain parts where
      parts: "list_all2 (\<lambda>index y. visit_values ser (nth_opt before index) (nth_opt after index)
          (extend_pointer pointer (show_nat index)) = Inr y) [0..<max (length before) (length after)] parts"
        "occurrences = concat parts"
      by (auto simp: and_then_Inr_iff collect_ok_Inr_iff)
    have wf: "wf_option (nth_opt before i)" "wf_option (nth_opt after i)" for i
      using "1.prems"(3,4) wf_option_children(1) by (simp_all only: wf_option_simps)
    have ptr: "extend_pointer pointer (show_nat i) = pointer_of (path @ [show_nat i])" for i
      by (simp only: "1.prems"(2) extend_pointer_of)
    have cases: "\<not> r" "\<not> (before = [] \<and> after = [])" using False by simp_all
    have "pointers_distinct y \<and> below path {show_nat i} y"
      if "i \<in> set [0..<max (length before) (length after)]"
        "visit_values ser (nth_opt before i) (nth_opt after i) (extend_pointer pointer (show_nat i)) = Inr y" for i y
      using "1.IH" [OF r cases that(1,2) ptr wf] visit_located [OF that(2) ptr wf]
      by (blast intro: located_below)
    then show ?thesis
      using concat_distinct [OF parts(1), of show_nat path] by (simp add: parts(2) inj_on_def show_nat_inj)
  qed
next
  case (2 ser before after pointer)
  show ?case
  proof (cases "before = [] \<and> after = []")
    case True
    then show ?thesis using 2 by auto
  next
    case False
    with 2 obtain parts where
      parts: "list_all2 (\<lambda>key y. visit_values ser (bt_get before key) (bt_get after key)
          (extend_pointer pointer (escape_segment key)) = Inr y)
          (bset_of_list (map fst before @ map fst after)) parts"
        "occurrences = concat parts"
      by (auto simp: and_then_Inr_iff collect_ok_Inr_iff)
    have wf: "wf_option (bt_get before k)" "wf_option (bt_get after k)" for k
      using "2.prems"(3,4) wf_option_children(2) by (simp_all only: wf_option_simps)
    have ptr: "extend_pointer pointer (escape_segment k) = pointer_of (path @ [k])" for k
      by (simp only: "2.prems"(2) extend_pointer_of)
    have "pointers_distinct y \<and> below path {k} y"
      if "k \<in> set (bset_of_list (map fst before @ map fst after))"
        "visit_values ser (bt_get before k) (bt_get after k) (extend_pointer pointer (escape_segment k)) = Inr y" for k y
      using "2.IH" [OF False that(1,2) ptr wf] visit_located [OF that(2) ptr wf]
      by (blast intro: located_below)
    moreover have "distinct (bset_of_list (map fst before @ map fst after))"
      using bset_of_list_sorted strict_sorted_iff by blast
    ultimately show ?thesis
      using concat_distinct [OF parts(1), of "\<lambda>k. k" path] by (simp add: parts(2))
  qed
qed (use present_distinct(1) in auto)

end
