(* ===== verification/Determinism_Properties.thy ===== *)
theory Determinism_Properties
  imports Comparison_Proofs
begin

text \<open>
  Properties of the determinism rows: the leaf-wise comparison is exact and located, row 64 decides
  the equality of the normalized streams and of their digests, and row 63 agrees with it.
\<close>

section \<open>The comparison\<close>

text \<open>comparing two requests leaf by leaf is exact: all occurrences have equal sides just when the two
  values are equal (\<open>Value::eq\<close>, for which the two zeros are equal); no JSON pointer is reported twice; and every reported pointer parses to a path
  that leads to exactly the two values reported, whatever characters the keys contain (a missing
  side is a path that leads nowhere).\<close>

theorem comparison_is_exact:
  assumes "comparison_occurrences ser before after = Inr occurrences" "json_wf before" "json_wf after"
  shows "((\<forall>oc \<in> set occurrences. json_option_eq (co_before oc) (co_after oc)) \<longleftrightarrow> json_eq before after)
    \<and> distinct (map co_pointer occurrences)
    \<and> (\<forall>oc \<in> set occurrences. \<exists>path. parse_json_pointer (co_pointer oc) = Inr path
      \<and> json_at (Some before) path = co_before oc \<and> json_at (Some after) path = co_after oc)"
proof -
  note visit = assms(1) [unfolded comparison_occurrences_def]
  note wf = assms(2,3) [folded wf_option_simps(2)]
  have "(\<forall>oc \<in> set occurrences. json_option_eq (co_before oc) (co_after oc)) \<longleftrightarrow> json_eq before after"
    using visit_sees_differences [OF visit wf] by (simp add: list_all_iff same_sides_def json_option_eq_def json_eq_def)
  moreover have "distinct (map co_pointer occurrences)"
    using visit_distinct [OF visit _ wf, of "[]"] by (simp add: pointers_distinct_def)
  moreover have "\<forall>oc \<in> set occurrences. \<exists>path. parse_json_pointer (co_pointer oc) = Inr path
      \<and> json_at (Some before) path = co_before oc \<and> json_at (Some after) path = co_after oc"
    using visit_located [OF visit _ wf, of "[]"] parse_pointer_of by (fastforce simp: located_def)
  ultimately show ?thesis by blast
qed

definition flag_object :: "bool \<Rightarrow> json" where
  "flag_object b = JObject [(''a/b'', JBool b), (''c'', JArray [JNull])]"

lemma flag_object_occurrences: "comparison_occurrences ser (flag_object True) (flag_object False) =
    Inr [both_leaf ''/a~1b'' (JBool True) (JBool False), both_leaf ''/c/0'' JNull JNull]"
proof -
  have keys: "bset_of_list [''a/b'', ''c'', ''a/b'', ''c''] = [''a/b'', ''c'']" by code_simp
  have zero: "show_nat 0 = ''0''" by code_simp
  have order: "[0..<Suc 0] = [0]" by simp
  show ?thesis
    by (simp add: comparison_occurrences_def flag_object_def keys extend_pointer_def pure_array_reorder_def zero order)
qed

theorem comparison_is_exact_witness:
  "\<exists>oc \<in> set [both_leaf ''/a~1b'' (JBool True) (JBool False), both_leaf ''/c/0'' JNull JNull].
     \<not> json_option_eq (co_before oc) (co_after oc)"
  using comparison_is_exact [OF flag_object_occurrences] by (simp add: flag_object_def bt_wf_def json_eq_def)

section \<open>Normalized streams\<close>

lemma normalize_wf:
  "json_wf v \<Longrightarrow> json_wf (normalize_at_pointer v pointer dialect c)"
  "list_all json_wf items \<Longrightarrow> list_all json_wf (normalize_items items i pointer dialect c)"
  "list_all (\<lambda>(k, v). json_wf v) members \<Longrightarrow>
    list_all (\<lambda>(k, v). json_wf v) (normalize_members members pointer dialect c)
    \<and> map fst (normalize_members members pointer dialect c) = map fst members"
  by (induction v pointer dialect c and items i pointer dialect c and members pointer dialect c
      rule: normalize_at_pointer_normalize_items_normalize_members.induct)
    (auto simp: bt_wf_def bt_of_list_id)

lemma normalized_request_wf: "json_wf v \<Longrightarrow> json_wf (normalize_canonical_request dialect v c)"
  by (simp add: normalize_canonical_request_def canonicalize_wf normalize_wf(1))

definition raw_wf :: "determinism_run \<Rightarrow> bool" where
  "raw_wf run \<longleftrightarrow> list_all (\<lambda>r. json_wf (mr_canonical (rr_request r))) (dr_records run)"

definition canonical_stream :: "request_map \<Rightarrow> (semantic_request_key \<times> json) list" where
  "canonical_stream m = map (\<lambda>(k, q). (k, cq_canonical q)) m"

definition stream_wf :: "request_map \<Rightarrow> bool" where
  "stream_wf m \<longleftrightarrow> list_all (\<lambda>(k, q). json_wf (cq_canonical q)) m"

lemma bt_insert_all: "list_all P m \<Longrightarrow> P (k, v) \<Longrightarrow> list_all P (bt_insert k v m)"
  by (induction k v m rule: bt_insert.induct) auto

lemma insert_requests_inv:
  "insert_requests run records m = Inr m' \<Longrightarrow> bt_wf m \<Longrightarrow> bt_wf m'"
  "insert_requests run records m = Inr m' \<Longrightarrow> stream_wf m \<Longrightarrow>
    list_all (\<lambda>r. json_wf (mr_canonical (rr_request r))) records \<Longrightarrow> stream_wf m'"
  by (induction run records m rule: insert_requests.induct)
    (auto simp: bt_wf_insert stream_wf_def to_comparable_def bt_insert_all normalized_request_wf split: if_splits)

lemma comparable_requests_wf:
  assumes "comparable_requests run = Inr m"
  shows "bt_wf m" "raw_wf run \<Longrightarrow> stream_wf m"
  using assms insert_requests_inv [of run "dr_records run" "[]" m]
  by (auto simp: comparable_requests_def raw_wf_def bt_wf_def stream_wf_def split: if_splits)

lemma bt_insert_map: "map (\<lambda>(k, v). (k, f v)) (bt_insert k v m) = bt_insert k (f v) (map (\<lambda>(k, v). (k, f v)) m)"
  by (induction k v m rule: bt_insert.induct) auto

text \<open>The stream up to the signs of zeros.\<close>

definition value_stream :: "request_map \<Rightarrow> (semantic_request_key \<times> json) list" where
  "value_stream m = map (\<lambda>(k, q). (k, plus_zero (cq_canonical q))) m"

abbreviation value_of :: "comparable_request \<Rightarrow> json" where
  "value_of q \<equiv> plus_zero (cq_canonical q)"

lemma canonical_stream_keys: "map fst (canonical_stream m) = map fst m"
  by (simp add: canonical_stream_def map_fst_map del: map_map)

lemma value_stream_get: "bt_get (value_stream m) k = map_option value_of (bt_get m k)"
  by (simp add: value_stream_def bt_get_map [of "\<lambda>q. value_of q"])

lemma value_stream_wf: "bt_wf (value_stream m) = bt_wf m"
  by (simp add: value_stream_def bt_wf_def map_fst_map [of "\<lambda>q. value_of q"] del: map_map)

lemma value_stream_keys: "map fst (value_stream m) = map fst m"
  by (simp add: value_stream_def map_fst_map [of "\<lambda>q. value_of q"] del: map_map)

lemma canonical_value: "canonical_stream m = canonical_stream n \<Longrightarrow> value_stream m = value_stream n"
proof -
  assume "canonical_stream m = canonical_stream n"
  then have "map (\<lambda>(k, v). (k, plus_zero v)) (canonical_stream m) = map (\<lambda>(k, v). (k, plus_zero v)) (canonical_stream n)"
    by simp
  then show ?thesis by (simp add: canonical_stream_def value_stream_def comp_def case_prod_unfold)
qed

lemma stream_ext: "bt_wf m \<Longrightarrow> bt_wf n \<Longrightarrow> value_stream m = value_stream n \<longleftrightarrow>
    (\<forall>k \<in> set (map fst m @ map fst n). map_option value_of (bt_get m k) = map_option value_of (bt_get n k))"
  using bt_get_keys_ext [of "value_stream m" "value_stream n"]
  by (simp only: value_stream_wf value_stream_keys value_stream_get)

section \<open>Attempts and hashes follow from the stream\<close>

definition observed_step :: "(semantic_attempt_key, u64 list) btree \<Rightarrow> semantic_request_key \<Rightarrow>
    (semantic_attempt_key, u64 list) btree" where
  "observed_step m key = bt_insert (attempt_key key)
     (bs_insert (snd (snd (snd (snd key)))) (case bt_get m (attempt_key key) of None \<Rightarrow> [] | Some o' \<Rightarrow> o')) m"

lemma attempt_sets_observed:
  "map (\<lambda>(k, e). (k, fst e)) (attempt_sets m) = foldl observed_step [] (map fst m)"
proof -
  let ?step = "\<lambda>attempts (key, request).
      let k = attempt_key key;
          (observed, totals) = (case bt_get attempts k of None \<Rightarrow> ([], []) | Some e \<Rightarrow> e)
      in bt_insert k (bs_insert (snd (snd (snd (snd key)))) observed,
           bs_insert (cq_semantic_attempts_total request) totals) attempts"
  have "map (\<lambda>(k, e). (k, fst e)) (foldl ?step acc m) =
      foldl observed_step (map (\<lambda>(k, e). (k, fst e)) acc) (map fst m)" for acc
  proof (induction m arbitrary: acc)
    case (Cons e m)
    have "map (\<lambda>(k, e). (k, fst e)) (?step acc e) = observed_step (map (\<lambda>(k, e). (k, fst e)) acc) (fst e)"
      by (cases e) (auto simp: observed_step_def Let_def bt_insert_map [of fst] bt_get_map [of fst]
          split: option.splits prod.splits)
    with Cons show ?case by simp
  qed simp
  from this [of "[]"] show ?thesis by (simp add: attempt_sets_def)
qed

lemma length_attempts_upto: "length (attempts_upto c) = unat c"
  by (simp add: attempts_upto_def)

lemma declared_attempts_observed:
  "declared_attempts e = Inr r \<Longrightarrow> r = (\<lambda>(k, observed). (k, of_nat (length observed))) (fst e, fst (snd e))"
  by (auto simp: declared_attempts_def length_attempts_upto split: prod.splits list.splits if_splits)

lemma attempts_from_stream: "attempt_multiplicity m = Inr a \<Longrightarrow>
    a = bt_of_list (map (\<lambda>(k, observed). (k, of_nat (length observed))) (foldl observed_step [] (map fst m)))"
proof -
  assume "attempt_multiplicity m = Inr a"
  then obtain ms where ms: "list_all2 (\<lambda>e r. declared_attempts e = Inr r) (attempt_sets m) ms" "a = bt_of_list ms"
    by (auto simp: attempt_multiplicity_def and_then_Inr_iff collect_ok_Inr_iff)
  from ms(1) have "ms = map (\<lambda>(k, observed). (k, of_nat (length observed)))
      (map (\<lambda>(k, e). (k, fst e)) (attempt_sets m))"
    by (induction rule: list_all2_induct) (auto dest: declared_attempts_observed)
  then show ?thesis using ms(2) by (simp only: attempt_sets_observed)
qed

lemma framed_from_stream: "collect_ok (framed_request ser) (map snd m) = collect_ok (\<lambda>v.
    case ser v of Inl e \<Rightarrow> Inl (''serialize normalized request stream: '' @ e)
    | Inr bytes \<Rightarrow> Inr (be_bytes (of_nat (length bytes)) @ bytes)) (map snd (canonical_stream m))"
  by (induction m) (auto simp: canonical_stream_def framed_request_def split: sum.splits)

lemma hash_from_stream: "canonical_stream m = canonical_stream n \<Longrightarrow>
    normalized_stream_sha256 ser sha m = normalized_stream_sha256 ser sha n"
  by (simp add: normalized_stream_sha256_def framed_from_stream)

lemma first_some_None: "first_some f xs = None \<longleftrightarrow> (\<forall>x \<in> set xs. f x = None)"
  by (induction xs) (auto split: option.splits)

lemma body_difference_None: "k \<in> set (map fst m @ map fst n) \<Longrightarrow> body_difference m n run k = None \<longleftrightarrow>
    map_option value_of (bt_get m k) = map_option value_of (bt_get n k)"
  by (auto simp: body_difference_def json_eq_def split: option.splits)

lemma stream_difference_None:
  assumes "bt_wf m" "bt_wf n" "attempt_multiplicity m = Inr a" "attempt_multiplicity n = Inr b"
  shows "first_stream_difference m n a b run = None \<longleftrightarrow> value_stream m = value_stream n"
proof -
  have attempts: "a = b" if "value_stream m = value_stream n"
    using attempts_from_stream [OF assms(3)] attempts_from_stream [OF assms(4)]
      arg_cong [OF that, of "map fst"] by (simp only: value_stream_keys)
  have same: "first_some (attempt_difference a a run) keys = None" for keys
    by (auto simp: first_some_None attempt_difference_def split: option.splits)
  have body: "first_some (body_difference m n run) (bset_of_list (map fst m @ map fst n)) = None
      \<longleftrightarrow> value_stream m = value_stream n"
    unfolding stream_ext [OF assms(1,2)] first_some_None set_bset_of_list
    using body_difference_None by blast
  then show ?thesis
  proof (cases "value_stream m = value_stream n")
    case True
    with attempts same body show ?thesis by (simp add: first_stream_difference_def)
  next
    case False
    with body show ?thesis by (auto simp: first_stream_difference_def split: option.splits)
  qed
qed

section \<open>Row 64\<close>

text \<open>The runs have the same semantic keys with equal bodies; with the very same bodies; and the same digest.\<close>

definition streams_agree :: "determinism_run list \<Rightarrow> bool" where
  "streams_agree runs \<longleftrightarrow> (\<exists>stream. \<forall>run \<in> set runs. \<exists>m. comparable_requests run = Inr m
     \<and> value_stream m = stream)"

definition bodies_agree :: "determinism_run list \<Rightarrow> bool" where
  "bodies_agree runs \<longleftrightarrow> (\<exists>stream. \<forall>run \<in> set runs. \<exists>m. comparable_requests run = Inr m
     \<and> canonical_stream m = stream)"

definition digests_agree :: "serializer \<Rightarrow> (nat list \<Rightarrow> nat list) \<Rightarrow> determinism_run list \<Rightarrow> bool" where
  "digests_agree ser sha runs \<longleftrightarrow> (\<exists>digest. \<forall>run \<in> set runs. \<exists>m. comparable_requests run = Inr m
     \<and> normalized_stream_sha256 ser sha m = Inr digest)"

lemma streams_agree_iff: "list_all2 (\<lambda>run m. comparable_requests run = Inr m) runs ms \<Longrightarrow> ms \<noteq> [] \<Longrightarrow>
    streams_agree runs \<longleftrightarrow> (\<forall>m \<in> set ms. value_stream m = value_stream (hd ms))"
proof -
  assume all: "list_all2 (\<lambda>run m. comparable_requests run = Inr m) runs ms" and "ms \<noteq> []"
  from all have "(\<forall>run \<in> set runs. \<exists>m. comparable_requests run = Inr m \<and> value_stream m = stream)
      \<longleftrightarrow> (\<forall>m \<in> set ms. value_stream m = stream)" for stream
    by (induction rule: list_all2_induct) auto
  then have "streams_agree runs \<longleftrightarrow> (\<exists>stream. \<forall>m \<in> set ms. value_stream m = stream)"
    unfolding streams_agree_def by blast
  also have "\<dots> \<longleftrightarrow> (\<forall>m \<in> set ms. value_stream m = value_stream (hd ms))"
    using \<open>ms \<noteq> []\<close> by auto
  finally show ?thesis .
qed

lemma run_evidence_Inr: "run_evidence ser sha run = Inr (m, a, h) \<longleftrightarrow> comparable_requests run = Inr m
    \<and> attempt_multiplicity m = Inr a \<and> normalized_stream_sha256 ser sha m = Inr h"
  by (auto simp: run_evidence_def and_then_Inr_iff)

lemma list_all2_map_fst: "list_all2 P xs es \<Longrightarrow> (\<And>x e. P x e \<Longrightarrow> Q x (fst e)) \<Longrightarrow> list_all2 Q xs (map fst es)"
  by (induction rule: list_all2_induct) auto

lemma list_all2_right: "list_all2 P xs ys \<Longrightarrow> (\<And>x y. P x y \<Longrightarrow> Q y) \<Longrightarrow> list_all Q ys"
  by (induction rule: list_all2_induct) auto

lemma show_u32_one: "show_u32 1 = ''1''"
  by code_simp

lemma same_digests:
  assumes "length keys = length ds" "hd keys = one" "ds = d # rest" "\<forall>e \<in> set rest. e = d"
  shows "bt_get (bt_of_list (zip keys ds)) one = Some d" "list_all (\<lambda>(_, h). h = d) (bt_of_list (zip keys ds))"
proof -
  have all: "h = d" if "bt_get (bt_of_list (zip keys ds)) k = Some h" for k h
  proof -
    from that have "(k, h) \<in> set (zip keys ds)" by (auto simp: bt_get_of_list dest: map_of_SomeD)
    then have "h \<in> set ds" by (auto dest: set_zip_rightD)
    with assms(3,4) show ?thesis by auto
  qed
  from assms obtain ks where keys: "keys = one # ks" by (cases keys) auto
  have "one \<in> fst ` set (rev (zip keys ds))" using keys assms(3) by simp
  then have "bt_get (bt_of_list (zip keys ds)) one \<noteq> None"
    by (simp add: bt_get_of_list map_of_eq_None_iff)
  with all show "bt_get (bt_of_list (zip keys ds)) one = Some d" by fastforce
  show "list_all (\<lambda>(_, h). h = d) (bt_of_list (zip keys ds))"
    using all bt_get_member [OF bt_wf_of_list [of "zip keys ds"]] by (auto simp: list_all_iff)
qed

lemma digests_iff:
  assumes "length keys = length ds" "hd keys = one" "ds = d # rest" "distinct keys"
  defines "hs \<equiv> bt_of_list (zip keys ds)"
  shows "bt_get hs one \<noteq> None \<and> list_all (\<lambda>(_, h). Some h = bt_get hs one) hs \<longleftrightarrow> (\<forall>e \<in> set rest. e = d)"
proof
  assume "\<forall>e \<in> set rest. e = d"
  from same_digests [OF assms(1-3) this, folded hs_def]
  show "bt_get hs one \<noteq> None \<and> list_all (\<lambda>(_, h). Some h = bt_get hs one) hs" by (simp add: case_prod_unfold)
next
  assume same: "bt_get hs one \<noteq> None \<and> list_all (\<lambda>(_, h). Some h = bt_get hs one) hs"
  have "distinct (map fst (zip keys ds))" using assms(1,4) by simp
  then have "map_of (rev (zip keys ds)) = map_of (zip keys ds)" by (intro map_of_inject_set [THEN iffD2]) (simp_all add: rev_map [symmetric])
  then have get: "bt_get hs k = map_of (zip keys ds) k" for k by (simp add: hs_def bt_get_of_list)
  from assms obtain ks where keys: "keys = one # ks" by (cases keys) auto
  have one: "bt_get hs one = Some d" by (simp add: get keys assms(3))
  show "\<forall>e \<in> set rest. e = d"
  proof
    fix e assume "e \<in> set rest"
    then have "e \<in> set ds" by (simp add: assms(3))
    then obtain i where "i < length ds" "ds ! i = e" by (auto simp: in_set_conv_nth)
    then have "bt_get hs (keys ! i) = Some e" using assms(1,4) by (auto simp: get map_of_zip_nth)
    then have "(keys ! i, e) \<in> set hs" by (rule bt_get_Some_in)
    then show "e = d" using same one by (auto simp: list_all_iff)
  qed
qed

lemma ordered_runs_distinct: "runs_in_order runs n \<Longrightarrow> distinct (map (\<lambda>r. show_u32 (dr_run r)) runs)"
proof -
  assume order: "runs_in_order runs n"
  have run: "dr_run (runs ! i) = of_nat i + 1" if "i < length runs" for i
    using order that by (auto simp: runs_in_order_def list_all_iff in_set_enumerate_eq)
  have "unat (dr_run (runs ! i)) = i + 1" if "i < length runs" for i
  proof -
    have "unat n < 2 ^ 32" using unsigned_less [of n] by simp
    then have "i + 1 < 2 ^ 32" using order that by (simp add: runs_in_order_def)
    then show ?thesis by (simp add: run [OF that] unat_word_ariths unat_of_nat)
  qed
  then show ?thesis by (auto simp: distinct_conv_nth show_u32_def show_nat_inj)
qed

lemma first_difference_None:
  assumes "bt_wf m" "attempt_multiplicity m = Inr a"
    and "list_all (\<lambda>(m', a', _). bt_wf m' \<and> attempt_multiplicity m' = Inr a') others"
  shows "first_some (\<lambda>(index, comparison, attempts, _).
        first_stream_difference m comparison a attempts (of_nat index + 1)) (enumerate i others) = None
      \<longleftrightarrow> (\<forall>e \<in> set others. value_stream (fst e) = value_stream m)"
  using assms(3)
proof (induction others arbitrary: i)
  case (Cons e others)
  obtain m' a' h' where e: "e = (m', a', h')" by (cases e)
  have "first_stream_difference m m' a a' run = None \<longleftrightarrow> value_stream m' = value_stream m" for run
    using Cons.prems stream_difference_None [OF assms(1) _ assms(2), of m' a' run] by (auto simp: e)
  then show ?case using Cons by (auto simp: e split: option.splits)
qed simp

lemma digests_agree_iff: "list_all2 (\<lambda>run e. run_evidence ser sha run = Inr e) runs es \<Longrightarrow> es \<noteq> [] \<Longrightarrow>
    digests_agree ser sha runs \<longleftrightarrow> (\<forall>e \<in> set es. snd (snd e) = snd (snd (hd es)))"
proof -
  assume all: "list_all2 (\<lambda>run e. run_evidence ser sha run = Inr e) runs es" and "es \<noteq> []"
  from all have "(\<forall>run \<in> set runs. \<exists>m. comparable_requests run = Inr m \<and> normalized_stream_sha256 ser sha m = Inr digest)
      \<longleftrightarrow> (\<forall>e \<in> set es. snd (snd e) = digest)" for digest
    by (induction rule: list_all2_induct) (auto simp: run_evidence_Inr)
  then have "digests_agree ser sha runs \<longleftrightarrow> (\<exists>digest. \<forall>e \<in> set es. snd (snd e) = digest)"
    unfolding digests_agree_def by blast
  also have "\<dots> \<longleftrightarrow> (\<forall>e \<in> set es. snd (snd e) = snd (snd (hd es)))"
    using hd_in_set [OF \<open>es \<noteq> []\<close>] by metis
  finally show ?thesis .
qed

lemma cross_run_iff:
  assumes "cr_measurement_complete (evaluate_cross_run_reproducibility ser sha runs n)"
  shows "cr_identical (evaluate_cross_run_reproducibility ser sha runs n) \<longleftrightarrow> streams_agree runs \<and> digests_agree ser sha runs"
    and "bodies_agree runs \<Longrightarrow> streams_agree runs \<and> digests_agree ser sha runs"
proof -
  note ev = evaluate_cross_run_reproducibility_def
  have ordered: "runs_in_order runs n"
    using assms by (auto simp: ev cross_run_incomplete_def split: if_splits)
  obtain m a h others where ev_runs: "collect_ok (run_evidence ser sha) runs = Inr ((m, a, h) # others)"
    using assms ordered by (auto simp: ev cross_run_incomplete_def split: sum.splits list.splits)
  let ?ms = "m # map fst others"
  have evidence: "list_all2 (\<lambda>run e. run_evidence ser sha run = Inr e) runs ((m, a, h) # others)"
    using ev_runs by (simp add: collect_ok_Inr_iff)
  have ms: "list_all2 (\<lambda>run m. comparable_requests run = Inr m) runs ?ms"
    using list_all2_map_fst [OF evidence, of "\<lambda>run m. comparable_requests run = Inr m"]
    by (simp add: run_evidence_Inr split_paired_all)
  let ?ok = "\<lambda>(m', a', h'). bt_wf m' \<and> attempt_multiplicity m' = Inr a' \<and> normalized_stream_sha256 ser sha m' = Inr h'"
  have "list_all ?ok ((m, a, h) # others)"
    by (rule list_all2_right [OF evidence]) (use comparable_requests_wf(1) in \<open>auto simp: run_evidence_Inr\<close>)
  then have facts: "bt_wf m" "attempt_multiplicity m = Inr a" "normalized_stream_sha256 ser sha m = Inr h"
    "list_all ?ok others" by simp_all
  have difference: "first_some (\<lambda>(index, comparison, attempts, _).
        first_stream_difference m comparison a attempts (of_nat index + 1)) (enumerate 1 others) = None
      \<longleftrightarrow> (\<forall>e \<in> set others. value_stream (fst e) = value_stream m)"
    by (rule first_difference_None [OF facts(1,2)]) (use facts(4) in \<open>auto simp: list_all_iff\<close>)
  have agree: "streams_agree runs \<longleftrightarrow> (\<forall>e \<in> set others. value_stream (fst e) = value_stream m)"
    using streams_agree_iff [OF ms] by auto
  have digests: "digests_agree ser sha runs \<longleftrightarrow> (\<forall>d \<in> set (map (snd \<circ> snd) others). d = h)"
    using digests_agree_iff [OF evidence] by simp
  let ?keys = "map (\<lambda>r. show_u32 (dr_run r)) runs" and ?ds = "h # map (snd \<circ> snd) others"
  let ?hashes = "bt_of_list (zip ?keys ?ds)"
  have "\<not> list_all (\<lambda>m'. m' = []) ?ms" using assms ordered
    by (auto simp: ev ev_runs Let_def cross_run_incomplete_def split: if_splits)
  then have verdict: "cr_identical (evaluate_cross_run_reproducibility ser sha runs n) \<longleftrightarrow> streams_agree runs
      \<and> list_all (\<lambda>m'. length m' = length m) ?ms \<and> list_all (\<lambda>a'. a' = a) (a # map (fst \<circ> snd) others)
      \<and> bt_get ?hashes ''1'' \<noteq> None \<and> list_all (\<lambda>(_, h'). Some h' = bt_get ?hashes ''1'') ?hashes"
    unfolding agree difference [symmetric] ev using ordered ev_runs
    by (simp only: if_False if_True not_not sum.case list.case prod.case Let_def list.map simp_thms
        cross_run_evaluation.select_convs)
  have len: "length runs = length ((m, a, h) # others)" using evidence list_all2_lengthD by blast
  then obtain run runs' where runs: "runs = run # runs'" by (cases runs) auto
  have "hd ?keys = ''1''" using ordered by (simp add: runs runs_in_order_def show_u32_one)
  from digests_iff [OF _ this refl ordered_runs_distinct [OF ordered], of h "map (snd \<circ> snd) others"]
  have hashes: "bt_get ?hashes ''1'' \<noteq> None \<and> list_all (\<lambda>(_, h'). Some h' = bt_get ?hashes ''1'') ?hashes
      \<longleftrightarrow> digests_agree ser sha runs" unfolding digests using len by simp
  have counts: "length m' = length m \<and> a' = a" if "(m', a', h') \<in> set others" "value_stream m' = value_stream m" for m' a' h'
  proof -
    have "length m' = length m" using arg_cong [OF that(2), of length] by (simp add: value_stream_def)
    moreover have "map fst m' = map fst m"
      using arg_cong [OF that(2), of "map fst"] by (simp only: value_stream_keys)
    moreover have "attempt_multiplicity m' = Inr a'" using facts(4) that(1) by (auto simp: list_all_iff)
    ultimately show ?thesis using attempts_from_stream [of m a] attempts_from_stream [of m' a'] facts(2) by simp
  qed
  have "list_all (\<lambda>m'. length m' = length m) ?ms \<and> list_all (\<lambda>a'. a' = a) (a # map (fst \<circ> snd) others)" if "streams_agree runs"
    using that [unfolded agree] counts by (fastforce simp: list_all_iff)
  with verdict hashes show "cr_identical (evaluate_cross_run_reproducibility ser sha runs n) \<longleftrightarrow> streams_agree runs \<and> digests_agree ser sha runs"
    by blast
  assume "bodies_agree runs"
  then obtain stream where "\<forall>run \<in> set runs. \<exists>m. comparable_requests run = Inr m \<and> canonical_stream m = stream"
    unfolding bodies_agree_def by blast
  moreover have "\<forall>m' \<in> set xs. canonical_stream m' = stream"
    if "list_all2 (\<lambda>run m. comparable_requests run = Inr m) rs xs"
      "\<forall>run \<in> set rs. \<exists>m. comparable_requests run = Inr m \<and> canonical_stream m = stream" for rs xs
    using that by (induction rule: list_all2_induct) auto
  ultimately have "\<forall>m' \<in> set ?ms. canonical_stream m' = stream" using ms by blast
  then have same: "canonical_stream (fst e) = canonical_stream m" if "e \<in> set others" for e using that by auto
  then have "streams_agree runs" unfolding agree using canonical_value by blast
  moreover have "snd (snd e) = h" if "e \<in> set others" for e
    using facts(3,4) that hash_from_stream [OF same [OF that], of ser sha] by (auto simp: list_all_iff)
  ultimately show "streams_agree runs \<and> digests_agree ser sha runs" unfolding digests by auto
qed

text \<open>C39: a complete evaluation of row 64 says "identical" exactly when all runs have the same semantic keys with
  canonical bodies that are equal as values, and the same digest.  When the bodies are the very same, signs of zeros
  included, the verdict is "identical" whatever the serializer and the hash function: the multiplicities and counts
  that are compared too never change it.\<close>

theorem cross_run_decides_equal_streams:
  assumes "cr_measurement_complete (evaluate_cross_run_reproducibility ser sha runs n)"
  shows "(cr_identical (evaluate_cross_run_reproducibility ser sha runs n) \<longleftrightarrow> streams_agree runs \<and> digests_agree ser sha runs)
    \<and> (bodies_agree runs \<longrightarrow> cr_identical (evaluate_cross_run_reproducibility ser sha runs n))"
  using cross_run_iff [OF assms] by blast

definition plain_serializer :: serializer where
  "plain_serializer v = Inr []"

definition plain_digest :: "nat list \<Rightarrow> nat list" where
  "plain_digest bytes = [length bytes mod 256]"

definition plain_record :: "json \<Rightarrow> model_request_record" where
  "plain_record v = \<lparr>rr_request = \<lparr>mr_dialect = ''openai-responses'', mr_endpoint = ''/v1/responses'',
       mr_model = ''m'', mr_scenario = ''s'', mr_actor = ''a'', mr_checkpoint = ''c'', mr_canonical = v,
       mr_credential_fingerprint = ''f'', mr_stream = True\<rparr>,
     rr_canonical_hash = [], rr_attempts = 1, rr_accepted = True, rr_semantic_ordinal = 1, rr_attempt = 1,
     rr_received_ns = 0, rr_body_bytes = 0, rr_input_tokens = None, rr_role = ''primary'',
     rr_side_channel_kind = None, rr_response_status = None, rr_response_headers_ns = None,
     rr_response_first_frame_yield_ns = None, rr_response_last_frame_yield_ns = None,
     rr_semantic_attempts_total = 1\<rparr>"

definition plain_run :: "u32 \<Rightarrow> json \<Rightarrow> determinism_run" where
  "plain_run n v = \<lparr>dr_run = n, dr_records = [plain_record v], dr_request_collector_complete = True,
     dr_normalization = \<lparr>nc_credential = ''k'', nc_profile_paths = [''/p''], nc_workspace_paths = [],
       nc_temporary_paths = [], nc_socket_paths = [], nc_run_markers = [], nc_execution_id = ''x''\<rparr>\<rparr>"

definition two_runs :: "json \<Rightarrow> json \<Rightarrow> determinism_run list" where
  "two_runs v w = [plain_run 1 v, plain_run 2 w]"

definition plain_requests :: request_map where
  "plain_requests = [((''s'', ''a'', 1, ''c'', 1),
     \<lparr>cq_dialect = ''openai-responses'', cq_canonical = JNull, cq_semantic_attempts_total = 1\<rparr>)]"

lemma plain_run_requests: "comparable_requests (plain_run n JNull) = Inr plain_requests"
  by (simp add: comparable_requests_def plain_run_def to_comparable_def semantic_key_def plain_record_def
      normalize_canonical_request_def plain_requests_def)

lemma plain_attempts: "attempt_multiplicity plain_requests = Inr [((''s'', ''a'', 1, ''c''), 1)]"
  by code_simp

lemma plain_evidence: "\<exists>h. run_evidence plain_serializer plain_digest (plain_run n JNull) =
    Inr (plain_requests, [((''s'', ''a'', 1, ''c''), 1)], h)"
  by (simp add: run_evidence_def plain_run_requests plain_attempts [unfolded plain_requests_def] normalized_stream_sha256_def plain_requests_def
      framed_request_def plain_serializer_def)

lemma plain_order: "runs_in_order (two_runs v w) 2"
  by (simp add: runs_in_order_def two_runs_def plain_run_def)

lemma plain_runs_complete:
  "cr_measurement_complete (evaluate_cross_run_reproducibility plain_serializer plain_digest
     (two_runs JNull JNull) 2)"
proof -
  obtain h where h: "run_evidence plain_serializer plain_digest (plain_run 1 JNull) =
      Inr (plain_requests, [((''s'', ''a'', 1, ''c''), 1)], h)" using plain_evidence by blast
  obtain h' where h': "run_evidence plain_serializer plain_digest (plain_run 2 JNull) =
      Inr (plain_requests, [((''s'', ''a'', 1, ''c''), 1)], h')" using plain_evidence by blast
  have "collect_ok (run_evidence plain_serializer plain_digest) (two_runs JNull JNull) =
      Inr [(plain_requests, [((''s'', ''a'', 1, ''c''), 1)], h), (plain_requests, [((''s'', ''a'', 1, ''c''), 1)], h')]"
    by (simp add: two_runs_def h h')
  moreover have "plain_requests \<noteq> []" by (simp add: plain_requests_def)
  ultimately show ?thesis using plain_order
    by (simp add: evaluate_cross_run_reproducibility_def Let_def)
qed

lemma plain_bodies_agree: "bodies_agree (two_runs JNull JNull)"
  by (simp add: bodies_agree_def two_runs_def plain_run_requests)

lemma cross_run_plain: "cr_identical (evaluate_cross_run_reproducibility plain_serializer plain_digest (two_runs JNull JNull) 2)"
  using cross_run_iff [OF plain_runs_complete] plain_bodies_agree by blast

theorem cross_run_decides_equal_streams_witness:
  "cr_identical (evaluate_cross_run_reproducibility plain_serializer plain_digest (two_runs JNull JNull) 2)"
  using cross_run_decides_equal_streams [OF plain_runs_complete] plain_bodies_agree by blast

section \<open>Row 63 agrees\<close>

lemma saturating_add_one: "saturating_add n 1 \<noteq> 0"
  by (auto simp: saturating_add_def unat_word_ariths dest!: arg_cong [where f = unat])

text \<open>While no variation is counted, the current comparison has none either.\<close>

definition clean :: "field_scan \<Rightarrow> bool" where
  "clean s \<longleftrightarrow> fs_varying s = 0 \<and> fs_run_varying s = 0 \<and> \<not> fs_run_critical s"

definition scan_consistent :: "field_scan \<Rightarrow> bool" where
  "scan_consistent s \<longleftrightarrow> (fs_varying s = 0 \<longrightarrow> clean s)"

lemma scan_occurrence_varying: "fs_varying (scan_occurrence run ds oc s) = 0 \<longleftrightarrow> fs_varying s = 0 \<and> same_sides oc"
  "scan_consistent s \<Longrightarrow> scan_consistent (scan_occurrence run ds oc s)"
  by (auto simp: scan_occurrence_def Let_def count_comparable_def count_varying_def same_sides_def
      saturating_add_one scan_consistent_def clean_def)

lemma scan_occurrences_varying:
  "fs_varying (fold (scan_occurrence run ds) ocs s) = 0 \<longleftrightarrow> fs_varying s = 0 \<and> list_all same_sides ocs"
  "scan_consistent s \<Longrightarrow> scan_consistent (fold (scan_occurrence run ds) ocs s)"
  by (induction ocs arbitrary: s) (auto simp: scan_occurrence_varying)

lemma scan_key_varying:
  assumes "scan_key ser m n run s key = Inr s'" "key \<in> set (map fst m @ map fst n)"
    and "stream_wf m" "stream_wf n"
  shows "fs_varying s' = 0 \<longleftrightarrow> fs_varying s = 0
      \<and> map_option value_of (bt_get m key) = map_option value_of (bt_get n key)"
    and "scan_consistent s \<Longrightarrow> scan_consistent s'"
proof -
  have wf: "json_wf (cq_canonical q)" if "bt_get m key = Some q \<or> bt_get n key = Some q" for q
    using assms(3,4) that by (auto simp: stream_wf_def list_all_iff dest!: bt_get_Some_in)
  have "(fs_varying s' = 0 \<longleftrightarrow> fs_varying s = 0
      \<and> map_option value_of (bt_get m key) = map_option value_of (bt_get n key))
      \<and> (scan_consistent s \<longrightarrow> scan_consistent s')"
  proof (cases "bt_get m key")
    case None
    then obtain q where "bt_get n key = Some q" using assms(2) keys_bt_get [of m] keys_bt_get [of n] by force
    with None assms(1) show ?thesis
      by (auto simp: scan_key_def Let_def count_varying_def count_comparable_def saturating_add_one
          scan_consistent_def)
  next
    case (Some q)
    show ?thesis
    proof (cases "bt_get n key")
      case None
      with Some assms(1) show ?thesis
        by (auto simp: scan_key_def Let_def count_varying_def count_comparable_def saturating_add_one
            scan_consistent_def)
    next
      case (Some q')
      with \<open>bt_get m key = Some q\<close> assms(1) obtain ocs where
        ocs: "comparison_occurrences ser (cq_canonical q) (cq_canonical q') = Inr ocs"
          "s' = fold (scan_occurrence run (request_dialects (Some q) (Some q'))) ocs s"
        by (auto simp: scan_key_def Let_def and_then_Inr_iff)
      have "list_all same_sides ocs \<longleftrightarrow> value_of q = value_of q'"
        using visit_sees_differences [OF ocs(1) [unfolded comparison_occurrences_def]] wf Some
          \<open>bt_get m key = Some q\<close> by (simp add: json_option_eq_def)
      then show ?thesis
        using Some \<open>bt_get m key = Some q\<close> by (simp add: ocs(2) scan_occurrences_varying)
    qed
  qed
  then show "fs_varying s' = 0 \<longleftrightarrow> fs_varying s = 0
      \<and> map_option value_of (bt_get m key) = map_option value_of (bt_get n key)"
    "scan_consistent s \<Longrightarrow> scan_consistent s'" by blast+
qed

lemma scan_keys_varying:
  assumes "fold_ok (scan_key ser m n run) s keys = Inr s'" "set keys \<subseteq> set (map fst m @ map fst n)"
    and "stream_wf m" "stream_wf n"
  shows "(fs_varying s' = 0 \<longleftrightarrow> fs_varying s = 0 \<and> (\<forall>key \<in> set keys.
      map_option value_of (bt_get m key) = map_option value_of (bt_get n key)))
      \<and> (scan_consistent s \<longrightarrow> scan_consistent s')"
  using assms(1,2)
proof (induction keys arbitrary: s)
  case (Cons key keys)
  then obtain s1 where s1: "scan_key ser m n run s key = Inr s1" "fold_ok (scan_key ser m n run) s1 keys = Inr s'"
    by (auto simp: and_then_Inr_iff)
  have mem: "key \<in> set (map fst m @ map fst n)" using Cons.prems(2) by simp
  note step = scan_key_varying [OF s1(1) mem assms(3,4)]
  have "set keys \<subseteq> set (map fst m @ map fst n)" using Cons.prems(2) by simp
  from Cons.IH [OF s1(2) this] step show ?case by auto
qed simp

lemma clean_score: "n \<noteq> 0 \<Longrightarrow> comparison_score 0 n = Fin 1"
proof -
  assume "n \<noteq> 0"
  then have "1 \<le> uint n" by (metis int_one_le_iff_zero_less uint_0_iff uint_lt_0 linorder_neqE_linordered_idom)
  then have "f_le (f_of_int 1) (f_of_int (uint n))" by (rule f_of_int_mono)
  then have "f_le (Fin 1) (f_of_int (uint n))" by (simp add: f_of_int_def)
  then have "f_div (Fin 0) (f_of_int (uint n)) = Fin 0" by (cases "f_of_int (uint n)") auto
  then show ?thesis by (simp add: comparison_score_def f_of_int_def [of 0] f_sub_def)
qed

lemma scan_run_varying:
  assumes "scan_run ser m (s, passing) (i, n) = Inr (s', passing')"
    and "stream_wf m" "stream_wf n" "bt_wf m" "bt_wf n"
  shows "(fs_varying s' = 0 \<longleftrightarrow> fs_varying s = 0 \<and> value_stream n = value_stream m)
      \<and> (fs_varying s' = 0 \<longrightarrow> passing' = passing)"
proof -
  let ?s0 = "s\<lparr>fs_run_comparable := 0, fs_run_varying := 0, fs_run_critical := False\<rparr>"
  let ?keys = "bset_of_list (map fst m @ map fst n)"
  from assms(1) have scan: "fold_ok (scan_key ser m n (of_nat i + 1)) ?s0 ?keys = Inr s'"
    and pos: "fs_run_comparable s' \<noteq> 0"
    and passing: "passing' \<longleftrightarrow> passing \<and> f_le (f_round (99/100)) (comparison_score (fs_run_varying s') (fs_run_comparable s'))
      \<and> \<not> fs_run_critical s'"
    by (auto simp: scan_run_def Let_def and_then_Inr_iff split: if_splits)
  have "scan_consistent ?s0" by (simp add: scan_consistent_def clean_def)
  with scan_keys_varying [OF scan _ assms(2,3)]
  have varying: "fs_varying s' = 0 \<longleftrightarrow> fs_varying s = 0 \<and> value_stream m = value_stream n"
    and clean: "scan_consistent s'"
    unfolding stream_ext [OF assms(4,5)] by (simp_all only: set_bset_of_list subset_refl simp_thms field_scan.simps) auto
  have "f_le (f_round (99/100)) (f_round 1)" by (rule f_round_mono) simp
  then have "f_le (f_round (99/100)) (comparison_score 0 (fs_run_comparable s'))" by (simp add: clean_score pos)
  with varying clean passing show ?thesis by (auto simp: scan_consistent_def clean_def)
qed

lemma scan_runs_varying:
  assumes "fold_ok (scan_run ser m) (s, passing) (enumerate i ns) = Inr (s', passing')"
    and "stream_wf m" "bt_wf m" "list_all (\<lambda>n. stream_wf n \<and> bt_wf n) ns"
  shows "(fs_varying s' = 0 \<longleftrightarrow> fs_varying s = 0 \<and> (\<forall>n \<in> set ns. value_stream n = value_stream m))
      \<and> (fs_varying s' = 0 \<longrightarrow> passing' = passing)"
  using assms(1,4)
proof (induction ns arbitrary: s passing i)
  case (Cons n ns)
  from Cons.prems(1) obtain s1 passing1 where
    step: "scan_run ser m (s, passing) (i, n) = Inr (s1, passing1)"
      "fold_ok (scan_run ser m) (s1, passing1) (enumerate (Suc i) ns) = Inr (s', passing')"
    by (auto simp: and_then_Inr_iff)
  have n: "stream_wf n" "bt_wf n" and ns: "list_all (\<lambda>n. stream_wf n \<and> bt_wf n) ns" using Cons.prems(2) by simp_all
  from scan_run_varying [OF step(1) assms(2) n(1) assms(3) n(2)] Cons.IH [OF step(2) ns] show ?case by auto
qed simp

text \<open>Rows 63 and 64, computed by different algorithms from the same runs: when both evaluations are complete,
  row 64 reports identical streams exactly when row 63 counts no varying leaf and the digests agree (they can
  differ then only by the signs of zeros), and without a varying leaf the score of row 63 is exactly 1 and its
  reference envelope passes.\<close>

theorem determinism_rows_agree:
  assumes "nf_measurement_complete (evaluate_nondeterministic_fields ser sha runs n)"
    and "cr_measurement_complete (evaluate_cross_run_reproducibility ser sha runs n)"
    and "\<forall>run \<in> set runs. raw_wf run"
  shows "(cr_identical (evaluate_cross_run_reproducibility ser sha runs n)
      \<longleftrightarrow> nf_varying_leaf_occurrences (evaluate_nondeterministic_fields ser sha runs n) = 0 \<and> digests_agree ser sha runs)
    \<and> (nf_varying_leaf_occurrences (evaluate_nondeterministic_fields ser sha runs n) = 0 \<longrightarrow>
      nf_score (evaluate_nondeterministic_fields ser sha runs n) = Fin 1
      \<and> nf_reference_envelope_pass (evaluate_nondeterministic_fields ser sha runs n))"
    (is "(?identical \<longleftrightarrow> ?none \<and> ?digests) \<and> (?none \<longrightarrow> ?clean)")
proof -
  note ev = evaluate_nondeterministic_fields_def
  have ordered: "runs_in_order runs n" using assms(1) by (auto simp: ev incomplete_def split: if_splits)
  obtain ms where ms: "collect_ok comparable_requests runs = Inr ms"
    using assms(1) ordered by (auto simp: ev incomplete_def split: sum.splits)
  obtain hs where hs: "collect_ok (normalized_stream_sha256 ser sha) ms = Inr hs"
    using assms(1) ordered ms by (auto simp: ev incomplete_def split: sum.splits)
  obtain m ns where m: "ms = m # ns"
    using assms(1) ordered ms hs by (cases ms) (auto simp: ev incomplete_def)
  obtain s passing where s: "fold_ok (scan_run ser m) (empty_scan, True) (enumerate 1 ns) = Inr (s, passing)"
    using assms(1) ordered ms hs m by (auto simp: ev incomplete_def split: sum.splits)
  have pos: "fs_comparable s \<noteq> 0"
    using assms(1) ordered ms hs m s by (auto simp: ev incomplete_def split: if_splits)
  have vals: "nf_varying_leaf_occurrences (evaluate_nondeterministic_fields ser sha runs n) = fs_varying s"
    "nf_score (evaluate_nondeterministic_fields ser sha runs n) = comparison_score (fs_varying s) (fs_comparable s)"
    "nf_reference_envelope_pass (evaluate_nondeterministic_fields ser sha runs n) = passing"
    using ordered ms hs m s pos by (simp_all add: ev)
  have all: "list_all2 (\<lambda>run m. comparable_requests run = Inr m) runs ms" using ms by (simp add: collect_ok_Inr_iff)
  then have "list_all (\<lambda>n. stream_wf n \<and> bt_wf n) ms"
    using assms(3) by (induction rule: list_all2_induct) (auto simp: comparable_requests_wf)
  then have wf: "stream_wf m" "bt_wf m" "list_all (\<lambda>n. stream_wf n \<and> bt_wf n) ns" by (simp_all add: m)
  have varying: "fs_varying s = 0 \<longleftrightarrow> streams_agree runs" "fs_varying s = 0 \<longrightarrow> passing"
    using scan_runs_varying [OF s wf] streams_agree_iff [OF all] by (auto simp: m empty_scan_def)
  have agree: "?identical \<longleftrightarrow> ?none \<and> ?digests"
    using cross_run_iff [OF assms(2)] varying vals(1) by simp
  have "?clean" if ?none
    using that varying(2) vals clean_score [OF pos] by simp
  with agree show ?thesis by blast
qed

lemma plain_fields_complete:
  "nf_measurement_complete (evaluate_nondeterministic_fields plain_serializer plain_digest (two_runs JNull JNull) 2)"
proof -
  have "collect_ok comparable_requests (two_runs JNull JNull) = Inr [plain_requests, plain_requests]"
    by (simp add: two_runs_def plain_run_requests)
  moreover have "\<exists>hs. collect_ok (normalized_stream_sha256 plain_serializer plain_digest) [plain_requests, plain_requests] = Inr hs"
    by (simp add: normalized_stream_sha256_def plain_requests_def framed_request_def plain_serializer_def)
  moreover have "\<exists>s passing. fold_ok (scan_run plain_serializer plain_requests) (empty_scan, True)
      (enumerate 1 [plain_requests]) = Inr (s, passing) \<and> fs_comparable s \<noteq> 0"
  proof -
    have "bset_of_list [(''s'', ''a'', 1 :: u64, ''c'', 1 :: u64), (''s'', ''a'', 1, ''c'', 1)] = [(''s'', ''a'', 1, ''c'', 1)]"
      by code_simp
    then show ?thesis
      by (simp add: scan_run_def scan_key_def plain_requests_def Let_def comparison_occurrences_def both_leaf_def
          scan_occurrence_def count_comparable_def empty_scan_def saturating_add_def)
  qed
  ultimately show ?thesis using plain_order
    by (auto simp: evaluate_nondeterministic_fields_def)
qed

theorem determinism_rows_agree_witness:
  "nf_score (evaluate_nondeterministic_fields plain_serializer plain_digest (two_runs JNull JNull) 2) = Fin 1"
proof -
  have "\<forall>run \<in> set (two_runs JNull JNull). raw_wf run"
    by (simp add: two_runs_def raw_wf_def plain_run_def plain_record_def)
  from determinism_rows_agree [OF plain_fields_complete plain_runs_complete this]
  show ?thesis using cross_run_plain by blast
qed

end
