(* ===== verification/Workflow.thy ===== *)
theory Workflow
  imports Json_Values Strings "HOL-Library.Product_Lexorder"
begin

text \<open>
  \<open>src/src/workflow.rs\<close>: the scripted workflows the fake model follows, their validation, the
  route markers embedded in prompts, and the state machine that accepts the requests of the
  actors.  The Debug rendering of a text (\<open>{:?}\<close>) is the parameter \<open>dbg\<close>.  An index into a
  script is a natural number: it is at most the length of a list in memory.
\<close>

section \<open>Data\<close>

record actor =
  ac_id :: string
  ac_parent :: "string option"
  ac_prompt :: string
  ac_workspace :: string

record barrier =
  ba_name :: string
  ba_actors :: "string list"
  ba_checkpoint :: string

datatype fault = HttpStatus u16 string | SustainedHttpStatus u16 string | ContextLength u64
  | Delay u64 | MidStreamDisconnect usize | Stall | Trickle u64 u32 | Fragment "usize list"
  | RepeatFrame usize

record scripted_response =
  sr_scenario :: string
  sr_actor :: string
  sr_checkpoint :: string
  sr_request_hash :: string
  sr_response :: json
  sr_fault :: "fault option"
  sr_barrier :: "string option"

record workflow =
  wf_version :: u32
  wf_scenario :: string
  wf_actors :: "(string, actor) btree"
  wf_barriers :: "(string, barrier) btree"
  wf_responses :: "scripted_response list"

record workflow_scenario =
  ws_row :: u8
  ws_id :: string
  ws_name :: string
  ws_pillar :: string
  ws_workflow :: workflow
  ws_assertions :: "string list"

record route_marker =
  rm_scenario :: string
  rm_actor :: string
  rm_checkpoint :: string

definition workflow_schema_version :: u32 where
  "workflow_schema_version = 1"

definition marker_prefix :: string where
  "marker_prefix = ''[[AHRB:''"

section \<open>Validation\<close>

definition component_char :: "char \<Rightarrow> bool" where
  "component_char c \<longleftrightarrow> ascii_alphanumeric c \<or> c \<in> {CHR ''-'', CHR ''_'', CHR ''.''}"

definition quoted :: "string \<Rightarrow> string" where
  "quoted s = CHR 0x27 # s @ [CHR 0x27]"

definition validate_component :: "(string \<Rightarrow> string) \<Rightarrow> string \<Rightarrow> string \<Rightarrow> ahrb_error + unit" where
  "validate_component dbg kind v =
     guard (v \<noteq> [] \<and> list_all component_char v)
       (Validation (kind @ '' '' @ dbg v @ '' must contain only ASCII letters, digits, '' @ quoted ''-''
         @ '', '' @ quoted ''_'' @ '' or '' @ quoted ''.''))"

fun increasing_from :: "usize \<Rightarrow> usize list \<Rightarrow> bool" where
  "increasing_from previous [] = True"
| "increasing_from previous (b # bs) = (\<not> (b = 0 \<or> b \<le> previous) \<and> increasing_from b bs)"

fun validate_fault :: "fault \<Rightarrow> ahrb_error + unit" where
  "validate_fault (HttpStatus status body) = guard (100 \<le> status \<and> status \<le> 599)
     (Validation (''invalid HTTP fault status '' @ show_nat (unat status)))"
| "validate_fault (SustainedHttpStatus status body) = guard (status = 429 \<or> status = 500)
     (Validation (''invalid sustained HTTP fault status '' @ show_nat (unat status)))"
| "validate_fault (Delay delay_ms) = guard (delay_ms \<noteq> 0)
     (Validation ''delay fault delay-ms must be positive'')"
| "validate_fault (ContextLength window_tokens) = guard (window_tokens \<noteq> 0)
     (Validation ''context-length window-tokens must be nonzero'')"
| "validate_fault (Fragment boundaries) = guard (increasing_from 0 boundaries)
     (Validation ''fragment boundaries must be nonzero and strictly increasing'')"
| "validate_fault (RepeatFrame copies) = guard (copies \<noteq> 0)
     (Validation ''repeat-frame copies must be nonzero'')"
| "validate_fault (Trickle cadence_ms count) = guard (\<not> (cadence_ms = 0 \<or> count = 0))
     (Validation ''trickle cadence-ms and count must both be nonzero'')"
| "validate_fault (MidStreamDisconnect after_bytes) = Inr ()"
| "validate_fault Stall = Inr ()"

definition validate_actor ::
    "(string \<Rightarrow> string) \<Rightarrow> (string, actor) btree \<Rightarrow> string \<times> actor \<Rightarrow> ahrb_error + unit" where
  "validate_actor dbg actors = (\<lambda>(actor_id, actor).
     and_then (validate_component dbg ''actor'' actor_id) (\<lambda>_.
     and_then (guard (ac_id actor = actor_id)
       (Validation (''actor map key '' @ dbg actor_id @ '' does not match actor.id '' @ dbg (ac_id actor)))) (\<lambda>_.
     and_then (guard (\<not> blank (ac_prompt actor))
       (Validation (''actor '' @ dbg actor_id @ '' has an empty prompt''))) (\<lambda>_.
     case ac_parent actor of
       None \<Rightarrow> Inr ()
     | Some parent \<Rightarrow>
         and_then (guard (parent \<noteq> actor_id)
           (Validation (''actor '' @ dbg actor_id @ '' is its own parent''))) (\<lambda>_.
         guard (bt_contains actors parent)
           (Validation (''actor '' @ dbg actor_id @ '' references missing parent '' @ dbg parent)))))))"

text \<open>The actors of a barrier: each declared, none twice.\<close>

definition validate_barrier_actor ::
    "(string \<Rightarrow> string) \<Rightarrow> (string, actor) btree \<Rightarrow> string \<Rightarrow> string list \<Rightarrow> string \<Rightarrow> ahrb_error + string list" where
  "validate_barrier_actor dbg actors name unique actor =
     and_then (guard (bt_contains actors actor)
       (Validation (''barrier '' @ dbg name @ '' references missing actor '' @ dbg actor))) (\<lambda>_.
     and_then (guard (actor \<notin> set unique)
       (Validation (''barrier '' @ dbg name @ '' repeats actor '' @ dbg actor))) (\<lambda>_.
     Inr (bs_insert actor unique)))"

definition validate_barrier ::
    "(string \<Rightarrow> string) \<Rightarrow> (string, actor) btree \<Rightarrow> string \<times> barrier \<Rightarrow> ahrb_error + unit" where
  "validate_barrier dbg actors = (\<lambda>(name, barrier).
     and_then (validate_component dbg ''barrier'' name) (\<lambda>_.
     and_then (guard (ba_name barrier = name)
       (Validation (''barrier map key '' @ dbg name @ '' does not match barrier.name '' @ dbg (ba_name barrier)))) (\<lambda>_.
     and_then (validate_component dbg ''checkpoint'' (ba_checkpoint barrier)) (\<lambda>_.
     and_then (guard (ba_actors barrier \<noteq> [])
       (Validation (''barrier '' @ dbg name @ '' has no actors''))) (\<lambda>_.
     and_then (fold_ok (validate_barrier_actor dbg actors name) [] (ba_actors barrier)) (\<lambda>_.
     Inr ()))))))"

definition validate_request_hash :: "scripted_response \<Rightarrow> ahrb_error + unit" where
  "validate_request_hash r =
     guard (\<not> (sr_request_hash r \<noteq> []
         \<and> (length (utf8_bytes (sr_request_hash r)) \<noteq> 64 \<or> \<not> list_all ascii_hexdigit (sr_request_hash r))))
       (Validation (''request hash at '' @ sr_actor r @ ''/'' @ sr_checkpoint r
         @ '' must be a 64-character hexadecimal SHA-256''))"

definition validate_response_barrier ::
    "(string \<Rightarrow> string) \<Rightarrow> (string, barrier) btree \<Rightarrow> scripted_response \<Rightarrow> ahrb_error + unit" where
  "validate_response_barrier dbg barriers r =
     (case sr_barrier r of
        None \<Rightarrow> Inr ()
      | Some name \<Rightarrow>
          (case bt_get barriers name of
             None \<Rightarrow> Inl (Validation (''response '' @ sr_actor r @ ''/'' @ sr_checkpoint r
               @ '' references missing barrier '' @ dbg name))
           | Some barrier \<Rightarrow>
               guard (\<not> (ba_checkpoint barrier \<noteq> sr_checkpoint r \<or> sr_actor r \<notin> set (ba_actors barrier)))
                 (Validation (''response '' @ sr_actor r @ ''/'' @ sr_checkpoint r
                   @ '' does not match barrier '' @ dbg name @ '' state''))))"

definition validate_response ::
    "(string \<Rightarrow> string) \<Rightarrow> workflow \<Rightarrow> (string \<times> string) list \<Rightarrow> scripted_response \<Rightarrow>
     ahrb_error + (string \<times> string) list" where
  "validate_response dbg w checkpoints r =
     and_then (case sr_fault r of None \<Rightarrow> Inr () | Some fault \<Rightarrow> validate_fault fault) (\<lambda>_.
     and_then (guard (sr_scenario r = wf_scenario w)
       (Validation (''response scenario '' @ dbg (sr_scenario r) @ '' does not match workflow scenario ''
         @ dbg (wf_scenario w)))) (\<lambda>_.
     and_then (guard (bt_contains (wf_actors w) (sr_actor r))
       (Validation (''response references missing actor '' @ dbg (sr_actor r)))) (\<lambda>_.
     and_then (validate_component dbg ''checkpoint'' (sr_checkpoint r)) (\<lambda>_.
     and_then (guard ((sr_actor r, sr_checkpoint r) \<notin> set checkpoints)
       (Validation (''duplicate response for actor '' @ dbg (sr_actor r) @ '' checkpoint ''
         @ dbg (sr_checkpoint r)))) (\<lambda>_.
     and_then (validate_request_hash r) (\<lambda>_.
     and_then (validate_response_barrier dbg (wf_barriers w) r) (\<lambda>_.
     Inr ((sr_actor r, sr_checkpoint r) # checkpoints))))))))"

definition has_transition :: "workflow \<Rightarrow> string \<Rightarrow> barrier \<Rightarrow> string \<Rightarrow> bool" where
  "has_transition w name barrier actor \<longleftrightarrow> list_ex (\<lambda>r. sr_actor r = actor
     \<and> sr_checkpoint r = ba_checkpoint barrier \<and> sr_barrier r = Some name) (wf_responses w)"

definition validate_barrier_transitions ::
    "(string \<Rightarrow> string) \<Rightarrow> workflow \<Rightarrow> string \<times> barrier \<Rightarrow> ahrb_error + unit" where
  "validate_barrier_transitions dbg w = (\<lambda>(name, barrier).
     first_error (\<lambda>actor. guard (has_transition w name barrier actor)
         (Validation (''barrier '' @ dbg name @ '' actor '' @ dbg actor @ '' has no matching scripted transition'')))
       (ba_actors barrier))"

definition validate_workflow :: "(string \<Rightarrow> string) \<Rightarrow> workflow \<Rightarrow> ahrb_error + unit" where
  "validate_workflow dbg w =
     and_then (guard (wf_version w = workflow_schema_version)
       (Validation (''unsupported workflow schema '' @ show_nat (unat (wf_version w)) @ ''; expected 1''))) (\<lambda>_.
     and_then (validate_component dbg ''scenario'' (wf_scenario w)) (\<lambda>_.
     and_then (guard (wf_actors w \<noteq> []) (Validation ''workflow must declare at least one actor'')) (\<lambda>_.
     and_then (first_error (validate_actor dbg (wf_actors w)) (wf_actors w)) (\<lambda>_.
     and_then (first_error (validate_barrier dbg (wf_actors w)) (wf_barriers w)) (\<lambda>_.
     and_then (fold_ok (validate_response dbg w) [] (wf_responses w)) (\<lambda>_.
     first_error (validate_barrier_transitions dbg w) (wf_barriers w)))))))"

section \<open>Route markers\<close>

definition marker_new :: "(string \<Rightarrow> string) \<Rightarrow> string \<Rightarrow> string \<Rightarrow> string \<Rightarrow> ahrb_error + route_marker" where
  "marker_new dbg scenario actor checkpoint =
     and_then (validate_component dbg ''scenario'' scenario) (\<lambda>_.
     and_then (validate_component dbg ''actor'' actor) (\<lambda>_.
     and_then (validate_component dbg ''checkpoint'' checkpoint) (\<lambda>_.
     Inr \<lparr>rm_scenario = scenario, rm_actor = actor, rm_checkpoint = checkpoint\<rparr>)))"

definition workflow_marker :: "(string \<Rightarrow> string) \<Rightarrow> workflow \<Rightarrow> string \<Rightarrow> string \<Rightarrow> ahrb_error + route_marker" where
  "workflow_marker dbg w actor checkpoint =
     and_then (guard (bt_contains (wf_actors w) actor) (Validation (''unknown actor '' @ dbg actor))) (\<lambda>_.
     marker_new dbg (wf_scenario w) actor checkpoint)"

definition encode_marker :: "route_marker \<Rightarrow> string" where
  "encode_marker m = marker_prefix @ ''scenario='' @ rm_scenario m @ '';actor='' @ rm_actor m
     @ '';checkpoint='' @ rm_checkpoint m @ '']]''"

definition marker_field ::
    "(string \<Rightarrow> string) \<Rightarrow> (string, string) btree \<Rightarrow> string \<Rightarrow> ahrb_error + (string, string) btree" where
  "marker_field dbg parts item =
     (case split_once (CHR ''='') item of
        None \<Rightarrow> Inl (Protocol (''invalid AHRB marker component '' @ dbg item))
      | Some (key, v) \<Rightarrow>
          and_then (guard (bt_get parts key = None)
            (Protocol (''duplicate AHRB marker field '' @ dbg key))) (\<lambda>_.
          Inr (bt_insert key v parts)))"

text \<open>The only error of \<open>marker_new\<close> is a \<open>Validation\<close>; it becomes the text of a \<open>Protocol\<close> error.\<close>

definition parse_payload :: "(string \<Rightarrow> string) \<Rightarrow> string \<Rightarrow> ahrb_error + route_marker" where
  "parse_payload dbg payload =
     and_then (fold_ok (marker_field dbg) [] (split_on (CHR '';'') payload)) (\<lambda>parts.
     and_then (ok_or (bt_get parts ''scenario'') (Protocol ''AHRB marker lacks scenario'')) (\<lambda>scenario.
     let parts = bt_remove ''scenario'' parts in
     and_then (ok_or (bt_get parts ''actor'') (Protocol ''AHRB marker lacks actor'')) (\<lambda>actor.
     let parts = bt_remove ''actor'' parts in
     and_then (ok_or (bt_get parts ''checkpoint'') (Protocol ''AHRB marker lacks checkpoint'')) (\<lambda>checkpoint.
     let parts = bt_remove ''checkpoint'' parts in
     and_then (guard (parts = []) (Protocol ''AHRB marker contains unknown fields'')) (\<lambda>_.
     case marker_new dbg scenario actor checkpoint of
       Inl e \<Rightarrow> Inl (Protocol (display_error (\<lambda>_. []) e))
     | Inr m \<Rightarrow> Inr m)))))"

function extract_from :: "(string \<Rightarrow> string) \<Rightarrow> string \<Rightarrow> route_marker option \<Rightarrow>
    ahrb_error + route_marker option" where
  "extract_from dbg remaining found =
     (case split_at_str remaining marker_prefix of
        None \<Rightarrow> Inr found
      | Some (_, tail) \<Rightarrow>
          (case split_at_str tail '']]'' of
             None \<Rightarrow> Inl (Protocol ''unterminated AHRB route marker'')
           | Some (payload, rest) \<Rightarrow>
               and_then (parse_payload dbg payload) (\<lambda>m. extract_from dbg rest (Some m))))"
  by pat_completeness auto
termination
  by (relation "measure (\<lambda>(dbg, remaining, found). length remaining)")
    (auto dest!: split_at_str_Some simp: marker_prefix_def)

declare extract_from.simps [simp del]

definition extract_marker :: "(string \<Rightarrow> string) \<Rightarrow> string \<Rightarrow> ahrb_error + route_marker option" where
  "extract_marker dbg text' = extract_from dbg text' None"

section \<open>The state machine\<close>

record accepted_transition =
  at_response :: scripted_response
  at_retry :: bool

datatype transition_recognition = Current | Retry | NonPrimary

record machine_state =
  ms_next_by_actor :: "(string, nat) btree"
  ms_seen :: "(string \<times> string, string) btree"

record workflow_machine =
  wm_scenario :: string
  wm_scripts_by_actor :: "(string, scripted_response list) btree"

definition initial_state :: machine_state where
  "initial_state = \<lparr>ms_next_by_actor = [], ms_seen = []\<rparr>"

definition push_script ::
    "(string \<Rightarrow> string) \<Rightarrow> (string, scripted_response list) btree \<Rightarrow> scripted_response \<Rightarrow>
     ahrb_error + (string, scripted_response list) btree" where
  "push_script dbg scripts r =
     (case bt_get scripts (sr_actor r) of
        None \<Rightarrow> Inl (Validation (''script references unknown actor '' @ dbg (sr_actor r)))
      | Some rs \<Rightarrow> Inr (bt_insert (sr_actor r) (rs @ [r]) scripts))"

definition machine_new :: "(string \<Rightarrow> string) \<Rightarrow> workflow \<Rightarrow> ahrb_error + workflow_machine" where
  "machine_new dbg w =
     and_then (validate_workflow dbg w) (\<lambda>_.
     and_then (fold_ok (push_script dbg) (bt_of_list (map (\<lambda>(actor, _). (actor, [])) (wf_actors w))) (wf_responses w))
       (\<lambda>scripts. Inr \<lparr>wm_scenario = wf_scenario w, wm_scripts_by_actor = scripts\<rparr>))"

definition next_index :: "machine_state \<Rightarrow> string \<Rightarrow> nat" where
  "next_index st actor = (case bt_get (ms_next_by_actor st) actor of Some i \<Rightarrow> i | None \<Rightarrow> 0)"

definition recognize :: "workflow_machine \<Rightarrow> machine_state \<Rightarrow> route_marker \<Rightarrow> transition_recognition" where
  "recognize machine st m =
     (if rm_scenario m \<noteq> wm_scenario machine then NonPrimary
      else case bt_get (wm_scripts_by_actor machine) (rm_actor m) of
        None \<Rightarrow> NonPrimary
      | Some scripts \<Rightarrow>
          (if bt_contains (ms_seen st) (rm_actor m, rm_checkpoint m) then Retry
           else case nth_opt scripts (next_index st (rm_actor m)) of
             Some r \<Rightarrow> (if sr_checkpoint r = rm_checkpoint m then Current else NonPrimary)
           | None \<Rightarrow> NonPrimary))"

definition response_for_checkpoint :: "workflow_machine \<Rightarrow> route_marker \<Rightarrow> scripted_response option" where
  "response_for_checkpoint machine m =
     (if rm_scenario m \<noteq> wm_scenario machine then None
      else case bt_get (wm_scripts_by_actor machine) (rm_actor m) of
        None \<Rightarrow> None
      | Some scripts \<Rightarrow> find (\<lambda>r. sr_checkpoint r = rm_checkpoint m) scripts)"

text \<open>
  \<open>accept\<close> holds the lock of the state from its first look at the state to its end, so one call is
  one step: the new state and the result.
\<close>

definition accept :: "(string \<Rightarrow> string) \<Rightarrow> workflow_machine \<Rightarrow> route_marker \<Rightarrow> string \<Rightarrow> machine_state \<Rightarrow>
    machine_state \<times> (ahrb_error + accepted_transition)" where
  "accept dbg machine m hash st =
     (if rm_scenario m \<noteq> wm_scenario machine
      then (st, Inl (Protocol (''unexpected scenario '' @ dbg (rm_scenario m) @ ''; expected ''
        @ dbg (wm_scenario machine))))
      else case bt_get (wm_scripts_by_actor machine) (rm_actor m) of
        None \<Rightarrow> (st, Inl (Protocol (''unexpected actor '' @ dbg (rm_actor m))))
      | Some scripts \<Rightarrow>
          let key = (rm_actor m, rm_checkpoint m); label = rm_actor m @ ''/'' @ rm_checkpoint m in
          (case bt_get (ms_seen st) key of
             Some seen_hash \<Rightarrow>
               (st, if seen_hash \<noteq> hash
                  then Inl (Protocol (''checkpoint '' @ label @ '' was retried with different canonical request''))
                  else case find (\<lambda>r. sr_checkpoint r = rm_checkpoint m) scripts of
                    None \<Rightarrow> Inl (Protocol (''accepted checkpoint '' @ label @ '' has no response''))
                  | Some r \<Rightarrow> Inr \<lparr>at_response = r, at_retry = True\<rparr>)
           | None \<Rightarrow>
               let index = next_index st (rm_actor m) in
               (case nth_opt scripts index of
                  None \<Rightarrow> (st, Inl (Protocol (''actor '' @ dbg (rm_actor m)
                    @ '' has no remaining transitions (received '' @ dbg (rm_checkpoint m) @ '')'')))
                | Some r \<Rightarrow>
                    (if sr_checkpoint r \<noteq> rm_checkpoint m
                     then (st, Inl (Protocol (''illegal transition for actor '' @ dbg (rm_actor m)
                       @ '': received checkpoint '' @ dbg (rm_checkpoint m) @ '', expected '' @ dbg (sr_checkpoint r))))
                     else if sr_request_hash r \<noteq> [] \<and> \<not> eq_ignore_ascii_case (sr_request_hash r) hash
                     then (st, Inl (Protocol (''canonical request hash mismatch for '' @ label @ '': got '' @ hash)))
                     else (\<lparr>ms_next_by_actor = bt_insert (rm_actor m) (index + 1) (ms_next_by_actor st),
                            ms_seen = bt_insert key hash (ms_seen st)\<rparr>,
                           Inr \<lparr>at_response = r, at_retry = False\<rparr>)))))"

section \<open>Barriers\<close>

record barrier_state =
  bs_reached :: "(string, string list) btree"
  bs_released :: "string list"

definition no_arrivals :: barrier_state where
  "no_arrivals = \<lparr>bs_reached = [], bs_released = []\<rparr>"

definition barriers_new :: "(string \<Rightarrow> string) \<Rightarrow> workflow \<Rightarrow> ahrb_error + (string, barrier) btree" where
  "barriers_new dbg w = and_then (validate_workflow dbg w) (\<lambda>_. Inr (wf_barriers w))"

definition unknown_barrier :: "(string \<Rightarrow> string) \<Rightarrow> string \<Rightarrow> ahrb_error" where
  "unknown_barrier dbg name = Protocol (''unknown barrier '' @ dbg name)"

definition reached_set :: "barrier_state \<Rightarrow> string \<Rightarrow> string list" where
  "reached_set st name = (case bt_get (bs_reached st) name of Some actors \<Rightarrow> actors | None \<Rightarrow> [])"

definition arrive_allowed :: "(string \<Rightarrow> string) \<Rightarrow> (string, barrier) btree \<Rightarrow> string \<Rightarrow> route_marker \<Rightarrow>
    ahrb_error + unit" where
  "arrive_allowed dbg definitions name m =
     (case bt_get definitions name of
        None \<Rightarrow> Inl (unknown_barrier dbg name)
      | Some b \<Rightarrow>
          guard (\<not> (rm_checkpoint m \<noteq> ba_checkpoint b \<or> rm_actor m \<notin> set (ba_actors b)))
            (Protocol (''actor '' @ dbg (rm_actor m) @ '' at checkpoint '' @ dbg (rm_checkpoint m)
              @ '' cannot enter barrier '' @ dbg name)))"

text \<open>The step of \<open>arrive\<close> under the lock: the new state, and whether it changed.\<close>

definition arrive_insert :: "string \<Rightarrow> string \<Rightarrow> barrier_state \<Rightarrow> barrier_state \<times> bool" where
  "arrive_insert name actor st =
     (st\<lparr>bs_reached := bt_insert name (bs_insert actor (reached_set st name)) (bs_reached st)\<rparr>,
      actor \<notin> set (reached_set st name))"

definition reached :: "(string \<Rightarrow> string) \<Rightarrow> (string, barrier) btree \<Rightarrow> string \<Rightarrow> barrier_state \<Rightarrow>
    ahrb_error + string list" where
  "reached dbg definitions name st =
     (if \<not> bt_contains definitions name then Inl (unknown_barrier dbg name) else Inr (reached_set st name))"

definition is_ready :: "(string \<Rightarrow> string) \<Rightarrow> (string, barrier) btree \<Rightarrow> string \<Rightarrow> barrier_state \<Rightarrow>
    ahrb_error + bool" where
  "is_ready dbg definitions name st =
     (case bt_get definitions name of
        None \<Rightarrow> Inl (unknown_barrier dbg name)
      | Some b \<Rightarrow> Inr (list_all (\<lambda>actor. case bt_get (bs_reached st) name of
            Some actors \<Rightarrow> actor \<in> set actors | None \<Rightarrow> False) (ba_actors b)))"

definition release_allowed :: "(string \<Rightarrow> string) \<Rightarrow> (string, barrier) btree \<Rightarrow> string \<Rightarrow> barrier_state \<Rightarrow>
    ahrb_error + unit" where
  "release_allowed dbg definitions name st =
     and_then (is_ready dbg definitions name st) (\<lambda>ready.
       guard ready (Protocol (''barrier '' @ dbg name @ '' cannot be released before all actors arrive'')))"

text \<open>The step of \<open>release\<close> under its second lock.\<close>

definition release_insert :: "string \<Rightarrow> barrier_state \<Rightarrow> barrier_state \<times> bool" where
  "release_insert name st =
     (st\<lparr>bs_released := bs_insert name (bs_released st)\<rparr>, name \<notin> set (bs_released st))"

end
