(* ===== verification/Workflow_Proofs.thy ===== *)
theory Workflow_Proofs
  imports Workflow
begin

text \<open>
  What a validated workflow guarantees, the script of each actor as the machine stores it, and the
  independence of the actors: how \<open>accept\<close> depends on the part of the state its actor owns.
\<close>

section \<open>Validation\<close>

definition valid_component_name :: "string \<Rightarrow> bool" where
  "valid_component_name v \<longleftrightarrow> v \<noteq> [] \<and> list_all component_char v"

lemma validate_component_Inr [simp]: "validate_component dbg kind v = Inr () \<longleftrightarrow> valid_component_name v"
  by (simp add: validate_component_def valid_component_name_def)

definition script :: "workflow \<Rightarrow> string \<Rightarrow> scripted_response list" where
  "script w actor = filter (\<lambda>r. sr_actor r = actor) (wf_responses w)"

lemma validate_response_Inr: "validate_response dbg w seen r = Inr seen' \<Longrightarrow>
    seen' = (sr_actor r, sr_checkpoint r) # seen \<and> (sr_actor r, sr_checkpoint r) \<notin> set seen
    \<and> sr_scenario r = wf_scenario w \<and> bt_contains (wf_actors w) (sr_actor r)
    \<and> valid_component_name (sr_checkpoint r) \<and> validate_response_barrier dbg (wf_barriers w) r = Inr ()
    \<and> (\<forall>fault. sr_fault r = Some fault \<longrightarrow> validate_fault fault = Inr ())"
  by (auto simp: validate_response_def and_then_Inr_iff)

lemma validate_responses_Inr:
  assumes "fold_ok (validate_response dbg w) seen rs = Inr seen'"
  shows "(\<forall>r \<in> set rs. sr_scenario r = wf_scenario w \<and> bt_contains (wf_actors w) (sr_actor r)
      \<and> valid_component_name (sr_checkpoint r) \<and> validate_response_barrier dbg (wf_barriers w) r = Inr ()
      \<and> (\<forall>fault. sr_fault r = Some fault \<longrightarrow> validate_fault fault = Inr ()))
    \<and> distinct (map (\<lambda>r. (sr_actor r, sr_checkpoint r)) rs)
    \<and> set seen \<inter> set (map (\<lambda>r. (sr_actor r, sr_checkpoint r)) rs) = {}"
  using assms
proof (induction rs arbitrary: seen)
  case (Cons r rs)
  from Cons.prems obtain seen1 where now: "validate_response dbg w seen r = Inr seen1"
    and rest: "fold_ok (validate_response dbg w) seen1 rs = Inr seen'"
    by (auto simp: and_then_Inr_iff)
  from validate_response_Inr [OF now] Cons.IH [OF rest] show ?case by auto
qed simp

lemma workflow_accepted:
  assumes "validate_workflow dbg w = Inr ()"
  shows "valid_component_name (wf_scenario w)"
    and "\<forall>r \<in> set (wf_responses w). sr_scenario r = wf_scenario w \<and> bt_contains (wf_actors w) (sr_actor r)
      \<and> valid_component_name (sr_checkpoint r) \<and> validate_response_barrier dbg (wf_barriers w) r = Inr ()
      \<and> (\<forall>fault. sr_fault r = Some fault \<longrightarrow> validate_fault fault = Inr ())"
    and "distinct (map (\<lambda>r. (sr_actor r, sr_checkpoint r)) (wf_responses w))"
    and "\<forall>e \<in> set (wf_actors w). validate_actor dbg (wf_actors w) e = Inr ()"
    and "\<forall>e \<in> set (wf_barriers w). validate_barrier dbg (wf_actors w) e = Inr ()"
    and "\<forall>e \<in> set (wf_barriers w). validate_barrier_transitions dbg w e = Inr ()"
  using assms validate_responses_Inr [of dbg w "[]" "wf_responses w"]
  by (auto simp: validate_workflow_def and_then_Inr_iff first_error_Inr)

lemma script_checkpoints:
  assumes "validate_workflow dbg w = Inr ()"
  shows "distinct (map sr_checkpoint (script w actor))"
proof -
  have "distinct (map (\<lambda>r. (sr_actor r, sr_checkpoint r)) (script w actor))"
    using workflow_accepted(3) [OF assms] unfolding script_def by (rule distinct_map_filter)
  then have "inj_on (\<lambda>r. (sr_actor r, sr_checkpoint r)) (set (script w actor))" "distinct (script w actor)"
    by (simp_all add: distinct_map)
  then show ?thesis unfolding distinct_map by (auto simp: inj_on_def script_def)
qed

section \<open>The scripts of the machine\<close>

lemma push_scripts:
  assumes "\<forall>r \<in> set rs. bt_get scripts (sr_actor r) \<noteq> None"
  shows "\<exists>scripts'. fold_ok (push_script dbg) scripts rs = Inr scripts'
    \<and> (\<forall>a. bt_get scripts' a = map_option (\<lambda>s. s @ filter (\<lambda>r. sr_actor r = a) rs) (bt_get scripts a))"
  using assms
proof (induction rs arbitrary: scripts)
  case Nil
  then show ?case by (simp add: option.map_ident)
next
  case (Cons r rs)
  then obtain s where s: "bt_get scripts (sr_actor r) = Some s" by auto
  let ?scripts = "bt_insert (sr_actor r) (s @ [r]) scripts"
  have "\<forall>q \<in> set rs. bt_get ?scripts (sr_actor q) \<noteq> None" using Cons.prems by (auto simp: bt_get_insert)
  from Cons.IH [OF this] obtain scripts' where ih: "fold_ok (push_script dbg) ?scripts rs = Inr scripts'"
    "\<forall>a. bt_get scripts' a = map_option (\<lambda>s. s @ filter (\<lambda>r. sr_actor r = a) rs) (bt_get ?scripts a)" by blast
  have "fold_ok (push_script dbg) scripts (r # rs) = Inr scripts'" using s ih(1) by (simp add: push_script_def)
  moreover have "bt_get scripts' a = map_option (\<lambda>s. s @ filter (\<lambda>r. sr_actor r = a) (r # rs)) (bt_get scripts a)" for a
    using ih(2) s by (auto simp: bt_get_insert)
  ultimately show ?case by blast
qed

lemma bt_get_keys: "bt_get (bt_of_list (map (\<lambda>(k, _). (k, c)) m)) a = (if bt_contains m a then Some c else None)"
proof -
  have "map_of (rev (map (\<lambda>(k, _). (k, c)) m)) a = (if a \<in> fst ` set m then Some c else None)"
    by (induction m rule: rev_induct) (auto split: prod.splits)
  moreover have "a \<in> fst ` set m \<longleftrightarrow> bt_contains m a"
    using keys_bt_get [of m] by (auto simp: bt_contains_def)
  ultimately show ?thesis by (simp add: bt_get_of_list)
qed

lemma machine_new_Inr:
  "machine_new dbg w = Inr machine \<Longrightarrow> validate_workflow dbg w = Inr ()
    \<and> wm_scenario machine = wf_scenario w
    \<and> (\<forall>a. bt_get (wm_scripts_by_actor machine) a = (if bt_contains (wf_actors w) a then Some (script w a) else None))"
  "validate_workflow dbg w = Inr () \<Longrightarrow> \<exists>machine. machine_new dbg w = Inr machine"
proof -
  let ?empty = "bt_of_list (map (\<lambda>(actor, _). (actor, [])) (wf_actors w)) :: (string, scripted_response list) btree"
  have scripts: "\<exists>scripts'. fold_ok (push_script dbg) ?empty (wf_responses w) = Inr scripts'
      \<and> (\<forall>a. bt_get scripts' a = (if bt_contains (wf_actors w) a then Some (script w a) else None))"
    if v: "validate_workflow dbg w = Inr ()"
  proof -
    have "\<forall>r \<in> set (wf_responses w). bt_get ?empty (sr_actor r) \<noteq> None"
      using workflow_accepted(2) [OF v] by (auto simp: bt_get_keys)
    from push_scripts [OF this] show ?thesis by (fastforce simp: bt_get_keys script_def)
  qed
  show "machine_new dbg w = Inr machine \<Longrightarrow> validate_workflow dbg w = Inr ()
    \<and> wm_scenario machine = wf_scenario w
    \<and> (\<forall>a. bt_get (wm_scripts_by_actor machine) a = (if bt_contains (wf_actors w) a then Some (script w a) else None))"
    using scripts by (auto simp: machine_new_def and_then_Inr_iff)
  show "validate_workflow dbg w = Inr () \<Longrightarrow> \<exists>machine. machine_new dbg w = Inr machine"
    using scripts by (auto simp: machine_new_def and_then_Inr_iff)
qed

section \<open>Runs\<close>

text \<open>A run: requests in the order in which they get the lock.\<close>

fun run_machine :: "(string \<Rightarrow> string) \<Rightarrow> workflow_machine \<Rightarrow> (route_marker \<times> string) list \<Rightarrow> machine_state \<Rightarrow>
    machine_state \<times> (ahrb_error + accepted_transition) list" where
  "run_machine dbg machine [] st = (st, [])"
| "run_machine dbg machine ((m, hash) # requests) st =
     (let (st1, r) = accept dbg machine m hash st; (st2, rs) = run_machine dbg machine requests st1
      in (st2, r # rs))"

text \<open>What the state holds for one actor.\<close>

definition actor_view :: "machine_state \<Rightarrow> string \<Rightarrow> nat \<times> (string \<Rightarrow> string option)" where
  "actor_view st a = (next_index st a, \<lambda>c. bt_get (ms_seen st) (a, c))"

definition advance :: "route_marker \<Rightarrow> string \<Rightarrow> machine_state \<Rightarrow> machine_state" where
  "advance m hash st =
     \<lparr>ms_next_by_actor = bt_insert (rm_actor m) (next_index st (rm_actor m) + 1) (ms_next_by_actor st),
      ms_seen = bt_insert (rm_actor m, rm_checkpoint m) hash (ms_seen st)\<rparr>"

text \<open>The state changes only with a first acceptance.\<close>

lemma accept_state: "fst (accept dbg machine m hash st) =
    (case snd (accept dbg machine m hash st) of
       Inr t \<Rightarrow> if at_retry t then st else advance m hash st | Inl _ \<Rightarrow> st)"
  by (simp add: accept_def Let_def advance_def split: option.split)

lemma accept_result_view:
  assumes "actor_view st (rm_actor m) = actor_view st' (rm_actor m)"
  shows "snd (accept dbg machine m hash st) = snd (accept dbg machine m hash st')"
proof -
  have same: "next_index st (rm_actor m) = next_index st' (rm_actor m)"
    "bt_get (ms_seen st) (rm_actor m, c) = bt_get (ms_seen st') (rm_actor m, c)" for c
    using assms by (auto simp: actor_view_def fun_eq_iff)
  show ?thesis by (simp add: accept_def same Let_def split: option.split)
qed

lemma advance_view: "actor_view (advance m hash st) a =
    (if a = rm_actor m then (fst (actor_view st a) + 1, (snd (actor_view st a))(rm_checkpoint m \<mapsto> hash))
     else actor_view st a)"
  by (auto simp: actor_view_def advance_def next_index_def bt_get_insert fun_eq_iff)

lemma accept_view: "actor_view st (rm_actor m) = actor_view st' (rm_actor m) \<Longrightarrow>
    actor_view (fst (accept dbg machine m hash st)) (rm_actor m)
      = actor_view (fst (accept dbg machine m hash st')) (rm_actor m)"
  unfolding accept_state accept_result_view by (simp add: advance_view split: sum.split)

lemma accept_other_view: "a \<noteq> rm_actor m \<Longrightarrow> actor_view (fst (accept dbg machine m hash st)) a = actor_view st a"
  unfolding accept_state by (simp add: advance_view split: sum.split)

lemma run_view:
  "actor_view st a = actor_view st' a \<Longrightarrow>
    map snd (filter (\<lambda>(q, r). rm_actor (fst q) = a) (zip requests (snd (run_machine dbg machine requests st))))
      = snd (run_machine dbg machine (filter (\<lambda>q. rm_actor (fst q) = a) requests) st')"
proof (induction requests arbitrary: st st')
  case (Cons q requests)
  obtain m hash where q: "q = (m, hash)" by force
  let ?st = "fst (accept dbg machine m hash st)" and ?st' = "fst (accept dbg machine m hash st')"
  show ?case
  proof (cases "rm_actor m = a")
    case True
    with Cons.prems have "actor_view st (rm_actor m) = actor_view st' (rm_actor m)" by simp
    from accept_view [OF this, of dbg machine hash] accept_result_view [OF this, of dbg machine hash]
      Cons.IH [of ?st ?st'] True
    show ?thesis by (simp add: q case_prod_unfold Let_def)
  next
    case False
    then have "actor_view ?st a = actor_view st' a" using accept_other_view Cons.prems by metis
    from Cons.IH [OF this] False show ?thesis by (simp add: q case_prod_unfold Let_def)
  qed
qed simp

end
