(* ===== verification/Workflow_Properties.thy ===== *)
theory Workflow_Properties
  imports Workflow_Proofs
begin

text \<open>
  Properties of the workflow machine: it refines a specification that only keeps, per actor, the
  hashes accepted so far; actors do not influence each other; every workflow can be completed;
  recognition predicts acceptance; and route markers survive being embedded in text.
\<close>

section \<open>Specification\<close>

type_synonym progress = "string \<Rightarrow> string list"

datatype verdict = Advanced scripted_response | Repeated scripted_response | Refused

fun verdict_of :: "ahrb_error + accepted_transition \<Rightarrow> verdict" where
  "verdict_of (Inl e) = Refused"
| "verdict_of (Inr t) = (if at_retry t then Repeated (at_response t) else Advanced (at_response t))"

definition position :: "string \<Rightarrow> scripted_response list \<Rightarrow> nat option" where
  "position c rs = (if c \<in> set (map sr_checkpoint rs)
     then Some (length (takeWhile (\<lambda>r. sr_checkpoint r \<noteq> c) rs)) else None)"

definition hash_allowed :: "scripted_response \<Rightarrow> string \<Rightarrow> bool" where
  "hash_allowed r hash \<longleftrightarrow> sr_request_hash r = [] \<or> eq_ignore_ascii_case (sr_request_hash r) hash"

definition spec_accept :: "workflow \<Rightarrow> route_marker \<Rightarrow> string \<Rightarrow> progress \<Rightarrow> progress \<times> verdict" where
  "spec_accept w m hash A =
     (let a = rm_actor m; rs = script w a; k = length (A a)
      in if rm_scenario m \<noteq> wf_scenario w then (A, Refused)
      else case position (rm_checkpoint m) rs of
        None \<Rightarrow> (A, Refused)
      | Some i \<Rightarrow>
          (if i < k then (A, if A a ! i = hash then Repeated (rs ! i) else Refused)
           else if i = k \<and> hash_allowed (rs ! i) hash then (A(a := A a @ [hash]), Advanced (rs ! i))
           else (A, Refused)))"

fun spec_run :: "workflow \<Rightarrow> (route_marker \<times> string) list \<Rightarrow> progress \<Rightarrow> verdict list" where
  "spec_run w [] A = []"
| "spec_run w ((m, hash) # requests) A =
     snd (spec_accept w m hash A) # spec_run w requests (fst (spec_accept w m hash A))"

lemma position_Some: "distinct (map sr_checkpoint rs) \<Longrightarrow>
    position c rs = Some i \<longleftrightarrow> i < length rs \<and> sr_checkpoint (rs ! i) = c"
proof (induction rs arbitrary: i)
  case (Cons r rs)
  show ?case
  proof (cases i)
    case 0
    then show ?thesis by (auto simp: position_def)
  next
    case (Suc j)
    with Cons.prems Cons.IH [of j] show ?thesis
      by (cases "sr_checkpoint r = c") (auto simp: position_def in_set_conv_nth)
  qed
qed (simp add: position_def)

lemma position_None: "position c rs = None \<longleftrightarrow> c \<notin> set (map sr_checkpoint rs)"
  by (simp add: position_def)

lemma find_position: "find (\<lambda>r. sr_checkpoint r = c) rs = map_option (nth rs) (position c rs)"
  by (induction rs) (auto simp: position_def split: if_splits)

section \<open>Refinement\<close>

definition progress_view :: "scripted_response list \<Rightarrow> string list \<Rightarrow> nat \<times> (string \<Rightarrow> string option)" where
  "progress_view rs hs =
     (length hs, \<lambda>c. case position c rs of None \<Rightarrow> None | Some i \<Rightarrow> nth_opt hs i)"

definition related :: "workflow \<Rightarrow> machine_state \<Rightarrow> progress \<Rightarrow> bool" where
  "related w st A \<longleftrightarrow> (\<forall>a. length (A a) \<le> length (script w a) \<and> actor_view st a = progress_view (script w a) (A a))"

lemma related_initial: "related w initial_state (\<lambda>_. [])"
  by (auto simp: related_def actor_view_def progress_view_def initial_state_def next_index_def nth_opt_def fun_eq_iff
      split: option.split)

lemma related_actor: "related w st A \<Longrightarrow> length (A a) \<le> length (script w a) \<and> next_index st a = length (A a)
    \<and> bt_get (ms_seen st) (a, c) = (case position c (script w a) of None \<Rightarrow> None | Some i \<Rightarrow> nth_opt (A a) i)"
  by (auto simp: related_def actor_view_def progress_view_def dest: fun_cong)

lemma progress_view_snoc:
  assumes "distinct (map sr_checkpoint rs)" "position c rs = Some (length hs)"
  shows "progress_view rs (hs @ [hash]) = (fst (progress_view rs hs) + 1, (snd (progress_view rs hs))(c \<mapsto> hash))"
proof -
  have "(case position c' rs of None \<Rightarrow> None | Some i \<Rightarrow> nth_opt (hs @ [hash]) i)
      = ((\<lambda>c. case position c rs of None \<Rightarrow> None | Some i \<Rightarrow> nth_opt hs i)(c \<mapsto> hash)) c'" for c'
  proof (cases "c' = c")
    case False
    have "i \<noteq> length hs" if "position c' rs = Some i" for i
      using that False assms by (auto simp: position_Some)
    then show ?thesis using False by (auto simp: nth_opt_def nth_append split: option.split)
  qed (use assms(2) in \<open>simp add: nth_opt_def\<close>)
  then show ?thesis by (simp add: progress_view_def fun_eq_iff)
qed

lemma related_advance:
  assumes "related w st A" "position (rm_checkpoint m) (script w (rm_actor m)) = Some (length (A (rm_actor m)))"
    and "distinct (map sr_checkpoint (script w (rm_actor m)))"
  shows "related w (advance m hash st) (A(rm_actor m := A (rm_actor m) @ [hash]))"
proof -
  have "length (A (rm_actor m)) < length (script w (rm_actor m))" using assms(2,3) by (simp add: position_Some)
  with assms(1) show ?thesis
    unfolding related_def advance_view by (simp add: progress_view_snoc [OF assms(3,2)])
qed

lemma accept_refines:
  assumes new: "machine_new dbg w = Inr machine" and rel: "related w st A"
  shows "related w (fst (accept dbg machine m hash st)) (fst (spec_accept w m hash A))
    \<and> verdict_of (snd (accept dbg machine m hash st)) = snd (spec_accept w m hash A)"
proof -
  let ?a = "rm_actor m" and ?c = "rm_checkpoint m"
  let ?rs = "script w ?a" and ?k = "length (A ?a)"
  note valid = machine_new_Inr(1) [OF new]
  have scen: "wm_scenario machine = wf_scenario w" using valid by blast
  have d: "distinct (map sr_checkpoint ?rs)" using script_checkpoints valid by blast
  have k: "?k \<le> length ?rs" "next_index st ?a = ?k"
    and seen: "bt_get (ms_seen st) (?a, ?c) = (case position ?c ?rs of None \<Rightarrow> None | Some i \<Rightarrow> nth_opt (A ?a) i)"
    using related_actor [OF rel] by blast+
  show ?thesis
  proof (cases "rm_scenario m = wf_scenario w \<and> bt_contains (wf_actors w) ?a")
    case False
    have "?rs = []" if "\<not> bt_contains (wf_actors w) ?a"
      using that workflow_accepted(2) valid by (fastforce simp: script_def filter_empty_conv)
    with False rel valid show ?thesis
      by (cases "rm_scenario m = wf_scenario w") (simp_all add: accept_def spec_accept_def scen Let_def position_def)
  next
    case True
    then have get: "bt_get (wm_scripts_by_actor machine) ?a = Some ?rs" and s: "rm_scenario m = wm_scenario machine"
      using valid by auto
    show ?thesis
    proof (cases "position ?c ?rs")
      case None
      have "sr_checkpoint (?rs ! i) \<noteq> ?c" if "i < length ?rs" for i
        using None that by (metis position_None length_map nth_map nth_mem)
      with None rel show ?thesis
        by (simp add: accept_def spec_accept_def s scen [symmetric] get seen Let_def k nth_opt_def)
    next
      case (Some i)
      then have i: "i < length ?rs" "sr_checkpoint (?rs ! i) = ?c" using d by (simp_all add: position_Some)
      show ?thesis
      proof (cases "i < ?k")
        case True
        with Some rel show ?thesis
          by (simp add: accept_def spec_accept_def s scen [symmetric] get seen Let_def k nth_opt_def find_position)
      next
        case False
        then have new_key: "bt_get (ms_seen st) (?a, ?c) = None" by (simp add: seen Some nth_opt_def)
        have at: "nth_opt ?rs ?k = Some (?rs ! ?k)" using False i(1) by (simp add: nth_opt_def)
        have same: "sr_checkpoint (?rs ! ?k) = ?c \<longleftrightarrow> i = ?k"
          using i False d by (auto simp: nth_eq_iff_index_eq distinct_map inj_on_def)
            (metis False i(1) linorder_not_less nth_eq_iff_index_eq nth_mem order_le_less_trans)
        show ?thesis
        proof (cases "i = ?k \<and> hash_allowed (?rs ! ?k) hash")
          case True
          then have r: "snd (accept dbg machine m hash st) = Inr \<lparr>at_response = ?rs ! ?k, at_retry = False\<rparr>"
            using same by (auto simp: accept_def s get new_key Let_def k(2) at hash_allowed_def)
          have "related w (advance m hash st) (A(?a := A ?a @ [hash]))"
            using related_advance [OF rel _ d] Some True by simp
          then show ?thesis unfolding accept_state r
            using True Some by (simp add: spec_accept_def s scen [symmetric] Let_def)
        next
          case not: False
          then have "\<exists>e. accept dbg machine m hash st = (st, Inl e)"
            using same by (auto simp: accept_def s get new_key Let_def k(2) at hash_allowed_def)
          then obtain e where "accept dbg machine m hash st = (st, Inl e)" by blast
          then show ?thesis
            using not False Some rel by (auto simp: spec_accept_def s scen [symmetric] Let_def)
        qed
      qed
    qed
  qed
qed

lemma run_refines:
  assumes "machine_new dbg w = Inr machine" "related w st A"
  shows "map verdict_of (snd (run_machine dbg machine requests st)) = spec_run w requests A
    \<and> (\<exists>A'. related w (fst (run_machine dbg machine requests st)) A')"
  using assms(2)
proof (induction requests arbitrary: st A)
  case (Cons q requests)
  obtain m hash where q: "q = (m, hash)" by force
  from accept_refines [OF assms(1) Cons.prems, of m hash] Cons.IH show ?case
    by (force simp: q case_prod_unfold Let_def)
qed auto

definition sample_response :: "string \<Rightarrow> string \<Rightarrow> string \<Rightarrow> scripted_response" where
  "sample_response actor checkpoint hash = \<lparr>sr_scenario = ''s'', sr_actor = actor, sr_checkpoint = checkpoint,
     sr_request_hash = hash, sr_response = JString checkpoint, sr_fault = None, sr_barrier = None\<rparr>"

definition sample_workflow :: workflow where
  "sample_workflow = \<lparr>wf_version = 1, wf_scenario = ''s'',
     wf_actors = map (\<lambda>a. (a, \<lparr>ac_id = a, ac_parent = None, ac_prompt = ''go'', ac_workspace = a\<rparr>)) [''a'', ''b''],
     wf_barriers = [],
     wf_responses = [sample_response ''a'' ''one'' [], sample_response ''b'' ''one'' [], sample_response ''a'' ''two'' []]\<rparr>"

definition sample_machine :: workflow_machine where
  "sample_machine = \<lparr>wm_scenario = ''s'', wm_scripts_by_actor =
     [(''a'', [sample_response ''a'' ''one'' [], sample_response ''a'' ''two'' []]),
      (''b'', [sample_response ''b'' ''one'' []])]\<rparr>"

definition at_marker :: "string \<Rightarrow> string \<Rightarrow> route_marker" where
  "at_marker actor checkpoint = \<lparr>rm_scenario = ''s'', rm_actor = actor, rm_checkpoint = checkpoint\<rparr>"

lemma sample_machine_new: "machine_new id sample_workflow = Inr sample_machine"
  by code_simp

text \<open>C3: from the start, whatever requests arrive and in whatever order, the machine of a validated workflow
  answers as the specification does, which keeps only the list of accepted hashes of each actor: the
  next scripted checkpoint advances when its hash is allowed, an accepted one repeats its response for
  the same hash, and everything else is refused.\<close>

theorem machine_refines_scripts:
  assumes "machine_new dbg w = Inr machine"
  shows "map verdict_of (snd (run_machine dbg machine requests initial_state)) = spec_run w requests (\<lambda>_. [])"
  using run_refines [OF assms related_initial] by blast

theorem machine_refines_scripts_witness:
  "map verdict_of (snd (run_machine id sample_machine
      [(at_marker ''b'' ''one'', ''h''), (at_marker ''a'' ''two'', ''h''), (at_marker ''a'' ''one'', ''h''),
       (at_marker ''a'' ''one'', ''h''), (at_marker ''a'' ''one'', ''g'')] initial_state))
    = [Advanced (sample_response ''b'' ''one'' []), Refused, Advanced (sample_response ''a'' ''one'' []),
       Repeated (sample_response ''a'' ''one'' []), Refused]"
  unfolding machine_refines_scripts [OF sample_machine_new] by code_simp

section \<open>Recognition\<close>

lemma allowed_hash: "\<exists>hash. hash_allowed r hash"
  by (auto simp: hash_allowed_def eq_ignore_ascii_case_def)

lemma recognize_position:
  assumes new: "machine_new dbg w = Inr machine" and rel: "related w st A"
  shows "recognize machine st m =
    (if rm_scenario m \<noteq> wf_scenario w then NonPrimary
     else case position (rm_checkpoint m) (script w (rm_actor m)) of
       None \<Rightarrow> NonPrimary
     | Some i \<Rightarrow> if i < length (A (rm_actor m)) then Retry
         else if i = length (A (rm_actor m)) then Current else NonPrimary)"
proof -
  let ?a = "rm_actor m" and ?c = "rm_checkpoint m"
  let ?rs = "script w ?a" and ?k = "length (A ?a)"
  note valid = machine_new_Inr(1) [OF new]
  have d: "distinct (map sr_checkpoint ?rs)" using script_checkpoints valid by blast
  have k: "?k \<le> length ?rs" "next_index st ?a = ?k"
    and seen: "bt_get (ms_seen st) (?a, ?c) = (case position ?c ?rs of None \<Rightarrow> None | Some i \<Rightarrow> nth_opt (A ?a) i)"
    using related_actor [OF rel] by blast+
  have empty: "?rs = []" if "\<not> bt_contains (wf_actors w) ?a"
    using that workflow_accepted(2) valid by (fastforce simp: script_def filter_empty_conv)
  have current: "(\<exists>r. nth_opt ?rs ?k = Some r \<and> sr_checkpoint r = ?c) \<longleftrightarrow> position ?c ?rs = Some ?k"
    using position_Some [OF d, of ?c ?k] by (auto simp: nth_opt_def)
  show ?thesis
    using valid empty current
    by (auto simp: recognize_def k seen bt_contains_def nth_opt_def position_def split: option.splits if_splits)
qed

text \<open>C33: in every state the machine can reach, \<open>recognize\<close>, which the fake provider consults before it
  accepts, predicts acceptance exactly: a marker is current just when some hash makes \<open>accept\<close> advance,
  a retry just when some hash makes it repeat, and never both.\<close>

theorem recognition_predicts_acceptance:
  assumes "machine_new dbg w = Inr machine"
    and "st = fst (run_machine dbg machine requests initial_state)"
  shows "(recognize machine st m = Current \<longleftrightarrow>
      (\<exists>hash r. verdict_of (snd (accept dbg machine m hash st)) = Advanced r))
    \<and> (recognize machine st m = Retry \<longleftrightarrow>
      (\<exists>hash r. verdict_of (snd (accept dbg machine m hash st)) = Repeated r))"
proof -
  obtain A where rel: "related w st A" using run_refines [OF assms(1) related_initial] assms(2) by blast
  have verdicts: "verdict_of (snd (accept dbg machine m hash st)) = snd (spec_accept w m hash A)" for hash
    using accept_refines [OF assms(1) rel] by blast
  show ?thesis
    unfolding verdicts recognize_position [OF assms(1) rel]
    using allowed_hash by (auto simp: spec_accept_def Let_def split: option.split)
qed

theorem recognition_predicts_acceptance_witness:
  "\<exists>hash r. verdict_of (snd (accept id sample_machine (at_marker ''a'' ''one'') hash
     (fst (run_machine id sample_machine [] initial_state)))) = Advanced r"
proof -
  have "recognize sample_machine (fst (run_machine id sample_machine [] initial_state)) (at_marker ''a'' ''one'') = Current"
    by code_simp
  then show ?thesis using recognition_predicts_acceptance [OF sample_machine_new refl] by blast
qed

section \<open>Independence of the actors\<close>

text \<open>The actors advance independently: in every interleaving of requests, the answers that one actor
  gets, error texts included, are those it gets when its requests are the only ones.\<close>

theorem actors_are_independent:
  "map snd (filter (\<lambda>(q, r). rm_actor (fst q) = a)
      (zip requests (snd (run_machine dbg machine requests initial_state))))
    = snd (run_machine dbg machine (filter (\<lambda>q. rm_actor (fst q) = a) requests) initial_state)"
  by (rule run_view) (rule refl)

section \<open>Completion\<close>

text \<open>The requests of an actor that follows its script.\<close>

definition follows_script :: "workflow \<Rightarrow> string \<Rightarrow> scripted_response list \<Rightarrow> (route_marker \<times> string) list \<Rightarrow> bool" where
  "follows_script w a = list_all2 (\<lambda>r (m, hash). rm_scenario m = wf_scenario w \<and> rm_actor m = a
     \<and> rm_checkpoint m = sr_checkpoint r \<and> hash_allowed r hash)"

definition scripted_answer :: "workflow \<Rightarrow> route_marker \<times> string \<Rightarrow> verdict" where
  "scripted_answer w = (\<lambda>(m, hash).
     Advanced (the (find (\<lambda>r. sr_checkpoint r = rm_checkpoint m) (script w (rm_actor m)))))"

lemma spec_follows:
  assumes "\<forall>a. distinct (map sr_checkpoint (script w a))"
    and "\<forall>a. follows_script w a (drop (length (A a)) (script w a)) (filter (\<lambda>q. rm_actor (fst q) = a) requests)"
  shows "spec_run w requests A = map (scripted_answer w) requests"
  using assms(2)
proof (induction requests arbitrary: A)
  case (Cons q requests)
  obtain m hash where q: "q = (m, hash)" by force
  let ?a = "rm_actor m"
  let ?rs = "script w ?a" and ?k = "length (A ?a)"
  have "follows_script w ?a (drop ?k ?rs) (q # filter (\<lambda>q. rm_actor (fst q) = ?a) requests)"
    using Cons.prems [rule_format, of ?a] by (simp add: q)
  then obtain r rest where drop: "drop ?k ?rs = r # rest" and m: "rm_scenario m = wf_scenario w" "rm_checkpoint m = sr_checkpoint r"
    and allowed: "hash_allowed r hash"
    and later: "follows_script w ?a rest (filter (\<lambda>q. rm_actor (fst q) = ?a) requests)"
    by (auto simp: follows_script_def q list_all2_Cons2)
  have k: "?k < length ?rs" "?rs ! ?k = r" "rest = drop (Suc ?k) ?rs"
    using drop by (metis drop_all linorder_not_less list.distinct(1), metis drop_eq_Nil linorder_not_less
        list.distinct(1) list.inject Cons_nth_drop_Suc, metis Cons_nth_drop_Suc drop_eq_Nil linorder_not_less
        list.distinct(1) list.inject)
  have pos: "position (rm_checkpoint m) ?rs = Some ?k" using assms(1) k m by (simp add: position_Some)
  have step: "spec_accept w m hash A = (A(?a := A ?a @ [hash]), Advanced r)"
    using pos allowed k m by (simp add: spec_accept_def Let_def)
  have "follows_script w a (drop (length ((A(?a := A ?a @ [hash])) a)) (script w a))
      (filter (\<lambda>q. rm_actor (fst q) = a) requests)" for a
    using Cons.prems [rule_format, of a] later k(3) by (cases "a = ?a") (auto simp: q)
  then have "spec_run w requests (A(?a := A ?a @ [hash])) = map (scripted_answer w) requests"
    by (intro Cons.IH) blast
  moreover have "scripted_answer w q = Advanced r" using pos k(2) by (simp add: scripted_answer_def q find_position)
  ultimately show ?case by (simp add: q step)
qed simp

text \<open>C37: a validated workflow can always be completed: in every interleaving in which each actor sends the
  checkpoints of its script in order with allowed hashes, every request advances and gets its own
  scripted response, so no actor can block another one at the machine.\<close>

theorem workflow_completes:
  assumes "machine_new dbg w = Inr machine"
    and "\<forall>a. follows_script w a (script w a) (filter (\<lambda>q. rm_actor (fst q) = a) requests)"
  shows "map verdict_of (snd (run_machine dbg machine requests initial_state)) = map (scripted_answer w) requests"
proof -
  have "\<forall>a. distinct (map sr_checkpoint (script w a))" using script_checkpoints machine_new_Inr(1) [OF assms(1)] by blast
  from spec_follows [OF this, of "\<lambda>_. []" requests] assms(2) run_refines [OF assms(1) related_initial]
  show ?thesis by simp
qed

lemma sample_follows:
  "follows_script sample_workflow a (script sample_workflow a) (filter (\<lambda>q. rm_actor (fst q) = a)
     [(at_marker ''a'' ''one'', ''h''), (at_marker ''b'' ''one'', ''h''), (at_marker ''a'' ''two'', ''g'')])"
proof -
  consider "a = ''a''" | "a = ''b''" | "a \<noteq> ''a'' \<and> a \<noteq> ''b''" by blast
  then show ?thesis
    by cases (simp_all add: follows_script_def script_def sample_workflow_def sample_response_def at_marker_def
        hash_allowed_def)
qed

theorem workflow_completes_witness:
  "map verdict_of (snd (run_machine id sample_machine
      [(at_marker ''a'' ''one'', ''h''), (at_marker ''b'' ''one'', ''h''), (at_marker ''a'' ''two'', ''g'')] initial_state))
    = [Advanced (sample_response ''a'' ''one'' []), Advanced (sample_response ''b'' ''one'' []),
       Advanced (sample_response ''a'' ''two'' [])]"
  unfolding workflow_completes [OF sample_machine_new allI [OF sample_follows]] by code_simp

end
