(* ===== verification/Marker_Properties.thy ===== *)
theory Marker_Properties
  imports Workflow_Proofs
begin

text \<open>
  Route markers in text: a marker that is printed into a prompt is found again, whatever text
  without the marker prefix stands before it and whatever follows.
\<close>

section \<open>Searching\<close>

definition borderless :: "string \<Rightarrow> bool" where
  "borderless p \<longleftrightarrow> (\<forall>i. 0 < i \<and> i < length p \<longrightarrow> drop i p \<noteq> take (length p - i) p)"

lemma starts_with_straddle:
  assumes "borderless p" "starts_with (s @ p @ t) p" "s \<noteq> []"
  shows "starts_with s p"
proof (cases "length p \<le> length s")
  case True
  from assms(2) obtain u where "s @ p @ t = p @ u" by (auto simp: starts_with_iff)
  then have "take (length p) s = p" using True by (metis append_eq_append_conv_if append_eq_conv_conj)
  then show ?thesis by (metis append_take_drop_id starts_with_iff)
next
  case False
  let ?i = "length s"
  from assms(2) obtain u where u: "s @ p @ t = p @ u" by (auto simp: starts_with_iff)
  then have "drop ?i (take (length p) (s @ p @ t)) = drop ?i p" by simp
  moreover have "drop ?i (take (length p) (s @ p @ t)) = take (length p - ?i) p" using False by (simp add: drop_take)
  ultimately have "drop ?i p = take (length p - ?i) p" by simp
  with assms(1,3) False show ?thesis by (auto simp: borderless_def)
qed

lemma split_at_first:
  assumes "borderless p" "p \<noteq> []" "\<not> contains_str pre p"
  shows "split_at_str (pre @ p @ rest) p = Some (pre, rest)"
  using assms(3)
proof (induction pre)
  case Nil
  have "starts_with (p @ rest) p" by (auto simp: starts_with_iff)
  then show ?case using assms(2) by (cases p) auto
next
  case (Cons c pre)
  then have "\<not> starts_with ((c # pre) @ p @ rest) p" using starts_with_straddle [OF assms(1)] by auto
  with Cons show ?case by simp
qed

lemma split_at_fresh: "c \<notin> set pre \<Longrightarrow> split_at_str (pre @ c # p @ rest) (c # p) = Some (pre, rest)"
proof (induction pre)
  case Nil
  have "starts_with (p @ rest) p" by (auto simp: starts_with_iff)
  then show ?case by simp
qed auto

lemma marker_prefix_borderless: "borderless marker_prefix"
proof -
  have "i \<in> {1, 2, 3, 4, 5, 6}" if "0 < i" "i < length marker_prefix" for i
    using that by (auto simp: marker_prefix_def)
  moreover have "\<forall>i \<in> {1, 2, 3, 4, 5, 6}. drop i marker_prefix \<noteq> take (length marker_prefix - i) marker_prefix"
    by code_simp
  ultimately show ?thesis unfolding borderless_def by blast
qed

section \<open>The payload\<close>

lemma component_char_plain: "component_char c \<Longrightarrow> c \<noteq> CHR '';'' \<and> c \<noteq> CHR ''='' \<and> c \<noteq> CHR '']''"
  by (auto simp: component_char_def ascii_alphanumeric_def is_digit_def is_upper_def is_lower_def)

lemma component_plain:
  "valid_component_name v \<Longrightarrow> CHR '';'' \<notin> set v \<and> CHR ''='' \<notin> set v \<and> CHR '']'' \<notin> set v"
  using component_char_plain by (auto simp: valid_component_name_def list_all_iff)

definition marker_valid :: "route_marker \<Rightarrow> bool" where
  "marker_valid m \<longleftrightarrow> valid_component_name (rm_scenario m) \<and> valid_component_name (rm_actor m)
     \<and> valid_component_name (rm_checkpoint m)"

lemma marker_new_Inr: "marker_new dbg s a c = Inr m \<longleftrightarrow>
    m = \<lparr>rm_scenario = s, rm_actor = a, rm_checkpoint = c\<rparr> \<and> marker_valid m"
  by (auto simp: marker_new_def and_then_Inr_iff marker_valid_def)

definition payload :: "route_marker \<Rightarrow> string" where
  "payload m = ''scenario='' @ rm_scenario m @ '';actor='' @ rm_actor m @ '';checkpoint='' @ rm_checkpoint m"

lemma split_once_key: "d \<notin> set a \<Longrightarrow> split_once d (a @ d # b) = Some (a, b)"
  by (simp add: split_once_Some)

lemma marker_field_key: "CHR ''='' \<notin> set key \<Longrightarrow> bt_get parts key = None \<Longrightarrow>
    marker_field dbg parts (key @ CHR ''='' # v) = Inr (bt_insert key v parts)"
  by (simp add: marker_field_def split_once_key guard_def)

lemma split_payload:
  assumes "marker_valid m"
  shows "split_on (CHR '';'') (payload m) =
    [''scenario'' @ CHR ''='' # rm_scenario m, ''actor'' @ CHR ''='' # rm_actor m,
     ''checkpoint'' @ CHR ''='' # rm_checkpoint m]" (is "_ = ?items")
proof -
  have items: "payload m = join [CHR '';''] ?items" by (simp add: payload_def)
  have "\<forall>p \<in> set ?items. CHR '';'' \<notin> set p"
    using assms component_plain by (auto simp: marker_valid_def)
  from split_on_join [OF list.distinct(2) this] show ?thesis unfolding items .
qed

lemma marker_fields:
  assumes "marker_valid m"
  shows "fold_ok (marker_field dbg) [] (split_on (CHR '';'') (payload m)) =
    Inr [(''actor'', rm_actor m), (''checkpoint'', rm_checkpoint m), (''scenario'', rm_scenario m)]"
proof -
  have 1: "marker_field dbg [] (''scenario'' @ CHR ''='' # rm_scenario m) = Inr [(''scenario'', rm_scenario m)]"
    by (subst marker_field_key) simp_all
  have 2: "marker_field dbg [(''scenario'', rm_scenario m)] (''actor'' @ CHR ''='' # rm_actor m)
      = Inr [(''actor'', rm_actor m), (''scenario'', rm_scenario m)]"
    by (subst marker_field_key) simp_all
  have 3: "marker_field dbg [(''actor'', rm_actor m), (''scenario'', rm_scenario m)]
        (''checkpoint'' @ CHR ''='' # rm_checkpoint m)
      = Inr [(''actor'', rm_actor m), (''checkpoint'', rm_checkpoint m), (''scenario'', rm_scenario m)]"
    by (subst marker_field_key) simp_all
  show ?thesis by (simp only: split_payload [OF assms] fold_ok.simps 1 2 3 and_then.simps)
qed

lemma parse_payload_of: "marker_valid m \<Longrightarrow> parse_payload dbg (payload m) = Inr m"
proof -
  assume v: "marker_valid m"
  then have "marker_new dbg (rm_scenario m) (rm_actor m) (rm_checkpoint m) = Inr m"
    by (cases m) (simp add: marker_new_Inr)
  then show ?thesis
    by (simp add: parse_payload_def marker_fields [OF v] ok_or_def bt_remove_def guard_def)
qed

section \<open>Extraction\<close>

lemma extract_from_found: "extract_from dbg s found =
    (case extract_from dbg s None of Inr None \<Rightarrow> Inr found | r \<Rightarrow> r)"
proof (cases "split_at_str s marker_prefix")
  case None
  then show ?thesis by (simp add: extract_from.simps [of dbg s])
next
  case (Some e)
  obtain before tail where e: "e = (before, tail)" by force
  have never: "extract_from dbg rest (Some m) \<noteq> Inr None" for rest m
  proof (induction "length rest" arbitrary: rest m rule: less_induct)
    case less
    show ?case
    proof (cases "split_at_str rest marker_prefix")
      case (Some e)
      then obtain b t where t: "split_at_str rest marker_prefix = Some (b, t)" by (cases e) auto
      show ?thesis
      proof (cases "split_at_str t '']]''")
        case (Some e')
        then obtain p r where p: "split_at_str t '']]'' = Some (p, r)" by (cases e') auto
        have "length r < length rest"
          using split_at_str_Some [OF t] split_at_str_Some [OF p] by (simp add: marker_prefix_def)
        from less [OF this] show ?thesis
          by (subst extract_from.simps) (auto simp: t p and_then_Inr_iff)
      qed (subst extract_from.simps, simp add: t)
    qed (subst extract_from.simps, simp)
  qed
  show ?thesis
    by (subst (1 2) extract_from.simps)
      (auto simp: Some e never split: option.split sum.split and_then_splits)
qed

lemma encode_payload: "encode_marker m = marker_prefix @ payload m @ '']]''"
  by (simp add: encode_marker_def payload_def)

text \<open>C36: a marker that \<open>RouteMarker::new\<close> accepts survives being printed into a prompt: behind any text without
  the marker prefix, extraction reads it back, and text after it changes the result only by a later
  marker, which then wins, or by a malformed one, which is an error.\<close>

theorem marker_round_trip:
  assumes "marker_new dbg scenario actor checkpoint = Inr m" "\<not> contains_str before marker_prefix"
  shows "extract_marker dbg (before @ encode_marker m @ behind) =
    (case extract_marker dbg behind of Inr None \<Rightarrow> Inr (Some m) | r \<Rightarrow> r)"
proof -
  have v: "marker_valid m" using assms(1) unfolding marker_new_Inr by blast
  have "CHR '']'' \<notin> set (payload m)" using component_plain v by (auto simp: payload_def marker_valid_def)
  then have tail: "split_at_str (payload m @ '']]'' @ behind) '']]'' = Some (payload m, behind)"
    using split_at_fresh [of "CHR '']''" "payload m" "'']''" behind] by simp
  have "split_at_str (before @ marker_prefix @ payload m @ '']]'' @ behind) marker_prefix
      = Some (before, payload m @ '']]'' @ behind)"
    by (rule split_at_first [OF marker_prefix_borderless _ assms(2)]) (simp add: marker_prefix_def)
  then have "extract_marker dbg (before @ encode_marker m @ behind) = extract_from dbg behind (Some m)"
    unfolding extract_marker_def encode_payload
    by (subst extract_from.simps) (simp add: tail [simplified] parse_payload_of [OF v])
  also have "\<dots> = (case extract_marker dbg behind of Inr None \<Rightarrow> Inr (Some m) | r \<Rightarrow> r)"
    unfolding extract_marker_def by (rule extract_from_found)
  finally show ?thesis .
qed

theorem marker_round_trip_witness:
  "extract_marker id (''please [x] '' @ encode_marker \<lparr>rm_scenario = ''s-1'', rm_actor = ''a'', rm_checkpoint = ''one''\<rparr> @ '' now'')
    = Inr (Some \<lparr>rm_scenario = ''s-1'', rm_actor = ''a'', rm_checkpoint = ''one''\<rparr>)"
proof -
  have new: "marker_new id ''s-1'' ''a'' ''one'' = Inr \<lparr>rm_scenario = ''s-1'', rm_actor = ''a'', rm_checkpoint = ''one''\<rparr>"
    by code_simp
  have plain: "\<not> contains_str ''please [x] '' marker_prefix" by code_simp
  have "extract_marker id '' now'' = Inr None" by code_simp
  then show ?thesis using marker_round_trip [OF new plain, of "'' now''"] by simp
qed

end
