(* ===== verification/Barriers.thy ===== *)
theory Barriers
  imports Workflow
begin

text \<open>
  The barrier coordinator of \<open>src/src/workflow.rs\<close> under concurrency.  \<open>arrive\<close> and \<open>release\<close> look at
  the state, change it and notify in separate critical sections, so each section is a step here;
  a waiter subscribes, tests and sleeps in separate steps.  Tokio's \<open>Notify\<close> is a parameter: what
  \<open>notified()\<close> returns, what \<open>notify_waiters()\<close> does, and whether a subscription is woken.  Its
  documented guarantee is \<open>notify_law\<close>: a broadcast wakes every subscription taken before it.
\<close>

section \<open>The system\<close>

record ('n, 't) notify =
  no_subscribe :: "'n \<Rightarrow> 't"
  no_broadcast :: "'n \<Rightarrow> 'n"
  no_woken :: "'n \<Rightarrow> 't \<Rightarrow> bool"

definition notify_law :: "('n, 't) notify \<Rightarrow> bool" where
  "notify_law N \<longleftrightarrow> (\<forall>n. no_woken N (no_broadcast N n) (no_subscribe N n))
     \<and> (\<forall>n t. no_woken N n t \<longrightarrow> no_woken N (no_broadcast N n) t)"

datatype wait_goal = WaitReady string | WaitRelease string

text \<open>Where a waiting call stands: not begun, at the head of its loop, subscribed, suspended, returned.\<close>

datatype 't waiter = Starting | Looping | Listening 't | Sleeping 't | Returned "ahrb_error + unit"

record ('n, 't) barrier_system =
  sy_state :: barrier_state
  sy_changed :: 'n
  sy_pending :: nat
  sy_checked :: "string list"
  sy_waiters :: "nat \<Rightarrow> 't waiter"

definition goal_test :: "(string \<Rightarrow> string) \<Rightarrow> (string, barrier) btree \<Rightarrow> wait_goal \<Rightarrow> barrier_state \<Rightarrow>
    ahrb_error + bool" where
  "goal_test dbg definitions goal st =
     (case goal of
        WaitReady name \<Rightarrow> is_ready dbg definitions name st
      | WaitRelease name \<Rightarrow> Inr (name \<in> set (bs_released st)))"

text \<open>One step of \<open>wait_until_ready\<close> or \<open>wait_for_release\<close>.\<close>

fun waiter_step :: "(string \<Rightarrow> string) \<Rightarrow> (string, barrier) btree \<Rightarrow> ('n, 't) notify \<Rightarrow> wait_goal \<Rightarrow>
    barrier_state \<Rightarrow> 'n \<Rightarrow> 't waiter \<Rightarrow> 't waiter" where
  "waiter_step dbg definitions N goal st n Starting =
     (case goal of
        WaitReady name \<Rightarrow> Looping
      | WaitRelease name \<Rightarrow>
          if bt_contains definitions name then Looping else Returned (Inl (unknown_barrier dbg name)))"
| "waiter_step dbg definitions N goal st n Looping = Listening (no_subscribe N n)"
| "waiter_step dbg definitions N goal st n (Listening t) =
     (case goal_test dbg definitions goal st of
        Inl e \<Rightarrow> Returned (Inl e) | Inr True \<Rightarrow> Returned (Inr ()) | Inr False \<Rightarrow> Sleeping t)"
| "waiter_step dbg definitions N goal st n (Sleeping t) = (if no_woken N n t then Looping else Sleeping t)"
| "waiter_step dbg definitions N goal st n (Returned r) = Returned r"

inductive barrier_step :: "(string \<Rightarrow> string) \<Rightarrow> (string, barrier) btree \<Rightarrow> ('n, 't) notify \<Rightarrow>
    (nat \<Rightarrow> wait_goal) \<Rightarrow> ('n, 't) barrier_system \<Rightarrow> ('n, 't) barrier_system \<Rightarrow> bool"
  for dbg definitions N goals where
  arrive: "arrive_allowed dbg definitions name m = Inr () \<Longrightarrow>
     arrive_insert name (rm_actor m) (sy_state s) = (st, changed) \<Longrightarrow>
     barrier_step dbg definitions N goals s
       (s\<lparr>sy_state := st, sy_pending := sy_pending s + (if changed then 1 else 0)\<rparr>)"
| notify: "0 < sy_pending s \<Longrightarrow>
     barrier_step dbg definitions N goals s
       (s\<lparr>sy_changed := no_broadcast N (sy_changed s), sy_pending := sy_pending s - 1\<rparr>)"
| check: "release_allowed dbg definitions name (sy_state s) = Inr () \<Longrightarrow>
     barrier_step dbg definitions N goals s (s\<lparr>sy_checked := name # sy_checked s\<rparr>)"
| release: "name \<in> set (sy_checked s) \<Longrightarrow> release_insert name (sy_state s) = (st, changed) \<Longrightarrow>
     barrier_step dbg definitions N goals s
       (s\<lparr>sy_state := st, sy_checked := remove1 name (sy_checked s),
          sy_pending := sy_pending s + (if changed then 1 else 0)\<rparr>)"
| wait: "barrier_step dbg definitions N goals s
       (s\<lparr>sy_waiters := (sy_waiters s)(i :=
          waiter_step dbg definitions N (goals i) (sy_state s) (sy_changed s) (sy_waiters s i))\<rparr>)"

inductive reachable_system :: "(string \<Rightarrow> string) \<Rightarrow> (string, barrier) btree \<Rightarrow> ('n, 't) notify \<Rightarrow>
    (nat \<Rightarrow> wait_goal) \<Rightarrow> ('n, 't) barrier_system \<Rightarrow> bool"
  for dbg definitions N goals where
  start: "reachable_system dbg definitions N goals
     \<lparr>sy_state = no_arrivals, sy_changed = n, sy_pending = 0, sy_checked = [], sy_waiters = (\<lambda>_. Starting)\<rparr>"
| step: "reachable_system dbg definitions N goals s \<Longrightarrow> barrier_step dbg definitions N goals s s' \<Longrightarrow>
     reachable_system dbg definitions N goals s'"

inductive_cases barrier_stepE: "barrier_step dbg definitions N goals s s'"

section \<open>Readiness grows\<close>

lemma reached_set_get: "(case bt_get (bs_reached st) name of Some actors \<Rightarrow> actor \<in> set actors | None \<Rightarrow> False)
    \<longleftrightarrow> actor \<in> set (reached_set st name)"
  by (simp add: reached_set_def split: option.split)

lemma is_ready_Inr: "is_ready dbg definitions name st = Inr r \<longleftrightarrow>
    (\<exists>b. bt_get definitions name = Some b \<and> r = (set (ba_actors b) \<subseteq> set (reached_set st name)))"
  by (auto simp: is_ready_def reached_set_get list_all_iff split: option.split)

lemma reached_set_arrive: "set (reached_set (fst (arrive_insert name actor st)) other) =
    (if other = name then insert actor (set (reached_set st name)) else set (reached_set st other))"
  by (auto simp: arrive_insert_def reached_set_def bt_get_insert)

lemma reached_set_release [simp]: "reached_set (fst (release_insert name st)) other = reached_set st other"
  by (simp add: release_insert_def reached_set_def)

lemma released_arrive [simp]: "bs_released (fst (arrive_insert name actor st)) = bs_released st"
  by (simp add: arrive_insert_def)

lemma released_release [simp]: "set (bs_released (fst (release_insert name st))) = insert name (set (bs_released st))"
  by (simp add: release_insert_def)

text \<open>What the two changing steps may do to the state: it grows.\<close>

definition grows :: "barrier_state \<Rightarrow> barrier_state \<Rightarrow> bool" where
  "grows st st' \<longleftrightarrow> (\<forall>name. set (reached_set st name) \<subseteq> set (reached_set st' name))
     \<and> set (bs_released st) \<subseteq> set (bs_released st')"

lemma grows_arrive: "arrive_insert name actor st = (st', changed) \<Longrightarrow> grows st st'"
  using reached_set_arrive [of name actor st] released_arrive [of name actor st] by (auto simp: grows_def)

lemma grows_release: "release_insert name st = (st', changed) \<Longrightarrow> grows st st'"
  using reached_set_release [of name st] released_release [of name st] by (auto simp: grows_def)

lemma grows_ready: "grows st st' \<Longrightarrow> is_ready dbg definitions name st = Inr True \<Longrightarrow>
    is_ready dbg definitions name st' = Inr True"
  by (fastforce simp: is_ready_Inr grows_def)

lemma grows_goal: "grows st st' \<Longrightarrow> goal_test dbg definitions goal st = Inr True \<Longrightarrow>
    goal_test dbg definitions goal st' = Inr True"
  by (cases goal) (auto simp: goal_test_def grows_ready, auto simp: grows_def)

text \<open>A goal that an unchanged insertion reports as met was met before.\<close>

lemma goal_arrive_unchanged: "arrive_insert name actor st = (st', False) \<Longrightarrow>
    goal_test dbg definitions goal st' = goal_test dbg definitions goal st"
proof -
  assume a: "arrive_insert name actor st = (st', False)"
  then have "actor \<in> set (reached_set st name)" by (simp add: arrive_insert_def)
  then have "set (reached_set st' other) = set (reached_set st other)" for other
    using reached_set_arrive [of name actor st other] a by auto
  moreover have "bs_released st' = bs_released st" using released_arrive [of name actor st] a by simp
  ultimately show ?thesis
    by (cases goal) (simp_all add: goal_test_def is_ready_def reached_set_get cong: option.case_cong)
qed

lemma goal_release_unchanged: "release_insert name st = (st', False) \<Longrightarrow>
    goal_test dbg definitions goal st' = goal_test dbg definitions goal st"
proof -
  assume a: "release_insert name st = (st', False)"
  then have "name \<in> set (bs_released st)" by (simp add: release_insert_def)
  then have "set (bs_released st') = set (bs_released st)" using released_release [of name st] a by auto
  moreover have "reached_set st' other = reached_set st other" for other
    using reached_set_release [of name st other] a by simp
  ultimately show ?thesis
    by (cases goal) (simp_all add: goal_test_def is_ready_def reached_set_get cong: option.case_cong)
qed

section \<open>Invariants\<close>

definition subscription :: "'t waiter \<Rightarrow> 't option" where
  "subscription w = (case w of Listening t \<Rightarrow> Some t | Sleeping t \<Rightarrow> Some t | _ \<Rightarrow> None)"

text \<open>The release invariant, and the wake-up invariant of one waiter.\<close>

definition release_ok :: "(string \<Rightarrow> string) \<Rightarrow> (string, barrier) btree \<Rightarrow> ('n, 't) barrier_system \<Rightarrow> bool" where
  "release_ok dbg definitions s \<longleftrightarrow>
     (\<forall>name. name \<in> set (bs_released (sy_state s)) \<union> set (sy_checked s) \<longrightarrow>
        is_ready dbg definitions name (sy_state s) = Inr True)"

definition waiter_ok :: "(string \<Rightarrow> string) \<Rightarrow> (string, barrier) btree \<Rightarrow> ('n, 't) notify \<Rightarrow> wait_goal \<Rightarrow>
    barrier_state \<Rightarrow> 'n \<Rightarrow> nat \<Rightarrow> 't waiter \<Rightarrow> bool" where
  "waiter_ok dbg definitions N goal st n pending w \<longleftrightarrow>
     (\<forall>t. subscription w = Some t \<longrightarrow> no_woken N (no_broadcast N n) t)
     \<and> (\<forall>t. w = Sleeping t \<longrightarrow> goal_test dbg definitions goal st = Inr True \<longrightarrow> no_woken N n t \<or> 0 < pending)
     \<and> (w = Returned (Inr ()) \<longrightarrow> goal_test dbg definitions goal st = Inr True)"

definition waiters_ok :: "(string \<Rightarrow> string) \<Rightarrow> (string, barrier) btree \<Rightarrow> ('n, 't) notify \<Rightarrow>
    (nat \<Rightarrow> wait_goal) \<Rightarrow> ('n, 't) barrier_system \<Rightarrow> bool" where
  "waiters_ok dbg definitions N goals s \<longleftrightarrow>
     (\<forall>i. waiter_ok dbg definitions N (goals i) (sy_state s) (sy_changed s) (sy_pending s) (sy_waiters s i))"

lemma waiter_ok_change:
  assumes "waiter_ok dbg definitions N goal st n pending w" "grows st st'"
    and "\<not> changed \<Longrightarrow> goal_test dbg definitions goal st' = goal_test dbg definitions goal st"
  shows "waiter_ok dbg definitions N goal st' n (pending + (if changed then 1 else 0)) w"
  using assms grows_goal [OF assms(2)] by (cases changed) (auto simp: waiter_ok_def)

lemma waiter_ok_broadcast:
  assumes "notify_law N" "waiter_ok dbg definitions N goal st n pending w"
  shows "waiter_ok dbg definitions N goal st (no_broadcast N n) (pending - 1) w"
proof -
  have "no_woken N (no_broadcast N n) t" if "subscription w = Some t" for t
    using assms(2) that by (auto simp: waiter_ok_def)
  then show ?thesis
    using assms by (auto simp: waiter_ok_def notify_law_def subscription_def)
qed

lemma waiter_ok_step:
  assumes "notify_law N" "waiter_ok dbg definitions N goal st n pending w"
  shows "waiter_ok dbg definitions N goal st n pending (waiter_step dbg definitions N goal st n w)"
proof (cases w)
  case Starting
  then show ?thesis by (auto simp: waiter_ok_def subscription_def split: wait_goal.split)
next
  case (Listening t)
  then show ?thesis
    using assms(2) by (auto simp: waiter_ok_def subscription_def split: sum.split bool.split)
qed (use assms in \<open>auto simp: waiter_ok_def subscription_def notify_law_def\<close>)

lemma step_invariant:
  assumes "barrier_step dbg definitions N goals s s'" "notify_law N"
    and "release_ok dbg definitions s" "waiters_ok dbg definitions N goals s"
  shows "release_ok dbg definitions s' \<and> waiters_ok dbg definitions N goals s'"
  using assms(1)
proof cases
  case (arrive name m st changed)
  note grow = grows_arrive [OF arrive(3)]
  have "waiter_ok dbg definitions N (goals i) st (sy_changed s) (sy_pending s + (if changed then 1 else 0)) (sy_waiters s i)" for i
    using assms(4) goal_arrive_unchanged arrive(3) by (intro waiter_ok_change [OF _ grow]) (auto simp: waiters_ok_def)
  moreover have "bs_released st = bs_released (sy_state s)"
    using released_arrive [of name "rm_actor m" "sy_state s"] arrive(3) by simp
  ultimately show ?thesis
    using assms(3) grows_ready [OF grow] by (auto simp: arrive(1) release_ok_def waiters_ok_def)
next
  case notify
  then show ?thesis
    using assms(2-4) by (auto simp: release_ok_def waiters_ok_def simp del: One_nat_def intro: waiter_ok_broadcast)
next
  case (check name)
  then have "is_ready dbg definitions name (sy_state s) = Inr True"
    by (auto simp: release_allowed_def and_then_Inr_iff)
  then show ?thesis using assms(3,4) by (auto simp: check(1) release_ok_def waiters_ok_def)
next
  case (release name st changed)
  note grow = grows_release [OF release(3)]
  have "waiter_ok dbg definitions N (goals i) st (sy_changed s) (sy_pending s + (if changed then 1 else 0)) (sy_waiters s i)" for i
    using assms(4) goal_release_unchanged release(3) by (intro waiter_ok_change [OF _ grow]) (auto simp: waiters_ok_def)
  moreover have "set (bs_released st) = insert name (set (bs_released (sy_state s)))"
    using released_release [of name "sy_state s"] release(3) by simp
  moreover have "set (remove1 name (sy_checked s)) \<subseteq> set (sy_checked s)" by (rule set_remove1_subset)
  ultimately show ?thesis
    using assms(3) grows_ready [OF grow] release(2) by (auto simp: release(1) release_ok_def waiters_ok_def)
next
  case (wait i)
  then show ?thesis
    using assms(2-4) by (auto simp: release_ok_def waiters_ok_def intro: waiter_ok_step)
qed

lemma reachable_invariant:
  "reachable_system dbg definitions N goals s \<Longrightarrow> notify_law N \<Longrightarrow>
    release_ok dbg definitions s \<and> waiters_ok dbg definitions N goals s"
proof (induction rule: reachable_system.induct)
  case (start n)
  show ?case by (simp add: release_ok_def waiters_ok_def no_arrivals_def waiter_ok_def subscription_def)
next
  case (step s s')
  then show ?case using step_invariant by blast
qed

section \<open>Properties\<close>

text \<open>A run for the witnesses: one waiter falls asleep, then the only actor arrives and the barrier is
  released.  The subscription is the number of broadcasts so far.\<close>

definition counting_notify :: "(nat, nat) notify" where
  "counting_notify = \<lparr>no_subscribe = id, no_broadcast = Suc, no_woken = (\<lambda>n t. t < n)\<rparr>"

lemma counting_notify_law: "notify_law counting_notify"
  by (simp add: notify_law_def counting_notify_def)

definition sample_barriers :: "(string, barrier) btree" where
  "sample_barriers = [(''held'', \<lparr>ba_name = ''held'', ba_actors = [''a''], ba_checkpoint = ''one''\<rparr>)]"

definition sample_system :: "nat \<Rightarrow> nat \<Rightarrow> string list \<Rightarrow> bool \<Rightarrow> bool \<Rightarrow> nat waiter \<Rightarrow> (nat, nat) barrier_system" where
  "sample_system n pending checked arrived released w =
     \<lparr>sy_state = \<lparr>bs_reached = (if arrived then [(''held'', [''a''])] else []),
        bs_released = (if released then [''held''] else [])\<rparr>,
      sy_changed = n, sy_pending = pending, sy_checked = checked, sy_waiters = (\<lambda>_. Starting)(0 := w)\<rparr>"

abbreviation sample_step :: "(nat, nat) barrier_system \<Rightarrow> (nat, nat) barrier_system \<Rightarrow> bool" where
  "sample_step \<equiv> barrier_step quoted sample_barriers counting_notify (\<lambda>_. WaitRelease ''held'')"

lemma sample_wait: "waiter_step quoted sample_barriers counting_notify (WaitRelease ''held'')
      (sy_state (sample_system n p c a r w)) n w = w' \<Longrightarrow>
    sample_step (sample_system n p c a r w) (sample_system n p c a r w')"
  using barrier_step.wait [of quoted sample_barriers counting_notify "\<lambda>_. WaitRelease ''held''" "sample_system n p c a r w" 0]
  by (simp add: sample_system_def)

lemma sample_notify: "sample_step (sample_system n (Suc p) c a r w) (sample_system (Suc n) p c a r w)"
  using barrier_step.notify [of "sample_system n (Suc p) c a r w" quoted sample_barriers counting_notify "\<lambda>_. WaitRelease ''held''"]
  by (simp add: sample_system_def counting_notify_def)

lemma sample_reachable: "reachable_system quoted sample_barriers counting_notify (\<lambda>_. WaitRelease ''held'')
    (sample_system 2 0 [] True True (Sleeping 0))" (is "?R (sample_system 2 0 [] True True (Sleeping 0))")
proof -
  have "?R \<lparr>sy_state = no_arrivals, sy_changed = 0, sy_pending = 0, sy_checked = [], sy_waiters = (\<lambda>_. Starting)\<rparr>"
    by (rule reachable_system.start)
  then have "?R (sample_system 0 0 [] False False Starting)" by (simp add: sample_system_def no_arrivals_def fun_upd_idem)
  then have "?R (sample_system 0 0 [] False False Looping)"
    by (rule reachable_system.step) (rule sample_wait, simp add: sample_barriers_def bt_contains_def)
  then have "?R (sample_system 0 0 [] False False (Listening 0))"
    by (rule reachable_system.step) (rule sample_wait, simp add: counting_notify_def)
  then have "?R (sample_system 0 0 [] False False (Sleeping 0))"
    by (rule reachable_system.step) (rule sample_wait, simp add: goal_test_def sample_system_def)
  moreover have "sample_step (sample_system 0 0 [] False False (Sleeping 0)) (sample_system 0 1 [] True False (Sleeping 0))"
  proof -
    have "arrive_allowed quoted sample_barriers ''held'' \<lparr>rm_scenario = ''s'', rm_actor = ''a'', rm_checkpoint = ''one''\<rparr> = Inr ()"
      by code_simp
    from barrier_step.arrive [OF this, of "sample_system 0 0 [] False False (Sleeping 0)"] show ?thesis
      by (simp add: sample_system_def arrive_insert_def reached_set_def bs_insert_def bset_of_list_def bt_of_list_def)
  qed
  ultimately have "?R (sample_system 0 1 [] True False (Sleeping 0))" by (rule reachable_system.step)
  moreover have "sample_step (sample_system 0 1 [] True False (Sleeping 0)) (sample_system 0 1 [''held''] True False (Sleeping 0))"
  proof -
    have "release_allowed quoted sample_barriers ''held'' (sy_state (sample_system 0 1 [] True False (Sleeping 0))) = Inr ()"
      unfolding sample_system_def by simp code_simp
    from barrier_step.check [OF this] show ?thesis by (simp add: sample_system_def)
  qed
  ultimately have "?R (sample_system 0 1 [''held''] True False (Sleeping 0))" by (rule reachable_system.step)
  moreover have "sample_step (sample_system 0 1 [''held''] True False (Sleeping 0)) (sample_system 0 2 [] True True (Sleeping 0))"
    using barrier_step.release [of "''held''" "sample_system 0 1 [''held''] True False (Sleeping 0)", OF _ surjective_pairing,
      of quoted sample_barriers counting_notify "\<lambda>_. WaitRelease ''held''"]
    by (simp add: sample_system_def release_insert_def bs_insert_def bset_of_list_def bt_of_list_def numeral_2_eq_2)
  ultimately have "?R (sample_system 0 2 [] True True (Sleeping 0))" by (rule reachable_system.step)
  then have "?R (sample_system 1 1 [] True True (Sleeping 0))"
    using reachable_system.step [OF _ sample_notify [of 0 1 "[]" True True "Sleeping 0"]]
    by (simp add: numeral_2_eq_2)
  then show ?thesis
    using reachable_system.step [OF _ sample_notify [of 1 0 "[]" True True "Sleeping 0"]]
    by (simp add: numeral_2_eq_2)
qed

text \<open>C5: although \<open>release\<close> tests and inserts in two separate critical sections, no interleaving of arrivals,
  releases and waits releases a barrier that some declared actor has not reached; and a call of
  \<open>wait_for_release\<close> has returned successfully only if its barrier has been released.\<close>

theorem released_barriers_were_reached:
  assumes "reachable_system dbg definitions N goals s" "notify_law N"
  shows "(\<forall>name \<in> set (bs_released (sy_state s)). \<exists>b. bt_get definitions name = Some b
        \<and> set (ba_actors b) \<subseteq> set (reached_set (sy_state s) name))
    \<and> (\<forall>i name. goals i = WaitRelease name \<and> sy_waiters s i = Returned (Inr ()) \<longrightarrow> name \<in> set (bs_released (sy_state s)))"
proof -
  note inv = reachable_invariant [OF assms]
  have "\<exists>b. bt_get definitions name = Some b \<and> set (ba_actors b) \<subseteq> set (reached_set (sy_state s) name)"
    if "name \<in> set (bs_released (sy_state s))" for name
  proof -
    have "is_ready dbg definitions name (sy_state s) = Inr True" using inv that by (auto simp: release_ok_def)
    then show ?thesis by (auto simp: is_ready_Inr)
  qed
  moreover have "name \<in> set (bs_released (sy_state s))"
    if "goals i = WaitRelease name" "sy_waiters s i = Returned (Inr ())" for i name
  proof -
    have "goal_test dbg definitions (goals i) (sy_state s) = Inr True" using inv that(2) by (auto simp: waiters_ok_def waiter_ok_def)
    then show ?thesis using that(1) by (simp add: goal_test_def)
  qed
  ultimately show ?thesis by blast
qed

lemma sample_returned: "reachable_system quoted sample_barriers counting_notify (\<lambda>_. WaitRelease ''held'')
    (sample_system 2 0 [] True True (Returned (Inr ())))"
proof -
  let ?R = "reachable_system quoted sample_barriers counting_notify (\<lambda>_. WaitRelease ''held'')"
  have "?R (sample_system 2 0 [] True True Looping)"
    by (rule reachable_system.step [OF sample_reachable sample_wait]) (simp add: counting_notify_def)
  then have "?R (sample_system 2 0 [] True True (Listening 2))"
    by (rule reachable_system.step) (rule sample_wait, simp add: counting_notify_def)
  then show ?thesis
    by (rule reachable_system.step) (rule sample_wait, simp add: goal_test_def sample_system_def)
qed

theorem released_barriers_were_reached_witness:
  "''held'' \<in> set (bs_released (sy_state (sample_system 2 0 [] True True (Returned (Inr ())))))
   \<and> (\<exists>b. bt_get sample_barriers ''held'' = Some b
       \<and> set (ba_actors b) \<subseteq> set (reached_set (sy_state (sample_system 2 0 [] True True (Returned (Inr ())))) ''held''))"
proof -
  have "sy_waiters (sample_system 2 0 [] True True (Returned (Inr ()))) 0 = Returned (Inr ())" by (simp add: sample_system_def)
  then show ?thesis using released_barriers_were_reached [OF sample_returned counting_notify_law] by blast
qed

text \<open>C34: no wake-up is lost: in every reachable state in which what a waiting call waits for holds and no
  notification is still to be sent, the call returns successfully within three of its own steps,
  wherever in its loop it stands.\<close>

theorem no_lost_wakeup:
  assumes "reachable_system dbg definitions N goals s" "notify_law N"
    and "goal_test dbg definitions (goals i) (sy_state s) = Inr True" "sy_pending s = 0"
    and "\<forall>e. sy_waiters s i \<noteq> Returned (Inl e)"
  shows "(waiter_step dbg definitions N (goals i) (sy_state s) (sy_changed s) ^^ 3) (sy_waiters s i) = Returned (Inr ())"
proof -
  note inv = reachable_invariant [OF assms(1,2)]
  have known: "bt_contains definitions name" if "goals i = WaitRelease name" for name
    using inv assms(3) that by (auto simp: release_ok_def goal_test_def is_ready_Inr bt_contains_def)
  have ok: "waiter_ok dbg definitions N (goals i) (sy_state s) (sy_changed s) 0 (sy_waiters s i)"
    using inv assms(4) by (auto simp: waiters_ok_def)
  show ?thesis
  proof (cases "sy_waiters s i")
    case Starting
    then show ?thesis using known assms(3) by (auto simp: numeral_3_eq_3 split: wait_goal.split)
  next
    case (Sleeping t)
    with ok assms(3) have "no_woken N (sy_changed s) t" by (auto simp: waiter_ok_def)
    with Sleeping show ?thesis using assms(3) by (simp add: numeral_3_eq_3)
  next
    case (Returned r)
    then show ?thesis using assms(5) by (cases r) (auto simp: numeral_3_eq_3)
  qed (use assms(3) in \<open>simp_all add: numeral_3_eq_3\<close>)
qed

theorem no_lost_wakeup_witness:
  "(waiter_step quoted sample_barriers counting_notify (WaitRelease ''held'')
     \<lparr>bs_reached = [(''held'', [''a''])], bs_released = [''held'']\<rparr> 2 ^^ 3) (Sleeping 0) = Returned (Inr ())"
proof -
  have "goal_test quoted sample_barriers (WaitRelease ''held'') (sy_state (sample_system 2 0 [] True True (Sleeping 0))) = Inr True"
    "sy_pending (sample_system 2 0 [] True True (Sleeping 0)) = 0"
    "\<forall>e. sy_waiters (sample_system 2 0 [] True True (Sleeping 0)) 0 \<noteq> Returned (Inl e)"
    by (simp_all add: goal_test_def sample_system_def)
  from no_lost_wakeup [OF sample_reachable counting_notify_law this] show ?thesis
    by (simp add: sample_system_def)
qed

end
