(* ===== verification/Events.thy ===== *)
theory Events
  imports Json_Values Manifest
begin

text \<open>
  \<open>src/src/events.rs\<close>: the normalized event vocabulary and the table-driven normalizer with its
  deduplication by stable ID.  Parameters: the JSON pointer lookup, the rendering of a JSON number,
  the Debug rendering of a text, and the readings of the two clocks.
\<close>

datatype event_vocab = TurnAccepted | ModelRequest | ModelResponse | ContextCompacted | ToolCall
  | ToolResult | AgentSpawned | BarrierReached | InputAccepted | HookCompleted | TerminalSuccess
  | TerminalFailure | TerminalCancelled | TerminalTimeout

record normalized_event =
  ne_id :: string
  ne_cursor :: u64
  ne_session_id :: string
  ne_actor :: string
  ne_event :: event_vocab
  ne_payload :: json

text \<open>The clocks read while one event is normalized; the wall clock in nanoseconds since the epoch.\<close>

record event_clock =
  ec_receipt_start :: u64
  ec_wall_start :: int
  ec_receipt_end :: u64
  ec_wall_end :: int

definition wall_clock_ns :: "int \<Rightarrow> ahrb_error + u64" where
  "wall_clock_ns nanos =
     (if nanos < 0 then Inl (Protocol ''system clock predates the Unix epoch'')
      else if 2 ^ 64 \<le> nanos then Inl (Protocol ''system clock nanoseconds exceed u64'')
      else Inr (of_int nanos))"

fun scalar_text :: "(json_number \<Rightarrow> string) \<Rightarrow> json \<Rightarrow> string option" where
  "scalar_text show_number (JString v) = Some v"
| "scalar_text show_number (JBool b) = Some (if b then ''true'' else ''false'')"
| "scalar_text show_number (JNumber n) = Some (show_number n)"
| "scalar_text show_number _ = None"

definition rule_matches :: "pointer_lookup \<Rightarrow> (json_number \<Rightarrow> string) \<Rightarrow> json \<Rightarrow> event_rule \<Rightarrow> bool" where
  "rule_matches ptr show_number raw rule \<longleftrightarrow>
     list_all (\<lambda>(pointer, expected). case ptr raw pointer of
         None \<Rightarrow> False | Some actual \<Rightarrow> scalar_text show_number actual = Some expected)
       (er_match_fields rule)"

definition pointer_string :: "pointer_lookup \<Rightarrow> (string \<Rightarrow> string) \<Rightarrow> json \<Rightarrow> string \<Rightarrow> string \<Rightarrow> ahrb_error + string" where
  "pointer_string ptr dbg raw pointer label =
     ok_or (Option.bind (ptr raw pointer) as_str)
       (Protocol (''event missing '' @ label @ '' at '' @ dbg pointer))"

definition optional_pointer_string :: "pointer_lookup \<Rightarrow> json \<Rightarrow> string \<Rightarrow> string" where
  "optional_pointer_string ptr raw pointer =
     (case Option.bind (ptr raw pointer) as_str of Some s \<Rightarrow> s | None \<Rightarrow> [])"

definition vocab_names :: "(string \<times> event_vocab) list" where
  "vocab_names =
     [(''turn-accepted'', TurnAccepted), (''model-request'', ModelRequest), (''model-response'', ModelResponse),
      (''context-compacted'', ContextCompacted), (''tool-call'', ToolCall), (''tool-result'', ToolResult),
      (''agent-spawned'', AgentSpawned), (''barrier-reached'', BarrierReached), (''input-accepted'', InputAccepted),
      (''hook-completed'', HookCompleted), (''terminal-success'', TerminalSuccess),
      (''terminal-failure'', TerminalFailure), (''terminal-cancelled'', TerminalCancelled),
      (''terminal-timeout'', TerminalTimeout)]"

definition parse_vocab :: "(string \<Rightarrow> string) \<Rightarrow> string \<Rightarrow> ahrb_error + event_vocab" where
  "parse_vocab dbg name =
     ok_or (map_of vocab_names name) (Validation (''unknown normalized event vocabulary '' @ dbg name))"

fun or_else :: "'a option \<Rightarrow> 'a option \<Rightarrow> 'a option" where
  "or_else (Some x) y = Some x"
| "or_else None y = y"

definition event_type_of :: "pointer_lookup \<Rightarrow> event_mapping \<Rightarrow> json \<Rightarrow> string option" where
  "event_type_of ptr mapping raw =
     or_else (if em_type_pointer mapping = [] then None else Option.bind (ptr raw (em_type_pointer mapping)) as_str)
       (or_else (Option.bind (json_get raw ''type'') as_str) (Option.bind (json_get raw ''event'') as_str))"

definition bind_payload ::
    "pointer_lookup \<Rightarrow> (string \<Rightarrow> string) \<Rightarrow> json \<Rightarrow> (string \<times> json) list \<Rightarrow> string \<times> string \<Rightarrow>
     ahrb_error + (string \<times> json) list" where
  "bind_payload ptr dbg raw members = (\<lambda>(field, pointer).
     and_then (ok_or (ptr raw pointer)
       (Protocol (''event payload binding '' @ dbg field @ '' is missing at '' @ dbg pointer))) (\<lambda>v.
     Inr (bt_insert field v members)))"

definition extract_payload ::
    "pointer_lookup \<Rightarrow> (string \<Rightarrow> string) \<Rightarrow> event_rule \<Rightarrow> json \<Rightarrow> ahrb_error + json" where
  "extract_payload ptr dbg rule raw =
     and_then (if er_payload_pointer rule = [] then Inr raw
       else ok_or (ptr raw (er_payload_pointer rule))
         (Protocol (''event missing payload at '' @ dbg (er_payload_pointer rule)))) (\<lambda>payload.
     if er_payload_bindings rule = [] then Inr payload
     else and_then (ok_or (as_object payload)
         (Protocol ''event payload bindings require an extracted JSON object'')) (\<lambda>members.
       and_then (fold_ok (bind_payload ptr dbg raw) members (er_payload_bindings rule)) (\<lambda>members.
       Inr (JObject members))))"

definition stamp_payload :: "json \<Rightarrow> event_clock \<Rightarrow> u64 \<Rightarrow> u64 \<Rightarrow> json \<Rightarrow> json" where
  "stamp_payload raw c wall_start wall_end payload =
     (case payload of
        JObject members \<Rightarrow>
          JObject (bt_insert ''_ahrb_receipt''
            (json_object [(''receipt_start_ns'', json_u64 (ec_receipt_start c)),
               (''receipt_end_ns'', json_u64 (ec_receipt_end c)),
               (''receipt_wall_start_ns'', json_u64 wall_start), (''receipt_wall_end_ns'', json_u64 wall_end)])
            (bt_insert ''_ahrb_source_raw'' raw members))
      | other \<Rightarrow> other)"

text \<open>What follows once the ID is recorded.\<close>

definition normalize_fresh ::
    "pointer_lookup \<Rightarrow> (string \<Rightarrow> string) \<Rightarrow> event_clock \<Rightarrow> u64 \<Rightarrow> json \<Rightarrow> event_mapping \<Rightarrow> event_rule \<Rightarrow> string \<Rightarrow>
     ahrb_error + normalized_event" where
  "normalize_fresh ptr dbg c wall_start raw mapping rule stable_id =
     and_then (ok_or (ptr raw (em_cursor_pointer mapping))
       (Protocol (''event missing cursor at '' @ dbg (em_cursor_pointer mapping)))) (\<lambda>cursor_value.
     and_then (ok_or (as_u64 cursor_value) (Protocol ''event cursor is not u64'')) (\<lambda>cursor.
     and_then (extract_payload ptr dbg rule raw) (\<lambda>payload.
     and_then (wall_clock_ns (ec_wall_end c)) (\<lambda>wall_end.
     and_then (parse_vocab dbg (er_event rule)) (\<lambda>event.
     Inr \<lparr>ne_id = stable_id, ne_cursor = cursor, ne_session_id = optional_pointer_string ptr raw ''/session_id'',
          ne_actor = optional_pointer_string ptr raw ''/actor'', ne_event = event,
          ne_payload = stamp_payload raw c wall_start wall_end payload\<rparr>)))))"

text \<open>\<open>EventNormalizer::normalize\<close>: the set of IDs seen, and the result.\<close>

definition normalize_event ::
    "pointer_lookup \<Rightarrow> (json_number \<Rightarrow> string) \<Rightarrow> (string \<Rightarrow> string) \<Rightarrow> event_mapping \<Rightarrow> event_clock \<times> json \<Rightarrow>
     string list \<Rightarrow> string list \<times> (ahrb_error + normalized_event option)" where
  "normalize_event ptr show_number dbg mapping = (\<lambda>(c, raw) seen.
     case wall_clock_ns (ec_wall_start c) of
       Inl e \<Rightarrow> (seen, Inl e)
     | Inr wall_start \<Rightarrow>
         (case event_type_of ptr mapping raw of
            None \<Rightarrow> (seen, Inl (Protocol ''source event has no type''))
          | Some event_type \<Rightarrow>
              (case find (\<lambda>rule. er_matches rule = event_type \<and> rule_matches ptr show_number raw rule) (em_rules mapping) of
                 None \<Rightarrow> (seen, Inl (Protocol (''no normalization rule for '' @ dbg event_type)))
               | Some rule \<Rightarrow>
                   (case pointer_string ptr dbg raw (em_id_pointer mapping) ''stable event ID'' of
                      Inl e \<Rightarrow> (seen, Inl e)
                    | Inr stable_id \<Rightarrow>
                        if stable_id \<in> set seen then (seen, Inr None)
                        else (bs_insert stable_id seen,
                          and_then (normalize_fresh ptr dbg c wall_start raw mapping rule stable_id) (\<lambda>e. Inr (Some e)))))))"

fun normalize_all ::
    "pointer_lookup \<Rightarrow> (json_number \<Rightarrow> string) \<Rightarrow> (string \<Rightarrow> string) \<Rightarrow> event_mapping \<Rightarrow> (event_clock \<times> json) list \<Rightarrow>
     string list \<Rightarrow> (ahrb_error + normalized_event option) list" where
  "normalize_all ptr show_number dbg mapping [] seen = []"
| "normalize_all ptr show_number dbg mapping (x # xs) seen =
     (let (seen', r) = normalize_event ptr show_number dbg mapping x seen
      in r # normalize_all ptr show_number dbg mapping xs seen')"

definition emitted :: "(ahrb_error + normalized_event option) list \<Rightarrow> normalized_event list" where
  "emitted rs = List.map_filter (\<lambda>r. case r of Inr e \<Rightarrow> e | Inl _ \<Rightarrow> None) rs"

lemma emitted_simps [simp]: "emitted [] = []" "emitted (Inl err # rs) = emitted rs" "emitted (Inr None # rs) = emitted rs"
  "emitted (Inr (Some e) # rs) = e # emitted rs"
  by (simp_all add: emitted_def List.map_filter_simps)

lemma normalize_fresh_id: "normalize_fresh ptr dbg c wall_start raw mapping rule stable_id = Inr e \<Longrightarrow> ne_id e = stable_id"
  by (auto simp: normalize_fresh_def and_then_Inr_iff)

text \<open>Every step either leaves the set alone and emits nothing, or records one new ID, which is that of
  the event it emits, if it emits one.\<close>

lemma normalize_step:
  "normalize_event ptr show_number dbg mapping x seen = (seen', r) \<Longrightarrow>
    seen' = seen \<and> emitted [r] = []
    \<or> (\<exists>stable_id. stable_id \<notin> set seen \<and> seen' = bs_insert stable_id seen \<and> (emitted [r] = [] \<or> (\<exists>e. r = Inr (Some e) \<and> ne_id e = stable_id)))"
  by (cases x) (auto simp: normalize_event_def and_then_Inr_iff normalize_fresh_id
      split: sum.splits option.splits if_splits and_then_splits)

lemma normalize_all_ids:
  "distinct (map ne_id (emitted (normalize_all ptr show_number dbg mapping xs seen)))
   \<and> set seen \<inter> ne_id ` set (emitted (normalize_all ptr show_number dbg mapping xs seen)) = {}"
proof (induction xs arbitrary: seen)
  case (Cons x xs)
  obtain seen' r where step: "normalize_event ptr show_number dbg mapping x seen = (seen', r)" by force
  have head: "emitted (r # rs) = emitted [r] @ emitted rs" for rs
    by (cases r rule: sum.exhaust; cases "projr r") auto
  have ih: "distinct (map ne_id (emitted (normalize_all ptr show_number dbg mapping xs seen')))"
    "set seen' \<inter> ne_id ` set (emitted (normalize_all ptr show_number dbg mapping xs seen')) = {}"
    using Cons.IH [of seen'] by blast+
  from normalize_step [OF step] show ?case
  proof (elim disjE exE conjE)
    assume "seen' = seen" "emitted [r] = []"
    with ih show ?thesis by (simp add: step head [of "normalize_all _ _ _ _ _ _"])
  next
    fix stable_id assume "stable_id \<notin> set seen" "seen' = bs_insert stable_id seen" "emitted [r] = []"
    with ih show ?thesis by (simp add: step head [of "normalize_all _ _ _ _ _ _"])
  next
    fix stable_id e assume "stable_id \<notin> set seen" "seen' = bs_insert stable_id seen" "r = Inr (Some e)" "ne_id e = stable_id"
    with ih show ?thesis by (auto simp: step)
  qed
qed simp

text \<open>over any sequence of source events, malformed ones included, and any rule table, the normalizer
  never emits two events with the same stable ID.\<close>

theorem normalized_ids_are_unique:
  "distinct (map ne_id (emitted (normalize_all ptr show_number dbg mapping xs [])))"
  using normalize_all_ids by blast

end
