(* ===== verification/Tokenizer.thy ===== *)
theory Tokenizer
  imports Strings
begin

text \<open>
  The reference tokenizer of \<open>src/src/economy.rs\<close>: base64 decoding and loading of the merge
  vocabulary, and byte-pair encoding.  A byte is a natural number below 256, a text in the
  vocabulary file is ASCII.  The splitting pattern is a regular expression of the \<open>regex\<close>
  crate: \<open>find_iter\<close> (the start and end of every match) is a parameter, as are SHA-256 and the text
  of a UTF-8 error.
\<close>

section \<open>Base64\<close>

unbundle bit_operations_syntax

definition base64_value :: "nat \<Rightarrow> nat option" where
  "base64_value byte =
     (if 65 \<le> byte \<and> byte \<le> 90 then Some (byte - 65)
      else if 97 \<le> byte \<and> byte \<le> 122 then Some (byte - 97 + 26)
      else if 48 \<le> byte \<and> byte \<le> 57 then Some (byte - 48 + 52)
      else if byte = 43 then Some 62
      else if byte = 47 then Some 63
      else None)"

definition alphabet_invalid :: string where
  "alphabet_invalid = ''alphabet is invalid''"

text \<open>The shifts are those of \<open>u8\<close>: \<open><<\<close> drops the bits above the eighth.\<close>

definition base64_chunk :: "bool \<Rightarrow> nat \<Rightarrow> nat \<Rightarrow> nat \<Rightarrow> nat \<Rightarrow> string + nat list" where
  "base64_chunk final_chunk x0 x1 x2 x3 =
     (let padding = length (takeWhile (\<lambda>b. b = 61) [x3, x2, x1, x0])
      in if 2 < padding \<or> (\<not> final_chunk \<and> padding \<noteq> 0) then Inl ''padding is invalid''
         else and_then (ok_or (base64_value x0) alphabet_invalid) (\<lambda>a.
              and_then (ok_or (base64_value x1) alphabet_invalid) (\<lambda>b.
              and_then (if x2 = 61 then Inr 0 else ok_or (base64_value x2) alphabet_invalid) (\<lambda>c.
              and_then (if x3 = 61 then Inr 0 else ok_or (base64_value x3) alphabet_invalid) (\<lambda>d.
              Inr ([(a * 4) mod 256 OR b div 16]
                @ (if padding < 2 then [(b * 16) mod 256 OR c div 4] else [])
                @ (if padding = 0 then [(c * 64) mod 256 OR d] else [])))))))"

fun base64_chunks :: "nat list \<Rightarrow> string + nat list" where
  "base64_chunks (x0 # x1 # x2 # x3 # rest) =
     and_then (base64_chunk (rest = []) x0 x1 x2 x3) (\<lambda>out.
     and_then (base64_chunks rest) (\<lambda>outs. Inr (out @ outs)))"
| "base64_chunks _ = Inr []"

definition decode_base64 :: "nat list \<Rightarrow> string + nat list" where
  "decode_base64 encoded =
     (if encoded = [] \<or> length encoded mod 4 \<noteq> 0 then Inl ''length is not a positive multiple of four''
      else base64_chunks encoded)"

section \<open>The vocabulary\<close>

type_synonym vocabulary = "(nat list, u32) btree"

record tokenizer_pin =
  tp_encoding :: string
  tp_version :: string
  tp_vocabulary_sha256 :: string
  tp_vocabulary_entries :: u64

record reference_tokenizer =
  rt_ranks :: vocabulary
  rt_pin :: tokenizer_pin

definition reference_tokenizer_version :: string where
  "reference_tokenizer_version = ''ahrb-o200k-base-style-bpe-v1''"

definition vocabulary_error :: "nat \<Rightarrow> string \<Rightarrow> ahrb_error" where
  "vocabulary_error line_index problem =
     Protocol (''reference tokenizer vocabulary line '' @ show_nat (line_index + 1) @ problem)"

definition load_line :: "vocabulary \<Rightarrow> nat \<times> string \<Rightarrow> ahrb_error + vocabulary" where
  "load_line ranks = (\<lambda>(line_index, raw).
     let line = trim raw in
     if line = [] \<or> starts_with line ''#'' then Inr ranks
     else and_then (ok_or (split_once (CHR '' '') line) (vocabulary_error line_index '' is malformed'')) (\<lambda>(encoded, rank).
       and_then (case decode_base64 (utf8_bytes encoded) of
           Inl e \<Rightarrow> Inl (vocabulary_error line_index ('' has invalid base64: '' @ e)) | Inr token \<Rightarrow> Inr token) (\<lambda>token.
       and_then (ok_or (parse_unsigned (2 ^ 32) rank) (vocabulary_error line_index '' has an invalid rank'')) (\<lambda>rank.
       and_then (guard (2 \<le> length token) (Protocol (''reference tokenizer merge line '' @ show_nat (line_index + 1)
           @ '' must contain at least two bytes''))) (\<lambda>_.
       and_then (guard (bt_get ranks token = None) (vocabulary_error line_index '' duplicates a token'')) (\<lambda>_.
       Inr (bt_insert token (of_nat rank) ranks)))))))"

definition base_ranks :: vocabulary where
  "base_ranks = map (\<lambda>b. ([b], of_nat b)) [0..<256]"

definition load_tokenizer :: "(string \<Rightarrow> string) \<Rightarrow> string \<Rightarrow> ahrb_error + reference_tokenizer" where
  "load_tokenizer sha_hex vocabulary_text =
     and_then (fold_ok load_line base_ranks (enumerate 0 (text_lines vocabulary_text))) (\<lambda>ranks.
     Inr \<lparr>rt_ranks = ranks, rt_pin = \<lparr>tp_encoding = ''o200k_base-style'', tp_version = reference_tokenizer_version,
       tp_vocabulary_sha256 = sha_hex vocabulary_text, tp_vocabulary_entries = of_nat (length ranks)\<rparr>\<rparr>)"

section \<open>Byte-pair encoding\<close>

text \<open>A boundary list names the cuts of a piece; a candidate removes the middle one of three.\<close>

definition piece_slice :: "nat list \<Rightarrow> nat \<Rightarrow> nat \<Rightarrow> nat list" where
  "piece_slice piece start finish = take (finish - start) (drop start piece)"

fun candidates :: "vocabulary \<Rightarrow> nat list \<Rightarrow> nat \<Rightarrow> nat list \<Rightarrow> (u32 \<times> nat) list" where
  "candidates ranks piece index (p0 # p1 # p2 # rest) =
     (case bt_get ranks (piece_slice piece p0 p2) of Some rank \<Rightarrow> [(rank, index)] | None \<Rightarrow> [])
     @ candidates ranks piece (index + 1) (p1 # p2 # rest)"
| "candidates ranks piece index _ = []"

text \<open>The least candidate: lowest rank, then leftmost.\<close>

definition candidate_less :: "u32 \<times> nat \<Rightarrow> u32 \<times> nat \<Rightarrow> bool" where
  "candidate_less x y \<longleftrightarrow> fst x < fst y \<or> fst x = fst y \<and> snd x < snd y"

definition least_candidate :: "(u32 \<times> nat) list \<Rightarrow> (u32 \<times> nat) option" where
  "least_candidate cs = (case cs of [] \<Rightarrow> None
     | c # cs \<Rightarrow> Some (foldl (\<lambda>best x. if candidate_less x best then x else best) c cs))"

definition remove_at :: "nat \<Rightarrow> 'a list \<Rightarrow> 'a list" where
  "remove_at i xs = take i xs @ drop (Suc i) xs"

lemma candidates_index: "(rank, i) \<in> set (candidates ranks piece index bs) \<Longrightarrow>
    index \<le> i \<and> i - index + 2 < length bs"
  by (induction ranks piece index bs rule: candidates.induct) (fastforce split: option.splits)+

lemma least_candidate_in: "least_candidate cs = Some c \<Longrightarrow> c \<in> set cs"
proof -
  have "foldl (\<lambda>best x. if candidate_less x best then x else best) b xs \<in> set (b # xs)" for b xs
    by (induction xs arbitrary: b) fastforce+
  then show "least_candidate cs = Some c \<Longrightarrow> c \<in> set cs"
    by (auto simp: least_candidate_def split: list.splits)
qed

function merge_boundaries :: "vocabulary \<Rightarrow> nat list \<Rightarrow> nat list \<Rightarrow> nat list" where
  "merge_boundaries ranks piece boundaries =
     (if length boundaries \<le> 2 then boundaries
      else case least_candidate (candidates ranks piece 0 boundaries) of
        None \<Rightarrow> boundaries
      | Some (rank, index) \<Rightarrow> merge_boundaries ranks piece (remove_at (index + 1) boundaries))"
  by pat_completeness auto
termination
proof (relation "measure (\<lambda>(ranks, piece, boundaries). length boundaries)", goal_cases)
  case (2 ranks piece boundaries c rank index)
  then have "index + 2 < length boundaries"
    using candidates_index [OF least_candidate_in, of ranks piece 0 boundaries rank index] by simp
  then show ?case by (simp add: remove_at_def)
qed simp

declare merge_boundaries.simps [simp del]

fun cut_at :: "nat list \<Rightarrow> nat list \<Rightarrow> nat list list" where
  "cut_at piece (p0 # p1 # rest) = piece_slice piece p0 p1 # cut_at piece (p1 # rest)"
| "cut_at piece _ = []"

definition encode_piece :: "vocabulary \<Rightarrow> nat list \<Rightarrow> nat list list" where
  "encode_piece ranks piece =
     (if piece = [] then []
      else if bt_contains ranks piece then [piece]
      else cut_at piece (merge_boundaries ranks piece [0..<length piece + 1]))"

definition unmatched :: "nat \<Rightarrow> nat \<Rightarrow> ahrb_error" where
  "unmatched start finish = Protocol (''reference tokenizer left bytes '' @ show_nat start @ ''..'' @ show_nat finish
     @ '' unmatched'')"

fun encode_matches :: "vocabulary \<Rightarrow> nat list \<Rightarrow> nat \<Rightarrow> (nat \<times> nat) list \<Rightarrow> ahrb_error + nat list list" where
  "encode_matches ranks bytes consumed [] =
     (if consumed \<noteq> length bytes then Inl (unmatched consumed (length bytes)) else Inr [])"
| "encode_matches ranks bytes consumed ((start, finish) # found) =
     (if start \<noteq> consumed then Inl (unmatched consumed start)
      else and_then (encode_matches ranks bytes finish found) (\<lambda>tokens.
        Inr (encode_piece ranks (piece_slice bytes start finish) @ tokens)))"

definition encode :: "(nat list \<Rightarrow> (nat \<times> nat) list) \<Rightarrow> (nat list \<Rightarrow> string) \<Rightarrow> reference_tokenizer \<Rightarrow> nat list \<Rightarrow>
    ahrb_error + nat list list" where
  "encode find_iter utf8_error tokenizer bytes =
     (if \<not> utf8_valid bytes
      then Inl (Protocol (''canonical request body is not UTF-8: '' @ utf8_error bytes))
      else encode_matches (rt_ranks tokenizer) bytes 0 (find_iter bytes))"

text \<open>\<open>u64::try_from\<close> of a length.\<close>

definition fits_u64 :: "string \<Rightarrow> nat \<Rightarrow> ahrb_error + u64" where
  "fits_u64 message n = (if n < 2 ^ 64 then Inr (of_nat n) else Inl (Protocol message))"

lemma fits_u64_Inr: "fits_u64 message n = Inr c \<longleftrightarrow> n < 2 ^ 64 \<and> c = of_nat n"
  by (auto simp: fits_u64_def)

definition count_tokens :: "(nat list \<Rightarrow> (nat \<times> nat) list) \<Rightarrow> (nat list \<Rightarrow> string) \<Rightarrow> reference_tokenizer \<Rightarrow> nat list \<Rightarrow>
    ahrb_error + u64" where
  "count_tokens find_iter utf8_error tokenizer bytes =
     and_then (encode find_iter utf8_error tokenizer bytes) (\<lambda>tokens.
       fits_u64 ''reference token count does not fit u64'' (length tokens))"

end
