(* ===== verification/Tokenizer_Properties.thy ===== *)
theory Tokenizer_Properties
  imports Tokenizer
begin

text \<open>
  The tokenizer is lossless and uses only vocabulary entries, whatever the splitting pattern; base64
  decoding inverts the standard encoding.
\<close>

section \<open>Base64\<close>

unbundle bit_operations_syntax

text \<open>The standard encoding, with padding.\<close>

definition base64_digit :: "nat \<Rightarrow> nat" where
  "base64_digit v = (if v < 26 then v + 65 else if v < 52 then v - 26 + 97 else if v < 62 then v - 52 + 48
     else if v = 62 then 43 else 47)"

fun encode_base64 :: "nat list \<Rightarrow> nat list" where
  "encode_base64 [] = []"
| "encode_base64 [x] = [base64_digit (x div 4), base64_digit (x mod 4 * 16), 61, 61]"
| "encode_base64 [x, y] =
     [base64_digit (x div 4), base64_digit (x mod 4 * 16 + y div 16), base64_digit (y mod 16 * 4), 61]"
| "encode_base64 (x # y # z # rest) =
     [base64_digit (x div 4), base64_digit (x mod 4 * 16 + y div 16), base64_digit (y mod 16 * 4 + z div 64),
      base64_digit (z mod 64)] @ encode_base64 rest"

lemma base64_digit_value: "v < 64 \<Longrightarrow> base64_value (base64_digit v) = Some v \<and> base64_digit v \<noteq> 61"
  by (auto simp: base64_digit_def base64_value_def)

lemma or_low_bits: "j < 2 ^ n \<Longrightarrow> (k * 2 ^ n) OR j = k * 2 ^ n + (j :: nat)"
proof -
  assume "j < 2 ^ n"
  then have j: "j = take_bit n j" by (simp add: take_bit_nat_eq_self)
  have "push_bit n k AND take_bit n j = 0" by (auto simp: bit_eq_iff bit_simps)
  then have "push_bit n k OR take_bit n j = push_bit n k + take_bit n j" by (rule disjunctive_add_eq_or [symmetric])
  then show ?thesis using j by (simp add: push_bit_eq_mult)
qed

lemma or_two_bits: "j < 4 \<Longrightarrow> (k * 4) OR j = k * 4 + (j :: nat)"
  and or_four_bits: "j < 16 \<Longrightarrow> (k * 16) OR j = k * 16 + (j :: nat)"
  and or_six_bits: "j < 64 \<Longrightarrow> (k * 64) OR j = k * 64 + (j :: nat)"
  using or_low_bits [of j 2 k] or_low_bits [of j 4 k] or_low_bits [of j 6 k] by simp_all

lemma chunk_first: "x < 256 \<Longrightarrow> r < 16 \<Longrightarrow> (x div 4 * 4) mod 256 OR (x mod 4 * 16 + r) div 16 = (x :: nat)"
proof -
  assume a: "x < 256" "r < 16"
  have "x div 4 * 4 < 256" using a(1) by simp
  moreover have "(x mod 4 * 16 + r) div 16 = x mod 4" using a(2) by simp
  ultimately show ?thesis using or_two_bits [of "x mod 4" "x div 4"] by simp
qed

lemma chunk_second: "y < 256 \<Longrightarrow> r < 4 \<Longrightarrow>
    ((x mod 4 * 16 + y div 16) * 16) mod 256 OR (y mod 16 * 4 + r) div 4 = (y :: nat)"
proof -
  assume a: "y < 256" "r < 4"
  have "(x mod 4 * 16 + y div 16) * 16 = x mod 4 * 256 + y div 16 * 16" by (simp add: algebra_simps)
  moreover have "y div 16 * 16 < 256" using a(1) by simp
  ultimately have "((x mod 4 * 16 + y div 16) * 16) mod 256 = y div 16 * 16" by simp
  moreover have "(y mod 16 * 4 + r) div 4 = y mod 16" using a(2) by simp
  ultimately show ?thesis using or_four_bits [of "y mod 16" "y div 16"] by simp
qed

lemma chunk_third: "z < 256 \<Longrightarrow> ((y mod 16 * 4 + z div 64) * 64) mod 256 OR z mod 64 = (z :: nat)"
proof -
  assume a: "z < 256"
  have "(y mod 16 * 4 + z div 64) * 64 = y mod 16 * 256 + z div 64 * 64" by (simp add: algebra_simps)
  moreover have "z div 64 * 64 < 256" using a by simp
  ultimately have "((y mod 16 * 4 + z div 64) * 64) mod 256 = z div 64 * 64" by simp
  then show ?thesis using or_six_bits [of "z mod 64" "z div 64"] by simp
qed

lemma chunk_decodes:
  "a < 64 \<Longrightarrow> b < 64 \<Longrightarrow> c < 64 \<Longrightarrow> d < 64 \<Longrightarrow>
    base64_chunk final_chunk (base64_digit a) (base64_digit b) (base64_digit c) (base64_digit d) =
      Inr [(a * 4) mod 256 OR b div 16, (b * 16) mod 256 OR c div 4, (c * 64) mod 256 OR d]"
  "a < 64 \<Longrightarrow> b < 64 \<Longrightarrow> c < 64 \<Longrightarrow>
    base64_chunk True (base64_digit a) (base64_digit b) (base64_digit c) 61 =
      Inr [(a * 4) mod 256 OR b div 16, (b * 16) mod 256 OR c div 4]"
  "a < 64 \<Longrightarrow> b < 64 \<Longrightarrow>
    base64_chunk True (base64_digit a) (base64_digit b) 61 61 = Inr [(a * 4) mod 256 OR b div 16]"
  by (simp_all add: base64_chunk_def base64_digit_value ok_or_def)

lemma small_parts: "x < 256 \<Longrightarrow> x div 4 < (64 :: nat)" "x mod 4 * 16 < (64 :: nat)"
  "y < 256 \<Longrightarrow> x mod 4 * 16 + y div 16 < (64 :: nat)" "y mod 16 * 4 < (64 :: nat)"
  "z < 256 \<Longrightarrow> y mod 16 * 4 + z div 64 < (64 :: nat)" "z mod 64 < (64 :: nat)"
proof -
  show "x < 256 \<Longrightarrow> x div 4 < (64 :: nat)" by (simp add: less_mult_imp_div_less)
  have m: "x mod 4 < 4" "y mod 16 < (16 :: nat)" by simp_all
  then show "x mod 4 * 16 < (64 :: nat)" "y mod 16 * 4 < (64 :: nat)" by linarith+
  show "y < 256 \<Longrightarrow> x mod 4 * 16 + y div 16 < (64 :: nat)"
    using m(1) less_mult_imp_div_less [of y 16 16] by linarith
  show "z < 256 \<Longrightarrow> y mod 16 * 4 + z div 64 < (64 :: nat)"
    using m(2) less_mult_imp_div_less [of z 4 64] by linarith
  show "z mod 64 < (64 :: nat)" by simp
qed

lemma base64_chunks_inverse: "list_all (\<lambda>b. b < 256) bytes \<Longrightarrow> base64_chunks (encode_base64 bytes) = Inr bytes"
proof (induction bytes rule: encode_base64.induct)
  case (2 x)
  then show ?case using chunk_first [of x 0] by (simp add: chunk_decodes small_parts)
next
  case (3 x y)
  then show ?case
    using chunk_first [of x "y div 16"] chunk_second [of y 0 x] by (simp add: chunk_decodes small_parts less_mult_imp_div_less)
next
  case (4 x y z rest)
  then show ?case
    using chunk_first [of x "y div 16"] chunk_second [of y "z div 64" x] chunk_third [of z y]
    by (simp add: chunk_decodes small_parts less_mult_imp_div_less)
qed simp

lemma encode_base64_length: "length (encode_base64 bytes) mod 4 = 0 \<and> (encode_base64 bytes = [] \<longleftrightarrow> bytes = [])"
  by (induction bytes rule: encode_base64.induct) auto

text \<open>Decoding inverts the standard padded encoding on every non-empty sequence of bytes.\<close>

theorem base64_round_trip:
  assumes "bytes \<noteq> []" "list_all (\<lambda>b. b < 256) bytes"
  shows "decode_base64 (encode_base64 bytes) = Inr bytes"
  using assms encode_base64_length [of bytes] base64_chunks_inverse by (simp add: decode_base64_def)

theorem base64_round_trip_witness: "decode_base64 (encode_base64 [105, 110, 255, 0]) = Inr [105, 110, 255, 0]"
  by (rule base64_round_trip) simp_all

text \<open>The padding check counts only trailing signs: one in the third place before a digit is decoded as zero.\<close>

lemma misplaced_padding_accepted: "decode_base64 (utf8_bytes ''AA=B'') = Inr [0, 0, 1]"
  by code_simp

section \<open>Byte-pair encoding\<close>

lemma piece_slice_append: "p \<le> q \<Longrightarrow> q \<le> r \<Longrightarrow> piece_slice piece p q @ piece_slice piece q r = piece_slice piece p r"
proof -
  assume a: "p \<le> q" "q \<le> r"
  have "r - p = (q - p) + (r - q)" using a by simp
  then have "take (r - p) (drop p piece) = take (q - p) (drop p piece) @ take (r - q) (drop (q - p) (drop p piece))"
    by (simp only: take_add)
  then show ?thesis using a by (simp add: piece_slice_def)
qed

lemma concat_cut: "sorted bs \<Longrightarrow> bs \<noteq> [] \<Longrightarrow> concat (cut_at piece bs) = piece_slice piece (hd bs) (last bs)"
proof (induction piece bs rule: cut_at.induct)
  case (1 piece p0 p1 rest)
  have "p0 \<le> p1" "p1 \<le> last (p1 # rest)" using "1.prems" by (auto intro: bspec [OF _ last_in_set])
  with 1 show ?case by (simp add: piece_slice_append)
qed (auto simp: piece_slice_def)

lemma cut_remove: "index + 2 < length bs \<Longrightarrow> set (cut_at piece (remove_at (index + 1) bs))
    \<subseteq> insert (piece_slice piece (bs ! index) (bs ! (index + 2))) (set (cut_at piece bs))"
proof (induction index arbitrary: bs)
  case 0
  then obtain p0 p1 p2 rest where "bs = p0 # p1 # p2 # rest"
    by (cases bs rule: remdups_adj.cases; cases "tl (tl bs)") auto
  then show ?case by (auto simp: remove_at_def)
next
  case (Suc index)
  then obtain p0 p1 rest where bs: "bs = p0 # p1 # rest" by (cases bs rule: remdups_adj.cases) auto
  have "remove_at (Suc index + 1) bs = p0 # remove_at (index + 1) (p1 # rest)" by (simp add: bs remove_at_def)
  moreover have "remove_at (index + 1) (p1 # rest) = p1 # remove_at index rest" by (simp add: remove_at_def)
  ultimately have "cut_at piece (remove_at (Suc index + 1) bs)
      = piece_slice piece p0 p1 # cut_at piece (remove_at (index + 1) (p1 # rest))" by simp
  then show ?case using Suc.IH [of "p1 # rest"] Suc.prems by (auto simp: bs)
qed

lemma candidates_get: "(rank, i) \<in> set (candidates ranks piece index bs) \<Longrightarrow>
    bt_get ranks (piece_slice piece (bs ! (i - index)) (bs ! (i - index + 2))) = Some rank"
proof (induction ranks piece index bs rule: candidates.induct)
  case (1 ranks piece index p0 p1 p2 rest)
  show ?case
  proof (cases "(rank, i) \<in> set (candidates ranks piece (index + 1) (p1 # p2 # rest))")
    case True
    have "index + 1 \<le> i" using candidates_index [OF True] by simp
    then obtain j where "i = index + 1 + j" using le_Suc_ex by blast
    with "1.IH" [OF True] show ?thesis by simp
  next
    case False
    with "1.prems" show ?thesis by (auto split: option.splits)
  qed
qed simp_all

lemma sorted_remove_at: "sorted bs \<Longrightarrow> sorted (remove_at i bs)"
  unfolding remove_at_def
proof -
  assume s: "sorted bs"
  have "sorted (take i bs @ drop i bs)" using s by simp
  then have parts: "sorted (take i bs)" "sorted (drop i bs)" "\<forall>x \<in> set (take i bs). \<forall>y \<in> set (drop i bs). x \<le> y"
    unfolding sorted_append by blast+
  have tail: "drop (Suc i) bs = tl (drop i bs)" by (simp add: drop_Suc drop_tl)
  have "set (drop (Suc i) bs) \<subseteq> set (drop i bs)" unfolding tail by (cases "drop i bs") auto
  with parts show "sorted (take i bs @ drop (Suc i) bs)" unfolding sorted_append tail using sorted_tl by blast
qed

definition well_cut :: "vocabulary \<Rightarrow> nat list \<Rightarrow> nat list \<Rightarrow> bool" where
  "well_cut ranks piece bs \<longleftrightarrow> sorted bs \<and> 2 \<le> length bs \<and> hd bs = 0 \<and> last bs = length piece
     \<and> list_all (bt_contains ranks) (cut_at piece bs)"

lemma remove_at_ends: "index + 2 < length bs \<Longrightarrow> hd (remove_at (index + 1) bs) = hd bs
    \<and> last (remove_at (index + 1) bs) = last bs \<and> length (remove_at (index + 1) bs) = length bs - 1"
  by (cases bs) (auto simp: remove_at_def last_drop hd_append)

lemma merge_well_cut: "well_cut ranks piece bs \<Longrightarrow> well_cut ranks piece (merge_boundaries ranks piece bs)"
proof (induction ranks piece bs rule: merge_boundaries.induct)
  case (1 ranks piece bs)
  show ?case
  proof (cases "least_candidate (candidates ranks piece 0 bs)")
    case None
    then show ?thesis using "1.prems" by (subst merge_boundaries.simps) simp
  next
    case (Some c)
    then obtain rank index where c: "least_candidate (candidates ranks piece 0 bs) = Some (rank, index)" by (cases c) auto
    note member = least_candidate_in [OF c]
    have index: "index + 2 < length bs" using candidates_index [OF member] by simp
    have "bt_contains ranks (piece_slice piece (bs ! index) (bs ! (index + 2)))"
      using candidates_get [OF member] by (simp add: bt_contains_def)
    moreover have "sorted (remove_at (index + 1) bs)"
      using "1.prems" sorted_remove_at by (auto simp: well_cut_def)
    ultimately have "well_cut ranks piece (remove_at (index + 1) bs)"
      using "1.prems" cut_remove [OF index, of piece] remove_at_ends [OF index] index
      by (auto simp: well_cut_def list_all_iff)
    with "1.IH" [OF _ c refl] show ?thesis
      using index c by (subst merge_boundaries.simps) simp
  qed
qed

lemma cut_upt: "i \<le> j \<Longrightarrow> cut_at piece [i..<Suc j] = map (\<lambda>k. piece_slice piece k (Suc k)) [i..<j]"
proof (induction "j - i" arbitrary: i)
  case (Suc n)
  then have "i < j" "cut_at piece [Suc i..<Suc j] = map (\<lambda>k. piece_slice piece k (Suc k)) [Suc i..<j]" by simp_all
  moreover have "[i..<Suc j] = i # Suc i # [Suc (Suc i)..<Suc j]" "[Suc i..<Suc j] = Suc i # [Suc (Suc i)..<Suc j]"
    using \<open>i < j\<close> by (simp_all add: upt_conv_Cons del: upt_Suc)
  ultimately show ?case by (simp add: upt_conv_Cons del: upt_Suc)
qed simp

lemma start_well_cut:
  assumes "\<forall>b < 256. bt_contains ranks [b]" "list_all (\<lambda>b. b < 256) piece" "piece \<noteq> []"
  shows "well_cut ranks piece [0..<length piece + 1]"
proof -
  have "piece_slice piece k (k + 1) = [piece ! k]" if "k < length piece" for k
    using that by (simp add: piece_slice_def take_Suc_conv_app_nth Cons_nth_drop_Suc [symmetric])
  with assms show ?thesis
    unfolding well_cut_def Suc_eq_plus1 [symmetric] cut_upt [OF le0] by (auto simp: list_all_iff Suc_le_eq simp del: upt_Suc)
qed

lemma encode_piece_facts:
  assumes "\<forall>b < 256. bt_contains ranks [b]" "list_all (\<lambda>b. b < 256) piece"
  shows "concat (encode_piece ranks piece) = piece \<and> list_all (bt_contains ranks) (encode_piece ranks piece)"
proof (cases "piece = [] \<or> bt_contains ranks piece")
  case False
  let ?bs = "merge_boundaries ranks piece [0..<length piece + 1]"
  have w: "well_cut ranks piece ?bs" using start_well_cut [OF assms] False by (intro merge_well_cut) blast
  then have "sorted ?bs" "?bs \<noteq> []" by (auto simp: well_cut_def)
  from concat_cut [OF this, of piece] w False show ?thesis
    by (simp add: encode_piece_def well_cut_def piece_slice_def)
qed (auto simp: encode_piece_def)

lemma encode_matches_facts:
  assumes "\<forall>b < 256. bt_contains ranks [b]" "list_all (\<lambda>b. b < 256) bytes"
    and "encode_matches ranks bytes consumed found = Inr tokens" "\<forall>(start, finish) \<in> set found. start \<le> finish"
  shows "concat tokens = drop consumed bytes \<and> consumed \<le> length bytes \<and> list_all (bt_contains ranks) tokens"
  using assms(3,4)
proof (induction found arbitrary: consumed tokens)
  case Nil
  then show ?case by (auto split: if_splits)
next
  case (Cons f found)
  obtain start finish where f: "f = (start, finish)" by force
  with Cons.prems obtain rest where rest: "encode_matches ranks bytes finish found = Inr rest" "start = consumed"
    "tokens = encode_piece ranks (piece_slice bytes consumed finish) @ rest" "consumed \<le> finish"
    by (auto simp: and_then_Inr_iff split: if_splits)
  have ih: "concat rest = drop finish bytes" "finish \<le> length bytes" "list_all (bt_contains ranks) rest"
    using Cons.IH [OF rest(1)] Cons.prems(2) by auto
  have "list_all (\<lambda>b. b < 256) (piece_slice bytes consumed finish)"
    using assms(2) by (auto simp: list_all_iff piece_slice_def dest!: in_set_takeD in_set_dropD)
  from encode_piece_facts [OF assms(1) this] ih rest show ?case
    using piece_slice_append [of consumed finish "length bytes" bytes]
    by (simp add: piece_slice_def)
qed

lemma load_line_keeps: "load_line ranks line = Inr ranks' \<Longrightarrow> bt_contains ranks k \<Longrightarrow> bt_contains ranks' k"
  by (cases line) (auto simp: load_line_def Let_def and_then_Inr_iff bt_contains_def bt_get_insert split: if_splits)

lemma load_lines_keep: "fold_ok load_line ranks lines = Inr ranks' \<Longrightarrow> bt_contains ranks k \<Longrightarrow> bt_contains ranks' k"
  by (induction lines arbitrary: ranks) (auto simp: and_then_Inr_iff dest: load_line_keeps)

lemma base_ranks_contain: "b < 256 \<Longrightarrow> bt_contains base_ranks [b]"
proof -
  have "bt_get (map (\<lambda>b. ([b], f b)) bs) [b] \<noteq> None" if "b \<in> set bs" for f :: "nat \<Rightarrow> u32" and bs
    using that by (induction bs) auto
  then show "b < 256 \<Longrightarrow> bt_contains base_ranks [b]" by (simp add: bt_contains_def base_ranks_def)
qed

text \<open>C35: whatever the splitting pattern, every encoding that the loaded tokenizer produces is lossless, the
  tokens put together are the bytes of the text, and consists of vocabulary entries only; a pattern
  that leaves a gap is an error, never a lost byte.\<close>

theorem tokens_reassemble_text:
  assumes "load_tokenizer sha_hex vocabulary_text = Inr tokenizer"
    and "encode find_iter utf8_error tokenizer bytes = Inr tokens"
    and "\<forall>(start, finish) \<in> set (find_iter bytes). start \<le> finish" "list_all (\<lambda>b. b < 256) bytes"
  shows "concat tokens = bytes \<and> list_all (bt_contains (rt_ranks tokenizer)) tokens"
proof -
  have "\<forall>b < 256. bt_contains (rt_ranks tokenizer) [b]"
    using assms(1) base_ranks_contain load_lines_keep by (auto simp: load_tokenizer_def and_then_Inr_iff)
  from encode_matches_facts [OF this assms(4) _ assms(3)] assms(2) show ?thesis
    by (auto simp: encode_def split: if_splits)
qed

text \<open>A vocabulary with one merge, and a pattern that matches the whole text.\<close>

definition sample_vocabulary :: string where
  "sample_vocabulary = ''# one merge'' @ [CHR 0x0A] @ ''aW4= 258'' @ [CHR 0x0A]"

definition sample_tokenizer :: reference_tokenizer where
  "sample_tokenizer = \<lparr>rt_ranks = bt_insert [105, 110] 258 base_ranks, rt_pin = \<lparr>tp_encoding = ''o200k_base-style'',
     tp_version = reference_tokenizer_version, tp_vocabulary_sha256 = [], tp_vocabulary_entries = 257\<rparr>\<rparr>"

lemma base_ranks_long: "length k \<noteq> 1 \<Longrightarrow> bt_get base_ranks k = None"
proof -
  have "length k \<noteq> 1 \<Longrightarrow> bt_get (map (\<lambda>b. ([b], f b)) bs) k = None" for f :: "nat \<Rightarrow> u32" and bs
    by (induction bs) auto
  then show "length k \<noteq> 1 \<Longrightarrow> bt_get base_ranks k = None" by (simp add: base_ranks_def)
qed

lemma length_bt_insert: "bt_get m k = None \<Longrightarrow> length (bt_insert k v m) = length m + 1"
  by (induction k v m rule: bt_insert.induct) (auto split: if_splits)

lemma sample_load: "load_tokenizer (\<lambda>_. []) sample_vocabulary = Inr sample_tokenizer"
proof -
  have lines: "text_lines sample_vocabulary = [''# one merge'', ''aW4= 258'']" by code_simp
  have comment: "load_line base_ranks (0, ''# one merge'') = Inr base_ranks"
  proof -
    have "trim ''# one merge'' = ''# one merge''" by code_simp
    then show ?thesis by (simp add: load_line_def)
  qed
  have merge: "load_line base_ranks (1, ''aW4= 258'') = Inr (bt_insert [105, 110] 258 base_ranks)"
  proof -
    have "trim ''aW4= 258'' = ''aW4= 258''" by code_simp
    moreover have "decode_base64 (utf8_bytes ''aW4='') = Inr [105, 110]" by code_simp
    moreover have "parse_unsigned (2 ^ 32) ''258'' = Some 258"
      by (simp add: parse_unsigned_def digits_val_def digit_val_def is_digit_def)
    ultimately show ?thesis by (simp add: load_line_def ok_or_def guard_def base_ranks_long)
  qed
  have "length base_ranks = 256" by (simp add: base_ranks_def)
  then have entries: "length (bt_insert [105, 110] 258 base_ranks) = 257"
    by (simp add: length_bt_insert base_ranks_long)
  show ?thesis
    using merge by (simp add: load_tokenizer_def lines comment sample_tokenizer_def entries)
qed

lemma sample_encode: "encode (\<lambda>bytes. [(0, length bytes)]) (\<lambda>_. []) sample_tokenizer [112, 105, 110]
    = Inr [[112], [105, 110]]"
  by (simp add: encode_def sample_tokenizer_def piece_slice_def encode_piece_def bt_contains_def bt_get_insert
      base_ranks_long merge_boundaries.simps least_candidate_def remove_at_def upt_rec)

theorem tokens_reassemble_text_witness:
  "concat [[112], [105, 110]] = [112 :: nat, 105, 110] \<and> list_all (bt_contains (rt_ranks sample_tokenizer)) [[112], [105, 110]]"
  by (rule tokens_reassemble_text [OF sample_load sample_encode]) simp_all

end
