(* ===== verification/Economy.thy ===== *)
theory Economy
  imports Events Tokenizer Workflow Determinism F64 "HOL-Library.Product_Lexorder"
begin

text \<open>
  \<open>src/src/economy.rs\<close> without its rendering: the evidence for the scripted effect, the counts of
  tool calls and results, the cache-prefix, redundancy and overhead measurements, and \<open>analyze\<close>.
  The environment \<open>economy_env\<close> bundles the parameters: JSON serializer and pointer lookup, SHA-256
  as hexadecimal text, the splitting pattern, the text of a UTF-8 error, and the loaded tokenizer.
\<close>

section \<open>Data\<close>

record economy_env =
  ee_ser :: serializer
  ee_ptr :: pointer_lookup
  ee_sha :: "nat list \<Rightarrow> string"
  ee_find_iter :: "nat list \<Rightarrow> (nat \<times> nat) list"
  ee_utf8_error :: "nat list \<Rightarrow> string"
  ee_vocabulary :: string

datatype economy_completion = Completed | TerminalWithoutEffect | Aborted | Stalled | Looped | OverBudget

record economy_run_evidence =
  re_collector_timed_out :: bool
  re_workspace_receipt_before_sha256 :: string
  re_workspace_receipt_after_sha256 :: string
  re_output_before_sha256 :: "string option"
  re_output_after_sha256 :: "string option"

record economy_expected_effect =
  xe_path :: string
  xe_content_sha256 :: string
  xe_edit_call_id :: string
  xe_read_back_call_id :: string

record economy_observed_effect =
  oe_path :: string
  oe_before_content_sha256 :: "string option"
  oe_after_content_sha256 :: "string option"
  oe_edit_observations :: u64
  oe_edit_reported_success :: bool
  oe_read_back_path_verified :: bool
  oe_read_back_content_sha256 :: "string option"
  oe_read_back_observations :: u64

record economy_effects_verified =
  ev_label :: string
  ev_expected :: "economy_expected_effect list"
  ev_observed :: "economy_observed_effect list"
  ev_workspace_receipt_before_sha256 :: string
  ev_workspace_receipt_after_sha256 :: string
  ev_all_verified :: bool

definition economy_output_path :: string where "economy_output_path = ''economy-output.txt''"

definition economy_output_content :: string where
  "economy_output_content = ''AHRB economy fixture edit v1'' @ [CHR 0x0A]"

definition economy_edit_call_id :: string where "economy_edit_call_id = ''economy-edit''"

definition economy_verify_call_id :: string where "economy_verify_call_id = ''economy-verify''"

definition effects_verified_label :: string where
  "effects_verified_label =
     ''verified scripted workspace mutation and read-back; proves the benchmark fixture landed, NOT that a real task was solved''"

fun completion_name :: "economy_completion \<Rightarrow> string" where
  "completion_name Completed = ''completed''"
| "completion_name TerminalWithoutEffect = ''terminal-without-effect''"
| "completion_name Aborted = ''aborted''"
| "completion_name Stalled = ''stalled''"
| "completion_name Looped = ''looped''"
| "completion_name OverBudget = ''over-budget''"

section \<open>The scripted effect\<close>

definition event_call_id :: "economy_env \<Rightarrow> normalized_event \<Rightarrow> string option" where
  "event_call_id E e =
     Option.bind (or_else (json_get (ne_payload e) ''call_id'') (ee_ptr E (ne_payload e) ''/payload/call_id'')) as_str"

definition event_result :: "economy_env \<Rightarrow> normalized_event \<Rightarrow> json option" where
  "event_result E e = or_else (json_get (ne_payload e) ''result'') (ee_ptr E (ne_payload e) ''/payload/result'')"

definition result_pointers :: "string list" where
  "result_pointers = [''/content'', ''/stdout'', ''/output'', ''/aggregated_output'', ''/result/content'',
     ''/result/stdout'', ''/result/output'', ''/state/output'', ''/tool/output'', ''/item/aggregated_output'',
     ''/preview_record/output'']"

fun find_map :: "('a \<Rightarrow> 'b option) \<Rightarrow> 'a list \<Rightarrow> 'b option" where
  "find_map f [] = None"
| "find_map f (x # xs) = (case f x of Some y \<Rightarrow> Some y | None \<Rightarrow> find_map f xs)"

fun result_text :: "economy_env \<Rightarrow> json \<Rightarrow> string option" where
  "result_text E (JString content) = Some content"
| "result_text E (JObject members) =
     find_map (\<lambda>pointer. Option.bind (ee_ptr E (JObject members) pointer) as_str) result_pointers"
| "result_text E (JArray items) =
     find_map (\<lambda>pointer. Option.bind (ee_ptr E (JArray items) pointer) as_str) result_pointers"
| "result_text E _ = None"

text \<open>The path in the arguments of a tool result.\<close>

definition argument_path :: "economy_env \<Rightarrow> normalized_event \<Rightarrow> string option" where
  "argument_path E e =
     Option.bind (or_else (ee_ptr E (ne_payload e) ''/arguments/path'') (ee_ptr E (ne_payload e) ''/payload/arguments/path'')) as_str"

definition result_ok :: "json \<Rightarrow> bool" where
  "result_ok result \<longleftrightarrow> Option.bind (json_get result ''ok'') as_bool = Some True"

definition results_of_call :: "economy_env \<Rightarrow> string \<Rightarrow> normalized_event list \<Rightarrow> normalized_event list" where
  "results_of_call E call events =
     filter (\<lambda>e. event_call_id E e = Some call) (filter (\<lambda>e. ne_event e = ToolResult) events)"

definition edit_success :: "economy_env \<Rightarrow> normalized_event list \<Rightarrow> bool" where
  "edit_success E results =
     (case results of
        [e] \<Rightarrow> argument_path E e = Some economy_output_path
          \<and> (case event_result E e of Some result \<Rightarrow> result_ok result | None \<Rightarrow> False)
      | _ \<Rightarrow> False)"

definition read_back_digest :: "economy_env \<Rightarrow> normalized_event \<Rightarrow> string option" where
  "read_back_digest E e =
     Option.bind (event_result E e) (\<lambda>result.
       if result_ok result then map_option (\<lambda>content. ee_sha E (utf8_bytes content)) (result_text E result) else None)"

definition verify_effects :: "economy_env \<Rightarrow> normalized_event list \<Rightarrow> economy_run_evidence \<Rightarrow> economy_effects_verified" where
  "verify_effects E events ev =
     (let expected = ee_sha E (utf8_bytes economy_output_content);
          edits = results_of_call E economy_edit_call_id events;
          edit_observations = of_nat (length edits);
          edit_ok = edit_success E edits;
          reads = results_of_call E economy_verify_call_id events;
          digests = List.map_filter (read_back_digest E) reads;
          read_observations = of_nat (length reads);
          path_ok = (case reads of [e] \<Rightarrow> argument_path E e = Some economy_output_path | _ \<Rightarrow> False);
          read_digest = (case digests of [d] \<Rightarrow> Some d | _ \<Rightarrow> None)
      in \<lparr>ev_label = effects_verified_label,
          ev_expected = [\<lparr>xe_path = economy_output_path, xe_content_sha256 = expected,
             xe_edit_call_id = economy_edit_call_id, xe_read_back_call_id = economy_verify_call_id\<rparr>],
          ev_observed = [\<lparr>oe_path = economy_output_path, oe_before_content_sha256 = re_output_before_sha256 ev,
             oe_after_content_sha256 = re_output_after_sha256 ev, oe_edit_observations = edit_observations,
             oe_edit_reported_success = edit_ok, oe_read_back_path_verified = path_ok,
             oe_read_back_content_sha256 = read_digest, oe_read_back_observations = read_observations\<rparr>],
          ev_workspace_receipt_before_sha256 = re_workspace_receipt_before_sha256 ev,
          ev_workspace_receipt_after_sha256 = re_workspace_receipt_after_sha256 ev,
          ev_all_verified = (re_output_before_sha256 ev = None
            \<and> re_output_after_sha256 ev = Some expected
            \<and> edit_observations = (1 :: u64) \<and> edit_ok \<and> read_observations = (1 :: u64) \<and> path_ok
            \<and> read_digest = Some expected
            \<and> re_workspace_receipt_before_sha256 ev \<noteq> [] \<and> re_workspace_receipt_after_sha256 ev \<noteq> []
            \<and> re_workspace_receipt_before_sha256 ev \<noteq> re_workspace_receipt_after_sha256 ev)\<rparr>)"

section \<open>Tool calls and results\<close>

type_synonym route = "string \<times> string \<times> string"

definition record_route :: "model_request_record \<Rightarrow> route" where
  "record_route r = (mr_scenario (rr_request r), mr_actor (rr_request r), mr_checkpoint (rr_request r))"

definition scripted_calls :: "workflow \<Rightarrow> (route, json list) btree" where
  "scripted_calls w = bt_of_list (map (\<lambda>r. ((sr_scenario r, sr_actor r, sr_checkpoint r),
     case Option.bind (json_get (sr_response r) ''tool_calls'') as_array of Some calls \<Rightarrow> calls | None \<Rightarrow> []))
     (wf_responses w))"

text \<open>The first record of every semantic request: \<open>seen.insert(..)\<close> along the list.\<close>

fun first_by :: "('a \<Rightarrow> 'k) \<Rightarrow> 'k list \<Rightarrow> 'a list \<Rightarrow> 'a list" where
  "first_by key seen [] = []"
| "first_by key seen (x # xs) =
     (if key x \<in> set seen then first_by key seen xs else x # first_by key (key x # seen) xs)"

definition semantic_route :: "model_request_record \<Rightarrow> route \<times> u64" where
  "semantic_route r = (record_route r, rr_semantic_ordinal r)"

definition emitted_tool_calls :: "workflow \<Rightarrow> model_request_record list \<Rightarrow> u64" where
  "emitted_tool_calls w records =
     sum_list (map (\<lambda>r. case bt_get (scripted_calls w) (record_route r) of
         Some calls \<Rightarrow> of_nat (length calls) | None \<Rightarrow> 0)
       (first_by semantic_route [] (filter (\<lambda>r. rr_role r = ''primary'' \<and> rr_accepted r) records)))"

definition result_id_fields :: "string list" where
  "result_id_fields = [''tool_call_id'', ''tool_use_id'', ''call_id'', ''id'']"

definition member_str :: "(string \<times> json) list \<Rightarrow> string \<Rightarrow> string option" where
  "member_str members field = Option.bind (bt_get members field) as_str"

definition own_result_id :: "(string \<times> json) list \<Rightarrow> string list" where
  "own_result_id members =
     (if member_str members ''role'' = Some ''tool''
         \<or> member_str members ''type'' \<in> {Some ''tool_result'', Some ''function_call_output''}
      then case find_map (member_str members) result_id_fields of Some i \<Rightarrow> [i] | None \<Rightarrow> []
      else [])"

fun visit_result_ids :: "json \<Rightarrow> string list" where
  "visit_result_ids (JArray items) = concat (map visit_result_ids items)"
| "visit_result_ids (JObject members) =
     own_result_id members @ concat (map (\<lambda>(_, child). visit_result_ids child) members)"
| "visit_result_ids _ = []"

definition tool_result_ids :: "json \<Rightarrow> string list" where
  "tool_result_ids v = bset_of_list (visit_result_ids v)"

definition successful_tool_result_ids :: "economy_env \<Rightarrow> normalized_event list \<Rightarrow> string list" where
  "successful_tool_result_ids E events =
     bset_of_list (List.map_filter (event_call_id E)
       (filter (\<lambda>e. Option.bind (or_else (ee_ptr E (ne_payload e) ''/result/ok'') (ee_ptr E (ne_payload e) ''/payload/result/ok''))
            as_bool = Some True)
         (filter (\<lambda>e. ne_event e = ToolResult) events)))"

definition strip_suffix :: "string \<Rightarrow> string \<Rightarrow> string option" where
  "strip_suffix s suffix = map_option rev (strip_prefix (rev s) (rev suffix))"

definition scripted_call_semantic :: "economy_env \<Rightarrow> json \<Rightarrow> string option" where
  "scripted_call_semantic E call =
     or_else (Option.bind (ee_ptr E call ''/_ahrb_native/semantic'') as_str)
       (Option.bind (Option.bind (json_get call ''name'') as_str) (\<lambda>name. strip_suffix name ''_fixture''))"

definition call_wasted ::
    "economy_env \<Rightarrow> string list \<Rightarrow> model_request_record list \<Rightarrow> model_request_record \<Rightarrow> json \<Rightarrow> bool" where
  "call_wasted E successful records r call =
     (case Option.bind (json_get call ''id'') as_str of
        None \<Rightarrow> False
      | Some call_id \<Rightarrow>
          call_id \<in> set successful
          \<and> scripted_call_semantic E call \<noteq> Some ''write''
          \<and> \<not> list_ex (\<lambda>following. rr_semantic_ordinal r < rr_semantic_ordinal following
                \<and> call_id \<in> set (tool_result_ids (mr_canonical (rr_request following)))) records)"

definition wasted_tool_call_count ::
    "economy_env \<Rightarrow> workflow \<Rightarrow> model_request_record list \<Rightarrow> normalized_event list \<Rightarrow> u64" where
  "wasted_tool_call_count E w records events =
     (let successful = successful_tool_result_ids E events
      in foldl (\<lambda>wasted r.
           case bt_get (scripted_calls w) (record_route r) of
             None \<Rightarrow> wasted
           | Some calls \<Rightarrow> foldl (\<lambda>wasted call. if call_wasted E successful records r call
               then saturating_add wasted 1 else wasted) wasted calls)
         0 (first_by semantic_route [] (filter rr_accepted records)))"

definition retry_attempt_count :: "model_request_record list \<Rightarrow> u64" where
  "retry_attempt_count records =
     (let totals = foldl (\<lambda>m r. let k = semantic_route r in
           case bt_get m k of
             Some largest \<Rightarrow> bt_insert k (max largest (rr_semantic_attempts_total r)) m
           | None \<Rightarrow> bt_insert k (rr_semantic_attempts_total r) m) [] records
      in foldl (\<lambda>total attempts. saturating_add total (saturating_sub attempts 1)) 0 (map snd totals))"

section \<open>Messages\<close>

definition primary_message_value :: "json \<Rightarrow> string \<Rightarrow> json list" where
  "primary_message_value canonical dialect =
     (case (if dialect = ''openai-responses'' then json_get canonical ''input'' else json_get canonical ''messages'') of
        Some (JArray items) \<Rightarrow> items
      | Some JNull \<Rightarrow> []
      | None \<Rightarrow> []
      | Some v \<Rightarrow> [v])"

definition primary_message_array :: "model_request_record \<Rightarrow> json list" where
  "primary_message_array r = primary_message_value (mr_canonical (rr_request r)) (mr_dialect (rr_request r))"

definition canonical_message_blocks :: "json \<Rightarrow> string \<Rightarrow> json list" where
  "canonical_message_blocks canonical dialect =
     concat (map (\<lambda>item. case Option.bind (json_get item ''content'') as_array of
         Some segments \<Rightarrow> segments | None \<Rightarrow> [item]) (primary_message_value canonical dialect))"

definition message_blocks :: "model_request_record \<Rightarrow> json list" where
  "message_blocks r = canonical_message_blocks (mr_canonical (rr_request r)) (mr_dialect (rr_request r))"

definition cache_regime :: "model_request_record list \<Rightarrow> string" where
  "cache_regime records =
     (if records = [] then ''none''
      else if list_all (\<lambda>r. mr_dialect (rr_request r) \<in> {''openai-chat-completions'', ''open-ai-chat-completions'',
          ''openai-responses'', ''open-ai-responses'', ''openai''}) records then ''automatic-prefix''
      else if list_all (\<lambda>r. mr_dialect (rr_request r) \<in> {''anthropic-messages'', ''anthropic''}) records
        then ''explicit-cache-control''
      else ''none'')"

definition cache_eligibility_note :: "string \<Rightarrow> string" where
  "cache_eligibility_note topology =
     topology @ (case topology_family topology of
        Some TP_PerInvocation \<Rightarrow> '' is per-invocation and has no cross-turn server cache; this value describes repeated prefixes serialized within requests only, not realized cache reuse''
      | Some TP_SharedController \<Rightarrow> '' can preserve cross-turn process state, but this value remains a serialized-prefix upper bound, not an observed server-cache hit rate''
      | None \<Rightarrow> '' has unknown cache persistence; this value is a serialized-prefix upper bound, not an observed server-cache hit rate'')"

fun count_named :: "string \<Rightarrow> bool \<Rightarrow> json \<Rightarrow> u64" where
  "count_named field schema_name_map (JArray items) =
     foldl saturating_add 0 (map (count_named field False) items)"
| "count_named field schema_name_map (JObject members) =
     foldl saturating_add 0 (concat (map (\<lambda>(key, item).
       [if \<not> schema_name_map \<and> key = field then 1 else 0,
        count_named field (key \<in> {''properties'', ''$defs''}) item]) members))"
| "count_named field schema_name_map _ = 0"

definition count_named_fields :: "json \<Rightarrow> string \<Rightarrow> u64" where
  "count_named_fields v field = count_named field False v"

section \<open>Prefix, redundancy and overhead\<close>

definition tokens_of :: "economy_env \<Rightarrow> reference_tokenizer \<Rightarrow> nat list \<Rightarrow> ahrb_error + nat list list" where
  "tokens_of E = encode (ee_find_iter E) (ee_utf8_error E)"

definition token_count :: "economy_env \<Rightarrow> reference_tokenizer \<Rightarrow> nat list \<Rightarrow> ahrb_error + u64" where
  "token_count E = count_tokens (ee_find_iter E) (ee_utf8_error E)"

fun token_lcp_len :: "nat list list \<Rightarrow> nat list list \<Rightarrow> nat" where
  "token_lcp_len (x # xs) (y # ys) = (if x = y then Suc (token_lcp_len xs ys) else 0)"
| "token_lcp_len _ _ = 0"

definition preserves_prefix :: "json list \<Rightarrow> json list \<Rightarrow> bool" where
  "preserves_prefix prior current \<longleftrightarrow> length prior \<le> length current \<and> take (length prior) current = prior"

text \<open>The loop keeps the previous messages with their tokens, and the running sums.\<close>

record prefix_scan =
  px_previous :: "(json list \<times> nat list list) option"
  px_eligible :: u64
  px_denominator :: u64
  px_invalidated :: u64
  px_per_turn :: "u64 list"

record cache_prefix =
  cm_eligible_fraction :: f64
  cm_stable_prefix_preserved_fraction :: f64
  cm_cache_bust_count :: u64
  cm_invalidated_prefix_tokens :: u64
  cm_invalidated_prefix_tokens_per_turn :: "u64 list"

definition checked_plus :: "string \<Rightarrow> u64 \<Rightarrow> u64 \<Rightarrow> ahrb_error + u64" where
  "checked_plus message a b = ok_or (checked_add a b) (Protocol message)"

definition scan_prefix :: "economy_env \<Rightarrow> reference_tokenizer \<Rightarrow> prefix_scan \<Rightarrow> model_request_record \<Rightarrow>
    ahrb_error + prefix_scan" where
  "scan_prefix E tokenizer s r =
     (let messages = primary_message_array r in
      and_then (to_vec (ee_ser E) (JArray messages)) (\<lambda>serialized.
      and_then (tokens_of E tokenizer serialized) (\<lambda>current.
      and_then (fits_u64 ''cache token count does not fit u64'' (length current)) (\<lambda>size.
      and_then (checked_plus ''cache denominator overflow'' (px_denominator s) size) (\<lambda>denominator.
      case px_previous s of
        None \<Rightarrow> Inr (s\<lparr>px_previous := Some (messages, current), px_denominator := denominator\<rparr>)
      | Some (prior, prior_tokens) \<Rightarrow>
          and_then (fits_u64 ''cache prefix count does not fit u64'' (token_lcp_len prior_tokens current)) (\<lambda>common.
          and_then (checked_plus ''cache numerator overflow'' (px_eligible s) common) (\<lambda>eligible.
          let prefix = (if preserves_prefix prior messages then length prior_tokens
                else token_lcp_len prior_tokens current) in
          and_then (fits_u64 ''invalidated prefix count does not fit u64'' (length prior_tokens - prefix)) (\<lambda>invalidated.
          and_then (checked_plus ''invalidated prefix token total overflow'' (px_invalidated s) invalidated) (\<lambda>sum.
          Inr \<lparr>px_previous = Some (messages, current), px_eligible = eligible, px_denominator = denominator,
               px_invalidated = sum, px_per_turn = px_per_turn s @ [invalidated]\<rparr>)))))))))"

definition empty_prefix_scan :: prefix_scan where
  "empty_prefix_scan = \<lparr>px_previous = None, px_eligible = 0, px_denominator = 0, px_invalidated = 0, px_per_turn = []\<rparr>"

definition fraction_of :: "u64 \<Rightarrow> u64 \<Rightarrow> f64" where
  "fraction_of a b = (if b = 0 then Fin 0 else f_div (f_of_int (uint a)) (f_of_int (uint b)))"

definition cache_prefix_metrics :: "economy_env \<Rightarrow> reference_tokenizer \<Rightarrow> model_request_record list \<Rightarrow>
    ahrb_error + cache_prefix" where
  "cache_prefix_metrics E tokenizer records =
     and_then (fold_ok (scan_prefix E tokenizer) empty_prefix_scan records) (\<lambda>s.
       let busts = of_nat (length (filter (\<lambda>n. 0 < n) (px_per_turn s)));
           turns = of_nat (length (px_per_turn s))
       in Inr \<lparr>cm_eligible_fraction = fraction_of (px_eligible s) (px_denominator s),
            cm_stable_prefix_preserved_fraction = fraction_of (saturating_sub turns busts) turns,
            cm_cache_bust_count = busts, cm_invalidated_prefix_tokens = px_invalidated s,
            cm_invalidated_prefix_tokens_per_turn = px_per_turn s\<rparr>)"

text \<open>Blocks of one request count as redundant only when an earlier request had them.\<close>

definition scan_redundant :: "economy_env \<Rightarrow> reference_tokenizer \<Rightarrow> nat list list \<times> u64 \<Rightarrow> model_request_record \<Rightarrow>
    ahrb_error + nat list list \<times> u64" where
  "scan_redundant E tokenizer = (\<lambda>(seen, sum) r.
     and_then (collect_ok (to_vec (ee_ser E)) (message_blocks r)) (\<lambda>blocks.
     and_then (fold_ok (\<lambda>sum block.
         if block \<in> set seen
         then and_then (token_count E tokenizer block) (checked_plus ''redundant reference-token total overflow'' sum)
         else Inr sum) sum blocks) (\<lambda>sum.
     Inr (blocks @ seen, sum))))"

definition redundant_tokens :: "economy_env \<Rightarrow> reference_tokenizer \<Rightarrow> model_request_record list \<Rightarrow> ahrb_error + u64" where
  "redundant_tokens E tokenizer records =
     and_then (fold_ok (scan_redundant E tokenizer) ([], 0) records) (\<lambda>(seen, sum). Inr sum)"

definition leading_instruction_messages :: "model_request_record \<Rightarrow> json list" where
  "leading_instruction_messages r =
     (let canonical = mr_canonical (rr_request r); dialect = mr_dialect (rr_request r)
      in if dialect = ''openai-responses'' then
           (case json_get canonical ''instructions'' of Some v \<Rightarrow> if is_null v then [] else [v] | None \<Rightarrow> [])
         else if dialect = ''anthropic-messages'' then
           (case json_get canonical ''system'' of
              Some (JArray items) \<Rightarrow> items | Some v \<Rightarrow> if is_null v then [] else [v] | None \<Rightarrow> [])
         else (case Option.bind (json_get canonical ''messages'') as_array of
              Some messages \<Rightarrow> takeWhile (\<lambda>m. Option.bind (json_get m ''role'') as_str
                \<in> {Some ''system'', Some ''developer''}) messages
            | None \<Rightarrow> []))"

definition common_value_prefix :: "json list list \<Rightarrow> json list" where
  "common_value_prefix sequences =
     (case sequences of
        [] \<Rightarrow> []
      | xs # others \<Rightarrow>
          take (length (takeWhile (\<lambda>i. list_all (\<lambda>ys. nth_opt ys i = nth_opt xs i) others) [0..<length xs])) xs)"

definition request_tools :: "model_request_record \<Rightarrow> json list" where
  "request_tools r = (case Option.bind (json_get (mr_canonical (rr_request r)) ''tools'') as_array of
     Some tools \<Rightarrow> tools | None \<Rightarrow> [])"

definition invariant_instruction_value :: "model_request_record list \<Rightarrow> string \<Rightarrow> json list \<Rightarrow> json" where
  "invariant_instruction_value records field common =
     (case records of
        [] \<Rightarrow> JNull
      | r # _ \<Rightarrow>
          (case json_get (mr_canonical (rr_request r)) field of
             Some (JArray _) \<Rightarrow> JArray common
           | Some v \<Rightarrow> if \<not> is_null v \<and> length common = 1 then v else JNull
           | None \<Rightarrow> JNull))"

definition envelope_object :: "string \<Rightarrow> json \<Rightarrow> json list \<Rightarrow> json" where
  "envelope_object instruction_key instructions tools =
     json_object [(instruction_key, instructions), (''tools'', JArray tools)]"

definition per_turn_fixed_overhead_tokens :: "economy_env \<Rightarrow> reference_tokenizer \<Rightarrow> model_request_record list \<Rightarrow>
    ahrb_error + u64" where
  "per_turn_fixed_overhead_tokens E tokenizer records =
     (case records of
        [] \<Rightarrow> Inr 0
      | r # _ \<Rightarrow>
          let dialect = mr_dialect (rr_request r) in
          if list_ex (\<lambda>other. mr_dialect (rr_request other) \<noteq> dialect) records then Inr 0
          else let instructions = common_value_prefix (map leading_instruction_messages records);
                   tools = common_value_prefix (map request_tools records)
               in if instructions = [] \<and> tools = [] then Inr 0
                  else let key = (if dialect = ''openai-responses'' then ''instructions''
                             else if dialect = ''anthropic-messages'' then ''system'' else ''messages'');
                           v = (if key = ''messages'' then JArray instructions
                             else invariant_instruction_value records key instructions)
                       in and_then (to_vec (ee_ser E) (envelope_object key v tools)) (token_count E tokenizer))"

section \<open>The slope of the context curve\<close>

definition pair_slope :: "u64 list \<Rightarrow> nat \<Rightarrow> nat \<Rightarrow> f64" where
  "pair_slope values left right =
     f_div (f_sub (f_of_int (uint (values ! right))) (f_of_int (uint (values ! left)))) (f_of_int (int (right - left)))"

definition theil_sen_by_index :: "u64 list \<Rightarrow> f64" where
  "theil_sen_by_index values =
     (let slopes = sort_key total_key (concat (map (\<lambda>left. map (pair_slope values left) [left + 1..<length values])
            [0..<length values]));
          n = length slopes
      in if n = 0 then Fin 0
         else if odd n then slopes ! (n div 2)
         else f_div (f_add (slopes ! (n div 2 - 1)) (slopes ! (n div 2))) (Fin 2))"

section \<open>Analysis\<close>

definition reference_tariff_usd_per_million_tokens :: f64 where
  "reference_tariff_usd_per_million_tokens = Fin 10"

definition cache_input_discount :: f64 where
  "cache_input_discount = f_round (9 / 10)"

text \<open>The running values of the first loop of \<open>analyze\<close>.\<close>

record turn_scan =
  tu_total_reference_tokens :: u64
  tu_last_context_size_tokens :: u64
  tu_model_turns :: u64
  tu_seen_tool_results :: "string list"
  tu_tool_result_requests :: u64
  tu_primary_records :: "model_request_record list"
  tu_context_token_curve :: "u64 list"
  tu_retry_reference_tokens :: u64

definition empty_turn_scan :: turn_scan where
  "empty_turn_scan = \<lparr>tu_total_reference_tokens = 0, tu_last_context_size_tokens = 0, tu_model_turns = 0,
     tu_seen_tool_results = [], tu_tool_result_requests = 0, tu_primary_records = [],
     tu_context_token_curve = [], tu_retry_reference_tokens = 0\<rparr>"

definition count_primary :: "model_request_record \<Rightarrow> u64 \<Rightarrow> turn_scan \<Rightarrow> turn_scan" where
  "count_primary r tokens s =
     (let fresh = filter (\<lambda>i. i \<notin> set (tu_seen_tool_results s)) (tool_result_ids (mr_canonical (rr_request r)))
      in s\<lparr>tu_model_turns := saturating_add (tu_model_turns s) 1,
           tu_last_context_size_tokens := max (tu_last_context_size_tokens s) tokens,
           tu_primary_records := tu_primary_records s @ [r],
           tu_context_token_curve := tu_context_token_curve s @ [tokens],
           tu_seen_tool_results := bset_of_list (fresh @ tu_seen_tool_results s),
           tu_tool_result_requests := (if fresh \<noteq> [] then saturating_add (tu_tool_result_requests s) 1
             else tu_tool_result_requests s)\<rparr>)"

definition scan_turn :: "economy_env \<Rightarrow> reference_tokenizer \<Rightarrow> turn_scan \<Rightarrow> model_request_record \<Rightarrow>
    ahrb_error + turn_scan" where
  "scan_turn E tokenizer s r =
     and_then (to_vec (ee_ser E) (mr_canonical (rr_request r))) (\<lambda>body.
     and_then (token_count E tokenizer body) (\<lambda>tokens.
     and_then (checked_plus ''economy reference-token total overflow'' (tu_total_reference_tokens s) tokens) (\<lambda>sum.
     and_then (if 1 < rr_attempt r
         then checked_plus ''economy retry reference-token total overflow'' (tu_retry_reference_tokens s) tokens
         else Inr (tu_retry_reference_tokens s)) (\<lambda>retry.
     let s = s\<lparr>tu_total_reference_tokens := sum, tu_retry_reference_tokens := retry\<rparr>
     in Inr (if rr_role r = ''primary'' then count_primary r tokens s else s)))))"

definition scripted_terminal :: "workflow \<Rightarrow> model_request_record list \<Rightarrow> bool" where
  "scripted_terminal w records \<longleftrightarrow> list_ex (\<lambda>r. rr_role r = ''primary'' \<and> rr_accepted r
     \<and> mr_scenario (rr_request r) = wf_scenario w \<and> mr_checkpoint (rr_request r) = ''terminal'') records"

definition successful_route_repeated :: "model_request_record list \<Rightarrow> bool" where
  "successful_route_repeated records \<longleftrightarrow> list_ex (\<lambda>r. rr_role r = ''primary''
     \<and> 1 < rr_semantic_attempts_total r
     \<and> (case rr_response_status r of Some status \<Rightarrow> 200 \<le> status \<and> status < 300 | None \<Rightarrow> False)) records"

definition completion_of :: "workflow \<Rightarrow> model_request_record list \<Rightarrow> normalized_event list \<Rightarrow> u64 \<Rightarrow> u64 \<Rightarrow> bool \<Rightarrow> bool \<Rightarrow>
    economy_completion" where
  "completion_of w records events turns turn_budget timed_out verified =
     (let finished = scripted_terminal w records
      in if turn_budget < turns \<or> (\<not> finished \<and> turn_budget \<le> turns) then OverBudget
         else if finished \<and> list_ex (\<lambda>e. ne_event e = TerminalSuccess) events
           then (if verified then Completed else TerminalWithoutEffect)
         else if successful_route_repeated records then Looped
         else if timed_out then Stalled
         else if list_ex (\<lambda>e. ne_event e \<in> {TerminalFailure, TerminalCancelled, TerminalTimeout}) events then Aborted
         else Stalled)"

record economy_summary =
  es_schema :: u32
  es_task :: string
  es_profile :: string
  es_turn_budget :: u64
  es_reference_tokenizer :: tokenizer_pin
  es_reference_token_label :: string
  es_model_turns :: u64
  es_total_reference_tokens :: u64
  es_tool_calls :: u64
  es_tool_results :: u64
  es_tool_result_requests :: u64
  es_tool_batching_factor :: f64
  es_last_context_size_tokens :: u64
  es_completion :: economy_completion
  es_completion_label :: string
  es_effects_verified :: economy_effects_verified
  es_reference_tariff_usd_per_million_tokens :: f64
  es_reference_cost_usd :: f64
  es_cost_outcome_label :: string
  es_tokens_per_completed_task :: "u64 option"
  es_cache_eligible_fraction :: f64
  es_cache_eligible_fraction_label :: string
  es_cache_control_breakpoints :: u64
  es_cache_control_breakpoints_per_request :: "u64 list"
  es_cache_control_breakpoints_label :: string
  es_cache_eligibility_note :: string
  es_redundant_tokens :: u64
  es_redundant_tokens_label :: string
  es_context_token_curve :: "u64 list"
  es_context_token_curve_slope :: f64
  es_context_token_curve_label :: string
  es_context_token_curve_last_matches_last_context_size :: bool
  es_per_turn_fixed_overhead_tokens :: u64
  es_per_turn_fixed_overhead_tokens_label :: string
  es_wasted_tool_call_count :: u64
  es_wasted_tool_call_count_label :: string
  es_retry_attempts :: u64
  es_retry_reference_tokens :: u64
  es_retry_label :: string
  es_cache_regime :: string
  es_cache_regime_label :: string
  es_cache_input_discount :: f64
  es_cache_input_discount_label :: string
  es_effective_reference_tokens :: f64
  es_effective_cost_usd :: f64
  es_effective_cost_label :: string
  es_stable_prefix_preserved_fraction :: f64
  es_cache_bust_count :: u64
  es_invalidated_prefix_tokens :: u64
  es_invalidated_prefix_tokens_per_turn :: "u64 list"
  es_prefix_stability_label :: string

definition request_order :: "model_request_record \<Rightarrow> u64 \<times> u64 \<times> u64" where
  "request_order r = (rr_received_ns r, rr_semantic_ordinal r, rr_attempt r)"

definition summarize :: "economy_env \<Rightarrow> workflow \<Rightarrow> model_request_record list \<Rightarrow> normalized_event list \<Rightarrow> string \<Rightarrow>
    u64 \<Rightarrow> string \<Rightarrow> economy_run_evidence \<Rightarrow> reference_tokenizer \<Rightarrow> turn_scan \<Rightarrow> cache_prefix \<Rightarrow> u64 list \<Rightarrow> u64 \<Rightarrow>
    u64 \<Rightarrow> u64 \<Rightarrow> economy_summary" where
  "summarize E w records events profile turn_budget topology ev tokenizer s cache per_request breakpoints redundant overhead =
     (let primary = tu_primary_records s;
          effects = verify_effects E events ev;
          completion = completion_of w records events (tu_model_turns s) turn_budget (re_collector_timed_out ev)
            (ev_all_verified effects);
          tokens = f_of_int (uint (tu_total_reference_tokens s));
          effective = f_mul tokens (f_sub (Fin 1) (f_mul (cm_eligible_fraction cache) cache_input_discount))
      in \<lparr>
        es_schema = 4,
        es_task = ''ahrb-harness-economy-mvp-v1'',
        es_profile = profile,
        es_turn_budget = turn_budget,
        es_reference_tokenizer = rt_pin tokenizer,
        es_reference_token_label = ''reference tokens (o200k_base-style)'',
        es_model_turns = tu_model_turns s,
        es_total_reference_tokens = tu_total_reference_tokens s,
        es_tool_calls = emitted_tool_calls w records,
        es_tool_results = of_nat (length (tu_seen_tool_results s)),
        es_tool_result_requests = tu_tool_result_requests s,
        es_tool_batching_factor = fraction_of (of_nat (length (tu_seen_tool_results s))) (tu_tool_result_requests s),
        es_last_context_size_tokens = tu_last_context_size_tokens s,
        es_completion = completion,
        es_completion_label = ''scripted terminal plus verified scripted workspace effect; not real-task success'',
        es_effects_verified = effects,
        es_reference_tariff_usd_per_million_tokens = reference_tariff_usd_per_million_tokens,
        es_reference_cost_usd = f_div (f_mul tokens reference_tariff_usd_per_million_tokens) (Fin 1000000),
        es_cost_outcome_label = ''run cost; tokens_per_completed_task is available only with a verified scripted workspace effect'',
        es_tokens_per_completed_task = (if completion = Completed then Some (tu_total_reference_tokens s) else None),
        es_cache_eligible_fraction = cm_eligible_fraction cache,
        es_cache_eligible_fraction_label = ''cache-eligible fraction (prefix upper bound)'',
        es_cache_control_breakpoints = breakpoints,
        es_cache_control_breakpoints_per_request = per_request,
        es_cache_control_breakpoints_label = ''harness-declared cache_control occurrences (separate from cache eligibility)'',
        es_cache_eligibility_note = cache_eligibility_note topology,
        es_redundant_tokens = redundant,
        es_redundant_tokens_label = ''redundant reference tokens'',
        es_context_token_curve = tu_context_token_curve s,
        es_context_token_curve_slope = theil_sen_by_index (tu_context_token_curve s),
        es_context_token_curve_label = ''context token curve (reference tokens per primary request)'',
        es_context_token_curve_last_matches_last_context_size = (last (0 # tu_context_token_curve s) = tu_last_context_size_tokens s),
        es_per_turn_fixed_overhead_tokens = overhead,
        es_per_turn_fixed_overhead_tokens_label = ''fixed overhead / turn (reference tokens)'',
        es_wasted_tool_call_count = wasted_tool_call_count E w primary events,
        es_wasted_tool_call_count_label = ''wasted tool calls (deterministic task-proven only)'',
        es_retry_attempts = retry_attempt_count records,
        es_retry_reference_tokens = tu_retry_reference_tokens s,
        es_retry_label = ''physical retries reported separately; retry request tokens remain in MVP totals'',
        es_cache_regime = cache_regime primary,
        es_cache_regime_label = ''provider cache regime; 0 cache_control breakpoints under automatic-prefix is expected, NOT no caching'',
        es_cache_input_discount = cache_input_discount,
        es_cache_input_discount_label = ''STATED assumption: fraction of full input price not paid for a cache-eligible token; NOT a measured provider rate'',
        es_effective_reference_tokens = effective,
        es_effective_cost_usd = f_div (f_mul effective reference_tariff_usd_per_million_tokens) (Fin 1000000),
        es_effective_cost_label = ''effective cost assuming automatic prefix caching of the eligible prefix at 90% input discount; UPPER-BOUND proxy from serialized-prefix reuse, NOT a measured server cache-hit rate'',
        es_stable_prefix_preserved_fraction = cm_stable_prefix_preserved_fraction cache,
        es_cache_bust_count = cm_cache_bust_count cache,
        es_invalidated_prefix_tokens = cm_invalidated_prefix_tokens cache,
        es_invalidated_prefix_tokens_per_turn = cm_invalidated_prefix_tokens_per_turn cache,
        es_prefix_stability_label = ''consecutive primary-request serialized-message-prefix stability (reference-token LCP; ordered invalidation array covers turns N>=2)''\<rparr>)"

definition analyze :: "economy_env \<Rightarrow> workflow \<Rightarrow> model_request_record list \<Rightarrow> normalized_event list \<Rightarrow> string \<Rightarrow>
    u64 \<Rightarrow> string \<Rightarrow> economy_run_evidence \<Rightarrow> ahrb_error + economy_summary" where
  "analyze E w records events profile turn_budget topology ev =
     and_then (load_tokenizer (\<lambda>v. ee_sha E (utf8_bytes v)) (ee_vocabulary E)) (\<lambda>tokenizer.
     and_then (fold_ok (scan_turn E tokenizer) empty_turn_scan (sort_key request_order records)) (\<lambda>s.
     let primary = tu_primary_records s in
     and_then (cache_prefix_metrics E tokenizer primary) (\<lambda>cache.
     let per_request = map (\<lambda>r. count_named_fields (mr_canonical (rr_request r)) ''cache_control'') primary in
     and_then (fold_ok (checked_plus ''cache_control count overflow'') 0 per_request) (\<lambda>breakpoints.
     and_then (redundant_tokens E tokenizer primary) (\<lambda>redundant.
     and_then (per_turn_fixed_overhead_tokens E tokenizer primary) (\<lambda>overhead.
     Inr (summarize E w records events profile turn_budget topology ev tokenizer s cache per_request breakpoints
       redundant overhead)))))))"

end
