(* ===== verification/Economy_Properties.thy ===== *)
theory Economy_Properties
  imports Economy Tokenizer_Properties "HOL-Library.Multiset"
begin

text \<open>
  Properties of the economy analysis: the cache measurements are fractions and see no bust in an
  append-only conversation; a price per completed task is given only for a verified effect within
  the budget; token totals are exact sums.
\<close>

section \<open>Fractions\<close>

lemma checked_plus_Inr: "checked_plus message a b = Inr c \<longleftrightarrow> unat a + unat b < 2 ^ 64 \<and> c = a + b"
  by (auto simp: checked_plus_def checked_add_def)

lemma unat_checked_plus: "checked_plus message a b = Inr c \<Longrightarrow> unat c = unat a + unat b"
  by (simp add: checked_plus_Inr unat_word_ariths)

lemma u64_finite: "0 \<le> i \<Longrightarrow> i \<le> 2 ^ 64 \<Longrightarrow> \<exists>q. f_of_int i = Fin q \<and> 0 \<le> q"
proof -
  assume i: "0 \<le> i" "i \<le> 2 ^ 64"
  have "f_round (of_int 1 * 2 powi 64) = Fin (of_int 1 * 2 powi 64)"
    using max_finite_bound_def by (intro f_round_exact) (auto simp: power_int_def)
  then have "f_of_int (2 ^ 64) = Fin (2 ^ 64)" by (simp add: f_of_int_def power_int_def)
  then have "f_le (f_of_int i) (Fin (2 ^ 64))" using f_of_int_mono [OF i(2)] by simp
  moreover have "f_le (Fin 0) (f_of_int i)" using f_of_int_mono [OF i(1)] by (simp add: f_of_int_def)
  ultimately show ?thesis by (cases "f_of_int i") auto
qed

lemma fraction_bounds: "a \<le> b \<Longrightarrow> f_in (Fin 0) (Fin 1) (fraction_of a b)"
proof (cases "b = 0")
  case False
  assume "a \<le> b"
  then have le: "uint a \<le> uint b" by (simp add: word_le_def)
  from False have "0 < uint b" by (simp add: word_neq_0_conv word_less_def)
  then have "1 \<le> uint b" by simp
  then have "f_le (f_of_int 1) (f_of_int (uint b))" by (rule f_of_int_mono)
  then have one: "f_le (Fin 1) (f_of_int (uint b))" by (simp add: f_of_int_def)
  have bound: "uint w \<le> 2 ^ 64" for w :: u64 using uint_lt2p [of w] by simp
  obtain x where x: "f_of_int (uint a) = Fin x" "0 \<le> x" using u64_finite [OF _ bound] by auto
  obtain y where y: "f_of_int (uint b) = Fin y" "0 \<le> y" using u64_finite [OF _ bound] by auto
  have xy: "x \<le> y" "1 \<le> y" using f_of_int_mono [OF le] one x y by simp_all
  then have "f_le (f_round 0) (f_round (x / y))" "f_le (f_round (x / y)) (f_round 1)"
    using x(2) by (intro f_round_mono; simp)+
  with False xy x y show ?thesis by (simp add: fraction_of_def f_in_def)
qed (simp add: fraction_of_def f_in_def)

section \<open>Cache prefixes\<close>

lemma lcp_le: "token_lcp_len xs ys \<le> length xs" "token_lcp_len xs ys \<le> length ys"
  by (induction xs ys rule: token_lcp_len.induct) auto

definition prefix_ok :: "prefix_scan \<Rightarrow> bool" where
  "prefix_ok s \<longleftrightarrow> px_eligible s \<le> px_denominator s"

text \<open>Each request's messages extend those of the one before.\<close>

fun append_only :: "json list option \<Rightarrow> model_request_record list \<Rightarrow> bool" where
  "append_only prior [] = True"
| "append_only prior (r # rs) =
     ((case prior of None \<Rightarrow> True | Some ms \<Rightarrow> preserves_prefix ms (primary_message_array r))
      \<and> append_only (Some (primary_message_array r)) rs)"

lemma scan_prefix_step:
  assumes "scan_prefix E tokenizer s r = Inr s'" "prefix_ok s"
  shows "prefix_ok s' \<and> map_option fst (px_previous s') = Some (primary_message_array r)
    \<and> (append_only (map_option fst (px_previous s)) [r] \<longrightarrow> set (px_per_turn s') \<subseteq> insert 0 (set (px_per_turn s))
        \<and> px_invalidated s' = px_invalidated s)"
proof -
  obtain current size denominator where cur: "length current < 2 ^ 64" "size = of_nat (length current)"
    "checked_plus ''cache denominator overflow'' (px_denominator s) size = Inr denominator"
    "px_denominator s' = denominator" "map_option fst (px_previous s') = Some (primary_message_array r)"
    and cases: "px_previous s = None \<and> px_eligible s' = px_eligible s \<and> px_per_turn s' = px_per_turn s
        \<and> px_invalidated s' = px_invalidated s
      \<or> (\<exists>prior prior_tokens common invalidated. px_previous s = Some (prior, prior_tokens)
        \<and> common = of_nat (token_lcp_len prior_tokens current)
        \<and> checked_plus ''cache numerator overflow'' (px_eligible s) common = Inr (px_eligible s')
        \<and> invalidated = of_nat (length prior_tokens - (if preserves_prefix prior (primary_message_array r)
              then length prior_tokens else token_lcp_len prior_tokens current))
        \<and> checked_plus ''invalidated prefix token total overflow'' (px_invalidated s) invalidated = Inr (px_invalidated s')
        \<and> px_per_turn s' = px_per_turn s @ [invalidated])"
  proof (cases "px_previous s")
    case None
    with assms(1) obtain current denominator where "length current < 2 ^ 64"
      "checked_plus ''cache denominator overflow'' (px_denominator s) (of_nat (length current)) = Inr denominator"
      "s' = s\<lparr>px_previous := Some (primary_message_array r, current), px_denominator := denominator\<rparr>"
      by (auto simp: scan_prefix_def Let_def and_then_Inr_iff fits_u64_Inr)
    with None show ?thesis by (intro that) auto
  next
    case (Some previous)
    obtain prior prior_tokens where previous: "previous = (prior, prior_tokens)" by (cases previous)
    with Some assms(1) obtain current denominator eligible sum where "length current < 2 ^ 64"
      "checked_plus ''cache denominator overflow'' (px_denominator s) (of_nat (length current)) = Inr denominator"
      and next': "checked_plus ''cache numerator overflow'' (px_eligible s)
        (of_nat (token_lcp_len prior_tokens current)) = Inr eligible"
      "checked_plus ''invalidated prefix token total overflow'' (px_invalidated s)
        (of_nat (length prior_tokens - (if preserves_prefix prior (primary_message_array r)
              then length prior_tokens else token_lcp_len prior_tokens current))) = Inr sum"
      "s' = \<lparr>px_previous = Some (primary_message_array r, current), px_eligible = eligible,
         px_denominator = denominator, px_invalidated = sum, px_per_turn = px_per_turn s @
           [of_nat (length prior_tokens - (if preserves_prefix prior (primary_message_array r)
              then length prior_tokens else token_lcp_len prior_tokens current))]\<rparr>"
      by (simp only: scan_prefix_def Let_def and_then_Inr_iff fits_u64_Inr option.case prod.case) blast
    with Some previous show ?thesis by (intro that [of current _ denominator]) auto
  qed
  have size: "unat size = length current" using cur(1,2) by (simp add: unat_of_nat take_bit_nat_eq_self)
  note den = unat_checked_plus [OF cur(3)]
  from cases show ?thesis
  proof (elim disjE exE conjE)
    assume "px_eligible s' = px_eligible s" "px_per_turn s' = px_per_turn s" "px_invalidated s' = px_invalidated s"
    then show ?thesis using den cur assms(2) by (auto simp: prefix_ok_def word_le_nat_alt)
  next
    fix prior prior_tokens common invalidated
    assume step: "px_previous s = Some (prior, prior_tokens)" "common = of_nat (token_lcp_len prior_tokens current)"
      "checked_plus ''cache numerator overflow'' (px_eligible s) common = Inr (px_eligible s')"
      "invalidated = of_nat (length prior_tokens - (if preserves_prefix prior (primary_message_array r)
              then length prior_tokens else token_lcp_len prior_tokens current))"
      "checked_plus ''invalidated prefix token total overflow'' (px_invalidated s) invalidated = Inr (px_invalidated s')"
      "px_per_turn s' = px_per_turn s @ [invalidated]"
    have "unat common \<le> unat size"
      using lcp_le(2) [of prior_tokens current] cur(1) by (simp add: step(2) size unat_of_nat take_bit_nat_eq_self)
    then have "prefix_ok s'"
      using den unat_checked_plus [OF step(3)] assms(2) cur(4) by (simp add: prefix_ok_def word_le_nat_alt)
    then show ?thesis using step cur(5) by (auto simp: checked_plus_Inr)
  qed
qed

lemma scan_prefixes:
  assumes "fold_ok (scan_prefix E tokenizer) s records = Inr s'" "prefix_ok s"
  shows "prefix_ok s' \<and> (append_only (map_option fst (px_previous s)) records \<longrightarrow>
      set (px_per_turn s') \<subseteq> insert 0 (set (px_per_turn s)) \<and> px_invalidated s' = px_invalidated s)"
  using assms
proof (induction records arbitrary: s)
  case (Cons r records)
  then obtain s1 where s1: "scan_prefix E tokenizer s r = Inr s1" "fold_ok (scan_prefix E tokenizer) s1 records = Inr s'"
    by (auto simp: and_then_Inr_iff)
  note step = scan_prefix_step [OF s1(1) Cons.prems(2)]
  with Cons.IH [OF s1(2)] show ?case by (auto split: option.splits)
qed auto

text \<open>Whenever the cache measurements of a run succeed, the eligible fraction and the stable fraction lie
  between 0 and 1 in floating point, and for a conversation that only appends messages there is no
  cache bust and no invalidated token, whatever the tokenizer does to the new suffix.\<close>

theorem cache_metrics_bounded:
  assumes "cache_prefix_metrics E tokenizer records = Inr c"
  shows "f_in (Fin 0) (Fin 1) (cm_eligible_fraction c) \<and> f_in (Fin 0) (Fin 1) (cm_stable_prefix_preserved_fraction c)
    \<and> (append_only None records \<longrightarrow> cm_cache_bust_count c = 0 \<and> cm_invalidated_prefix_tokens c = 0)"
proof -
  obtain s where s: "fold_ok (scan_prefix E tokenizer) empty_prefix_scan records = Inr s"
    and c: "c = (let busts = of_nat (length (filter (\<lambda>n. 0 < n) (px_per_turn s)));
           turns = of_nat (length (px_per_turn s))
       in \<lparr>cm_eligible_fraction = fraction_of (px_eligible s) (px_denominator s),
            cm_stable_prefix_preserved_fraction = fraction_of (saturating_sub turns busts) turns,
            cm_cache_bust_count = busts, cm_invalidated_prefix_tokens = px_invalidated s,
            cm_invalidated_prefix_tokens_per_turn = px_per_turn s\<rparr>)"
    using assms by (auto simp: cache_prefix_metrics_def and_then_Inr_iff Let_def)
  have start: "prefix_ok empty_prefix_scan" by (simp add: prefix_ok_def empty_prefix_scan_def)
  note facts = scan_prefixes [OF s start]
  have "saturating_sub a b \<le> a" for a b by (simp add: word_le_nat_alt unat_saturating_sub)
  then have "f_in (Fin 0) (Fin 1) (cm_stable_prefix_preserved_fraction c)"
    unfolding c Let_def by (simp add: fraction_bounds)
  moreover have "f_in (Fin 0) (Fin 1) (cm_eligible_fraction c)"
    using facts fraction_bounds by (simp add: c Let_def prefix_ok_def)
  moreover have "cm_cache_bust_count c = 0 \<and> cm_invalidated_prefix_tokens c = 0" if "append_only None records"
  proof -
    have "set (px_per_turn s) \<subseteq> {0}" "px_invalidated s = 0" using facts that by (auto simp: empty_prefix_scan_def)
    moreover from this(1) have "filter (\<lambda>n. 0 < n) (px_per_turn s) = []" by (auto simp: filter_empty_conv)
    ultimately show ?thesis by (simp add: c Let_def)
  qed
  ultimately show ?thesis by blast
qed

section \<open>Completion\<close>

text \<open>The scripted effect landed: the only edit and the only read-back of the output file report success
  on its path, and the file, absent before, has the expected content.\<close>

definition effect_landed :: "economy_env \<Rightarrow> normalized_event list \<Rightarrow> economy_run_evidence \<Rightarrow> bool" where
  "effect_landed E events ev \<longleftrightarrow>
     (\<exists>edit edited reread result content.
        results_of_call E economy_edit_call_id events = [edit]
      \<and> argument_path E edit = Some economy_output_path
      \<and> event_result E edit = Some edited \<and> result_ok edited
      \<and> results_of_call E economy_verify_call_id events = [reread]
      \<and> argument_path E reread = Some economy_output_path
      \<and> event_result E reread = Some result \<and> result_ok result \<and> result_text E result = Some content
      \<and> ee_sha E (utf8_bytes content) = ee_sha E (utf8_bytes economy_output_content))
    \<and> re_output_before_sha256 ev = None
    \<and> re_output_after_sha256 ev = Some (ee_sha E (utf8_bytes economy_output_content))
    \<and> re_workspace_receipt_before_sha256 ev \<noteq> [] \<and> re_workspace_receipt_after_sha256 ev \<noteq> []
    \<and> re_workspace_receipt_before_sha256 ev \<noteq> re_workspace_receipt_after_sha256 ev"

lemma edit_success_iff: "edit_success E edits \<longleftrightarrow>
    (\<exists>e result. edits = [e] \<and> argument_path E e = Some economy_output_path \<and> event_result E e = Some result \<and> result_ok result)"
  by (auto simp: edit_success_def split: list.splits option.splits)

lemma read_back_digest_iff: "read_back_digest E e = Some d \<longleftrightarrow>
    (\<exists>result content. event_result E e = Some result \<and> result_ok result \<and> result_text E result = Some content
      \<and> d = ee_sha E (utf8_bytes content))"
  by (auto simp: read_back_digest_def bind_eq_Some_conv)

lemma single_digest: "(case List.map_filter f [e] of [d] \<Rightarrow> Some d | _ \<Rightarrow> None) = f e"
  by (cases "f e") (simp_all add: List.map_filter_def)

lemma effects_verified_iff: "ev_all_verified (verify_effects E events ev) \<longleftrightarrow> effect_landed E events ev"
proof (cases "\<exists>edit reread. results_of_call E economy_edit_call_id events = [edit]
    \<and> results_of_call E economy_verify_call_id events = [reread]")
  case True
  then obtain edit reread where one: "results_of_call E economy_edit_call_id events = [edit]"
    "results_of_call E economy_verify_call_id events = [reread]" by blast
  show ?thesis
    unfolding verify_effects_def effect_landed_def Let_def one single_digest
    by (auto simp: edit_success_iff read_back_digest_iff)
next
  case False
  then have "edit_success E (results_of_call E economy_edit_call_id events) \<Longrightarrow>
      (case results_of_call E economy_verify_call_id events of [e] \<Rightarrow> argument_path E e = Some economy_output_path | _ \<Rightarrow> False)
      \<Longrightarrow> False"
    by (auto simp: edit_success_iff split: list.splits)
  with False show ?thesis by (auto simp: verify_effects_def effect_landed_def Let_def)
qed

lemma completion_Completed: "completion_of w records events turns budget timed_out verified = Completed \<longleftrightarrow>
    turns \<le> budget \<and> scripted_terminal w records \<and> (\<exists>e \<in> set events. ne_event e = TerminalSuccess) \<and> verified"
  by (auto simp: completion_of_def Let_def list_ex_iff not_less split: if_splits)

text \<open>The reference tokens of one request body.\<close>

definition body_tokens :: "economy_env \<Rightarrow> reference_tokenizer \<Rightarrow> model_request_record \<Rightarrow> nat" where
  "body_tokens E tokenizer r =
     (case and_then (to_vec (ee_ser E) (mr_canonical (rr_request r))) (token_count E tokenizer) of
        Inr n \<Rightarrow> unat n | Inl _ \<Rightarrow> 0)"

lemma scan_turn_total:
  "scan_turn E tokenizer s r = Inr s' \<Longrightarrow>
    unat (tu_total_reference_tokens s') = unat (tu_total_reference_tokens s) + body_tokens E tokenizer r"
  by (auto simp: scan_turn_def and_then_Inr_iff Let_def body_tokens_def count_primary_def unat_checked_plus)

lemma scan_turns_total:
  "fold_ok (scan_turn E tokenizer) s records = Inr s' \<Longrightarrow>
    unat (tu_total_reference_tokens s') = unat (tu_total_reference_tokens s) + sum_list (map (body_tokens E tokenizer) records)"
  by (induction records arbitrary: s) (auto simp: and_then_Inr_iff dest!: scan_turn_total)

lemma sum_list_sort_key: "sum_list (map f (sort_key k xs)) = (sum_list (map f xs) :: nat)"
proof -
  have "mset (map f (sort_key k xs)) = mset (map f xs)" by simp
  then show ?thesis by (metis sum_mset_sum_list)
qed

text \<open>C4: an analysis prices a completed task exactly when the run stayed within its turn budget, reached the
  scripted terminal, reported success and the scripted effect landed (one edit, one read-back, the expected
  content in a file that was absent before), and the price is the exact sum of the reference tokens of
  all request bodies.\<close>

theorem price_of_completed_task:
  assumes "analyze E w records events profile budget topology ev = Inr es"
  shows "(es_tokens_per_completed_task es \<noteq> None \<longleftrightarrow>
      es_model_turns es \<le> budget \<and> scripted_terminal w records
      \<and> (\<exists>e \<in> set events. ne_event e = TerminalSuccess) \<and> effect_landed E events ev)
    \<and> (\<exists>tokenizer. load_tokenizer (\<lambda>v. ee_sha E (utf8_bytes v)) (ee_vocabulary E) = Inr tokenizer
      \<and> unat (es_total_reference_tokens es) = sum_list (map (body_tokens E tokenizer) records)
      \<and> (\<forall>n. es_tokens_per_completed_task es = Some n \<longrightarrow> n = es_total_reference_tokens es))"
proof -
  obtain tokenizer s cache per_request breakpoints redundant overhead where
    load: "load_tokenizer (\<lambda>v. ee_sha E (utf8_bytes v)) (ee_vocabulary E) = Inr tokenizer"
    and scan: "fold_ok (scan_turn E tokenizer) empty_turn_scan (sort_key request_order records) = Inr s"
    and es: "es = summarize E w records events profile budget topology ev tokenizer s cache per_request breakpoints
      redundant overhead"
    using assms unfolding analyze_def Let_def and_then_Inr_iff by blast
  have total: "unat (tu_total_reference_tokens s) = sum_list (map (body_tokens E tokenizer) records)"
    using scan_turns_total [OF scan] by (simp add: empty_turn_scan_def sum_list_sort_key)
  show ?thesis
    by (simp add: es summarize_def Let_def load total completion_Completed effects_verified_iff)
qed

section \<open>An analysis of one request\<close>

text \<open>Every body is one byte, the digest is the text itself and the pattern matches the whole text.\<close>

definition sample_env :: economy_env where
  "sample_env = \<lparr>ee_ser = (\<lambda>_. Inr [112]), ee_ptr = (\<lambda>v pointer. if pointer = ''/arguments/path''
       then Option.bind (json_get v ''arguments'') (\<lambda>a. json_get a ''path'')
       else if pointer = ''/content'' then json_get v ''content'' else None), ee_sha = map (\<lambda>b. char_of b),
     ee_find_iter = (\<lambda>bytes. [(0, length bytes)]), ee_utf8_error = (\<lambda>_. []), ee_vocabulary = []\<rparr>"

definition sample_reference_tokenizer :: reference_tokenizer where
  "sample_reference_tokenizer = \<lparr>rt_ranks = base_ranks, rt_pin = \<lparr>tp_encoding = ''o200k_base-style'',
     tp_version = reference_tokenizer_version, tp_vocabulary_sha256 = [], tp_vocabulary_entries = 256\<rparr>\<rparr>"

definition sample_request :: model_request_record where
  "sample_request = \<lparr>rr_request = \<lparr>mr_dialect = ''openai-chat-completions'', mr_endpoint = ''/v1/chat/completions'',
       mr_model = ''m'', mr_scenario = ''economy'', mr_actor = ''lead'', mr_checkpoint = ''terminal'',
       mr_canonical = JObject [], mr_credential_fingerprint = [], mr_stream = False\<rparr>,
     rr_canonical_hash = [], rr_attempts = 1, rr_accepted = True, rr_semantic_ordinal = 1, rr_attempt = 1,
     rr_received_ns = 5, rr_body_bytes = 1, rr_input_tokens = None, rr_role = ''primary'',
     rr_side_channel_kind = None, rr_response_status = Some 200, rr_response_headers_ns = None,
     rr_response_first_frame_yield_ns = None, rr_response_last_frame_yield_ns = None,
     rr_semantic_attempts_total = 1\<rparr>"

definition sample_workflow :: workflow where
  "sample_workflow = \<lparr>wf_version = 1, wf_scenario = ''economy'', wf_actors = [], wf_barriers = [], wf_responses = []\<rparr>"

definition sample_result :: "string \<Rightarrow> normalized_event" where
  "sample_result call = \<lparr>ne_id = call, ne_cursor = 0, ne_session_id = [], ne_actor = ''lead'', ne_event = ToolResult,
     ne_payload = JObject [(''arguments'', JObject [(''path'', JString economy_output_path)]), (''call_id'', JString call),
       (''result'', JObject [(''content'', JString economy_output_content), (''ok'', JBool True)])]\<rparr>"

definition sample_events :: "normalized_event list" where
  "sample_events = [sample_result economy_edit_call_id, sample_result economy_verify_call_id,
     \<lparr>ne_id = [], ne_cursor = 2, ne_session_id = [], ne_actor = ''lead'', ne_event = TerminalSuccess, ne_payload = JNull\<rparr>]"

definition sample_evidence :: economy_run_evidence where
  "sample_evidence = \<lparr>re_collector_timed_out = False, re_workspace_receipt_before_sha256 = ''a'',
     re_workspace_receipt_after_sha256 = ''b'', re_output_before_sha256 = None,
     re_output_after_sha256 = Some (ee_sha sample_env (utf8_bytes economy_output_content))\<rparr>"

lemma sample_tokenizer_load:
  "load_tokenizer (\<lambda>v. ee_sha sample_env (utf8_bytes v)) (ee_vocabulary sample_env) = Inr sample_reference_tokenizer"
proof -
  have "text_lines [] = []" by code_simp
  moreover have "utf8_bytes [] = []" by code_simp
  ultimately show ?thesis
    by (simp add: load_tokenizer_def sample_env_def sample_reference_tokenizer_def base_ranks_def)
qed

lemma sample_tokens: "tokens_of sample_env sample_reference_tokenizer [112] = Inr [[112]]"
proof -
  have "utf8_valid [112]" by code_simp
  moreover have "bt_contains base_ranks [112]" using base_ranks_contain by simp
  ultimately show ?thesis
    by (simp add: tokens_of_def encode_def sample_env_def sample_reference_tokenizer_def piece_slice_def encode_piece_def)
qed

lemma sample_to_vec: "to_vec (ee_ser sample_env) v = Inr [112]"
  by (simp add: to_vec_def sample_env_def)

lemma sample_count: "token_count sample_env sample_reference_tokenizer [112] = Inr 1"
  using sample_tokens by (simp add: token_count_def tokens_of_def count_tokens_def fits_u64_def)

lemma sample_cache: "\<exists>c. cache_prefix_metrics sample_env sample_reference_tokenizer [sample_request, sample_request] = Inr c"
  by (simp add: cache_prefix_metrics_def scan_prefix_def sample_to_vec sample_tokens Let_def fits_u64_def
      checked_plus_def checked_add_def ok_or_def empty_prefix_scan_def)

theorem cache_metrics_bounded_witness:
  "\<exists>c. cache_prefix_metrics sample_env sample_reference_tokenizer [sample_request, sample_request] = Inr c
    \<and> f_in (Fin 0) (Fin 1) (cm_eligible_fraction c) \<and> cm_cache_bust_count c = 0"
proof -
  obtain c where c: "cache_prefix_metrics sample_env sample_reference_tokenizer [sample_request, sample_request] = Inr c"
    using sample_cache by blast
  have "append_only None [sample_request, sample_request]" by (simp add: preserves_prefix_def)
  with cache_metrics_bounded [OF c] c show ?thesis by blast
qed

lemma sample_results:
  "event_call_id sample_env (sample_result call) = Some call"
  "argument_path sample_env (sample_result call) = Some economy_output_path"
  "event_result sample_env (sample_result call) =
     Some (JObject [(''content'', JString economy_output_content), (''ok'', JBool True)])"
  "ne_event (sample_result call) = ToolResult"
  by (simp_all add: event_call_id_def argument_path_def event_result_def sample_result_def sample_env_def)

lemma sample_text: "result_text sample_env
    (JObject [(''content'', JString economy_output_content), (''ok'', JBool True)]) = Some economy_output_content"
  by (simp add: result_pointers_def sample_env_def)

lemma sample_turn: "scan_turn sample_env sample_reference_tokenizer empty_turn_scan sample_request =
    Inr (count_primary sample_request 1 (empty_turn_scan\<lparr>tu_total_reference_tokens := 1\<rparr>))"
  by (simp add: scan_turn_def sample_to_vec sample_count checked_plus_def checked_add_def ok_or_def empty_turn_scan_def
      sample_request_def)

lemma sample_analysis: "\<exists>es. analyze sample_env sample_workflow [sample_request] sample_events ''smoke'' 3 ''per-invocation''
    sample_evidence = Inr es \<and> es_model_turns es = 1 \<and> es_total_reference_tokens es = 1"
proof -
  define s where "s = count_primary sample_request 1 (empty_turn_scan\<lparr>tu_total_reference_tokens := 1\<rparr>)"
  have s: "tu_primary_records s = [sample_request]" "tu_model_turns s = 1" "tu_total_reference_tokens s = 1"
    by (simp_all add: s_def count_primary_def Let_def empty_turn_scan_def saturating_add_def)
  have "\<exists>c. cache_prefix_metrics sample_env sample_reference_tokenizer [sample_request] = Inr c"
    by (simp add: cache_prefix_metrics_def scan_prefix_def sample_to_vec sample_tokens Let_def fits_u64_def
        checked_plus_def checked_add_def ok_or_def empty_prefix_scan_def)
  then obtain c where c: "cache_prefix_metrics sample_env sample_reference_tokenizer [sample_request] = Inr c" by blast
  have breakpoints: "fold_ok (checked_plus ''cache_control count overflow'') 0
      (map (\<lambda>r. count_named_fields (mr_canonical (rr_request r)) ''cache_control'') [sample_request]) = Inr 0"
    by (simp add: sample_request_def count_named_fields_def checked_plus_def checked_add_def ok_or_def)
  have redundant: "redundant_tokens sample_env sample_reference_tokenizer [sample_request] = Inr 0"
    by (simp add: redundant_tokens_def scan_redundant_def message_blocks_def canonical_message_blocks_def
        primary_message_value_def sample_request_def)
  have overhead: "per_turn_fixed_overhead_tokens sample_env sample_reference_tokenizer [sample_request] = Inr 0"
    by (simp add: per_turn_fixed_overhead_tokens_def sample_request_def leading_instruction_messages_def
        request_tools_def common_value_prefix_def Let_def)
  show ?thesis
    by (simp add: analyze_def sample_tokenizer_load sample_turn s_def [symmetric] s Let_def c overhead redundant
        breakpoints [simplified] summarize_def)
qed

theorem price_of_completed_task_witness:
  "\<exists>es. analyze sample_env sample_workflow [sample_request] sample_events ''smoke'' 3 ''per-invocation''
    sample_evidence = Inr es \<and> es_tokens_per_completed_task es = Some 1"
proof -
  obtain es where es: "analyze sample_env sample_workflow [sample_request] sample_events ''smoke'' 3 ''per-invocation''
      sample_evidence = Inr es" "es_model_turns es = 1" "es_total_reference_tokens es = 1"
    using sample_analysis by blast
  have "economy_edit_call_id \<noteq> economy_verify_call_id" by code_simp
  then have "results_of_call sample_env economy_edit_call_id sample_events = [sample_result economy_edit_call_id]"
    "results_of_call sample_env economy_verify_call_id sample_events = [sample_result economy_verify_call_id]"
    by (simp_all add: results_of_call_def sample_events_def sample_results)
  then have "effect_landed sample_env sample_events sample_evidence"
    by (simp add: effect_landed_def sample_results sample_evidence_def result_ok_def sample_text
        del: result_text.simps)
  moreover have "scripted_terminal sample_workflow [sample_request]"
    by (simp add: scripted_terminal_def sample_request_def sample_workflow_def)
  moreover have "\<exists>e \<in> set sample_events. ne_event e = TerminalSuccess" by (simp add: sample_events_def)
  ultimately show ?thesis using price_of_completed_task [OF es(1)] es by auto
qed

end
