(* ===== verification/Retention.thy ===== *)
theory Retention
  imports Economy Accounting Outcomes Economy_Properties
begin

text \<open>
  \<open>src/src/storage/retention.rs\<close>: which bytes of the recorded model requests a harness keeps on disk.
  Files are searched for the request bodies and their blocks, bytes that were there before the run
  are excluded, and what remains is counted once per file.  The records are those of
  \<open>src/src/storage/evidence.rs\<close>.  A byte is a natural number below 256.  The environment bundles the
  parameters: files, JSON, SHA-256 as hexadecimal text, and the recapture of the inventory.
\<close>

section \<open>Data\<close>

datatype retention_class = RetainedNone | Deduplicated | Full

datatype coverage = CompleteCoverage | RepresentationLimited | Partial | CaptureError

record retention_summary =
  rs_request_retention_class :: "retention_class option"
  rs_stored_request_bytes :: "u64 option"
  rs_unique_request_content_bytes :: "u64 option"
  rs_stored_unique_ratio :: "f64 option"

definition default_retention :: retention_summary where
  "default_retention = \<lparr>rs_request_retention_class = None, rs_stored_request_bytes = None,
     rs_unique_request_content_bytes = None, rs_stored_unique_ratio = None\<rparr>"

record body_blob =
  bb_semantic_ordinal :: u64
  bb_attempt :: u64
  bb_role :: string
  bb_raw_sha256 :: string
  bb_canonical_sha256 :: string
  bb_path :: string

record baseline_exclusion =
  be_path :: string
  be_offset_bytes :: u64
  be_length_bytes :: u64
  be_sha256 :: string

record retention_diagnostics =
  rg_coverage :: coverage
  rg_body_blobs :: "body_blob list"
  rg_baseline_exclusions :: "baseline_exclusion list"
  rg_match_refs :: "u64 list"

record body_match =
  bm_repetition :: u32
  bm_representation :: string
  bm_request_sha256 :: "string option"
  bm_block_sha256 :: "string option"
  bm_path :: string
  bm_device_id :: u64
  bm_inode_or_file_id :: u64
  bm_offset_bytes :: u64
  bm_length_bytes :: u64
  bm_excluded_baseline :: bool

record evidence_ref =
  xr_file :: string
  xr_sha256 :: string
  xr_first_record :: "u64 option"
  xr_last_record :: "u64 option"

record ('s, 'd) trial =
  tr_repetition :: u32
  tr_outcome :: test_outcome
  tr_measurement_complete :: bool
  tr_reason :: "string option"
  tr_summary :: 's
  tr_diagnostics :: 'd
  tr_evidence_refs :: "evidence_ref list"

record needle =
  nd_bytes :: "nat list"
  nd_representation :: string
  nd_request :: "string option"
  nd_block :: "string option"

record retention_env =
  rx_mapping :: "ahrb_error + string"
  rx_parse :: "string \<Rightarrow> string + json"
  rx_read :: "string \<Rightarrow> ahrb_error + nat list"
  rx_read_verified :: "file_entry \<Rightarrow> ahrb_error + nat list"
  rx_recapture :: "ahrb_error + inventory"
  rx_digest :: "nat list \<Rightarrow> string"
  rx_ser :: serializer
  rx_dbg :: "string list \<Rightarrow> string"

section \<open>Ranges\<close>

text \<open>A range is a start and a length.  The loop keeps the total and the end of what it has covered.\<close>

definition range_overflow :: ahrb_error where
  "range_overflow = Protocol ''S8 range overflow''"

definition union_step :: "u64 \<times> u64 \<Rightarrow> u64 \<times> u64 \<Rightarrow> ahrb_error + u64 \<times> u64" where
  "union_step = (\<lambda>(sum, covered) (start, length).
     and_then (ok_or (checked_add start length) range_overflow) (\<lambda>finish.
     and_then (ok_or (checked_add sum (saturating_sub finish (max covered start))) (Protocol ''S8 union overflow''))
       (\<lambda>sum. Inr (sum, max covered finish))))"

definition union_length :: "(u64 \<times> u64) list \<Rightarrow> ahrb_error + u64" where
  "union_length ranges = and_then (fold_ok union_step (0, 0) (sort ranges)) (\<lambda>(sum, covered). Inr sum)"

text \<open>The maximal runs of positions at which both contents agree; \<open>start\<close> is where an open run began.\<close>

fun unchanged_from :: "nat \<Rightarrow> nat option \<Rightarrow> nat list \<Rightarrow> nat list \<Rightarrow> (u64 \<times> u64) list" where
  "unchanged_from i start (b # before) (a # after) =
     (if b = a then unchanged_from (i + 1) (Some (case start of Some s \<Rightarrow> s | None \<Rightarrow> i)) before after
      else (case start of Some s \<Rightarrow> [(of_nat s, of_nat (i - s))] | None \<Rightarrow> [])
        @ unchanged_from (i + 1) None before after)"
| "unchanged_from i start _ _ = (case start of Some s \<Rightarrow> [(of_nat s, of_nat (i - s))] | None \<Rightarrow> [])"

definition unchanged_ranges :: "nat list \<Rightarrow> nat list \<Rightarrow> (u64 \<times> u64) list" where
  "unchanged_ranges before after = unchanged_from 0 None before after"

section \<open>Classification\<close>

definition classify_retention :: "u64 \<Rightarrow> u64 \<Rightarrow> bool \<Rightarrow> bool \<Rightarrow> bool \<Rightarrow>
    retention_summary \<times> coverage \<times> string option" where
  "classify_retention stored unique all_bodies all_blocks limited =
     (let (class, coverage, reason) =
        (if all_bodies then (Some Full, if limited then RepresentationLimited else CompleteCoverage, None)
         else if limited then (None, RepresentationLimited,
           Some ''representation-limited: non-text bytes without a verified lossless decoder'')
         else if all_blocks \<and> 0 < unique \<and> stored \<le> unique then (Some Deduplicated, CompleteCoverage, None)
         else if stored = 0 then (Some RetainedNone, CompleteCoverage, None)
         else (None, Partial, Some ''partial-retention-unclassified''))
      in (\<lparr>rs_request_retention_class = class, rs_stored_request_bytes = Some stored,
            rs_unique_request_content_bytes = Some unique,
            rs_stored_unique_ratio = (if 0 < unique
              then Some (f_div (f_of_int (uint stored)) (f_of_int (uint unique))) else None)\<rparr>,
          coverage, reason))"

section \<open>Searching a file\<close>

text \<open>The positions of a byte, as the index over the first bytes of the needles holds them.\<close>

definition positions_of :: "nat list \<Rightarrow> nat \<Rightarrow> nat list" where
  "positions_of bytes byte = filter (\<lambda>i. bytes ! i = byte) [0..<length bytes]"

definition in_excluded :: "(u64 \<times> u64) list \<Rightarrow> u64 \<Rightarrow> bool" where
  "in_excluded excluded x \<longleftrightarrow> list_ex (\<lambda>(s, n). s \<le> x \<and> x < s + n) excluded"

definition clamp :: "u64 \<Rightarrow> u64 \<Rightarrow> u64 \<Rightarrow> u64" where
  "clamp x lo hi = (if x < lo then lo else if hi < x then hi else x)"

definition cut_points :: "(u64 \<times> u64) list \<Rightarrow> u64 \<Rightarrow> u64 \<Rightarrow> u64 list" where
  "cut_points excluded start len =
     remdups_adj (sort ([start, start + len]
       @ concat (map (\<lambda>(s, n). [clamp s start (start + len), clamp (s + n) start (start + len)]) excluded)))"

definition windows2 :: "'a list \<Rightarrow> ('a \<times> 'a) list" where
  "windows2 xs = zip xs (tl xs)"

text \<open>The fragments of an excluded match that lie outside the excluded ranges.\<close>

definition fragments_of :: "(u64 \<times> u64) list \<Rightarrow> body_match \<Rightarrow> body_match list" where
  "fragments_of excluded receipt =
     map (\<lambda>(a, b). receipt\<lparr>bm_offset_bytes := a, bm_length_bytes := b - a, bm_excluded_baseline := False,
         bm_representation := bm_representation receipt @ ''-fragment''\<rparr>)
       (filter (\<lambda>(a, b). \<not> in_excluded excluded a)
         (windows2 (cut_points excluded (bm_offset_bytes receipt) (bm_length_bytes receipt))))"

definition match_receipt :: "u32 \<Rightarrow> file_entry \<Rightarrow> (u64 \<times> u64) list \<Rightarrow> needle \<Rightarrow> nat \<Rightarrow> body_match" where
  "match_receipt repetition entry excluded needle offset =
     (let start = of_nat offset; length = of_nat (length (nd_bytes needle))
      in \<lparr>bm_repetition = repetition, bm_representation = nd_representation needle,
          bm_request_sha256 = nd_request needle, bm_block_sha256 = nd_block needle,
          bm_path = fe_path entry, bm_device_id = fe_device_id entry,
          bm_inode_or_file_id = fe_inode_or_file_id entry, bm_offset_bytes = start, bm_length_bytes = length,
          bm_excluded_baseline = list_ex (\<lambda>(s, n). start < s + n \<and> s < start + length) excluded\<rparr>)"

definition matches_at :: "u32 \<Rightarrow> file_entry \<Rightarrow> nat list \<Rightarrow> (u64 \<times> u64) list \<Rightarrow> needle \<Rightarrow> nat \<Rightarrow> body_match list" where
  "matches_at repetition entry bytes excluded needle offset =
     (if slice bytes offset (offset + length (nd_bytes needle)) = Some (nd_bytes needle)
      then let receipt = match_receipt repetition entry excluded needle offset
           in receipt # (if bm_excluded_baseline receipt then fragments_of excluded receipt else [])
      else [])"

definition scan_file :: "u32 \<Rightarrow> file_entry \<Rightarrow> nat list \<Rightarrow> (u64 \<times> u64) list \<Rightarrow> needle list \<Rightarrow> body_match list" where
  "scan_file repetition entry bytes excluded needles =
     concat (map (\<lambda>needle. concat (map (matches_at repetition entry bytes excluded needle)
         (positions_of bytes (hd (nd_bytes needle)))))
       (filter (\<lambda>needle. nd_bytes needle \<noteq> []) needles))"

section \<open>Collection\<close>

definition capture_error :: "string \<Rightarrow> ahrb_error" where
  "capture_error problem = Protocol (''S8 capture-error: '' @ problem)"

record request_bodies =
  rb_needles :: "needle list"
  rb_blocks :: "(string, nat list) btree"
  rb_requests :: "string list"
  rb_blobs :: "body_blob list"

definition no_bodies :: request_bodies where
  "no_bodies = \<lparr>rb_needles = [], rb_blocks = [], rb_requests = [], rb_blobs = []\<rparr>"

definition receipt_hash :: "json list \<Rightarrow> model_request_record \<Rightarrow> ahrb_error + string" where
  "receipt_hash receipts r =
     (case filter (\<lambda>receipt. Option.bind (json_get receipt ''received_ns'') as_u64 = Some (rr_received_ns r)) receipts of
        [receipt] \<Rightarrow>
          and_then (ok_or (Option.bind (json_get receipt ''raw_sha256'') as_str) (capture_error ''missing hash'')) (\<lambda>hash.
          and_then (guard (length (utf8_bytes hash) = 64 \<and> list_all ascii_hexdigit hash) (capture_error ''invalid digest''))
            (\<lambda>_. Inr hash))
      | _ \<Rightarrow> Inl (capture_error ''ambiguous/missing request mapping''))"

definition add_block :: "retention_env \<Rightarrow> (string, nat list) btree \<Rightarrow> json \<Rightarrow> ahrb_error + (string, nat list) btree" where
  "add_block E blocks block =
     and_then (to_vec (rx_ser E) block) (\<lambda>bytes. Inr (bt_insert (rx_digest E bytes) bytes blocks))"

definition add_record :: "retention_env \<Rightarrow> json list \<Rightarrow> request_bodies \<Rightarrow> model_request_record \<Rightarrow>
    ahrb_error + request_bodies" where
  "add_record E receipts b r =
     and_then (receipt_hash receipts r) (\<lambda>hash.
     let path = ''request-bodies/'' @ hash @ ''.bin'' in
     and_then (rx_read E path) (\<lambda>raw.
     and_then (guard (rx_digest E raw = hash \<and> of_nat (length raw) = rr_body_bytes r)
         (capture_error ''truncated/changed request body'')) (\<lambda>_.
     and_then (to_vec (rx_ser E) (mr_canonical (rr_request r))) (\<lambda>canonical.
     and_then (fold_ok (add_block E) (rb_blocks b) (message_blocks r)) (\<lambda>blocks.
     Inr \<lparr>rb_needles = rb_needles b
            @ [\<lparr>nd_bytes = raw, nd_representation = ''raw-body'', nd_request = Some hash, nd_block = None\<rparr>,
               \<lparr>nd_bytes = canonical, nd_representation = ''canonical-body'', nd_request = Some hash, nd_block = None\<rparr>],
          rb_blocks = blocks, rb_requests = bs_insert hash (rb_requests b),
          rb_blobs = rb_blobs b @ [\<lparr>bb_semantic_ordinal = rr_semantic_ordinal r, bb_attempt = rr_attempt r,
            bb_role = rr_role r, bb_raw_sha256 = hash, bb_canonical_sha256 = rx_digest E canonical, bb_path = path\<rparr>]\<rparr>)))))"

definition block_needle :: "string \<times> nat list \<Rightarrow> needle" where
  "block_needle = (\<lambda>(hash, bytes). \<lparr>nd_bytes = bytes, nd_representation = ''canonical-block'', nd_request = None,
     nd_block = Some hash\<rparr>)"

definition needle_key :: "retention_env \<Rightarrow> needle \<Rightarrow> string \<times> string option \<times> string option \<times> string" where
  "needle_key E n = (nd_representation n, nd_request n, nd_block n, rx_digest E (nd_bytes n))"

definition all_needles :: "retention_env \<Rightarrow> request_bodies \<Rightarrow> needle list" where
  "all_needles E b = first_by (needle_key E) [] (rb_needles b @ map block_needle (rb_blocks b))"

definition repetition_receipts :: "retention_env \<Rightarrow> u32 \<Rightarrow> ahrb_error + json list" where
  "repetition_receipts E repetition =
     and_then (rx_mapping E) (\<lambda>mapping.
     and_then (collect_ok (\<lambda>line. case rx_parse E line of Inl e \<Rightarrow> Inl (Json e) | Inr v \<Rightarrow> Inr v) (text_lines mapping))
       (\<lambda>receipts. Inr (filter (\<lambda>r. Option.bind (json_get r ''repetition'') as_u64 = Some (ucast repetition)) receipts)))"

definition baseline_bytes :: "retention_env \<Rightarrow> inventory \<Rightarrow> ahrb_error + (string, nat list) btree" where
  "baseline_bytes E iv =
     and_then (collect_ok (\<lambda>e. and_then (rx_read_verified E e) (\<lambda>bytes. Inr (fe_path e, bytes)))
         (filter is_regular (inv_entries iv)))
       (\<lambda>contents. Inr (bt_of_list contents))"

section \<open>The content audit\<close>

text \<open>What the audit has gathered; it is kept when the audit fails.\<close>

record audit_state =
  au_matches :: "body_match list"
  au_exclusions :: "baseline_exclusion list"
  au_limited :: bool

definition excluded_ranges :: "inventory \<Rightarrow> (string, nat list) btree \<Rightarrow> string list \<Rightarrow> file_entry \<Rightarrow> nat list \<Rightarrow>
    (u64 \<times> u64) list" where
  "excluded_ranges baseline content fixture_paths entry bytes =
     (if fe_path entry \<in> set fixture_paths then [(0, of_nat (length bytes))]
      else if list_ex (\<lambda>b. fe_path b = fe_path entry \<and> fe_device_id b = fe_device_id entry
          \<and> fe_inode_or_file_id b = fe_inode_or_file_id entry) (inv_entries baseline)
      then (case bt_get content (fe_path entry) of Some b \<Rightarrow> unchanged_ranges b bytes | None \<Rightarrow> [])
      else [])"

definition exclusion_receipts :: "retention_env \<Rightarrow> file_entry \<Rightarrow> nat list \<Rightarrow> (u64 \<times> u64) list \<Rightarrow> baseline_exclusion list" where
  "exclusion_receipts E entry bytes excluded =
     map (\<lambda>(s, n). \<lparr>be_path = fe_path entry, be_offset_bytes = s, be_length_bytes = n,
         be_sha256 = rx_digest E (take (unat n) (drop (unat s) bytes))\<rparr>)
       (filter (\<lambda>(s, n). 0 < n) excluded)"

definition audit_entry :: "retention_env \<Rightarrow> u32 \<Rightarrow> inventory \<Rightarrow> (string, nat list) btree \<Rightarrow> string list \<Rightarrow> needle list \<Rightarrow>
    audit_state \<Rightarrow> file_entry \<Rightarrow> audit_state \<times> ahrb_error option" where
  "audit_entry E repetition baseline content fixture_paths needles s entry =
     (case rx_read_verified E entry of
        Inl e \<Rightarrow> (s, Some e)
      | Inr bytes \<Rightarrow>
          let excluded = excluded_ranges baseline content fixture_paths entry bytes;
              s = s\<lparr>au_exclusions := au_exclusions s @ exclusion_receipts E entry bytes excluded\<rparr>
          in (case union_length excluded of
                Inl e \<Rightarrow> (s, Some e)
              | Inr covered \<Rightarrow>
                  (s\<lparr>au_limited := (au_limited s
                       \<or> (covered < of_nat (length bytes) \<and> (\<not> utf8_valid bytes \<or> 0 \<in> set bytes))),
                     au_matches := au_matches s @ scan_file repetition entry bytes excluded needles\<rparr>, None)))"

fun audit_entries :: "('s \<Rightarrow> 'a \<Rightarrow> 's \<times> 'e option) \<Rightarrow> 's \<Rightarrow> 'a list \<Rightarrow> 's \<times> 'e option" where
  "audit_entries f s [] = (s, None)"
| "audit_entries f s (x # xs) = (case f s x of (s, None) \<Rightarrow> audit_entries f s xs | (s, Some e) \<Rightarrow> (s, Some e))"

definition audit :: "retention_env \<Rightarrow> u32 \<Rightarrow> inventory \<Rightarrow> (string, nat list) btree \<Rightarrow> inventory \<Rightarrow> string list \<Rightarrow>
    needle list \<Rightarrow> audit_state \<times> ahrb_error option" where
  "audit E repetition baseline content final_inventory fixture_paths needles =
     (case audit_entries (audit_entry E repetition baseline content fixture_paths needles)
          \<lparr>au_matches = [], au_exclusions = [], au_limited = False\<rparr> (filter is_regular (inv_entries final_inventory)) of
        (s, Some e) \<Rightarrow> (s, Some e)
      | (s, None) \<Rightarrow>
          (case rx_recapture E of
             Inl e \<Rightarrow> (s, Some e)
           | Inr current \<Rightarrow> (s, if current \<noteq> final_inventory
               then Some (Protocol ''S8 changed root during content scan'') else None)))"

section \<open>The result\<close>

definition is_fragment :: "body_match \<Rightarrow> bool" where
  "is_fragment m \<longleftrightarrow> strip_suffix (bm_representation m) ''-fragment'' \<noteq> None"

definition push_range :: "(u64 \<times> u64, (u64 \<times> u64) list) btree \<Rightarrow> body_match \<Rightarrow> (u64 \<times> u64, (u64 \<times> u64) list) btree" where
  "push_range ranges m =
     (let key = (bm_device_id m, bm_inode_or_file_id m)
      in bt_insert key ((case bt_get ranges key of Some r \<Rightarrow> r | None \<Rightarrow> [])
           @ [(bm_offset_bytes m, bm_length_bytes m)]) ranges)"

definition stored_bytes :: "body_match list \<Rightarrow> u64 option" where
  "stored_bytes counted =
     foldl (\<lambda>sum r. Option.bind sum (\<lambda>n. Option.bind (ok (union_length r)) (checked_add n))) (Some 0)
       (map snd (foldl push_range [] counted))"

definition found_requests :: "body_match list \<Rightarrow> string list" where
  "found_requests counted = bset_of_list (List.map_filter (\<lambda>m. if is_fragment m then None else bm_request_sha256 m) counted)"

definition found_blocks :: "body_match list \<Rightarrow> string list" where
  "found_blocks counted = bset_of_list (List.map_filter (\<lambda>m. if is_fragment m then None else bm_block_sha256 m) counted)"

definition unique_bytes :: "(string, nat list) btree \<Rightarrow> u64 option" where
  "unique_bytes blocks = foldl (\<lambda>sum b. Option.bind sum (\<lambda>n. checked_add n (of_nat (length b)))) (Some 0) (map snd blocks)"

definition audit_failed :: "retention_env \<Rightarrow> u32 \<Rightarrow> request_bodies \<Rightarrow> audit_state \<Rightarrow> ahrb_error \<Rightarrow>
    (retention_summary, retention_diagnostics) trial" where
  "audit_failed E repetition bodies s error =
     (let reason = ''S8 incomplete content audit: '' @ display_error (rx_dbg E) error
      in \<lparr>tr_repetition = repetition, tr_outcome = Error reason, tr_measurement_complete = False, tr_reason = Some reason,
          tr_summary = default_retention,
          tr_diagnostics = \<lparr>rg_coverage = CaptureError, rg_body_blobs = rb_blobs bodies,
            rg_baseline_exclusions = au_exclusions s, rg_match_refs = []\<rparr>,
          tr_evidence_refs = []\<rparr>)"

definition retention_trial :: "u32 \<Rightarrow> request_bodies \<Rightarrow> u64 \<Rightarrow> audit_state \<Rightarrow> ahrb_error +
    (retention_summary, retention_diagnostics) trial" where
  "retention_trial repetition bodies unique s =
     (let counted = filter (\<lambda>m. \<not> bm_excluded_baseline m) (au_matches s) in
      and_then (ok_or (stored_bytes counted) (Protocol ''S8 stored byte overflow'')) (\<lambda>stored.
      let (summary, coverage, reason) = classify_retention stored unique
            (list_all (\<lambda>h. h \<in> set (found_requests counted)) (rb_requests bodies))
            (rb_blocks bodies \<noteq> [] \<and> list_all (\<lambda>(h, _). h \<in> set (found_blocks counted)) (rb_blocks bodies))
            (au_limited s)
      in Inr \<lparr>tr_repetition = repetition, tr_outcome = (case reason of None \<Rightarrow> Pass | Some r \<Rightarrow> Unsupported r),
           tr_measurement_complete = True, tr_reason = reason, tr_summary = summary,
           tr_diagnostics = \<lparr>rg_coverage = coverage, rg_body_blobs = rb_blobs bodies,
             rg_baseline_exclusions = au_exclusions s, rg_match_refs = []\<rparr>,
           tr_evidence_refs = []\<rparr>))"

definition collect_retention :: "retention_env \<Rightarrow> u32 \<Rightarrow> inventory \<Rightarrow> (string, nat list) btree \<Rightarrow> inventory \<Rightarrow> string list \<Rightarrow>
    model_request_record list \<Rightarrow> ahrb_error + (retention_summary, retention_diagnostics) trial \<times> body_match list" where
  "collect_retention E repetition baseline content final_inventory fixture_paths records =
     and_then (repetition_receipts E repetition) (\<lambda>receipts.
     and_then (guard (records \<noteq> [] \<and> length receipts = length records)
         (capture_error ''missing physical request body capture'')) (\<lambda>_.
     and_then (fold_ok (add_record E receipts) no_bodies records) (\<lambda>bodies.
     and_then (ok_or (unique_bytes (rb_blocks bodies)) (Protocol ''S8 unique byte overflow'')) (\<lambda>unique.
     case audit E repetition baseline content final_inventory fixture_paths (all_needles E bodies) of
       (s, Some error) \<Rightarrow> Inr (audit_failed E repetition bodies s error, au_matches s)
     | (s, None) \<Rightarrow>
         and_then (retention_trial repetition bodies unique s) (\<lambda>trial. Inr (trial, au_matches s))))))"

definition sum_summaries :: "(retention_summary \<Rightarrow> u64 option) \<Rightarrow> (retention_summary, retention_diagnostics) trial list \<Rightarrow>
    u64 option" where
  "sum_summaries f trials =
     foldl (\<lambda>sum t. Option.bind sum (\<lambda>n. Option.bind (f (tr_summary t)) (checked_add n))) (Some 0) trials"

definition aggregate_retention :: "(retention_summary, retention_diagnostics) trial list \<Rightarrow> ahrb_error + retention_summary" where
  "aggregate_retention trials =
     (case trials of
        [] \<Rightarrow> Inr default_retention
      | t # _ \<Rightarrow>
          if list_ex (\<lambda>t. \<not> tr_measurement_complete t) trials then Inr default_retention
          else and_then (ok_or (sum_summaries rs_stored_request_bytes trials)
              (Protocol ''S8 missing/overflow stored total'')) (\<lambda>stored.
            and_then (ok_or (sum_summaries rs_unique_request_content_bytes trials)
              (Protocol ''S8 missing/overflow unique total'')) (\<lambda>unique.
            Inr \<lparr>rs_request_retention_class =
                (case rs_request_retention_class (tr_summary t) of
                   None \<Rightarrow> None
                 | Some c \<Rightarrow> if list_all (\<lambda>t. rs_request_retention_class (tr_summary t) = Some c) trials
                     then Some c else None),
              rs_stored_request_bytes = Some stored, rs_unique_request_content_bytes = Some unique,
              rs_stored_unique_ratio = (if 0 < unique
                then Some (f_div (f_of_int (uint stored)) (f_of_int (uint unique))) else None)\<rparr>)))"

section \<open>Properties\<close>

text \<open>
  The union of ranges is their exact measure, so the stored bytes of a trial count every byte of every
  file once; a trial of class \<open>Full\<close> rests on complete occurrences of the bodies that were not on
  disk before the run.
\<close>

section \<open>The measure of a union\<close>

definition range_bytes :: "u64 \<times> u64 \<Rightarrow> nat set" where
  "range_bytes = (\<lambda>(start, len). {unat start ..< unat start + unat len})"

definition union_bytes :: "(u64 \<times> u64) list \<Rightarrow> nat set" where
  "union_bytes ranges = \<Union> (range_bytes ` set ranges)"

definition overflows :: "u64 \<times> u64 \<Rightarrow> bool" where
  "overflows = (\<lambda>(start, len). 2 ^ 64 \<le> unat start + unat len)"

text \<open>What the loop knows: the total is the measure of what it has seen, which ends at \<open>covered\<close> and
  reaches from some start below the coming ones up to there.\<close>

definition swept :: "nat set \<Rightarrow> nat \<Rightarrow> u64 \<Rightarrow> u64 \<Rightarrow> bool" where
  "swept U lower tally covered \<longleftrightarrow>
     U \<subseteq> {..<unat covered} \<and> {lower ..< unat covered} \<subseteq> U \<and> unat tally = card U"

lemma swept_step:
  assumes "swept U lower tally covered" "lower \<le> unat start" "unat start + unat len < 2 ^ 64"
  shows "union_step (tally, covered) (start, len) =
      Inr (tally + saturating_sub (start + len) (max covered start), max covered (start + len))
    \<and> swept (U \<union> range_bytes (start, len)) (unat start)
      (tally + saturating_sub (start + len) (max covered start)) (max covered (start + len))"
proof -
  let ?finish = "start + len" and ?from = "max covered start"
  let ?new = "{unat ?from ..< unat ?finish}"
  note U = assms(1) [unfolded swept_def]
  have fin: "finite U" using U finite_subset by blast
  have finish: "unat ?finish = unat start + unat len" using assms(3) by (simp add: unat_word_ariths)
  have max_unat: "unat (max a b) = max (unat a) (unat b)" for a b :: u64
    by (auto simp: max_def word_le_nat_alt)
  have "U \<union> range_bytes (start, len) = U \<union> ?new"
    using U assms(2) by (auto simp: range_bytes_def finish max_unat)
  moreover have "U \<inter> ?new = {}" using U by (auto simp: max_unat)
  ultimately have card: "card (U \<union> range_bytes (start, len)) = unat tally + unat (saturating_sub ?finish ?from)"
    using U fin by (simp add: card_Un_disjoint unat_saturating_sub)
  have "U \<union> range_bytes (start, len) \<subseteq> {..<unat (max covered ?finish)}"
    using U by (auto simp: range_bytes_def finish max_unat)
  note sub = this card_mono [OF _ this]
  then have fits: "unat tally + unat (saturating_sub ?finish ?from) < 2 ^ 64"
    using card order.strict_trans1 [OF _ unsigned_less, of _ "max covered ?finish"] by simp
  then have sum: "unat (tally + saturating_sub ?finish ?from) = unat tally + unat (saturating_sub ?finish ?from)"
    by (simp add: unat_word_ariths)
  have "{unat start ..< unat (max covered ?finish)} \<subseteq> U \<union> range_bytes (start, len)"
    using U assms(2) by (auto simp: range_bytes_def finish max_unat)
  with sub(1) card sum assms(3) fits show ?thesis
    by (auto simp: union_step_def checked_add_def ok_or_def swept_def)
qed

lemma union_fold:
  assumes "swept U lower tally covered" "sorted ranges" "\<forall>r \<in> set ranges. lower \<le> unat (fst r)"
  shows "case fold_ok union_step (tally, covered) ranges of
      Inl e \<Rightarrow> e = range_overflow \<and> list_ex overflows ranges
    | Inr (n, finish) \<Rightarrow> unat n = card (U \<union> union_bytes ranges) \<and> \<not> list_ex overflows ranges"
  using assms
proof (induction ranges arbitrary: U lower tally covered)
  case Nil
  then show ?case by (simp add: union_bytes_def swept_def)
next
  case (Cons r ranges)
  obtain start len where r: "r = (start, len)" by force
  show ?case
  proof (cases "unat start + unat len < 2 ^ 64")
    case False
    then have "union_step (tally, covered) r = Inl range_overflow"
      by (simp add: r union_step_def checked_add_def ok_or_def)
    with False show ?thesis by (simp add: r overflows_def)
  next
    case True
    note step = swept_step [OF Cons.prems(1) _ True]
    have "lower \<le> unat start" using Cons.prems(3) by (simp add: r)
    note step = step [OF this]
    have "\<forall>r' \<in> set ranges. unat start \<le> unat (fst r')"
      using Cons.prems(2) by (auto simp: r word_le_nat_alt less_eq_prod_def word_less_nat_alt)
    note IH = Cons.IH [OF conjunct2 [OF step] _ this]
    have bytes: "U \<union> union_bytes (r # ranges) = U \<union> range_bytes (start, len) \<union> union_bytes ranges"
      by (auto simp: union_bytes_def r)
    have over: "list_ex overflows (r # ranges) = list_ex overflows ranges" using True by (simp add: r overflows_def)
    have first: "fold_ok union_step (tally, covered) (r # ranges) =
        fold_ok union_step (tally + saturating_sub (start + len) (max covered start), max covered (start + len)) ranges"
      using step by (simp add: r)
    have "sorted ranges" using Cons.prems(2) by simp
    from IH [OF this] show ?thesis unfolding bytes over first .
  qed
qed

lemma union_length_Inr: "union_length ranges = Inr n \<Longrightarrow> unat n = card (union_bytes ranges) \<and> \<not> list_ex overflows ranges"
  and union_length_Inl: "union_length ranges = Inl e \<Longrightarrow> e = range_overflow \<and> list_ex overflows ranges"
proof -
  have "swept {} 0 0 0" by (simp add: swept_def)
  note union_fold [OF this sorted_sort, of ranges]
  then show "union_length ranges = Inr n \<Longrightarrow> unat n = card (union_bytes ranges) \<and> \<not> list_ex overflows ranges"
    "union_length ranges = Inl e \<Longrightarrow> e = range_overflow \<and> list_ex overflows ranges"
    by (auto simp: union_length_def union_bytes_def list_ex_iff split: sum.splits)
qed

text \<open>the union of ranges is an error exactly when some range ends beyond the last 64-bit number, and
  otherwise the exact number of bytes that lie in some range, however the ranges overlap and in whatever
  order they come; the second overflow check never fires.\<close>

theorem union_length_counts_bytes:
  "case union_length ranges of
     Inl e \<Rightarrow> e = range_overflow \<and> list_ex overflows ranges
   | Inr n \<Rightarrow> unat n = card (union_bytes ranges) \<and> \<not> list_ex overflows ranges"
  using union_length_Inr [of ranges] union_length_Inl [of ranges] by (simp split: sum.split)

section \<open>Stored bytes\<close>

definition file_key :: "body_match \<Rightarrow> u64 \<times> u64" where
  "file_key m = (bm_device_id m, bm_inode_or_file_id m)"

definition match_range :: "body_match \<Rightarrow> u64 \<times> u64" where
  "match_range m = (bm_offset_bytes m, bm_length_bytes m)"

text \<open>The bytes on disk that some counted match covers: a file and a position in it.\<close>

definition stored_positions :: "body_match list \<Rightarrow> ((u64 \<times> u64) \<times> nat) set" where
  "stored_positions counted = {(k, i). \<exists>m \<in> set counted. k = file_key m \<and> i \<in> range_bytes (match_range m)}"

definition ranges_of :: "body_match list \<Rightarrow> u64 \<times> u64 \<Rightarrow> (u64 \<times> u64) list" where
  "ranges_of counted k = map match_range (filter (\<lambda>m. file_key m = k) counted)"

lemma get_push_range: "bt_get (push_range ranges m) k =
    (if k = file_key m then Some ((case bt_get ranges k of Some r \<Rightarrow> r | None \<Rightarrow> []) @ [match_range m]) else bt_get ranges k)"
  by (simp add: push_range_def Let_def bt_get_insert file_key_def match_range_def)

lemma get_push_ranges:
  "bt_get (foldl push_range [] counted) k = (if ranges_of counted k = [] then None else Some (ranges_of counted k))"
  by (induction counted arbitrary: k rule: rev_induct) (auto simp: ranges_of_def get_push_range)

lemma push_ranges_wf: "bt_wf (foldl push_range [] counted)"
  by (induction counted rule: rev_induct) (simp_all add: push_range_def Let_def bt_wf_insert bt.invar_empty)

lemma sum_unions:
  "foldl (\<lambda>tally r. Option.bind tally (\<lambda>n. Option.bind (ok (union_length r)) (checked_add n))) (Some a) rs = Some n \<Longrightarrow>
    unat n = unat a + sum_list (map (card \<circ> union_bytes) rs)"
proof (induction rs arbitrary: a)
  case (Cons r rs)
  have none: "foldl (\<lambda>tally r. Option.bind tally (\<lambda>n. Option.bind (ok (union_length r)) (checked_add n))) None rs = None" for rs
    by (induction rs) simp_all
  with Cons.prems obtain l b where l: "union_length r = Inr l" and b: "checked_add a l = Some b"
    by (cases "union_length r"; cases "checked_add a (projr (union_length r))") auto
  with Cons.prems have "unat n = unat b + sum_list (map (card \<circ> union_bytes) rs)" by (intro Cons.IH) simp
  with checked_add_Some [OF b] union_length_Inr [OF l] show ?case by (simp add: comp_def)
qed simp

lemma finite_union_bytes: "finite (union_bytes r)"
  by (auto simp: union_bytes_def range_bytes_def)

lemma stored_bytes_positions: "stored_bytes counted = Some n \<Longrightarrow> unat n = card (stored_positions counted)"
proof -
  let ?m = "foldl push_range [] counted"
  have dist: "distinct (map fst ?m)" using push_ranges_wf by (rule bt.keys_distinct)
  have entry: "(k, r) \<in> set ?m \<Longrightarrow> r = ranges_of counted k" for k r
    using dist get_push_ranges [of counted k] by (simp add: bt_get_eq_map_of split: if_splits)
  have keys: "set (map fst ?m) = file_key ` set counted"
    unfolding keys_bt_get get_push_ranges by (force simp: ranges_of_def filter_empty_conv image_iff split: if_splits)
  assume "stored_bytes counted = Some n"
  then have "unat n = sum_list (map (card \<circ> union_bytes) (map snd ?m))"
    unfolding stored_bytes_def by (auto dest: sum_unions)
  also have "map (card \<circ> union_bytes) (map snd ?m) = map (\<lambda>k. card (union_bytes (ranges_of counted k))) (map fst ?m)"
    using entry by auto
  also have "sum_list \<dots> = (\<Sum>k \<in> file_key ` set counted. card (union_bytes (ranges_of counted k)))"
    using dist keys by (simp add: sum_list_distinct_conv_sum_set del: map_map)
  also have "\<dots> = card (SIGMA k : file_key ` set counted. union_bytes (ranges_of counted k))"
    by (simp add: finite_union_bytes)
  also have "(SIGMA k : file_key ` set counted. union_bytes (ranges_of counted k)) = stored_positions counted"
    by (auto simp: stored_positions_def union_bytes_def ranges_of_def) metis
  finally show ?thesis .
qed

section \<open>Evidence of full retention\<close>

text \<open>The captured body of a request, and a complete occurrence of a body in a file that touches no byte of
  the baseline.\<close>

definition captured_body :: "retention_env \<Rightarrow> model_request_record \<Rightarrow> string \<Rightarrow> nat list \<Rightarrow> bool" where
  "captured_body E r h raw \<longleftrightarrow>
     rx_read E (''request-bodies/'' @ h @ ''.bin'') = Inr raw \<and> rx_digest E raw = h
     \<and> of_nat (length raw) = rr_body_bytes r"

definition occurs_new :: "retention_env \<Rightarrow> inventory \<Rightarrow> (string, nat list) btree \<Rightarrow> string list \<Rightarrow> file_entry \<Rightarrow>
    nat list \<Rightarrow> bool" where
  "occurs_new E baseline content fixture_paths e body \<longleftrightarrow>
     (\<exists>bytes i. rx_read_verified E e = Inr bytes \<and> body \<noteq> [] \<and> slice bytes i (i + length body) = Some body
       \<and> \<not> list_ex (\<lambda>(s, n). of_nat i < s + n \<and> s < of_nat i + of_nat (length body))
           (excluded_ranges baseline content fixture_paths e bytes))"

lemma strip_suffix_append: "strip_suffix (x @ y) y = Some x"
proof -
  have "strip_prefix (p @ q) p = Some q" for p q :: string by (simp add: strip_prefix_def starts_with_iff)
  then show ?thesis by (simp add: strip_suffix_def)
qed

lemma fragments_are_fragments: "m \<in> set (fragments_of excluded receipt) \<Longrightarrow> is_fragment m"
  by (auto simp: fragments_of_def is_fragment_def strip_suffix_append)

lemma scan_file_complete:
  assumes "m \<in> set (scan_file repetition e bytes excluded needles)" "\<not> bm_excluded_baseline m" "\<not> is_fragment m"
  shows "\<exists>n \<in> set needles. \<exists>i. nd_bytes n \<noteq> [] \<and> slice bytes i (i + length (nd_bytes n)) = Some (nd_bytes n)
    \<and> bm_request_sha256 m = nd_request n
    \<and> \<not> list_ex (\<lambda>(s, l). of_nat i < s + l \<and> s < of_nat i + of_nat (length (nd_bytes n))) excluded"
proof -
  from assms(1) obtain n i where n: "n \<in> set needles" "nd_bytes n \<noteq> []"
    and m: "m \<in> set (matches_at repetition e bytes excluded n i)"
    by (auto simp: scan_file_def)
  from m assms(2,3) have "m = match_receipt repetition e excluded n i"
    and found: "slice bytes i (i + length (nd_bytes n)) = Some (nd_bytes n)"
    by (auto simp: matches_at_def Let_def dest: fragments_are_fragments split: if_splits)
  with assms(2) n show ?thesis by (auto simp: match_receipt_def Let_def intro!: bexI [of _ n] exI [of _ i])
qed

lemma audit_entries_matches:
  assumes "audit_entries (audit_entry E repetition baseline content fixture_paths needles) s entries = (s', None)"
    "m \<in> set (au_matches s')"
  shows "m \<in> set (au_matches s) \<or> (\<exists>e \<in> set entries. \<exists>bytes. rx_read_verified E e = Inr bytes
    \<and> m \<in> set (scan_file repetition e bytes (excluded_ranges baseline content fixture_paths e bytes) needles))"
  using assms
proof (induction entries arbitrary: s)
  case (Cons e entries)
  obtain s1 where s1: "audit_entry E repetition baseline content fixture_paths needles s e = (s1, None)"
    "audit_entries (audit_entry E repetition baseline content fixture_paths needles) s1 entries = (s', None)"
    using Cons.prems(1) by (auto split: prod.splits option.splits)
  from s1(1) obtain bytes where "rx_read_verified E e = Inr bytes"
    "au_matches s1 = au_matches s @ scan_file repetition e bytes (excluded_ranges baseline content fixture_paths e bytes) needles"
    by (auto simp: audit_entry_def Let_def split: sum.splits)
  with Cons.IH [OF s1(2) Cons.prems(2)] show ?case by auto
qed simp

text \<open>Every needle that carries a request is the captured or the canonical body of a record.\<close>

definition bodies_ok :: "retention_env \<Rightarrow> model_request_record list \<Rightarrow> request_bodies \<Rightarrow> bool" where
  "bodies_ok E records b \<longleftrightarrow>
     (\<forall>n \<in> set (rb_needles b). \<exists>h raw. \<exists>r \<in> set records. nd_request n = Some h \<and> captured_body E r h raw
        \<and> (nd_bytes n = raw \<or> to_vec (rx_ser E) (mr_canonical (rr_request r)) = Inr (nd_bytes n)))
     \<and> (\<forall>r \<in> set records. \<exists>h \<in> set (rb_requests b). \<exists>raw. captured_body E r h raw)"

lemma bodies_ok_step:
  assumes "add_record E receipts b r = Inr b'" "bodies_ok E records b"
  shows "bodies_ok E (records @ [r]) b'"
proof -
  from assms(1) obtain h raw canonical where h: "captured_body E r h raw"
    and canonical: "to_vec (rx_ser E) (mr_canonical (rr_request r)) = Inr canonical"
    and needles: "rb_needles b' = rb_needles b
            @ [\<lparr>nd_bytes = raw, nd_representation = ''raw-body'', nd_request = Some h, nd_block = None\<rparr>,
               \<lparr>nd_bytes = canonical, nd_representation = ''canonical-body'', nd_request = Some h, nd_block = None\<rparr>]"
    and requests: "rb_requests b' = bs_insert h (rb_requests b)"
    by (auto simp: add_record_def and_then_Inr_iff Let_def captured_body_def)
  with assms(2) show ?thesis by (fastforce simp: bodies_ok_def)
qed

lemma bodies_ok_fold: "fold_ok (add_record E receipts) b rs = Inr b' \<Longrightarrow> bodies_ok E records b \<Longrightarrow>
    bodies_ok E (records @ rs) b'"
proof (induction rs arbitrary: b records)
  case (Cons r rs)
  then obtain b1 where "add_record E receipts b r = Inr b1" "fold_ok (add_record E receipts) b1 rs = Inr b'"
    by (auto simp: and_then_Inr_iff)
  with Cons.IH [of b1 "records @ [r]"] bodies_ok_step Cons.prems(2) show ?case by fastforce
qed simp

lemma first_by_subset: "set (first_by key seen xs) \<subseteq> set xs"
  by (induction key seen xs rule: first_by.induct) auto

lemma request_needles:
  "n \<in> set (all_needles E b) \<Longrightarrow> nd_request n = Some h \<Longrightarrow> n \<in> set (rb_needles b)"
  using first_by_subset [of "needle_key E" "[]" "rb_needles b @ map block_needle (rb_blocks b)"]
  by (auto simp: all_needles_def block_needle_def)

lemma audit_complete: "audit E repetition baseline content final_inventory fixture_paths needles = (s, None) \<Longrightarrow>
    audit_entries (audit_entry E repetition baseline content fixture_paths needles)
      \<lparr>au_matches = [], au_exclusions = [], au_limited = False\<rparr> (filter is_regular (inv_entries final_inventory)) = (s, None)"
  by (auto simp: audit_def split: prod.splits option.splits sum.splits if_splits)

lemma classify_summary: "classify_retention stored unique all_bodies all_blocks limited = (summary, coverage, reason) \<Longrightarrow>
    rs_stored_request_bytes summary = Some stored \<and> (rs_request_retention_class summary = Some Full \<longleftrightarrow> all_bodies)"
  by (auto simp: classify_retention_def Let_def split: if_splits)

lemma found_request_match:
  "h \<in> set (found_requests counted) \<Longrightarrow> \<exists>m \<in> set counted. \<not> is_fragment m \<and> bm_request_sha256 m = Some h"
  by (auto simp: found_requests_def set_bset_of_list List.map_filter_def split: if_splits)

lemma retention_trial_summary:
  assumes "retention_trial repetition bodies unique s = Inr t"
  shows "\<exists>n. rs_stored_request_bytes (tr_summary t) = Some n
      \<and> stored_bytes (filter (\<lambda>m. \<not> bm_excluded_baseline m) (au_matches s)) = Some n
      \<and> (rs_request_retention_class (tr_summary t) = Some Full \<longrightarrow>
          (\<forall>h \<in> set (rb_requests bodies). \<exists>m \<in> set (au_matches s). \<not> bm_excluded_baseline m \<and> \<not> is_fragment m
            \<and> bm_request_sha256 m = Some h))"
proof -
  let ?counted = "filter (\<lambda>m. \<not> bm_excluded_baseline m) (au_matches s)"
  let ?c = "\<lambda>stored. classify_retention stored unique
            (list_all (\<lambda>h. h \<in> set (found_requests ?counted)) (rb_requests bodies))
            (rb_blocks bodies \<noteq> [] \<and> list_all (\<lambda>(h, _). h \<in> set (found_blocks ?counted)) (rb_blocks bodies))
            (au_limited s)"
  from assms obtain stored where stored: "stored_bytes ?counted = Some stored"
    and t: "tr_summary t = fst (?c stored)"
    by (auto simp: retention_trial_def Let_def and_then_Inr_iff case_prod_beta)
  obtain summary coverage reason where c: "?c stored = (summary, coverage, reason)" by (cases "?c stored")
  from classify_summary [OF c] t stored c show ?thesis
    by (auto simp: list_all_iff dest!: bspec found_request_match)
qed

text \<open>C29: where a content audit is complete, the stored bytes of the trial are the number of distinct positions of
  distinct files that a counted match covers, and the class is full only if for every recorded request the
  captured body, or the canonical form of a request with that body, occurs completely in a regular file of
  the final inventory and touches no byte that the baseline excludes.\<close>

theorem retention_is_evidenced:
  assumes "collect_retention E repetition baseline content final_inventory fixture_paths records = Inr (t, matches)"
    and "tr_measurement_complete t"
  shows "(\<exists>n. rs_stored_request_bytes (tr_summary t) = Some n
      \<and> unat n = card (stored_positions (filter (\<lambda>m. \<not> bm_excluded_baseline m) matches)))
    \<and> (rs_request_retention_class (tr_summary t) = Some Full \<longrightarrow>
        (\<forall>r \<in> set records. \<exists>h raw r' body e. captured_body E r h raw
          \<and> r' \<in> set records \<and> captured_body E r' h raw
          \<and> (body = raw \<or> to_vec (rx_ser E) (mr_canonical (rr_request r')) = Inr body)
          \<and> e \<in> set (inv_entries final_inventory) \<and> is_regular e
          \<and> occurs_new E baseline content fixture_paths e body))"
proof -
  from assms(1) obtain receipts bodies unique where bodies: "fold_ok (add_record E receipts) no_bodies records = Inr bodies"
    and result: "(case audit E repetition baseline content final_inventory fixture_paths (all_needles E bodies) of
       (s, Some error) \<Rightarrow> Inr (audit_failed E repetition bodies s error, au_matches s)
     | (s, None) \<Rightarrow>
         and_then (retention_trial repetition bodies unique s) (\<lambda>trial. Inr (trial, au_matches s))) = Inr (t, matches)"
    unfolding collect_retention_def and_then_Inr_iff by blast
  obtain s error where s: "audit E repetition baseline content final_inventory fixture_paths (all_needles E bodies) = (s, error)"
    by force
  have "\<not> tr_measurement_complete (audit_failed E repetition bodies s e)" for e by (simp add: audit_failed_def Let_def)
  with result assms(2) s have "error = None" by (cases error) auto
  with result s have audited: "audit E repetition baseline content final_inventory fixture_paths (all_needles E bodies) = (s, None)"
    and trial: "retention_trial repetition bodies unique s = Inr t" and matches: "matches = au_matches s"
    by (auto simp: and_then_Inr_iff)
  have ok: "bodies_ok E records bodies"
    using bodies_ok_fold [OF bodies, of "[]"] by (simp add: bodies_ok_def no_bodies_def)
  note summary = retention_trial_summary [OF trial]
  have "\<exists>h raw r' body e. captured_body E r h raw \<and> r' \<in> set records \<and> captured_body E r' h raw
          \<and> (body = raw \<or> to_vec (rx_ser E) (mr_canonical (rr_request r')) = Inr body)
          \<and> e \<in> set (inv_entries final_inventory) \<and> is_regular e
          \<and> occurs_new E baseline content fixture_paths e body"
    if full: "rs_request_retention_class (tr_summary t) = Some Full" and r: "r \<in> set records" for r
  proof -
    from ok r obtain h raw where h: "h \<in> set (rb_requests bodies)" "captured_body E r h raw"
      by (auto simp: bodies_ok_def)
    with summary full obtain m where m: "m \<in> set (au_matches s)" "\<not> bm_excluded_baseline m" "\<not> is_fragment m"
      "bm_request_sha256 m = Some h" by blast
    from audit_entries_matches [OF audit_complete [OF audited] m(1)] obtain e bytes
      where e: "e \<in> set (inv_entries final_inventory)" "is_regular e" "rx_read_verified E e = Inr bytes"
        and scan: "m \<in> set (scan_file repetition e bytes (excluded_ranges baseline content fixture_paths e bytes)
          (all_needles E bodies))" by auto
    from scan_file_complete [OF scan m(2,3)] m(4) obtain n i where n: "n \<in> set (all_needles E bodies)"
      "nd_request n = Some h" "nd_bytes n \<noteq> []" "slice bytes i (i + length (nd_bytes n)) = Some (nd_bytes n)"
      "\<not> list_ex (\<lambda>(s, l). of_nat i < s + l \<and> s < of_nat i + of_nat (length (nd_bytes n)))
        (excluded_ranges baseline content fixture_paths e bytes)" by auto
    with e have "occurs_new E baseline content fixture_paths e (nd_bytes n)" by (auto simp: occurs_new_def)
    moreover from ok request_needles [OF n(1,2)] n(2) obtain r' raw' where "r' \<in> set records"
      "captured_body E r' h raw'" "nd_bytes n = raw' \<or> to_vec (rx_ser E) (mr_canonical (rr_request r')) = Inr (nd_bytes n)"
      by (fastforce simp: bodies_ok_def)
    moreover from this(2) h(2) have "raw' = raw" by (simp add: captured_body_def)
    ultimately show ?thesis using h(2) e by blast
  qed
  moreover have "\<exists>n. rs_stored_request_bytes (tr_summary t) = Some n
      \<and> unat n = card (stored_positions (filter (\<lambda>m. \<not> bm_excluded_baseline m) matches))"
    using summary stored_bytes_positions by (auto simp: matches)
  ultimately show ?thesis by blast
qed

text \<open>A run with one request of one byte, which one file keeps behind another byte.\<close>

definition sample_hash :: string where
  "sample_hash = replicate 64 (CHR ''a'')"

definition sample_kept_file :: file_entry where
  "sample_kept_file = \<lparr>fe_path = ''log'', fe_kind = ''regular'', fe_device_id = 1, fe_inode_or_file_id = 2,
     fe_allocated_bytes = 4096, fe_apparent_bytes = 2, fe_sha256 = None, fe_family = ''other''\<rparr>"

definition sample_kept :: inventory where
  "sample_kept = \<lparr>inv_entries = [sample_kept_file], inv_capture_retries = [], inv_stamps = []\<rparr>"

definition sample_retention :: retention_env where
  "sample_retention = \<lparr>rx_mapping = Inr ''m'',
     rx_parse = (\<lambda>_. Inr (JObject [(''raw_sha256'', JString sample_hash), (''received_ns'', json_u64 5),
       (''repetition'', json_u64 1)])),
     rx_read = (\<lambda>_. Inr [123]), rx_read_verified = (\<lambda>_. Inr [9, 123]), rx_recapture = Inr sample_kept,
     rx_digest = (\<lambda>_. sample_hash), rx_ser = (\<lambda>_. Inr [123]), rx_dbg = join '', ''\<rparr>"

lemma sample_receipts: "repetition_receipts sample_retention 1 =
    Inr [JObject [(''raw_sha256'', JString sample_hash), (''received_ns'', json_u64 5), (''repetition'', json_u64 1)]]"
proof -
  have "text_lines ''m'' = [''m'']" by code_simp
  then show ?thesis by (simp add: repetition_receipts_def sample_retention_def)
qed

definition sample_bodies :: request_bodies where
  "sample_bodies = \<lparr>rb_needles =
       [\<lparr>nd_bytes = [123], nd_representation = ''raw-body'', nd_request = Some sample_hash, nd_block = None\<rparr>,
        \<lparr>nd_bytes = [123], nd_representation = ''canonical-body'', nd_request = Some sample_hash, nd_block = None\<rparr>],
     rb_blocks = [], rb_requests = [sample_hash],
     rb_blobs = [\<lparr>bb_semantic_ordinal = 1, bb_attempt = 1, bb_role = ''primary'', bb_raw_sha256 = sample_hash,
       bb_canonical_sha256 = sample_hash, bb_path = ''request-bodies/'' @ sample_hash @ ''.bin''\<rparr>]\<rparr>"

lemma sample_add: "add_record sample_retention
    [JObject [(''raw_sha256'', JString sample_hash), (''received_ns'', json_u64 5), (''repetition'', json_u64 1)]]
    no_bodies sample_request = Inr sample_bodies"
proof -
  have "length (utf8_bytes sample_hash) = 64" "list_all ascii_hexdigit sample_hash" by code_simp+
  moreover have "bs_insert sample_hash [] = [sample_hash]" by (simp add: bs_insert_def bset_of_list_def bt_of_list_def)
  ultimately show ?thesis
    by (simp add: add_record_def receipt_hash_def sample_request_def sample_retention_def Let_def guard_def to_vec_def
        message_blocks_def canonical_message_blocks_def primary_message_value_def no_bodies_def sample_bodies_def ok_or_def)
qed

lemma sample_audit: "\<exists>s. audit sample_retention 1 \<lparr>inv_entries = [], inv_capture_retries = [], inv_stamps = []\<rparr> [] sample_kept []
    (all_needles sample_retention sample_bodies) = (s, None)
    \<and> au_limited s = False \<and> au_matches s = map (\<lambda>representation.
      \<lparr>bm_repetition = 1, bm_representation = representation, bm_request_sha256 = Some sample_hash, bm_block_sha256 = None,
       bm_path = ''log'', bm_device_id = 1, bm_inode_or_file_id = 2, bm_offset_bytes = 1, bm_length_bytes = 1,
       bm_excluded_baseline = False\<rparr>) [''raw-body'', ''canonical-body'']"
proof -
  have needles: "all_needles sample_retention sample_bodies = rb_needles sample_bodies"
    by (simp add: all_needles_def sample_bodies_def needle_key_def)
  show ?thesis
    by (simp add: needles, simp add: audit_def sample_kept_def sample_kept_file_def is_regular_def audit_entry_def
        sample_retention_def excluded_ranges_def Let_def union_length_def exclusion_receipts_def scan_file_def
        sample_bodies_def positions_of_def upt_rec matches_at_def match_receipt_def slice_def)
qed

theorem retention_is_evidenced_witness:
  "\<exists>t matches. collect_retention sample_retention 1 \<lparr>inv_entries = [], inv_capture_retries = [], inv_stamps = []\<rparr> []
      sample_kept [] [sample_request] = Inr (t, matches)
    \<and> rs_stored_request_bytes (tr_summary t) = Some 1
    \<and> card (stored_positions (filter (\<lambda>m. \<not> bm_excluded_baseline m) matches)) = 1
    \<and> (\<exists>e. occurs_new sample_retention \<lparr>inv_entries = [], inv_capture_retries = [], inv_stamps = []\<rparr> [] [] e [123])"
proof -
  obtain s where s: "audit sample_retention 1 \<lparr>inv_entries = [], inv_capture_retries = [], inv_stamps = []\<rparr> [] sample_kept []
      (all_needles sample_retention sample_bodies) = (s, None)" "au_limited s = False"
    and m: "au_matches s = map (\<lambda>representation.
      \<lparr>bm_repetition = 1, bm_representation = representation, bm_request_sha256 = Some sample_hash, bm_block_sha256 = None,
       bm_path = ''log'', bm_device_id = 1, bm_inode_or_file_id = 2, bm_offset_bytes = 1, bm_length_bytes = 1,
       bm_excluded_baseline = False\<rparr>) [''raw-body'', ''canonical-body'']"
    using sample_audit by blast
  have stored: "stored_bytes (au_matches s) = Some 1"
    by (simp add: m stored_bytes_def push_range_def Let_def union_length_def union_step_def checked_add_def ok_or_def
        saturating_sub_def)
  have "\<not> is_fragment m" if "m \<in> set (au_matches s)" for m
  proof -
    have "strip_suffix ''raw-body'' ''-fragment'' = None" "strip_suffix ''canonical-body'' ''-fragment'' = None" by code_simp+
    with that show ?thesis by (auto simp: m is_fragment_def)
  qed
  then have found: "set (found_requests (au_matches s)) = {sample_hash}"
    by (auto simp: found_requests_def set_bset_of_list List.map_filter_def m)
  obtain t where t: "retention_trial 1 sample_bodies 0 s = Inr t" "tr_measurement_complete t"
      "rs_stored_request_bytes (tr_summary t) = Some 1" "rs_request_retention_class (tr_summary t) = Some Full"
  proof -
    have "filter (\<lambda>m. \<not> bm_excluded_baseline m) (au_matches s) = au_matches s" by (simp add: m)
    then show ?thesis
      using that by (simp add: retention_trial_def stored found sample_bodies_def classify_retention_def ok_or_def)
  qed
  have collected: "collect_retention sample_retention 1 \<lparr>inv_entries = [], inv_capture_retries = [], inv_stamps = []\<rparr> []
      sample_kept [] [sample_request] = Inr (t, au_matches s)"
  proof -
    have "unique_bytes (rb_blocks sample_bodies) = Some 0" by (simp add: sample_bodies_def unique_bytes_def)
    then show ?thesis using sample_add by (simp add: collect_retention_def sample_receipts guard_def ok_or_def s t(1))
  qed
  note evidence = retention_is_evidenced [OF this t(2)]
  from conjunct1 [OF evidence] t(3) have
    n: "card (stored_positions (filter (\<lambda>m. \<not> bm_excluded_baseline m) (au_matches s))) = 1" by auto
  have "sample_request \<in> set [sample_request]" by simp
  from bspec [OF mp [OF conjunct2 [OF evidence] t(4)] this] obtain r' h raw body e where
    raw: "captured_body sample_retention r' h raw"
      "body = raw \<or> to_vec (rx_ser sample_retention) (mr_canonical (rr_request r')) = Inr body"
      "occurs_new sample_retention \<lparr>inv_entries = [], inv_capture_retries = [], inv_stamps = []\<rparr> [] [] e body"
    by blast
  from raw(1,2) have "body = [123]" by (auto simp: captured_body_def sample_retention_def to_vec_def)
  with collected t(3) n raw(3) show ?thesis by blast
qed

end
