(* ===== verification/Row3.thy ===== *)
theory Row3
  imports Json_Values
begin

text \<open>
  \<open>src/src/row3.rs\<close>: the value of matrix row 3, which the executing fixture makes from twelve random
  bytes and the oracle finds again in the output of a tool.  Reading \<open>/dev/urandom\<close> is the argument
  \<open>random\<close>.  The code slices by bytes; a slice that is not all ASCII is refused either way, so the
  model slices by characters.
\<close>

section \<open>The value\<close>

definition dependency_prefix :: string where
  "dependency_prefix = ''AHRB row 3 non-credential nonce ''"

definition random_bytes :: nat where "random_bytes = 12"

definition decimal_octets_len :: nat where "decimal_octets_len = 47"

definition show_octet :: "nat \<Rightarrow> string" where
  "show_octet n = zero_padded 3 (show_nat n)"

definition fresh_dependency_value :: "nat list \<Rightarrow> string" where
  "fresh_dependency_value random = dependency_prefix @ join '' '' (map show_octet random)"

definition valid_octet :: "string \<Rightarrow> bool" where
  "valid_octet octet \<longleftrightarrow> length octet = 3 \<and> list_all is_digit octet \<and> parse_unsigned 256 octet \<noteq> None"

definition valid_octets :: "string \<Rightarrow> bool" where
  "valid_octets s \<longleftrightarrow> list_all valid_octet (split_on (CHR '' '') s) \<and> length (split_on (CHR '' '') s) = random_bytes"

lemma split_at_shorter: "split_at_str s p = Some (a, b) \<Longrightarrow> length b + length p \<le> length s"
  by (drule split_at_str_Some) simp

function extract_dependency_value :: "string \<Rightarrow> string option" where
  "extract_dependency_value s =
     (case split_at_str s dependency_prefix of
        None \<Rightarrow> None
      | Some (before, rest) \<Rightarrow>
          let octets = take decimal_octets_len rest in
          if length octets = decimal_octets_len \<and> valid_octets octets then Some (dependency_prefix @ octets)
          else extract_dependency_value rest)"
  by pat_completeness auto
termination
  by (relation "measure length") (auto dest!: split_at_shorter simp: dependency_prefix_def)

declare extract_dependency_value.simps [simp del]

definition is_dependency_value :: "string \<Rightarrow> bool" where
  "is_dependency_value s \<longleftrightarrow> extract_dependency_value s = Some s"

section \<open>Structured content\<close>

definition text_part :: "json \<Rightarrow> string option" where
  "text_part part = Option.bind (as_object part) (\<lambda>members.
     if Option.bind (bt_get members ''type'') as_str \<noteq> Some ''text'' then None
     else Option.bind (bt_get members ''text'') as_str)"

fun push_parts :: "string \<Rightarrow> json list \<Rightarrow> string option" where
  "push_parts text [] = Some text"
| "push_parts text (part # parts) = Option.bind (text_part part) (\<lambda>t. push_parts (text @ t) parts)"

definition ordered_text_content :: "json \<Rightarrow> string option" where
  "ordered_text_content v = Option.bind (as_array v) (\<lambda>parts. if parts = [] then None else push_parts [] parts)"

section \<open>Extraction decides containment\<close>

text \<open>The prefix does not overlap itself, so that skipping a failed match loses nothing.\<close>

lemma prefix_head: "dependency_prefix = CHR ''A'' # tl dependency_prefix" "CHR ''A'' \<notin> set (tl dependency_prefix)"
  by code_simp+

lemma occurrence_split:
  assumes "split_at_str s dependency_prefix = Some (a, b)" "s = c @ dependency_prefix @ d"
  shows "c = a \<and> d = b \<or> (\<exists>e. b = e @ dependency_prefix @ d)"
proof -
  have s: "s = a @ dependency_prefix @ b" using assms(1) by (rule split_at_str_Some)
  have first: "length a \<le> length c"
    using assms
  proof (induction s arbitrary: a c)
    case (Cons x s)
    show ?case
    proof (cases "starts_with (x # s) dependency_prefix")
      case False
      with Cons.prems(1) obtain a' where a': "a = x # a'" "split_at_str s dependency_prefix = Some (a', b)"
        by (auto split: if_splits)
      from False Cons.prems(2) obtain c' where "c = x # c'" by (cases c) (auto simp: starts_with_iff)
      with Cons a' show ?thesis by simp
    qed (use Cons.prems(1) in simp)
  qed (simp add: dependency_prefix_def)
  define e where "e = drop (length a) c"
  have both: "a @ dependency_prefix @ b = c @ dependency_prefix @ d" using s assms(2) by simp
  then have "take (length a) (a @ dependency_prefix @ b) = take (length a) (c @ dependency_prefix @ d)" by simp
  then have "a = take (length a) c" using first by simp
  then have c: "c = a @ e" unfolding e_def by (metis append_take_drop_id)
  with both have e: "c = a @ e" "e @ dependency_prefix @ d = dependency_prefix @ b" by auto
  show ?thesis
  proof (cases "e = []")
    case False
    have "length dependency_prefix \<le> length e"
    proof (rule ccontr)
      assume short: "\<not> length dependency_prefix \<le> length e"
      then have "(dependency_prefix @ b) ! length e = (tl dependency_prefix) ! (length e - 1)"
        using False prefix_head(1) by (cases "length e") (auto simp: nth_append nth_tl)
      moreover have "(e @ dependency_prefix @ d) ! length e = CHR ''A''" by (subst prefix_head(1)) (simp add: nth_append)
      moreover have "(tl dependency_prefix) ! (length e - 1) \<in> set (tl dependency_prefix)"
        using short False by (intro nth_mem) (cases "length e", auto)
      ultimately show False using e(2) prefix_head(2) by simp
    qed
    with e(2) have "\<exists>f. e = dependency_prefix @ f" by (metis append_eq_append_conv_if append_take_drop_id)
    with e(2) show ?thesis by auto
  qed (use e in auto)
qed

lemma is_digit_inverse: "is_digit c \<Longrightarrow> c = digit (digit_val c) \<and> digit_val c < 10"
  by (auto simp: is_digit_def digit_def digit_val_def)

lemma show_octet_digits: "n < 1000 \<Longrightarrow> show_octet n = [digit (n div 100), digit (n div 10 mod 10), digit (n mod 10)]"
proof -
  assume n: "n < 1000"
  have zero: "CHR ''0'' = digit 0" by code_simp
  consider "n < 10" | "10 \<le> n" "n < 100" | "100 \<le> n" by linarith
  then show ?thesis
  proof cases
    case 1
    then show ?thesis
      by (simp add: show_octet_def zero_padded_def zero show_nat.simps [of n] numeral_2_eq_2)
  next
    case 2
    then have "show_nat n = [digit (n div 10), digit (n mod 10)]"
      by (simp add: show_nat.simps [of n] show_nat.simps [of "n div 10"] div_less_dividend less_mult_imp_div_less)
    with 2 show ?thesis by (simp add: show_octet_def zero_padded_def zero)
  next
    case 3
    then have "show_nat n = [digit (n div 100), digit (n div 10 mod 10), digit (n mod 10)]"
    proof -
      have "n div 10 div 10 = n div 100" "n div 100 < 10" "\<not> n div 10 < 10" using 3 n by linarith+
      with 3 show ?thesis
        by (simp add: show_nat.simps [of n] show_nat.simps [of "n div 10"] show_nat.simps [of "n div 100"])
    qed
    then show ?thesis by (simp add: show_octet_def zero_padded_def)
  qed
qed

lemma valid_octet_iff: "valid_octet s \<longleftrightarrow> (\<exists>n < 256. s = show_octet n)"
proof
  assume v: "valid_octet s"
  then obtain a b c where s: "s = [a, b, c]" by (auto simp: valid_octet_def numeral_3_eq_3 length_Suc_conv)
  with v have d: "a = digit (digit_val a)" "b = digit (digit_val b)" "c = digit (digit_val c)"
    "digit_val a < 10" "digit_val b < 10" "digit_val c < 10"
    using is_digit_inverse by (auto simp: valid_octet_def)
  let ?n = "100 * digit_val a + 10 * digit_val b + digit_val c"
  have "?n < 256" using v not_is_digit_plus [of a]
    by (auto simp: valid_octet_def s parse_unsigned_def digits_val_def split: if_splits)
  moreover have "show_octet ?n = s"
  proof -
    have "(100 * x + 10 * y + z) div 100 = x \<and> (100 * x + 10 * y + z) div 10 mod 10 = y
        \<and> (100 * x + 10 * y + z) mod 10 = z" if "y < 10" "z < 10" for x y z :: nat
    proof -
      have split: "100 * x + 10 * y + z = 10 * (10 * x + y) + z" "100 * x + 10 * y + z = 100 * x + (10 * y + z)" by simp_all
      have ten: "(10 * m + z) div 10 = m" "(10 * m + z) mod 10 = z" for m using that by simp_all
      have "(100 * x + 10 * y + z) div 10 = 10 * x + y" "(100 * x + 10 * y + z) mod 10 = z"
        unfolding split(1) by (rule ten)+
      moreover have "(100 * x + 10 * y + z) div 100 = x" unfolding split(2) using that by simp
      ultimately show ?thesis using that by simp
    qed
    then have "?n div 100 = digit_val a" "?n div 10 mod 10 = digit_val b" "?n mod 10 = digit_val c" using d(5,6) by auto
    moreover have "?n < 1000" using d(4-6) by linarith
    ultimately show ?thesis using d(1-3) s by (simp add: show_octet_digits)
  qed
  ultimately show "\<exists>n < 256. s = show_octet n" by blast
next
  assume "\<exists>n < 256. s = show_octet n"
  then obtain n where n: "n < 256" "s = show_octet n" by blast
  then have s: "s = [digit (n div 100), digit (n div 10 mod 10), digit (n mod 10)]" by (simp add: show_octet_digits)
  have small: "n div 100 < 10" using n by linarith
  have "digits_val s = 10 * (10 * (n div 100) + n div 10 mod 10) + n mod 10"
    unfolding s using small by (simp add: digits_val_def digit_val_digit)
  also have "\<dots> = n" by (simp add: div_mult2_eq [of n 10 10, simplified])
  finally have "digits_val s = n" .
  moreover have "list_all is_digit s" using small by (simp add: s is_digit_digit)
  moreover have "digit (n div 100) \<noteq> CHR ''+''" using small by (intro not_is_digit_plus is_digit_digit)
  ultimately show "valid_octet s" using n(1) by (simp add: valid_octet_def parse_unsigned_def s)
qed

text \<open>The texts the fixture can produce.\<close>

definition dependency_value :: "string \<Rightarrow> bool" where
  "dependency_value v \<longleftrightarrow>
     (\<exists>random. length random = random_bytes \<and> list_all (\<lambda>b. b < 256) random \<and> v = fresh_dependency_value random)"

lemma show_octet_plain: "n < 256 \<Longrightarrow> length (show_octet n) = 3 \<and> CHR '' '' \<notin> set (show_octet n)"
proof -
  assume "n < 256"
  then have v: "valid_octet (show_octet n)" using valid_octet_iff by blast
  moreover have "\<not> is_digit (CHR '' '')" by code_simp
  ultimately show ?thesis by (auto simp: valid_octet_def list_all_iff)
qed

lemma length_join: "ps \<noteq> [] \<Longrightarrow> list_all (\<lambda>p. length p = 3) ps \<Longrightarrow> length (join '' '' ps) = 4 * length ps - 1"
  by (induction "'' ''" ps rule: join.induct) auto

lemma valid_octets_iff: "valid_octets s \<longleftrightarrow>
    (\<exists>random. length random = random_bytes \<and> list_all (\<lambda>b. b < 256) random \<and> s = join '' '' (map show_octet random))"
proof
  assume v: "valid_octets s"
  let ?ps = "split_on (CHR '' '') s"
  have "\<exists>ns. list_all (\<lambda>b. b < 256) ns \<and> ps = map show_octet ns" if "list_all valid_octet ps" for ps
    using that
  proof (induction ps)
    case (Cons p ps)
    then obtain n ns where "n < 256" "p = show_octet n" "list_all (\<lambda>b. b < 256) ns" "ps = map show_octet ns"
      by (auto simp: valid_octet_iff)
    then show ?case by (intro exI [of _ "n # ns"]) simp
  qed simp
  with v obtain ns where "?ps = map show_octet ns" "list_all (\<lambda>b. b < 256) ns" by (auto simp: valid_octets_def)
  moreover from this(1) have "length ns = length ?ps" by simp
  moreover have "join '' '' ?ps = s" by (rule join_split_on)
  ultimately show "\<exists>random. length random = random_bytes \<and> list_all (\<lambda>b. b < 256) random \<and> s = join '' '' (map show_octet random)"
    using v by (metis valid_octets_def)
next
  assume "\<exists>random. length random = random_bytes \<and> list_all (\<lambda>b. b < 256) random \<and> s = join '' '' (map show_octet random)"
  then obtain random where r: "length random = random_bytes" "list_all (\<lambda>b. b < 256) random" "s = join '' '' (map show_octet random)"
    by blast
  have "map show_octet random \<noteq> []" using r(1) by (auto simp: random_bytes_def)
  then have "split_on (CHR '' '') s = map show_octet random"
    unfolding r(3) using r(2) show_octet_plain by (intro split_on_join) (auto simp: list_all_iff)
  with r show "valid_octets s" by (auto simp: valid_octets_def list_all_iff valid_octet_iff)
qed

lemma valid_octets_length: "valid_octets s \<Longrightarrow> length s = decimal_octets_len"
proof -
  assume "valid_octets s"
  then obtain random where r: "length random = random_bytes" "list_all (\<lambda>b. b < 256) random" "s = join '' '' (map show_octet random)"
    using valid_octets_iff by blast
  then have "length s = 4 * length random - 1" using show_octet_plain
    by (subst r(3), subst length_join) (auto simp: list_all_iff random_bytes_def)
  with r(1) show ?thesis by (simp add: random_bytes_def decimal_octets_len_def)
qed

lemma dependency_value_iff: "dependency_value v \<longleftrightarrow> (\<exists>octets. v = dependency_prefix @ octets \<and> valid_octets octets)"
  by (auto simp: dependency_value_def valid_octets_iff fresh_dependency_value_def)

lemma split_at_own_prefix: "p \<noteq> [] \<Longrightarrow> split_at_str (p @ s) p = Some ([], s)"
  by (cases p) (auto simp: starts_with_iff)

lemma extract_sound: "extract_dependency_value s = Some v \<Longrightarrow> dependency_value v \<and> contains_str s v"
proof (induction s rule: extract_dependency_value.induct)
  case (1 s)
  from "1.prems" obtain a b where split: "split_at_str s dependency_prefix = Some (a, b)"
    by (subst (asm) extract_dependency_value.simps) (auto split: option.splits)
  note s = split_at_str_Some [OF split]
  let ?octets = "take decimal_octets_len b"
  show ?case
  proof (cases "length ?octets = decimal_octets_len \<and> valid_octets ?octets")
    case True
    with "1.prems" split have v: "v = dependency_prefix @ ?octets" by (subst (asm) extract_dependency_value.simps) simp
    have "s = a @ v @ drop decimal_octets_len b" using s by (simp add: v)
    then have "contains_str s v" unfolding contains_str_iff by blast
    with True v show ?thesis by (auto simp: dependency_value_iff)
  next
    case False
    with "1.prems" split have "extract_dependency_value b = Some v"
      by (subst (asm) extract_dependency_value.simps) (auto simp: Let_def split: if_splits)
    with "1.IH" [OF split refl refl False] have "dependency_value v" "contains_str b v" by auto
    then show ?thesis using s by (metis append.assoc contains_str_iff)
  qed
qed

lemma extract_complete: "s = c @ dependency_prefix @ octets @ d \<Longrightarrow> valid_octets octets \<Longrightarrow> extract_dependency_value s \<noteq> None"
proof (induction s arbitrary: c rule: extract_dependency_value.induct)
  case (1 s)
  from "1.prems"(1) have "contains_str s dependency_prefix" by (auto simp: contains_str_iff)
  then obtain a b where split: "split_at_str s dependency_prefix = Some (a, b)"
    using split_at_str_None [of s] by (cases "split_at_str s dependency_prefix") auto
  let ?octets = "take decimal_octets_len b"
  show ?case
  proof (cases "length ?octets = decimal_octets_len \<and> valid_octets ?octets")
    case True
    with split show ?thesis by (subst extract_dependency_value.simps) simp
  next
    case False
    note len = valid_octets_length [OF "1.prems"(2)]
    from occurrence_split [OF split "1.prems"(1)] show ?thesis
    proof
      assume "c = a \<and> octets @ d = b"
      then have "?octets = octets" using len by auto
      with False len "1.prems"(2) show ?thesis by simp
    next
      assume "\<exists>e. b = e @ dependency_prefix @ octets @ d"
      then obtain e where "b = e @ dependency_prefix @ octets @ d" by blast
      with "1.IH" [OF split refl refl False] "1.prems"(2) have "extract_dependency_value b \<noteq> None" by blast
      with split False show ?thesis by (subst extract_dependency_value.simps) (auto simp: Let_def)
    qed
  qed
qed

text \<open>Extraction finds a value exactly in the texts that contain one the fixture can produce, wherever it
  stands and whatever surrounds it, and what it finds is such a value of the text; the fixture's own value
  is accepted as it is.\<close>

theorem extraction_decides_containment:
  "(case extract_dependency_value s of
      None \<Rightarrow> \<not> (\<exists>v. dependency_value v \<and> contains_str s v)
    | Some v \<Rightarrow> dependency_value v \<and> contains_str s v)
   \<and> (is_dependency_value s \<longleftrightarrow> dependency_value s)"
proof
  show "case extract_dependency_value s of
      None \<Rightarrow> \<not> (\<exists>v. dependency_value v \<and> contains_str s v)
    | Some v \<Rightarrow> dependency_value v \<and> contains_str s v"
  proof (cases "extract_dependency_value s")
    case None
    then have "\<not> (dependency_value v \<and> contains_str s v)" for v
      using extract_complete [of s] unfolding contains_str_iff dependency_value_iff by force
    with None show ?thesis by simp
  qed (use extract_sound in auto)
  show "is_dependency_value s \<longleftrightarrow> dependency_value s"
  proof
    assume "dependency_value s"
    then obtain octets where s: "s = dependency_prefix @ octets" "valid_octets octets" using dependency_value_iff by blast
    have "split_at_str s dependency_prefix = Some ([], octets)"
      unfolding s(1) by (rule split_at_own_prefix) (simp add: dependency_prefix_def)
    with s valid_octets_length [OF s(2)] show "is_dependency_value s"
      unfolding is_dependency_value_def by (subst extract_dependency_value.simps) simp
  qed (use extract_sound in \<open>auto simp: is_dependency_value_def\<close>)
qed

end
