(* ===== verification/Wave_Statistics.thy ===== *)
theory Wave_Statistics
  imports Growth Json_Values
begin

text \<open>
  The statistics that the wave evaluators of \<open>src/src/wave2.rs\<close> share, on lists of doubles in the
  total order, and the JSON they write: \<open>json!\<close> of a double is null when it is not finite.
\<close>

section \<open>Statistics\<close>

definition nearest_rank :: "f64 list \<Rightarrow> nat \<Rightarrow> f64" where
  "nearest_rank values percentile =
     (if values = [] then Fin 0
      else let vs = sort values; rank = (percentile * length vs + 99) div 100
           in vs ! min (rank - 1) (length vs - 1))"

definition median_or_zero :: "f64 list \<Rightarrow> f64" where
  "median_or_zero values =
     (if values = [] then Fin 0
      else let vs = sort values; middle = length vs div 2
           in if even (length vs) then f_div (f_add (vs ! (middle - 1)) (vs ! middle)) (Fin 2) else vs ! middle)"

definition theil_sen_indexed :: "f64 list \<Rightarrow> f64" where
  "theil_sen_indexed values =
     median_or_zero (concat (map (\<lambda>left. map (\<lambda>right.
         f_div (f_sub (values ! right) (values ! left)) (f_of_int (int (right - left)))) [left + 1..<length values])
       [0..<length values]))"

definition f_maximum :: "f64 list \<Rightarrow> f64" where
  "f_maximum values = foldl f_max (Fin 0) values"

definition f_of_u64 :: "u64 \<Rightarrow> f64" where
  "f_of_u64 n = f_of_int (uint n)"

text \<open>Nanoseconds as milliseconds.\<close>

definition ns_to_ms :: "u64 \<Rightarrow> f64" where
  "ns_to_ms n = f_div (f_of_u64 n) (Fin 1000000)"

section \<open>JSON\<close>

definition json_f64 :: "f64 \<Rightarrow> json" where
  "json_f64 x = (if f_is_finite x then JNumber (JFloat x) else JNull)"

definition json_option :: "('a \<Rightarrow> json) \<Rightarrow> 'a option \<Rightarrow> json" where
  "json_option f x = (case x of None \<Rightarrow> JNull | Some v \<Rightarrow> f v)"

definition json_list :: "('a \<Rightarrow> json) \<Rightarrow> 'a list \<Rightarrow> json" where
  "json_list f xs = JArray (map f xs)"

text \<open>A member that \<open>skip_serializing_if\<close> leaves out when it is absent.\<close>

definition optional_member :: "string \<Rightarrow> ('a \<Rightarrow> json) \<Rightarrow> 'a option \<Rightarrow> (string \<times> json) list" where
  "optional_member key f x = (case x of None \<Rightarrow> [] | Some v \<Rightarrow> [(key, f v)])"

section \<open>Formats\<close>

text \<open>The format \<open>{:.3}\<close> of a finite double: three decimals, ties to even.\<close>

fun show_fixed3 :: "f64 \<Rightarrow> string" where
  "show_fixed3 (Fin x) = (let n = nat (round_half_even (\<bar>x\<bar> * 1000)); frac = show_nat (n mod 1000)
     in (if x < 0 then ''-'' else []) @ show_nat (n div 1000) @ ''.'' @ replicate (3 - length frac) (CHR ''0'') @ frac)"
| "show_fixed3 (Inf s) = (if s then ''inf'' else ''-inf'')"
| "show_fixed3 NaN = ''NaN''"

text \<open>\<open>1..=n\<close> over \<open>u32\<close>.\<close>

definition ordinals :: "u32 \<Rightarrow> u32 list" where
  "ordinals n = map of_nat [1..<unat n + 1]"

lemma finite_words: "finite (A :: u32 set)"
  by (rule finite_subset [OF subset_UNIV]) simp

lemma unat_words: "unat ` {1..n :: u32} = {1..unat n}"
proof
  show "{1..unat n} \<subseteq> unat ` {1..n}"
  proof
    fix i assume i: "i \<in> {1..unat n}"
    moreover have "unat n < 2 ^ 32" using unsigned_less [of n] by simp
    ultimately have "unat (of_nat i :: u32) = i"
      by (simp add: unat_of_nat take_bit_nat_eq_self del: One_nat_def)
    moreover from this i have "(of_nat i :: u32) \<in> {1..n}" by (auto simp: word_le_nat_alt)
    ultimately show "i \<in> unat ` {1..n}" by (metis image_eqI)
  qed
qed (auto simp: word_le_nat_alt)

lemma card_words: "card {1..n :: u32} = unat n"
proof -
  have "inj_on unat {1..n}" by (rule inj_onI) (simp add: word_unat_eq_iff)
  from card_image [OF this] show ?thesis by (simp add: unat_words)
qed

lemma set_ordinals: "set (ordinals n) = {1..n}"
proof -
  have "unat ` {1..n} = {1..<unat n + 1}" using unat_words [of n] by auto
  moreover have "of_nat ` unat ` {1..n} = {1..n}" by (force simp: image_image)
  ultimately show ?thesis by (simp add: ordinals_def del: One_nat_def)
qed

lemma distinct_ordinals: "distinct (ordinals n)"
proof -
  have "inj_on (of_nat :: nat \<Rightarrow> u32) {1..<unat n + 1}"
  proof (rule inj_on_inverseI)
    fix i assume "i \<in> {1..<unat n + 1}"
    moreover have "unat n < 2 ^ 32" using unsigned_less [of n] by simp
    ultimately show "unat (of_nat i :: u32) = i"
      by (simp add: unat_of_nat take_bit_nat_eq_self del: One_nat_def)
  qed
  then show ?thesis by (simp add: ordinals_def distinct_map del: upt_Suc)
qed

lemma unat_ordinals: "map unat (ordinals n) = [1..<unat n + 1]"
proof (rule nth_equalityI)
  have n: "unat n < 2 ^ 32" using unsigned_less [of n] by simp
  fix i assume "i < length (map unat (ordinals n))"
  then show "map unat (ordinals n) ! i = [1..<unat n + 1] ! i"
    using n by (simp add: ordinals_def unat_of_nat take_bit_nat_eq_self del: upt_Suc of_nat_Suc)
qed (simp add: ordinals_def)

lemma sorted_ordinals: "sorted (ordinals n)"
proof -
  have "sorted (map unat (ordinals n))" unfolding unat_ordinals by (rule sorted_upt)
  then have "sorted_wrt (\<lambda>x y. unat x \<le> unat y) (ordinals n)" by (simp add: sorted_map)
  then show ?thesis by (rule sorted_wrt_mono_rel [rotated]) (simp add: word_le_nat_alt)
qed

text \<open>Trials with distinct keys in \<open>1..n\<close>, as many as \<open>n\<close>, have exactly these keys.\<close>

lemma keys_are_ordinals:
  assumes "distinct (map key ts)" and "length ts = unat n" and "list_all (\<lambda>t. key t \<noteq> 0 \<and> key t \<le> n) ts"
  shows "map key (sort_key key ts) = ordinals n"
proof -
  have "key ` set ts \<subseteq> {1..n}"
    using assms(3) by (auto simp: list_all_iff word_le_nat_alt unat_gt_0 Suc_leI)
  moreover have "card (key ` set ts) = card {1..n}"
    using assms(1,2) distinct_card [of "map key ts"] by (simp add: card_words)
  ultimately have "key ` set ts = {1..n}" by (intro card_subset_eq finite_words)
  then have "set (map key (sort_key key ts)) = set (ordinals n)" by (simp add: set_ordinals)
  moreover have "distinct (map key (sort_key key ts))" using assms(1) by (simp add: distinct_map)
  ultimately show ?thesis
    using sorted_ordinals distinct_ordinals by (intro sorted_distinct_set_unique) simp_all
qed

end
