(* ===== verification/Disk_Io.thy ===== *)
theory Disk_Io
  imports Wave_Statistics "HOL-Library.Multiset"
begin

text \<open>
  Row 47 of \<open>src/src/wave2.rs\<close>: the evaluation of disk I/O per turn.  The evidence is validated turn by
  turn, each repetition is summarized on its own, and the repetitions are aggregated by medians.
\<close>

section \<open>Evidence\<close>

datatype log_evidence_kind = Omitted | DeclaredPaths | VerifiedNoLog

fun log_evidence_name :: "log_evidence_kind \<Rightarrow> string" where
  "log_evidence_name Omitted = ''omitted''"
| "log_evidence_name DeclaredPaths = ''declared-paths''"
| "log_evidence_name VerifiedNoLog = ''verified-no-log''"

record disk_turn =
  dt_repetition :: u32
  dt_turn :: u32
  dt_disk_write_bytes :: u64
  dt_journal_growth_bytes :: u64
  dt_log_growth_bytes :: "u64 option"
  dt_counter_complete :: bool
  dt_file_identity_complete :: bool
  dt_retired_accounting_complete :: bool

record disk_evaluation =
  di_resource_values :: "(string, f64) btree"
  di_log_growth_bytes_per_turn :: "f64 option"
  di_disk_io_counter_complete :: bool
  di_unbounded_disk_growth :: bool
  di_details :: json
  di_measurement_complete :: bool
  di_reference_envelope_pass :: bool
  di_measurement_error :: "string option"

record disk_repetition =
  dp_repetition :: u32
  dp_p50 :: f64
  dp_p95 :: f64
  dp_max :: f64
  dp_journal_median :: f64
  dp_log_median :: "f64 option"
  dp_slope :: f64
  dp_unbounded :: bool
  dp_passed :: bool

definition disk_incomplete :: "string \<Rightarrow> log_evidence_kind \<Rightarrow> disk_evaluation" where
  "disk_incomplete error kind =
     \<lparr>di_resource_values = [], di_log_growth_bytes_per_turn = None, di_disk_io_counter_complete = False,
      di_unbounded_disk_growth = False,
      di_details = json_object [(''measurement_complete'', JBool False), (''measurement_error'', JString error),
        (''log_evidence'', JString (log_evidence_name kind))],
      di_measurement_complete = False, di_reference_envelope_pass = False, di_measurement_error = Some error\<rparr>"

section \<open>Validation\<close>

definition turn_key :: "disk_turn \<Rightarrow> u32 \<times> u32" where
  "turn_key t = (dt_repetition t, dt_turn t)"

definition check_turn :: "u32 \<Rightarrow> u32 \<Rightarrow> log_evidence_kind \<Rightarrow> (u32 \<times> u32) list \<Rightarrow> disk_turn \<Rightarrow> string + (u32 \<times> u32) list" where
  "check_turn repetitions turns kind unique t =
     (if dt_repetition t = 0 \<or> repetitions < dt_repetition t \<or> dt_turn t = 0 \<or> turns < dt_turn t
         \<or> turn_key t \<in> set unique
      then Inl ''row-47 evidence has an invalid or duplicate repetition/turn key''
      else if \<not> dt_counter_complete t \<or> \<not> dt_retired_accounting_complete t
      then Inl ''owned-tree disk accounting lacks terminal-before-reap or durable cgroup retirement evidence''
      else if \<not> dt_file_identity_complete t
      then Inl ''journal/log snapshot lacks a complete device and file identity''
      else if kind = DeclaredPaths \<and> dt_log_growth_bytes t = None
      then Inl ''a declared log path lacks a boundary growth observation''
      else if kind = VerifiedNoLog \<and> dt_log_growth_bytes t \<noteq> None
      then Inl ''verified-no-log evidence contradicts a numeric log-growth observation''
      else Inr (turn_key t # unique))"

section \<open>Aggregation\<close>

definition summarize_repetition :: "log_evidence_kind \<Rightarrow> u32 \<Rightarrow> disk_turn list \<Rightarrow> disk_repetition" where
  "summarize_repetition kind repetition turns =
     (let disk = map (\<lambda>t. f_of_u64 (dt_disk_write_bytes t)) turns;
          journal = map (\<lambda>t. f_of_u64 (dt_journal_growth_bytes t)) turns;
          log = List.map_filter (\<lambda>t. map_option f_of_u64 (dt_log_growth_bytes t)) turns;
          p95 = nearest_rank disk 95;
          journal_median = median_or_zero journal;
          log_median = (if kind = DeclaredPaths then Some (median_or_zero log) else None);
          slope = theil_sen_indexed disk;
          midpoint = length disk div 2;
          first = median_or_zero (take midpoint disk);
          second = median_or_zero (drop midpoint disk);
          unbounded = (f_lt (Fin 4096) slope
            \<or> f_lt (f_max (f_mul (Fin (5/4)) first) (f_add first (Fin 65536))) second)
      in \<lparr>dp_repetition = repetition, dp_p50 = nearest_rank disk 50, dp_p95 = p95, dp_max = f_maximum disk,
          dp_journal_median = journal_median, dp_log_median = log_median, dp_slope = slope, dp_unbounded = unbounded,
          dp_passed = (f_le p95 (Fin 67108864) \<and> f_le journal_median (Fin 1048576)
            \<and> (case log_median of None \<Rightarrow> True | Some v \<Rightarrow> f_le v (Fin 1048576))
            \<and> f_le slope (Fin 4096) \<and> \<not> unbounded)\<rparr>)"

definition repetition_turns :: "disk_turn list \<Rightarrow> u32 \<Rightarrow> disk_turn list" where
  "repetition_turns evidence repetition = sort_key dt_turn (filter (\<lambda>t. dt_repetition t = repetition) evidence)"

definition check_repetition :: "log_evidence_kind \<Rightarrow> u32 \<Rightarrow> disk_turn list \<Rightarrow> u32 \<Rightarrow> string + disk_repetition" where
  "check_repetition kind turns evidence repetition =
     (let ts = repetition_turns evidence repetition in
      if length ts \<noteq> unat turns then Inl (''row-47 repetition '' @ show_u32 repetition @ '' is incomplete'')
      else Inr (summarize_repetition kind repetition ts))"

definition disk_repetition_json :: "disk_repetition \<Rightarrow> json" where
  "disk_repetition_json r = json_object
     [(''repetition'', json_u32 (dp_repetition r)),
      (''disk_write_bytes_per_turn_p50'', json_f64 (dp_p50 r)),
      (''disk_write_bytes_per_turn_p95'', json_f64 (dp_p95 r)),
      (''disk_write_bytes_per_turn_max'', json_f64 (dp_max r)),
      (''session_journal_growth_bytes_per_turn'', json_f64 (dp_journal_median r)),
      (''log_growth_bytes_per_turn'', json_option json_f64 (dp_log_median r)),
      (''disk_write_growth_slope_bytes_per_turn2'', json_f64 (dp_slope r)),
      (''unbounded_disk_growth'', JBool (dp_unbounded r)),
      (''passed'', JBool (dp_passed r))]"

definition aggregate_disk :: "log_evidence_kind \<Rightarrow> disk_repetition list \<Rightarrow> disk_evaluation" where
  "aggregate_disk kind rs =
     \<lparr>di_resource_values = bt_of_list
        [(''disk_write_bytes_per_turn_p50'', median_or_zero (map dp_p50 rs)),
         (''disk_write_bytes_per_turn_p95'', median_or_zero (map dp_p95 rs)),
         (''disk_write_bytes_per_turn_max'', f_maximum (map dp_max rs)),
         (''session_journal_growth_bytes_per_turn'', median_or_zero (map dp_journal_median rs)),
         (''disk_write_growth_slope_bytes_per_turn2'', median_or_zero (map dp_slope rs))],
      di_log_growth_bytes_per_turn = (if kind = DeclaredPaths
        then Some (median_or_zero (List.map_filter dp_log_median rs)) else None),
      di_disk_io_counter_complete = True, di_unbounded_disk_growth = list_ex dp_unbounded rs,
      di_details = json_object [(''measurement_complete'', JBool True), (''log_evidence'', JString (log_evidence_name kind)),
        (''repetitions'', json_list disk_repetition_json rs)],
      di_measurement_complete = True, di_reference_envelope_pass = list_all dp_passed rs, di_measurement_error = None\<rparr>"

definition disk_repetitions :: "disk_turn list \<Rightarrow> u32 \<Rightarrow> u32 \<Rightarrow> log_evidence_kind \<Rightarrow> string + disk_repetition list" where
  "disk_repetitions evidence repetitions turns kind =
     (let expected = ucast repetitions * ucast turns :: u64 in
      if length evidence \<noteq> unat expected
      then Inl (''row-47 evidence has '' @ show_nat (length evidence) @ '' turns; expected '' @ show_u64 expected)
      else and_then (fold_ok (check_turn repetitions turns kind) [] evidence) (\<lambda>_.
        collect_ok (check_repetition kind turns evidence) (ordinals repetitions)))"

definition evaluate_disk_io_per_turn :: "disk_turn list \<Rightarrow> u32 \<Rightarrow> u32 \<Rightarrow> log_evidence_kind \<Rightarrow> disk_evaluation" where
  "evaluate_disk_io_per_turn evidence repetitions turns kind =
     (if kind = Omitted
      then disk_incomplete ''resources.log_paths was omitted; omitted logs are not verified-no-log evidence'' kind
      else case disk_repetitions evidence repetitions turns kind of
        Inl error \<Rightarrow> disk_incomplete error kind
      | Inr rs \<Rightarrow> aggregate_disk kind rs)"

section \<open>What validated evidence is\<close>

definition valid_turn :: "u32 \<Rightarrow> u32 \<Rightarrow> log_evidence_kind \<Rightarrow> disk_turn \<Rightarrow> bool" where
  "valid_turn repetitions turns kind t \<longleftrightarrow>
     0 < dt_repetition t \<and> dt_repetition t \<le> repetitions \<and> 0 < dt_turn t \<and> dt_turn t \<le> turns
     \<and> dt_counter_complete t \<and> dt_retired_accounting_complete t \<and> dt_file_identity_complete t
     \<and> (kind = DeclaredPaths \<longrightarrow> dt_log_growth_bytes t \<noteq> None) \<and> (kind = VerifiedNoLog \<longrightarrow> dt_log_growth_bytes t = None)"

lemma check_turn_Inr: "check_turn repetitions turns kind unique t = Inr u \<longleftrightarrow>
    valid_turn repetitions turns kind t \<and> turn_key t \<notin> set unique \<and> u = turn_key t # unique"
  by (auto simp: check_turn_def valid_turn_def word_neq_0_conv)

lemma check_turns_Inr: "(\<exists>u. fold_ok (check_turn repetitions turns kind) unique evidence = Inr u) \<longleftrightarrow>
    list_all (valid_turn repetitions turns kind) evidence \<and> distinct (map turn_key evidence)
    \<and> set (map turn_key evidence) \<inter> set unique = {}"
proof (induction evidence arbitrary: unique)
  case (Cons t evidence)
  have "(\<exists>u. fold_ok (check_turn repetitions turns kind) unique (t # evidence) = Inr u) \<longleftrightarrow>
      valid_turn repetitions turns kind t \<and> turn_key t \<notin> set unique
      \<and> (\<exists>u. fold_ok (check_turn repetitions turns kind) (turn_key t # unique) evidence = Inr u)"
    by (auto simp: and_then_Inr_iff check_turn_Inr)
  then show ?case using Cons.IH [of "turn_key t # unique"] by auto
qed simp

text \<open>Every repetition of validated evidence is complete, so the check per repetition never fails.\<close>

definition all_keys :: "u32 \<Rightarrow> u32 \<Rightarrow> (u32 \<times> u32) set" where
  "all_keys repetitions turns = {1..repetitions} \<times> {1..turns}"

lemma expected_count: "unat (ucast a * ucast b :: u64) = unat (a :: u32) * unat (b :: u32)"
proof -
  have a: "unat a < 2 ^ 32" "unat b < 2 ^ 32" using unsigned_less [of a] unsigned_less [of b] by simp_all
  then have "unat a * unat b < 2 ^ 32 * 2 ^ 32" by (intro mult_strict_mono) auto
  moreover have "take_bit 64 (unat a) = unat a" "take_bit 64 (unat b) = unat b"
    using a by (simp_all add: take_bit_nat_eq_self)
  ultimately show ?thesis by (simp add: unat_word_ariths unsigned_ucast_eq)
qed

section \<open>Properties\<close>

text \<open>
  Row 47 is evaluated exactly when every turn of every repetition was observed once with complete
  counters, and then the evaluation does not depend on the order in which the turns were recorded.
\<close>

section \<open>Complete evidence\<close>

definition evidence_complete :: "log_evidence_kind \<Rightarrow> u32 \<Rightarrow> u32 \<Rightarrow> disk_turn list \<Rightarrow> bool" where
  "evidence_complete kind repetitions turns evidence \<longleftrightarrow>
     length evidence = unat repetitions * unat turns \<and> list_all (valid_turn repetitions turns kind) evidence
     \<and> distinct (map turn_key evidence)"

lemma valid_turn_key: "valid_turn repetitions turns kind t \<Longrightarrow> turn_key t \<in> all_keys repetitions turns"
  by (auto simp: valid_turn_def turn_key_def all_keys_def word_le_nat_alt word_less_nat_alt)

lemma finite_all_keys: "finite (all_keys repetitions turns)"
  by (simp add: all_keys_def finite_words)

lemma card_all_keys: "card (all_keys repetitions turns) = unat repetitions * unat turns"
  by (simp add: all_keys_def card_cartesian_product card_words)

lemma complete_keys:
  assumes "evidence_complete kind repetitions turns evidence"
  shows "turn_key ` set evidence = all_keys repetitions turns"
proof (rule card_subset_eq)
  show "finite (all_keys repetitions turns)" by (rule finite_all_keys)
  show "turn_key ` set evidence \<subseteq> all_keys repetitions turns"
    using assms valid_turn_key [of repetitions turns kind] unfolding evidence_complete_def list_all_iff by blast
  have "card (turn_key ` set evidence) = length evidence"
    using assms distinct_card [of "map turn_key evidence"] by (simp add: evidence_complete_def)
  then show "card (turn_key ` set evidence) = card (all_keys repetitions turns)"
    using assms by (simp add: card_all_keys evidence_complete_def)
qed

lemma repetition_turns_distinct:
  assumes "distinct (map turn_key evidence)"
  shows "distinct (map dt_turn (repetition_turns evidence r))"
proof -
  have "distinct (map turn_key (filter (\<lambda>t. dt_repetition t = r) evidence))"
    using assms by (rule distinct_map_filter)
  then have "distinct (map dt_turn (filter (\<lambda>t. dt_repetition t = r) evidence))"
    by (auto simp: distinct_map inj_on_def turn_key_def)
  then show ?thesis
    by (simp add: repetition_turns_def distinct_map)
qed

lemma complete_repetition:
  assumes "evidence_complete kind repetitions turns evidence" and "r \<in> {1..repetitions}"
  shows "length (repetition_turns evidence r) = unat turns"
proof -
  have "dt_turn ` set (repetition_turns evidence r) = {1..turns}"
  proof
    show "{1..turns} \<subseteq> dt_turn ` set (repetition_turns evidence r)"
    proof
      fix i assume "i \<in> {1..turns}"
      then have "(r, i) \<in> turn_key ` set evidence"
        using assms by (simp add: complete_keys all_keys_def)
      then show "i \<in> dt_turn ` set (repetition_turns evidence r)"
        by (auto simp: repetition_turns_def turn_key_def)
    qed
    have "turn_key t \<in> all_keys repetitions turns" if "t \<in> set evidence" for t
      using complete_keys [OF assms(1)] that by blast
    then show "dt_turn ` set (repetition_turns evidence r) \<subseteq> {1..turns}"
      by (fastforce simp: repetition_turns_def turn_key_def all_keys_def)
  qed
  moreover have "distinct (map dt_turn (repetition_turns evidence r))"
    using assms(1) by (intro repetition_turns_distinct) (simp add: evidence_complete_def)
  ultimately show ?thesis using distinct_card [of "map dt_turn (repetition_turns evidence r)"] by (simp add: card_words)
qed

lemma disk_repetitions_complete:
  assumes "evidence_complete kind repetitions turns evidence"
  shows "disk_repetitions evidence repetitions turns kind
    = Inr (map (\<lambda>r. summarize_repetition kind r (repetition_turns evidence r)) (ordinals repetitions))"
proof -
  have "\<exists>u. fold_ok (check_turn repetitions turns kind) [] evidence = Inr u"
    using assms by (simp add: check_turns_Inr evidence_complete_def)
  moreover have "collect_ok (check_repetition kind turns evidence) (ordinals repetitions)
      = Inr (map (\<lambda>r. summarize_repetition kind r (repetition_turns evidence r)) (ordinals repetitions))"
    using complete_repetition [OF assms]
    by (auto simp: collect_ok_Inr_iff list_all2_map2 check_repetition_def set_ordinals intro!: list.rel_refl_strong)
  ultimately show ?thesis
    using assms by (auto simp: disk_repetitions_def expected_count evidence_complete_def)
qed

lemma disk_repetitions_Inr:
  assumes "disk_repetitions evidence repetitions turns kind = Inr rs"
  shows "evidence_complete kind repetitions turns evidence"
  using assms check_turns_Inr [of repetitions turns kind "[]" evidence]
  by (auto simp: disk_repetitions_def expected_count evidence_complete_def and_then_Inr_iff split: if_splits)

lemma evaluate_complete:
  assumes "evidence_complete kind repetitions turns evidence" and "kind \<noteq> Omitted"
  shows "evaluate_disk_io_per_turn evidence repetitions turns kind
    = aggregate_disk kind (map (\<lambda>r. summarize_repetition kind r (repetition_turns evidence r)) (ordinals repetitions))"
  using assms by (simp add: evaluate_disk_io_per_turn_def disk_repetitions_complete)

lemma evaluate_measured: "di_measurement_complete (evaluate_disk_io_per_turn evidence repetitions turns kind)
    \<longleftrightarrow> kind \<noteq> Omitted \<and> evidence_complete kind repetitions turns evidence"
  using disk_repetitions_Inr [of evidence repetitions turns kind]
  by (auto simp: evaluate_disk_io_per_turn_def disk_incomplete_def aggregate_disk_def disk_repetitions_complete
      split: sum.splits)

definition recorded :: "log_evidence_kind \<Rightarrow> disk_turn \<Rightarrow> bool" where
  "recorded kind t \<longleftrightarrow> dt_counter_complete t \<and> dt_retired_accounting_complete t \<and> dt_file_identity_complete t
     \<and> (dt_log_growth_bytes t \<noteq> None) = (kind = DeclaredPaths)"

lemma valid_turn_iff: "kind \<noteq> Omitted \<Longrightarrow> valid_turn repetitions turns kind t \<longleftrightarrow>
    turn_key t \<in> all_keys repetitions turns \<and> recorded kind t"
  by (cases kind) (auto simp: valid_turn_def turn_key_def all_keys_def recorded_def word_le_nat_alt word_less_nat_alt)

lemma mset_eq_mset_set_iff: "finite A \<Longrightarrow> mset xs = mset_set A \<longleftrightarrow> distinct xs \<and> set xs = A"
proof
  assume "finite A" and eq: "mset xs = mset_set A"
  moreover have "set xs = A" using arg_cong [OF eq, of set_mset] \<open>finite A\<close> by simp
  moreover have "distinct xs"
    using eq \<open>finite A\<close> \<open>set xs = A\<close> by (simp add: distinct_count_atmost_1)
  ultimately show "distinct xs \<and> set xs = A" by simp
qed (auto simp: mset_set_set)

lemma evidence_complete_mset: "mset evidence' = mset evidence \<Longrightarrow>
    evidence_complete kind repetitions turns evidence' \<longleftrightarrow> evidence_complete kind repetitions turns evidence"
proof -
  assume eq: "mset evidence' = mset evidence"
  then have "mset (map turn_key evidence') = mset (map turn_key evidence)" by simp
  then have "distinct (map turn_key evidence') = distinct (map turn_key evidence)"
    by (rule mset_eq_imp_distinct_iff)
  then show ?thesis
    using mset_eq_length [OF eq] mset_eq_setD [OF eq] by (simp add: evidence_complete_def list_all_iff)
qed

lemma repetition_turns_mset:
  assumes "mset evidence' = mset evidence" and "distinct (map turn_key evidence)"
  shows "repetition_turns evidence' r = repetition_turns evidence r"
  unfolding repetition_turns_def [of evidence']
proof (rule sort_key_inj_key_eq)
  show "mset (filter (\<lambda>t. dt_repetition t = r) evidence') = mset (repetition_turns evidence r)"
    by (simp only: repetition_turns_def mset_sort mset_filter assms(1))
  have "set (repetition_turns evidence r) = set (filter (\<lambda>t. dt_repetition t = r) evidence')"
    using mset_eq_setD [OF assms(1)] by (simp add: repetition_turns_def)
  then show "inj_on dt_turn (set (filter (\<lambda>t. dt_repetition t = r) evidence'))"
    using repetition_turns_distinct [OF assms(2), of r] by (simp add: distinct_map)
  show "sorted (map dt_turn (repetition_turns evidence r))" by (simp add: repetition_turns_def)
qed

section \<open>The claims\<close>

text \<open>row 47 counts as measured exactly when the log paths were declared and every pair of a
  repetition \<open>1..R\<close> and a turn \<open>1..T\<close> was recorded once, each record with complete counters, file
  identities and log growth; no other evidence is evaluated, and complete evidence never fails the later
  check of a repetition's turns.\<close>

theorem disk_io_measured_exactly:
  "di_measurement_complete (evaluate_disk_io_per_turn evidence repetitions turns kind) \<longleftrightarrow>
     kind \<noteq> Omitted
     \<and> mset (map (\<lambda>t. (dt_repetition t, dt_turn t)) evidence) = mset_set ({1..repetitions} \<times> {1..turns})
     \<and> list_all (\<lambda>t. dt_counter_complete t \<and> dt_retired_accounting_complete t \<and> dt_file_identity_complete t
         \<and> (dt_log_growth_bytes t \<noteq> None) = (kind = DeclaredPaths)) evidence"
proof -
  have "mset (map turn_key evidence) = mset_set (all_keys repetitions turns)
      \<longleftrightarrow> distinct (map turn_key evidence) \<and> turn_key ` set evidence = all_keys repetitions turns"
    by (simp only: mset_eq_mset_set_iff [OF finite_all_keys] set_map)
  moreover have "kind \<noteq> Omitted \<Longrightarrow> list_all (recorded kind) evidence \<and> turn_key ` set evidence = all_keys repetitions turns
      \<Longrightarrow> list_all (valid_turn repetitions turns kind) evidence"
    by (auto simp: list_all_iff valid_turn_iff)
  moreover have "kind \<noteq> Omitted \<Longrightarrow> list_all (valid_turn repetitions turns kind) evidence \<Longrightarrow> list_all (recorded kind) evidence"
    by (auto simp: list_all_iff valid_turn_iff)
  moreover have "length evidence = unat repetitions * unat turns"
    if "distinct (map turn_key evidence)" "turn_key ` set evidence = all_keys repetitions turns"
    using that distinct_card [of "map turn_key evidence"] by (simp add: card_all_keys)
  ultimately show ?thesis
    using complete_keys [of kind repetitions turns evidence]
    unfolding evaluate_measured evidence_complete_def turn_key_def [abs_def] all_keys_def recorded_def [abs_def]
    by blast
qed

text \<open>Complete evidence is evaluated the same in whatever order its turns were recorded: the values,
  the flags and the JSON details are functions of the multiset of turns.\<close>

theorem disk_io_order_independent:
  assumes "mset recorded_order = mset evidence"
    and "di_measurement_complete (evaluate_disk_io_per_turn evidence repetitions turns kind)"
  shows "evaluate_disk_io_per_turn recorded_order repetitions turns kind
    = evaluate_disk_io_per_turn evidence repetitions turns kind"
proof -
  have kind: "kind \<noteq> Omitted" and complete: "evidence_complete kind repetitions turns evidence"
    using assms(2) unfolding evaluate_measured by simp_all
  have same: "evidence_complete kind repetitions turns recorded_order"
    using complete unfolding evidence_complete_mset [OF assms(1)] .
  have "repetition_turns recorded_order r = repetition_turns evidence r" for r
    using complete unfolding evidence_complete_def by (intro repetition_turns_mset [OF assms(1)]) simp
  then show ?thesis
    unfolding evaluate_complete [OF complete kind] evaluate_complete [OF same kind] by simp
qed

definition sample_turn :: "u32 \<Rightarrow> u32 \<Rightarrow> u64 \<Rightarrow> disk_turn" where
  "sample_turn r t written =
     \<lparr>dt_repetition = r, dt_turn = t, dt_disk_write_bytes = written, dt_journal_growth_bytes = 0,
      dt_log_growth_bytes = None, dt_counter_complete = True, dt_file_identity_complete = True,
      dt_retired_accounting_complete = True\<rparr>"

lemma sample_measured: "di_measurement_complete (evaluate_disk_io_per_turn
    [sample_turn 1 1 100, sample_turn 1 2 300] 1 2 VerifiedNoLog)"
  by (simp add: evaluate_measured evidence_complete_def valid_turn_def sample_turn_def turn_key_def)

theorem disk_io_order_independent_witness:
  "evaluate_disk_io_per_turn [sample_turn 1 2 300, sample_turn 1 1 100] 1 2 VerifiedNoLog
    = evaluate_disk_io_per_turn [sample_turn 1 1 100, sample_turn 1 2 300] 1 2 VerifiedNoLog
   \<and> di_measurement_complete (evaluate_disk_io_per_turn [sample_turn 1 1 100, sample_turn 1 2 300] 1 2 VerifiedNoLog)"
  by (rule conjI [OF disk_io_order_independent [OF _ sample_measured] sample_measured]) simp

end
