(* ===== verification/Tool_Capture.thy ===== *)
theory Tool_Capture
  imports Wave_Statistics
begin

text \<open>
  Row 60 of \<open>src/src/wave2.rs\<close>: the bounded capture of a tool's output, which keeps a prefix and digests
  the whole stream, its truncation marker, and the evaluation of the trials.  SHA-256 is a parameter:
  the incremental hasher (fresh state, \<open>update\<close>, \<open>finalize\<close>) as a record of functions.
\<close>

section \<open>The capture\<close>

record 'h hasher =
  ha_fresh :: 'h
  ha_update :: "'h \<Rightarrow> nat list \<Rightarrow> 'h"
  ha_finalize :: "'h \<Rightarrow> nat list"

text \<open>The documented contract of an incremental digest: it depends on the bytes, not on the chunks.\<close>

definition hasher_law :: "'h hasher \<Rightarrow> bool" where
  "hasher_law H \<longleftrightarrow> (\<forall>h. ha_finalize H (ha_update H h []) = ha_finalize H h)
     \<and> (\<forall>h xs ys. ha_finalize H (ha_update H (ha_update H h xs) ys) = ha_finalize H (ha_update H h (xs @ ys)))"

record 'h tool_capture =
  tc_capture_limit :: nat
  tc_retained :: "nat list"
  tc_original_bytes :: u64
  tc_digest :: 'h

definition capture_new :: "'h hasher \<Rightarrow> nat \<Rightarrow> 'h tool_capture" where
  "capture_new H capture_limit =
     \<lparr>tc_capture_limit = capture_limit, tc_retained = [], tc_original_bytes = 0, tc_digest = ha_fresh H\<rparr>"

definition capture_push :: "'h hasher \<Rightarrow> nat list \<Rightarrow> 'h tool_capture \<Rightarrow> 'h tool_capture" where
  "capture_push H bytes c =
     (let available = tc_capture_limit c - length (tc_retained c);
          count = min available (length bytes)
      in c\<lparr>tc_original_bytes := saturating_add (tc_original_bytes c) (of_nat (length bytes)),
           tc_digest := ha_update H (tc_digest c) bytes,
           tc_retained := tc_retained c @ take count bytes\<rparr>)"

record large_output_capture =
  lo_original_bytes :: u64
  lo_payload_bytes :: u64
  lo_encoded :: "nat list"
  lo_sha256 :: string

definition render_truncation_marker :: "u64 \<Rightarrow> u64 \<Rightarrow> string \<Rightarrow> string" where
  "render_truncation_marker original_bytes payload_bytes sha256 =
     ''TRUNCATED truncated=true original='' @ show_u64 original_bytes @ '' payload='' @ show_u64 payload_bytes
       @ '' sha256='' @ sha256"

definition hex_char :: "nat \<Rightarrow> char" where
  "hex_char n = ''0123456789abcdef'' ! n"

definition lower_hex :: "nat list \<Rightarrow> string" where
  "lower_hex bytes = concat (map (\<lambda>b. [hex_char (b div 16), hex_char (b mod 16)]) bytes)"

text \<open>The loop of \<open>finish\<close>: shorten the payload until payload, separator and marker fit.\<close>

fun fit_payload :: "'h tool_capture \<Rightarrow> string \<Rightarrow> nat \<Rightarrow> nat \<Rightarrow> large_output_capture" where
  "fit_payload c digest encoded_limit payload_len =
     (let marker = utf8_bytes (render_truncation_marker (tc_original_bytes c) (of_nat payload_len) digest);
          separator = (if 0 < payload_len then 1 else 0)
      in if payload_len + separator + length marker \<le> encoded_limit
         then \<lparr>lo_original_bytes = tc_original_bytes c, lo_payload_bytes = of_nat payload_len,
               lo_encoded = take payload_len (tc_retained c) @ (if 0 < payload_len then [10] else []) @ marker,
               lo_sha256 = digest\<rparr>
         else if payload_len = 0
         then \<lparr>lo_original_bytes = tc_original_bytes c, lo_payload_bytes = 0, lo_encoded = marker, lo_sha256 = digest\<rparr>
         else fit_payload c digest encoded_limit (payload_len - 1))"

declare fit_payload.simps [simp del]

definition capture_finish :: "'h hasher \<Rightarrow> 'h tool_capture \<Rightarrow> nat \<Rightarrow> large_output_capture" where
  "capture_finish H c encoded_limit =
     fit_payload c (lower_hex (ha_finalize H (tc_digest c))) encoded_limit (min (length (tc_retained c)) encoded_limit)"

section \<open>Evaluation\<close>

record large_output_trial =
  lt_repetition :: u32
  lt_produced_bytes :: u64
  lt_model_visible_bytes :: u64
  lt_model_visible_encoded_bytes :: u64
  lt_harness_output_limit_bytes :: u64
  lt_evidence_captured_bytes :: u64
  lt_evidence_capture_limit_bytes :: u64
  lt_truncated :: bool
  lt_marker_original_bytes :: u64
  lt_marker_payload_bytes :: u64
  lt_marker_sha256 :: string
  lt_external_sha256 :: string
  lt_call_id :: string
  lt_result_call_id :: string
  lt_result_in_next_request :: bool
  lt_peak_rss_delta_mib :: f64
  lt_terminal_success :: bool
  lt_oom :: bool

record large_output_evaluation =
  lv_metrics :: "(string, f64) btree"
  lv_peak_rss_delta_mib :: "f64 option"
  lv_details :: json
  lv_measurement_complete :: bool
  lv_passed :: bool
  lv_measurement_error :: "string option"

definition large_incomplete :: "string \<Rightarrow> large_output_evaluation" where
  "large_incomplete detail =
     \<lparr>lv_metrics = [], lv_peak_rss_delta_mib = None,
      lv_details = json_object [(''measurement_complete'', JBool False), (''measurement_error'', JString detail)],
      lv_measurement_complete = False, lv_passed = False, lv_measurement_error = Some detail\<rparr>"

definition lower_hexdigit :: "char \<Rightarrow> bool" where
  "lower_hexdigit c \<longleftrightarrow> is_digit c \<or> (97 \<le> (of_char c :: nat) \<and> (of_char c :: nat) \<le> 102)"

definition large_trial_invalid :: "large_output_trial \<Rightarrow> bool" where
  "large_trial_invalid t \<longleftrightarrow>
     length (utf8_bytes (lt_marker_sha256 t)) \<noteq> 64 \<or> length (utf8_bytes (lt_external_sha256 t)) \<noteq> 64
     \<or> \<not> list_all lower_hexdigit (lt_marker_sha256 t) \<or> \<not> list_all lower_hexdigit (lt_external_sha256 t)
     \<or> lt_call_id t = [] \<or> lt_result_call_id t = []
     \<or> \<not> f_is_finite (lt_peak_rss_delta_mib t) \<or> f_lt (lt_peak_rss_delta_mib t) (Fin 0)"

definition same_counts :: "large_output_trial \<Rightarrow> large_output_trial \<Rightarrow> bool" where
  "same_counts first t \<longleftrightarrow>
     lt_produced_bytes t = lt_produced_bytes first \<and> lt_model_visible_bytes t = lt_model_visible_bytes first
     \<and> lt_model_visible_encoded_bytes t = lt_model_visible_encoded_bytes first
     \<and> lt_harness_output_limit_bytes t = lt_harness_output_limit_bytes first
     \<and> lt_evidence_captured_bytes t = lt_evidence_captured_bytes first
     \<and> lt_evidence_capture_limit_bytes t = lt_evidence_capture_limit_bytes first"

definition large_trial_passed :: "f64 \<Rightarrow> large_output_trial \<Rightarrow> bool" where
  "large_trial_passed memory_limit t \<longleftrightarrow>
     lt_produced_bytes t = 10485760 \<and> lt_truncated t
     \<and> lt_model_visible_encoded_bytes t \<le> lt_harness_output_limit_bytes t
     \<and> lt_model_visible_bytes t = lt_marker_payload_bytes t
     \<and> lt_marker_original_bytes t = lt_produced_bytes t
     \<and> lt_marker_sha256 t = lt_external_sha256 t
     \<and> lt_call_id t = lt_result_call_id t \<and> lt_result_in_next_request t
     \<and> lt_evidence_captured_bytes t \<le> lt_evidence_capture_limit_bytes t
     \<and> f_le (lt_peak_rss_delta_mib t) memory_limit \<and> lt_terminal_success t \<and> \<not> lt_oom t"

definition flag_metric :: "bool \<Rightarrow> f64" where
  "flag_metric b = (if b then Fin 1 else Fin 0)"

definition large_metrics :: "large_output_trial \<Rightarrow> large_output_trial list \<Rightarrow> (string, f64) btree" where
  "large_metrics first trials = bt_of_list
     [(''large_tool_output.produced_bytes'', f_of_u64 (lt_produced_bytes first)),
      (''large_tool_output.model_visible_bytes'', f_of_u64 (lt_model_visible_bytes first)),
      (''large_tool_output.model_visible_encoded_bytes'', f_of_u64 (lt_model_visible_encoded_bytes first)),
      (''large_tool_output.harness_output_limit_bytes'', f_of_u64 (lt_harness_output_limit_bytes first)),
      (''large_tool_output.evidence_captured_bytes'', f_of_u64 (lt_evidence_captured_bytes first)),
      (''large_tool_output.evidence_capture_limit_bytes'', f_of_u64 (lt_evidence_capture_limit_bytes first)),
      (''large_tool_output.truncated'', flag_metric (list_all lt_truncated trials)),
      (''large_tool_output.terminal_success'', flag_metric (list_all lt_terminal_success trials)),
      (''large_tool_output.tool_result_correlated'',
         flag_metric (list_all (\<lambda>t. lt_call_id t = lt_result_call_id t \<and> lt_result_in_next_request t) trials))]"

definition large_trial_json :: "large_output_trial \<Rightarrow> json" where
  "large_trial_json t = json_object
     [(''repetition'', json_u32 (lt_repetition t)),
      (''truncation_marker'', json_object
         [(''truncated'', JBool (lt_truncated t)), (''original_bytes'', json_u64 (lt_marker_original_bytes t)),
          (''payload_bytes'', json_u64 (lt_marker_payload_bytes t)), (''sha256'', JString (lt_marker_sha256 t))]),
      (''call_id'', JString (lt_call_id t)), (''result_call_id'', JString (lt_result_call_id t)),
      (''peak_rss_delta_mib'', json_f64 (lt_peak_rss_delta_mib t))]"

text \<open>The keys are \<open>1..=n\<close> exactly when they are distinct and their least and greatest are 1 and \<open>n\<close>.\<close>

definition repetition_keys_invalid :: "u32 list \<Rightarrow> u32 \<Rightarrow> bool" where
  "repetition_keys_invalid keys expected =
     (let repetitions = bset_of_list keys
      in length repetitions \<noteq> length keys \<or> repetitions = [] \<or> hd repetitions \<noteq> 1 \<or> last repetitions \<noteq> expected)"

definition evaluate_large_tool_output :: "large_output_trial list \<Rightarrow> u32 \<Rightarrow> large_output_evaluation" where
  "evaluate_large_tool_output trials expected =
     (if length trials \<noteq> unat expected
      then large_incomplete (''large-output evidence has '' @ show_nat (length trials) @ '' trials; expected '' @ show_u32 expected)
      else if repetition_keys_invalid (map lt_repetition trials) expected
      then large_incomplete ''large-output repetition keys are incomplete or duplicated''
      else if list_ex large_trial_invalid trials
      then large_incomplete ''large-output byte, digest, identity, or memory evidence is invalid''
      else let first = trials ! 0 in
        if \<not> list_all (same_counts first) trials
        then large_incomplete ''large-output exact byte/limit fields differ across trials''
        else let memory_limit = f_max (f_div (f_mul (Fin 4) (f_of_u64 (lt_harness_output_limit_bytes first))) (Fin 1048576)) (Fin 128)
          in \<lparr>lv_metrics = large_metrics first trials,
              lv_peak_rss_delta_mib = Some (f_maximum (map lt_peak_rss_delta_mib trials)),
              lv_details = json_object [(''measurement_complete'', JBool True),
                (''trials'', json_list large_trial_json trials), (''memory_baseline'', JString ''topology-profile-scoped'')],
              lv_measurement_complete = True, lv_passed = list_all (large_trial_passed memory_limit) trials,
              lv_measurement_error = None\<rparr>)"

section \<open>Properties\<close>

text \<open>
  The bounded capture against its specification: whatever chunks a tool's output arrives in, the result
  names the size and the digest of the whole stream and shows its longest prefix that fits.
\<close>

section \<open>The state after a stream\<close>

definition capture_stream :: "'h hasher \<Rightarrow> nat \<Rightarrow> nat list list \<Rightarrow> 'h tool_capture" where
  "capture_stream H capture_limit chunks = foldl (\<lambda>c bytes. capture_push H bytes c) (capture_new H capture_limit) chunks"

lemma saturating_add_of_nat: "a + b < 2 ^ 64 \<Longrightarrow> saturating_add (of_nat a) (of_nat b) = (of_nat (a + b) :: u64)"
  by (simp add: saturating_add_def unat_of_nat take_bit_nat_eq_self)

lemma capture_push_fields:
  "tc_capture_limit (capture_push H bytes c) = tc_capture_limit c"
  "tc_digest (capture_push H bytes c) = ha_update H (tc_digest c) bytes"
  "tc_retained c = take (tc_capture_limit c) xs \<Longrightarrow> tc_retained (capture_push H bytes c) = take (tc_capture_limit c) (xs @ bytes)"
  "tc_original_bytes (capture_push H bytes c) = saturating_add (tc_original_bytes c) (of_nat (length bytes))"
  by (auto simp: capture_push_def Let_def min_def)

lemma capture_pushes:
  assumes "tc_retained c = take (tc_capture_limit c) xs" and "tc_original_bytes c = of_nat (length xs)"
    and "length xs + length (concat chunks) < 2 ^ 64"
  shows "tc_retained (foldl (\<lambda>c bytes. capture_push H bytes c) c chunks) = take (tc_capture_limit c) (xs @ concat chunks)
    \<and> tc_original_bytes (foldl (\<lambda>c bytes. capture_push H bytes c) c chunks) = of_nat (length (xs @ concat chunks))
    \<and> tc_digest (foldl (\<lambda>c bytes. capture_push H bytes c) c chunks) = foldl (ha_update H) (tc_digest c) chunks"
  using assms
proof (induction chunks arbitrary: c xs)
  case (Cons bytes chunks)
  then show ?case
    using Cons.IH [of "capture_push H bytes c" "xs @ bytes"]
    by (simp add: capture_push_fields saturating_add_of_nat)
qed simp

lemma digest_chunks:
  assumes "hasher_law H"
  shows "ha_finalize H (foldl (ha_update H) h chunks) = ha_finalize H (ha_update H h (concat chunks))"
  using assms by (induction chunks arbitrary: h) (simp_all add: hasher_law_def)

lemma capture_stream_fields:
  assumes "length (concat chunks) < 2 ^ 64"
  shows "tc_retained (capture_stream H limit chunks) = take limit (concat chunks)"
    and "tc_original_bytes (capture_stream H limit chunks) = of_nat (length (concat chunks))"
    and "hasher_law H \<Longrightarrow> ha_finalize H (tc_digest (capture_stream H limit chunks))
      = ha_finalize H (ha_update H (ha_fresh H) (concat chunks))"
  using capture_pushes [of "capture_new H limit" "[]" chunks H] assms digest_chunks [of H "ha_fresh H" chunks]
  by (simp_all add: capture_stream_def capture_new_def)

section \<open>The payload that fits\<close>

definition payload_fits :: "u64 \<Rightarrow> string \<Rightarrow> nat \<Rightarrow> nat \<Rightarrow> bool" where
  "payload_fits original digest encoded_limit n \<longleftrightarrow>
     n + (if 0 < n then 1 else 0) + length (utf8_bytes (render_truncation_marker original (of_nat n) digest)) \<le> encoded_limit"

definition best_payload :: "u64 \<Rightarrow> string \<Rightarrow> nat \<Rightarrow> nat \<Rightarrow> nat" where
  "best_payload original digest encoded_limit n = Max (insert 0 {m \<in> {..n}. payload_fits original digest encoded_limit m})"

definition capture_output :: "nat list \<Rightarrow> u64 \<Rightarrow> string \<Rightarrow> nat \<Rightarrow> large_output_capture" where
  "capture_output stream original digest n =
     \<lparr>lo_original_bytes = original, lo_payload_bytes = of_nat n,
      lo_encoded = take n stream @ (if 0 < n then [10] else []) @ utf8_bytes (render_truncation_marker original (of_nat n) digest),
      lo_sha256 = digest\<rparr>"

lemma best_payload_Suc: "best_payload original digest limit (Suc n) =
    (if payload_fits original digest limit (Suc n) then Suc n else best_payload original digest limit n)"
proof (cases "payload_fits original digest limit (Suc n)")
  case True
  then have "Max (insert 0 {m \<in> {..Suc n}. payload_fits original digest limit m}) = Suc n"
    by (intro Max_eqI) auto
  then show ?thesis using True by (simp add: best_payload_def)
next
  case False
  then have "{m \<in> {..Suc n}. payload_fits original digest limit m} = {m \<in> {..n}. payload_fits original digest limit m}"
    by (auto simp: le_Suc_eq)
  then show ?thesis using False by (simp add: best_payload_def)
qed

lemma best_payload_0: "best_payload original digest limit 0 = 0"
proof -
  have "insert 0 {m \<in> {..0}. payload_fits original digest limit m} = {0}" by auto
  then show ?thesis unfolding best_payload_def by (simp only: Max_singleton)
qed

lemma fit_payload_best: "fit_payload c digest limit n =
    capture_output (tc_retained c) (tc_original_bytes c) digest (best_payload (tc_original_bytes c) digest limit n)"
proof (induction n)
  case 0
  then show ?case by (simp add: fit_payload.simps [of c digest limit 0] best_payload_0 capture_output_def Let_def)
next
  case (Suc n)
  then show ?case
    by (simp add: fit_payload.simps [of c digest limit "Suc n"] best_payload_Suc payload_fits_def capture_output_def Let_def)
qed

lemma best_payload_le: "best_payload original digest limit n \<le> n"
  by (induction n) (simp_all add: best_payload_0 best_payload_Suc)

section \<open>The claim\<close>

text \<open>C31: for every way a tool's output is cut into chunks, the finished capture is determined by the
  whole stream alone: it reports the stream's length and digest, and shows the longest prefix of the
  stream that, within the capture limit, fits the encoded limit together with its separator and marker
  (no payload at all when none fits).  Hypotheses: the digest's documented contract and a stream shorter
  than \<open>2^64\<close> bytes.\<close>

theorem capture_of_stream:
  assumes "hasher_law H" and "length (concat chunks) < 2 ^ 64"
  shows "capture_finish H (foldl (\<lambda>c bytes. capture_push H bytes c) (capture_new H capture_limit) chunks) encoded_limit =
    (let stream = concat chunks; original = of_nat (length stream);
         digest = lower_hex (ha_finalize H (ha_update H (ha_fresh H) stream))
     in capture_output stream original digest
          (best_payload original digest encoded_limit (min (min capture_limit (length stream)) encoded_limit)))"
proof -
  have "capture_output (take capture_limit stream) original digest
        (best_payload original digest encoded_limit (min (min capture_limit (length stream)) encoded_limit))
      = capture_output stream original digest
        (best_payload original digest encoded_limit (min (min capture_limit (length stream)) encoded_limit))"
    for stream original digest
    using best_payload_le [of original digest encoded_limit "min (min capture_limit (length stream)) encoded_limit"]
    by (simp add: capture_output_def min_absorb1)
  then show ?thesis
    unfolding capture_stream_def [symmetric] capture_finish_def fit_payload_best Let_def
      capture_stream_fields(1,2) [OF assms(2)] capture_stream_fields(3) [OF assms(2,1)] length_take min.commute [of "length _" capture_limit]
    by blast
qed

text \<open>A digest with the contract: the running sum of the bytes.\<close>

definition sum_hasher :: "nat hasher" where
  "sum_hasher = \<lparr>ha_fresh = 0, ha_update = (\<lambda>h bytes. (h + sum_list bytes) mod 256), ha_finalize = (\<lambda>h. [h mod 256])\<rparr>"

lemma sum_hasher_law: "hasher_law sum_hasher"
  by (simp add: hasher_law_def sum_hasher_def mod_simps add.assoc)

theorem capture_of_stream_witness:
  "hasher_law sum_hasher \<and>
   capture_finish sum_hasher (foldl (\<lambda>c bytes. capture_push sum_hasher bytes c) (capture_new sum_hasher 4) [[1, 2], [3], [4, 5, 6]]) 70 =
    (let stream = concat [[1, 2], [3], [4, 5, 6]]; original = of_nat (length stream);
         digest = lower_hex (ha_finalize sum_hasher (ha_update sum_hasher (ha_fresh sum_hasher) stream))
     in capture_output stream original digest
          (best_payload original digest 70 (min (min 4 (length stream)) 70)))"
  by (rule conjI [OF sum_hasher_law capture_of_stream [OF sum_hasher_law]]) simp

end
