(* ===== verification/Paced.thy ===== *)
theory Paced
  imports Wave_Statistics "HOL-Library.Product_Lexorder" "HOL-Library.Multiset"
begin

text \<open>
  The validation of a paced model response, shared by rows 48 and 59 of \<open>src/src/wave2.rs\<close>: the
  scheduler's ledger of \<open>src/src/fake_model.rs\<close> and the frames its body yielded are two independent
  records of one response, and a trial is trusted only when they agree.  The debug rendering of a
  response's identity, used in error texts only, is the parameter \<open>show_id\<close>.
\<close>

section \<open>The records\<close>

record frame_observation =
  fo_scenario :: string
  fo_actor :: string
  fo_checkpoint :: string
  fo_attempt :: u64
  fo_frontend :: string
  fo_ordinal :: u32
  fo_scheduled_ns :: u64
  fo_frame_yielded_ns :: u64
  fo_bytes :: u64

record frame_boundary =
  fb_ordinal :: u32
  fb_scheduled_ns :: u64
  fb_timer_fired_ns :: u64
  fb_yielded_ns :: "u64 option"
  fb_body_dropped_ns :: "u64 option"

record paced_ledger =
  pl_scenario :: string
  pl_actor :: string
  pl_checkpoint :: string
  pl_attempt :: u64
  pl_frontend :: string
  pl_response_headers_ns :: u64
  pl_expected_count :: u32
  pl_frames :: "frame_boundary list"
  pl_scheduler_terminal_ns :: "u64 option"
  pl_connection_closed_ns :: "u64 option"

record validated_frames =
  vf_bytes :: u64
  vf_last_yield_ns :: u64
  vf_max_inter_frame_ms :: f64

record paced_trial =
  pt_frames :: "validated_frames option"
  pt_bytes_yielded :: u64
  pt_max_inter_frame_ms :: f64
  pt_final_scheduler_ns :: u64
  pt_early_consumer_close :: bool

type_synonym physical_id = "string \<times> string \<times> string \<times> u64 \<times> string"

definition ledger_identity :: "paced_ledger \<Rightarrow> physical_id" where
  "ledger_identity l = (pl_scenario l, pl_actor l, pl_checkpoint l, pl_attempt l, pl_frontend l)"

definition observed_identity :: "frame_observation \<Rightarrow> physical_id" where
  "observed_identity f = (fo_scenario f, fo_actor f, fo_checkpoint f, fo_attempt f, fo_frontend f)"

section \<open>Ordinals and their boundaries\<close>

definition ordinal_at :: "nat \<Rightarrow> u32 option" where
  "ordinal_at index = (if Suc index < 2 ^ 32 then Some (of_nat (Suc index)) else None)"

definition boundary_at :: "u64 \<Rightarrow> u32 \<Rightarrow> u64 option" where
  "boundary_at headers ordinal = checked_add headers (saturating_mul (ucast ordinal) 1000000000)"

definition pacing_limit_ns :: u64 where
  "pacing_limit_ns = 1250000000"

definition gap_text :: "u64 \<Rightarrow> string" where
  "gap_text gap = show_fixed3 (ns_to_ms gap) @ '' ms exceeded 1250 ms''"

section \<open>Frames of a complete response\<close>

definition physical_groups :: "frame_observation list \<Rightarrow> (physical_id, u32 list) btree" where
  "physical_groups frames = foldl (\<lambda>m f. bt_insert (observed_identity f)
      ((case bt_get m (observed_identity f) of None \<Rightarrow> [] | Some os \<Rightarrow> os) @ [fo_ordinal f]) m) [] frames"

definition show_ordinals :: "u32 list \<Rightarrow> string" where
  "show_ordinals os = ''['' @ join '', '' (map show_u32 os) @ '']''"

definition check_group :: "(physical_id \<Rightarrow> string) \<Rightarrow> u32 \<Rightarrow> physical_id \<times> u32 list \<Rightarrow> string + unit" where
  "check_group show_id expected_count entry =
     (let os = sort (snd entry) in
      guard (os = ordinals expected_count)
        (''physical response '' @ show_id (fst entry) @ '' has paced ordinals '' @ show_ordinals os @ ''; expected 1..=''
          @ show_u32 expected_count @ ''; receipts retained without deduplication''))"

text \<open>The state of the loop: the previous yield, the greatest gap and the bytes.\<close>

definition check_trickle_frame :: "u64 \<Rightarrow> u64 \<times> u64 \<times> u64 \<Rightarrow> nat \<times> frame_observation \<Rightarrow> string + u64 \<times> u64 \<times> u64" where
  "check_trickle_frame headers s x =
     (case s of (previous, max_gap, bytes) \<Rightarrow> case x of (index, f) \<Rightarrow>
      and_then (ok_or (ordinal_at index) ''paced-frame ordinal overflow'') (\<lambda>ordinal.
      if fo_ordinal f \<noteq> ordinal then Inl ''paced-frame ordinals are missing or duplicated''
      else if fo_bytes f \<noteq> 1
      then Inl (''paced frame '' @ show_u32 (fo_ordinal f) @ '' carried '' @ show_u64 (fo_bytes f) @ '' bytes instead of one'')
      else and_then (ok_or (boundary_at headers ordinal) ''paced-frame scheduled boundary overflow'') (\<lambda>scheduled.
      if fo_scheduled_ns f \<noteq> scheduled \<or> fo_frame_yielded_ns f < fo_scheduled_ns f
      then Inl (''paced frame '' @ show_u32 (fo_ordinal f) @ '' has an invalid scheduled/yield boundary'')
      else and_then (ok_or (checked_sub (fo_frame_yielded_ns f) previous) ''paced-frame yield boundaries regressed'') (\<lambda>gap.
      Inr (fo_frame_yielded_ns f, max max_gap gap, saturating_add bytes (fo_bytes f))))))"

definition validate_trickle_frames ::
  "(physical_id \<Rightarrow> string) \<Rightarrow> frame_observation list \<Rightarrow> u64 \<Rightarrow> u32 \<Rightarrow> string + validated_frames" where
  "validate_trickle_frames show_id frames headers expected_count =
     (if headers = 0 then Inl ''provider response-header boundary is missing''
      else let physical = physical_groups frames in
        and_then (first_error (check_group show_id expected_count) physical) (\<lambda>_.
        if length physical \<noteq> 1
        then Inl (''paced trial observed '' @ show_nat (length physical)
          @ '' physical responses; expected exactly one complete response'')
        else if length frames \<noteq> unat expected_count
        then Inl (''observed '' @ show_nat (length frames) @ '' paced frames; expected '' @ show_u32 expected_count)
        else let fs = sort_key fo_ordinal frames in
        and_then (fold_ok (check_trickle_frame headers) (headers, 0, 0) (enumerate 0 fs)) (\<lambda>(_, max_gap, bytes).
        if pacing_limit_ns < max_gap then Inl (''AHRB provider pacing gap '' @ gap_text max_gap)
        else if fs = [] then Inl ''paced-frame final yield boundary is missing''
        else Inr \<lparr>vf_bytes = bytes, vf_last_yield_ns = fo_frame_yielded_ns (last fs), vf_max_inter_frame_ms = ns_to_ms max_gap\<rparr>)))"

section \<open>The scheduler's ledger\<close>

definition check_boundary :: "u64 \<Rightarrow> u64 \<Rightarrow> u64 \<Rightarrow> nat \<times> frame_boundary \<Rightarrow> string + u64" where
  "check_boundary headers terminal previous x =
     (case x of (index, f) \<Rightarrow>
      and_then (ok_or (ordinal_at index) ''paced scheduler ordinal overflow'') (\<lambda>ordinal.
      and_then (ok_or (boundary_at headers ordinal) ''paced scheduler boundary overflow'') (\<lambda>expected.
      if fb_ordinal f \<noteq> ordinal \<or> fb_scheduled_ns f \<noteq> expected \<or> fb_timer_fired_ns f < expected
      then Inl (''paced scheduler ordinal '' @ show_u32 ordinal @ '' has an invalid scheduled/timer boundary'')
      else and_then (ok_or (checked_sub (fb_timer_fired_ns f) previous) ''paced scheduler timer boundaries regressed'') (\<lambda>gap.
      if pacing_limit_ns < gap then Inl (''AHRB paced scheduler gap '' @ gap_text gap)
      else if (case fb_yielded_ns f of None \<Rightarrow> False | Some y \<Rightarrow> y < fb_scheduled_ns f)
      then Inl (''paced scheduler ordinal '' @ show_u32 ordinal @ '' has an invalid yielded boundary'')
      else if (case fb_body_dropped_ns f of None \<Rightarrow> False | Some d \<Rightarrow> d < fb_timer_fired_ns f \<or> terminal < d)
      then Inl (''paced scheduler ordinal '' @ show_u32 ordinal @ '' has an invalid body-drop boundary'')
      else if fb_yielded_ns f \<noteq> None \<and> fb_body_dropped_ns f \<noteq> None
      then Inl (''paced scheduler ordinal '' @ show_u32 ordinal @ '' was both yielded and body-dropped'')
      else Inr (fb_timer_fired_ns f)))))"

definition earlier_than :: "u64 \<Rightarrow> u64 option \<Rightarrow> bool" where
  "earlier_than bound boundary = (case boundary of None \<Rightarrow> False | Some b \<Rightarrow> b < bound)"

definition all_yielded :: "frame_boundary list \<Rightarrow> bool" where
  "all_yielded scheduled = list_all (\<lambda>f. fb_yielded_ns f \<noteq> None) scheduled"

text \<open>Whether a frame was yielded after a consumer boundary.\<close>

definition yielded_after :: "frame_boundary list \<Rightarrow> u64 option \<Rightarrow> bool" where
  "yielded_after scheduled boundary = (case boundary of None \<Rightarrow> False
     | Some b \<Rightarrow> list_ex (\<lambda>f. case fb_yielded_ns f of None \<Rightarrow> False | Some y \<Rightarrow> b < y) scheduled)"

section \<open>The receipts of the body\<close>

definition add_observation ::
  "(physical_id \<Rightarrow> string) \<Rightarrow> paced_ledger \<Rightarrow> frame_boundary list \<Rightarrow> (u32, frame_observation) btree \<Rightarrow> frame_observation
    \<Rightarrow> string + (u32, frame_observation) btree" where
  "add_observation show_id ledger scheduled m f =
     (if observed_identity f \<noteq> ledger_identity ledger
      then Inl (''paced ordinal '' @ show_u32 (fo_ordinal f) @ '' belongs to physical response '' @ show_id (observed_identity f)
        @ '', expected '' @ show_id (ledger_identity ledger))
      else if \<not> list_ex (\<lambda>b. fb_ordinal b = fo_ordinal f) scheduled
      then Inl (''paced body yielded unscheduled ordinal '' @ show_u32 (fo_ordinal f))
      else if bt_get m (fo_ordinal f) \<noteq> None
      then Inl (''paced ordinal '' @ show_u32 (fo_ordinal f) @ '' has duplicate yielded receipts'')
      else Inr (bt_insert (fo_ordinal f) f m))"

record yield_state =
  ys_previous :: u64
  ys_max_gap :: u64
  ys_bytes :: u64
  ys_prefix_ended :: bool

definition check_receipt :: "frame_boundary \<Rightarrow> u64 \<Rightarrow> frame_observation \<Rightarrow> yield_state \<Rightarrow> string + yield_state" where
  "check_receipt b yielded f s =
     (if ys_prefix_ended s then Inl ''paced scheduler yielded a non-contiguous ordinal suffix''
      else if fo_scheduled_ns f \<noteq> fb_scheduled_ns b \<or> fo_frame_yielded_ns f \<noteq> yielded
      then Inl (''paced ordinal '' @ show_u32 (fo_ordinal f) @ '' disagrees with the independent scheduler ledger'')
      else if fo_bytes f \<noteq> 1
      then Inl (''paced frame '' @ show_u32 (fo_ordinal f) @ '' carried '' @ show_u64 (fo_bytes f) @ '' bytes instead of one'')
      else and_then (ok_or (checked_sub yielded (ys_previous s)) ''paced-frame yield boundaries regressed'') (\<lambda>gap.
      if pacing_limit_ns < gap then Inl (''AHRB provider pacing gap '' @ gap_text gap)
      else and_then (ok_or (checked_add (ys_bytes s) (fo_bytes f)) ''paced yielded-byte count overflow'') (\<lambda>bytes.
      Inr (s\<lparr>ys_previous := yielded, ys_max_gap := max (ys_max_gap s) gap, ys_bytes := bytes\<rparr>))))"

definition check_yield :: "(u32, frame_observation) btree \<Rightarrow> yield_state \<Rightarrow> frame_boundary \<Rightarrow> string + yield_state" where
  "check_yield observations s b =
     (case (fb_yielded_ns b, bt_get observations (fb_ordinal b)) of
        (Some yielded, Some f) \<Rightarrow> check_receipt b yielded f s
      | (Some _, None) \<Rightarrow> Inl (''paced scheduler ordinal '' @ show_u32 (fb_ordinal b) @ '' yielded without an observation receipt'')
      | (None, Some _) \<Rightarrow> Inl (''paced ordinal '' @ show_u32 (fb_ordinal b) @ '' has an observation without a scheduler yield'')
      | (None, None) \<Rightarrow>
          if fb_body_dropped_ns b = None
          then Inl (''paced scheduler ordinal '' @ show_u32 (fb_ordinal b) @ '' lacks yield and body-drop evidence'')
          else Inr (s\<lparr>ys_prefix_ended := True\<rparr>))"

section \<open>The validation\<close>

definition early_close :: "u64 \<Rightarrow> paced_ledger \<Rightarrow> u64 option \<Rightarrow> bool" where
  "early_close final_scheduled ledger consumer_terminal \<longleftrightarrow>
     earlier_than final_scheduled (pl_connection_closed_ns ledger) \<or> earlier_than final_scheduled consumer_terminal"

definition conclude_trial ::
  "(physical_id \<Rightarrow> string) \<Rightarrow> frame_observation list \<Rightarrow> frame_boundary list \<Rightarrow> u64 \<Rightarrow> u32 \<Rightarrow> u64 \<Rightarrow> bool \<Rightarrow> yield_state
    \<Rightarrow> string + paced_trial" where
  "conclude_trial show_id frames scheduled headers expected_count last_timer early s =
     (if all_yielded scheduled
      then and_then (validate_trickle_frames show_id frames headers expected_count) (\<lambda>complete.
        Inr \<lparr>pt_frames = Some complete, pt_bytes_yielded = vf_bytes complete,
             pt_max_inter_frame_ms = vf_max_inter_frame_ms complete, pt_final_scheduler_ns = last_timer,
             pt_early_consumer_close = False\<rparr>)
      else Inr \<lparr>pt_frames = None, pt_bytes_yielded = ys_bytes s, pt_max_inter_frame_ms = ns_to_ms (ys_max_gap s),
                pt_final_scheduler_ns = last_timer, pt_early_consumer_close = early\<rparr>)"

definition validate_paced_trial ::
  "(physical_id \<Rightarrow> string) \<Rightarrow> frame_observation list \<Rightarrow> paced_ledger \<Rightarrow> u64 \<Rightarrow> u32 \<Rightarrow> u64 option \<Rightarrow> string + paced_trial" where
  "validate_paced_trial show_id frames ledger headers expected_count consumer_terminal =
     (if pl_response_headers_ns ledger \<noteq> headers \<or> pl_expected_count ledger \<noteq> expected_count
      then Inl ''paced scheduler ledger header/count binding is invalid''
      else and_then (ok_or (pl_scheduler_terminal_ns ledger) ''paced scheduler ledger omitted its terminal boundary'') (\<lambda>terminal.
      if length (pl_frames ledger) \<noteq> unat expected_count
      then Inl (''paced scheduler recorded '' @ show_nat (length (pl_frames ledger)) @ '' ordinals; expected '' @ show_u32 expected_count)
      else let scheduled = sort_key fb_ordinal (pl_frames ledger) in
      and_then (fold_ok (check_boundary headers terminal) headers (enumerate 0 scheduled)) (\<lambda>last_timer.
      if terminal < last_timer then Inl ''paced scheduler terminal preceded its final timer boundary''
      else if scheduled = [] then Inl ''paced scheduler final boundary is missing''
      else if earlier_than headers (pl_connection_closed_ns ledger) \<or> earlier_than headers consumer_terminal
      then Inl ''paced consumer boundary preceded response headers''
      else let early = early_close (fb_scheduled_ns (last scheduled)) ledger consumer_terminal in
      if \<not> all_yielded scheduled \<and> \<not> early
      then Inl ''paced body omitted yielded ordinals without a proven early consumer close/terminal''
      else and_then (fold_ok (add_observation show_id ledger scheduled) [] frames) (\<lambda>observations.
      and_then (fold_ok (check_yield observations)
        \<lparr>ys_previous = headers, ys_max_gap = 0, ys_bytes = 0, ys_prefix_ended = False\<rparr> scheduled) (\<lambda>s.
      if yielded_after scheduled (pl_connection_closed_ns ledger) \<or> yielded_after scheduled consumer_terminal
      then Inl ''paced consumer boundary preceded an observed frame yield''
      else conclude_trial show_id frames scheduled headers expected_count last_timer early s)))))"

section \<open>The ledger as JSON\<close>

definition frame_boundary_json :: "frame_boundary \<Rightarrow> json" where
  "frame_boundary_json f = json_object
     ([(''ordinal'', json_u32 (fb_ordinal f)), (''scheduled_ns'', json_u64 (fb_scheduled_ns f)),
       (''timer_fired_ns'', json_u64 (fb_timer_fired_ns f))]
      @ optional_member ''yielded_ns'' json_u64 (fb_yielded_ns f)
      @ optional_member ''body_dropped_ns'' json_u64 (fb_body_dropped_ns f))"

definition paced_ledger_json :: "paced_ledger \<Rightarrow> json" where
  "paced_ledger_json l = json_object
     ([(''scenario'', JString (pl_scenario l)), (''actor'', JString (pl_actor l)), (''checkpoint'', JString (pl_checkpoint l)),
       (''attempt'', json_u64 (pl_attempt l)), (''frontend'', JString (pl_frontend l)),
       (''response_headers_ns'', json_u64 (pl_response_headers_ns l)), (''expected_count'', json_u32 (pl_expected_count l)),
       (''frames'', json_list frame_boundary_json (pl_frames l))]
      @ optional_member ''scheduler_terminal_ns'' json_u64 (pl_scheduler_terminal_ns l)
      @ optional_member ''connection_closed_ns'' json_u64 (pl_connection_closed_ns l))"

section \<open>Properties\<close>

text \<open>
  What an accepted paced trial establishes: the scheduler kept its timetable, the consumer saw an
  initial segment of the frames, and the body's receipts are those of the scheduler's ledger.
\<close>

section \<open>The timetable\<close>

definition on_schedule :: "u64 \<Rightarrow> nat \<times> frame_boundary \<Rightarrow> bool" where
  "on_schedule headers x = (case x of (i, f) \<Rightarrow>
     Suc i < 2 ^ 32 \<and> fb_ordinal f = of_nat (Suc i) \<and> unat (fb_scheduled_ns f) = unat headers + Suc i * 1000000000
     \<and> fb_scheduled_ns f \<le> fb_timer_fired_ns f)"

lemma ordinal_at_Some: "ordinal_at i = Some k \<longleftrightarrow> Suc i < 2 ^ 32 \<and> k = of_nat (Suc i)"
  by (auto simp: ordinal_at_def simp del: of_nat_Suc)

lemma unat_ordinal: "Suc i < 2 ^ 32 \<Longrightarrow> unat (of_nat (Suc i) :: u32) = Suc i"
  by (simp add: unat_of_nat take_bit_nat_eq_self del: of_nat_Suc)

lemma boundary_at_Some:
  assumes "boundary_at headers k = Some b"
  shows "unat b = unat headers + unat k * 1000000000"
proof -
  have k: "unat k < 2 ^ 32" using unsigned_less [of k] by simp
  then have "take_bit 64 (unat k) = unat k" by (simp add: take_bit_nat_eq_self)
  then have "unat (ucast k :: u64) = unat k" by (simp add: unsigned_ucast_eq)
  then have "unat (saturating_mul (ucast k) 1000000000) = unat k * 1000000000"
    using k by (simp add: unat_saturating_mul)
  then show ?thesis using checked_add_Some [OF assms [unfolded boundary_at_def]] by simp
qed

lemma check_boundary_Inr:
  assumes "check_boundary headers terminal previous (i, f) = Inr next_timer"
  shows "on_schedule headers (i, f) \<and> next_timer = fb_timer_fired_ns f
    \<and> unat next_timer \<le> unat previous + 1250000000"
proof -
  obtain gap b where
    k: "Suc i < 2 ^ 32" and b: "boundary_at headers (of_nat (Suc i)) = Some b"
    and f: "fb_ordinal f = of_nat (Suc i)" "fb_scheduled_ns f = b" "\<not> fb_timer_fired_ns f < b"
    and gap: "checked_sub (fb_timer_fired_ns f) previous = Some gap" "\<not> pacing_limit_ns < gap"
    and out: "next_timer = fb_timer_fired_ns f"
    using assms by (auto simp: check_boundary_def and_then_Inr_iff ordinal_at_Some simp del: of_nat_Suc split: if_splits)
  have "unat b = unat headers + Suc i * 1000000000"
    using boundary_at_Some [OF b] by (simp only: unat_ordinal [OF k])
  moreover have "unat (fb_timer_fired_ns f) \<le> unat previous + 1250000000"
    using gap by (auto simp: checked_sub_Some pacing_limit_ns_def word_le_nat_alt not_less unat_sub_le)
  ultimately show ?thesis using k f out by (simp add: on_schedule_def)
qed

lemma check_boundaries:
  assumes "fold_ok (check_boundary headers terminal) previous (enumerate i fs) = Inr t"
  shows "list_all (on_schedule headers) (enumerate i fs) \<and> unat t \<le> unat previous + length fs * 1250000000
    \<and> (fs \<noteq> [] \<longrightarrow> t = fb_timer_fired_ns (last fs))"
  using assms
proof (induction fs arbitrary: i previous)
  case (Cons f fs)
  then obtain u where u: "check_boundary headers terminal previous (i, f) = Inr u"
    and rest: "fold_ok (check_boundary headers terminal) u (enumerate (Suc i) fs) = Inr t"
    by (auto simp: and_then_Inr_iff)
  show ?case using check_boundary_Inr [OF u] Cons.IH [OF rest] rest by (auto split: if_splits)
qed simp

section \<open>The receipts\<close>

lemma add_observation_Inr: "add_observation show_id ledger scheduled m f = Inr m' \<longleftrightarrow>
    observed_identity f = ledger_identity ledger \<and> list_ex (\<lambda>b. fb_ordinal b = fo_ordinal f) scheduled
    \<and> bt_get m (fo_ordinal f) = None \<and> m' = bt_insert (fo_ordinal f) f m"
  by (auto simp: add_observation_def)

lemma add_observations:
  assumes "fold_ok (add_observation show_id ledger scheduled) m frames = Inr observations"
  shows "distinct (map fo_ordinal frames) \<and> list_all (\<lambda>f. bt_get m (fo_ordinal f) = None) frames
    \<and> fo_ordinal ` set frames \<subseteq> fb_ordinal ` set scheduled
    \<and> (\<forall>k f. bt_get observations k = Some f \<longleftrightarrow> bt_get m k = Some f \<or> (f \<in> set frames \<and> fo_ordinal f = k))"
  using assms
proof (induction frames arbitrary: m)
  case (Cons f frames)
  then have fresh: "bt_get m (fo_ordinal f) = None" and known: "list_ex (\<lambda>b. fb_ordinal b = fo_ordinal f) scheduled"
    and rest: "fold_ok (add_observation show_id ledger scheduled) (bt_insert (fo_ordinal f) f m) frames = Inr observations"
    by (auto simp: and_then_Inr_iff add_observation_Inr)
  have "fo_ordinal f \<in> fb_ordinal ` set scheduled" using known by (force simp: list_ex_iff)
  then show ?case
    using Cons.IH [OF rest] fresh by (auto simp: bt_get_insert list_all_iff split: if_splits)
qed simp

text \<open>A frame that the ledger and the body agree on, and one that neither has.\<close>

definition agreed :: "(u32, frame_observation) btree \<Rightarrow> frame_boundary \<Rightarrow> bool" where
  "agreed m b \<longleftrightarrow> (\<exists>f. bt_get m (fb_ordinal b) = Some f \<and> fb_yielded_ns b = Some (fo_frame_yielded_ns f))"

definition unseen :: "(u32, frame_observation) btree \<Rightarrow> frame_boundary \<Rightarrow> bool" where
  "unseen m b \<longleftrightarrow> bt_get m (fb_ordinal b) = None \<and> fb_yielded_ns b = None"

lemma check_yield_Inr:
  assumes "check_yield m s b = Inr s'"
  shows "\<not> ys_prefix_ended s \<and> agreed m b \<and> \<not> ys_prefix_ended s' \<and> unat (ys_bytes s') = Suc (unat (ys_bytes s))
    \<or> unseen m b \<and> ys_prefix_ended s' \<and> ys_bytes s' = ys_bytes s"
  using assms
  by (auto simp: check_yield_def check_receipt_def agreed_def unseen_def and_then_Inr_iff
      dest!: checked_add_Some split: option.splits if_splits)

lemma check_yields:
  assumes "fold_ok (check_yield m) s fs = Inr s'"
  shows "\<exists>k \<le> length fs. list_all (agreed m) (take k fs) \<and> list_all (unseen m) (drop k fs)
    \<and> unat (ys_bytes s') = unat (ys_bytes s) + k \<and> (ys_prefix_ended s \<longrightarrow> k = 0)"
  using assms
proof (induction fs arbitrary: s)
  case (Cons b fs)
  then obtain u where u: "check_yield m s b = Inr u" and rest: "fold_ok (check_yield m) u fs = Inr s'"
    by (auto simp: and_then_Inr_iff)
  obtain k where k: "k \<le> length fs" "list_all (agreed m) (take k fs)" "list_all (unseen m) (drop k fs)"
    "unat (ys_bytes s') = unat (ys_bytes u) + k" "ys_prefix_ended u \<longrightarrow> k = 0"
    using Cons.IH [OF rest] by blast
  show ?case
  proof (cases "ys_prefix_ended u")
    case True
    then show ?thesis using check_yield_Inr [OF u] k by (intro exI [of _ 0]) auto
  next
    case False
    then show ?thesis using check_yield_Inr [OF u] k by (intro exI [of _ "Suc k"]) auto
  qed
qed simp

section \<open>The bytes of a complete response\<close>

lemma check_trickle_bytes:
  assumes "fold_ok (check_trickle_frame headers) (p, g, b) (enumerate i fs) = Inr (p', g', b')"
    and "unat b + length fs < 2 ^ 64"
  shows "unat b' = unat b + length fs"
  using assms
proof (induction fs arbitrary: p g b i)
  case (Cons f fs)
  then obtain u where u: "check_trickle_frame headers (p, g, b) (i, f) = Inr u"
    and rest: "fold_ok (check_trickle_frame headers) u (enumerate (Suc i) fs) = Inr (p', g', b')"
    by (auto simp: and_then_Inr_iff)
  obtain p1 g1 where "u = (p1, g1, saturating_add b 1)"
    using u by (auto simp: check_trickle_frame_def and_then_Inr_iff split: if_splits)
  moreover have b1: "unat (saturating_add b 1) = Suc (unat b)"
    using Cons.prems(2) by (simp add: saturating_add_def unat_word_ariths)
  ultimately show ?case using Cons.IH [of p1 g1 "saturating_add b 1" "Suc i"] rest Cons.prems(2) by simp
qed simp

lemma validate_trickle_bytes:
  assumes "validate_trickle_frames show_id frames headers expected = Inr v"
  shows "unat (vf_bytes v) = unat expected" and "length frames = unat expected"
proof -
  from assms obtain p g b where
    fold: "fold_ok (check_trickle_frame headers) (headers, 0, 0) (enumerate 0 (sort_key fo_ordinal frames)) = Inr (p, g, b)"
    and "vf_bytes v = b" and len: "length frames = unat expected"
    by (auto simp: validate_trickle_frames_def and_then_Inr_iff Let_def split: if_splits)
  moreover have "unat expected < 2 ^ 32" using unsigned_less [of expected] by simp
  ultimately show "unat (vf_bytes v) = unat expected" "length frames = unat expected"
    using check_trickle_bytes [OF fold] by simp_all
qed

section \<open>The ordinals of a timetable\<close>

lemma on_schedule_nth:
  assumes "list_all (on_schedule headers) (enumerate 0 fs)" and "i < length fs"
  shows "on_schedule headers (i, fs ! i)"
proof -
  have "enumerate 0 fs ! i \<in> set (enumerate 0 fs)" using assms(2) by (intro nth_mem) simp
  then show ?thesis using assms by (simp add: list_all_iff nth_enumerate_eq)
qed

lemma on_schedule_ordinals:
  assumes "list_all (on_schedule headers) (enumerate 0 fs)" and "length fs = unat n"
  shows "map fb_ordinal fs = ordinals n"
    and "map (\<lambda>f. unat (fb_scheduled_ns f)) fs = map (\<lambda>i. unat headers + i * 1000000000) [1..<unat n + 1]"
proof -
  have "map fb_ordinal fs ! i = ordinals n ! i" if "i < length fs" for i
    using on_schedule_nth [OF assms(1) that] that assms(2)
    by (simp add: on_schedule_def ordinals_def del: of_nat_Suc upt_Suc)
  then show "map fb_ordinal fs = ordinals n" by (intro nth_equalityI) (simp_all add: ordinals_def assms(2))
  show "map (\<lambda>f. unat (fb_scheduled_ns f)) fs = map (\<lambda>i. unat headers + i * 1000000000) [1..<unat n + 1]"
    using on_schedule_nth [OF assms(1)] assms(2) by (intro nth_equalityI) (simp_all add: on_schedule_def del: upt_Suc)
qed

section \<open>Receipts and ledger\<close>

lemma agreed_receipts:
  assumes obs: "\<forall>k f. bt_get m k = Some f \<longleftrightarrow> f \<in> set frames \<and> fo_ordinal f = k"
    and "list_all (agreed m) ys" and "list_all (unseen m) zs" and "fo_ordinal ` set frames \<subseteq> fb_ordinal ` (set ys \<union> set zs)"
    and "distinct (map fo_ordinal frames)" and "distinct (map fb_ordinal ys)"
  shows "mset (map (\<lambda>f. (fo_ordinal f, Some (fo_frame_yielded_ns f))) frames)
    = mset (map (\<lambda>b. (fb_ordinal b, fb_yielded_ns b)) ys)"
proof -
  let ?F = "map (\<lambda>f. (fo_ordinal f, Some (fo_frame_yielded_ns f))) frames"
  let ?B = "map (\<lambda>b. (fb_ordinal b, fb_yielded_ns b)) ys"
  have eq: "set ?F = set ?B"
  proof
    show "set ?F \<subseteq> set ?B"
    proof
      fix x assume "x \<in> set ?F"
      then obtain f where f: "f \<in> set frames" and x: "x = (fo_ordinal f, Some (fo_frame_yielded_ns f))" by auto
      then obtain b where b: "b \<in> set ys \<union> set zs" "fb_ordinal b = fo_ordinal f" using assms(4) by fastforce
      have found: "bt_get m (fb_ordinal b) = Some f" using obs f b by simp
      then have "b \<in> set ys" using b assms(3) by (auto simp: list_all_iff unseen_def)
      moreover from this have "fb_yielded_ns b = Some (fo_frame_yielded_ns f)"
        using assms(2) found by (auto simp: list_all_iff agreed_def)
      ultimately show "x \<in> set ?B" using x b by force
    qed
    show "set ?B \<subseteq> set ?F"
    proof
      fix x assume "x \<in> set ?B"
      then obtain b where b: "b \<in> set ys" and x: "x = (fb_ordinal b, fb_yielded_ns b)" by auto
      then obtain f where "bt_get m (fb_ordinal b) = Some f" "fb_yielded_ns b = Some (fo_frame_yielded_ns f)"
        using assms(2) by (auto simp: list_all_iff agreed_def)
      then show "x \<in> set ?F" using obs x by force
    qed
  qed
  have "distinct ?F" "distinct ?B"
    using assms(5,6) by (auto simp: distinct_map inj_on_def)
  from iffD1 [OF set_eq_iff_mset_eq_distinct [OF this] eq] show ?thesis .
qed

text \<open>What an accepted trial went through.\<close>

lemma validate_paced_Inr:
  assumes "validate_paced_trial show_id frames ledger headers expected consumer = Inr r"
  obtains terminal t observations s early where
    "length (pl_frames ledger) = unat expected" "pl_frames ledger \<noteq> []"
    "fold_ok (check_boundary headers terminal) headers (enumerate 0 (sort_key fb_ordinal (pl_frames ledger))) = Inr t"
    "fold_ok (add_observation show_id ledger (sort_key fb_ordinal (pl_frames ledger))) [] frames = Inr observations"
    "fold_ok (check_yield observations) \<lparr>ys_previous = headers, ys_max_gap = 0, ys_bytes = 0, ys_prefix_ended = False\<rparr>
      (sort_key fb_ordinal (pl_frames ledger)) = Inr s"
    "conclude_trial show_id frames (sort_key fb_ordinal (pl_frames ledger)) headers expected t early s = Inr r"
proof -
  have "sort_key fb_ordinal (pl_frames ledger) = [] \<longleftrightarrow> pl_frames ledger = []"
    by (metis length_0_conv length_sort)
  then show ?thesis
    using assms that by (auto simp: validate_paced_trial_def Let_def and_then_Inr_iff split: if_splits)
qed

lemma yielded_prefix:
  assumes "list_all (agreed m) (take k fs)" and "list_all (unseen m) (drop k fs)" and "length fs = n" and "k \<le> n"
  shows "map (\<lambda>f. fb_yielded_ns f \<noteq> None) fs = replicate k True @ replicate (n - k) False"
proof -
  have "map (\<lambda>f. fb_yielded_ns f \<noteq> None) (take k fs) = replicate k True"
    using assms by (intro replicate_eqI) (auto simp: list_all_iff agreed_def)
  moreover have "map (\<lambda>f. fb_yielded_ns f \<noteq> None) (drop k fs) = replicate (n - k) False"
    using assms by (intro replicate_eqI) (auto simp: list_all_iff unseen_def)
  ultimately show ?thesis by (metis append_take_drop_id map_append)
qed

lemma concluded:
  assumes "conclude_trial show_id frames fs headers expected t early s = Inr r"
    and "map (\<lambda>f. fb_yielded_ns f \<noteq> None) fs = replicate k True @ replicate (unat expected - k) False"
    and "unat (ys_bytes s) = k" and "k \<le> unat expected"
  shows "unat (pt_bytes_yielded r) = k \<and> (pt_frames r \<noteq> None) = (k = unat expected) \<and> pt_final_scheduler_ns r = t"
proof -
  have "all_yielded fs \<longleftrightarrow> False \<notin> set (map (\<lambda>f. fb_yielded_ns f \<noteq> None) fs)"
    by (auto simp: all_yielded_def list_all_iff)
  then have all: "all_yielded fs \<longleftrightarrow> k = unat expected" unfolding assms(2) using assms(4) by (auto simp: set_replicate_conv_if)
  then show ?thesis
    using assms(1,3) validate_trickle_bytes(1) [of show_id frames headers expected]
    by (auto simp: conclude_trial_def and_then_Inr_iff split: if_splits)
qed

lemma final_boundary: "on_schedule headers (n - 1, fs ! (n - 1)) \<Longrightarrow> fs \<noteq> [] \<Longrightarrow> length fs = n
    \<Longrightarrow> unat headers + n * 1000000000 \<le> unat (fb_timer_fired_ns (last fs))"
  by (cases fs rule: rev_cases) (auto simp: on_schedule_def word_le_nat_alt)

section \<open>The claim\<close>

text \<open>C30: a paced trial that is accepted had \<open>n\<close> frames scheduled one second apart from the response
  headers on, its scheduler finished between \<open>n\<close> and \<open>1.25 n\<close> seconds after the headers, the frames
  that reached the consumer are the first \<open>k\<close> of the timetable and no later one, \<open>k\<close> is the byte
  count reported and \<open>n\<close> exactly when the trial reports a complete response, and the receipts of the
  body are, ordinal by ordinal and to the nanosecond, those of the scheduler's ledger.\<close>

theorem paced_trial_sound:
  assumes "validate_paced_trial show_id frames ledger headers expected consumer = Inr r"
  shows "let scheduled = sort_key fb_ordinal (pl_frames ledger); n = unat expected; k = unat (pt_bytes_yielded r)
    in map fb_ordinal scheduled = ordinals expected
     \<and> map (\<lambda>f. unat (fb_scheduled_ns f)) scheduled = map (\<lambda>i. unat headers + i * 1000000000) [1..<n + 1]
     \<and> unat headers + n * 1000000000 \<le> unat (pt_final_scheduler_ns r)
     \<and> unat (pt_final_scheduler_ns r) \<le> unat headers + n * 1250000000
     \<and> k \<le> n \<and> map (\<lambda>f. fb_yielded_ns f \<noteq> None) scheduled = replicate k True @ replicate (n - k) False
     \<and> (pt_frames r \<noteq> None) = (k = n)
     \<and> mset (map (\<lambda>f. (fo_ordinal f, Some (fo_frame_yielded_ns f))) frames)
       = mset (map (\<lambda>b. (fb_ordinal b, fb_yielded_ns b)) (take k scheduled))"
proof -
  let ?fs = "sort_key fb_ordinal (pl_frames ledger)"
  obtain terminal t observations s early where
    len: "length (pl_frames ledger) = unat expected" and ne: "pl_frames ledger \<noteq> []"
    and sched: "fold_ok (check_boundary headers terminal) headers (enumerate 0 ?fs) = Inr t"
    and obs: "fold_ok (add_observation show_id ledger ?fs) [] frames = Inr observations"
    and yields: "fold_ok (check_yield observations)
      \<lparr>ys_previous = headers, ys_max_gap = 0, ys_bytes = 0, ys_prefix_ended = False\<rparr> ?fs = Inr s"
    and r: "conclude_trial show_id frames ?fs headers expected t early s = Inr r"
    using assms by (rule validate_paced_Inr)
  have on: "list_all (on_schedule headers) (enumerate 0 ?fs)" and t: "unat t \<le> unat headers + unat expected * 1250000000"
    "?fs \<noteq> [] \<longrightarrow> t = fb_timer_fired_ns (last ?fs)"
    using check_boundaries [OF sched] len by simp_all
  obtain k where k: "k \<le> unat expected" "list_all (agreed observations) (take k ?fs)"
    "list_all (unseen observations) (drop k ?fs)" "unat (ys_bytes s) = k"
    using check_yields [OF yields] len by auto
  have receipts: "distinct (map fo_ordinal frames)" "fo_ordinal ` set frames \<subseteq> fb_ordinal ` set ?fs"
    "\<forall>k f. bt_get observations k = Some f \<longleftrightarrow> f \<in> set frames \<and> fo_ordinal f = k"
    using add_observations [OF obs] by simp_all
  have yielded: "map (\<lambda>f. fb_yielded_ns f \<noteq> None) ?fs = replicate k True @ replicate (unat expected - k) False"
    by (rule yielded_prefix) (use k len in simp_all)
  have bytes: "unat (pt_bytes_yielded r) = k \<and> (pt_frames r \<noteq> None) = (k = unat expected) \<and> pt_final_scheduler_ns r = t"
    by (rule concluded [OF r yielded k(4,1)])
  have final: "unat headers + unat expected * 1000000000 \<le> unat t"
  proof -
    have "?fs \<noteq> []" using ne len by (metis length_0_conv length_sort)
    moreover from this have "unat expected - 1 < length ?fs" using len by (cases "unat expected") simp_all
    ultimately show ?thesis
      using final_boundary [OF on_schedule_nth [OF on], of "unat expected"] t(2) len by simp
  qed
  have "distinct (map fb_ordinal (take k ?fs))"
    using distinct_ordinals [of expected] on_schedule_ordinals(1) [OF on] len
    by (metis distinct_take take_map length_sort)
  moreover have "set (take k ?fs) \<union> set (drop k ?fs) = set ?fs" by (metis append_take_drop_id set_append)
  ultimately have "mset (map (\<lambda>f. (fo_ordinal f, Some (fo_frame_yielded_ns f))) frames)
      = mset (map (\<lambda>b. (fb_ordinal b, fb_yielded_ns b)) (take k ?fs))"
    using receipts k(2,3) by (intro agreed_receipts [of observations frames "take k ?fs" "drop k ?fs"]) simp_all
  then show ?thesis
    using bytes final t(1) k(1) yielded on_schedule_ordinals [OF on] len by (simp add: Let_def del: mset_map)
qed

text \<open>A consumer that closes the connection between the first and the second of two frames.\<close>

definition sample_boundary :: "u32 \<Rightarrow> u64 \<Rightarrow> u64 option \<Rightarrow> u64 option \<Rightarrow> frame_boundary" where
  "sample_boundary n scheduled yielded dropped =
     \<lparr>fb_ordinal = n, fb_scheduled_ns = scheduled, fb_timer_fired_ns = scheduled, fb_yielded_ns = yielded, fb_body_dropped_ns = dropped\<rparr>"

definition sample_ledger :: paced_ledger where
  "sample_ledger = \<lparr>pl_scenario = ''s'', pl_actor = ''a'', pl_checkpoint = ''c'', pl_attempt = 1, pl_frontend = ''f'',
     pl_response_headers_ns = 5, pl_expected_count = 2,
     pl_frames = [sample_boundary 2 2000000005 None (Some 2000000006), sample_boundary 1 1000000005 (Some 1000000005) None],
     pl_scheduler_terminal_ns = Some 2000000007, pl_connection_closed_ns = Some 1500000000\<rparr>"

definition sample_observation :: frame_observation where
  "sample_observation = \<lparr>fo_scenario = ''s'', fo_actor = ''a'', fo_checkpoint = ''c'', fo_attempt = 1, fo_frontend = ''f'',
     fo_ordinal = 1, fo_scheduled_ns = 1000000005, fo_frame_yielded_ns = 1000000005, fo_bytes = 1\<rparr>"

lemma sample_validated: "validate_paced_trial (\<lambda>_. []) [sample_observation] sample_ledger 5 2 None
    = Inr \<lparr>pt_frames = None, pt_bytes_yielded = 1, pt_max_inter_frame_ms = ns_to_ms 1000000000,
        pt_final_scheduler_ns = 2000000005, pt_early_consumer_close = True\<rparr>"
proof -
  have "sort_key fb_ordinal (pl_frames sample_ledger)
      = [sample_boundary 1 1000000005 (Some 1000000005) None, sample_boundary 2 2000000005 None (Some 2000000006)]"
    by (simp add: sample_ledger_def sample_boundary_def word_le_nat_alt)
  then show ?thesis
    by (simp add: validate_paced_trial_def sample_ledger_def sample_boundary_def sample_observation_def
        check_boundary_def ordinal_at_def boundary_at_def checked_add_def checked_sub_def saturating_mul_def pacing_limit_ns_def
        earlier_than_def early_close_def all_yielded_def yielded_after_def add_observation_def observed_identity_def
        ledger_identity_def check_yield_def check_receipt_def conclude_trial_def)
qed

theorem paced_trial_sound_witness:
  "validate_paced_trial (\<lambda>_. []) [sample_observation] sample_ledger 5 2 None
    = Inr \<lparr>pt_frames = None, pt_bytes_yielded = 1, pt_max_inter_frame_ms = ns_to_ms 1000000000,
        pt_final_scheduler_ns = 2000000005, pt_early_consumer_close = True\<rparr>
   \<and> map fb_ordinal (sort_key fb_ordinal (pl_frames sample_ledger)) = ordinals 2"
  using sample_validated paced_trial_sound [OF sample_validated] by (simp add: Let_def del: mset_map)

end
