(* ===== verification/Model_Wait.thy ===== *)
theory Model_Wait
  imports Paced
begin

text \<open>
  Row 48 of \<open>src/src/wave2.rs\<close>: the CPU an owned process tree uses while it waits for a paced model
  response.  Cumulative counters are sampled per process lifetime and interpolated at the response
  headers and at the final frame; the evaluation compares the result with the wall time.
\<close>

section \<open>Samples\<close>

text \<open>\<open>ProcIdentity\<close>: the process id and its start time, in the derived lexicographic order.\<close>

type_synonym proc_identity = "u32 \<times> u64"

record cpu_warning =
  cw_kind :: string
  cw_identity :: proc_identity
  cw_consecutive_misses :: u32
  cw_previous_cpu_ns :: u64
  cw_observed_cpu_ns :: u64

record identity_sample =
  is_identity :: proc_identity
  is_cpu_ns :: u64
  is_final_retirement :: bool

record cpu_sample =
  cs_sample_started_ns :: u64
  cs_sample_finished_ns :: u64
  cs_cpu_ns :: u64
  cs_expected_identities :: "proc_identity list"
  cs_unreadable_cpu_counters :: "cpu_warning list"
  cs_cpu_ns_by_identity :: "identity_sample list"

definition show_identity :: "proc_identity \<Rightarrow> string" where
  "show_identity i = ''('' @ show_u32 (fst i) @ '','' @ show_u64 (snd i) @ '')''"

definition unreadable_counter_reason :: "cpu_warning \<Rightarrow> string" where
  "unreadable_counter_reason w =
     ''CPU counter for process '' @ show_identity (cw_identity w) @ '' was unreadable after ''
       @ show_u32 (cw_consecutive_misses w) @ '' bounded read attempts ('' @ cw_kind w @ '': previous ''
       @ show_u64 (cw_previous_cpu_ns w) @ '' ns, observed '' @ show_u64 (cw_observed_cpu_ns w) @ '' ns)''"

definition cpu_sample_point :: "cpu_sample \<Rightarrow> string + u64" where
  "cpu_sample_point s =
     and_then (ok_or (checked_sub (cs_sample_finished_ns s) (cs_sample_started_ns s)) ''model-wait CPU sample boundaries regressed'')
       (\<lambda>width. Inr (saturating_add (cs_sample_started_ns s) (width div 2)))"

section \<open>Interpolation\<close>

definition interpolate_identity_counter :: "(u64 \<times> u64) list \<Rightarrow> u64 \<Rightarrow> string + f64" where
  "interpolate_identity_counter points boundary =
     and_then (ok_or (find (\<lambda>p. fst p \<le> boundary) (rev points)) (''no identity counter precedes boundary '' @ show_u64 boundary)) (\<lambda>left.
     and_then (ok_or (find (\<lambda>p. boundary \<le> fst p) points) (''no identity counter follows boundary '' @ show_u64 boundary)) (\<lambda>right.
     if fst left = fst right then Inr (f_of_u64 (snd left))
     else let position = f_of_u64 (saturating_sub boundary (fst left));
              width = f_of_u64 (saturating_sub (fst right) (fst left))
          in Inr (f_add (f_of_u64 (snd left))
               (f_div (f_mul (f_of_u64 (saturating_sub (snd right) (snd left))) position) width))))"

text \<open>The membership checks of one sample.\<close>

definition check_membership :: "cpu_sample \<Rightarrow> string + unit" where
  "check_membership s =
     (let expected = bset_of_list (cs_expected_identities s);
          identities = bset_of_list (map is_identity (cs_cpu_ns_by_identity s))
      in if length expected \<noteq> length (cs_expected_identities s)
         then Inl ''model-wait CPU sample contains duplicate expected lifetimes''
         else if length identities \<noteq> length (cs_cpu_ns_by_identity s)
         then Inl ''model-wait CPU sample contains a duplicate process lifetime''
         else case filter (\<lambda>i. i \<notin> set identities) expected of
           i # _ \<Rightarrow> (case find (\<lambda>w. cw_identity w = i) (cs_unreadable_cpu_counters s) of
               Some w \<Rightarrow> Inl (''model-wait CPU expected lifetime '' @ show_identity i @ '' has no counter: '' @ unreadable_counter_reason w)
             | None \<Rightarrow> Inl (''model-wait CPU expected lifetime '' @ show_identity i @ '' has no counter''))
         | [] \<Rightarrow> (case filter (\<lambda>i. i \<notin> set expected) identities of
               i # _ \<Rightarrow> Inl (''model-wait CPU counter lifetime '' @ show_identity i @ '' lacks discovered membership'')
             | [] \<Rightarrow> Inr ()))"

definition identity_points :: "(u64 \<times> cpu_sample) list \<Rightarrow> proc_identity \<Rightarrow> (u64 \<times> u64 \<times> bool) list" where
  "identity_points ordered i = List.map_filter (\<lambda>(point, s). map_option (\<lambda>c. (point, is_cpu_ns c, is_final_retirement c))
      (find (\<lambda>c. is_identity c = i) (cs_cpu_ns_by_identity s))) ordered"

definition lifetime_error :: "string \<Rightarrow> proc_identity \<Rightarrow> string \<Rightarrow> string" where
  "lifetime_error before i after = before @ '' '' @ show_identity i @ after"

fun counters_regress :: "(u64 \<times> u64 \<times> bool) list \<Rightarrow> bool" where
  "counters_regress (p # q # ps) \<longleftrightarrow> fst (snd q) < fst (snd p) \<or> counters_regress (q # ps)"
| "counters_regress _ \<longleftrightarrow> False"

text \<open>The contribution of one lifetime between the two boundaries; nothing when it lies outside them.\<close>

definition counters_at :: "(u64 \<times> u64 \<times> bool) list \<Rightarrow> u64 \<Rightarrow> string + f64" where
  "counters_at points boundary = interpolate_identity_counter (map (\<lambda>p. (fst p, fst (snd p))) points) boundary"

definition lifetime_delta :: "(u64 \<times> u64 \<times> bool) list \<Rightarrow> proc_identity \<Rightarrow> u64 \<Rightarrow> u64 \<Rightarrow> u64 \<times> u64 \<times> bool \<Rightarrow> u64 \<times> u64 \<times> bool
    \<Rightarrow> string + f64 option" where
  "lifetime_delta points i headers final first last_point =
     (if length points < 2
      then Inl (lifetime_error ''model-wait CPU lifetime'' i '' lacks distinct counter samples'')
      else and_then (if headers < fst first then Inr (Fin 0) else counters_at points headers) (\<lambda>start.
      and_then (if fst last_point < final
        then if \<not> snd (snd last_point)
          then Inl (lifetime_error ''model-wait CPU lifetime'' i '' disappeared without a final-retirement counter receipt'')
          else Inr (f_of_u64 (fst (snd last_point)))
        else counters_at points final) (\<lambda>finish.
      if f_lt finish start then Inl (lifetime_error ''model-wait CPU delta regressed within process lifetime'' i [])
      else Inr (Some (f_sub finish start)))))"

definition identity_cpu :: "(u64 \<times> cpu_sample) list \<Rightarrow> u64 \<Rightarrow> u64 \<Rightarrow> proc_identity \<Rightarrow> string + f64 option" where
  "identity_cpu ordered headers final i =
     (let points = identity_points ordered i in
      if counters_regress points then Inl (lifetime_error ''model-wait CPU counter regressed within process lifetime'' i [])
      else if list_ex (\<lambda>p. snd (snd p)) (butlast points)
      then Inl (lifetime_error ''model-wait CPU lifetime'' i '' has a non-final retirement receipt'')
      else if points = [] then Inl (lifetime_error ''model-wait CPU lifetime'' i '' has no counter'')
      else let first = hd points; last_point = last points in
        if fst last_point < headers
        then if \<not> snd (snd last_point)
          then Inl (lifetime_error ''model-wait CPU lifetime'' i
            '' was last observed before response headers without a final-retirement counter receipt'')
          else Inr None
        else if final < fst first then Inr None
        else lifetime_delta points i headers final first last_point)"

definition add_identity_cpu :: "(u64 \<times> cpu_sample) list \<Rightarrow> u64 \<Rightarrow> u64 \<Rightarrow> f64 \<Rightarrow> proc_identity \<Rightarrow> string + f64" where
  "add_identity_cpu ordered headers final acc i =
     and_then (identity_cpu ordered headers final i) (\<lambda>delta.
       Inr (case delta of None \<Rightarrow> acc | Some d \<Rightarrow> f_add acc d))"

text \<open>\<open>round\<close> of a finite double that is not negative, cast to \<open>u64\<close>; the cast saturates.\<close>

fun round_to_u64 :: "f64 \<Rightarrow> u64" where
  "round_to_u64 (Fin x) = (let n = \<lfloor>x + 1 / 2\<rfloor> in if 2 ^ 64 \<le> n then 18446744073709551615 else of_int n)"
| "round_to_u64 (Inf s) = 0"
| "round_to_u64 NaN = 0"

definition interpolated_model_wait_cpu_ns :: "cpu_sample list \<Rightarrow> u64 \<Rightarrow> u64 \<Rightarrow> string + u64" where
  "interpolated_model_wait_cpu_ns samples headers final =
     (if final < headers then Inl ''model-wait boundaries regressed''
      else and_then (collect_ok (\<lambda>s. and_then (cpu_sample_point s) (\<lambda>point. Inr (point, s))) samples) (\<lambda>pointed.
      let ordered = sort_key fst pointed in
      if length ordered < 2 then Inl ''model-wait CPU needs at least two counter samples''
      else and_then (first_error (\<lambda>x. check_membership (snd x)) ordered) (\<lambda>_.
      if headers < fst (hd ordered) then Inl (''no CPU sample precedes response-header boundary '' @ show_u64 headers)
      else if fst (last ordered) < final then Inl (''no CPU sample follows final-frame boundary '' @ show_u64 final)
      else let identities = bset_of_list (concat (map (\<lambda>x. cs_expected_identities (snd x)) ordered)) in
      if identities = [] then Inl ''model-wait CPU samples contain no process lifetimes''
      else and_then (fold_ok (add_identity_cpu ordered headers final) (Fin 0) identities) (\<lambda>sum_ns.
      if \<not> f_is_finite sum_ns \<or> f_lt sum_ns (Fin 0) \<or> f_lt (f_of_u64 18446744073709551615) sum_ns
      then Inl ''model-wait CPU lifetime sum is not representable''
      else Inr (round_to_u64 sum_ns)))))"

section \<open>Evidence as JSON\<close>

definition identity_json :: "proc_identity \<Rightarrow> json" where
  "identity_json i = json_object [(''pid'', json_u32 (fst i)), (''start_time'', json_u64 (snd i))]"

definition cpu_warning_json :: "cpu_warning \<Rightarrow> json" where
  "cpu_warning_json w = json_object
     [(''kind'', JString (cw_kind w)), (''identity'', identity_json (cw_identity w)),
      (''consecutive_misses'', json_u32 (cw_consecutive_misses w)),
      (''previous_cpu_ns'', json_u64 (cw_previous_cpu_ns w)), (''observed_cpu_ns'', json_u64 (cw_observed_cpu_ns w))]"

definition identity_sample_json :: "identity_sample \<Rightarrow> json" where
  "identity_sample_json c = json_object
     [(''identity'', identity_json (is_identity c)), (''cpu_ns'', json_u64 (is_cpu_ns c)),
      (''final_retirement'', JBool (is_final_retirement c))]"

definition cpu_sample_json :: "cpu_sample \<Rightarrow> json" where
  "cpu_sample_json s = json_object
     ([(''sample_started_ns'', json_u64 (cs_sample_started_ns s)), (''sample_finished_ns'', json_u64 (cs_sample_finished_ns s)),
       (''cpu_ns'', json_u64 (cs_cpu_ns s)), (''expected_identities'', json_list identity_json (cs_expected_identities s)),
       (''cpu_ns_by_identity'', json_list identity_sample_json (cs_cpu_ns_by_identity s))]
      @ (if cs_unreadable_cpu_counters s = [] then []
         else [(''unreadable_cpu_counters'', json_list cpu_warning_json (cs_unreadable_cpu_counters s))]))"

section \<open>Trials\<close>

record wait_trial =
  wt_repetition :: u32
  wt_response_headers_ns :: u64
  wt_terminal_ns :: "u64 option"
  wt_cpu_ns :: u64
  wt_cpu_samples :: "cpu_sample list"
  wt_frames :: "frame_observation list"
  wt_paced_ledger :: paced_ledger
  wt_terminal_count :: u32
  wt_success_terminals :: u32
  wt_outer_kill_used :: bool
  wt_outer_kill_ns :: "u64 option"
  wt_outer_deadline_ms :: u64

record wait_evaluation =
  we_metrics :: "(string, f64) btree"
  we_details :: json
  we_cpu_p50_ms :: f64
  we_wall_p50_ms :: f64
  we_one_core_max_ratio :: f64
  we_measurement_complete :: bool
  we_passed :: bool
  we_measurement_error :: "string option"

definition unreadable_cpu_evidence :: "wait_trial list \<Rightarrow> json list" where
  "unreadable_cpu_evidence trials = List.map_filter (\<lambda>t.
     let counters = concat (map cs_unreadable_cpu_counters (wt_cpu_samples t)) in
     if counters = [] then None
     else Some (json_object [(''repetition'', json_u32 (wt_repetition t)),
       (''unreadable_cpu_counters'', json_list cpu_warning_json counters),
       (''cpu_samples'', json_list cpu_sample_json (wt_cpu_samples t))])) trials"

definition wait_incomplete :: "json list \<Rightarrow> string \<Rightarrow> wait_evaluation" where
  "wait_incomplete unreadable message =
     \<lparr>we_metrics = [],
      we_details = json_object ([(''measurement_complete'', JBool False), (''measurement_error'', JString message)]
        @ (if unreadable = [] then [] else [(''unreadable_cpu_evidence'', JArray unreadable)])),
      we_cpu_p50_ms = Fin 0, we_wall_p50_ms = Fin 0, we_one_core_max_ratio = Fin 0,
      we_measurement_complete = False, we_passed = False, we_measurement_error = Some message\<rparr>"

text \<open>The deadline of a paced trial, in milliseconds, and the end of a trial: its terminal or the outer kill.\<close>

definition paced_deadline_ms :: "u32 \<Rightarrow> u64 \<Rightarrow> u64" where
  "paced_deadline_ms expected_count idle_timeout_ms =
     saturating_add (saturating_add (saturating_mul (ucast expected_count) 1000) idle_timeout_ms) 3000"

definition end_boundary :: "u64 option \<Rightarrow> u64 option \<Rightarrow> bool \<Rightarrow> u64 option" where
  "end_boundary terminal outer_kill outer_kill_used =
     (case terminal of Some t \<Rightarrow> Some t | None \<Rightarrow> if outer_kill_used then outer_kill else None)"

definition deadline_ns :: "u64 \<Rightarrow> u64 \<Rightarrow> u64" where
  "deadline_ns headers deadline_ms = saturating_add headers (saturating_mul deadline_ms 1000000)"

definition after_last_yield :: "paced_trial \<Rightarrow> u64 \<Rightarrow> bool" where
  "after_last_yield paced terminal = (case pt_frames paced of None \<Rightarrow> False | Some v \<Rightarrow> vf_last_yield_ns v \<le> terminal)"

text \<open>The state of the loop over the trials.\<close>

record wait_state =
  ws_repetitions :: "u32 list"
  ws_cpu_ms :: "f64 list"
  ws_wall_ms :: "f64 list"
  ws_ratios :: "f64 list"
  ws_bytes :: u64
  ws_max_gap_ms :: f64
  ws_all_passed :: bool
  ws_details :: "json list"

definition wait_trial_json :: "wait_trial \<Rightarrow> paced_trial \<Rightarrow> u64 \<Rightarrow> u64 \<Rightarrow> f64 \<Rightarrow> bool \<Rightarrow> json" where
  "wait_trial_json t paced terminal wall_ns ratio passed = json_object
     [(''repetition'', json_u32 (wt_repetition t)), (''response_headers_ns'', json_u64 (wt_response_headers_ns t)),
      (''final_frame_yield_ns'', json_option json_u64 (map_option vf_last_yield_ns (pt_frames paced))),
      (''final_scheduler_ns'', json_u64 (pt_final_scheduler_ns paced)), (''terminal_ns'', json_u64 terminal),
      (''cpu_ns'', json_u64 (wt_cpu_ns t)), (''cpu_samples'', json_list cpu_sample_json (wt_cpu_samples t)),
      (''wall_ns'', json_u64 wall_ns), (''one_core_ratio'', json_f64 ratio),
      (''bytes_yielded'', json_u64 (pt_bytes_yielded paced)),
      (''max_inter_frame_ms'', json_f64 (pt_max_inter_frame_ms paced)),
      (''early_consumer_close'', JBool (pt_early_consumer_close paced)),
      (''paced_ledger'', paced_ledger_json (wt_paced_ledger t)), (''terminal_count'', json_u32 (wt_terminal_count t)),
      (''success_terminals'', json_u32 (wt_success_terminals t)), (''outer_kill_used'', JBool (wt_outer_kill_used t)),
      (''outer_kill_ns'', json_option json_u64 (wt_outer_kill_ns t)), (''passed'', JBool passed)]"

definition add_wait_trial :: "u64 \<Rightarrow> wait_trial \<Rightarrow> paced_trial \<Rightarrow> u64 \<Rightarrow> u64 \<Rightarrow> wait_state \<Rightarrow> wait_state" where
  "add_wait_trial deadline_ms t paced terminal cpu_end s =
     (let terminal_ok = (wt_terminal_count t = 1 \<and> wt_success_terminals t = 1 \<and> after_last_yield paced terminal
            \<and> terminal < deadline_ns (wt_response_headers_ns t) deadline_ms
            \<and> \<not> wt_outer_kill_used t \<and> wt_outer_kill_ns t = None);
          wall_ns = saturating_sub cpu_end (wt_response_headers_ns t);
          ratio = (if wall_ns = 0 then Inf True else f_div (f_of_u64 (wt_cpu_ns t)) (f_of_u64 wall_ns));
          passed = (terminal_ok \<and> \<not> pt_early_consumer_close paced \<and> f_le ratio (f_round (1/20)))
      in s\<lparr>ws_repetitions := wt_repetition t # ws_repetitions s,
           ws_all_passed := (ws_all_passed s \<and> passed),
           ws_bytes := saturating_add (ws_bytes s) (pt_bytes_yielded paced),
           ws_max_gap_ms := f_max (ws_max_gap_ms s) (pt_max_inter_frame_ms paced),
           ws_cpu_ms := ws_cpu_ms s @ [ns_to_ms (wt_cpu_ns t)],
           ws_wall_ms := ws_wall_ms s @ [ns_to_ms wall_ns],
           ws_ratios := ws_ratios s @ [ratio],
           ws_details := ws_details s @ [wait_trial_json t paced terminal wall_ns ratio passed]\<rparr>)"

definition repetition_invalid :: "u32 \<Rightarrow> u32 list \<Rightarrow> u32 \<Rightarrow> bool" where
  "repetition_invalid expected_repetitions seen r \<longleftrightarrow> r = 0 \<or> expected_repetitions < r \<or> r \<in> set seen"

definition wait_trial_step ::
  "(physical_id \<Rightarrow> string) \<Rightarrow> u32 \<Rightarrow> u32 \<Rightarrow> u64 \<Rightarrow> wait_state \<Rightarrow> wait_trial \<Rightarrow> string + wait_state" where
  "wait_trial_step show_id expected_repetitions expected_count deadline_ms s t =
     (let context = ''row-48 repetition '' @ show_u32 (wt_repetition t) in
      if repetition_invalid expected_repetitions (ws_repetitions s) (wt_repetition t)
      then Inl ''row-48 repetition keys are invalid or duplicated''
      else if wt_outer_deadline_ms t \<noteq> deadline_ms
      then Inl (context @ '' used invalid outer deadline '' @ show_u64 (wt_outer_deadline_ms t) @ '' ms; expected ''
        @ show_u64 deadline_ms @ '' ms'')
      else and_then (ok_or (end_boundary (wt_terminal_ns t) (wt_outer_kill_ns t) (wt_outer_kill_used t))
        (context @ '' lacks a terminal or outer-kill boundary'')) (\<lambda>terminal.
      case validate_paced_trial show_id (wt_frames t) (wt_paced_ledger t) (wt_response_headers_ns t) expected_count (wt_terminal_ns t) of
        Inl error \<Rightarrow> Inl (context @ '': '' @ error)
      | Inr paced \<Rightarrow>
        let cpu_end = (case pt_frames paced of None \<Rightarrow> pt_final_scheduler_ns paced | Some v \<Rightarrow> vf_last_yield_ns v) in
        case interpolated_model_wait_cpu_ns (wt_cpu_samples t) (wt_response_headers_ns t) cpu_end of
          Inl error \<Rightarrow> Inl (context @ '': '' @ error)
        | Inr derived \<Rightarrow>
          if derived \<noteq> wt_cpu_ns t
          then Inl (context @ '' CPU interpolation disagrees: declared '' @ show_u64 (wt_cpu_ns t) @ '', derived '' @ show_u64 derived)
          else Inr (add_wait_trial deadline_ms t paced terminal cpu_end s)))"

definition wait_complete :: "wait_state \<Rightarrow> wait_evaluation" where
  "wait_complete s =
     \<lparr>we_metrics = bt_of_list [(''model_wait_cpu.bytes_yielded'', f_of_u64 (ws_bytes s)),
        (''model_wait_cpu.max_inter_frame_ms'', ws_max_gap_ms s)],
      we_details = json_object [(''measurement_complete'', JBool True), (''repetitions'', JArray (ws_details s)),
        (''daemon_baseline_subtracted'', JBool False)],
      we_cpu_p50_ms = median_or_zero (ws_cpu_ms s), we_wall_p50_ms = median_or_zero (ws_wall_ms s),
      we_one_core_max_ratio = f_maximum (ws_ratios s),
      we_measurement_complete = True, we_passed = ws_all_passed s, we_measurement_error = None\<rparr>"

definition wait_start :: wait_state where
  "wait_start = \<lparr>ws_repetitions = [], ws_cpu_ms = [], ws_wall_ms = [], ws_ratios = [], ws_bytes = 0,
     ws_max_gap_ms = Fin 0, ws_all_passed = True, ws_details = []\<rparr>"

definition evaluate_model_wait_cpu ::
  "(physical_id \<Rightarrow> string) \<Rightarrow> wait_trial list \<Rightarrow> u32 \<Rightarrow> u32 \<Rightarrow> u64 \<Rightarrow> wait_evaluation" where
  "evaluate_model_wait_cpu show_id trials expected_repetitions expected_count idle_timeout_ms =
     (let unreadable = unreadable_cpu_evidence trials in
      if length trials \<noteq> unat expected_repetitions
      then wait_incomplete unreadable (''row-48 has '' @ show_nat (length trials) @ '' trials; expected '' @ show_u32 expected_repetitions)
      else case fold_ok (wait_trial_step show_id expected_repetitions expected_count
          (paced_deadline_ms expected_count idle_timeout_ms)) wait_start trials of
        Inl message \<Rightarrow> wait_incomplete unreadable message
      | Inr s \<Rightarrow> wait_complete s)"

end
