(* ===== verification/Slow_Stream.thy ===== *)
theory Slow_Stream
  imports Model_Wait Paced
begin

text \<open>
  Row 59 of \<open>src/src/wave2.rs\<close>: a slow paced stream must not trip a harness's idle timeout, and a
  stalled stream must.  Each repetition is a pair of trials; fixture defects make the row incomplete, the
  harness's own timing decides whether it passes.
\<close>

section \<open>Pairs of trials\<close>

record stream_trial =
  st_repetition :: u32
  st_slow_response_headers_ns :: u64
  st_slow_terminal_ns :: "u64 option"
  st_slow_frames :: "frame_observation list"
  st_slow_paced_ledger :: paced_ledger
  st_slow_terminal_count :: u32
  st_slow_success_terminals :: u32
  st_slow_idle_timeout_fired :: bool
  st_slow_outer_kill_used :: bool
  st_slow_outer_kill_ns :: "u64 option"
  st_slow_outer_deadline_ms :: u64
  st_stall_response_headers_ns :: u64
  st_stall_terminal_ns :: "u64 option"
  st_stall_bytes_yielded :: u64
  st_stall_terminal_count :: u32
  st_stall_failure_terminals :: u32
  st_stall_outer_kill_used :: bool
  st_stall_outer_kill_ns :: "u64 option"
  st_stall_outer_deadline_ms :: u64

record stream_evaluation =
  se_metrics :: "(string, f64) btree"
  se_details :: json
  se_measurement_complete :: bool
  se_passed :: bool
  se_measurement_error :: "string option"

definition stream_incomplete :: "string \<Rightarrow> stream_evaluation" where
  "stream_incomplete message =
     \<lparr>se_metrics = [],
      se_details = json_object [(''measurement_complete'', JBool False), (''measurement_error'', JString message)],
      se_measurement_complete = False, se_passed = False, se_measurement_error = Some message\<rparr>"

record stream_state =
  ss_repetitions :: "u32 list"
  ss_slow_bytes :: u64
  ss_slow_max_gap_ms :: f64
  ss_slow_success :: u64
  ss_slow_idle :: u64
  ss_stall_bytes :: u64
  ss_stall_max_timeout_ms :: f64
  ss_stall_failure :: u64
  ss_stall_outer_kill :: u64
  ss_all_passed :: bool
  ss_details :: "json list"

definition flag_count :: "bool \<Rightarrow> u64" where
  "flag_count b = (if b then 1 else 0)"

section \<open>The decision for a pair\<close>

definition slow_passed :: "u64 \<Rightarrow> stream_trial \<Rightarrow> paced_trial \<Rightarrow> u64 \<Rightarrow> bool" where
  "slow_passed slow_deadline_ms t slow terminal \<longleftrightarrow>
     st_slow_terminal_count t = 1 \<and> st_slow_success_terminals t = 1 \<and> \<not> st_slow_idle_timeout_fired t
     \<and> \<not> st_slow_outer_kill_used t \<and> after_last_yield slow terminal \<and> \<not> pt_early_consumer_close slow
     \<and> terminal < deadline_ns (st_slow_response_headers_ns t) slow_deadline_ms"

definition stall_passed :: "u64 \<Rightarrow> u64 \<Rightarrow> stream_trial \<Rightarrow> u64 \<Rightarrow> u64 \<Rightarrow> bool" where
  "stall_passed idle_timeout_ms stall_deadline_ms t terminal elapsed_ns \<longleftrightarrow>
     st_stall_bytes_yielded t = 0 \<and> st_stall_terminal_count t = 1 \<and> st_stall_failure_terminals t = 1
     \<and> \<not> st_stall_outer_kill_used t
     \<and> f_le (f_of_u64 idle_timeout_ms) (ns_to_ms elapsed_ns)
     \<and> f_le (ns_to_ms elapsed_ns) (f_of_u64 (saturating_add idle_timeout_ms 1000))
     \<and> terminal < deadline_ns (st_stall_response_headers_ns t) stall_deadline_ms"

definition stream_trial_json :: "stream_trial \<Rightarrow> paced_trial \<Rightarrow> u64 \<Rightarrow> u64 \<Rightarrow> f64 \<Rightarrow> bool \<Rightarrow> bool \<Rightarrow> json" where
  "stream_trial_json t slow slow_terminal stall_terminal stall_elapsed_ms slow_ok stall_ok = json_object
     [(''repetition'', json_u32 (st_repetition t)),
      (''slow'', json_object
        [(''response_headers_ns'', json_u64 (st_slow_response_headers_ns t)), (''terminal_ns'', json_u64 slow_terminal),
         (''bytes_yielded'', json_u64 (pt_bytes_yielded slow)), (''max_inter_frame_ms'', json_f64 (pt_max_inter_frame_ms slow)),
         (''final_scheduler_ns'', json_u64 (pt_final_scheduler_ns slow)),
         (''early_consumer_close'', JBool (pt_early_consumer_close slow)),
         (''paced_ledger'', paced_ledger_json (st_slow_paced_ledger t)),
         (''terminal_count'', json_u32 (st_slow_terminal_count t)),
         (''terminal_success'', json_u32 (st_slow_success_terminals t)),
         (''idle_timeout_fired'', JBool (st_slow_idle_timeout_fired t)),
         (''outer_kill_used'', JBool (st_slow_outer_kill_used t)),
         (''outer_kill_ns'', json_option json_u64 (st_slow_outer_kill_ns t)), (''passed'', JBool slow_ok)]),
      (''stall'', json_object
        [(''response_headers_ns'', json_u64 (st_stall_response_headers_ns t)), (''terminal_ns'', json_u64 stall_terminal),
         (''bytes_yielded'', json_u64 (st_stall_bytes_yielded t)), (''own_timeout_ms'', json_f64 stall_elapsed_ms),
         (''terminal_count'', json_u32 (st_stall_terminal_count t)),
         (''structured_failure'', json_u32 (st_stall_failure_terminals t)),
         (''outer_kill_used'', JBool (st_stall_outer_kill_used t)),
         (''outer_kill_ns'', json_option json_u64 (st_stall_outer_kill_ns t)), (''passed'', JBool stall_ok)]),
      (''passed'', JBool (slow_ok \<and> stall_ok))]"

definition add_stream_trial :: "u64 \<Rightarrow> u64 \<Rightarrow> u64 \<Rightarrow> stream_trial \<Rightarrow> paced_trial \<Rightarrow> u64 \<Rightarrow> u64 \<Rightarrow> u64 \<Rightarrow> stream_state \<Rightarrow> stream_state" where
  "add_stream_trial idle_timeout_ms slow_deadline_ms stall_deadline_ms t slow slow_terminal stall_terminal stall_elapsed_ns s =
     (let slow_ok = slow_passed slow_deadline_ms t slow slow_terminal;
          stall_ok = stall_passed idle_timeout_ms stall_deadline_ms t stall_terminal stall_elapsed_ns;
          stall_elapsed_ms = ns_to_ms stall_elapsed_ns
      in s\<lparr>ss_repetitions := st_repetition t # ss_repetitions s,
           ss_all_passed := (ss_all_passed s \<and> slow_ok \<and> stall_ok),
           ss_slow_bytes := saturating_add (ss_slow_bytes s) (pt_bytes_yielded slow),
           ss_slow_max_gap_ms := f_max (ss_slow_max_gap_ms s) (pt_max_inter_frame_ms slow),
           ss_slow_success := saturating_add (ss_slow_success s) (ucast (st_slow_success_terminals t)),
           ss_slow_idle := saturating_add (ss_slow_idle s) (flag_count (st_slow_idle_timeout_fired t)),
           ss_stall_bytes := saturating_add (ss_stall_bytes s) (st_stall_bytes_yielded t),
           ss_stall_max_timeout_ms := f_max (ss_stall_max_timeout_ms s) stall_elapsed_ms,
           ss_stall_failure := saturating_add (ss_stall_failure s) (ucast (st_stall_failure_terminals t)),
           ss_stall_outer_kill := saturating_add (ss_stall_outer_kill s) (flag_count (st_stall_outer_kill_used t)),
           ss_details := ss_details s @ [stream_trial_json t slow slow_terminal stall_terminal stall_elapsed_ms slow_ok stall_ok]\<rparr>)"

definition stream_trial_step ::
  "(physical_id \<Rightarrow> string) \<Rightarrow> u32 \<Rightarrow> u32 \<Rightarrow> u64 \<Rightarrow> u64 \<Rightarrow> u64 \<Rightarrow> stream_state \<Rightarrow> stream_trial \<Rightarrow> string + stream_state" where
  "stream_trial_step show_id expected_repetitions expected_count idle_timeout_ms slow_deadline_ms stall_deadline_ms s t =
     (let context = ''row-59 repetition '' @ show_u32 (st_repetition t) in
      if repetition_invalid expected_repetitions (ss_repetitions s) (st_repetition t)
      then Inl ''row-59 repetition keys are invalid or duplicated''
      else if st_slow_outer_deadline_ms t \<noteq> slow_deadline_ms \<or> st_stall_outer_deadline_ms t \<noteq> stall_deadline_ms
      then Inl (context @ '' used invalid row-local deadlines'')
      else and_then (ok_or (end_boundary (st_slow_terminal_ns t) (st_slow_outer_kill_ns t) (st_slow_outer_kill_used t))
        (context @ '' slow case lacks terminal or outer-kill boundary'')) (\<lambda>slow_terminal.
      case validate_paced_trial show_id (st_slow_frames t) (st_slow_paced_ledger t) (st_slow_response_headers_ns t)
          expected_count (st_slow_terminal_ns t) of
        Inl error \<Rightarrow> Inl (context @ '' slow case: '' @ error)
      | Inr slow \<Rightarrow>
        if st_stall_response_headers_ns t = 0
        then Inl (context @ '' stall case lacks response-header boundary'')
        else and_then (ok_or (end_boundary (st_stall_terminal_ns t) (st_stall_outer_kill_ns t) (st_stall_outer_kill_used t))
          (context @ '' stall case lacks timeout or outer-kill boundary'')) (\<lambda>stall_terminal.
        and_then (ok_or (checked_sub stall_terminal (st_stall_response_headers_ns t))
          (context @ '' stall terminal precedes headers'')) (\<lambda>elapsed.
        Inr (add_stream_trial idle_timeout_ms slow_deadline_ms stall_deadline_ms t slow slow_terminal stall_terminal elapsed s)))))"

section \<open>The evaluation\<close>

definition stream_start :: stream_state where
  "stream_start = \<lparr>ss_repetitions = [], ss_slow_bytes = 0, ss_slow_max_gap_ms = Fin 0, ss_slow_success = 0, ss_slow_idle = 0,
     ss_stall_bytes = 0, ss_stall_max_timeout_ms = Fin 0, ss_stall_failure = 0, ss_stall_outer_kill = 0,
     ss_all_passed = True, ss_details = []\<rparr>"

definition stream_metrics :: "stream_state \<Rightarrow> (string, f64) btree" where
  "stream_metrics s = bt_of_list
     [(''slow_stream_vs_stall.slow_bytes_yielded'', f_of_u64 (ss_slow_bytes s)),
      (''slow_stream_vs_stall.slow_max_inter_frame_ms'', ss_slow_max_gap_ms s),
      (''slow_stream_vs_stall.slow_terminal_success'', f_of_u64 (ss_slow_success s)),
      (''slow_stream_vs_stall.slow_idle_timeout_fired'', f_of_u64 (ss_slow_idle s)),
      (''slow_stream_vs_stall.stall_bytes_yielded'', f_of_u64 (ss_stall_bytes s)),
      (''slow_stream_vs_stall.stall_own_timeout_ms'', ss_stall_max_timeout_ms s),
      (''slow_stream_vs_stall.stall_structured_failure'', f_of_u64 (ss_stall_failure s)),
      (''slow_stream_vs_stall.stall_outer_kill_used'', f_of_u64 (ss_stall_outer_kill s))]"

definition stream_complete :: "stream_state \<Rightarrow> stream_evaluation" where
  "stream_complete s =
     \<lparr>se_metrics = stream_metrics s,
      se_details = json_object [(''measurement_complete'', JBool True), (''repetitions'', JArray (ss_details s))],
      se_measurement_complete = True, se_passed = ss_all_passed s, se_measurement_error = None\<rparr>"

definition evaluate_slow_stream_vs_stall ::
  "(physical_id \<Rightarrow> string) \<Rightarrow> stream_trial list \<Rightarrow> u32 \<Rightarrow> u32 \<Rightarrow> u64 \<Rightarrow> stream_evaluation" where
  "evaluate_slow_stream_vs_stall show_id trials expected_repetitions expected_count idle_timeout_ms =
     (if idle_timeout_ms < 1250
      then stream_incomplete (''row-59 idle_timeout_ms='' @ show_u64 idle_timeout_ms @ '' is below 1250'')
      else if length trials \<noteq> unat expected_repetitions
      then stream_incomplete (''row-59 has '' @ show_nat (length trials) @ '' pairs; expected '' @ show_u32 expected_repetitions)
      else case fold_ok (stream_trial_step show_id expected_repetitions expected_count idle_timeout_ms
          (paced_deadline_ms expected_count idle_timeout_ms) (saturating_add idle_timeout_ms 3000)) stream_start trials of
        Inl message \<Rightarrow> stream_incomplete message
      | Inr s \<Rightarrow> stream_complete s)"

section \<open>Properties\<close>

text \<open>
  A passing row 59 leaves no freedom in its counters: every repetition yielded every frame, ended once
  with success, and its stalled twin failed once by itself.
\<close>

section \<open>One pair\<close>

lemma complete_paced_bytes:
  assumes "validate_paced_trial show_id frames ledger headers expected consumer = Inr r" and "pt_frames r \<noteq> None"
  shows "unat (pt_bytes_yielded r) = unat expected"
proof -
  obtain t early s where "conclude_trial show_id frames (sort_key fb_ordinal (pl_frames ledger)) headers expected t early s = Inr r"
    using assms(1) by (rule validate_paced_Inr)
  then show ?thesis
    using assms(2) validate_trickle_bytes(1) [of show_id frames headers expected]
    by (auto simp: conclude_trial_def and_then_Inr_iff split: if_splits)
qed

text \<open>The counters of a state, as numbers: slow bytes, successes, idle timeouts, stalled bytes, failures
  and outer kills.\<close>

definition stream_counters :: "stream_state \<Rightarrow> nat list" where
  "stream_counters s = map unat [ss_slow_bytes s, ss_slow_success s, ss_slow_idle s, ss_stall_bytes s, ss_stall_failure s,
     ss_stall_outer_kill s]"

lemma unat_saturating_add: "unat a + n < 2 ^ 64 \<Longrightarrow> unat b = n \<Longrightarrow> unat (saturating_add a b) = unat a + n"
  by (auto simp: saturating_add_def unat_word_ariths)

lemma stream_step_Inr:
  assumes "stream_trial_step show_id repetitions expected idle slow_ms stall_ms s t = Inr s'"
  obtains slow slow_terminal stall_terminal elapsed where
    "validate_paced_trial show_id (st_slow_frames t) (st_slow_paced_ledger t) (st_slow_response_headers_ns t)
       expected (st_slow_terminal_ns t) = Inr slow"
    "s' = add_stream_trial idle slow_ms stall_ms t slow slow_terminal stall_terminal elapsed s"
proof (cases "validate_paced_trial show_id (st_slow_frames t) (st_slow_paced_ledger t) (st_slow_response_headers_ns t)
    expected (st_slow_terminal_ns t)")
  case (Inr slow)
  then obtain slow_terminal stall_terminal elapsed where
    "s' = add_stream_trial idle slow_ms stall_ms t slow slow_terminal stall_terminal elapsed s"
    using assms by (auto simp: stream_trial_step_def and_then_Inr_iff Let_def split: if_splits)
  then show ?thesis using that Inr by blast
qed (use assms in \<open>auto simp: stream_trial_step_def and_then_Inr_iff Let_def split: if_splits\<close>)

lemma stream_step_passed:
  assumes "stream_trial_step show_id repetitions expected idle slow_ms stall_ms s t = Inr s'" and "ss_all_passed s'"
  shows "ss_all_passed s"
  using assms(1) by (rule stream_step_Inr) (use assms(2) in \<open>simp add: add_stream_trial_def Let_def\<close>)

lemma stream_steps_passed:
  assumes "fold_ok (stream_trial_step show_id repetitions expected idle slow_ms stall_ms) s ts = Inr s'" and "ss_all_passed s'"
  shows "ss_all_passed s"
  using assms by (induction ts arbitrary: s) (auto simp: and_then_Inr_iff dest: stream_step_passed)

lemma stream_step_counters:
  assumes "stream_trial_step show_id repetitions expected idle slow_ms stall_ms s t = Inr s'" and "ss_all_passed s'"
    and "stream_counters s = [b, n, 0, 0, n, 0]" and "b + unat expected < 2 ^ 64" and "n + 1 < 2 ^ 64"
  shows "ss_all_passed s \<and> stream_counters s' = [b + unat expected, n + 1, 0, 0, n + 1, 0]"
proof -
  obtain slow slow_terminal stall_terminal elapsed where
    valid: "validate_paced_trial show_id (st_slow_frames t) (st_slow_paced_ledger t) (st_slow_response_headers_ns t)
       expected (st_slow_terminal_ns t) = Inr slow"
    and s': "s' = add_stream_trial idle slow_ms stall_ms t slow slow_terminal stall_terminal elapsed s"
    using assms(1) by (rule stream_step_Inr)
  have pass: "slow_passed slow_ms t slow slow_terminal" "stall_passed idle stall_ms t stall_terminal elapsed" "ss_all_passed s"
    using assms(2) by (simp_all add: s' add_stream_trial_def Let_def)
  then have "pt_frames slow \<noteq> None" by (auto simp: slow_passed_def after_last_yield_def split: option.splits)
  then have bytes: "unat (pt_bytes_yielded slow) = unat expected" by (rule complete_paced_bytes [OF valid])
  have facts: "st_slow_success_terminals t = 1" "\<not> st_slow_idle_timeout_fired t" "st_stall_bytes_yielded t = 0"
    "st_stall_failure_terminals t = 1" "\<not> st_stall_outer_kill_used t"
    using pass by (simp_all add: slow_passed_def stall_passed_def)
  have counters: "unat (ss_slow_bytes s) = b" "unat (ss_slow_success s) = n" "ss_slow_idle s = 0" "ss_stall_bytes s = 0"
    "unat (ss_stall_failure s) = n" "ss_stall_outer_kill s = 0"
    using assms(3) by (simp_all add: stream_counters_def unsigned_eq_0_iff)
  have "unat (saturating_add (ss_slow_bytes s) (pt_bytes_yielded slow)) = b + unat expected"
    using assms(4) counters(1) bytes by (simp add: unat_saturating_add)
  moreover have "unat (saturating_add (ss_slow_success s) 1) = n + 1" "unat (saturating_add (ss_stall_failure s) 1) = n + 1"
    using assms(5) counters by (simp_all add: unat_saturating_add [of _ 1 1])
  moreover have "saturating_add 0 0 = 0" by (simp add: saturating_add_def)
  ultimately show ?thesis
    using pass(3) by (simp add: s' add_stream_trial_def Let_def stream_counters_def facts counters flag_count_def)
qed

lemma stream_steps_counters:
  assumes "fold_ok (stream_trial_step show_id repetitions expected idle slow_ms stall_ms) s ts = Inr s'" and "ss_all_passed s'"
    and "stream_counters s = [b, n, 0, 0, n, 0]" and "b + length ts * unat expected < 2 ^ 64" and "n + length ts < 2 ^ 64"
  shows "ss_all_passed s \<and> stream_counters s' = [b + length ts * unat expected, n + length ts, 0, 0, n + length ts, 0]"
  using assms
proof (induction ts arbitrary: s b n)
  case (Cons t ts)
  then obtain u where u: "stream_trial_step show_id repetitions expected idle slow_ms stall_ms s t = Inr u"
    and rest: "fold_ok (stream_trial_step show_id repetitions expected idle slow_ms stall_ms) u ts = Inr s'"
    by (auto simp: and_then_Inr_iff)
  have "ss_all_passed u" by (rule stream_steps_passed [OF rest Cons.prems(2)])
  then have step: "ss_all_passed s" "stream_counters u = [b + unat expected, n + 1, 0, 0, n + 1, 0]"
    using stream_step_counters [OF u _ Cons.prems(3)] Cons.prems(4,5) by simp_all
  then show ?case
    using Cons.IH [OF rest Cons.prems(2) step(2)] Cons.prems(4,5) by (simp add: algebra_simps)
qed simp

lemma f_of_u64_unat: "f_of_u64 n = f_of_int (int (unat n))"
  by (simp only: f_of_u64_def uint_nat)

lemma stream_lookups:
  "bt_get (stream_metrics s) ''slow_stream_vs_stall.slow_bytes_yielded'' = Some (f_of_u64 (ss_slow_bytes s))"
  "bt_get (stream_metrics s) ''slow_stream_vs_stall.slow_terminal_success'' = Some (f_of_u64 (ss_slow_success s))"
  "bt_get (stream_metrics s) ''slow_stream_vs_stall.slow_idle_timeout_fired'' = Some (f_of_u64 (ss_slow_idle s))"
  "bt_get (stream_metrics s) ''slow_stream_vs_stall.stall_bytes_yielded'' = Some (f_of_u64 (ss_stall_bytes s))"
  "bt_get (stream_metrics s) ''slow_stream_vs_stall.stall_structured_failure'' = Some (f_of_u64 (ss_stall_failure s))"
  "bt_get (stream_metrics s) ''slow_stream_vs_stall.stall_outer_kill_used'' = Some (f_of_u64 (ss_stall_outer_kill s))"
  unfolding stream_metrics_def bt_get_of_list rev.simps append.simps map_of.simps fst_conv snd_conv fun_upd_apply
  by (simp_all only: list.inject char.inject list.distinct simp_thms if_True if_False)

section \<open>The claim\<close>

text \<open>When row 59 passes, its counters are forced: with \<open>R\<close> repetitions of \<open>N\<close> frames the slow
  streams yielded \<open>R N\<close> bytes in all, reported \<open>R\<close> successes and no idle timeout, and the stalled
  streams yielded nothing, reported \<open>R\<close> structured failures and needed no outer kill.\<close>

theorem passing_streams_forced:
  assumes "se_passed (evaluate_slow_stream_vs_stall show_id trials repetitions expected idle_timeout_ms)"
  shows "map (bt_get (se_metrics (evaluate_slow_stream_vs_stall show_id trials repetitions expected idle_timeout_ms)))
      [''slow_stream_vs_stall.slow_bytes_yielded'', ''slow_stream_vs_stall.slow_terminal_success'',
       ''slow_stream_vs_stall.slow_idle_timeout_fired'', ''slow_stream_vs_stall.stall_bytes_yielded'',
       ''slow_stream_vs_stall.stall_structured_failure'', ''slow_stream_vs_stall.stall_outer_kill_used'']
    = map (\<lambda>n. Some (f_of_int (int n)))
      [unat repetitions * unat expected, unat repetitions, 0, 0, unat repetitions, 0]"
proof -
  obtain s where eval: "evaluate_slow_stream_vs_stall show_id trials repetitions expected idle_timeout_ms = stream_complete s"
    and len: "length trials = unat repetitions"
    and fold: "fold_ok (stream_trial_step show_id repetitions expected idle_timeout_ms
        (paced_deadline_ms expected idle_timeout_ms) (saturating_add idle_timeout_ms 3000)) stream_start trials = Inr s"
    using assms by (auto simp: evaluate_slow_stream_vs_stall_def stream_incomplete_def split: if_splits sum.splits)
  have passed: "ss_all_passed s" using assms by (simp add: eval stream_complete_def)
  have bounds: "unat repetitions < 2 ^ 32" "unat expected < 2 ^ 32"
    using unsigned_less [of repetitions] unsigned_less [of expected] by simp_all
  then have "unat repetitions * unat expected < 2 ^ 32 * 2 ^ 32" by (intro mult_strict_mono) auto
  then have "stream_counters s = [unat repetitions * unat expected, unat repetitions, 0, 0, unat repetitions, 0]"
    using stream_steps_counters [OF fold passed, of 0 0] bounds len by (simp add: stream_start_def stream_counters_def)
  then have counters: "unat (ss_slow_bytes s) = unat repetitions * unat expected" "unat (ss_slow_success s) = unat repetitions"
    "unat (ss_slow_idle s) = 0" "unat (ss_stall_bytes s) = 0" "unat (ss_stall_failure s) = unat repetitions"
    "unat (ss_stall_outer_kill s) = 0"
    by (simp_all only: stream_counters_def list.map list.inject)
  show ?thesis
    unfolding eval by (simp only: stream_complete_def stream_evaluation.simps stream_lookups list.map f_of_u64_unat counters)
qed

text \<open>One pair that passes: a frame yielded on time, and a stall that ends by itself after 1250 ms.\<close>

definition passing_ledger :: paced_ledger where
  "passing_ledger = sample_ledger\<lparr>pl_expected_count := 1,
     pl_frames := [sample_boundary 1 1000000005 (Some 1000000005) None], pl_connection_closed_ns := None\<rparr>"

definition passing_pair :: stream_trial where
  "passing_pair = \<lparr>st_repetition = 1, st_slow_response_headers_ns = 5, st_slow_terminal_ns = Some 1000000006,
     st_slow_frames = [sample_observation], st_slow_paced_ledger = passing_ledger, st_slow_terminal_count = 1,
     st_slow_success_terminals = 1, st_slow_idle_timeout_fired = False, st_slow_outer_kill_used = False,
     st_slow_outer_kill_ns = None, st_slow_outer_deadline_ms = 5250, st_stall_response_headers_ns = 7,
     st_stall_terminal_ns = Some 1250000007, st_stall_bytes_yielded = 0, st_stall_terminal_count = 1,
     st_stall_failure_terminals = 1, st_stall_outer_kill_used = False, st_stall_outer_kill_ns = None,
     st_stall_outer_deadline_ms = 4250\<rparr>"

lemma ordinals_1: "ordinals 1 = [1]"
  by (simp add: ordinals_def)

lemma passing_frames: "validate_trickle_frames (\<lambda>_. []) [sample_observation] 5 1
    = Inr \<lparr>vf_bytes = 1, vf_last_yield_ns = 1000000005, vf_max_inter_frame_ms = ns_to_ms 1000000000\<rparr>"
  by (simp add: validate_trickle_frames_def sample_observation_def physical_groups_def observed_identity_def check_group_def
      guard_def check_trickle_frame_def ordinal_at_def boundary_at_def checked_add_def checked_sub_def saturating_mul_def
      saturating_add_def pacing_limit_ns_def Let_def ordinals_1)

lemma passing_paced: "validate_paced_trial (\<lambda>_. []) [sample_observation] passing_ledger 5 1 (Some 1000000006)
    = Inr \<lparr>pt_frames = Some \<lparr>vf_bytes = 1, vf_last_yield_ns = 1000000005, vf_max_inter_frame_ms = ns_to_ms 1000000000\<rparr>,
        pt_bytes_yielded = 1, pt_max_inter_frame_ms = ns_to_ms 1000000000, pt_final_scheduler_ns = 1000000005,
        pt_early_consumer_close = False\<rparr>"
  by (simp add: validate_paced_trial_def conclude_trial_def passing_frames [unfolded sample_observation_def]
      passing_ledger_def sample_ledger_def sample_boundary_def sample_observation_def
      check_boundary_def ordinal_at_def boundary_at_def checked_add_def checked_sub_def saturating_mul_def pacing_limit_ns_def
      earlier_than_def early_close_def all_yielded_def yielded_after_def add_observation_def observed_identity_def
      ledger_identity_def check_yield_def check_receipt_def)

lemma passing_pair_passes: "se_passed (evaluate_slow_stream_vs_stall (\<lambda>_. []) [passing_pair] 1 1 1250)"
  by (simp add: evaluate_slow_stream_vs_stall_def stream_trial_step_def passing_pair_def repetition_invalid_def
      stream_start_def passing_paced end_boundary_def checked_sub_def add_stream_trial_def slow_passed_def stall_passed_def
      after_last_yield_def deadline_ns_def paced_deadline_ms_def saturating_add_def saturating_mul_def stream_complete_def
      ns_to_ms_def f_of_u64_def f_of_int_def Let_def)

theorem passing_streams_forced_witness:
  "se_passed (evaluate_slow_stream_vs_stall (\<lambda>_. []) [passing_pair] 1 1 1250)
   \<and> bt_get (se_metrics (evaluate_slow_stream_vs_stall (\<lambda>_. []) [passing_pair] 1 1 1250))
      ''slow_stream_vs_stall.slow_bytes_yielded'' = Some (f_of_int 1)"
  using passing_streams_forced [OF passing_pair_passes] passing_pair_passes by simp

end
