(* ===== verification/Workspace_Fault.thy ===== *)
theory Workspace_Fault
  imports Wave_Statistics Strings
begin

text \<open>
  Row 61 of \<open>src/src/wave2.rs\<close>: a write into a read-only or full workspace must end in a structured
  failure with the operating system's error, and the snapshots around the trial must agree that nothing
  was written.
\<close>

section \<open>Trials\<close>

record fault_trial =
  ft_repetition :: u32
  ft_kind :: string
  ft_call_id :: string
  ft_target_path :: string
  ft_result_path :: "string option"
  ft_structured_result :: "json option"
  ft_native_result_carrier :: "json option"
  ft_write_errno :: "i32 option"
  ft_control_write_errno :: "i32 option"
  ft_structured_failure :: bool
  ft_terminal_count :: u32
  ft_terminal_ms :: f64
  ft_outside_writes :: u32
  ft_residue_processes :: u32
  ft_target_written :: bool
  ft_target_existed_before :: bool
  ft_snapshot_complete :: bool
  ft_workspace_before :: string
  ft_workspace_after :: string
  ft_profile_before :: string
  ft_profile_after :: string
  ft_forbidden_before :: string
  ft_forbidden_after :: string
  ft_success_contradiction :: bool
  ft_crashed :: bool
  ft_hung :: bool

record fault_evaluation =
  fv_metrics :: "(string, f64) btree"
  fv_details :: json
  fv_measurement_complete :: bool
  fv_passed :: bool
  fv_measurement_error :: "string option"

definition fault_incomplete :: "string \<Rightarrow> fault_evaluation" where
  "fault_incomplete detail =
     \<lparr>fv_metrics = [],
      fv_details = json_object [(''measurement_complete'', JBool False), (''measurement_error'', JString detail)],
      fv_measurement_complete = False, fv_passed = False, fv_measurement_error = Some detail\<rparr>"

section \<open>Validation\<close>

text \<open>\<open>EACCES\<close>, \<open>EROFS\<close> and \<open>ENOSPC\<close>, the same numbers on Linux and macOS.\<close>

definition allowed_errno :: "i32 \<Rightarrow> bool" where
  "allowed_errno errno \<longleftrightarrow> errno = 13 \<or> errno = 30 \<or> errno = 28"

definition show_i32 :: "i32 \<Rightarrow> string" where
  "show_i32 n = (if n < 0 then ''-'' @ show_nat (nat (- n)) else show_nat (nat n))"

definition valid_digest :: "string \<Rightarrow> bool" where
  "valid_digest digest \<longleftrightarrow> length (utf8_bytes digest) = 64 \<and> list_all ascii_hexdigit digest"

definition snapshots_complete :: "fault_trial \<Rightarrow> bool" where
  "snapshots_complete t \<longleftrightarrow>
     ft_snapshot_complete t \<and> \<not> ft_target_existed_before t
     \<and> valid_digest (ft_workspace_before t) \<and> valid_digest (ft_workspace_after t)
     \<and> valid_digest (ft_profile_before t) \<and> valid_digest (ft_profile_after t)
     \<and> valid_digest (ft_forbidden_before t) \<and> valid_digest (ft_forbidden_after t)"

definition snapshots_contradict :: "fault_trial \<Rightarrow> bool" where
  "snapshots_contradict t \<longleftrightarrow>
     ft_target_written t \<or> 0 < ft_outside_writes t \<or> ft_workspace_before t \<noteq> ft_workspace_after t
     \<or> ft_forbidden_before t \<noteq> ft_forbidden_after t"

definition result_member :: "fault_trial \<Rightarrow> string \<Rightarrow> json option" where
  "result_member t key = Option.bind (ft_structured_result t) (\<lambda>r. json_get r key)"

definition result_unmapped :: "fault_trial \<Rightarrow> bool" where
  "result_unmapped t \<longleftrightarrow>
     ft_call_id t = [] \<or> ft_target_path t = []
     \<or> Option.bind (result_member t ''schema'') as_str \<noteq> Some ''ahrb.fixture.write.v1''
     \<or> ft_native_result_carrier t = None \<or> ft_result_path t = None"

definition check_result :: "fault_trial \<Rightarrow> string + unit" where
  "check_result t =
     (if ft_crashed t \<or> ft_hung t then Inr ()
      else if result_unmapped t then Inl ''ordinary fixture result lacks exact call/path/native-carrier mapping''
      else case ft_write_errno t of
        None \<Rightarrow> guard (Option.bind (result_member t ''ok'') as_bool = Some True)
          ''ordinary fixture structured failure omitted write_errno''
      | Some errno \<Rightarrow> guard (allowed_errno errno)
          ''ordinary fixture structured result returned an unrelated write_errno'')"

definition check_fault_trial :: "fault_trial \<Rightarrow> string + unit" where
  "check_fault_trial t =
     (case ft_control_write_errno t of
        None \<Rightarrow> Inl ''workspace-fault control write has no errno boundary''
      | Some control \<Rightarrow>
        if \<not> allowed_errno control
        then Inl (''workspace-fault chmod/mount control was ineffective or unrelated (errno='' @ show_i32 control @ '')'')
        else if \<not> snapshots_complete t
        then Inl ''workspace-fault target/profile/forbidden-root snapshot boundary is incomplete''
        else if snapshots_contradict t
        then Inl ''ordinary fixture errno contradicts target/profile snapshot evidence''
        else check_result t)"

section \<open>The evaluation\<close>

definition fault_trial_passed :: "u64 \<Rightarrow> fault_trial \<Rightarrow> bool" where
  "fault_trial_passed turn_timeout_ms t \<longleftrightarrow>
     ft_structured_failure t \<and> ft_terminal_count t = 1 \<and> f_le (ft_terminal_ms t) (f_of_u64 turn_timeout_ms)
     \<and> ft_outside_writes t = 0 \<and> ft_residue_processes t = 0 \<and> \<not> ft_target_written t
     \<and> ft_result_path t = Some (ft_target_path t) \<and> \<not> ft_success_contradiction t \<and> \<not> ft_crashed t \<and> \<not> ft_hung t"

definition sum_u32 :: "('a \<Rightarrow> u32) \<Rightarrow> 'a list \<Rightarrow> u64" where
  "sum_u32 f xs = sum_list (map (\<lambda>x. ucast (f x)) xs)"

definition fault_metrics :: "fault_trial list \<Rightarrow> (string, f64) btree" where
  "fault_metrics trials = bt_of_list
     [(''workspace_fault.structured_failure'', f_of_int (int (length (filter ft_structured_failure trials)))),
      (''workspace_fault.terminal_count'', f_of_u64 (sum_u32 ft_terminal_count trials)),
      (''workspace_fault.terminal_ms'', f_maximum (map ft_terminal_ms trials)),
      (''workspace_fault.outside_writes'', f_of_u64 (sum_u32 ft_outside_writes trials)),
      (''workspace_fault.residue_processes'', f_of_u64 (sum_u32 ft_residue_processes trials))]"

definition json_i32 :: "i32 \<Rightarrow> json" where
  "json_i32 n = JNumber (if n < 0 then NegInt (of_int n) else PosInt (of_int n))"

definition fault_trial_json :: "fault_trial \<Rightarrow> json" where
  "fault_trial_json t = json_object
     [(''repetition'', json_u32 (ft_repetition t)), (''kind'', JString (ft_kind t)), (''call_id'', JString (ft_call_id t)),
      (''target_path'', JString (ft_target_path t)), (''result_path'', json_option JString (ft_result_path t)),
      (''structured_result'', json_option (\<lambda>v. v) (ft_structured_result t)),
      (''native_result_carrier'', json_option (\<lambda>v. v) (ft_native_result_carrier t)),
      (''write_errno'', json_option json_i32 (ft_write_errno t)),
      (''control_write_errno'', json_option json_i32 (ft_control_write_errno t)),
      (''target_existed_before'', JBool (ft_target_existed_before t)),
      (''workspace_snapshot_before_sha256'', JString (ft_workspace_before t)),
      (''workspace_snapshot_after_sha256'', JString (ft_workspace_after t)),
      (''profile_snapshot_before_sha256'', JString (ft_profile_before t)),
      (''profile_snapshot_after_sha256'', JString (ft_profile_after t)),
      (''forbidden_snapshot_before_sha256'', JString (ft_forbidden_before t)),
      (''forbidden_snapshot_after_sha256'', JString (ft_forbidden_after t))]"

definition evaluate_workspace_fault :: "fault_trial list \<Rightarrow> u32 \<Rightarrow> u64 \<Rightarrow> fault_evaluation" where
  "evaluate_workspace_fault trials expected turn_timeout_ms =
     (if length trials \<noteq> unat expected then fault_incomplete ''workspace-fault trial set is incomplete''
      else case first_error check_fault_trial trials of
        Inl detail \<Rightarrow> fault_incomplete detail
      | Inr _ \<Rightarrow>
        \<lparr>fv_metrics = fault_metrics trials,
         fv_details = json_object [(''measurement_complete'', JBool True), (''trials'', json_list fault_trial_json trials),
           (''write_errno_source'', JString ''ordinary-fixture-structured-result-cross-checked-against-snapshots'')],
         fv_measurement_complete = True, fv_passed = list_all (fault_trial_passed turn_timeout_ms) trials,
         fv_measurement_error = None\<rparr>)"

end
