(* ===== verification/Wave_Rows.thy ===== *)
theory Wave_Rows
  imports Wave_Statistics Strings "HOL-Library.Product_Lexorder"
begin

text \<open>
  What the evaluators of the later waves share: the validation of trials with distinct keys, saturating
  counters over trials, digests, and the slope of a point series.  The evaluators of the code run one
  loop that validates, counts and decides; an invalid trial returns at once and discards what was
  counted, so the loop is modelled as the validation of all trials followed by one fold per counter.
\<close>

section \<open>Validation with distinct keys\<close>

text \<open>One trial: refused with its message when it is invalid or its key was seen.\<close>

definition admit :: "('a \<Rightarrow> bool) \<Rightarrow> ('a \<Rightarrow> 'k) \<Rightarrow> ('a \<Rightarrow> string) \<Rightarrow> 'k list \<Rightarrow> 'a \<Rightarrow> string + 'k list" where
  "admit valid key message seen t = (if valid t \<and> key t \<notin> set seen then Inr (key t # seen) else Inl (message t))"

definition admit_all :: "('a \<Rightarrow> bool) \<Rightarrow> ('a \<Rightarrow> 'k) \<Rightarrow> ('a \<Rightarrow> string) \<Rightarrow> 'a list \<Rightarrow> string + 'k list" where
  "admit_all valid key message trials = fold_ok (admit valid key message) [] trials"

lemma admit_fold: "(\<exists>s. fold_ok (admit valid key message) seen trials = Inr s) \<longleftrightarrow>
    list_all valid trials \<and> distinct (map key trials) \<and> key ` set trials \<inter> set seen = {}"
proof (induction trials arbitrary: seen)
  case (Cons t trials)
  have "(\<exists>s. fold_ok (admit valid key message) seen (t # trials) = Inr s) \<longleftrightarrow>
      valid t \<and> key t \<notin> set seen \<and> (\<exists>s. fold_ok (admit valid key message) (key t # seen) trials = Inr s)"
    by (auto simp: and_then_Inr_iff admit_def)
  then show ?case using Cons.IH [of "key t # seen"] by auto
qed simp

lemma admit_all_Inr: "(\<exists>s. admit_all valid key message trials = Inr s) \<longleftrightarrow> list_all valid trials \<and> distinct (map key trials)"
  unfolding admit_all_def admit_fold by simp

section \<open>Counters\<close>

definition sat_sum :: "('a \<Rightarrow> u64) \<Rightarrow> 'a list \<Rightarrow> u64" where
  "sat_sum f trials = foldl (\<lambda>n t. saturating_add n (f t)) 0 trials"

definition count_u32 :: "('a \<Rightarrow> u32) \<Rightarrow> 'a list \<Rightarrow> u64" where
  "count_u32 f trials = sat_sum (\<lambda>t. ucast (f t)) trials"

definition count_flag :: "('a \<Rightarrow> bool) \<Rightarrow> 'a list \<Rightarrow> u64" where
  "count_flag f trials = sat_sum (\<lambda>t. if f t then 1 else 0) trials"

definition max_u64 :: "('a \<Rightarrow> u64) \<Rightarrow> 'a list \<Rightarrow> u64" where
  "max_u64 f trials = foldl (\<lambda>n t. max n (f t)) 0 trials"

lemma unat_sat_fold: "unat n + sum_list (map (\<lambda>t. unat (f t)) trials) < 2 ^ 64 \<Longrightarrow>
    unat (foldl (\<lambda>n t. saturating_add n (f t)) n trials) = unat n + sum_list (map (\<lambda>t. unat (f t)) trials)"
proof (induction trials arbitrary: n)
  case (Cons t trials)
  have "unat (saturating_add n (f t)) = unat n + unat (f t)"
    using Cons.prems by (simp add: saturating_add_def unat_word_ariths)
  then show ?case using Cons.IH [of "saturating_add n (f t)"] Cons.prems by simp
qed simp

lemma unat_sat_sum: "sum_list (map (\<lambda>t. unat (f t)) trials) < 2 ^ 64 \<Longrightarrow>
    unat (sat_sum f trials) = sum_list (map (\<lambda>t. unat (f t)) trials)"
  using unat_sat_fold [of 0 f trials] by (simp add: sat_sum_def)

section \<open>Digests and doubles\<close>

definition hex64 :: "string \<Rightarrow> bool" where
  "hex64 digest \<longleftrightarrow> length (utf8_bytes digest) = 64 \<and> list_all ascii_hexdigit digest"

text \<open>\<open>is_sign_negative\<close> of a double that is then required to be finite.  The model has one zero, so a
  negative zero, which the code refuses, counts as zero.\<close>

definition f_negative :: "f64 \<Rightarrow> bool" where
  "f_negative x \<longleftrightarrow> f_lt x (Fin 0)"

definition non_negative :: "f64 \<Rightarrow> bool" where
  "non_negative x \<longleftrightarrow> \<not> f_negative x \<and> f_is_finite x"

text \<open>The median of the slopes between the points with different abscissas.\<close>

definition theil_sen_xy :: "f64 list \<Rightarrow> f64 list \<Rightarrow> f64" where
  "theil_sen_xy x y =
     (if length x \<noteq> length y \<or> length x < 2 then Fin 0
      else median_or_zero (concat (map (\<lambda>left. concat (map (\<lambda>right.
        let denominator = f_sub (x ! right) (x ! left) in
        if f_eq denominator (Fin 0) then [] else [f_div (f_sub (y ! right) (y ! left)) denominator])
        [left + 1..<length x])) [0..<length x - 1])))"

definition f_of_u32 :: "u32 \<Rightarrow> f64" where
  "f_of_u32 n = f_of_int (uint n)"

end
