(* ===== verification/Session_Residue.thy ===== *)
theory Session_Residue
  imports Wave_Rows
begin

text \<open>
  Row 50 of \<open>src/src/wave3_long_horizon.rs\<close>: what sessions leave behind after they were created and
  deleted.  Each sweep reports checkpoints every ten sessions, relative to a warm baseline, and the
  evaluation fits a slope to every series.
\<close>

section \<open>Evidence\<close>

record store_entry =
  sn_root_index :: u32
  sn_relative_path :: string
  sn_file_type :: string
  sn_device :: u64
  sn_inode :: u64
  sn_size :: u64
  sn_sha256 :: "string option"

record residue_checkpoint =
  rp_repetition :: u32
  rp_sessions_created :: u32
  rp_memory_residue_mib :: f64
  rp_fd_delta :: f64
  rp_thread_delta :: f64
  rp_process_delta :: f64
  rp_store_residue_bytes :: u64
  rp_store_residue_files :: u64
  rp_close_delete_validated_through :: u32
  rp_traversal_valid :: bool
  rp_store_entries :: "store_entry list"

text \<open>The counters of one observed process tree: samples, peaks, residues, and whether it was reclaimed.\<close>

record process_counters =
  pc_sample_count :: u32
  pc_peak_memory_bytes :: u64
  pc_peak_open_fds :: u64
  pc_peak_threads :: u64
  pc_peak_processes :: u64
  pc_residue_memory_bytes :: u64
  pc_residue_open_fds :: u64
  pc_residue_threads :: u64
  pc_residue_processes :: u64
  pc_reclaim_validated :: bool

record process_audit =
  pa_repetition :: u32
  pa_session_ordinal :: u32
  pa_invocation :: process_counters
  pa_close_delete :: process_counters
  pa_close_delete_result_validated :: bool

record residue_sweep =
  rs_repetition :: u32
  rs_created_sessions :: u32
  rs_closed_sessions :: u32
  rs_unretired_sessions :: u32
  rs_maximum_active_delta_mib :: f64
  rs_final_memory_residue_mib :: f64
  rs_checkpoints :: "residue_checkpoint list"
  rs_process_audits :: "process_audit list"

record residue_evaluation =
  re_resource_values :: "(string, f64) btree"
  re_metrics :: "(string, f64) btree"
  re_details :: json
  re_measurement_complete :: bool
  re_passed :: bool
  re_measurement_error :: "string option"
  re_final_residue_files :: u64

definition residue_incomplete :: "string \<Rightarrow> residue_evaluation" where
  "residue_incomplete message =
     \<lparr>re_resource_values = [], re_metrics = [],
      re_details = json_object [(''measurement_complete'', JBool False), (''measurement_error'', JString message)],
      re_measurement_complete = False, re_passed = False, re_measurement_error = Some message, re_final_residue_files = 0\<rparr>"

section \<open>Validation of a sweep\<close>

definition lifecycle_valid :: "u32 \<Rightarrow> residue_sweep \<Rightarrow> bool" where
  "lifecycle_valid expected_sessions s \<longleftrightarrow>
     rs_created_sessions s = expected_sessions \<and> rs_closed_sessions s \<le> rs_created_sessions s
     \<and> non_negative (rs_maximum_active_delta_mib s) \<and> non_negative (rs_final_memory_residue_mib s)"

definition audits_in_order :: "residue_sweep \<Rightarrow> process_audit list" where
  "audits_in_order s = sort_key pa_session_ordinal (rs_process_audits s)"

definition audit_valid :: "residue_sweep \<Rightarrow> nat \<times> process_audit \<Rightarrow> bool" where
  "audit_valid s x \<longleftrightarrow> (case x of (index, a) \<Rightarrow>
     pa_repetition a = rs_repetition s \<and> unat (pa_session_ordinal a) = index + 1
     \<and> pc_sample_count (pa_invocation a) \<noteq> 0 \<and> pc_sample_count (pa_close_delete a) \<noteq> 0
     \<and> pa_close_delete_result_validated a)"

definition counters_leave :: "process_counters \<Rightarrow> bool" where
  "counters_leave c \<longleftrightarrow> pc_residue_memory_bytes c \<noteq> 0 \<or> pc_residue_open_fds c \<noteq> 0 \<or> pc_residue_threads c \<noteq> 0
     \<or> pc_residue_processes c \<noteq> 0"

definition audit_unretired :: "process_audit \<Rightarrow> bool" where
  "audit_unretired a \<longleftrightarrow> \<not> pc_reclaim_validated (pa_invocation a) \<or> \<not> pc_reclaim_validated (pa_close_delete a)
     \<or> counters_leave (pa_invocation a) \<or> counters_leave (pa_close_delete a)"

definition audited_unretired :: "u32 \<Rightarrow> bool \<Rightarrow> residue_sweep \<Rightarrow> string + u32" where
  "audited_unretired expected_sessions per_invocation s =
     (if per_invocation
      then let audits = audits_in_order s in
        if length audits \<noteq> unat expected_sessions \<or> \<not> list_all (audit_valid s) (enumerate 0 audits)
        then Inl (''row-50 repetition '' @ show_u32 (rs_repetition s) @ '' lacks complete invocation/close-delete process audits'')
        else let n = length (filter audit_unretired audits) in Inr (if n < 2 ^ 32 then of_nat n else 4294967295)
      else if rs_process_audits s \<noteq> []
      then Inl (''row-50 daemon repetition '' @ show_u32 (rs_repetition s) @ '' unexpectedly contains exec process audits'')
      else Inr 0)"

definition checkpoints_in_order :: "residue_sweep \<Rightarrow> residue_checkpoint list" where
  "checkpoints_in_order s = sort_key rp_sessions_created (rs_checkpoints s)"

text \<open>\<open>(0..=n).step_by(10)\<close>.\<close>

definition every_ten :: "u32 \<Rightarrow> u32 list" where
  "every_ten n = map (\<lambda>i. of_nat (10 * i)) [0..<unat n div 10 + 1]"

definition checkpoint_valid :: "residue_sweep \<Rightarrow> residue_checkpoint \<Rightarrow> bool" where
  "checkpoint_valid s c \<longleftrightarrow>
     rp_repetition c = rs_repetition s \<and> rp_close_delete_validated_through c = rp_sessions_created c
     \<and> rp_traversal_valid c \<and> non_negative (rp_memory_residue_mib c) \<and> f_is_finite (rp_fd_delta c)
     \<and> f_is_finite (rp_thread_delta c) \<and> f_is_finite (rp_process_delta c)"

definition entry_identity :: "store_entry \<Rightarrow> u64 \<times> u64" where
  "entry_identity e = (sn_device e, sn_inode e)"

definition entry_valid :: "store_entry \<Rightarrow> bool" where
  "entry_valid e \<longleftrightarrow> sn_relative_path e \<noteq> [] \<and> \<not> (sn_file_type e = ''regular'' \<and> sn_sha256 e = None)"

definition check_checkpoint :: "residue_sweep \<Rightarrow> residue_checkpoint \<Rightarrow> string + unit" where
  "check_checkpoint s c =
     (if \<not> checkpoint_valid s c
      then Inl (''row-50 repetition '' @ show_u32 (rs_repetition s) @ '' has unvalidated close-delete or invalid checkpoint evidence'')
      else and_then (admit_all entry_valid entry_identity
          (\<lambda>_. ''row-50 repetition '' @ show_u32 (rs_repetition s) @ '' has duplicate or incomplete store identity evidence'')
          (rp_store_entries c)) (\<lambda>_. Inr ()))"

section \<open>The series of a sweep\<close>

record sweep_summary =
  sw_sweep :: residue_sweep
  sw_memory_slope :: f64
  sw_fd_slope :: f64
  sw_thread_slope :: f64
  sw_process_slope :: f64
  sw_store_byte_slope :: f64
  sw_store_file_slope :: f64
  sw_final_store_bytes :: u64
  sw_final_store_files :: u64
  sw_unretired :: u32

definition series_slope :: "residue_checkpoint list \<Rightarrow> (residue_checkpoint \<Rightarrow> f64) \<Rightarrow> f64" where
  "series_slope cs f = theil_sen_xy (map (\<lambda>c. f_of_u32 (rp_sessions_created c)) cs) (map f cs)"

definition summarize_sweep :: "residue_sweep \<Rightarrow> residue_checkpoint list \<Rightarrow> u32 \<Rightarrow> sweep_summary" where
  "summarize_sweep s cs audited =
     \<lparr>sw_sweep = s, sw_memory_slope = series_slope cs rp_memory_residue_mib, sw_fd_slope = series_slope cs rp_fd_delta,
      sw_thread_slope = series_slope cs rp_thread_delta, sw_process_slope = series_slope cs rp_process_delta,
      sw_store_byte_slope = series_slope cs (\<lambda>c. f_of_u64 (rp_store_residue_bytes c)),
      sw_store_file_slope = series_slope cs (\<lambda>c. f_of_u64 (rp_store_residue_files c)),
      sw_final_store_bytes = rp_store_residue_bytes (last cs), sw_final_store_files = rp_store_residue_files (last cs),
      sw_unretired = max (rs_unretired_sessions s) audited\<rparr>"

definition sweep_step :: "u32 \<Rightarrow> u32 \<Rightarrow> bool \<Rightarrow> u32 list \<times> sweep_summary list \<Rightarrow> residue_sweep
    \<Rightarrow> string + u32 list \<times> sweep_summary list" where
  "sweep_step expected_repetitions expected_sessions per_invocation acc s =
     (let context = ''row-50 repetition '' @ show_u32 (rs_repetition s) in
      if rs_repetition s = 0 \<or> expected_repetitions < rs_repetition s \<or> rs_repetition s \<in> set (fst acc)
      then Inl ''row-50 has an invalid or duplicate repetition''
      else if \<not> lifecycle_valid expected_sessions s
      then Inl (context @ '' has invalid lifecycle counters or memory evidence'')
      else and_then (audited_unretired expected_sessions per_invocation s) (\<lambda>audited.
      let cs = checkpoints_in_order s in
      if map rp_sessions_created cs \<noteq> every_ten expected_sessions
      then Inl (context @ '' lacks the exact 0/every-10/N checkpoints'')
      else and_then (first_error (check_checkpoint s) cs) (\<lambda>_.
      if cs = [] then Inl ''row-50 checkpoint set is empty''
      else Inr (rs_repetition s # fst acc, snd acc @ [summarize_sweep s cs audited]))))"

section \<open>The evaluation\<close>

definition sweep_passed :: "u32 \<Rightarrow> f64 \<Rightarrow> sweep_summary \<Rightarrow> bool" where
  "sweep_passed expected_sessions final_bound w \<longleftrightarrow>
     rs_closed_sessions (sw_sweep w) = expected_sessions \<and> sw_unretired w = 0
     \<and> f_le (sw_memory_slope w) (Fin (1/32)) \<and> f_le (sw_fd_slope w) (Fin 0) \<and> f_le (sw_thread_slope w) (Fin 0)
     \<and> f_le (sw_process_slope w) (Fin 0) \<and> f_le (sw_store_byte_slope w) (Fin 0) \<and> f_le (sw_store_file_slope w) (Fin 0)
     \<and> f_le (rs_final_memory_residue_mib (sw_sweep w)) final_bound
     \<and> (case find (\<lambda>c. rp_sessions_created c = expected_sessions) (rs_checkpoints (sw_sweep w)) of
          None \<Rightarrow> False | Some c \<Rightarrow> rp_store_residue_bytes c = 0 \<and> rp_store_residue_files c = 0)"

definition final_memory_bound :: "sweep_summary list \<Rightarrow> f64" where
  "final_memory_bound ws = f_max (Fin 64) (f_mul (f_round (1/5)) (f_maximum (map (\<lambda>w. rs_maximum_active_delta_mib (sw_sweep w)) ws)))"

definition residue_resources :: "sweep_summary list \<Rightarrow> (string, f64) btree" where
  "residue_resources ws = bt_of_list
     [(''session_residue_slope_mib_per_session'', median_or_zero (map sw_memory_slope ws)),
      (''session_residue_final_mib'', f_maximum (map (\<lambda>w. rs_final_memory_residue_mib (sw_sweep w)) ws)),
      (''session_store_byte_slope_per_session'', median_or_zero (map sw_store_byte_slope ws)),
      (''session_store_file_count_slope_per_session'', median_or_zero (map sw_store_file_slope ws)),
      (''session_store_final_residue_bytes'', f_of_u64 (max_u64 sw_final_store_bytes ws))]"

definition residue_metrics :: "sweep_summary list \<Rightarrow> (string, f64) btree" where
  "residue_metrics ws = bt_of_list
     [(''session_residue_sweep.fd_slope_per_session'', median_or_zero (map sw_fd_slope ws)),
      (''session_residue_sweep.thread_slope_per_session'', median_or_zero (map sw_thread_slope ws)),
      (''session_residue_sweep.process_slope_per_session'', median_or_zero (map sw_process_slope ws)),
      (''session_residue_sweep.unretired_sessions'', f_of_u64 (count_u32 sw_unretired ws)),
      (''session_residue_sweep.closed_sessions'', f_of_u64 (count_u32 (\<lambda>w. rs_closed_sessions (sw_sweep w)) ws)),
      (''session_residue_sweep.created_sessions'', f_of_u64 (count_u32 (\<lambda>w. rs_created_sessions (sw_sweep w)) ws))]"

section \<open>Details\<close>

definition store_entry_json :: "store_entry \<Rightarrow> json" where
  "store_entry_json e = json_object
     [(''root_index'', json_u32 (sn_root_index e)), (''relative_path'', JString (sn_relative_path e)),
      (''file_type'', JString (sn_file_type e)), (''device'', json_u64 (sn_device e)), (''inode'', json_u64 (sn_inode e)),
      (''size'', json_u64 (sn_size e)), (''sha256'', json_option JString (sn_sha256 e))]"

definition checkpoint_json :: "residue_checkpoint \<Rightarrow> json" where
  "checkpoint_json c = json_object
     [(''repetition'', json_u32 (rp_repetition c)), (''sessions_created'', json_u32 (rp_sessions_created c)),
      (''memory_residue_mib'', json_f64 (rp_memory_residue_mib c)), (''fd_delta'', json_f64 (rp_fd_delta c)),
      (''thread_delta'', json_f64 (rp_thread_delta c)), (''process_delta'', json_f64 (rp_process_delta c)),
      (''store_residue_bytes'', json_u64 (rp_store_residue_bytes c)), (''store_residue_files'', json_u64 (rp_store_residue_files c)),
      (''close_delete_validated_through'', json_u32 (rp_close_delete_validated_through c)),
      (''traversal_valid'', JBool (rp_traversal_valid c)), (''store_entries'', json_list store_entry_json (rp_store_entries c))]"

definition counters_members :: "string \<Rightarrow> process_counters \<Rightarrow> (string \<times> json) list" where
  "counters_members prefix c =
     [(prefix @ ''_sample_count'', json_u32 (pc_sample_count c)),
      (prefix @ ''_peak_memory_bytes'', json_u64 (pc_peak_memory_bytes c)), (prefix @ ''_peak_open_fds'', json_u64 (pc_peak_open_fds c)),
      (prefix @ ''_peak_threads'', json_u64 (pc_peak_threads c)), (prefix @ ''_peak_processes'', json_u64 (pc_peak_processes c)),
      (prefix @ ''_residue_memory_bytes'', json_u64 (pc_residue_memory_bytes c)),
      (prefix @ ''_residue_open_fds'', json_u64 (pc_residue_open_fds c)),
      (prefix @ ''_residue_threads'', json_u64 (pc_residue_threads c)),
      (prefix @ ''_residue_processes'', json_u64 (pc_residue_processes c)),
      (prefix @ ''_reclaim_validated'', JBool (pc_reclaim_validated c))]"

definition audit_json :: "process_audit \<Rightarrow> json" where
  "audit_json a = json_object
     ([(''repetition'', json_u32 (pa_repetition a)), (''session_ordinal'', json_u32 (pa_session_ordinal a))]
      @ counters_members ''invocation'' (pa_invocation a) @ counters_members ''close_delete'' (pa_close_delete a)
      @ [(''close_delete_result_validated'', JBool (pa_close_delete_result_validated a))])"

definition sweep_json :: "residue_sweep \<Rightarrow> json" where
  "sweep_json s = json_object
     [(''repetition'', json_u32 (rs_repetition s)), (''created_sessions'', json_u32 (rs_created_sessions s)),
      (''closed_sessions'', json_u32 (rs_closed_sessions s)), (''unretired_sessions'', json_u32 (rs_unretired_sessions s)),
      (''maximum_active_delta_mib'', json_f64 (rs_maximum_active_delta_mib s)),
      (''final_memory_residue_mib'', json_f64 (rs_final_memory_residue_mib s)),
      (''checkpoints'', json_list checkpoint_json (rs_checkpoints s)),
      (''process_audits'', json_list audit_json (rs_process_audits s))]"

definition residue_complete :: "u32 \<Rightarrow> residue_sweep list \<Rightarrow> sweep_summary list \<Rightarrow> residue_evaluation" where
  "residue_complete expected_sessions sweeps ws =
     (let bound = final_memory_bound ws; files = max_u64 sw_final_store_files ws
      in \<lparr>re_resource_values = residue_resources ws, re_metrics = residue_metrics ws,
          re_details = json_object [(''measurement_complete'', JBool True),
            (''store_checkpoints'', json_list checkpoint_json (concat (map rs_checkpoints sweeps))),
            (''repetitions'', json_list sweep_json sweeps), (''final_memory_bound_mib'', json_f64 bound),
            (''session_store_final_residue_files'', json_u64 files)],
          re_measurement_complete = True, re_passed = list_all (sweep_passed expected_sessions bound) ws,
          re_measurement_error = None, re_final_residue_files = files\<rparr>)"

definition evaluate_session_residue_sweep :: "residue_sweep list \<Rightarrow> u32 \<Rightarrow> u32 \<Rightarrow> bool \<Rightarrow> residue_evaluation" where
  "evaluate_session_residue_sweep sweeps expected_repetitions expected_sessions per_invocation =
     (if expected_sessions = 0 \<or> expected_sessions mod 10 \<noteq> 0
      then residue_incomplete ''row-50 session count must be a positive multiple of ten''
      else if length sweeps \<noteq> unat expected_repetitions
      then residue_incomplete (''row-50 has '' @ show_nat (length sweeps) @ '' sweeps; expected '' @ show_u32 expected_repetitions)
      else case fold_ok (sweep_step expected_repetitions expected_sessions per_invocation) ([], []) sweeps of
        Inl message \<Rightarrow> residue_incomplete message
      | Inr (_, ws) \<Rightarrow> residue_complete expected_sessions sweeps ws)"

end
