(* ===== verification/Context_Recovery.thy ===== *)
theory Context_Recovery
  imports Wave_Rows
begin

text \<open>
  Row 51 of \<open>src/src/wave3_long_horizon.rs\<close>: recovery from a context-length error that the fake
  provider returns once, with the token count the provider uses.  The JSON pointer lookup of
  \<open>serde_json\<close> is a parameter.
\<close>

section \<open>Input tokens\<close>

definition word_char :: "char \<Rightarrow> bool" where
  "word_char c \<longleftrightarrow> ascii_alphanumeric c \<or> c = CHR ''_''"

definition ascii_whitespace :: "char \<Rightarrow> bool" where
  "ascii_whitespace c \<longleftrightarrow> (of_char c :: nat) \<in> {9, 10, 12, 13, 32}"

text \<open>The state: the tokens counted, and whether the last character belonged to a word.\<close>

definition count_char :: "u64 \<times> bool \<Rightarrow> char \<Rightarrow> u64 \<times> bool" where
  "count_char s c = (case s of (tokens, in_run) \<Rightarrow>
     if word_char c then (if in_run then tokens else saturating_add tokens 1, True)
     else (if ascii_whitespace c then tokens else saturating_add tokens 1, False))"

definition count_fake_string_tokens :: "string \<Rightarrow> u64" where
  "count_fake_string_tokens text = fst (foldl count_char (0, False) text)"

text \<open>The members of an object are in the order of their keys.\<close>

fun count_json_string_value_tokens :: "json \<Rightarrow> u64" where
  "count_json_string_value_tokens (JString text) = count_fake_string_tokens text"
| "count_json_string_value_tokens (JArray items) = foldl saturating_add 0 (map count_json_string_value_tokens items)"
| "count_json_string_value_tokens (JObject members) =
     foldl saturating_add 0 (map (\<lambda>m. count_json_string_value_tokens (snd m)) members)"
| "count_json_string_value_tokens JNull = 0"
| "count_json_string_value_tokens (JBool _) = 0"
| "count_json_string_value_tokens (JNumber _) = 0"

definition context_pointers :: "string \<Rightarrow> string list" where
  "context_pointers dialect =
     (if dialect = ''openai-responses'' then [''/instructions'', ''/input'', ''/tools'']
      else if dialect = ''anthropic-messages'' then [''/system'', ''/messages'', ''/tools'']
      else [''/messages'', ''/tools''])"

definition fake_context_input_tokens :: "pointer_lookup \<Rightarrow> string \<Rightarrow> json \<Rightarrow> u64" where
  "fake_context_input_tokens pointer dialect canonical =
     foldl (\<lambda>n p. saturating_add n (case pointer canonical p of None \<Rightarrow> 0 | Some v \<Rightarrow> count_json_string_value_tokens v))
       0 (context_pointers dialect)"

section \<open>Trials\<close>

record tool_pair =
  cp_call_id :: string
  cp_function_name :: string
  cp_canonical_arguments :: json
  cp_result_content :: json

record goal_item =
  gi_role :: string
  gi_content :: string

record recovery_trial =
  ct_repetition :: u32
  ct_window_tokens :: u64
  ct_public_turn_start_ns :: u64
  ct_error_final_byte_ns :: u64
  ct_accepted_request_received_ns :: u64
  ct_terminal_received_ns :: u64
  ct_pre_error_input_tokens :: u64
  ct_pre_error_body_bytes :: u64
  ct_accepted_input_tokens :: u64
  ct_accepted_body_bytes :: u64
  ct_context_errors :: u32
  ct_extra_requests :: u32
  ct_terminal_success :: bool
  ct_structural_terminal_count :: u32
  ct_tool_pairs_before :: u32
  ct_tool_pairs_after :: u32
  ct_committed_tool_pairs :: "tool_pair list"
  ct_faulting_tool_pairs :: "tool_pair list"
  ct_accepted_tool_pairs :: "tool_pair list"
  ct_faulting_goal_items :: "goal_item list"
  ct_accepted_goal_items :: "goal_item list"
  ct_committed_orphan_calls :: u32
  ct_committed_orphan_results :: u32
  ct_faulting_orphan_calls :: u32
  ct_faulting_orphan_results :: u32
  ct_accepted_orphan_calls :: u32
  ct_accepted_orphan_results :: u32
  ct_orphan_tool_calls :: u32
  ct_orphan_tool_results :: u32
  ct_duplicate_effects :: u32
  ct_same_session_identity :: bool
  ct_instructions_and_tools_unchanged :: bool
  ct_required_markers_retained :: bool
  ct_omitted_markers_summarized_exactly :: bool
  ct_compacted_request_hash :: string
  ct_retained_markers :: "string list"
  ct_omitted_markers :: "string list"
  ct_summary_markers :: "string list"

record recovery_evaluation =
  rv_metrics :: "(string, f64) btree"
  rv_details :: json
  rv_measurement_complete :: bool
  rv_passed :: bool
  rv_measurement_error :: "string option"

definition recovery_incomplete :: "string \<Rightarrow> recovery_evaluation" where
  "recovery_incomplete message =
     \<lparr>rv_metrics = [],
      rv_details = json_object [(''measurement_complete'', JBool False), (''measurement_error'', JString message)],
      rv_measurement_complete = False, rv_passed = False, rv_measurement_error = Some message\<rparr>"

section \<open>Validation\<close>

definition recovery_boundaries_valid :: "u32 \<Rightarrow> u64 \<Rightarrow> recovery_trial \<Rightarrow> bool" where
  "recovery_boundaries_valid expected_repetitions window t \<longleftrightarrow>
     ct_repetition t \<noteq> 0 \<and> ct_repetition t \<le> expected_repetitions \<and> ct_window_tokens t = window
     \<and> ct_public_turn_start_ns t \<noteq> 0 \<and> ct_public_turn_start_ns t \<le> ct_error_final_byte_ns t
     \<and> ct_error_final_byte_ns t \<le> ct_accepted_request_received_ns t
     \<and> ct_accepted_request_received_ns t \<le> ct_terminal_received_ns t \<and> hex64 (ct_compacted_request_hash t)"

definition expected_pre_body :: "u64 \<Rightarrow> u64 option" where
  "expected_pre_body window = Option.bind (checked_mul window 8) (\<lambda>v. checked_add v 1024)"

definition fixture_exact :: "u64 \<Rightarrow> recovery_trial \<Rightarrow> bool" where
  "fixture_exact window t \<longleftrightarrow>
     ct_pre_error_input_tokens t = saturating_add window 256 \<and> Some (ct_pre_error_body_bytes t) = expected_pre_body window"

definition recovery_step :: "u32 \<Rightarrow> u64 \<Rightarrow> u32 list \<Rightarrow> recovery_trial \<Rightarrow> string + u32 list" where
  "recovery_step expected_repetitions window seen t =
     (if \<not> recovery_boundaries_valid expected_repetitions window t \<or> ct_repetition t \<in> set seen
      then Inl ''row-51 has invalid repetition or external boundaries''
      else if \<not> fixture_exact window t
      then Inl ''row-51 provider did not observe the exact W+256 token and 8W+1024 byte fixture''
      else Inr (ct_repetition t # seen))"

section \<open>The decision for a trial\<close>

definition recovery_ms :: "recovery_trial \<Rightarrow> f64" where
  "recovery_ms t = ns_to_ms (saturating_sub (ct_accepted_request_received_ns t) (ct_error_final_byte_ns t))"

definition public_turn_ms :: "recovery_trial \<Rightarrow> f64" where
  "public_turn_ms t = ns_to_ms (saturating_sub (ct_terminal_received_ns t) (ct_public_turn_start_ns t))"

definition saturating_add_u32 :: "u32 \<Rightarrow> u32 \<Rightarrow> u32" where
  "saturating_add_u32 a b = (if unat a + unat b < 2 ^ 32 then a + b else 4294967295)"

definition stream_orphan_calls :: "recovery_trial \<Rightarrow> u32" where
  "stream_orphan_calls t = saturating_add_u32 (saturating_add_u32 (ct_committed_orphan_calls t) (ct_faulting_orphan_calls t))
     (ct_accepted_orphan_calls t)"

definition stream_orphan_results :: "recovery_trial \<Rightarrow> u32" where
  "stream_orphan_results t = saturating_add_u32 (saturating_add_u32 (ct_committed_orphan_results t) (ct_faulting_orphan_results t))
     (ct_accepted_orphan_results t)"

definition pairs_preserved :: "u32 \<Rightarrow> recovery_trial \<Rightarrow> bool" where
  "pairs_preserved expected_pairs t \<longleftrightarrow>
     ct_tool_pairs_before t = expected_pairs \<and> ct_tool_pairs_after t = expected_pairs
     \<and> length (ct_committed_tool_pairs t) = unat expected_pairs
     \<and> ct_committed_tool_pairs t = ct_faulting_tool_pairs t \<and> ct_committed_tool_pairs t = ct_accepted_tool_pairs t"

definition goal_preserved :: "recovery_trial \<Rightarrow> bool" where
  "goal_preserved t \<longleftrightarrow>
     length (ct_faulting_goal_items t) = 1 \<and> ct_faulting_goal_items t = ct_accepted_goal_items t
     \<and> (case ct_faulting_goal_items t of [] \<Rightarrow> False | g # _ \<Rightarrow> gi_role g = ''user'')"

definition no_orphans :: "recovery_trial \<Rightarrow> bool" where
  "no_orphans t \<longleftrightarrow>
     ct_orphan_tool_calls t = stream_orphan_calls t \<and> ct_orphan_tool_results t = stream_orphan_results t
     \<and> ct_committed_orphan_calls t = 0 \<and> ct_committed_orphan_results t = 0 \<and> ct_faulting_orphan_calls t = 0
     \<and> ct_faulting_orphan_results t = 0 \<and> ct_accepted_orphan_calls t = 0 \<and> ct_accepted_orphan_results t = 0
     \<and> ct_orphan_tool_calls t = 0 \<and> ct_orphan_tool_results t = 0"

definition recovery_trial_passed :: "u64 \<Rightarrow> u32 \<Rightarrow> u64 \<Rightarrow> recovery_trial \<Rightarrow> bool" where
  "recovery_trial_passed window expected_pairs turn_timeout_ms t \<longleftrightarrow>
     ct_context_errors t = 1 \<and> ct_extra_requests t \<le> 2
     \<and> f_le (recovery_ms t) (f_of_u64 turn_timeout_ms) \<and> f_le (public_turn_ms t) (f_of_u64 turn_timeout_ms)
     \<and> ct_terminal_success t \<and> ct_structural_terminal_count t = 1
     \<and> pairs_preserved expected_pairs t \<and> goal_preserved t \<and> no_orphans t \<and> ct_duplicate_effects t = 0
     \<and> ct_same_session_identity t \<and> ct_instructions_and_tools_unchanged t \<and> ct_required_markers_retained t
     \<and> ct_omitted_markers_summarized_exactly t \<and> ct_omitted_markers t \<noteq> []
     \<and> ct_accepted_input_tokens t \<le> window \<and> ct_accepted_body_bytes t \<le> saturating_mul window 8"

section \<open>The evaluation\<close>

definition recovery_metrics :: "recovery_trial list \<Rightarrow> (string, f64) btree" where
  "recovery_metrics trials = bt_of_list
     [(''context_limit_recovery.context_errors'', f_of_u64 (count_u32 ct_context_errors trials)),
      (''context_limit_recovery.extra_requests'', f_of_u64 (count_u32 ct_extra_requests trials)),
      (''context_limit_recovery.recovery_ms'', median_or_zero (map recovery_ms trials)),
      (''context_limit_recovery.terminal_success'', f_of_u64 (count_flag ct_terminal_success trials)),
      (''context_limit_recovery.tool_pairs_before'', f_of_u64 (count_u32 ct_tool_pairs_before trials)),
      (''context_limit_recovery.tool_pairs_after'', f_of_u64 (count_u32 ct_tool_pairs_after trials)),
      (''context_limit_recovery.orphan_tool_calls'', f_of_u64 (count_u32 ct_orphan_tool_calls trials)),
      (''context_limit_recovery.orphan_tool_results'', f_of_u64 (count_u32 ct_orphan_tool_results trials)),
      (''context_limit_recovery.duplicate_effects'', f_of_u64 (count_u32 ct_duplicate_effects trials))]"

definition tool_pair_json :: "tool_pair \<Rightarrow> json" where
  "tool_pair_json p = json_object
     [(''call_id'', JString (cp_call_id p)), (''function_name'', JString (cp_function_name p)),
      (''canonical_arguments'', cp_canonical_arguments p), (''result_content'', cp_result_content p)]"

definition goal_item_json :: "goal_item \<Rightarrow> json" where
  "goal_item_json g = json_object [(''role'', JString (gi_role g)), (''content'', JString (gi_content g))]"

definition recovery_trial_json :: "recovery_trial \<Rightarrow> json" where
  "recovery_trial_json t = json_object
     [(''repetition'', json_u32 (ct_repetition t)), (''window_tokens'', json_u64 (ct_window_tokens t)),
      (''public_turn_start_ns'', json_u64 (ct_public_turn_start_ns t)), (''error_final_byte_ns'', json_u64 (ct_error_final_byte_ns t)),
      (''accepted_request_received_ns'', json_u64 (ct_accepted_request_received_ns t)),
      (''terminal_received_ns'', json_u64 (ct_terminal_received_ns t)),
      (''pre_error_input_tokens'', json_u64 (ct_pre_error_input_tokens t)),
      (''pre_error_body_bytes'', json_u64 (ct_pre_error_body_bytes t)),
      (''accepted_input_tokens'', json_u64 (ct_accepted_input_tokens t)),
      (''accepted_body_bytes'', json_u64 (ct_accepted_body_bytes t)),
      (''context_errors'', json_u32 (ct_context_errors t)), (''extra_requests'', json_u32 (ct_extra_requests t)),
      (''terminal_success'', JBool (ct_terminal_success t)),
      (''structural_terminal_count'', json_u32 (ct_structural_terminal_count t)),
      (''tool_pairs_before'', json_u32 (ct_tool_pairs_before t)), (''tool_pairs_after'', json_u32 (ct_tool_pairs_after t)),
      (''committed_tool_pairs'', json_list tool_pair_json (ct_committed_tool_pairs t)),
      (''faulting_tool_pairs'', json_list tool_pair_json (ct_faulting_tool_pairs t)),
      (''accepted_tool_pairs'', json_list tool_pair_json (ct_accepted_tool_pairs t)),
      (''faulting_goal_items'', json_list goal_item_json (ct_faulting_goal_items t)),
      (''accepted_goal_items'', json_list goal_item_json (ct_accepted_goal_items t)),
      (''committed_orphan_tool_calls'', json_u32 (ct_committed_orphan_calls t)),
      (''committed_orphan_tool_results'', json_u32 (ct_committed_orphan_results t)),
      (''faulting_orphan_tool_calls'', json_u32 (ct_faulting_orphan_calls t)),
      (''faulting_orphan_tool_results'', json_u32 (ct_faulting_orphan_results t)),
      (''accepted_orphan_tool_calls'', json_u32 (ct_accepted_orphan_calls t)),
      (''accepted_orphan_tool_results'', json_u32 (ct_accepted_orphan_results t)),
      (''orphan_tool_calls'', json_u32 (ct_orphan_tool_calls t)), (''orphan_tool_results'', json_u32 (ct_orphan_tool_results t)),
      (''duplicate_effects'', json_u32 (ct_duplicate_effects t)),
      (''same_session_identity'', JBool (ct_same_session_identity t)),
      (''instructions_and_tools_unchanged'', JBool (ct_instructions_and_tools_unchanged t)),
      (''required_markers_retained'', JBool (ct_required_markers_retained t)),
      (''omitted_markers_summarized_exactly'', JBool (ct_omitted_markers_summarized_exactly t)),
      (''compacted_request_hash'', JString (ct_compacted_request_hash t)),
      (''retained_markers'', json_list JString (ct_retained_markers t)),
      (''omitted_markers'', json_list JString (ct_omitted_markers t)),
      (''summary_markers'', json_list JString (ct_summary_markers t))]"

definition recovery_details :: "recovery_trial list \<Rightarrow> json" where
  "recovery_details trials = json_object
     [(''measurement_complete'', JBool True), (''trials'', json_list recovery_trial_json trials),
      (''pre_error_input_tokens'', json_list (\<lambda>t. json_u64 (ct_pre_error_input_tokens t)) trials),
      (''pre_error_body_bytes'', json_list (\<lambda>t. json_u64 (ct_pre_error_body_bytes t)) trials),
      (''compaction_request_hashes'', json_list (\<lambda>t. JString (ct_compacted_request_hash t)) trials),
      (''accepted_input_tokens'', json_list (\<lambda>t. json_u64 (ct_accepted_input_tokens t)) trials),
      (''accepted_body_bytes'', json_list (\<lambda>t. json_u64 (ct_accepted_body_bytes t)) trials),
      (''retained_markers'', json_list (\<lambda>t. json_list JString (ct_retained_markers t)) trials),
      (''omitted_markers'', json_list (\<lambda>t. json_list JString (ct_omitted_markers t)) trials),
      (''summary_markers'', json_list (\<lambda>t. json_list JString (ct_summary_markers t)) trials),
      (''normalized_compacted_stream_sha256_by_repetition'',
         json_list (\<lambda>t. JArray [json_u32 (ct_repetition t), JString (ct_compacted_request_hash t)]) trials)]"

definition evaluate_context_limit_recovery ::
  "recovery_trial list \<Rightarrow> u32 \<Rightarrow> u64 \<Rightarrow> u32 \<Rightarrow> u64 \<Rightarrow> recovery_evaluation" where
  "evaluate_context_limit_recovery trials expected_repetitions window expected_pairs turn_timeout_ms =
     (if length trials \<noteq> unat expected_repetitions then recovery_incomplete ''row-51 trial set is incomplete''
      else case fold_ok (recovery_step expected_repetitions window) [] trials of
        Inl message \<Rightarrow> recovery_incomplete message
      | Inr _ \<Rightarrow>
        \<lparr>rv_metrics = recovery_metrics trials, rv_details = recovery_details trials, rv_measurement_complete = True,
         rv_passed = (list_all (recovery_trial_passed window expected_pairs turn_timeout_ms) trials
           \<and> length (bset_of_list (map ct_compacted_request_hash trials)) = 1),
         rv_measurement_error = None\<rparr>)"

section \<open>The tokens\<close>

text \<open>The tokens that are counted: maximal runs of word characters, and every other visible character.\<close>

function fake_tokens :: "string \<Rightarrow> string list" where
  "fake_tokens [] = []"
| "fake_tokens (c # cs) =
     (if word_char c then takeWhile word_char (c # cs) # fake_tokens (dropWhile word_char cs)
      else if ascii_whitespace c then fake_tokens cs else [c] # fake_tokens cs)"
  by pat_completeness auto
termination by (relation "measure length") (auto simp: le_imp_less_Suc length_dropWhile_le)

lemma word_char_visible: "word_char c \<Longrightarrow> \<not> ascii_whitespace c"
  by (auto simp: word_char_def ascii_whitespace_def ascii_alphanumeric_def is_lower_def is_upper_def is_digit_def)

lemma concat_fake_tokens: "concat (fake_tokens s) = filter (\<lambda>c. \<not> ascii_whitespace c) s"
proof (induction s rule: fake_tokens.induct)
  case (2 c cs)
  have word: "filter (\<lambda>c. \<not> ascii_whitespace c) (takeWhile word_char cs) = takeWhile word_char cs" for cs
    using set_takeWhileD [of _ word_char cs] by (intro filter_True) (blast dest: word_char_visible)
  show ?case
  proof (cases "word_char c")
    case True
    have "filter (\<lambda>c. \<not> ascii_whitespace c) cs
        = takeWhile word_char cs @ filter (\<lambda>c. \<not> ascii_whitespace c) (dropWhile word_char cs)"
      using word [of cs] by (metis filter_append takeWhile_dropWhile_id)
    then show ?thesis using 2(1) True by (simp add: word_char_visible)
  qed (use 2 in auto)
qed simp

lemma length_fake_tokens: "length (fake_tokens s) \<le> length s"
proof (induction s rule: fake_tokens.induct)
  case (2 c cs)
  then show ?case using length_dropWhile_le [of word_char cs] by auto
qed simp

lemma count_run: "foldl count_char (n, True) cs = foldl count_char (n, True) (dropWhile word_char cs)"
  by (induction cs) (auto simp: count_char_def)

lemma count_after_run: "fst (foldl count_char (n, True) (dropWhile word_char cs))
    = fst (foldl count_char (n, False) (dropWhile word_char cs))"
proof (cases "dropWhile word_char cs")
  case (Cons c ds)
  then have "\<not> word_char c" by (metis hd_dropWhile list.discI list.sel(1))
  then show ?thesis using Cons by (simp add: count_char_def)
next
  case Nil
  then show ?thesis by (simp only: foldl_Nil fst_conv)
qed

lemma saturating_add_one_nat: "m + 1 < 2 ^ 64 \<Longrightarrow> saturating_add (of_nat m) 1 = of_nat (Suc m)"
  by (simp add: saturating_add_def unat_of_nat take_bit_nat_eq_self)

lemma count_tokens_from: "m + length s < 2 ^ 64 \<Longrightarrow>
    fst (foldl count_char (of_nat m, False) s) = of_nat (m + length (fake_tokens s))"
proof (induction s arbitrary: m rule: fake_tokens.induct)
  case (2 c cs)
  show ?case
  proof (cases "word_char c")
    case True
    have "fst (foldl count_char (of_nat m, False) (c # cs)) = fst (foldl count_char (of_nat (Suc m), True) cs)"
      using True saturating_add_one_nat [of m] 2(4) by (simp add: count_char_def)
    also have "\<dots> = fst (foldl count_char (of_nat (Suc m), False) (dropWhile word_char cs))"
      by (subst count_run) (rule count_after_run)
    also have "\<dots> = of_nat (Suc m + length (fake_tokens (dropWhile word_char cs)))"
      using 2(1) [OF True, of "Suc m"] 2(4) length_dropWhile_le [of word_char cs] by simp
    finally show ?thesis using True by simp
  next
    case False
    then have "fst (foldl count_char (of_nat m, False) (c # cs))
        = fst (foldl count_char (of_nat (if ascii_whitespace c then m else Suc m), False) cs)"
      using saturating_add_one_nat [of m] 2(4) by (simp add: count_char_def)
    then show ?thesis
      using 2(2) [OF False, of m] 2(3) [OF False, of "Suc m"] 2(4) False by (cases "ascii_whitespace c") simp_all
  qed
qed simp

text \<open>The token count of a string of less than \<open>2^64\<close> characters is the number of its tokens, the
  maximal runs of letters, digits and underscores and every other character that is not blank; the
  tokens are exactly the visible part of the string, in order.\<close>

theorem token_count_is_exact:
  assumes "length s < 2 ^ 64"
  shows "unat (count_fake_string_tokens s) = length (fake_tokens s)
    \<and> concat (fake_tokens s) = filter (\<lambda>c. \<not> ascii_whitespace c) s"
proof -
  have "unat (of_nat (length (fake_tokens s)) :: u64) = length (fake_tokens s)"
    using assms length_fake_tokens [of s] by (simp add: unat_of_nat take_bit_nat_eq_self)
  then show ?thesis
    using count_tokens_from [of 0 s] assms by (simp add: count_fake_string_tokens_def concat_fake_tokens)
qed

theorem token_count_is_exact_witness:
  "unat (count_fake_string_tokens ''ab_1 (x)'') = 4 \<and> fake_tokens ''ab_1 (x)'' = [''ab_1'', ''('', ''x'', '')'']"
proof -
  have tokens: "fake_tokens ''ab_1 (x)'' = [''ab_1'', ''('', ''x'', '')'']" by code_simp
  then show ?thesis using token_count_is_exact [of "''ab_1 (x)''"] by simp
qed

end
