(* ===== verification/Resume_Latency.thy ===== *)
theory Resume_Latency
  imports Wave_Rows
begin

text \<open>
  Row 52 of \<open>src/src/wave3_long_horizon.rs\<close>: the latency of resuming sessions of different lengths.
  Every length is aggregated on its own, and the slope over the lengths is bounded.
\<close>

section \<open>Points\<close>

record resume_point =
  rl_length :: u32
  rl_repetition :: u32
  rl_resume_start_ns :: u64
  rl_first_request_ns :: u64
  rl_latency_ms :: f64
  rl_session_id_hash :: string
  rl_expected_session_id_hash :: string
  rl_cursor :: u64
  rl_expected_cursor :: u64

record resume_evaluation =
  ru_resource_values :: "(string, f64) btree"
  ru_metrics :: "(string, f64) btree"
  ru_long_short_ratio :: "f64 option"
  ru_details :: json
  ru_measurement_complete :: bool
  ru_passed :: bool
  ru_measurement_error :: "string option"

definition resume_incomplete :: "string \<Rightarrow> resume_evaluation" where
  "resume_incomplete message =
     \<lparr>ru_resource_values = [], ru_metrics = [], ru_long_short_ratio = None,
      ru_details = json_object [(''measurement_complete'', JBool False), (''measurement_error'', JString message)],
      ru_measurement_complete = False, ru_passed = False, ru_measurement_error = Some message\<rparr>"

section \<open>Validation\<close>

fun strictly_increasing :: "u32 list \<Rightarrow> bool" where
  "strictly_increasing (a # b # xs) \<longleftrightarrow> a < b \<and> strictly_increasing (b # xs)"
| "strictly_increasing _ \<longleftrightarrow> True"

definition point_key :: "resume_point \<Rightarrow> u32 \<times> u32" where
  "point_key p = (rl_length p, rl_repetition p)"

definition point_valid :: "u32 list \<Rightarrow> u32 \<Rightarrow> resume_point \<Rightarrow> bool" where
  "point_valid lengths repetitions p \<longleftrightarrow>
     rl_length p \<in> set lengths \<and> rl_repetition p \<noteq> 0 \<and> rl_repetition p \<le> repetitions
     \<and> rl_resume_start_ns p \<noteq> 0 \<and> rl_resume_start_ns p \<le> rl_first_request_ns p
     \<and> non_negative (rl_latency_ms p) \<and> rl_session_id_hash p \<noteq> [] \<and> rl_expected_session_id_hash p \<noteq> []"

definition observed_latency_ms :: "resume_point \<Rightarrow> f64" where
  "observed_latency_ms p = ns_to_ms (saturating_sub (rl_first_request_ns p) (rl_resume_start_ns p))"

definition f_epsilon :: f64 where
  "f_epsilon = Fin (1 / 2 ^ 52)"

definition point_step :: "u32 list \<Rightarrow> u32 \<Rightarrow> (u32 \<times> u32) list \<Rightarrow> resume_point \<Rightarrow> string + (u32 \<times> u32) list" where
  "point_step lengths repetitions seen p =
     (if \<not> point_valid lengths repetitions p \<or> point_key p \<in> set seen
      then Inl ''row-52 has invalid or duplicate external intervals''
      else if f_lt f_epsilon (f_abs (f_sub (rl_latency_ms p) (observed_latency_ms p)))
      then Inl ''row-52 serialized latency disagrees with its boundaries''
      else Inr (point_key p # seen))"

section \<open>Aggregation\<close>

definition push_latency :: "(u32, f64 list) btree \<Rightarrow> resume_point \<Rightarrow> (u32, f64 list) btree" where
  "push_latency m p = bt_insert (rl_length p)
     ((case bt_get m (rl_length p) of None \<Rightarrow> [] | Some xs \<Rightarrow> xs) @ [observed_latency_ms p]) m"

definition latencies_by_length :: "resume_point list \<Rightarrow> (u32, f64 list) btree" where
  "latencies_by_length points = map (\<lambda>(n, xs). (n, sort xs)) (foldl push_latency [] points)"

definition identity_preserved :: "resume_point \<Rightarrow> bool" where
  "identity_preserved p \<longleftrightarrow> rl_session_id_hash p = rl_expected_session_id_hash p \<and> rl_cursor p = rl_expected_cursor p"

definition length_medians :: "(u32, f64 list) btree \<Rightarrow> u32 list \<Rightarrow> f64 list" where
  "length_medians groups lengths = map (\<lambda>n. case bt_get groups n of None \<Rightarrow> Fin 0 | Some xs \<Rightarrow> median_or_zero xs) lengths"

definition resume_point_json :: "resume_point \<Rightarrow> json" where
  "resume_point_json p = json_object
     [(''length'', json_u32 (rl_length p)), (''repetition'', json_u32 (rl_repetition p)),
      (''resume_start_ns'', json_u64 (rl_resume_start_ns p)), (''first_request_ns'', json_u64 (rl_first_request_ns p)),
      (''latency_ms'', json_f64 (rl_latency_ms p)), (''session_id_hash'', JString (rl_session_id_hash p)),
      (''cursor'', json_u64 (rl_cursor p))]"

definition resume_complete :: "resume_point list \<Rightarrow> u32 list \<Rightarrow> f64 list \<Rightarrow> f64 list \<Rightarrow> resume_evaluation" where
  "resume_complete points lengths medians longest =
     (let slope = theil_sen_xy (map f_of_u32 lengths) medians;
          short = medians ! 0; mid = medians ! (length lengths div 2); long = medians ! (length medians - 1);
          ratio = (if f_lt (Fin 0) short then Some (f_div long short) else None);
          p50 = nearest_rank longest 50; p95 = nearest_rank longest 95;
          preserved = list_all identity_preserved points
      in \<lparr>ru_resource_values = bt_of_list [(''resume_latency_p50_ms'', p50), (''resume_latency_p95_ms'', p95),
            (''resume_latency_slope_ms_per_turn'', slope)],
          ru_metrics = bt_of_list ([(''resume_latency_vs_length.short_p50_ms'', short),
            (''resume_latency_vs_length.mid_p50_ms'', mid), (''resume_latency_vs_length.long_p50_ms'', long)]
            @ (case ratio of None \<Rightarrow> [] | Some r \<Rightarrow> [(''resume_latency_vs_length.long_short_ratio'', r)])),
          ru_long_short_ratio = ratio,
          ru_details = json_object [(''measurement_complete'', JBool True), (''points'', json_list resume_point_json points),
            (''length_medians_ms'', json_list (\<lambda>(n, m). JArray [json_u32 n, json_f64 m]) (zip lengths medians)),
            (''long_short_ratio'', json_option json_f64 ratio), (''identity_cursor_preserved'', JBool preserved)],
          ru_measurement_complete = True,
          ru_passed = (preserved \<and> f_le p95 (Fin 5000) \<and> f_le slope (Fin 5)
            \<and> (case ratio of None \<Rightarrow> False | Some r \<Rightarrow> f_le r (Fin (5/2)))),
          ru_measurement_error = None\<rparr>)"

definition evaluate_resume_latency_vs_length :: "resume_point list \<Rightarrow> u32 list \<Rightarrow> u32 \<Rightarrow> resume_evaluation" where
  "evaluate_resume_latency_vs_length points lengths repetitions =
     (if length lengths < 3 \<or> \<not> strictly_increasing lengths \<or> length points \<noteq> length lengths * unat repetitions
      then resume_incomplete ''row-52 length/repetition matrix is incomplete''
      else case fold_ok (point_step lengths repetitions) [] points of
        Inl message \<Rightarrow> resume_incomplete message
      | Inr _ \<Rightarrow>
        let groups = latencies_by_length points in
        if list_ex (\<lambda>(_, xs). length xs \<noteq> unat repetitions) groups
        then resume_incomplete ''row-52 has an incomplete length group''
        else case bt_get groups (last lengths) of
          None \<Rightarrow> resume_incomplete ''row-52 longest-length group is absent''
        | Some longest \<Rightarrow> resume_complete points lengths (length_medians groups lengths) longest)"

end
