(* ===== verification/Torn_Tail.thy ===== *)
theory Torn_Tail
  imports Wave_Rows
begin

text \<open>
  Row 53 of \<open>src/src/wave3_long_horizon.rs\<close>: a journal is cut in the middle of its last record and
  recovered.  The cut positions cycle over five offsets into the record, relative to the size before it.
\<close>

section \<open>Trials\<close>

definition torn_record_bytes :: u64 where
  "torn_record_bytes = 1048576"

definition torn_cut_offsets :: "u64 list" where
  "torn_cut_offsets = [0, 262144, 524288, 786432, 1048575]"

record torn_trial =
  tt_trial :: u32
  tt_declared_source_path :: string
  tt_source_path :: string
  tt_copy_root :: string
  tt_source_device_id :: u64
  tt_source_file_id :: u64
  tt_source_link_count :: u64
  tt_observed_device_id :: u64
  tt_observed_file_id :: u64
  tt_observed_link_count :: u64
  tt_source_is_regular :: bool
  tt_pre_size :: u64
  tt_trigger_operation :: string
  tt_trigger_submit_result :: string
  tt_observed_sizes :: "u64 list"
  tt_observed_size :: u64
  tt_full_record_length :: u64
  tt_full_record_sha256 :: string
  tt_cut_offset :: u64
  tt_target_size :: u64
  tt_truncated_size :: u64
  tt_copied_path :: string
  tt_copied_device_id :: u64
  tt_copied_file_id :: u64
  tt_copied_link_count :: u64
  tt_copied_is_regular :: bool
  tt_live_source_size_after_copy :: u64
  tt_live_source_link_count_after_copy :: u64
  tt_growth_observed_ns :: u64
  tt_kill_ns :: u64
  tt_kill_boundary :: string
  tt_record_digest_matches :: bool
  tt_recovery_ms :: f64
  tt_clean_recovery :: bool
  tt_committed_prefix_suffix_exact :: bool
  tt_final_record_present_or_absent :: bool
  tt_committed_stream_sha256 :: string
  tt_recovered_stream_sha256 :: string
  tt_committed_event_count :: u32
  tt_recovered_event_count :: u32
  tt_post_committed_suffix_events :: u32
  tt_corrupt_recoveries :: u32
  tt_lost_committed_events :: u32
  tt_duplicate_events :: u32
  tt_duplicate_effects :: u32

record torn_evaluation =
  te_metrics :: "(string, f64) btree"
  te_details :: json
  te_measurement_complete :: bool
  te_passed :: bool
  te_measurement_error :: "string option"

definition torn_incomplete :: "string \<Rightarrow> torn_evaluation" where
  "torn_incomplete message =
     \<lparr>te_metrics = [],
      te_details = json_object [(''measurement_complete'', JBool False), (''measurement_error'', JString message)],
      te_measurement_complete = False, te_passed = False, te_measurement_error = Some message\<rparr>"

section \<open>Validation\<close>

definition kill_cycle :: "torn_trial \<Rightarrow> u64 \<times> u64" where
  "kill_cycle t = (tt_growth_observed_ns t, tt_kill_ns t)"

definition torn_evidence_valid :: "u32 \<Rightarrow> torn_trial \<Rightarrow> bool" where
  "torn_evidence_valid expected_trials t \<longleftrightarrow>
     tt_trial t \<noteq> 0 \<and> tt_trial t \<le> expected_trials \<and> non_negative (tt_recovery_ms t)
     \<and> hex64 (tt_committed_stream_sha256 t) \<and> hex64 (tt_recovered_stream_sha256 t)"

definition trial_offset :: "torn_trial \<Rightarrow> u64" where
  "trial_offset t = torn_cut_offsets ! (unat (tt_trial t - 1) mod length torn_cut_offsets)"

definition observations_exact :: "torn_trial \<Rightarrow> bool" where
  "observations_exact t \<longleftrightarrow>
     (case checked_add (tt_pre_size t) torn_record_bytes of
        None \<Rightarrow> False
      | Some expected \<Rightarrow> nth_opt (tt_observed_sizes t) 0 = Some (tt_pre_size t)
          \<and> tt_observed_sizes t \<noteq> [] \<and> last (tt_observed_sizes t) = expected
          \<and> list_all (\<lambda>size. size \<le> expected) (tt_observed_sizes t))"

definition source_identities_exact :: "torn_trial \<Rightarrow> bool" where
  "source_identities_exact t \<longleftrightarrow>
     tt_declared_source_path t = tt_source_path t \<and> tt_source_path t \<noteq> [] \<and> tt_copy_root t \<noteq> [] \<and> tt_copied_path t \<noteq> []
     \<and> tt_source_path t \<noteq> tt_copied_path t \<and> tt_source_is_regular t \<and> tt_copied_is_regular t
     \<and> tt_source_link_count t = 1 \<and> tt_observed_link_count t = 1 \<and> tt_copied_link_count t = 1
     \<and> tt_live_source_link_count_after_copy t = 1
     \<and> tt_source_device_id t = tt_observed_device_id t \<and> tt_source_file_id t = tt_observed_file_id t
     \<and> (tt_source_device_id t, tt_source_file_id t) \<noteq> (tt_copied_device_id t, tt_copied_file_id t)"

definition cut_exact :: "torn_trial \<Rightarrow> bool" where
  "cut_exact t \<longleftrightarrow>
     tt_trigger_operation t = ''submit'' \<and> tt_trigger_submit_result t = ''ok'' \<and> observations_exact t
     \<and> tt_full_record_length t = torn_record_bytes \<and> hex64 (tt_full_record_sha256 t) \<and> tt_cut_offset t = trial_offset t
     \<and> Some (tt_observed_size t) = checked_add (tt_pre_size t) torn_record_bytes
     \<and> Some (tt_target_size t) = checked_add (tt_pre_size t) (trial_offset t)
     \<and> Some (tt_truncated_size t) = checked_add (tt_pre_size t) (trial_offset t)
     \<and> tt_live_source_size_after_copy t = tt_observed_size t
     \<and> tt_growth_observed_ns t \<noteq> 0 \<and> tt_growth_observed_ns t \<le> tt_kill_ns t
     \<and> tt_kill_boundary t = ''after-exact-full-record-growth''"

text \<open>The state: the trial numbers and the kill cycles seen.\<close>

definition torn_step :: "u32 \<Rightarrow> u32 list \<times> (u64 \<times> u64) list \<Rightarrow> torn_trial \<Rightarrow> string + u32 list \<times> (u64 \<times> u64) list" where
  "torn_step expected_trials seen t =
     (if \<not> torn_evidence_valid expected_trials t \<or> tt_trial t \<in> set (fst seen) \<or> kill_cycle t \<in> set (snd seen)
      then Inl ''row-53 has invalid or duplicate trial evidence''
      else if \<not> source_identities_exact t \<or> \<not> cut_exact t
      then Inl ''row-53 path/identity/trigger/growth/copy/cut receipts are inconsistent''
      else Inr (tt_trial t # fst seen, kill_cycle t # snd seen))"

section \<open>The evaluation\<close>

definition torn_trial_passed :: "torn_trial \<Rightarrow> bool" where
  "torn_trial_passed t \<longleftrightarrow>
     tt_record_digest_matches t \<and> f_le (tt_recovery_ms t) (Fin 10000) \<and> tt_clean_recovery t
     \<and> tt_committed_prefix_suffix_exact t \<and> tt_final_record_present_or_absent t
     \<and> tt_committed_stream_sha256 t = tt_recovered_stream_sha256 t
     \<and> tt_committed_event_count t = tt_recovered_event_count t \<and> tt_post_committed_suffix_events t = 0
     \<and> tt_corrupt_recoveries t = 0 \<and> tt_lost_committed_events t = 0 \<and> tt_duplicate_events t = 0
     \<and> tt_duplicate_effects t = 0"

definition torn_metrics :: "torn_trial list \<Rightarrow> u32 \<Rightarrow> (string, f64) btree" where
  "torn_metrics trials expected_trials = bt_of_list
     [(''journal_torn_tail_sweep.trials'', f_of_u32 expected_trials),
      (''journal_torn_tail_sweep.kill_after_growth_observed_trials'', f_of_u64 (sat_sum (\<lambda>_. 1) trials)),
      (''journal_torn_tail_sweep.clean_recoveries'', f_of_u64 (count_flag tt_clean_recovery trials)),
      (''journal_torn_tail_sweep.corrupt_recoveries'', f_of_u64 (count_u32 tt_corrupt_recoveries trials)),
      (''journal_torn_tail_sweep.lost_committed_events'', f_of_u64 (count_u32 tt_lost_committed_events trials)),
      (''journal_torn_tail_sweep.duplicate_events'', f_of_u64 (count_u32 tt_duplicate_events trials)),
      (''journal_torn_tail_sweep.duplicate_effects'', f_of_u64 (count_u32 tt_duplicate_effects trials)),
      (''journal_torn_tail_sweep.recovery_p95_ms'', nearest_rank (map tt_recovery_ms trials) 95)]"

definition torn_paths_members :: "torn_trial \<Rightarrow> (string \<times> json) list" where
  "torn_paths_members t =
     [(''trial'', json_u32 (tt_trial t)), (''declared_source_path'', JString (tt_declared_source_path t)),
      (''source_path'', JString (tt_source_path t)), (''copy_root'', JString (tt_copy_root t)),
      (''source_device_id'', json_u64 (tt_source_device_id t)), (''source_file_id'', json_u64 (tt_source_file_id t)),
      (''source_link_count'', json_u64 (tt_source_link_count t)), (''observed_device_id'', json_u64 (tt_observed_device_id t)),
      (''observed_file_id'', json_u64 (tt_observed_file_id t)), (''observed_link_count'', json_u64 (tt_observed_link_count t)),
      (''source_is_regular'', JBool (tt_source_is_regular t)), (''pre_size'', json_u64 (tt_pre_size t)),
      (''trigger_operation'', JString (tt_trigger_operation t)), (''trigger_submit_result'', JString (tt_trigger_submit_result t)),
      (''observed_sizes'', json_list json_u64 (tt_observed_sizes t)), (''observed_size'', json_u64 (tt_observed_size t)),
      (''full_record_length'', json_u64 (tt_full_record_length t)), (''full_record_sha256'', JString (tt_full_record_sha256 t)),
      (''cut_offset'', json_u64 (tt_cut_offset t)), (''target_size'', json_u64 (tt_target_size t)),
      (''truncated_size'', json_u64 (tt_truncated_size t)), (''copied_path'', JString (tt_copied_path t)),
      (''copied_device_id'', json_u64 (tt_copied_device_id t)), (''copied_file_id'', json_u64 (tt_copied_file_id t)),
      (''copied_link_count'', json_u64 (tt_copied_link_count t)), (''copied_is_regular'', JBool (tt_copied_is_regular t)),
      (''live_source_size_after_copy'', json_u64 (tt_live_source_size_after_copy t)),
      (''live_source_link_count_after_copy'', json_u64 (tt_live_source_link_count_after_copy t))]"

definition torn_recovery_members :: "torn_trial \<Rightarrow> (string \<times> json) list" where
  "torn_recovery_members t =
     [(''growth_observed_ns'', json_u64 (tt_growth_observed_ns t)), (''kill_ns'', json_u64 (tt_kill_ns t)),
      (''kill_boundary'', JString (tt_kill_boundary t)), (''record_digest_matches'', JBool (tt_record_digest_matches t)),
      (''recovery_ms'', json_f64 (tt_recovery_ms t)), (''clean_recovery'', JBool (tt_clean_recovery t)),
      (''committed_prefix_suffix_exact'', JBool (tt_committed_prefix_suffix_exact t)),
      (''final_record_present_or_absent'', JBool (tt_final_record_present_or_absent t)),
      (''committed_stream_sha256'', JString (tt_committed_stream_sha256 t)),
      (''recovered_stream_sha256'', JString (tt_recovered_stream_sha256 t)),
      (''committed_event_count'', json_u32 (tt_committed_event_count t)),
      (''recovered_event_count'', json_u32 (tt_recovered_event_count t)),
      (''post_committed_suffix_events'', json_u32 (tt_post_committed_suffix_events t)),
      (''corrupt_recoveries'', json_u32 (tt_corrupt_recoveries t)),
      (''lost_committed_events'', json_u32 (tt_lost_committed_events t)),
      (''duplicate_events'', json_u32 (tt_duplicate_events t)), (''duplicate_effects'', json_u32 (tt_duplicate_effects t))]"

definition torn_trial_json :: "torn_trial \<Rightarrow> json" where
  "torn_trial_json t = json_object (torn_paths_members t @ torn_recovery_members t)"

definition evaluate_journal_torn_tail_sweep :: "torn_trial list \<Rightarrow> u32 \<Rightarrow> torn_evaluation" where
  "evaluate_journal_torn_tail_sweep trials expected_trials =
     (if length trials \<noteq> unat expected_trials then torn_incomplete ''row-53 trial set is incomplete''
      else case fold_ok (torn_step expected_trials) ([], []) trials of
        Inl message \<Rightarrow> torn_incomplete message
      | Inr _ \<Rightarrow>
        \<lparr>te_metrics = torn_metrics trials expected_trials,
         te_details = json_object [(''measurement_complete'', JBool True), (''cut_positions'', json_list torn_trial_json trials)],
         te_measurement_complete = True, te_passed = list_all torn_trial_passed trials, te_measurement_error = None\<rparr>)"

section \<open>Properties\<close>

text \<open>What a complete row 53 says of the cuts: they cycle over the five offsets and fall inside the record.\<close>

lemma torn_step_Inr: "torn_step n seen t = Inr seen' \<Longrightarrow>
    tt_trial t \<noteq> 0 \<and> tt_trial t \<le> n \<and> tt_trial t \<notin> set (fst seen) \<and> cut_exact t \<and> fst seen' = tt_trial t # fst seen"
  by (auto simp: torn_step_def torn_evidence_valid_def split: if_splits)

lemma torn_steps_Inr: "fold_ok (torn_step n) seen trials = Inr seen' \<Longrightarrow>
    list_all (\<lambda>t. tt_trial t \<noteq> 0 \<and> tt_trial t \<le> n \<and> cut_exact t) trials
    \<and> distinct (map tt_trial trials) \<and> tt_trial ` set trials \<inter> set (fst seen) = {}"
proof (induction trials arbitrary: seen)
  case (Cons t trials)
  then obtain seen1 where step: "torn_step n seen t = Inr seen1" and rest: "fold_ok (torn_step n) seen1 trials = Inr seen'"
    by (auto simp: and_then_Inr_iff)
  show ?case using torn_step_Inr [OF step] Cons.IH [OF rest] by auto
qed simp

lemma offset_inside: "torn_cut_offsets ! (i mod length torn_cut_offsets) < torn_record_bytes"
proof -
  have "list_all (\<lambda>offset. offset < torn_record_bytes) torn_cut_offsets"
    by (simp add: torn_cut_offsets_def torn_record_bytes_def)
  then show ?thesis by (simp add: list_all_length torn_cut_offsets_def)
qed

text \<open>The cut of one trial, in numbers that do not wrap.\<close>

definition cut_inside :: "torn_trial \<Rightarrow> bool" where
  "cut_inside t \<longleftrightarrow>
     unat (tt_truncated_size t) = unat (tt_pre_size t) + unat (tt_cut_offset t)
     \<and> unat (tt_observed_size t) = unat (tt_pre_size t) + unat torn_record_bytes
     \<and> tt_pre_size t \<le> tt_truncated_size t \<and> tt_truncated_size t < tt_observed_size t"

lemma checked_add_unat: "Some s = checked_add a b \<Longrightarrow> unat s = unat a + unat b"
  by (auto simp: checked_add_def unat_word_ariths split: if_splits)

lemma cut_exact_inside: "cut_exact t \<Longrightarrow> cut_inside t"
  using offset_inside [of "unat (tt_trial t - 1)"]
  by (auto simp: cut_exact_def cut_inside_def trial_offset_def word_le_nat_alt word_less_nat_alt dest!: checked_add_unat)

lemma offsets_cycle: "map (\<lambda>k. torn_cut_offsets ! (unat (k - 1) mod length torn_cut_offsets)) (ordinals n)
    = map (\<lambda>i. torn_cut_offsets ! (i mod 5)) [0..<unat n]"
proof (rule nth_equalityI)
  have n: "unat n < 2 ^ 32" using unsigned_less [of n] by simp
  fix i assume "i < length (map (\<lambda>k. torn_cut_offsets ! (unat (k - 1) mod length torn_cut_offsets)) (ordinals n))"
  then have i: "i < unat n" by (simp add: ordinals_def del: upt_Suc)
  then have "ordinals n ! i - 1 = of_nat i" by (simp add: ordinals_def del: upt_Suc)
  moreover have "unat (of_nat i :: u32) = i" using i n by (simp add: unat_of_nat take_bit_nat_eq_self)
  ultimately show "map (\<lambda>k. torn_cut_offsets ! (unat (k - 1) mod length torn_cut_offsets)) (ordinals n) ! i
      = map (\<lambda>i. torn_cut_offsets ! (i mod 5)) [0..<unat n] ! i"
    using i by (simp add: ordinals_def torn_cut_offsets_def del: upt_Suc)
qed (simp add: ordinals_def)

text \<open>When row 53 is complete, the trials in the order of their numbers are cut at the offsets 0, 262144,
  524288, 786432 and 1048575 in turn, none skipped or repeated, and every cut leaves at least the bytes from
  before the record and less than the whole record, with no size that wrapped around.\<close>

theorem torn_cuts_cycle:
  assumes "te_measurement_complete (evaluate_journal_torn_tail_sweep trials n)"
  shows "map tt_cut_offset (sort_key tt_trial trials) = map (\<lambda>i. torn_cut_offsets ! (i mod 5)) [0..<unat n]
    \<and> list_all cut_inside trials"
proof -
  obtain seen where len: "length trials = unat n" and steps: "fold_ok (torn_step n) ([], []) trials = Inr seen"
    using assms by (auto simp: evaluate_journal_torn_tail_sweep_def torn_incomplete_def split: if_splits sum.splits)
  note all = torn_steps_Inr [OF steps]
  have "map tt_trial (sort_key tt_trial trials) = ordinals n"
    using all len by (intro keys_are_ordinals) (auto simp: list_all_iff)
  moreover have "map tt_cut_offset (sort_key tt_trial trials)
      = map (\<lambda>k. torn_cut_offsets ! (unat (k - 1) mod length torn_cut_offsets)) (map tt_trial (sort_key tt_trial trials))"
    using all by (simp add: list_all_iff cut_exact_def trial_offset_def)
  ultimately show ?thesis using all offsets_cycle by (simp add: list_all_iff cut_exact_inside)
qed

definition torn_witness_digest :: string where
  "torn_witness_digest = replicate 64 (CHR ''a'')"

definition torn_witness_trial :: torn_trial where
  "torn_witness_trial =
     \<lparr>tt_trial = 1, tt_declared_source_path = ''j'', tt_source_path = ''j'', tt_copy_root = ''c'', tt_source_device_id = 1,
      tt_source_file_id = 2, tt_source_link_count = 1, tt_observed_device_id = 1, tt_observed_file_id = 2,
      tt_observed_link_count = 1, tt_source_is_regular = True, tt_pre_size = 100, tt_trigger_operation = ''submit'',
      tt_trigger_submit_result = ''ok'', tt_observed_sizes = [100, 1048676], tt_observed_size = 1048676,
      tt_full_record_length = 1048576, tt_full_record_sha256 = torn_witness_digest, tt_cut_offset = 0, tt_target_size = 100,
      tt_truncated_size = 100, tt_copied_path = ''c/j'', tt_copied_device_id = 1, tt_copied_file_id = 3,
      tt_copied_link_count = 1, tt_copied_is_regular = True, tt_live_source_size_after_copy = 1048676,
      tt_live_source_link_count_after_copy = 1, tt_growth_observed_ns = 5, tt_kill_ns = 6,
      tt_kill_boundary = ''after-exact-full-record-growth'', tt_record_digest_matches = True, tt_recovery_ms = Fin 1,
      tt_clean_recovery = True, tt_committed_prefix_suffix_exact = True, tt_final_record_present_or_absent = True,
      tt_committed_stream_sha256 = torn_witness_digest, tt_recovered_stream_sha256 = torn_witness_digest,
      tt_committed_event_count = 1, tt_recovered_event_count = 1, tt_post_committed_suffix_events = 0,
      tt_corrupt_recoveries = 0, tt_lost_committed_events = 0, tt_duplicate_events = 0, tt_duplicate_effects = 0\<rparr>"

lemma torn_witness_valid: "torn_evidence_valid 1 torn_witness_trial" "source_identities_exact torn_witness_trial"
  "cut_exact torn_witness_trial"
proof -
  have digest: "hex64 torn_witness_digest" by code_simp
  show "torn_evidence_valid 1 torn_witness_trial" "source_identities_exact torn_witness_trial" "cut_exact torn_witness_trial"
    using digest
    by (simp_all add: torn_evidence_valid_def torn_witness_trial_def non_negative_def f_negative_def source_identities_exact_def
        cut_exact_def observations_exact_def trial_offset_def torn_cut_offsets_def torn_record_bytes_def checked_add_def)
qed

theorem torn_cuts_cycle_witness: "map tt_cut_offset [torn_witness_trial] = [0] \<and> cut_inside torn_witness_trial"
proof -
  have "te_measurement_complete (evaluate_journal_torn_tail_sweep [torn_witness_trial] 1)"
    using torn_witness_valid by (simp add: evaluate_journal_torn_tail_sweep_def torn_step_def)
  from torn_cuts_cycle [OF this] show ?thesis by (simp add: torn_cut_offsets_def)
qed

end
