(* ===== verification/Fanout.thy ===== *)
theory Fanout
  imports Wave_Rows
begin

text \<open>
  Row 54 of \<open>src/src/wave3_concurrency.rs\<close>: the memory and the wall time of a fan-out of agents, per
  width, and the search for a cliff in their growth.  The natural logarithm, whose precision Rust leaves
  open, is the parameter \<open>ln_f\<close>.
\<close>

section \<open>The plan\<close>

definition quick_fanout_widths :: "u32 list" where
  "quick_fanout_widths = [1, 2, 4, 8]"

definition quick_fanout_repetitions :: u32 where
  "quick_fanout_repetitions = 3"

definition cert_fanout_repetitions :: u32 where
  "cert_fanout_repetitions = 7"

definition fanout_trial_allowance_ms :: u64 where
  "fanout_trial_allowance_ms = 3000"

definition fanout_row_allowance_ms :: u64 where
  "fanout_row_allowance_ms = 60000"

definition four_gib :: u64 where
  "four_gib = 4294967296"

record fanout_plan =
  fp_widths :: "u32 list"
  fp_repetitions :: u32

definition fanout_for_profile :: "run_profile \<Rightarrow> fanout_plan" where
  "fanout_for_profile profile = (case profile of
     Quick \<Rightarrow> \<lparr>fp_widths = quick_fanout_widths, fp_repetitions = quick_fanout_repetitions\<rparr>
   | Cert \<Rightarrow> \<lparr>fp_widths = ordinals 32, fp_repetitions = cert_fanout_repetitions\<rparr>)"

definition trial_count :: "fanout_plan \<Rightarrow> u64" where
  "trial_count plan = saturating_mul (of_nat (length (fp_widths plan))) (ucast (fp_repetitions plan))"

definition trial_deadline_ms :: "u64 \<Rightarrow> u64" where
  "trial_deadline_ms turn_timeout_ms = saturating_add turn_timeout_ms fanout_trial_allowance_ms"

definition row_deadline_ms :: "fanout_plan \<Rightarrow> u64 \<Rightarrow> u64" where
  "row_deadline_ms plan turn_timeout_ms =
     saturating_add (saturating_mul (trial_count plan) (trial_deadline_ms turn_timeout_ms)) fanout_row_allowance_ms"

section \<open>Trials and points\<close>

record fanout_trial =
  fa_repetition :: u32
  fa_n :: u32
  fa_steady_bytes :: u64
  fa_peak_bytes :: u64
  fa_active_memory_delta_bytes :: u64
  fa_wall_p95_ms :: f64
  fa_sampler_cadence_ns :: u64
  fa_sampler_sample_count :: u32
  fa_sampler_collection_cpu_ns :: u64
  fa_sampler_collection_wall_ns :: u64
  fa_sampler_observation_wall_ns :: u64
  fa_sampler_max_gap_ns :: u64
  fa_terminalized :: bool

record fanout_point =
  fn_n :: u32
  fn_y_rss_bytes :: f64
  fn_y_wall_ms :: f64
  fn_local_rss_alpha :: "f64 option"
  fn_local_wall_alpha :: "f64 option"
  fn_rss_increment_bytes :: "f64 option"
  fn_wall_increment_ms :: "f64 option"

record fanout_evaluation =
  fx_resource_values :: "(string, f64) btree"
  fx_cliff_n_rss :: "u32 option"
  fx_cliff_n_wall :: "u32 option"
  fx_max_local_rss_alpha :: "f64 option"
  fx_max_local_wall_alpha :: "f64 option"
  fx_global_rss_alpha :: "f64 option"
  fx_max_measured_n :: "u32 option"
  fx_details :: json
  fx_measurement_complete :: bool
  fx_passed :: bool
  fx_measurement_error :: "string option"

definition fanout_incomplete :: "string \<Rightarrow> fanout_evaluation" where
  "fanout_incomplete message =
     \<lparr>fx_resource_values = [], fx_cliff_n_rss = None, fx_cliff_n_wall = None, fx_max_local_rss_alpha = None,
      fx_max_local_wall_alpha = None, fx_global_rss_alpha = None, fx_max_measured_n = None,
      fx_details = json_object [(''measurement_complete'', JBool False), (''passed'', JBool False),
        (''measurement_error'', JString message), (''fanout_cliff_n_rss'', JNull), (''fanout_cliff_n_wall'', JNull),
        (''fanout_max_local_rss_alpha'', JNull), (''fanout_max_local_wall_alpha'', JNull),
        (''fanout_global_rss_alpha'', JNull), (''fanout_max_measured_n'', JNull), (''trials'', JArray []), (''points'', JArray [])],
      fx_measurement_complete = False, fx_passed = False, fx_measurement_error = Some message\<rparr>"

section \<open>Statistics\<close>

definition median_sorted :: "f64 list \<Rightarrow> f64 option" where
  "median_sorted values =
     (let middle = length values div 2 in
      if values = [] then None
      else if odd (length values) then nth_opt values middle
      else Option.bind (nth_opt values (middle - 1)) (\<lambda>lower. Option.bind (nth_opt values middle) (\<lambda>upper.
        Some (f_add lower (f_div (f_sub upper lower) (Fin 2))))))"

definition f_total :: "f64 list \<Rightarrow> f64" where
  "f_total values = foldl f_add (Fin 0) values"

definition f_square :: "f64 \<Rightarrow> f64" where
  "f_square x = f_mul x x"

definition f_of_length :: "'a list \<Rightarrow> f64" where
  "f_of_length xs = f_of_int (int (length xs))"

definition maximum_finite :: "f64 list \<Rightarrow> f64 option" where
  "maximum_finite values = (case filter f_is_finite values of [] \<Rightarrow> None | v # vs \<Rightarrow> Some (foldl max v vs))"

definition ols_log_log_alpha :: "(f64 \<Rightarrow> f64) \<Rightarrow> (f64 \<times> f64) list \<Rightarrow> f64 option" where
  "ols_log_log_alpha ln_f points =
     (if length points < 2
         \<or> list_ex (\<lambda>(x, y). \<not> f_is_finite x \<or> \<not> f_is_finite y \<or> f_le x (Fin 0) \<or> f_le y (Fin 0)) points
      then None
      else let n = f_of_length points;
        mean_x = f_div (f_total (map (\<lambda>p. ln_f (fst p)) points)) n;
        mean_y = f_div (f_total (map (\<lambda>p. ln_f (snd p)) points)) n;
        numerator = f_total (map (\<lambda>p. f_mul (f_sub (ln_f (fst p)) mean_x) (f_sub (ln_f (snd p)) mean_y)) points);
        denominator = f_total (map (\<lambda>p. f_square (f_sub (ln_f (fst p)) mean_x)) points)
      in if f_le denominator (Fin 0) then None
         else let alpha = f_div numerator denominator in if f_is_finite alpha then Some alpha else None)"

text \<open>Whether the interval that ends at an index jumps in elasticity or breaks the earlier increments.\<close>

definition elasticity_jump :: "f64 \<Rightarrow> f64 \<Rightarrow> bool" where
  "elasticity_jump current previous \<longleftrightarrow>
     f_lt (Fin (3/2)) current \<and> f_lt (f_round (7/20)) (f_sub current previous)"

definition increment_break :: "fanout_point list \<Rightarrow> (fanout_point \<Rightarrow> f64 option) \<Rightarrow> nat \<Rightarrow> bool" where
  "increment_break points increment index \<longleftrightarrow>
     3 \<le> index
     \<and> (let earlier = sort (filter (f_lt (Fin 0)) (List.map_filter increment (drop 1 (take index points))))
        in case (increment (points ! index), median_sorted earlier) of
             (Some current, Some prior) \<Rightarrow> f_lt (f_mul (Fin 2) prior) current
           | _ \<Rightarrow> False)"

fun cliff_from :: "fanout_point list \<Rightarrow> (fanout_point \<Rightarrow> f64 option) \<Rightarrow> (fanout_point \<Rightarrow> f64 option) \<Rightarrow> nat list \<Rightarrow> u32 option" where
  "cliff_from points alpha increment [] = None"
| "cliff_from points alpha increment (index # rest) =
     (case (alpha (points ! index), alpha (points ! (index - 1))) of
        (Some current, Some previous) \<Rightarrow>
          if elasticity_jump current previous \<or> increment_break points increment index
          then Some (fn_n (points ! index)) else cliff_from points alpha increment rest
      | _ \<Rightarrow> None)"

definition first_cliff_n :: "fanout_point list \<Rightarrow> (fanout_point \<Rightarrow> f64 option) \<Rightarrow> (fanout_point \<Rightarrow> f64 option) \<Rightarrow> u32 option" where
  "first_cliff_n points alpha increment = cliff_from points alpha increment [2..<length points]"

section \<open>Validation\<close>

fun not_increasing :: "u32 list \<Rightarrow> bool" where
  "not_increasing (a # b # xs) \<longleftrightarrow> b \<le> a \<or> not_increasing (b # xs)"
| "not_increasing _ \<longleftrightarrow> False"

definition sampler_invalid :: "fanout_trial \<Rightarrow> bool" where
  "sampler_invalid t \<longleftrightarrow>
     \<not> f_is_finite (fa_wall_p95_ms t) \<or> fa_peak_bytes t < fa_steady_bytes t \<or> fa_sampler_cadence_ns t = 0
     \<or> fa_sampler_sample_count t < 2 \<or> fa_sampler_observation_wall_ns t = 0
     \<or> fa_sampler_observation_wall_ns t < saturating_mul (fa_sampler_collection_cpu_ns t) 10
     \<or> saturating_mul (fa_sampler_cadence_ns t) 2 < fa_sampler_max_gap_ns t
     \<or> fa_sampler_observation_wall_ns t < fa_sampler_collection_wall_ns t"

definition fanout_step :: "fanout_plan \<Rightarrow> (u32 \<times> u32) list \<Rightarrow> fanout_trial \<Rightarrow> string + (u32 \<times> u32) list" where
  "fanout_step plan seen t =
     (if fa_repetition t = 0 \<or> fp_repetitions plan < fa_repetition t \<or> fa_n t \<notin> set (fp_widths plan)
         \<or> (fa_repetition t, fa_n t) \<in> set seen
      then Inl ''fanout trial keys do not match the required repetition/width grid''
      else if sampler_invalid t
      then Inl (''fanout trial repetition '' @ show_u32 (fa_repetition t) @ '' N='' @ show_u32 (fa_n t)
        @ '' has invalid measurements or untrustworthy sampler evidence'')
      else Inr ((fa_repetition t, fa_n t) # seen))"

section \<open>Points\<close>

definition width_point :: "fanout_trial list \<Rightarrow> u32 \<Rightarrow> string + fanout_point" where
  "width_point trials width =
     (let group = filter (\<lambda>t. fa_n t = width) trials;
          context = ''fanout width N='' @ show_u32 width
      in and_then (ok_or (median_sorted (sort (map (\<lambda>t. f_of_u64 (fa_active_memory_delta_bytes t)) group)))
           (context @ '' has no RSS observations'')) (\<lambda>rss.
         and_then (ok_or (median_sorted (sort (map fa_wall_p95_ms group))) (context @ '' has no wall observations'')) (\<lambda>wall.
         if f_le rss (Fin 0) \<or> f_le wall (Fin 0)
         then Inl (context @ '' has a nonpositive median-aggregated RSS or wall point'')
         else Inr \<lparr>fn_n = width, fn_y_rss_bytes = rss, fn_y_wall_ms = wall, fn_local_rss_alpha = None,
                   fn_local_wall_alpha = None, fn_rss_increment_bytes = None, fn_wall_increment_ms = None\<rparr>)))"

definition relate_point :: "(f64 \<Rightarrow> f64) \<Rightarrow> fanout_point \<Rightarrow> fanout_point \<Rightarrow> fanout_point" where
  "relate_point ln_f previous p =
     (let ratio = ln_f (f_div (f_of_u32 (fn_n p)) (f_of_u32 (fn_n previous)))
      in p\<lparr>fn_local_rss_alpha := Some (f_div (ln_f (f_div (fn_y_rss_bytes p) (fn_y_rss_bytes previous))) ratio),
           fn_local_wall_alpha := Some (f_div (ln_f (f_div (fn_y_wall_ms p) (fn_y_wall_ms previous))) ratio),
           fn_rss_increment_bytes := Some (f_sub (fn_y_rss_bytes p) (fn_y_rss_bytes previous)),
           fn_wall_increment_ms := Some (f_sub (fn_y_wall_ms p) (fn_y_wall_ms previous))\<rparr>)"

text \<open>The loop changes only fields that it does not read of the previous point.\<close>

definition relate_points :: "(f64 \<Rightarrow> f64) \<Rightarrow> fanout_point list \<Rightarrow> fanout_point list" where
  "relate_points ln_f points = (case points of [] \<Rightarrow> [] | p # ps \<Rightarrow> p # map2 (relate_point ln_f) points ps)"

section \<open>The evaluation\<close>

definition fanout_trial_json :: "fanout_trial \<Rightarrow> json" where
  "fanout_trial_json t = json_object
     [(''repetition'', json_u32 (fa_repetition t)), (''n'', json_u32 (fa_n t)), (''steady_bytes'', json_u64 (fa_steady_bytes t)),
      (''peak_bytes'', json_u64 (fa_peak_bytes t)), (''active_memory_delta_bytes'', json_u64 (fa_active_memory_delta_bytes t)),
      (''wall_p95_ms'', json_f64 (fa_wall_p95_ms t)), (''sampler_cadence_ns'', json_u64 (fa_sampler_cadence_ns t)),
      (''sampler_sample_count'', json_u32 (fa_sampler_sample_count t)),
      (''sampler_collection_cpu_ns'', json_u64 (fa_sampler_collection_cpu_ns t)),
      (''sampler_collection_wall_ns'', json_u64 (fa_sampler_collection_wall_ns t)),
      (''sampler_observation_wall_ns'', json_u64 (fa_sampler_observation_wall_ns t)),
      (''sampler_max_gap_ns'', json_u64 (fa_sampler_max_gap_ns t))]"

definition fanout_point_json :: "fanout_point \<Rightarrow> json" where
  "fanout_point_json p = json_object
     [(''n'', json_u32 (fn_n p)), (''y_rss_bytes'', json_f64 (fn_y_rss_bytes p)), (''y_wall_ms'', json_f64 (fn_y_wall_ms p)),
      (''local_rss_alpha'', json_option json_f64 (fn_local_rss_alpha p)),
      (''local_wall_alpha'', json_option json_f64 (fn_local_wall_alpha p)),
      (''rss_increment_bytes'', json_option json_f64 (fn_rss_increment_bytes p)),
      (''wall_increment_ms'', json_option json_f64 (fn_wall_increment_ms p))]"

definition n8_within_limit :: "fanout_trial list \<Rightarrow> fanout_plan \<Rightarrow> bool" where
  "n8_within_limit trials plan \<longleftrightarrow>
     8 \<notin> set (fp_widths plan)
     \<or> (case map fa_peak_bytes (filter (\<lambda>t. fa_n t = 8) trials) of [] \<Rightarrow> False | b # bs \<Rightarrow> foldl max b bs \<le> four_gib)"

definition fanout_complete ::
  "fanout_trial list \<Rightarrow> fanout_plan \<Rightarrow> fanout_point list \<Rightarrow> f64 \<Rightarrow> f64 \<Rightarrow> f64 \<Rightarrow> fanout_evaluation" where
  "fanout_complete trials plan points max_rss max_wall global =
     (let cliff_rss = first_cliff_n points fn_local_rss_alpha fn_rss_increment_bytes;
          cliff_wall = first_cliff_n points fn_local_wall_alpha fn_wall_increment_ms;
          passed = (cliff_rss = None \<and> cliff_wall = None \<and> f_le global (f_round (6/5))
            \<and> list_all fa_terminalized trials \<and> n8_within_limit trials plan);
          max_n = (if fp_widths plan = [] then None else Some (last (fp_widths plan)))
      in \<lparr>fx_resource_values = bt_of_list [(''fanout_max_local_rss_alpha'', max_rss),
            (''fanout_max_local_wall_alpha'', max_wall), (''fanout_global_rss_alpha'', global)],
          fx_cliff_n_rss = cliff_rss, fx_cliff_n_wall = cliff_wall, fx_max_local_rss_alpha = Some max_rss,
          fx_max_local_wall_alpha = Some max_wall, fx_global_rss_alpha = Some global, fx_max_measured_n = max_n,
          fx_details = json_object [(''measurement_complete'', JBool True), (''passed'', JBool passed),
            (''measurement_error'', JNull), (''fanout_cliff_n_rss'', json_option json_u32 cliff_rss),
            (''fanout_cliff_n_wall'', json_option json_u32 cliff_wall), (''fanout_max_local_rss_alpha'', json_f64 max_rss),
            (''fanout_max_local_wall_alpha'', json_f64 max_wall), (''fanout_global_rss_alpha'', json_f64 global),
            (''fanout_max_measured_n'', json_option json_u32 max_n), (''trials'', json_list fanout_trial_json trials),
            (''points'', json_list fanout_point_json points)],
          fx_measurement_complete = True, fx_passed = passed, fx_measurement_error = None\<rparr>)"

definition conclude_fanout :: "(f64 \<Rightarrow> f64) \<Rightarrow> fanout_trial list \<Rightarrow> fanout_plan \<Rightarrow> fanout_point list \<Rightarrow> fanout_evaluation" where
  "conclude_fanout ln_f trials plan points =
     (case (maximum_finite (List.map_filter fn_local_rss_alpha points), maximum_finite (List.map_filter fn_local_wall_alpha points),
            ols_log_log_alpha ln_f (map (\<lambda>p. (f_of_u32 (fn_n p), fn_y_rss_bytes p)) points)) of
        (Some max_rss, Some max_wall, Some global) \<Rightarrow> fanout_complete trials plan points max_rss max_wall global
      | _ \<Rightarrow> fanout_incomplete ''fanout alpha calculation did not produce finite values'')"

definition evaluate_fanout_cliff :: "(f64 \<Rightarrow> f64) \<Rightarrow> fanout_trial list \<Rightarrow> fanout_plan \<Rightarrow> fanout_evaluation" where
  "evaluate_fanout_cliff ln_f trials plan =
     (if fp_repetitions plan = 0 \<or> length (fp_widths plan) < 2
      then fanout_incomplete ''fanout plan needs at least two widths and one repetition''
      else if 0 \<in> set (fp_widths plan) \<or> not_increasing (fp_widths plan)
      then fanout_incomplete ''fanout plan widths must be nonzero, unique, and strictly increasing''
      else if length trials \<noteq> unat (trial_count plan)
      then fanout_incomplete (''fanout trial set has '' @ show_nat (length trials) @ '' trials; expected '' @ show_u64 (trial_count plan))
      else case and_then (fold_ok (fanout_step plan) [] trials) (\<lambda>_. collect_ok (width_point trials) (fp_widths plan)) of
        Inl message \<Rightarrow> fanout_incomplete message
      | Inr points \<Rightarrow> conclude_fanout ln_f trials plan (relate_points ln_f points))"

end
