(* ===== verification/Fairness.thy ===== *)
theory Fairness
  imports Fanout
begin

text \<open>
  Row 55 of \<open>src/src/wave3_concurrency.rs\<close>: how evenly the agents of a fan-out are served, from their
  release and terminal times; an agent without a terminal by the deadline is censored there.  The square
  root and the debug rendering of a name are parameters, as is \<open>clock_getres\<close>.
\<close>

section \<open>Actors and groups\<close>

record fairness_actor =
  fc_repetition :: u32
  fc_n :: u32
  fc_actor :: string
  fc_barrier_release_ns :: "u64 option"
  fc_terminal_ns :: "u64 option"

record actor_latency =
  al_repetition :: u32
  al_n :: u32
  al_actor :: string
  al_latency_ms :: f64
  al_censored :: bool

record fairness_group =
  fg_repetition :: u32
  fg_n :: u32
  fg_median_ms :: f64
  fg_latency_cv :: f64
  fg_max_min_ratio :: "f64 option"
  fg_spread_ms :: f64
  fg_starved_agents :: u32

record fairness_evaluation =
  fe_resource_values :: "(string, f64) btree"
  fe_latency_cv :: "f64 option"
  fe_max_min_ratio :: "f64 option"
  fe_spread_ms :: "f64 option"
  fe_starved_agents :: "u32 option"
  fe_details :: json
  fe_measurement_complete :: bool
  fe_passed :: bool
  fe_measurement_error :: "string option"

definition fairness_incomplete :: "string \<Rightarrow> fairness_evaluation" where
  "fairness_incomplete message =
     \<lparr>fe_resource_values = [], fe_latency_cv = None, fe_max_min_ratio = None, fe_spread_ms = None, fe_starved_agents = None,
      fe_details = json_object [(''measurement_complete'', JBool False), (''passed'', JBool False),
        (''measurement_error'', JString message), (''clock_resolution_ns'', JNull), (''fairness_latency_cv'', JNull),
        (''fairness_latency_max_min_ratio'', JNull), (''fairness_latency_spread_ms'', JNull),
        (''fairness_starved_agents'', JNull), (''actor_latencies'', JArray []), (''groups'', JArray [])],
      fe_measurement_complete = False, fe_passed = False, fe_measurement_error = Some message\<rparr>"

section \<open>The statistics of a group\<close>

definition starvation_boundary :: "f64 \<Rightarrow> f64" where
  "starvation_boundary median_ms = f_max (f_mul (Fin 3) median_ms) (f_add median_ms (Fin 1000))"

definition evaluate_fairness_group :: "(f64 \<Rightarrow> f64) \<Rightarrow> u32 \<Rightarrow> u32 \<Rightarrow> f64 list \<Rightarrow> bool list \<Rightarrow> f64 \<Rightarrow> fairness_group" where
  "evaluate_fairness_group sqrt_f repetition n latencies censored resolution_ms =
     (let values = sort latencies;
          median_ms = (case median_sorted values of None \<Rightarrow> Fin 0 | Some v \<Rightarrow> v);
          mean = f_div (f_total values) (f_of_length values);
          variance = f_div (f_total (map (\<lambda>v. f_square (f_sub v mean)) values)) (f_of_length values);
          cv = (if f_eq mean (Fin 0) then Fin 0 else f_div (sqrt_f variance) mean);
          minimum = (if values = [] then Fin 0 else hd values);
          maximum = (if values = [] then Fin 0 else last values)
      in \<lparr>fg_repetition = repetition, fg_n = n, fg_median_ms = median_ms, fg_latency_cv = cv,
          fg_max_min_ratio = (if f_le resolution_ms minimum then Some (f_div maximum minimum) else None),
          fg_spread_ms = f_sub maximum minimum,
          fg_starved_agents = of_nat (length (filter (\<lambda>(v, c). c \<or> f_lt (starvation_boundary median_ms) v) (zip latencies censored)))\<rparr>)"

definition saturating_sum_u32 :: "u32 list \<Rightarrow> u32" where
  "saturating_sum_u32 ns = foldl (\<lambda>a b. if unat a + unat b < 2 ^ 32 then a + b else 4294967295) 0 ns"

definition fairness_groups_pass :: "fairness_group list \<Rightarrow> bool" where
  "fairness_groups_pass groups \<longleftrightarrow>
     saturating_sum_u32 (map fg_starved_agents groups) = 0
     \<and> list_all (\<lambda>g. f_le (fg_latency_cv g) (f_round (7/20))) groups
     \<and> list_all (\<lambda>g. f_le (fg_spread_ms g) (Fin 500)) groups
     \<and> list_all (\<lambda>r. f_le r (Fin 3)) (List.map_filter fg_max_min_ratio groups)"

section \<open>Validation\<close>

definition fairness_widths :: "fanout_plan \<Rightarrow> u32 list" where
  "fairness_widths plan = filter (\<lambda>w. 2 \<le> w) (fp_widths plan)"

definition expected_actors :: "fanout_plan \<Rightarrow> u64" where
  "expected_actors plan = saturating_mul (sat_sum (\<lambda>w. ucast w) (fairness_widths plan)) (ucast (fp_repetitions plan))"

definition actor_key :: "fairness_actor \<Rightarrow> u32 \<times> u32 \<times> string" where
  "actor_key a = (fc_repetition a, fc_n a, fc_actor a)"

definition fairness_step ::
  "(string \<Rightarrow> string) \<Rightarrow> fanout_plan \<Rightarrow> (u32 \<times> u32 \<times> string) list \<Rightarrow> fairness_actor \<Rightarrow> string + (u32 \<times> u32 \<times> string) list" where
  "fairness_step dbg plan seen a =
     (if fc_repetition a = 0 \<or> fp_repetitions plan < fc_repetition a \<or> fc_n a \<notin> set (fairness_widths plan)
         \<or> fc_actor a = [] \<or> actor_key a \<in> set seen
      then Inl ''fairness actor keys do not match the required repetition/width grid''
      else case fc_barrier_release_ns a of
        None \<Rightarrow> Inl (''fairness actor '' @ dbg (fc_actor a) @ '' omitted the barrier-release timestamp'')
      | Some release \<Rightarrow>
        if (case fc_terminal_ns a of None \<Rightarrow> False | Some t \<Rightarrow> t < release)
        then Inl (''fairness actor '' @ dbg (fc_actor a) @ '' terminal precedes barrier release'')
        else Inr (actor_key a # seen))"

section \<open>Groups\<close>

definition actor_latency_of :: "u32 \<Rightarrow> u32 \<Rightarrow> u64 \<Rightarrow> u64 \<Rightarrow> fairness_actor \<Rightarrow> actor_latency" where
  "actor_latency_of repetition n release deadline_ns a =
     (let observed = map_option (\<lambda>t. saturating_sub t release) (fc_terminal_ns a);
          latency = (case observed of None \<Rightarrow> deadline_ns | Some l \<Rightarrow> if l \<le> deadline_ns then l else deadline_ns)
      in \<lparr>al_repetition = repetition, al_n = n, al_actor = fc_actor a, al_latency_ms = ns_to_ms latency,
          al_censored = (case observed of None \<Rightarrow> True | Some l \<Rightarrow> deadline_ns < l)\<rparr>)"

definition group_of :: "fairness_actor list \<Rightarrow> u32 \<Rightarrow> u32 \<Rightarrow> fairness_actor list" where
  "group_of actors repetition n = sort_key fc_actor (filter (\<lambda>a. fc_repetition a = repetition \<and> fc_n a = n) actors)"

definition group_latencies ::
  "fairness_actor list \<Rightarrow> u64 \<Rightarrow> u32 \<times> u32 \<Rightarrow> string + (u32 \<times> u32) \<times> actor_latency list" where
  "group_latencies actors deadline_ns key =
     (case key of (repetition, n) \<Rightarrow>
      let group = group_of actors repetition n;
          context = ''fairness group repetition '' @ show_u32 repetition @ '' N='' @ show_u32 n
      in if length group \<noteq> unat n then Inl (context @ '' is incomplete'')
         else case Option.bind (nth_opt group 0) fc_barrier_release_ns of
           None \<Rightarrow> Inl (context @ '' omitted release time'')
         | Some release \<Rightarrow>
           if list_ex (\<lambda>a. fc_barrier_release_ns a \<noteq> Some release) group
           then Inl (context @ '' has inconsistent release times'')
           else Inr ((repetition, n), map (actor_latency_of repetition n release deadline_ns) group))"

definition group_statistics :: "(f64 \<Rightarrow> f64) \<Rightarrow> u64 \<Rightarrow> (u32 \<times> u32) \<times> actor_latency list \<Rightarrow> fairness_group" where
  "group_statistics sqrt_f resolution_ns g =
     evaluate_fairness_group sqrt_f (fst (fst g)) (snd (fst g)) (map al_latency_ms (snd g)) (map al_censored (snd g))
       (ns_to_ms resolution_ns)"

section \<open>The evaluation\<close>

definition actor_latency_json :: "actor_latency \<Rightarrow> json" where
  "actor_latency_json a = json_object
     [(''repetition'', json_u32 (al_repetition a)), (''n'', json_u32 (al_n a)), (''actor'', JString (al_actor a)),
      (''latency_ms'', json_f64 (al_latency_ms a)), (''censored'', JBool (al_censored a))]"

definition fairness_group_json :: "fairness_group \<Rightarrow> json" where
  "fairness_group_json g = json_object
     [(''repetition'', json_u32 (fg_repetition g)), (''n'', json_u32 (fg_n g)), (''median_ms'', json_f64 (fg_median_ms g)),
      (''latency_cv'', json_f64 (fg_latency_cv g)), (''max_min_ratio'', json_option json_f64 (fg_max_min_ratio g)),
      (''spread_ms'', json_f64 (fg_spread_ms g)), (''starved_agents'', json_u32 (fg_starved_agents g))]"

definition fairness_complete :: "u64 \<Rightarrow> actor_latency list \<Rightarrow> fairness_group list \<Rightarrow> f64 \<Rightarrow> f64 \<Rightarrow> fairness_evaluation" where
  "fairness_complete resolution_ns latencies groups worst_cv worst_spread =
     (let ratio = maximum_finite (List.map_filter fg_max_min_ratio groups);
          starved = saturating_sum_u32 (map fg_starved_agents groups);
          passed = fairness_groups_pass groups
      in \<lparr>fe_resource_values = bt_of_list [(''fairness_latency_cv'', worst_cv), (''fairness_latency_spread_ms'', worst_spread)],
          fe_latency_cv = Some worst_cv, fe_max_min_ratio = ratio, fe_spread_ms = Some worst_spread,
          fe_starved_agents = Some starved,
          fe_details = json_object [(''measurement_complete'', JBool True), (''passed'', JBool passed),
            (''measurement_error'', JNull), (''clock_resolution_ns'', json_u64 resolution_ns),
            (''fairness_latency_cv'', json_f64 worst_cv), (''fairness_latency_max_min_ratio'', json_option json_f64 ratio),
            (''fairness_latency_spread_ms'', json_f64 worst_spread), (''fairness_starved_agents'', json_u32 starved),
            (''actor_latencies'', json_list actor_latency_json latencies), (''groups'', json_list fairness_group_json groups)],
          fe_measurement_complete = True, fe_passed = passed, fe_measurement_error = None\<rparr>)"

definition group_keys :: "fanout_plan \<Rightarrow> (u32 \<times> u32) list" where
  "group_keys plan = concat (map (\<lambda>r. map (\<lambda>n. (r, n)) (fairness_widths plan)) (ordinals (fp_repetitions plan)))"

definition conclude_fairness :: "(f64 \<Rightarrow> f64) \<Rightarrow> u64 \<Rightarrow> ((u32 \<times> u32) \<times> actor_latency list) list \<Rightarrow> fairness_evaluation" where
  "conclude_fairness sqrt_f resolution_ns gs =
     (let groups = map (group_statistics sqrt_f resolution_ns) gs
      in case (maximum_finite (map fg_latency_cv groups), maximum_finite (map fg_spread_ms groups)) of
           (Some worst_cv, Some worst_spread) \<Rightarrow>
             fairness_complete resolution_ns (concat (map snd gs)) groups worst_cv worst_spread
         | _ \<Rightarrow> fairness_incomplete ''fairness statistics did not produce finite values'')"

definition evaluate_fairness_under_fanout ::
  "(f64 \<Rightarrow> f64) \<Rightarrow> (string \<Rightarrow> string) \<Rightarrow> fairness_actor list \<Rightarrow> fanout_plan \<Rightarrow> u64 \<Rightarrow> u64 option \<Rightarrow> fairness_evaluation" where
  "evaluate_fairness_under_fanout sqrt_f dbg actors plan turn_deadline_ms clock_resolution_ns =
     (case clock_resolution_ns of
        None \<Rightarrow> fairness_incomplete ''CLOCK_MONOTONIC resolution is missing or nonpositive''
      | Some resolution \<Rightarrow>
        if resolution = 0 then fairness_incomplete ''CLOCK_MONOTONIC resolution is missing or nonpositive''
        else if turn_deadline_ms = 0 then fairness_incomplete ''fairness turn deadline must be positive''
        else if fp_repetitions plan = 0 \<or> fairness_widths plan = []
        then fairness_incomplete ''fairness plan needs an N>=2 width and one repetition''
        else if length actors \<noteq> unat (expected_actors plan)
        then fairness_incomplete (''fairness evidence has '' @ show_nat (length actors) @ '' actors; expected '' @ show_u64 (expected_actors plan))
        else case and_then (fold_ok (fairness_step dbg plan) [] actors)
            (\<lambda>_. collect_ok (group_latencies actors (saturating_mul turn_deadline_ms 1000000)) (group_keys plan)) of
          Inl message \<Rightarrow> fairness_incomplete message
        | Inr gs \<Rightarrow> conclude_fairness sqrt_f resolution gs)"

section \<open>The clock\<close>

text \<open>\<open>clock_getres\<close> fails with an error of the system or fills in seconds and nanoseconds.\<close>

definition monotonic_clock_resolution_ns :: "io_error + int \<times> int \<Rightarrow> ahrb_error + u64" where
  "monotonic_clock_resolution_ns clock_getres =
     (case clock_getres of
        Inl e \<Rightarrow> Inl (Io e)
      | Inr (sec, nsec) \<Rightarrow>
        if sec < 0 \<or> nsec < 0 then Inl (Validation ''CLOCK_MONOTONIC returned a negative resolution'')
        else if 1000000000 \<le> nsec then Inl (Validation ''CLOCK_MONOTONIC returned an invalid nanosecond resolution'')
        else and_then (ok_or (Option.bind (checked_mul (of_int sec) 1000000000) (\<lambda>v. checked_add v (of_int nsec)))
          (Validation ''CLOCK_MONOTONIC resolution overflowed u64'')) (\<lambda>n.
        if n = 0 then Inl (Validation ''CLOCK_MONOTONIC returned a nonpositive resolution'') else Inr n))"

section \<open>Properties\<close>

text \<open>What a passing row 55 says of every single agent.\<close>

section \<open>Sums and groups\<close>

lemma saturating_sum_zero: "saturating_sum_u32 ns = 0 \<Longrightarrow> list_all (\<lambda>n. n = 0) ns"
proof -
  have "list_all (\<lambda>n. n = 0) ns \<and> a = 0"
    if "foldl (\<lambda>a b. if unat a + unat b < 2 ^ 32 then a + b else 4294967295) a ns = (0 :: u32)" for a
    using that
  proof (induction ns arbitrary: a)
    case (Cons n ns)
    let ?s = "if unat a + unat n < 2 ^ 32 then a + n else (4294967295 :: u32)"
    have rest: "list_all (\<lambda>n. n = 0) ns" "?s = 0" using Cons.IH [of ?s] Cons.prems by simp_all
    then have "unat a + unat n < 2 ^ 32" "a + n = 0" by (simp_all split: if_splits)
    then have "unat a + unat n = 0" using unat_word_ariths(1) [of a n] by simp
    then show ?case using rest by (simp add: unsigned_eq_0_iff)
  qed simp
  then show "saturating_sum_u32 ns = 0 \<Longrightarrow> list_all (\<lambda>n. n = 0) ns" by (simp add: saturating_sum_u32_def)
qed

lemma starved_zero:
  assumes "fg_starved_agents (evaluate_fairness_group sqrt_f r n latencies censored res) = 0"
    and "length latencies < 2 ^ 32" and "length censored = length latencies"
  shows "\<not> list_ex (\<lambda>c. c) censored"
proof
  assume "list_ex (\<lambda>c. c) censored"
  then obtain i where i: "i < length censored" "censored ! i" by (auto simp: list_ex_length)
  obtain m where m: "fg_starved_agents (evaluate_fairness_group sqrt_f r n latencies censored res)
      = of_nat (length (filter (\<lambda>(v, c). c \<or> f_lt m v) (zip latencies censored)))"
    by (simp add: evaluate_fairness_group_def Let_def)
  let ?F = "filter (\<lambda>(v, c). c \<or> f_lt m v) (zip latencies censored)"
  have "(latencies ! i, censored ! i) \<in> set ?F" using i assms(3) by (auto simp: in_set_zip)
  then have "0 < length ?F" by (rule length_pos_if_in_set)
  moreover have "length ?F < 2 ^ 32"
    by (rule order.strict_trans1 [OF length_filter_le]) (use assms(2,3) in simp)
  ultimately have "unat (of_nat (length ?F) :: u32) \<noteq> 0" by (simp add: unat_of_nat take_bit_nat_eq_self)
  then show False using assms(1) m by simp
qed

section \<open>What was validated\<close>

lemma fairness_step_Inr: "fairness_step dbg plan seen a = Inr s \<Longrightarrow>
    fc_repetition a \<noteq> 0 \<and> fc_repetition a \<le> fp_repetitions plan \<and> fc_n a \<in> set (fairness_widths plan)
    \<and> (\<exists>r. fc_barrier_release_ns a = Some r \<and> (\<forall>t. fc_terminal_ns a = Some t \<longrightarrow> r \<le> t))"
  by (auto simp: fairness_step_def split: if_splits option.splits)

lemma fairness_steps_Inr:
  assumes "fold_ok (fairness_step dbg plan) seen actors = Inr s" and "a \<in> set actors"
  shows "fc_repetition a \<noteq> 0 \<and> fc_repetition a \<le> fp_repetitions plan \<and> fc_n a \<in> set (fairness_widths plan)
    \<and> (\<exists>r. fc_barrier_release_ns a = Some r \<and> (\<forall>t. fc_terminal_ns a = Some t \<longrightarrow> r \<le> t))"
  using assms
proof (induction actors arbitrary: seen)
  case (Cons b actors)
  then obtain u where "fairness_step dbg plan seen b = Inr u" "fold_ok (fairness_step dbg plan) u actors = Inr s"
    by (auto simp: and_then_Inr_iff)
  then show ?case using Cons fairness_step_Inr by auto
qed simp

lemma collect_ok_covers: "collect_ok f xs = Inr ys \<Longrightarrow> x \<in> set xs \<Longrightarrow> \<exists>y \<in> set ys. f x = Inr y"
  by (induction xs arbitrary: ys) (auto simp: and_then_Inr_iff)

lemma group_latencies_Inr:
  assumes "group_latencies actors deadline key = Inr g"
  obtains release where "length (group_of actors (fst key) (snd key)) = unat (snd key)"
    "list_all (\<lambda>a. fc_barrier_release_ns a = Some release) (group_of actors (fst key) (snd key))"
    "g = (key, map (actor_latency_of (fst key) (snd key) release deadline) (group_of actors (fst key) (snd key)))"
  using assms that
  by (cases key) (auto simp: group_latencies_def Let_def list_ex_iff list_all_iff split: if_splits option.splits)

text \<open>An actor that is not censored ended by the deadline.\<close>

definition served :: "u64 \<Rightarrow> fairness_actor \<Rightarrow> bool" where
  "served deadline_ns a = (case (fc_barrier_release_ns a, fc_terminal_ns a) of
     (Some release, Some terminal) \<Rightarrow> release \<le> terminal \<and> terminal - release \<le> deadline_ns
   | _ \<Rightarrow> False)"

lemma uncensored_served:
  assumes "\<not> al_censored (actor_latency_of r n release deadline a)" and "fc_barrier_release_ns a = Some release"
    and "\<forall>t. fc_terminal_ns a = Some t \<longrightarrow> release \<le> t"
  shows "served deadline a"
  using assms by (auto simp: actor_latency_of_def served_def saturating_sub_def Let_def split: option.splits)

lemma fairness_passed_cases:
  assumes "fe_passed (evaluate_fairness_under_fanout sqrt_f dbg actors plan deadline_ms resolution)"
  obtains s gs res where "fold_ok (fairness_step dbg plan) [] actors = Inr s"
    "collect_ok (group_latencies actors (saturating_mul deadline_ms 1000000)) (group_keys plan) = Inr gs"
    "fairness_groups_pass (map (group_statistics sqrt_f res) gs)"
proof -
  obtain res gs where passed: "fe_passed (conclude_fairness sqrt_f res gs)"
    and ok: "and_then (fold_ok (fairness_step dbg plan) [] actors)
      (\<lambda>_. collect_ok (group_latencies actors (saturating_mul deadline_ms 1000000)) (group_keys plan)) = Inr gs"
    using assms by (auto simp: evaluate_fairness_under_fanout_def fairness_incomplete_def split: option.splits if_splits sum.splits)
  moreover have "fairness_groups_pass (map (group_statistics sqrt_f res) gs)"
    using passed by (auto simp: conclude_fairness_def fairness_complete_def fairness_incomplete_def Let_def split: option.splits)
  ultimately show ?thesis using that by (auto simp: and_then_Inr_iff)
qed

lemma passing_group_served:
  assumes "group_latencies actors deadline key = Inr g" and "fg_starved_agents (group_statistics sqrt_f res g) = 0"
    and "a \<in> set actors" and "key = (fc_repetition a, fc_n a)"
    and "\<exists>r. fc_barrier_release_ns a = Some r \<and> (\<forall>t. fc_terminal_ns a = Some t \<longrightarrow> r \<le> t)"
  shows "served deadline a"
proof -
  let ?group = "group_of actors (fst key) (snd key)"
  obtain release where len: "length ?group = unat (snd key)"
    and release: "list_all (\<lambda>a. fc_barrier_release_ns a = Some release) ?group"
    and g: "g = (key, map (actor_latency_of (fst key) (snd key) release deadline) ?group)"
    using assms(1) by (rule group_latencies_Inr)
  have a: "a \<in> set ?group" using assms(3,4) by (simp add: group_of_def)
  have "unat (snd key) < 2 ^ 32" using unsigned_less [of "snd key"] by simp
  then have "\<not> list_ex (\<lambda>c. c) (map al_censored (snd g))"
    using assms(2) len g starved_zero [of sqrt_f "fst (fst g)" "snd (fst g)" "map al_latency_ms (snd g)" "map al_censored (snd g)" "ns_to_ms res"]
    by (simp add: group_statistics_def)
  then have "\<not> al_censored (actor_latency_of (fst key) (snd key) release deadline a)"
    using a g by (auto simp: list_ex_iff)
  moreover have "fc_barrier_release_ns a = Some release" using release a by (simp add: list_all_iff)
  ultimately show ?thesis using assms(5) by (intro uncensored_served) auto
qed

lemma set_group_keys: "r \<noteq> 0 \<Longrightarrow> r \<le> fp_repetitions plan \<Longrightarrow> n \<in> set (fairness_widths plan) \<Longrightarrow> (r, n) \<in> set (group_keys plan)"
  by (auto simp: group_keys_def set_ordinals word_le_nat_alt unat_gt_0 Suc_leI)

section \<open>The claim\<close>

text \<open>C27: when row 55 passes, every recorded agent was released, ended after its release and within the
  turn deadline, and all agents of one repetition and width were released at the same time: no agent is
  hidden by the aggregation, by a censored latency or by the conversion of the counts.\<close>

theorem passing_fairness_serves_all:
  assumes "fe_passed (evaluate_fairness_under_fanout sqrt_f dbg actors plan deadline_ms resolution)"
  shows "list_all (served (saturating_mul deadline_ms 1000000)) actors
    \<and> list_all (\<lambda>a. list_all (\<lambda>b. (fc_repetition a, fc_n a) \<noteq> (fc_repetition b, fc_n b)
        \<or> fc_barrier_release_ns a = fc_barrier_release_ns b) actors) actors"
proof -
  obtain s gs res where steps: "fold_ok (fairness_step dbg plan) [] actors = Inr s"
    and groups: "collect_ok (group_latencies actors (saturating_mul deadline_ms 1000000)) (group_keys plan) = Inr gs"
    and pass: "fairness_groups_pass (map (group_statistics sqrt_f res) gs)"
    using assms by (rule fairness_passed_cases)
  have found: "\<exists>g \<in> set gs. group_latencies actors (saturating_mul deadline_ms 1000000) (fc_repetition a, fc_n a) = Inr g"
    if "a \<in> set actors" for a
    using collect_ok_covers [OF groups set_group_keys] fairness_steps_Inr [OF steps that] by blast
  have "fg_starved_agents (group_statistics sqrt_f res g) = 0" if "g \<in> set gs" for g
    using pass that saturating_sum_zero by (auto simp: fairness_groups_pass_def list_all_iff)
  then have "served (saturating_mul deadline_ms 1000000) a" if "a \<in> set actors" for a
    using passing_group_served [OF _ _ that] found [OF that] fairness_steps_Inr [OF steps that] by blast
  moreover have "fc_barrier_release_ns a = fc_barrier_release_ns b"
    if "a \<in> set actors" "b \<in> set actors" "(fc_repetition a, fc_n a) = (fc_repetition b, fc_n b)" for a b
    using found [OF that(1)] that by (auto elim!: group_latencies_Inr simp: group_of_def list_all_iff)
  ultimately show ?thesis unfolding list_all_iff by blast
qed

definition fairness_witness_actors :: "fairness_actor list" where
  "fairness_witness_actors =
     [\<lparr>fc_repetition = 1, fc_n = 2, fc_actor = ''a'', fc_barrier_release_ns = Some 7, fc_terminal_ns = Some 7\<rparr>,
      \<lparr>fc_repetition = 1, fc_n = 2, fc_actor = ''b'', fc_barrier_release_ns = Some 7, fc_terminal_ns = Some 7\<rparr>]"

definition fairness_witness_plan :: fanout_plan where
  "fairness_witness_plan = \<lparr>fp_widths = [2], fp_repetitions = 1\<rparr>"

lemma fairness_witness_widths: "fairness_widths fairness_witness_plan = [2]" "group_keys fairness_witness_plan = [(1, 2)]"
  by (simp_all add: fairness_widths_def group_keys_def fairness_witness_plan_def ordinals_def)

lemma fairness_witness_expected: "expected_actors fairness_witness_plan = 2"
  by (simp add: expected_actors_def fairness_witness_widths sat_sum_def saturating_mul_def saturating_add_def)
    (simp add: fairness_witness_plan_def)

lemma fairness_witness_steps: "fold_ok (fairness_step (\<lambda>s. s) fairness_witness_plan) [] fairness_witness_actors = Inr [(1, 2, ''b''), (1, 2, ''a'')]"
  by (simp add: fairness_witness_actors_def fairness_step_def fairness_witness_widths actor_key_def) (simp add: fairness_witness_plan_def)

lemma fairness_witness_groups: "collect_ok (group_latencies fairness_witness_actors 1000000) (group_keys fairness_witness_plan)
    = Inr [((1, 2), [\<lparr>al_repetition = 1, al_n = 2, al_actor = ''a'', al_latency_ms = Fin 0, al_censored = False\<rparr>,
        \<lparr>al_repetition = 1, al_n = 2, al_actor = ''b'', al_latency_ms = Fin 0, al_censored = False\<rparr>])]"
  by (simp add: fairness_witness_widths fairness_witness_actors_def group_latencies_def group_of_def actor_latency_of_def ns_to_ms_def
      saturating_sub_def f_of_u64_def f_of_int_def)

lemma fairness_witness_statistics:
  "fairness_groups_pass [evaluate_fairness_group (\<lambda>x. x) 1 2 [Fin 0, Fin 0] [False, False] (ns_to_ms 1000000)]"
proof -
  have "f_le (Fin 0) (f_round (7 / 20))" using f_round_mono [of 0 "7 / 20"] by simp
  then show ?thesis
    by (simp add: evaluate_fairness_group_def Let_def fairness_groups_pass_def saturating_sum_u32_def f_total_def f_sub_def
        median_sorted_def starvation_boundary_def f_of_length_def f_of_int_def f_square_def ns_to_ms_def f_of_u64_def)
qed

lemma fairness_witness_passes: "fe_passed (evaluate_fairness_under_fanout (\<lambda>x. x) (\<lambda>s. s) fairness_witness_actors fairness_witness_plan 1 (Some 1000000))"
proof -
  let ?g = "evaluate_fairness_group (\<lambda>x. x) 1 2 [Fin 0, Fin 0] [False, False] (ns_to_ms 1000000)"
  have finite: "maximum_finite [fg_latency_cv ?g] = Some (Fin 0)" "maximum_finite [fg_spread_ms ?g] = Some (Fin 0)"
    by (simp_all add: evaluate_fairness_group_def Let_def maximum_finite_def f_total_def f_sub_def f_of_length_def f_of_int_def
        f_square_def)
  have "fe_passed (conclude_fairness (\<lambda>x. x) 1000000
      [((1, 2), [\<lparr>al_repetition = 1, al_n = 2, al_actor = ''a'', al_latency_ms = Fin 0, al_censored = False\<rparr>,
        \<lparr>al_repetition = 1, al_n = 2, al_actor = ''b'', al_latency_ms = Fin 0, al_censored = False\<rparr>])])"
    using fairness_witness_statistics finite by (simp add: conclude_fairness_def Let_def group_statistics_def fairness_complete_def)
  moreover have "length fairness_witness_actors = 2" "fp_repetitions fairness_witness_plan = 1" by (simp_all add: fairness_witness_actors_def fairness_witness_plan_def)
  ultimately show ?thesis
    using fairness_witness_groups
    by (simp add: evaluate_fairness_under_fanout_def fairness_witness_widths fairness_witness_expected fairness_witness_steps saturating_mul_def)
qed

theorem passing_fairness_serves_all_witness: "list_all (served 1000000) fairness_witness_actors"
  using passing_fairness_serves_all [OF fairness_witness_passes] by (simp add: saturating_mul_def)

end
