(* ===== verification/Wave4_Events.thy ===== *)
theory Wave4_Events
  imports Events Wave_Rows
begin

text \<open>
  What the evaluators of \<open>src/src/wave4.rs\<close> share: the raw envelopes of normalized events and the common
  result.  The JSON pointer lookup of \<open>serde_json\<close> is the parameter \<open>ptr\<close>.
\<close>

record wave4_evaluation =
  w4_metrics :: "(string, f64) btree"
  w4_details :: json
  w4_measurement_complete :: bool
  w4_measurement_error :: "string option"
  w4_passed :: bool

definition wave4_default :: wave4_evaluation where
  "wave4_default = \<lparr>w4_metrics = [], w4_details = JNull, w4_measurement_complete = False, w4_measurement_error = None,
     w4_passed = False\<rparr>"

definition wave4_error :: "string \<Rightarrow> wave4_evaluation" where
  "wave4_error message = wave4_default\<lparr>w4_measurement_error := Some message\<rparr>"

definition event_name :: "event_vocab \<Rightarrow> string option" where
  "event_name e = map_of (map (\<lambda>(name, v). (v, name)) vocab_names) e"

text \<open>\<open>serde_json::to_value\<close> of an event.\<close>

definition event_json :: "normalized_event \<Rightarrow> json" where
  "event_json e = json_object
     [(''id'', JString (ne_id e)), (''cursor'', json_u64 (ne_cursor e)), (''session_id'', JString (ne_session_id e)),
      (''actor'', JString (ne_actor e)), (''event'', json_option JString (event_name (ne_event e))), (''payload'', ne_payload e)]"

definition raw_event :: "normalized_event \<Rightarrow> json" where
  "raw_event e =
     (case or_else (json_get (ne_payload e) ''_ahrb_mapping_raw'') (json_get (ne_payload e) ''_ahrb_source_raw'') of
        Some raw \<Rightarrow> raw | None \<Rightarrow> event_json e)"

definition integer_at :: "pointer_lookup \<Rightarrow> json \<Rightarrow> string \<Rightarrow> u64 option" where
  "integer_at ptr value pointer = Option.bind (ptr value pointer) as_u64"

text \<open>\<open>collect\<close> of options: all values or nothing.\<close>

definition all_some :: "'a option list \<Rightarrow> 'a list option" where
  "all_some xs = (if list_all (\<lambda>x. x \<noteq> None) xs then Some (map the xs) else None)"

definition usage_fields :: "pointer_lookup \<Rightarrow> json \<Rightarrow> event_metadata \<Rightarrow> u64 list option" where
  "usage_fields ptr value m = all_some (map (integer_at ptr value)
     [emd_input_tokens_pointer m, emd_output_tokens_pointer m, emd_total_tokens_pointer m, emd_cost_microusd_pointer m,
      emd_turns_pointer m])"

definition last_segment :: "string \<Rightarrow> string" where
  "last_segment s = last (split_on (CHR '':'') s)"

definition actor_matches :: "normalized_event \<Rightarrow> string \<Rightarrow> bool" where
  "actor_matches e actor \<longleftrightarrow> ne_actor e = actor \<or> last_segment (ne_actor e) = actor"

definition score_flag :: "bool \<Rightarrow> f64" where
  "score_flag b = (if b then Fin 1 else Fin 0)"

end
