(* ===== verification/Usage_Reporting.thy ===== *)
theory Usage_Reporting
  imports Wave4_Events
begin

text \<open>
  Row 67 of \<open>src/src/wave4.rs\<close>: the usage a harness reports on its event stream, per turn or as a running
  total, against the scripted usage.  The five counters of a carrier are input, output and total tokens,
  cost and turns.
\<close>

section \<open>The state of a repetition\<close>

record usage_state =
  us_complete :: bool
  us_one_carrier :: bool
  us_tool_sum :: bool
  us_crosscheck_errors :: u64
  us_running :: "u64 list"
  us_prior :: "u64 list"
  us_turn_values :: "json list"
  us_response_values :: "json list"

definition usage_actor :: "u32 \<Rightarrow> u32 \<Rightarrow> string" where
  "usage_actor repetition turn = ''r67p'' @ show_u32 repetition @ ''t'' @ show_u32 turn"

definition crosscheck :: "bool \<Rightarrow> usage_state \<Rightarrow> usage_state" where
  "crosscheck good s = (if good then s else s\<lparr>us_crosscheck_errors := saturating_add (us_crosscheck_errors s) 1\<rparr>)"

definition zero_usage :: "u64 list" where
  "zero_usage = [0, 0, 0, 0, 0]"

definition plain_turn_usage :: "u64 list" where
  "plain_turn_usage = [100, 20, 120, 260, 1]"

definition tool_turn_usage :: "u64 list" where
  "tool_turn_usage = [240, 50, 290, 630, 1]"

definition expected_usage :: "u32 \<Rightarrow> u64 list option" where
  "expected_usage turns =
     (if turns = 3 then Some [440, 90, 530, 1150, 3]
      else if turns = 20 then Some [2140, 430, 2570, 5570, 20] else None)"

section \<open>A turn\<close>

definition usage_carriers :: "event_metadata \<Rightarrow> normalized_event list \<Rightarrow> string \<Rightarrow> normalized_event list" where
  "usage_carriers m events actor =
     filter (\<lambda>e. actor_matches e actor \<and> event_name (ne_event e) = Some (emd_usage_event m)) events"

definition usage_members :: "u64 list \<Rightarrow> (string \<times> json) list" where
  "usage_members values =
     [(''input_tokens'', json_u64 (values ! 0)), (''output_tokens'', json_u64 (values ! 1)),
      (''total_tokens'', json_u64 (values ! 2)), (''cost_microusd'', json_u64 (values ! 3)), (''turns'', json_u64 (values ! 4))]"

definition response_usage :: "normalized_event \<Rightarrow> (u64 \<times> u64) option" where
  "response_usage e = Option.bind (json_get (ne_payload e) ''usage'') (\<lambda>usage.
     Option.bind (Option.bind (json_get usage ''input_tokens'') as_u64) (\<lambda>input_tokens.
     Option.bind (Option.bind (json_get usage ''output_tokens'') as_u64) (\<lambda>output_tokens.
     Some (input_tokens, output_tokens))))"

definition response_json :: "u32 \<Rightarrow> nat \<Rightarrow> u64 \<Rightarrow> u64 \<Rightarrow> json" where
  "response_json turn index input_tokens output_tokens = json_object
     ([(''turn'', json_u32 turn), (''response'', json_u32 (if index + 1 < 2 ^ 32 then of_nat (index + 1) else 4294967295))]
      @ usage_members [input_tokens, output_tokens, saturating_add input_tokens output_tokens,
          saturating_add (saturating_mul input_tokens 2) (saturating_mul output_tokens 3), 0])"

definition add_response :: "u32 \<Rightarrow> usage_state \<Rightarrow> nat \<times> normalized_event \<Rightarrow> usage_state" where
  "add_response turn s x =
     (case response_usage (snd x) of
        None \<Rightarrow> s\<lparr>us_complete := False\<rparr>
      | Some (i, out) \<Rightarrow> s\<lparr>us_response_values := us_response_values s @ [response_json turn (fst x) i out]\<rparr>)"

definition turn_delta :: "usage_scope \<Rightarrow> u64 list \<Rightarrow> u64 list \<Rightarrow> u64 list" where
  "turn_delta scope prior values = (case scope of US_Turn \<Rightarrow> values | US_CumulativeRun \<Rightarrow> map2 saturating_sub values prior)"

definition account_turn :: "usage_scope \<Rightarrow> u64 list \<Rightarrow> usage_state \<Rightarrow> usage_state" where
  "account_turn scope values s =
     (let s = crosscheck (values ! 2 = saturating_add (values ! 0) (values ! 1)) s
      in case scope of
           US_Turn \<Rightarrow> s\<lparr>us_running := map2 saturating_add (us_running s) values\<rparr>
         | US_CumulativeRun \<Rightarrow>
             (crosscheck (\<not> list_ex (\<lambda>(current, previous). current < previous) (zip values (us_prior s))) s)
               \<lparr>us_prior := values, us_running := values\<rparr>)"

definition check_turn_usage :: "bool \<Rightarrow> u64 list \<Rightarrow> usage_state \<Rightarrow> usage_state" where
  "check_turn_usage tool_turn per_turn s =
     (if tool_turn
      then if per_turn = tool_turn_usage then s else (crosscheck False s)\<lparr>us_tool_sum := False\<rparr>
      else crosscheck (per_turn = plain_turn_usage) s)"

definition usage_turn ::
  "pointer_lookup \<Rightarrow> event_metadata \<Rightarrow> usage_scope \<Rightarrow> normalized_event list \<Rightarrow> u32 \<Rightarrow> u32 \<Rightarrow> usage_state \<Rightarrow> u32 \<Rightarrow> usage_state" where
  "usage_turn ptr m scope events turns repetition s turn =
     (let actor = usage_actor repetition turn in
      case usage_carriers m events actor of
        [carrier] \<Rightarrow>
          (case usage_fields ptr (raw_event carrier) m of
             None \<Rightarrow> s\<lparr>us_complete := False\<rparr>
           | Some values \<Rightarrow>
             let per_turn = turn_delta scope (us_prior s) values;
                 s = check_turn_usage (turn = turns) per_turn (account_turn scope values s);
                 s = s\<lparr>us_turn_values := us_turn_values s
                   @ [json_object ([(''turn'', json_u32 turn), (''response'', JNull)] @ usage_members per_turn)]\<rparr>
             in foldl (add_response turn) s
                  (enumerate 0 (filter (\<lambda>e. actor_matches e actor \<and> ne_event e = ModelResponse) events)))
      | _ \<Rightarrow> s\<lparr>us_complete := False, us_one_carrier := False\<rparr>)"

section \<open>The repetitions\<close>

text \<open>A repetition starts with empty counters and lists, and keeps the flags and the error count.\<close>

definition usage_repetition ::
  "pointer_lookup \<Rightarrow> event_metadata \<Rightarrow> usage_scope \<Rightarrow> normalized_event list \<Rightarrow> u32 \<Rightarrow> usage_state \<Rightarrow> u32 \<Rightarrow> usage_state" where
  "usage_repetition ptr m scope events turns s repetition =
     foldl (usage_turn ptr m scope events turns repetition)
       (s\<lparr>us_running := zero_usage, us_prior := zero_usage, us_turn_values := [], us_response_values := []\<rparr>) (ordinals turns)"

definition repetition_json :: "u32 \<Rightarrow> usage_state \<Rightarrow> json" where
  "repetition_json repetition s = json_object
     ([(''repetition'', json_u32 repetition)] @ usage_members (us_running s)
      @ [(''per_turn'', JArray (us_turn_values s)), (''per_response'', JArray (us_response_values s))])"

definition add_repetition ::
  "pointer_lookup \<Rightarrow> event_metadata \<Rightarrow> usage_scope \<Rightarrow> normalized_event list \<Rightarrow> u32
    \<Rightarrow> usage_state \<times> u64 list list \<times> json list \<Rightarrow> u32 \<Rightarrow> usage_state \<times> u64 list list \<times> json list" where
  "add_repetition ptr m scope events turns acc repetition =
     (case acc of (s, totals, details) \<Rightarrow>
      let s = usage_repetition ptr m scope events turns s repetition
      in (s, totals @ [us_running s], details @ [repetition_json repetition s]))"

definition usage_start :: usage_state where
  "usage_start = \<lparr>us_complete = True, us_one_carrier = True, us_tool_sum = True, us_crosscheck_errors = 0,
     us_running = zero_usage, us_prior = zero_usage, us_turn_values = [], us_response_values = []\<rparr>"

fun scope_name :: "usage_scope \<Rightarrow> string" where
  "scope_name US_Turn = ''turn''"
| "scope_name US_CumulativeRun = ''cumulative-run''"

definition usage_details :: "event_metadata \<Rightarrow> usage_scope \<Rightarrow> usage_state \<Rightarrow> bool \<Rightarrow> json list \<Rightarrow> json" where
  "usage_details m scope s identical details = json_object
     [(''source_pointers'', json_object
        [(''input_tokens'', JString (emd_input_tokens_pointer m)), (''output_tokens'', JString (emd_output_tokens_pointer m)),
         (''total_tokens'', JString (emd_total_tokens_pointer m)), (''cost_microusd'', JString (emd_cost_microusd_pointer m)),
         (''turns'', JString (emd_turns_pointer m))]),
      (''usage_event'', JString (emd_usage_event m)), (''usage_scope'', JString (scope_name scope)),
      (''repetitions'', JArray details), (''one_carrier_per_turn'', JBool (us_one_carrier s)),
      (''tool_turn_two_response_sum'', JBool (us_tool_sum s)), (''repetitions_identical'', JBool identical)]"

definition conclude_usage ::
  "event_metadata \<Rightarrow> usage_scope \<Rightarrow> u64 list \<Rightarrow> usage_state \<Rightarrow> u64 list list \<Rightarrow> json list \<Rightarrow> wave4_evaluation" where
  "conclude_usage m scope expected s totals details =
     (let identical = (case totals of [] \<Rightarrow> False | first # _ \<Rightarrow> list_all (\<lambda>v. v = first) totals);
          exact = list_all (\<lambda>v. v = expected) totals;
          correct = (if us_complete s then length (filter (\<lambda>i. list_all (\<lambda>v. v ! i = expected ! i) totals) [0..<5]) else 0);
          score = f_div (f_of_int (int correct)) (Fin 5);
          headline = (case totals of [] \<Rightarrow> zero_usage | first # _ \<Rightarrow> first)
      in \<lparr>w4_metrics = bt_of_list
           [(''usage_reporting.input_tokens'', f_of_u64 (headline ! 0)), (''usage_reporting.output_tokens'', f_of_u64 (headline ! 1)),
            (''usage_reporting.total_tokens'', f_of_u64 (headline ! 2)), (''usage_reporting.cost_microusd'', f_of_u64 (headline ! 3)),
            (''usage_reporting.turns'', f_of_u64 (headline ! 4)),
            (''usage_reporting.crosscheck_errors'', f_of_u64 (us_crosscheck_errors s)), (''usage_reporting.score'', score)],
          w4_details = usage_details m scope s identical details,
          w4_measurement_complete = us_complete s,
          w4_measurement_error = (if us_complete s then None
            else Some ''row-67 requires exactly one readable usage carrier after every turn''),
          w4_passed = (us_complete s \<and> exact \<and> us_one_carrier s \<and> us_tool_sum s \<and> identical
            \<and> us_crosscheck_errors s = 0 \<and> f_eq score (Fin 1))\<rparr>)"

definition evaluate_usage_reporting ::
  "pointer_lookup \<Rightarrow> normalized_event list \<Rightarrow> event_metadata option \<Rightarrow> u32 \<Rightarrow> u32 \<Rightarrow> wave4_evaluation" where
  "evaluate_usage_reporting ptr events metadata repetitions turns =
     (case metadata of
        None \<Rightarrow> wave4_error ''events.metadata is absent''
      | Some m \<Rightarrow>
        (case emd_usage_scope m of
           None \<Rightarrow> wave4_error ''events.metadata.usage_scope is absent''
         | Some scope \<Rightarrow>
           (case expected_usage turns of
              None \<Rightarrow> wave4_error (''unsupported row-67 turn count '' @ show_u32 turns)
            | Some expected \<Rightarrow>
              (case foldl (add_repetition ptr m scope events turns) (usage_start, [], []) (ordinals repetitions) of
                 (s, totals, details) \<Rightarrow> conclude_usage m scope expected s totals details))))"

section \<open>Properties\<close>

text \<open>What a passing row 67 says of the reported usage: it is the scripted one, turn by turn.\<close>

section \<open>The script\<close>

definition scripted :: "u32 \<Rightarrow> u32 \<Rightarrow> u64 list" where
  "scripted turns turn = (if turn = turns then tool_turn_usage else plain_turn_usage)"

text \<open>What a carrier must say when the reports so far amount to \<open>prior\<close>.\<close>

definition reported :: "usage_scope \<Rightarrow> u64 list \<Rightarrow> u64 list \<Rightarrow> u64 list" where
  "reported scope prior usage = (case scope of US_Turn \<Rightarrow> usage | US_CumulativeRun \<Rightarrow> map2 (+) prior usage)"

fun reports_script ::
  "pointer_lookup \<Rightarrow> event_metadata \<Rightarrow> usage_scope \<Rightarrow> normalized_event list \<Rightarrow> u32 \<Rightarrow> u32 \<Rightarrow> u64 list \<Rightarrow> u32 list \<Rightarrow> bool" where
  "reports_script ptr m scope events turns repetition prior [] = True"
| "reports_script ptr m scope events turns repetition prior (turn # rest) =
     (let usage = reported scope prior (scripted turns turn)
      in (case usage_carriers m events (usage_actor repetition turn) of
            [carrier] \<Rightarrow> usage_fields ptr (raw_event carrier) m = Some usage | _ \<Rightarrow> False)
         \<and> reports_script ptr m scope events turns repetition (case scope of US_Turn \<Rightarrow> prior | US_CumulativeRun \<Rightarrow> usage) rest)"

section \<open>Flags never recover\<close>

definition clean :: "usage_state \<Rightarrow> bool" where
  "clean s \<longleftrightarrow> us_complete s \<and> us_one_carrier s \<and> us_tool_sum s \<and> us_crosscheck_errors s = 0"

lemma saturating_succ_nonzero: "saturating_add n 1 \<noteq> (0 :: u64)"
proof (cases "unat n + 1 < 2 ^ 64")
  case True
  then have "unat (n + 1) = unat n + 1" by (simp add: unat_word_ariths)
  then have "n + 1 \<noteq> 0" by (metis Suc_eq_plus1 nat.distinct(1) unat_0)
  then show ?thesis using True by (simp add: saturating_add_def)
qed (simp add: saturating_add_def)

lemma clean_crosscheck: "clean (crosscheck good s) \<longleftrightarrow> good \<and> clean s"
  by (simp add: clean_def crosscheck_def saturating_succ_nonzero)

lemma clean_response: "clean (add_response turn s x) \<Longrightarrow> clean s"
  by (cases "response_usage (snd x)") (auto simp: clean_def add_response_def)

lemma clean_responses: "clean (foldl (add_response turn) s xs) \<Longrightarrow> clean s"
  by (induction xs arbitrary: s) (auto dest: clean_response)

lemma prior_responses: "us_prior (foldl (add_response turn) s xs) = us_prior s"
  by (induction xs arbitrary: s) (auto simp: add_response_def split: option.splits)

lemma clean_check: "clean (check_turn_usage tool per_turn s) \<Longrightarrow>
    clean s \<and> per_turn = (if tool then tool_turn_usage else plain_turn_usage)"
  by (auto simp: check_turn_usage_def clean_crosscheck split: if_splits) (auto simp: clean_def crosscheck_def)

lemma prior_check: "us_prior (check_turn_usage tool per_turn s) = us_prior s"
  by (simp add: check_turn_usage_def crosscheck_def)

lemma clean_account:
  assumes "clean (account_turn scope values s)"
  shows "clean s \<and> (scope = US_CumulativeRun \<longrightarrow> list_all (\<lambda>(current, previous). previous \<le> current) (zip values (us_prior s)))"
proof -
  define good where "good = (values ! 2 = saturating_add (values ! 0) (values ! 1))"
  let ?s = "crosscheck good s"
  have prior: "us_prior ?s = us_prior s" by (simp add: crosscheck_def)
  have "clean ?s \<and> (scope = US_CumulativeRun \<longrightarrow> \<not> list_ex (\<lambda>(current, previous). current < previous) (zip values (us_prior ?s)))"
  proof (cases scope)
    case US_Turn
    then show ?thesis using assms by (simp add: account_turn_def Let_def clean_def good_def)
  next
    case US_CumulativeRun
    then have "clean (crosscheck (\<not> list_ex (\<lambda>(current, previous). current < previous) (zip values (us_prior ?s))) ?s)"
      using assms by (simp add: account_turn_def Let_def clean_def good_def)
    then show ?thesis by (auto simp: clean_crosscheck)
  qed
  then show ?thesis unfolding prior by (auto simp: clean_crosscheck list_all_iff list_ex_iff not_less)
qed

lemma prior_account: "us_prior (account_turn scope values s) = (case scope of US_Turn \<Rightarrow> us_prior s | US_CumulativeRun \<Rightarrow> values)"
  by (simp add: account_turn_def Let_def crosscheck_def split: usage_scope.split)

lemma undo_delta: "length vs = length prior \<Longrightarrow> list_all (\<lambda>(current, previous). previous \<le> current) (zip vs prior) \<Longrightarrow>
    vs = map2 (+) prior (map2 saturating_sub vs prior)"
  by (induction vs prior rule: list_induct2) (auto simp: saturating_sub_def)

lemma usage_fields_length: "usage_fields ptr raw m = Some vs \<Longrightarrow> length vs = 5"
  by (auto simp: usage_fields_def all_some_def split: if_splits)

section \<open>A turn and a repetition\<close>

lemma clean_turn:
  assumes "clean (usage_turn ptr m scope events turns repetition s turn)"
  shows "\<exists>carrier vs. usage_carriers m events (usage_actor repetition turn) = [carrier]
    \<and> usage_fields ptr (raw_event carrier) m = Some vs \<and> clean s
    \<and> turn_delta scope (us_prior s) vs = scripted turns turn
    \<and> (scope = US_CumulativeRun \<longrightarrow> list_all (\<lambda>(current, previous). previous \<le> current) (zip vs (us_prior s)))
    \<and> us_prior (usage_turn ptr m scope events turns repetition s turn) = (case scope of US_Turn \<Rightarrow> us_prior s | US_CumulativeRun \<Rightarrow> vs)"
proof -
  obtain carrier where c: "usage_carriers m events (usage_actor repetition turn) = [carrier]"
    using assms by (auto simp: usage_turn_def clean_def Let_def split: list.splits)
  obtain vs where vs: "usage_fields ptr (raw_event carrier) m = Some vs"
    using assms by (cases "usage_fields ptr (raw_event carrier) m") (auto simp: usage_turn_def clean_def Let_def c)
  let ?s = "check_turn_usage (turn = turns) (turn_delta scope (us_prior s) vs) (account_turn scope vs s)"
  have "clean ?s"
    using assms by (auto simp: usage_turn_def Let_def c vs dest!: clean_responses) (simp add: clean_def)
  moreover have "us_prior (usage_turn ptr m scope events turns repetition s turn) = us_prior ?s"
    by (simp add: usage_turn_def Let_def c vs prior_responses)
  ultimately show ?thesis
    using c vs clean_account [of scope vs s] by (auto simp: prior_check prior_account scripted_def dest!: clean_check)
qed

lemma clean_turns_start: "clean (foldl (usage_turn ptr m scope events turns repetition) s ts) \<Longrightarrow> clean s"
  by (induction ts arbitrary: s) (auto dest: clean_turn)

lemma clean_turns:
  assumes "clean (foldl (usage_turn ptr m scope events turns repetition) s ts)" and "length (us_prior s) = 5"
  shows "clean s \<and> reports_script ptr m scope events turns repetition (us_prior s) ts"
  using assms
proof (induction ts arbitrary: s)
  case (Cons turn ts)
  let ?s = "usage_turn ptr m scope events turns repetition s turn"
  have tail: "clean (foldl (usage_turn ptr m scope events turns repetition) ?s ts)" using Cons.prems by simp
  have first: "clean ?s" using tail by (rule clean_turns_start)
  obtain carrier vs where c: "usage_carriers m events (usage_actor repetition turn) = [carrier]"
    and vs: "usage_fields ptr (raw_event carrier) m = Some vs" and s: "clean s"
    and delta: "turn_delta scope (us_prior s) vs = scripted turns turn"
    and grows: "scope = US_CumulativeRun \<longrightarrow> list_all (\<lambda>(current, previous). previous \<le> current) (zip vs (us_prior s))"
    and prior: "us_prior ?s = (case scope of US_Turn \<Rightarrow> us_prior s | US_CumulativeRun \<Rightarrow> vs)"
    using clean_turn [OF first] by blast
  have len: "length vs = length (us_prior s)" using usage_fields_length [OF vs] Cons.prems(2) by simp
  then have "vs = reported scope (us_prior s) (scripted turns turn)"
    using delta undo_delta [of vs "us_prior s"] grows by (cases scope) (simp_all add: reported_def turn_delta_def flip: delta)
  moreover have "length (us_prior ?s) = 5" using prior len Cons.prems(2) by (simp split: usage_scope.split)
  ultimately show ?case using Cons.IH [OF tail] c vs s prior by (cases scope) simp_all
qed simp

lemma clean_repetitions:
  assumes "foldl (add_repetition ptr m scope events turns) (s, totals, details) rs = (s', totals', details')" and "clean s'"
  shows "clean s \<and> list_all (\<lambda>r. reports_script ptr m scope events turns r zero_usage (ordinals turns)) rs"
  using assms(1)
proof (induction rs arbitrary: s totals details)
  case (Cons r rs)
  let ?s = "usage_repetition ptr m scope events turns s r"
  let ?start = "s\<lparr>us_running := zero_usage, us_prior := zero_usage, us_turn_values := [], us_response_values := []\<rparr>"
  have rest: "clean ?s \<and> list_all (\<lambda>r. reports_script ptr m scope events turns r zero_usage (ordinals turns)) rs"
    using Cons.prems by (intro Cons.IH) (simp add: add_repetition_def Let_def)
  then have "clean ?start \<and> reports_script ptr m scope events turns r (us_prior ?start) (ordinals turns)"
    by (intro clean_turns) (simp_all add: usage_repetition_def zero_usage_def)
  then show ?case using rest by (simp add: clean_def)
qed (simp add: assms(2))

section \<open>The claim\<close>

text \<open>C26: when row 67 passes, in every repetition every turn has exactly one usage carrier, and its five
  counters are readable and equal to the scripted usage of the turn, or, for a harness that reports running
  totals, to the sum of the scripted usages up to the turn: no turn is skipped, merged or made up for by
  another one.\<close>

theorem passing_usage_is_scripted:
  assumes "w4_passed (evaluate_usage_reporting ptr events (Some m) repetitions turns)" and "emd_usage_scope m = Some scope"
  shows "list_all (\<lambda>r. reports_script ptr m scope events turns r zero_usage (ordinals turns)) (ordinals repetitions)"
proof -
  obtain s totals details
    where fold: "foldl (add_repetition ptr m scope events turns) (usage_start, [], []) (ordinals repetitions) = (s, totals, details)"
    by (cases "foldl (add_repetition ptr m scope events turns) (usage_start, [], []) (ordinals repetitions)")
  have "clean s"
    using assms by (auto simp: evaluate_usage_reporting_def wave4_error_def wave4_default_def fold conclude_usage_def Let_def
        clean_def split: option.splits)
  then show ?thesis using clean_repetitions [OF fold] by blast
qed

definition usage_witness_metadata :: event_metadata where
  "usage_witness_metadata = \<lparr>emd_timestamp_pointer = [], emd_timestamp_format = None, emd_schema_version_pointer = [],
     emd_schema_version_value = [], emd_usage_event = ''terminal-success'', emd_usage_scope = Some US_CumulativeRun,
     emd_input_tokens_pointer = ''i'', emd_output_tokens_pointer = ''o'', emd_total_tokens_pointer = ''t'',
     emd_cost_microusd_pointer = ''c'', emd_turns_pointer = ''n''\<rparr>"

definition usage_witness_carrier :: "string \<Rightarrow> u64 list \<Rightarrow> normalized_event" where
  "usage_witness_carrier actor usage = \<lparr>ne_id = actor, ne_cursor = 0, ne_session_id = [], ne_actor = actor, ne_event = TerminalSuccess,
     ne_payload = JObject [(''_ahrb_source_raw'', JObject (zip [''i'', ''o'', ''t'', ''c'', ''n''] (map json_u64 usage)))]\<rparr>"

definition usage_witness_events :: "normalized_event list" where
  "usage_witness_events = [usage_witness_carrier ''r67p1t1'' [100, 20, 120, 260, 1], usage_witness_carrier ''r67p1t2'' [200, 40, 240, 520, 2],
     usage_witness_carrier ''r67p1t3'' [440, 90, 530, 1150, 3]]"

lemma usage_witness_carriers:
  "usage_carriers usage_witness_metadata usage_witness_events (usage_actor 1 1) = [usage_witness_carrier ''r67p1t1'' [100, 20, 120, 260, 1]]"
  "usage_carriers usage_witness_metadata usage_witness_events (usage_actor 1 2) = [usage_witness_carrier ''r67p1t2'' [200, 40, 240, 520, 2]]"
  "usage_carriers usage_witness_metadata usage_witness_events (usage_actor 1 3) = [usage_witness_carrier ''r67p1t3'' [440, 90, 530, 1150, 3]]"
  "filter (\<lambda>e. actor_matches e a \<and> ne_event e = ModelResponse) usage_witness_events = []"
     apply code_simp
    apply code_simp
   apply code_simp
  apply (simp add: usage_witness_events_def usage_witness_carrier_def)
  done

lemma usage_witness_fields:
  "usage_fields json_get (raw_event (usage_witness_carrier actor [i, out, t, c, n])) usage_witness_metadata = Some [i, out, t, c, n]"
  by (simp add: usage_fields_def all_some_def integer_at_def raw_event_def usage_witness_carrier_def usage_witness_metadata_def)

lemma usage_witness_scope: "emd_usage_scope usage_witness_metadata = Some US_CumulativeRun"
  by (simp add: usage_witness_metadata_def)

lemma usage_witness_ordinals: "ordinals 1 = [1]" "ordinals 3 = [1, 2, 3]"
  by (simp_all add: ordinals_def upt_rec)

theorem passing_usage_is_scripted_witness:
  "reports_script json_get usage_witness_metadata US_CumulativeRun usage_witness_events 3 1 zero_usage [1, 2, 3]"
proof -
  have "w4_passed (evaluate_usage_reporting json_get usage_witness_events (Some usage_witness_metadata) 1 3)"
    by (simp add: evaluate_usage_reporting_def usage_witness_scope expected_usage_def usage_witness_ordinals add_repetition_def
        usage_repetition_def usage_turn_def Let_def usage_witness_carriers usage_witness_fields usage_start_def zero_usage_def turn_delta_def
        account_turn_def check_turn_usage_def crosscheck_def plain_turn_usage_def tool_turn_usage_def saturating_sub_def
        saturating_add_def conclude_usage_def numeral_3_eq_3 upt_rec f_of_int_def)
  from passing_usage_is_scripted [OF this] show ?thesis by (simp add: usage_witness_ordinals usage_witness_metadata_def)
qed

end
