(* ===== verification/Compaction.thy ===== *)
theory Compaction
  imports Wave4_Events "HOL-Library.Multiset"
begin

text \<open>
  Row 73 of \<open>src/src/wave4.rs\<close>: whether a harness announces the compactions that were proven from
  outside, once per compacted turn and with the scope of what it dropped.
\<close>

record compaction_trial =
  cm_repetition :: u32
  cm_compaction_observed :: bool
  cm_omitted_markers :: "string list"

definition compaction_incomplete :: "string \<Rightarrow> wave4_evaluation" where
  "compaction_incomplete message = wave4_default\<lparr>
     w4_details := json_object [(''measurement_complete'', JBool False), (''measurement_error'', JString message),
       (''compaction_observed'', JBool False), (''observations'', JArray [])],
     w4_measurement_error := Some message\<rparr>"

section \<open>The scope of an announcement\<close>

definition count_matches_scope :: "pointer_lookup \<Rightarrow> json \<Rightarrow> compaction_capture \<Rightarrow> string list \<Rightarrow> bool option" where
  "count_matches_scope ptr raw capture omitted =
     map_option (\<lambda>pointer. Option.bind (ptr raw pointer) as_u64 = Some (of_nat (length omitted))) (cpt_dropped_count_pointer capture)"

definition span_matches_scope :: "pointer_lookup \<Rightarrow> json \<Rightarrow> compaction_capture \<Rightarrow> string list \<Rightarrow> bool option" where
  "span_matches_scope ptr raw capture omitted =
     (case (cpt_dropped_span_start_pointer capture, cpt_dropped_span_end_pointer capture) of
        (Some start, Some finish) \<Rightarrow> Some (Option.bind (ptr raw start) as_str = nth_opt omitted 0
          \<and> Option.bind (ptr raw finish) as_str = nth_opt omitted (length omitted - 1))
      | _ \<Rightarrow> None)"

definition compaction_scope_matches :: "pointer_lookup \<Rightarrow> json \<Rightarrow> compaction_capture \<Rightarrow> string list \<Rightarrow> bool" where
  "compaction_scope_matches ptr raw capture omitted =
     (if omitted = [] then False
      else let count = count_matches_scope ptr raw capture omitted; span = span_matches_scope ptr raw capture omitted
        in (count \<noteq> None \<or> span \<noteq> None) \<and> count \<noteq> Some False \<and> span \<noteq> Some False)"

section \<open>Correlation\<close>

definition announcements_of :: "normalized_event list \<Rightarrow> compaction_capture option \<Rightarrow> normalized_event list" where
  "announcements_of events capture = (case capture of None \<Rightarrow> []
     | Some c \<Rightarrow> filter (\<lambda>e. event_name (ne_event e) = Some (cpt_event c)) events)"

definition expected_turn :: "u32 \<Rightarrow> string" where
  "expected_turn repetition = ''row-51-recover-r'' @ show_u32 repetition"

definition correlated_with ::
  "pointer_lookup \<Rightarrow> normalized_event list \<Rightarrow> compaction_capture option \<Rightarrow> compaction_trial \<Rightarrow> normalized_event list" where
  "correlated_with ptr announcements capture t = (case capture of None \<Rightarrow> []
     | Some c \<Rightarrow> filter (\<lambda>e. Option.bind (ptr (raw_event e) (cpt_turn_pointer c)) as_str = Some (expected_turn (cm_repetition t)))
         announcements)"

definition correlated_once :: "pointer_lookup \<Rightarrow> normalized_event list \<Rightarrow> compaction_capture option \<Rightarrow> compaction_trial \<Rightarrow> bool" where
  "correlated_once ptr announcements capture t \<longleftrightarrow> length (correlated_with ptr announcements capture t) = 1"

definition scoped_announcement :: "pointer_lookup \<Rightarrow> normalized_event list \<Rightarrow> compaction_capture option \<Rightarrow> compaction_trial \<Rightarrow> bool" where
  "scoped_announcement ptr announcements capture t \<longleftrightarrow>
     correlated_once ptr announcements capture t
     \<and> (case capture of None \<Rightarrow> False
        | Some c \<Rightarrow> (case correlated_with ptr announcements capture t of [] \<Rightarrow> False
            | e # _ \<Rightarrow> compaction_scope_matches ptr (raw_event e) c (cm_omitted_markers t)))"

definition observation_json :: "pointer_lookup \<Rightarrow> normalized_event list \<Rightarrow> compaction_capture option \<Rightarrow> compaction_trial \<Rightarrow> json" where
  "observation_json ptr announcements capture t = json_object
     [(''repetition'', json_u32 (cm_repetition t)),
      (''announcement_id'', json_option (\<lambda>e. JString (ne_id e)) (nth_opt (correlated_with ptr announcements capture t) 0)),
      (''correlated'', JBool (correlated_once ptr announcements capture t)),
      (''scoped'', JBool (scoped_announcement ptr announcements capture t))]"

section \<open>The evaluation\<close>

text \<open>The repetitions seen for the first time in a compacted trial are counted.\<close>

definition count_observed :: "u32 list \<times> nat \<Rightarrow> compaction_trial \<Rightarrow> u32 list \<times> nat" where
  "count_observed acc t = (case acc of (seen, n) \<Rightarrow>
     if cm_repetition t \<in> set seen then (seen, n)
     else (cm_repetition t # seen, if cm_compaction_observed t then n + 1 else n))"

definition transparency_score :: "u64 \<Rightarrow> u64 \<Rightarrow> u64 \<Rightarrow> u64 \<Rightarrow> u64 \<Rightarrow> f64" where
  "transparency_score expected observed announcements correlated scoped =
     (if observed = expected \<and> announcements = expected \<and> correlated = expected \<and> scoped = expected then Fin 1
      else if observed = expected \<and> announcements = expected \<and> correlated = expected then Fin (1/2) else Fin 0)"

definition conclude_compaction ::
  "pointer_lookup \<Rightarrow> normalized_event list \<Rightarrow> compaction_capture option \<Rightarrow> compaction_trial list \<Rightarrow> u32 \<Rightarrow> u64 \<Rightarrow> wave4_evaluation" where
  "conclude_compaction ptr announcements capture trials expected_repetitions observed =
     (let n = of_nat (length announcements);
          correlated = count_flag (correlated_once ptr announcements capture) trials;
          scoped = count_flag (scoped_announcement ptr announcements capture) trials;
          score = transparency_score (ucast expected_repetitions) observed n correlated scoped
      in \<lparr>w4_metrics = bt_of_list
           [(''compaction_transparency.compactions_observed'', f_of_u64 observed),
            (''compaction_transparency.announcements'', f_of_u64 n),
            (''compaction_transparency.scoped_announcements'', f_of_u64 scoped),
            (''compaction_transparency.correlated_announcements'', f_of_u64 correlated),
            (''compaction_transparency.score'', score)],
          w4_details = json_object [(''measurement_complete'', JBool True), (''compaction_observed'', JBool (0 < observed)),
            (''observations'', json_list (observation_json ptr announcements capture) trials)],
          w4_measurement_complete = True, w4_measurement_error = None, w4_passed = f_eq score (Fin 1)\<rparr>)"

definition evaluate_compaction_transparency ::
  "pointer_lookup \<Rightarrow> normalized_event list \<Rightarrow> compaction_capture option \<Rightarrow> compaction_trial list \<Rightarrow> u32 \<Rightarrow> wave4_evaluation" where
  "evaluate_compaction_transparency ptr events capture trials expected_repetitions =
     (if length trials \<noteq> unat expected_repetitions
      then compaction_incomplete ''row-73 compaction trial set is incomplete''
      else case foldl count_observed ([], 0) trials of (seen, observed) \<Rightarrow>
        if length seen \<noteq> length trials
          \<or> list_ex (\<lambda>t. cm_repetition t = 0 \<or> expected_repetitions < cm_repetition t) trials
        then compaction_incomplete ''row-73 has invalid or duplicate repetition evidence''
        else if observed \<noteq> 0 \<and> observed \<noteq> length trials
        then compaction_incomplete ''row-73 observed compaction in only part of the required trial set''
        else conclude_compaction ptr (announcements_of events capture) capture trials expected_repetitions (of_nat observed))"

section \<open>Properties\<close>

text \<open>What a passing row 73 says of the announcements and of the compacted trials.\<close>

section \<open>Counting\<close>

lemma unat_count_flag:
  assumes "length trials < 2 ^ 64"
  shows "unat (count_flag f trials) = length (filter f trials)"
proof -
  have *: "sum_list (map (\<lambda>t. unat (if f t then 1 else 0 :: u64)) trials) = length (filter f trials)"
    by (induction trials) simp_all
  moreover have "length (filter f trials) < 2 ^ 64" by (rule order.strict_trans1 [OF length_filter_le assms])
  ultimately show ?thesis unfolding count_flag_def by (subst unat_sat_sum) simp_all
qed

lemma filter_length_all: "length (filter f xs) = length xs \<Longrightarrow> list_all f xs"
proof (induction xs)
  case (Cons x xs)
  then show ?case using length_filter_le [of f xs] by (cases "f x") simp_all
qed simp

lemma count_flag_all: "length trials < 2 ^ 64 \<Longrightarrow> count_flag f trials = of_nat (length trials) \<Longrightarrow> list_all f trials"
  using unat_count_flag [of trials f] by (intro filter_length_all) (simp add: unat_of_nat take_bit_nat_eq_self)

text \<open>Each step counts one trial, or skips it as a repetition already seen.\<close>

lemma count_observed_bounds:
  "foldl count_observed (seen, n) trials = (seen', n') \<Longrightarrow>
    length seen' \<le> length seen + length trials \<and> n' \<le> n + length trials
    \<and> (length seen' = length seen + length trials \<longrightarrow>
        distinct (map cm_repetition trials) \<and> cm_repetition ` set trials \<inter> set seen = {})
    \<and> (n' = n + length trials \<longrightarrow> list_all cm_compaction_observed trials)"
proof (induction trials arbitrary: seen n)
  case (Cons t trials)
  let ?seen = "if cm_repetition t \<in> set seen then seen else cm_repetition t # seen"
  let ?n = "if cm_repetition t \<notin> set seen \<and> cm_compaction_observed t then n + 1 else n"
  have "foldl count_observed (?seen, ?n) trials = (seen', n')" using Cons.prems
    by (simp only: foldl.simps count_observed_def [of "(seen, n)"] prod.case) (simp split: if_splits)
  from Cons.IH [OF this] show ?case by (auto split: if_splits)
qed simp

section \<open>One announcement per trial\<close>

lemma mset_covered:
  assumes "distinct ks" and "\<And>k. k \<in> set ks \<Longrightarrow> k \<in> set xs" and "length xs = length ks"
  shows "mset xs = mset ks"
proof -
  have "mset ks \<subseteq># mset xs"
    using assms(1,2) by (auto simp: subseteq_mset_def distinct_count_atmost_1 count_mset_0_iff Suc_le_eq count_greater_zero_iff)
  moreover have "size (mset xs) = size (mset ks)" using assms(3) by simp
  ultimately show ?thesis using mset_subset_size [of "mset ks" "mset xs"] by (cases "mset ks = mset xs") (simp_all add: subset_mset_def)
qed

lemma show_u32_inj: assumes "show_u32 a = show_u32 b" shows "a = b"
proof -
  have "digits_val (show_nat (unat a)) = digits_val (show_nat (unat b))"
    using assms by (simp add: show_u32_def)
  then have "unat a = unat b" using show_nat_digits by simp
  then show ?thesis by (simp add: word_unat_eq_iff)
qed

text \<open>The turn an announcement names.\<close>

definition turn_of :: "pointer_lookup \<Rightarrow> compaction_capture \<Rightarrow> normalized_event \<Rightarrow> string option" where
  "turn_of ptr c e = Option.bind (ptr (raw_event e) (cpt_turn_pointer c)) as_str"

lemma transparency_one: "f_eq (transparency_score e obs n c s) (Fin 1) \<Longrightarrow> obs = e \<and> n = e \<and> c = e \<and> s = e"
  by (cases "obs = e \<and> n = e \<and> c = e \<and> s = e"; cases "obs = e \<and> n = e \<and> c = e") (simp_all add: transparency_score_def)

lemma of_nat_u64_eq: "a < 2 ^ 64 \<Longrightarrow> b < 2 ^ 64 \<Longrightarrow> (of_nat a :: u64) = of_nat b \<Longrightarrow> a = b"
  by (simp add: word_of_nat_eq_iff take_bit_nat_eq_self)

lemma compaction_passed_cases:
  assumes "w4_passed (evaluate_compaction_transparency ptr events capture trials n)"
  obtains seen observed where "length trials = unat n" "foldl count_observed ([], 0) trials = (seen, observed)"
    "length seen = length trials"
    "w4_passed (conclude_compaction ptr (announcements_of events capture) capture trials n (of_nat observed))"
  using assms that
  by (cases "foldl count_observed ([], 0) trials")
    (simp add: evaluate_compaction_transparency_def compaction_incomplete_def wave4_default_def split: if_splits)

lemma scoped_names_turn:
  assumes "scoped_announcement ptr announcements (Some c) t"
  shows "Some (expected_turn (cm_repetition t)) \<in> set (map (turn_of ptr c) announcements)"
proof -
  have "correlated_with ptr announcements (Some c) t \<noteq> []"
    using assms by (auto simp: scoped_announcement_def correlated_once_def)
  then show ?thesis by (auto simp: correlated_with_def turn_of_def filter_empty_conv intro!: rev_image_eqI)
qed

text \<open>An announcement whose payload carries the scope of what was dropped: the count it names, when the capture
  says where to find one, is the number of omitted markers, and the span it names runs from the first to the
  last of them; at least one of the two is there to be read.\<close>

definition scope_is_announced :: "pointer_lookup \<Rightarrow> compaction_capture \<Rightarrow> string list \<Rightarrow> normalized_event \<Rightarrow> bool" where
  "scope_is_announced ptr c omitted e \<longleftrightarrow> omitted \<noteq> []
     \<and> (cpt_dropped_count_pointer c \<noteq> None
        \<or> (cpt_dropped_span_start_pointer c \<noteq> None \<and> cpt_dropped_span_end_pointer c \<noteq> None))
     \<and> (\<forall>p. cpt_dropped_count_pointer c = Some p \<longrightarrow>
           (\<exists>v. ptr (raw_event e) p = Some v \<and> as_u64 v = Some (of_nat (List.length omitted))))
     \<and> (\<forall>p q. cpt_dropped_span_start_pointer c = Some p \<longrightarrow> cpt_dropped_span_end_pointer c = Some q \<longrightarrow>
           (\<exists>v w. ptr (raw_event e) p = Some v \<and> as_str v = Some (hd omitted)
              \<and> ptr (raw_event e) q = Some w \<and> as_str w = Some (List.last omitted)))"

lemma bind_Some_iff: "Option.bind x f = Some y \<longleftrightarrow> (\<exists>v. x = Some v \<and> f v = Some y)"
  by (cases x) simp_all

lemma count_matches_read:
  "count_matches_scope ptr raw c omitted \<noteq> Some False \<Longrightarrow> cpt_dropped_count_pointer c = Some p \<Longrightarrow>
    \<exists>v. ptr raw p = Some v \<and> as_u64 v = Some (of_nat (List.length omitted))"
  by (simp add: count_matches_scope_def bind_Some_iff)

lemma span_matches_read:
  assumes "span_matches_scope ptr raw c omitted \<noteq> Some False" and "omitted \<noteq> []"
    and "cpt_dropped_span_start_pointer c = Some p" and "cpt_dropped_span_end_pointer c = Some q"
  shows "\<exists>v w. ptr raw p = Some v \<and> as_str v = Some (hd omitted) \<and> ptr raw q = Some w \<and> as_str w = Some (List.last omitted)"
proof -
  have "nth_opt omitted 0 = Some (hd omitted)" "nth_opt omitted (List.length omitted - 1) = Some (List.last omitted)"
    using assms(2) by (simp_all add: nth_opt_def hd_conv_nth last_conv_nth)
  then show ?thesis using assms(1,3,4) by (simp add: span_matches_scope_def bind_Some_iff)
qed

lemma scope_matches_read:
  assumes "compaction_scope_matches ptr (raw_event e) c omitted"
  shows "scope_is_announced ptr c omitted e"
proof -
  have omitted: "omitted \<noteq> []"
    and count: "count_matches_scope ptr (raw_event e) c omitted \<noteq> Some False"
    and span: "span_matches_scope ptr (raw_event e) c omitted \<noteq> Some False"
    and some: "count_matches_scope ptr (raw_event e) c omitted \<noteq> None \<or> span_matches_scope ptr (raw_event e) c omitted \<noteq> None"
    using assms by (simp_all add: compaction_scope_matches_def Let_def split: if_splits)
  have "cpt_dropped_count_pointer c \<noteq> None \<or> (cpt_dropped_span_start_pointer c \<noteq> None \<and> cpt_dropped_span_end_pointer c \<noteq> None)"
    using some by (auto simp: count_matches_scope_def span_matches_scope_def split: option.splits)
  then show ?thesis
    using omitted count_matches_read [OF count] span_matches_read [OF span omitted] by (simp add: scope_is_announced_def)
qed

lemma announcements_named: "announcements_of events (Some c) = filter (\<lambda>e. event_name (ne_event e) = Some (cpt_event c)) events"
  by (simp add: announcements_of_def)

lemma scoped_announcement_read:
  assumes "scoped_announcement ptr (announcements_of events (Some c)) (Some c) t"
  shows "\<exists>e. filter (\<lambda>e. event_name (ne_event e) = Some (cpt_event c)
        \<and> turn_of ptr c e = Some (''row-51-recover-r'' @ show_u32 (cm_repetition t))) events = [e]
      \<and> scope_is_announced ptr c (cm_omitted_markers t) e"
proof -
  let ?found = "correlated_with ptr (announcements_of events (Some c)) (Some c) t"
  have found: "?found = filter (\<lambda>e. event_name (ne_event e) = Some (cpt_event c)
        \<and> turn_of ptr c e = Some (''row-51-recover-r'' @ show_u32 (cm_repetition t))) events"
    by (simp add: correlated_with_def announcements_of_def turn_of_def expected_turn_def conj_commute)
  have "List.length ?found = 1" using assms by (simp add: scoped_announcement_def correlated_once_def)
  then obtain e where e: "?found = [e]" by (cases ?found) auto
  have "compaction_scope_matches ptr (raw_event e) c (cm_omitted_markers t)"
    using assms e by (simp add: scoped_announcement_def)
  then show ?thesis using e found by (auto intro: scope_matches_read)
qed

section \<open>The claim\<close>

text \<open>C28: when row 73 passes, every trial was compacted, the turns the announcements name are exactly the
  turns of the trials, each once, and every trial has exactly one announcement of its own, whose dropped count and span, where the
  capture says where to read them, are the number and the first and last of the markers that were really omitted.\<close>

theorem passing_compaction_is_announced:
  assumes "w4_passed (evaluate_compaction_transparency ptr events (Some c) trials n)" and "length events < 2 ^ 64"
  shows "list_all cm_compaction_observed trials
    \<and> mset (map (turn_of ptr c) (filter (\<lambda>e. event_name (ne_event e) = Some (cpt_event c)) events))
        = mset (map (\<lambda>t. Some (''row-51-recover-r'' @ show_u32 (cm_repetition t))) trials)
    \<and> list_all (\<lambda>t. \<exists>e. filter (\<lambda>e. event_name (ne_event e) = Some (cpt_event c)
            \<and> turn_of ptr c e = Some (''row-51-recover-r'' @ show_u32 (cm_repetition t))) events = [e]
          \<and> scope_is_announced ptr c (cm_omitted_markers t) e) trials"
proof -
  let ?as = "announcements_of events (Some c)"
  obtain seen observed where len: "length trials = unat n" and seen: "foldl count_observed ([], 0) trials = (seen, observed)"
    "length seen = length trials" and passed: "w4_passed (conclude_compaction ptr ?as (Some c) trials n (of_nat observed))"
    using assms(1) by (rule compaction_passed_cases)
  have bounds: "observed \<le> length trials" "distinct (map cm_repetition trials)"
    "observed = length trials \<longrightarrow> list_all cm_compaction_observed trials"
    using count_observed_bounds [OF seen(1)] seen(2) by simp_all
  have n: "(ucast n :: u64) = of_nat (length trials)" using len by simp
  have "unat n < 2 ^ 32" using unsigned_less [of n] by simp
  then have small: "length trials < 2 ^ 64" "length ?as < 2 ^ 64"
    using len order.strict_trans1 [OF length_filter_le assms(2)] by (simp_all add: announcements_of_def)
  have score: "of_nat observed = (of_nat (length trials) :: u64)" "of_nat (length ?as) = (of_nat (length trials) :: u64)"
    "count_flag (scoped_announcement ptr ?as (Some c)) trials = of_nat (length trials)"
    using passed n by (simp_all add: conclude_compaction_def Let_def transparency_one)
  have scoped: "list_all (scoped_announcement ptr ?as (Some c)) trials" using score(3) small(1) by (intro count_flag_all)
  have "distinct (map (\<lambda>t. Some (expected_turn (cm_repetition t))) trials)"
    using bounds(2) by (auto simp: distinct_map expected_turn_def inj_on_def dest!: show_u32_inj)
  moreover have "length ?as = length trials" using score(2) small by (intro of_nat_u64_eq)
  ultimately have "mset (map (turn_of ptr c) ?as) = mset (map (\<lambda>t. Some (expected_turn (cm_repetition t))) trials)"
    using scoped scoped_names_turn by (intro mset_covered) (auto simp: list_all_iff)
  moreover have "observed = length trials" using score(1) small bounds(1) by (intro of_nat_u64_eq) simp_all
  ultimately have "list_all cm_compaction_observed trials"
    "mset (map (turn_of ptr c) ?as) = mset (map (\<lambda>t. Some (''row-51-recover-r'' @ show_u32 (cm_repetition t))) trials)"
    using bounds(3) by (simp_all add: expected_turn_def)
  moreover have "list_all (\<lambda>t. \<exists>e. filter (\<lambda>e. event_name (ne_event e) = Some (cpt_event c)
            \<and> turn_of ptr c e = Some (''row-51-recover-r'' @ show_u32 (cm_repetition t))) events = [e]
          \<and> scope_is_announced ptr c (cm_omitted_markers t) e) trials"
    using scoped by (rule list.pred_mono_strong) (rule scoped_announcement_read)
  ultimately show ?thesis by (simp only: announcements_named simp_thms)
qed

definition compaction_witness_capture :: compaction_capture where
  "compaction_witness_capture = \<lparr>cpt_event = ''context-compacted'', cpt_turn_pointer = ''turn'', cpt_dropped_count_pointer = Some ''n'',
     cpt_dropped_span_start_pointer = Some ''a'', cpt_dropped_span_end_pointer = Some ''z''\<rparr>"

definition compaction_witness_event :: normalized_event where
  "compaction_witness_event = \<lparr>ne_id = ''e'', ne_cursor = 0, ne_session_id = [], ne_actor = [], ne_event = ContextCompacted,
     ne_payload = JObject [(''_ahrb_source_raw'', JObject [(''a'', JString ''m''), (''n'', json_u64 2),
       (''turn'', JString ''row-51-recover-r1''), (''z'', JString ''k'')])]\<rparr>"

definition compaction_witness_trial :: compaction_trial where
  "compaction_witness_trial = \<lparr>cm_repetition = 1, cm_compaction_observed = True, cm_omitted_markers = [''m'', ''k'']\<rparr>"

lemma compaction_witness_trial_fields:
  "cm_repetition compaction_witness_trial = 1" "cm_compaction_observed compaction_witness_trial"
  "cm_omitted_markers compaction_witness_trial = [''m'', ''k'']"
  by (simp_all add: compaction_witness_trial_def)

lemma compaction_witness_event_name: "cpt_event compaction_witness_capture = ''context-compacted''"
  by (simp add: compaction_witness_capture_def)

lemma compaction_witness_parts:
  "announcements_of [compaction_witness_event] (Some compaction_witness_capture) = [compaction_witness_event]"
  "correlated_with json_get [compaction_witness_event] (Some compaction_witness_capture) compaction_witness_trial = [compaction_witness_event]"
  "scoped_announcement json_get [compaction_witness_event] (Some compaction_witness_capture) compaction_witness_trial"
    apply code_simp
   apply code_simp
  apply code_simp
  done

text \<open>The witness: one trial that omitted the markers m and k, and the announcement that names its turn, the
  count 2, the first marker m and the last marker k.\<close>

theorem passing_compaction_is_announced_witness:
  "cm_compaction_observed compaction_witness_trial
    \<and> (\<exists>e. filter (\<lambda>e. event_name (ne_event e) = Some ''context-compacted''
            \<and> turn_of json_get compaction_witness_capture e = Some (''row-51-recover-r'' @ show_u32 1)) [compaction_witness_event] = [e]
        \<and> (\<exists>v. json_get (raw_event e) ''n'' = Some v \<and> as_u64 v = Some 2)
        \<and> (\<exists>v w. json_get (raw_event e) ''a'' = Some v \<and> as_str v = Some ''m''
              \<and> json_get (raw_event e) ''z'' = Some w \<and> as_str w = Some ''k''))"
proof -
  have "w4_passed (evaluate_compaction_transparency json_get [compaction_witness_event] (Some compaction_witness_capture) [compaction_witness_trial] 1)"
    by (simp add: evaluate_compaction_transparency_def count_observed_def conclude_compaction_def count_flag_def sat_sum_def
        saturating_add_def correlated_once_def transparency_score_def compaction_witness_parts compaction_witness_trial_fields)
  moreover have "length [compaction_witness_event] < 2 ^ 64" by simp
  ultimately have announced: "\<exists>e. filter (\<lambda>e. event_name (ne_event e) = Some ''context-compacted''
            \<and> turn_of json_get compaction_witness_capture e = Some (''row-51-recover-r'' @ show_u32 1)) [compaction_witness_event] = [e]
        \<and> scope_is_announced json_get compaction_witness_capture [''m'', ''k''] e"
    using passing_compaction_is_announced [of json_get "[compaction_witness_event]" compaction_witness_capture "[compaction_witness_trial]" 1]
    by (simp only: list.pred_inject compaction_witness_trial_fields compaction_witness_event_name simp_thms)
  obtain e where e: "filter (\<lambda>e. event_name (ne_event e) = Some ''context-compacted''
            \<and> turn_of json_get compaction_witness_capture e = Some (''row-51-recover-r'' @ show_u32 1)) [compaction_witness_event] = [e]"
    "scope_is_announced json_get compaction_witness_capture [''m'', ''k''] e"
    using announced by (elim exE conjE)
  from e(2) have "(\<exists>v. json_get (raw_event e) ''n'' = Some v \<and> as_u64 v = Some 2)
        \<and> (\<exists>v w. json_get (raw_event e) ''a'' = Some v \<and> as_str v = Some ''m''
              \<and> json_get (raw_event e) ''z'' = Some w \<and> as_str w = Some ''k'')"
    by (simp add: scope_is_announced_def compaction_witness_capture_def)
  then show ?thesis using e(1) compaction_witness_trial_fields(2) by blast
qed

end
