(* ===== verification/Event_Stream.thy ===== *)
theory Event_Stream
  imports Wave4_Events
begin

text \<open>
  Row 69 of \<open>src/src/wave4.rs\<close>: the seven components a declared event stream must show for a successful
  and a failing turn.  Parameters: the JSON pointer lookup, the rendering of a number, and the parser of
  the declared schema version.
\<close>

definition row69_actor :: "u32 \<Rightarrow> bool \<Rightarrow> string" where
  "row69_actor repetition success = ''r69p'' @ show_u32 repetition @ (if success then ''s'' else ''f'')"

section \<open>The narrative\<close>

definition narrative_record_matches ::
  "pointer_lookup \<Rightarrow> (json_number \<Rightarrow> string) \<Rightarrow> json \<Rightarrow> (string, string) btree \<Rightarrow> bool" where
  "narrative_record_matches ptr show_number raw fields' \<longleftrightarrow>
     list_all (\<lambda>(pointer, expected). case ptr raw pointer of
         None \<Rightarrow> False | Some actual \<Rightarrow> scalar_text show_number actual = Some expected) fields'"

text \<open>The text one item has collected so far, in the order the items appeared.\<close>

fun push_delta :: "string \<Rightarrow> string \<Rightarrow> (string \<times> string) list \<Rightarrow> (string \<times> string) list" where
  "push_delta item delta [] = [(item, delta)]"
| "push_delta item delta ((i, text') # items) =
     (if i = item then (i, text' @ delta) # items else (i, text') # push_delta item delta items)"

fun collect_deltas ::
  "pointer_lookup \<Rightarrow> (json_number \<Rightarrow> string) \<Rightarrow> string \<Rightarrow> (string, string) btree \<Rightarrow> string
    \<Rightarrow> (string \<times> string) list \<Rightarrow> json list \<Rightarrow> (string \<times> string) list option" where
  "collect_deltas ptr show_number value_pointer match_fields item_pointer items [] = Some items"
| "collect_deltas ptr show_number value_pointer match_fields item_pointer items (raw # raws) =
     (if \<not> narrative_record_matches ptr show_number raw match_fields
      then collect_deltas ptr show_number value_pointer match_fields item_pointer items raws
      else case ptr raw value_pointer of
        None \<Rightarrow> collect_deltas ptr show_number value_pointer match_fields item_pointer items raws
      | Some v \<Rightarrow>
        (case (as_str v, Option.bind (ptr raw item_pointer) as_str) of
           (Some delta, Some item) \<Rightarrow> if item = [] then None
             else collect_deltas ptr show_number value_pointer match_fields item_pointer (push_delta item delta items) raws
         | _ \<Rightarrow> None))"

definition complete_values ::
  "pointer_lookup \<Rightarrow> (json_number \<Rightarrow> string) \<Rightarrow> string \<Rightarrow> (string, string) btree \<Rightarrow> json list \<Rightarrow> string list option" where
  "complete_values ptr show_number value_pointer match_fields raws =
     all_some (List.map_filter (\<lambda>raw. if narrative_record_matches ptr show_number raw match_fields
       then map_option as_str (ptr raw value_pointer) else None) raws)"

definition narrative_values ::
  "pointer_lookup \<Rightarrow> (json_number \<Rightarrow> string) \<Rightarrow> normalized_event list \<Rightarrow> string \<Rightarrow> string \<Rightarrow> (string, string) btree
    \<Rightarrow> narrative_aggregation \<Rightarrow> string option \<Rightarrow> string list option" where
  "narrative_values ptr show_number stream expected_event value_pointer match_fields aggregation item_pointer =
     (let raws = map raw_event (filter (\<lambda>e. event_name (ne_event e) = Some expected_event) stream)
      in case aggregation of
           NA_CompleteEvent \<Rightarrow> complete_values ptr show_number value_pointer match_fields raws
         | NA_ItemDeltas \<Rightarrow> Option.bind item_pointer (\<lambda>item_pointer.
             map_option (map snd) (collect_deltas ptr show_number value_pointer match_fields item_pointer [] raws)))"

definition assistant_text :: "pointer_lookup \<Rightarrow> (json_number \<Rightarrow> string) \<Rightarrow> narrative_capture \<Rightarrow> normalized_event list \<Rightarrow> string list option" where
  "assistant_text ptr show_number c stream =
     narrative_values ptr show_number stream (nc_assistant_text_event c) (nc_assistant_text_pointer c)
       (nc_assistant_text_match_fields c) (nc_assistant_text_aggregation c) (nc_assistant_text_item_pointer c)"

definition reasoning :: "pointer_lookup \<Rightarrow> (json_number \<Rightarrow> string) \<Rightarrow> narrative_capture \<Rightarrow> normalized_event list \<Rightarrow> string list option" where
  "reasoning ptr show_number c stream =
     narrative_values ptr show_number stream (nc_reasoning_event c) (nc_reasoning_pointer c)
       (nc_reasoning_match_fields c) (nc_reasoning_aggregation c) (nc_reasoning_item_pointer c)"

text \<open>An event that carries assistant text or reasoning, and the turn it must name.\<close>

definition carries ::
  "pointer_lookup \<Rightarrow> (json_number \<Rightarrow> string) \<Rightarrow> normalized_event \<Rightarrow> string \<Rightarrow> (string, string) btree \<Rightarrow> string \<Rightarrow> bool" where
  "carries ptr show_number e expected_event match_fields value_pointer \<longleftrightarrow>
     expected_event \<noteq> [] \<and> event_name (ne_event e) = Some expected_event
     \<and> narrative_record_matches ptr show_number (raw_event e) match_fields
     \<and> Option.bind (ptr (raw_event e) value_pointer) as_str \<noteq> None"

definition narrative_turns_correlate ::
  "pointer_lookup \<Rightarrow> (json_number \<Rightarrow> string) \<Rightarrow> normalized_event list \<Rightarrow> narrative_capture \<Rightarrow> string \<Rightarrow> bool" where
  "narrative_turns_correlate ptr show_number stream c actor \<longleftrightarrow>
     list_all (\<lambda>e. case Option.bind (ptr (raw_event e) (nc_turn_pointer c)) as_str of
         None \<Rightarrow> False | Some turn \<Rightarrow> turn = actor \<or> last_segment turn = actor)
       (filter (\<lambda>e. carries ptr show_number e (nc_assistant_text_event c) (nc_assistant_text_match_fields c) (nc_assistant_text_pointer c)
         \<or> carries ptr show_number e (nc_reasoning_event c) (nc_reasoning_match_fields c) (nc_reasoning_pointer c)) stream)"

definition narrative_ok ::
  "pointer_lookup \<Rightarrow> (json_number \<Rightarrow> string) \<Rightarrow> narrative_capture option \<Rightarrow> u32 \<Rightarrow> normalized_event list \<Rightarrow> normalized_event list \<Rightarrow> bool" where
  "narrative_ok ptr show_number narrative repetition success failure = (case narrative of None \<Rightarrow> False | Some c \<Rightarrow>
     nc_assistant_text_event c \<noteq> []
     \<and> assistant_text ptr show_number c success = Some [''I will write the event-stream fixture.'', ''SUCCESS'']
     \<and> assistant_text ptr show_number c failure = Some [''{\"status\":\"FAILURE\",\"category\":\"scripted\"}'']
     \<and> nc_reasoning_event c \<noteq> []
     \<and> reasoning ptr show_number c success = Some [''prepare the requested tool call'', ''verify the tool result and conclude'']
     \<and> reasoning ptr show_number c failure = Some [''report the scripted failure'']
     \<and> narrative_turns_correlate ptr show_number success c (row69_actor repetition True)
     \<and> narrative_turns_correlate ptr show_number failure c (row69_actor repetition False))"

section \<open>The other components\<close>

definition first_of :: "event_vocab \<Rightarrow> normalized_event list \<Rightarrow> (nat \<times> normalized_event) option" where
  "first_of v stream = find (\<lambda>(i, e). ne_event e = v) (enumerate 0 stream)"

definition count_of :: "event_vocab \<Rightarrow> normalized_event list \<Rightarrow> nat" where
  "count_of v stream = length (filter (\<lambda>e. ne_event e = v) stream)"

definition call_id_of :: "(nat \<times> normalized_event) option \<Rightarrow> string option" where
  "call_id_of found = Option.bind found (\<lambda>(i, e). Option.bind (json_get (ne_payload e) ''call_id'') as_str)"

definition tool_id_ok :: "normalized_event list \<Rightarrow> bool" where
  "tool_id_ok success = (case call_id_of (first_of ToolCall success) of None \<Rightarrow> False | Some i \<Rightarrow> i \<noteq> [])"

definition correlation_ok :: "normalized_event list \<Rightarrow> bool" where
  "correlation_ok success \<longleftrightarrow>
     (case (first_of ToolCall success, first_of ToolResult success) of (Some call, Some result) \<Rightarrow> fst call < fst result | _ \<Rightarrow> False)
     \<and> call_id_of (first_of ToolCall success) = call_id_of (first_of ToolResult success)
     \<and> count_of ToolResult success = 1"

definition terminal_ok :: "normalized_event list \<Rightarrow> normalized_event list \<Rightarrow> bool" where
  "terminal_ok success failure \<longleftrightarrow> count_of TerminalSuccess success = 1 \<and> count_of TerminalFailure failure = 1"

definition is_metadata_event :: "normalized_event \<Rightarrow> bool" where
  "is_metadata_event e \<longleftrightarrow> ne_event e \<in> {ToolCall, ToolResult, TerminalSuccess, TerminalFailure}"

definition ascending :: "u64 list \<Rightarrow> bool" where
  "ascending values \<longleftrightarrow> list_all (\<lambda>(a, b). a \<le> b) (zip values (tl values))"

definition stream_timestamps_ok :: "pointer_lookup \<Rightarrow> string \<Rightarrow> normalized_event list \<Rightarrow> bool" where
  "stream_timestamps_ok ptr pointer stream \<longleftrightarrow> stream \<noteq> []
     \<and> (case all_some (map (\<lambda>e. integer_at ptr (event_json e) pointer) stream) of None \<Rightarrow> False | Some values \<Rightarrow> ascending values)"

definition timestamp_ok :: "pointer_lookup \<Rightarrow> event_metadata option \<Rightarrow> normalized_event list \<Rightarrow> normalized_event list \<Rightarrow> bool" where
  "timestamp_ok ptr metadata success failure = (case metadata of None \<Rightarrow> False | Some m \<Rightarrow>
     emd_timestamp_pointer m \<noteq> []
     \<and> list_all (stream_timestamps_ok ptr (emd_timestamp_pointer m))
         [filter is_metadata_event success, filter is_metadata_event failure])"

definition usage_ok :: "pointer_lookup \<Rightarrow> event_metadata option \<Rightarrow> normalized_event list \<Rightarrow> bool" where
  "usage_ok ptr metadata success = (case metadata of None \<Rightarrow> False | Some m \<Rightarrow>
     list_ex (\<lambda>usage. usage = [240, 50, 290, 630, 1])
       (List.map_filter (\<lambda>e. usage_fields ptr (event_json e) m)
         (filter (\<lambda>e. event_name (ne_event e) = Some (emd_usage_event m)) success)))"

definition schema_ok ::
  "pointer_lookup \<Rightarrow> (string \<Rightarrow> json option) \<Rightarrow> event_metadata option \<Rightarrow> normalized_event list \<Rightarrow> bool" where
  "schema_ok ptr parse metadata metadata_events = (case metadata of None \<Rightarrow> False | Some m \<Rightarrow>
     emd_schema_version_pointer m \<noteq> []
     \<and> list_all (\<lambda>e. case ptr (event_json e) (emd_schema_version_pointer m) of
           None \<Rightarrow> False
         | Some v \<Rightarrow> as_str v = Some (emd_schema_version_value m) \<or> parse (emd_schema_version_value m) = Some v) metadata_events)"

section \<open>A repetition\<close>

definition component_names :: "string list" where
  "component_names = [''tool_call_id'', ''correlated_result'', ''timestamps'', ''usage'', ''terminal_typing'',
     ''schema_version'', ''narrative_reconstructability'']"

definition success_stream :: "normalized_event list \<Rightarrow> u32 \<Rightarrow> normalized_event list" where
  "success_stream events repetition = filter (\<lambda>e. actor_matches e (row69_actor repetition True)) events"

definition failure_stream :: "normalized_event list \<Rightarrow> u32 \<Rightarrow> normalized_event list" where
  "failure_stream events repetition = filter (\<lambda>e. actor_matches e (row69_actor repetition False)) events"

definition metadata_stream :: "normalized_event list \<Rightarrow> u32 \<Rightarrow> normalized_event list" where
  "metadata_stream events repetition =
     filter is_metadata_event (success_stream events repetition) @ filter is_metadata_event (failure_stream events repetition)"

definition repetition_components ::
  "pointer_lookup \<Rightarrow> (json_number \<Rightarrow> string) \<Rightarrow> (string \<Rightarrow> json option) \<Rightarrow> normalized_event list \<Rightarrow> event_metadata option
    \<Rightarrow> narrative_capture option \<Rightarrow> u32 \<Rightarrow> bool list" where
  "repetition_components ptr show_number parse events metadata narrative repetition =
     (let success = success_stream events repetition; failure = failure_stream events repetition
      in [tool_id_ok success, correlation_ok success, timestamp_ok ptr metadata success failure, usage_ok ptr metadata success,
          terminal_ok success failure, schema_ok ptr parse metadata (metadata_stream events repetition),
          narrative_ok ptr show_number narrative repetition success failure])"

definition receipt_bound :: "pointer_lookup \<Rightarrow> normalized_event list \<Rightarrow> string \<Rightarrow> bool \<Rightarrow> u64" where
  "receipt_bound ptr metadata_events pointer earliest =
     (case List.map_filter (\<lambda>e. integer_at ptr (ne_payload e) pointer) metadata_events of
        [] \<Rightarrow> 0 | v # values \<Rightarrow> foldl (if earliest then min else max) v values)"

definition component_failure :: "pointer_lookup \<Rightarrow> normalized_event list \<Rightarrow> u32 \<Rightarrow> string \<Rightarrow> json" where
  "component_failure ptr metadata_events repetition name = json_object
     [(''repetition'', json_u32 repetition), (''component'', JString name),
      (''detail'', JString (name @ '' component did not satisfy its declared event-stream contract'')),
      (''receipt_start_ns'', json_u64 (receipt_bound ptr metadata_events ''/_ahrb_receipt/receipt_start_ns'' True)),
      (''receipt_end_ns'', json_u64 (receipt_bound ptr metadata_events ''/_ahrb_receipt/receipt_end_ns'' False)),
      (''receipt_wall_start_ns'', json_u64 (receipt_bound ptr metadata_events ''/_ahrb_receipt/receipt_wall_start_ns'' True)),
      (''receipt_wall_end_ns'', json_u64 (receipt_bound ptr metadata_events ''/_ahrb_receipt/receipt_wall_end_ns'' False))]"

text \<open>A component holds for the run when it holds in every repetition; each miss is recorded.\<close>

definition stream_step ::
  "pointer_lookup \<Rightarrow> (json_number \<Rightarrow> string) \<Rightarrow> (string \<Rightarrow> json option) \<Rightarrow> normalized_event list \<Rightarrow> event_metadata option
    \<Rightarrow> narrative_capture option \<Rightarrow> bool list \<times> json list \<Rightarrow> u32 \<Rightarrow> bool list \<times> json list" where
  "stream_step ptr show_number parse events metadata narrative acc repetition =
     (case acc of (components, failures) \<Rightarrow>
      let oks = repetition_components ptr show_number parse events metadata narrative repetition
      in (map2 (\<and>) components oks,
          failures @ map (\<lambda>(name, ok). component_failure ptr (metadata_stream events repetition) repetition name)
            (filter (\<lambda>(name, ok). \<not> ok) (zip component_names oks))))"

definition stream_passes :: "bool list \<Rightarrow> bool" where
  "stream_passes components \<longleftrightarrow> 5 \<le> length (filter (\<lambda>ok. ok) components)
     \<and> components ! 0 \<and> components ! 1 \<and> components ! 4 \<and> components ! 6"

definition conclude_event_stream :: "narrative_capture option \<Rightarrow> bool list \<Rightarrow> json list \<Rightarrow> wave4_evaluation" where
  "conclude_event_stream narrative components failures =
     (let score = f_div (f_of_int (int (length (filter (\<lambda>ok. ok) components)))) (Fin 7);
          missing = map fst (filter (\<lambda>(name, ok). \<not> ok) (zip component_names components));
          declared = (\<lambda>event. case narrative of None \<Rightarrow> False | Some c \<Rightarrow> event c \<noteq> [])
      in \<lparr>w4_metrics = bt_of_list
            (map (\<lambda>(name, ok). (''event_stream_completeness.'' @ name, score_flag ok)) (zip component_names components)
             @ [(''event_stream_completeness.score'', score)]),
          w4_details = json_object
            [(''narrative_declaration'', json_object
               [(''assistant_text'', JBool (declared nc_assistant_text_event)), (''reasoning'', JBool (declared nc_reasoning_event))]),
             (''missing_components'', JArray (map JString missing)), (''component_failures'', JArray failures)],
          w4_measurement_complete = True, w4_measurement_error = None, w4_passed = stream_passes components\<rparr>)"

definition evaluate_event_stream_completeness ::
  "pointer_lookup \<Rightarrow> (json_number \<Rightarrow> string) \<Rightarrow> (string \<Rightarrow> json option) \<Rightarrow> normalized_event list \<Rightarrow> event_metadata option
    \<Rightarrow> narrative_capture option \<Rightarrow> u32 \<Rightarrow> wave4_evaluation" where
  "evaluate_event_stream_completeness ptr show_number parse events metadata narrative repetitions =
     (case foldl (stream_step ptr show_number parse events metadata narrative) (replicate 7 True, []) (ordinals repetitions) of
        (components, failures) \<Rightarrow> conclude_event_stream narrative components failures)"

end
