(* ===== verification/Fidelity.thy ===== *)
theory Fidelity
  imports Economy Economy_Properties
begin

text \<open>
  \<open>src/src/fidelity.rs\<close>: what of the planted structural tokens and of the tool results is still in the
  requests of a long run, and why the run ended.  The JSON serializer is a parameter.
\<close>

section \<open>Constants\<close>

definition fidelity_schema_version :: u32 where
  "fidelity_schema_version = 1"

definition fidelity_task_id :: string where
  "fidelity_task_id = ''ahrb-harness-fidelity-longhorizon-v1''"

definition measurement_label :: string where
  "measurement_label = ''fake-provider observation of byte presence in serialized harness requests; NOT model understanding, competence, or task success''"

definition needle_survival_label :: string where
  "needle_survival_label = ''task structural needles byte-present in the final measured primary request / complete task-planted set; undelivered needles count as absent''"

definition survival_curve_label :: string where
  "survival_curve_label = ''ordered fraction of the complete task-planted structural-needle set byte-present per primary request; undelivered needles count as absent''"

definition tool_result_retention_label :: string where
  "tool_result_retention_label = ''byte-identical canonical tool-result carriers present per primary request / unique carriers delivered through that request''"

definition end_reason_label :: string where
  "end_reason_label = ''script-orchestration end state from fake-provider requests, normalized terminals, task deadline, and adapter-declared cap evidence; NOT real-task success''"

definition workspace_state_label :: string where
  "workspace_state_label = ''pre-cleanup full-tree receipt of the isolated actor workspace; records scripted effects left behind, NOT model choice or task success''"

record needle_definition =
  nd_id :: string
  nd_token :: string

definition needle_definitions :: "needle_definition list" where
  "needle_definitions =
     [\<lparr>nd_id = ''exact-function-signature'',
       nd_token = ''fn apply_delta(input: &[u8], ordinal: u32) -> Result<EditDigest, FidelityError>''\<rparr>,
      \<lparr>nd_id = ''absolute-fixture-path'',
       nd_token = ''AHRB-FIDELITY-NEEDLE-ABSOLUTE-PATH /ahrb/fidelity/fixtures/ledger-v1.toml''\<rparr>,
      \<lparr>nd_id = ''applied-edit-digest'',
       nd_token = ''AHRB-FIDELITY-NEEDLE-DIGEST sha256:30533c9848ceb07a1a1d608e138ed5c3546da76efdf45ec4682d730f8bd124b6''\<rparr>,
      \<lparr>nd_id = ''ordinal-marker'', nd_token = ''AHRB-FIDELITY-NEEDLE-ORDINAL checkpoint-0004''\<rparr>]"

section \<open>Data\<close>

record needle_survival =
  ns_id :: string
  ns_token :: string
  ns_planted_turn :: "u64 option"
  ns_first_disappeared_turn :: "u64 option"
  ns_ever_reappeared :: bool

datatype fidelity_end_reason = ReachedScriptedTerminal | HarnessInternalCeiling | AhrbDeadline | Crashed

datatype harness_exit_status = HX_NotApplicable | HX_Running | HX_ExitCode | HX_SignalOrUnknown

datatype workspace_state = WS_Mutated | WS_Untouched

record fidelity_run_evidence =
  fv_deadline_reached :: bool
  fv_collection_failed :: bool
  fv_request_stream_stalled :: bool
  fv_harness_exit_status :: harness_exit_status
  fv_harness_exit_code :: "i32 option"
  fv_declared_turn_ceiling :: "u64 option"
  fv_internal_cap_exit_codes :: "i32 list"
  fv_workspace_state :: workspace_state
  fv_workspace_receipt_before_sha256 :: string
  fv_workspace_receipt_after_sha256 :: string

record fidelity_summary =
  fs_schema :: u32
  fs_task :: string
  fs_profile :: string
  fs_turn_budget :: u64
  fs_model_turns :: u64
  fs_measurement_label :: string
  fs_needles :: "needle_survival list"
  fs_needle_survival_fraction :: f64
  fs_needle_survival_fraction_label :: string
  fs_survival_curve :: "f64 list"
  fs_survival_curve_label :: string
  fs_first_loss_turn :: "u64 option"
  fs_retained_tool_result_fraction :: "f64 list"
  fs_retained_tool_result_fraction_label :: string
  fs_end_reason :: fidelity_end_reason
  fs_end_reason_label :: string
  fs_end_turn :: u64
  fs_harness_exit_status :: harness_exit_status
  fs_harness_exit_code :: "i32 option"
  fs_internal_cap_detected :: bool
  fs_declared_turn_ceiling :: "u64 option"
  fs_workspace_state :: workspace_state
  fs_workspace_state_label :: string
  fs_workspace_receipt_before_sha256 :: string
  fs_workspace_receipt_after_sha256 :: string

fun end_reason_name :: "fidelity_end_reason \<Rightarrow> string" where
  "end_reason_name ReachedScriptedTerminal = ''reached-scripted-terminal''"
| "end_reason_name HarnessInternalCeiling = ''harness-internal-ceiling''"
| "end_reason_name AhrbDeadline = ''ahrb-deadline''"
| "end_reason_name Crashed = ''crashed''"

fun harness_exit_status_name :: "harness_exit_status \<Rightarrow> string" where
  "harness_exit_status_name HX_NotApplicable = ''not-applicable''"
| "harness_exit_status_name HX_Running = ''running''"
| "harness_exit_status_name HX_ExitCode = ''exit-code''"
| "harness_exit_status_name HX_SignalOrUnknown = ''signal-or-unknown''"

fun workspace_state_name :: "workspace_state \<Rightarrow> string" where
  "workspace_state_name WS_Mutated = ''mutated''"
| "workspace_state_name WS_Untouched = ''untouched''"

section \<open>Tool-result carriers\<close>

definition contains_bytes :: "nat list \<Rightarrow> nat list \<Rightarrow> bool" where
  "contains_bytes haystack needle \<longleftrightarrow> needle \<noteq> []
     \<and> list_ex (\<lambda>i. take (length needle) (drop i haystack) = needle) [0..<length haystack + 1 - length needle]"

definition one_based_turn :: "nat \<Rightarrow> u64 option" where
  "one_based_turn index = (if index + 1 < 2 ^ 64 then Some (of_nat (index + 1)) else None)"

definition member_str_of :: "(string \<times> json) list \<Rightarrow> string \<Rightarrow> string option" where
  "member_str_of members field = Option.bind (bt_get members field) as_str"

definition is_carrier :: "(string \<times> json) list \<Rightarrow> bool" where
  "is_carrier members \<longleftrightarrow> member_str_of members ''role'' = Some ''tool''
     \<or> member_str_of members ''type'' = Some ''tool_result'' \<or> member_str_of members ''type'' = Some ''function_call_output''"

definition carrier_id :: "(string \<times> json) list \<Rightarrow> string option" where
  "carrier_id members = foldr (\<lambda>field found. or_else (member_str_of members field) found)
     [''tool_call_id'', ''tool_use_id'', ''call_id'', ''id''] None"

text \<open>The carriers in the order the walk inserts them; a carrier is not searched for further ones.\<close>

fun carrier_values :: "json \<Rightarrow> (string \<times> json) list" where
  "carrier_values (JArray items) = concat (map carrier_values items)"
| "carrier_values (JObject members) =
     (if is_carrier members
      then (case carrier_id members of None \<Rightarrow> [] | Some i \<Rightarrow> [(i, JObject members)])
      else concat (map (\<lambda>(_, child). carrier_values child) members))"
| "carrier_values _ = []"

definition insert_carrier :: "serializer \<Rightarrow> (string, nat list) btree \<Rightarrow> string \<times> json \<Rightarrow> ahrb_error + (string, nat list) btree" where
  "insert_carrier ser out c = and_then (to_vec ser (snd c)) (\<lambda>bytes. Inr (bt_insert (fst c) bytes out))"

definition tool_result_carriers :: "serializer \<Rightarrow> json \<Rightarrow> ahrb_error + (string, nat list) btree" where
  "tool_result_carriers ser v = fold_ok (insert_carrier ser) [] (carrier_values v)"

section \<open>Needles\<close>

fun position :: "('a \<Rightarrow> bool) \<Rightarrow> 'a list \<Rightarrow> nat option" where
  "position p [] = None"
| "position p (x # xs) = (if p x then Some 0 else map_option Suc (position p xs))"

definition planted_index :: "(string, nat list) btree list \<Rightarrow> string \<Rightarrow> nat option" where
  "planted_index carriers token =
     position (\<lambda>current. list_ex (\<lambda>c. contains_bytes (snd c) (utf8_bytes token)) current) carriers"

definition first_loss_index :: "bool list \<Rightarrow> nat \<Rightarrow> nat option" where
  "first_loss_index presence planted =
     map_option (\<lambda>k. planted + 1 + k) (position (\<lambda>present. \<not> present) (drop (planted + 1) presence))"

definition reappeared :: "bool list \<Rightarrow> nat \<Rightarrow> bool" where
  "reappeared presence loss = list_ex (\<lambda>present. present) (drop (loss + 1) presence)"

definition analyze_needle :: "(string, nat list) btree list \<Rightarrow> nat list list \<Rightarrow> needle_definition \<Rightarrow> needle_survival" where
  "analyze_needle carriers requests d =
     (let planted = planted_index carriers (nd_token d);
          presence = map (\<lambda>request. contains_bytes request (utf8_bytes (nd_token d))) requests;
          loss = Option.bind planted (first_loss_index presence)
      in \<lparr>ns_id = nd_id d, ns_token = nd_token d, ns_planted_turn = Option.bind planted one_based_turn,
          ns_first_disappeared_turn = Option.bind loss one_based_turn,
          ns_ever_reappeared = (case loss of None \<Rightarrow> False | Some l \<Rightarrow> reappeared presence l)\<rparr>)"

definition analyze_needles :: "serializer \<Rightarrow> model_request_record list \<Rightarrow> nat list list \<Rightarrow> ahrb_error + needle_survival list" where
  "analyze_needles ser records requests =
     and_then (collect_ok (\<lambda>r. tool_result_carriers ser (mr_canonical (rr_request r))) records) (\<lambda>carriers.
     Inr (map (analyze_needle carriers requests) needle_definitions))"

definition survives :: "nat list \<Rightarrow> u64 \<Rightarrow> needle_survival \<Rightarrow> bool" where
  "survives request turn needle \<longleftrightarrow>
     (case ns_planted_turn needle of None \<Rightarrow> False | Some planted \<Rightarrow> planted \<le> turn)
     \<and> contains_bytes request (utf8_bytes (ns_token needle))"

definition survival_at :: "needle_survival list \<Rightarrow> nat \<times> nat list \<Rightarrow> f64" where
  "survival_at needles x =
     (case one_based_turn (fst x) of
        None \<Rightarrow> Fin 0
      | Some turn \<Rightarrow> if needles = [] then Fin 0
          else f_div (f_of_int (int (length (filter (survives (snd x) turn) needles)))) (f_of_int (int (length needles))))"

definition needle_survival_curve :: "nat list list \<Rightarrow> needle_survival list \<Rightarrow> f64 list" where
  "needle_survival_curve requests needles = map (survival_at needles) (enumerate 0 requests)"

section \<open>Retention of tool results\<close>

definition deliver :: "(string, nat list) btree \<Rightarrow> (string, nat list) btree \<Rightarrow> (string, nat list) btree" where
  "deliver delivered current =
     foldl (\<lambda>d (i, bytes). case bt_get d i of None \<Rightarrow> bt_insert i bytes d | Some _ \<Rightarrow> d) delivered current"

definition retained_fraction :: "(string, nat list) btree \<Rightarrow> (string, nat list) btree \<Rightarrow> f64" where
  "retained_fraction delivered current =
     (if delivered = [] then Fin 1
      else f_div (f_of_int (int (length (filter (\<lambda>(i, bytes). bt_get current i = Some bytes) delivered))))
        (f_of_int (int (length delivered))))"

definition retention_step :: "serializer \<Rightarrow> (string, nat list) btree \<times> f64 list \<Rightarrow> model_request_record
    \<Rightarrow> ahrb_error + (string, nat list) btree \<times> f64 list" where
  "retention_step ser s r =
     and_then (tool_result_carriers ser (mr_canonical (rr_request r))) (\<lambda>current.
     let delivered = deliver (fst s) current in Inr (delivered, snd s @ [retained_fraction delivered current]))"

definition tool_result_retention_curve :: "serializer \<Rightarrow> model_request_record list \<Rightarrow> ahrb_error + f64 list" where
  "tool_result_retention_curve ser records = and_then (fold_ok (retention_step ser) ([], []) records) (\<lambda>s. Inr (snd s))"

section \<open>Why the run ended\<close>

definition reached_scripted_terminal :: "model_request_record list \<Rightarrow> bool" where
  "reached_scripted_terminal primary \<longleftrightarrow>
     list_ex (\<lambda>r. rr_accepted r \<and> mr_scenario (rr_request r) = fidelity_task_id \<and> mr_checkpoint (rr_request r) = ''terminal'') primary"

definition terminal_abort :: "normalized_event list \<Rightarrow> bool" where
  "terminal_abort events \<longleftrightarrow> list_ex (\<lambda>e. ne_event e \<in> {TerminalFailure, TerminalCancelled, TerminalTimeout}) events"

definition nonzero_exit :: "fidelity_run_evidence \<Rightarrow> bool" where
  "nonzero_exit ev \<longleftrightarrow> (case fv_harness_exit_code ev of None \<Rightarrow> False | Some code \<Rightarrow> code \<noteq> 0)"

definition cap_detected :: "bool \<Rightarrow> u64 \<Rightarrow> normalized_event list \<Rightarrow> fidelity_run_evidence \<Rightarrow> bool" where
  "cap_detected scripted turns events ev \<longleftrightarrow> \<not> scripted
     \<and> ((case fv_harness_exit_code ev of None \<Rightarrow> False | Some code \<Rightarrow> code \<in> set (fv_internal_cap_exit_codes ev))
       \<or> (case fv_declared_turn_ceiling ev of None \<Rightarrow> False | Some cap \<Rightarrow> cap \<le> turns)
         \<and> (terminal_abort events \<or> nonzero_exit ev \<or> fv_collection_failed ev \<or> fv_request_stream_stalled ev))"

definition end_reason_of :: "bool \<Rightarrow> u64 \<Rightarrow> normalized_event list \<Rightarrow> fidelity_run_evidence \<Rightarrow> fidelity_end_reason" where
  "end_reason_of scripted turns events ev =
     (if scripted \<and> list_ex (\<lambda>e. ne_event e = TerminalSuccess) events then ReachedScriptedTerminal
      else if cap_detected scripted turns events ev then HarnessInternalCeiling
      else if terminal_abort events \<or> nonzero_exit ev \<or> fv_collection_failed ev then Crashed
      else if fv_deadline_reached ev then AhrbDeadline else Crashed)"

section \<open>The analysis\<close>

definition minimum_of :: "u64 list \<Rightarrow> u64 option" where
  "minimum_of ns = (case ns of [] \<Rightarrow> None | n # ns \<Rightarrow> Some (foldl min n ns))"

definition fidelity_result :: "string \<Rightarrow> u64 \<Rightarrow> fidelity_run_evidence \<Rightarrow> normalized_event list \<Rightarrow> model_request_record list
    \<Rightarrow> needle_survival list \<Rightarrow> f64 list \<Rightarrow> f64 list \<Rightarrow> u64 \<Rightarrow> fidelity_summary" where
  "fidelity_result profile turn_budget ev events primary needles curve retained turns =
     (let scripted = reached_scripted_terminal primary
      in \<lparr>fs_schema = fidelity_schema_version, fs_task = fidelity_task_id, fs_profile = profile, fs_turn_budget = turn_budget,
          fs_model_turns = turns, fs_measurement_label = measurement_label, fs_needles = needles,
          fs_needle_survival_fraction = (if curve = [] then Fin 0 else last curve),
          fs_needle_survival_fraction_label = needle_survival_label, fs_survival_curve = curve,
          fs_survival_curve_label = survival_curve_label,
          fs_first_loss_turn = minimum_of (List.map_filter ns_first_disappeared_turn needles),
          fs_retained_tool_result_fraction = retained, fs_retained_tool_result_fraction_label = tool_result_retention_label,
          fs_end_reason = end_reason_of scripted turns events ev, fs_end_reason_label = end_reason_label, fs_end_turn = turns,
          fs_harness_exit_status = fv_harness_exit_status ev, fs_harness_exit_code = fv_harness_exit_code ev,
          fs_internal_cap_detected = cap_detected scripted turns events ev, fs_declared_turn_ceiling = fv_declared_turn_ceiling ev,
          fs_workspace_state = fv_workspace_state ev, fs_workspace_state_label = workspace_state_label,
          fs_workspace_receipt_before_sha256 = fv_workspace_receipt_before_sha256 ev,
          fs_workspace_receipt_after_sha256 = fv_workspace_receipt_after_sha256 ev\<rparr>)"

definition fidelity_primary :: "model_request_record list \<Rightarrow> model_request_record list" where
  "fidelity_primary records = sort_key request_order (filter (\<lambda>r. rr_role r = ''primary'') records)"

definition analyze_fidelity :: "serializer \<Rightarrow> model_request_record list \<Rightarrow> normalized_event list \<Rightarrow> string \<Rightarrow> u64
    \<Rightarrow> fidelity_run_evidence \<Rightarrow> ahrb_error + fidelity_summary" where
  "analyze_fidelity ser records events profile turn_budget ev =
     (let primary = fidelity_primary records in
      and_then (collect_ok (\<lambda>r. to_vec ser (mr_canonical (rr_request r))) primary) (\<lambda>requests.
      and_then (analyze_needles ser primary requests) (\<lambda>needles.
      and_then (tool_result_retention_curve ser primary) (\<lambda>retained.
      if length primary < 2 ^ 64
      then Inr (fidelity_result profile turn_budget ev events primary needles (needle_survival_curve requests needles) retained
        (of_nat (length primary)))
      else Inl (Protocol ''fidelity primary-request count does not fit u64'')))))"

section \<open>Properties\<close>

text \<open>What the fidelity analysis says of the planted tokens, and the bounds of its curves.\<close>

section \<open>Positions\<close>

lemma first_index_None: "position p xs = None \<longleftrightarrow> (\<forall>x \<in> set xs. \<not> p x)"
  by (induction xs) auto

lemma first_index_Some: "position p xs = Some i \<longleftrightarrow> i < length xs \<and> p (xs ! i) \<and> (\<forall>j < i. \<not> p (xs ! j))"
proof (induction xs arbitrary: i)
  case (Cons x xs)
  then show ?case by (cases i) (auto simp: less_Suc_eq_0_disj)
qed simp

lemma one_based_turn_Some: "one_based_turn i = Some t \<Longrightarrow> unat t = i + 1"
  unfolding one_based_turn_def
  by (auto simp: unat_of_nat take_bit_nat_eq_self simp del: of_nat_Suc of_nat_add split: if_splits)

lemma one_based_turn_total: "i + 1 < 2 ^ 64 \<Longrightarrow> \<exists>t. one_based_turn i = Some t \<and> unat t = i + 1"
  using one_based_turn_Some by (auto simp: one_based_turn_def)

lemma in_set_drop: "x \<in> set (drop n xs) \<longleftrightarrow> (\<exists>i \<in> {n..<length xs}. xs ! i = x)"
proof
  assume "x \<in> set (drop n xs)"
  then obtain i where "i < length xs - n" "x = xs ! (n + i)" by (auto simp: in_set_conv_nth)
  then show "\<exists>i \<in> {n..<length xs}. xs ! i = x" by (intro bexI [of _ "n + i"]) auto
next
  assume "\<exists>i \<in> {n..<length xs}. xs ! i = x"
  then obtain i where i: "n \<le> i" "i < length xs" "x = xs ! i" by auto
  then have "drop n xs ! (i - n) = x" "i - n < length (drop n xs)" by auto
  then show "x \<in> set (drop n xs)" by (metis nth_mem)
qed

section \<open>Timelines\<close>

definition present :: "nat list list \<Rightarrow> string \<Rightarrow> nat \<Rightarrow> bool" where
  "present requests token t \<longleftrightarrow> contains_bytes (requests ! (t - 1)) (utf8_bytes token)"

definition delivered_at :: "(string, nat list) btree list \<Rightarrow> string \<Rightarrow> nat \<Rightarrow> bool" where
  "delivered_at carriers token t \<longleftrightarrow> list_ex (\<lambda>c. contains_bytes (snd c) (utf8_bytes token)) (carriers ! (t - 1))"

text \<open>The turns of a token, from 1: the first delivery, the first later request without it, a request that has it again.\<close>

definition timeline :: "(string, nat list) btree list \<Rightarrow> nat list list \<Rightarrow> needle_survival \<Rightarrow> bool" where
  "timeline carriers requests s \<longleftrightarrow>
     (case ns_planted_turn s of
        None \<Rightarrow> list_all (\<lambda>t. \<not> delivered_at carriers (ns_token s) t) [1..<length carriers + 1]
          \<and> ns_first_disappeared_turn s = None \<and> \<not> ns_ever_reappeared s
      | Some p \<Rightarrow> unat p \<in> {1..length carriers} \<and> delivered_at carriers (ns_token s) (unat p)
          \<and> list_all (\<lambda>t. \<not> delivered_at carriers (ns_token s) t) [1..<unat p]
          \<and> (case ns_first_disappeared_turn s of
               None \<Rightarrow> list_all (present requests (ns_token s)) [unat p + 1..<length requests + 1] \<and> \<not> ns_ever_reappeared s
             | Some d \<Rightarrow> unat d \<in> {unat p + 1..length requests} \<and> \<not> present requests (ns_token s) (unat d)
                 \<and> list_all (present requests (ns_token s)) [unat p + 1..<unat d]
                 \<and> ns_ever_reappeared s = list_ex (present requests (ns_token s)) [unat d + 1..<length requests + 1]))"

lemma first_loss_Some:
  assumes "first_loss_index presence p = Some d"
  shows "p < d \<and> d < length presence \<and> \<not> presence ! d \<and> (\<forall>i \<in> {p + 1..<d}. presence ! i)"
proof -
  obtain k where k: "d = p + 1 + k" "k < length presence - (p + 1)" "\<not> presence ! (p + 1 + k)"
    and earlier: "\<forall>j < k. presence ! (p + 1 + j)"
    using assms by (auto simp: first_loss_index_def first_index_Some)
  have "presence ! i" if "i \<in> {p + 1..<d}" for i
    using earlier [rule_format, of "i - (p + 1)"] that k(1) by auto
  then show ?thesis using k by auto
qed

lemma first_loss_None:
  assumes "first_loss_index presence p = None"
  shows "\<forall>i \<in> {p + 1..<length presence}. presence ! i"
proof
  fix i assume "i \<in> {p + 1..<length presence}"
  then have "presence ! i \<in> set (drop (p + 1) presence)" unfolding in_set_drop by blast
  then show "presence ! i" using assms by (auto simp: first_loss_index_def first_index_None)
qed

lemma reappeared_iff: "reappeared presence d \<longleftrightarrow> (\<exists>i \<in> {d + 1..<length presence}. presence ! i)"
proof -
  have "reappeared presence d \<longleftrightarrow> True \<in> set (drop (d + 1) presence)" by (auto simp: reappeared_def list_ex_iff)
  then show ?thesis unfolding in_set_drop by simp
qed

text \<open>Turns count from 1, indices from 0.\<close>

lemma all_turns: "list_all P [Suc a..<Suc b] \<longleftrightarrow> (\<forall>i \<in> {a..<b}. P (Suc i))"
  by (simp add: list_all_iff image_Suc_atLeastLessThan [symmetric] del: upt_Suc image_Suc_atLeastLessThan)

lemma ex_turns: "list_ex P [Suc a..<Suc b] \<longleftrightarrow> (\<exists>i \<in> {a..<b}. P (Suc i))"
  by (simp add: list_ex_iff image_Suc_atLeastLessThan [symmetric] del: upt_Suc image_Suc_atLeastLessThan)

lemma analyze_needle_timeline:
  assumes "length requests < 2 ^ 64" and "length carriers = length requests"
  shows "timeline carriers requests (analyze_needle carriers requests d)"
proof -
  let ?token = "nd_token d"
  let ?presence = "map (\<lambda>request. contains_bytes request (utf8_bytes ?token)) requests"
  let ?n = "analyze_needle carriers requests d"
  have has: "present requests ?token (Suc i) = ?presence ! i" if "i < length requests" for i
    using that by (simp add: present_def)
  have gets: "delivered_at carriers ?token (Suc i) = list_ex (\<lambda>c. contains_bytes (snd c) (utf8_bytes ?token)) (carriers ! i)" for i
    by (simp add: delivered_at_def)
  show ?thesis
  proof (cases "planted_index carriers ?token")
    case None
    then have "\<forall>i \<in> {0..<length carriers}. \<not> delivered_at carriers ?token (Suc i)"
      by (auto simp: planted_index_def first_index_None gets)
    then show ?thesis using None by (simp add: timeline_def analyze_needle_def Let_def all_turns del: upt_Suc)
  next
    case (Some p)
    then have p: "p < length carriers" "delivered_at carriers ?token (Suc p)" "\<forall>i \<in> {0..<p}. \<not> delivered_at carriers ?token (Suc i)"
      by (auto simp: planted_index_def first_index_Some gets)
    obtain t where t: "one_based_turn p = Some t" "unat t = p + 1"
      using one_based_turn_total [of p] p(1) assms by auto
    show ?thesis
    proof (cases "first_loss_index ?presence p")
      case None
      have "\<forall>i \<in> {p + 1..<length requests}. present requests ?token (Suc i)"
        using first_loss_None [OF None] has by auto
      then show ?thesis using Some None p t by (simp add: timeline_def analyze_needle_def Let_def all_turns Suc_le_eq del: upt_Suc)
    next
      case (Some l)
      note l = first_loss_Some [OF this]
      obtain u where u: "one_based_turn l = Some u" "unat u = l + 1"
        using one_based_turn_total [of l] l assms by auto
      have "\<not> present requests ?token (Suc l)" "\<forall>i \<in> {p + 1..<l}. present requests ?token (Suc i)"
        "reappeared ?presence l \<longleftrightarrow> (\<exists>i \<in> {l + 1..<length requests}. present requests ?token (Suc i))"
        using l has by (auto simp: reappeared_iff)
      then show ?thesis
        using \<open>planted_index carriers ?token = Some p\<close> Some p t u l
        by (simp add: timeline_def analyze_needle_def Let_def all_turns ex_turns Suc_le_eq del: upt_Suc)
    qed
  qed
qed

lemma analyze_fidelity_Inr:
  assumes "analyze_fidelity ser records events profile turn_budget ev = Inr s"
  obtains requests carriers retained where
    "collect_ok (\<lambda>r. to_vec ser (mr_canonical (rr_request r))) (fidelity_primary records) = Inr requests"
    "collect_ok (\<lambda>r. tool_result_carriers ser (mr_canonical (rr_request r))) (fidelity_primary records) = Inr carriers"
    "tool_result_retention_curve ser (fidelity_primary records) = Inr retained" "length (fidelity_primary records) < 2 ^ 64"
    "s = fidelity_result profile turn_budget ev events (fidelity_primary records)
       (map (analyze_needle carriers requests) needle_definitions)
       (needle_survival_curve requests (map (analyze_needle carriers requests) needle_definitions)) retained
       (of_nat (length (fidelity_primary records)))"
  using assms that
  by (auto simp: analyze_fidelity_def analyze_needles_def Let_def and_then_Inr_iff split: if_splits)

lemma collect_ok_length: "collect_ok f xs = Inr ys \<Longrightarrow> length ys = length xs"
  by (auto simp: collect_ok_Inr_iff dest: list_all2_lengthD)

section \<open>The claims\<close>

text \<open>C24: the summary of a successful analysis has one entry per planted token, and each entry is the
  timeline of its token: it is planted at the first primary request that carries it in a tool result, lost
  at the first later request whose bytes do not contain it, and reappeared exactly when a request after
  that loss contains it again.\<close>

theorem needle_timelines_exact:
  assumes "analyze_fidelity ser records events profile turn_budget ev = Inr s"
  shows "\<exists>requests carriers. collect_ok (\<lambda>r. to_vec ser (mr_canonical (rr_request r))) (fidelity_primary records) = Inr requests
    \<and> collect_ok (\<lambda>r. tool_result_carriers ser (mr_canonical (rr_request r))) (fidelity_primary records) = Inr carriers
    \<and> map ns_token (fs_needles s) = map nd_token needle_definitions \<and> list_all (timeline carriers requests) (fs_needles s)"
proof -
  obtain requests carriers retained
    where r: "collect_ok (\<lambda>r. to_vec ser (mr_canonical (rr_request r))) (fidelity_primary records) = Inr requests"
      and c: "collect_ok (\<lambda>r. tool_result_carriers ser (mr_canonical (rr_request r))) (fidelity_primary records) = Inr carriers"
      and fits: "length (fidelity_primary records) < 2 ^ 64"
      and s: "s = fidelity_result profile turn_budget ev events (fidelity_primary records)
        (map (analyze_needle carriers requests) needle_definitions)
        (needle_survival_curve requests (map (analyze_needle carriers requests) needle_definitions)) retained
        (of_nat (length (fidelity_primary records)))"
    using assms by (rule analyze_fidelity_Inr)
  have needles: "fs_needles s = map (analyze_needle carriers requests) needle_definitions"
    using s by (simp add: fidelity_result_def Let_def)
  have "ns_token (analyze_needle carriers requests d) = nd_token d" for d by (simp add: analyze_needle_def Let_def)
  moreover have "timeline carriers requests (analyze_needle carriers requests d)" for d
    using fits collect_ok_length [OF r] collect_ok_length [OF c] by (intro analyze_needle_timeline) simp_all
  ultimately show ?thesis using r c needles by (simp add: list_all_iff o_def)
qed

fun fidelity_witness_ser :: serializer where
  "fidelity_witness_ser v = (case Option.bind (json_get v ''content'') as_str of Some s \<Rightarrow> Inr (utf8_bytes s) | None \<Rightarrow> Inr [])"

definition fidelity_witness_record :: "u64 \<Rightarrow> (string \<times> json) list \<Rightarrow> model_request_record" where
  "fidelity_witness_record n members =
     \<lparr>rr_request = \<lparr>mr_dialect = [], mr_endpoint = [], mr_model = [], mr_scenario = [], mr_actor = [], mr_checkpoint = [],
        mr_canonical = JObject members, mr_credential_fingerprint = [], mr_stream = False\<rparr>,
      rr_canonical_hash = [], rr_attempts = 1, rr_accepted = True, rr_semantic_ordinal = n, rr_attempt = 1, rr_received_ns = n,
      rr_body_bytes = 0, rr_input_tokens = None, rr_role = ''primary'', rr_side_channel_kind = None, rr_response_status = None,
      rr_response_headers_ns = None, rr_response_first_frame_yield_ns = None, rr_response_last_frame_yield_ns = None,
      rr_semantic_attempts_total = 1\<rparr>"

definition fidelity_witness_result :: model_request_record where
  "fidelity_witness_result = fidelity_witness_record 1
     [(''content'', JString ''AHRB-FIDELITY-NEEDLE-ORDINAL checkpoint-0004''), (''role'', JString ''tool''), (''tool_call_id'', JString ''c'')]"

definition fidelity_witness_later :: model_request_record where
  "fidelity_witness_later = fidelity_witness_record 2 [(''content'', JString ''later'')]"

definition fidelity_witness_evidence :: fidelity_run_evidence where
  "fidelity_witness_evidence =
     \<lparr>fv_deadline_reached = True, fv_collection_failed = False, fv_request_stream_stalled = False,
      fv_harness_exit_status = HX_Running, fv_harness_exit_code = None, fv_declared_turn_ceiling = None,
      fv_internal_cap_exit_codes = [], fv_workspace_state = WS_Untouched, fv_workspace_receipt_before_sha256 = [],
      fv_workspace_receipt_after_sha256 = []\<rparr>"

lemma fidelity_witness_primary:
  "fidelity_primary [fidelity_witness_later, fidelity_witness_result] = [fidelity_witness_result, fidelity_witness_later]"
  by (simp add: fidelity_primary_def fidelity_witness_result_def fidelity_witness_later_def fidelity_witness_record_def
      request_order_def less_eq_prod_def word_le_nat_alt)

lemma fidelity_witness_reads:
  "\<exists>bytes. to_vec fidelity_witness_ser (mr_canonical (rr_request fidelity_witness_result)) = Inr bytes"
  "\<exists>bytes. to_vec fidelity_witness_ser (mr_canonical (rr_request fidelity_witness_later)) = Inr bytes"
  "\<exists>out. tool_result_carriers fidelity_witness_ser (mr_canonical (rr_request fidelity_witness_result)) = Inr out"
  "\<exists>out. tool_result_carriers fidelity_witness_ser (mr_canonical (rr_request fidelity_witness_later)) = Inr out"
  by (simp_all add: fidelity_witness_result_def fidelity_witness_later_def fidelity_witness_record_def to_vec_def
      tool_result_carriers_def insert_carrier_def is_carrier_def carrier_id_def member_str_of_def)

lemma fidelity_witness_Inr:
  "\<exists>s. analyze_fidelity fidelity_witness_ser [fidelity_witness_later, fidelity_witness_result] [] ''quick'' 2 fidelity_witness_evidence = Inr s"
  using fidelity_witness_reads
  by (auto simp: analyze_fidelity_def Let_def fidelity_witness_primary analyze_needles_def tool_result_retention_curve_def
      retention_step_def)

theorem needle_timelines_exact_witness:
  "\<exists>s requests carriers. analyze_fidelity fidelity_witness_ser [fidelity_witness_later, fidelity_witness_result] [] ''quick'' 2
      fidelity_witness_evidence = Inr s
    \<and> length requests = 2 \<and> list_all (timeline carriers requests) (fs_needles s)"
proof -
  obtain s where s: "analyze_fidelity fidelity_witness_ser [fidelity_witness_later, fidelity_witness_result] [] ''quick'' 2
      fidelity_witness_evidence = Inr s"
    using fidelity_witness_Inr by blast
  have "length (fidelity_primary [fidelity_witness_later, fidelity_witness_result]) = 2" by (simp add: fidelity_witness_primary)
  then show ?thesis using s needle_timelines_exact [OF s] collect_ok_length by metis
qed

end
