(* ===== verification/Durability.thy ===== *)
theory Durability
  imports Json_Values Wave_Statistics "HOL-Library.Product_Lexorder" "HOL-Library.Option_ord"
begin

text \<open>
  \<open>src/src/storage/durability.rs\<close>: reading the trace of the interposed synchronization calls, the known-call
  control of every image, the match of spawned processes to images, and the summary of a trial.  Parameters:
  the JSON parser of one record, the UTF-8 decoder and the digest of an executable; the directory of a trace
  is the list of its files in the order of their paths.  The launch of the probe is left out.
\<close>

section \<open>Data\<close>

datatype primitive = Fsync | Fdatasync | Fullfsync

record raw_record =
  rw_sequence :: u64
  rw_pid :: u32
  rw_start_time :: u64
  rw_kind :: string
  rw_primitive :: "primitive option"
  rw_enter_ns :: "u64 option"
  rw_exit_ns :: "u64 option"
  rw_return_code :: "i64 option"
  rw_errno :: "i64 option"
  rw_self_test :: "bool option"
  rw_failures :: "u64 option"
  rw_fdatasync_available :: "bool option"
  rw_drop_count :: "u64 option"
  rw_child_pid :: "u32 option"
  rw_reason :: "string option"
  rw_version :: "string option"

record image_receipt =
  ir_pid :: u32
  ir_start_time :: u64
  ir_executable_sha256 :: string
  ir_load_verified :: bool
  ir_self_test_verified :: bool
  ir_exit_seen :: bool

record fsync_event =
  fy_repetition :: u32
  fy_turn :: u32
  fy_pid :: u32
  fy_start_time :: u64
  fy_sequence :: u64
  fy_primitive :: primitive
  fy_enter_ns :: u64
  fy_exit_ns :: u64
  fy_return_code :: i64
  fy_errno :: i64
  fy_backend :: string
  fy_self_test :: bool

record capture =
  cp_images :: "image_receipt list"
  cp_events :: "fsync_event list"
  cp_gaps :: "string list"
  cp_spawned :: "(u32 \<times> u64) list"

definition durability_backend :: string where
  "durability_backend = ''darwin-arm64-interpose''"

definition durability_version :: string where
  "durability_version = ''darwin-arm64-interpose-v1''"

definition ebadf :: i64 where
  "ebadf = 9"

definition trace_invalid :: "string \<Rightarrow> ahrb_error" where
  "trace_invalid reason = Protocol (''durability trace loss: '' @ reason)"

section \<open>The known-call control\<close>

definition control_count :: "fsync_event list \<Rightarrow> primitive \<Rightarrow> bool \<Rightarrow> nat" where
  "control_count events p success = length (filter (\<lambda>e. fy_primitive e = p \<and> (fy_return_code e = 0) = success) events)"

definition control_exact :: "fsync_event list \<Rightarrow> bool \<Rightarrow> bool" where
  "control_exact events data \<longleftrightarrow> length events = (if data then 11 else 9)
     \<and> control_count events Fdatasync True = of_bool data \<and> control_count events Fdatasync False = of_bool data
     \<and> control_count events Fsync True = 3 \<and> control_count events Fsync False = 2
     \<and> control_count events Fullfsync True = 2 \<and> control_count events Fullfsync False = 2
     \<and> \<not> list_ex (\<lambda>e. fy_return_code e = - 1 \<and> fy_errno e \<noteq> ebadf) events"

definition verify_control :: "fsync_event list \<Rightarrow> bool \<Rightarrow> ahrb_error + unit" where
  "verify_control events data = (if control_exact events data then Inr ()
     else Inl (trace_invalid ''independent control expected fsync=3+2 failed, fullfsync=2+2 failed (including NOCANCEL entry points), fdatasync=1+1 failed iff exported''))"

section \<open>The records of one image\<close>

text \<open>What the loop over the records of a file reads and writes; the applicability set and the capture
  outlive the file.\<close>

record image_state =
  im_ended :: bool
  im_exec :: bool
  im_control :: bool
  im_calls :: "fsync_event list"
  im_events :: "fsync_event list"
  im_gaps :: "string list"
  im_spawned :: "(u32 \<times> u64) list"
  im_data :: "bool option list"

definition required :: "'a option \<Rightarrow> string \<Rightarrow> ahrb_error + 'a" where
  "required x reason = ok_or x (trace_invalid reason)"

definition completion_valid :: "fsync_event \<Rightarrow> bool" where
  "completion_valid e \<longleftrightarrow> fy_enter_ns e \<noteq> 0 \<and> fy_enter_ns e \<le> fy_exit_ns e \<and> fy_return_code e \<in> {- 1, 0}
     \<and> \<not> (fy_return_code e = 0 \<and> fy_errno e \<noteq> 0)"

definition event_of :: "u32 \<Rightarrow> u64 \<Rightarrow> raw_record \<Rightarrow> ahrb_error + fsync_event" where
  "event_of repetition offset r =
     and_then (required (rw_primitive r) ''missing primitive'') (\<lambda>p.
     and_then (required (rw_enter_ns r) ''missing entry'') (\<lambda>enter.
     and_then (required (rw_exit_ns r) ''missing exit'') (\<lambda>exit.
     and_then (required (rw_return_code r) ''missing return'') (\<lambda>code.
     and_then (required (rw_errno r) ''missing errno'') (\<lambda>errno.
     and_then (required (rw_self_test r) ''missing self-test flag'') (\<lambda>self_test.
     Inr \<lparr>fy_repetition = repetition, fy_turn = 0, fy_pid = rw_pid r, fy_start_time = rw_start_time r,
       fy_sequence = offset + rw_sequence r, fy_primitive = p, fy_enter_ns = enter, fy_exit_ns = exit,
       fy_return_code = code, fy_errno = errno, fy_backend = durability_backend, fy_self_test = self_test\<rparr>))))))"

definition on_call :: "u32 \<Rightarrow> u64 \<Rightarrow> raw_record \<Rightarrow> image_state \<Rightarrow> ahrb_error + image_state" where
  "on_call repetition offset r s =
     (if rw_self_test r = Some (im_control s) then Inl (trace_invalid ''call/control phase mismatch'')
      else and_then (event_of repetition offset r) (\<lambda>e.
        if \<not> completion_valid e then Inl (trace_invalid ''invalid completion'')
        else Inr (s\<lparr>im_calls := (if fy_self_test e then im_calls s @ [e] else im_calls s), im_events := im_events s @ [e]\<rparr>)))"

definition on_control :: "raw_record \<Rightarrow> image_state \<Rightarrow> ahrb_error + image_state" where
  "on_control r s =
     (if im_control s \<or> rw_failures r \<noteq> Some 0 then Inl (trace_invalid ''known-call control failed'')
      else and_then (required (rw_fdatasync_available r) ''missing fdatasync applicability control'') (\<lambda>data.
        and_then (verify_control (im_calls s) data) (\<lambda>_.
        let seen = bs_insert (rw_fdatasync_available r) (im_data s) in
        if 1 < length seen then Inl (trace_invalid ''primitive applicability differs across owned images'')
        else Inr (s\<lparr>im_data := seen, im_control := True\<rparr>))))"

definition on_spawn :: "raw_record \<Rightarrow> image_state \<Rightarrow> ahrb_error + image_state" where
  "on_spawn r s =
     and_then (required (rw_child_pid r) ''missing spawned PID'') (\<lambda>pid.
     and_then (required (rw_enter_ns r) ''missing spawn entry'') (\<lambda>enter.
     if pid = 0 \<or> enter = 0 \<or> (case rw_exit_ns r of None \<Rightarrow> True | Some exit \<Rightarrow> exit < enter)
     then Inl (trace_invalid ''invalid spawn identity or interval'')
     else Inr (s\<lparr>im_spawned := im_spawned s @ [(pid, enter)]\<rparr>)))"

definition on_record :: "u32 \<Rightarrow> u64 \<Rightarrow> nat \<Rightarrow> raw_record \<Rightarrow> image_state \<Rightarrow> ahrb_error + image_state" where
  "on_record repetition offset i r s =
     (if rw_kind r = ''load'' \<and> i = 0 then Inr s
      else if rw_kind r = ''call'' then on_call repetition offset r s
      else if rw_kind r = ''control'' then on_control r s
      else if rw_kind r = ''end'' then
        (if rw_drop_count r \<noteq> Some 0 then Inl (trace_invalid ''nonzero or missing drop counter'') else Inr (s\<lparr>im_ended := True\<rparr>))
      else if rw_kind r = ''exec'' then Inr (s\<lparr>im_exec := True\<rparr>)
      else if rw_kind r = ''exec-failed'' \<and> im_exec s then Inr (s\<lparr>im_exec := False\<rparr>)
      else if rw_kind r = ''spawn'' then on_spawn r s
      else if rw_kind r = ''coverage-gap'' then
        and_then (required (rw_reason r) ''missing gap reason'') (\<lambda>reason. Inr (s\<lparr>im_gaps := im_gaps s @ [reason]\<rparr>))
      else Inl (trace_invalid ''unexpected record''))"

definition identity_of :: "raw_record \<Rightarrow> u32 \<times> u64" where
  "identity_of r = (rw_pid r, rw_start_time r)"

definition record_step :: "u32 \<Rightarrow> u64 \<Rightarrow> u32 \<times> u64 \<Rightarrow> image_state \<Rightarrow> nat \<times> raw_record \<Rightarrow> ahrb_error + image_state" where
  "record_step repetition offset who s x =
     (case x of (i, r) \<Rightarrow>
      if rw_sequence r \<noteq> of_nat i + 1 \<or> identity_of r \<noteq> who \<or> im_ended s
      then Inl (trace_invalid ''sequence/identity discontinuity or records after end'')
      else on_record repetition offset i r s)"

section \<open>The files of a trace\<close>

record trace_file =
  tf_path :: string
  tf_bytes :: "io_error + nat list"
  tf_image :: "io_error + nat list"

record trace_env =
  te_parse :: "nat list \<Rightarrow> string + raw_record"
  te_utf8 :: "nat list \<Rightarrow> string option"
  te_digest :: "string \<Rightarrow> ahrb_error + string"

record trace_state =
  tr_capture :: capture
  tr_unfinished :: "(u32 \<times> u64 \<times> bool \<times> u64) list"
  tr_offsets :: "(u32 \<times> u64, u64) btree"
  tr_data :: "bool option list"
  tr_controls :: "(u32 \<times> u64, u64) btree"

definition trace_start :: trace_state where
  "trace_start = \<lparr>tr_capture = \<lparr>cp_images = [], cp_events = [], cp_gaps = [], cp_spawned = []\<rparr>, tr_unfinished = [],
     tr_offsets = [], tr_data = [], tr_controls = []\<rparr>"

fun byte_lines :: "nat list \<Rightarrow> nat list \<Rightarrow> nat list list" where
  "byte_lines line [] = [line]"
| "byte_lines line (b # bytes) = (if b = 10 then line # byte_lines [] bytes else byte_lines (line @ [b]) bytes)"

definition io_ok :: "io_error + 'a \<Rightarrow> ahrb_error + 'a" where
  "io_ok r = (case r of Inl e \<Rightarrow> Inl (Io e) | Inr x \<Rightarrow> Inr x)"

definition parse_records :: "trace_env \<Rightarrow> string \<Rightarrow> nat list \<Rightarrow> ahrb_error + raw_record list" where
  "parse_records E path bytes =
     (if bytes = [] \<or> last bytes \<noteq> 10 then Inl (trace_invalid ''empty or truncated image stream'')
      else case collect_ok (te_parse E) (filter (\<lambda>l. l \<noteq> []) (byte_lines [] bytes)) of
        Inl e \<Rightarrow> Inl (trace_invalid (path @ '': '' @ e))
      | Inr [] \<Rightarrow> Inl (trace_invalid ''empty or truncated image stream'')
      | Inr records \<Rightarrow> Inr records)"

definition load_valid :: "raw_record \<Rightarrow> bool" where
  "load_valid r \<longleftrightarrow> rw_kind r = ''load'' \<and> rw_sequence r = 1 \<and> rw_version r = Some durability_version \<and> rw_pid r \<noteq> 0
     \<and> rw_start_time r \<noteq> 0"

definition offset_of :: "trace_state \<Rightarrow> u32 \<times> u64 \<Rightarrow> u64" where
  "offset_of t who = (case bt_get (tr_offsets t) who of None \<Rightarrow> 0 | Some n \<Rightarrow> n)"

definition image_start :: "trace_state \<Rightarrow> image_state" where
  "image_start t = \<lparr>im_ended = False, im_exec = False, im_control = False, im_calls = [], im_events = cp_events (tr_capture t),
     im_gaps = cp_gaps (tr_capture t), im_spawned = cp_spawned (tr_capture t), im_data = tr_data t\<rparr>"

text \<open>\<open>min().unwrap()\<close> of the entries and \<open>max().unwrap_or(0)\<close> of the exits.\<close>

definition first_control :: "fsync_event list \<Rightarrow> u64" where
  "first_control calls = foldl min (fy_enter_ns (hd calls)) (map fy_enter_ns (tl calls))"

definition control_end :: "fsync_event list \<Rightarrow> u64" where
  "control_end calls = foldl max 0 (map fy_exit_ns calls)"

definition note_control :: "u32 \<times> u64 \<Rightarrow> u64 \<Rightarrow> (u32 \<times> u64, u64) btree \<Rightarrow> (u32 \<times> u64, u64) btree" where
  "note_control who ns controls =
     bt_insert who (case bt_get controls who of None \<Rightarrow> ns | Some entry \<Rightarrow> min entry ns) controls"

definition close_image :: "trace_env \<Rightarrow> bool \<Rightarrow> trace_file \<Rightarrow> u32 \<times> u64 \<Rightarrow> nat \<Rightarrow> trace_state \<Rightarrow> image_state \<Rightarrow> ahrb_error + trace_state" where
  "close_image E full file who count t s =
     (if \<not> im_control s then Inl (trace_invalid ''missing known-call control'')
      else and_then (io_ok (tf_image file)) (\<lambda>bytes.
        and_then (required (te_utf8 E bytes) ''non-UTF8 executable path'') (\<lambda>image.
        and_then (te_digest E image) (\<lambda>sha.
        Inr \<lparr>tr_capture = \<lparr>cp_images = cp_images (tr_capture t) @ [\<lparr>ir_pid = fst who, ir_start_time = snd who,
                 ir_executable_sha256 = sha, ir_load_verified = True, ir_self_test_verified = True, ir_exit_seen = im_ended s\<rparr>],
               cp_events = im_events s, cp_gaps = im_gaps s, cp_spawned = im_spawned s\<rparr>,
             tr_unfinished = (if full \<and> \<not> im_ended s
               then tr_unfinished t @ [(fst who, snd who, im_exec s, control_end (im_calls s))] else tr_unfinished t),
             tr_offsets = bt_insert who (offset_of t who + of_nat count) (tr_offsets t), tr_data = im_data s,
             tr_controls = note_control who (first_control (im_calls s)) (tr_controls t)\<rparr>))))"

definition file_step :: "trace_env \<Rightarrow> u32 \<Rightarrow> bool \<Rightarrow> trace_state \<Rightarrow> trace_file \<Rightarrow> ahrb_error + trace_state" where
  "file_step E repetition full t file =
     and_then (io_ok (tf_bytes file)) (\<lambda>bytes.
     and_then (parse_records E (tf_path file) bytes) (\<lambda>records.
     if \<not> load_valid (hd records) then Inl (trace_invalid ''invalid load handshake'')
     else let who = identity_of (hd records) in
       and_then (fold_ok (record_step repetition (offset_of t who) who) (image_start t) (enumerate 0 records)) (\<lambda>s.
       close_image E full file who (length records) t s)))"

section \<open>The end of a trace\<close>

definition continued :: "fsync_event list \<Rightarrow> u32 \<times> u64 \<times> bool \<times> u64 \<Rightarrow> bool" where
  "continued events u = (case u of (pid, start, exec, ending) \<Rightarrow>
     exec \<and> list_ex (\<lambda>e. fy_pid e = pid \<and> fy_start_time e = start \<and> fy_self_test e \<and> ending < fy_enter_ns e) events)"

definition check_unfinished :: "fsync_event list \<Rightarrow> u32 \<times> u64 \<times> bool \<times> u64 \<Rightarrow> ahrb_error + unit" where
  "check_unfinished events u = (if continued events u then Inr ()
     else Inl (trace_invalid (''missing end-of-stream for '' @ show_u32 (fst u) @ ''/'' @ show_u64 (fst (snd u)))))"

text \<open>The image whose first control comes soonest after the spawn; the first such one in key order.\<close>

fun min_by_control :: "((u32 \<times> u64) \<times> u64) list \<Rightarrow> ((u32 \<times> u64) \<times> u64) option" where
  "min_by_control [] = None"
| "min_by_control (c # cs) = (case min_by_control cs of None \<Rightarrow> Some c | Some d \<Rightarrow> Some (if snd c \<le> snd d then c else d))"

definition witness_of :: "(u32 \<times> u64, u64) btree \<Rightarrow> u32 \<times> u64 \<Rightarrow> (u32 \<times> u64) option" where
  "witness_of controls x = map_option fst (min_by_control (filter (\<lambda>(who, control). fst who = fst x \<and> snd x \<le> control) controls))"

definition match_spawn :: "(u32 \<times> u64, u64) btree \<Rightarrow> u32 \<times> u64 \<Rightarrow> ahrb_error + (u32 \<times> u64, u64) btree" where
  "match_spawn controls x =
     and_then (required (witness_of controls x) ''spawned process lacks a distinct subsequent image control'') (\<lambda>who.
     Inr (bt_remove who controls))"

definition close_trace :: "bool \<Rightarrow> trace_state \<Rightarrow> ahrb_error + capture" where
  "close_trace full t =
     and_then (first_error (check_unfinished (cp_events (tr_capture t))) (tr_unfinished t)) (\<lambda>_.
     if full
     then let spawned = sort_key snd (cp_spawned (tr_capture t)) in
       and_then (fold_ok match_spawn (tr_controls t) spawned) (\<lambda>_. Inr ((tr_capture t)\<lparr>cp_spawned := spawned\<rparr>))
     else Inr (tr_capture t))"

definition read_trace :: "trace_env \<Rightarrow> trace_file list \<Rightarrow> u32 \<Rightarrow> bool \<Rightarrow> ahrb_error + capture" where
  "read_trace E files repetition full =
     and_then (fold_ok (file_step E repetition full) trace_start files) (close_trace full)"

section \<open>Applicability and the summary of a trial\<close>

datatype applicability_kind = AP_Measured | AP_NotApplicable

definition traces_data :: "fsync_event list \<Rightarrow> bool" where
  "traces_data events \<longleftrightarrow> list_ex (\<lambda>e. fy_self_test e \<and> fy_primitive e = Fdatasync) events"

definition applicability :: "capture \<Rightarrow> (primitive \<times> applicability_kind) list" where
  "applicability c =
     (if cp_images c = [] then []
      else [(Fsync, AP_Measured), (Fdatasync, if traces_data (cp_events c) then AP_Measured else AP_NotApplicable),
        (Fullfsync, AP_Measured)])"

record durability_summary =
  du_fsync_calls_per_turn :: "f64 option"
  du_fdatasync_calls_per_turn :: "f64 option"
  du_fullfsync_calls_per_turn :: "f64 option"
  du_durability_calls_per_turn :: "f64 option"
  du_assumed_fsync_cost_ms :: "f64 option"
  du_estimated_durability_wall_ms_per_turn :: "f64 option"
  du_durability_class :: "string option"

definition durability_class :: "f64 \<Rightarrow> string" where
  "durability_class calls =
     (if f_eq calls (Fin 0) then ''0'' else if f_le calls (Fin 1) then ''1'' else if f_le calls (Fin 10) then ''10'' else ''10+'')"

definition measured_events :: "fsync_event list \<Rightarrow> fsync_event list" where
  "measured_events events = filter (\<lambda>e. \<not> fy_self_test e \<and> 0 < fy_turn e) events"

definition per_turn :: "u32 \<Rightarrow> nat \<Rightarrow> f64" where
  "per_turn n count = f_div (f_of_int (int count)) (f_of_int (uint n))"

definition completed :: "fsync_event list \<Rightarrow> fsync_event list" where
  "completed events = filter (\<lambda>e. fy_return_code e = 0) events"

definition calls_of :: "primitive \<Rightarrow> fsync_event list \<Rightarrow> nat" where
  "calls_of p events = length (filter (\<lambda>e. fy_primitive e = p \<and> fy_return_code e = 0) events)"

definition summarize_durability :: "fsync_event list \<Rightarrow> u32 \<Rightarrow> ahrb_error + durability_summary \<times> u64" where
  "summarize_durability events n =
     (if n = 0 then Inl (trace_invalid ''zero turn budget'')
      else let measured = measured_events events; data = traces_data events in
        if list_ex (\<lambda>e. n < fy_turn e \<or> (\<not> data \<and> fy_primitive e = Fdatasync)) measured
        then Inl (trace_invalid ''inapplicable primitive or out-of-range turn'')
        else let total = per_turn n (length (completed measured)) in
          Inr (\<lparr>du_fsync_calls_per_turn = Some (per_turn n (calls_of Fsync measured)),
             du_fdatasync_calls_per_turn = (if data then Some (per_turn n (calls_of Fdatasync measured)) else None),
             du_fullfsync_calls_per_turn = Some (per_turn n (calls_of Fullfsync measured)),
             du_durability_calls_per_turn = Some total, du_assumed_fsync_cost_ms = Some (Fin 4),
             du_estimated_durability_wall_ms_per_turn = Some (f_mul total (Fin 4)),
             du_durability_class = Some (durability_class total)\<rparr>,
           of_nat (length (filter (\<lambda>e. fy_return_code e = - 1) measured))))"

text \<open>The drop counters that the end records of a trace report, read leniently.\<close>

definition line_drops :: "(nat list \<Rightarrow> json option) \<Rightarrow> nat list \<Rightarrow> u64" where
  "line_drops parse line =
     (case parse line of
        None \<Rightarrow> 0
      | Some v \<Rightarrow> if json_get v ''kind'' = Some (JString ''end'')
          then (case Option.bind (json_get v ''drop_count'') as_u64 of None \<Rightarrow> 0 | Some drops \<Rightarrow> drops) else 0)"

definition add_drops :: "u64 \<Rightarrow> u64 \<Rightarrow> ahrb_error + u64" where
  "add_drops sum_so_far drops = ok_or (checked_add sum_so_far drops) (trace_invalid ''drop counter overflow'')"

definition file_drops :: "(nat list \<Rightarrow> json option) \<Rightarrow> u64 \<Rightarrow> trace_file \<Rightarrow> ahrb_error + u64" where
  "file_drops parse sum_so_far file =
     and_then (io_ok (tf_bytes file)) (\<lambda>bytes. fold_ok add_drops sum_so_far (map (line_drops parse) (byte_lines [] bytes)))"

definition observed_drop_count :: "(nat list \<Rightarrow> json option) \<Rightarrow> trace_file list \<Rightarrow> ahrb_error + u64" where
  "observed_drop_count parse files = fold_ok (file_drops parse) 0 files"

section \<open>Properties\<close>

text \<open>The durability class is decided by whole numbers, and what a complete trace certifies.\<close>

section \<open>Classes without rounding\<close>

text \<open>Just above a whole number there is a double that no rounding crosses.\<close>

lemma above_whole: "0 \<le> k \<Longrightarrow> k \<le> 10 \<Longrightarrow> f_round (of_int k + 1 / 2 ^ 32) = Fin (of_int k + 1 / 2 ^ 32)"
proof -
  assume k: "0 \<le> k" "k \<le> 10"
  let ?m = "k * 2 ^ 32 + 1 :: int"
  have "\<bar>k * 4294967296 + 1\<bar> < (9007199254740992 :: int)" using k by linarith
  moreover have "(2::int) ^ 53 = 9007199254740992" "(2::int) ^ 32 = 4294967296" by simp_all
  ultimately have small: "\<bar>?m\<bar> < 2 ^ 53" by (simp only:)
  have powi: "(2::rat) powi (- 32) = 1 / 2 ^ 32" by (simp add: power_int_def power_divide)
  have "of_int \<bar>?m\<bar> * (1 / 2 ^ 32) \<le> (of_int \<bar>?m\<bar> :: rat)" by (simp add: divide_le_eq)
  then have "of_int \<bar>?m\<bar> * 2 powi (- 32) < max_finite_bound"
    unfolding powi using small_int_bound [OF small] by linarith
  from f_round_exact [OF small _ this] have "f_round (of_int ?m * (1 / 2 ^ 32)) = Fin (of_int ?m * (1 / 2 ^ 32))"
    unfolding powi by simp
  moreover have "(of_int ?m * (1 / 2 ^ 32) :: rat) = of_int k + 1 / 2 ^ 32" by (simp add: field_simps)
  ultimately show ?thesis by (simp only:)
qed

lemma ratio_above:
  assumes "0 < m" and "m \<le> 2 ^ 32" and "k * m < c"
  shows "of_int k + 1 / 2 ^ 32 \<le> (of_int c / of_int m :: rat)"
proof -
  have "k * m + 1 \<le> c" using assms(3) by simp
  then have "(of_int (k * m + 1) :: rat) \<le> of_int c" by (simp only: of_int_le_iff)
  then have "(of_int (k * m + 1) / of_int m :: rat) \<le> of_int c / of_int m"
    using assms(1) by (intro divide_right_mono) simp_all
  moreover have "(of_int (k * m + 1) / of_int m :: rat) = of_int k + 1 / of_int m"
    using assms(1) by (simp add: add_divide_distrib)
  moreover have "(of_int m :: rat) \<le> of_int (2 ^ 32)" using assms(2) by (simp only: of_int_le_iff)
  then have "(1 / 2 ^ 32 :: rat) \<le> 1 / of_int m" using assms(1) by (intro divide_left_mono) simp_all
  ultimately show ?thesis by linarith
qed

lemma rounded_ratio_le:
  assumes "0 < m" and "m \<le> 2 ^ 32" and "0 \<le> k" and "k \<le> 10"
  shows "f_le (f_round (of_int c / of_int m)) (Fin (of_int k)) \<longleftrightarrow> c \<le> k * m"
proof
  assume "c \<le> k * m"
  then have "(of_int c / of_int m :: rat) \<le> of_int k"
    using assms(1) by (simp add: divide_le_eq flip: of_int_mult)
  then have "f_le (f_round (of_int c / of_int m)) (f_round (of_int k))" by (rule f_round_mono)
  then show "f_le (f_round (of_int c / of_int m)) (Fin (of_int k))" using assms(3,4) by (simp add: f_round_int_exact)
next
  assume le: "f_le (f_round (of_int c / of_int m)) (Fin (of_int k))"
  show "c \<le> k * m"
  proof (rule ccontr)
    assume "\<not> c \<le> k * m"
    then have "of_int k + 1 / 2 ^ 32 \<le> (of_int c / of_int m :: rat)" using assms by (intro ratio_above) simp_all
    then have "f_le (f_round (of_int k + 1 / 2 ^ 32)) (f_round (of_int c / of_int m))" by (rule f_round_mono)
    then show False using le above_whole [OF assms(3,4)] by (cases "f_round (of_int c / of_int m)") simp_all
  qed
qed

text \<open>The class of a count of calls in a number of turns, in whole numbers.\<close>

definition exact_class :: "nat \<Rightarrow> nat \<Rightarrow> string" where
  "exact_class turns calls =
     (if calls = 0 then ''0'' else if calls \<le> turns then ''1'' else if calls \<le> 10 * turns then ''10'' else ''10+'')"

lemma class_exact:
  assumes "n \<noteq> 0" and "calls < 2 ^ 53"
  shows "durability_class (per_turn n calls) = exact_class (unat n) calls"
proof -
  define m where "m = int (unat n)"
  have "0 < unat n" "unat n < 4294967296" using assms(1) unsigned_less [of n] by (simp_all add: unat_gt_0)
  then have "0 < m" "m < 4294967296" unfolding m_def by linarith+
  then have turns: "0 < m" "m < 2 ^ 32" by simp_all
  have exact: "f_of_int (int calls) = Fin (of_int (int calls))" "f_of_int m = Fin (of_int m)"
    using assms(2) turns by (intro f_of_int_exact; simp)+
  have "uint n = m" by (simp add: m_def)
  then have per: "per_turn n calls = f_round (of_int (int calls) / of_int m)"
    using turns unfolding per_turn_def by (simp only: exact f_div.simps) simp
  have le: "f_le (per_turn n calls) (Fin (of_int k)) \<longleftrightarrow> int calls \<le> k * m" if "0 \<le> k" "k \<le> 10" for k
    unfolding per using turns that by (intro rounded_ratio_le) simp_all
  have pos: "f_le (Fin 0) (per_turn n calls)"
    unfolding per using f_round_mono [of 0 "of_int (int calls) / of_int m"] turns by simp
  have zero: "f_eq (per_turn n calls) (Fin 0) \<longleftrightarrow> calls = 0"
    using le [of 0] pos by (cases "per_turn n calls") auto
  have whole: "int calls \<le> 1 * m \<longleftrightarrow> calls \<le> unat n" "int calls \<le> 10 * m \<longleftrightarrow> calls \<le> 10 * unat n"
    unfolding m_def by linarith+
  show ?thesis
    using le [of 1, unfolded whole] le [of 10, unfolded whole] zero by (simp add: durability_class_def exact_class_def)
qed

lemma calls_partition: "length (completed events) = calls_of Fsync events + calls_of Fdatasync events + calls_of Fullfsync events"
proof (induction events)
  case (Cons e events)
  then show ?case by (cases "fy_primitive e") (simp_all add: completed_def calls_of_def)
qed (simp add: completed_def calls_of_def)

section \<open>The records of an image\<close>

text \<open>What holds of the loop state of the image \<open>who\<close>, with the events \<open>before\<close> of the earlier images.\<close>

definition image_ok :: "u32 \<times> u64 \<Rightarrow> fsync_event list \<Rightarrow> image_state \<Rightarrow> bool" where
  "image_ok who before s \<longleftrightarrow> list_all completion_valid (im_events s)
     \<and> (\<exists>own. im_events s = before @ own \<and> list_all (\<lambda>e. (fy_pid e, fy_start_time e) = who) own \<and> filter fy_self_test own = im_calls s)
     \<and> (im_control s \<longrightarrow> im_calls s \<noteq> [])"

lemma event_of_Inr: "event_of repetition offset r = Inr e \<Longrightarrow> (fy_pid e, fy_start_time e) = identity_of r"
  by (auto simp: event_of_def and_then_Inr_iff identity_of_def)

lemma on_call_ok: "on_call repetition offset r s = Inr s' \<Longrightarrow> identity_of r = who \<Longrightarrow> image_ok who before s \<Longrightarrow> image_ok who before s'"
  by (auto simp: on_call_def and_then_Inr_iff image_ok_def dest: event_of_Inr split: if_splits)

lemma on_control_ok: "on_control r s = Inr s' \<Longrightarrow> image_ok who before s \<Longrightarrow> image_ok who before s'"
  by (auto simp: on_control_def and_then_Inr_iff image_ok_def verify_control_def control_exact_def Let_def split: if_splits)

lemma on_spawn_ok: "on_spawn r s = Inr s' \<Longrightarrow> image_ok who before s \<Longrightarrow> image_ok who before s'"
  by (auto simp: on_spawn_def and_then_Inr_iff image_ok_def split: if_splits)

lemma record_step_ok:
  assumes "record_step repetition offset who s x = Inr s'" and "image_ok who before s"
  shows "image_ok who before s'"
proof -
  obtain i r where x: "x = (i, r)" by (cases x)
  then have r: "identity_of r = who" "on_record repetition offset i r s = Inr s'"
    using assms(1) by (auto simp: record_step_def split: if_splits)
  note parts = on_call_ok [OF _ r(1) assms(2)] on_control_ok [OF _ assms(2)] on_spawn_ok [OF _ assms(2)]
  have plain: "image_ok who before (s\<lparr>im_ended := b\<rparr>)" "image_ok who before (s\<lparr>im_exec := b\<rparr>)" "image_ok who before (s\<lparr>im_gaps := g\<rparr>)" for b g
    using assms(2) by (simp_all add: image_ok_def)
  show ?thesis using r(2) parts plain assms(2) by (auto simp: on_record_def and_then_Inr_iff split: if_splits)
qed

lemma records_ok: "fold_ok (record_step repetition offset who) s xs = Inr s' \<Longrightarrow> image_ok who before s \<Longrightarrow> image_ok who before s'"
  by (induction xs arbitrary: s) (auto simp: and_then_Inr_iff dest: record_step_ok)

lemma first_control_in: "calls \<noteq> [] \<Longrightarrow> \<exists>e \<in> set calls. first_control calls = fy_enter_ns e"
proof -
  have *: "foldl min n ns \<in> set (n # ns)" for n and ns :: "u64 list"
    by (induction ns arbitrary: n) (auto simp: min_def)
  assume "calls \<noteq> []"
  then show ?thesis using * [of "fy_enter_ns (hd calls)" "map fy_enter_ns (tl calls)"]
    by (cases calls) (auto simp: first_control_def)
qed

lemma first_control_le: "e \<in> set calls \<Longrightarrow> first_control calls \<le> fy_enter_ns e"
proof -
  have *: "foldl min n ns \<le> n \<and> (\<forall>m \<in> set ns. foldl min n ns \<le> m)" for n and ns :: "u64 list"
  proof (induction ns arbitrary: n)
    case (Cons m ns)
    have "foldl min (min n m) ns \<le> n" "foldl min (min n m) ns \<le> m" using Cons.IH [of "min n m"] by simp_all
    then show ?case using Cons.IH [of "min n m"] by simp
  qed simp
  assume "e \<in> set calls"
  then show ?thesis using * [of "fy_enter_ns (hd calls)" "map fy_enter_ns (tl calls)"]
    by (cases calls) (auto simp: first_control_def)
qed

section \<open>The files of a trace\<close>

text \<open>The known calls of an image identity, and that they began, first and last, no earlier than an instant.\<close>

definition known_calls :: "fsync_event list \<Rightarrow> u32 \<times> u64 \<Rightarrow> fsync_event list" where
  "known_calls events who = filter (\<lambda>e. fy_self_test e \<and> (fy_pid e, fy_start_time e) = who) events"

definition control_from :: "fsync_event list \<Rightarrow> u32 \<times> u64 \<Rightarrow> u64 \<Rightarrow> bool" where
  "control_from events who ns \<longleftrightarrow> known_calls events who \<noteq> [] \<and> list_all (\<lambda>e. ns \<le> fy_enter_ns e) (known_calls events who)"

definition image_identities :: "capture \<Rightarrow> (u32 \<times> u64) list" where
  "image_identities c = map (\<lambda>i. (ir_pid i, ir_start_time i)) (cp_images c)"

definition trace_ok :: "trace_state \<Rightarrow> bool" where
  "trace_ok t \<longleftrightarrow> list_all completion_valid (cp_events (tr_capture t))
     \<and> bt_wf (tr_controls t)
     \<and> (\<forall>who. known_calls (cp_events (tr_capture t)) who \<noteq> [] \<longrightarrow> bt_get (tr_controls t) who \<noteq> None)
     \<and> (\<forall>who ns. bt_get (tr_controls t) who = Some ns \<longrightarrow>
          who \<in> set (image_identities (tr_capture t)) \<and> control_from (cp_events (tr_capture t)) who ns)"

lemma bt_get_note_control: "bt_get (note_control who ns controls) w
    = (if w = who then Some (case bt_get controls who of None \<Rightarrow> ns | Some entry \<Rightarrow> min entry ns) else bt_get controls w)"
  by (simp add: note_control_def bt_get_insert)

lemma known_calls_other: "list_all (\<lambda>e. (fy_pid e, fy_start_time e) = who) own \<Longrightarrow> w \<noteq> who \<Longrightarrow> known_calls own w = []"
  by (auto simp: known_calls_def filter_empty_conv list_all_iff)

lemma known_calls_own: "list_all (\<lambda>e. (fy_pid e, fy_start_time e) = who) own \<Longrightarrow> known_calls own who = filter fy_self_test own"
  unfolding known_calls_def by (rule filter_cong) (auto simp: list_all_iff)

lemma known_calls_append: "known_calls (before @ own) w = known_calls before w @ known_calls own w"
  by (simp add: known_calls_def)

lemma close_image_ok:
  assumes "close_image E full file who n t s = Inr t'" and "image_ok who (cp_events (tr_capture t)) s" and "trace_ok t"
  shows "trace_ok t'"
proof -
  let ?before = "cp_events (tr_capture t)"
  have control: "im_control s" and events: "cp_events (tr_capture t') = im_events s"
    and controls: "tr_controls t' = note_control who (first_control (im_calls s)) (tr_controls t)"
    and images: "set (image_identities (tr_capture t')) = insert who (set (image_identities (tr_capture t)))"
    using assms(1) by (auto simp: close_image_def and_then_Inr_iff image_identities_def split: if_splits)
  from assms(2) obtain own where own: "im_events s = ?before @ own" "list_all (\<lambda>e. (fy_pid e, fy_start_time e) = who) own"
      "filter fy_self_test own = im_calls s" and some: "im_calls s \<noteq> []"
    using control by (auto simp: image_ok_def)
  have calls: "known_calls (im_events s) who = known_calls ?before who @ im_calls s"
      "w \<noteq> who \<Longrightarrow> known_calls (im_events s) w = known_calls ?before w" for w
    using own known_calls_other [OF own(2)] by (simp_all add: known_calls_append known_calls_own [OF own(2)])
  have old: "control_from ?before w ns" "w \<in> set (image_identities (tr_capture t))" if "bt_get (tr_controls t) w = Some ns" for w ns
    using assms(3) that unfolding trace_ok_def by blast+
  have fresh: "known_calls ?before who = []" if "bt_get (tr_controls t) who = None"
    using assms(3) that unfolding trace_ok_def by blast
  have first: "list_all (\<lambda>e. first_control (im_calls s) \<le> fy_enter_ns e) (im_calls s)"
    using first_control_le by (auto simp: list_all_iff)
  have mine: "control_from (im_events s) who (case bt_get (tr_controls t) who of None \<Rightarrow> first_control (im_calls s)
      | Some entry \<Rightarrow> min entry (first_control (im_calls s)))"
  proof (cases "bt_get (tr_controls t) who")
    case None
    then show ?thesis using calls(1) fresh first some by (simp add: control_from_def)
  next
    case (Some entry)
    then show ?thesis using calls(1) old(1) [OF Some] first some by (auto simp: control_from_def list_all_iff min_le_iff_disj)
  qed
  have "w \<in> set (image_identities (tr_capture t')) \<and> control_from (im_events s) w ns" if "bt_get (tr_controls t') w = Some ns" for w ns
  proof (cases "w = who")
    case True
    then show ?thesis using that mine images by (auto simp: controls bt_get_note_control)
  next
    case False
    then have "bt_get (tr_controls t) w = Some ns" using that by (simp add: controls bt_get_note_control)
    from old [OF this] False show ?thesis using images calls(2) by (simp add: control_from_def)
  qed
  moreover have "bt_get (tr_controls t') w \<noteq> None" if "known_calls (im_events s) w \<noteq> []" for w
  proof (cases "w = who")
    case False
    then have "known_calls ?before w \<noteq> []" using that calls(2) by simp
    then have "bt_get (tr_controls t) w \<noteq> None" using assms(3) unfolding trace_ok_def by blast
    then show ?thesis using False by (simp add: controls bt_get_note_control)
  qed (simp add: controls bt_get_note_control)
  moreover have "bt_wf (tr_controls t')" using assms(3) by (simp add: controls note_control_def trace_ok_def bt_wf_insert)
  moreover have "list_all completion_valid (im_events s)" using assms(2) by (simp add: image_ok_def)
  ultimately show ?thesis unfolding trace_ok_def events by blast
qed

lemma file_step_ok: "file_step E repetition full t file = Inr t' \<Longrightarrow> trace_ok t \<Longrightarrow> trace_ok t'"
proof -
  assume step: "file_step E repetition full t file = Inr t'" and ok: "trace_ok t"
  obtain records s where
    run: "fold_ok (record_step repetition (offset_of t (identity_of (hd records))) (identity_of (hd records)))
      (image_start t) (enumerate 0 records) = Inr s"
    and close: "close_image E full file (identity_of (hd records)) (length records) t s = Inr t'"
    using step by (auto simp: file_step_def and_then_Inr_iff Let_def split: if_splits)
  have "image_ok (identity_of (hd records)) (cp_events (tr_capture t)) (image_start t)"
    using ok by (simp add: image_ok_def image_start_def trace_ok_def)
  from close_image_ok [OF close records_ok [OF run this] ok] show ?thesis .
qed

lemma files_ok: "fold_ok (file_step E repetition full) t files = Inr t' \<Longrightarrow> trace_ok t \<Longrightarrow> trace_ok t'"
  by (induction files arbitrary: t) (auto simp: and_then_Inr_iff dest: file_step_ok)

section \<open>Spawned processes\<close>

lemma min_by_control_in: "min_by_control cs = Some c \<Longrightarrow> c \<in> set cs"
  by (induction cs arbitrary: c) (auto split: option.splits if_splits)

lemma witness_of_Some: "witness_of controls (pid, enter) = Some who \<Longrightarrow> fst who = pid \<and> (\<exists>ns. (who, ns) \<in> set controls \<and> enter \<le> ns)"
  by (auto simp: witness_of_def dest!: min_by_control_in)

lemma match_spawn_Inr: "match_spawn controls x = Inr rest \<longleftrightarrow> (\<exists>who. witness_of controls x = Some who \<and> rest = bt_remove who controls)"
  by (cases "witness_of controls x") (auto simp: match_spawn_def required_def)

lemma matched_spawns:
  assumes "fold_ok match_spawn controls spawned = Inr rest"
  shows "\<exists>images. distinct images \<and> list_all2 (\<lambda>(pid, enter) who. fst who = pid \<and> (\<exists>ns. (who, ns) \<in> set controls \<and> enter \<le> ns)) spawned images"
  using assms
proof (induction spawned arbitrary: controls)
  case (Cons x spawned)
  obtain who where who: "witness_of controls x = Some who" and rest: "fold_ok match_spawn (bt_remove who controls) spawned = Inr rest"
    using Cons.prems unfolding fold_ok.simps and_then_Inr_iff match_spawn_Inr by blast
  obtain images where images: "distinct images"
    "list_all2 (\<lambda>(pid, enter) w. fst w = pid \<and> (\<exists>ns. (w, ns) \<in> set (bt_remove who controls) \<and> enter \<le> ns)) spawned images"
    using Cons.IH [OF rest] by blast
  have "who \<notin> set images"
    using images(2) by (auto simp: list_all2_conv_all_nth in_set_conv_nth bt_remove_def split_beta)
  moreover have "list_all2 (\<lambda>(pid, enter) w. fst w = pid \<and> (\<exists>ns. (w, ns) \<in> set controls \<and> enter \<le> ns)) spawned images"
    using images(2) by (rule list_all2_mono) (auto simp: bt_remove_def)
  ultimately show ?case using images(1) who witness_of_Some [of controls "fst x" "snd x" who]
    by (cases x) (intro exI [of _ "who # images"], simp)
qed simp

section \<open>The claims\<close>

text \<open>C22: when a complete trace is accepted, every recorded call has an entry, a later or equal exit and a
  consistent result, and the spawned processes, in the order of their entries, are matched one to one to
  distinct images of the trace: each process has an image of its own, and all known calls of that image, hence the
  first, began at or after the spawn, so that no image certifies two processes and none certifies one that was
  spawned after its control.\<close>

theorem complete_trace_certifies_spawns:
  assumes "read_trace E files repetition True = Inr c"
  shows "list_all (\<lambda>e. fy_enter_ns e \<noteq> 0 \<and> fy_enter_ns e \<le> fy_exit_ns e
        \<and> (fy_return_code e = 0 \<and> fy_errno e = 0 \<or> fy_return_code e = - 1)) (cp_events c)
    \<and> sorted (map snd (cp_spawned c))
    \<and> (\<exists>images. distinct images \<and> set images \<subseteq> set (image_identities c)
      \<and> list_all2 (\<lambda>(pid, enter) who. fst who = pid \<and> control_from (cp_events c) who enter) (cp_spawned c) images)"
proof -
  obtain t where files: "fold_ok (file_step E repetition True) trace_start files = Inr t" and close: "close_trace True t = Inr c"
    using assms by (auto simp: read_trace_def and_then_Inr_iff)
  have "trace_ok trace_start" by (simp add: trace_ok_def trace_start_def known_calls_def bt_wf_def)
  with files have ok: "trace_ok t" by (rule files_ok)
  obtain rest where match: "fold_ok match_spawn (tr_controls t) (sort_key snd (cp_spawned (tr_capture t))) = Inr rest"
    and c: "c = (tr_capture t)\<lparr>cp_spawned := sort_key snd (cp_spawned (tr_capture t))\<rparr>"
    using close by (auto simp: close_trace_def and_then_Inr_iff Let_def)
  have same: "image_identities c = image_identities (tr_capture t)" "cp_events c = cp_events (tr_capture t)"
    "cp_spawned c = sort_key snd (cp_spawned (tr_capture t))"
    by (simp_all add: c image_identities_def)
  have controls: "who \<in> set (image_identities c) \<and> control_from (cp_events c) who enter"
    if "(who, ns) \<in> set (tr_controls t)" "enter \<le> ns" for who ns enter
  proof -
    have "distinct (map fst (tr_controls t))" using ok by (simp add: trace_ok_def bt_wf_def strict_sorted_iff)
    then have "bt_get (tr_controls t) who = Some ns" using that(1) by (simp add: bt_get_eq_map_of)
    then have "who \<in> set (image_identities c) \<and> control_from (cp_events c) who ns"
      using ok unfolding trace_ok_def same by blast
    with that(2) show ?thesis by (auto simp: control_from_def list_all_iff)
  qed
  obtain images where images: "distinct images"
    "list_all2 (\<lambda>(pid, enter) who. fst who = pid \<and> (\<exists>ns. (who, ns) \<in> set (tr_controls t) \<and> enter \<le> ns)) (cp_spawned c) images"
    using matched_spawns [OF match] same(3) by auto
  have "set images \<subseteq> set (image_identities c)"
    using images(2) controls by (fastforce simp: list_all2_conv_all_nth in_set_conv_nth split_beta)
  moreover have "list_all2 (\<lambda>(pid, enter) who. fst who = pid \<and> control_from (cp_events c) who enter) (cp_spawned c) images"
    using images(2) by (rule list_all2_mono) (use controls in blast)
  moreover have "list_all completion_valid (cp_events c)" using ok same by (simp add: trace_ok_def)
  ultimately show ?thesis using images(1) same by (auto simp: completion_valid_def list_all_iff)
qed

text \<open>C25: the summary of a trial counts the completed synchronization calls of its turns (of no other events), each
  in the field of its primitive and in the total, with data synchronization left out exactly when it was not traced and
  then not called, and the failed ones separately; although the calls per turn are rounded quotients, the reported
  class is the one that whole numbers give: no call, at most one per turn, at most ten per turn, or more.\<close>

theorem durability_class_is_exact:
  assumes "summarize_durability events n = Inr (d, failures)" and "length events < 2 ^ 53"
  shows "(let calls = (\<lambda>p. length (filter (\<lambda>e. \<not> fy_self_test e \<and> 0 < fy_turn e \<and> fy_return_code e = 0 \<and> fy_primitive e = p) events));
       total_calls = calls Fsync + calls Fdatasync + calls Fullfsync;
       traced = list_ex (\<lambda>e. fy_self_test e \<and> fy_primitive e = Fdatasync) events;
       quotient = (\<lambda>count. f_div (f_of_int (int count)) (f_of_int (uint n)))
     in du_fsync_calls_per_turn d = Some (quotient (calls Fsync))
        \<and> du_fdatasync_calls_per_turn d = (if traced then Some (quotient (calls Fdatasync)) else None)
        \<and> (traced \<or> calls Fdatasync = 0)
        \<and> du_fullfsync_calls_per_turn d = Some (quotient (calls Fullfsync))
        \<and> du_durability_calls_per_turn d = Some (quotient total_calls)
        \<and> du_estimated_durability_wall_ms_per_turn d = Some (f_mul (quotient total_calls) (Fin 4))
        \<and> failures = of_nat (length (filter (\<lambda>e. \<not> fy_self_test e \<and> 0 < fy_turn e \<and> fy_return_code e = - 1) events))
        \<and> du_durability_class d = Some (if total_calls = 0 then ''0'' else if total_calls \<le> unat n then ''1''
             else if total_calls \<le> 10 * unat n then ''10'' else ''10+''))"
proof -
  define calls where "calls p = length (filter (\<lambda>e. \<not> fy_self_test e \<and> 0 < fy_turn e \<and> fy_return_code e = 0 \<and> fy_primitive e = p) events)" for p
  let ?m = "measured_events events"
  have calls: "calls p = calls_of p ?m" for p
    by (simp add: calls_def calls_of_def measured_events_def conj_ac)
  have whole: "length (completed ?m) = calls Fsync + calls Fdatasync + calls Fullfsync"
    by (simp add: calls calls_partition)
  have n: "n \<noteq> 0" and none: "traces_data events \<or> list_all (\<lambda>e. fy_primitive e \<noteq> Fdatasync) ?m"
    using assms(1) by (auto simp: summarize_durability_def Let_def list_all_iff list_ex_iff split: if_splits)
  have "length (completed ?m) < 2 ^ 53"
    unfolding completed_def measured_events_def
    using assms(2) by (intro order.strict_trans1 [OF length_filter_le] order.strict_trans1 [OF length_filter_le])
  note classed = class_exact [OF n this, unfolded whole exact_class_def]
  have absent: "traces_data events \<or> calls Fdatasync = 0"
    using none by (auto simp: calls calls_of_def list_all_iff filter_empty_conv)
  have failed: "filter (\<lambda>e. fy_return_code e = - 1) ?m = filter (\<lambda>e. \<not> fy_self_test e \<and> 0 < fy_turn e \<and> fy_return_code e = - 1) events"
    by (simp add: measured_events_def conj_ac)
  from assms(1) have d: "failures = of_nat (length (filter (\<lambda>e. fy_return_code e = - 1) ?m))"
      "du_fsync_calls_per_turn d = Some (per_turn n (calls Fsync))"
      "du_fdatasync_calls_per_turn d = (if traces_data events then Some (per_turn n (calls Fdatasync)) else None)"
      "du_fullfsync_calls_per_turn d = Some (per_turn n (calls Fullfsync))"
      "du_durability_calls_per_turn d = Some (per_turn n (length (completed ?m)))"
      "du_estimated_durability_wall_ms_per_turn d = Some (f_mul (per_turn n (length (completed ?m))) (Fin 4))"
      "du_durability_class d = Some (durability_class (per_turn n (length (completed ?m))))"
    unfolding calls by (auto simp: summarize_durability_def Let_def split: if_splits)
  show ?thesis
    unfolding Let_def calls_def [symmetric] d failed whole classed traces_data_def [symmetric] per_turn_def
    using absent classed by (simp add: whole per_turn_def)
qed

section \<open>Witnesses\<close>

definition durability_witness_event :: fsync_event where
  "durability_witness_event = \<lparr>fy_repetition = 0, fy_turn = 1, fy_pid = 1, fy_start_time = 1, fy_sequence = 1, fy_primitive = Fsync,
     fy_enter_ns = 1, fy_exit_ns = 1, fy_return_code = 0, fy_errno = 0, fy_backend = [], fy_self_test = False\<rparr>"

theorem durability_class_is_exact_witness:
  "\<exists>d. summarize_durability [durability_witness_event] 1 = Inr (d, 0) \<and> du_durability_class d = Some ''1''
     \<and> du_fsync_calls_per_turn d = Some (Fin 1) \<and> du_fdatasync_calls_per_turn d = None
     \<and> du_fullfsync_calls_per_turn d = Some (Fin 0) \<and> du_durability_calls_per_turn d = Some (Fin 1)"
proof -
  obtain d where d: "summarize_durability [durability_witness_event] 1 = Inr (d, 0)"
    by (simp add: summarize_durability_def Let_def measured_events_def durability_witness_event_def)
  then show ?thesis using durability_class_is_exact [OF d]
    by (simp add: durability_witness_event_def Let_def f_of_int_def)
qed

definition durability_witness_raw :: "u32 \<Rightarrow> string \<Rightarrow> nat \<Rightarrow> raw_record" where
  "durability_witness_raw pid kind i = \<lparr>rw_sequence = of_nat (i + 1), rw_pid = pid, rw_start_time = 1, rw_kind = kind, rw_primitive = None,
     rw_enter_ns = Some (ucast pid), rw_exit_ns = Some (ucast pid), rw_return_code = None, rw_errno = None, rw_self_test = None, rw_failures = Some 0,
     rw_fdatasync_available = Some False, rw_drop_count = Some 0, rw_child_pid = Some 2, rw_reason = None,
     rw_version = Some durability_version\<rparr>"

definition durability_witness_call :: "u32 \<Rightarrow> primitive \<Rightarrow> bool \<Rightarrow> nat \<Rightarrow> raw_record" where
  "durability_witness_call pid p success i = (durability_witness_raw pid ''call'' i)\<lparr>rw_primitive := Some p, rw_return_code := Some (if success then 0 else - 1),
     rw_errno := Some (if success then 0 else ebadf), rw_self_test := Some True\<rparr>"

definition durability_witness_records :: "u32 \<Rightarrow> raw_record list" where
  "durability_witness_records pid = map2 (\<lambda>f i. f i)
     ([durability_witness_raw pid ''load''] @ replicate 3 (durability_witness_call pid Fsync True) @ replicate 2 (durability_witness_call pid Fsync False)
      @ replicate 2 (durability_witness_call pid Fullfsync True) @ replicate 2 (durability_witness_call pid Fullfsync False)
      @ [durability_witness_raw pid ''control''] @ (if pid = 1 then [durability_witness_raw pid ''spawn''] else []) @ [durability_witness_raw pid ''end'']) [0..<13]"

definition durability_witness_file :: "u32 \<Rightarrow> trace_file" where
  "durability_witness_file pid = \<lparr>tf_path = ''t'', tf_bytes = Inr (concat (map (\<lambda>i. [unat pid, 100 + i, 10]) [0..<length (durability_witness_records pid)])), tf_image = Inr []\<rparr>"

definition durability_witness_env :: trace_env where
  "durability_witness_env = \<lparr>te_parse = (\<lambda>bytes. case bytes of [p, i] \<Rightarrow> Inr (durability_witness_records (of_nat p) ! (i - 100)) | _ \<Rightarrow> Inl []),
     te_utf8 = (\<lambda>_. Some ''image''), te_digest = (\<lambda>_. Inr ''sha'')\<rparr>"

lemma durability_witness_trace: "(case read_trace durability_witness_env [durability_witness_file 1, durability_witness_file 2] 0 True of Inr c \<Rightarrow> cp_spawned c = [(2, 1)] | Inl _ \<Rightarrow> False)"
  by code_simp

theorem complete_trace_certifies_spawns_witness:
  "\<exists>c who. read_trace durability_witness_env [durability_witness_file 1, durability_witness_file 2] 0 True = Inr c \<and> who \<in> set (image_identities c)
    \<and> fst who = 2 \<and> control_from (cp_events c) who 1"
proof -
  obtain c where c: "read_trace durability_witness_env [durability_witness_file 1, durability_witness_file 2] 0 True = Inr c" "cp_spawned c = [(2, 1)]"
    using durability_witness_trace by (auto split: sum.splits)
  then show ?thesis using complete_trace_certifies_spawns [OF c(1)] by (auto simp: list_all2_Cons1)
qed

end
