(* ===== verification/Row_Timing.thy ===== *)
theory Row_Timing
  imports Events Outcomes "HOL-Library.Product_Lexorder"
begin

text \<open>
  \<open>src/src/row_timing.rs\<close>: the clocks of the rows of a run and of the sessions that work for them.  An
  instant is a number of nanoseconds.  The task-local context is an argument: \<open>None\<close> outside a scope of the
  ledger, else the rows attributed to the task.  Every operation is one section under the lock of the
  ledger and reads the clock once; two operations read it in the order in which they take the lock.
\<close>

section \<open>The ledger\<close>

record bounds =
  rb_start :: nat
  rb_end :: "nat option"
  rb_submitted :: bool
  rb_finished :: "nat option"

record session_clock =
  sk_rows :: "u8 list"
  sk_seen :: "string list"
  sk_pending :: bool

record ledger =
  lg_rows :: "(u8, bounds) btree"
  lg_sessions :: "(nat \<times> string, session_clock) btree"

definition empty_ledger :: ledger where
  "empty_ledger = \<lparr>lg_rows = [], lg_sessions = []\<rparr>"

text \<open>\<open>get_mut\<close> of a map, and the mutable \<open>entry\<close> with its default.\<close>

definition adjust :: "'k :: linorder \<Rightarrow> ('v \<Rightarrow> 'v) \<Rightarrow> ('k, 'v) btree \<Rightarrow> ('k, 'v) btree" where
  "adjust k f m = (case bt_get m k of None \<Rightarrow> m | Some v \<Rightarrow> bt_insert k (f v) m)"

definition adjust_all :: "'k :: linorder list \<Rightarrow> ('v \<Rightarrow> 'v) \<Rightarrow> ('k, 'v) btree \<Rightarrow> ('k, 'v) btree" where
  "adjust_all ks f m = foldl (\<lambda>m k. adjust k f m) m ks"

section \<open>Operations\<close>

definition open_row :: "nat \<Rightarrow> (u8, bounds) btree \<Rightarrow> u8 \<Rightarrow> (u8, bounds) btree" where
  "open_row now m row = (case bt_get m row of
     None \<Rightarrow> bt_insert row \<lparr>rb_start = now, rb_end = None, rb_submitted = False, rb_finished = None\<rparr> m
   | Some _ \<Rightarrow> m)"

definition enter_rows :: "u8 list \<Rightarrow> nat \<Rightarrow> ledger \<Rightarrow> ledger" where
  "enter_rows rows now s = s\<lparr>lg_rows := foldl (open_row now) (lg_rows s) rows\<rparr>"

definition close_row :: "nat \<Rightarrow> bounds \<Rightarrow> bounds" where
  "close_row now b = b\<lparr>rb_finished := Some now, rb_end := (if rb_submitted b then rb_end b else Some now)\<rparr>"

definition leave_rows :: "u8 list \<Rightarrow> nat \<Rightarrow> ledger \<Rightarrow> ledger" where
  "leave_rows rows now s = s\<lparr>lg_rows := adjust_all rows (close_row now) (lg_rows s)\<rparr>"

definition finish_row :: "u8 \<Rightarrow> nat \<Rightarrow> ledger \<Rightarrow> ledger" where
  "finish_row row now s = s\<lparr>lg_rows := adjust row (\<lambda>b. b\<lparr>rb_finished := (case rb_finished b of None \<Rightarrow> Some now | old \<Rightarrow> old)\<rparr>) (lg_rows s)\<rparr>"

definition retire_row :: "u8 \<Rightarrow> session_clock \<Rightarrow> session_clock" where
  "retire_row row c = (if row \<in> set (sk_rows c) then c\<lparr>sk_pending := False\<rparr> else c)"

definition complete_row :: "u8 \<Rightarrow> nat \<Rightarrow> ledger \<Rightarrow> ledger" where
  "complete_row row now s =
     \<lparr>lg_rows = adjust row (\<lambda>b. b\<lparr>rb_end := Some now, rb_finished := Some now\<rparr>) (lg_rows s),
      lg_sessions = map (\<lambda>(k, c). (k, retire_row row c)) (lg_sessions s)\<rparr>"

definition rows_of_key :: "string \<Rightarrow> u8 list" where
  "rows_of_key key = (case strip_prefix key ''row-'' of
     None \<Rightarrow> []
   | Some rest \<Rightarrow> (case parse_unsigned 256 (hd (split_on (CHR ''-'') rest)) of None \<Rightarrow> [] | Some row \<Rightarrow> [row]))"

definition attributed_rows :: "u8 list \<Rightarrow> string \<Rightarrow> u8 list" where
  "attributed_rows rows key = (if rows = [] then rows_of_key key else rows)"

definition submit_row :: "nat \<Rightarrow> (u8, bounds) btree \<Rightarrow> u8 \<Rightarrow> (u8, bounds) btree" where
  "submit_row now m row =
     (let b = (case bt_get m row of
        None \<Rightarrow> \<lparr>rb_start = now, rb_end = None, rb_submitted = True, rb_finished = None\<rparr> | Some b \<Rightarrow> b)
      in bt_insert row \<lparr>rb_start = (if rb_submitted b then rb_start b else now), rb_end = None, rb_submitted = True,
           rb_finished = None\<rparr> m)"

definition submitted :: "u8 list option \<Rightarrow> nat \<Rightarrow> string \<Rightarrow> string \<Rightarrow> nat \<Rightarrow> ledger \<Rightarrow> ledger" where
  "submitted ctx driver session key now s = (case ctx of None \<Rightarrow> s | Some rows \<Rightarrow>
     let rows = attributed_rows rows key in
     if rows = [] then s
     else \<lparr>lg_rows = foldl (submit_row now) (lg_rows s) rows,
       lg_sessions = bt_insert (driver, session) \<lparr>sk_rows = rows, sk_seen = [], sk_pending = True\<rparr> (lg_sessions s)\<rparr>)"

definition move_session :: "nat \<Rightarrow> (nat \<times> string, session_clock) btree \<Rightarrow> nat \<times> string \<Rightarrow> (nat \<times> string, session_clock) btree" where
  "move_session to m key = (case bt_get m key of None \<Rightarrow> m | Some c \<Rightarrow> bt_insert (to, snd key) c (bt_remove key m))"

definition rebind_driver :: "u8 list option \<Rightarrow> nat \<Rightarrow> nat \<Rightarrow> ledger \<Rightarrow> ledger" where
  "rebind_driver ctx old to s =
     (if old = to \<or> ctx = None then s
      else s\<lparr>lg_sessions := foldl (move_session to) (lg_sessions s) (filter (\<lambda>k. fst k = old) (map fst (lg_sessions s)))\<rparr>)"

section \<open>Terminal events\<close>

definition is_terminal_event :: "normalized_event \<Rightarrow> bool" where
  "is_terminal_event e \<longleftrightarrow> ne_event e \<in> {TerminalSuccess, TerminalFailure, TerminalCancelled, TerminalTimeout}"

text \<open>The clock an observation belongs to: the exact one, else the only pending one of the session.\<close>

definition resolve_clock :: "nat \<Rightarrow> string \<Rightarrow> (nat \<times> string, session_clock) btree \<Rightarrow> (nat \<times> string) option" where
  "resolve_clock driver session m =
     (if bt_get m (driver, session) \<noteq> None then Some (driver, session)
      else case filter (\<lambda>(k, c). snd k = session \<and> sk_pending c) m of [(k, c)] \<Rightarrow> Some k | _ \<Rightarrow> None)"

definition see_event :: "string list \<times> bool \<Rightarrow> normalized_event \<Rightarrow> string list \<times> bool" where
  "see_event acc e = (case acc of (seen, terminal) \<Rightarrow>
     if is_terminal_event e then (bs_insert (ne_id e) seen, terminal \<or> ne_id e \<notin> set seen) else (seen, terminal))"

definition end_row :: "nat \<Rightarrow> bounds \<Rightarrow> bounds" where
  "end_row now b = b\<lparr>rb_end := Some now\<rparr>"

definition observed :: "u8 list option \<Rightarrow> nat \<Rightarrow> string \<Rightarrow> normalized_event list \<Rightarrow> nat \<Rightarrow> ledger \<Rightarrow> ledger" where
  "observed ctx driver session events now s =
     (case (ctx, resolve_clock driver session (lg_sessions s)) of
        (Some _, Some key) \<Rightarrow>
          (case bt_get (lg_sessions s) key of
             None \<Rightarrow> s
           | Some c \<Rightarrow>
             (case foldl see_event (sk_seen c, False) events of (seen, terminal) \<Rightarrow>
               if terminal \<and> sk_pending c
               then \<lparr>lg_rows = adjust_all (sk_rows c) (end_row now) (lg_rows s),
                 lg_sessions = bt_insert key \<lparr>sk_rows = sk_rows c, sk_seen = seen, sk_pending = False\<rparr> (lg_sessions s)\<rparr>
               else s\<lparr>lg_sessions := bt_insert key (c\<lparr>sk_seen := seen\<rparr>) (lg_sessions s)\<rparr>))
      | _ \<Rightarrow> s)"

section \<open>The results\<close>

definition row_pending :: "ledger \<Rightarrow> u8 \<Rightarrow> bool" where
  "row_pending s row \<longleftrightarrow> list_ex (\<lambda>(k, c). sk_pending c \<and> row \<in> set (sk_rows c)) (lg_sessions s)"

definition row_end :: "ledger \<Rightarrow> u8 \<Rightarrow> bounds \<Rightarrow> nat option" where
  "row_end s row b = (if row_pending s row then rb_finished b else rb_end b)"

text \<open>\<open>duration_since\<close> saturates, \<open>as_secs_f64\<close> adds seconds and a fraction.\<close>

definition seconds_f64 :: "nat \<Rightarrow> f64" where
  "seconds_f64 ns = f_add (f_of_int (int (ns div 1000000000))) (f_div (f_of_int (int (ns mod 1000000000))) (Fin 1000000000))"

definition row_scope :: "ledger \<Rightarrow> u8 \<Rightarrow> bounds \<Rightarrow> string" where
  "row_scope s row b =
     (if \<not> rb_submitted b then ''operation''
      else if \<not> row_pending s row \<and> rb_end b \<noteq> None then ''submit-to-terminal'' else ''submit-to-interruption'')"

definition apply_row :: "ledger \<Rightarrow> nat \<Rightarrow> test_result \<Rightarrow> test_result" where
  "apply_row s now r = (case bt_get (lg_rows s) (res_row r) of
     None \<Rightarrow> r
   | Some b \<Rightarrow> r\<lparr>res_metadata := (res_metadata r)
       \<lparr>md_wall_duration_s := seconds_f64 ((case row_end s (res_row r) b of None \<Rightarrow> now | Some t \<Rightarrow> t) - rb_start b),
        md_wall_duration_scope := row_scope s (res_row r) b\<rparr>\<rparr>)"

definition apply_ledger :: "ledger \<Rightarrow> nat \<Rightarrow> test_result list \<Rightarrow> test_result list" where
  "apply_ledger s now results = map (apply_row s now) results"

section \<open>Histories\<close>

datatype timing_operation = EnterRows "u8 list" | LeaveRows "u8 list" | FinishRow u8 | CompleteRow u8
  | Submitted "u8 list option" nat string string | RebindDriver "u8 list option" nat nat
  | Observed "u8 list option" nat string "normalized_event list"

fun perform :: "timing_operation \<Rightarrow> nat \<Rightarrow> ledger \<Rightarrow> ledger" where
  "perform (EnterRows rows) now s = enter_rows rows now s"
| "perform (LeaveRows rows) now s = leave_rows rows now s"
| "perform (FinishRow row) now s = finish_row row now s"
| "perform (CompleteRow row) now s = complete_row row now s"
| "perform (Submitted ctx driver session key) now s = submitted ctx driver session key now s"
| "perform (RebindDriver ctx old to) now s = rebind_driver ctx old to s"
| "perform (Observed ctx driver session events) now s = observed ctx driver session events now s"

text \<open>The ledgers of a run, with the clock of the last operation.\<close>

inductive ledger_at :: "nat \<Rightarrow> ledger \<Rightarrow> bool" where
  start: "ledger_at 0 empty_ledger"
| step: "ledger_at t s \<Longrightarrow> t \<le> now \<Longrightarrow> ledger_at now (perform op now s)"

inductive_cases ledger_atE: "ledger_at t s"

section \<open>Properties\<close>

text \<open>The clocks of a run stay ordered, and repeated polls do not move them.\<close>

section \<open>The invariant\<close>

definition ordered :: "nat \<Rightarrow> bounds \<Rightarrow> bool" where
  "ordered now b \<longleftrightarrow> rb_start b \<le> now
     \<and> (case rb_end b of None \<Rightarrow> True | Some e \<Rightarrow> rb_start b \<le> e \<and> e \<le> now)
     \<and> (case rb_finished b of None \<Rightarrow> True | Some f \<Rightarrow> rb_start b \<le> f \<and> f \<le> now)"

definition rows_ordered :: "nat \<Rightarrow> (u8, bounds) btree \<Rightarrow> bool" where
  "rows_ordered now m \<longleftrightarrow> (\<forall>row b. bt_get m row = Some b \<longrightarrow> ordered now b)"

definition submitted_row :: "(u8, bounds) btree \<Rightarrow> u8 \<Rightarrow> bool" where
  "submitted_row m row \<longleftrightarrow> (\<exists>b. bt_get m row = Some b \<and> rb_submitted b)"

definition sessions_submitted :: "ledger \<Rightarrow> bool" where
  "sessions_submitted s \<longleftrightarrow> (\<forall>(k, c) \<in> set (lg_sessions s). \<forall>row \<in> set (sk_rows c). submitted_row (lg_rows s) row)"

definition ledger_ok :: "nat \<Rightarrow> ledger \<Rightarrow> bool" where
  "ledger_ok now s \<longleftrightarrow> rows_ordered now (lg_rows s) \<and> sessions_submitted s \<and> bt_wf (lg_sessions s)"

lemma ordered_later: "ordered t b \<Longrightarrow> t \<le> now \<Longrightarrow> ordered now b"
  by (auto simp: ordered_def split: option.splits)

lemma rows_ordered_later: "rows_ordered t m \<Longrightarrow> t \<le> now \<Longrightarrow> rows_ordered now m"
  by (auto simp: rows_ordered_def intro: ordered_later)

lemma rows_ordered_insert: "rows_ordered now m \<Longrightarrow> ordered now b \<Longrightarrow> rows_ordered now (bt_insert row b m)"
  by (simp add: rows_ordered_def bt_get_insert)

lemma rows_ordered_get: "rows_ordered now m \<Longrightarrow> bt_get m row = Some b \<Longrightarrow> ordered now b"
  by (simp add: rows_ordered_def)

lemma rows_ordered_fold: "rows_ordered now m \<Longrightarrow> (\<And>m row. rows_ordered now m \<Longrightarrow> rows_ordered now (f m row)) \<Longrightarrow> rows_ordered now (foldl f m rows)"
  by (induction rows arbitrary: m) simp_all

lemma adjust_ordered: "rows_ordered now m \<Longrightarrow> (\<And>b. ordered now b \<Longrightarrow> ordered now (f b)) \<Longrightarrow> rows_ordered now (adjust row f m)"
  by (auto simp: adjust_def rows_ordered_get intro!: rows_ordered_insert split: option.splits)

lemma adjust_all_ordered: "rows_ordered now m \<Longrightarrow> (\<And>b. ordered now b \<Longrightarrow> ordered now (f b)) \<Longrightarrow> rows_ordered now (adjust_all rows f m)"
  unfolding adjust_all_def by (rule rows_ordered_fold) (auto intro: adjust_ordered)

section \<open>Rows stay submitted\<close>

lemma submitted_insert: "submitted_row (bt_insert row b m) r \<longleftrightarrow> (if r = row then rb_submitted b else submitted_row m r)"
  by (simp add: submitted_row_def bt_get_insert)

lemma submitted_fold: "submitted_row m r \<Longrightarrow> (\<And>m row. submitted_row m r \<Longrightarrow> submitted_row (f m row) r) \<Longrightarrow> submitted_row (foldl f m rows) r"
  by (induction rows arbitrary: m) simp_all

lemma adjust_submitted:
  assumes "submitted_row m r" and f: "\<And>b. rb_submitted (f b) = rb_submitted b"
  shows "submitted_row (adjust row f m) r"
proof (cases "bt_get m row")
  case None
  then show ?thesis using assms(1) by (simp add: adjust_def)
next
  case (Some b)
  then show ?thesis using assms(1) f [of b] by (auto simp: adjust_def submitted_row_def bt_get_insert)
qed

lemma adjust_all_submitted:
  assumes "submitted_row m r" and f: "\<And>b. rb_submitted (f b) = rb_submitted b"
  shows "submitted_row (adjust_all rows f m) r"
  unfolding adjust_all_def using assms(1)
proof (rule submitted_fold)
  show "submitted_row (adjust row f n) r" if "submitted_row n r" for n row
    using that f by (rule adjust_submitted)
qed

lemma submit_row_submitted: "submitted_row (submit_row now m row) row" "submitted_row m r \<Longrightarrow> submitted_row (submit_row now m row) r"
  by (simp_all add: submit_row_def Let_def submitted_insert)

lemma submit_rows_submitted: "r \<in> set rows \<or> submitted_row m r \<Longrightarrow> submitted_row (foldl (submit_row now) m rows) r"
  by (induction rows arbitrary: m) (auto simp: submit_row_submitted)

lemma open_row_submitted: "submitted_row m r \<Longrightarrow> submitted_row (open_row now m row) r"
  by (auto simp: open_row_def submitted_row_def bt_get_insert split: option.splits)

section \<open>Every operation keeps the invariant\<close>

lemma open_row_ordered: "rows_ordered now m \<Longrightarrow> rows_ordered now (open_row now m row)"
  by (auto simp: open_row_def ordered_def intro!: rows_ordered_insert split: option.split)

lemma submit_row_ordered: "rows_ordered now m \<Longrightarrow> rows_ordered now (submit_row now m row)"
  by (auto simp: submit_row_def Let_def ordered_def intro!: rows_ordered_insert dest: rows_ordered_get split: option.split)

lemma touched_ordered:
  "ordered now b \<Longrightarrow> ordered now (close_row now b)" "ordered now b \<Longrightarrow> ordered now (end_row now b)"
  "ordered now b \<Longrightarrow> ordered now (b\<lparr>rb_end := Some now, rb_finished := Some now\<rparr>)"
  "ordered now b \<Longrightarrow> ordered now (b\<lparr>rb_finished := (case rb_finished b of None \<Rightarrow> Some now | old \<Rightarrow> old)\<rparr>)"
  by (auto simp: ordered_def close_row_def end_row_def split: option.splits)

lemma sessions_mono:
  assumes "sessions_submitted s" and "\<And>r. submitted_row (lg_rows s) r \<Longrightarrow> submitted_row m r"
    and "\<And>k c. (k, c) \<in> set sessions \<Longrightarrow> \<exists>j d. (j, d) \<in> set (lg_sessions s) \<and> sk_rows c = sk_rows d"
  shows "sessions_submitted \<lparr>lg_rows = m, lg_sessions = sessions\<rparr>"
  using assms by (fastforce simp: sessions_submitted_def)

lemma move_sessions:
  "(k, c) \<in> set (foldl (move_session to) m keys) \<Longrightarrow> \<exists>j. (j, c) \<in> set m"
proof (induction keys arbitrary: m)
  case (Cons key keys)
  have "\<exists>j. (j, c) \<in> set (move_session to m key)" using Cons.prems by (intro Cons.IH) simp
  then obtain j where j: "(j, c) \<in> set (move_session to m key)" by blast
  show ?case
  proof (cases "bt_get m key")
    case None
    then have "(j, c) \<in> set m" using j by (simp add: move_session_def)
    then show ?thesis by blast
  next
    case (Some d)
    then have "(j, c) \<in> set (bt_insert (to, snd key) d (bt_remove key m))" using j by (simp add: move_session_def)
    from subsetD [OF set_bt_insert this] have "c = d \<or> (j, c) \<in> set m" by (auto simp: bt_remove_def)
    then show ?thesis using bt_get_Some_in [OF Some] by blast
  qed
qed (simp only: foldl.simps, blast)

lemma move_sessions_wf: "bt_wf m \<Longrightarrow> bt_wf (foldl (move_session to) m keys)"
  by (induction keys arbitrary: m) (auto simp: move_session_def intro!: bt_wf_insert bt_wf_remove split: option.split)

lemma retire_sessions:
  assumes "(k, c) \<in> set (map (\<lambda>(k, c). (k, retire_row row c)) m)"
  shows "\<exists>j d. (j, d) \<in> set m \<and> sk_rows c = sk_rows d"
proof -
  obtain d where "(k, d) \<in> set m" "c = retire_row row d" using assms by (auto simp del: split_paired_Ex)
  moreover have "sk_rows (retire_row row d) = sk_rows d" by (simp add: retire_row_def)
  ultimately show ?thesis by metis
qed

lemma retire_wf: "bt_wf m \<Longrightarrow> bt_wf (map (\<lambda>(k, c). (k, retire_row row c)) m)"
  by (simp add: bt_wf_def o_def split_beta)

lemma insert_sessions:
  assumes "sessions_submitted s" and "\<And>r. submitted_row (lg_rows s) r \<Longrightarrow> submitted_row m r"
    and "\<And>r. r \<in> set (sk_rows c) \<Longrightarrow> submitted_row m r"
  shows "sessions_submitted \<lparr>lg_rows = m, lg_sessions = bt_insert key c (lg_sessions s)\<rparr>"
proof -
  have "\<forall>row \<in> set (sk_rows d). submitted_row m row" if "(k, d) \<in> set (bt_insert key c (lg_sessions s))" for k d
    using subsetD [OF set_bt_insert that] assms by (fastforce simp: sessions_submitted_def)
  then show ?thesis by (auto simp: sessions_submitted_def)
qed

lemma observed_ok: "ledger_ok now s \<Longrightarrow> ledger_ok now (observed ctx driver session events now s)"
proof (cases "ctx = None \<or> resolve_clock driver session (lg_sessions s) = None")
  case False
  then obtain rows key where key: "ctx = Some rows" "resolve_clock driver session (lg_sessions s) = Some key" by auto
  assume ok: "ledger_ok now s"
  show ?thesis
  proof (cases "bt_get (lg_sessions s) key")
    case None
    then show ?thesis using ok key by (simp add: observed_def)
  next
    case (Some c)
    obtain seen terminal where fold: "foldl see_event (sk_seen c, False) events = (seen, terminal)" by force
    have mine: "\<forall>r \<in> set (sk_rows c). submitted_row (lg_rows s) r"
      using ok bt_get_Some_in [OF Some] by (auto simp: ledger_ok_def sessions_submitted_def)
    have kept: "submitted_row (adjust_all rows (end_row now) (lg_rows s)) r" if "submitted_row (lg_rows s) r" for rows r
      using that by (rule adjust_all_submitted) (simp add: end_row_def)
    have "rows_ordered now (adjust_all (sk_rows c) (end_row now) (lg_rows s))"
      using ok touched_ordered(2) by (intro adjust_all_ordered) (simp_all add: ledger_ok_def)
    moreover have "sessions_submitted \<lparr>lg_rows = adjust_all (sk_rows c) (end_row now) (lg_rows s),
        lg_sessions = bt_insert key \<lparr>sk_rows = sk_rows c, sk_seen = seen, sk_pending = False\<rparr> (lg_sessions s)\<rparr>"
      using ok mine kept by (intro insert_sessions) (simp_all add: ledger_ok_def)
    moreover have "sessions_submitted (s\<lparr>lg_sessions := bt_insert key (c\<lparr>sk_seen := seen\<rparr>) (lg_sessions s)\<rparr>)"
      using insert_sessions [of s "lg_rows s" "c\<lparr>sk_seen := seen\<rparr>" key] ok mine
      by (simp add: ledger_ok_def sessions_submitted_def)
    ultimately show ?thesis using ok key Some fold by (simp add: observed_def ledger_ok_def bt_wf_insert)
  qed
qed (auto simp: observed_def split: option.split)


lemma sessions_submitted_rows:
  assumes "sessions_submitted s" and "\<And>r. submitted_row (lg_rows s) r \<Longrightarrow> submitted_row m r"
  shows "sessions_submitted (s\<lparr>lg_rows := m\<rparr>)"
  using assms by (fastforce simp: sessions_submitted_def)

lemma perform_rows_ok:
  assumes "ledger_ok now s" and "rows_ordered now m" and "\<And>r. submitted_row (lg_rows s) r \<Longrightarrow> submitted_row m r"
  shows "ledger_ok now (s\<lparr>lg_rows := m\<rparr>)"
  using assms sessions_submitted_rows [of s m] by (simp add: ledger_ok_def)

lemma fold_open_submitted: "submitted_row m r \<Longrightarrow> submitted_row (foldl (open_row now) m rows) r"
  by (rule submitted_fold) (auto intro: open_row_submitted)

lemma enter_ok: "ledger_ok now s \<Longrightarrow> ledger_ok now (enter_rows rows now s)"
  unfolding enter_rows_def
  by (rule perform_rows_ok) (auto simp: ledger_ok_def intro: rows_ordered_fold open_row_ordered fold_open_submitted)

lemma leave_ok: "ledger_ok now s \<Longrightarrow> ledger_ok now (leave_rows rows now s)"
  unfolding leave_rows_def
  by (rule perform_rows_ok) (auto simp: ledger_ok_def close_row_def intro: adjust_all_ordered touched_ordered(1) adjust_all_submitted)

lemma finish_ok: "ledger_ok now s \<Longrightarrow> ledger_ok now (finish_row row now s)"
  unfolding finish_row_def
  by (rule perform_rows_ok) (auto simp: ledger_ok_def intro: adjust_ordered touched_ordered(4) adjust_submitted)

lemma complete_ok: "ledger_ok now s \<Longrightarrow> ledger_ok now (complete_row row now s)"
proof -
  assume ok: "ledger_ok now s"
  let ?m = "adjust row (\<lambda>b. b\<lparr>rb_end := Some now, rb_finished := Some now\<rparr>) (lg_rows s)"
  have "rows_ordered now ?m" using ok touched_ordered(3) by (intro adjust_ordered) (simp_all add: ledger_ok_def)
  moreover have "sessions_submitted (complete_row row now s)" unfolding complete_row_def
  proof (rule sessions_mono)
    show "sessions_submitted s" using ok by (simp add: ledger_ok_def)
    show "submitted_row ?m r" if "submitted_row (lg_rows s) r" for r using that by (rule adjust_submitted) simp
  qed (rule retire_sessions)
  moreover have "bt_wf (map (\<lambda>(k, c). (k, retire_row row c)) (lg_sessions s))" using ok by (intro retire_wf) (simp add: ledger_ok_def)
  ultimately show ?thesis by (simp add: ledger_ok_def complete_row_def)
qed

lemma submitted_ok: "ledger_ok now s \<Longrightarrow> ledger_ok now (submitted ctx driver session key now s)"
proof (cases ctx)
  case (Some rows)
  assume ok: "ledger_ok now s"
  let ?rows = "attributed_rows rows key" and ?m = "foldl (submit_row now) (lg_rows s) (attributed_rows rows key)"
  have "rows_ordered now ?m" using ok by (intro rows_ordered_fold) (auto simp: ledger_ok_def intro: submit_row_ordered)
  moreover have "sessions_submitted \<lparr>lg_rows = ?m,
      lg_sessions = bt_insert (driver, session) \<lparr>sk_rows = ?rows, sk_seen = [], sk_pending = True\<rparr> (lg_sessions s)\<rparr>"
    using ok by (intro insert_sessions) (auto simp: ledger_ok_def intro: submit_rows_submitted)
  ultimately show ?thesis using ok Some by (simp add: submitted_def Let_def ledger_ok_def bt_wf_insert)
qed (simp add: submitted_def)

lemma rebind_ok: "ledger_ok now s \<Longrightarrow> ledger_ok now (rebind_driver ctx old to s)"
proof -
  assume ok: "ledger_ok now s"
  have "sessions_submitted (s\<lparr>lg_sessions := foldl (move_session to) (lg_sessions s) keys\<rparr>)" for keys
    using ok move_sessions unfolding sessions_submitted_def ledger_ok_def by fastforce
  then show ?thesis using ok move_sessions_wf by (simp add: rebind_driver_def ledger_ok_def)
qed

lemma perform_ok: "ledger_ok now s \<Longrightarrow> ledger_ok now (perform op now s)"
  by (cases op) (simp_all add: enter_ok leave_ok finish_ok complete_ok submitted_ok rebind_ok observed_ok)

lemma ledger_at_ok: "ledger_at t s \<Longrightarrow> ledger_ok t s"
proof (induction rule: ledger_at.induct)
  case start
  then show ?case by (simp add: ledger_ok_def empty_ledger_def rows_ordered_def sessions_submitted_def bt_wf_def)
next
  case (step t s now op)
  then have "ledger_ok now s" by (auto simp: ledger_ok_def intro: rows_ordered_later)
  then show ?case by (rule perform_ok)
qed

text \<open>A row whose session still waits for a terminal event is submitted.\<close>

lemma pending_submitted: "sessions_submitted s \<Longrightarrow> row_pending s row \<Longrightarrow> submitted_row (lg_rows s) row"
  by (fastforce simp: sessions_submitted_def row_pending_def list_ex_iff)

section \<open>Where the clocks come from\<close>

text \<open>A history of the ledger: the operations and the clocks they read, in the order of the lock.\<close>

type_synonym timing_history = "(timing_operation \<times> nat) list"

definition run_history :: "timing_history \<Rightarrow> ledger" where
  "run_history hs = foldl (\<lambda>s (op, now). perform op now s) empty_ledger hs"

text \<open>A session was submitted for a row: under the rows of the task, or for the row its key names.\<close>

definition submitted_at :: "timing_history \<Rightarrow> u8 \<Rightarrow> string \<Rightarrow> nat \<Rightarrow> bool" where
  "submitted_at hs row session t \<longleftrightarrow> (\<exists>rows driver key. (Submitted (Some rows) driver session key, t) \<in> set hs
     \<and> row \<in> set (if rows = [] then rows_of_key key else rows))"

text \<open>The row ended at an instant: it was completed, or a terminal event of a session submitted for it was observed.\<close>

definition ended_at :: "timing_history \<Rightarrow> u8 \<Rightarrow> nat \<Rightarrow> bool" where
  "ended_at hs row t \<longleftrightarrow> (CompleteRow row, t) \<in> set hs
     \<or> (\<exists>rows driver session events. (Observed (Some rows) driver session events, t) \<in> set hs
          \<and> (\<exists>ev \<in> set events. ne_event ev \<in> {TerminalSuccess, TerminalFailure, TerminalCancelled, TerminalTimeout})
          \<and> (\<exists>u. submitted_at hs row session u))"

definition bounds_traced :: "timing_history \<Rightarrow> u8 \<Rightarrow> bounds \<Rightarrow> bool" where
  "bounds_traced hs row b \<longleftrightarrow>
     (if rb_submitted b then \<exists>session. submitted_at hs row session (rb_start b)
      else \<exists>rows. (EnterRows rows, rb_start b) \<in> set hs \<and> row \<in> set rows)
     \<and> (rb_submitted b \<longrightarrow> (\<forall>e. rb_end b = Some e \<longrightarrow> ended_at hs row e))"

definition rows_traced :: "timing_history \<Rightarrow> (u8, bounds) btree \<Rightarrow> bool" where
  "rows_traced hs m \<longleftrightarrow> (\<forall>row b. bt_get m row = Some b \<longrightarrow> bounds_traced hs row b)"

definition sessions_traced :: "timing_history \<Rightarrow> (nat \<times> string, session_clock) btree \<Rightarrow> bool" where
  "sessions_traced hs m \<longleftrightarrow> (\<forall>(k, c) \<in> set m. \<forall>row \<in> set (sk_rows c). \<exists>t. submitted_at hs row (snd k) t)"

lemma submitted_at_mono: "submitted_at hs row session t \<Longrightarrow> set hs \<subseteq> set hs' \<Longrightarrow> submitted_at hs' row session t"
  unfolding submitted_at_def by blast

lemma ended_at_mono: "ended_at hs row t \<Longrightarrow> set hs \<subseteq> set hs' \<Longrightarrow> ended_at hs' row t"
  unfolding ended_at_def using submitted_at_mono by blast

lemma bounds_traced_mono: "bounds_traced hs row b \<Longrightarrow> set hs \<subseteq> set hs' \<Longrightarrow> bounds_traced hs' row b"
  by (cases "rb_submitted b") (auto simp: bounds_traced_def intro: submitted_at_mono ended_at_mono)

lemma rows_traced_mono: "rows_traced hs m \<Longrightarrow> set hs \<subseteq> set hs' \<Longrightarrow> rows_traced hs' m"
  unfolding rows_traced_def using bounds_traced_mono by blast

lemma sessions_traced_mono: "sessions_traced hs m \<Longrightarrow> set hs \<subseteq> set hs' \<Longrightarrow> sessions_traced hs' m"
  unfolding sessions_traced_def using submitted_at_mono by blast

lemma rows_traced_insert: "rows_traced hs m \<Longrightarrow> bounds_traced hs row b \<Longrightarrow> rows_traced hs (bt_insert row b m)"
  by (simp add: rows_traced_def bt_get_insert)

lemma rows_traced_fold:
  assumes "\<And>m row. row \<in> set rows \<Longrightarrow> rows_traced hs m \<Longrightarrow> rows_traced hs (f m row)"
  shows "rows_traced hs m \<Longrightarrow> rows_traced hs (foldl f m rows)"
  using assms by (induction rows arbitrary: m) simp_all

lemma adjust_traced:
  assumes "rows_traced hs m" "\<And>b. bounds_traced hs row b \<Longrightarrow> bounds_traced hs row (f b)"
  shows "rows_traced hs (adjust row f m)"
proof (cases "bt_get m row")
  case (Some b)
  then have "bounds_traced hs row (f b)" using assms by (simp add: rows_traced_def)
  then show ?thesis using assms(1) Some by (simp add: adjust_def rows_traced_insert)
qed (use assms(1) in \<open>simp add: adjust_def\<close>)

lemma adjust_all_traced:
  assumes "rows_traced hs m" "\<And>row b. row \<in> set rows \<Longrightarrow> bounds_traced hs row b \<Longrightarrow> bounds_traced hs row (f b)"
  shows "rows_traced hs (adjust_all rows f m)"
  unfolding adjust_all_def using assms(1) by (rule rows_traced_fold [rotated]) (rule adjust_traced, simp_all add: assms(2))

lemma open_row_traced:
  assumes "(EnterRows rows, now) \<in> set hs" "row \<in> set rows" "rows_traced hs m"
  shows "rows_traced hs (open_row now m row)"
proof -
  have "bounds_traced hs row \<lparr>rb_start = now, rb_end = None, rb_submitted = False, rb_finished = None\<rparr>"
    using assms(1,2) by (auto simp: bounds_traced_def)
  then show ?thesis using assms(3) by (simp add: open_row_def rows_traced_insert split: option.split)
qed

lemma submit_row_traced:
  assumes "submitted_at hs row session now" "rows_traced hs m"
  shows "rows_traced hs (submit_row now m row)"
proof -
  have "\<exists>session. submitted_at hs row session (rb_start b)" if "bt_get m row = Some b" "rb_submitted b" for b
    using assms(2) that by (auto simp: rows_traced_def bounds_traced_def split: if_splits)
  then show ?thesis using assms
    by (auto simp: submit_row_def Let_def bounds_traced_def intro!: rows_traced_insert split: option.splits)
qed

lemma see_events_terminal:
  "foldl see_event (seen, False) es = (seen', True) \<Longrightarrow>
    \<exists>ev \<in> set es. ne_event ev \<in> {TerminalSuccess, TerminalFailure, TerminalCancelled, TerminalTimeout}"
proof (induction es arbitrary: seen)
  case (Cons e es)
  then show ?case by (cases "is_terminal_event e") (auto simp: see_event_def is_terminal_event_def)
qed simp

lemma single_key: "(case xs of [(k, c)] \<Rightarrow> Some k | _ \<Rightarrow> None) = Some key \<Longrightarrow> \<exists>c. xs = [(key, c)]"
  by (auto split: list.splits)

lemma resolve_clock_session:
  assumes "resolve_clock driver session m = Some key"
  shows "snd key = session"
proof (cases "bt_get m (driver, session) = None")
  case False
  then have "key = (driver, session)" using assms unfolding resolve_clock_def by simp
  then show ?thesis by simp
next
  case True
  then have "(case filter (\<lambda>(k, c). snd k = session \<and> sk_pending c) m of [(k, c)] \<Rightarrow> Some k | _ \<Rightarrow> None) = Some key"
    using assms unfolding resolve_clock_def by (simp only: simp_thms if_False not_True_eq_False)
  from single_key [OF this] obtain c where "filter (\<lambda>(k, c). snd k = session \<and> sk_pending c) m = [(key, c)]" by blast
  then have "(key, c) \<in> set (filter (\<lambda>(k, c). snd k = session \<and> sk_pending c) m)" by (simp only: list.set_intros)
  then show ?thesis unfolding set_filter by blast
qed

lemma sessions_traced_iff:
  "sessions_traced hs m \<longleftrightarrow> (\<forall>k c row. (k, c) \<in> set m \<longrightarrow> row \<in> set (sk_rows c) \<longrightarrow> (\<exists>t. submitted_at hs row (snd k) t))"
  unfolding sessions_traced_def by blast

lemma sessions_traced_insert:
  assumes "sessions_traced hs m" and "\<And>row. row \<in> set (sk_rows c) \<Longrightarrow> \<exists>t. submitted_at hs row (snd key) t"
  shows "sessions_traced hs (bt_insert key c m)"
  unfolding sessions_traced_iff
proof (intro allI impI)
  fix k d row assume member: "(k, d) \<in> set (bt_insert key c m)" and row: "row \<in> set (sk_rows d)"
  from subsetD [OF set_bt_insert member] have "(k, d) = (key, c) \<or> (k, d) \<in> set m" by (simp only: insert_iff)
  then show "\<exists>t. submitted_at hs row (snd k) t"
  proof
    assume "(k, d) = (key, c)"
    then show ?thesis using assms(2) row by simp
  next
    assume "(k, d) \<in> set m"
    with assms(1) row show ?thesis unfolding sessions_traced_iff by metis
  qed
qed

lemma sessions_traced_subset: "sessions_traced hs m \<Longrightarrow> set n \<subseteq> set m \<Longrightarrow> sessions_traced hs n"
  unfolding sessions_traced_def by blast

definition ledger_traced :: "timing_history \<Rightarrow> ledger \<Rightarrow> bool" where
  "ledger_traced hs s \<longleftrightarrow> rows_traced hs (lg_rows s) \<and> sessions_traced hs (lg_sessions s)"

lemma observed_traced:
  assumes ok: "ledger_traced hs s" and op: "(Observed ctx driver session events, now) \<in> set hs"
  shows "ledger_traced hs (observed ctx driver session events now s)"
proof (cases "ctx = None \<or> resolve_clock driver session (lg_sessions s) = None")
  case False
  then obtain rows key where key: "ctx = Some rows" "resolve_clock driver session (lg_sessions s) = Some key" by auto
  show ?thesis
  proof (cases "bt_get (lg_sessions s) key")
    case None
    then show ?thesis using ok key by (simp add: observed_def)
  next
    case (Some c)
    obtain seen terminal where fold: "foldl see_event (sk_seen c, False) events = (seen, terminal)" by force
    have mine: "\<exists>u. submitted_at hs row (snd key) u" if "row \<in> set (sk_rows c)" for row
      using ok bt_get_Some_in [OF Some] that by (auto simp: ledger_traced_def sessions_traced_def)
    then have kept: "sessions_traced hs (bt_insert key d (lg_sessions s))" if "sk_rows d = sk_rows c" for d
      using ok that by (intro sessions_traced_insert) (simp_all add: ledger_traced_def)
    have "rows_traced hs (adjust_all (sk_rows c) (end_row now) (lg_rows s))" if "terminal"
    proof (rule adjust_all_traced)
      show "rows_traced hs (lg_rows s)" using ok by (simp add: ledger_traced_def)
      show "bounds_traced hs row (end_row now b)" if "row \<in> set (sk_rows c)" "bounds_traced hs row b" for row b
      proof -
        have "\<exists>ev \<in> set events. ne_event ev \<in> {TerminalSuccess, TerminalFailure, TerminalCancelled, TerminalTimeout}"
          using fold \<open>terminal\<close> by (intro see_events_terminal [of "sk_seen c" events seen]) simp
        moreover have "\<exists>u. submitted_at hs row session u" using mine [OF that(1)] by (simp add: resolve_clock_session [OF key(2)])
        ultimately have "ended_at hs row now" using op unfolding key(1) ended_at_def by blast
        then show ?thesis using that(2) by (simp add: bounds_traced_def end_row_def)
      qed
    qed
    then show ?thesis using ok key Some fold kept by (simp add: observed_def ledger_traced_def)
  qed
qed (use ok in \<open>auto simp: observed_def split: option.split\<close>)

lemma submitted_traced:
  assumes ok: "ledger_traced hs s" and op: "(Submitted ctx driver session key, now) \<in> set hs"
  shows "ledger_traced hs (submitted ctx driver session key now s)"
proof (cases ctx)
  case (Some rows)
  have mine: "submitted_at hs row session now" if "row \<in> set (attributed_rows rows key)" for row
    using op that unfolding Some submitted_at_def attributed_rows_def by blast
  have "rows_traced hs (foldl (submit_row now) (lg_rows s) (attributed_rows rows key))"
  proof (rule rows_traced_fold)
    show "rows_traced hs (submit_row now m row)" if "row \<in> set (attributed_rows rows key)" "rows_traced hs m" for m row
      using mine [OF that(1)] that(2) by (rule submit_row_traced)
    show "rows_traced hs (lg_rows s)" using ok by (simp add: ledger_traced_def)
  qed
  moreover have "sessions_traced hs (bt_insert (driver, session) \<lparr>sk_rows = attributed_rows rows key, sk_seen = [], sk_pending = True\<rparr> (lg_sessions s))"
    using ok mine by (intro sessions_traced_insert) (auto simp: ledger_traced_def)
  ultimately show ?thesis using ok Some by (simp add: submitted_def Let_def ledger_traced_def)
qed (use ok in \<open>simp add: submitted_def\<close>)

lemma moved_traced: "sessions_traced hs m \<Longrightarrow> sessions_traced hs (foldl (move_session to) m keys)"
proof (induction keys arbitrary: m)
  case (Cons key keys)
  have "sessions_traced hs (move_session to m key)"
  proof (cases "bt_get m key")
    case (Some c)
    have "sessions_traced hs (bt_remove key m)"
      using Cons.prems by (rule sessions_traced_subset) (auto simp: bt_remove_def)
    moreover have "\<exists>t. submitted_at hs row (snd key) t" if "row \<in> set (sk_rows c)" for row
      using Cons.prems bt_get_Some_in [OF Some] that unfolding sessions_traced_def by blast
    ultimately have "sessions_traced hs (bt_insert (to, snd key) c (bt_remove key m))" by (intro sessions_traced_insert) simp_all
    then show ?thesis using Some by (simp add: move_session_def)
  qed (use Cons.prems in \<open>simp add: move_session_def\<close>)
  then show ?case using Cons.IH by simp
qed simp

lemma retired_traced: "sessions_traced hs m \<Longrightarrow> sessions_traced hs (map (\<lambda>(k, c). (k, retire_row row c)) m)"
proof -
  have "sk_rows (retire_row row c) = sk_rows c" for c by (simp add: retire_row_def)
  then show "sessions_traced hs m \<Longrightarrow> sessions_traced hs (map (\<lambda>(k, c). (k, retire_row row c)) m)"
    unfolding sessions_traced_def by auto
qed

lemma touched_traced:
  "bounds_traced hs row b \<Longrightarrow> bounds_traced hs row (close_row now b)"
  "bounds_traced hs row b \<Longrightarrow> bounds_traced hs row (b\<lparr>rb_finished := f\<rparr>)"
  "(CompleteRow row, now) \<in> set hs \<Longrightarrow> bounds_traced hs row b \<Longrightarrow> bounds_traced hs row (b\<lparr>rb_end := Some now, rb_finished := Some now\<rparr>)"
  by (auto simp: bounds_traced_def close_row_def ended_at_def)

lemma perform_traced:
  assumes ok: "ledger_traced hs s" and op: "(op, now) \<in> set hs"
  shows "ledger_traced hs (perform op now s)"
proof (cases op)
  case (EnterRows rows)
  have "rows_traced hs (foldl (open_row now) (lg_rows s) rows)"
    using ok op EnterRows by (intro rows_traced_fold open_row_traced [of rows]) (simp_all add: ledger_traced_def)
  then show ?thesis using ok by (simp add: EnterRows enter_rows_def ledger_traced_def)
next
  case (LeaveRows rows)
  have "rows_traced hs (adjust_all rows (close_row now) (lg_rows s))"
    using ok by (intro adjust_all_traced touched_traced(1)) (simp_all add: ledger_traced_def)
  then show ?thesis using ok by (simp add: LeaveRows leave_rows_def ledger_traced_def)
next
  case (FinishRow row)
  have "rows_traced hs (adjust row (\<lambda>b. b\<lparr>rb_finished := (case rb_finished b of None \<Rightarrow> Some now | old \<Rightarrow> old)\<rparr>) (lg_rows s))"
    using ok by (intro adjust_traced touched_traced(2)) (simp_all add: ledger_traced_def)
  then show ?thesis using ok by (simp add: FinishRow finish_row_def ledger_traced_def)
next
  case (CompleteRow row)
  have "rows_traced hs (adjust row (\<lambda>b. b\<lparr>rb_end := Some now, rb_finished := Some now\<rparr>) (lg_rows s))"
    using ok op CompleteRow by (intro adjust_traced touched_traced(3)) (simp_all add: ledger_traced_def)
  then show ?thesis using ok by (simp add: CompleteRow complete_row_def ledger_traced_def retired_traced)
next
  case (RebindDriver ctx old to)
  then show ?thesis using ok moved_traced by (simp add: rebind_driver_def ledger_traced_def)
qed (use ok op observed_traced submitted_traced in simp_all)

lemma history_traced: "ledger_traced hs (run_history hs)"
proof (induction hs rule: rev_induct)
  case Nil
  then show ?case by (simp add: run_history_def empty_ledger_def ledger_traced_def rows_traced_def sessions_traced_def)
next
  case (snoc h hs)
  obtain op now where h: "h = (op, now)" by (cases h)
  have "ledger_traced (hs @ [h]) (run_history hs)"
    using snoc rows_traced_mono [of hs "lg_rows (run_history hs)" "hs @ [h]"] sessions_traced_mono [of hs "lg_sessions (run_history hs)" "hs @ [h]"]
    by (auto simp: ledger_traced_def)
  then have "ledger_traced (hs @ [h]) (perform op now (run_history hs))" by (rule perform_traced) (simp add: h)
  then show ?case by (simp add: run_history_def h)
qed

lemma history_ledger_at: "sorted (map snd hs) \<Longrightarrow> ledger_at (if hs = [] then 0 else snd (last hs)) (run_history hs)"
proof (induction hs rule: rev_induct)
  case Nil
  then show ?case by (simp add: run_history_def ledger_at.start)
next
  case (snoc h hs)
  have before: "(if hs = [] then 0 else snd (last hs)) \<le> snd h" using snoc.prems by (auto simp: sorted_append)
  have "ledger_at (if hs = [] then 0 else snd (last hs)) (run_history hs)" using snoc by (simp add: sorted_append)
  from ledger_at.step [OF this before, of "fst h"] show ?case by (simp add: run_history_def split_beta)
qed

text \<open>C23: in every history of the ledger, the duration a result row gets is the time from the start of its row, which
  is the instant of a submission for the row when there was one and else of its entry, to an instant between that start
  and now.  The row says submit-to-terminal exactly when it was submitted, has an end and no session still pending;
  the instant is then its end, at which the row was completed or a terminal event of a session submitted for the row
  was observed; and a row with a pending session says submit-to-interruption.
\<close>

theorem row_durations_sound:
  assumes "sorted (map snd hs)" and "\<forall>(op, t) \<in> set hs. t \<le> now" and "bt_get (lg_rows (run_history hs)) (res_row r) = Some b"
  shows "(if rb_submitted b then \<exists>session. submitted_at hs (res_row r) session (rb_start b)
          else \<exists>rows. (EnterRows rows, rb_start b) \<in> set hs \<and> res_row r \<in> set rows)
    \<and> (\<exists>e. rb_start b \<le> e \<and> e \<le> now
      \<and> md_wall_duration_s (res_metadata (apply_row (run_history hs) now r)) = seconds_f64 (e - rb_start b)
      \<and> (md_wall_duration_scope (res_metadata (apply_row (run_history hs) now r)) = ''submit-to-terminal''
          \<longleftrightarrow> rb_submitted b \<and> rb_end b = Some e
              \<and> \<not> (\<exists>(k, c) \<in> set (lg_sessions (run_history hs)). sk_pending c \<and> res_row r \<in> set (sk_rows c)))
      \<and> (md_wall_duration_scope (res_metadata (apply_row (run_history hs) now r)) = ''submit-to-terminal''
          \<longrightarrow> ended_at hs (res_row r) e)
      \<and> ((\<exists>(k, c) \<in> set (lg_sessions (run_history hs)). sk_pending c \<and> res_row r \<in> set (sk_rows c))
          \<longrightarrow> md_wall_duration_scope (res_metadata (apply_row (run_history hs) now r)) = ''submit-to-interruption''))"
proof -
  let ?s = "run_history hs" and ?t = "if hs = [] then 0 else snd (last hs)"
  let ?e = "case row_end ?s (res_row r) b of None \<Rightarrow> now | Some e \<Rightarrow> e"
  have pending: "row_pending ?s (res_row r) \<longleftrightarrow> (\<exists>(k, c) \<in> set (lg_sessions ?s). sk_pending c \<and> res_row r \<in> set (sk_rows c))"
    by (auto simp: row_pending_def list_ex_iff)
  have "\<forall>h \<in> set hs. snd h \<le> now" using assms(2) by auto
  then have now: "?t \<le> now" by auto
  have ok: "ledger_ok ?t ?s" using history_ledger_at [OF assms(1)] by (rule ledger_at_ok)
  then have ordered: "ordered now b" using now assms(3) by (meson ledger_ok_def ordered_later rows_ordered_get)
  have traced: "bounds_traced hs (res_row r) b"
    using history_traced [of hs] assms(3) by (simp add: ledger_traced_def rows_traced_def)
  have between: "rb_start b \<le> ?e \<and> ?e \<le> now" using ordered by (auto simp: ordered_def row_end_def split: option.splits)
  have submitted: "row_pending ?s (res_row r) \<Longrightarrow> rb_submitted b"
    using ok assms(3) pending_submitted [of ?s "res_row r"] by (simp add: ledger_ok_def submitted_row_def)
  have result: "md_wall_duration_s (res_metadata (apply_row ?s now r)) = seconds_f64 (?e - rb_start b)"
    "md_wall_duration_scope (res_metadata (apply_row ?s now r)) = row_scope ?s (res_row r) b"
    using assms(3) by (simp_all add: apply_row_def)
  have scope: "row_scope ?s (res_row r) b = ''submit-to-terminal''
      \<longleftrightarrow> rb_submitted b \<and> rb_end b = Some ?e \<and> \<not> row_pending ?s (res_row r)"
    by (auto simp: row_scope_def row_end_def)
  then have ended: "row_scope ?s (res_row r) b = ''submit-to-terminal'' \<longrightarrow> ended_at hs (res_row r) ?e"
    using traced by (auto simp: bounds_traced_def)
  have interrupted: "row_pending ?s (res_row r) \<longrightarrow> row_scope ?s (res_row r) b = ''submit-to-interruption''"
    using submitted by (simp add: row_scope_def)
  have started: "if rb_submitted b then \<exists>session. submitted_at hs (res_row r) session (rb_start b)
          else \<exists>rows. (EnterRows rows, rb_start b) \<in> set hs \<and> res_row r \<in> set rows"
    using traced by (simp add: bounds_traced_def)
  show ?thesis
    unfolding result pending [symmetric]
    using started between scope ended interrupted by (intro conjI exI [of _ ?e]) simp_all
qed

section \<open>Repeated polls\<close>

lemma see_event_terminal: "is_terminal_event e \<Longrightarrow> see_event (seen, b) e = (bs_insert (ne_id e) seen, b \<or> ne_id e \<notin> set seen)"
  by (simp add: see_event_def)

lemma see_event_other: "\<not> is_terminal_event e \<Longrightarrow> see_event (seen, b) e = (seen, b)"
  by (simp add: see_event_def)

lemma see_events_seen:
  "foldl see_event (seen, b) es = (seen', b') \<Longrightarrow>
    set seen \<subseteq> set seen' \<and> (\<forall>e \<in> set es. is_terminal_event e \<longrightarrow> ne_id e \<in> set seen')
    \<and> (sorted_wrt (<) seen \<or> (\<exists>e \<in> set es. is_terminal_event e) \<longrightarrow> sorted_wrt (<) seen')"
proof (induction es arbitrary: seen b)
  case (Cons e es)
  show ?case
  proof (cases "is_terminal_event e")
    case True
    then have "foldl see_event (bs_insert (ne_id e) seen, b \<or> ne_id e \<notin> set seen) es = (seen', b')"
      using Cons.prems by (simp add: see_event_terminal)
    moreover have "sorted_wrt (<) (bs_insert (ne_id e) seen)" by (simp add: bs_insert_def bset_of_list_sorted)
    ultimately show ?thesis using Cons.IH True by fastforce
  next
    case False
    then have "foldl see_event (seen, b) es = (seen', b')" using Cons.prems by (simp add: see_event_other)
    then show ?thesis using Cons.IH False by fastforce
  qed
qed simp

lemma see_events_idle:
  assumes "\<forall>e \<in> set es. is_terminal_event e \<longrightarrow> ne_id e \<in> set seen"
    and "(\<exists>e \<in> set es. is_terminal_event e) \<longrightarrow> sorted_wrt (<) seen"
  shows "foldl see_event (seen, False) es = (seen, False)"
  using assms
proof (induction es)
  case (Cons e es)
  then show ?case by (cases "is_terminal_event e") (simp_all add: see_event_terminal see_event_other bs_insert_same)
qed simp

lemma see_events_again: "foldl see_event (seen, b) es = (seen', b') \<Longrightarrow> foldl see_event (seen', False) es = (seen', False)"
  using see_events_seen [of seen b es seen' b'] by (intro see_events_idle) blast+

lemma filter_update:
  assumes wf: "bt_wf m" and one: "filter P m = [e]"
  shows "filter P (map (\<lambda>x. if fst x = fst e then (fst e, d) else x) m) = (if P (fst e, d) then [(fst e, d)] else [])"
proof -
  obtain us vs where m: "m = us @ e # vs" and us: "\<forall>x \<in> set us. \<not> P x" and vs: "filter P vs = []"
    using one filter_eq_Cons_iff [of P m e "[]"] by auto
  have "\<forall>x \<in> set us. fst x \<noteq> fst e" "\<forall>x \<in> set vs. fst x \<noteq> fst e"
    using wf by (auto simp: bt_wf_def m sorted_wrt_append)
  then have "map (\<lambda>x. if fst x = fst e then (fst e, d) else x) us = us"
    "map (\<lambda>x. if fst x = fst e then (fst e, d) else x) vs = vs" by (simp_all add: map_idI)
  then show ?thesis using us vs by (simp add: m)
qed

text \<open>A clock found by an observation is found again unless the observation settled it.\<close>

lemma resolve_again:
  assumes wf: "bt_wf m" and key: "resolve_clock driver session m = Some key" and get: "bt_get m key = Some c"
    and pending: "sk_pending d \<longrightarrow> sk_pending c"
  shows "resolve_clock driver session (bt_insert key d m)
    = (if bt_get m (driver, session) \<noteq> None \<or> sk_pending d then Some key else None)"
proof (cases "bt_get m (driver, session) = None")
  case False
  then show ?thesis using key by (simp add: resolve_clock_def bt_get_insert)
next
  case True
  let ?P = "\<lambda>e :: (nat \<times> string) \<times> session_clock. snd (fst e) = session \<and> sk_pending (snd e)"
  have P: "(\<lambda>(k, c). snd k = session \<and> sk_pending c) = ?P" by auto
  have res: "resolve_clock driver session n
    = (case filter ?P n of [e] \<Rightarrow> Some (fst e) | _ \<Rightarrow> None)" if "bt_get n (driver, session) = None" for n
    using that by (simp add: resolve_clock_def P) (auto split: list.splits)
  obtain e where e: "filter ?P m = [e]" "key = fst e" using key res [OF True] by (auto split: list.splits)
  have other: "bt_get (bt_insert key d m) (driver, session) = None" using True get by (auto simp: bt_get_insert)
  have "e \<in> set (filter ?P m)" by (simp add: e(1))
  then have snd_e: "snd (fst e) = session" by simp
  have mem: "key \<in> fst ` set m" using bt_get_Some_in [OF get] by force
  have "filter ?P (bt_insert key d m) = (if sk_pending d then [(key, d)] else [])"
    using filter_update [OF wf e(1), of d] snd_e by (simp add: bt_insert_present [OF wf mem, unfolded e(2)] e(2))
  then show ?thesis using True by (simp add: res [OF other])
qed

text \<open>polling a session again with the events already seen, at any later time, leaves the ledger as the first poll
  left it: neither the clock of a row nor the pending flag of a session moves.
\<close>

theorem repeated_polls_change_nothing:
  assumes "ledger_at t s"
  shows "observed ctx driver session events later (observed ctx driver session events now s) = observed ctx driver session events now s"
proof (cases "ctx = None \<or> resolve_clock driver session (lg_sessions s) = None")
  case True
  then show ?thesis by (auto simp: observed_def split: option.split)
next
  case False
  then obtain rows key where key: "ctx = Some rows" "resolve_clock driver session (lg_sessions s) = Some key" by auto
  have wf: "bt_wf (lg_sessions s)" using ledger_at_ok [OF assms] by (simp add: ledger_ok_def)
  show ?thesis
  proof (cases "bt_get (lg_sessions s) key")
    case None
    then show ?thesis using key by (simp add: observed_def)
  next
    case (Some c)
    obtain seen terminal where fold: "foldl see_event (sk_seen c, False) events = (seen, terminal)" by force
    define d where "d = (if terminal \<and> sk_pending c then \<lparr>sk_rows = sk_rows c, sk_seen = seen, sk_pending = False\<rparr> else c\<lparr>sk_seen := seen\<rparr>)"
    let ?s = "observed ctx driver session events now s"
    have sessions: "lg_sessions ?s = bt_insert key d (lg_sessions s)"
      using key Some fold by (simp add: observed_def d_def)
    have seen: "foldl see_event (sk_seen d, False) events = (sk_seen d, False)"
      using see_events_again [OF fold] by (simp add: d_def)
    have "resolve_clock driver session (lg_sessions ?s) \<in> {Some key, None}"
      using resolve_again [OF wf key(2) Some, of d] by (simp add: sessions d_def)
    moreover have "bt_get (lg_sessions ?s) key = Some d" by (simp add: sessions bt_get_insert)
    moreover have "d\<lparr>sk_seen := sk_seen d\<rparr> = d" by simp
    moreover have "bt_insert key d (lg_sessions ?s) = lg_sessions ?s" by (simp add: sessions bt_insert_same)
    ultimately show ?thesis using key(1) seen by (auto simp: observed_def)
  qed
qed

section \<open>A run of one row\<close>

definition timed_event :: normalized_event where
  "timed_event = \<lparr>ne_id = ''e1'', ne_cursor = 1, ne_session_id = ''s'', ne_actor = ''s'', ne_event = TerminalSuccess, ne_payload = JNull\<rparr>"

definition timed_ledger :: ledger where
  "timed_ledger = perform (Observed (Some [2]) 1 ''s'' [timed_event]) 30
     (perform (Submitted (Some [2]) 1 ''s'' ''row-2'') 10 (perform (EnterRows [2]) 5 empty_ledger))"

definition timed_history :: timing_history where
  "timed_history = [(EnterRows [2], 5), (Submitted (Some [2]) 1 ''s'' ''row-2'', 10), (Observed (Some [2]) 1 ''s'' [timed_event], 30)]"

lemma timed_history_run: "run_history timed_history = timed_ledger"
  by (simp add: run_history_def timed_history_def timed_ledger_def)

lemma timed_ledger_at: "ledger_at 30 timed_ledger"
proof -
  have "sorted (map snd timed_history)" "(if timed_history = [] then 0 else snd (last timed_history)) = 30"
    by (simp_all add: timed_history_def)
  then show ?thesis using history_ledger_at [of timed_history] by (simp only: timed_history_run)
qed

lemma timed_ledger_eq: "timed_ledger =
  \<lparr>lg_rows = [(2, \<lparr>rb_start = 10, rb_end = Some 30, rb_submitted = True, rb_finished = None\<rparr>)],
   lg_sessions = [((1, ''s''), \<lparr>sk_rows = [2], sk_seen = [''e1''], sk_pending = False\<rparr>)]\<rparr>"
  by code_simp

definition timed_result :: test_result where
  "timed_result = \<lparr>res_row = 2, res_id = ''R2'', res_pillar = Functionality, res_outcome = Pass, res_evidence = [], res_metadata = default_metadata\<rparr>"

text \<open>The witness: a row entered at 5, submitted at 10, with a terminal event observed at 30, read at 99.\<close>

theorem row_durations_sound_witness:
  "md_wall_duration_scope (res_metadata (apply_row timed_ledger 99 timed_result)) = ''submit-to-terminal''
    \<and> md_wall_duration_s (res_metadata (apply_row timed_ledger 99 timed_result)) = seconds_f64 20
    \<and> (\<exists>session. submitted_at timed_history 2 session 10) \<and> ended_at timed_history 2 30"
proof -
  have row: "bt_get (lg_rows (run_history timed_history)) (res_row timed_result)
      = Some \<lparr>rb_start = 10, rb_end = Some 30, rb_submitted = True, rb_finished = None\<rparr>"
    by (simp add: timed_history_run timed_ledger_eq timed_result_def)
  have settled: "\<not> (\<exists>(k, c) \<in> set (lg_sessions timed_ledger). sk_pending c \<and> res_row timed_result \<in> set (sk_rows c))"
    by (simp add: timed_ledger_eq)
  have two: "res_row timed_result = 2" by (simp add: timed_result_def)
  have times: "sorted (map snd timed_history)" "\<forall>(op, t) \<in> set timed_history. t \<le> 99" by (simp_all add: timed_history_def)
  have scope: "md_wall_duration_scope (res_metadata (apply_row timed_ledger 99 timed_result)) = ''submit-to-terminal''"
    using row settled by (simp add: apply_row_def row_scope_def row_pending_def list_ex_iff timed_history_run)
  from row_durations_sound [OF times row, unfolded timed_history_run bounds.simps if_True two]
  show ?thesis using scope settled unfolding two by auto
qed

theorem repeated_polls_change_nothing_witness:
  "observed (Some []) 1 ''s'' [timed_event] 50 (observed (Some []) 1 ''s'' [timed_event] 40 timed_ledger)
    = observed (Some []) 1 ''s'' [timed_event] 40 timed_ledger"
  by (rule repeated_polls_change_nothing [OF timed_ledger_at])

end
