(* ===== verification/Auxiliaries.thy ===== *)
theory Auxiliaries
  imports Retention Growth Lifecycle Accounting_Properties Growth_Properties
begin

text \<open>
  \<open>src/src/storage/auxiliaries.rs\<close>: how much every family of files occupies at the checkpoints of a run, whether
  files were replaced between checkpoints, and whether the declared caps held.
\<close>

section \<open>Data\<close>

record family_checkpoint =
  fc_turn :: u32
  fc_family :: string
  fc_allocated_bytes :: u64
  fc_identity_replacements :: u64

record auxiliary =
  au_name :: string
  au_declared :: bool
  au_cap_bytes :: "u64 option"
  au_peak_allocated_bytes :: u64
  au_final_allocated_bytes :: u64
  au_slope_bytes_per_turn :: f64
  au_rotation_observed :: bool
  au_class :: "bound_class option"

type_synonym auxiliary_trial = "(auxiliary list, family_checkpoint list) trial"

section \<open>The checkpoints of the families\<close>

definition file_identity :: "file_entry \<Rightarrow> u64 \<times> u64" where
  "file_identity e = (fe_device_id e, fe_inode_or_file_id e)"

definition identities :: "inventory \<Rightarrow> (string, u64 \<times> u64) btree" where
  "identities iv = bt_of_list (map (\<lambda>e. (fe_path e, file_identity e)) (filter is_regular (inv_entries iv)))"

definition replaced :: "(string, u64 \<times> u64) btree \<Rightarrow> file_entry \<Rightarrow> bool" where
  "replaced previous e = (case bt_get previous (fe_path e) of None \<Rightarrow> False | Some i \<Rightarrow> i \<noteq> file_identity e)"

definition replacements :: "(string, u64 \<times> u64) btree \<Rightarrow> inventory \<Rightarrow> string \<Rightarrow> u64" where
  "replacements previous iv name =
     of_nat (length (filter (\<lambda>e. is_regular e \<and> fe_family e = name \<and> replaced previous e) (inv_entries iv)))"

definition family_points :: "storage_config \<Rightarrow> (string, u64 \<times> u64) btree \<Rightarrow> u32 \<times> inventory \<Rightarrow> family_checkpoint list" where
  "family_points config previous x =
     map (\<lambda>(name, bytes). \<lparr>fc_turn = fst x, fc_family = name, fc_allocated_bytes = bytes,
         fc_identity_replacements = replacements previous (snd x) name\<rparr>) (families (snd x) config)"

fun diagnose :: "storage_config \<Rightarrow> (string, u64 \<times> u64) btree \<Rightarrow> (u32 \<times> inventory) list \<Rightarrow> family_checkpoint list" where
  "diagnose config previous [] = []"
| "diagnose config previous (x # xs) = family_points config previous x @ diagnose config (identities (snd x)) xs"

definition checkpoint_diagnostics :: "(u32 \<times> inventory) list \<Rightarrow> storage_config \<Rightarrow> family_checkpoint list" where
  "checkpoint_diagnostics snapshots config = diagnose config [] snapshots"

section \<open>The evaluation of a trial\<close>

definition peak_of :: "u64 list \<Rightarrow> u64" where
  "peak_of ns = (case ns of [] \<Rightarrow> 0 | n # ns \<Rightarrow> foldl max n ns)"

definition cap_class :: "u64 \<Rightarrow> u64 \<Rightarrow> bound_class" where
  "cap_class peak cap = (if peak \<le> cap then BoundedBytes else UnboundedBytes)"

definition declared_cap :: "storage_config \<Rightarrow> string \<Rightarrow> u64 option" where
  "declared_cap config name = Option.bind (sc_auxiliary_cap_bytes config) (\<lambda>c. bt_get c name)"

definition family_auxiliary :: "storage_config \<Rightarrow> u32 \<Rightarrow> family_checkpoint list \<Rightarrow> string \<Rightarrow> ahrb_error + auxiliary" where
  "family_auxiliary config n diagnostics name =
     (let own = filter (\<lambda>p. fc_family p = name) diagnostics;
          points = map (\<lambda>p. \<lparr>cp_turn = fc_turn p, cp_allocated_bytes = fc_allocated_bytes p\<rparr>) own;
          cap = declared_cap config name;
          peak = peak_of (map cp_allocated_bytes points)
      in and_then (evaluate_curve points n) (\<lambda>(_, slope, _).
         Inr \<lparr>au_name = name,
           au_declared = (case sc_areas config of None \<Rightarrow> False | Some areas \<Rightarrow> bt_get areas name \<noteq> None),
           au_cap_bytes = cap, au_peak_allocated_bytes = peak, au_final_allocated_bytes = cp_allocated_bytes (last points),
           au_slope_bytes_per_turn = slope, au_rotation_observed = list_ex (\<lambda>p. 0 < fc_identity_replacements p) own,
           au_class = map_option (cap_class peak) cap\<rparr>))"

definition missing_cap :: string where
  "missing_cap = ''unsupported cap assessment: one or more families have no declared cap''"

definition auxiliary_reason :: "auxiliary list \<Rightarrow> string option" where
  "auxiliary_reason auxiliaries = (if list_ex (\<lambda>a. au_cap_bytes a = None) auxiliaries then Some missing_cap else None)"

definition evaluate_auxiliaries :: "u32 \<Rightarrow> u32 \<Rightarrow> (u32 \<times> inventory) list \<Rightarrow> storage_config \<Rightarrow> ahrb_error + auxiliary_trial" where
  "evaluate_auxiliaries repetition n snapshots config =
     (if map fst snapshots \<noteq> checkpoints n then Inl (Protocol ''S7 missing checkpoints'')
      else let diagnostics = checkpoint_diagnostics snapshots config in
        and_then (collect_ok (family_auxiliary config n diagnostics) (map fst (families (snd (hd snapshots)) config))) (\<lambda>auxiliaries.
        let reason = auxiliary_reason auxiliaries in
        Inr \<lparr>tr_repetition = repetition, tr_outcome = (case reason of None \<Rightarrow> Pass | Some r \<Rightarrow> Unsupported r),
          tr_measurement_complete = True, tr_reason = reason, tr_summary = auxiliaries, tr_diagnostics = diagnostics,
          tr_evidence_refs = []\<rparr>))"

section \<open>The aggregate of the trials\<close>

definition same_family :: "auxiliary_trial list \<Rightarrow> string \<Rightarrow> auxiliary list" where
  "same_family trials name = filter (\<lambda>f. au_name f = name) (concat (map tr_summary trials))"

definition aggregate_family :: "auxiliary_trial list \<Rightarrow> auxiliary \<Rightarrow> auxiliary" where
  "aggregate_family trials a =
     (let own = same_family trials (au_name a); peak = peak_of (map au_peak_allocated_bytes own)
      in a\<lparr>au_peak_allocated_bytes := peak, au_final_allocated_bytes := peak_of (map au_final_allocated_bytes own),
        au_slope_bytes_per_turn := (case median (map au_slope_bytes_per_turn own) of None \<Rightarrow> Fin 0 | Some m \<Rightarrow> m),
        au_rotation_observed := list_ex au_rotation_observed own, au_class := map_option (cap_class peak) (au_cap_bytes a)\<rparr>)"

definition aggregate :: "auxiliary_trial list \<Rightarrow> auxiliary list" where
  "aggregate trials = (case trials of [] \<Rightarrow> [] | t # _ \<Rightarrow> map (aggregate_family trials) (tr_summary t))"

section \<open>Properties\<close>

text \<open>The assessment of auxiliary storage says exactly what the inventories of the checkpoints say.\<close>

section \<open>Families\<close>

lemma bt_wf_families: "bt_wf (families iv c)"
proof -
  let ?zero = "foldl (\<lambda>totals name. bt_insert name 0 totals) [(''other'', 0 :: u64)] (map fst (declared_areas c))"
  have "bt_wf ?zero" using zero_families [of "[(''other'', 0)]" "map fst (declared_areas c)"] by (simp add: bt_wf_def)
  moreover have "bt_wf (foldl add_to_family totals es)" if "bt_wf totals" for totals es
    using that by (induction es arbitrary: totals) (simp_all add: add_to_family_wf)
  ultimately show ?thesis by (simp add: families_def)
qed

lemma families_get: "(name, b) \<in> set (families iv c) \<longleftrightarrow> bt_get (families iv c) name = Some b"
proof -
  have "distinct (map fst (families iv c))" using bt_wf_families [of iv c] by (simp add: bt_wf_def strict_sorted_iff)
  then show ?thesis by (simp add: bt_get_eq_map_of)
qed

lemma family_of_entry:
  assumes "e \<in> set (inv_entries iv)" and "is_regular e"
  shows "fe_family e \<in> fst ` set (families iv c)"
proof -
  have keys: "set (map fst (foldl add_to_family totals es)) = set (map fst totals) \<union> fe_family ` set es" for totals es
  proof (induction es arbitrary: totals)
    case (Cons e es)
    have "set (map fst (add_to_family totals e)) = insert (fe_family e) (set (map fst totals))"
      unfolding add_to_family_def by (rule keys_bt_insert)
    then show ?case by (simp add: Cons.IH del: set_map)
  qed simp
  have "fe_family e \<in> set (map fst (families iv c))" unfolding families_def keys using assms by simp
  then show ?thesis by simp
qed

section \<open>The checkpoints\<close>

lemma diagnose_zip: "diagnose c prev xs = concat (map2 (family_points c) (prev # map (identities \<circ> snd) xs) xs)"
  by (induction xs arbitrary: prev) simp_all

lemma family_bytes:
  "set (map fc_allocated_bytes (filter (\<lambda>p. fc_family p = name) (diagnose c prev xs)))
    = {b. \<exists>x \<in> set xs. bt_get (families (snd x) c) name = Some b}"
proof (induction xs arbitrary: prev)
  case (Cons x xs)
  have "set (map fc_allocated_bytes (filter (\<lambda>p. fc_family p = name) (family_points c prev x)))
      = {b. bt_get (families (snd x) c) name = Some b}"
    by (force simp: family_points_def simp flip: families_get)
  with Cons [of "identities (snd x)"] show ?case by auto
qed simp

lemma peak_bound: "peak_of ns \<le> cap \<longleftrightarrow> (\<forall>n \<in> set ns. n \<le> cap)"
proof -
  have fold: "foldl max m ns \<le> cap \<longleftrightarrow> m \<le> cap \<and> (\<forall>n \<in> set ns. n \<le> cap)" for m ns
    by (induction ns arbitrary: m) auto
  show ?thesis by (cases ns) (simp_all add: peak_of_def fold)
qed

lemma replacements_positive:
  assumes "length (inv_entries iv) < 2 ^ 64"
  shows "0 < replacements prev iv name
    \<longleftrightarrow> (\<exists>e \<in> set (inv_entries iv). is_regular e \<and> fe_family e = name \<and> replaced prev e)"
proof -
  let ?P = "\<lambda>e. is_regular e \<and> fe_family e = name \<and> replaced prev e"
  have "length (filter ?P (inv_entries iv)) < 2 ^ 64" using assms by (rule order.strict_trans1 [OF length_filter_le])
  then have "unat (replacements prev iv name) = length (filter ?P (inv_entries iv))"
    by (simp add: replacements_def unat_of_nat take_bit_nat_eq_self)
  then have "0 < replacements prev iv name \<longleftrightarrow> filter ?P (inv_entries iv) \<noteq> []" by (simp add: word_less_nat_alt)
  then show ?thesis by (auto simp: filter_empty_conv)
qed

text \<open>A file of the family was found under its path with another identity at the next checkpoint.\<close>

definition rotated :: "string \<Rightarrow> (u32 \<times> inventory) list \<Rightarrow> bool" where
  "rotated name xs \<longleftrightarrow> (\<exists>k. Suc k < length xs \<and> (\<exists>e \<in> set (inv_entries (snd (xs ! Suc k))).
     is_regular e \<and> fe_family e = name \<and> replaced (identities (snd (xs ! k))) e))"

lemma rotation_observed:
  assumes "\<forall>x \<in> set xs. length (inv_entries (snd x)) < 2 ^ 64"
  shows "list_ex (\<lambda>p. 0 < fc_identity_replacements p) (filter (\<lambda>p. fc_family p = name) (diagnose c [] xs)) \<longleftrightarrow> rotated name xs"
proof -
  let ?prevs = "[] # map (identities \<circ> snd) xs"
  let ?hit = "\<lambda>prev iv. \<exists>e \<in> set (inv_entries iv). is_regular e \<and> fe_family e = name \<and> replaced prev e"
  have point: "(\<exists>p \<in> set (family_points c prev x). fc_family p = name \<and> 0 < fc_identity_replacements p) \<longleftrightarrow> ?hit prev (snd x)"
    if "x \<in> set xs" for prev x
  proof -
    have "(\<exists>p \<in> set (family_points c prev x). fc_family p = name \<and> 0 < fc_identity_replacements p)
        \<longleftrightarrow> name \<in> fst ` set (families (snd x) c) \<and> 0 < replacements prev (snd x) name"
      by (force simp: family_points_def split_beta)
    also have "\<dots> \<longleftrightarrow> name \<in> fst ` set (families (snd x) c) \<and> ?hit prev (snd x)"
      using replacements_positive assms that by blast
    also have "\<dots> \<longleftrightarrow> ?hit prev (snd x)" using family_of_entry by blast
    finally show ?thesis .
  qed
  have "list_ex (\<lambda>p. 0 < fc_identity_replacements p) (filter (\<lambda>p. fc_family p = name) (diagnose c [] xs))
      \<longleftrightarrow> (\<exists>y \<in> set (zip ?prevs xs). ?hit (fst y) (snd (snd y)))"
  proof -
    have "list_ex (\<lambda>p. 0 < fc_identity_replacements p) (filter (\<lambda>p. fc_family p = name) (diagnose c [] xs))
        \<longleftrightarrow> (\<exists>y \<in> set (zip ?prevs xs). \<exists>p \<in> set (family_points c (fst y) (snd y)). fc_family p = name \<and> 0 < fc_identity_replacements p)"
      unfolding diagnose_zip list_ex_iff set_filter set_concat set_map split_beta by blast
    also have "\<dots> \<longleftrightarrow> (\<exists>y \<in> set (zip ?prevs xs). ?hit (fst y) (snd (snd y)))"
    proof (rule bex_cong)
      fix y assume "y \<in> set (zip ?prevs xs)"
      then have "snd y \<in> set xs" by (metis prod.collapse set_zip_rightD)
      then show "(\<exists>p \<in> set (family_points c (fst y) (snd y)). fc_family p = name \<and> 0 < fc_identity_replacements p) \<longleftrightarrow> ?hit (fst y) (snd (snd y))"
        by (rule point)
    qed simp
    finally show ?thesis .
  qed
  also have "\<dots> \<longleftrightarrow> (\<exists>k < length xs. ?hit (?prevs ! k) (snd (xs ! k)))" 
  proof -
    have "(\<exists>y \<in> set zs. P y) \<longleftrightarrow> (\<exists>k < length zs. P (zs ! k))" for zs :: "'z list" and P by (metis in_set_conv_nth)
    from this [of "zip ?prevs xs" "\<lambda>y. ?hit (fst y) (snd (snd y))"] show ?thesis by (simp cong: conj_cong)
  qed
  also have "\<dots> \<longleftrightarrow> rotated name xs"
  proof
    assume "\<exists>k < length xs. ?hit (?prevs ! k) (snd (xs ! k))"
    then obtain k where k: "k < length xs" "?hit (?prevs ! k) (snd (xs ! k))" by blast
    then obtain j where "k = Suc j" by (cases k) (auto simp: replaced_def)
    with k show "rotated name xs" by (auto simp: rotated_def)
  next
    assume "rotated name xs"
    then show "\<exists>k < length xs. ?hit (?prevs ! k) (snd (xs ! k))" by (force simp: rotated_def)
  qed
  finally show ?thesis .
qed

section \<open>The claim\<close>

text \<open>C21: the assessment of a complete run names every family of the first inventory once, in order; a family
  with a cap is bounded exactly when it stays within the cap at every checkpoint; rotation is reported exactly
  when a file of the family is found with another identity than at the checkpoint before; and the trial passes
  exactly when every family has a cap.\<close>

theorem auxiliary_assessment_exact:
  assumes "evaluate_auxiliaries repetition n snapshots c = Inr t"
    and "\<forall>x \<in> set snapshots. length (inv_entries (snd x)) < 2 ^ 64"
  shows "map au_name (tr_summary t) = map fst (families (snd (hd snapshots)) c)
    \<and> list_all (\<lambda>a. au_cap_bytes a = declared_cap c (au_name a)
        \<and> au_class a = map_option (\<lambda>cap. if \<forall>x \<in> set snapshots. \<forall>b. bt_get (families (snd x) c) (au_name a) = Some b \<longrightarrow> b \<le> cap
            then BoundedBytes else UnboundedBytes) (au_cap_bytes a)
        \<and> (au_rotation_observed a \<longleftrightarrow> rotated (au_name a) snapshots)) (tr_summary t)
    \<and> (tr_outcome t = Pass \<longleftrightarrow> (\<forall>a \<in> set (tr_summary t). au_cap_bytes a \<noteq> None))"
proof -
  let ?d = "checkpoint_diagnostics snapshots c"
  have all: "list_all2 (\<lambda>name a. family_auxiliary c n ?d name = Inr a) (map fst (families (snd (hd snapshots)) c)) (tr_summary t)"
    and out: "tr_outcome t = (case auxiliary_reason (tr_summary t) of None \<Rightarrow> Pass | Some r \<Rightarrow> Unsupported r)"
    using assms(1) by (auto simp: evaluate_auxiliaries_def Let_def and_then_Inr_iff collect_ok_Inr_iff split: if_splits)
  have one: "au_name a = name \<and> au_cap_bytes a = declared_cap c name
      \<and> au_class a = map_option (cap_class (peak_of (map fc_allocated_bytes (filter (\<lambda>p. fc_family p = name) ?d)))) (au_cap_bytes a)
      \<and> (au_rotation_observed a \<longleftrightarrow> rotated name snapshots)" if "family_auxiliary c n ?d name = Inr a" for name a
    using that rotation_observed [OF assms(2), of name c]
    by (auto simp: family_auxiliary_def checkpoint_diagnostics_def Let_def and_then_Inr_iff o_def)
  have "cap_class (peak_of (map fc_allocated_bytes (filter (\<lambda>p. fc_family p = name) ?d)))
      = (\<lambda>cap. if \<forall>x \<in> set snapshots. \<forall>b. bt_get (families (snd x) c) name = Some b \<longrightarrow> b \<le> cap then BoundedBytes else UnboundedBytes)" for name
    unfolding cap_class_def checkpoint_diagnostics_def peak_bound family_bytes by (rule ext) auto
  with one all have each: "list_all2 (\<lambda>name a. au_name a = name \<and> au_cap_bytes a = declared_cap c name
      \<and> au_class a = map_option (\<lambda>cap. if \<forall>x \<in> set snapshots. \<forall>b. bt_get (families (snd x) c) name = Some b \<longrightarrow> b \<le> cap
            then BoundedBytes else UnboundedBytes) (au_cap_bytes a)
      \<and> (au_rotation_observed a \<longleftrightarrow> rotated name snapshots)) (map fst (families (snd (hd snapshots)) c)) (tr_summary t)"
    by (elim list_all2_mono) (simp only: simp_thms)
  have "tr_outcome t = Pass \<longleftrightarrow> (\<forall>a \<in> set (tr_summary t). au_cap_bytes a \<noteq> None)"
    by (auto simp: out auxiliary_reason_def list_ex_iff)
  moreover have "map au_name (tr_summary t) = map fst (families (snd (hd snapshots)) c)"
    using each by (intro nth_equalityI) (auto simp: list_all2_conv_all_nth)
  ultimately show ?thesis using each by (auto simp: list_all2_conv_all_nth list_all_length)
qed

section \<open>A run of five checkpoints\<close>

definition replaced_file :: "u64 \<Rightarrow> inventory" where
  "replaced_file inode = \<lparr>inv_entries = [\<lparr>fe_path = ''log'', fe_kind = ''regular'', fe_device_id = 1, fe_inode_or_file_id = inode,
     fe_allocated_bytes = 4096, fe_apparent_bytes = 10, fe_sha256 = None, fe_family = ''other''\<rparr>], inv_capture_retries = [], inv_stamps = []\<rparr>"

definition five_snapshots :: "(u32 \<times> inventory) list" where
  "five_snapshots = [(0, replaced_file 7), (1, replaced_file 7), (10, replaced_file 8), (50, replaced_file 8), (100, replaced_file 8)]"

definition capped_config :: storage_config where
  "capped_config = \<lparr>sc_areas = None, sc_session_delete = None, sc_uninstall_cleanup = None, sc_sweep_interval_s = None,
     sc_session_close = None, sc_retention_cap_bytes = None, sc_auxiliary_cap_bytes = Some [(''other'', 8192)], sc_workspace_path = None\<rparr>"

lemma families_replaced_file: "families (replaced_file i) capped_config = [(''other'', 4096)]"
  by (simp add: families_def replaced_file_def capped_config_def declared_areas_def is_regular_def add_to_family_def)

lemma five_snapshots_evaluated: "is_ok (evaluate_auxiliaries 1 100 five_snapshots capped_config)"
proof -
  let ?d = "checkpoint_diagnostics five_snapshots capped_config"
  have "map fc_turn (filter (\<lambda>p. fc_family p = ''other'') ?d) = checkpoints 100"
    by (simp add: checkpoint_diagnostics_def five_snapshots_def family_points_def families_replaced_file checkpoints_def)
  then have "is_ok (evaluate_curve (map (\<lambda>p. \<lparr>cp_turn = fc_turn p, cp_allocated_bytes = fc_allocated_bytes p\<rparr>)
      (filter (\<lambda>p. fc_family p = ''other'') ?d)) 100)"
    unfolding evaluate_curve_total by (simp add: o_def)
  then have "is_ok (family_auxiliary capped_config 100 ?d ''other'')"
    by (auto simp: family_auxiliary_def Let_def is_ok_iff)
  then show ?thesis
    by (auto simp: evaluate_auxiliaries_def Let_def is_ok_iff five_snapshots_def checkpoints_def families_replaced_file)
qed

theorem auxiliary_assessment_exact_witness:
  "\<exists>t. evaluate_auxiliaries 1 100 five_snapshots capped_config = Inr t \<and> map au_name (tr_summary t) = [''other'']
    \<and> map au_class (tr_summary t) = [Some BoundedBytes] \<and> map au_rotation_observed (tr_summary t) = [True] \<and> tr_outcome t = Pass"
proof -
  obtain t where t: "evaluate_auxiliaries 1 100 five_snapshots capped_config = Inr t"
    using five_snapshots_evaluated by (auto simp: is_ok_iff)
  have "\<forall>x \<in> set five_snapshots. length (inv_entries (snd x)) < 2 ^ 64" by (simp add: five_snapshots_def replaced_file_def)
  from auxiliary_assessment_exact [OF t this]
  have r: "map au_name (tr_summary t) = [''other'']"
    "list_all (\<lambda>a. au_cap_bytes a = declared_cap capped_config (au_name a)
        \<and> au_class a = map_option (\<lambda>cap. if \<forall>x \<in> set five_snapshots. \<forall>b. bt_get (families (snd x) capped_config) (au_name a) = Some b \<longrightarrow> b \<le> cap
            then BoundedBytes else UnboundedBytes) (au_cap_bytes a)
        \<and> (au_rotation_observed a \<longleftrightarrow> rotated (au_name a) five_snapshots)) (tr_summary t)"
    "tr_outcome t = Pass \<longleftrightarrow> (\<forall>a \<in> set (tr_summary t). au_cap_bytes a \<noteq> None)"
    by (simp_all add: five_snapshots_def families_replaced_file)
  have "rotated ''other'' five_snapshots"
    unfolding rotated_def by (rule exI [of _ 1]) (simp add: five_snapshots_def replaced_file_def is_regular_def replaced_def identities_def
        file_identity_def bt_of_list_def)
  moreover have "declared_cap capped_config ''other'' = Some 8192" by (simp add: declared_cap_def capped_config_def)
  moreover obtain a where "tr_summary t = [a]" "au_name a = ''other''" using r(1) by auto
  ultimately show ?thesis using t r by (intro exI [of _ t]) (simp add: five_snapshots_def families_replaced_file)
qed

end
