(* ===== verification/Child_Failure.thy ===== *)
theory Child_Failure
  imports Wave_Rows
begin

text \<open>
  Row 56 of \<open>src/src/wave2_automation.rs\<close>: the failure of a child (a crash or a hang) must end the operation of
  its parent exactly once and in time.
\<close>

section \<open>Trials\<close>

datatype failure_case = CF_Crash | CF_Hang

record failure_trial =
  xt_repetition :: u32
  xt_case :: failure_case
  xt_parent_operation_start_ns :: u64
  xt_child_failure_received_ns :: "u64 option"
  xt_child_response_headers_ns :: "u64 option"
  xt_parent_terminal_received_ns :: u64
  xt_parent_failure_terminals :: u32
  xt_child_failure_terminals :: u32
  xt_child_cancelled :: bool
  xt_success_contradiction :: bool
  xt_child_residue_count :: u32
  xt_outer_kill_used :: bool

record automation_evaluation =
  av_metrics :: "(string, f64) btree"
  av_details :: json
  av_measurement_complete :: bool
  av_passed :: bool
  av_measurement_error :: "string option"

definition automation_incomplete :: "string \<Rightarrow> automation_evaluation" where
  "automation_incomplete message =
     \<lparr>av_metrics = [],
      av_details = json_object [(''measurement_complete'', JBool False), (''measurement_error'', JString message)],
      av_measurement_complete = False, av_passed = False, av_measurement_error = Some message\<rparr>"

section \<open>Validation\<close>

definition failure_key :: "failure_trial \<Rightarrow> u32 \<times> nat" where
  "failure_key t = (xt_repetition t, case xt_case t of CF_Crash \<Rightarrow> 0 | CF_Hang \<Rightarrow> 1)"

definition check_failure_boundary :: "failure_trial \<Rightarrow> string + unit" where
  "check_failure_boundary t =
     (case xt_case t of
        CF_Crash \<Rightarrow>
          (case xt_child_failure_received_ns t of
             None \<Rightarrow> Inl ''crash trial omitted child failure receipt''
           | Some ns \<Rightarrow> guard (ns \<le> xt_parent_terminal_received_ns t) ''crash child/parent receipt ordering is contradictory'')
      | CF_Hang \<Rightarrow>
          (case xt_child_response_headers_ns t of
             None \<Rightarrow> Inl ''hang trial omitted response-header boundary''
           | Some ns \<Rightarrow> guard (xt_parent_operation_start_ns t \<le> ns \<and> ns < xt_parent_terminal_received_ns t)
               ''hang response-header boundary is contradictory''))"

definition failure_step :: "u32 \<Rightarrow> (u32 \<times> nat) list \<Rightarrow> failure_trial \<Rightarrow> string + (u32 \<times> nat) list" where
  "failure_step expected seen t =
     (if xt_repetition t = 0 \<or> expected < xt_repetition t \<or> failure_key t \<in> set seen
         \<or> xt_parent_terminal_received_ns t < xt_parent_operation_start_ns t
      then Inl ''child-failure boundaries or repetition keys are invalid''
      else and_then (check_failure_boundary t) (\<lambda>_. Inr (failure_key t # seen)))"

section \<open>The decision\<close>

definition elapsed_ms :: "u64 \<Rightarrow> u64 \<Rightarrow> f64" where
  "elapsed_ms start ending = ns_to_ms (saturating_sub ending start)"

definition is_crash :: "failure_trial \<Rightarrow> bool" where
  "is_crash t \<longleftrightarrow> xt_case t = CF_Crash"

text \<open>A crash is measured from the receipt of the child's failure, a hang from the start of the parent.\<close>

definition failure_latency :: "failure_trial \<Rightarrow> f64" where
  "failure_latency t = elapsed_ms
     (if is_crash t then (case xt_child_failure_received_ns t of None \<Rightarrow> 0 | Some ns \<Rightarrow> ns) else xt_parent_operation_start_ns t)
     (xt_parent_terminal_received_ns t)"

definition deadline_fired :: "u64 \<Rightarrow> failure_trial \<Rightarrow> bool" where
  "deadline_fired timeout_ms t \<longleftrightarrow> f_le (f_of_u64 timeout_ms) (failure_latency t)
     \<and> f_le (failure_latency t) (f_of_u64 (saturating_add timeout_ms 1000))"

definition crash_passed :: "u64 \<Rightarrow> failure_trial \<Rightarrow> bool" where
  "crash_passed timeout_ms t \<longleftrightarrow>
     xt_child_failure_terminals t = 1 \<and> xt_parent_failure_terminals t = 1
     \<and> f_le (failure_latency t) (f_of_u64 (min timeout_ms 5000)) \<and> \<not> xt_success_contradiction t
     \<and> xt_child_residue_count t = 0 \<and> \<not> xt_outer_kill_used t"

definition hang_passed :: "u64 \<Rightarrow> failure_trial \<Rightarrow> bool" where
  "hang_passed timeout_ms t \<longleftrightarrow>
     deadline_fired timeout_ms t \<and> f_lt (failure_latency t) (f_of_u64 (saturating_add timeout_ms 2000))
     \<and> xt_parent_failure_terminals t = 1 \<and> xt_child_cancelled t \<and> xt_child_residue_count t = 0
     \<and> \<not> xt_success_contradiction t \<and> \<not> xt_outer_kill_used t"

definition failure_passed :: "u64 \<Rightarrow> failure_trial \<Rightarrow> bool" where
  "failure_passed timeout_ms t = (if is_crash t then crash_passed timeout_ms t else hang_passed timeout_ms t)"

definition failure_metrics :: "u64 \<Rightarrow> failure_trial list \<Rightarrow> (string, f64) btree" where
  "failure_metrics timeout_ms trials =
     (let crashes = filter is_crash trials; hangs = filter (\<lambda>t. \<not> is_crash t) trials in bt_of_list
       [(''child_failure_propagation.crash_parent_terminal_ms'', f_maximum (map failure_latency crashes)),
        (''child_failure_propagation.hang_parent_terminal_ms'', f_maximum (map failure_latency hangs)),
        (''child_failure_propagation.crash_parent_failure_terminals'', f_of_u64 (count_u32 xt_parent_failure_terminals crashes)),
        (''child_failure_propagation.hang_parent_failure_terminals'', f_of_u64 (count_u32 xt_parent_failure_terminals hangs)),
        (''child_failure_propagation.hang_deadline_fired'', f_of_u64 (count_flag (deadline_fired timeout_ms) hangs)),
        (''child_failure_propagation.child_terminal_count'', f_of_u64 (count_u32 xt_child_failure_terminals trials)),
        (''child_failure_propagation.child_residue_count'', f_of_u64 (count_u32 xt_child_residue_count trials)),
        (''child_failure_propagation.outer_kill_used'', f_of_u64 (count_flag xt_outer_kill_used trials))])"

fun failure_case_name :: "failure_case \<Rightarrow> string" where
  "failure_case_name CF_Crash = ''crash''"
| "failure_case_name CF_Hang = ''hang''"

definition failure_trial_json :: "failure_trial \<Rightarrow> json" where
  "failure_trial_json t = json_object
     [(''repetition'', json_u32 (xt_repetition t)), (''case'', JString (failure_case_name (xt_case t))),
      (''parent_operation_start_ns'', json_u64 (xt_parent_operation_start_ns t)),
      (''child_failure_received_ns'', json_option json_u64 (xt_child_failure_received_ns t)),
      (''child_response_headers_ns'', json_option json_u64 (xt_child_response_headers_ns t)),
      (''parent_terminal_received_ns'', json_u64 (xt_parent_terminal_received_ns t)),
      (''parent_failure_terminals'', json_u32 (xt_parent_failure_terminals t)),
      (''child_failure_terminals'', json_u32 (xt_child_failure_terminals t)), (''child_cancelled'', JBool (xt_child_cancelled t)),
      (''success_contradiction'', JBool (xt_success_contradiction t)),
      (''child_residue_count'', json_u32 (xt_child_residue_count t)), (''outer_kill_used'', JBool (xt_outer_kill_used t))]"

definition evaluate_child_failure_propagation :: "failure_trial list \<Rightarrow> u32 \<Rightarrow> u64 \<Rightarrow> automation_evaluation" where
  "evaluate_child_failure_propagation trials expected timeout_ms =
     (if length trials \<noteq> unat (saturating_mul (ucast expected :: u64) 2)
      then automation_incomplete ''child-failure trial set is incomplete''
      else case fold_ok (failure_step expected) [] trials of
        Inl message \<Rightarrow> automation_incomplete message
      | Inr _ \<Rightarrow>
        \<lparr>av_metrics = failure_metrics timeout_ms trials,
         av_details = json_object [(''measurement_complete'', JBool True), (''trials'', json_list failure_trial_json trials)],
         av_measurement_complete = True, av_passed = list_all (failure_passed timeout_ms) trials, av_measurement_error = None\<rparr>)"

end
