(* ===== verification/Signal_Matrix.thy ===== *)
theory Signal_Matrix
  imports Child_Failure Model_Wait Workspace_Fault
begin

text \<open>
  Row 57 of \<open>src/src/wave2_automation.rs\<close>: signals and the end of standard input must end a harness in time, once,
  and leave no owned process behind, apart from a daemon that the manifest declares.  The owned processes are
  those of \<open>process/mod.rs\<close>.
\<close>

section \<open>Trials\<close>

datatype proc_ownership = DeclaredRoot | Descendant | CgroupMember | ProcessGroupMember | Reparented | ProfilePath | LockHolder

record process_info =
  pi_identity :: proc_identity
  pi_ppid :: u32
  pi_command :: string
  pi_ownership :: proc_ownership

record residue_observation =
  ro_observed_after_ms :: u64
  ro_processes :: u32
  ro_identities :: "process_info list"

record daemon_linger =
  dg_idle_linger_ms :: u64
  dg_identity :: proc_identity
  dg_idle_origin_ns :: u64
  dg_observation_2s :: string
  dg_deadline_outcome :: string
  dg_deadline_ns :: u64
  dg_sample_count :: u64
  dg_sample_interval_ms :: u64
  dg_identity_continuity :: string
  dg_identity_present_at_deadline :: bool
  dg_resolution_limit :: string

record signal_trial =
  sg_repetition :: u32
  sg_case :: string
  sg_applicable :: bool
  sg_not_applicable_reason :: "string option"
  sg_delivery_succeeded :: "bool option"
  sg_ownership_resolved :: "bool option"
  sg_cleanup_escalated :: "bool option"
  sg_origin_ns :: "u64 option"
  sg_terminal_ns :: "u64 option"
  sg_terminal_type :: "string option"
  sg_terminal_count :: "u32 option"
  sg_source_terminal_count :: "u32 option"
  sg_exit_code :: "i32 option"
  sg_exit_was_signal :: "bool option"
  sg_residue :: "residue_observation option"
  sg_declared_daemon_linger :: "daemon_linger option"
  sg_residue_processes :: "u32 option"
  sg_residue_identities :: "process_info list"

section \<open>Validation of applicable trials\<close>

definition linger_consistent :: "u64 \<Rightarrow> daemon_linger \<Rightarrow> bool" where
  "linger_consistent expected l \<longleftrightarrow>
     dg_idle_linger_ms l = expected
     \<and> dg_deadline_ns l = saturating_add (dg_idle_origin_ns l) (saturating_mul (saturating_add expected 250) 1000000)
     \<and> dg_observation_2s l \<in> {''identity-present-at-2s'', ''identity-absent-at-2s''}
     \<and> dg_deadline_outcome l \<in> {''exited-by-declared-deadline'', ''survived-declared-deadline''}
     \<and> 0 < dg_sample_count l \<and> 1 \<le> dg_sample_interval_ms l \<and> dg_sample_interval_ms l \<le> 250
     \<and> dg_identity_continuity l \<in> {''stable-identity-or-absent'', ''residue-or-identity-change''}
     \<and> dg_resolution_limit l = ''processes shorter than one sample interval can be missed''
     \<and> dg_identity_present_at_deadline l = (dg_deadline_outcome l = ''survived-declared-deadline'')"

definition check_linger :: "u64 option \<Rightarrow> signal_trial \<Rightarrow> residue_observation \<Rightarrow> string + unit" where
  "check_linger idle_linger_ms t residue =
     (case (idle_linger_ms, sg_declared_daemon_linger t) of
        (None, None) \<Rightarrow> Inr ()
      | (Some _, None) \<Rightarrow> Inl (sg_case t @ '' declared daemon linger evidence is absent'')
      | (None, Some _) \<Rightarrow> Inl (sg_case t @ '' has undeclared daemon linger evidence'')
      | (Some expected, Some l) \<Rightarrow>
          if \<not> linger_consistent expected l then Inl (sg_case t @ '' declared daemon linger evidence is inconsistent'')
          else guard (\<not> list_ex (\<lambda>p. pi_identity p = dg_identity l) (ro_identities residue))
            (sg_case t @ '' declared daemon identity evidence is inconsistent''))"

definition check_residue :: "signal_trial \<Rightarrow> string + residue_observation" where
  "check_residue t =
     (case sg_residue_processes t of
        None \<Rightarrow> Inl (sg_case t @ '' residue observation is absent'')
      | Some n \<Rightarrow>
        if unat n \<noteq> length (sg_residue_identities t) then Inl (sg_case t @ '' residue count does not match its identity evidence'')
        else case sg_residue t of
          None \<Rightarrow> Inl (sg_case t @ '' two-second residue observation is absent'')
        | Some r \<Rightarrow>
          if ro_observed_after_ms r \<noteq> 2000 \<or> unat (ro_processes r) \<noteq> length (ro_identities r)
          then Inl (sg_case t @ '' two-second residue evidence is inconsistent'') else Inr r)"

definition check_applicable :: "u64 option \<Rightarrow> signal_trial \<Rightarrow> string + unit" where
  "check_applicable idle_linger_ms t =
     (if sg_ownership_resolved t \<noteq> Some True \<or> sg_delivery_succeeded t \<noteq> Some True
      then Inl (sg_case t @ '' delivery/ownership evidence is incomplete'')
      else if sg_cleanup_escalated t = None then Inl (sg_case t @ '' cleanup-escalation evidence is incomplete'')
      else case (sg_origin_ns t, sg_terminal_ns t) of
        (Some origin, Some terminal) \<Rightarrow>
          if terminal < origin then Inl (sg_case t @ '' terminal precedes delivery origin'')
          else if sg_terminal_type t = None \<or> sg_terminal_count t = None \<or> sg_source_terminal_count t = None
          then Inl (sg_case t @ '' structured terminal boundary is absent'')
          else if sg_exit_code t = None \<and> sg_exit_was_signal t = None
          then Inl (sg_case t @ '' process exit boundary is absent'')
          else and_then (check_residue t) (check_linger idle_linger_ms t)
      | _ \<Rightarrow> Inl (sg_case t @ '' origin/terminal boundary is absent''))"

section \<open>Validation of the other trials\<close>

definition not_applicable_valid :: "signal_trial \<Rightarrow> bool" where
  "not_applicable_valid t \<longleftrightarrow>
     sg_case t = ''stdin-eof'' \<and> sg_not_applicable_reason t \<noteq> None \<and> sg_origin_ns t = None \<and> sg_terminal_ns t = None
     \<and> sg_delivery_succeeded t = None \<and> sg_ownership_resolved t = None \<and> sg_cleanup_escalated t = None
     \<and> sg_terminal_count t = None \<and> sg_source_terminal_count t = None \<and> sg_exit_was_signal t = None
     \<and> sg_residue t = None \<and> sg_declared_daemon_linger t = None \<and> sg_residue_processes t = None
     \<and> sg_residue_identities t = []"

definition check_not_applicable :: "signal_trial \<Rightarrow> string + unit" where
  "check_not_applicable t = guard (not_applicable_valid t) ''only stdin-eof may be not_applicable with a typed reason''"

definition of_case :: "string \<Rightarrow> signal_trial list \<Rightarrow> signal_trial list" where
  "of_case name trials = filter (\<lambda>t. sg_case t = name) trials"

definition check_repetitions :: "signal_trial list \<Rightarrow> u32 \<Rightarrow> string + unit" where
  "check_repetitions trials expected =
     and_then (first_error (\<lambda>name. guard (length (of_case name trials) = unat expected)
         (''signal case '' @ name @ '' has incomplete repetitions'')) [''sigterm'', ''sigint2'', ''sighup'']) (\<lambda>_.
     guard (length (of_case ''stdin-eof'' trials) = unat expected) ''stdin-eof case has incomplete repetitions'')"

definition check_signal_trials :: "signal_trial list \<Rightarrow> u32 \<Rightarrow> u64 option \<Rightarrow> string + unit" where
  "check_signal_trials trials expected idle_linger_ms =
     and_then (check_repetitions trials expected) (\<lambda>_.
     and_then (first_error (check_applicable idle_linger_ms) (filter sg_applicable trials)) (\<lambda>_.
     first_error check_not_applicable (filter (\<lambda>t. \<not> sg_applicable t) trials)))"

section \<open>The cases\<close>

definition delivery_ms :: "signal_trial \<Rightarrow> f64 option" where
  "delivery_ms t = (case (sg_origin_ns t, sg_terminal_ns t) of
     (Some origin, Some terminal) \<Rightarrow> Some (elapsed_ms origin terminal) | _ \<Rightarrow> None)"

definition linger_passed :: "daemon_linger \<Rightarrow> bool" where
  "linger_passed l \<longleftrightarrow> dg_deadline_outcome l = ''exited-by-declared-deadline''
     \<and> dg_identity_continuity l = ''stable-identity-or-absent''"

definition signal_trial_passed :: "u64 \<Rightarrow> signal_trial \<Rightarrow> bool" where
  "signal_trial_passed grace_ms t \<longleftrightarrow>
     sg_terminal_type t \<in> {Some ''failure'', Some ''cancelled''} \<and> sg_terminal_count t = Some 1
     \<and> sg_source_terminal_count t = Some 1 \<and> sg_cleanup_escalated t = Some False \<and> sg_exit_was_signal t = Some False
     \<and> sg_exit_code t \<noteq> None
     \<and> (case sg_residue t of None \<Rightarrow> False | Some r \<Rightarrow> ro_processes r = 0)
     \<and> (case sg_declared_daemon_linger t of None \<Rightarrow> True | Some l \<Rightarrow> linger_passed l)
     \<and> sg_residue_processes t = Some 0
     \<and> (case delivery_ms t of None \<Rightarrow> False | Some ms \<Rightarrow> f_le ms (f_of_u64 (saturating_add grace_ms 250)))"

definition signal_cases :: "string list" where
  "signal_cases = [''sigterm'', ''sigint2'', ''sighup'', ''stdin-eof'']"

definition underscored :: "string \<Rightarrow> string" where
  "underscored s = map (\<lambda>ch. if ch = CHR ''-'' then CHR ''_'' else ch) s"

definition largest_residue :: "signal_trial list \<Rightarrow> f64" where
  "largest_residue trials = (case List.map_filter sg_residue_processes trials of
     [] \<Rightarrow> Fin 0 | n # ns \<Rightarrow> f_of_u32 (foldl max n ns))"

record signal_counts =
  sc_metrics :: "(string, f64) btree"
  sc_applicable_cases :: u64
  sc_passed_cases :: u64
  sc_applicable_kinds :: u64
  sc_passed :: bool

definition signal_start :: signal_counts where
  "signal_start = \<lparr>sc_metrics = [], sc_applicable_cases = 0, sc_passed_cases = 0, sc_applicable_kinds = 0, sc_passed = True\<rparr>"

definition case_metrics :: "string \<Rightarrow> signal_trial list \<Rightarrow> (string, f64) btree \<Rightarrow> (string, f64) btree" where
  "case_metrics name applicable metrics =
     bt_insert (underscored (''signal_matrix.'' @ name @ ''_residue_processes'')) (largest_residue applicable)
       (bt_insert (underscored (''signal_matrix.'' @ name @ ''_terminal_ms'')) (f_maximum (List.map_filter delivery_ms applicable)) metrics)"

definition signal_case_step :: "signal_trial list \<Rightarrow> u32 \<Rightarrow> u64 \<Rightarrow> signal_counts \<Rightarrow> string \<Rightarrow> string + signal_counts" where
  "signal_case_step trials expected grace_ms s name =
     (let applicable = filter sg_applicable (of_case name trials) in
      if applicable = [] then Inr s
      else if length applicable \<noteq> unat expected then Inl (''signal case '' @ name @ '' has inconsistent applicability'')
      else let passing = filter (signal_trial_passed grace_ms) applicable in
        Inr \<lparr>sc_metrics = case_metrics name applicable (sc_metrics s),
          sc_applicable_cases = saturating_add (sc_applicable_cases s) (of_nat (length applicable)),
          sc_passed_cases = saturating_add (sc_passed_cases s) (of_nat (length passing)),
          sc_applicable_kinds = saturating_add (sc_applicable_kinds s) 1,
          sc_passed = (sc_passed s \<and> (of_nat (length passing) :: u64) = of_nat (length applicable))\<rparr>)"

section \<open>JSON\<close>

fun ownership_name :: "proc_ownership \<Rightarrow> string" where
  "ownership_name DeclaredRoot = ''declared-root''"
| "ownership_name Descendant = ''descendant''"
| "ownership_name CgroupMember = ''cgroup-member''"
| "ownership_name ProcessGroupMember = ''process-group-member''"
| "ownership_name Reparented = ''reparented''"
| "ownership_name ProfilePath = ''profile-path''"
| "ownership_name LockHolder = ''lock-holder''"

definition process_info_json :: "process_info \<Rightarrow> json" where
  "process_info_json p = json_object [(''identity'', identity_json (pi_identity p)), (''ppid'', json_u32 (pi_ppid p)),
     (''command'', JString (pi_command p)), (''ownership'', JString (ownership_name (pi_ownership p)))]"

definition residue_json :: "residue_observation \<Rightarrow> json" where
  "residue_json r = json_object [(''observed_after_ms'', json_u64 (ro_observed_after_ms r)),
     (''processes'', json_u32 (ro_processes r)), (''identities'', json_list process_info_json (ro_identities r))]"

definition linger_json :: "daemon_linger \<Rightarrow> json" where
  "linger_json l = json_object
     [(''idle_linger_ms'', json_u64 (dg_idle_linger_ms l)), (''identity'', identity_json (dg_identity l)),
      (''idle_origin_ns'', json_u64 (dg_idle_origin_ns l)), (''observation_2s'', JString (dg_observation_2s l)),
      (''deadline_outcome'', JString (dg_deadline_outcome l)), (''deadline_ns'', json_u64 (dg_deadline_ns l)),
      (''sample_count'', json_u64 (dg_sample_count l)), (''sample_interval_ms'', json_u64 (dg_sample_interval_ms l)),
      (''identity_continuity'', JString (dg_identity_continuity l)),
      (''identity_present_at_deadline'', JBool (dg_identity_present_at_deadline l)),
      (''resolution_limit'', JString (dg_resolution_limit l))]"

definition signal_trial_json :: "signal_trial \<Rightarrow> json" where
  "signal_trial_json t = json_object
     [(''repetition'', json_u32 (sg_repetition t)), (''signal'', JString (sg_case t)), (''applicable'', JBool (sg_applicable t)),
      (''not_applicable_reason'', json_option JString (sg_not_applicable_reason t)),
      (''delivery_succeeded'', json_option JBool (sg_delivery_succeeded t)),
      (''ownership_resolved'', json_option JBool (sg_ownership_resolved t)),
      (''cleanup_escalated'', json_option JBool (sg_cleanup_escalated t)), (''origin_ns'', json_option json_u64 (sg_origin_ns t)),
      (''terminal_ns'', json_option json_u64 (sg_terminal_ns t)), (''terminal_type'', json_option JString (sg_terminal_type t)),
      (''terminal_count'', json_option json_u32 (sg_terminal_count t)),
      (''source_terminal_count'', json_option json_u32 (sg_source_terminal_count t)),
      (''exit_code'', json_option json_i32 (sg_exit_code t)), (''exit_was_signal'', json_option JBool (sg_exit_was_signal t)),
      (''residue'', json_option residue_json (sg_residue t)),
      (''declared_daemon_linger'', json_option linger_json (sg_declared_daemon_linger t)),
      (''residue_processes'', json_option json_u32 (sg_residue_processes t)),
      (''residue_identities'', json_list process_info_json (sg_residue_identities t))]"

section \<open>The evaluation\<close>

definition conclude_signals :: "signal_trial list \<Rightarrow> signal_counts \<Rightarrow> automation_evaluation" where
  "conclude_signals trials s =
     \<lparr>av_metrics = bt_insert ''signal_matrix.passed_cases'' (f_of_u64 (sc_passed_cases s))
        (bt_insert ''signal_matrix.applicable_cases'' (f_of_u64 (sc_applicable_cases s)) (sc_metrics s)),
      av_details = json_object [(''measurement_complete'', JBool True), (''cases'', json_list signal_trial_json trials)],
      av_measurement_complete = True, av_passed = (sc_passed s \<and> 3 \<le> sc_applicable_kinds s), av_measurement_error = None\<rparr>"

definition evaluate_signal_matrix :: "signal_trial list \<Rightarrow> u32 \<Rightarrow> u64 \<Rightarrow> u64 option \<Rightarrow> u64 \<Rightarrow> automation_evaluation" where
  "evaluate_signal_matrix trials expected grace_ms idle_linger_ms outer_deadline_ms =
     (if outer_deadline_ms \<le> saturating_add grace_ms 250
      then automation_incomplete ''signal grace plus tolerance is not below the outer deadline''
      else case and_then (check_signal_trials trials expected idle_linger_ms)
          (\<lambda>_. fold_ok (signal_case_step trials expected grace_ms) signal_start signal_cases) of
        Inl message \<Rightarrow> automation_incomplete message
      | Inr s \<Rightarrow> conclude_signals trials s)"

end
