(* ===== verification/Local_Delivery.thy ===== *)
theory Local_Delivery
  imports Child_Failure
begin

text \<open>
  The pure part of \<open>src/src/offline_guard.rs\<close>: the classification of the delivery probes at the setup of the
  guard, the monitor of the local addresses, and the parser of the provider's URL.  The enumeration of
  the interfaces is a parameter: the monitor is given the sequence of its results.
\<close>

section \<open>Addresses\<close>

type_synonym ipv4 = "nat \<times> nat \<times> nat \<times> nat"

definition show_ipv4 :: "ipv4 \<Rightarrow> string" where
  "show_ipv4 a = (case a of (p, q, r, s) \<Rightarrow>
     show_nat p @ ''.'' @ show_nat q @ ''.'' @ show_nat r @ ''.'' @ show_nat s)"

definition show_socket :: "ipv4 \<Rightarrow> u16 \<Rightarrow> string" where
  "show_socket a port = show_ipv4 a @ '':'' @ show_nat (unat port)"

text \<open>\<open>Ipv4Addr\<close> parses four decimal octets of at most three digits without a leading zero.\<close>

definition parse_octet :: "string \<Rightarrow> nat option" where
  "parse_octet s =
     (if s \<noteq> [] \<and> length s \<le> 3 \<and> list_all is_digit s \<and> (hd s = CHR ''0'' \<longrightarrow> length s = 1) then parse_unsigned 256 s else None)"

definition parse_ipv4 :: "string \<Rightarrow> ipv4 option" where
  "parse_ipv4 s = (case map parse_octet (split_on (CHR ''.'') s) of
     [Some p, Some q, Some r, Some t] \<Rightarrow> Some (p, q, r, t) | _ \<Rightarrow> None)"

definition is_loopback :: "ipv4 \<Rightarrow> bool" where
  "is_loopback a \<longleftrightarrow> fst a = 127"

definition rsplit_once :: "char \<Rightarrow> string \<Rightarrow> (string \<times> string) option" where
  "rsplit_once d s = map_option (\<lambda>(a, b). (rev b, rev a)) (split_once d (rev s))"

section \<open>Delivery probes\<close>

definition local_delivery_wait_ms :: nat where
  "local_delivery_wait_ms = 2000"

definition local_delivery_owned :: string where
  "local_delivery_owned = ''delivered-to-ahrb-sentinel''"

definition local_delivery_blocked :: string where
  "local_delivery_blocked = ''blocked-by-profile''"

definition local_delivery_answered_by_other :: string where
  "local_delivery_answered_by_other = ''answered-by-other''"

definition local_delivery_refused :: string where
  "local_delivery_refused = ''refused''"

definition local_delivery_timeout :: string where
  "local_delivery_timeout = ''timeout''"

definition local_delivery_ambiguous :: string where
  "local_delivery_ambiguous = ''ambiguous''"

definition local_delivery_failure_prefix :: string where
  "local_delivery_failure_prefix = ''guard boundary includes a local address AHRB does not own''"

record delivery_probe =
  dp_address :: string
  dp_interfaces :: "string list"
  dp_destination :: string
  dp_outcome :: string
  dp_probe_local_address :: "string option"
  dp_sentinel_recorded :: bool
  dp_detail :: string

definition proves_boundary :: "delivery_probe \<Rightarrow> bool" where
  "proves_boundary p \<longleftrightarrow> dp_outcome p = local_delivery_owned \<and> dp_sentinel_recorded p
     \<or> dp_outcome p = local_delivery_blocked \<and> \<not> dp_sentinel_recorded p"

definition unproven_probe :: "delivery_probe \<Rightarrow> string" where
  "unproven_probe p =
     dp_address p @ '' ('' @ (if dp_interfaces p = [] then ''unknown interface'' else join '', '' (dp_interfaces p)) @ '') ''
       @ dp_outcome p @ '': '' @ dp_detail p"

definition local_delivery_failure :: "delivery_probe list \<Rightarrow> string option" where
  "local_delivery_failure probes =
     (let failed = map unproven_probe (filter (\<lambda>p. \<not> proves_boundary p) probes)
      in if failed = [] then None else Some (local_delivery_failure_prefix @ '': '' @ join ''; '' failed))"

datatype delivery_connect = Connected "(ipv4 \<times> u16) option" | DC_Blocked | DC_Refused | DC_TimedOut | DC_Failed string

definition connect_outcome :: "string \<Rightarrow> bool \<Rightarrow> delivery_connect \<Rightarrow> string \<times> string" where
  "connect_outcome destination recorded connect =
     (case connect of
        Connected (Some (a, port)) \<Rightarrow>
          if recorded
          then (local_delivery_owned, ''AHRB sentinel at '' @ destination @ '' recorded peer '' @ show_socket a port)
          else (local_delivery_answered_by_other, ''connect from inside the row-62 profile succeeded from '' @ show_socket a port
            @ '' but AHRB'' @ [CHR 0x27] @ ''s sentinel at '' @ destination @ '' recorded no such arrival within '' @ show_nat local_delivery_wait_ms @ '' ms'')
      | Connected None \<Rightarrow>
          (local_delivery_ambiguous, ''connect to '' @ destination @ '' succeeded but the probe reported no local address to match'')
      | DC_Blocked \<Rightarrow> (local_delivery_blocked, ''Seatbelt denied TCP to '' @ destination @ '' with EPERM/EACCES'')
      | DC_Refused \<Rightarrow> (local_delivery_refused, ''connect to '' @ destination @ '' was refused although AHRB'' @ [CHR 0x27] @ ''s sentinel holds it'')
      | DC_TimedOut \<Rightarrow> (local_delivery_timeout, ''connect to '' @ destination @ '' did not complete'')
      | DC_Failed e \<Rightarrow> (local_delivery_ambiguous, ''probe to '' @ destination @ '' gave no attributable result: '' @ e))"

definition probe_source :: "delivery_connect \<Rightarrow> string option" where
  "probe_source connect = (case connect of Connected (Some (a, port)) \<Rightarrow> Some (show_socket a port) | _ \<Rightarrow> None)"

definition classify_local_delivery :: "ipv4 \<Rightarrow> string list \<Rightarrow> u16 \<Rightarrow> delivery_connect \<Rightarrow> bool \<Rightarrow> delivery_probe" where
  "classify_local_delivery address interfaces port connect recorded =
     (case connect_outcome (show_socket address port) recorded connect of (outcome, detail) \<Rightarrow>
       \<lparr>dp_address = show_ipv4 address, dp_interfaces = interfaces, dp_destination = show_socket address port,
        dp_outcome = outcome, dp_probe_local_address = probe_source connect,
        dp_sentinel_recorded = (recorded \<and> outcome = local_delivery_owned), dp_detail = detail\<rparr>)"

section \<open>The monitor of the local addresses\<close>

record monitor_evidence =
  me_sample_interval_ms :: u64
  me_samples_completed :: u64
  me_final_addresses :: "string list"
  me_change_detected :: bool
  me_first_change_old_addresses :: "string list"
  me_first_change_new_addresses :: "string list"
  me_error :: "string option"

record monitor_result =
  mo_samples_completed :: u64
  mo_final_addresses :: "ipv4 list"
  mo_first_change :: "(ipv4 list \<times> ipv4 list) option"
  mo_error :: "string option"

definition compare_local_ipv4_sample :: "ipv4 list \<Rightarrow> ipv4 list \<Rightarrow> (ipv4 list \<times> ipv4 list) option \<Rightarrow> (ipv4 list \<times> ipv4 list) option" where
  "compare_local_ipv4_sample initial sampled first_change =
     (if sampled \<noteq> initial \<and> first_change = None then Some (initial, sampled) else first_change)"

definition take_sample :: "ipv4 list \<Rightarrow> monitor_result \<Rightarrow> ipv4 list \<Rightarrow> monitor_result" where
  "take_sample initial m sampled =
     m\<lparr>mo_samples_completed := saturating_add (mo_samples_completed m) 1,
       mo_first_change := compare_local_ipv4_sample initial sampled (mo_first_change m), mo_final_addresses := sampled\<rparr>"

definition monitor_start :: "ipv4 list \<Rightarrow> monitor_result" where
  "monitor_start initial = \<lparr>mo_samples_completed = 1, mo_final_addresses = initial, mo_first_change = None, mo_error = None\<rparr>"

text \<open>The thread ends with the first enumeration that fails, or when it is stopped.\<close>

fun monitor_loop :: "ipv4 list \<Rightarrow> monitor_result \<Rightarrow> (string + ipv4 list) list \<Rightarrow> monitor_result" where
  "monitor_loop initial m [] = m"
| "monitor_loop initial m (Inr sampled # samples) = monitor_loop initial (take_sample initial m sampled) samples"
| "monitor_loop initial m (Inl e # samples) = m\<lparr>mo_error := Some (''periodic local IPv4 address enumeration failed: '' @ e)\<rparr>"

definition local_ipv4_sample_interval_ms :: u64 where
  "local_ipv4_sample_interval_ms = 500"

definition local_ipv4_monitor_evidence :: "monitor_result \<Rightarrow> monitor_evidence" where
  "local_ipv4_monitor_evidence m =
     (let (old, new) = (case mo_first_change m of None \<Rightarrow> ([], []) | Some c \<Rightarrow> c) in
      \<lparr>me_sample_interval_ms = local_ipv4_sample_interval_ms, me_samples_completed = mo_samples_completed m,
       me_final_addresses = map show_ipv4 (mo_final_addresses m), me_change_detected = (mo_first_change m \<noteq> None),
       me_first_change_old_addresses = map show_ipv4 old, me_first_change_new_addresses = map show_ipv4 new,
       me_error = mo_error m\<rparr>)"

text \<open>The end of a trial: the thread is joined, \<open>None\<close> when it failed, and a last sample is taken.\<close>

definition joined :: "ipv4 list \<Rightarrow> (string + ipv4 list) list option \<Rightarrow> monitor_result" where
  "joined initial run = (case run of
     Some samples \<Rightarrow> monitor_loop initial (monitor_start initial) samples
   | None \<Rightarrow> (monitor_start initial)\<lparr>mo_error := Some ''row-62 local IPv4 monitor thread failed''\<rparr>)"

definition monitor_finish :: "ipv4 list \<Rightarrow> (string + ipv4 list) list option \<Rightarrow> string + ipv4 list \<Rightarrow> monitor_evidence" where
  "monitor_finish initial run final_sample =
     (let m = joined initial run in
      local_ipv4_monitor_evidence (case final_sample of
        Inr sampled \<Rightarrow> take_sample initial m sampled
      | Inl e \<Rightarrow> m\<lparr>mo_error := Some (''final local IPv4 address enumeration failed: '' @ e)\<rparr>))"

section \<open>The provider's URL\<close>

definition parse_loopback_http :: "(string \<Rightarrow> string) \<Rightarrow> string \<Rightarrow> ahrb_error + string \<times> u16" where
  "parse_loopback_http debug base_url =
     (case map_option (\<lambda>rest. hd (split_on (CHR ''/'') rest)) (strip_prefix base_url ''http://'') of
        None \<Rightarrow> Inl (Protocol (''offline guard requires an injected literal HTTP loopback provider, got '' @ debug base_url))
      | Some authority \<Rightarrow>
        (case rsplit_once (CHR '':'') authority of
           None \<Rightarrow> Inl (Protocol (''offline guard provider lacks an explicit port: '' @ debug base_url))
         | Some (host, port) \<Rightarrow>
           if host \<noteq> ''127.0.0.1'' then Inl (Protocol (''offline guard provider is not literal loopback: '' @ debug base_url))
           else case parse_unsigned (2 ^ 16) port of
             None \<Rightarrow> Inl (Protocol (''offline guard provider has an invalid port: '' @ debug base_url))
           | Some n \<Rightarrow> Inr (''127.0.0.1'', of_nat n)))"

end
