(* ===== verification/Offline_Mode.thy ===== *)
theory Offline_Mode
  imports Local_Delivery
begin

text \<open>
  Row 62 of \<open>src/src/wave2_automation.rs\<close>: a harness that runs offline must work with the local provider alone,
  under a guard whose evidence is complete.  An escape makes the guard untrustworthy and is therefore an
  error of the measurement, not a failure of the harness.  SHA-256 in lower hexadecimal digits and the
  rendering \<open>{:?}\<close> of a text are parameters.
\<close>

section \<open>Trials\<close>

record offline_attempt =
  oa_repetition :: u32
  oa_destination :: string
  oa_category :: string
  oa_outcome :: string
  oa_allowed :: bool
  oa_confinement_identity :: string

record offline_trial =
  ot_repetition :: u32
  ot_provider_requests :: u64
  ot_terminal_success :: bool
  ot_terminal_failure :: "string option"
  ot_control_probe_blocked :: bool
  ot_harness_confinement_identity :: string
  ot_probe_confinement_identity :: string
  ot_egress_enforcement :: string
  ot_guard_profile_sha256 :: "string option"
  ot_guard_rendered_profile :: "string option"
  ot_guard_launcher_sha256 :: "string option"
  ot_provider_rule :: "string option"
  ot_provider_destination :: "string option"
  ot_provider_bind_address :: "string option"
  ot_owned_ipv4_addresses :: "string list"
  ot_provider_port_owned :: "bool option"
  ot_provider_probe_allowed :: "bool option"
  ot_udp_probe_destinations :: "string list"
  ot_udp_probes_blocked :: "bool option"
  ot_alternate_ipv4_probe_blocked :: "bool option"
  ot_alternate_loopback_probe_blocked :: "bool option"
  ot_child_inheritance_proven :: "bool option"
  ot_profile_write_blocked :: "bool option"
  ot_launch_hash_verified :: "bool option"
  ot_local_ipv4_monitor :: "monitor_evidence option"
  ot_local_delivery_probes :: "delivery_probe list"
  ot_local_delivery_proven :: "bool option"
  ot_attempts :: "offline_attempt list"

definition offline_owned_connector_enforcement :: string where
  "offline_owned_connector_enforcement = ''reviewed reference-mock owned loopback connector''"

definition offline_seatbelt_enforcement :: string where
  "offline_seatbelt_enforcement = ''macos-seatbelt-owned-local-tcp-port-v3''"

section \<open>Delivery to owned addresses\<close>

definition text_or_empty :: "string option \<Rightarrow> string" where
  "text_or_empty s = (case s of None \<Rightarrow> [] | Some t \<Rightarrow> t)"

definition provider_port :: "offline_trial \<Rightarrow> string" where
  "provider_port t = text_or_empty (map_option snd (rsplit_once (CHR '':'') (text_or_empty (ot_provider_destination t))))"

definition non_loopback :: "string \<Rightarrow> bool" where
  "non_loopback address \<longleftrightarrow> \<not> (case parse_ipv4 address of None \<Rightarrow> False | Some a \<Rightarrow> is_loopback a)"

definition expected_probes :: "offline_trial \<Rightarrow> string list" where
  "expected_probes t = bset_of_list (filter non_loopback (ot_owned_ipv4_addresses t))"

definition probed_addresses :: "offline_trial \<Rightarrow> string list" where
  "probed_addresses t = bset_of_list (map dp_address (ot_local_delivery_probes t))"

definition delivery_uncovered :: "offline_trial \<Rightarrow> bool" where
  "delivery_uncovered t \<longleftrightarrow>
     ot_local_delivery_proven t \<noteq> Some True \<or> provider_port t = [] \<or> probed_addresses t \<noteq> expected_probes t
     \<or> length (ot_local_delivery_probes t) \<noteq> length (expected_probes t)
     \<or> list_ex (\<lambda>p. dp_destination p \<noteq> dp_address p @ '':'' @ provider_port t) (ot_local_delivery_probes t)"

definition seatbelt_local_delivery_error :: "offline_trial \<Rightarrow> string option" where
  "seatbelt_local_delivery_error t =
     (case local_delivery_failure (ot_local_delivery_probes t) of
        Some reason \<Rightarrow> Some reason
      | None \<Rightarrow>
        if delivery_uncovered t
        then Some (local_delivery_failure_prefix
          @ '': setup delivery probes do not cover every non-loopback owned address (owned ['' @ join '', '' (expected_probes t)
          @ ''], probed ['' @ join '', '' (probed_addresses t) @ ''])'')
        else None)"

definition is_seatbelt :: "offline_trial \<Rightarrow> bool" where
  "is_seatbelt t \<longleftrightarrow> ot_egress_enforcement t = offline_seatbelt_enforcement"

fun find_map :: "('a \<Rightarrow> 'b option) \<Rightarrow> 'a list \<Rightarrow> 'b option" where
  "find_map f [] = None"
| "find_map f (x # xs) = (case f x of Some y \<Rightarrow> Some y | None \<Rightarrow> find_map f xs)"

section \<open>The evidence of the Seatbelt guard\<close>

definition dquote :: char where
  "dquote = CHR 0x22"

definition expected_provider_rule :: "offline_trial \<Rightarrow> string" where
  "expected_provider_rule t =
     ''(allow network-outbound (require-all (socket-domain AF_INET) (remote tcp '' @ [dquote] @ ''localhost:'' @ provider_port t
       @ [dquote] @ '')))''"

definition network_allowances :: "string \<Rightarrow> string list" where
  "network_allowances profile = filter (\<lambda>l. starts_with l ''(allow network'') (text_lines profile)"

definition profile_exact :: "(string \<Rightarrow> string) \<Rightarrow> offline_trial \<Rightarrow> bool" where
  "profile_exact sha t \<longleftrightarrow>
     (let profile = text_or_empty (ot_guard_rendered_profile t); allowances = network_allowances profile in
      profile \<noteq> [] \<and> sha profile = text_or_empty (ot_guard_profile_sha256 t)
      \<and> list_ex (\<lambda>l. l = ''(deny network-outbound)'') (text_lines profile)
      \<and> length allowances = 2 \<and> expected_provider_rule t \<in> set allowances
      \<and> list_ex (\<lambda>l. starts_with l ''(allow network-outbound (subpath '' \<and> \<not> contains_str l ''(remote '') allowances
      \<and> \<not> contains_str profile ''(remote ip '' \<and> \<not> contains_str profile ''(remote udp '')"

definition addresses_changed :: "monitor_evidence \<Rightarrow> bool" where
  "addresses_changed m \<longleftrightarrow> me_change_detected m \<or> me_first_change_old_addresses m \<noteq> [] \<or> me_first_change_new_addresses m \<noteq> []"

definition monitor_complete :: "offline_trial \<Rightarrow> monitor_evidence \<Rightarrow> bool" where
  "monitor_complete t m \<longleftrightarrow>
     me_sample_interval_ms m \<noteq> 0 \<and> me_sample_interval_ms m \<le> 1000 \<and> 2 \<le> me_samples_completed m
     \<and> me_final_addresses m = ot_owned_ipv4_addresses t \<and> \<not> addresses_changed m \<and> me_error m = None"

definition identity_bound :: "offline_trial \<Rightarrow> bool" where
  "identity_bound t \<longleftrightarrow>
     contains_str (ot_harness_confinement_identity t) (''profile-sha256:'' @ text_or_empty (ot_guard_profile_sha256 t))
     \<and> contains_str (ot_harness_confinement_identity t) (''launcher-sha256:'' @ text_or_empty (ot_guard_launcher_sha256 t))
     \<and> contains_str (ot_harness_confinement_identity t) (''bind:'' @ text_or_empty (ot_provider_destination t))"

definition provider_bound :: "offline_trial \<Rightarrow> bool" where
  "provider_bound t \<longleftrightarrow>
     text_or_empty (ot_provider_destination t) \<noteq> [] \<and> ot_provider_bind_address t = Some (text_or_empty (ot_provider_destination t))
     \<and> ot_provider_port_owned t = Some True \<and> ot_provider_rule t = Some (expected_provider_rule t)
     \<and> starts_with (text_or_empty (ot_provider_destination t)) ''127.0.0.1:''"

definition udp_covered :: "offline_trial \<Rightarrow> bool" where
  "udp_covered t \<longleftrightarrow>
     ot_udp_probe_destinations t \<noteq> [] \<and> ot_udp_probes_blocked t = Some True
     \<and> length (ot_udp_probe_destinations t) = length (ot_owned_ipv4_addresses t)
     \<and> list_all (\<lambda>address. list_ex (\<lambda>d. d = address @ '':'' @ provider_port t) (ot_udp_probe_destinations t))
         (ot_owned_ipv4_addresses t)"

definition probes_proven :: "offline_trial \<Rightarrow> bool" where
  "probes_proven t \<longleftrightarrow>
     ot_provider_probe_allowed t = Some True \<and> ot_alternate_ipv4_probe_blocked t = Some True
     \<and> ot_alternate_loopback_probe_blocked t = Some True \<and> ot_child_inheritance_proven t = Some True
     \<and> ot_profile_write_blocked t = Some True \<and> ot_launch_hash_verified t = Some True"

definition seatbelt_complete :: "offline_trial \<Rightarrow> bool" where
  "seatbelt_complete t \<longleftrightarrow>
     text_or_empty (ot_guard_profile_sha256 t) \<noteq> [] \<and> text_or_empty (ot_guard_launcher_sha256 t) \<noteq> [] \<and> provider_bound t
     \<and> ot_owned_ipv4_addresses t \<noteq> [] \<and> identity_bound t \<and> list_ex (\<lambda>address. address = ''127.0.0.1'') (ot_owned_ipv4_addresses t)
     \<and> udp_covered t \<and> probes_proven t
     \<and> (case ot_local_ipv4_monitor t of None \<Rightarrow> False | Some m \<Rightarrow> monitor_complete t m)"

definition check_monitor :: "monitor_evidence \<Rightarrow> string + unit" where
  "check_monitor m =
     (if addresses_changed m
      then Inl (''egress enforcement unavailable: local IPv4 address set changed during the trial (old [''
        @ join '', '' (me_first_change_old_addresses m) @ ''], new ['' @ join '', '' (me_first_change_new_addresses m)
        @ '']); sentinel coverage no longer matches'')
      else case me_error m of
        None \<Rightarrow> Inr ()
      | Some e \<Rightarrow> Inl (''egress enforcement unavailable: local IPv4 address monitor failed: '' @ e))"

definition check_seatbelt :: "(string \<Rightarrow> string) \<Rightarrow> offline_trial \<Rightarrow> string + unit" where
  "check_seatbelt sha t =
     and_then (guard (ot_udp_probes_blocked t = Some True) (''egress enforcement unavailable: guarded UDP probes to ''
         @ join '', '' (ot_udp_probe_destinations t) @ '' were not all denied'')) (\<lambda>_.
     and_then (case ot_local_ipv4_monitor t of None \<Rightarrow> Inr () | Some m \<Rightarrow> check_monitor m) (\<lambda>_.
     and_then (guard (profile_exact sha t)
       ''egress enforcement unavailable: retained Seatbelt profile does not match its hash or the TCP-only provider rule'') (\<lambda>_.
     guard (seatbelt_complete t) ''egress enforcement unavailable: Seatbelt identity/probe evidence incomplete'')))"

section \<open>One trial\<close>

definition offline_categories :: "string list" where
  "offline_categories = [''update-check'', ''model-catalog'', ''telemetry'', ''other'', ''control-probe'']"

definition same_confinement :: "offline_trial \<Rightarrow> bool" where
  "same_confinement t \<longleftrightarrow>
     ot_harness_confinement_identity t \<noteq> [] \<and> ot_harness_confinement_identity t = ot_probe_confinement_identity t
     \<and> ot_egress_enforcement t \<noteq> [] \<and> ot_control_probe_blocked t"

definition reviewed_guard :: "offline_trial \<Rightarrow> bool" where
  "reviewed_guard t \<longleftrightarrow> ot_egress_enforcement t = offline_owned_connector_enforcement \<or> is_seatbelt t"

definition attempt_confined :: "offline_trial \<Rightarrow> offline_attempt \<Rightarrow> bool" where
  "attempt_confined t a \<longleftrightarrow>
     oa_category a \<in> set offline_categories \<and> oa_confinement_identity a = ot_harness_confinement_identity t \<and> \<not> oa_allowed a"

definition workflow_failure :: "offline_trial \<Rightarrow> string" where
  "workflow_failure t = ''egress enforcement unavailable: guarded harness workflow did not complete successfully''
     @ (case ot_terminal_failure t of None \<Rightarrow> [] | Some detail \<Rightarrow> '': '' @ detail)"

definition check_offline_trial :: "(string \<Rightarrow> string) \<Rightarrow> (string \<Rightarrow> string) \<Rightarrow> offline_trial \<Rightarrow> string + unit" where
  "check_offline_trial sha debug t =
     and_then (guard (same_confinement t) ''egress enforcement unavailable: same-confinement proof failed'') (\<lambda>_.
     and_then (guard (reviewed_guard t)
       (''egress enforcement unavailable: unreviewed enforcement identity '' @ debug (ot_egress_enforcement t))) (\<lambda>_.
     and_then (if is_seatbelt t then check_seatbelt sha t else Inr ()) (\<lambda>_.
     and_then (guard (ot_terminal_success t) (workflow_failure t)) (\<lambda>_.
     and_then (guard (ot_provider_requests t \<noteq> 0)
       ''egress enforcement unavailable: guarded harness made no provider request'') (\<lambda>_.
     guard (list_all (attempt_confined t) (ot_attempts t))
       ''egress enforcement unavailable: guard observation escaped or is unclassified'')))))"

section \<open>JSON\<close>

definition skip_empty :: "string \<Rightarrow> ('a \<Rightarrow> json) \<Rightarrow> 'a list \<Rightarrow> (string \<times> json) list" where
  "skip_empty key f xs = (if xs = [] then [] else [(key, json_list f xs)])"

definition attempt_json :: "offline_attempt \<Rightarrow> json" where
  "attempt_json a = json_object [(''repetition'', json_u32 (oa_repetition a)), (''destination'', JString (oa_destination a)),
     (''category'', JString (oa_category a)), (''outcome'', JString (oa_outcome a)), (''allowed'', JBool (oa_allowed a)),
     (''confinement_identity'', JString (oa_confinement_identity a))]"

definition probe_json :: "delivery_probe \<Rightarrow> json" where
  "probe_json p = json_object ([(''address'', JString (dp_address p)), (''interfaces'', json_list JString (dp_interfaces p)),
     (''destination'', JString (dp_destination p)), (''outcome'', JString (dp_outcome p))]
     @ optional_member ''probe_local_address'' JString (dp_probe_local_address p)
     @ [(''sentinel_recorded'', JBool (dp_sentinel_recorded p)), (''detail'', JString (dp_detail p))])"

definition monitor_json :: "monitor_evidence \<Rightarrow> json" where
  "monitor_json m = json_object ([(''sample_interval_ms'', json_u64 (me_sample_interval_ms m)),
     (''samples_completed'', json_u64 (me_samples_completed m)), (''final_addresses'', json_list JString (me_final_addresses m)),
     (''change_detected'', JBool (me_change_detected m)),
     (''first_change_old_addresses'', json_list JString (me_first_change_old_addresses m)),
     (''first_change_new_addresses'', json_list JString (me_first_change_new_addresses m))]
     @ optional_member ''error'' JString (me_error m))"

definition guard_members :: "offline_trial \<Rightarrow> (string \<times> json) list" where
  "guard_members t =
     optional_member ''guard_profile_sha256'' JString (ot_guard_profile_sha256 t)
     @ optional_member ''guard_rendered_profile'' JString (ot_guard_rendered_profile t)
     @ optional_member ''guard_launcher_sha256'' JString (ot_guard_launcher_sha256 t)
     @ optional_member ''provider_rule'' JString (ot_provider_rule t)
     @ optional_member ''provider_destination'' JString (ot_provider_destination t)
     @ optional_member ''provider_bind_address'' JString (ot_provider_bind_address t)
     @ skip_empty ''owned_ipv4_addresses'' JString (ot_owned_ipv4_addresses t)
     @ optional_member ''provider_port_owned'' JBool (ot_provider_port_owned t)
     @ optional_member ''provider_probe_allowed'' JBool (ot_provider_probe_allowed t)
     @ skip_empty ''udp_probe_destinations'' JString (ot_udp_probe_destinations t)
     @ optional_member ''udp_probes_blocked'' JBool (ot_udp_probes_blocked t)
     @ optional_member ''alternate_ipv4_probe_blocked'' JBool (ot_alternate_ipv4_probe_blocked t)
     @ optional_member ''alternate_loopback_probe_blocked'' JBool (ot_alternate_loopback_probe_blocked t)
     @ optional_member ''child_inheritance_proven'' JBool (ot_child_inheritance_proven t)
     @ optional_member ''profile_write_blocked'' JBool (ot_profile_write_blocked t)
     @ optional_member ''launch_hash_verified'' JBool (ot_launch_hash_verified t)
     @ optional_member ''local_ipv4_monitor'' monitor_json (ot_local_ipv4_monitor t)
     @ skip_empty ''local_delivery_probes'' probe_json (ot_local_delivery_probes t)
     @ optional_member ''local_delivery_proven'' JBool (ot_local_delivery_proven t)"

definition offline_trial_json :: "offline_trial \<Rightarrow> json" where
  "offline_trial_json t = json_object
     ([(''repetition'', json_u32 (ot_repetition t)), (''provider_requests'', json_u64 (ot_provider_requests t)),
       (''terminal_success'', JBool (ot_terminal_success t))]
      @ optional_member ''terminal_failure'' JString (ot_terminal_failure t)
      @ [(''control_probe_blocked'', JBool (ot_control_probe_blocked t)),
         (''harness_confinement_identity'', JString (ot_harness_confinement_identity t)),
         (''probe_confinement_identity'', JString (ot_probe_confinement_identity t)),
         (''egress_enforcement'', JString (ot_egress_enforcement t))]
      @ guard_members t @ [(''attempts'', json_list attempt_json (ot_attempts t))])"

text \<open>A member of the first trial, null when there is none.\<close>

definition of_first :: "(offline_trial \<Rightarrow> json) \<Rightarrow> offline_trial list \<Rightarrow> json" where
  "of_first f trials = (case trials of [] \<Rightarrow> JNull | t # _ \<Rightarrow> f t)"

definition first_members :: "offline_trial list \<Rightarrow> (string \<times> json) list" where
  "first_members trials = map (\<lambda>(key, f). (key, of_first f trials))
     [(''egress_enforcement'', \<lambda>t. JString (ot_egress_enforcement t)),
      (''confinement_identity'', \<lambda>t. JString (ot_harness_confinement_identity t)),
      (''guard_profile_sha256'', \<lambda>t. json_option JString (ot_guard_profile_sha256 t)),
      (''guard_rendered_profile'', \<lambda>t. json_option JString (ot_guard_rendered_profile t)),
      (''guard_launcher_sha256'', \<lambda>t. json_option JString (ot_guard_launcher_sha256 t)),
      (''provider_rule'', \<lambda>t. json_option JString (ot_provider_rule t)),
      (''provider_destination'', \<lambda>t. json_option JString (ot_provider_destination t)),
      (''provider_bind_address'', \<lambda>t. json_option JString (ot_provider_bind_address t)),
      (''owned_ipv4_addresses'', \<lambda>t. json_list JString (ot_owned_ipv4_addresses t)),
      (''provider_port_owned'', \<lambda>t. json_option JBool (ot_provider_port_owned t)),
      (''provider_probe_allowed'', \<lambda>t. json_option JBool (ot_provider_probe_allowed t)),
      (''udp_probe_destinations'', \<lambda>t. json_list JString (ot_udp_probe_destinations t)),
      (''udp_probes_blocked'', \<lambda>t. json_option JBool (ot_udp_probes_blocked t)),
      (''alternate_ipv4_probe_blocked'', \<lambda>t. json_option JBool (ot_alternate_ipv4_probe_blocked t)),
      (''alternate_loopback_probe_blocked'', \<lambda>t. json_option JBool (ot_alternate_loopback_probe_blocked t)),
      (''child_inheritance_proven'', \<lambda>t. json_option JBool (ot_child_inheritance_proven t)),
      (''profile_write_blocked'', \<lambda>t. json_option JBool (ot_profile_write_blocked t)),
      (''launch_hash_verified'', \<lambda>t. json_option JBool (ot_launch_hash_verified t)),
      (''local_ipv4_monitor'', \<lambda>t. json_option monitor_json (ot_local_ipv4_monitor t)),
      (''local_delivery_probes'', \<lambda>t. json_list probe_json (ot_local_delivery_probes t)),
      (''local_delivery_proven'', \<lambda>t. json_option JBool (ot_local_delivery_proven t))]"

section \<open>The evaluation\<close>

definition offline_incomplete :: "offline_trial list \<Rightarrow> string \<Rightarrow> automation_evaluation" where
  "offline_incomplete trials message =
     \<lparr>av_metrics = [],
      av_details = json_object [(''measurement_complete'', JBool False), (''measurement_error'', JString message),
        (''trials'', json_list offline_trial_json trials)],
      av_measurement_complete = False, av_passed = False, av_measurement_error = Some message\<rparr>"

definition all_attempts :: "offline_trial list \<Rightarrow> offline_attempt list" where
  "all_attempts trials = concat (map ot_attempts trials)"

definition blocked_in :: "offline_attempt list \<Rightarrow> string \<Rightarrow> u64" where
  "blocked_in attempts category = of_nat (length (filter (\<lambda>a. \<not> oa_allowed a \<and> oa_category a = category) attempts))"

definition blocked_by_category :: "offline_attempt list \<Rightarrow> (string, u64) btree" where
  "blocked_by_category attempts = foldl (\<lambda>m category. bt_insert category (blocked_in attempts category) m) [] offline_categories"

definition offline_metrics :: "offline_trial list \<Rightarrow> (string, f64) btree" where
  "offline_metrics trials = bt_of_list
     [(''offline_mode.provider_requests'', f_of_u64 (sum_list (map ot_provider_requests trials))),
      (''offline_mode.blocked_egress_attempts'',
        f_of_int (int (length (filter (\<lambda>a. \<not> oa_allowed a \<and> oa_category a \<noteq> ''control-probe'') (all_attempts trials))))),
      (''offline_mode.successful_non_provider_connections'', f_of_int (int (length (filter oa_allowed (all_attempts trials))))),
      (''offline_mode.offline_run_success'', Fin 1), (''offline_mode.control_probe_blocked'', Fin 1)]"

definition offline_details :: "offline_trial list \<Rightarrow> json" where
  "offline_details trials = json_object
     ((''measurement_complete'', JBool True) # first_members trials
      @ [(''attempts_total'', json_u64 (of_nat (length (all_attempts trials)))),
         (''blocked_by_category'', JObject (map (\<lambda>(category, n). (category, json_u64 n)) (blocked_by_category (all_attempts trials)))),
         (''attempts'', json_list attempt_json (all_attempts trials))])"

definition check_offline_trials ::
    "(string \<Rightarrow> string) \<Rightarrow> (string \<Rightarrow> string) \<Rightarrow> offline_trial list \<Rightarrow> u32 \<Rightarrow> string + unit" where
  "check_offline_trials sha debug trials expected =
     (case find_map seatbelt_local_delivery_error (filter is_seatbelt trials) of
        Some reason \<Rightarrow> Inl (''egress enforcement unavailable: '' @ reason)
      | None \<Rightarrow>
        if length trials \<noteq> unat expected then Inl ''egress enforcement unavailable: incomplete trials''
        else first_error (check_offline_trial sha debug) trials)"

definition evaluate_offline_mode ::
    "(string \<Rightarrow> string) \<Rightarrow> (string \<Rightarrow> string) \<Rightarrow> offline_trial list \<Rightarrow> u32 \<Rightarrow> automation_evaluation" where
  "evaluate_offline_mode sha debug trials expected =
     (case check_offline_trials sha debug trials expected of
        Inl message \<Rightarrow> offline_incomplete trials message
      | Inr _ \<Rightarrow>
        \<lparr>av_metrics = offline_metrics trials, av_details = offline_details trials, av_measurement_complete = True,
         av_passed = True, av_measurement_error = None\<rparr>)"

end
