(* ===== verification/Automation_Properties.thy ===== *)
theory Automation_Properties
  imports Signal_Matrix Offline_Mode "HOL-Library.Multiset"
begin

text \<open>What a passing row 56, 57 or 62 says of its trials, and what the address monitor reports.\<close>

section \<open>Row 56\<close>

lemma failure_step_Inr: "failure_step n seen t = Inr seen' \<Longrightarrow>
    xt_repetition t \<noteq> 0 \<and> xt_repetition t \<le> n \<and> failure_key t \<notin> set seen \<and> seen' = failure_key t # seen"
  by (auto simp: failure_step_def and_then_Inr_iff split: if_splits)

lemma failure_steps_Inr: "fold_ok (failure_step n) seen trials = Inr seen' \<Longrightarrow>
    list_all (\<lambda>t. xt_repetition t \<noteq> 0 \<and> xt_repetition t \<le> n) trials
    \<and> distinct (map failure_key trials) \<and> failure_key ` set trials \<inter> set seen = {}"
proof (induction trials arbitrary: seen)
  case (Cons t trials)
  then obtain seen1 where step: "failure_step n seen t = Inr seen1" and rest: "fold_ok (failure_step n) seen1 trials = Inr seen'"
    by (auto simp: and_then_Inr_iff)
  show ?case using failure_step_Inr [OF step] Cons.IH [OF rest] by auto
qed simp

definition failure_keys :: "u32 \<Rightarrow> (u32 \<times> nat) set" where
  "failure_keys n = {1..n} \<times> {0, 1}"

lemma card_failure_keys: "card (failure_keys n) = unat n * 2" "finite (failure_keys n)"
  by (simp_all add: failure_keys_def card_cartesian_product card_words finite_words)

lemma unat_u32_bound: "unat (n :: u32) < 2 ^ 32"
  using unsigned_less [of n] by simp

lemma unat_widen: "unat (ucast (w :: u32) :: u64) = unat w"
  by transfer simp

lemma twice_repetitions: "unat (saturating_mul (ucast (n :: u32) :: u64) 2) = unat n * 2"
proof -
  have "unat n * 2 < 2 ^ 64" using unat_u32_bound [of n] by simp
  then show ?thesis by (simp add: unat_saturating_mul unat_widen)
qed

lemma failure_keys_exact:
  assumes "fold_ok (failure_step n) [] trials = Inr seen" and "length trials = unat n * 2"
  shows "distinct (map failure_key trials)" "set (map failure_key trials) = failure_keys n"
proof -
  note steps = failure_steps_Inr [OF assms(1)]
  show d: "distinct (map failure_key trials)" using steps by simp
  have "failure_key t \<in> failure_keys n" if "t \<in> set trials" for t
    using steps that by (auto simp: list_all_iff failure_key_def failure_keys_def word_le_nat_alt unat_gt_0 Suc_leI split: failure_case.split)
  then have "set (map failure_key trials) \<subseteq> failure_keys n" by auto
  moreover have "card (set (map failure_key trials)) = card (failure_keys n)"
    using distinct_card [OF d] assms(2) by (simp add: card_failure_keys)
  ultimately show "set (map failure_key trials) = failure_keys n" by (intro card_subset_eq card_failure_keys)
qed

lemma trials_of_case:
  assumes "distinct (map failure_key trials)" and "set (map failure_key trials) = failure_keys n"
  shows "length (filter is_crash trials) = unat n" "length (filter (\<lambda>t. \<not> is_crash t) trials) = unat n"
proof -
  have part: "length (filter P trials) = card {k \<in> failure_keys n. snd k = i}" if "\<And>t. P t \<longleftrightarrow> snd (failure_key t) = i" for P i
  proof -
    have "distinct (map failure_key (filter P trials))" using assms(1) by (rule distinct_map_filter)
    moreover have "set (map failure_key (filter P trials)) = {k \<in> failure_keys n. snd k = i}" using that by (auto simp flip: assms(2))
    ultimately show ?thesis by (metis distinct_card length_map)
  qed
  have cards: "card {k \<in> failure_keys n. snd k = i} = unat n" if "i \<in> {0, 1}" for i
  proof -
    have "{k \<in> failure_keys n. snd k = i} = {1..n} \<times> {i}" using that by (auto simp: failure_keys_def)
    then show ?thesis by (simp add: card_cartesian_product card_words)
  qed
  have "is_crash t \<longleftrightarrow> snd (failure_key t) = 0" "\<not> is_crash t \<longleftrightarrow> snd (failure_key t) = 1" for t
    by (auto simp: is_crash_def failure_key_def split: failure_case.splits)
  then show "length (filter is_crash trials) = unat n" "length (filter (\<lambda>t. \<not> is_crash t) trials) = unat n"
    using part [of is_crash 0] part [of "\<lambda>t. \<not> is_crash t" 1] cards by simp_all
qed

text \<open>Counters over trials that all count the same.\<close>

lemma count_u32_ones:
  assumes "list_all (\<lambda>t. f t = (1 :: u32)) trials" and "length trials = unat (n :: u32)"
  shows "count_u32 f trials = ucast n"
proof -
  have s: "sum_list (map (\<lambda>t. unat (ucast (f t) :: u64)) trials) = unat n"
    using assms(1) by (simp add: assms(2) [symmetric]) (induction trials, auto)
  moreover have "unat n < 2 ^ 64" using unat_u32_bound [of n] by simp
  ultimately have "unat (count_u32 f trials) = unat (ucast n :: u64)"
    unfolding count_u32_def by (subst unat_sat_sum) (simp_all add: unat_widen)
  then show ?thesis by (simp only: word_unat_eq_iff)
qed

lemma count_flag_u32: "count_flag f trials = count_u32 (\<lambda>t. if f t then 1 else 0) trials"
  by (simp add: count_flag_def count_u32_def if_distrib [of ucast] cong: if_cong)

lemma count_u32_zeros: "list_all (\<lambda>t. f t = (0 :: u32)) trials \<Longrightarrow> count_u32 f trials = 0"
proof -
  assume "list_all (\<lambda>t. f t = 0) trials"
  then have z: "sum_list (map (\<lambda>t. unat (ucast (f t) :: u64)) trials) = 0" by (induction trials) auto
  have "unat (count_u32 f trials) = sum_list (map (\<lambda>t. unat (ucast (f t) :: u64)) trials)"
    unfolding count_u32_def by (rule unat_sat_sum) (simp only: z, simp)
  then have "unat (count_u32 f trials) = 0" by (simp only: z)
  then show ?thesis by (simp add: unat_eq_0)
qed

text \<open>The keys name the repetition and the case.\<close>

lemma case_keys:
  assumes "distinct (map failure_key trials)" and "set (map failure_key trials) = failure_keys n"
  shows "distinct (map (\<lambda>t. (xt_repetition t, xt_case t)) trials)
    \<and> set (map (\<lambda>t. (xt_repetition t, xt_case t)) trials) = {1..n} \<times> {CF_Crash, CF_Hang}"
proof -
  let ?case_of = "\<lambda>i :: nat. if i = 0 then CF_Crash else CF_Hang"
  have key: "(\<lambda>t. (xt_repetition t, xt_case t)) = apsnd ?case_of \<circ> failure_key"
    by (auto simp: failure_key_def fun_eq_iff split: failure_case.split)
  have map: "map (\<lambda>t. (xt_repetition t, xt_case t)) trials = map (apsnd ?case_of) (map failure_key trials)" by (simp add: key)
  have "inj_on (apsnd ?case_of) (failure_keys n)" by (auto simp: inj_on_def failure_keys_def)
  moreover have "apsnd ?case_of ` failure_keys n = {1..n} \<times> {CF_Crash, CF_Hang}"
    by (force simp: failure_keys_def image_iff)
  ultimately show ?thesis using assms unfolding map distinct_map [of "apsnd ?case_of"] set_map [of "apsnd ?case_of"] by simp
qed

text \<open>A trial that ended once: a crash by the child's single failure, received before the parent's terminal and at most
  the smaller of the timeout and five seconds earlier; a hang, with the response headers seen in between, by the deadline
  and at most a second later.\<close>

definition milliseconds_between :: "u64 \<Rightarrow> u64 \<Rightarrow> f64" where
  "milliseconds_between start ending = f_div (f_of_u64 (ending - start)) (Fin 1000000)"

definition ended_once :: "u64 \<Rightarrow> failure_trial \<Rightarrow> bool" where
  "ended_once timeout_ms t \<longleftrightarrow>
     xt_parent_failure_terminals t = 1 \<and> \<not> xt_success_contradiction t \<and> xt_child_residue_count t = 0 \<and> \<not> xt_outer_kill_used t
     \<and> (case xt_case t of
          CF_Crash \<Rightarrow> xt_child_failure_terminals t = 1
            \<and> (\<exists>ns. xt_child_failure_received_ns t = Some ns \<and> ns \<le> xt_parent_terminal_received_ns t
                 \<and> f_le (milliseconds_between ns (xt_parent_terminal_received_ns t)) (f_of_u64 (min timeout_ms 5000)))
        | CF_Hang \<Rightarrow> xt_child_cancelled t
            \<and> (\<exists>ns. xt_child_response_headers_ns t = Some ns \<and> xt_parent_operation_start_ns t \<le> ns
                 \<and> ns < xt_parent_terminal_received_ns t)
            \<and> (let ms = milliseconds_between (xt_parent_operation_start_ns t) (xt_parent_terminal_received_ns t)
               in f_le (f_of_u64 timeout_ms) ms \<and> f_le ms (f_of_u64 (saturating_add timeout_ms 1000))))"

lemma milliseconds_elapsed: "start \<le> ending \<Longrightarrow> elapsed_ms start ending = milliseconds_between start ending"
  by (simp add: elapsed_ms_def ns_to_ms_def milliseconds_between_def saturating_sub_def)

lemma failure_boundaries:
  "fold_ok (failure_step n) seen trials = Inr seen' \<Longrightarrow> t \<in> set trials \<Longrightarrow>
    xt_parent_operation_start_ns t \<le> xt_parent_terminal_received_ns t \<and> check_failure_boundary t = Inr ()"
proof (induction trials arbitrary: seen)
  case (Cons u trials)
  then obtain seen1 where step: "failure_step n seen u = Inr seen1" and rest: "fold_ok (failure_step n) seen1 trials = Inr seen'"
    by (auto simp: and_then_Inr_iff)
  show ?case
  proof (cases "t = u")
    case True
    then show ?thesis using step by (auto simp: failure_step_def and_then_Inr_iff split: if_splits)
  next
    case False
    with Cons.IH [OF rest] Cons.prems(2) show ?thesis by simp
  qed
qed simp

lemma ended_onceI:
  assumes "check_failure_boundary t = Inr ()" "xt_parent_operation_start_ns t \<le> xt_parent_terminal_received_ns t"
    and "failure_passed timeout_ms t"
  shows "ended_once timeout_ms t"
  using assms milliseconds_elapsed
  by (auto simp: ended_once_def check_failure_boundary_def failure_passed_def crash_passed_def hang_passed_def is_crash_def
      deadline_fired_def failure_latency_def Let_def split: failure_case.splits option.splits if_splits)

text \<open>C19: when row 56 passes, every repetition has exactly one crash and one hang; in each of them the parent ended
  exactly once, with no contradicting success, no residue and no outer kill: every crash after the one failure of the
  child that it received, within the smaller of the timeout and five seconds, every hang by its deadline and at most a
  second later, with the child cancelled.  The counters of the row say so without saturation.\<close>

theorem passing_failures_end_once:
  assumes "av_passed (evaluate_child_failure_propagation trials n timeout_ms)"
  shows "distinct (map (\<lambda>t. (xt_repetition t, xt_case t)) trials)
    \<and> set (map (\<lambda>t. (xt_repetition t, xt_case t)) trials) = {1..n} \<times> {CF_Crash, CF_Hang}
    \<and> list_all (ended_once timeout_ms) trials
    \<and> (let metric = bt_get (av_metrics (evaluate_child_failure_propagation trials n timeout_ms)) in
       metric ''child_failure_propagation.crash_parent_failure_terminals'' = Some (f_of_u64 (ucast n))
       \<and> metric ''child_failure_propagation.hang_parent_failure_terminals'' = Some (f_of_u64 (ucast n))
       \<and> metric ''child_failure_propagation.hang_deadline_fired'' = Some (f_of_u64 (ucast n))
       \<and> metric ''child_failure_propagation.child_residue_count'' = Some (f_of_u64 0)
       \<and> metric ''child_failure_propagation.outer_kill_used'' = Some (f_of_u64 0))"
proof -
  obtain seen where len: "length trials = unat n * 2" and steps: "fold_ok (failure_step n) [] trials = Inr seen"
    and pass: "list_all (failure_passed timeout_ms) trials"
    and e: "av_metrics (evaluate_child_failure_propagation trials n timeout_ms) = failure_metrics timeout_ms trials"
    using assms by (auto simp: evaluate_child_failure_propagation_def automation_incomplete_def twice_repetitions
        split: if_splits sum.splits)
  note keys = failure_keys_exact [OF steps len]
  note parts = trials_of_case [OF keys]
  let ?crashes = "filter is_crash trials" and ?hangs = "filter (\<lambda>t. \<not> is_crash t) trials"
  have "list_all (\<lambda>t. xt_parent_failure_terminals t = 1) ?crashes" "list_all (\<lambda>t. xt_parent_failure_terminals t = 1) ?hangs"
    "list_all (\<lambda>t. (if deadline_fired timeout_ms t then 1 else 0) = (1 :: u32)) ?hangs"
    "list_all (\<lambda>t. xt_child_residue_count t = 0) trials" "list_all (\<lambda>t. (if xt_outer_kill_used t then 1 else 0) = (0 :: u32)) trials"
    using pass by (auto simp: list_all_iff failure_passed_def crash_passed_def hang_passed_def split: if_splits)
  note counts = count_u32_ones [OF this(1) parts(1)] count_u32_ones [OF this(2) parts(2)] count_u32_ones [OF this(3) parts(2)]
    count_u32_zeros [OF this(4)] count_u32_zeros [OF this(5)]
  have "list_all (ended_once timeout_ms) trials"
    using failure_boundaries [OF steps] pass by (auto simp: list_all_iff intro: ended_onceI)
  moreover note case_keys [OF keys]
  ultimately show ?thesis using counts by (simp add: e failure_metrics_def Let_def bt_get_of_list count_flag_u32)
qed

section \<open>Row 57\<close>

lemma check_applicable_Inr:
  assumes "check_applicable idle t = Inr ()"
  obtains origin terminal r k where "sg_delivery_succeeded t = Some True" "sg_ownership_resolved t = Some True" "sg_origin_ns t = Some origin" "sg_terminal_ns t = Some terminal" "origin \<le> terminal"
    "sg_residue_processes t = Some k" "unat k = length (sg_residue_identities t)" "sg_residue t = Some r"
    "ro_observed_after_ms r = 2000" "unat (ro_processes r) = length (ro_identities r)" "check_linger idle t r = Inr ()"
proof -
  obtain origin terminal r where r: "sg_delivery_succeeded t = Some True" "sg_ownership_resolved t = Some True" "sg_origin_ns t = Some origin" "sg_terminal_ns t = Some terminal" "\<not> terminal < origin"
      "check_residue t = Inr r" "check_linger idle t r = Inr ()"
    using assms by (auto simp: check_applicable_def and_then_Inr_iff split: if_splits option.splits)
  then obtain k where "sg_residue_processes t = Some k" "unat k = length (sg_residue_identities t)" "sg_residue t = Some r"
      "ro_observed_after_ms r = 2000" "unat (ro_processes r) = length (ro_identities r)"
    by (auto simp: check_residue_def split: if_splits option.splits)
  then show ?thesis using r by (intro that [of origin terminal k r]) simp_all
qed

text \<open>A trial whose signal was delivered to the resolved owner and that ended once, in time and clean: one terminal that the harness itself reported, an exit with a
  code and not by a signal, no owned process left at two seconds or at the end, and a declared daemon gone by its
  deadline.\<close>

definition clean_end :: "u64 \<Rightarrow> u64 option \<Rightarrow> signal_trial \<Rightarrow> bool" where
  "clean_end grace_ms idle t \<longleftrightarrow>
     sg_delivery_succeeded t = Some True \<and> sg_ownership_resolved t = Some True
     \<and> (\<exists>origin terminal r. sg_origin_ns t = Some origin \<and> sg_terminal_ns t = Some terminal \<and> origin \<le> terminal
        \<and> f_le (ns_to_ms (terminal - origin)) (f_of_u64 (saturating_add grace_ms 250))
        \<and> sg_residue t = Some r \<and> ro_observed_after_ms r = 2000 \<and> ro_identities r = [])
     \<and> sg_residue_identities t = [] \<and> sg_terminal_count t = Some 1 \<and> sg_source_terminal_count t = Some 1
     \<and> (sg_terminal_type t = Some ''failure'' \<or> sg_terminal_type t = Some ''cancelled'')
     \<and> sg_exit_code t \<noteq> None \<and> sg_exit_was_signal t = Some False \<and> sg_cleanup_escalated t = Some False
     \<and> (case sg_declared_daemon_linger t of None \<Rightarrow> idle = None
         | Some l \<Rightarrow> idle = Some (dg_idle_linger_ms l) \<and> dg_deadline_outcome l = ''exited-by-declared-deadline''
             \<and> dg_identity_continuity l = ''stable-identity-or-absent'' \<and> \<not> dg_identity_present_at_deadline l)"

lemma saturating_sub_exact: "(a :: u64) \<le> b \<Longrightarrow> saturating_sub b a = b - a"
  by (simp add: saturating_sub_def)

lemma clean_endI:
  assumes "check_applicable idle t = Inr ()" and pass: "signal_trial_passed grace_ms t"
  shows "clean_end grace_ms idle t"
proof -
  obtain origin terminal r k where d: "sg_delivery_succeeded t = Some True" "sg_ownership_resolved t = Some True"
    and r: "sg_origin_ns t = Some origin" "sg_terminal_ns t = Some terminal" "origin \<le> terminal"
    "sg_residue_processes t = Some k" "unat k = length (sg_residue_identities t)" "sg_residue t = Some r"
    "ro_observed_after_ms r = 2000" "unat (ro_processes r) = length (ro_identities r)" "check_linger idle t r = Inr ()"
    using assms(1) by (rule check_applicable_Inr)
  have "sg_residue_identities t = []" using pass r(4,5) by (simp add: signal_trial_passed_def)
  moreover have "ro_identities r = []" using pass r(6,8) by (simp add: signal_trial_passed_def)
  moreover have "case sg_declared_daemon_linger t of None \<Rightarrow> idle = None
         | Some l \<Rightarrow> idle = Some (dg_idle_linger_ms l) \<and> dg_deadline_outcome l = ''exited-by-declared-deadline''
             \<and> dg_identity_continuity l = ''stable-identity-or-absent'' \<and> \<not> dg_identity_present_at_deadline l"
    using pass r(9) by (auto simp: check_linger_def linger_consistent_def signal_trial_passed_def linger_passed_def split: option.splits if_splits)
  moreover have "f_le (ns_to_ms (terminal - origin)) (f_of_u64 (saturating_add grace_ms 250))"
    using pass r(1-3) by (simp add: signal_trial_passed_def delivery_ms_def elapsed_ms_def saturating_sub_exact)
  ultimately show ?thesis using pass d r by (auto simp: clean_end_def signal_trial_passed_def)
qed

lemma length_filter_all: "length (filter P xs) = length xs \<Longrightarrow> x \<in> set xs \<Longrightarrow> P x"
  by (metis filter_id_conv length_filter_less nless_le)

lemma signal_step_passed:
  assumes "signal_case_step trials n grace_ms s name = Inr s'" and "sc_passed s'" and n: "length (of_case name trials) = unat (n :: u32)"
  shows "sc_passed s \<and> list_all (signal_trial_passed grace_ms) (filter sg_applicable (of_case name trials))
    \<and> (filter sg_applicable (of_case name trials) = [] \<or> length (filter sg_applicable (of_case name trials)) = unat n)"
proof -
  define xs where "xs = filter sg_applicable (of_case name trials)"
  have xs: "length xs < 2 ^ 64"
    using length_filter_le [of sg_applicable "of_case name trials"] unat_u32_bound [of n] n by (simp add: xs_def)
  then have p: "length (filter (signal_trial_passed grace_ms) xs) < 2 ^ 64" by (rule order.strict_trans1 [OF length_filter_le])
  show ?thesis
  proof (cases "xs = []")
    case True
    then show ?thesis using assms(1,2) by (simp add: signal_case_step_def Let_def flip: xs_def)
  next
    case False
    then have "length xs = unat n" "sc_passed s"
        "(of_nat (length (filter (signal_trial_passed grace_ms) xs)) :: u64) = of_nat (length xs)"
      using assms(1,2) unfolding signal_case_step_def Let_def xs_def [symmetric] by (auto split: if_splits)
    moreover from this(3) have "length (filter (signal_trial_passed grace_ms) xs) = length xs"
      using xs p by (simp add: word_of_nat_eq_iff take_bit_nat_eq_self)
    then have "list_all (signal_trial_passed grace_ms) xs" by (auto simp: list_all_iff dest: length_filter_all)
    ultimately show ?thesis by (simp flip: xs_def)
  qed
qed

lemma check_signal_Inr:
  assumes "check_signal_trials trials n idle = Inr ()"
  shows "name \<in> set signal_cases \<Longrightarrow> length (of_case name trials) = unat n"
    and "t \<in> set trials \<Longrightarrow> sg_applicable t \<Longrightarrow> check_applicable idle t = Inr ()"
    and "t \<in> set trials \<Longrightarrow> \<not> sg_applicable t \<Longrightarrow> not_applicable_valid t"
  using assms by (auto simp: check_signal_trials_def check_repetitions_def and_then_Inr_iff first_error_Inr signal_cases_def
      check_not_applicable_def)

lemma signal_cases_each:
  assumes fold: "fold_ok (signal_case_step trials n grace_ms) u names = Inr s" and pass: "sc_passed s"
    and lengths: "\<And>name. name \<in> set names \<Longrightarrow> length (of_case name trials) = unat n" and "name \<in> set names"
  shows "list_all (signal_trial_passed grace_ms) (filter sg_applicable (of_case name trials))
    \<and> (filter sg_applicable (of_case name trials) = [] \<or> length (filter sg_applicable (of_case name trials)) = unat n)"
proof -
  have "sc_passed u \<and> (\<forall>name \<in> set names. list_all (signal_trial_passed grace_ms) (filter sg_applicable (of_case name trials))
      \<and> (filter sg_applicable (of_case name trials) = [] \<or> length (filter sg_applicable (of_case name trials)) = unat n))"
    using fold lengths
  proof (induction names arbitrary: u)
    case (Cons name names)
    then obtain v where "signal_case_step trials n grace_ms u name = Inr v" "sc_passed v"
        "fold_ok (signal_case_step trials n grace_ms) v names = Inr s" by (auto simp: and_then_Inr_iff)
    with signal_step_passed [of trials n grace_ms u name v] Cons show ?case by auto
  qed (use pass in simp)
  with assms(4) show ?thesis by blast
qed

definition settled_case :: "signal_trial list \<Rightarrow> u32 \<Rightarrow> u64 \<Rightarrow> u64 option \<Rightarrow> string \<Rightarrow> bool" where
  "settled_case trials n grace_ms idle name \<longleftrightarrow>
     (let own = filter (\<lambda>t. sg_case t = name) trials in length own = unat n
       \<and> list_all (\<lambda>t. sg_applicable t \<and> clean_end grace_ms idle t) own)"

text \<open>C18: when row 57 passes, each of the three signals has one trial per repetition, and in every one of them it was
  delivered to the resolved owner and the harness ended once, in time and clean; the trials of the end of standard input,
  as many, did so too, or none of them applied and every one says why.\<close>

theorem passing_signals_end_cleanly:
  assumes "av_passed (evaluate_signal_matrix trials n grace_ms idle outer_ms)"
  shows "list_all (settled_case trials n grace_ms idle) [''sigterm'', ''sigint2'', ''sighup'']
    \<and> (settled_case trials n grace_ms idle ''stdin-eof''
        \<or> (let own = filter (\<lambda>t. sg_case t = ''stdin-eof'') trials in length own = unat n
            \<and> list_all (\<lambda>t. \<not> sg_applicable t \<and> sg_not_applicable_reason t \<noteq> None) own))"
proof -
  obtain s where valid: "check_signal_trials trials n idle = Inr ()"
    and fold: "fold_ok (signal_case_step trials n grace_ms) signal_start signal_cases = Inr s" and pass: "sc_passed s"
    using assms by (auto simp: evaluate_signal_matrix_def conclude_signals_def automation_incomplete_def and_then_Inr_iff
        split: if_splits sum.splits)
  note checks = check_signal_Inr [OF valid]
  have each: "list_all (signal_trial_passed grace_ms) (filter sg_applicable (of_case name trials))
      \<and> (filter sg_applicable (of_case name trials) = [] \<or> length (filter sg_applicable (of_case name trials)) = unat n)"
    if "name \<in> set signal_cases" for name
    using fold pass checks(1) that by (rule signal_cases_each)
  have clean: "clean_end grace_ms idle t" if "t \<in> set (filter sg_applicable (of_case name trials))" "name \<in> set signal_cases" for t name
    using each [OF that(2)] that(1) checks(2) by (intro clean_endI) (auto simp: of_case_def list_all_iff)
  have settled: "settled_case trials n grace_ms idle name"
    if "name \<in> set signal_cases" "list_all sg_applicable (of_case name trials)" for name
    using that clean [of _ name] checks(1) by (auto simp: settled_case_def list_all_iff of_case_def Let_def)
  have "list_all sg_applicable (of_case name trials)" if "name \<noteq> ''stdin-eof''" for name
    using checks(3) that by (auto simp: list_all_iff of_case_def not_applicable_valid_def)
  then have "list_all (settled_case trials n grace_ms idle) [''sigterm'', ''sigint2'', ''sighup'']"
    using settled by (simp add: signal_cases_def)
  moreover have eof: "''stdin-eof'' \<in> set signal_cases" by (simp add: signal_cases_def)
  moreover have "list_all sg_applicable (of_case ''stdin-eof'' trials) \<or> list_all (\<lambda>t. \<not> sg_applicable t) (of_case ''stdin-eof'' trials)"
  proof -
    from each [OF eof] consider "filter sg_applicable (of_case ''stdin-eof'' trials) = []"
      | "length (filter sg_applicable (of_case ''stdin-eof'' trials)) = length (of_case ''stdin-eof'' trials)"
      using checks(1) [OF eof] by auto
    then show ?thesis
    proof cases
      case 1
      then show ?thesis by (simp add: filter_empty_conv list_all_iff)
    next
      case 2
      have "list_all sg_applicable (of_case ''stdin-eof'' trials)" using length_filter_all [OF 2] by (simp add: list_all_iff)
      then show ?thesis by simp
    qed
  qed
  moreover have "settled_case trials n grace_ms idle ''stdin-eof''" if "list_all sg_applicable (of_case ''stdin-eof'' trials)"
    by (rule settled [OF eof that])
  moreover have "list_all (\<lambda>t. \<not> sg_applicable t \<and> sg_not_applicable_reason t \<noteq> None) (of_case ''stdin-eof'' trials)"
    if none: "list_all (\<lambda>t. \<not> sg_applicable t) (of_case ''stdin-eof'' trials)"
    unfolding list_all_iff
  proof
    fix t assume t: "t \<in> set (of_case ''stdin-eof'' trials)"
    then have "\<not> sg_applicable t" "t \<in> set trials" using none by (simp_all add: list_all_iff of_case_def)
    from checks(3) [OF this(2,1)] this(1) show "\<not> sg_applicable t \<and> sg_not_applicable_reason t \<noteq> None"
      by (simp add: not_applicable_valid_def)
  qed
  ultimately show ?thesis using checks(1) [OF eof] unfolding Let_def of_case_def by blast
qed

section \<open>Row 62\<close>

text \<open>Every address that the guard leaves open is owned: it is a loopback address, or a probe of the setup reached it at
  the provider's port and was recorded by the sentinel there, or was denied and not recorded; and UDP to it was probed.\<close>

definition owned_address :: "offline_trial \<Rightarrow> string \<Rightarrow> bool" where
  "owned_address t address \<longleftrightarrow>
     ((\<exists>a. parse_ipv4 address = Some a \<and> is_loopback a)
      \<or> (\<exists>p \<in> set (ot_local_delivery_probes t). dp_address p = address \<and> dp_destination p = address @ '':'' @ provider_port t
           \<and> (dp_outcome p = ''delivered-to-ahrb-sentinel'' \<and> dp_sentinel_recorded p
              \<or> dp_outcome p = ''blocked-by-profile'' \<and> \<not> dp_sentinel_recorded p)))
     \<and> address @ '':'' @ provider_port t \<in> set (ot_udp_probe_destinations t)"

text \<open>The retained profile is the hashed one; it denies by default, allows TCP to the provider's port and one subtree of
  sockets, and opens nothing for UDP.\<close>

definition profile_confines :: "(string \<Rightarrow> string) \<Rightarrow> offline_trial \<Rightarrow> bool" where
  "profile_confines sha t \<longleftrightarrow>
     (\<exists>profile l. ot_guard_rendered_profile t = Some profile \<and> ot_guard_profile_sha256 t = Some (sha profile)
        \<and> ''(deny network-outbound)'' \<in> set (text_lines profile)
        \<and> mset (filter (\<lambda>line. starts_with line ''(allow network'') (text_lines profile)) = {#expected_provider_rule t, l#}
        \<and> starts_with l ''(allow network-outbound (subpath '' \<and> \<not> contains_str profile ''(remote udp '')"

definition addresses_stable :: "offline_trial \<Rightarrow> bool" where
  "addresses_stable t \<longleftrightarrow>
     (\<exists>m. ot_local_ipv4_monitor t = Some m \<and> \<not> me_change_detected m \<and> me_first_change_new_addresses m = [] \<and> me_error m = None
        \<and> 2 \<le> me_samples_completed m \<and> me_final_addresses m = ot_owned_ipv4_addresses t)"

definition confined :: "(string \<Rightarrow> string) \<Rightarrow> offline_trial \<Rightarrow> bool" where
  "confined sha t \<longleftrightarrow>
     ot_harness_confinement_identity t \<noteq> [] \<and> ot_harness_confinement_identity t = ot_probe_confinement_identity t
     \<and> ot_control_probe_blocked t \<and> ot_terminal_success t \<and> 0 < ot_provider_requests t
     \<and> list_all (\<lambda>a. \<not> oa_allowed a \<and> oa_confinement_identity a = ot_harness_confinement_identity t) (ot_attempts t)
     \<and> (ot_egress_enforcement t = ''reviewed reference-mock owned loopback connector''
        \<or> ot_egress_enforcement t = ''macos-seatbelt-owned-local-tcp-port-v3''
          \<and> provider_port t \<noteq> [] \<and> list_all (owned_address t) (ot_owned_ipv4_addresses t)
          \<and> ot_udp_probes_blocked t = Some True \<and> ot_local_delivery_proven t = Some True
          \<and> ot_provider_probe_allowed t = Some True \<and> ot_alternate_ipv4_probe_blocked t = Some True
          \<and> ot_alternate_loopback_probe_blocked t = Some True \<and> ot_child_inheritance_proven t = Some True
          \<and> ot_profile_write_blocked t = Some True \<and> ot_launch_hash_verified t = Some True
          \<and> profile_confines sha t \<and> addresses_stable t)"

lemma find_map_None: "find_map f xs = None \<longleftrightarrow> (\<forall>x \<in> set xs. f x = None)"
  by (induction xs) (auto split: option.split)

lemma expected_rule_no_subpath: "\<not> starts_with (expected_provider_rule t) ''(allow network-outbound (subpath ''"
  by (simp add: expected_provider_rule_def)

lemma two_allowances:
  assumes "profile_exact sha t" and "text_or_empty (ot_guard_profile_sha256 t) \<noteq> []"
  shows "profile_confines sha t"
proof -
  let ?p = "text_or_empty (ot_guard_rendered_profile t)" and ?r = "expected_provider_rule t"
  have p: "?p \<noteq> []" "sha ?p = text_or_empty (ot_guard_profile_sha256 t)" "length (network_allowances ?p) = 2" "?r \<in> set (network_allowances ?p)"
    using assms(1) by (simp_all add: profile_exact_def Let_def)
  obtain l where l: "l \<in> set (network_allowances ?p)" "starts_with l ''(allow network-outbound (subpath ''"
    using assms(1) by (auto simp: profile_exact_def Let_def list_ex_iff)
  have "l \<noteq> ?r" using l(2) expected_rule_no_subpath by metis
  obtain x y where xy: "network_allowances ?p = [x, y]" using p(3) by (auto simp: numeral_2_eq_2 length_Suc_conv)
  have "mset (filter (\<lambda>line. starts_with line ''(allow network'') (text_lines ?p)) = {#?r, l#}"
    using p(4) l(1) \<open>l \<noteq> ?r\<close> unfolding network_allowances_def [symmetric] xy by auto
  moreover have "''(deny network-outbound)'' \<in> set (text_lines ?p)" "\<not> contains_str ?p ''(remote udp ''"
    using assms(1) by (auto simp: profile_exact_def Let_def list_ex_iff)
  moreover have "ot_guard_rendered_profile t = Some ?p" "ot_guard_profile_sha256 t = Some (sha ?p)"
    using p(1,2) assms(2) by (auto simp: text_or_empty_def split: option.splits)
  ultimately show ?thesis using l(2) unfolding profile_confines_def by blast
qed

lemma delivery_covers:
  assumes "seatbelt_local_delivery_error t = None" and "address \<in> set (ot_owned_ipv4_addresses t)"
  shows "(\<exists>a. parse_ipv4 address = Some a \<and> is_loopback a)
    \<or> (\<exists>p \<in> set (ot_local_delivery_probes t). dp_address p = address \<and> dp_destination p = address @ '':'' @ provider_port t
         \<and> proves_boundary p)" "provider_port t \<noteq> []"
proof -
  have ok: "\<not> delivery_uncovered t" "\<forall>p \<in> set (ot_local_delivery_probes t). proves_boundary p"
    using assms(1) by (auto simp: seatbelt_local_delivery_error_def local_delivery_failure_def Let_def filter_empty_conv
        split: option.splits if_splits)
  then show "provider_port t \<noteq> []" by (simp add: delivery_uncovered_def)
  show "(\<exists>a. parse_ipv4 address = Some a \<and> is_loopback a)
    \<or> (\<exists>p \<in> set (ot_local_delivery_probes t). dp_address p = address \<and> dp_destination p = address @ '':'' @ provider_port t
         \<and> proves_boundary p)"
  proof (cases "non_loopback address")
    case True
    then have "address \<in> set (expected_probes t)" using assms(2) by (simp add: expected_probes_def set_bset_of_list)
    then have "address \<in> set (probed_addresses t)" using ok(1) by (simp add: delivery_uncovered_def)
    then show ?thesis using ok by (auto simp: probed_addresses_def set_bset_of_list delivery_uncovered_def list_ex_iff)
  next
    case False
    then show ?thesis by (auto simp: non_loopback_def split: option.splits)
  qed
qed

lemma check_seatbelt_Inr: "check_seatbelt sha t = Inr () \<Longrightarrow> profile_exact sha t \<and> seatbelt_complete t"
  by (auto simp: check_seatbelt_def and_then_Inr_iff)

lemma seatbelt_confined:
  assumes "check_seatbelt sha t = Inr ()" and "seatbelt_local_delivery_error t = None"
  shows "provider_port t \<noteq> [] \<and> list_all (owned_address t) (ot_owned_ipv4_addresses t)
    \<and> ot_udp_probes_blocked t = Some True \<and> ot_local_delivery_proven t = Some True \<and> probes_proven t
    \<and> profile_confines sha t \<and> addresses_stable t"
proof -
  have p: "profile_exact sha t" and c: "seatbelt_complete t" using check_seatbelt_Inr [OF assms(1)] by simp_all
  have "text_or_empty (ot_guard_profile_sha256 t) \<noteq> []" "ot_owned_ipv4_addresses t \<noteq> []" "udp_covered t" "probes_proven t"
    and m: "addresses_stable t"
    using c by (auto simp: seatbelt_complete_def monitor_complete_def addresses_changed_def addresses_stable_def split: option.splits)
  moreover have "provider_port t \<noteq> []" using delivery_covers(2) [OF assms(2)] \<open>ot_owned_ipv4_addresses t \<noteq> []\<close> by (cases "ot_owned_ipv4_addresses t") auto
  moreover have "owned_address t address" if "address \<in> set (ot_owned_ipv4_addresses t)" for address
    using delivery_covers(1) [OF assms(2) that] \<open>udp_covered t\<close> that unfolding owned_address_def proves_boundary_def
    by (auto simp: udp_covered_def list_ex_iff list_all_iff local_delivery_owned_def local_delivery_blocked_def)
  moreover have "ot_local_delivery_proven t = Some True"
    using assms(2) by (auto simp: seatbelt_local_delivery_error_def delivery_uncovered_def split: option.splits if_splits)
  ultimately show ?thesis using two_allowances [OF p] by (simp add: udp_covered_def list_all_iff)
qed

lemma blocked_by_category_get: "bt_get (blocked_by_category attempts) category =
    (if category \<in> set offline_categories then Some (blocked_in attempts category) else None)"
  by (simp add: blocked_by_category_def offline_categories_def bt_get_insert)

lemma refused_category_count:
  "list_all (\<lambda>a. oa_category a \<in> set offline_categories \<and> \<not> oa_allowed a) attempts \<Longrightarrow>
    bt_get (blocked_by_category attempts) category =
      (if category \<in> {''update-check'', ''model-catalog'', ''telemetry'', ''other'', ''control-probe''}
       then Some (of_nat (length (filter (\<lambda>a. oa_category a = category) attempts))) else None)"
proof -
  assume refused: "list_all (\<lambda>a. oa_category a \<in> set offline_categories \<and> \<not> oa_allowed a) attempts"
  have "filter (\<lambda>a. \<not> oa_allowed a \<and> oa_category a = category) attempts = filter (\<lambda>a. oa_category a = category) attempts"
    using refused by (intro filter_cong) (auto simp: list_all_iff)
  then show ?thesis by (simp add: blocked_by_category_get blocked_in_def offline_categories_def)
qed

text \<open>C17: when row 62 passes, every trial is confined: the same guard held the harness and the probe, the control probe was
  blocked, the harness worked with the local provider, and every other attempt was refused under that guard; under Seatbelt
  every address left open is owned or was denied, as probed at the provider's port, and every UDP probe of these
  addresses was blocked, by the profile that was hashed and without a change of addresses.  Every refused attempt is of
  one of the five categories and counted under that one, and no other connection succeeded.\<close>

theorem passing_offline_is_confined:
  assumes "av_passed (evaluate_offline_mode sha debug trials n)"
  shows "length trials = unat n \<and> list_all (confined sha) trials
    \<and> (let attempts = concat (map ot_attempts trials); categories = {''update-check'', ''model-catalog'', ''telemetry'', ''other'', ''control-probe''} in
         list_all (\<lambda>a. oa_category a \<in> categories \<and> \<not> oa_allowed a) attempts
         \<and> (\<forall>category. bt_get (blocked_by_category attempts) category
              = (if category \<in> categories then Some (of_nat (length (filter (\<lambda>a. oa_category a = category) attempts))) else None)))
    \<and> bt_get (av_metrics (evaluate_offline_mode sha debug trials n)) ''offline_mode.successful_non_provider_connections'' = Some (Fin 0)"
proof -
  have ok: "check_offline_trials sha debug trials n = Inr ()"
    and e: "av_metrics (evaluate_offline_mode sha debug trials n) = offline_metrics trials"
    using assms by (auto simp: evaluate_offline_mode_def offline_incomplete_def split: sum.splits)
  then have len: "length trials = unat n" and delivered: "\<forall>t \<in> set trials. is_seatbelt t \<longrightarrow> seatbelt_local_delivery_error t = None"
    and each: "\<forall>t \<in> set trials. check_offline_trial sha debug t = Inr ()"
    by (auto simp: check_offline_trials_def find_map_None first_error_Inr split: option.splits if_splits)
  have attempts: "list_all (attempt_confined t) (ot_attempts t)" if "t \<in> set trials" for t
    using each that by (auto simp: check_offline_trial_def and_then_Inr_iff)
  have "confined sha t" if "t \<in> set trials" for t
    using each delivered that attempts [OF that] seatbelt_confined [of sha t]
    by (auto simp: check_offline_trial_def and_then_Inr_iff confined_def same_confinement_def reviewed_guard_def probes_proven_def
        is_seatbelt_def offline_seatbelt_enforcement_def offline_owned_connector_enforcement_def
        attempt_confined_def list_all_iff word_gt_0 split: if_splits)
  moreover have refused: "list_all (\<lambda>a. oa_category a \<in> set offline_categories \<and> \<not> oa_allowed a) (all_attempts trials)"
    using attempts by (auto simp: all_attempts_def list_all_iff attempt_confined_def)
  moreover have "filter oa_allowed (all_attempts trials) = []" using refused by (auto simp: list_all_iff filter_empty_conv)
  then have "bt_get (offline_metrics trials) ''offline_mode.successful_non_provider_connections'' = Some (Fin 0)"
    by (simp add: offline_metrics_def bt_get_of_list f_of_int_def)
  moreover have "let attempts = concat (map ot_attempts trials); categories = {''update-check'', ''model-catalog'', ''telemetry'', ''other'', ''control-probe''} in
         list_all (\<lambda>a. oa_category a \<in> categories \<and> \<not> oa_allowed a) attempts
         \<and> (\<forall>category. bt_get (blocked_by_category attempts) category
              = (if category \<in> categories then Some (of_nat (length (filter (\<lambda>a. oa_category a = category) attempts))) else None))"
    using refused refused_category_count [OF refused]
    by (simp add: Let_def all_attempts_def offline_categories_def)
  ultimately show ?thesis using len e by (simp only: list_all_iff) blast
qed

section \<open>The address monitor\<close>

text \<open>The samples a run sees: those of the thread before its first failure, and the last one.\<close>

fun sampled :: "(string + ipv4 list) list \<Rightarrow> ipv4 list list" where
  "sampled (Inr s # samples) = s # sampled samples"
| "sampled _ = []"

definition changes :: "ipv4 list \<Rightarrow> ipv4 list list \<Rightarrow> (ipv4 list \<times> ipv4 list) option" where
  "changes initial seen = (case filter (\<lambda>s. s \<noteq> initial) seen of [] \<Rightarrow> None | s # _ \<Rightarrow> Some (initial, s))"

lemma loop_changes: "mo_first_change (monitor_loop initial m samples)
    = (case mo_first_change m of None \<Rightarrow> changes initial (sampled samples) | Some c \<Rightarrow> Some c)"
  by (induction initial m samples rule: monitor_loop.induct)
    (auto simp: changes_def take_sample_def compare_local_ipv4_sample_def split: option.splits list.splits)

text \<open>C20: the monitor reports a change exactly when some sample differed from the initial addresses, and then it
  reports the first one, whatever was sampled later.\<close>

theorem monitor_keeps_first_change:
  "(let seen = sampled samples @ [final]; e = monitor_finish initial (Some samples) (Inr final) in
    me_change_detected e = list_ex (\<lambda>s. s \<noteq> initial) seen
    \<and> me_final_addresses e = map show_ipv4 final
    \<and> me_first_change_new_addresses e = (case filter (\<lambda>s. s \<noteq> initial) seen of [] \<Rightarrow> [] | s # _ \<Rightarrow> map show_ipv4 s)
    \<and> me_first_change_old_addresses e = (if list_ex (\<lambda>s. s \<noteq> initial) seen then map show_ipv4 initial else []))"
proof -
  let ?m = "take_sample initial (joined initial (Some samples)) final" and ?seen = "sampled samples @ [final]"
  have "mo_first_change ?m = changes initial ?seen"
    by (auto simp: take_sample_def compare_local_ipv4_sample_def joined_def loop_changes monitor_start_def changes_def
        split: option.splits list.splits)
  moreover have "list_ex (\<lambda>s. s \<noteq> initial) ?seen \<longleftrightarrow> filter (\<lambda>s. s \<noteq> initial) ?seen \<noteq> []"
    by (simp add: list_ex_iff filter_empty_conv)
  moreover have "mo_final_addresses ?m = final" by (simp add: take_sample_def)
  ultimately show ?thesis
    by (simp add: monitor_finish_def local_ipv4_monitor_evidence_def Let_def changes_def split: list.splits del: list_ex_append filter_append)
qed

section \<open>Witnesses\<close>

lemma one_millisecond: "elapsed_ms 0 1000000 = Fin 1" "f_of_u64 1 = Fin 1" "f_of_u64 251 = Fin 251" "f_of_u64 1001 = Fin 1001"
  "f_of_u64 2001 = Fin 2001"
  by (simp_all add: elapsed_ms_def ns_to_ms_def f_of_u64_def saturating_sub_def f_of_int_def)

definition failure_example :: "failure_case \<Rightarrow> failure_trial" where
  "failure_example c = \<lparr>xt_repetition = 1, xt_case = c, xt_parent_operation_start_ns = 0, xt_child_failure_received_ns = Some 0,
     xt_child_response_headers_ns = Some 5, xt_parent_terminal_received_ns = 1000000, xt_parent_failure_terminals = 1,
     xt_child_failure_terminals = 1, xt_child_cancelled = True, xt_success_contradiction = False, xt_child_residue_count = 0,
     xt_outer_kill_used = False\<rparr>"

lemma failure_example_passes: "av_passed (evaluate_child_failure_propagation [failure_example CF_Crash, failure_example CF_Hang] 1 1)"
proof -
  have "failure_latency (failure_example c) = Fin 1" for c
  by (simp add: failure_latency_def failure_example_def one_millisecond)
  moreover have "f_le (Fin 1) (f_of_u64 (min 1 5000))" "f_le (f_of_u64 1) (Fin 1)" "f_le (Fin 1) (f_of_u64 (saturating_add 1 1000))"
    "f_lt (Fin 1) (f_of_u64 (saturating_add 1 2000))"
    by (simp_all add: one_millisecond saturating_add_def)
  ultimately have "failure_passed 1 (failure_example c)" for c
    by (simp add: failure_passed_def crash_passed_def hang_passed_def deadline_fired_def) (simp add: failure_example_def)
  moreover have "fold_ok (failure_step 1) [] [failure_example CF_Crash, failure_example CF_Hang] = Inr [(1, 1), (1, 0)]"
    by (simp add: failure_step_def failure_key_def check_failure_boundary_def failure_example_def guard_def)
  ultimately show ?thesis by (simp add: evaluate_child_failure_propagation_def saturating_mul_def)
qed

theorem passing_failures_end_once_witness:
  "ended_once 1 (failure_example CF_Crash) \<and> ended_once 1 (failure_example CF_Hang)
   \<and> bt_get (av_metrics (evaluate_child_failure_propagation [failure_example CF_Crash, failure_example CF_Hang] 1 1))
       ''child_failure_propagation.hang_deadline_fired'' = Some (f_of_u64 1)"
  using passing_failures_end_once [OF failure_example_passes] by (simp add: Let_def)

definition signal_example :: "string \<Rightarrow> signal_trial" where
  "signal_example name = \<lparr>sg_repetition = 1, sg_case = name, sg_applicable = True, sg_not_applicable_reason = None,
     sg_delivery_succeeded = Some True, sg_ownership_resolved = Some True, sg_cleanup_escalated = Some False,
     sg_origin_ns = Some 0, sg_terminal_ns = Some 1000000, sg_terminal_type = Some ''cancelled'', sg_terminal_count = Some 1,
     sg_source_terminal_count = Some 1, sg_exit_code = Some 130, sg_exit_was_signal = Some False,
     sg_residue = Some \<lparr>ro_observed_after_ms = 2000, ro_processes = 0, ro_identities = []\<rparr>, sg_declared_daemon_linger = None,
     sg_residue_processes = Some 0, sg_residue_identities = []\<rparr>"

definition eof_example :: signal_trial where
  "eof_example = \<lparr>sg_repetition = 1, sg_case = ''stdin-eof'', sg_applicable = False, sg_not_applicable_reason = Some ''no stdin'',
     sg_delivery_succeeded = None, sg_ownership_resolved = None, sg_cleanup_escalated = None, sg_origin_ns = None,
     sg_terminal_ns = None, sg_terminal_type = None, sg_terminal_count = None, sg_source_terminal_count = None,
     sg_exit_code = None, sg_exit_was_signal = None, sg_residue = None, sg_declared_daemon_linger = None,
     sg_residue_processes = None, sg_residue_identities = []\<rparr>"

definition signal_examples :: "signal_trial list" where
  "signal_examples = [signal_example ''sigterm'', signal_example ''sigint2'', signal_example ''sighup'', eof_example]"

lemma signal_examples_valid: "check_signal_trials signal_examples 1 None = Inr ()"
  by (simp add: check_signal_trials_def check_repetitions_def of_case_def signal_examples_def signal_example_def eof_example_def
      check_applicable_def check_residue_def check_linger_def check_not_applicable_def not_applicable_valid_def guard_def)

lemma signal_example_passed: "signal_trial_passed 1 (signal_example name)"
proof -
  have "f_le (elapsed_ms 0 1000000) (f_of_u64 (saturating_add 1 250))" by (simp add: one_millisecond saturating_add_def)
  then show ?thesis by (simp add: signal_trial_passed_def signal_example_def delivery_ms_def)
qed

lemma applicable_examples:
  "filter sg_applicable (of_case ''sigterm'' signal_examples) = [signal_example ''sigterm'']"
  "filter sg_applicable (of_case ''sigint2'' signal_examples) = [signal_example ''sigint2'']"
  "filter sg_applicable (of_case ''sighup'' signal_examples) = [signal_example ''sighup'']"
  "filter sg_applicable (of_case ''stdin-eof'' signal_examples) = []"
  by (simp_all add: signal_examples_def of_case_def signal_example_def eof_example_def)

lemma signal_examples_pass: "av_passed (evaluate_signal_matrix signal_examples 1 1 None 9000)"
proof -
  have "\<exists>s. fold_ok (signal_case_step signal_examples 1 1) signal_start signal_cases = Inr s \<and> sc_passed s \<and> sc_applicable_kinds s = 3"
    by (simp add: signal_cases_def signal_start_def signal_case_step_def applicable_examples signal_example_passed Let_def
        saturating_add_def)
  then show ?thesis
    by (auto simp: evaluate_signal_matrix_def signal_examples_valid conclude_signals_def saturating_add_def)
qed

theorem passing_signals_end_cleanly_witness:
  "settled_case signal_examples 1 1 None ''sigterm'' \<and> settled_case signal_examples 1 1 None ''sighup''
   \<and> clean_end 1 None (signal_example ''sigterm'')"
proof -
  have "settled_case signal_examples 1 1 None ''sigterm'' \<and> settled_case signal_examples 1 1 None ''sighup''"
    using passing_signals_end_cleanly [OF signal_examples_pass] by simp
  moreover from this have "clean_end 1 None (signal_example ''sigterm'')"
    by (simp add: settled_case_def signal_examples_def) (simp add: signal_example_def eof_example_def)
  ultimately show ?thesis by simp
qed

definition example_rule :: string where
  "example_rule = ''(allow network-outbound (require-all (socket-domain AF_INET) (remote tcp '' @ [dquote] @ ''localhost:80''
     @ [dquote] @ '')))''"

definition example_profile :: string where
  "example_profile = ''(deny network-outbound)'' @ [CHR 0x0A] @ example_rule @ [CHR 0x0A] @ ''(allow network-outbound (subpath /p))''"

definition offline_example :: offline_trial where
  "offline_example = \<lparr>ot_repetition = 1, ot_provider_requests = 3, ot_terminal_success = True, ot_terminal_failure = None,
     ot_control_probe_blocked = True, ot_harness_confinement_identity = ''profile-sha256:ab launcher-sha256:cd bind:127.0.0.1:80'',
     ot_probe_confinement_identity = ''profile-sha256:ab launcher-sha256:cd bind:127.0.0.1:80'',
     ot_egress_enforcement = offline_seatbelt_enforcement, ot_guard_profile_sha256 = Some ''ab'',
     ot_guard_rendered_profile = Some example_profile, ot_guard_launcher_sha256 = Some ''cd'', ot_provider_rule = Some example_rule,
     ot_provider_destination = Some ''127.0.0.1:80'', ot_provider_bind_address = Some ''127.0.0.1:80'',
     ot_owned_ipv4_addresses = [''127.0.0.1'', ''10.0.0.2''], ot_provider_port_owned = Some True, ot_provider_probe_allowed = Some True,
     ot_udp_probe_destinations = [''127.0.0.1:80'', ''10.0.0.2:80''], ot_udp_probes_blocked = Some True,
     ot_alternate_ipv4_probe_blocked = Some True, ot_alternate_loopback_probe_blocked = Some True,
     ot_child_inheritance_proven = Some True, ot_profile_write_blocked = Some True, ot_launch_hash_verified = Some True,
     ot_local_ipv4_monitor = Some \<lparr>me_sample_interval_ms = 500, me_samples_completed = 2, me_final_addresses = [''127.0.0.1'', ''10.0.0.2''],
       me_change_detected = False, me_first_change_old_addresses = [], me_first_change_new_addresses = [], me_error = None\<rparr>,
     ot_local_delivery_probes = [classify_local_delivery (10, 0, 0, 2) [''en0''] 80 DC_Blocked False],
     ot_local_delivery_proven = Some True,
     ot_attempts = [\<lparr>oa_repetition = 1, oa_destination = ''1.1.1.1:53'', oa_category = ''telemetry'', oa_outcome = ''blocked'', oa_allowed = False,
       oa_confinement_identity = ''profile-sha256:ab launcher-sha256:cd bind:127.0.0.1:80''\<rparr>]\<rparr>"

lemma offline_example_destination: "provider_port offline_example = ''80''" "expected_provider_rule offline_example = example_rule"
proof -
  show "provider_port offline_example = ''80''" by (simp add: provider_port_def offline_example_def text_or_empty_def rsplit_once_def)
  then show "expected_provider_rule offline_example = example_rule" by (simp add: expected_provider_rule_def example_rule_def)
qed

lemma offline_example_delivery: "seatbelt_local_delivery_error offline_example = None"
proof -
  have "ot_local_delivery_probes offline_example = [classify_local_delivery (10, 0, 0, 2) [''en0''] 80 DC_Blocked False]"
    "ot_owned_ipv4_addresses offline_example = [''127.0.0.1'', ''10.0.0.2'']" "ot_local_delivery_proven offline_example = Some True"
    by (simp_all add: offline_example_def)
  moreover have "dp_address (classify_local_delivery (10, 0, 0, 2) [''en0''] 80 DC_Blocked False) = ''10.0.0.2''"
    "dp_destination (classify_local_delivery (10, 0, 0, 2) [''en0''] 80 DC_Blocked False) = ''10.0.0.2:80''"
    "proves_boundary (classify_local_delivery (10, 0, 0, 2) [''en0''] 80 DC_Blocked False)"
    by code_simp+
  moreover have "non_loopback ''10.0.0.2''" "\<not> non_loopback ''127.0.0.1''" by code_simp+
  ultimately show ?thesis
    by (simp add: seatbelt_local_delivery_error_def local_delivery_failure_def delivery_uncovered_def expected_probes_def
        probed_addresses_def offline_example_destination bset_of_list_def bt_of_list_def)
qed

lemma offline_example_profile: "profile_exact (\<lambda>_. ''ab'') offline_example"
proof -
  have "text_or_empty (ot_guard_rendered_profile offline_example) = example_profile" "text_or_empty (ot_guard_profile_sha256 offline_example) = ''ab''"
    by (simp_all add: offline_example_def text_or_empty_def)
  moreover have "text_lines example_profile = [''(deny network-outbound)'', example_rule, ''(allow network-outbound (subpath /p))'']"
    by (simp add: text_lines_def example_profile_def example_rule_def dquote_def drop_cr_def)
  moreover have "starts_with example_rule ''(allow network''" "\<not> contains_str example_profile ''(remote ip ''"
    "\<not> contains_str example_profile ''(remote udp ''" "example_profile \<noteq> []"
    by (simp_all add: example_profile_def example_rule_def dquote_def)
  ultimately show ?thesis
    by (simp add: profile_exact_def network_allowances_def Let_def offline_example_destination)
qed

lemma offline_example_complete: "seatbelt_complete offline_example"
  by (simp add: seatbelt_complete_def provider_bound_def identity_bound_def udp_covered_def probes_proven_def monitor_complete_def
      addresses_changed_def offline_example_destination, simp add: offline_example_def text_or_empty_def monitor_complete_def addresses_changed_def)

lemma offline_example_valid: "check_offline_trials (\<lambda>_. ''ab'') (\<lambda>s. s) [offline_example] 1 = Inr ()"
proof -
  have "check_seatbelt (\<lambda>_. ''ab'') offline_example = Inr ()"
    using offline_example_profile offline_example_complete
    by (auto simp: check_seatbelt_def check_monitor_def seatbelt_complete_def udp_covered_def monitor_complete_def guard_def split: option.splits)
  then have "check_offline_trial (\<lambda>_. ''ab'') (\<lambda>s. s) offline_example = Inr ()"
    by (simp add: check_offline_trial_def same_confinement_def reviewed_guard_def is_seatbelt_def)
      (simp add: offline_example_def attempt_confined_def offline_categories_def offline_seatbelt_enforcement_def guard_def)
  then show ?thesis by (simp add: check_offline_trials_def offline_example_delivery)
qed

lemma offline_example_passes: "av_passed (evaluate_offline_mode (\<lambda>_. ''ab'') (\<lambda>s. s) [offline_example] 1)"
  by (simp add: evaluate_offline_mode_def offline_example_valid)

theorem passing_offline_is_confined_witness:
  "confined (\<lambda>_. ''ab'') offline_example \<and> bt_get (blocked_by_category (ot_attempts offline_example)) ''telemetry'' = Some 1
    \<and> bt_get (blocked_by_category (ot_attempts offline_example)) ''update-check'' = Some 0"
proof -
  have one: "length (filter (\<lambda>a. oa_category a = category) (ot_attempts offline_example)) = (if category = ''telemetry'' then 1 else 0)"
    for category by (auto simp: offline_example_def)
  show ?thesis using passing_offline_is_confined [OF offline_example_passes] one by (simp add: Let_def)
qed

end
