(* ===== verification/Storage_Summary.thy ===== *)
theory Storage_Summary
  imports Auxiliaries Wave_Statistics "HOL-Library.Option_ord"
begin

text \<open>
  The storage summary of \<open>src/src/storage/evidence.rs\<close> and its comparison in
  \<open>src/src/diff/storage.rs\<close>.  The text of a JSON value (\<open>Value::to_string\<close>) is the
  parameter \<open>json_text\<close>.
\<close>

section \<open>The summary\<close>

datatype crash_outcome = CrashPreserved | CrashCorrupt | CrashFailed

datatype resume_outcome = ResumePreserved | ResumeFailed

record curve_point =
  cvp_turn :: u32
  cvp_allocated_bytes :: f64
  cvp_mad_bytes :: f64

record storage_summary =
  ss_schema :: u32
  ss_task :: string
  ss_profile :: string
  ss_os :: string
  ss_topology :: string
  ss_comparison_scope :: string
  ss_turn_budget :: u32
  ss_repetitions :: u32
  ss_completed_turns :: u64
  ss_physical_requests :: u64
  ss_measurement_label :: string
  ss_counter_source :: string
  ss_allocation_source :: string
  ss_declarations_sha256 :: string
  ss_write_bytes_per_turn_p50 :: "f64 option"
  ss_write_bytes_per_turn_p95 :: "f64 option"
  ss_write_bytes_per_turn_max :: "f64 option"
  ss_logical_growth_bytes_per_turn :: "f64 option"
  ss_net_growth_bytes_per_turn :: "f64 option"
  ss_write_amplification_ratio :: "f64 option"
  ss_disk_class :: "string option"
  ss_fsync_calls_per_turn :: "f64 option"
  ss_fdatasync_calls_per_turn :: "f64 option"
  ss_fullfsync_calls_per_turn :: "f64 option"
  ss_durability_calls_per_turn :: "f64 option"
  ss_assumed_fsync_cost_ms :: "f64 option"
  ss_estimated_durability_wall_ms_per_turn :: "f64 option"
  ss_durability_class :: "string option"
  ss_first_turn_allocated_bytes :: "f64 option"
  ss_footprint_slope_bytes_per_turn :: "f64 option"
  ss_growth_class :: "growth_class option"
  ss_compaction_before_allocated_bytes :: "f64 option"
  ss_compaction_after_allocated_bytes :: "f64 option"
  ss_compaction_freed_pct :: "f64 option"
  ss_closed_sessions :: "u64 option"
  ss_close_retained_bytes_per_session :: "f64 option"
  ss_close_retained_after_sweep_bytes_per_session :: "f64 option"
  ss_retention_cap_bytes :: "u64 option"
  ss_close_retention_class :: "bound_class option"
  ss_delete_residue_allocated_bytes :: "u64 option"
  ss_delete_residue_files :: "u64 option"
  ss_uninstall_residue_allocated_bytes :: "u64 option"
  ss_uninstall_residue_files :: "u64 option"
  ss_request_retention_class :: "retention_class option"
  ss_stored_request_bytes :: "u64 option"
  ss_unique_request_content_bytes :: "u64 option"
  ss_stored_unique_ratio :: "f64 option"
  ss_crash_residue_allocated_bytes :: "u64 option"
  ss_crash_residue_files :: "u64 option"
  ss_crash_resume_outcome :: "crash_outcome option"
  ss_resume_read_bytes_p50 :: "f64 option"
  ss_resume_read_bytes_p95 :: "f64 option"
  ss_resume_latency_p50_ms :: "f64 option"
  ss_resume_latency_p95_ms :: "f64 option"
  ss_resume_outcome :: "resume_outcome option"
  ss_footprint_curve :: "curve_point list"
  ss_auxiliaries :: "auxiliary list"

section \<open>Its JSON value\<close>

text \<open>What the derived serializers write: variants in lower case, absent values as null.\<close>

fun growth_class_json :: "growth_class \<Rightarrow> json" where
  "growth_class_json Bounded = JString ''bounded''"
| "growth_class_json Linear = JString ''linear''"
| "growth_class_json Superlinear = JString ''superlinear''"

fun bound_class_json :: "bound_class \<Rightarrow> json" where
  "bound_class_json BoundedBytes = JString ''bounded''"
| "bound_class_json UnboundedBytes = JString ''unbounded''"

fun retention_class_json :: "retention_class \<Rightarrow> json" where
  "retention_class_json RetainedNone = JString ''none''"
| "retention_class_json Deduplicated = JString ''deduplicated''"
| "retention_class_json Full = JString ''full''"

fun crash_outcome_json :: "crash_outcome \<Rightarrow> json" where
  "crash_outcome_json CrashPreserved = JString ''preserved''"
| "crash_outcome_json CrashCorrupt = JString ''corrupt''"
| "crash_outcome_json CrashFailed = JString ''failed''"

fun resume_outcome_json :: "resume_outcome \<Rightarrow> json" where
  "resume_outcome_json ResumePreserved = JString ''preserved''"
| "resume_outcome_json ResumeFailed = JString ''failed''"

definition curve_point_json :: "curve_point \<Rightarrow> json" where
  "curve_point_json p = json_object
     [(''turn'', json_u32 (cvp_turn p)), (''allocated_bytes'', json_f64 (cvp_allocated_bytes p)),
      (''mad_bytes'', json_f64 (cvp_mad_bytes p))]"

definition auxiliary_json :: "auxiliary \<Rightarrow> json" where
  "auxiliary_json a = json_object
     [(''name'', JString (au_name a)), (''declared'', JBool (au_declared a)),
      (''cap_bytes'', json_option json_u64 (au_cap_bytes a)),
      (''peak_allocated_bytes'', json_u64 (au_peak_allocated_bytes a)),
      (''final_allocated_bytes'', json_u64 (au_final_allocated_bytes a)),
      (''slope_bytes_per_turn'', json_f64 (au_slope_bytes_per_turn a)),
      (''rotation_observed'', JBool (au_rotation_observed a)),
      (''class'', json_option bound_class_json (au_class a))]"

definition storage_summary_members :: "storage_summary \<Rightarrow> (string \<times> json) list" where
  "storage_summary_members s =
     [(''schema'', json_u32 (ss_schema s)), (''task'', JString (ss_task s)), (''profile'', JString (ss_profile s)),
      (''os'', JString (ss_os s)), (''topology'', JString (ss_topology s)),
      (''comparison_scope'', JString (ss_comparison_scope s)), (''turn_budget'', json_u32 (ss_turn_budget s)),
      (''repetitions'', json_u32 (ss_repetitions s)), (''completed_turns'', json_u64 (ss_completed_turns s)),
      (''physical_requests'', json_u64 (ss_physical_requests s)),
      (''measurement_label'', JString (ss_measurement_label s)), (''counter_source'', JString (ss_counter_source s)),
      (''allocation_source'', JString (ss_allocation_source s)),
      (''declarations_sha256'', JString (ss_declarations_sha256 s)),
      (''write_bytes_per_turn_p50'', json_option json_f64 (ss_write_bytes_per_turn_p50 s)),
      (''write_bytes_per_turn_p95'', json_option json_f64 (ss_write_bytes_per_turn_p95 s)),
      (''write_bytes_per_turn_max'', json_option json_f64 (ss_write_bytes_per_turn_max s)),
      (''logical_growth_bytes_per_turn'', json_option json_f64 (ss_logical_growth_bytes_per_turn s)),
      (''net_growth_bytes_per_turn'', json_option json_f64 (ss_net_growth_bytes_per_turn s)),
      (''write_amplification_ratio'', json_option json_f64 (ss_write_amplification_ratio s)),
      (''disk_class'', json_option JString (ss_disk_class s)),
      (''fsync_calls_per_turn'', json_option json_f64 (ss_fsync_calls_per_turn s)),
      (''fdatasync_calls_per_turn'', json_option json_f64 (ss_fdatasync_calls_per_turn s)),
      (''fullfsync_calls_per_turn'', json_option json_f64 (ss_fullfsync_calls_per_turn s)),
      (''durability_calls_per_turn'', json_option json_f64 (ss_durability_calls_per_turn s)),
      (''assumed_fsync_cost_ms'', json_option json_f64 (ss_assumed_fsync_cost_ms s)),
      (''estimated_durability_wall_ms_per_turn'', json_option json_f64 (ss_estimated_durability_wall_ms_per_turn s)),
      (''durability_class'', json_option JString (ss_durability_class s)),
      (''first_turn_allocated_bytes'', json_option json_f64 (ss_first_turn_allocated_bytes s)),
      (''footprint_slope_bytes_per_turn'', json_option json_f64 (ss_footprint_slope_bytes_per_turn s)),
      (''growth_class'', json_option growth_class_json (ss_growth_class s)),
      (''compaction_before_allocated_bytes'', json_option json_f64 (ss_compaction_before_allocated_bytes s)),
      (''compaction_after_allocated_bytes'', json_option json_f64 (ss_compaction_after_allocated_bytes s)),
      (''compaction_freed_pct'', json_option json_f64 (ss_compaction_freed_pct s)),
      (''closed_sessions'', json_option json_u64 (ss_closed_sessions s)),
      (''close_retained_bytes_per_session'', json_option json_f64 (ss_close_retained_bytes_per_session s)),
      (''close_retained_after_sweep_bytes_per_session'',
         json_option json_f64 (ss_close_retained_after_sweep_bytes_per_session s)),
      (''retention_cap_bytes'', json_option json_u64 (ss_retention_cap_bytes s)),
      (''close_retention_class'', json_option bound_class_json (ss_close_retention_class s)),
      (''delete_residue_allocated_bytes'', json_option json_u64 (ss_delete_residue_allocated_bytes s)),
      (''delete_residue_files'', json_option json_u64 (ss_delete_residue_files s)),
      (''uninstall_residue_allocated_bytes'', json_option json_u64 (ss_uninstall_residue_allocated_bytes s)),
      (''uninstall_residue_files'', json_option json_u64 (ss_uninstall_residue_files s)),
      (''request_retention_class'', json_option retention_class_json (ss_request_retention_class s)),
      (''stored_request_bytes'', json_option json_u64 (ss_stored_request_bytes s)),
      (''unique_request_content_bytes'', json_option json_u64 (ss_unique_request_content_bytes s)),
      (''stored_unique_ratio'', json_option json_f64 (ss_stored_unique_ratio s)),
      (''crash_residue_allocated_bytes'', json_option json_u64 (ss_crash_residue_allocated_bytes s)),
      (''crash_residue_files'', json_option json_u64 (ss_crash_residue_files s)),
      (''crash_resume_outcome'', json_option crash_outcome_json (ss_crash_resume_outcome s)),
      (''resume_read_bytes_p50'', json_option json_f64 (ss_resume_read_bytes_p50 s)),
      (''resume_read_bytes_p95'', json_option json_f64 (ss_resume_read_bytes_p95 s)),
      (''resume_latency_p50_ms'', json_option json_f64 (ss_resume_latency_p50_ms s)),
      (''resume_latency_p95_ms'', json_option json_f64 (ss_resume_latency_p95_ms s)),
      (''resume_outcome'', json_option resume_outcome_json (ss_resume_outcome s)),
      (''footprint_curve'', JArray (map curve_point_json (ss_footprint_curve s))),
      (''auxiliaries'', JArray (map auxiliary_json (ss_auxiliaries s)))]"

definition storage_summary_json :: "storage_summary \<Rightarrow> json" where
  "storage_summary_json s = json_object (storage_summary_members s)"

section \<open>Scope\<close>

definition known_scope_value :: "string \<Rightarrow> bool" where
  "known_scope_value v \<longleftrightarrow> v \<noteq> [] \<and> v \<noteq> ''unknown'' \<and> v \<noteq> ''unavailable''"

definition same_scope :: "storage_summary option \<Rightarrow> storage_summary option \<Rightarrow> bool" where
  "same_scope left right =
     (case (left, right) of
        (Some a, Some b) \<Rightarrow>
          ss_schema a = 1 \<and> ss_schema b = 1
          \<and> length (utf8_bytes (ss_declarations_sha256 a)) = 64
          \<and> list_all ascii_hexdigit (ss_declarations_sha256 a)
          \<and> list_all (\<lambda>(x, y). known_scope_value x \<and> x \<noteq> ''unavailable'' \<and> x = y)
              [(ss_task a, ss_task b), (ss_profile a, ss_profile b), (ss_os a, ss_os b),
               (ss_topology a, ss_topology b), (ss_allocation_source a, ss_allocation_source b),
               (ss_counter_source a, ss_counter_source b),
               (ss_declarations_sha256 a, ss_declarations_sha256 b),
               (ss_comparison_scope a, ss_comparison_scope b)]
      | _ \<Rightarrow> False)"

section \<open>Comparison\<close>

text \<open>\<open>Value::as_f64\<close>, and indexing a value by a member name.\<close>

fun as_f64 :: "json \<Rightarrow> f64 option" where
  "as_f64 (JNumber (PosInt n)) = Some (f_of_int (uint n))"
| "as_f64 (JNumber (NegInt n)) = Some (f_of_int (sint n))"
| "as_f64 (JNumber (JFloat x)) = Some x"
| "as_f64 (JNumber JMinusZero) = Some (Fin 0)"
| "as_f64 _ = None"

definition json_member :: "json \<Rightarrow> string \<Rightarrow> json" where
  "json_member v key = (case json_get v key of None \<Rightarrow> JNull | Some x \<Rightarrow> x)"

definition member_names :: "json \<Rightarrow> string list" where
  "member_names v = (case as_object v of None \<Rightarrow> [] | Some members \<Rightarrow> map fst members)"

definition joint_names :: "json \<Rightarrow> json \<Rightarrow> string list" where
  "joint_names a b = bset_of_list (member_names a @ member_names b)"

definition delta_change :: "json \<Rightarrow> json \<Rightarrow> bool \<Rightarrow> string" where
  "delta_change a b comparable =
     (if is_null a \<or> is_null b then ''unavailable''
      else if \<not> comparable then ''not-comparable-storage-scope''
      else if json_eq a b then ''unchanged'' else ''changed'')"

definition json_delta :: "json \<Rightarrow> json \<Rightarrow> bool \<Rightarrow> json" where
  "json_delta a b comparable =
     json_object ([(''before'', a), (''after'', b), (''change'', JString (delta_change a b comparable))]
       @ (case (comparable, as_f64 a, as_f64 b) of
            (True, Some x, Some y) \<Rightarrow> [(''delta'', json_f64 (f_sub y x))]
          | _ \<Rightarrow> []))"

fun keyed_records :: "(json \<Rightarrow> string) \<Rightarrow> string \<Rightarrow> (string, json) btree \<Rightarrow> json list \<Rightarrow> ahrb_error + (string, json) btree" where
  "keyed_records json_text key out [] = Inr out"
| "keyed_records json_text key out (v # vs) =
     (case json_get v key of
        None \<Rightarrow> Inl (Protocol (''storage comparison record lacks '' @ key))
      | Some i \<Rightarrow>
          (if bt_get out (json_text i) \<noteq> None
           then Inl (Protocol (''storage comparison has duplicate '' @ key @ ''='' @ json_text i))
           else keyed_records json_text key (bt_insert (json_text i) v out) vs))"

definition records_of :: "(json \<Rightarrow> string) \<Rightarrow> string \<Rightarrow> json \<Rightarrow> ahrb_error + (string, json) btree" where
  "records_of json_text key v =
     keyed_records json_text key [] (case as_array v of None \<Rightarrow> [] | Some vs \<Rightarrow> vs)"

definition join_record :: "string \<Rightarrow> bool \<Rightarrow> json \<Rightarrow> json \<Rightarrow> json" where
  "join_record key comparable before after =
     json_object
       [(key, case json_get before key of Some v \<Rightarrow> v
              | None \<Rightarrow> (case json_get after key of Some v \<Rightarrow> v | None \<Rightarrow> JNull)),
        (''values'', json_object (map (\<lambda>field. (field, json_delta (json_member before field) (json_member after field) comparable))
                       (filter (\<lambda>field. field \<noteq> key) (joint_names before after))))]"

definition join_json :: "(json \<Rightarrow> string) \<Rightarrow> json \<Rightarrow> json \<Rightarrow> string \<Rightarrow> bool \<Rightarrow> ahrb_error + json" where
  "join_json json_text x y key comparable =
     and_then (records_of json_text key x) (\<lambda>a.
     and_then (records_of json_text key y) (\<lambda>b.
       let joined = map (\<lambda>i. join_record key comparable
                            (case bt_get a i of None \<Rightarrow> JNull | Some v \<Rightarrow> v)
                            (case bt_get b i of None \<Rightarrow> JNull | Some v \<Rightarrow> v))
                      (bset_of_list (map fst a @ map fst b))
       in Inr (JArray (if key = ''turn'' then sort_key (\<lambda>r. as_u64 (json_member r key)) joined else joined))))"

definition storage_status :: "storage_summary option \<Rightarrow> storage_summary option \<Rightarrow> string" where
  "storage_status left right =
     (if left = None \<or> right = None then ''unavailable''
      else if same_scope left right then ''comparable'' else ''not-comparable-storage-scope'')"

definition compare_member :: "(json \<Rightarrow> string) \<Rightarrow> json \<Rightarrow> json \<Rightarrow> bool \<Rightarrow> string \<Rightarrow> ahrb_error + string \<times> json" where
  "compare_member json_text a b comparable key =
     and_then (if key = ''footprint_curve'' then join_json json_text (json_member a key) (json_member b key) ''turn'' comparable
               else if key = ''auxiliaries'' then join_json json_text (json_member a key) (json_member b key) ''name'' comparable
               else Inr (json_delta (json_member a key) (json_member b key) comparable))
       (\<lambda>v. Inr (key, v))"

definition compare_storage :: "(json \<Rightarrow> string) \<Rightarrow> storage_summary option \<Rightarrow> storage_summary option
    \<Rightarrow> ahrb_error + json option" where
  "compare_storage json_text left right =
     (if left = None \<and> right = None then Inr None
      else let comparable = same_scope left right;
               a = json_option storage_summary_json left;
               b = json_option storage_summary_json right
           in and_then (collect_ok (compare_member json_text a b comparable) (joint_names a b)) (\<lambda>vals.
                Inr (Some (json_object [(''comparison_scope'', JString (storage_status left right)),
                                        (''values'', json_object vals)]))))"

end
