(* ===== verification/Report_Diff.thy ===== *)
theory Report_Diff
  imports Timestamps Scenarios Storage_Summary
begin

text \<open>
  Selection of the two compared occurrences and the comparison of their rows, from
  \<open>src/src/diff.rs\<close> and \<open>src/src/diff/storage.rs\<close>.  The Debug rendering of strings in
  messages is the parameter \<open>dbg\<close>.  Whether an operand names an existing path, and the index
  entry of a report at that path, come from the file system and are the parameters \<open>exists\<close>
  and \<open>path_entry\<close>.
\<close>

section \<open>Index entries\<close>

text \<open>
  A line of the index.  The compact resource metrics it carries are copied and never inspected
  here, so their type is a parameter.
\<close>

record 'm index_entry =
  ie_schema :: u32
  ie_pillar :: string
  ie_storage_summary :: "storage_summary option"
  ie_badge_label :: "string option"
  ie_outcome_counts :: outcome_tally
  ie_run_key :: string
  ie_completed_at :: string
  ie_harness :: string
  ie_harness_version :: string
  ie_report_path :: string
  ie_report_schema :: u32
  ie_spec_version :: u32
  ie_profile :: string
  ie_os :: string
  ie_topology :: string
  ie_resource_summary :: 'm
  ie_metrics :: "(string, f64) btree"
  ie_manifest_sha256 :: string
  ie_workflow_sha256 :: string
  ie_ahrb_revision :: string

fun unique_keys_from :: "(string \<Rightarrow> string) \<Rightarrow> string list \<Rightarrow> 'm index_entry list \<Rightarrow> ahrb_error + unit" where
  "unique_keys_from dbg seen [] = Inr ()"
| "unique_keys_from dbg seen (e # es) =
     (if ie_run_key e \<in> set seen
      then Inl (Protocol (''ambiguous duplicate index run key '' @ dbg (ie_run_key e)))
      else unique_keys_from dbg (bs_insert (ie_run_key e) seen) es)"

definition ensure_unique_run_keys :: "(string \<Rightarrow> string) \<Rightarrow> 'm index_entry list \<Rightarrow> ahrb_error + unit" where
  "ensure_unique_run_keys dbg es = unique_keys_from dbg [] es"

section \<open>The newest occurrence\<close>

text \<open>Occurrences are ordered by completion time, then by run key.\<close>

fun newest_from :: "(string \<Rightarrow> string) \<Rightarrow> (u64 \<times> 'm index_entry) option \<Rightarrow> 'm index_entry list
    \<Rightarrow> ahrb_error + (u64 \<times> 'm index_entry) option" where
  "newest_from dbg latest [] = Inr latest"
| "newest_from dbg latest (e # es) =
     and_then (utc_timestamp_seconds dbg (ie_completed_at e)) (\<lambda>completed_at.
       let replace = (case latest of None \<Rightarrow> True
                      | Some (latest_at, l) \<Rightarrow> (latest_at, ie_run_key l) < (completed_at, ie_run_key e))
       in newest_from dbg (if replace then Some (completed_at, e) else latest) es)"

definition newest :: "(string \<Rightarrow> string) \<Rightarrow> 'm index_entry list \<Rightarrow> ahrb_error + 'm index_entry" where
  "newest dbg es = and_then (newest_from dbg None es) (\<lambda>latest. case latest of
       None \<Rightarrow> Inl (Protocol ''no indexed run matched selector'')
     | Some (_, e) \<Rightarrow> Inr e)"

section \<open>Operands\<close>

definition rsplit_once :: "char \<Rightarrow> string \<Rightarrow> (string \<times> string) option" where
  "rsplit_once c s = map_option (\<lambda>(b, a). (rev a, rev b)) (split_once c (rev s))"

definition select_run :: "(string \<Rightarrow> string) \<Rightarrow> 'm index_entry list \<Rightarrow> string \<Rightarrow> string option \<Rightarrow> ahrb_error + 'm index_entry" where
  "select_run dbg es harness selector =
     (let harness_entries = filter (\<lambda>e. ie_harness e = harness) es
      in if harness_entries = []
         then Inl (Protocol (''no indexed runs resolve harness '' @ dbg harness))
         else case selector of None \<Rightarrow> newest dbg harness_entries
         | Some sel \<Rightarrow>
             (case filter (\<lambda>e. ie_run_key e = sel) harness_entries of
                [e] \<Rightarrow> Inr e
              | _ # _ # _ \<Rightarrow> Inl (Protocol (''ambiguous run key '' @ dbg sel @ '' for harness '' @ dbg harness))
              | [] \<Rightarrow>
                  (let by_version = filter (\<lambda>e. ie_harness_version e = sel) harness_entries
                   in if by_version = []
                      then Inl (Protocol (''selector '' @ dbg sel @ '' resolves neither a run key nor version for harness '' @ dbg harness))
                      else newest dbg by_version)))"

definition resolve_operand :: "(string \<Rightarrow> bool) \<Rightarrow> (string \<Rightarrow> ahrb_error + 'm index_entry) \<Rightarrow> (string \<Rightarrow> string)
    \<Rightarrow> 'm index_entry list \<Rightarrow> string \<Rightarrow> ahrb_error + 'm index_entry" where
  "resolve_operand exists path_entry dbg es operand =
     (if exists operand then path_entry operand
      else case rsplit_once (CHR ''@'') operand of
        Some (harness, selector) \<Rightarrow>
          (if harness \<noteq> [] \<and> selector \<noteq> [] then select_run dbg es harness (Some selector)
           else Inl (Usage (''invalid diff selector '' @ dbg operand)))
      | None \<Rightarrow>
          (if operand \<noteq> [] then select_run dbg es operand None
           else Inl (Usage ''diff harness selector cannot be empty'')))"

section \<open>The latest pair\<close>

definition earlier_compatible :: "'m index_entry \<Rightarrow> u64 \<Rightarrow> 'm index_entry \<Rightarrow> u64 \<Rightarrow> bool" where
  "earlier_compatible right right_at e at_e \<longleftrightarrow>
     ie_run_key e \<noteq> ie_run_key right
     \<and> ie_pillar e = ie_pillar right
     \<and> (ie_pillar right \<noteq> ''storage'' \<or> same_scope (ie_storage_summary e) (ie_storage_summary right))
     \<and> ie_os e = ie_os right
     \<and> ie_topology e = ie_topology right
     \<and> ie_profile e = ie_profile right
     \<and> ie_report_schema e = ie_report_schema right
     \<and> (at_e, ie_run_key e) < (right_at, ie_run_key right)"

fun earlier_entries :: "(string \<Rightarrow> string) \<Rightarrow> 'm index_entry \<Rightarrow> u64 \<Rightarrow> 'm index_entry list
    \<Rightarrow> ahrb_error + 'm index_entry list" where
  "earlier_entries dbg right right_at [] = Inr []"
| "earlier_entries dbg right right_at (e # es) =
     and_then (utc_timestamp_seconds dbg (ie_completed_at e)) (\<lambda>at_e.
     and_then (earlier_entries dbg right right_at es) (\<lambda>rest.
       Inr (if earlier_compatible right right_at e at_e then e # rest else rest)))"

definition resolve_latest_pair :: "(string \<Rightarrow> string) \<Rightarrow> 'm index_entry list \<Rightarrow> string
    \<Rightarrow> ahrb_error + 'm index_entry \<times> 'm index_entry" where
  "resolve_latest_pair dbg es harness =
     (if harness = [] then Inl (Usage ''hbench diff --latest harness cannot be empty'')
      else let matching = filter (\<lambda>e. ie_harness e = harness) es in
        and_then (newest dbg matching) (\<lambda>right.
        and_then (utc_timestamp_seconds dbg (ie_completed_at right)) (\<lambda>right_at.
        and_then (newest dbg (filter (\<lambda>e. ie_run_key e \<noteq> ie_run_key right) matching)) (\<lambda>previous.
          if ie_pillar previous \<noteq> ie_pillar right
          then Inl (Usage ''latest occurrences span pillars; use explicit run paths'')
          else and_then (earlier_entries dbg right right_at matching) (\<lambda>earlier.
            case newest dbg earlier of
              Inl _ \<Rightarrow> Inl (Protocol (''fewer than two compatible indexed runs for harness '' @ dbg harness))
            | Inr left \<Rightarrow> Inr (left, right))))))"

definition diff_operands :: "(string \<Rightarrow> bool) \<Rightarrow> (string \<Rightarrow> ahrb_error + 'm index_entry) \<Rightarrow> (string \<Rightarrow> string)
    \<Rightarrow> 'm index_entry list \<Rightarrow> string list \<Rightarrow> ahrb_error + 'm index_entry \<times> 'm index_entry" where
  "diff_operands exists path_entry dbg es args =
     and_then (ensure_unique_run_keys dbg es) (\<lambda>_.
       case args of
         a # rest \<Rightarrow>
           (if a = ''--latest''
            then (case rest of [harness] \<Rightarrow> resolve_latest_pair dbg es harness
                  | _ \<Rightarrow> Inl (Usage ''hbench diff --latest requires exactly one harness''))
            else (case rest of
                    [b] \<Rightarrow> and_then (resolve_operand exists path_entry dbg es a) (\<lambda>l.
                           and_then (resolve_operand exists path_entry dbg es b) (\<lambda>r. Inr (l, r)))
                  | _ \<Rightarrow> Inl (Usage ''hbench diff requires exactly two harness selectors or report paths'')))
       | [] \<Rightarrow> Inl (Usage ''hbench diff requires exactly two harness selectors or report paths''))"

section \<open>Rows\<close>

fun pillar_rank :: "pillar \<Rightarrow> nat" where
  "pillar_rank ToolCallCorrectness = 0"
| "pillar_rank Functionality = 1"
| "pillar_rank Resource = 2"
| "pillar_rank AutomationReadiness = 3"
| "pillar_rank Storage = 4"

text \<open>The derived order of the variants.\<close>

instantiation pillar :: linorder
begin

definition less_eq_pillar :: "pillar \<Rightarrow> pillar \<Rightarrow> bool" where
  "less_eq_pillar a b \<longleftrightarrow> pillar_rank a \<le> pillar_rank b"

definition less_pillar :: "pillar \<Rightarrow> pillar \<Rightarrow> bool" where
  "less_pillar a b \<longleftrightarrow> pillar_rank a < pillar_rank b"

lemma pillar_rank_inj: "pillar_rank a = pillar_rank b \<Longrightarrow> a = b"
  by (cases a; cases b) auto

instance
  by intro_classes (auto simp: less_eq_pillar_def less_pillar_def pillar_rank_inj)

end

type_synonym row_key = "pillar \<times> string"

record row_diff =
  rd_pillar :: pillar
  rd_row :: u8
  rd_id :: string
  rd_badge_impact :: string
  rd_before :: "string option"
  rd_after :: "string option"
  rd_change :: string

fun outcome_label :: "test_outcome \<Rightarrow> string" where
  "outcome_label Pass = ''PASS''"
| "outcome_label (Fail _) = ''FAIL''"
| "outcome_label (Unsupported _) = ''UNSUPPORTED''"
| "outcome_label (Error _) = ''ERROR''"
| "outcome_label (Absent _) = ''ABSENT''"

definition result_key :: "test_result \<Rightarrow> row_key" where
  "result_key r = (res_pillar r, res_id r)"

fun insert_results :: "(string \<Rightarrow> string) \<Rightarrow> (row_key, test_result) btree \<Rightarrow> test_result list
    \<Rightarrow> ahrb_error + (row_key, test_result) btree" where
  "insert_results dbg by_id [] = Inr by_id"
| "insert_results dbg by_id (r # rs) =
     (if bt_get by_id (result_key r) \<noteq> None
      then Inl (Protocol (''report contains duplicate stable row ID '' @ dbg (res_id r)))
      else insert_results dbg (bt_insert (result_key r) r by_id) rs)"

definition results_by_id :: "(string \<Rightarrow> string) \<Rightarrow> test_result list \<Rightarrow> ahrb_error + (row_key, test_result) btree" where
  "results_by_id dbg rs = insert_results dbg [] rs"

definition requirement_for :: "test_result \<Rightarrow> requirement_kind" where
  "requirement_for r =
     (if res_pillar r = Storage
      then (if res_id r = ''footprint-curve''
               \<or> (res_id r = ''delete-uninstall-residue'' \<and> md_requirement (res_metadata r) \<noteq> ''informational'')
            then Core else Informational)
      else case find (\<lambda>d. td_id d = res_id r) tests of
             Some d \<Rightarrow> requirement d
           | None \<Rightarrow>
               (let q = md_requirement (res_metadata r)
                in if q = ''informational'' then Informational
                   else if q = ''optional-facet'' then OptionalFacet ''legacy-unknown''
                   else Core))"

fun requirement_label :: "requirement_kind \<Rightarrow> string" where
  "requirement_label Core = ''core''"
| "requirement_label (OptionalFacet _) = ''optional-facet''"
| "requirement_label Informational = ''informational''"

fun is_facet :: "requirement_kind \<Rightarrow> bool" where
  "is_facet (OptionalFacet _) = True"
| "is_facet _ = False"

definition optional_capability_declared :: "test_result \<Rightarrow> bool option" where
  "optional_capability_declared r = md_capability_declared (res_metadata r)"

definition informational_change :: "string \<Rightarrow> string \<Rightarrow> string \<times> bool" where
  "informational_change b a =
     (if b = ''PASS'' \<and> a = ''FAIL'' then (''informational-regression'', False)
      else if b = ''FAIL'' \<and> a = ''PASS'' then (''informational-improvement'', False)
      else if b \<in> {''PASS'', ''FAIL''} \<and> a \<in> {''ERROR'', ''ABSENT''} then (''evidence-regression'', False)
      else if b \<in> {''ERROR'', ''ABSENT''} \<and> a \<in> {''PASS'', ''FAIL''} then (''evidence-improvement'', False)
      else if b \<in> {''PASS'', ''FAIL''} \<and> a = ''UNSUPPORTED'' then (''evidence-regression'', False)
      else if b = ''UNSUPPORTED'' \<and> a \<in> {''PASS'', ''FAIL''} then (''evidence-improvement'', False)
      else (''changed-nonpass'', False))"

text \<open>The branches of a facet row: an answer, or the general rule.\<close>

definition declaration_change :: "test_result \<Rightarrow> test_result \<Rightarrow> (string \<times> bool) option" where
  "declaration_change b a =
     (let before_declared = optional_capability_declared b; after_declared = optional_capability_declared a;
          before_class = outcome_label (res_outcome b); after_class = outcome_label (res_outcome a)
      in if before_declared = Some False \<and> after_declared = Some True
         then (if after_class = ''PASS'' then Some (''facet-added'', False) else Some (''facet-added-nonpass'', False))
         else if before_declared = Some True \<and> after_declared = Some False \<and> after_class = ''UNSUPPORTED''
         then Some (''facet-removed'', before_class = ''PASS'')
         else None)"

definition facet_class_change :: "test_result \<Rightarrow> test_result \<Rightarrow> (string \<times> bool) option" where
  "facet_class_change b a =
     (let before_class = outcome_label (res_outcome b); after_class = outcome_label (res_outcome a)
      in if before_class = ''UNSUPPORTED'' \<and> optional_capability_declared b = Some False
            \<and> optional_capability_declared a = Some True \<and> after_class \<noteq> ''PASS''
         then Some (''facet-added-nonpass'', False)
         else if before_class = ''UNSUPPORTED'' \<and> after_class = ''PASS''
         then Some (if optional_capability_declared b = Some False then (''facet-added'', False) else (''improvement'', False))
         else if after_class = ''UNSUPPORTED''
         then Some (if optional_capability_declared a = Some False then (''facet-removed'', before_class = ''PASS'')
                    else if before_class = ''PASS'' then (''regression'', True)
                    else (''changed-nonpass'', False))
         else None)"

definition general_change :: "string \<Rightarrow> string \<Rightarrow> string \<times> bool" where
  "general_change before_class after_class =
     (if before_class = ''PASS'' then (''regression'', True)
      else if after_class = ''PASS'' then (''improvement'', False)
      else (''changed-nonpass'', False))"

fun row_change :: "requirement_kind \<Rightarrow> test_result option \<Rightarrow> test_result option \<Rightarrow> string \<times> bool" where
  "row_change q None after = (''added'', False)"
| "row_change q (Some b) None = (''removed'', q \<noteq> Informational \<and> res_outcome b = Pass)"
| "row_change q (Some b) (Some a) =
     (let before_class = outcome_label (res_outcome b); after_class = outcome_label (res_outcome a)
      in case (if is_facet q then declaration_change b a else None) of Some c \<Rightarrow> c | None \<Rightarrow>
         if before_class = after_class then (''unchanged'', False)
         else if q = Informational then informational_change before_class after_class
         else case (if is_facet q then facet_class_change b a else None) of Some c \<Rightarrow> c | None \<Rightarrow>
              general_change before_class after_class)"

fun is_fail :: "test_outcome \<Rightarrow> bool" where
  "is_fail (Fail _) = True"
| "is_fail _ = False"

definition storage_row_change :: "string \<Rightarrow> test_result option \<Rightarrow> test_result option \<Rightarrow> string \<times> bool" where
  "storage_row_change i before after =
     (let change = (case (before, after) of
                      (None, _) \<Rightarrow> ''added''
                    | (Some _, None) \<Rightarrow> ''removed''
                    | (Some b, Some a) \<Rightarrow> (if outcome_label (res_outcome b) = outcome_label (res_outcome a)
                                          then ''unchanged'' else ''changed''));
          regression = i \<in> {''footprint-curve'', ''delete-uninstall-residue''}
            \<and> (case before of None \<Rightarrow> False | Some r \<Rightarrow> res_outcome r = Pass)
            \<and> (case after of None \<Rightarrow> False | Some r \<Rightarrow> is_fail (res_outcome r))
      in if regression then (''regression'', True) else (change, False))"

definition current_result :: "test_result option \<Rightarrow> test_result option \<Rightarrow> test_result option" where
  "current_result before after = (case after of Some r \<Rightarrow> Some r | None \<Rightarrow> before)"

definition compare_key :: "(string \<Rightarrow> string) \<Rightarrow> (row_key, test_result) btree \<Rightarrow> (row_key, test_result) btree \<Rightarrow> row_key
    \<Rightarrow> ahrb_error + row_diff \<times> bool" where
  "compare_key dbg left right key =
     (let before = bt_get left key; after = bt_get right key in
      case current_result before after of
        None \<Rightarrow> Inl (Protocol (''row '' @ dbg (snd key) @ '' disappeared while joining diff''))
      | Some current \<Rightarrow>
          (let q = requirement_for current;
               (change, regression) = (if res_pillar current = Storage then storage_row_change (snd key) before after
                                       else row_change q before after)
           in Inr (\<lparr>rd_pillar = fst key, rd_row = res_row current, rd_id = snd key,
                    rd_badge_impact = requirement_label q,
                    rd_before = map_option (\<lambda>r. outcome_label (res_outcome r)) before,
                    rd_after = map_option (\<lambda>r. outcome_label (res_outcome r)) after,
                    rd_change = change\<rparr>, regression)))"

definition row_order :: "row_diff \<Rightarrow> u8 \<times> string" where
  "row_order d = (rd_row d, rd_id d)"

definition compare_rows :: "(string \<Rightarrow> string) \<Rightarrow> test_result list \<Rightarrow> test_result list
    \<Rightarrow> ahrb_error + row_diff list \<times> bool" where
  "compare_rows dbg left_results right_results =
     and_then (results_by_id dbg left_results) (\<lambda>left.
     and_then (results_by_id dbg right_results) (\<lambda>right.
     and_then (collect_ok (compare_key dbg left right) (bset_of_list (map fst left @ map fst right))) (\<lambda>cells.
       Inr (sort_key row_order (map fst cells), list_ex snd cells))))"

end
