(* ===== verification/Diff_Document.thy ===== *)
theory Diff_Document
  imports Report_Diff Economy Fidelity
begin

text \<open>
  The document of a comparison, from \<open>src/src/diff.rs\<close>: the resource metrics of the two raw
  reports, the economy and fidelity summaries, the scope that guards their differences, and the
  assembly of the parts.  Parsing a report and the lookup of a JSON pointer are parameters.
\<close>

section \<open>Values\<close>

record resource_delta =
  dl_before :: "f64 option"
  dl_after :: "f64 option"
  dl_delta :: "f64 option"
  dl_delta_pct :: "f64 option option"
  dl_change :: "string option"

definition numeric_delta :: "f64 option \<Rightarrow> f64 option \<Rightarrow> resource_delta" where
  "numeric_delta before after =
     (case (before, after) of
        (Some b, Some a) \<Rightarrow>
          \<lparr>dl_before = before, dl_after = after, dl_delta = Some (f_sub a b),
           dl_delta_pct = Some (if f_eq b (Fin 0) then None else Some (f_div (f_mul (Fin 100) (f_sub a b)) b)),
           dl_change = None\<rparr>
      | _ \<Rightarrow> \<lparr>dl_before = before, dl_after = after, dl_delta = None, dl_delta_pct = None,
              dl_change = Some ''unavailable''\<rparr>)"

definition withheld_delta :: "string \<Rightarrow> f64 option \<Rightarrow> f64 option \<Rightarrow> resource_delta" where
  "withheld_delta reason before after =
     \<lparr>dl_before = before, dl_after = after, dl_delta = None, dl_delta_pct = None, dl_change = Some reason\<rparr>"

definition value_change :: "'a option \<Rightarrow> 'a option \<Rightarrow> string" where
  "value_change before after =
     (if before = after then ''unchanged'' else if before = None then ''added''
      else if after = None then ''removed'' else ''changed'')"

definition guarded_value_change :: "'a option \<Rightarrow> 'a option \<Rightarrow> bool \<Rightarrow> string" where
  "guarded_value_change before after comparable =
     (if comparable \<or> before = None \<or> after = None then value_change before after
      else ''not-comparable-task-or-profile'')"

text \<open>The element-wise difference of two curves, absent unless they can be compared.\<close>

record 'a curve_diff =
  crv_before :: "'a list option"
  crv_after :: "'a list option"
  crv_delta :: "f64 list option"
  crv_change :: string

definition compare_curves :: "string \<Rightarrow> ('a \<Rightarrow> 'a \<Rightarrow> f64) \<Rightarrow> 'a list option \<Rightarrow> 'a list option \<Rightarrow> bool \<Rightarrow> 'a curve_diff option" where
  "compare_curves reason subtract before after comparable =
     (if before = None \<and> after = None then None
      else let (delta, change) =
             (if \<not> comparable then (None, reason)
              else case (before, after) of
                (Some b, Some a) \<Rightarrow>
                  (if length b = length a then (Some (map (\<lambda>(x, y). subtract y x) (zip b a)), ''comparable'')
                   else (None, ''different-length''))
              | (None, _) \<Rightarrow> (None, ''added'')
              | (Some _, None) \<Rightarrow> (None, ''removed''))
           in Some \<lparr>crv_before = before, crv_after = after, crv_delta = delta, crv_change = change\<rparr>)"

definition compare_fraction_curves :: "f64 list option \<Rightarrow> f64 list option \<Rightarrow> bool \<Rightarrow> f64 curve_diff option" where
  "compare_fraction_curves = compare_curves ''not-comparable-task-or-profile'' f_sub"

definition compare_u64_arrays :: "u64 list option \<Rightarrow> u64 list option \<Rightarrow> bool \<Rightarrow> u64 curve_diff option" where
  "compare_u64_arrays =
     compare_curves ''not-comparable-tokenizer-or-tariff'' (\<lambda>a b. f_sub (f_of_u64 a) (f_of_u64 b))"

section \<open>Fidelity\<close>

record fidelity_diff =
  fd_comparison_scope :: string
  fd_task_profile_match :: bool
  fd_end_reason_before :: "string option"
  fd_end_reason_after :: "string option"
  fd_end_reason_change :: string
  fd_workspace_state_before :: "string option"
  fd_workspace_state_after :: "string option"
  fd_workspace_state_change :: string
  fd_internal_cap_detected_before :: "bool option"
  fd_internal_cap_detected_after :: "bool option"
  fd_internal_cap_detected_change :: string
  fd_values :: "(string, resource_delta) btree"
  fd_survival_curve :: "f64 curve_diff option"
  fd_retained_tool_result_fraction :: "f64 curve_diff option"

definition fidelity_numeric :: "fidelity_summary \<Rightarrow> string \<Rightarrow> f64 option" where
  "fidelity_numeric s field =
     (if field = ''model_turns'' then Some (f_of_u64 (fs_model_turns s))
      else if field = ''needle_survival_fraction'' then Some (fs_needle_survival_fraction s)
      else if field = ''first_loss_turn'' then map_option f_of_u64 (fs_first_loss_turn s)
      else if field = ''end_turn'' then Some (f_of_u64 (fs_end_turn s))
      else if field = ''declared_turn_ceiling'' then map_option f_of_u64 (fs_declared_turn_ceiling s)
      else if field = ''retained_tool_result_fraction_final''
      then (if fs_retained_tool_result_fraction s = [] then None else Some (List.last (fs_retained_tool_result_fraction s)))
      else None)"

definition fidelity_fields :: "string list" where
  "fidelity_fields =
     [''model_turns'', ''needle_survival_fraction'', ''first_loss_turn'', ''end_turn'', ''declared_turn_ceiling'',
      ''retained_tool_result_fraction_final'']"

definition same_task_profile :: "fidelity_summary option \<Rightarrow> fidelity_summary option \<Rightarrow> bool" where
  "same_task_profile left right =
     (case (left, right) of (Some l, Some r) \<Rightarrow> fs_task l = fs_task r \<and> fs_profile l = fs_profile r | _ \<Rightarrow> False)"

definition fidelity_delta :: "fidelity_summary option \<Rightarrow> fidelity_summary option \<Rightarrow> string \<Rightarrow> resource_delta" where
  "fidelity_delta left right field =
     (let before = Option.bind left (\<lambda>s. fidelity_numeric s field); after = Option.bind right (\<lambda>s. fidelity_numeric s field)
      in if same_task_profile left right then numeric_delta before after
         else withheld_delta ''not-comparable-task-or-profile'' before after)"

definition compare_fidelity :: "fidelity_summary option \<Rightarrow> fidelity_summary option \<Rightarrow> fidelity_diff option" where
  "compare_fidelity left right =
     (if left = None \<and> right = None then None
      else let same = same_task_profile left right;
               reason = map_option (\<lambda>s. end_reason_name (fs_end_reason s));
               state = map_option (\<lambda>s. workspace_state_name (fs_workspace_state s));
               cap = map_option fs_internal_cap_detected
           in Some \<lparr>fd_comparison_scope = ''same-task-and-profile-only'', fd_task_profile_match = same,
                fd_end_reason_before = reason left, fd_end_reason_after = reason right,
                fd_end_reason_change = guarded_value_change (reason left) (reason right) same,
                fd_workspace_state_before = state left, fd_workspace_state_after = state right,
                fd_workspace_state_change = guarded_value_change (state left) (state right) same,
                fd_internal_cap_detected_before = cap left, fd_internal_cap_detected_after = cap right,
                fd_internal_cap_detected_change = guarded_value_change (cap left) (cap right) same,
                fd_values = bt_of_list (map (\<lambda>field. (field, fidelity_delta left right field)) fidelity_fields),
                fd_survival_curve =
                  compare_fraction_curves (map_option fs_survival_curve left) (map_option fs_survival_curve right) same,
                fd_retained_tool_result_fraction =
                  compare_fraction_curves (map_option fs_retained_tool_result_fraction left)
                    (map_option fs_retained_tool_result_fraction right) same\<rparr>)"

section \<open>Economy\<close>

record economy_diff =
  ed_comparison_scope :: string
  ed_tokenizer_match :: bool
  ed_cache_input_discount_match :: bool
  ed_cache_regime_before :: "string option"
  ed_cache_regime_after :: "string option"
  ed_cache_regime_change :: string
  ed_completion_before :: "string option"
  ed_completion_after :: "string option"
  ed_completion_change :: string
  ed_values :: "(string, resource_delta) btree"
  ed_context_token_curve :: "u64 curve_diff option"
  ed_invalidated_prefix_tokens_per_turn :: "u64 curve_diff option"

definition advanced_fields :: "string list" where
  "advanced_fields =
     [''cache_eligible_fraction'', ''redundant_tokens'', ''context_token_curve_slope'', ''per_turn_fixed_overhead_tokens'',
      ''wasted_tool_call_count'', ''cache_control_breakpoints'', ''retry_attempts'', ''retry_reference_tokens'']"

definition cache_economics_fields :: "string list" where
  "cache_economics_fields =
     [''effective_reference_tokens'', ''effective_cost_usd'', ''stable_prefix_preserved_fraction'', ''cache_bust_count'',
      ''invalidated_prefix_tokens'']"

definition economy_numeric :: "economy_summary \<Rightarrow> string \<Rightarrow> f64 option" where
  "economy_numeric s field =
     (if field \<in> set advanced_fields \<and> es_schema s < 2 then None
      else if field \<in> set cache_economics_fields \<and> es_schema s < 3 then None
      else if field = ''model_turns'' then Some (f_of_u64 (es_model_turns s))
      else if field = ''total_reference_tokens'' then Some (f_of_u64 (es_total_reference_tokens s))
      else if field = ''tool_calls'' then Some (f_of_u64 (es_tool_calls s))
      else if field = ''tool_batching_factor'' then Some (es_tool_batching_factor s)
      else if field = ''last_context_size_tokens'' then Some (f_of_u64 (es_last_context_size_tokens s))
      else if field = ''reference_cost_usd'' then Some (es_reference_cost_usd s)
      else if field = ''effective_reference_tokens'' then Some (es_effective_reference_tokens s)
      else if field = ''effective_cost_usd'' then Some (es_effective_cost_usd s)
      else if field = ''tokens_per_completed_task'' then map_option f_of_u64 (es_tokens_per_completed_task s)
      else if field = ''cache_eligible_fraction'' then Some (es_cache_eligible_fraction s)
      else if field = ''stable_prefix_preserved_fraction'' then Some (es_stable_prefix_preserved_fraction s)
      else if field = ''cache_bust_count'' then Some (f_of_u64 (es_cache_bust_count s))
      else if field = ''invalidated_prefix_tokens'' then Some (f_of_u64 (es_invalidated_prefix_tokens s))
      else if field = ''redundant_tokens'' then Some (f_of_u64 (es_redundant_tokens s))
      else if field = ''context_token_curve_slope'' then Some (es_context_token_curve_slope s)
      else if field = ''per_turn_fixed_overhead_tokens'' then Some (f_of_u64 (es_per_turn_fixed_overhead_tokens s))
      else if field = ''wasted_tool_call_count'' then Some (f_of_u64 (es_wasted_tool_call_count s))
      else if field = ''cache_control_breakpoints'' then Some (f_of_u64 (es_cache_control_breakpoints s))
      else if field = ''retry_attempts'' then Some (f_of_u64 (es_retry_attempts s))
      else if field = ''retry_reference_tokens'' then Some (f_of_u64 (es_retry_reference_tokens s))
      else None)"

definition economy_fields :: "string list" where
  "economy_fields =
     [''model_turns'', ''total_reference_tokens'', ''tool_calls'', ''tool_batching_factor'', ''last_context_size_tokens'',
      ''reference_cost_usd'', ''effective_reference_tokens'', ''effective_cost_usd'', ''tokens_per_completed_task'',
      ''cache_eligible_fraction'', ''stable_prefix_preserved_fraction'', ''cache_bust_count'', ''invalidated_prefix_tokens'',
      ''redundant_tokens'', ''context_token_curve_slope'', ''per_turn_fixed_overhead_tokens'', ''wasted_tool_call_count'',
      ''cache_control_breakpoints'', ''retry_attempts'', ''retry_reference_tokens'']"

definition same_tokenizer :: "economy_summary option \<Rightarrow> economy_summary option \<Rightarrow> bool" where
  "same_tokenizer left right =
     (case (left, right) of
        (Some l, Some r) \<Rightarrow> es_reference_tokenizer l = es_reference_tokenizer r
          \<and> f_eq (es_reference_tariff_usd_per_million_tokens l) (es_reference_tariff_usd_per_million_tokens r)
      | _ \<Rightarrow> False)"

definition same_discount :: "economy_summary option \<Rightarrow> economy_summary option \<Rightarrow> bool" where
  "same_discount left right =
     (case (left, right) of
        (Some l, Some r) \<Rightarrow> 3 \<le> es_schema l \<and> 3 \<le> es_schema r
          \<and> f_eq (es_cache_input_discount l) (es_cache_input_discount r)
      | _ \<Rightarrow> False)"

definition effective_cost_field :: "string \<Rightarrow> bool" where
  "effective_cost_field field \<longleftrightarrow> field \<in> {''effective_reference_tokens'', ''effective_cost_usd''}"

definition economy_delta :: "economy_summary option \<Rightarrow> economy_summary option \<Rightarrow> string \<Rightarrow> resource_delta" where
  "economy_delta left right field =
     (let before = Option.bind left (\<lambda>s. economy_numeric s field); after = Option.bind right (\<lambda>s. economy_numeric s field)
      in if same_tokenizer left right \<and> (\<not> effective_cost_field field \<or> same_discount left right)
         then numeric_delta before after
         else withheld_delta (if effective_cost_field field then ''not-comparable-tokenizer-tariff-or-cache-input-discount''
                              else ''not-comparable-tokenizer-or-tariff'') before after)"

text \<open>A summary of at least the given schema.\<close>

definition with_schema :: "u32 \<Rightarrow> economy_summary option \<Rightarrow> economy_summary option" where
  "with_schema n s = Option.bind s (\<lambda>e. if n \<le> es_schema e then Some e else None)"

definition compare_context_token_curve :: "economy_summary option \<Rightarrow> economy_summary option \<Rightarrow> bool \<Rightarrow> u64 curve_diff option" where
  "compare_context_token_curve left right =
     compare_u64_arrays (map_option es_context_token_curve (with_schema 2 left))
       (map_option es_context_token_curve (with_schema 2 right))"

definition compare_invalidated_prefix_tokens :: "economy_summary option \<Rightarrow> economy_summary option \<Rightarrow> bool \<Rightarrow> u64 curve_diff option" where
  "compare_invalidated_prefix_tokens left right =
     compare_u64_arrays (map_option es_invalidated_prefix_tokens_per_turn (with_schema 3 left))
       (map_option es_invalidated_prefix_tokens_per_turn (with_schema 3 right))"

definition compare_economy :: "economy_summary option \<Rightarrow> economy_summary option \<Rightarrow> economy_diff option" where
  "compare_economy left right =
     (if left = None \<and> right = None then None
      else let same = same_tokenizer left right;
               regime = (\<lambda>s. map_option es_cache_regime (with_schema 3 s));
               end_state = map_option (\<lambda>s. completion_name (es_completion s))
           in Some \<lparr>ed_comparison_scope = ''cross-topology'', ed_tokenizer_match = same,
                ed_cache_input_discount_match = same_discount left right,
                ed_cache_regime_before = regime left, ed_cache_regime_after = regime right,
                ed_cache_regime_change = value_change (regime left) (regime right),
                ed_completion_before = end_state left, ed_completion_after = end_state right,
                ed_completion_change = value_change (end_state left) (end_state right),
                ed_values = bt_of_list (map (\<lambda>field. (field, economy_delta left right field)) economy_fields),
                ed_context_token_curve = compare_context_token_curve left right same,
                ed_invalidated_prefix_tokens_per_turn = compare_invalidated_prefix_tokens left right same\<rparr>)"

section \<open>Resources\<close>

definition resource_fields :: "string list" where
  "resource_fields =
   [''cpu_per_turn_p50_ms'', ''cpu_per_turn_p95_ms'', ''disk_write_bytes_per_turn_max'',
    ''disk_write_bytes_per_turn_p50'', ''disk_write_bytes_per_turn_p95'',
    ''disk_write_growth_slope_bytes_per_turn2'', ''fairness_latency_cv'', ''fairness_latency_max_min_ratio'',
    ''fairness_latency_spread_ms'', ''fairness_starved_agents'', ''fanout_cliff_n_rss'', ''fanout_cliff_n_wall'',
    ''fanout_global_rss_alpha'', ''fanout_max_local_rss_alpha'', ''fanout_max_local_wall_alpha'',
    ''fanout_max_measured_n'', ''idle_rss_mib'', ''latency_last_first_decile_ratio'',
    ''latency_slope_ms_per_100_turns'', ''large_tool_output_peak_rss_delta_mib'', ''log_growth_bytes_per_turn'',
    ''mean_rss_mib'', ''median_rss_mib'', ''memory_time_integral_coverage_ratio'',
    ''memory_time_integral_max_sample_gap_ms'', ''memory_time_integral_mib_s_per_turn'',
    ''model_wait_cpu_one_core_max_ratio'', ''model_wait_cpu_p50_ms'', ''model_wait_wall_p50_ms'',
    ''parallel_beta_mib_per_agent'', ''peak_rss_mib'', ''sampler_overhead_pct'', ''scaling_alpha'',
    ''session_journal_growth_bytes_per_turn'', ''session_residue_final_mib'',
    ''session_residue_slope_mib_per_session'', ''session_store_byte_slope_per_session'',
    ''session_store_file_count_slope_per_session'', ''session_store_final_residue_bytes'',
    ''session_store_final_residue_files'', ''resume_latency_p50_ms'', ''resume_latency_p95_ms'',
    ''resume_latency_slope_ms_per_turn'', ''time_to_first_model_request_max_ms'',
    ''time_to_first_model_request_p50_ms'', ''time_to_first_model_request_p95_ms'', ''wall_per_turn_jitter_ratio'',
    ''wall_per_turn_mad_ms'', ''wall_per_turn_max_ms'', ''wall_per_turn_ms'', ''wall_per_turn_p50_ms'',
    ''wall_per_turn_p95_ms'']"

definition resource_field_id :: "string \<Rightarrow> string option" where
  "resource_field_id field =
     (if field \<in> {''wall_per_turn_p50_ms'', ''wall_per_turn_p95_ms'', ''wall_per_turn_max_ms'',
         ''wall_per_turn_mad_ms'', ''wall_per_turn_jitter_ratio''} then Some ''turn-latency-distribution''
      else if field \<in> {''time_to_first_model_request_p50_ms'', ''time_to_first_model_request_p95_ms'',
         ''time_to_first_model_request_max_ms''} then Some ''time-to-first-model-request''
      else if field \<in> {''memory_time_integral_mib_s_per_turn'', ''memory_time_integral_coverage_ratio'',
         ''memory_time_integral_max_sample_gap_ms'', ''cpu_per_turn_p50_ms'', ''cpu_per_turn_p95_ms''} then Some
         ''memory-time-integral''
      else if field \<in> {''disk_write_bytes_per_turn_p50'', ''disk_write_bytes_per_turn_p95'',
         ''disk_write_bytes_per_turn_max'', ''session_journal_growth_bytes_per_turn'', ''log_growth_bytes_per_turn'',
         ''disk_write_growth_slope_bytes_per_turn2''} then Some ''disk-io-per-turn''
      else if field \<in> {''model_wait_cpu_p50_ms'', ''model_wait_wall_p50_ms'',
         ''model_wait_cpu_one_core_max_ratio''} then Some ''model-wait-cpu''
      else if field \<in> {''large_tool_output_peak_rss_delta_mib''} then Some ''large-tool-output''
      else if field \<in> {''latency_slope_ms_per_100_turns'', ''latency_last_first_decile_ratio''} then Some
         ''latency-vs-turn-index''
      else if field \<in> {''session_residue_slope_mib_per_session'', ''session_residue_final_mib'',
         ''session_store_byte_slope_per_session'', ''session_store_file_count_slope_per_session'',
         ''session_store_final_residue_bytes'', ''session_store_final_residue_files''} then Some
         ''session-residue-sweep''
      else if field \<in> {''resume_latency_p50_ms'', ''resume_latency_p95_ms'', ''resume_latency_slope_ms_per_turn''}
         then Some ''resume-latency-vs-length''
      else if field \<in> {''fanout_cliff_n_rss'', ''fanout_cliff_n_wall'', ''fanout_max_local_rss_alpha'',
         ''fanout_max_local_wall_alpha'', ''fanout_global_rss_alpha'', ''fanout_max_measured_n''} then Some
         ''fanout-cliff''
      else if field \<in> {''fairness_latency_cv'', ''fairness_latency_max_min_ratio'', ''fairness_latency_spread_ms'',
         ''fairness_starved_agents''} then Some ''fairness-under-fanout''
      else None)"

definition row_measurement_complete :: "json \<Rightarrow> string \<Rightarrow> bool" where
  "row_measurement_complete v i =
     (case Option.bind (json_get v ''results'') as_array of None \<Rightarrow> False
      | Some results \<Rightarrow> list_ex (\<lambda>r. Option.bind (json_get r ''id'') as_str = Some i
            \<and> Option.bind (json_get r ''measurement_complete'') as_bool = Some True) results)"

definition numeric_field :: "pointer_lookup \<Rightarrow> json \<Rightarrow> string \<Rightarrow> f64 option" where
  "numeric_field ptr v field =
     (if Option.bind (json_get v ''pillar'') as_str = Some ''storage''
         \<or> (case json_get v ''storage_summary'' of None \<Rightarrow> False | Some s \<Rightarrow> \<not> is_null s) then None
      else if (case resource_field_id field of Some i \<Rightarrow> \<not> row_measurement_complete v i | None \<Rightarrow> False) then None
      else if resource_field_id field = None
         \<and> Option.bind (ptr v ''/details/resource-summary/measurement_complete'') as_bool = Some False then None
      else Option.bind (Option.bind (Option.bind (json_get v ''resource_summary'') as_object) (\<lambda>members. bt_get members field)) as_f64)"

definition resource_difference :: "pointer_lookup \<Rightarrow> json \<Rightarrow> json \<Rightarrow> bool \<Rightarrow> string \<Rightarrow> resource_delta" where
  "resource_difference ptr left right comparable field =
     (let before = numeric_field ptr left field; after = numeric_field ptr right field
      in if comparable \<or> before = None \<or> after = None then numeric_delta before after
         else withheld_delta ''not-comparable'' before after)"

definition compare_resources :: "pointer_lookup \<Rightarrow> json \<Rightarrow> json \<Rightarrow> bool \<Rightarrow> (string, resource_delta) btree" where
  "compare_resources ptr left right comparable =
     bt_of_list (map (\<lambda>field. (field, resource_difference ptr left right comparable field)) resource_fields)"

section \<open>The document\<close>

record loaded_report =
  lr_pillar :: "string option"
  lr_storage_summary :: "storage_summary option"
  lr_economy_summary :: "economy_summary option"
  lr_fidelity_summary :: "fidelity_summary option"
  lr_results :: "test_result list"
  lr_raw :: json

record 'm diff_document =
  dd_schema :: u32
  dd_left :: "'m index_entry"
  dd_right :: "'m index_entry"
  dd_comparison_scope :: string
  dd_rows :: "row_diff list"
  dd_resource_summary_deltas :: "(string, resource_delta) btree"
  dd_economy_summary_deltas :: "economy_diff option"
  dd_fidelity_summary_deltas :: "fidelity_diff option"
  dd_storage_summary_deltas :: "json option"

text \<open>The parser of a report returns its typed part or the text of its error.\<close>

definition load_supported_report :: "('m index_entry \<Rightarrow> ahrb_error + json) \<Rightarrow> (json \<Rightarrow> string + loaded_report)
    \<Rightarrow> 'm index_entry \<Rightarrow> ahrb_error + loaded_report" where
  "load_supported_report load parse e =
     (if ie_report_schema e \<notin> {2, 3, 4}
      then Inl (Protocol (''unsupported report schema '' @ show_u32 (ie_report_schema e) @ '' for run '' @ ie_run_key e))
      else and_then (load e) (\<lambda>v. case parse v of
             Inl m \<Rightarrow> Inl (Protocol (''could not deserialize indexed report '' @ ie_report_path e @ '': '' @ m))
           | Inr report \<Rightarrow> Inr (report\<lparr>lr_raw := v\<rparr>)))"

definition comparable_scope :: "'m index_entry \<Rightarrow> 'm index_entry \<Rightarrow> bool" where
  "comparable_scope left right \<longleftrightarrow>
     known_scope_value (ie_pillar left) \<and> ie_pillar left = ie_pillar right
     \<and> known_scope_value (ie_os left) \<and> known_scope_value (ie_topology left) \<and> known_scope_value (ie_profile left)
     \<and> known_scope_value (ie_os right) \<and> known_scope_value (ie_topology right) \<and> known_scope_value (ie_profile right)
     \<and> ie_os left = ie_os right \<and> ie_topology left = ie_topology right \<and> ie_profile left = ie_profile right"

definition storage_against_other :: "loaded_report \<Rightarrow> loaded_report \<Rightarrow> bool" where
  "storage_against_other a b \<longleftrightarrow> lr_storage_summary a \<noteq> None \<and> lr_storage_summary b = None
     \<and> list_ex (\<lambda>r. res_pillar r \<noteq> Storage) (lr_results b)"

definition crosses_pillars :: "loaded_report \<Rightarrow> loaded_report \<Rightarrow> bool" where
  "crosses_pillars left right \<longleftrightarrow>
     (case (lr_pillar left, lr_pillar right) of (Some a, Some b) \<Rightarrow> a \<noteq> b | _ \<Rightarrow> False)
     \<or> storage_against_other left right \<or> storage_against_other right left"

definition for_pillar :: "string \<Rightarrow> 'm index_entry \<Rightarrow> 'a option \<Rightarrow> 'a option" where
  "for_pillar p e s = (if ie_pillar e = p then s else None)"

definition document_scope :: "bool \<Rightarrow> (string, resource_delta) btree \<Rightarrow> economy_diff option \<Rightarrow> fidelity_diff option
    \<Rightarrow> json option \<Rightarrow> string" where
  "document_scope comparable resources economy fidelity storage =
     (case storage of
        Some s \<Rightarrow> (case as_str (json_member s ''comparison_scope'') of
                     Some status \<Rightarrow> (if status = ''comparable''
                                     then (if comparable then ''within-topology-only'' else ''not-comparable'')
                                     else status)
                   | None \<Rightarrow> ''unavailable'')
      | None \<Rightarrow>
          (if comparable \<and> list_all (\<lambda>(_, d). dl_delta d = None) resources \<and> economy = None \<and> fidelity = None
           then ''unavailable''
           else if comparable then ''within-topology-only'' else ''not-comparable''))"

definition build_document :: "pointer_lookup \<Rightarrow> (json \<Rightarrow> string) \<Rightarrow> (string \<Rightarrow> string) \<Rightarrow> 'm index_entry \<Rightarrow> 'm index_entry
    \<Rightarrow> loaded_report \<Rightarrow> loaded_report \<Rightarrow> ahrb_error + 'm diff_document \<times> bool" where
  "build_document ptr json_text dbg left right left_report right_report =
     (if crosses_pillars left_report right_report
      then Inl (Usage (''cannot diff reports from different pillars: '' @ ie_pillar left @ '' vs '' @ ie_pillar right))
      else and_then (compare_rows dbg (lr_results left_report) (lr_results right_report)) (\<lambda>(rows, row_regression).
        let either_storage = ie_pillar left = ''storage'' \<or> ie_pillar right = ''storage'';
            gating_regression = row_regression \<and> \<not> (ie_pillar left \<noteq> ie_pillar right \<and> either_storage);
            comparable = comparable_scope left right;
            resources = compare_resources ptr (lr_raw left_report) (lr_raw right_report) comparable;
            economy = compare_economy (for_pillar ''economy'' left (lr_economy_summary left_report))
                        (for_pillar ''economy'' right (lr_economy_summary right_report));
            fidelity = compare_fidelity (for_pillar ''fidelity'' left (lr_fidelity_summary left_report))
                         (for_pillar ''fidelity'' right (lr_fidelity_summary right_report))
        in and_then (compare_storage json_text (for_pillar ''storage'' left (lr_storage_summary left_report))
                       (for_pillar ''storage'' right (lr_storage_summary right_report))) (\<lambda>compared.
             let storage = (case compared of Some v \<Rightarrow> Some v
                            | None \<Rightarrow> (if either_storage
                                then Some (json_object [(''comparison_scope'', JString ''unavailable''), (''values'', JObject [])])
                                else None))
             in Inr (\<lparr>dd_schema = 1, dd_left = left, dd_right = right,
                      dd_comparison_scope = document_scope comparable resources economy fidelity storage,
                      dd_rows = rows, dd_resource_summary_deltas = resources, dd_economy_summary_deltas = economy,
                      dd_fidelity_summary_deltas = fidelity, dd_storage_summary_deltas = storage\<rparr>,
                     gating_regression))))"

text \<open>The command: the document to print and the exit status.\<close>

definition diff_command :: "(string \<Rightarrow> bool) \<Rightarrow> (string \<Rightarrow> ahrb_error + 'm index_entry) \<Rightarrow> ('m index_entry \<Rightarrow> ahrb_error + json)
    \<Rightarrow> (json \<Rightarrow> string + loaded_report) \<Rightarrow> pointer_lookup \<Rightarrow> (json \<Rightarrow> string) \<Rightarrow> (string \<Rightarrow> string)
    \<Rightarrow> 'm index_entry list \<Rightarrow> string list \<Rightarrow> ahrb_error + 'm diff_document \<times> i32" where
  "diff_command exists path_entry load parse ptr json_text dbg es args =
     and_then (diff_operands exists path_entry dbg es args) (\<lambda>(left, right).
     and_then (load_supported_report load parse left) (\<lambda>left_report.
     and_then (load_supported_report load parse right) (\<lambda>right_report.
     and_then (build_document ptr json_text dbg left right left_report right_report) (\<lambda>(document, regression).
       Inr (document, if regression then 1 else 0)))))"

end
