(* ===== verification/Diff_Properties.thy ===== *)
theory Diff_Properties
  imports Diff_Document "HOL-Library.Multiset"
begin

text \<open>What a comparison of two reports promises.\<close>

section \<open>The row maps\<close>

lemma insert_results_Inr:
  "insert_results dbg m rs = Inr m' \<longleftrightarrow>
     distinct (map result_key rs) \<and> (\<forall>r \<in> set rs. bt_get m (result_key r) = None)
     \<and> m' = foldl (\<lambda>m (k, v). bt_insert k v m) m (map (\<lambda>r. (result_key r, r)) rs)"
proof (induction rs arbitrary: m)
  case (Cons r rs)
  show ?case
  proof (cases "bt_get m (result_key r) = None")
    case True
    have "(\<forall>x \<in> set rs. bt_get (bt_insert (result_key r) r m) (result_key x) = None)
        \<longleftrightarrow> result_key r \<notin> result_key ` set rs \<and> (\<forall>x \<in> set rs. bt_get m (result_key x) = None)"
    proof -
      have "bt_get (bt_insert (result_key r) r m) (result_key x) = None
          \<longleftrightarrow> result_key r \<noteq> result_key x \<and> bt_get m (result_key x) = None" for x
        by (auto simp: bt_get_insert)
      then show ?thesis unfolding image_iff by metis
    qed
    with True show ?thesis by (simp add: Cons.IH conj_ac)
  qed simp
qed auto

lemma results_by_id_Inr:
  "results_by_id dbg rs = Inr m \<longleftrightarrow>
     distinct (map result_key rs) \<and> m = bt_of_list (map (\<lambda>r. (result_key r, r)) rs)"
  by (simp add: results_by_id_def insert_results_Inr bt_of_list_def)

definition result_at :: "test_result list \<Rightarrow> row_key \<Rightarrow> test_result option" where
  "result_at rs key = find (\<lambda>r. result_key r = key) rs"

lemma map_of_results: "map_of (map (\<lambda>r. (result_key r, r)) rs) key = result_at rs key"
  by (induction rs) (auto simp: result_at_def)

lemma results_by_id_get:
  assumes "results_by_id dbg rs = Inr m"
  shows "bt_get m key = result_at rs key" "set (map fst m) = result_key ` set rs"
proof -
  let ?es = "map (\<lambda>r. (result_key r, r)) rs"
  have d: "distinct (map fst ?es)" using assms by (simp add: results_by_id_Inr comp_def)
  then have "distinct (map fst (rev ?es))" by (simp only: rev_map [symmetric] distinct_rev)
  with d have "map_of (rev ?es) = map_of ?es" by (simp only: map_of_inject_set set_rev)
  then have g: "bt_get m k = map_of ?es k" for k
    using assms by (simp add: results_by_id_Inr bt_get_of_list)
  then show "bt_get m key = result_at rs key" by (simp only: map_of_results)
  show "set (map fst m) = result_key ` set rs"
    unfolding keys_bt_get g by (force simp: map_of_eq_None_iff image_image)
qed

lemma result_at_Some: "result_at rs key = Some r \<Longrightarrow> r \<in> set rs \<and> result_key r = key"
  by (auto simp: result_at_def find_Some_iff)

lemma result_at_member: "distinct (map result_key rs) \<Longrightarrow> r \<in> set rs \<Longrightarrow> result_at rs (result_key r) = Some r"
  by (induction rs) (auto simp: result_at_def)

lemma result_at_None: "result_at rs key = None \<longleftrightarrow> key \<notin> result_key ` set rs"
  by (auto simp: result_at_def find_None_iff)

section \<open>The change of one row\<close>

text \<open>
  Reference: a pass of the left report is lost.  A storage row loses it only by failing, and only
  in the two rows that gate; another row by vanishing or by any other outcome, unless the row is
  informational or its facet is declared for the first time.
\<close>

definition pass_lost :: "test_result \<Rightarrow> test_result option \<Rightarrow> bool" where
  "pass_lost b after \<longleftrightarrow> res_outcome b = Pass \<and>
     (let q = requirement_for (case after of Some a \<Rightarrow> a | None \<Rightarrow> b) in
      if res_pillar b = Storage
      then res_id b \<in> {''footprint-curve'', ''delete-uninstall-residue''}
        \<and> (case after of None \<Rightarrow> False | Some a \<Rightarrow> is_fail (res_outcome a))
      else q \<noteq> Informational
        \<and> (case after of None \<Rightarrow> True
           | Some a \<Rightarrow> res_outcome a \<noteq> Pass
               \<and> \<not> (is_facet q \<and> optional_capability_declared b = Some False \<and> optional_capability_declared a = Some True)))"

lemma outcome_label_pass [simp]: "outcome_label out = ''PASS'' \<longleftrightarrow> out = Pass"
  by (cases out) auto

lemma general_change_regression:
  "snd (general_change b a) \<longleftrightarrow> b = ''PASS''"
  by (simp add: general_change_def)

lemma informational_never: "\<not> snd (informational_change b a)"
  by (simp add: informational_change_def)

lemma row_change_regression:
  "snd (row_change q (Some b) (Some a)) \<longleftrightarrow>
     res_outcome b = Pass \<and> res_outcome a \<noteq> Pass \<and> q \<noteq> Informational
     \<and> \<not> (is_facet q \<and> optional_capability_declared b = Some False \<and> optional_capability_declared a = Some True)"
proof (cases q)
  case Core
  then show ?thesis
    by (cases "res_outcome b"; cases "res_outcome a") (auto simp: general_change_def)
next
  case Informational
  then show ?thesis by (simp add: informational_never Let_def)
next
  case (OptionalFacet c)
  then show ?thesis
    by (cases "res_outcome b"; cases "res_outcome a")
       (auto simp: general_change_def declaration_change_def facet_class_change_def Let_def)
qed

definition key_regression :: "row_key \<Rightarrow> test_result option \<Rightarrow> test_result option \<Rightarrow> bool" where
  "key_regression key before after \<longleftrightarrow> (case current_result before after of None \<Rightarrow> False
     | Some current \<Rightarrow> snd (if res_pillar current = Storage then storage_row_change (snd key) before after
                           else row_change (requirement_for current) before after))"

lemma key_regression_iff:
  assumes "\<And>r. before = Some r \<Longrightarrow> result_key r = key" "\<And>r. after = Some r \<Longrightarrow> result_key r = key"
  shows "key_regression key before after \<longleftrightarrow> (case before of None \<Rightarrow> False | Some b \<Rightarrow> pass_lost b after)"
proof (cases before)
  case None
  then show ?thesis
    by (cases after) (simp_all add: key_regression_def current_result_def storage_row_change_def)
next
  case (Some b)
  have b: "res_pillar b = fst key" "res_id b = snd key" using assms(1) [OF Some] by (auto simp: result_key_def)
  show ?thesis
  proof (cases after)
    case None
    then show ?thesis using Some b
      by (auto simp: key_regression_def current_result_def storage_row_change_def pass_lost_def)
  next
    case (Some a)
    have a: "res_pillar a = fst key" using assms(2) [OF Some] by (auto simp: result_key_def)
    show ?thesis
      using \<open>before = Some b\<close> Some a b
      by (auto simp: key_regression_def current_result_def storage_row_change_def pass_lost_def row_change_regression
               simp del: row_change.simps)
  qed
qed

section \<open>The joined rows\<close>

lemma compare_key_Inr:
  assumes "bt_get left key \<noteq> None \<or> bt_get right key \<noteq> None"
  shows "\<exists>d. compare_key dbg left right key = Inr (d, key_regression key (bt_get left key) (bt_get right key))
           \<and> (rd_pillar d, rd_id d) = key"
proof -
  have "current_result (bt_get left key) (bt_get right key) \<noteq> None"
    using assms by (auto simp: current_result_def split: option.split)
  then obtain current where c: "current_result (bt_get left key) (bt_get right key) = Some current" by blast
  show ?thesis
    by (simp add: compare_key_def c key_regression_def Let_def split_def)
qed

lemma collect_ok_map:
  assumes "\<And>x. x \<in> set xs \<Longrightarrow> f x = Inr (g x)"
  shows "collect_ok f xs = Inr (map g xs)"
  using assms by (induction xs) auto

text \<open>The cells of a comparison, one for each key of either report.\<close>

definition joint_keys :: "(row_key, test_result) btree \<Rightarrow> (row_key, test_result) btree \<Rightarrow> row_key list" where
  "joint_keys left right = bset_of_list (map fst left @ map fst right)"

lemma compare_rows_cells:
  assumes "results_by_id dbg ls = Inr left" "results_by_id dbg rs = Inr right"
  shows "\<exists>cell. compare_rows dbg ls rs =
           Inr (sort_key row_order (map cell (joint_keys left right)),
                list_ex (\<lambda>key. key_regression key (result_at ls key) (result_at rs key)) (joint_keys left right))
         \<and> (\<forall>key \<in> set (joint_keys left right). (rd_pillar (cell key), rd_id (cell key)) = key)"
proof -
  let ?keys = "joint_keys left right"
  let ?reg = "\<lambda>key. key_regression key (result_at ls key) (result_at rs key)"
  have "\<forall>key \<in> set ?keys. \<exists>d. compare_key dbg left right key = Inr (d, ?reg key) \<and> (rd_pillar d, rd_id d) = key"
  proof
    fix key assume "key \<in> set ?keys"
    then have "bt_get left key \<noteq> None \<or> bt_get right key \<noteq> None"
      by (auto simp only: joint_keys_def set_bset_of_list set_append Un_iff keys_bt_get mem_Collect_eq)
    from compare_key_Inr [OF this, of dbg]
    show "\<exists>d. compare_key dbg left right key = Inr (d, ?reg key) \<and> (rd_pillar d, rd_id d) = key"
      by (simp only: results_by_id_get(1) [OF assms(1)] results_by_id_get(1) [OF assms(2)])
  qed
  from bchoice [OF this] obtain cell where
    cell: "\<And>key. key \<in> set ?keys \<Longrightarrow> compare_key dbg left right key = Inr (cell key, ?reg key)"
          "\<And>key. key \<in> set ?keys \<Longrightarrow> (rd_pillar (cell key), rd_id (cell key)) = key" by blast
  have "collect_ok (compare_key dbg left right) ?keys = Inr (map (\<lambda>key. (cell key, ?reg key)) ?keys)"
    by (rule collect_ok_map) (rule cell(1))
  then have "compare_rows dbg ls rs = Inr (sort_key row_order (map cell ?keys), list_ex ?reg ?keys)"
    by (simp add: compare_rows_def assms comp_def list_ex_iff flip: joint_keys_def)
  with cell(2) show ?thesis by (intro exI [of _ cell] conjI ballI) auto
qed

lemma compare_rows_Inr_keys:
  assumes "compare_rows dbg ls rs = Inr (rows, g)"
  obtains left right where "results_by_id dbg ls = Inr left" "results_by_id dbg rs = Inr right"
  using assms by (auto simp: compare_rows_def and_then_Inr_iff)

lemma set_joint_keys:
  assumes "results_by_id dbg ls = Inr left" "results_by_id dbg rs = Inr right"
  shows "set (joint_keys left right) = result_key ` set ls \<union> result_key ` set rs"
  using results_by_id_get(2) [OF assms(1)] results_by_id_get(2) [OF assms(2)]
  by (simp add: joint_keys_def set_bset_of_list)

text \<open>C13: The gate of a comparison.  When the rows of two reports are compared, the command signals a
  gating regression exactly when a pass of the left report is lost on the right.\<close>

theorem gating_regression_exact:
  assumes "compare_rows dbg ls rs = Inr (rows, regression)"
  shows "regression \<longleftrightarrow> (\<exists>b \<in> set ls. pass_lost b (result_at rs (result_key b)))"
proof -
  obtain left right where m: "results_by_id dbg ls = Inr left" "results_by_id dbg rs = Inr right"
    using compare_rows_Inr_keys [OF assms] by blast
  from compare_rows_cells [OF m] assms
  have c: "regression \<longleftrightarrow> list_ex (\<lambda>key. key_regression key (result_at ls key) (result_at rs key)) (joint_keys left right)"
    by auto
  have d: "distinct (map result_key ls)" using m(1) by (simp add: results_by_id_Inr)
  have "key_regression key (result_at ls key) (result_at rs key) \<longleftrightarrow>
      (case result_at ls key of None \<Rightarrow> False | Some b \<Rightarrow> pass_lost b (result_at rs key))" for key
    by (rule key_regression_iff) (auto dest: result_at_Some)
  then have "regression \<longleftrightarrow> (\<exists>key \<in> result_key ` set ls \<union> result_key ` set rs.
      case result_at ls key of None \<Rightarrow> False | Some b \<Rightarrow> pass_lost b (result_at rs key))"
    using set_joint_keys [OF m] by (simp add: c list_ex_iff)
  also have "\<dots> \<longleftrightarrow> (\<exists>b \<in> set ls. pass_lost b (result_at rs (result_key b)))"
  proof
    assume "\<exists>key \<in> result_key ` set ls \<union> result_key ` set rs.
      case result_at ls key of None \<Rightarrow> False | Some b \<Rightarrow> pass_lost b (result_at rs key)"
    then obtain key b where "result_at ls key = Some b" "pass_lost b (result_at rs key)"
      by (auto split: option.splits)
    with result_at_Some show "\<exists>b \<in> set ls. pass_lost b (result_at rs (result_key b))" by blast
  next
    assume "\<exists>b \<in> set ls. pass_lost b (result_at rs (result_key b))"
    then obtain b where b: "b \<in> set ls" "pass_lost b (result_at rs (result_key b))" by blast
    then show "\<exists>key \<in> result_key ` set ls \<union> result_key ` set rs.
      case result_at ls key of None \<Rightarrow> False | Some b \<Rightarrow> pass_lost b (result_at rs key)"
      by (intro bexI [of _ "result_key b"]) (simp_all add: result_at_member [OF d])
  qed
  finally show ?thesis .
qed

definition gate_witness_row :: "test_outcome \<Rightarrow> test_result" where
  "gate_witness_row out = \<lparr>res_row = 4, res_id = ''footprint-curve'', res_pillar = Storage, res_outcome = out, res_evidence = [],
     res_metadata = \<lparr>md_wall_duration_s = Fin 0, md_wall_duration_scope = '''', md_requirement = ''core'', md_capability = None,
       md_capability_declared = None, md_measurement_complete = True, md_score = None, md_reference_envelope_pass = None\<rparr>\<rparr>"

theorem gating_regression_exact_witness:
  "\<exists>rows. compare_rows id [gate_witness_row Pass] [gate_witness_row (Fail ''slope'')] = Inr (rows, True)
     \<and> pass_lost (gate_witness_row Pass) (Some (gate_witness_row (Fail ''slope'')))"
proof -
  let ?p = "gate_witness_row Pass" and ?f = "gate_witness_row (Fail ''slope'')"
  have at: "result_at [?f] (result_key ?p) = Some ?f"
    by (simp add: result_at_def result_key_def gate_witness_row_def)
  have "\<exists>rows. compare_rows id [?p] [?f] = Inr (rows, True)"
    by (simp add: compare_rows_def results_by_id_def result_key_def gate_witness_row_def bset_of_list_def bt_of_list_def
        compare_key_def current_result_def storage_row_change_def requirement_for_def Let_def)
  then obtain rows where c: "compare_rows id [?p] [?f] = Inr (rows, True)" by blast
  with gating_regression_exact [OF c] at show ?thesis by auto
qed

text \<open>Two reports can be joined exactly when neither names a row twice, and the joined rows hold
  every row of either report exactly once, in the order of row number and identifier.\<close>

theorem diff_rows_join_once:
  "case compare_rows dbg ls rs of
     Inl _ \<Rightarrow> \<not> (distinct (map result_key ls) \<and> distinct (map result_key rs))
   | Inr (rows, _) \<Rightarrow>
       distinct (map result_key ls) \<and> distinct (map result_key rs)
       \<and> distinct (map (\<lambda>d. (rd_pillar d, rd_id d)) rows)
       \<and> set (map (\<lambda>d. (rd_pillar d, rd_id d)) rows) = result_key ` set ls \<union> result_key ` set rs
       \<and> sorted (map row_order rows)"
proof (cases "distinct (map result_key ls) \<and> distinct (map result_key rs)")
  case False
  have "\<exists>e. compare_rows dbg ls rs = Inl e"
  proof (cases "compare_rows dbg ls rs")
    case (Inr out)
    obtain rows g where "out = (rows, g)" by (cases out)
    with Inr False show ?thesis
      using compare_rows_Inr_keys [of dbg ls rs rows g] by (auto simp: results_by_id_Inr)
  qed blast
  with False show ?thesis by auto
next
  case True
  then obtain left right where m: "results_by_id dbg ls = Inr left" "results_by_id dbg rs = Inr right"
    by (auto simp: results_by_id_Inr)
  let ?keys = "joint_keys left right"
  let ?key = "\<lambda>d. (rd_pillar d, rd_id d)"
  from compare_rows_cells [OF m] obtain cell g where
    cell: "compare_rows dbg ls rs = Inr (sort_key row_order (map cell ?keys), g)"
          "\<forall>key \<in> set ?keys. ?key (cell key) = key" by blast
  have keys: "map ?key (map cell ?keys) = ?keys" using cell(2) by (simp add: map_idI comp_def)
  let ?rows = "sort_key row_order (map cell ?keys)"
  have "mset (map ?key ?rows) = mset ?keys" by (metis keys mset_map mset_sort)
  then have "distinct (map ?key ?rows)" "set (map ?key ?rows) = set ?keys"
    using bset_of_list_sorted [of "map fst left @ map fst right", folded joint_keys_def]
    by (metis mset_eq_imp_distinct_iff strict_sorted_iff, metis mset_eq_setD)
  then show ?thesis
    using True by (simp add: cell(1) set_joint_keys [OF m] del: set_map)
qed

section \<open>Selection\<close>

text \<open>The place of an occurrence in the order of runs.\<close>

definition occurrence :: "(string \<Rightarrow> string) \<Rightarrow> 'm index_entry \<Rightarrow> u64 \<times> string" where
  "occurrence dbg e =
     (case utc_timestamp_seconds dbg (ie_completed_at e) of Inl _ \<Rightarrow> (0, ie_run_key e) | Inr t \<Rightarrow> (t, ie_run_key e))"

lemma occurrence_dated: "utc_timestamp_seconds dbg (ie_completed_at e) = Inr t \<Longrightarrow> occurrence dbg e = (t, ie_run_key e)"
  by (simp add: occurrence_def)

lemma newest_from_Inr:
  assumes "newest_from dbg latest es = Inr found"
    and "\<And>t l. latest = Some (t, l) \<Longrightarrow> occurrence dbg l = (t, ie_run_key l)"
  shows "case found of
      None \<Rightarrow> latest = None \<and> es = []
    | Some (t, l) \<Rightarrow> occurrence dbg l = (t, ie_run_key l) \<and> (l \<in> set es \<or> latest = Some (t, l))
        \<and> (\<forall>e \<in> set es. occurrence dbg e \<le> occurrence dbg l)
        \<and> (\<forall>t0 l0. latest = Some (t0, l0) \<longrightarrow> occurrence dbg l0 \<le> occurrence dbg l)"
  using assms
proof (induction dbg latest es rule: newest_from.induct)
  case (1 dbg latest)
  then show ?case by (auto split: option.split)
next
  case (2 dbg latest e es)
  from "2.prems"(1) obtain at_e where t: "utc_timestamp_seconds dbg (ie_completed_at e) = Inr at_e"
    by (auto simp: and_then_Inr_iff)
  note occ = occurrence_dated [OF t]
  define better where "better \<longleftrightarrow> (case latest of None \<Rightarrow> True
      | Some (latest_at, l) \<Rightarrow> (latest_at, ie_run_key l) < (at_e, ie_run_key e))"
  let ?next = "if better then Some (at_e, e) else latest"
  have step: "newest_from dbg ?next es = Inr found"
    using "2.prems"(1) by (simp add: t Let_def better_def)
  have IH: "case found of
      None \<Rightarrow> ?next = None \<and> es = []
    | Some (t, l) \<Rightarrow> occurrence dbg l = (t, ie_run_key l) \<and> (l \<in> set es \<or> ?next = Some (t, l))
        \<and> (\<forall>e \<in> set es. occurrence dbg e \<le> occurrence dbg l)
        \<and> (\<forall>t0 l0. ?next = Some (t0, l0) \<longrightarrow> occurrence dbg l0 \<le> occurrence dbg l)"
    using "2.IH" [OF t better_def step] "2.prems"(2) occ by (auto split: if_splits)
  show ?case
  proof (cases found)
    case None
    with IH have "?next = None" by simp
    then show ?thesis by (auto simp: better_def split: if_splits option.splits)
  next
    case (Some p)
    obtain t l where p: "p = (t, l)" by (cases p)
    note IH' = IH [unfolded Some p option.case prod.case]
    have le: "occurrence dbg e \<le> occurrence dbg l \<and> (\<forall>t0 l0. latest = Some (t0, l0) \<longrightarrow> occurrence dbg l0 \<le> occurrence dbg l)"
    proof (cases better)
      case True
      then have "occurrence dbg e \<le> occurrence dbg l" using IH' by auto
      moreover have "occurrence dbg l0 \<le> occurrence dbg e" if "latest = Some (t0, l0)" for t0 l0
        using True that "2.prems"(2) [OF that] by (auto simp: better_def occ)
      ultimately show ?thesis using order_trans by blast
    next
      case False
      then obtain t0 l0 where l0: "latest = Some (t0, l0)" "\<not> (t0, ie_run_key l0) < (at_e, ie_run_key e)"
        by (auto simp: better_def split: option.splits)
      have "occurrence dbg e \<le> occurrence dbg l0"
        using l0 "2.prems"(2) [OF l0(1)] by (simp only: occ not_less)
      moreover have "occurrence dbg l0 \<le> occurrence dbg l" using IH' l0 False by auto
      ultimately show ?thesis using l0(1) by auto
    qed
    with IH' show ?thesis by (auto simp: Some p split: if_splits)
  qed
qed

lemma newest_Inr:
  assumes "newest dbg es = Inr e"
  shows "e \<in> set es" "x \<in> set es \<Longrightarrow> occurrence dbg x \<le> occurrence dbg e"
proof -
  from assms obtain t where "newest_from dbg None es = Inr (Some (t, e))"
    by (auto simp: newest_def and_then_Inr_iff split: option.splits)
  from newest_from_Inr [OF this] show "e \<in> set es" "x \<in> set es \<Longrightarrow> occurrence dbg x \<le> occurrence dbg e"
    by auto
qed

text \<open>The scope in which an earlier run may stand beside a later one.\<close>

definition pairs_with :: "(string \<Rightarrow> string) \<Rightarrow> 'm index_entry \<Rightarrow> 'm index_entry \<Rightarrow> bool" where
  "pairs_with dbg right e \<longleftrightarrow>
     occurrence dbg e < occurrence dbg right \<and> ie_run_key e \<noteq> ie_run_key right
     \<and> (ie_harness e, ie_pillar e, ie_os e, ie_topology e, ie_profile e)
         = (ie_harness right, ie_pillar right, ie_os right, ie_topology right, ie_profile right)
     \<and> ie_report_schema e = ie_report_schema right
     \<and> (ie_pillar right \<noteq> ''storage'' \<or> same_scope (ie_storage_summary e) (ie_storage_summary right))"

lemma earlier_entries_Inr:
  assumes "earlier_entries dbg right right_at es = Inr earlier"
    and "utc_timestamp_seconds dbg (ie_completed_at right) = Inr right_at"
    and "\<And>e. e \<in> set es \<Longrightarrow> ie_harness e = ie_harness right"
  shows "set earlier = {e \<in> set es. pairs_with dbg right e}"
  using assms
proof (induction es arbitrary: earlier)
  case (Cons e es)
  from Cons.prems(1) obtain at_e rest where
    t: "utc_timestamp_seconds dbg (ie_completed_at e) = Inr at_e"
    and rest: "earlier_entries dbg right right_at es = Inr rest"
    and earlier: "earlier = (if earlier_compatible right right_at e at_e then e # rest else rest)"
    by (auto simp: and_then_Inr_iff)
  have "set rest = {x \<in> set es. pairs_with dbg right x}"
    using Cons.IH [OF rest Cons.prems(2)] Cons.prems(3) by simp
  moreover have "earlier_compatible right right_at e at_e \<longleftrightarrow> pairs_with dbg right e"
    using Cons.prems(3) [of e] occurrence_dated [OF t] occurrence_dated [OF Cons.prems(2)]
    by (auto simp: earlier_compatible_def pairs_with_def)
  ultimately show ?case by (auto simp: earlier)
qed simp

text \<open>C15: The pair \<open>diff --latest\<close> compares.  The right one is the newest indexed run of the harness, the
  left one pairs with it, and no run of the harness that pairs with it is newer than the left one.\<close>

theorem latest_pair_is_newest:
  assumes "resolve_latest_pair dbg es harness = Inr (left, right)"
  shows "left \<in> set es \<and> right \<in> set es \<and> ie_harness right = harness \<and> pairs_with dbg right left
    \<and> (\<forall>e \<in> set es. ie_harness e = harness \<longrightarrow> occurrence dbg e \<le> occurrence dbg right)
    \<and> (\<forall>e \<in> set es. pairs_with dbg right e \<longrightarrow> occurrence dbg e \<le> occurrence dbg left)"
proof -
  let ?matching = "filter (\<lambda>e. ie_harness e = harness) es"
  from assms obtain r right_at earlier where
    right: "newest dbg ?matching = Inr r"
    and at_r: "utc_timestamp_seconds dbg (ie_completed_at r) = Inr right_at"
    and e: "earlier_entries dbg r right_at ?matching = Inr earlier"
    and pair: "(case newest dbg earlier of
        Inl _ \<Rightarrow> Inl (Protocol (''fewer than two compatible indexed runs for harness '' @ dbg harness))
      | Inr left \<Rightarrow> Inr (left, r)) = Inr (left, right)"
    by (auto simp: resolve_latest_pair_def and_then_Inr_iff Let_def simp del: filter_filter split: if_splits)
  from pair have "newest dbg earlier = Inr left \<and> r = right"
    by (cases "newest dbg earlier") simp_all
  then have left: "newest dbg earlier = Inr left" and "r = right" by auto
  note right = right [unfolded \<open>r = right\<close>] and at_r = at_r [unfolded \<open>r = right\<close>] and e = e [unfolded \<open>r = right\<close>]
  have h: "ie_harness right = harness" using newest_Inr(1) [OF right] by simp
  have "set earlier = {x \<in> set ?matching. pairs_with dbg right x}"
    by (rule earlier_entries_Inr [OF e at_r]) (simp add: h)
  moreover have "pairs_with dbg right x \<Longrightarrow> ie_harness x = harness" for x
    by (simp add: pairs_with_def h)
  ultimately show ?thesis
    using newest_Inr [OF right] newest_Inr [OF left] h by auto
qed

definition pair_witness_entry :: "string \<Rightarrow> string \<Rightarrow> unit index_entry" where
  "pair_witness_entry key completed = \<lparr>ie_schema = 3, ie_pillar = ''matrix'', ie_storage_summary = None, ie_badge_label = None,
     ie_outcome_counts = \<lparr>oc_pass = 0, oc_fail = 0, oc_unsupported = 0, oc_error = 0\<rparr>, ie_run_key = key,
     ie_completed_at = completed, ie_harness = ''pi'', ie_harness_version = ''1'', ie_report_path = ''report.json'',
     ie_report_schema = 4, ie_spec_version = 4, ie_profile = ''cert'', ie_os = ''linux'', ie_topology = ''exec'',
     ie_resource_summary = (), ie_metrics = [], ie_manifest_sha256 = '''', ie_workflow_sha256 = '''', ie_ahrb_revision = ''''\<rparr>"

theorem latest_pair_is_newest_witness:
  "let l = pair_witness_entry ''a'' ''2000-02-29T00:00:00Z''; r = pair_witness_entry ''b'' ''2000-03-01T00:00:00Z'' in
     resolve_latest_pair id [r, l] ''pi'' = Inr (l, r) \<and> pairs_with id r l \<and> occurrence id l \<le> occurrence id r"
proof -
  define l where "l = pair_witness_entry ''a'' ''2000-02-29T00:00:00Z''"
  define r where "r = pair_witness_entry ''b'' ''2000-03-01T00:00:00Z''"
  have t: "utc_timestamp_seconds id ''2000-02-29T00:00:00Z'' = Inr 951782400"
    "utc_timestamp_seconds id ''2000-03-01T00:00:00Z'' = Inr 951868800" by code_simp+
  have f: "ie_completed_at l = ''2000-02-29T00:00:00Z''" "ie_completed_at r = ''2000-03-01T00:00:00Z''"
    "ie_harness l = ''pi''" "ie_harness r = ''pi''" "ie_run_key l = ''a''" "ie_run_key r = ''b''" "ie_pillar l = ''matrix''"
    "ie_pillar r = ''matrix''" "ie_os l = ie_os r" "ie_topology l = ie_topology r" "ie_profile l = ie_profile r"
    "ie_report_schema l = ie_report_schema r"
    by (simp_all add: l_def r_def pair_witness_entry_def)
  have pair: "resolve_latest_pair id [r, l] ''pi'' = Inr (l, r)"
    by (simp add: resolve_latest_pair_def newest_def f t earlier_compatible_def)
  from latest_pair_is_newest [OF pair] have "pairs_with id r l \<and> occurrence id l \<le> occurrence id r"
    by (simp add: f)
  with pair show ?thesis by (simp add: Let_def l_def r_def)
qed

section \<open>The document\<close>

lemma withheld_delta_none [simp]: "dl_delta (withheld_delta reason before after) = None"
  by (simp add: withheld_delta_def)

lemma numeric_delta_none [simp]:
  "dl_delta (numeric_delta None after) = None" "dl_delta (numeric_delta before None) = None"
  by (simp_all add: numeric_delta_def split: option.split)

lemma list_all_bt_of_list: "list_all (\<lambda>(k, v). P k v) xs \<Longrightarrow> list_all (\<lambda>(k, v). P k v) (bt_of_list xs)"
proof -
  assume xs: "list_all (\<lambda>(k, v). P k v) xs"
  have "list_all (\<lambda>(k, v). P k v) m \<Longrightarrow> list_all (\<lambda>(k, v). P k v) xs \<Longrightarrow>
      list_all (\<lambda>(k, v). P k v) (foldl (\<lambda>m (k, v). bt_insert k v m) m xs)" for m :: "('a, 'b) btree"
  proof (induction xs arbitrary: m)
    case (Cons x xs)
    obtain k v where x: "x = (k, v)" by (cases x)
    have "list_all (\<lambda>(k, v). P k v) (bt_insert k v m)"
      using Cons.prems set_bt_insert [of k v m] by (auto simp: x list_all_iff)
    with Cons show ?case by (simp add: x)
  qed simp
  from this [of "[]"] xs show ?thesis by (simp add: bt_of_list_def)
qed

lemma bt_of_list_entries: "set (bt_of_list xs) \<subseteq> set xs"
  using list_all_bt_of_list [of "\<lambda>k v. (k, v) \<in> set xs" xs] by (auto simp: list_all_iff)

lemma resource_difference_scope:
  "dl_delta (resource_difference ptr l r comparable field) \<noteq> None \<Longrightarrow> comparable"
  by (auto simp: resource_difference_def Let_def split: if_splits)

lemma economy_delta_scope: "dl_delta (economy_delta l r field) \<noteq> None \<Longrightarrow> same_tokenizer l r"
  by (auto simp: economy_delta_def Let_def split: if_splits)

lemma fidelity_delta_scope: "dl_delta (fidelity_delta l r field) \<noteq> None \<Longrightarrow> same_task_profile l r"
  by (auto simp: fidelity_delta_def Let_def split: if_splits)

text \<open>Every difference a summary reports is of comparable summaries.\<close>

lemma resource_entries_scope:
  "(k, x) \<in> set (compare_resources ptr l r comparable) \<Longrightarrow> dl_delta x \<noteq> None \<Longrightarrow> comparable"
  using bt_of_list_entries [of "map (\<lambda>field. (field, resource_difference ptr l r comparable field)) resource_fields"]
    resource_difference_scope
  by (fastforce simp: compare_resources_def)

lemma economy_entries_scope:
  "compare_economy l r = Some ed \<Longrightarrow> (k, x) \<in> set (ed_values ed) \<Longrightarrow> dl_delta x \<noteq> None \<Longrightarrow> same_tokenizer l r"
  using bt_of_list_entries [of "map (\<lambda>field. (field, economy_delta l r field)) economy_fields"] economy_delta_scope
  by (fastforce simp: compare_economy_def Let_def split: if_splits)

lemma fidelity_entries_scope:
  "compare_fidelity l r = Some fd \<Longrightarrow> (k, x) \<in> set (fd_values fd) \<Longrightarrow> dl_delta x \<noteq> None \<Longrightarrow> same_task_profile l r"
  using bt_of_list_entries [of "map (\<lambda>field. (field, fidelity_delta l r field)) fidelity_fields"] fidelity_delta_scope
  by (fastforce simp: compare_fidelity_def Let_def split: if_splits)

definition scope_document :: "json \<Rightarrow> json \<Rightarrow> json" where
  "scope_document status vals = json_object [(''comparison_scope'', status), (''values'', vals)]"

lemma scope_document_members: "scope_document status vals = JObject [(''comparison_scope'', status), (''values'', vals)]"
  by (simp add: scope_document_def json_object_def bt_of_list_def)

definition document_storage :: "bool \<Rightarrow> json option \<Rightarrow> json option" where
  "document_storage either_storage compared =
     (case compared of Some v \<Rightarrow> Some v
      | None \<Rightarrow> (if either_storage then Some (scope_document (JString ''unavailable'') (JObject [])) else None))"

lemma compare_storage_Some:
  "compare_storage json_text l r = Inr (Some v) \<Longrightarrow> \<exists>vals. v = scope_document (JString (storage_status l r)) (json_object vals)
     \<and> collect_ok (compare_member json_text (json_option storage_summary_json l) (json_option storage_summary_json r) (same_scope l r))
         (joint_names (json_option storage_summary_json l) (json_option storage_summary_json r)) = Inr vals"
  by (auto simp: compare_storage_def Let_def scope_document_def and_then_Inr_iff split: if_splits)

lemma document_scope_within:
  assumes "document_scope comparable resources economy fidelity storage = ''within-topology-only''"
    and "storage = None \<or> (\<exists>l r vals. storage = Some (scope_document (JString (storage_status l r)) vals))
           \<or> (\<exists>vals. storage = Some (scope_document (JString ''unavailable'') vals))"
  shows "comparable"
  using assms
  by (auto simp: document_scope_def scope_document_members json_member_def storage_status_def split: if_splits)

lemma build_document_parts:
  assumes "build_document ptr json_text dbg left right left_report right_report = Inr (d, regression)"
  obtains compared where
    "compare_storage json_text (for_pillar ''storage'' left (lr_storage_summary left_report))
       (for_pillar ''storage'' right (lr_storage_summary right_report)) = Inr compared"
    "dd_resource_summary_deltas d =
       compare_resources ptr (lr_raw left_report) (lr_raw right_report) (comparable_scope left right)"
    "dd_economy_summary_deltas d =
       compare_economy (for_pillar ''economy'' left (lr_economy_summary left_report))
         (for_pillar ''economy'' right (lr_economy_summary right_report))"
    "dd_fidelity_summary_deltas d =
       compare_fidelity (for_pillar ''fidelity'' left (lr_fidelity_summary left_report))
         (for_pillar ''fidelity'' right (lr_fidelity_summary right_report))"
    "dd_storage_summary_deltas d = document_storage (ie_pillar left = ''storage'' \<or> ie_pillar right = ''storage'') compared"
    "dd_comparison_scope d = document_scope (comparable_scope left right) (dd_resource_summary_deltas d)
       (dd_economy_summary_deltas d) (dd_fidelity_summary_deltas d) (dd_storage_summary_deltas d)"
proof -
  have "\<not> crosses_pillars left_report right_report" using assms by (auto simp: build_document_def)
  with assms show ?thesis
    using that unfolding build_document_def Let_def document_storage_def scope_document_def
    by (auto simp: and_then_Inr_iff)
qed

lemma same_tokenizer_for_pillar:
  "same_tokenizer (for_pillar p l a) (for_pillar p r b) \<Longrightarrow> ie_pillar l = p \<and> ie_pillar r = p \<and> same_tokenizer a b"
  by (auto simp: same_tokenizer_def for_pillar_def split: if_splits option.splits)

lemma same_task_profile_for_pillar:
  "same_task_profile (for_pillar p l a) (for_pillar p r b) \<Longrightarrow> ie_pillar l = p \<and> ie_pillar r = p \<and> same_task_profile a b"
  by (auto simp: same_task_profile_def for_pillar_def split: if_splits option.splits)

text \<open>Two entries of one scope: the same pillar, operating system, topology and profile, all of them known.\<close>

definition one_run_scope :: "'m index_entry \<Rightarrow> 'm index_entry \<Rightarrow> bool" where
  "one_run_scope l r \<longleftrightarrow> ie_pillar l = ie_pillar r \<and> ie_os l = ie_os r \<and> ie_topology l = ie_topology r \<and> ie_profile l = ie_profile r
     \<and> {ie_pillar l, ie_os l, ie_topology l, ie_profile l} \<inter> {[], ''unknown'', ''unavailable''} = {}"

lemma comparable_scope_one: "comparable_scope l r \<Longrightarrow> one_run_scope l r"
  by (auto simp: comparable_scope_def one_run_scope_def known_scope_value_def)

lemma resource_difference_value:
  assumes "dl_delta (resource_difference ptr l r comparable field) = Some z"
  shows "\<exists>before after. dl_before (resource_difference ptr l r comparable field) = Some before
    \<and> dl_after (resource_difference ptr l r comparable field) = Some after \<and> z = f_sub after before"
  using assms by (auto simp: resource_difference_def Let_def numeric_delta_def withheld_delta_def split: if_splits option.splits)

lemma resource_entry:
  "(k, x) \<in> set (compare_resources ptr l r comparable) \<Longrightarrow> x = resource_difference ptr l r comparable k"
  using bt_of_list_entries [of "map (\<lambda>field. (field, resource_difference ptr l r comparable field)) resource_fields"]
  by (auto simp: compare_resources_def)

lemma bt_get_resources:
  "field \<in> set resource_fields \<Longrightarrow> bt_get (compare_resources ptr l r comparable) field = Some (resource_difference ptr l r comparable field)"
  by (simp add: compare_resources_def bt_get_of_list rev_map map_of_map_restrict)

lemma same_tokenizer_read: "same_tokenizer l r \<Longrightarrow> \<exists>a b. l = Some a \<and> r = Some b \<and> es_reference_tokenizer a = es_reference_tokenizer b
    \<and> f_eq (es_reference_tariff_usd_per_million_tokens a) (es_reference_tariff_usd_per_million_tokens b)"
  by (auto simp: same_tokenizer_def split: option.splits)

lemma same_task_profile_read: "same_task_profile l r \<Longrightarrow> \<exists>a b. l = Some a \<and> r = Some b \<and> fs_task a = fs_task b \<and> fs_profile a = fs_profile b"
  by (auto simp: same_task_profile_def split: option.splits)

text \<open>C14: No difference without a common scope.  A document that claims a common scope was built from two
  entries with the same known pillar, system, topology and profile; a resource metric has a difference only
  in that scope, and it is the value after less the value before; an economy value has one only between two
  economy runs with one tokenizer and tariff, a fidelity value only between two fidelity runs of one task and
  profile.\<close>

theorem differences_need_one_scope:
  assumes "build_document ptr json_text dbg left right left_report right_report = Inr (d, regression)"
  shows "(dd_comparison_scope d = ''within-topology-only'' \<longrightarrow> one_run_scope left right)
    \<and> (\<forall>(field, x) \<in> set (dd_resource_summary_deltas d). \<forall>z. dl_delta x = Some z \<longrightarrow> one_run_scope left right
         \<and> (\<exists>before after. dl_before x = Some before \<and> dl_after x = Some after \<and> z = f_sub after before))
    \<and> (\<forall>ed field x. dd_economy_summary_deltas d = Some ed \<and> (field, x) \<in> set (ed_values ed) \<and> dl_delta x \<noteq> None
         \<longrightarrow> ie_pillar left = ''economy'' \<and> ie_pillar right = ''economy''
           \<and> (\<exists>a b. lr_economy_summary left_report = Some a \<and> lr_economy_summary right_report = Some b
                \<and> es_reference_tokenizer a = es_reference_tokenizer b
                \<and> f_eq (es_reference_tariff_usd_per_million_tokens a) (es_reference_tariff_usd_per_million_tokens b)))
    \<and> (\<forall>fd field x. dd_fidelity_summary_deltas d = Some fd \<and> (field, x) \<in> set (fd_values fd) \<and> dl_delta x \<noteq> None
         \<longrightarrow> ie_pillar left = ''fidelity'' \<and> ie_pillar right = ''fidelity''
           \<and> (\<exists>a b. lr_fidelity_summary left_report = Some a \<and> lr_fidelity_summary right_report = Some b
                \<and> fs_task a = fs_task b \<and> fs_profile a = fs_profile b))"
proof -
  obtain compared where c: "compare_storage json_text (for_pillar ''storage'' left (lr_storage_summary left_report))
       (for_pillar ''storage'' right (lr_storage_summary right_report)) = Inr compared"
    and r: "dd_resource_summary_deltas d =
       compare_resources ptr (lr_raw left_report) (lr_raw right_report) (comparable_scope left right)"
    and e: "dd_economy_summary_deltas d =
       compare_economy (for_pillar ''economy'' left (lr_economy_summary left_report))
         (for_pillar ''economy'' right (lr_economy_summary right_report))"
    and f: "dd_fidelity_summary_deltas d =
       compare_fidelity (for_pillar ''fidelity'' left (lr_fidelity_summary left_report))
         (for_pillar ''fidelity'' right (lr_fidelity_summary right_report))"
    and s: "dd_storage_summary_deltas d = document_storage (ie_pillar left = ''storage'' \<or> ie_pillar right = ''storage'') compared"
    and scope: "dd_comparison_scope d = document_scope (comparable_scope left right) (dd_resource_summary_deltas d)
       (dd_economy_summary_deltas d) (dd_fidelity_summary_deltas d) (dd_storage_summary_deltas d)"
    by (rule build_document_parts [OF assms])
  have "dd_storage_summary_deltas d = None
      \<or> (\<exists>l r vals. dd_storage_summary_deltas d = Some (scope_document (JString (storage_status l r)) vals))
      \<or> (\<exists>vals. dd_storage_summary_deltas d = Some (scope_document (JString ''unavailable'') vals))"
  proof (cases compared)
    case (Some v)
    with c compare_storage_Some show ?thesis unfolding s document_storage_def by fastforce
  qed (auto simp: s document_storage_def)
  from document_scope_within [OF _ this]
  have "dd_comparison_scope d = ''within-topology-only'' \<longrightarrow> one_run_scope left right"
    unfolding scope using comparable_scope_one by blast
  moreover have "\<forall>(field, x) \<in> set (dd_resource_summary_deltas d). \<forall>z. dl_delta x = Some z \<longrightarrow> one_run_scope left right
         \<and> (\<exists>before after. dl_before x = Some before \<and> dl_after x = Some after \<and> z = f_sub after before)"
  proof (intro ballI, clarify)
    fix field x z assume x: "(field, x) \<in> set (dd_resource_summary_deltas d)" and z: "dl_delta x = Some z"
    then have "x = resource_difference ptr (lr_raw left_report) (lr_raw right_report) (comparable_scope left right) field"
      unfolding r using resource_entry by blast
    moreover have "one_run_scope left right"
      using resource_entries_scope [OF x [unfolded r]] z comparable_scope_one by blast
    ultimately show "one_run_scope left right
         \<and> (\<exists>before after. dl_before x = Some before \<and> dl_after x = Some after \<and> z = f_sub after before)"
      using resource_difference_value z by metis
  qed
  ultimately show ?thesis
    using economy_entries_scope [OF e [symmetric, THEN trans], THEN same_tokenizer_for_pillar]
      fidelity_entries_scope [OF f [symmetric, THEN trans], THEN same_task_profile_for_pillar]
      same_tokenizer_read same_task_profile_read
    by blast
qed

text \<open>The witness: two reports whose idle memory is 20 and 30.  Between two runs of one scope the document has the
  difference 10; when the second run is of another system it has both values and no difference.\<close>

definition scope_witness_report :: "rat \<Rightarrow> loaded_report" where
  "scope_witness_report rss = \<lparr>lr_pillar = None, lr_storage_summary = None, lr_economy_summary = None, lr_fidelity_summary = None,
     lr_results = [], lr_raw = JObject [(''resource_summary'', JObject [(''idle_rss_mib'', JNumber (JFloat (Fin rss)))])]\<rparr>"

definition scope_witness_document :: "string \<Rightarrow> ahrb_error + unit diff_document \<times> bool" where
  "scope_witness_document os = build_document (\<lambda>_ _. None) (\<lambda>_. []) id (pair_witness_entry ''a'' ''2000-02-29T00:00:00Z'')
     ((pair_witness_entry ''b'' ''2000-03-01T00:00:00Z'')\<lparr>ie_os := os\<rparr>) (scope_witness_report 20) (scope_witness_report 30)"

lemma scope_witness_values: "numeric_field (\<lambda>_ _. None) (lr_raw (scope_witness_report rss)) ''idle_rss_mib'' = Some (Fin rss)"
  by (simp add: scope_witness_report_def numeric_field_def resource_field_id_def)

lemma scope_witness_built: "\<exists>d. scope_witness_document os = Inr (d, False)
    \<and> bt_get (dd_resource_summary_deltas d) ''idle_rss_mib''
        = Some (if os = ''linux'' then numeric_delta (Some (Fin 20)) (Some (Fin 30))
                else withheld_delta ''not-comparable'' (Some (Fin 20)) (Some (Fin 30)))"
proof -
  define l where "l = pair_witness_entry ''a'' ''2000-02-29T00:00:00Z''"
  define r where "r = (pair_witness_entry ''b'' ''2000-03-01T00:00:00Z'')\<lparr>ie_os := os\<rparr>"
  have os: "comparable_scope l r \<longleftrightarrow> os = ''linux''" "ie_pillar l = ''matrix''" "ie_pillar r = ''matrix''"
    by (auto simp: l_def r_def comparable_scope_def pair_witness_entry_def known_scope_value_def)
  have plain: "lr_pillar (scope_witness_report x) = None" "lr_storage_summary (scope_witness_report x) = None"
    "lr_economy_summary (scope_witness_report x) = None" "lr_fidelity_summary (scope_witness_report x) = None"
    "lr_results (scope_witness_report x) = []" for x
    by (simp_all add: scope_witness_report_def)
  have rows: "compare_rows id [] [] = Inr ([], False)"
    by (simp add: compare_rows_def results_by_id_def bset_of_list_def bt_of_list_def)
  have field: "''idle_rss_mib'' \<in> set resource_fields" by (simp add: resource_fields_def)
  have "\<exists>d. scope_witness_document os = Inr (d, False)
      \<and> dd_resource_summary_deltas d = compare_resources (\<lambda>_ _. None) (lr_raw (scope_witness_report 20)) (lr_raw (scope_witness_report 30)) (os = ''linux'')"
    unfolding scope_witness_document_def l_def [symmetric] r_def [symmetric]
    by (simp add: build_document_def crosses_pillars_def storage_against_other_def plain rows
        for_pillar_def compare_storage_def os Let_def)
  then show ?thesis
    by (auto simp: bt_get_resources [OF field] resource_difference_def scope_witness_values Let_def)
qed

theorem differences_need_one_scope_witness:
  "(\<exists>d x. scope_witness_document ''linux'' = Inr (d, False)
      \<and> bt_get (dd_resource_summary_deltas d) ''idle_rss_mib'' = Some x \<and> dl_delta x = Some (f_sub (Fin 30) (Fin 20))
      \<and> one_run_scope (pair_witness_entry ''a'' ''2000-02-29T00:00:00Z'') (pair_witness_entry ''b'' ''2000-03-01T00:00:00Z''))
   \<and> (\<exists>d x. scope_witness_document ''macos'' = Inr (d, False)
      \<and> bt_get (dd_resource_summary_deltas d) ''idle_rss_mib'' = Some x
      \<and> dl_before x = Some (Fin 20) \<and> dl_after x = Some (Fin 30) \<and> dl_delta x = None)"
proof (intro conjI)
  note sound = differences_need_one_scope [THEN conjunct2, THEN conjunct1]
  obtain d where d: "scope_witness_document ''linux'' = Inr (d, False)"
    "bt_get (dd_resource_summary_deltas d) ''idle_rss_mib'' = Some (numeric_delta (Some (Fin 20)) (Some (Fin 30)))"
    using scope_witness_built [of "''linux''"] by auto
  have delta: "dl_delta (numeric_delta (Some (Fin 20)) (Some (Fin 30))) = Some (f_sub (Fin 30) (Fin 20))" by (simp add: numeric_delta_def)
  have linux: "(pair_witness_entry ''b'' ''2000-03-01T00:00:00Z'')\<lparr>ie_os := ''linux''\<rparr> = pair_witness_entry ''b'' ''2000-03-01T00:00:00Z''"
    by (simp add: pair_witness_entry_def)
  from sound [OF d(1) [unfolded scope_witness_document_def linux]] bt_get_Some_in [OF d(2)] delta
  have "one_run_scope (pair_witness_entry ''a'' ''2000-02-29T00:00:00Z'') (pair_witness_entry ''b'' ''2000-03-01T00:00:00Z'')" by blast
  then show "\<exists>d x. scope_witness_document ''linux'' = Inr (d, False)
      \<and> bt_get (dd_resource_summary_deltas d) ''idle_rss_mib'' = Some x \<and> dl_delta x = Some (f_sub (Fin 30) (Fin 20))
      \<and> one_run_scope (pair_witness_entry ''a'' ''2000-02-29T00:00:00Z'') (pair_witness_entry ''b'' ''2000-03-01T00:00:00Z'')"
    using d delta by blast
  obtain d' where d': "scope_witness_document ''macos'' = Inr (d', False)"
    "bt_get (dd_resource_summary_deltas d') ''idle_rss_mib'' = Some (withheld_delta ''not-comparable'' (Some (Fin 20)) (Some (Fin 30)))"
    using scope_witness_built [of "''macos''"] by auto
  have "\<not> one_run_scope (pair_witness_entry ''a'' ''2000-02-29T00:00:00Z'') ((pair_witness_entry ''b'' ''2000-03-01T00:00:00Z'')\<lparr>ie_os := ''macos''\<rparr>)"
    by (simp add: one_run_scope_def pair_witness_entry_def)
  then have "\<forall>z. dl_delta (withheld_delta ''not-comparable'' (Some (Fin 20)) (Some (Fin 30))) \<noteq> Some z"
    using bspec [OF sound [OF d'(1) [unfolded scope_witness_document_def]] bt_get_Some_in [OF d'(2)]] by simp
  then have "dl_delta (withheld_delta ''not-comparable'' (Some (Fin 20)) (Some (Fin 30))) = None" by (rule not_Some_eq [THEN iffD1])
  then show "\<exists>d x. scope_witness_document ''macos'' = Inr (d, False)
      \<and> bt_get (dd_resource_summary_deltas d) ''idle_rss_mib'' = Some x
      \<and> dl_before x = Some (Fin 20) \<and> dl_after x = Some (Fin 30) \<and> dl_delta x = None"
    using d' by (intro exI [of _ d'] exI [of _ "withheld_delta ''not-comparable'' (Some (Fin 20)) (Some (Fin 30))"] conjI)
      (simp_all add: withheld_delta_def)
qed

section \<open>The type of the storage comparison\<close>

lemma json_wf_object: "list_all (\<lambda>(k, v). json_wf v) ms \<Longrightarrow> json_wf (json_object ms)"
  using list_all_bt_of_list [of "\<lambda>_. json_wf" ms] by (simp add: json_object_def bt_wf_of_list)

lemma json_wf_f64 [simp]: "json_wf (json_f64 x)"
  by (simp add: json_f64_def)

lemma json_wf_option: "(\<And>x. json_wf (f x)) \<Longrightarrow> json_wf (json_option f v)"
  by (simp add: json_option_def split: option.split)

lemma json_wf_growth_class [simp]: "json_wf (growth_class_json g)"
  by (cases g) simp_all

lemma json_wf_bound_class [simp]: "json_wf (bound_class_json b)"
  by (cases b) simp_all

lemma json_wf_retention_class [simp]: "json_wf (retention_class_json rc)"
  by (cases rc) simp_all

lemma json_wf_crash_outcome [simp]: "json_wf (crash_outcome_json co)"
  by (cases co) simp_all

lemma json_wf_resume_outcome [simp]: "json_wf (resume_outcome_json ro)"
  by (cases ro) simp_all

lemma collect_ok_member: "collect_ok f xs = Inr ys \<Longrightarrow> y \<in> set ys \<Longrightarrow> \<exists>x \<in> set xs. f x = Inr y"
  by (auto simp: collect_ok_Inr_iff list_all2_conv_all_nth in_set_conv_nth) (metis nth_mem)

lemma json_wf_storage_summary: "json_wf (storage_summary_json s)"
  unfolding storage_summary_json_def storage_summary_members_def
  by (rule json_wf_object)
     (simp add: json_wf_option json_u32_def curve_point_json_def auxiliary_json_def json_wf_object list_all_iff)

lemma json_wf_member: "json_wf v \<Longrightarrow> json_wf (json_member v k)"
  by (cases v) (auto simp: json_member_def list_all_iff dest: bt_get_Some_in split: option.split)

lemma json_wf_delta: "json_wf a \<Longrightarrow> json_wf b \<Longrightarrow> json_wf (json_delta a b comparable)"
  unfolding json_delta_def by (rule json_wf_object) (auto split: option.split bool.split)

lemma keyed_records_wf:
  "keyed_records json_text key out vs = Inr m \<Longrightarrow> list_all (\<lambda>(k, v). json_wf v) out \<Longrightarrow> list_all json_wf vs \<Longrightarrow>
     list_all (\<lambda>(k, v). json_wf v) m"
proof (induction json_text key out vs rule: keyed_records.induct)
  case (2 json_text key out v vs)
  then obtain i where "json_get v key = Some i"
      "keyed_records json_text key (bt_insert (json_text i) v out) vs = Inr m" "bt_get out (json_text i) = None"
    by (auto split: option.splits if_splits)
  moreover have "list_all (\<lambda>(k, v). json_wf v) (bt_insert (json_text i) v out)"
    using "2.prems" set_bt_insert [of "json_text i" v out] by (auto simp: list_all_iff)
  ultimately show ?case using "2.IH" "2.prems" by auto
qed simp

lemma records_of_wf:
  assumes "records_of json_text key v = Inr m" "json_wf v"
  shows "json_wf (case bt_get m i of None \<Rightarrow> JNull | Some x \<Rightarrow> x)"
proof -
  have "list_all (\<lambda>(k, v). json_wf v) m"
    using assms by (cases v) (auto simp: records_of_def intro: keyed_records_wf)
  then show ?thesis by (auto simp: list_all_iff dest: bt_get_Some_in split: option.split)
qed

lemma json_wf_join_record: "json_wf a \<Longrightarrow> json_wf b \<Longrightarrow> json_wf (join_record key comparable a b)"
proof -
  assume ab: "json_wf a" "json_wf b"
  have g: "json_wf (case json_get a key of Some v \<Rightarrow> v | None \<Rightarrow> (case json_get b key of Some v \<Rightarrow> v | None \<Rightarrow> JNull))"
    using json_wf_member [OF ab(1), of key] json_wf_member [OF ab(2), of key]
    by (auto simp: json_member_def split: option.splits)
  show ?thesis
    unfolding join_record_def
    by (intro json_wf_object) (simp add: g json_wf_object list_all_iff json_wf_delta json_wf_member ab)
qed

lemma json_wf_join:
  assumes "join_json json_text x y key comparable = Inr v" "json_wf x" "json_wf y"
  shows "json_wf v \<and> (\<exists>items. v = JArray items)"
proof -
  from assms(1) obtain a b where ab: "records_of json_text key x = Inr a" "records_of json_text key y = Inr b"
    and v: "v = (let joined = map (\<lambda>i. join_record key comparable (case bt_get a i of None \<Rightarrow> JNull | Some v \<Rightarrow> v)
                            (case bt_get b i of None \<Rightarrow> JNull | Some v \<Rightarrow> v))
                      (bset_of_list (map fst a @ map fst b))
       in JArray (if key = ''turn'' then sort_key (\<lambda>r. as_u64 (json_member r key)) joined else joined))"
    by (auto simp: join_json_def and_then_Inr_iff Let_def)
  show ?thesis
    unfolding v Let_def
    by (auto simp: list_all_iff intro!: json_wf_join_record records_of_wf [OF ab(1) assms(2)] records_of_wf [OF ab(2) assms(3)])
qed

text \<open>Two summaries of one storage scope: schema 1, the same declared values, all of them known, under the same
  declarations, named by 64 hex digits.\<close>

definition one_storage_scope :: "storage_summary option \<Rightarrow> storage_summary option \<Rightarrow> bool" where
  "one_storage_scope l r \<longleftrightarrow> (\<exists>a b. l = Some a \<and> r = Some b \<and> ss_schema a = 1 \<and> ss_schema b = 1
     \<and> length (utf8_bytes (ss_declarations_sha256 a)) = 64 \<and> list_all ascii_hexdigit (ss_declarations_sha256 a)
     \<and> ss_declarations_sha256 b = ss_declarations_sha256 a
     \<and> (\<forall>f \<in> {ss_task, ss_profile, ss_os, ss_topology, ss_allocation_source, ss_counter_source, ss_comparison_scope}.
          f a = f b \<and> f a \<notin> {[], ''unknown'', ''unavailable''}))"

lemma utf8_short: "length (utf8_bytes []) = 0" "length (utf8_bytes ''unknown'') = 7" "length (utf8_bytes ''unavailable'') = 11"
  by code_simp+

lemma same_scope_one: "same_scope l r \<longleftrightarrow> one_storage_scope l r"
  by (cases l; cases r) (auto simp: same_scope_def one_storage_scope_def known_scope_value_def utf8_short)

text \<open>The fields of a storage summary.\<close>

definition storage_fields :: "string list" where
  "storage_fields = [
    ''schema'', ''task'', ''profile'', ''os'', ''topology'', ''comparison_scope'', ''turn_budget'',
    ''repetitions'', ''completed_turns'', ''physical_requests'', ''measurement_label'', ''counter_source'',
    ''allocation_source'', ''declarations_sha256'', ''write_bytes_per_turn_p50'', ''write_bytes_per_turn_p95'',
    ''write_bytes_per_turn_max'', ''logical_growth_bytes_per_turn'', ''net_growth_bytes_per_turn'',
    ''write_amplification_ratio'', ''disk_class'', ''fsync_calls_per_turn'', ''fdatasync_calls_per_turn'',
    ''fullfsync_calls_per_turn'', ''durability_calls_per_turn'', ''assumed_fsync_cost_ms'',
    ''estimated_durability_wall_ms_per_turn'', ''durability_class'', ''first_turn_allocated_bytes'',
    ''footprint_slope_bytes_per_turn'', ''growth_class'', ''compaction_before_allocated_bytes'',
    ''compaction_after_allocated_bytes'', ''compaction_freed_pct'', ''closed_sessions'',
    ''close_retained_bytes_per_session'', ''close_retained_after_sweep_bytes_per_session'',
    ''retention_cap_bytes'', ''close_retention_class'', ''delete_residue_allocated_bytes'',
    ''delete_residue_files'', ''uninstall_residue_allocated_bytes'', ''uninstall_residue_files'',
    ''request_retention_class'', ''stored_request_bytes'', ''unique_request_content_bytes'',
    ''stored_unique_ratio'', ''crash_residue_allocated_bytes'', ''crash_residue_files'', ''crash_resume_outcome'',
    ''resume_read_bytes_p50'', ''resume_read_bytes_p95'', ''resume_latency_p50_ms'', ''resume_latency_p95_ms'',
    ''resume_outcome'', ''footprint_curve'', ''auxiliaries'']"

definition field_value :: "storage_summary option \<Rightarrow> string \<Rightarrow> json" where
  "field_value s key = (case s of None \<Rightarrow> JNull | Some m \<Rightarrow> json_member (storage_summary_json m) key)"

text \<open>The change between two values: both of them, what became of them, and their numeric difference when the
  scope is the same and both are numbers.\<close>

definition change_between :: "bool \<Rightarrow> json \<Rightarrow> json \<Rightarrow> json \<Rightarrow> bool" where
  "change_between same a b x \<longleftrightarrow> json_get x ''before'' = Some a \<and> json_get x ''after'' = Some b
     \<and> json_get x ''change'' = Some (JString (if a = JNull \<or> b = JNull then ''unavailable''
         else if \<not> same then ''not-comparable-storage-scope'' else if json_eq a b then ''unchanged'' else ''changed''))
     \<and> json_get x ''delta'' = (case (as_f64 a, as_f64 b) of
          (Some p, Some q) \<Rightarrow> (if same then Some (json_f64 (f_sub q p)) else None) | _ \<Rightarrow> None)"

text \<open>The records of an array, and the rendering of the key of a record.\<close>

definition records_in :: "json \<Rightarrow> json list" where
  "records_in v = (case v of JArray rs \<Rightarrow> rs | _ \<Rightarrow> [])"

definition record_id :: "(json \<Rightarrow> string) \<Rightarrow> string \<Rightarrow> json \<Rightarrow> string option" where
  "record_id json_text key r = map_option json_text (json_get r key)"

text \<open>A joined record is made of the records of one key on the two sides (of the one side that has it, when the other
  has none): it has their key, and the change of each of their other members.\<close>

definition side_record :: "(json \<Rightarrow> string) \<Rightarrow> string \<Rightarrow> string option \<Rightarrow> json list \<Rightarrow> json \<Rightarrow> bool" where
  "side_record json_text key i rs r \<longleftrightarrow>
     (r \<in> set rs \<and> record_id json_text key r = i) \<or> (r = JNull \<and> i \<notin> record_id json_text key ` set rs)"

definition joins :: "(json \<Rightarrow> string) \<Rightarrow> string \<Rightarrow> bool \<Rightarrow> json list \<Rightarrow> json list \<Rightarrow> json \<Rightarrow> bool" where
  "joins json_text key same xs ys item \<longleftrightarrow> record_id json_text key item \<noteq> None
     \<and> (\<exists>p q ms. side_record json_text key (record_id json_text key item) xs p
      \<and> side_record json_text key (record_id json_text key item) ys q
      \<and> json_get item ''values'' = Some (JObject ms)
      \<and> set (map fst ms) = set (member_names p @ member_names q) - {key}
      \<and> (\<forall>(field, x) \<in> set ms. change_between same (json_member p field) (json_member q field) x))"

text \<open>The join of two arrays: one joined record for each key of either side.\<close>

definition joined_arrays :: "(json \<Rightarrow> string) \<Rightarrow> string \<Rightarrow> bool \<Rightarrow> json \<Rightarrow> json \<Rightarrow> json \<Rightarrow> bool" where
  "joined_arrays json_text key same a b x \<longleftrightarrow> (\<exists>items. x = JArray items
     \<and> distinct (map (record_id json_text key) items)
     \<and> record_id json_text key ` set items = record_id json_text key ` (set (records_in a) \<union> set (records_in b))
     \<and> list_all (joins json_text key same (records_in a) (records_in b)) items)"

lemma json_delta_change: "change_between same a b (json_delta a b same)"
proof -
  have null: "is_null v \<longleftrightarrow> v = JNull" for v by (cases v) simp_all
  show ?thesis
    by (simp add: change_between_def json_delta_def json_object_def bt_get_of_list delta_change_def null
        split: option.split bool.split)
qed

lemma keyed_records_entries:
  "keyed_records json_text key out vs = Inr m \<Longrightarrow>
    (\<forall>i r. bt_get m i = Some r \<longrightarrow> bt_get out i = Some r \<or> (r \<in> set vs \<and> record_id json_text key r = Some i))
    \<and> (\<forall>i r. bt_get out i = Some r \<longrightarrow> bt_get m i = Some r)
    \<and> (\<forall>r \<in> set vs. \<exists>i. record_id json_text key r = Some i \<and> bt_get m i = Some r)"
proof (induction json_text key out vs rule: keyed_records.induct)
  case (2 json_text key out v vs)
  obtain k where k: "json_get v key = Some k" and rest: "keyed_records json_text key (bt_insert (json_text k) v out) vs = Inr m"
    and new: "bt_get out (json_text k) = None"
    using "2.prems" by (auto split: option.splits if_splits)
  have i: "record_id json_text key v = Some (json_text k)" using k by (simp add: record_id_def)
  note ih = "2.IH" [OF k _ rest, unfolded bt_get_insert]
  have ih': "(\<forall>i r. bt_get m i = Some r \<longrightarrow> (if i = json_text k then Some v else bt_get out i) = Some r
        \<or> (r \<in> set vs \<and> record_id json_text key r = Some i))"
    "\<forall>i r. (if i = json_text k then Some v else bt_get out i) = Some r \<longrightarrow> bt_get m i = Some r"
    "\<forall>r \<in> set vs. \<exists>i. record_id json_text key r = Some i \<and> bt_get m i = Some r"
    using ih new by simp_all
  have "bt_get m i = Some r" if "bt_get out i = Some r" for i r
    using ih'(2) that new by (cases "i = json_text k") auto
  moreover have "bt_get out i = Some r \<or> (r \<in> set (v # vs) \<and> record_id json_text key r = Some i)" if "bt_get m i = Some r" for i r
    using ih'(1) [rule_format, OF that] i by (auto split: if_splits)
  moreover have "bt_get m (json_text k) = Some v" using ih'(2) by simp
  ultimately show ?case using ih'(3) i by auto
qed simp

lemma records_of_entries:
  assumes "records_of json_text key v = Inr m"
  shows "bt_get m i = Some r \<longleftrightarrow> r \<in> set (records_in v) \<and> record_id json_text key r = Some i"
    and "fst ` set m = {i. Some i \<in> record_id json_text key ` set (records_in v)}"
    and "None \<notin> record_id json_text key ` set (records_in v)"
proof -
  have "keyed_records json_text key [] (records_in v) = Inr m"
    using assms by (cases v) (simp_all add: records_of_def records_in_def)
  note entries = keyed_records_entries [OF this]
  show get: "bt_get m i = Some r \<longleftrightarrow> r \<in> set (records_in v) \<and> record_id json_text key r = Some i" for i r
    using entries by fastforce
  have "fst ` set m = {i. \<exists>r. bt_get m i = Some r}" using keys_bt_get [of m] by auto
  then show "fst ` set m = {i. Some i \<in> record_id json_text key ` set (records_in v)}" unfolding get by force
  show "None \<notin> record_id json_text key ` set (records_in v)" using entries by force
qed

lemma records_of_side:
  assumes "records_of json_text key v = Inr m"
  shows "side_record json_text key (Some i) (records_in v) (case bt_get m i of None \<Rightarrow> JNull | Some r \<Rightarrow> r)"
proof (cases "bt_get m i")
  case None
  then have "Some i \<notin> record_id json_text key ` set (records_in v)"
    using records_of_entries(1) [OF assms, of i] by (metis imageE option.distinct(1))
  then show ?thesis using None by (simp add: side_record_def)
next
  case (Some r)
  then show ?thesis using records_of_entries(1) [OF assms, of i r] by (simp add: side_record_def)
qed

lemma join_record_joins:
  assumes "side_record json_text key (Some i) xs p" "side_record json_text key (Some i) ys q" "p \<noteq> JNull \<or> q \<noteq> JNull"
    and "key \<noteq> ''values''"
  shows "record_id json_text key (join_record key same p q) = Some i \<and> joins json_text key same xs ys (join_record key same p q)"
proof -
  let ?g = "case json_get p key of Some v \<Rightarrow> v | None \<Rightarrow> (case json_get q key of Some v \<Rightarrow> v | None \<Rightarrow> JNull)"
  let ?ms = "bt_of_list (map (\<lambda>field. (field, json_delta (json_member p field) (json_member q field) same))
      (filter (\<lambda>field. field \<noteq> key) (joint_names p q)))"
  have "json_get JNull key = None" by simp
  then have "map_option json_text (Some ?g) = Some i"
    using assms(1-3) by (auto simp: side_record_def record_id_def)
  moreover have key: "json_get (join_record key same p q) key = Some ?g"
    and vals: "json_get (join_record key same p q) ''values'' = Some (JObject ?ms)"
    using assms(4) by (simp_all add: join_record_def json_object_def bt_get_of_list)
  ultimately have i: "record_id json_text key (join_record key same p q) = Some i" by (simp add: record_id_def)
  have "set (map fst ?ms) = set (member_names p @ member_names q) - {key}"
    unfolding keys_bt_get bt_get_of_list
    by (auto simp: rev_map [symmetric] map_of_eq_None_iff image_image joint_names_def set_bset_of_list)
  moreover have "\<forall>(field, x) \<in> set ?ms. change_between same (json_member p field) (json_member q field) x"
    using bt_of_list_entries [of "map (\<lambda>field. (field, json_delta (json_member p field) (json_member q field) same))
      (filter (\<lambda>field. field \<noteq> key) (joint_names p q))"] json_delta_change by fastforce
  ultimately show ?thesis using i vals assms(1,2) unfolding joins_def by auto
qed

lemma some_images: "None \<notin> A \<Longrightarrow> Some ` {i. Some i \<in> A} = A"
proof -
  assume "None \<notin> A"
  then have "x \<in> Some ` {i. Some i \<in> A}" if "x \<in> A" for x using that by (cases x) auto
  then show ?thesis by auto
qed

lemma bt_get_key: "i \<in> fst ` set m \<Longrightarrow> \<exists>r. bt_get m i = Some r"
  using keys_bt_get [of m] by auto

lemma join_json_joined:
  assumes "join_json json_text a b key same = Inr x" and "key \<noteq> ''values''"
  shows "joined_arrays json_text key same a b x"
proof -
  from assms(1) obtain m n where mn: "records_of json_text key a = Inr m" "records_of json_text key b = Inr n"
    and x: "x = (let joined = map (\<lambda>i. join_record key same (case bt_get m i of None \<Rightarrow> JNull | Some v \<Rightarrow> v)
                            (case bt_get n i of None \<Rightarrow> JNull | Some v \<Rightarrow> v))
                      (bset_of_list (map fst m @ map fst n))
       in JArray (if key = ''turn'' then sort_key (\<lambda>r. as_u64 (json_member r key)) joined else joined))"
    by (auto simp: join_json_def and_then_Inr_iff Let_def)
  define f where "f i = join_record key same (case bt_get m i of None \<Rightarrow> JNull | Some v \<Rightarrow> v)
      (case bt_get n i of None \<Rightarrow> JNull | Some v \<Rightarrow> v)" for i
  define ids where "ids = bset_of_list (map fst m @ map fst n)"
  have f: "record_id json_text key (f i) = Some i \<and> joins json_text key same (records_in a) (records_in b) (f i)" if "i \<in> set ids" for i
  proof -
    have "i \<in> fst ` set m \<or> i \<in> fst ` set n" using that by (auto simp: ids_def set_bset_of_list)
    then obtain r where "(bt_get m i = Some r \<or> bt_get n i = Some r)" using bt_get_key by metis
    moreover have "r \<noteq> JNull" if "bt_get m i = Some r \<or> bt_get n i = Some r" for r
      using that records_of_entries(1) [OF mn(1)] records_of_entries(1) [OF mn(2)] by (auto simp: record_id_def)
    ultimately show ?thesis
      unfolding f_def by (intro join_record_joins records_of_side mn assms(2)) auto
  qed
  have "x = JArray (if key = ''turn'' then sort_key (\<lambda>r. as_u64 (json_member r key)) (map f ids) else map f ids)"
    unfolding x Let_def ids_def f_def [abs_def] by (rule refl)
  then obtain items where items: "x = JArray items" "mset items = mset (map f ids)" by (cases "key = ''turn''") simp_all
  have set_items: "set items = f ` set ids" using items(2) by (metis list.set_map set_mset_mset)
  have "map (record_id json_text key) (map f ids) = map Some ids" using f by simp
  then have "mset (map (record_id json_text key) items) = mset (map Some ids)"
    using items(2) by (metis mset_map)
  moreover have "distinct (map Some ids)"
    using bset_of_list_sorted [of "map fst m @ map fst n"] by (auto simp: ids_def distinct_map strict_sorted_iff)
  ultimately have "distinct (map (record_id json_text key) items)" by (metis mset_eq_imp_distinct_iff)
  moreover have "record_id json_text key ` set items = record_id json_text key ` (set (records_in a) \<union> set (records_in b))"
  proof -
    have "record_id json_text key ` set items = Some ` set ids" unfolding set_items using f by force
    also have "set ids = {i. Some i \<in> record_id json_text key ` (set (records_in a) \<union> set (records_in b))}"
      using records_of_entries(2) [OF mn(1)] records_of_entries(2) [OF mn(2)] by (auto simp: ids_def set_bset_of_list)
    also have "Some ` \<dots> = record_id json_text key ` (set (records_in a) \<union> set (records_in b))"
      using records_of_entries(3) [OF mn(1)] records_of_entries(3) [OF mn(2)] some_images by (metis image_Un Un_iff)
    finally show ?thesis .
  qed
  moreover have "list_all (joins json_text key same (records_in a) (records_in b)) items"
    using f by (auto simp: list_all_iff set_items)
  ultimately show ?thesis using items(1) unfolding joined_arrays_def by blast
qed

lemma storage_summary_keys: "set (member_names (storage_summary_json s)) = set storage_fields"
proof -
  have "map fst (storage_summary_members s) = storage_fields"
    by (simp add: storage_summary_members_def storage_fields_def)
  moreover have "set (map fst (bt_of_list ms)) = set (map fst ms)" for ms :: "(string \<times> json) list"
    using keys_bt_get [of "bt_of_list ms"] by (simp add: bt_get_of_list map_of_eq_None_iff)
  moreover have "member_names (storage_summary_json s) = map fst (bt_of_list (storage_summary_members s))"
    by (simp add: member_names_def storage_summary_json_def json_object_def)
  ultimately show ?thesis by (simp only:)
qed

lemma joint_storage_fields:
  assumes "l \<noteq> None \<or> r \<noteq> None"
  shows "set (joint_names (json_option storage_summary_json l) (json_option storage_summary_json r)) = set storage_fields"
  using assms storage_summary_keys
  by (cases l; cases r) (simp_all add: joint_names_def set_bset_of_list json_option_def member_names_def)

lemma field_value_member: "json_member (json_option storage_summary_json s) key = field_value s key"
  by (cases s) (simp_all add: field_value_def json_option_def json_member_def)

lemma compare_member_entry:
  assumes "compare_member json_text (json_option storage_summary_json l) (json_option storage_summary_json r) same name = Inr (key, x)"
  shows "key = name
    \<and> (key \<notin> {''footprint_curve'', ''auxiliaries''} \<longrightarrow> change_between same (field_value l key) (field_value r key) x)
    \<and> (key = ''footprint_curve'' \<longrightarrow> joined_arrays json_text ''turn'' same (field_value l key) (field_value r key) x)
    \<and> (key = ''auxiliaries'' \<longrightarrow> joined_arrays json_text ''name'' same (field_value l key) (field_value r key) x)"
  using assms by (auto simp: compare_member_def and_then_Inr_iff field_value_member json_delta_change
      intro: join_json_joined split: if_splits)

lemma compared_names:
  assumes "collect_ok (compare_member json_text a b same) names = Inr vals"
  shows "map fst vals = names"
proof -
  have "list_all2 (\<lambda>name y. fst y = name) names vals"
    using assms unfolding collect_ok_Inr_iff
    by (rule list_all2_mono) (auto simp: compare_member_def and_then_Inr_iff)
  then show ?thesis by (induction rule: list_all2_induct) simp_all
qed

text \<open>C16: The storage comparison of two summaries, one of which may be missing.  It is a well-formed JSON object of
  a status and of exactly one value for each field of a storage summary: of the footprint curve it has one joined
  record per turn of either summary, of the auxiliaries one per name, and each with the changes of all the
  members of the records it joins; of every other field it has the change between the values the two summaries have
  under that name.  A change holds both values and what became of them, and their numeric difference
  only in the same storage scope.\<close>

theorem storage_diff_well_typed:
  assumes "compare_storage json_text l r = Inr (Some v)"
  shows "json_wf v \<and> (\<exists>vals. v = JObject [(''comparison_scope'', JString (if l = None \<or> r = None then ''unavailable''
        else if one_storage_scope l r then ''comparable'' else ''not-comparable-storage-scope'')), (''values'', JObject vals)]
    \<and> distinct (map fst vals) \<and> set (map fst vals) = set storage_fields
    \<and> (\<forall>(key, x) \<in> set vals.
         (key \<notin> {''footprint_curve'', ''auxiliaries''} \<longrightarrow> change_between (one_storage_scope l r) (field_value l key) (field_value r key) x)
         \<and> (key = ''footprint_curve'' \<longrightarrow> joined_arrays json_text ''turn'' (one_storage_scope l r) (field_value l key) (field_value r key) x)
         \<and> (key = ''auxiliaries'' \<longrightarrow> joined_arrays json_text ''name'' (one_storage_scope l r) (field_value l key) (field_value r key) x)))"
proof -
  let ?a = "json_option storage_summary_json l"
  let ?b = "json_option storage_summary_json r"
  have wf: "json_wf (json_member ?a key)" "json_wf (json_member ?b key)" for key
    by (simp_all add: json_wf_member json_wf_option json_wf_storage_summary)
  obtain vals where v: "v = scope_document (JString (storage_status l r)) (json_object vals)"
    and vals: "collect_ok (compare_member json_text ?a ?b (same_scope l r)) (joint_names ?a ?b) = Inr vals"
    using compare_storage_Some [OF assms] by blast
  have some: "l \<noteq> None \<or> r \<noteq> None" using assms by (cases "l = None \<and> r = None") (auto simp: compare_storage_def)
  have names: "map fst vals = joint_names ?a ?b" by (rule compared_names [OF vals])
  then have sorted: "bt_wf vals" by (simp add: bt_wf_def joint_names_def bset_of_list_sorted)
  then have object: "json_object vals = JObject vals" by (simp add: json_object_def bt_of_list_id)
  have entry: "\<exists>name. compare_member json_text ?a ?b (same_scope l r) name = Inr (key, x)" if "(key, x) \<in> set vals" for key x
    using collect_ok_member [OF vals that] by blast
  have well: "list_all (\<lambda>(key, x). json_wf x) vals"
  proof (unfold list_all_iff, intro ballI, clarify)
    fix key x assume "(key, x) \<in> set vals"
    then obtain k where k: "compare_member json_text ?a ?b (same_scope l r) k = Inr (key, x)" using entry by blast
    show "json_wf x" using k json_wf_join [OF _ wf] wf by (auto simp: compare_member_def and_then_Inr_iff json_wf_delta split: if_splits)
  qed
  have status: "storage_status l r = (if l = None \<or> r = None then ''unavailable''
        else if one_storage_scope l r then ''comparable'' else ''not-comparable-storage-scope'')"
    by (simp add: storage_status_def same_scope_one)
  have shape: "v = JObject [(''comparison_scope'', JString (storage_status l r)), (''values'', JObject vals)]"
    by (simp add: v scope_document_members object)
  then have "json_wf v" using well sorted by (simp add: bt_wf_def)
  moreover have "distinct (map fst vals)" using sorted by (simp add: bt_wf_def strict_sorted_iff)
  moreover have "set (map fst vals) = set storage_fields" unfolding names by (rule joint_storage_fields [OF some])
  moreover have "\<forall>(key, x) \<in> set vals.
         (key \<notin> {''footprint_curve'', ''auxiliaries''} \<longrightarrow> change_between (one_storage_scope l r) (field_value l key) (field_value r key) x)
         \<and> (key = ''footprint_curve'' \<longrightarrow> joined_arrays json_text ''turn'' (one_storage_scope l r) (field_value l key) (field_value r key) x)
         \<and> (key = ''auxiliaries'' \<longrightarrow> joined_arrays json_text ''name'' (one_storage_scope l r) (field_value l key) (field_value r key) x)"
    using entry compare_member_entry unfolding same_scope_one by blast
  ultimately show ?thesis using shape unfolding status by blast
qed

definition type_witness_summary :: storage_summary where
  "type_witness_summary = \<lparr>
     ss_schema = 1, ss_task = ''host'', ss_profile = ''host'',
     ss_os = ''host'', ss_topology = ''host'', ss_comparison_scope = ''host'',
     ss_turn_budget = 1, ss_repetitions = 1, ss_completed_turns = 1,
     ss_physical_requests = 1, ss_measurement_label = ''host'', ss_counter_source = ''host'',
     ss_allocation_source = ''host'', ss_declarations_sha256 = replicate 64 (CHR ''a''), ss_write_bytes_per_turn_p50 = None,
     ss_write_bytes_per_turn_p95 = None, ss_write_bytes_per_turn_max = None, ss_logical_growth_bytes_per_turn = None,
     ss_net_growth_bytes_per_turn = None, ss_write_amplification_ratio = None, ss_disk_class = None,
     ss_fsync_calls_per_turn = None, ss_fdatasync_calls_per_turn = None, ss_fullfsync_calls_per_turn = None,
     ss_durability_calls_per_turn = None, ss_assumed_fsync_cost_ms = None, ss_estimated_durability_wall_ms_per_turn = None,
     ss_durability_class = None, ss_first_turn_allocated_bytes = None, ss_footprint_slope_bytes_per_turn = None,
     ss_growth_class = None, ss_compaction_before_allocated_bytes = None, ss_compaction_after_allocated_bytes = None,
     ss_compaction_freed_pct = None, ss_closed_sessions = None, ss_close_retained_bytes_per_session = None,
     ss_close_retained_after_sweep_bytes_per_session = None, ss_retention_cap_bytes = None, ss_close_retention_class = None,
     ss_delete_residue_allocated_bytes = None, ss_delete_residue_files = None, ss_uninstall_residue_allocated_bytes = None,
     ss_uninstall_residue_files = None, ss_request_retention_class = None, ss_stored_request_bytes = None,
     ss_unique_request_content_bytes = None, ss_stored_unique_ratio = None, ss_crash_residue_allocated_bytes = None,
     ss_crash_residue_files = None, ss_crash_resume_outcome = None, ss_resume_read_bytes_p50 = None,
     ss_resume_read_bytes_p95 = None, ss_resume_latency_p50_ms = None, ss_resume_latency_p95_ms = None,
     ss_resume_outcome = None, ss_footprint_curve = [], ss_auxiliaries = []\<rparr>"

definition type_witness_run :: "rat \<Rightarrow> storage_summary" where
  "type_witness_run bytes = type_witness_summary\<lparr>ss_write_bytes_per_turn_p50 := Some (Fin bytes),
     ss_footprint_curve := [\<lparr>cvp_turn = 1, cvp_allocated_bytes = Fin bytes, cvp_mad_bytes = Fin 0\<rparr>]\<rparr>"

lemma type_witness_members:
  "json_member (storage_summary_json (type_witness_run bytes)) ''footprint_curve''
     = JArray [curve_point_json \<lparr>cvp_turn = 1, cvp_allocated_bytes = Fin bytes, cvp_mad_bytes = Fin 0\<rparr>]"
  "json_member (storage_summary_json (type_witness_run bytes)) ''auxiliaries'' = JArray []"
  "json_member (storage_summary_json (type_witness_run bytes)) ''write_bytes_per_turn_p50'' = json_f64 (Fin bytes)"
  by (simp_all add: json_member_def storage_summary_json_def json_object_def bt_get_of_list storage_summary_members_def
      json_option_def type_witness_run_def type_witness_summary_def)

lemma curve_point_turn: "json_get (curve_point_json p) ''turn'' = Some (json_u32 (cvp_turn p))"
  by (simp add: curve_point_json_def json_object_def bt_get_of_list)

lemma collect_ok_total: "(\<And>x. \<exists>y. f x = Inr y) \<Longrightarrow> \<exists>ys. collect_ok f xs = Inr ys"
proof (induction xs)
  case (Cons x xs)
  then obtain y ys where "f x = Inr y" "collect_ok f xs = Inr ys" by blast
  then show ?case by simp
qed simp

lemma type_witness_built: "\<exists>v. compare_storage (\<lambda>_. ''1'') (Some (type_witness_run 1)) (Some (type_witness_run 3)) = Inr (Some v)"
proof -
  let ?f = "compare_member (\<lambda>_. ''1'') (storage_summary_json (type_witness_run 1)) (storage_summary_json (type_witness_run 3))
      (same_scope (Some (type_witness_run 1)) (Some (type_witness_run 3)))"
  have "\<exists>y. ?f key = Inr y" for key
    by (auto simp: compare_member_def join_json_def records_of_def type_witness_members curve_point_turn Let_def)
  then obtain ys where "collect_ok ?f (joint_names (storage_summary_json (type_witness_run 1)) (storage_summary_json (type_witness_run 3))) = Inr ys"
    using collect_ok_total by blast
  then show ?thesis by (simp add: compare_storage_def json_option_def Let_def)
qed

lemma type_witness_scope: "one_storage_scope (Some (type_witness_run a)) (Some (type_witness_run b))"
  by (simp add: one_storage_scope_def type_witness_run_def type_witness_summary_def utf8_bytes_def ascii_hexdigit_def numeral_eq_Suc)

lemma one_record_id:
  "distinct (map f items) \<Longrightarrow> f ` set items = {i} \<Longrightarrow> length items = 1"
  by (metis card_1_singleton_iff distinct_card length_map list.set_map One_nat_def)

lemma pair_entry: "\<forall>(k, x) \<in> S. P k x \<Longrightarrow> (k, x) \<in> S \<Longrightarrow> P k x"
  by blast

text \<open>The witness: two summaries of one scope that wrote 1 and 3 bytes per turn and have a curve of one turn each.\<close>

theorem storage_diff_well_typed_witness:
  "\<exists>v vals x items. compare_storage (\<lambda>_. ''1'') (Some (type_witness_run 1)) (Some (type_witness_run 3)) = Inr (Some v)
     \<and> v = JObject [(''comparison_scope'', JString ''comparable''), (''values'', JObject vals)]
     \<and> (''write_bytes_per_turn_p50'', x) \<in> set vals \<and> json_get x ''before'' = Some (json_f64 (Fin 1))
     \<and> json_get x ''after'' = Some (json_f64 (Fin 3)) \<and> json_get x ''delta'' = Some (json_f64 (f_sub (Fin 3) (Fin 1)))
     \<and> (''footprint_curve'', JArray items) \<in> set vals \<and> length items = 1"
proof -
  obtain v where v: "compare_storage (\<lambda>_. ''1'') (Some (type_witness_run 1)) (Some (type_witness_run 3)) = Inr (Some v)"
    using type_witness_built by blast
  obtain vals where vals: "v = JObject [(''comparison_scope'', JString ''comparable''), (''values'', JObject vals)]"
      "set (map fst vals) = set storage_fields"
    and all: "\<forall>(key, x) \<in> set vals.
         (key \<notin> {''footprint_curve'', ''auxiliaries''} \<longrightarrow> change_between True (field_value (Some (type_witness_run 1)) key) (field_value (Some (type_witness_run 3)) key) x)
         \<and> (key = ''footprint_curve'' \<longrightarrow> joined_arrays (\<lambda>_. ''1'') ''turn'' True (field_value (Some (type_witness_run 1)) key) (field_value (Some (type_witness_run 3)) key) x)
         \<and> (key = ''auxiliaries'' \<longrightarrow> joined_arrays (\<lambda>_. ''1'') ''name'' True (field_value (Some (type_witness_run 1)) key) (field_value (Some (type_witness_run 3)) key) x)"
    using storage_diff_well_typed [OF v, unfolded eqTrueI [OF type_witness_scope] if_True]
    by (elim conjE exE) (rule that, simp only: option.distinct simp_thms if_False, assumption+)
  note entries = pair_entry [OF all]
  have "''write_bytes_per_turn_p50'' \<in> set (map fst vals)" "''footprint_curve'' \<in> set (map fst vals)"
    unfolding vals(2) by (simp_all add: storage_fields_def)
  then obtain x c where x: "(''write_bytes_per_turn_p50'', x) \<in> set vals" and c: "(''footprint_curve'', c) \<in> set vals" by auto
  have numeric: "as_f64 (json_f64 (Fin q)) = Some (Fin q)" for q by (simp add: json_f64_def)
  have "change_between True (json_f64 (Fin 1)) (json_f64 (Fin 3)) x"
    using entries [OF x] by (simp add: field_value_def type_witness_members)
  then have change: "json_get x ''before'' = Some (json_f64 (Fin 1))" "json_get x ''after'' = Some (json_f64 (Fin 3))"
    "json_get x ''delta'' = Some (json_f64 (f_sub (Fin 3) (Fin 1)))"
    by (simp_all add: change_between_def numeric)
  have "joined_arrays (\<lambda>_. ''1'') ''turn'' True (field_value (Some (type_witness_run 1)) ''footprint_curve'')
      (field_value (Some (type_witness_run 3)) ''footprint_curve'') c"
    using entries [OF c] by simp
  then obtain items where items: "c = JArray items" "distinct (map (record_id (\<lambda>_. ''1'') ''turn'') items)"
    "record_id (\<lambda>_. ''1'') ''turn'' ` set items = {Some ''1''}"
    by (auto simp: joined_arrays_def field_value_def type_witness_members records_in_def record_id_def curve_point_turn)
  have "length items = 1" by (rule one_record_id [OF items(2,3)])
  then show ?thesis using v vals(1) x c change items(1) by blast
qed

end
