(* ===== verification/Trackers.thy ===== *)
theory Trackers
  imports Model_Wait
begin

text \<open>
  The cumulative accounting of an owned process tree in \<open>src/src/process/mod.rs\<close>: CPU time per
  process lifetime with retirement after missed refreshes, and disk writes with explicit retirement.
  Both trackers are mutated in place, so an operation that fails returns the state it left behind.
\<close>

section \<open>CPU\<close>

definition cpu_retirement_misses :: u32 where
  "cpu_retirement_misses = 3"

record cpu_identity_state =
  ci_accounted_ns :: u64
  ci_consecutive_misses :: u32
  ci_retired :: bool

type_synonym cpu_tracker = "(proc_identity, cpu_identity_state) btree"

text \<open>The lists of missing and readmitted identities are compiled on macOS and in tests only.\<close>

record cpu_update =
  cu_cumulative_ns :: u64
  cu_newly_missing :: "proc_identity list"
  cu_readmitted_after_miss :: "(proc_identity \<times> u64) list"
  cu_warnings :: "cpu_warning list"

definition is_unreadable_counter :: "cpu_warning \<Rightarrow> bool" where
  "is_unreadable_counter w = contains_str (cw_kind w) ''cpu-counter-unreadable''"

definition readmission_warning :: "proc_identity \<Rightarrow> cpu_identity_state \<Rightarrow> u64 \<Rightarrow> cpu_warning" where
  "readmission_warning i s cpu_ns =
     \<lparr>cw_kind = ''retired-identity-readmitted'', cw_identity = i, cw_consecutive_misses = ci_consecutive_misses s,
      cw_previous_cpu_ns = ci_accounted_ns s, cw_observed_cpu_ns = cpu_ns\<rparr>"

fun admit_counters :: "cpu_tracker \<Rightarrow> cpu_warning list \<Rightarrow> (proc_identity \<times> u64) list \<Rightarrow> (proc_identity \<times> u64) list
    \<Rightarrow> cpu_tracker \<times> (ahrb_error + cpu_warning list \<times> (proc_identity \<times> u64) list)" where
  "admit_counters t warnings readmitted [] = (t, Inr (warnings, readmitted))"
| "admit_counters t warnings readmitted ((i, cpu_ns) # current) =
     (case bt_get t i of
        None \<Rightarrow> admit_counters (bt_insert i \<lparr>ci_accounted_ns = cpu_ns, ci_consecutive_misses = 0, ci_retired = False\<rparr> t)
                  warnings readmitted current
      | Some s \<Rightarrow>
          (if cpu_ns < ci_accounted_ns s
           then (t, Inl (Protocol (''process '' @ show_identity i @ '' cumulative CPU regressed from ''
                   @ show_u64 (ci_accounted_ns s) @ '' to '' @ show_u64 cpu_ns)))
           else admit_counters (bt_insert i \<lparr>ci_accounted_ns = cpu_ns, ci_consecutive_misses = 0, ci_retired = False\<rparr> t)
                  (if ci_retired s then warnings @ [readmission_warning i s cpu_ns] else warnings)
                  (if 0 < ci_consecutive_misses s then readmitted @ [(i, ci_accounted_ns s)] else readmitted)
                  current))"

definition saturating_succ :: "u32 \<Rightarrow> u32" where
  "saturating_succ n = (if n = 4294967295 then n else n + 1)"

definition miss_refresh :: "(proc_identity, u64) btree \<Rightarrow> proc_identity \<Rightarrow> cpu_identity_state \<Rightarrow> cpu_identity_state" where
  "miss_refresh current i s =
     (if bt_contains current i \<or> ci_retired s then s
      else let misses = saturating_succ (ci_consecutive_misses s)
           in s\<lparr>ci_consecutive_misses := misses, ci_retired := ci_retired s \<or> cpu_retirement_misses \<le> misses\<rparr>)"

definition newly_missing :: "(proc_identity, u64) btree \<Rightarrow> cpu_tracker \<Rightarrow> proc_identity list" where
  "newly_missing current t =
     map fst (filter (\<lambda>(i, s). \<not> bt_contains current i \<and> \<not> ci_retired s
                                \<and> saturating_succ (ci_consecutive_misses s) = 1) t)"

definition cpu_total :: "cpu_tracker \<Rightarrow> u64" where
  "cpu_total t = foldl (\<lambda>acc (_, s). saturating_add acc (ci_accounted_ns s)) 0 t"

definition update_cpu :: "cpu_tracker \<Rightarrow> (proc_identity, u64) btree \<Rightarrow> cpu_tracker \<times> (ahrb_error + cpu_update)" where
  "update_cpu t current =
     (case admit_counters t [] [] current of
        (t, Inl e) \<Rightarrow> (t, Inl e)
      | (t, Inr (warnings, readmitted)) \<Rightarrow>
          (let t' = map (\<lambda>(i, s). (i, miss_refresh current i s)) t
           in (t', Inr \<lparr>cu_cumulative_ns = cpu_total t', cu_newly_missing = newly_missing current t,
                        cu_readmitted_after_miss = readmitted, cu_warnings = warnings\<rparr>)))"

section \<open>Disk\<close>

record disk_observation =
  do_expected_identities :: "proc_identity list"
  do_write_bytes_by_identity :: "(proc_identity, u64) btree"
  do_cgroup_write_bytes :: "u64 option"

datatype disk_status = DS_Live | DS_CounterUnavailable | DS_MissingWithoutRetirementEvidence
  | DS_TerminalAwaitingFinalSample | DS_FinalSampleBeforeReap | DS_RetiredAfterFinalSample | DS_RetiredByDurableCgroup

record disk_identity_evidence =
  de_identity :: proc_identity
  de_write_bytes :: "u64 option"
  de_status :: disk_status

record disk_snapshot =
  sn_cumulative_write_bytes :: "u64 option"
  sn_observed_write_bytes :: u64
  sn_counter_complete :: bool
  sn_incomplete_identities :: "proc_identity list"
  sn_identities :: "disk_identity_evidence list"
  sn_cgroup_write_bytes :: "u64 option"

datatype disk_retirement = TerminalFinalSample | DurableCgroup

record disk_identity_state =
  di_write_bytes :: "u64 option"
  di_present :: bool
  di_expected :: bool
  di_terminal_observed :: bool
  di_final_sample_observed :: bool
  di_retirement :: "disk_retirement option"

definition default_disk_state :: disk_identity_state where
  "default_disk_state = \<lparr>di_write_bytes = None, di_present = False, di_expected = False, di_terminal_observed = False,
     di_final_sample_observed = False, di_retirement = None\<rparr>"

record disk_tracker =
  dt_identities :: "(proc_identity, disk_identity_state) btree"
  dt_cgroup_write_bytes :: "u64 option"

definition empty_disk_tracker :: disk_tracker where
  "empty_disk_tracker = \<lparr>dt_identities = [], dt_cgroup_write_bytes = None\<rparr>"

text \<open>\<open>entry(identity).or_default()\<close>, and writing the state of an identity back.\<close>

definition disk_entry :: "disk_tracker \<Rightarrow> proc_identity \<Rightarrow> disk_identity_state" where
  "disk_entry t i = (case bt_get (dt_identities t) i of None \<Rightarrow> default_disk_state | Some s \<Rightarrow> s)"

definition put_state :: "proc_identity \<Rightarrow> disk_identity_state \<Rightarrow> disk_tracker \<Rightarrow> disk_tracker" where
  "put_state i s t = t\<lparr>dt_identities := bt_insert i s (dt_identities t)\<rparr>"

definition update_disk_counter :: "proc_identity \<Rightarrow> disk_identity_state \<Rightarrow> u64 \<Rightarrow> ahrb_error + disk_identity_state" where
  "update_disk_counter i s write_bytes =
     (case di_write_bytes s of
        Some previous \<Rightarrow>
          (if write_bytes < previous
           then Inl (Protocol (''process '' @ show_identity i @ '' cumulative disk writes regressed from ''
                  @ show_u64 previous @ '' to '' @ show_u64 write_bytes))
           else Inr (s\<lparr>di_write_bytes := Some write_bytes\<rparr>))
      | None \<Rightarrow> Inr (s\<lparr>di_write_bytes := Some write_bytes\<rparr>))"

definition disk_identity_status :: "disk_identity_state \<Rightarrow> disk_status" where
  "disk_identity_status s =
     (case di_retirement s of
        Some TerminalFinalSample \<Rightarrow> DS_RetiredAfterFinalSample
      | Some DurableCgroup \<Rightarrow> DS_RetiredByDurableCgroup
      | None \<Rightarrow>
          (if di_terminal_observed s \<and> di_final_sample_observed s then DS_FinalSampleBeforeReap
           else if di_terminal_observed s then DS_TerminalAwaitingFinalSample
           else if di_expected s \<and> di_present s \<and> di_write_bytes s \<noteq> None then DS_Live
           else if di_expected s then DS_CounterUnavailable
           else DS_MissingWithoutRetirementEvidence))"

definition incomplete_status :: "disk_status \<Rightarrow> bool" where
  "incomplete_status st \<longleftrightarrow>
     st \<in> {DS_CounterUnavailable, DS_MissingWithoutRetirementEvidence, DS_TerminalAwaitingFinalSample}"

definition disk_total :: "(proc_identity, disk_identity_state) btree \<Rightarrow> u64" where
  "disk_total ids =
     foldl (\<lambda>acc (_, s). saturating_add acc (case di_write_bytes s of Some v \<Rightarrow> v | None \<Rightarrow> 0)) 0 ids"

definition snapshot :: "disk_tracker \<Rightarrow> disk_snapshot" where
  "snapshot t =
     (let evidence = map (\<lambda>(i, s). \<lparr>de_identity = i, de_write_bytes = di_write_bytes s, de_status = disk_identity_status s\<rparr>)
                       (dt_identities t);
          incomplete = map de_identity (filter (\<lambda>e. incomplete_status (de_status e)) evidence);
          counter_complete = (incomplete = []);
          observed = (case dt_cgroup_write_bytes t of Some v \<Rightarrow> v | None \<Rightarrow> disk_total (dt_identities t))
      in \<lparr>sn_cumulative_write_bytes = (if counter_complete then Some observed else None),
          sn_observed_write_bytes = observed, sn_counter_complete = counter_complete,
          sn_incomplete_identities = incomplete, sn_identities = evidence,
          sn_cgroup_write_bytes = dt_cgroup_write_bytes t\<rparr>)"

definition expect_identity :: "proc_identity \<Rightarrow> disk_tracker \<Rightarrow> disk_tracker" where
  "expect_identity i t = put_state i ((disk_entry t i)\<lparr>di_expected := True\<rparr>) t"

fun observe_counters :: "proc_identity list \<Rightarrow> disk_tracker \<Rightarrow> (proc_identity \<times> u64) list \<Rightarrow> disk_tracker \<times> (ahrb_error + unit)" where
  "observe_counters expected t [] = (t, Inr ())"
| "observe_counters expected t ((i, write_bytes) # counters) =
     (if i \<notin> set expected
      then (t, Inl (Protocol (''disk counter observed unexpected process identity '' @ show_identity i)))
      else let s = disk_entry t i; t = put_state i s t
           in if di_retirement s \<noteq> None
              then (t, Inl (Protocol (''retired disk identity '' @ show_identity i @ '' was observed again'')))
              else case update_disk_counter i s write_bytes of
                Inl e \<Rightarrow> (t, Inl e)
              | Inr s \<Rightarrow> observe_counters expected (put_state i (s\<lparr>di_present := True, di_expected := True\<rparr>) t) counters)"

definition cgroup_regressed :: "u64 option \<Rightarrow> u64 option \<Rightarrow> bool" where
  "cgroup_regressed previous current =
     (case (previous, current) of (Some p, Some c) \<Rightarrow> c < p | _ \<Rightarrow> False)"

definition show_bytes :: "u64 option \<Rightarrow> string" where
  "show_bytes v = (case v of None \<Rightarrow> [] | Some n \<Rightarrow> show_u64 n)"

definition observe_disk :: "disk_tracker \<Rightarrow> disk_observation \<Rightarrow> disk_tracker \<times> (ahrb_error + disk_snapshot)" where
  "observe_disk t obs =
     (if cgroup_regressed (dt_cgroup_write_bytes t) (do_cgroup_write_bytes obs)
      then (t, Inl (Protocol (''cgroup cumulative disk writes regressed from '' @ show_bytes (dt_cgroup_write_bytes t)
              @ '' to '' @ show_bytes (do_cgroup_write_bytes obs))))
      else let t = (case do_cgroup_write_bytes obs of None \<Rightarrow> t | Some c \<Rightarrow> t\<lparr>dt_cgroup_write_bytes := Some c\<rparr>);
               t = t\<lparr>dt_identities := map (\<lambda>(i, s). (i, s\<lparr>di_present := False, di_expected := False\<rparr>)) (dt_identities t)\<rparr>;
               t = foldl (\<lambda>t i. expect_identity i t) t (do_expected_identities obs)
           in case observe_counters (do_expected_identities obs) t (do_write_bytes_by_identity obs) of
                (t, Inl e) \<Rightarrow> (t, Inl e)
              | (t, Inr _) \<Rightarrow> (t, Inr (snapshot t)))"

definition terminal_of_retired :: "proc_identity \<Rightarrow> ahrb_error" where
  "terminal_of_retired i = Protocol (''structured terminal references retired disk identity '' @ show_identity i)"

definition note_terminal :: "disk_identity_state \<Rightarrow> disk_identity_state" where
  "note_terminal s = s\<lparr>di_terminal_observed := True, di_final_sample_observed := False\<rparr>"

definition note_structured_terminal :: "disk_tracker \<Rightarrow> proc_identity \<Rightarrow> disk_tracker \<times> (ahrb_error + unit)" where
  "note_structured_terminal t i =
     (case bt_get (dt_identities t) i of
        None \<Rightarrow> (t, Inl (Protocol (''structured terminal references unknown disk identity '' @ show_identity i)))
      | Some s \<Rightarrow> (if di_retirement s \<noteq> None then (t, Inl (terminal_of_retired i))
                  else (put_state i (note_terminal s) t, Inr ())))"

definition note_or_admit_structured_terminal :: "disk_tracker \<Rightarrow> proc_identity \<Rightarrow> disk_tracker \<times> (ahrb_error + unit)" where
  "note_or_admit_structured_terminal t i =
     (let s = disk_entry t i; t = put_state i s t
      in if di_retirement s \<noteq> None then (t, Inl (terminal_of_retired i))
         else (put_state i (note_terminal s) t, Inr ()))"

definition record_final_sample_before_reap :: "disk_tracker \<Rightarrow> proc_identity \<Rightarrow> u64 \<Rightarrow> disk_tracker \<times> (ahrb_error + unit)" where
  "record_final_sample_before_reap t i write_bytes =
     (case bt_get (dt_identities t) i of
        None \<Rightarrow> (t, Inl (Protocol (''final disk sample references unknown identity '' @ show_identity i)))
      | Some s \<Rightarrow>
          (if \<not> di_terminal_observed s
           then (t, Inl (Protocol (''final disk sample for '' @ show_identity i @ '' preceded its structured terminal'')))
           else if di_retirement s \<noteq> None
           then (t, Inl (Protocol (''final disk sample references retired identity '' @ show_identity i)))
           else case update_disk_counter i s write_bytes of
             Inl e \<Rightarrow> (t, Inl e)
           | Inr s \<Rightarrow> (put_state i (s\<lparr>di_present := True, di_final_sample_observed := True\<rparr>) t, Inr ())))"

definition retire_after_final_sample :: "disk_tracker \<Rightarrow> proc_identity \<Rightarrow> disk_tracker \<times> (ahrb_error + unit)" where
  "retire_after_final_sample t i =
     (case bt_get (dt_identities t) i of
        None \<Rightarrow> (t, Inl (Protocol (''disk retirement references unknown identity '' @ show_identity i)))
      | Some s \<Rightarrow>
          (if \<not> di_terminal_observed s \<or> \<not> di_final_sample_observed s
           then (t, Inl (Protocol (''disk identity '' @ show_identity i @ '' lacks a terminal-before-reap final sample'')))
           else (put_state i (s\<lparr>di_present := False, di_expected := False, di_retirement := Some TerminalFinalSample\<rparr>) t, Inr ())))"

definition retire_from_terminal_sample :: "disk_tracker \<Rightarrow> proc_identity \<Rightarrow> u64 \<Rightarrow> disk_tracker \<times> (ahrb_error + unit)" where
  "retire_from_terminal_sample t i write_bytes =
     (case note_or_admit_structured_terminal t i of
        (t, Inl e) \<Rightarrow> (t, Inl e)
      | (t, Inr _) \<Rightarrow>
          (case record_final_sample_before_reap t i write_bytes of
             (t, Inl e) \<Rightarrow> (t, Inl e)
           | (t, Inr _) \<Rightarrow> retire_after_final_sample t i))"

fun retire_identities :: "disk_tracker \<Rightarrow> proc_identity list \<Rightarrow> disk_tracker \<times> (ahrb_error + unit)" where
  "retire_identities t [] = (t, Inr ())"
| "retire_identities t (i # ids) =
     (case bt_get (dt_identities t) i of
        None \<Rightarrow> (t, Inl (Protocol (''cgroup disk retirement references unknown identity '' @ show_identity i)))
      | Some s \<Rightarrow>
          (if di_present s
           then (t, Inl (Protocol (''cgroup disk retirement identity '' @ show_identity i @ '' is still present'')))
           else retire_identities (put_state i (s\<lparr>di_expected := False, di_retirement := Some DurableCgroup\<rparr>) t) ids))"

definition retire_with_cgroup_after_quiet :: "disk_tracker \<Rightarrow> proc_identity list \<Rightarrow> u64 \<Rightarrow> disk_tracker \<times> (ahrb_error + unit)" where
  "retire_with_cgroup_after_quiet t ids bytes =
     (if cgroup_regressed (dt_cgroup_write_bytes t) (Some bytes)
      then (t, Inl (Protocol (''post-quiet cgroup disk writes regressed from '' @ show_bytes (dt_cgroup_write_bytes t)
              @ '' to '' @ show_u64 bytes)))
      else case retire_identities t ids of
             (t, Inl e) \<Rightarrow> (t, Inl e)
           | (t, Inr _) \<Rightarrow> (t\<lparr>dt_cgroup_write_bytes := Some bytes\<rparr>, Inr ()))"

section \<open>CPU totals\<close>

lemma saturating_sum:
  "unat (foldl (\<lambda>acc (_, s). saturating_add acc (f s)) a xs) = min (unat a + (\<Sum>e\<leftarrow>xs. unat (f (snd e)))) (2 ^ 64 - 1)"
proof (induction xs arbitrary: a)
  case Nil
  have "unat a < 2 ^ 64" using unsigned_less [of a] by simp
  then show ?case by simp
next
  case (Cons x xs)
  obtain k v where x: "x = (k, v)" by (cases x)
  have "unat (saturating_add a (f v)) = min (unat a + unat (f v)) (2 ^ 64 - 1)"
    by (auto simp: saturating_add_def unat_word_ariths)
  then show ?case using Cons.IH [of "saturating_add a (f v)"] by (simp add: x)
qed

lemma sum_btree: "bt_wf m \<Longrightarrow> (\<Sum>e\<leftarrow>m. g (snd e)) = (\<Sum>k \<in> set (map fst m). case bt_get m k of None \<Rightarrow> 0 | Some v \<Rightarrow> g v)"
  for g :: "'v \<Rightarrow> nat"
proof -
  assume "bt_wf m"
  then have d: "distinct (map fst m)" by (simp add: bt_wf_def strict_sorted_iff)
  have "(\<Sum>e\<leftarrow>m. g (snd e)) = (\<Sum>e\<leftarrow>m. case bt_get m (fst e) of None \<Rightarrow> 0 | Some v \<Rightarrow> g v)"
    using d by (intro arg_cong [where f = sum_list] map_cong refl) (auto simp: bt_get_eq_map_of)
  also have "\<dots> = (\<Sum>k\<leftarrow>map fst m. case bt_get m k of None \<Rightarrow> 0 | Some v \<Rightarrow> g v)" by (simp add: comp_def)
  also have "\<dots> = (\<Sum>k \<in> set (map fst m). case bt_get m k of None \<Rightarrow> 0 | Some v \<Rightarrow> g v)"
    by (rule sum_list_distinct_conv_sum_set [OF d])
  finally show ?thesis .
qed

lemma admit_counters_Inr:
  assumes "admit_counters t ws rs current = (t', Inr out)" and "distinct (map fst current)" and "bt_wf t"
  shows "bt_wf t' \<and> (\<forall>i. case map_of current i of
      Some n \<Rightarrow> (\<exists>s. bt_get t' i = Some s \<and> ci_accounted_ns s = n)
        \<and> (\<forall>s. bt_get t i = Some s \<longrightarrow> ci_accounted_ns s \<le> n)
    | None \<Rightarrow> bt_get t' i = bt_get t i)"
  using assms
proof (induction t ws rs current rule: admit_counters.induct)
  case (2 t ws rs i cpu_ns current)
  let ?s = "\<lparr>ci_accounted_ns = cpu_ns, ci_consecutive_misses = 0, ci_retired = False\<rparr>"
  obtain ws' rs' where step: "admit_counters (bt_insert i ?s t) ws' rs' current = (t', Inr out)"
    and old: "\<And>s. bt_get t i = Some s \<Longrightarrow> ci_accounted_ns s \<le> cpu_ns"
    using "2.prems"(1) by (auto split: option.splits if_splits)
  have IH: "bt_wf t' \<and> (\<forall>j. case map_of current j of
      Some n \<Rightarrow> (\<exists>s. bt_get t' j = Some s \<and> ci_accounted_ns s = n)
        \<and> (\<forall>s. bt_get (bt_insert i ?s t) j = Some s \<longrightarrow> ci_accounted_ns s \<le> n)
    | None \<Rightarrow> bt_get t' j = bt_get (bt_insert i ?s t) j)"
  proof (cases "bt_get t i")
    case None
    with "2.IH"(1) "2.prems" show ?thesis by (simp add: bt_wf_insert)
  next
    case (Some s)
    with "2.IH"(2) [OF Some] "2.prems" show ?thesis by (simp add: bt_wf_insert split: if_splits)
  qed
  have i: "map_of current i = None" using "2.prems"(2) by (simp add: map_of_eq_None_iff)
  show ?case
  proof (intro conjI allI)
    show "bt_wf t'" using IH by simp
    fix j
    show "case map_of ((i, cpu_ns) # current) j of
        Some n \<Rightarrow> (\<exists>s. bt_get t' j = Some s \<and> ci_accounted_ns s = n)
          \<and> (\<forall>s. bt_get t j = Some s \<longrightarrow> ci_accounted_ns s \<le> n)
      | None \<Rightarrow> bt_get t' j = bt_get t j"
      using IH [THEN conjunct2, rule_format, of j] i old
      by (cases "j = i") (auto simp: bt_get_insert split: option.splits)
  qed
qed auto

text \<open>The last counter a history gives for a process lifetime, and the lifetimes it knows.\<close>

definition last_counter :: "(proc_identity, u64) btree list \<Rightarrow> proc_identity \<Rightarrow> u64 option" where
  "last_counter history i = fold (\<lambda>current acc. case bt_get current i of Some n \<Rightarrow> Some n | None \<Rightarrow> acc) history None"

definition lifetimes :: "(proc_identity, u64) btree list \<Rightarrow> proc_identity set" where
  "lifetimes history = (\<Union>current \<in> set history. set (map fst current))"

definition exact_total :: "(proc_identity, u64) btree list \<Rightarrow> nat" where
  "exact_total history =
     min (\<Sum>i \<in> lifetimes history. case last_counter history i of None \<Rightarrow> 0 | Some n \<Rightarrow> unat n) (2 ^ 64 - 1)"

lemma last_counter_snoc:
  "last_counter (history @ [current]) i = (case bt_get current i of Some n \<Rightarrow> Some n | None \<Rightarrow> last_counter history i)"
  unfolding last_counter_def by (cases "bt_get current i") simp_all

definition tracks :: "cpu_tracker \<Rightarrow> (proc_identity, u64) btree list \<Rightarrow> bool" where
  "tracks t history \<longleftrightarrow> bt_wf t \<and> set (map fst t) = lifetimes history
     \<and> (\<forall>i. map_option ci_accounted_ns (bt_get t i) = last_counter history i)"

lemma miss_refresh_get:
  "bt_get (map (\<lambda>(i, s). (i, miss_refresh current i s)) t) j = map_option (miss_refresh current j) (bt_get t j)"
  by (induction t) auto

lemma miss_refresh_accounted [simp]: "ci_accounted_ns (miss_refresh current i s) = ci_accounted_ns s"
  by (simp add: miss_refresh_def Let_def)

lemma update_cpu_tracks:
  assumes "update_cpu t current = (t', Inr u)" "tracks t history" "bt_wf current"
  shows "tracks t' (history @ [current]) \<and> unat (cu_cumulative_ns u) = exact_total (history @ [current])
    \<and> exact_total history \<le> exact_total (history @ [current])"
proof -
  from assms(1) obtain ta out where a: "admit_counters t [] [] current = (ta, Inr out)"
    and t': "t' = map (\<lambda>(i, s). (i, miss_refresh current i s)) ta" and u: "cu_cumulative_ns u = cpu_total t'"
    by (auto simp: update_cpu_def Let_def split: prod.splits sum.splits)
  have d: "distinct (map fst current)" using assms(3) by (simp add: bt_wf_def strict_sorted_iff)
  have t: "bt_wf t" "set (map fst t) = lifetimes history" "\<And>i. map_option ci_accounted_ns (bt_get t i) = last_counter history i"
    using assms(2) by (auto simp: tracks_def)
  note step = admit_counters_Inr [OF a d t(1)]
  have wf: "bt_wf t'" using step by (simp add: t' bt_wf_def comp_def split_def)
  have get: "map_option ci_accounted_ns (bt_get t' i) = last_counter (history @ [current]) i" for i
    using step [THEN conjunct2, rule_format, of i] t(3) [of i]
    unfolding t' miss_refresh_get last_counter_snoc bt_get_eq_map_of [of current i]
    by (auto simp: option.map_comp comp_def split: option.splits)
  have "set (map fst ta) = lifetimes (history @ [current])"
  proof -
    have "i \<in> set (map fst ta) \<longleftrightarrow> i \<in> set (map fst current) \<or> i \<in> set (map fst t)" for i
      using step [THEN conjunct2, rule_format, of i]
      unfolding keys_bt_get mem_Collect_eq bt_get_eq_map_of [of current i] by (auto split: option.splits)
    then have "set (map fst ta) = set (map fst current) \<union> set (map fst t)" by blast
    then show ?thesis unfolding t(2) by (simp add: lifetimes_def Un_commute)
  qed
  then have keys: "set (map fst t') = lifetimes (history @ [current])" by (simp add: t' comp_def split_def)
  have "unat (cpu_total t') = min (\<Sum>e\<leftarrow>t'. unat (ci_accounted_ns (snd e))) (2 ^ 64 - 1)"
    using saturating_sum [of ci_accounted_ns 0 t'] by (simp add: cpu_total_def)
  also have "\<dots> = exact_total (history @ [current])"
    unfolding sum_btree [OF wf, of "\<lambda>s. unat (ci_accounted_ns s)"] exact_total_def keys
    by (intro arg_cong2 [where f = min] sum.cong refl) (auto simp: get [symmetric] split: option.splits)
  finally have total: "unat (cu_cumulative_ns u) = exact_total (history @ [current])" by (simp add: u)
  have "exact_total history \<le> exact_total (history @ [current])"
  proof -
    have "(case last_counter history i of None \<Rightarrow> 0 | Some n \<Rightarrow> unat n)
        \<le> (case last_counter (history @ [current]) i of None \<Rightarrow> 0 | Some n \<Rightarrow> unat n)" for i
      using step [THEN conjunct2, rule_format, of i] t(3) [of i]
      unfolding last_counter_snoc bt_get_eq_map_of [of current i]
      by (auto simp: word_le_nat_alt split: option.splits)
    moreover have "finite (lifetimes (history @ [current]))" unfolding keys [symmetric] by simp
    moreover have "lifetimes history \<subseteq> lifetimes (history @ [current])" by (auto simp: lifetimes_def)
    ultimately have "(\<Sum>i \<in> lifetimes history. case last_counter history i of None \<Rightarrow> 0 | Some n \<Rightarrow> unat n)
        \<le> (\<Sum>i \<in> lifetimes (history @ [current]). case last_counter (history @ [current]) i of None \<Rightarrow> 0 | Some n \<Rightarrow> unat n)"
      by (meson order_trans sum_mono sum_mono2 le0)
    then show ?thesis by (simp add: exact_total_def)
  qed
  with wf keys get total show ?thesis by (simp add: tracks_def)
qed

text \<open>The totals of a history, up to the first refused observation.\<close>

fun run_cpu :: "cpu_tracker \<Rightarrow> (proc_identity, u64) btree list \<Rightarrow> ahrb_error + u64 list" where
  "run_cpu t [] = Inr []"
| "run_cpu t (current # history) =
     (case update_cpu t current of
        (_, Inl e) \<Rightarrow> Inl e
      | (t', Inr u) \<Rightarrow> and_then (run_cpu t' history) (\<lambda>totals. Inr (cu_cumulative_ns u # totals)))"

lemma run_cpu_totals:
  assumes "run_cpu t future = Inr totals" "tracks t history" "list_all bt_wf future"
  shows "map unat totals = map (\<lambda>k. exact_total (history @ take k future)) [1..<Suc (length future)]
    \<and> sorted (exact_total history # map unat totals)"
  using assms
proof (induction future arbitrary: t history totals)
  case (Cons current future)
  from Cons.prems(1) obtain t' u rest where step: "update_cpu t current = (t', Inr u)"
    and rest: "run_cpu t' future = Inr rest" and totals: "totals = cu_cumulative_ns u # rest"
    by (auto simp: and_then_Inr_iff split: prod.splits sum.splits)
  have now: "tracks t' (history @ [current])" "unat (cu_cumulative_ns u) = exact_total (history @ [current])"
    "exact_total history \<le> exact_total (history @ [current])"
    using update_cpu_tracks [OF step Cons.prems(2)] Cons.prems(3) by auto
  have wf: "list_all bt_wf future" using Cons.prems(3) by simp
  have IH: "map unat rest = map (\<lambda>k. exact_total ((history @ [current]) @ take k future)) [1..<Suc (length future)]"
    "sorted (exact_total (history @ [current]) # map unat rest)"
    using Cons.IH [OF rest now(1) wf] by blast+
  have "[1..<Suc (length (current # future))] = 1 # map Suc [1..<Suc (length future)]"
    by (simp add: map_Suc_upt upt_conv_Cons del: upt_Suc)
  with IH(1) now(2) have "map unat totals = map (\<lambda>k. exact_total (history @ take k (current # future))) [1..<Suc (length (current # future))]"
    by (simp add: totals comp_def del: upt_Suc)
  moreover have "sorted (exact_total history # map unat totals)"
    unfolding totals list.map now(2) sorted2 using IH(2) now(3) by blast
  ultimately show ?case by blast
qed simp

text \<open>C11: CPU time of a process tree.  Over any history of observations that the tracker accepts, with processes
  that vanish, retire and return, every total is the exact sum of the last counter of every lifetime
  seen so far, capped at the largest 64-bit number, and the totals never decrease.\<close>

theorem cpu_totals_count_every_lifetime:
  assumes "run_cpu [] history = Inr totals" "list_all bt_wf history"
  shows "map unat totals = map (\<lambda>k. exact_total (take k history)) [1..<Suc (length history)] \<and> sorted (map unat totals)"
proof -
  have "tracks [] []" by (simp add: tracks_def bt_wf_def lifetimes_def last_counter_def)
  from run_cpu_totals [OF assms(1) this assms(2)] show ?thesis
    unfolding append_Nil sorted_simps(2) by blast
qed

theorem cpu_totals_count_every_lifetime_witness:
  "\<exists>totals. run_cpu [] [[((7, 1), 5)], [], [], [], [((7, 1), 8), ((9, 2), 4)]] = Inr totals \<and> totals = [5, 5, 5, 5, 12]
     \<and> sorted (map unat totals)"
proof -
  let ?h = "[[((7, 1), 5)], [], [], [], [((7, 1), 8), ((9, 2), 4)]] :: (proc_identity, u64) btree list"
  have run: "run_cpu [] ?h = Inr [5, 5, 5, 5, 12]"
    by (simp add: update_cpu_def miss_refresh_def newly_missing_def cpu_total_def saturating_add_def saturating_succ_def
        cpu_retirement_misses_def bt_contains_def Let_def)
  have "list_all bt_wf ?h" by (simp add: bt_wf_def)
  from cpu_totals_count_every_lifetime [OF run this] run show ?thesis by blast
qed

section \<open>Histories of the disk tracker\<close>

datatype disk_op = ObserveDisk disk_observation | NoteTerminal proc_identity | AdmitTerminal proc_identity
  | FinalSample proc_identity u64 | RetireSampled proc_identity | RetireTerminal proc_identity u64
  | RetireCgroup "proc_identity list" u64

fun disk_step :: "disk_tracker \<Rightarrow> disk_op \<Rightarrow> disk_tracker" where
  "disk_step t (ObserveDisk obs) = fst (observe_disk t obs)"
| "disk_step t (NoteTerminal i) = fst (note_structured_terminal t i)"
| "disk_step t (AdmitTerminal i) = fst (note_or_admit_structured_terminal t i)"
| "disk_step t (FinalSample i w) = fst (record_final_sample_before_reap t i w)"
| "disk_step t (RetireSampled i) = fst (retire_after_final_sample t i)"
| "disk_step t (RetireTerminal i w) = fst (retire_from_terminal_sample t i w)"
| "disk_step t (RetireCgroup ids w) = fst (retire_with_cgroup_after_quiet t ids w)"

definition run_disk :: "disk_op list \<Rightarrow> disk_tracker" where
  "run_disk ops = foldl disk_step empty_disk_tracker ops"

fun notes_terminal :: "proc_identity \<Rightarrow> disk_op \<Rightarrow> bool" where
  "notes_terminal i (NoteTerminal j) = (i = j)"
| "notes_terminal i (AdmitTerminal j) = (i = j)"
| "notes_terminal i (RetireTerminal j _) = (i = j)"
| "notes_terminal i _ = False"

fun samples_final :: "proc_identity \<Rightarrow> disk_op \<Rightarrow> bool" where
  "samples_final i (FinalSample j _) = (i = j)"
| "samples_final i (RetireTerminal j _) = (i = j)"
| "samples_final i _ = False"

text \<open>Counters only grow, and a retirement is never taken back.\<close>

definition bytes_le :: "u64 option \<Rightarrow> u64 option \<Rightarrow> bool" where
  "bytes_le a b \<longleftrightarrow> (case a of None \<Rightarrow> True | Some x \<Rightarrow> (case b of None \<Rightarrow> False | Some y \<Rightarrow> x \<le> y))"

definition advances :: "disk_identity_state \<Rightarrow> disk_identity_state \<Rightarrow> bool" where
  "advances s s' \<longleftrightarrow> bytes_le (di_write_bytes s) (di_write_bytes s') \<and> (di_retirement s \<noteq> None \<longrightarrow> di_retirement s' \<noteq> None)"

text \<open>An operation that is neither a terminal nor a sample keeps the two flags as they were.\<close>

definition keeps_flags :: "disk_identity_state \<Rightarrow> disk_identity_state \<Rightarrow> bool" where
  "keeps_flags s s' \<longleftrightarrow> di_terminal_observed s' = di_terminal_observed s \<and> di_final_sample_observed s' = di_final_sample_observed s
     \<and> di_retirement s' = di_retirement s"

lemma bytes_le_refl [simp]: "bytes_le a a"
  by (simp add: bytes_le_def split: option.split)

lemma bytes_le_trans: "bytes_le a b \<Longrightarrow> bytes_le b c \<Longrightarrow> bytes_le a c"
  by (auto simp: bytes_le_def split: option.splits)

lemma advances_refl [simp]: "advances s s"
  by (simp add: advances_def)

lemma advances_trans: "advances a b \<Longrightarrow> advances b c \<Longrightarrow> advances a c"
  by (auto simp: advances_def intro: bytes_le_trans)

lemma disk_entry_put: "disk_entry (put_state i s t) j = (if j = i then s else disk_entry t j)"
  by (simp add: disk_entry_def put_state_def bt_get_insert)

lemma disk_entry_known: "bt_get (dt_identities t) i = Some s \<Longrightarrow> disk_entry t i = s"
  by (simp add: disk_entry_def)

lemma disk_entry_cgroup [simp]: "disk_entry (t\<lparr>dt_cgroup_write_bytes := c\<rparr>) j = disk_entry t j"
  by (simp add: disk_entry_def)

lemma update_disk_counter_Inr:
  "update_disk_counter i s w = Inr s' \<Longrightarrow> s' = s\<lparr>di_write_bytes := Some w\<rparr> \<and> bytes_le (di_write_bytes s) (Some w)"
  by (auto simp: update_disk_counter_def bytes_le_def split: option.splits if_splits)

lemma observe_counters_entry:
  "advances (disk_entry t j) (disk_entry (fst (observe_counters expected t counters)) j)
     \<and> keeps_flags (disk_entry t j) (disk_entry (fst (observe_counters expected t counters)) j)"
proof (induction expected t counters rule: observe_counters.induct)
  case (2 expected t i w counters)
  let ?s = "disk_entry t i"
  show ?case
  proof (cases "i \<in> set expected \<and> di_retirement ?s = None")
    case True
    show ?thesis
    proof (cases "update_disk_counter i ?s w")
      case (Inl e)
      with True show ?thesis by (simp add: Let_def disk_entry_put keeps_flags_def)
    next
      case (Inr s')
      note s' = update_disk_counter_Inr [OF Inr]
      let ?t = "put_state i (s'\<lparr>di_present := True, di_expected := True\<rparr>) (put_state i ?s t)"
      have now: "advances (disk_entry t j) (disk_entry ?t j) \<and> keeps_flags (disk_entry t j) (disk_entry ?t j)"
        using s' by (auto simp: disk_entry_put advances_def keeps_flags_def)
      moreover have "advances (disk_entry ?t j) (disk_entry (fst (observe_counters expected ?t counters)) j)
          \<and> keeps_flags (disk_entry ?t j) (disk_entry (fst (observe_counters expected ?t counters)) j)"
        using "2.IH" [OF _ refl refl _ Inr] True by simp
      moreover have "observe_counters expected t ((i, w) # counters) = observe_counters expected ?t counters"
        using True Inr by (simp add: Let_def)
      ultimately show ?thesis by (auto intro: advances_trans simp: keeps_flags_def)
    qed
  qed (auto simp: Let_def disk_entry_put keeps_flags_def)
qed (simp add: keeps_flags_def)

lemma expect_entry: "advances (disk_entry t j) (disk_entry (foldl (\<lambda>t i. expect_identity i t) t ids) j)
    \<and> keeps_flags (disk_entry t j) (disk_entry (foldl (\<lambda>t i. expect_identity i t) t ids) j)"
proof (induction ids arbitrary: t)
  case (Cons i ids)
  have "advances (disk_entry t j) (disk_entry (expect_identity i t) j) \<and> keeps_flags (disk_entry t j) (disk_entry (expect_identity i t) j)"
    by (simp add: expect_identity_def disk_entry_put advances_def keeps_flags_def)
  with Cons.IH [of "expect_identity i t"] show ?case by (auto intro: advances_trans simp: keeps_flags_def)
qed (simp add: keeps_flags_def)

lemma absent_entry:
  "advances (disk_entry t j) (disk_entry (t\<lparr>dt_identities := map (\<lambda>(i, s). (i, s\<lparr>di_present := False, di_expected := False\<rparr>)) (dt_identities t)\<rparr>) j)
   \<and> keeps_flags (disk_entry t j) (disk_entry (t\<lparr>dt_identities := map (\<lambda>(i, s). (i, s\<lparr>di_present := False, di_expected := False\<rparr>)) (dt_identities t)\<rparr>) j)"
proof -
  have get: "bt_get (map (\<lambda>(i, s). (i, s\<lparr>di_present := False, di_expected := False\<rparr>)) m) j
      = map_option (\<lambda>s. s\<lparr>di_present := False, di_expected := False\<rparr>) (bt_get m j)" for m :: "(proc_identity, disk_identity_state) btree"
    by (induction m) auto
  show ?thesis
    by (cases "bt_get (dt_identities t) j") (simp_all add: disk_entry_def get advances_def keeps_flags_def)
qed

lemma observe_disk_entry:
  "advances (disk_entry t j) (disk_entry (fst (observe_disk t obs)) j) \<and> keeps_flags (disk_entry t j) (disk_entry (fst (observe_disk t obs)) j)"
proof (cases "cgroup_regressed (dt_cgroup_write_bytes t) (do_cgroup_write_bytes obs)")
  case False
  define t1 where "t1 = (case do_cgroup_write_bytes obs of None \<Rightarrow> t | Some c \<Rightarrow> t\<lparr>dt_cgroup_write_bytes := Some c\<rparr>)"
  define t2 where "t2 = t1\<lparr>dt_identities := map (\<lambda>(i, s). (i, s\<lparr>di_present := False, di_expected := False\<rparr>)) (dt_identities t1)\<rparr>"
  define t3 where "t3 = foldl (\<lambda>t i. expect_identity i t) t2 (do_expected_identities obs)"
  have "fst (observe_disk t obs) = fst (observe_counters (do_expected_identities obs) t3 (do_write_bytes_by_identity obs))"
    using False by (simp add: observe_disk_def Let_def t1_def t2_def t3_def split: prod.split sum.split)
  moreover have "disk_entry t1 j = disk_entry t j" by (simp add: t1_def split: option.split)
  moreover note absent_entry [of t1 j, folded t2_def] expect_entry [of t2 j "do_expected_identities obs", folded t3_def]
    observe_counters_entry [of t3 j "do_expected_identities obs" "do_write_bytes_by_identity obs"]
  ultimately show ?thesis by (auto intro: advances_trans simp: keeps_flags_def)
qed (simp add: observe_disk_def keeps_flags_def)

lemma retire_identities_entry:
  "let s = disk_entry t j; s' = disk_entry (fst (retire_identities t ids)) j in
     advances s s' \<and> di_terminal_observed s' = di_terminal_observed s \<and> di_final_sample_observed s' = di_final_sample_observed s
     \<and> (di_retirement s' = di_retirement s \<or> di_retirement s' = Some DurableCgroup)"
proof (induction t ids rule: retire_identities.induct)
  case (2 t i ids)
  show ?case
  proof (cases "bt_get (dt_identities t) i")
    case (Some s)
    note entry = disk_entry_known [OF Some]
    show ?thesis
    proof (cases "di_present s")
      case False
      let ?t = "put_state i (s\<lparr>di_expected := False, di_retirement := Some DurableCgroup\<rparr>) t"
      have "advances (disk_entry t j) (disk_entry ?t j)
          \<and> di_terminal_observed (disk_entry ?t j) = di_terminal_observed (disk_entry t j)
          \<and> di_final_sample_observed (disk_entry ?t j) = di_final_sample_observed (disk_entry t j)
          \<and> (di_retirement (disk_entry ?t j) = di_retirement (disk_entry t j) \<or> di_retirement (disk_entry ?t j) = Some DurableCgroup)"
        using entry by (auto simp: disk_entry_put advances_def)
      with "2.IH" [OF Some False] Some False show ?thesis by (auto simp: Let_def intro: advances_trans)
    qed (simp add: Some Let_def)
  qed (simp add: Let_def)
qed (simp add: Let_def)

text \<open>One step: how the entry of an identity may change.\<close>

definition step_effect :: "proc_identity \<Rightarrow> disk_op \<Rightarrow> disk_identity_state \<Rightarrow> disk_identity_state \<Rightarrow> bool" where
  "step_effect i opn s s' \<longleftrightarrow> advances s s'
     \<and> (di_terminal_observed s' \<longrightarrow> di_terminal_observed s \<or> notes_terminal i opn)
     \<and> (di_final_sample_observed s' \<longrightarrow> di_final_sample_observed s
          \<or> samples_final i opn \<and> (di_terminal_observed s \<or> notes_terminal i opn))
     \<and> (di_retirement s' = Some TerminalFinalSample \<longrightarrow> di_retirement s = Some TerminalFinalSample \<or> di_final_sample_observed s
          \<or> samples_final i opn \<and> (di_terminal_observed s \<or> notes_terminal i opn))"

lemma step_effect_refl [simp]: "step_effect i opn s s"
  by (simp add: step_effect_def)

lemma note_entry:
  "let s' = disk_entry (fst (note_or_admit_structured_terminal t i)) j in
     s' = disk_entry t j \<or> j = i \<and> s' = note_terminal (disk_entry t i)"
  by (auto simp: note_or_admit_structured_terminal_def Let_def disk_entry_put)

lemma final_entry:
  "let s = disk_entry t j; s' = disk_entry (fst (record_final_sample_before_reap t i w)) j in
     s' = s \<or> j = i \<and> di_terminal_observed s \<and> bytes_le (di_write_bytes s) (Some w)
       \<and> s' = s\<lparr>di_write_bytes := Some w, di_present := True, di_final_sample_observed := True\<rparr>"
  by (auto simp: record_final_sample_before_reap_def Let_def disk_entry_put disk_entry_known split: option.splits sum.splits
      dest!: update_disk_counter_Inr)

lemma retire_entry:
  "let s = disk_entry t j; s' = disk_entry (fst (retire_after_final_sample t i)) j in
     s' = s \<or> j = i \<and> di_final_sample_observed s
       \<and> s' = s\<lparr>di_present := False, di_expected := False, di_retirement := Some TerminalFinalSample\<rparr>"
  by (auto simp: retire_after_final_sample_def Let_def disk_entry_put disk_entry_known split: option.splits)

lemma disk_step_effect: "step_effect j opn (disk_entry t j) (disk_entry (disk_step t opn) j)"
proof (cases opn)
  case (ObserveDisk obs)
  then show ?thesis using observe_disk_entry [of t j obs] by (auto simp: step_effect_def keeps_flags_def)
next
  case (NoteTerminal i)
  then show ?thesis
    by (auto simp: note_structured_terminal_def disk_entry_put disk_entry_known step_effect_def advances_def note_terminal_def
        split: option.splits)
next
  case (AdmitTerminal i)
  then show ?thesis
    using note_entry [of t i j] by (auto simp: Let_def step_effect_def advances_def note_terminal_def)
next
  case (FinalSample i w)
  then show ?thesis
    using final_entry [of t j i w] by (auto simp: Let_def step_effect_def advances_def)
next
  case (RetireSampled i)
  then show ?thesis
    using retire_entry [of t j i] by (auto simp: Let_def step_effect_def advances_def)
next
  case (RetireTerminal i w)
  obtain t1 r1 where n: "note_or_admit_structured_terminal t i = (t1, r1)" by (cases "note_or_admit_structured_terminal t i")
  obtain t2 r2 where f: "record_final_sample_before_reap t1 i w = (t2, r2)" by (cases "record_final_sample_before_reap t1 i w")
  have "disk_step t opn \<in> {t1, t2, fst (retire_after_final_sample t2 i)}"
    by (auto simp: RetireTerminal retire_from_terminal_sample_def n f split: sum.split)
  then show ?thesis
    using note_entry [of t i j] final_entry [of t1 j i w] retire_entry [of t2 j i]
    by (auto simp: n f RetireTerminal Let_def step_effect_def advances_def note_terminal_def)
next
  case (RetireCgroup ids w)
  have "disk_entry (disk_step t opn) j \<in> {disk_entry t j, disk_entry (fst (retire_identities t ids)) j}"
    by (auto simp: RetireCgroup retire_with_cgroup_after_quiet_def split: prod.split sum.split)
  then show ?thesis
    using retire_identities_entry [of t j ids] by (auto simp: Let_def step_effect_def)
qed

lemma run_disk_snoc: "run_disk (ops @ [opn]) = disk_step (run_disk ops) opn"
  by (simp add: run_disk_def)

lemma run_disk_advances: "advances (disk_entry (run_disk ops) i) (disk_entry (run_disk (ops @ later)) i)"
proof (induction later rule: rev_induct)
  case (snoc opn later)
  have "advances (disk_entry (run_disk (ops @ later)) i) (disk_entry (run_disk (ops @ later @ [opn])) i)"
    using disk_step_effect [of i opn "run_disk (ops @ later)"] run_disk_snoc [of "ops @ later" opn] by (simp add: step_effect_def)
  with snoc show ?case using advances_trans by blast
qed simp

definition noted :: "proc_identity \<Rightarrow> disk_op list \<Rightarrow> bool" where
  "noted i ops \<longleftrightarrow> list_ex (notes_terminal i) ops"

definition sampled_after_terminal :: "proc_identity \<Rightarrow> disk_op list \<Rightarrow> bool" where
  "sampled_after_terminal i ops \<longleftrightarrow>
     (\<exists>k < length ops. samples_final i (ops ! k) \<and> noted i (take (Suc k) ops))"

lemma noted_snoc: "noted i (ops @ [opn]) \<longleftrightarrow> noted i ops \<or> notes_terminal i opn"
  by (simp add: noted_def)

lemma sampled_snoc:
  "sampled_after_terminal i (ops @ [opn]) \<longleftrightarrow>
     sampled_after_terminal i ops \<or> samples_final i opn \<and> (noted i ops \<or> notes_terminal i opn)"
proof -
  let ?P = "\<lambda>xs k. samples_final i (xs ! k) \<and> noted i (take (Suc k) xs)"
  have old: "?P (ops @ [opn]) k \<longleftrightarrow> ?P ops k" if "k < length ops" for k
    using that by (simp add: nth_append Suc_leI)
  have new: "?P (ops @ [opn]) (length ops) \<longleftrightarrow> samples_final i opn \<and> (noted i ops \<or> notes_terminal i opn)"
    by (simp add: noted_snoc)
  have "(\<exists>k < length (ops @ [opn]). ?P (ops @ [opn]) k) \<longleftrightarrow>
      (\<exists>k < length ops. ?P (ops @ [opn]) k) \<or> ?P (ops @ [opn]) (length ops)"
    unfolding length_append_singleton less_Suc_eq by blast
  then show ?thesis unfolding sampled_after_terminal_def using old new by blast
qed

lemma run_disk_flags:
  "let s = disk_entry (run_disk ops) i in
     (di_terminal_observed s \<longrightarrow> noted i ops) \<and> (di_final_sample_observed s \<longrightarrow> sampled_after_terminal i ops)
     \<and> (di_retirement s = Some TerminalFinalSample \<longrightarrow> sampled_after_terminal i ops)"
proof (induction ops rule: rev_induct)
  case Nil
  show ?case by (simp add: run_disk_def empty_disk_tracker_def disk_entry_def default_disk_state_def)
next
  case (snoc opn ops)
  then show ?case
    using disk_step_effect [of i opn "run_disk ops"]
    by (auto simp: Let_def run_disk_snoc step_effect_def noted_snoc sampled_snoc)
qed

text \<open>C12: Retirement from disk accounting.  Whatever operations the tracker gets, in whatever order, refused ones
  included: an identity counts as retired by its final sample only if such a sample was offered after (or
  with) its structured terminal; retirement is permanent, and the counter of an identity never drops.\<close>

theorem disk_retirement_is_evidenced:
  "(disk_identity_status (disk_entry (run_disk ops) i) = DS_RetiredAfterFinalSample \<longrightarrow> sampled_after_terminal i ops)
   \<and> (disk_identity_status (disk_entry (run_disk ops) i) = DS_FinalSampleBeforeReap \<longrightarrow> sampled_after_terminal i ops)
   \<and> advances (disk_entry (run_disk ops) i) (disk_entry (run_disk (ops @ later)) i)"
  using run_disk_flags [of ops i] run_disk_advances [of ops i later]
  by (auto simp: Let_def disk_identity_status_def split: option.splits disk_retirement.splits if_splits)

theorem disk_retirement_is_evidenced_witness:
  "let ops = [AdmitTerminal (7, 1), FinalSample (7, 1) 40, RetireSampled (7, 1)] in
     disk_identity_status (disk_entry (run_disk ops) (7, 1)) = DS_RetiredAfterFinalSample \<and> sampled_after_terminal (7, 1) ops"
proof -
  let ?ops = "[AdmitTerminal (7, 1), FinalSample (7, 1) 40, RetireSampled (7, 1)]"
  have "disk_identity_status (disk_entry (run_disk ?ops) (7, 1)) = DS_RetiredAfterFinalSample"
    by (simp add: run_disk_def empty_disk_tracker_def disk_entry_def note_or_admit_structured_terminal_def put_state_def
        record_final_sample_before_reap_def update_disk_counter_def retire_after_final_sample_def note_terminal_def
        default_disk_state_def disk_identity_status_def Let_def)
  with disk_retirement_is_evidenced [of ?ops "(7, 1)" "[]"] show ?thesis by simp
qed

end
