(* ===== verification/Spec2Isabelle.thy ===== *)
theory Spec2Isabelle
  imports Certification_Properties Storage_Properties Growth_Properties Accounting_Properties
    Lifecycle_Properties Timestamps_Properties Determinism_Properties Workflow_Properties
    Marker_Properties Barriers Events Tokenizer_Properties Economy_Properties Retention Row3 Disk_Io
    Tool_Capture Slow_Stream Workspace_Fault Session_Residue Context_Recovery Resume_Latency Torn_Tail
    Fairness Usage_Reporting Compaction Event_Stream Fidelity Durability Row_Timing Auxiliaries
    Automation_Properties Diff_Properties Trackers
begin

text \<open>
  A development for harness-bench (the crate \<open>ahrb\<close> under \<open>src/src\<close>), a benchmark that runs coding
  harnesses against a fake model and decides, from typed evidence, which rows of a test matrix
  pass, whether a suite earns a badge, and how much storage a harness leaves behind.

  The program.  A run loads a \<^emph>\<open>manifest\<close> of the harness (\<open>manifest.rs\<close>), executes the rows of the
  \<^emph>\<open>matrix\<close> (\<open>scenarios.rs\<close>) through a driver, a runner and samplers, and collects one typed
  evidence payload per row (\<open>matrix_evidence.rs\<close>).  The pure core then turns evidence into
  decisions: \<open>capability_for_row\<close> says from the manifest whether a row applies,
  \<open>evaluate_row\<close> classifies it, \<open>certify\<close> and \<open>suite_exit_code\<close> (\<open>evaluate.rs\<close>) aggregate the
  results, and \<open>results.rs\<close> indexes them.  The storage suite (\<open>storage.rs\<close>, \<open>storage/\<close>) has a core
  of its own: declared areas as globs, lifecycle verbs, file inventories captured until they are
  stable, and evaluations of growth, closing, resuming, and deletion.  This development models
  that core.

  Theories, in the order of their imports, and the code they model:

  \<^item> Prelude: machine integers as words with the checked, saturating and absolute-difference
    operations of Rust, decimal printing and parsing, string helpers, \<open>BTreeMap\<close> as an ordered
    association list (locale \<open>ordered_map\<close>, interpreted as \<open>bt\<close>), and \<open>AhrbError\<close> (\<open>error.rs\<close>)
    in the left component of a sum.
  \<^item> F64: IEEE binary64 as exact rationals with rounding to nearest even, infinities and NaN; the
    sign of a computed zero is not represented (the wave 3 evaluators refuse a negative zero, which the
    model takes for zero; a zero that is printed has no sign).  The numbers of JSON documents keep it, see Json_Values.
  \<^item> Outcomes, Scenarios, Classify: results, the 73 rows with their roles, classification.
  \<^item> Manifest: the data model of \<open>manifest.rs\<close>; Example_Manifest is an instance for the witnesses.
  \<^item> Matrix_Evidence, Capability: evidence payloads, the criteria of every row and the oracles of
    the automation rows; the capability of a row and its evaluation.  Row_Oracles relates
    the executable criteria to what they say of the observations.
  \<^item> Certify: automation score, certification, exit code and label; Certification holds the lemmas.
  \<^item> Search: breadth-first search with a seen-set, as the two overlap tests run it, with the locale
    \<open>finite_search\<close>; Globs: glob validation, matching and overlap, with the two interpretations
    \<open>comp\<close> and \<open>glob\<close> of that locale on the two searches.
  \<^item> Storage_Config: \<open>StorageConfig::validate\<close>, \<open>validate_verb\<close> and \<open>family\<close>; locale \<open>pattern_overlap\<close>
    is what the configuration needs of globs, interpreted as \<open>globs\<close>.
  \<^item> Growth: deadline, checkpoints, median, percentile and growth class of \<open>storage.rs\<close>; floats and
    growth classes are instances of \<open>linorder\<close> (the total order of \<open>total_cmp\<close>; the derived \<open>Ord\<close>).
  \<^item> Accounting: inventories, growth, changed paths, the capture errors and the settle loop of
    \<open>storage/accounting.rs\<close>.
  \<^item> Lifecycle: residue, scopes, outcome precedences, resume brackets and close evaluation of
    \<open>storage/lifecycle.rs\<close> with the record types of \<open>storage/evidence.rs\<close>.
  \<^item> Timestamps: timestamps, outcome counts and compact rows of \<open>results.rs\<close>; Calendar_Proofs holds
    the arithmetic of the civil calendar.
  \<^item> Strings: the string functions of the standard library that several components call.
  \<^item> Json_Values: \<open>serde_json\<close> values (objects as ordered maps, as in that crate without its
    \<open>preserve_order\<close> feature), their canonical form, and JSON pointers.  A negative zero is a number of its own,
    \<open>JMinusZero\<close>, that serializers may tell from zero; \<open>json_eq\<close> is the equality of the crate, which does not.
  \<^item> Determinism, Determinism_Rows: \<open>determinism.rs\<close>, the normalization of owned values in recorded
    requests, the leaf-wise comparison, and the evaluations of rows 63 and 64.  Comparison_Proofs
    shows what the comparison sees and where it points.
  \<^item> Workflow: \<open>workflow.rs\<close>, the validation of a scripted workflow, the route markers, the transition
    machine that the fake provider consults, and the barrier operations; Workflow_Proofs holds the
    invariants of the machine, Marker_Properties the round trip of markers.
  \<^item> Barriers: the barrier coordinator as a system of concurrent calls.  Every lock section and every
    notification is a step of its own, a waiting call has a program counter, and the \<open>Notify\<close> of
    tokio is a record of operations with its documented law \<open>notify_law\<close>.
  \<^item> Events: \<open>events.rs\<close>, the table-driven normalizer of source events.
  \<^item> Tokenizer, Economy: \<open>economy.rs\<close>, the byte-pair reference tokenizer, the verification of the
    scripted effect, the cache, redundancy and overhead measurements and \<open>analyze\<close>.
  \<^item> Retention: \<open>storage/retention.rs\<close>, the search of retained files for request content, the union of
    matched ranges and the retention class.  Row3: \<open>row3.rs\<close>.
  \<^item> Wave_Statistics: the statistics of \<open>wave2.rs\<close>; Disk_Io, Model_Wait, Slow_Stream, Tool_Capture and
    Workspace_Fault are its rows 47, 48, 59, 60 and 61.  Paced is the validation of a paced response that
    rows 48 and 59 share, with the ledger records of \<open>fake_model.rs\<close>.
  \<^item> Wave_Rows: the validation of trials with distinct keys, counters and slopes of the later waves.
    Session_Residue, Context_Recovery, Resume_Latency and Torn_Tail are rows 50 to 53 of
    \<open>wave3_long_horizon.rs\<close>; Fanout and Fairness are rows 54 and 55 of \<open>wave3_concurrency.rs\<close>;
    Wave4_Events, Usage_Reporting, Event_Stream and Compaction are rows 67, 69 and 73 of \<open>wave4.rs\<close>.
  \<^item> Fidelity: \<open>fidelity.rs\<close>, the timelines of planted tokens, the retention of tool results, the reason
    a run ended.  Durability: \<open>storage/durability.rs\<close>, the reader of synchronization traces and their summary.
    Row_Timing: \<open>row_timing.rs\<close>, the ledger of row clocks as a state machine; an operation is one section under
    the lock, and a history is a sequence of operations with the instants at which they read the clock.
    Auxiliaries: \<open>storage/auxiliaries.rs\<close>, the families of files at the checkpoints and their caps.
  \<^item> Child_Failure, Signal_Matrix and Offline_Mode are rows 56, 57 and 62 of \<open>wave2_automation.rs\<close>; Local_Delivery is
    the pure part of \<open>offline_guard.rs\<close>, the probes of local addresses and the monitor that samples them.
  \<^item> Trackers: the accounting of \<open>process/mod.rs\<close>, the CPU tracker with its lifetimes and the disk tracker with
    its retirement protocol, each operation as a function of the tracker's state.
  \<^item> Report_Diff and Diff_Document are \<open>diff.rs\<close>: the selection of the two compared runs, the joined rows with
    the gate, and the document with its scope; pillars get their derived \<open>linorder\<close>.  Storage_Summary is the
    summary of \<open>storage/evidence.rs\<close> as JSON with its comparison in \<open>diff/storage.rs\<close>.
  \<^item> The theories ending in Properties (and Barriers, Events) state the properties C1 to C40 with their witnesses.

  What the lemmas show.  Certification: a badge implies the evidence its rows ask for, never
  contradicts the exit code, and the score is monotone under all roundings.  Storage: the overlap
  search decides the existence of a common path (soundness and completeness of both nested
  searches, and termination), so that validated areas are disjoint and every path has one family.
  Accounting: families partition the bytes, the settle loop returns and what it returns is stable.
  Lifecycle: accepted evidence is complete, ordered and reconciled.  Timestamps: printing and
  parsing are inverse on 1970 to 9999.  Determinism: the comparison is exact up to
  the sign of zeros, as the equality of the crate is; row 64 says "identical" exactly when the normalized streams are
  equal as values and so are their digests, hence always when the bodies are the very same; and row 63 finds no
  varying field exactly when the streams agree.
  Workflow: the machine refines the list of scripted checkpoints per actor, actors do not influence
  each other, every script can be completed, no interleaving releases a barrier early or loses a
  wake-up.  Economy: encoding loses no byte, a completed task has its effect verified and its exact
  price, and the cache measurements stay within their bounds.  Retention: the union of ranges is the
  number of bytes covered, and a reported class rests on matches in the retained files.  Wave 2: rows
  are measured exactly on complete evidence, in any order; an accepted paced trial has an exact
  timetable that its two records agree on; a passing row 59 determines its counters; a bounded capture
  is a function of the stream and not of its chunks.  Waves 3 and 4: what a passing or complete row says of
  every single agent, turn, cut or announcement, over saturating counters and conversions between widths.
  Fidelity: each entry of a summary is the timeline of its token.  Durability: an accepted complete trace gives
  every spawned process an image of its own, and the class of a trial is the one of exact division.  Row
  timing: in every history a row starts at a submission or its entry, ends when it is completed or a terminal event of its
  session is observed, its duration lies between start and now, and polls are idempotent.  Auxiliaries: the
  classes and rotations are those of the inventories.  Rows 56, 57 and 62: what a passing row says of every
  trial, signal, owned address and refused connection.  Trackers: the CPU total counts every lifetime once, and
  a disk identity is retired on evidence only.  Diff: the gate fires exactly on lost passes, rows are
  joined once, the latest pair is the newest compatible one, and differences stay in a common scope.

  Loops.  \<open>search\<close> and \<open>settle_loop\<close> are partial functions with option results, and theorems show that
  they return: the first because the seen-set grows in a finite space, the second because the
  clock is monotone and passes the limit.  All other recursion terminates by itself or by a measure.
  No fuel is used.

  Modelling conventions.  Strings are lists of characters below 256, so text beyond Latin-1 is not
  represented; byte lengths go through \<open>utf8_bytes\<close>.  Renderings with \<open>{:?}\<close> are parameters
  (records \<open>debug_fmt\<close> and \<open>capture_debug\<close>), as are the clock, the walk of the file system and the
  test whether an instant fits, the JSON serializer and pointer lookup, SHA-256 (the whole function or, for a capture, the incremental hasher with its law), the random bytes
  of row 3, the natural logarithm and the square root of rows 54 and 55, the resolution of the clock,
  the matches of the tokenizer's splitting pattern, and the \<open>Notify\<close> of tokio.  A trace directory is the
  list of its files in path order; instants are nanoseconds.  Sums of \<open>u64\<close> that the code does not check wrap around, as in a
  release build.

  Not modelled: everything that is operating-system interaction or rendering (driver, runner, the system calls of
  process and of the offline guard, sampler, fake model server, mock harness, report), the TOML loading of manifests, and
  hashing of JSON.  Left for later: the validator of manifests, resource
  certification.
\<close>

end
